(* ===== verification/Prelude.thy ===== *)
theory Prelude
  imports Main "HOL-Library.Word"
begin

text \<open>
  Shared vocabulary of the development: results that may fail, bounded loops over index
  ranges, calls to an environment that is not part of the repository (the kernel and the
  user interface library), unsigned 32-bit arithmetic on \<open>nat\<close>, and the bounded C string
  buffers that several programs use with the same loop.
\<close>

section \<open>Results that may fail\<close>

text \<open>
  A computation that may stop with an error is a value of type \<open>'e + 'a\<close>: \<open>Inl\<close> the error,
  \<open>Inr\<close> the result. \<open>seqE\<close> runs the rest of a computation on the result.
\<close>

definition seqE :: "'e + 'a \<Rightarrow> ('a \<Rightarrow> 'e + 'b) \<Rightarrow> 'e + 'b" where
  "seqE m f = (case m of Inl e \<Rightarrow> Inl e | Inr x \<Rightarrow> f x)"

lemma seqE_simps [simp]:
  "seqE (Inl e) f = Inl e"
  "seqE (Inr x) f = f x"
  by (simp_all add: seqE_def)

lemma seqE_cong [fundef_cong]:
  assumes "m = m'" and "\<And>x. m' = Inr x \<Longrightarrow> f x = g x"
  shows "seqE m f = seqE m' g"
  using assms by (cases m') auto

lemma seqE_split:
  "P (seqE m f) \<longleftrightarrow> (\<forall>e. m = Inl e \<longrightarrow> P (Inl e)) \<and> (\<forall>x. m = Inr x \<longrightarrow> P (f x))"
  by (cases m) auto

lemma seqE_eq_Inr: "seqE m f = Inr y \<longleftrightarrow> (\<exists>x. m = Inr x \<and> f x = Inr y)"
  by (cases m) auto

lemma seqE_assoc: "seqE (seqE m f) g = seqE m (\<lambda>x. seqE (f x) g)"
  by (cases m) auto

section \<open>Loops over an index range\<close>

text \<open>
  A loop \<open>for (i : xs) body\<close> over a state, left at the first error. The index ranges of
  the source are \<open>[lo..<hi]\<close>.
\<close>

fun foreach :: "'i list \<Rightarrow> ('i \<Rightarrow> 's \<Rightarrow> 'e + 's) \<Rightarrow> 's \<Rightarrow> 'e + 's" where
  "foreach [] f s = Inr s"
| "foreach (i # xs) f s = seqE (f i s) (foreach xs f)"

lemma foreach_append: "foreach (xs @ ys) f s = seqE (foreach xs f s) (foreach ys f)"
proof (induction xs arbitrary: s)
  case (Cons x xs)
  then show ?case by (cases "f x s") auto
qed simp

text \<open>The loop rule: a step that keeps an invariant and never fails gives a loop that does.\<close>

lemma foreach_rule:
  assumes "I s"
    and "\<And>i s. i \<in> set xs \<Longrightarrow> I s \<Longrightarrow> \<exists>s'. f i s = Inr s' \<and> I s'"
  shows "\<exists>s'. foreach xs f s = Inr s' \<and> I s'"
  using assms
proof (induction xs arbitrary: s)
  case (Cons x xs)
  from Cons.prems obtain s1 where "f x s = Inr s1" "I s1" by fastforce
  moreover from this Cons.prems have "\<exists>s'. foreach xs f s1 = Inr s' \<and> I s'"
    by (intro Cons.IH) auto
  ultimately show ?case by simp
qed simp

text \<open>
  A counting loop in closed form: \<open>G i\<close> is the state before the pass with index \<open>i\<close>.
\<close>

lemma foreach_upt:
  assumes "lo \<le> hi" and "G lo = s"
    and "\<And>i. lo \<le> i \<Longrightarrow> i < hi \<Longrightarrow> f i (G i) = Inr (G (Suc i))"
  shows "foreach [lo..<hi] f s = Inr (G hi)"
  using assms
proof (induction hi rule: dec_induct)
  case (step n)
  then show ?case by (simp add: foreach_append)
qed simp

text \<open>A counting loop with an invariant that speaks about the index.\<close>

lemma foreach_upt_rule:
  assumes "lo \<le> hi" and "I lo s"
    and "\<And>i s. lo \<le> i \<Longrightarrow> i < hi \<Longrightarrow> I i s \<Longrightarrow> \<exists>s'. f i s = Inr s' \<and> I (Suc i) s'"
  shows "\<exists>s'. foreach [lo..<hi] f s = Inr s' \<and> I hi s'"
  using assms
proof (induction hi rule: dec_induct)
  case (step n)
  then obtain u where "foreach [lo..<n] f s = Inr u" "I n u" by fastforce
  moreover from this obtain v where "f n u = Inr v" "I (Suc n) v"
    using step.prems(2) [of n u] step.hyps by auto
  ultimately show ?case using step.hyps by (simp add: foreach_append)
qed simp

text \<open>A loop whose step always succeeds is a fold.\<close>

lemma foreach_fold: "foreach xs (\<lambda>i s. Inr (f i s)) s = Inr (fold f xs s)"
  by (induction xs arbitrary: s) auto

section \<open>Calls to the environment\<close>

text \<open>
  The kernel and the libraries the programs call are not in the repository. A program is
  given one as a function from the calls made so far (oldest first) and the call made now
  to the reply, so its answers may depend on everything the program did before; the model's
  states carry the list of calls made, which the properties speak about.
\<close>

type_synonym ('c, 'r) environment = "'c list \<Rightarrow> 'c \<Rightarrow> 'r"

section \<open>Unsigned 32-bit values on \<open>nat\<close>\<close>

definition u32_max :: nat where
  "u32_max = 4294967295"

definition u32_of_int :: "int \<Rightarrow> nat" where
  "u32_of_int i = nat (i mod 4294967296)"

definition u32_sub :: "nat \<Rightarrow> nat \<Rightarrow> nat" where
  "u32_sub a b = u32_of_int (int a - int b)"

definition u32_add :: "nat \<Rightarrow> nat \<Rightarrow> nat" where
  "u32_add a b = (a + b) mod 4294967296"

lemma u32_sub_le: "b \<le> a \<Longrightarrow> a \<le> u32_max \<Longrightarrow> u32_sub a b = a - b"
  by (simp add: u32_sub_def u32_of_int_def u32_max_def of_nat_diff flip: of_nat_diff)

lemma u32_of_int_id: "0 \<le> i \<Longrightarrow> i \<le> int u32_max \<Longrightarrow> u32_of_int i = nat i"
  by (simp add: u32_of_int_def u32_max_def)

lemma u32_add_id: "a + b \<le> u32_max \<Longrightarrow> u32_add a b = a + b"
  by (simp add: u32_add_def u32_max_def)

section \<open>Bounded C string buffers\<close>

text \<open>
  A buffer of \<open>capacity\<close> bytes that holds a NUL-terminated string is the list of its
  characters before the NUL. The append loop of the programs copies while there is text
  left and room for one more character and the NUL.
\<close>

fun append_loop :: "nat \<Rightarrow> string \<Rightarrow> string \<Rightarrow> string" where
  "append_loop capacity buffer [] = buffer"
| "append_loop capacity buffer (c # src) =
     (if length buffer + 1 < capacity then append_loop capacity (buffer @ [c]) src else buffer)"

lemma append_loop_take:
  "append_loop capacity buffer src = buffer @ take (capacity - 1 - length buffer) src"
proof (induction src arbitrary: buffer)
  case (Cons c src)
  show ?case
  proof (cases "length buffer + 1 < capacity")
    case True
    then have "capacity - 1 - length buffer = Suc (capacity - 1 - length (buffer @ [c]))"
      by simp
    with True show ?thesis using Cons.IH [of "buffer @ [c]"] by simp
  qed simp
qed simp

lemma append_loop_fits:
  "length buffer + length src < capacity \<Longrightarrow> append_loop capacity buffer src = buffer @ src"
  by (simp add: append_loop_take)

lemma append_loop_bound:
  "length buffer < capacity \<Longrightarrow> length (append_loop capacity buffer src) < capacity"
  by (auto simp: append_loop_take)

text \<open>\<open>strncpy\<close> into a cleared buffer whose last byte stays NUL.\<close>

definition bounded_copy :: "nat \<Rightarrow> string \<Rightarrow> string" where
  "bounded_copy capacity src = take (capacity - 1) src"

lemma bounded_copy_id [simp]: "length src < capacity \<Longrightarrow> bounded_copy capacity src = src"
  by (simp add: bounded_copy_def)

lemma bounded_copy_bound: "0 < capacity \<Longrightarrow> length (bounded_copy capacity src) < capacity"
  by (simp add: bounded_copy_def)

section \<open>Decimal digits\<close>

text \<open>
  The digit loop that several programs share: digits are produced least significant first
  and then written back to front. \<open>decimal n\<close> is the number as it is printed.
\<close>

definition digit_char :: "nat \<Rightarrow> char" where
  "digit_char d = char_of (48 + d)"

lemma digit_char_0: "digit_char 0 = CHR ''0''"
  by (code_simp)

fun low_digits :: "nat \<Rightarrow> string" where
  "low_digits n = (if n = 0 then [] else digit_char (n mod 10) # low_digits (n div 10))"

declare low_digits.simps [simp del]

lemma low_digits_0 [simp]: "low_digits 0 = []"
  by (simp add: low_digits.simps)

lemma low_digits_pos:
  "0 < n \<Longrightarrow> low_digits n = digit_char (n mod 10) # low_digits (n div 10)"
  by (simp add: low_digits.simps [of n])

definition decimal :: "nat \<Rightarrow> string" where
  "decimal n = (if n = 0 then ''0'' else rev (low_digits n))"

lemma of_char_digit_char [simp]: "d < 10 \<Longrightarrow> (of_char (digit_char d) :: nat) = 48 + d"
  by (simp add: digit_char_def)

lemma length_low_digits: "n < 10 ^ k \<Longrightarrow> length (low_digits n) \<le> k"
proof (induction k arbitrary: n)
  case (Suc k)
  show ?case
  proof (cases "n = 0")
    case False
    have "n div 10 < 10 ^ k" using Suc.prems by (simp add: less_mult_imp_div_less mult.commute)
    then show ?thesis using Suc.IH False by (simp add: low_digits_pos)
  qed simp
qed simp

lemma length_decimal: "n < 10 ^ k \<Longrightarrow> 0 < k \<Longrightarrow> length (decimal n) \<le> k"
  by (auto simp: decimal_def length_low_digits)

lemma digits_low_digits: "c \<in> set (low_digits n) \<Longrightarrow> \<exists>d<10. c = digit_char d"
proof (induction n rule: low_digits.induct)
  case (1 n)
  have "\<exists>d<10. digit_char (n mod 10) = digit_char d"
    by (rule exI [of _ "n mod 10"]) simp
  with 1 show ?case by (cases "n = 0") (auto simp: low_digits_pos)
qed

lemma decimal_nonempty: "decimal n \<noteq> []"
  by (auto simp: decimal_def low_digits_pos)

lemma digits_decimal: "c \<in> set (decimal n) \<Longrightarrow> \<exists>d<10. c = digit_char d"
proof (cases "n = 0")
  case True
  assume "c \<in> set (decimal n)"
  with True have "c = digit_char 0" by (simp add: decimal_def digit_char_0)
  then show ?thesis by (intro exI [of _ 0]) simp
next
  case False
  assume "c \<in> set (decimal n)"
  with False show ?thesis by (simp add: decimal_def digits_low_digits)
qed

text \<open>Reading the digits back gives the number.\<close>

definition digit_value :: "char \<Rightarrow> nat" where
  "digit_value c = of_char c - 48"

definition digits_value :: "string \<Rightarrow> nat" where
  "digits_value ds = foldl (\<lambda>v c. v * 10 + digit_value c) 0 ds"

lemma digit_value_char [simp]: "d < 10 \<Longrightarrow> digit_value (digit_char d) = d"
  by (simp add: digit_value_def)

lemma digits_value_decimal: "digits_value (decimal n) = n"
proof -
  have "foldl (\<lambda>v c. v * 10 + digit_value c) 0 (rev (low_digits n)) = n" for n
  proof (induction n rule: low_digits.induct)
    case (1 n)
    show ?case
    proof (cases "n = 0")
      case False
      then show ?thesis using 1 [OF False] by (simp add: low_digits_pos mod_less_divisor)
    qed simp
  qed
  then show ?thesis
    by (simp add: decimal_def digits_value_def digit_value_def)
qed

section \<open>Fixed-width fields\<close>

text \<open>A \<open>w\<close>-byte field in little-endian order.\<close>

fun le_bytes :: "nat \<Rightarrow> nat \<Rightarrow> nat list" where
  "le_bytes 0 n = []"
| "le_bytes (Suc w) n = n mod 256 # le_bytes w (n div 256)"

lemma length_le_bytes [simp]: "length (le_bytes w n) = w"
  by (induction w arbitrary: n) simp_all

fun of_le_bytes :: "nat list \<Rightarrow> nat" where
  "of_le_bytes [] = 0"
| "of_le_bytes (b # bs) = b + 256 * of_le_bytes bs"

lemma of_le_bytes_inverse: "n < 256 ^ w \<Longrightarrow> of_le_bytes (le_bytes w n) = n"
proof (induction w arbitrary: n)
  case (Suc w)
  then have "n div 256 < 256 ^ w" by (simp add: less_mult_imp_div_less mult.commute)
  then show ?case using Suc.IH by simp
qed simp

end
