(* ===== verification/Terminal.thy ===== *)
theory Terminal
  imports Prelude "HOL-Library.Signed_Division"
begin

text \<open>
  The terminal emulator, \<open>src/terminal/src/main.cpp\<close>: the character grid with its dirty row
  range, the VT/ANSI parser that writes it, resizing, and the translation of key presses to
  the bytes sent to the shell. Operations that index the grid or the parameter array, divide,
  or multiply an \<open>int\<close> return the undefined behaviour they would run into as an error value,
  so memory safety is a theorem about their results.
\<close>

section \<open>Data\<close>

definition kPaddingX :: int where "kPaddingX = 12"
definition kPaddingY :: int where "kPaddingY = 12"
definition kMaxRows :: nat where "kMaxRows = 120"
definition kMaxCols :: nat where "kMaxCols = 300"
definition int_max :: int where "int_max = 2147483647"

datatype color = RGB nat

definition kColorBackground :: color where "kColorBackground = RGB 0x091218"
definition kColorDefaultFg :: color where "kColorDefaultFg = RGB 0xd7f2e6"

definition kAnsiColors :: "color list" where
  "kAnsiColors =
     [RGB 0x101010, RGB 0xcc5555, RGB 0x66bb66, RGB 0xcccc66,
      RGB 0x5588cc, RGB 0xbb66bb, RGB 0x66bbbb, RGB 0xd7f2e6,
      RGB 0x505050, RGB 0xef798a, RGB 0x85d39a, RGB 0xf2c14e,
      RGB 0x3ba4d8, RGB 0xc98ad8, RGB 0x66cccc, RGB 0xffffff]"

record cell =
  ch :: char
  fg :: color
  bg :: color

datatype vt_state = Ground | Escape | CSI

record vt_parser =
  vt_state :: vt_state
  params :: "int list"
  paramCount :: int
  paramStarted :: bool

text \<open>
  The grid is the array \<open>grid[kMaxRows][kMaxCols]\<close>; every access goes through \<open>get_cell\<close> and
  \<open>set_cell\<close>, which check the array's bounds. The unsigned fields are \<open>nat\<close>s below \<open>2^32\<close>, with
  the wrap-around of \<open>u32_add\<close> and \<open>u32_sub\<close>.
\<close>

record terminal =
  grid :: "nat \<Rightarrow> nat \<Rightarrow> cell"
  rows :: nat
  cols :: nat
  cursorRow :: nat
  cursorCol :: nat
  curFg :: color
  curBg :: color
  parser :: vt_parser
  dirtyTop :: nat
  dirtyBottom :: nat

datatype ub = OutOfBounds | SignedOverflow | DivisionByZero

definition get_cell :: "terminal \<Rightarrow> nat \<Rightarrow> nat \<Rightarrow> ub + cell" where
  "get_cell t r c = (if r < kMaxRows \<and> c < kMaxCols then Inr (grid t r c) else Inl OutOfBounds)"

definition set_cell :: "terminal \<Rightarrow> nat \<Rightarrow> nat \<Rightarrow> cell \<Rightarrow> ub + terminal" where
  "set_cell t r c x =
     (if r < kMaxRows \<and> c < kMaxCols
      then Inr (t\<lparr>grid := (grid t)(r := (grid t r)(c := x))\<rparr>) else Inl OutOfBounds)"

section \<open>The grid\<close>

definition touch_rows :: "terminal \<Rightarrow> nat \<Rightarrow> nat \<Rightarrow> terminal" where
  "touch_rows t first bottom =
     (if bottom \<le> first then t
      else if dirtyBottom t \<le> dirtyTop t then t\<lparr>dirtyTop := first, dirtyBottom := bottom\<rparr>
      else t\<lparr>dirtyTop := (if first < dirtyTop t then first else dirtyTop t),
             dirtyBottom := (if dirtyBottom t < bottom then bottom else dirtyBottom t)\<rparr>)"

definition touch_all :: "terminal \<Rightarrow> terminal" where
  "touch_all t = touch_rows t 0 (rows t)"

definition clear_row :: "terminal \<Rightarrow> nat \<Rightarrow> nat \<Rightarrow> ub + terminal" where
  "clear_row t row fromCol =
     seqE (foreach [fromCol..<cols t]
             (\<lambda>c t. set_cell t row c \<lparr>ch = CHR '' '', fg = curFg t, bg = curBg t\<rparr>) t)
       (\<lambda>t. Inr (touch_rows t row (u32_add row 1)))"

definition clear_all :: "terminal \<Rightarrow> ub + terminal" where
  "clear_all t =
     seqE (foreach [0..<rows t] (\<lambda>r t. clear_row t r 0) t)
       (\<lambda>t. Inr (t\<lparr>cursorRow := 0, cursorCol := 0\<rparr>))"

definition copy_cell_up :: "nat \<Rightarrow> nat \<Rightarrow> terminal \<Rightarrow> ub + terminal" where
  "copy_cell_up r c t = seqE (get_cell t r c) (\<lambda>x. set_cell t (r - 1) c x)"

definition scroll_up :: "terminal \<Rightarrow> ub + terminal" where
  "scroll_up t =
     seqE (foreach [1..<rows t] (\<lambda>r t. foreach [0..<cols t] (copy_cell_up r) t) t)
       (\<lambda>t. seqE (clear_row t (u32_sub (rows t) 1) 0) (\<lambda>t. Inr (touch_all t)))"

definition newline :: "terminal \<Rightarrow> ub + terminal" where
  "newline t =
     (if rows t \<le> u32_add (cursorRow t) 1 then scroll_up t
      else Inr (t\<lparr>cursorRow := u32_add (cursorRow t) 1\<rparr>))"

definition put_char :: "terminal \<Rightarrow> char \<Rightarrow> ub + terminal" where
  "put_char t x =
     seqE (if cols t \<le> cursorCol t then newline (t\<lparr>cursorCol := 0\<rparr>) else Inr t)
       (\<lambda>t. seqE (set_cell t (cursorRow t) (cursorCol t) \<lparr>ch = x, fg = curFg t, bg = curBg t\<rparr>)
         (\<lambda>t. let t = touch_rows t (cursorRow t) (u32_add (cursorRow t) 1)
              in Inr (t\<lparr>cursorCol := u32_add (cursorCol t) 1\<rparr>)))"

section \<open>What the grid operations leave alone\<close>

text \<open>
  Erasing, scrolling and printing change the cells and the dirty range; \<open>same_frame\<close> says
  that nothing else of the state changed.
\<close>

definition same_frame :: "terminal \<Rightarrow> terminal \<Rightarrow> bool" where
  "same_frame t t' \<longleftrightarrow>
     rows t' = rows t \<and> cols t' = cols t \<and> cursorRow t' = cursorRow t \<and>
     cursorCol t' = cursorCol t \<and> curFg t' = curFg t \<and> curBg t' = curBg t \<and>
     parser t' = parser t"

lemma same_frame_refl [simp]: "same_frame t t"
  by (simp add: same_frame_def)

lemma same_frame_trans: "same_frame t u \<Longrightarrow> same_frame u v \<Longrightarrow> same_frame t v"
  by (simp add: same_frame_def)

lemma same_frameD:
  assumes "same_frame t t'"
  shows "rows t' = rows t" "cols t' = cols t" "cursorRow t' = cursorRow t"
    "cursorCol t' = cursorCol t" "curFg t' = curFg t" "curBg t' = curBg t" "parser t' = parser t"
  using assms by (auto simp: same_frame_def)

lemma foreach_frame:
  assumes "foreach xs f s = Inr s'"
    and "\<And>i s s'. i \<in> set xs \<Longrightarrow> f i s = Inr s' \<Longrightarrow> same_frame s s'"
  shows "same_frame s s'"
  using assms
proof (induction xs arbitrary: s)
  case (Cons x xs)
  then obtain s1 where "f x s = Inr s1" "foreach xs f s1 = Inr s'" by (auto simp: seqE_eq_Inr)
  then show ?case
    using Cons.IH [of s1] Cons.prems(2) by (meson list.set_intros same_frame_trans)
qed simp

lemma set_cell_frame: "set_cell t r c x = Inr t' \<Longrightarrow> same_frame t t'"
  by (auto simp: set_cell_def same_frame_def split: if_splits)

lemma touch_rows_frame [simp]: "same_frame t (touch_rows t a b)"
  by (simp add: touch_rows_def same_frame_def)

lemma touch_rows_simps [simp]:
  "rows (touch_rows t a b) = rows t" "cols (touch_rows t a b) = cols t"
  "cursorRow (touch_rows t a b) = cursorRow t" "cursorCol (touch_rows t a b) = cursorCol t"
  "curFg (touch_rows t a b) = curFg t" "curBg (touch_rows t a b) = curBg t"
  "parser (touch_rows t a b) = parser t" "grid (touch_rows t a b) = grid t"
  by (simp_all add: touch_rows_def)

lemma touch_all_frame [simp]: "same_frame t (touch_all t)"
  by (simp add: touch_all_def)

lemma clear_row_frame: "clear_row t row fromCol = Inr t' \<Longrightarrow> same_frame t t'"
  unfolding clear_row_def
  by (auto simp: seqE_eq_Inr intro: same_frame_trans
           dest!: foreach_frame [OF _ set_cell_frame])

lemma copy_cell_up_frame: "copy_cell_up r c t = Inr t' \<Longrightarrow> same_frame t t'"
  by (auto simp: copy_cell_up_def seqE_eq_Inr intro: set_cell_frame)

lemma scroll_up_frame:
  assumes "scroll_up t = Inr t'"
  shows "same_frame t t'"
proof -
  from assms obtain t1 t2 where
    loop: "foreach [1..<rows t] (\<lambda>r t. foreach [0..<cols t] (copy_cell_up r) t) t = Inr t1"
    and row: "clear_row t1 (u32_sub (rows t1) 1) 0 = Inr t2" and t': "t' = touch_all t2"
    by (auto simp: scroll_up_def seqE_eq_Inr)
  have "same_frame t t1"
    using loop by (rule foreach_frame) (auto intro: foreach_frame copy_cell_up_frame)
  then show ?thesis
    unfolding t' using clear_row_frame [OF row] by (blast intro: same_frame_trans touch_all_frame)
qed

section \<open>Control sequences\<close>

definition sgr_code :: "int \<Rightarrow> terminal \<Rightarrow> terminal" where
  "sgr_code code t =
     (if code = 0 then t\<lparr>curFg := kColorDefaultFg, curBg := kColorBackground\<rparr>
      else if 30 \<le> code \<and> code \<le> 37 then t\<lparr>curFg := kAnsiColors ! nat (code - 30)\<rparr>
      else if 90 \<le> code \<and> code \<le> 97 then t\<lparr>curFg := kAnsiColors ! nat (code - 90 + 8)\<rparr>
      else if 40 \<le> code \<and> code \<le> 47 then t\<lparr>curBg := kAnsiColors ! nat (code - 40)\<rparr>
      else if 100 \<le> code \<and> code \<le> 107 then t\<lparr>curBg := kAnsiColors ! nat (code - 100 + 8)\<rparr>
      else if code = 39 then t\<lparr>curFg := kColorDefaultFg\<rparr>
      else if code = 49 then t\<lparr>curBg := kColorBackground\<rparr>
      else t)"

definition apply_sgr :: "terminal \<Rightarrow> vt_parser \<Rightarrow> terminal" where
  "apply_sgr t p =
     (if paramCount p = 0 then t\<lparr>curFg := kColorDefaultFg, curBg := kColorBackground\<rparr>
      else fold sgr_code (take (nat (paramCount p)) (params p)) t)"

definition erase_display :: "terminal \<Rightarrow> int \<Rightarrow> ub + terminal" where
  "erase_display t a =
     (if a = 2 \<or> a = 3 then clear_all t
      else if a = 0 then
        seqE (clear_row t (cursorRow t) (cursorCol t))
          (\<lambda>t. foreach [u32_add (cursorRow t) 1..<rows t] (\<lambda>r t. clear_row t r 0) t)
      else if a = 1 then
        seqE (foreach [0..<cursorRow t] (\<lambda>r t. clear_row t r 0) t)
          (\<lambda>t. clear_row t (cursorRow t) 0)
      else Inr t)"

definition blank_char :: "nat \<Rightarrow> terminal \<Rightarrow> ub + terminal" where
  "blank_char c t =
     seqE (get_cell t (cursorRow t) c)
       (\<lambda>x. set_cell t (cursorRow t) c (x\<lparr>ch := CHR '' ''\<rparr>))"

definition erase_line :: "terminal \<Rightarrow> int \<Rightarrow> ub + terminal" where
  "erase_line t a =
     (if a = 0 then clear_row t (cursorRow t) (cursorCol t)
      else if a = 1 then
        seqE (foreach [0..<min (Suc (cursorCol t)) (cols t)] blank_char t)
          (\<lambda>t. Inr (touch_rows t (cursorRow t) (u32_add (cursorRow t) 1)))
      else if a = 2 then clear_row t (cursorRow t) 0
      else Inr t)"

definition or_one :: "int \<Rightarrow> int" where
  "or_one a = (if a \<noteq> 0 then a else 1)"

definition back_by :: "nat \<Rightarrow> int \<Rightarrow> nat" where
  "back_by pos a =
     u32_sub pos (if or_one a \<le> int pos then u32_of_int (or_one a) else pos)"

definition forward_by :: "nat \<Rightarrow> int \<Rightarrow> nat \<Rightarrow> nat" where
  "forward_by pos a limit =
     (let pos = u32_add pos (u32_of_int (or_one a))
      in if limit \<le> pos then u32_sub limit 1 else pos)"

definition handle_csi :: "terminal \<Rightarrow> char \<Rightarrow> ub + terminal" where
  "handle_csi t final =
     (let p = parser t;
          a = (if 0 < paramCount p then params p ! 0 else 0);
          b = (if 1 < paramCount p then params p ! 1 else 0)
      in if final = CHR ''A'' then Inr (t\<lparr>cursorRow := back_by (cursorRow t) a\<rparr>)
         else if final = CHR ''B'' then
           Inr (t\<lparr>cursorRow := forward_by (cursorRow t) a (rows t)\<rparr>)
         else if final = CHR ''C'' then
           Inr (t\<lparr>cursorCol := forward_by (cursorCol t) a (cols t)\<rparr>)
         else if final = CHR ''D'' then Inr (t\<lparr>cursorCol := back_by (cursorCol t) a\<rparr>)
         else if final = CHR ''H'' \<or> final = CHR ''f'' then
           (let row = (if 0 < a then u32_of_int (a - 1) else 0);
                col = (if 0 < b then u32_of_int (b - 1) else 0)
            in Inr (t\<lparr>cursorRow := (if row < rows t then row else u32_sub (rows t) 1),
                      cursorCol := (if col < cols t then col else u32_sub (cols t) 1)\<rparr>))
         else if final = CHR ''J'' then erase_display t a
         else if final = CHR ''K'' then erase_line t a
         else if final = CHR ''m'' then Inr (apply_sgr t p)
         else Inr t)"

section \<open>The parser\<close>

lemma put_char_advances:
  assumes "put_char t x = Inr t'" and "cursorCol t < cols t" and "cursorCol t < u32_max"
  shows "cursorCol t' = Suc (cursorCol t)" and "cols t' = cols t"
  using assms
  by (auto simp: put_char_def set_cell_def touch_rows_def u32_add_id Let_def split: if_splits)

text \<open>
  The tab loop: \<open>next\<close> is at most eight columns ahead, and each character printed before the
  right edge moves the cursor by one column, so it ends. (A column below \<open>cols\<close>, an unsigned
  32-bit value, is below the largest one: the third conjunct only says so to the termination
  proof.)
\<close>

function tab_loop :: "nat \<Rightarrow> terminal \<Rightarrow> ub + terminal" where
  "tab_loop stop t =
     (if cursorCol t < stop \<and> cursorCol t < cols t \<and> cursorCol t < u32_max
      then seqE (put_char t CHR '' '') (tab_loop stop) else Inr t)"
  by pat_completeness auto
termination
  by (relation "measure (\<lambda>(stop, t). stop - cursorCol t)")
     (auto dest: put_char_advances)

declare tab_loop.simps [simp del]

definition feed_ground :: "terminal \<Rightarrow> char \<Rightarrow> ub + terminal" where
  "feed_ground t x =
     (if x = CHR 0x1B then Inr (t\<lparr>parser := (parser t)\<lparr>vt_state := Escape\<rparr>\<rparr>)
      else if x = CHR 0x0A then newline t
      else if x = CHR 0x0D then Inr (t\<lparr>cursorCol := 0\<rparr>)
      else if x = CHR 0x08 then
        Inr (if 0 < cursorCol t then t\<lparr>cursorCol := cursorCol t - 1\<rparr> else t)
      else if x = CHR 0x09 then tab_loop (u32_add (cursorCol t) 8 div 8 * 8) t
      else if x = CHR 0x07 then Inr t
      else if 32 \<le> (of_char x :: nat) then put_char t x
      else Inr t)"

definition feed_escape :: "terminal \<Rightarrow> char \<Rightarrow> terminal" where
  "feed_escape t x =
     (if x = CHR ''['' then
        t\<lparr>parser := \<lparr>vt_state = CSI, params = replicate 8 0, paramCount = 0,
                    paramStarted = False\<rparr>\<rparr>
      else t\<lparr>parser := (parser t)\<lparr>vt_state := Ground\<rparr>\<rparr>)"

text \<open>
  A digit of a parameter: \<open>params[paramCount - 1] * 10 + (ch - '0')\<close> in \<open>int\<close>, whose overflow
  is undefined behaviour.
\<close>

definition add_digit :: "vt_parser \<Rightarrow> char \<Rightarrow> ub + vt_parser" where
  "add_digit p x =
     (let count = (if paramCount p = 0 then 1 else paramCount p);
          i = nat (count - 1)
      in if length (params p) \<le> i then Inl OutOfBounds
         else let v = params p ! i * 10; w = v + (int (of_char x) - 48)
              in if int_max < v \<or> int_max < w then Inl SignedOverflow
                 else Inr (p\<lparr>paramCount := count, params := (params p)[i := w],
                            paramStarted := True\<rparr>))"

definition next_param :: "vt_parser \<Rightarrow> vt_parser" where
  "next_param p =
     (let count = (if paramCount p < 8 then paramCount p + 1 else paramCount p)
      in p\<lparr>paramCount := count,
           params := (if 0 < count \<and> count \<le> 8 then (params p)[nat (count - 1) := 0]
                      else params p)\<rparr>)"

definition is_digit :: "char \<Rightarrow> bool" where
  "is_digit x \<longleftrightarrow> 48 \<le> (of_char x :: nat) \<and> (of_char x :: nat) \<le> 57"

definition to_ground :: "terminal \<Rightarrow> terminal" where
  "to_ground t = t\<lparr>parser := (parser t)\<lparr>vt_state := Ground\<rparr>\<rparr>"

definition feed_csi :: "terminal \<Rightarrow> char \<Rightarrow> ub + terminal" where
  "feed_csi t x =
     (if is_digit x then seqE (add_digit (parser t) x) (\<lambda>p. Inr (t\<lparr>parser := p\<rparr>))
      else if x = CHR '';'' then Inr (t\<lparr>parser := next_param (parser t)\<rparr>)
      else if x = CHR ''?'' then Inr t
      else if 0x40 \<le> (of_char x :: nat) \<and> (of_char x :: nat) \<le> 0x7E then
        seqE (handle_csi t x) (\<lambda>t. Inr (to_ground t))
      else Inr (to_ground t))"

definition parser_feed :: "terminal \<Rightarrow> char \<Rightarrow> ub + terminal" where
  "parser_feed t x =
     (case vt_state (parser t) of
        Ground \<Rightarrow> feed_ground t x
      | Escape \<Rightarrow> Inr (feed_escape t x)
      | CSI \<Rightarrow> feed_csi t x)"

definition feed_bytes :: "terminal \<Rightarrow> string \<Rightarrow> ub + terminal" where
  "feed_bytes t xs = foreach xs (\<lambda>x t. parser_feed t x) t"

section \<open>Resizing\<close>

definition fit_clamp :: "int \<Rightarrow> nat \<Rightarrow> nat" where
  "fit_clamp n limit = (if n < 1 then 1 else if int limit < n then limit else u32_of_int n)"

definition blank_new_cells :: "nat \<Rightarrow> nat \<Rightarrow> terminal \<Rightarrow> ub + terminal" where
  "blank_new_cells newRows newCols t =
     foreach [0..<newRows]
       (\<lambda>r t. foreach [(if r < rows t then cols t else 0)..<newCols]
          (\<lambda>c t. set_cell t r c \<lparr>ch = CHR '' '', fg = kColorDefaultFg, bg = kColorBackground\<rparr>) t) t"

text \<open>
  The loop that scrolls while the cursor is below the new last row; \<open>newRows\<close> is at least 1
  (\<open>fit_clamp\<close>), so the second conjunct follows from the first.
\<close>

function shrink_loop :: "nat \<Rightarrow> terminal \<Rightarrow> ub + terminal" where
  "shrink_loop newRows t =
     (if newRows \<le> cursorRow t \<and> 0 < cursorRow t then
        seqE (scroll_up (t\<lparr>rows := u32_add (cursorRow t) 1\<rparr>))
          (\<lambda>t. shrink_loop newRows (t\<lparr>cursorRow := cursorRow t - 1\<rparr>))
      else Inr t)"
  by pat_completeness auto
termination
  by (relation "measure (\<lambda>(n, t). cursorRow t)") (auto dest!: scroll_up_frame simp: same_frame_def)

declare shrink_loop.simps [simp del]

definition fit_grid :: "terminal \<Rightarrow> int \<times> int \<Rightarrow> int \<Rightarrow> int \<Rightarrow> ub + terminal" where
  "fit_grid t client cellW lineH =
     (if cellW = 0 \<or> lineH = 0 then Inl DivisionByZero
      else let newCols = fit_clamp ((fst client - kPaddingX * 2) sdiv cellW) kMaxCols;
               newRows = fit_clamp ((snd client - kPaddingY * 2) sdiv lineH) kMaxRows
           in seqE (blank_new_cells newRows newCols t)
             (\<lambda>t. seqE (shrink_loop newRows (t\<lparr>cols := newCols\<rparr>))
               (\<lambda>t. let t = t\<lparr>rows := newRows\<rparr>;
                        t = (if cols t < cursorCol t then t\<lparr>cursorCol := cols t\<rparr> else t)
                    in Inr (touch_all t))))"

section \<open>The grid operations in closed form\<close>

definition wf_parser :: "vt_parser \<Rightarrow> bool" where
  "wf_parser p \<longleftrightarrow> length (params p) = 8 \<and> 0 \<le> paramCount p \<and> paramCount p \<le> 8 \<and>
     (\<forall>v\<in>set (params p). 0 \<le> v \<and> v \<le> int_max)"

text \<open>The invariant of the screen: a grid that fits the arrays and a cursor inside it.\<close>

definition wf_terminal :: "terminal \<Rightarrow> bool" where
  "wf_terminal t \<longleftrightarrow> 1 \<le> rows t \<and> rows t \<le> kMaxRows \<and> 1 \<le> cols t \<and> cols t \<le> kMaxCols \<and>
     cursorRow t < rows t \<and> cursorCol t \<le> cols t \<and> wf_parser (parser t)"

lemma wf_same_frame: "same_frame t t' \<Longrightarrow> wf_terminal t' = wf_terminal t"
  by (simp add: wf_terminal_def same_frame_def)

lemmas sizes = kMaxRows_def kMaxCols_def u32_max_def

definition blank :: "terminal \<Rightarrow> cell" where
  "blank t = \<lparr>ch = CHR '' '', fg = curFg t, bg = curBg t\<rparr>"

definition erased :: "terminal \<Rightarrow> nat \<Rightarrow> nat \<Rightarrow> terminal" where
  "erased t row fromCol =
     t\<lparr>grid := (\<lambda>r c. if r = row \<and> fromCol \<le> c \<and> c < cols t then blank t else grid t r c)\<rparr>"

lemma grid_update_eqI:
  "(\<And>r c. f r c = g r c) \<Longrightarrow> t\<lparr>grid := f\<rparr> = t\<lparr>grid := g\<rparr>"
  by (rule arg_cong [where f = "\<lambda>g. t\<lparr>grid := g\<rparr>"]) (intro ext)

lemma grid_update_idI: "(\<And>r c. f r c = grid t r c) \<Longrightarrow> t\<lparr>grid := f\<rparr> = t"
  using grid_update_eqI [of f "grid t" t] by simp

lemma clear_row_closed:
  assumes "row < kMaxRows" and "cols t \<le> kMaxCols"
  shows "clear_row t row fromCol = Inr (touch_rows (erased t row fromCol) row (Suc row))"
proof -
  let ?G = "\<lambda>i. t\<lparr>grid := (\<lambda>r c. if r = row \<and> fromCol \<le> c \<and> c < i then blank t else grid t r c)\<rparr>"
  let ?f = "\<lambda>c t. set_cell t row c \<lparr>ch = CHR '' '', fg = curFg t, bg = curBg t\<rparr>"
  have "foreach [fromCol..<cols t] ?f t = Inr (erased t row fromCol)"
  proof (cases "fromCol \<le> cols t")
    case True
    have "?G fromCol = t" by (rule grid_update_idI) auto
    moreover have "?f i (?G i) = Inr (?G (Suc i))" if "fromCol \<le> i" "i < cols t" for i
      using that assms by (auto simp: set_cell_def blank_def less_Suc_eq intro!: grid_update_eqI)
    ultimately have "foreach [fromCol..<cols t] ?f t = Inr (?G (cols t))"
      using True by (intro foreach_upt)
    then show ?thesis by (simp add: erased_def)
  next
    case False
    then have "erased t row fromCol = t" unfolding erased_def by (intro grid_update_idI) auto
    with False show ?thesis by simp
  qed
  moreover have "u32_add row 1 = Suc row" using assms by (simp add: u32_add_id sizes)
  ultimately show ?thesis by (simp add: clear_row_def)
qed

definition scrolled :: "terminal \<Rightarrow> terminal" where
  "scrolled t =
     t\<lparr>grid := (\<lambda>r c. if c < cols t \<and> r < rows t
                      then (if Suc r < rows t then grid t (Suc r) c else blank t)
                      else grid t r c)\<rparr>"

lemma copy_row_closed:
  assumes "1 \<le> k" and "k < kMaxRows" and "n \<le> kMaxCols"
  shows "foreach [0..<n] (copy_cell_up k) s =
    Inr (s\<lparr>grid := (\<lambda>r c. if r = k - 1 \<and> c < n then grid s k c else grid s r c)\<rparr>)"
proof (rule foreach_upt [where G = "\<lambda>j. s\<lparr>grid := (\<lambda>r c. if r = k - 1 \<and> c < j then grid s k c else grid s r c)\<rparr>"])
  fix j assume "j < n"
  then show "copy_cell_up k j (s\<lparr>grid := (\<lambda>r c. if r = k - 1 \<and> c < j then grid s k c else grid s r c)\<rparr>) =
      Inr (s\<lparr>grid := (\<lambda>r c. if r = k - 1 \<and> c < Suc j then grid s k c else grid s r c)\<rparr>)"
    using assms
    by (auto simp: copy_cell_up_def get_cell_def set_cell_def less_Suc_eq intro!: grid_update_eqI)
qed simp_all

lemma scroll_up_closed:
  assumes "1 \<le> rows t" and "rows t \<le> kMaxRows" and "cols t \<le> kMaxCols"
  shows "scroll_up t = Inr (touch_all (touch_rows (scrolled t) (rows t - 1) (rows t)))"
proof -
  let ?G = "\<lambda>k. t\<lparr>grid := (\<lambda>r c. if c < cols t \<and> Suc r < k then grid t (Suc r) c else grid t r c)\<rparr>"
  have "foreach [1..<rows t] (\<lambda>r t. foreach [0..<cols t] (copy_cell_up r) t) t = Inr (?G (rows t))"
  proof (rule foreach_upt)
    fix k assume k: "1 \<le> k" "k < rows t"
    then have "foreach [0..<cols t] (copy_cell_up k) (?G k) =
      Inr ((?G k)\<lparr>grid := (\<lambda>r c. if r = k - 1 \<and> c < cols t then grid (?G k) k c else grid (?G k) r c)\<rparr>)"
      using assms by (intro copy_row_closed) auto
    also have "(?G k)\<lparr>grid := (\<lambda>r c. if r = k - 1 \<and> c < cols t then grid (?G k) k c else grid (?G k) r c)\<rparr> =
      ?G (Suc k)"
      using k by (auto intro!: grid_update_eqI)
    finally show "foreach [0..<cols (?G k)] (copy_cell_up k) (?G k) = Inr (?G (Suc k))" by simp
  qed (use assms in \<open>auto intro: grid_update_idI\<close>)
  moreover have "u32_sub (rows t) 1 = rows t - 1"
    using assms by (intro u32_sub_le) (auto simp: sizes)
  moreover have "erased (?G (rows t)) (rows t - 1) 0 = scrolled t"
    using assms by (auto simp: erased_def scrolled_def blank_def intro!: grid_update_eqI)
  ultimately show ?thesis
    using assms by (simp add: scroll_up_def clear_row_closed)
qed

section \<open>The dirty range\<close>

definition in_dirty :: "terminal \<Rightarrow> nat \<Rightarrow> bool" where
  "in_dirty t r \<longleftrightarrow> dirtyTop t \<le> r \<and> r < dirtyBottom t"

text \<open>
  \<open>repaints t t'\<close>: going from \<open>t\<close> to \<open>t'\<close>, no row leaves the dirty range, and every row with
  a changed cell is in it.
\<close>

definition repaints :: "terminal \<Rightarrow> terminal \<Rightarrow> bool" where
  "repaints t t' \<longleftrightarrow>
     (\<forall>r. in_dirty t r \<longrightarrow> in_dirty t' r) \<and>
     (\<forall>r c. grid t' r c \<noteq> grid t r c \<longrightarrow> in_dirty t' r)"

lemma repaints_refl [simp]: "repaints t t"
  by (simp add: repaints_def)

lemma repaints_trans: "repaints t u \<Longrightarrow> repaints u v \<Longrightarrow> repaints t v"
  unfolding repaints_def by metis

lemma repaints_same_grid:
  "grid t' = grid t \<Longrightarrow> dirtyTop t' = dirtyTop t \<Longrightarrow> dirtyBottom t' = dirtyBottom t \<Longrightarrow>
   repaints t t'"
  by (simp add: repaints_def in_dirty_def)

lemma in_dirty_touch_rows:
  "in_dirty t r \<or> (a \<le> r \<and> r < b) \<Longrightarrow> in_dirty (touch_rows t a b) r"
  by (auto simp: in_dirty_def touch_rows_def)

lemma repaints_touch:
  assumes "\<And>r c. grid t' r c \<noteq> grid t r c \<Longrightarrow> a \<le> r \<and> r < b"
    and "dirtyTop t' = dirtyTop t" "dirtyBottom t' = dirtyBottom t"
  shows "repaints t (touch_rows t' a b)"
  unfolding repaints_def
proof (intro conjI allI impI)
  fix r assume "in_dirty t r"
  then have "in_dirty t' r" using assms(2,3) by (simp add: in_dirty_def)
  then show "in_dirty (touch_rows t' a b) r" by (simp add: in_dirty_touch_rows)
next
  fix r c assume "grid (touch_rows t' a b) r c \<noteq> grid t r c"
  then show "in_dirty (touch_rows t' a b) r"
    using assms(1) by (simp add: in_dirty_touch_rows)
qed

text \<open>An operation on the screen went well: it kept the frame and recorded what it changed.\<close>

definition drawn :: "terminal \<Rightarrow> terminal \<Rightarrow> bool" where
  "drawn t t' \<longleftrightarrow> same_frame t t' \<and> repaints t t'"

lemma drawn_refl [simp]: "drawn t t"
  by (simp add: drawn_def)

lemma drawn_trans: "drawn t u \<Longrightarrow> drawn u v \<Longrightarrow> drawn t v"
  by (auto simp: drawn_def intro: same_frame_trans repaints_trans)

lemma drawnD:
  assumes "drawn t s"
  shows "wf_terminal t \<Longrightarrow> wf_terminal s" "rows s = rows t" "cols s = cols t"
    "cursorRow s = cursorRow t" "cursorCol s = cursorCol t" "parser s = parser t"
    "curFg s = curFg t" "curBg s = curBg t" "repaints t s"
  using assms wf_same_frame [of t s] by (auto simp: drawn_def same_frame_def)

lemma clear_row_drawn:
  assumes "wf_terminal t" and "row < rows t"
  shows "\<exists>t'. clear_row t row fromCol = Inr t' \<and> drawn t t'"
proof -
  from assms have "clear_row t row fromCol = Inr (touch_rows (erased t row fromCol) row (Suc row))"
    by (intro clear_row_closed) (auto simp: wf_terminal_def)
  moreover have "repaints t (touch_rows (erased t row fromCol) row (Suc row))"
    by (rule repaints_touch) (auto simp: erased_def split: if_splits)
  moreover have "same_frame t (touch_rows (erased t row fromCol) row (Suc row))"
    by (auto simp: same_frame_def touch_rows_def erased_def)
  ultimately show ?thesis by (auto simp: drawn_def)
qed

lemma clear_rows_drawn:
  assumes "wf_terminal t" and "\<forall>r\<in>set xs. r < rows t"
  shows "\<exists>t'. foreach xs (\<lambda>r t. clear_row t r 0) t = Inr t' \<and> drawn t t'"
proof (rule foreach_rule)
  fix r s assume r: "r \<in> set xs" and s: "drawn t s"
  then have "wf_terminal s" "r < rows s"
    using assms drawnD [OF s] by auto
  then obtain s' where "clear_row s r 0 = Inr s'" "drawn s s'"
    using clear_row_drawn by blast
  with s show "\<exists>s'. clear_row s r 0 = Inr s' \<and> drawn t s'"
    by (blast intro: drawn_trans)
qed simp

lemma scroll_up_drawn:
  assumes "wf_terminal t"
  shows "\<exists>t'. scroll_up t = Inr t' \<and> drawn t t'"
proof -
  let ?t = "touch_rows (scrolled t) (rows t - 1) (rows t)"
  have all: "touch_all ?t = touch_rows ?t 0 (rows t)"
    by (simp add: touch_all_def touch_rows_def scrolled_def)
  have "scroll_up t = Inr (touch_all ?t)"
    using assms by (intro scroll_up_closed) (auto simp: wf_terminal_def)
  moreover have "same_frame t (touch_all ?t)"
    by (auto simp: same_frame_def touch_all_def touch_rows_def scrolled_def)
  moreover have "repaints t (touch_all ?t)"
    unfolding all repaints_def
  proof (intro conjI allI impI)
    fix r assume "in_dirty t r"
    then have "in_dirty (scrolled t) r" by (simp add: in_dirty_def scrolled_def)
    then show "in_dirty (touch_rows ?t 0 (rows t)) r" by (simp add: in_dirty_touch_rows)
  next
    fix r c assume "grid (touch_rows ?t 0 (rows t)) r c \<noteq> grid t r c"
    then have "r < rows t" by (simp add: scrolled_def split: if_splits)
    then show "in_dirty (touch_rows ?t 0 (rows t)) r" by (simp add: in_dirty_touch_rows)
  qed
  ultimately show ?thesis by (auto simp: drawn_def)
qed

section \<open>Every byte keeps the screen well formed\<close>

text \<open>
  What each step of the emulator guarantees: the screen stays well formed, keeps its size, and
  every changed row is in the dirty range.
\<close>

definition kept :: "terminal \<Rightarrow> terminal \<Rightarrow> bool" where
  "kept t t' \<longleftrightarrow>
     wf_terminal t' \<and> rows t' = rows t \<and> cols t' = cols t \<and> repaints t t'"

lemma kept_refl: "wf_terminal t \<Longrightarrow> kept t t"
  by (simp add: kept_def)

lemma kept_trans: "kept t u \<Longrightarrow> kept u v \<Longrightarrow> kept t v"
  by (auto simp: kept_def intro: repaints_trans)

lemma keptD: "kept t t' \<Longrightarrow> wf_terminal t'"
  by (simp add: kept_def)

lemma drawn_kept: "wf_terminal t \<Longrightarrow> drawn t t' \<Longrightarrow> kept t t'"
  by (simp add: kept_def drawnD)

lemma cursor_kept:
  assumes "wf_terminal t" and "r < rows t" and "c \<le> cols t"
  shows "kept t (t\<lparr>cursorRow := r, cursorCol := c\<rparr>)"
  using assms by (auto simp: kept_def wf_terminal_def intro: repaints_same_grid)

lemma col_kept: "wf_terminal t \<Longrightarrow> c \<le> cols t \<Longrightarrow> kept t (t\<lparr>cursorCol := c\<rparr>)"
  using cursor_kept [of t "cursorRow t" c] by (simp add: wf_terminal_def)

lemma parser_kept:
  assumes "wf_terminal t" and "wf_parser p"
  shows "kept t (t\<lparr>parser := p\<rparr>)"
  using assms by (auto simp: kept_def wf_terminal_def intro: repaints_same_grid)

lemma wf_bounds:
  assumes "wf_terminal t"
  shows "cursorRow t < rows t" "cursorCol t \<le> cols t" "1 \<le> rows t" "1 \<le> cols t"
    "rows t \<le> 120" "cols t \<le> 300"
  using assms by (auto simp: wf_terminal_def sizes)

lemma newline_kept:
  assumes "wf_terminal t"
  shows "\<exists>t'. newline t = Inr t' \<and> kept t t' \<and> cursorCol t' = cursorCol t"
proof (cases "rows t \<le> cursorRow t + 1")
  case True
  then have "newline t = scroll_up t"
    using wf_bounds [OF assms] by (simp add: newline_def u32_add_id sizes)
  then show ?thesis
    using scroll_up_drawn [OF assms] drawn_kept [OF assms] drawnD(5) by fastforce
next
  case False
  then have "newline t = Inr (t\<lparr>cursorRow := cursorRow t + 1\<rparr>)"
    using wf_bounds [OF assms] by (simp add: newline_def u32_add_id sizes)
  moreover have "kept t (t\<lparr>cursorRow := cursorRow t + 1, cursorCol := cursorCol t\<rparr>)"
    using False assms wf_bounds [OF assms] by (intro cursor_kept) auto
  ultimately show ?thesis by simp
qed

lemma put_cell_kept:
  assumes "wf_terminal t" and "cursorCol t < cols t"
  shows "\<exists>t'. seqE (set_cell t (cursorRow t) (cursorCol t) x)
       (\<lambda>t. Inr ((touch_rows t (cursorRow t) (u32_add (cursorRow t) 1))
                   \<lparr>cursorCol := u32_add (cursorCol t) 1\<rparr>)) = Inr t' \<and>
     kept t t' \<and> cursorCol t' = Suc (cursorCol t)"
proof -
  let ?r = "cursorRow t" and ?c = "cursorCol t"
  note b = wf_bounds [OF assms(1)]
  let ?s = "t\<lparr>grid := (grid t)(?r := (grid t ?r)(?c := x))\<rparr>"
  let ?u = "touch_rows ?s ?r (Suc ?r)"
  have set: "set_cell t ?r ?c x = Inr ?s"
    using assms b by (simp add: set_cell_def sizes)
  have add: "u32_add ?r 1 = Suc ?r" "u32_add ?c 1 = Suc ?c"
    using assms b by (simp_all add: u32_add_id sizes)
  have "repaints t ?u"
    by (rule repaints_touch) (auto split: if_splits)
  moreover have "same_frame t ?u"
    by (simp add: same_frame_def touch_rows_def)
  ultimately have "kept t ?u" "cursorCol ?u = ?c" "cursorRow ?u = ?r" "cols ?u = cols t"
    using assms drawn_kept by (auto simp: drawn_def same_frame_def)
  note u = this
  have "kept ?u (?u\<lparr>cursorCol := Suc ?c\<rparr>)"
    using assms u by (intro col_kept keptD [OF u(1)]) auto
  then have "kept t (?u\<lparr>cursorCol := Suc ?c\<rparr>)"
    by (rule kept_trans [OF u(1)])
  then show ?thesis using set add by simp
qed

lemma put_char_kept:
  assumes "wf_terminal t"
  shows "\<exists>t'. put_char t x = Inr t' \<and> kept t t'"
proof -
  have "\<exists>s. (if cols t \<le> cursorCol t then newline (t\<lparr>cursorCol := 0\<rparr>) else Inr t) = Inr s \<and>
      kept t s \<and> cursorCol s < cols s"
  proof (cases "cols t \<le> cursorCol t")
    case True
    have k: "kept t (t\<lparr>cursorRow := cursorRow t, cursorCol := 0\<rparr>)"
      using assms wf_bounds [OF assms] by (intro cursor_kept) auto
    then obtain s where "newline (t\<lparr>cursorCol := 0\<rparr>) = Inr s" "kept (t\<lparr>cursorCol := 0\<rparr>) s"
      "cursorCol s = 0"
      using newline_kept [of "t\<lparr>cursorCol := 0\<rparr>"] keptD by fastforce
    with True k show ?thesis
      using kept_trans wf_bounds(4) [OF keptD [of "t\<lparr>cursorCol := 0\<rparr>" s]] by auto
  qed (use assms in \<open>auto intro: kept_refl\<close>)
  then obtain s where s: "(if cols t \<le> cursorCol t then newline (t\<lparr>cursorCol := 0\<rparr>) else Inr t) = Inr s"
    "kept t s" "cursorCol s < cols s" by blast
  show ?thesis
    using put_cell_kept [OF keptD [OF s(2)] s(3), of "\<lparr>ch = x, fg = curFg s, bg = curBg s\<rparr>"]
      kept_trans [OF s(2)] by (auto simp: put_char_def s(1) Let_def)
qed

lemma tab_loop_kept:
  assumes "wf_terminal t"
  shows "\<exists>t'. tab_loop stop t = Inr t' \<and> kept t t'"
  using assms
proof (induction stop t rule: tab_loop.induct)
  case (1 stop t)
  show ?case
  proof (cases "cursorCol t < stop \<and> cursorCol t < cols t \<and> cursorCol t < u32_max")
    case True
    obtain s where s: "put_char t CHR '' '' = Inr s" "kept t s"
      using put_char_kept [OF 1(2)] by blast
    then obtain t' where "tab_loop stop s = Inr t'" "kept s t'"
      using 1(1) [OF True s(1)] keptD by blast
    with True s show ?thesis by (auto simp: tab_loop.simps [of stop t] intro: kept_trans)
  next
    case False
    then have "tab_loop stop t = Inr t" by (auto simp: tab_loop.simps [of stop t])
    with 1(2) show ?thesis by (simp add: kept_refl)
  qed
qed

lemma sgr_code_keeps:
  "grid (sgr_code c t) = grid t" "rows (sgr_code c t) = rows t" "cols (sgr_code c t) = cols t"
  "cursorRow (sgr_code c t) = cursorRow t" "cursorCol (sgr_code c t) = cursorCol t"
  "parser (sgr_code c t) = parser t" "dirtyTop (sgr_code c t) = dirtyTop t"
  "dirtyBottom (sgr_code c t) = dirtyBottom t"
  by (simp_all add: sgr_code_def)

lemma sgr_codes_keep:
  "grid (fold sgr_code cs t) = grid t \<and> rows (fold sgr_code cs t) = rows t \<and>
   cols (fold sgr_code cs t) = cols t \<and> cursorRow (fold sgr_code cs t) = cursorRow t \<and>
   cursorCol (fold sgr_code cs t) = cursorCol t \<and> parser (fold sgr_code cs t) = parser t \<and>
   dirtyTop (fold sgr_code cs t) = dirtyTop t \<and> dirtyBottom (fold sgr_code cs t) = dirtyBottom t"
  by (induction cs arbitrary: t) (simp_all add: sgr_code_keeps)

lemma apply_sgr_kept: "wf_terminal t \<Longrightarrow> kept t (apply_sgr t p)"
  using sgr_codes_keep [of "take (nat (paramCount p)) (params p)" t]
  by (auto simp: apply_sgr_def kept_def wf_terminal_def intro: repaints_same_grid)

lemma blank_char_drawn:
  assumes "wf_terminal t" and "c < cols t"
  shows "\<exists>g. blank_char c t = Inr (t\<lparr>grid := g\<rparr>) \<and> (\<forall>r. r \<noteq> cursorRow t \<longrightarrow> g r = grid t r)"
  using assms wf_bounds [OF assms(1)]
  by (auto simp: blank_char_def get_cell_def set_cell_def sizes intro!: exI)

lemma blank_chars:
  assumes "wf_terminal t" and "\<forall>c\<in>set xs. c < cols t"
  shows "\<exists>t'. foreach xs blank_char t = Inr t' \<and>
    (\<exists>g. t' = t\<lparr>grid := g\<rparr> \<and> (\<forall>r. r \<noteq> cursorRow t \<longrightarrow> g r = grid t r))"
proof (rule foreach_rule)
  fix c s assume c: "c \<in> set xs"
    and "\<exists>g. s = t\<lparr>grid := g\<rparr> \<and> (\<forall>r. r \<noteq> cursorRow t \<longrightarrow> g r = grid t r)"
  then obtain g where s: "s = t\<lparr>grid := g\<rparr>" "\<forall>r. r \<noteq> cursorRow t \<longrightarrow> g r = grid t r" by blast
  have "wf_terminal s" "c < cols s" using s assms c by (auto simp: wf_terminal_def)
  then obtain h where "blank_char c s = Inr (s\<lparr>grid := h\<rparr>)" "\<forall>r. r \<noteq> cursorRow s \<longrightarrow> h r = grid s r"
    using blank_char_drawn by blast
  then show "\<exists>s'. blank_char c s = Inr s' \<and>
      (\<exists>g. s' = t\<lparr>grid := g\<rparr> \<and> (\<forall>r. r \<noteq> cursorRow t \<longrightarrow> g r = grid t r))"
    using s by auto
qed (auto intro!: exI [of _ "grid t"])

lemma erase_line_kept:
  assumes "wf_terminal t"
  shows "\<exists>t'. erase_line t a = Inr t' \<and> kept t t'"
proof -
  note b = wf_bounds [OF assms]
  have row: "\<exists>t'. clear_row t (cursorRow t) c = Inr t' \<and> kept t t'" for c
    using clear_row_drawn [OF assms b(1)] drawn_kept [OF assms] by blast
  have "\<exists>t'. foreach [0..<min (Suc (cursorCol t)) (cols t)] blank_char t = Inr t' \<and>
    (\<exists>g. t' = t\<lparr>grid := g\<rparr> \<and> (\<forall>r. r \<noteq> cursorRow t \<longrightarrow> g r = grid t r))"
    by (rule blank_chars) (use assms in auto)
  then obtain g where g: "foreach [0..<min (Suc (cursorCol t)) (cols t)] blank_char t = Inr (t\<lparr>grid := g\<rparr>)"
    "\<forall>r. r \<noteq> cursorRow t \<longrightarrow> g r = grid t r" by blast
  have changed: "r = cursorRow t" if "g r c \<noteq> grid t r c" for r c
    using g(2) that by metis
  have "repaints t (touch_rows (t\<lparr>grid := g\<rparr>) (cursorRow t) (u32_add (cursorRow t) 1))"
    using changed b by (intro repaints_touch) (force simp: u32_add_id sizes)+
  moreover have "same_frame t (touch_rows (t\<lparr>grid := g\<rparr>) (cursorRow t) (u32_add (cursorRow t) 1))"
    by (simp add: same_frame_def touch_rows_def)
  ultimately show ?thesis
    using row g(1) drawn_kept [OF assms] kept_refl [OF assms]
    by (auto simp: erase_line_def drawn_def)
qed

lemma erase_display_kept:
  assumes "wf_terminal t"
  shows "\<exists>t'. erase_display t a = Inr t' \<and> kept t t'"
proof -
  note b = wf_bounds [OF assms]
  have all: "\<exists>t'. clear_all t = Inr t' \<and> kept t t'"
  proof -
    obtain s where s: "foreach [0..<rows t] (\<lambda>r t. clear_row t r 0) t = Inr s" "drawn t s"
      using clear_rows_drawn [OF assms, of "[0..<rows t]"] by auto
    have "kept s (s\<lparr>cursorRow := 0, cursorCol := 0\<rparr>)"
      using drawnD [OF s(2)] assms b by (intro cursor_kept) auto
    then show ?thesis
      using s drawn_kept [OF assms] kept_trans by (fastforce simp: clear_all_def)
  qed
  have below: "\<exists>t'. seqE (clear_row t (cursorRow t) (cursorCol t))
      (\<lambda>t. foreach [u32_add (cursorRow t) 1..<rows t] (\<lambda>r t. clear_row t r 0) t) = Inr t' \<and> kept t t'"
  proof -
    obtain s where s: "clear_row t (cursorRow t) (cursorCol t) = Inr s" "drawn t s"
      using clear_row_drawn [OF assms b(1)] by blast
    obtain u where "foreach [u32_add (cursorRow s) 1..<rows s] (\<lambda>r t. clear_row t r 0) s = Inr u" "drawn s u"
      using clear_rows_drawn [of s "[u32_add (cursorRow s) 1..<rows s]"] drawnD [OF s(2)] assms by auto
    then show ?thesis
      using s drawn_kept [OF assms] drawn_trans by fastforce
  qed
  have above: "\<exists>t'. seqE (foreach [0..<cursorRow t] (\<lambda>r t. clear_row t r 0) t)
      (\<lambda>t. clear_row t (cursorRow t) 0) = Inr t' \<and> kept t t'"
  proof -
    obtain s where s: "foreach [0..<cursorRow t] (\<lambda>r t. clear_row t r 0) t = Inr s" "drawn t s"
      using clear_rows_drawn [OF assms, of "[0..<cursorRow t]"] b by auto
    obtain u where "clear_row s (cursorRow s) 0 = Inr u" "drawn s u"
      using clear_row_drawn [of s "cursorRow s"] drawnD [OF s(2)] assms b by auto
    then show ?thesis
      using s drawn_kept [OF assms] drawn_trans by fastforce
  qed
  show ?thesis
    using all below above kept_refl [OF assms] by (auto simp: erase_display_def)
qed

lemma back_by_le:
  assumes "pos \<le> u32_max" and "0 \<le> a" and "a \<le> int_max"
  shows "back_by pos a = pos - nat (or_one a)"
proof (cases "or_one a \<le> int pos")
  case True
  then have "u32_of_int (or_one a) = nat (or_one a)"
    using assms by (intro u32_of_int_id) (auto simp: or_one_def int_max_def u32_max_def)
  then show ?thesis using True assms by (simp add: back_by_def u32_sub_le nat_le_iff)
next
  case False
  then have "pos \<le> nat (or_one a)" by linarith
  then show ?thesis using False assms by (simp add: back_by_def u32_sub_le)
qed

lemma forward_by_min:
  assumes "pos \<le> 300" and "1 \<le> limit" and "limit \<le> 300" and "0 \<le> a" and "a \<le> int_max"
  shows "forward_by pos a limit = min (pos + nat (or_one a)) (limit - 1)"
proof -
  have u: "u32_of_int (or_one a) = nat (or_one a)"
    using assms by (intro u32_of_int_id) (auto simp: or_one_def int_max_def u32_max_def)
  have "nat (or_one a) \<le> nat int_max"
    using assms by (auto simp: or_one_def int_max_def)
  then have "u32_add pos (nat (or_one a)) = pos + nat (or_one a)"
    using assms by (intro u32_add_id) (auto simp: int_max_def u32_max_def)
  moreover have "u32_sub limit 1 = limit - 1"
    using assms by (intro u32_sub_le) (auto simp: u32_max_def)
  ultimately show ?thesis using u assms by (auto simp: forward_by_def Let_def min_def)
qed

lemma wf_param:
  assumes "wf_parser p" and "i < 8"
  shows "0 \<le> params p ! i" "params p ! i \<le> int_max"
  using assms by (auto simp: wf_parser_def)

lemma handle_csi_kept:
  assumes "wf_terminal t"
  shows "\<exists>t'. handle_csi t final = Inr t' \<and> kept t t'"
proof -
  note b = wf_bounds [OF assms]
  have p: "wf_parser (parser t)" using assms by (simp add: wf_terminal_def)
  define a where "a = (if 0 < paramCount (parser t) then params (parser t) ! 0 else 0)"
  define c where "c = (if 1 < paramCount (parser t) then params (parser t) ! 1 else 0)"
  have a: "0 \<le> a" "a \<le> int_max" using wf_param [OF p, of 0] by (auto simp: a_def int_max_def)
  have c: "0 \<le> c" "c \<le> int_max" using wf_param [OF p, of 1] by (auto simp: c_def int_max_def)
  have row: "kept t (t\<lparr>cursorRow := r\<rparr>)" if "r < rows t" for r
    using cursor_kept [OF assms that, of "cursorCol t"] b by simp
  have col: "kept t (t\<lparr>cursorCol := k\<rparr>)" if "k \<le> cols t" for k
    using cursor_kept [OF assms b(1) that] by simp
  have up: "back_by (cursorRow t) a < rows t" "back_by (cursorCol t) a \<le> cols t"
    using a b by (auto simp: back_by_le sizes)
  have down: "forward_by (cursorRow t) a (rows t) < rows t" "forward_by (cursorCol t) a (cols t) \<le> cols t"
    using a b by (auto simp: forward_by_min)
  have sub: "u32_sub (rows t) 1 < rows t" "u32_sub (cols t) 1 < cols t"
    using b by (auto simp: u32_sub_le sizes)
  have pos: "kept t (t\<lparr>cursorRow := if x < rows t then x else u32_sub (rows t) 1,
      cursorCol := if y < cols t then y else u32_sub (cols t) 1\<rparr>)" for x y
    using sub by (intro cursor_kept assms) (auto simp: less_imp_le)
  have eq: "handle_csi t final = (if final = CHR ''A'' then Inr (t\<lparr>cursorRow := back_by (cursorRow t) a\<rparr>)
         else if final = CHR ''B'' then Inr (t\<lparr>cursorRow := forward_by (cursorRow t) a (rows t)\<rparr>)
         else if final = CHR ''C'' then Inr (t\<lparr>cursorCol := forward_by (cursorCol t) a (cols t)\<rparr>)
         else if final = CHR ''D'' then Inr (t\<lparr>cursorCol := back_by (cursorCol t) a\<rparr>)
         else if final = CHR ''H'' \<or> final = CHR ''f'' then
           Inr (t\<lparr>cursorRow := (let x = if 0 < a then u32_of_int (a - 1) else 0 in
                        if x < rows t then x else u32_sub (rows t) 1),
                  cursorCol := (let y = if 0 < c then u32_of_int (c - 1) else 0 in
                        if y < cols t then y else u32_sub (cols t) 1)\<rparr>)
         else if final = CHR ''J'' then erase_display t a
         else if final = CHR ''K'' then erase_line t a
         else if final = CHR ''m'' then Inr (apply_sgr t (parser t))
         else Inr t)"
    unfolding handle_csi_def a_def c_def Let_def ..
  show ?thesis
    unfolding eq Let_def
    using row [OF up(1)] row [OF down(1)] col [OF up(2)] col [OF down(2)] pos
      erase_display_kept [OF assms] erase_line_kept [OF assms] apply_sgr_kept [OF assms]
      kept_refl [OF assms]
    by (simp split: if_split)
qed

end
