(* ===== verification/Terminal_Feed.thy ===== *)
theory Terminal_Feed
  imports Terminal
begin

text \<open>
  What the terminal emulator does with a stream of bytes: no byte makes it leave its arrays,
  the only undefined behaviour is the overflow of a numeric parameter, every changed row is
  repainted, and the control sequences have their documented effect.
\<close>

section \<open>One byte\<close>

lemma feed_ground_kept:
  assumes "wf_terminal t"
  shows "\<exists>t'. feed_ground t x = Inr t' \<and> kept t t'"
proof -
  note b = wf_bounds [OF assms]
  have p: "wf_parser (parser t)" using assms by (simp add: wf_terminal_def)
  have "kept t (t\<lparr>parser := (parser t)\<lparr>vt_state := Escape\<rparr>\<rparr>)"
    using p by (intro parser_kept assms) (simp add: wf_parser_def)
  moreover have "kept t (t\<lparr>cursorCol := 0\<rparr>)" "kept t (t\<lparr>cursorCol := cursorCol t - 1\<rparr>)"
    using b by (auto intro!: col_kept assms)
  ultimately show ?thesis
    using newline_kept [OF assms] tab_loop_kept [OF assms] put_char_kept [OF assms]
      kept_refl [OF assms]
    by (auto simp: feed_ground_def)
qed

lemma feed_escape_kept:
  assumes "wf_terminal t"
  shows "kept t (feed_escape t x)"
  using assms unfolding feed_escape_def
  by (auto intro!: parser_kept simp: wf_parser_def wf_terminal_def int_max_def)

lemma to_ground_kept: "wf_terminal t \<Longrightarrow> kept t (to_ground t)"
  unfolding to_ground_def by (rule parser_kept) (simp_all add: wf_terminal_def wf_parser_def)

lemma add_digit_cases:
  assumes "wf_parser p" and "is_digit x"
  defines "i \<equiv> nat ((if paramCount p = 0 then 1 else paramCount p) - 1)"
  defines "w \<equiv> params p ! i * 10 + (int (of_char x) - 48)"
  shows "add_digit p x =
    (if int_max < w then Inl SignedOverflow
     else Inr (p\<lparr>paramCount := int i + 1, params := (params p)[i := w], paramStarted := True\<rparr>))"
    and "i < 8" "0 \<le> w"
proof -
  have i: "i < 8" "int i + 1 = (if paramCount p = 0 then 1 else paramCount p)"
    using assms(1) by (auto simp: i_def wf_parser_def)
  have d: "0 \<le> int (of_char x) - 48" using assms(2) by (simp add: is_digit_def)
  have v: "0 \<le> params p ! i" using wf_param [OF assms(1) i(1)] by simp
  show "i < 8" by (rule i(1))
  show "0 \<le> w" using v d by (simp add: w_def)
  have "length (params p) = 8" using assms(1) by (simp add: wf_parser_def)
  then show "add_digit p x = (if int_max < w then Inl SignedOverflow
     else Inr (p\<lparr>paramCount := int i + 1, params := (params p)[i := w], paramStarted := True\<rparr>))"
    using i d by (auto simp: add_digit_def Let_def i_def [symmetric] w_def)
qed

lemma add_digit_wf:
  assumes "wf_parser p" and "is_digit x" and "add_digit p x = Inr p'"
  shows "wf_parser p'"
  using add_digit_cases [OF assms(1,2)] assms(1,3)
  by (auto simp: wf_parser_def int_max_def split: if_splits dest!: set_update_subset_insert [THEN subsetD])

lemma next_param_wf:
  assumes "wf_parser p"
  shows "wf_parser (next_param p)"
proof -
  have "\<forall>v\<in>set ((params p)[i := 0]). 0 \<le> v \<and> v \<le> int_max" for i
    using assms by (auto simp: wf_parser_def int_max_def dest!: set_update_subset_insert [THEN subsetD])
  then show ?thesis using assms by (simp add: next_param_def wf_parser_def Let_def)
qed

lemma feed_csi_kept:
  assumes "wf_terminal t"
  shows "(\<exists>t'. feed_csi t x = Inr t' \<and> kept t t') \<or> (is_digit x \<and> feed_csi t x = Inl SignedOverflow)"
proof -
  have p: "wf_parser (parser t)" using assms by (simp add: wf_terminal_def)
  have fin: "\<exists>t'. seqE (handle_csi t x) (\<lambda>t. Inr (to_ground t)) = Inr t' \<and> kept t t'"
  proof -
    obtain s where s: "handle_csi t x = Inr s" "kept t s"
      using handle_csi_kept [OF assms] by blast
    have "kept t (to_ground s)"
      using s(2) to_ground_kept [OF keptD [OF s(2)]] by (rule kept_trans)
    then show ?thesis using s(1) by simp
  qed
  have dig: "(\<exists>p'. add_digit (parser t) x = Inr p' \<and> wf_parser p') \<or>
      add_digit (parser t) x = Inl SignedOverflow" if "is_digit x"
    using add_digit_cases(1) [OF p that] add_digit_wf [OF p that] by auto
  show ?thesis
  proof (cases "is_digit x")
    case True
    show ?thesis
      using dig [OF True] parser_kept [OF assms] by (auto simp: feed_csi_def True)
  next
    case False
    show ?thesis
      using fin parser_kept [OF assms next_param_wf [OF p]] kept_refl [OF assms]
        to_ground_kept [OF assms]
      by (simp add: feed_csi_def False)
  qed
qed

lemma parser_feed_kept:
  assumes "wf_terminal t"
  shows "(\<exists>t'. parser_feed t x = Inr t' \<and> kept t t') \<or> parser_feed t x = Inl SignedOverflow"
  using feed_ground_kept [OF assms] feed_escape_kept [OF assms] feed_csi_kept [OF assms]
  by (auto simp: parser_feed_def split: vt_state.split)

lemma feed_bytes_Nil [simp]: "feed_bytes t [] = Inr t"
  by (simp add: feed_bytes_def)

lemma feed_bytes_Cons: "feed_bytes t (x # xs) = seqE (parser_feed t x) (\<lambda>t. feed_bytes t xs)"
  by (simp add: feed_bytes_def)

lemma feed_bytes_append: "feed_bytes t (xs @ ys) = seqE (feed_bytes t xs) (\<lambda>t. feed_bytes t ys)"
  by (simp add: feed_bytes_def foreach_append)

section \<open>Memory safety\<close>

lemma feed_bytes_kept:
  assumes "wf_terminal t"
  shows "(\<exists>t'. feed_bytes t xs = Inr t' \<and> kept t t') \<or> feed_bytes t xs = Inl SignedOverflow"
  using assms
proof (induction xs arbitrary: t)
  case (Cons x xs)
  consider s where "parser_feed t x = Inr s" "kept t s" | "parser_feed t x = Inl SignedOverflow"
    using parser_feed_kept [OF Cons.prems] by blast
  then show ?case
  proof cases
    case (1 s)
    then show ?thesis
      using Cons.IH [OF keptD [OF 1(2)]] kept_trans [OF 1(2)] by (auto simp: feed_bytes_Cons)
  qed (simp add: feed_bytes_Cons)
qed (simp add: kept_refl)

text \<open>
  C2: Whatever bytes the shell writes, the terminal never indexes the grid or the parameter
  array out of bounds: from a well-formed screen, feeding any byte string ends in a well-formed
  screen of the same size in which every row with a changed cell is in the dirty range (and no
  dirty row was forgotten), or it stops at the signed overflow of a numeric parameter.
\<close>
theorem feed_bytes_safe:
  assumes "wf_terminal t"
  shows "(\<exists>t'. feed_bytes t xs = Inr t' \<and>
            wf_terminal t' \<and> rows t' = rows t \<and> cols t' = cols t \<and>
            (\<forall>r. in_dirty t r \<longrightarrow> in_dirty t' r) \<and>
            (\<forall>r c. grid t' r c \<noteq> grid t r c \<longrightarrow> in_dirty t' r)) \<or>
         feed_bytes t xs = Inl SignedOverflow"
  using feed_bytes_kept [OF assms, of xs] by (auto simp: kept_def repaints_def)

definition blank_parser :: vt_parser where
  "blank_parser = \<lparr>vt_state = Ground, params = replicate 8 0, paramCount = 0, paramStarted = False\<rparr>"

text \<open>A small screen, as \<open>on_create\<close> leaves it for a window of that size.\<close>

definition small_screen :: "nat \<Rightarrow> nat \<Rightarrow> terminal" where
  "small_screen r c =
     \<lparr>grid = (\<lambda>_ _. \<lparr>ch = CHR '' '', fg = kColorDefaultFg, bg = kColorBackground\<rparr>),
      rows = r, cols = c, cursorRow = 0, cursorCol = 0,
      curFg = kColorDefaultFg, curBg = kColorBackground, parser = blank_parser,
      dirtyTop = 0, dirtyBottom = 0\<rparr>"

lemma small_screen_wf:
  "1 \<le> r \<Longrightarrow> r \<le> 120 \<Longrightarrow> 1 \<le> c \<Longrightarrow> c \<le> 300 \<Longrightarrow> wf_terminal (small_screen r c)"
  by (simp add: small_screen_def wf_terminal_def wf_parser_def blank_parser_def sizes int_max_def)

theorem feed_bytes_safe_witness:
  "(\<exists>t'. feed_bytes (small_screen 2 4) ''abcdef'' = Inr t' \<and> wf_terminal t' \<and> rows t' = 2) \<or>
    feed_bytes (small_screen 2 4) ''abcdef'' = Inl SignedOverflow"
  using feed_bytes_safe [OF small_screen_wf [of 2 4], of "''abcdef''"]
  by (auto simp: small_screen_def)

section \<open>Parameters that do not overflow\<close>

text \<open>
  At most nine digits in a row (a \<open>?\<close> between digits does not end a parameter): such a stream
  cannot overflow.
\<close>

fun short_params :: "nat \<Rightarrow> string \<Rightarrow> bool" where
  "short_params n [] = True"
| "short_params n (x # xs) =
     (if is_digit x then n < 9 \<and> short_params (Suc n) xs
      else if x = CHR ''?'' then short_params n xs
      else short_params 0 xs)"

definition current_param :: "vt_parser \<Rightarrow> int" where
  "current_param p = params p ! nat ((if paramCount p = 0 then 1 else paramCount p) - 1)"

definition param_below :: "nat \<Rightarrow> terminal \<Rightarrow> bool" where
  "param_below n t \<longleftrightarrow> (vt_state (parser t) = CSI \<longrightarrow> current_param (parser t) < 10 ^ n)"

lemma newline_parser: "newline t = Inr t' \<Longrightarrow> parser t' = parser t"
  by (auto simp: newline_def same_frame_def split: if_splits dest: scroll_up_frame)

lemma put_char_parser: "put_char t x = Inr t' \<Longrightarrow> parser t' = parser t"
  by (auto simp: put_char_def seqE_eq_Inr Let_def split: if_splits
           dest!: newline_parser set_cell_frame same_frameD(7))

lemma tab_loop_parser: "tab_loop stop t = Inr t' \<Longrightarrow> parser t' = parser t"
proof (induction stop t rule: tab_loop.induct)
  case (1 stop t)
  then show ?case
    by (auto simp: tab_loop.simps [of stop t] seqE_eq_Inr split: if_splits dest: put_char_parser)
qed

lemma feed_ground_state:
  "feed_ground t x = Inr t' \<Longrightarrow> vt_state (parser t) = Ground \<Longrightarrow> vt_state (parser t') \<noteq> CSI"
  by (auto simp: feed_ground_def split: if_splits
           dest!: newline_parser put_char_parser tab_loop_parser)

lemma to_ground_state [simp]: "vt_state (parser (to_ground t)) = Ground"
  by (simp add: to_ground_def)

lemma next_param_zero:
  assumes "wf_parser p"
  shows "current_param (next_param p) = 0"
  using assms by (auto simp: next_param_def current_param_def wf_parser_def Let_def)

lemma add_digit_below:
  assumes "wf_parser p" and "is_digit x" and "current_param p < 10 ^ n" and "n < 9"
  shows "\<exists>p'. add_digit p x = Inr p' \<and> current_param p' < 10 ^ Suc n \<and> vt_state p' = vt_state p"
proof -
  have d: "int (of_char x) - 48 \<le> 9" using assms(2) by (simp add: is_digit_def)
  have "(10::int) ^ Suc n \<le> 10 ^ 9" using assms(4) by (intro power_increasing) auto
  then have w: "current_param p * 10 + (int (of_char x) - 48) < 10 ^ Suc n"
    "current_param p * 10 + (int (of_char x) - 48) \<le> int_max"
    using assms(3) d by (auto simp: int_max_def)
  note c = add_digit_cases [OF assms(1,2), folded current_param_def]
  show ?thesis
    using c w assms(1) by (auto simp: current_param_def wf_parser_def)
qed

lemma parser_feed_params:
  assumes "wf_terminal t" and "param_below n t"
    and "is_digit x \<Longrightarrow> n < 9"
  shows "\<exists>t'. parser_feed t x = Inr t' \<and> kept t t' \<and>
    param_below (if is_digit x then Suc n else if x = CHR ''?'' then n else 0) t'"
proof (cases "vt_state (parser t)")
  case Ground
  then show ?thesis
    using feed_ground_kept [OF assms(1), of x] feed_ground_state [of t x]
    by (auto simp: parser_feed_def param_below_def)
next
  case Escape
  then show ?thesis
    using feed_escape_kept [OF assms(1), of x]
    by (auto simp: parser_feed_def param_below_def feed_escape_def current_param_def is_digit_def)
next
  case CSI
  have p: "wf_parser (parser t)" using assms(1) by (simp add: wf_terminal_def)
  have b: "current_param (parser t) < 10 ^ n" using assms(2) CSI by (simp add: param_below_def)
  show ?thesis
  proof (cases "is_digit x")
    case True
    then obtain p' where "add_digit (parser t) x = Inr p'" "current_param p' < 10 ^ Suc n"
      "wf_parser p'"
      using add_digit_below [OF p True b] assms(3) add_digit_wf [OF p True] by blast
    then show ?thesis
      using True CSI parser_kept [OF assms(1)]
      by (simp add: parser_feed_def feed_csi_def param_below_def)
  next
    case False
    then obtain t' where t': "feed_csi t x = Inr t'" "kept t t'"
      using feed_csi_kept [OF assms(1), of x] by blast
    have "param_below (if x = CHR ''?'' then n else 0) t'"
      using t'(1) False b next_param_zero [OF p]
      by (auto simp: feed_csi_def param_below_def seqE_eq_Inr split: if_splits)
    then show ?thesis using t' False CSI by (simp add: parser_feed_def)
  qed
qed

text \<open>
  On a well-formed screen whose parser is in its ground state, a byte stream with no
  parameter of more than nine digits is processed to the end without any undefined behaviour.
\<close>
theorem feed_bytes_total:
  assumes "wf_terminal t" and "vt_state (parser t) = Ground" and "short_params 0 xs"
  shows "\<exists>t'. feed_bytes t xs = Inr t' \<and> kept t t'"
proof -
  have "param_below n t \<Longrightarrow> short_params n xs \<Longrightarrow> wf_terminal t \<Longrightarrow>
    \<exists>t'. feed_bytes t xs = Inr t' \<and> kept t t'" for n
  proof (induction xs arbitrary: t n)
    case (Cons x xs)
    then obtain s m where s: "parser_feed t x = Inr s" "kept t s" "param_below m s"
        "short_params m xs"
      using parser_feed_params [of t n x] by (fastforce split: if_splits)
    then obtain t' where "feed_bytes s xs = Inr t'" "kept s t'"
      using Cons.IH [OF s(3,4) keptD [OF s(2)]] by blast
    with s show ?case by (auto simp: feed_bytes_Cons intro: kept_trans)
  qed (simp add: kept_refl)
  then show ?thesis using assms by (simp add: param_below_def)
qed

theorem feed_bytes_total_witness:
  "\<exists>t'. feed_bytes (small_screen 2 4) (CHR 0x1B # ''[12;3Hab'') = Inr t' \<and>
     kept (small_screen 2 4) t'"
  by (rule feed_bytes_total [OF small_screen_wf])
     (simp_all add: small_screen_def blank_parser_def is_digit_def)

section \<open>Numeric parameters\<close>

lemma is_digit_digit_char [simp]: "d < 10 \<Longrightarrow> is_digit (digit_char d)"
  by (simp add: is_digit_def)

lemma value_grows: "v \<le> foldl (\<lambda>v c. v * 10 + digit_value c) v ds"
proof (induction ds arbitrary: v)
  case (Cons d ds)
  have "v \<le> v * 10 + digit_value d" by simp
  also have "\<dots> \<le> foldl (\<lambda>v c. v * 10 + digit_value c) (v * 10 + digit_value d) ds"
    by (rule Cons.IH)
  finally show ?case by simp
qed simp

text \<open>
  Reading a run of digits puts its value into the current parameter, if no intermediate value
  exceeds the largest \<open>int\<close>.
\<close>

lemma feed_digits:
  assumes "wf_parser (parser t)" and "vt_state (parser t) = CSI" and "ds \<noteq> []"
    and "\<forall>x\<in>set ds. is_digit x"
    and "i = nat ((if paramCount (parser t) = 0 then 1 else paramCount (parser t)) - 1)"
    and "int v = params (parser t) ! i"
    and "int (foldl (\<lambda>v c. v * 10 + digit_value c) v ds) \<le> int_max"
  shows "feed_bytes t ds = Inr (t\<lparr>parser := (parser t)\<lparr>paramCount := int i + 1,
     params := (params (parser t))[i := int (foldl (\<lambda>v c. v * 10 + digit_value c) v ds)],
     paramStarted := True\<rparr>\<rparr>)"
  using assms
proof (induction ds arbitrary: t v)
  case (Cons d ds)
  let ?p = "parser t" and ?v = "v * 10 + digit_value d"
  have dig: "is_digit d" using Cons.prems(4) by simp
  have val: "int (of_char d) - 48 = int (digit_value d)"
    using dig by (simp add: digit_value_def is_digit_def of_nat_diff)
  have "int ?v \<le> int (foldl (\<lambda>v c. v * 10 + digit_value c) ?v ds)"
    using value_grows [of ?v ds] by (simp only: of_nat_le_iff)
  also have "\<dots> \<le> int_max" using Cons.prems(7) by (simp only: foldl_Cons)
  finally have "int ?v \<le> int_max" .
  then have add: "add_digit ?p d = Inr (?p\<lparr>paramCount := int i + 1, params := (params ?p)[i := int ?v],
      paramStarted := True\<rparr>)"
    using add_digit_cases [OF Cons.prems(1) dig, folded Cons.prems(5)] Cons.prems(6) val by simp
  have step: "parser_feed t d = Inr (t\<lparr>parser := ?p\<lparr>paramCount := int i + 1,
      params := (params ?p)[i := int ?v], paramStarted := True\<rparr>\<rparr>)"
    using Cons.prems(2) dig by (simp only: parser_feed_def feed_csi_def add vt_state.case if_True seqE_simps)
  show ?case
  proof (cases "ds = []")
    case False
    let ?t = "t\<lparr>parser := ?p\<lparr>paramCount := int i + 1,
      params := (params ?p)[i := int ?v], paramStarted := True\<rparr>\<rparr>"
    have i: "i < 8" using add_digit_cases(2) [OF Cons.prems(1) dig, folded Cons.prems(5)] .
    have "wf_parser (parser ?t)"
      using add_digit_wf [OF Cons.prems(1) dig add] by simp
    then have "feed_bytes ?t ds = Inr (?t\<lparr>parser := (parser ?t)\<lparr>paramCount := int i + 1,
        params := (params (parser ?t))[i := int (foldl (\<lambda>v c. v * 10 + digit_value c) ?v ds)],
        paramStarted := True\<rparr>\<rparr>)"
      using False Cons.prems i by (intro Cons.IH) (auto simp: wf_parser_def)
    then show ?thesis using step by (simp add: feed_bytes_Cons)
  next
    case True
    show ?thesis
      by (simp only: True feed_bytes_Cons step seqE_simps feed_bytes_Nil foldl_Cons foldl_Nil)
  qed
next
  case Nil
  then show ?case by blast
qed

text \<open>
  The overflow is real: on every well-formed screen with an idle parser, an introducer
  followed by a parameter above the largest \<open>int\<close> runs into the signed overflow of
  \<open>params[paramCount - 1] * 10\<close>, which nothing in the parser guards against.
\<close>
theorem parameter_overflow:
  assumes "wf_terminal t" and "vt_state (parser t) = Ground"
  shows "feed_bytes t (CHR 0x1B # ''[2147483648'') = Inl SignedOverflow"
proof -
  let ?p = "\<lparr>vt_state = CSI, params = replicate 8 0, paramCount = 0, paramStarted = False\<rparr>"
  let ?t = "t\<lparr>parser := ?p\<rparr>"
  have p: "wf_parser ?p" by (simp add: wf_parser_def int_max_def)
  have "feed_bytes ?t ''214748364'' = Inr (?t\<lparr>parser := ?p\<lparr>paramCount := 1,
      params := (replicate 8 0)[0 := 214748364], paramStarted := True\<rparr>\<rparr>)"
    using feed_digits [of ?t "''214748364''" 0 0] p
    by (simp add: is_digit_def digit_value_def int_max_def)
  moreover have "parser_feed (?t\<lparr>parser := ?p\<lparr>paramCount := 1,
      params := (replicate 8 0)[0 := 214748364], paramStarted := True\<rparr>\<rparr>) CHR ''8'' = Inl SignedOverflow"
    by (simp add: parser_feed_def feed_csi_def is_digit_def add_digit_def int_max_def Let_def)
  ultimately have "feed_bytes ?t (''214748364'' @ ''8'') = Inl SignedOverflow"
    by (simp only: feed_bytes_append seqE_simps feed_bytes_Cons)
  moreover have "feed_bytes t (CHR 0x1B # CHR ''['' # xs) = feed_bytes ?t xs" for xs
    using assms(2)
    by (simp add: feed_bytes_Cons parser_feed_def feed_ground_def feed_escape_def)
  ultimately show ?thesis by simp
qed

theorem parameter_overflow_witness:
  "feed_bytes (small_screen 2 4) (CHR 0x1B # ''[2147483648'') = Inl SignedOverflow"
  by (rule parameter_overflow [OF small_screen_wf])
     (simp_all add: small_screen_def blank_parser_def)

section \<open>Cursor positioning\<close>

lemma feed_introducer:
  assumes "vt_state (parser t) = Ground"
  shows "feed_bytes t (CHR 0x1B # CHR ''['' # xs) =
    feed_bytes (t\<lparr>parser := \<lparr>vt_state = CSI, params = replicate 8 0, paramCount = 0,
                            paramStarted = False\<rparr>\<rparr>) xs"
  using assms by (simp add: feed_bytes_Cons parser_feed_def feed_ground_def feed_escape_def)

lemma decimal_is_digits: "\<forall>x\<in>set (decimal n). is_digit x"
  using digits_decimal by fastforce

lemma feed_decimal:
  assumes "wf_parser (parser t)" and "vt_state (parser t) = CSI"
    and "i = nat ((if paramCount (parser t) = 0 then 1 else paramCount (parser t)) - 1)"
    and "params (parser t) ! i = 0" and "int n \<le> int_max"
  shows "feed_bytes t (decimal n) = Inr (t\<lparr>parser := (parser t)\<lparr>paramCount := int i + 1,
     params := (params (parser t))[i := int n], paramStarted := True\<rparr>\<rparr>)"
  using feed_digits [OF assms(1,2) decimal_nonempty [of n] decimal_is_digits [of n] assms(3), where v = 0]
    digits_value_decimal [of n] assms(4,5)
  by (simp add: digits_value_def)

lemma csi_H:
  assumes "wf_terminal t" and "vt_state (parser t) = CSI"
    and "a = (if 0 < paramCount (parser t) then params (parser t) ! 0 else 0)"
    and "b = (if 1 < paramCount (parser t) then params (parser t) ! 1 else 0)"
  shows "parser_feed t CHR ''H'' = Inr (to_ground
    (t\<lparr>cursorRow := min (nat (a - 1)) (rows t - 1), cursorCol := min (nat (b - 1)) (cols t - 1)\<rparr>))"
proof -
  note w = wf_bounds [OF assms(1)]
  have p: "wf_parser (parser t)" using assms(1) by (simp add: wf_terminal_def)
  have u: "(if 0 < x then u32_of_int (x - 1) else 0) = nat (x - 1)" if "x \<le> int_max" for x
    using that by (auto simp: u32_of_int_id int_max_def u32_max_def)
  have "a \<le> int_max" "b \<le> int_max"
    using wf_param(2) [OF p, of 0] wf_param(2) [OF p, of 1] by (auto simp: assms(3,4) int_max_def)
  then have "(if 0 < a then u32_of_int (a - 1) else 0) = nat (a - 1)"
    "(if 0 < b then u32_of_int (b - 1) else 0) = nat (b - 1)"
    by (simp_all add: u)
  moreover have "u32_sub (rows t) 1 = rows t - 1" "u32_sub (cols t) 1 = cols t - 1"
    using w by (simp_all add: u32_sub_le u32_max_def)
  moreover have "(if x < n then x else n - 1) = min x (n - 1)" if "1 \<le> n" for x n :: nat
    using that by auto
  ultimately have "handle_csi t CHR ''H'' = Inr
    (t\<lparr>cursorRow := min (nat (a - 1)) (rows t - 1), cursorCol := min (nat (b - 1)) (cols t - 1)\<rparr>)"
    using w unfolding handle_csi_def Let_def assms(3,4) [symmetric] by simp
  then show ?thesis
    using assms(2) by (simp add: parser_feed_def feed_csi_def is_digit_def)
qed

text \<open>
  C36: Cursor addressing reads back what a program prints: \<open>ESC [ row ; column H\<close> with 1-based
  decimal numbers puts the cursor at that cell, clamped to the screen, and changes nothing
  else on it.
\<close>
theorem cursor_position:
  assumes "wf_terminal t" and "vt_state (parser t) = Ground"
    and "1 \<le> r" and "int r \<le> int_max" and "1 \<le> c" and "int c \<le> int_max"
  shows "\<exists>p. vt_state p = Ground \<and>
    feed_bytes t (CHR 0x1B # ''['' @ decimal r @ '';'' @ decimal c @ ''H'') =
      Inr (t\<lparr>cursorRow := min (r - 1) (rows t - 1), cursorCol := min (c - 1) (cols t - 1),
             parser := p\<rparr>)"
proof -
  let ?p0 = "\<lparr>vt_state = CSI, params = replicate 8 0, paramCount = 0, paramStarted = False\<rparr>"
  let ?p1 = "\<lparr>vt_state = CSI, params = (replicate 8 0)[0 := int r], paramCount = 1, paramStarted = True\<rparr>"
  let ?p2 = "\<lparr>vt_state = CSI, params = (replicate 8 0)[0 := int r], paramCount = 2, paramStarted = True\<rparr>"
  let ?p3 = "\<lparr>vt_state = CSI, params = (replicate 8 0)[0 := int r, 1 := int c], paramCount = 2, paramStarted = True\<rparr>"
  have m: "0 \<le> int_max" by (simp add: int_max_def)
  have n: "nat (int r - 1) = r - 1" "nat (int c - 1) = c - 1" using assms(3,5) by linarith+
  have wf: "wf_parser ?p0" "wf_parser ?p2" "wf_parser ?p3"
    using assms(4,6) m by (auto simp: wf_parser_def eval_nat_numeral)
  have s1: "feed_bytes (t\<lparr>parser := ?p0\<rparr>) (decimal r) = Inr (t\<lparr>parser := ?p1\<rparr>)"
    using feed_decimal [of "t\<lparr>parser := ?p0\<rparr>" 0 r] wf assms(4) by simp
  have s2: "feed_bytes (t\<lparr>parser := ?p1\<rparr>) (CHR '';'' # xs) = feed_bytes (t\<lparr>parser := ?p2\<rparr>) xs" for xs
    by (simp add: feed_bytes_Cons parser_feed_def feed_csi_def is_digit_def next_param_def Let_def
        eval_nat_numeral)
  have s3: "feed_bytes (t\<lparr>parser := ?p2\<rparr>) (decimal c) = Inr (t\<lparr>parser := ?p3\<rparr>)"
    using feed_decimal [of "t\<lparr>parser := ?p2\<rparr>" 1 c] wf assms(6) by simp
  have "wf_terminal (t\<lparr>parser := ?p3\<rparr>)"
    using assms(1) wf by (simp add: wf_terminal_def)
  then have s4: "feed_bytes (t\<lparr>parser := ?p3\<rparr>) ''H'' = Inr (to_ground
      (t\<lparr>parser := ?p3, cursorRow := min (r - 1) (rows t - 1), cursorCol := min (c - 1) (cols t - 1)\<rparr>))"
    using csi_H [of "t\<lparr>parser := ?p3\<rparr>" "int r" "int c"]
    by (simp add: feed_bytes_Cons n)
  have "feed_bytes t (CHR 0x1B # ''['' @ decimal r @ '';'' @ decimal c @ ''H'') =
      Inr (to_ground (t\<lparr>parser := ?p3, cursorRow := min (r - 1) (rows t - 1),
        cursorCol := min (c - 1) (cols t - 1)\<rparr>))"
    by (simp only: append_Cons append_Nil feed_introducer [OF assms(2)]
        feed_bytes_append [of _ "decimal r"] feed_bytes_append [of _ "decimal c"] s1 s2 s3 s4 seqE_simps)
  then show ?thesis unfolding to_ground_def by (intro exI conjI) (simp_all del: list_update.simps)
qed

theorem cursor_position_witness:
  "\<exists>p. vt_state p = Ground \<and>
    feed_bytes (small_screen 24 80) (CHR 0x1B # ''['' @ decimal 12 @ '';'' @ decimal 300 @ ''H'') =
      Inr ((small_screen 24 80)\<lparr>cursorRow := 11, cursorCol := 79, parser := p\<rparr>)"
  using cursor_position [OF small_screen_wf [of 24 80], of 12 300]
  by (simp add: small_screen_def blank_parser_def int_max_def)

text \<open>
  An omitted first parameter does not count as one: \<open>ESC [ ; column H\<close>, which means row 1
  and the given column, moves to the row of that number in the first column instead, because
  the \<open>;\<close> raises the parameter count from 0 to 1 and the digits after it fill the first slot.
\<close>
theorem omitted_row_is_misread:
  assumes "wf_terminal t" and "vt_state (parser t) = Ground"
    and "1 \<le> c" and "int c \<le> int_max"
  shows "\<exists>p. feed_bytes t (CHR 0x1B # ''[;'' @ decimal c @ ''H'') =
      Inr (t\<lparr>cursorRow := min (c - 1) (rows t - 1), cursorCol := 0, parser := p\<rparr>)"
proof -
  let ?p0 = "\<lparr>vt_state = CSI, params = replicate 8 0, paramCount = 0, paramStarted = False\<rparr>"
  let ?p1 = "\<lparr>vt_state = CSI, params = replicate 8 0, paramCount = 1, paramStarted = False\<rparr>"
  let ?p2 = "\<lparr>vt_state = CSI, params = (replicate 8 0)[0 := int c], paramCount = 1, paramStarted = True\<rparr>"
  have m: "0 \<le> int_max" by (simp add: int_max_def)
  have n: "nat (int c - 1) = c - 1" using assms(3) by linarith
  have wf: "wf_parser ?p1" "wf_parser ?p2"
    using assms(4) m by (auto simp: wf_parser_def eval_nat_numeral)
  have s1: "feed_bytes (t\<lparr>parser := ?p0\<rparr>) (CHR '';'' # xs) = feed_bytes (t\<lparr>parser := ?p1\<rparr>) xs" for xs
    by (simp add: feed_bytes_Cons parser_feed_def feed_csi_def is_digit_def next_param_def Let_def
        eval_nat_numeral)
  have s2: "feed_bytes (t\<lparr>parser := ?p1\<rparr>) (decimal c) = Inr (t\<lparr>parser := ?p2\<rparr>)"
    using feed_decimal [of "t\<lparr>parser := ?p1\<rparr>" 0 c] wf assms(4) by simp
  have "wf_terminal (t\<lparr>parser := ?p2\<rparr>)"
    using assms(1) wf by (simp add: wf_terminal_def)
  then have s3: "feed_bytes (t\<lparr>parser := ?p2\<rparr>) ''H'' = Inr (to_ground
      (t\<lparr>parser := ?p2, cursorRow := min (c - 1) (rows t - 1), cursorCol := 0\<rparr>))"
    using csi_H [of "t\<lparr>parser := ?p2\<rparr>" "int c" 0]
    by (simp add: feed_bytes_Cons n)
  have "feed_bytes t (CHR 0x1B # ''[;'' @ decimal c @ ''H'') =
      Inr (to_ground (t\<lparr>parser := ?p2, cursorRow := min (c - 1) (rows t - 1), cursorCol := 0\<rparr>))"
    by (simp only: append_Cons append_Nil feed_introducer [OF assms(2)] s1
        feed_bytes_append [of _ "decimal c"] s2 s3 seqE_simps)
  then show ?thesis unfolding to_ground_def by (intro exI conjI) (simp_all del: list_update.simps)
qed

theorem omitted_row_is_misread_witness:
  "\<exists>p. feed_bytes (small_screen 24 80) (CHR 0x1B # ''[;'' @ decimal 5 @ ''H'') =
      Inr ((small_screen 24 80)\<lparr>cursorRow := 4, cursorCol := 0, parser := p\<rparr>)"
  using omitted_row_is_misread [OF small_screen_wf [of 24 80], of 5]
  by (simp add: small_screen_def blank_parser_def int_max_def)

end
