(* ===== verification/Terminal_Screen.thy ===== *)
theory Terminal_Screen
  imports Terminal_Feed
begin

text \<open>
  What a terminal user relies on: printed text appears where the cursor was, a line that runs
  over the lower right corner scrolls the screen by one row, and resizing the window keeps the
  text up to the cursor.
\<close>

section \<open>Printing\<close>

definition printable :: "char \<Rightarrow> bool" where
  "printable x \<longleftrightarrow> 32 \<le> (of_char x :: nat)"

lemma feed_printable:
  assumes "vt_state (parser t) = Ground" and "printable x"
  shows "parser_feed t x = put_char t x"
  using assms
  by (auto simp: parser_feed_def feed_ground_def printable_def)

definition painted :: "terminal \<Rightarrow> char \<Rightarrow> cell" where
  "painted t x = \<lparr>ch = x, fg = curFg t, bg = curBg t\<rparr>"

lemma put_char_closed:
  assumes "wf_terminal t" and "cursorCol t < cols t"
  shows "put_char t x = Inr ((touch_rows
     (t\<lparr>grid := (grid t)(cursorRow t := (grid t (cursorRow t))(cursorCol t := painted t x))\<rparr>)
     (cursorRow t) (Suc (cursorRow t)))\<lparr>cursorCol := Suc (cursorCol t)\<rparr>)"
  using assms wf_bounds [OF assms(1)]
  by (simp add: put_char_def set_cell_def sizes u32_add_id painted_def Let_def)

text \<open>
  Printed text appears where the cursor is: a run of printable characters that fits the rest
  of the row is stored in that row from the cursor on, in the current colors, moves the cursor
  behind it, and changes no other cell.
\<close>
theorem print_text:
  assumes "wf_terminal t" and "vt_state (parser t) = Ground" and "\<forall>x\<in>set xs. printable x"
    and "cursorCol t + length xs \<le> cols t"
  shows "\<exists>t'. feed_bytes t xs = Inr t' \<and> cursorRow t' = cursorRow t \<and>
    cursorCol t' = cursorCol t + length xs \<and>
    (\<forall>r c. grid t' r c =
       (if r = cursorRow t \<and> cursorCol t \<le> c \<and> c < cursorCol t + length xs
        then painted t (xs ! (c - cursorCol t)) else grid t r c))"
  using assms
proof (induction xs arbitrary: t)
  case (Cons x xs)
  let ?s = "(touch_rows
     (t\<lparr>grid := (grid t)(cursorRow t := (grid t (cursorRow t))(cursorCol t := painted t x))\<rparr>)
     (cursorRow t) (Suc (cursorRow t)))\<lparr>cursorCol := Suc (cursorCol t)\<rparr>"
  have put: "put_char t x = Inr ?s"
    using Cons.prems by (intro put_char_closed) auto
  have "wf_terminal ?s"
    using put_char_kept [OF Cons.prems(1), of x] put by (auto dest: keptD)
  then obtain t' where t': "feed_bytes ?s xs = Inr t'" "cursorRow t' = cursorRow t"
    "cursorCol t' = Suc (cursorCol t) + length xs"
    "\<And>r c. grid t' r c = (if r = cursorRow t \<and> Suc (cursorCol t) \<le> c \<and> c < Suc (cursorCol t) + length xs
        then painted t (xs ! (c - Suc (cursorCol t))) else grid ?s r c)"
    using Cons.IH [of ?s] Cons.prems by (auto simp: painted_def)
  have "grid t' r c = (if r = cursorRow t \<and> cursorCol t \<le> c \<and> c < cursorCol t + length (x # xs)
        then painted t ((x # xs) ! (c - cursorCol t)) else grid t r c)" for r c
    using t'(4) [of r c] by (auto simp: nth_Cons')
  with t' show ?case
    using put Cons.prems(2,3) by (intro exI [of _ t']) (simp add: feed_bytes_Cons feed_printable)
qed auto

theorem print_text_witness:
  "\<exists>t'. feed_bytes (small_screen 3 8) ''hello'' = Inr t' \<and> cursorCol t' = 5 \<and>
     ch (grid t' 0 1) = CHR ''e''"
proof -
  have "\<forall>x\<in>set ''hello''. printable x" by (simp add: printable_def)
  then show ?thesis
    using print_text [OF small_screen_wf [of 3 8], of "''hello''"]
    by (fastforce simp: small_screen_def blank_parser_def painted_def)
qed

lemma touched_dirty:
  assumes "in_dirty s r"
  shows "in_dirty ((touch_rows (s\<lparr>grid := g\<rparr>) a b)\<lparr>cursorCol := c\<rparr>) r"
  using assms by (auto simp: in_dirty_def touch_rows_def)

text \<open>
  Printing past the lower right corner scrolls: with the cursor behind the last column of
  the last row, a printable character moves every row up by one, and appears in the first
  column of a fresh last row, all of which is to be repainted.
\<close>
theorem print_scrolls:
  assumes "wf_terminal t" and "vt_state (parser t) = Ground" and "printable x"
    and "cursorRow t = rows t - 1" and "cursorCol t = cols t"
  shows "\<exists>t'. feed_bytes t [x] = Inr t' \<and> cursorRow t' = rows t - 1 \<and> cursorCol t' = 1 \<and>
    (\<forall>r<rows t. \<forall>c<cols t. grid t' r c =
       (if r < rows t - 1 then grid t (Suc r) c
        else if c = 0 then painted t x else painted t CHR '' '')) \<and>
    (\<forall>r<rows t. in_dirty t' r)"
proof -
  note b = wf_bounds [OF assms(1)]
  let ?t = "t\<lparr>cursorCol := 0\<rparr>"
  have wf: "wf_terminal ?t" using assms(1) by (simp add: wf_terminal_def)
  have "newline ?t = scroll_up ?t"
    using b assms(4) by (simp add: newline_def u32_add_id sizes)
  also have "\<dots> = Inr (touch_all (touch_rows (scrolled ?t) (rows ?t - 1) (rows ?t)))"
    using wf wf_bounds [OF wf] by (intro scroll_up_closed) (auto simp: sizes)
  finally obtain s where new: "newline ?t = Inr s"
    and s': "s = touch_all (touch_rows (scrolled ?t) (rows ?t - 1) (rows ?t))" by blast
  have s: "wf_terminal s" "cursorCol s = 0" "cursorRow s = rows t - 1" "rows s = rows t" "cols s = cols t"
    "grid s = grid (scrolled ?t)" "curFg s = curFg t" "curBg s = curBg t"
    using newline_kept [OF wf] new assms(4)
    by (auto simp: s' touch_all_def scrolled_def dest: keptD)
  have dirty: "in_dirty s r" if "r < rows t" for r
    using that by (simp add: s' touch_all_def in_dirty_touch_rows scrolled_def)
  let ?u = "(touch_rows
     (s\<lparr>grid := (grid s)(cursorRow s := (grid s (cursorRow s))(cursorCol s := painted s x))\<rparr>)
     (cursorRow s) (Suc (cursorRow s)))\<lparr>cursorCol := Suc (cursorCol s)\<rparr>"
  have "put_char t x = put_char s x"
    using new assms(5) s(2) b wf_bounds(4) [OF s(1)] by (simp add: put_char_def)
  also have "\<dots> = Inr ?u"
    using s b by (intro put_char_closed) auto
  finally have "feed_bytes t [x] = Inr ?u"
    using assms(2,3) by (simp add: feed_bytes_Cons feed_printable)
  moreover have "in_dirty ?u r" if "r < rows t" for r
    using dirty [OF that] by (rule touched_dirty)
  moreover have "grid ?u r c = (if r < rows t - 1 then grid t (Suc r) c
        else if c = 0 then painted t x else painted t CHR '' '')" if "r < rows t" "c < cols t" for r c
  proof (cases "r < rows t - 1")
    case True
    then show ?thesis using that s(3,6) by (simp add: scrolled_def)
  next
    case False
    then have "r = rows t - 1" using that by simp
    then show ?thesis
      using that s(2,3,6,7,8) by (simp add: scrolled_def painted_def blank_def)
  qed
  moreover have "cursorRow ?u = rows t - 1" "cursorCol ?u = 1"
    using s by simp_all
  ultimately show ?thesis by blast
qed

theorem print_scrolls_witness:
  "\<exists>t'. feed_bytes ((small_screen 2 4)\<lparr>cursorRow := 1, cursorCol := 4\<rparr>) ''x'' = Inr t' \<and>
     cursorRow t' = 1 \<and> cursorCol t' = 1 \<and> ch (grid t' 1 0) = CHR ''x''"
proof -
  have "wf_terminal ((small_screen 2 4)\<lparr>cursorRow := 1, cursorCol := 4\<rparr>)"
    using small_screen_wf [of 2 4] by (simp add: wf_terminal_def small_screen_def)
  then show ?thesis
    using print_scrolls [of "(small_screen 2 4)\<lparr>cursorRow := 1, cursorCol := 4\<rparr>" "CHR ''x''"]
    by (fastforce simp: small_screen_def blank_parser_def printable_def painted_def)
qed

section \<open>Resizing\<close>

lemma fit_clamp_bounds:
  assumes "1 \<le> limit" and "limit \<le> u32_max"
  shows "1 \<le> fit_clamp n limit" and "fit_clamp n limit \<le> limit"
  using assms by (auto simp: fit_clamp_def u32_of_int_id)

definition default_blank :: cell where
  "default_blank = \<lparr>ch = CHR '' '', fg = kColorDefaultFg, bg = kColorBackground\<rparr>"

definition grown :: "nat \<Rightarrow> nat \<Rightarrow> terminal \<Rightarrow> terminal" where
  "grown newRows newCols t =
     t\<lparr>grid := (\<lambda>r c. if r < newRows \<and> (r < rows t \<longrightarrow> cols t \<le> c) \<and> c < newCols
                      then default_blank else grid t r c)\<rparr>"

lemma set_cells_closed:
  assumes "k < kMaxRows" and "n \<le> kMaxCols"
  shows "foreach [m..<n] (\<lambda>c t. set_cell t k c x) s =
    Inr (s\<lparr>grid := (\<lambda>r c. if r = k \<and> m \<le> c \<and> c < n then x else grid s r c)\<rparr>)"
proof (cases "m \<le> n")
  case True
  then show ?thesis
  proof (rule foreach_upt [where G = "\<lambda>j. s\<lparr>grid := (\<lambda>r c. if r = k \<and> m \<le> c \<and> c < j then x else grid s r c)\<rparr>"])
    show "s\<lparr>grid := (\<lambda>r c. if r = k \<and> m \<le> c \<and> c < m then x else grid s r c)\<rparr> = s"
      by (rule grid_update_idI) auto
  next
    fix j assume "m \<le> j" "j < n"
    then show "set_cell (s\<lparr>grid := (\<lambda>r c. if r = k \<and> m \<le> c \<and> c < j then x else grid s r c)\<rparr>) k j x =
      Inr (s\<lparr>grid := (\<lambda>r c. if r = k \<and> m \<le> c \<and> c < Suc j then x else grid s r c)\<rparr>)"
      using assms by (auto simp: set_cell_def less_Suc_eq intro!: grid_update_eqI)
  qed
next
  case False
  then have "s\<lparr>grid := (\<lambda>r c. if r = k \<and> m \<le> c \<and> c < n then x else grid s r c)\<rparr> = s"
    by (intro grid_update_idI) auto
  with False show ?thesis by simp
qed

lemma blank_new_cells_closed:
  assumes "newRows \<le> kMaxRows" and "newCols \<le> kMaxCols"
  shows "blank_new_cells newRows newCols t = Inr (grown newRows newCols t)"
  unfolding blank_new_cells_def grown_def default_blank_def [symmetric]
proof (rule foreach_upt [where G = "\<lambda>k. t\<lparr>grid := (\<lambda>r c. if r < k \<and> (r < rows t \<longrightarrow> cols t \<le> c) \<and> c < newCols
                      then default_blank else grid t r c)\<rparr>"])
  fix k assume k: "k < newRows"
  let ?G = "\<lambda>k. t\<lparr>grid := (\<lambda>r c. if r < k \<and> (r < rows t \<longrightarrow> cols t \<le> c) \<and> c < newCols
                      then default_blank else grid t r c)\<rparr>"
  have "foreach [if k < rows (?G k) then cols (?G k) else 0..<newCols]
      (\<lambda>c t. set_cell t k c default_blank) (?G k) =
    Inr ((?G k)\<lparr>grid := (\<lambda>r c. if r = k \<and> (if k < rows t then cols t else 0) \<le> c \<and> c < newCols
      then default_blank else grid (?G k) r c)\<rparr>)"
    using k assms by (subst set_cells_closed) auto
  also have "(?G k)\<lparr>grid := (\<lambda>r c. if r = k \<and> (if k < rows t then cols t else 0) \<le> c \<and> c < newCols
      then default_blank else grid (?G k) r c)\<rparr> = ?G (Suc k)"
    by (auto simp: less_Suc_eq intro!: grid_update_eqI)
  finally show "foreach [if k < rows (?G k) then cols (?G k) else 0..<newCols]
      (\<lambda>c t. set_cell t k c default_blank) (?G k) = Inr (?G (Suc k))" .
qed (auto intro: grid_update_idI)

text \<open>Each pass of the loop moves the rows up to the cursor's up by one.\<close>

lemma shrink_loop_keeps:
  assumes "1 \<le> n" and "cursorRow t < kMaxRows" and "1 \<le> cols t" and "cols t \<le> kMaxCols"
  shows "\<exists>t'. shrink_loop n t = Inr t' \<and> cursorRow t' = min (cursorRow t) (n - 1) \<and>
    cols t' = cols t \<and> cursorCol t' = cursorCol t \<and> parser t' = parser t \<and>
    (\<forall>r\<le>cursorRow t'. \<forall>c<cols t.
       grid t' r c = grid t (r + (cursorRow t - cursorRow t')) c)"
  using assms
proof (induction "cursorRow t" arbitrary: t)
  case 0
  then show ?case by (simp add: shrink_loop.simps)
next
  case (Suc k)
  show ?case
  proof (cases "n \<le> cursorRow t")
    case False
    then show ?thesis by (auto simp: shrink_loop.simps [of n t])
  next
    case True
    let ?t = "t\<lparr>rows := Suc (cursorRow t)\<rparr>"
    let ?s = "touch_all (touch_rows (scrolled ?t) (rows ?t - 1) (rows ?t))"
    let ?u = "?s\<lparr>cursorRow := k\<rparr>"
    have "scroll_up ?t = Inr ?s"
      using Suc.prems by (intro scroll_up_closed) (auto simp: sizes)
    moreover have "u32_add (cursorRow t) 1 = Suc (cursorRow t)"
      using Suc.prems by (simp add: u32_add_id sizes)
    moreover have sel: "cursorRow ?s = cursorRow t" "cols ?s = cols t" "cursorCol ?s = cursorCol t"
      "parser ?s = parser t" "grid ?s = grid (scrolled ?t)"
      by (simp_all add: touch_all_def scrolled_def)
    moreover have "cursorRow t - 1 = k" using Suc.hyps(2) by simp
    ultimately have step: "shrink_loop n t = shrink_loop n ?u"
      using True Suc.hyps(2) by (simp add: shrink_loop.simps [of n t])
    have "\<exists>t'. shrink_loop n ?u = Inr t' \<and> cursorRow t' = min (cursorRow ?u) (n - 1) \<and>
      cols t' = cols ?u \<and> cursorCol t' = cursorCol ?u \<and> parser t' = parser ?u \<and>
      (\<forall>r\<le>cursorRow t'. \<forall>c<cols ?u. grid t' r c = grid ?u (r + (cursorRow ?u - cursorRow t')) c)"
      using Suc.hyps(2) Suc.prems sel by (intro Suc.hyps(1)) auto
    then obtain t' where t': "shrink_loop n ?u = Inr t'" "cursorRow t' = min k (n - 1)"
      "cols t' = cols t" "cursorCol t' = cursorCol t" "parser t' = parser t"
      "\<And>r c. r \<le> cursorRow t' \<Longrightarrow> c < cols t \<Longrightarrow>
         grid t' r c = grid (scrolled ?t) (r + (k - cursorRow t')) c"
      using sel by auto
    have "grid t' r c = grid t (r + (cursorRow t - cursorRow t')) c"
      if "r \<le> cursorRow t'" "c < cols t" for r c
    proof -
      have "r + (k - cursorRow t') < cursorRow t" "cursorRow t - cursorRow t' = Suc (k - cursorRow t')"
        using that(1) t'(2) Suc.hyps(2) by auto
      then show ?thesis
        using t'(6) [OF that] that(2) by (simp add: scrolled_def)
    qed
    with t' show ?thesis
      unfolding step using True Suc.hyps(2) by (intro exI [of _ t']) auto
  qed
qed

definition sizable :: "terminal \<Rightarrow> bool" where
  "sizable t \<longleftrightarrow> rows t \<le> kMaxRows \<and> cols t \<le> kMaxCols \<and> cursorRow t < max 1 (rows t) \<and>
     wf_parser (parser t)"

text \<open>
  Resizing keeps the text up to the cursor: from any well-formed screen, or the empty one
  \<open>on_create\<close> starts with, \<open>fit_grid\<close> ends, without an access outside the arrays, in a
  well-formed screen whose size is the clamped client size; the cursor's row and the rows above
  it that still fit are unchanged in the columns that exist before and after, and every row is
  to be repainted.
\<close>
theorem fit_grid_keeps_text:
  assumes "sizable t" and "cellW \<noteq> 0" and "lineH \<noteq> 0"
  shows "\<exists>t'. fit_grid t (w, h) cellW lineH = Inr t' \<and> wf_terminal t' \<and>
    cols t' = fit_clamp ((w - kPaddingX * 2) sdiv cellW) kMaxCols \<and>
    rows t' = fit_clamp ((h - kPaddingY * 2) sdiv lineH) kMaxRows \<and>
    cursorRow t' = min (cursorRow t) (rows t' - 1) \<and>
    cursorCol t' = min (cursorCol t) (cols t') \<and>
    (cursorRow t < rows t \<longrightarrow> (\<forall>r\<le>cursorRow t'. \<forall>c<min (cols t) (cols t').
       grid t' r c = grid t (r + (cursorRow t - cursorRow t')) c)) \<and>
    (\<forall>r<rows t'. in_dirty t' r)"
proof -
  define nc where "nc = fit_clamp ((w - kPaddingX * 2) sdiv cellW) kMaxCols"
  define nr where "nr = fit_clamp ((h - kPaddingY * 2) sdiv lineH) kMaxRows"
  have n: "1 \<le> nc" "nc \<le> kMaxCols" "1 \<le> nr" "nr \<le> kMaxRows"
    unfolding nc_def nr_def by (simp_all add: fit_clamp_bounds [unfolded One_nat_def] sizes)
  let ?g = "(grown nr nc t)\<lparr>cols := nc\<rparr>"
  have g: "cursorRow ?g = cursorRow t" "cursorCol ?g = cursorCol t" "parser ?g = parser t"
    by (simp_all add: grown_def)
  have cr: "cursorRow t < kMaxRows" using assms(1) by (auto simp: sizable_def sizes max_def split: if_splits)
  then obtain s where s: "shrink_loop nr ?g = Inr s" "cursorRow s = min (cursorRow t) (nr - 1)"
      "cols s = nc" "cursorCol s = cursorCol t" "parser s = parser t"
      "\<And>r c. r \<le> cursorRow s \<Longrightarrow> c < nc \<Longrightarrow> grid s r c = grid ?g (r + (cursorRow t - cursorRow s)) c"
    using shrink_loop_keeps [of nr ?g] n g by auto
  let ?u = "if cols (s\<lparr>rows := nr\<rparr>) < cursorCol (s\<lparr>rows := nr\<rparr>)
            then s\<lparr>rows := nr, cursorCol := cols s\<rparr> else s\<lparr>rows := nr\<rparr>"
  have fit: "fit_grid t (w, h) cellW lineH = Inr (touch_all ?u)"
    using assms(2,3) n s(1) unfolding fit_grid_def nc_def [symmetric] nr_def [symmetric] Let_def fst_conv snd_conv
    by (simp add: nc_def [symmetric] nr_def [symmetric] blank_new_cells_closed)
  have u: "rows ?u = nr" "cols ?u = nc" "cursorRow ?u = cursorRow s" "cursorCol ?u = min (cursorCol t) nc"
    "parser ?u = parser t" "grid ?u = grid s"
    using s by auto
  obtain u where u': "u = ?u" by blast
  note v = u [folded u'] fit [folded u']
  have "grid u r c = grid t (r + (cursorRow t - cursorRow u)) c"
    if "cursorRow t < rows t" "r \<le> cursorRow u" "c < min (cols t) nc" for r c
  proof -
    have "r + (cursorRow t - cursorRow s) < rows t"
      using that(1,2) v(3) s(2) by auto
    then show ?thesis
      using that s(6) [of r c] v by (simp add: grown_def)
  qed
  moreover have "in_dirty (touch_all u) r" if "r < nr" for r
    using that v(1) by (simp add: touch_all_def in_dirty_touch_rows)
  moreover have "wf_terminal (touch_all u)"
    using v s(2) n assms(1) by (auto simp: wf_terminal_def touch_all_def sizable_def)
  ultimately show ?thesis
    using v s(2) unfolding nc_def [symmetric] nr_def [symmetric]
    by (intro exI [of _ "touch_all u"]) (simp add: touch_all_def)
qed

theorem fit_grid_keeps_text_witness:
  "\<exists>t'. fit_grid (small_screen 24 80) (344, 104) 8 16 = Inr t' \<and> wf_terminal t' \<and>
     cols t' = 40 \<and> rows t' = 5"
proof -
  have "sizable (small_screen 24 80)"
    using small_screen_wf [of 24 80] by (simp add: sizable_def wf_terminal_def)
  moreover have "fit_clamp ((344 - kPaddingX * 2) sdiv 8) kMaxCols = 40"
    "fit_clamp ((104 - kPaddingY * 2) sdiv 16) kMaxRows = 5"
    by code_simp+
  ultimately show ?thesis
    using fit_grid_keeps_text [of "small_screen 24 80" 8 16 344 104] by auto
qed

end
