(* ===== verification/Terminal_Keys.thy ===== *)
theory Terminal_Keys
  imports Terminal
begin

text \<open>
  Key presses, \<open>src/terminal/src/main.cpp\<close>: \<open>key_sequence\<close>, \<open>translate_key\<close> and the path of the
  pseudo-terminal's slave. The output buffers are arrays of fixed size; a byte is stored with
  \<open>store\<close>, which checks the bound.
\<close>

section \<open>Keys\<close>

text \<open>
  The key codes of the user interface library that the program tells apart. The letters are a
  range, \<open>KeyA\<close> to \<open>KeyZ\<close>: \<open>KeyLetter i\<close> is the code \<open>KeyA + i\<close>.
\<close>

datatype key_code =
    KeyUp | KeyDown | KeyRight | KeyLeft | KeyHome | KeyEnd | KeyInsert | KeyDelete
  | KeyPageUp | KeyPageDown | KeyF1 | KeyF2 | KeyF3 | KeyF4 | KeyF5 | KeyF6 | KeyF7 | KeyF8
  | KeyF9 | KeyF10 | KeyF11 | KeyF12
  | KeyEnter | KeypadEnter | KeyBackspace | KeyTab | KeyEscape | KeySpace | Key2 | Key6
  | KeyLeftBracket | KeyBackslash | KeyRightBracket | KeyMinus | KeySlash
  | KeyLetter nat | OtherKey nat

record key_event =
  key :: key_code
  key_text :: "char option"
  shift :: bool
  ctrl :: bool
  alt :: bool

definition ESC :: char where "ESC = CHR 0x1B"

definition key_sequence :: "key_code \<Rightarrow> string option" where
  "key_sequence code =
     (case code of
        KeyUp \<Rightarrow> Some (ESC # ''[A'')
      | KeyDown \<Rightarrow> Some (ESC # ''[B'')
      | KeyRight \<Rightarrow> Some (ESC # ''[C'')
      | KeyLeft \<Rightarrow> Some (ESC # ''[D'')
      | KeyHome \<Rightarrow> Some (ESC # ''[H'')
      | KeyEnd \<Rightarrow> Some (ESC # ''[F'')
      | KeyInsert \<Rightarrow> Some (ESC # ''[2~'')
      | KeyDelete \<Rightarrow> Some (ESC # ''[3~'')
      | KeyPageUp \<Rightarrow> Some (ESC # ''[5~'')
      | KeyPageDown \<Rightarrow> Some (ESC # ''[6~'')
      | KeyF1 \<Rightarrow> Some (ESC # ''OP'')
      | KeyF2 \<Rightarrow> Some (ESC # ''OQ'')
      | KeyF3 \<Rightarrow> Some (ESC # ''OR'')
      | KeyF4 \<Rightarrow> Some (ESC # ''OS'')
      | KeyF5 \<Rightarrow> Some (ESC # ''[15~'')
      | KeyF6 \<Rightarrow> Some (ESC # ''[17~'')
      | KeyF7 \<Rightarrow> Some (ESC # ''[18~'')
      | KeyF8 \<Rightarrow> Some (ESC # ''[19~'')
      | KeyF9 \<Rightarrow> Some (ESC # ''[20~'')
      | KeyF10 \<Rightarrow> Some (ESC # ''[21~'')
      | KeyF11 \<Rightarrow> Some (ESC # ''[23~'')
      | KeyF12 \<Rightarrow> Some (ESC # ''[24~'')
      | _ \<Rightarrow> None)"

text \<open>\<open>out[n++] = c\<close> in a buffer of \<open>capacity\<close> bytes whose first \<open>n\<close> bytes are the list.\<close>

definition store :: "nat \<Rightarrow> char \<Rightarrow> string \<Rightarrow> ub + string" where
  "store capacity c out = (if length out < capacity then Inr (out @ [c]) else Inl OutOfBounds)"

definition store_all :: "nat \<Rightarrow> string \<Rightarrow> string \<Rightarrow> ub + string" where
  "store_all capacity xs out = foreach xs (store capacity) out"

definition modifier_param :: "key_event \<Rightarrow> char" where
  "modifier_param k =
     char_of ((49::nat) + (if shift k then 1 else 0) + (if alt k then 2 else 0) + (if ctrl k then 4 else 0))"

definition with_modifiers :: "char \<Rightarrow> string \<Rightarrow> ub + string" where
  "with_modifiers param out =
     (if param = CHR ''1'' then Inr out
      else let final = last out;
               out = take (if final = CHR ''~'' then length out - 1 else 2) out;
               out = out[1 := CHR ''['']
           in seqE (if final \<noteq> CHR ''~'' then store 8 CHR ''1'' out else Inr out)
                (store_all 8 [CHR '';'', param, final]))"

definition control_char :: "key_code \<Rightarrow> char option" where
  "control_char code =
     (case code of
        KeyLetter i \<Rightarrow> Some (char_of (i + 1))
      | KeySpace \<Rightarrow> Some (CHR 0x00)
      | Key2 \<Rightarrow> Some (CHR 0x00)
      | KeyLeftBracket \<Rightarrow> Some (CHR 0x1B)
      | KeyBackslash \<Rightarrow> Some (CHR 0x1C)
      | KeyRightBracket \<Rightarrow> Some (CHR 0x1D)
      | Key6 \<Rightarrow> Some (CHR 0x1E)
      | KeyMinus \<Rightarrow> Some (CHR 0x1F)
      | KeySlash \<Rightarrow> Some (CHR 0x1F)
      | _ \<Rightarrow> None)"

definition plain_key :: "key_code \<Rightarrow> char option" where
  "plain_key code =
     (case code of
        KeyEnter \<Rightarrow> Some (CHR 0x0A)
      | KeypadEnter \<Rightarrow> Some (CHR 0x0A)
      | KeyBackspace \<Rightarrow> Some (CHR 0x7F)
      | KeyTab \<Rightarrow> Some (CHR 0x09)
      | KeyEscape \<Rightarrow> Some (CHR 0x1B)
      | _ \<Rightarrow> None)"

text \<open>\<open>translate_key\<close>: the bytes for the shell, none when the key is ignored.\<close>

definition translate_key :: "key_event \<Rightarrow> ub + string" where
  "translate_key k =
     (case key_sequence (key k) of
        Some sequence \<Rightarrow>
          seqE (store_all 8 sequence []) (with_modifiers (modifier_param k))
      | None \<Rightarrow>
          seqE (if alt k then store 8 ESC [] else Inr [])
            (\<lambda>out. case plain_key (key k) of
                Some c \<Rightarrow> store 8 c out
              | None \<Rightarrow>
                 (case (if ctrl k then control_char (key k) else None) of
                    Some c \<Rightarrow> store 8 c out
                  | None \<Rightarrow> (case key_text k of None \<Rightarrow> Inr [] | Some c \<Rightarrow> store 8 c out))))"

lemma store_all_fits:
  "length out + length xs \<le> capacity \<Longrightarrow> store_all capacity xs out = Inr (out @ xs)"
  by (induction xs arbitrary: out) (simp_all add: store_all_def store_def)

lemma key_sequence_forms:
  assumes "key_sequence code = Some s"
  shows "(length s = 3 \<and> s ! 0 = ESC \<and> last s \<noteq> CHR ''~'') \<or>
    ((length s = 4 \<or> length s = 5) \<and> s ! 0 = ESC \<and> s ! 1 = CHR ''['' \<and> last s = CHR ''~'')"
  using assms by (cases code) (simp_all add: key_sequence_def, (hypsubst, simp)+)

text \<open>
  The sequence xterm sends: \<open>ESC [ 1 ; m c\<close> for the keys that send \<open>ESC [ c\<close> or \<open>ESC O c\<close>, and
  \<open>ESC [ n ; m ~\<close> for those that send \<open>ESC [ n ~\<close>.
\<close>

definition xterm_sequence :: "char \<Rightarrow> string \<Rightarrow> string" where
  "xterm_sequence m s =
     (if m = CHR ''1'' then s
      else if last s = CHR ''~'' then butlast s @ [CHR '';'', m, CHR ''~'']
      else [ESC, CHR ''['', CHR ''1'', CHR '';'', m, last s])"

lemma with_modifiers_xterm:
  assumes "key_sequence code = Some s"
  shows "with_modifiers m s = Inr (xterm_sequence m s) \<and> length (xterm_sequence m s) \<le> 7"
proof -
  consider a b where "s = [ESC, a, b]" "b \<noteq> CHR ''~''"
    | a where "s = [ESC, CHR ''['', a, CHR ''~'']"
    | a b where "s = [ESC, CHR ''['', a, b, CHR ''~'']"
    using key_sequence_forms [OF assms]
    by (auto simp: length_Suc_conv eval_nat_numeral)
  then show ?thesis
    by cases (simp_all add: with_modifiers_def xterm_sequence_def store_def store_all_def Let_def)
qed

text \<open>
  A key press never writes outside the eight bytes \<open>on_key_down\<close> gives it: \<open>translate_key\<close>
  succeeds, stores at most seven bytes, and for the cursor, editing and function keys they are
  xterm's sequence with the modifiers held as its parameter.
\<close>
theorem translate_key_safe:
  "\<exists>out. translate_key k = Inr out \<and> length out \<le> 7 \<and>
     (case key_sequence (key k) of
        Some s \<Rightarrow> out = xterm_sequence (modifier_param k) s
      | None \<Rightarrow> length out \<le> 2)"
proof (cases "key_sequence (key k)")
  case None
  then show ?thesis
    by (auto simp: translate_key_def store_def split: option.splits)
next
  case (Some s)
  have "length s \<le> 5" using key_sequence_forms [OF Some] by auto
  then show ?thesis
    using with_modifiers_xterm [OF Some]
    by (simp add: translate_key_def Some store_all_fits)
qed

section \<open>The slave's path\<close>

definition build_pts_path :: "nat \<Rightarrow> ub + string" where
  "build_pts_path n =
     seqE (store_all 12 (if n = 0 then ''0'' else low_digits n) [])
       (\<lambda>digits. store_all 31 (''/dev/pts/'' @ rev digits) [])"

lemma build_pts_path_eq:
  assumes "n \<le> u32_max"
  shows "build_pts_path n = Inr (''/dev/pts/'' @ decimal n)"
proof -
  have "n < 10 ^ 10" using assms by (simp add: u32_max_def)
  then have "length (low_digits n) \<le> 10" by (rule length_low_digits)
  then have "store_all 12 (if n = 0 then ''0'' else low_digits n) [] =
      Inr (if n = 0 then ''0'' else low_digits n)"
    by (subst store_all_fits) auto
  moreover have "store_all 31 (''/dev/pts/'' @ decimal n) [] = Inr (''/dev/pts/'' @ decimal n)"
    using length_decimal [OF \<open>n < 10 ^ 10\<close>] by (subst store_all_fits) auto
  moreover have "rev (if n = 0 then ''0'' else low_digits n) = decimal n"
    by (simp add: decimal_def)
  ultimately show ?thesis by (simp only: build_pts_path_def seqE_simps)
qed

text \<open>
  The path built for any 32-bit pseudo-terminal number fits its buffers, and is
  \<open>/dev/pts/\<close> followed by the number in decimal, from which the number can be read back.
\<close>
theorem build_pts_path_decimal:
  assumes "n \<le> u32_max"
  shows "\<exists>path. build_pts_path n = Inr path \<and> take 9 path = ''/dev/pts/'' \<and>
    digits_value (drop 9 path) = n \<and> length path \<le> 19"
  using build_pts_path_eq [OF assms] length_decimal [of n 10] assms
  by (simp add: digits_value_decimal u32_max_def)

theorem build_pts_path_decimal_witness:
  "\<exists>path. build_pts_path 42 = Inr path \<and> digits_value (drop 9 path) = 42"
  using build_pts_path_decimal [of 42] by (auto simp: u32_max_def)

end
