(* ===== verification/Terminal_Window.thy ===== *)
theory Terminal_Window
  imports Terminal_Screen Terminal_Keys
begin

text \<open>
  The terminal's window, \<open>class TerminalWindow\<close> in \<open>src/terminal/src/main.cpp\<close>: opening the
  pseudo-terminal and its shell, the handlers of the window loop, and the repaint requests. The
  kernel and the window library are an environment that answers the calls below; a handle is
  the value of a successful call, and \<open>None\<close> stands for \<open>fail\<close>. Painting is not modelled.
\<close>

section \<open>Calls\<close>

datatype term_call =
    LoadFont string nat | FontWidth string | FontLineHeight | ClientSize
  | SetTimer int | KillTimer int | Invalidate int int int int
  | Open string | Close nat | GetPtn nat | SetWinsize nat nat nat | SetPgrp nat nat
  | Dup2 nat nat | Spawn string | Watch nat | Unwatch nat
  | Poll nat | Read nat nat | Write nat string

datatype term_reply = Fail | Num nat | Integer int | Bytes string | Extent int int | Flag bool

fun num_of :: "term_reply \<Rightarrow> nat option" where
  "num_of (Num n) = Some n"
| "num_of _ = None"

fun int_of_reply :: "term_reply \<Rightarrow> int" where
  "int_of_reply (Integer i) = i"
| "int_of_reply _ = 0"

fun extent_of :: "term_reply \<Rightarrow> int \<times> int" where
  "extent_of (Extent w h) = (w, h)"
| "extent_of _ = (0, 0)"

fun bytes_of :: "term_reply \<Rightarrow> string" where
  "bytes_of (Bytes xs) = xs"
| "bytes_of _ = []"

type_synonym term_env = "(term_call, term_reply) environment"

record window =
  screen :: terminal
  cellW :: int
  lineH :: int
  master :: "nat option"
  cursorShown :: bool
  blinkTimer :: int
  paintedCursorRow :: nat
  calls :: "term_call list"

definition ask :: "term_env \<Rightarrow> term_call \<Rightarrow> window \<Rightarrow> term_reply \<times> window" where
  "ask env c w = (env (calls w) c, w\<lparr>calls := calls w @ [c]\<rparr>)"

definition tell :: "term_call \<Rightarrow> window \<Rightarrow> window" where
  "tell c w = w\<lparr>calls := calls w @ [c]\<rparr>"

definition feed_screen :: "string \<Rightarrow> window \<Rightarrow> ub + window" where
  "feed_screen xs w = seqE (feed_bytes (screen w) xs) (\<lambda>t. Inr (w\<lparr>screen := t\<rparr>))"

definition kCursorBlinkMs :: int where "kCursorBlinkMs = 500"

section \<open>The shell\<close>

definition stdio_handle :: "nat \<Rightarrow> nat" where
  "stdio_handle slot = 281474976710656 + slot"

definition kShellCandidates :: "string list" where
  "kShellCandidates = [''/bin/bash'', ''/bin/sh'', ''/bin/dash'']"

fun spawn_first :: "term_env \<Rightarrow> string list \<Rightarrow> window \<Rightarrow> nat option \<times> window" where
  "spawn_first env [] w = (None, w)"
| "spawn_first env (p # ps) w =
     (case ask env (Spawn p) w of
        (r, w) \<Rightarrow> (case num_of r of Some pid \<Rightarrow> (Some pid, w) | None \<Rightarrow> spawn_first env ps w))"

definition spawn_shell :: "term_env \<Rightarrow> nat \<Rightarrow> window \<Rightarrow> nat option \<times> window" where
  "spawn_shell env slaveFd w =
     spawn_first env kShellCandidates
       (tell (Dup2 slaveFd (stdio_handle 2)) (tell (Dup2 slaveFd (stdio_handle 1))
         (tell (Dup2 slaveFd (stdio_handle 0)) w)))"

definition set_shell_size :: "window \<Rightarrow> window" where
  "set_shell_size w =
     (case master w of
        None \<Rightarrow> w
      | Some m \<Rightarrow> tell (SetWinsize m (rows (screen w) mod 65536) (cols (screen w) mod 65536)) w)"

definition open_slave :: "term_env \<Rightarrow> nat \<Rightarrow> nat \<Rightarrow> window \<Rightarrow> ub + bool \<times> window" where
  "open_slave env m ptn w =
     seqE (build_pts_path ptn) (\<lambda>path.
       case ask env (Open path) w of (r, w) \<Rightarrow>
         (case num_of r of
            None \<Rightarrow> Inr (False, w)
          | Some slave \<Rightarrow>
             (case spawn_shell env slave w of (pid, w) \<Rightarrow>
                let w = tell (Close slave) w
                in case pid of
                     None \<Rightarrow> Inr (False, w)
                   | Some pid \<Rightarrow>
                      Inr (True, tell (Watch m) (tell (SetPgrp m (pid mod 4294967296)) w)))))"

definition open_pty :: "term_env \<Rightarrow> window \<Rightarrow> ub + bool \<times> window" where
  "open_pty env w =
     (case ask env (Open ''/dev/ptmx'') w of (r, w) \<Rightarrow>
        (case num_of r of
           None \<Rightarrow> Inr (False, w)
         | Some m \<Rightarrow>
            (case ask env (GetPtn m) (set_shell_size (w\<lparr>master := Some m\<rparr>)) of (r, w) \<Rightarrow>
               (case num_of r of
                  None \<Rightarrow> Inr (False, w)
                | Some ptn \<Rightarrow> open_slave env m (ptn mod 4294967296) w))))"

section \<open>Repainting and the blinking cursor\<close>

definition flush :: "term_env \<Rightarrow> window \<Rightarrow> window" where
  "flush env w =
     (let w = w\<lparr>screen := touch_rows (screen w) (paintedCursorRow w) (u32_add (paintedCursorRow w) 1)\<rparr>;
          t = screen w;
          w = (if dirtyTop t < dirtyBottom t then
                 let top = kPaddingY + int (dirtyTop t) * lineH w;
                     bottom = kPaddingY + int (dirtyBottom t) * lineH w
                 in case ask env ClientSize w of
                      (r, w) \<Rightarrow> tell (Invalidate 0 top (fst (extent_of r)) (bottom - top)) w
               else w)
      in w\<lparr>screen := (screen w)\<lparr>dirtyTop := 0, dirtyBottom := 0\<rparr>\<rparr>)"

definition touch_cursor_row :: "window \<Rightarrow> window" where
  "touch_cursor_row w =
     w\<lparr>screen := touch_rows (screen w) (cursorRow (screen w)) (u32_add (cursorRow (screen w)) 1)\<rparr>"

definition restart_blink :: "term_env \<Rightarrow> window \<Rightarrow> window" where
  "restart_blink env w =
     (let w = touch_cursor_row (w\<lparr>cursorShown := True\<rparr>);
          w = (if blinkTimer w \<noteq> 0 then tell (KillTimer (blinkTimer w)) w else w)
      in case ask env (SetTimer kCursorBlinkMs) w of (r, w) \<Rightarrow> w\<lparr>blinkTimer := int_of_reply r\<rparr>)"

definition on_timer :: "term_env \<Rightarrow> int \<Rightarrow> window \<Rightarrow> window" where
  "on_timer env i w =
     (if i = blinkTimer w then flush env (touch_cursor_row (w\<lparr>cursorShown := \<not> cursorShown w\<rparr>))
      else w)"

definition on_focus :: "term_env \<Rightarrow> window \<Rightarrow> window" where
  "on_focus env w = flush env (restart_blink env w)"

section \<open>The window's handlers\<close>

definition failure_message :: string where
  "failure_message = ''terminal: could not start a shell'' @ [CHR 0x0D, CHR 0x0A]"

definition exit_message :: string where
  "exit_message = [CHR 0x0D, CHR 0x0A] @ ''[shell exited]''"

definition load_font :: "term_env \<Rightarrow> window \<Rightarrow> window" where
  "load_font env w =
     (case ask env (LoadFont ''/bin/JetBrainsMono-Regular.ttf'' 15) w of (r, w) \<Rightarrow>
        if r = Flag True then
          (case ask env (FontWidth ''M'') w of (cw, w) \<Rightarrow>
            (case ask env FontLineHeight w of (lh, w) \<Rightarrow>
               w\<lparr>cellW := int_of_reply cw, lineH := int_of_reply lh\<rparr>))
        else w)"

definition on_create :: "term_env \<Rightarrow> window \<Rightarrow> ub + window" where
  "on_create env w =
     (let w = load_font env w;
          w = w\<lparr>screen := (screen w)\<lparr>curFg := kColorDefaultFg, curBg := kColorBackground,
                                     rows := 0, cols := 0\<rparr>\<rparr>
      in case ask env ClientSize w of (r, w) \<Rightarrow>
         seqE (fit_grid (screen w) (extent_of r) (cellW w) (lineH w)) (\<lambda>t.
           seqE (open_pty env (w\<lparr>screen := t\<rparr>)) (\<lambda>(started, w).
             seqE (if started then Inr w else feed_screen failure_message w) (\<lambda>w.
               case ask env (SetTimer kCursorBlinkMs) w of (r, w) \<Rightarrow>
                 Inr (flush env (w\<lparr>blinkTimer := int_of_reply r\<rparr>))))))"

definition on_size :: "int \<times> int \<Rightarrow> window \<Rightarrow> ub + window" where
  "on_size extent w =
     seqE (fit_grid (screen w) extent (cellW w) (lineH w))
       (\<lambda>t. Inr (set_shell_size (w\<lparr>screen := t\<rparr>)))"

definition on_destroy :: "window \<Rightarrow> window" where
  "on_destroy w =
     (case master w of None \<Rightarrow> w | Some m \<Rightarrow> (tell (Close m) w)\<lparr>master := None\<rparr>)"

definition on_key_down :: "term_env \<Rightarrow> key_event \<Rightarrow> window \<Rightarrow> ub + window" where
  "on_key_down env k w =
     seqE (translate_key k) (\<lambda>s.
       case master w of
         None \<Rightarrow> Inr w
       | Some m \<Rightarrow> Inr (if s \<noteq> [] then restart_blink env (tell (Write m s) w) else w))"

text \<open>
  The reading loop: \<open>n\<close> passes are left and \<open>first\<close> says that this is the first. A reply longer
  than the buffer would be read out of bounds.
\<close>

fun read_loop :: "term_env \<Rightarrow> nat \<Rightarrow> nat \<Rightarrow> bool \<Rightarrow> window \<Rightarrow> ub + window" where
  "read_loop env h 0 first w = Inr w"
| "read_loop env h (Suc n) first w =
     (case (if first then (Flag True, w) else ask env (Poll h) w) of (ready, w) \<Rightarrow>
        if ready \<noteq> Flag True then Inr w
        else case ask env (Read h 512) w of (r, w) \<Rightarrow>
          if bytes_of r = [] then
            (if first then feed_screen exit_message (tell (Unwatch h) w) else Inr w)
          else if 512 < length (bytes_of r) then Inl OutOfBounds
          else seqE (feed_screen (bytes_of r) w) (read_loop env h n False))"

definition on_readable :: "term_env \<Rightarrow> nat \<Rightarrow> window \<Rightarrow> ub + window" where
  "on_readable env h w =
     seqE (read_loop env h 32 True w) (\<lambda>w. Inr (flush env (restart_blink env w)))"

section \<open>Every handler adds to the call log\<close>

declare read_loop.simps [simp del]

lemma ask_simps [simp]:
  "fst (ask env c w) = env (calls w) c" "snd (ask env c w) = tell c w"
  by (simp_all add: ask_def tell_def)

lemma tell_simps [simp]:
  "calls (tell c w) = calls w @ [c]" "screen (tell c w) = screen w" "cellW (tell c w) = cellW w"
  "lineH (tell c w) = lineH w" "master (tell c w) = master w" "blinkTimer (tell c w) = blinkTimer w"
  "paintedCursorRow (tell c w) = paintedCursorRow w" "cursorShown (tell c w) = cursorShown w"
  by (simp_all add: tell_def)

lemma window_swaps:
  "w\<lparr>calls := cs, screen := t\<rparr> = w\<lparr>screen := t, calls := cs\<rparr>"
  "w\<lparr>calls := cs, master := m\<rparr> = w\<lparr>master := m, calls := cs\<rparr>"
  by (cases w; simp)+

lemma ask_tell: "ask env c w = (env (calls w) c, tell c w)"
  by (simp add: ask_def tell_def)

text \<open>The bytes that the calls \<open>cs\<close>, made after \<open>log\<close>, have read.\<close>

fun read_bytes :: "term_env \<Rightarrow> term_call list \<Rightarrow> term_call list \<Rightarrow> string" where
  "read_bytes env log [] = []"
| "read_bytes env log (c # cs) =
     (case c of Read h n \<Rightarrow> bytes_of (env log c) | _ \<Rightarrow> []) @ read_bytes env (log @ [c]) cs"

lemma read_bytes_append:
  "read_bytes env log (cs @ ds) = read_bytes env log cs @ read_bytes env (log @ cs) ds"
  by (induction cs arbitrary: log) simp_all

definition is_read :: "term_call \<Rightarrow> bool" where
  "is_read c = (case c of Read h n \<Rightarrow> True | _ \<Rightarrow> False)"

lemma is_read_simps [simp]:
  "is_read (Read h n)" "\<not> is_read (Poll h)" "\<not> is_read (Unwatch h)" "\<not> is_read (KillTimer i)"
  "\<not> is_read (SetTimer i)" "\<not> is_read ClientSize" "\<not> is_read (Invalidate a b c d)"
  by (simp_all add: is_read_def)

lemma feed_screen_Inr:
  "feed_screen xs w = Inr w' \<longleftrightarrow> (\<exists>t. feed_bytes (screen w) xs = Inr t \<and> w' = w\<lparr>screen := t\<rparr>)"
  by (auto simp: feed_screen_def seqE_eq_Inr)

text \<open>
  The loop's contract: it displays what it read, in order, followed by the exit message when it
  stopped watching, in at most \<open>n\<close> reads; without a longer reply than asked for, it fails only
  where the emulator does.
\<close>

definition shown :: "term_env \<Rightarrow> nat \<Rightarrow> window \<Rightarrow> term_call list \<Rightarrow> string" where
  "shown env h w cs =
     read_bytes env (calls w) cs @ (if Unwatch h \<in> set cs then exit_message else [])"

text \<open>The kernel's contract of \<open>read\<close>: no more bytes than asked for.\<close>

definition reads_fit :: "term_env \<Rightarrow> nat \<Rightarrow> bool" where
  "reads_fit env h \<longleftrightarrow> (\<forall>log xs. env log (Read h 512) = Bytes xs \<longrightarrow> length xs \<le> 512)"

lemma read_loop_shows:
  assumes "wf_terminal (screen w)" and "reads_fit env h"
  shows "read_loop env h n first w = Inl SignedOverflow \<or>
    (\<exists>cs t. read_loop env h n first w = Inr (w\<lparr>screen := t, calls := calls w @ cs\<rparr>) \<and>
       feed_bytes (screen w) (shown env h w cs) = Inr t \<and> kept (screen w) t \<and>
       length (filter is_read cs) \<le> n \<and> (Unwatch h \<in> set cs \<longrightarrow> first))"
  using assms(1)
proof (induction n arbitrary: w first)
  case 0
  then show ?case
    by (intro disjI2 exI [of _ "[]"]) (simp add: shown_def kept_refl read_loop.simps)
next
  case (Suc n)
  define ps where "ps = (if first then [] else [Poll h])"
  define w1 where "w1 = w\<lparr>calls := calls w @ ps\<rparr>"
  define ready where "ready = (if first then Flag True else env (calls w) (Poll h))"
  have ready: "(if first then (Flag True, w) else ask env (Poll h) w) = (ready, w1)"
    by (simp add: ready_def w1_def ps_def ask_tell tell_def)
  let ?r = "env (calls w1) (Read h 512)" and ?w2 = "tell (Read h 512) w1"
  have ps: "read_bytes env (calls w) ps = []" "filter is_read ps = []" "Unwatch h \<notin> set ps"
    by (simp_all add: ps_def)
  have unfold: "read_loop env h (Suc n) first w =
     (if ready \<noteq> Flag True then Inr w1
      else if bytes_of ?r = [] then
            (if first then feed_screen exit_message (tell (Unwatch h) ?w2) else Inr ?w2)
      else if 512 < length (bytes_of ?r) then Inl OutOfBounds
      else seqE (feed_screen (bytes_of ?r) ?w2) (read_loop env h n False))"
    unfolding read_loop.simps ready by (simp add: ask_tell)
  have stop: ?case if "read_loop env h (Suc n) first w = Inr (w\<lparr>calls := calls w @ cs\<rparr>)"
      "read_bytes env (calls w) cs = []" "length (filter is_read cs) \<le> 1" "Unwatch h \<notin> set cs" for cs
    using that Suc.prems
    by (intro disjI2 exI [of _ cs] exI [of _ "screen w"]) (simp add: shown_def kept_refl)
  consider "ready \<noteq> Flag True" | "ready = Flag True" "bytes_of ?r = []" "\<not> first"
    | "ready = Flag True" "bytes_of ?r = []" "first" | "ready = Flag True" "bytes_of ?r \<noteq> []"
    by blast
  then show ?case
  proof cases
    case 1
    then show ?thesis using ps by (intro stop [of ps]) (simp_all add: unfold w1_def)
  next
    case 2
    have "read_loop env h (Suc n) first w = Inr (w\<lparr>calls := calls w @ ps @ [Read h 512]\<rparr>)"
      unfolding unfold using 2 by (simp add: w1_def tell_def)
    then show ?thesis
      using 2 ps by (intro stop [of "ps @ [Read h 512]"]) (simp_all only:, simp_all add: read_bytes_append w1_def)
  next
    case 3
    then have "read_loop env h (Suc n) first w =
        seqE (feed_bytes (screen w) exit_message)
          (\<lambda>t. Inr (w\<lparr>screen := t, calls := calls w @ ps @ [Read h 512, Unwatch h]\<rparr>))"
      unfolding unfold by (simp add: w1_def feed_screen_def tell_def window_swaps)
    then show ?thesis
      using feed_bytes_kept [OF Suc.prems, of exit_message] 3 ps
      by (auto simp: shown_def read_bytes_append w1_def
               intro!: exI [of _ "ps @ [Read h 512, Unwatch h]"])
  next
    case 4
    then obtain xs where xs: "?r = Bytes xs" by (cases ?r) auto
    then have len: "\<not> 512 < length xs" using assms(2) by (auto simp: reads_fit_def not_less)
    consider "feed_bytes (screen w) xs = Inl SignedOverflow"
      | t where "feed_bytes (screen w) xs = Inr t" "kept (screen w) t"
      using feed_bytes_kept [OF Suc.prems, of xs] by blast
    then show ?thesis
    proof cases
      case 1
      then show ?thesis using 4 xs len by (simp add: unfold w1_def feed_screen_def)
    next
      case (2 t)
      let ?w3 = "w\<lparr>screen := t, calls := calls w @ ps @ [Read h 512]\<rparr>"
      have eq: "read_loop env h (Suc n) first w = read_loop env h n False ?w3"
        using 4 xs len 2 by (simp add: unfold feed_screen_def w1_def tell_def window_swaps)
      consider "read_loop env h n False ?w3 = Inl SignedOverflow"
        | cs u where "read_loop env h n False ?w3 = Inr (?w3\<lparr>screen := u, calls := calls ?w3 @ cs\<rparr>)"
          "feed_bytes t (shown env h ?w3 cs) = Inr u" "kept t u"
          "length (filter is_read cs) \<le> n" "Unwatch h \<notin> set cs"
        using Suc.IH [of ?w3 False] keptD [OF 2(2)] by auto
      then show ?thesis
      proof cases
        case 1
        then show ?thesis by (simp add: eq)
      next
        case (2 cs u)
        then have "feed_bytes (screen w) (shown env h w (ps @ Read h 512 # cs)) = Inr u"
          using ps xs \<open>feed_bytes (screen w) xs = Inr t\<close>
          by (simp add: shown_def read_bytes_append feed_bytes_append w1_def)
        with 2 show ?thesis
          using ps kept_trans [OF \<open>kept (screen w) t\<close> 2(3)]
          by (intro disjI2 exI [of _ "ps @ Read h 512 # cs"] exI [of _ u]) (simp add: eq)
      qed
    qed
  qed
qed

lemma repainted_screen:
  "(touch_rows t a b)\<lparr>dirtyTop := 0, dirtyBottom := 0\<rparr> = t\<lparr>dirtyTop := 0, dirtyBottom := 0\<rparr>"
  by (simp add: touch_rows_def)

definition flush_rows :: "window \<Rightarrow> terminal" where
  "flush_rows w = touch_rows (screen w) (paintedCursorRow w) (u32_add (paintedCursorRow w) 1)"

definition flush_calls :: "term_env \<Rightarrow> window \<Rightarrow> term_call list" where
  "flush_calls env w =
     (let top = kPaddingY + int (dirtyTop (flush_rows w)) * lineH w;
          bottom = kPaddingY + int (dirtyBottom (flush_rows w)) * lineH w
      in if dirtyTop (flush_rows w) < dirtyBottom (flush_rows w) then
           [ClientSize, Invalidate 0 top (fst (extent_of (env (calls w) ClientSize))) (bottom - top)]
         else [])"

lemma flush_eq:
  "flush env w =
     w\<lparr>screen := (screen w)\<lparr>dirtyTop := 0, dirtyBottom := 0\<rparr>, calls := calls w @ flush_calls env w\<rparr>"
proof -
  let ?w = "w\<lparr>screen := flush_rows w\<rparr>"
  have "(flush_rows w)\<lparr>dirtyTop := 0, dirtyBottom := 0\<rparr> = (screen w)\<lparr>dirtyTop := 0, dirtyBottom := 0\<rparr>"
    by (simp only: flush_rows_def repainted_screen)
  then show ?thesis
    unfolding flush_def flush_rows_def [symmetric]
    by (simp add: Let_def ask_tell flush_calls_def tell_def)
qed

lemma flush_calls_quiet:
  "filter is_read (flush_calls env w) = []" "read_bytes env log (flush_calls env w) = []"
  "Unwatch h \<notin> set (flush_calls env w)"
  by (simp_all add: flush_calls_def Let_def)

definition restart_calls :: "window \<Rightarrow> term_call list" where
  "restart_calls w =
     (if blinkTimer w \<noteq> 0 then [KillTimer (blinkTimer w)] else []) @ [SetTimer kCursorBlinkMs]"

lemma restart_blink_fields:
  "\<exists>i. restart_blink env w = (touch_cursor_row w)
     \<lparr>cursorShown := True, blinkTimer := i, calls := calls w @ restart_calls w\<rparr>"
  by (cases w) (auto simp: restart_blink_def restart_calls_def touch_cursor_row_def ask_tell tell_def Let_def)

lemma restart_calls_quiet:
  "filter is_read (restart_calls w) = []" "read_bytes env log (restart_calls w) = []"
  "Unwatch h \<notin> set (restart_calls w)"
  by (simp_all add: restart_calls_def)

text \<open>
  The window shows what the shell wrote: when the master is readable, \<open>on_readable\<close> makes at
  most 32 reads, and the screen it leaves (all of it handed to repainting) is the old screen fed
  with the bytes of these reads in the order they came, then with the exit notice exactly when it
  stopped watching the master. It fails only where the emulator overflows a parameter.
\<close>
theorem on_readable_shows:
  assumes "wf_terminal (screen w)"
    and "reads_fit env h"
  shows "on_readable env h w = Inl SignedOverflow \<or>
    (\<exists>w' cs t. on_readable env h w = Inr w' \<and> calls w' = calls w @ cs \<and>
       length (filter is_read cs) \<le> 32 \<and>
       feed_bytes (screen w)
         (read_bytes env (calls w) cs @ (if Unwatch h \<in> set cs then exit_message else [])) = Inr t \<and>
       screen w' = t\<lparr>dirtyTop := 0, dirtyBottom := 0\<rparr> \<and> wf_terminal (screen w'))"
proof -
  consider "read_loop env h 32 True w = Inl SignedOverflow"
    | cs t where "read_loop env h 32 True w = Inr (w\<lparr>screen := t, calls := calls w @ cs\<rparr>)"
       "feed_bytes (screen w) (shown env h w cs) = Inr t" "kept (screen w) t"
       "length (filter is_read cs) \<le> 32"
    using read_loop_shows [of w env h 32 True, OF assms] by blast
  then show ?thesis
  proof cases
    case 1
    then show ?thesis by (simp add: on_readable_def)
  next
    case (2 cs t)
    define w1 where "w1 = w\<lparr>screen := t, calls := calls w @ cs\<rparr>"
    define ds where "ds = restart_calls w1"
    obtain i where ds: "restart_blink env w1 =
        (touch_cursor_row w1)\<lparr>cursorShown := True, blinkTimer := i, calls := calls w1 @ ds\<rparr>"
      using restart_blink_fields unfolding ds_def by blast
    have quiet: "filter is_read ds = []" "read_bytes env (calls w1) ds = []" "Unwatch h \<notin> set ds"
      by (simp_all only: ds_def restart_calls_quiet not_False_eq_True)
    define w2 where "w2 = restart_blink env w1"
    define es where "es = flush_calls env w2"
    have es: "flush env w2 = w2\<lparr>screen := (screen w2)\<lparr>dirtyTop := 0, dirtyBottom := 0\<rparr>, calls := calls w2 @ es\<rparr>"
      "filter is_read es = []" "read_bytes env (calls w2) es = []" "Unwatch h \<notin> set es"
      by (simp_all only: es_def flush_eq flush_calls_quiet not_False_eq_True)
    have calls: "calls w1 = calls w @ cs" "calls w2 = calls w @ cs @ ds"
      by (simp_all add: w2_def ds) (simp_all add: w1_def)
    have scr: "screen (flush env w2) = t\<lparr>dirtyTop := 0, dirtyBottom := 0\<rparr>"
      unfolding es(1) unfolding w2_def ds
      by (simp add: touch_cursor_row_def repainted_screen w1_def)
    have read: "read_bytes env (calls w) (cs @ ds @ es) @
        (if Unwatch h \<in> set (cs @ ds @ es) then exit_message else []) = shown env h w cs"
      using quiet(2,3) es(3,4) by (simp add: shown_def read_bytes_append calls)
    have res: "on_readable env h w = Inr (flush env w2)"
      using 2(1) by (simp add: on_readable_def w1_def [symmetric] w2_def)
    have wf: "wf_terminal (t\<lparr>dirtyTop := 0, dirtyBottom := 0\<rparr>)"
      using keptD [OF 2(3)] by (simp add: wf_terminal_def)
    show ?thesis
    proof (intro disjI2 exI conjI)
      show "calls (flush env w2) = calls w @ (cs @ ds @ es)"
        by (simp add: es(1) calls)
      show "feed_bytes (screen w) (read_bytes env (calls w) (cs @ ds @ es) @
        (if Unwatch h \<in> set (cs @ ds @ es) then exit_message else [])) = Inr t"
        unfolding read by (rule 2(2))
      show "on_readable env h w = Inr (flush env w2)" by (rule res)
      show "screen (flush env w2) = t\<lparr>dirtyTop := 0, dirtyBottom := 0\<rparr>" by (rule scr)
      show "wf_terminal (screen (flush env w2))" unfolding scr by (rule wf)
      show "length (filter is_read (cs @ ds @ es)) \<le> 32" using 2(4) quiet(1) es(2) by simp
    qed
  qed
qed

definition small_window :: window where
  "small_window =
     \<lparr>screen = small_screen 4 20, cellW = 8, lineH = 16, master = Some 7, cursorShown = True,
      blinkTimer = 1, paintedCursorRow = 0, calls = []\<rparr>"

definition hello_env :: term_env where
  "hello_env log c =
     (case c of Read h n \<Rightarrow> Bytes ''hello'' | Poll h \<Rightarrow> Flag False | _ \<Rightarrow> Fail)"

theorem on_readable_shows_witness:
  "on_readable hello_env 7 small_window = Inl SignedOverflow \<or>
    (\<exists>w' cs. on_readable hello_env 7 small_window = Inr w' \<and> calls w' = cs \<and>
       length (filter is_read cs) \<le> 32 \<and> wf_terminal (screen w'))"
proof -
  have "wf_terminal (screen small_window)"
    by (simp add: small_window_def small_screen_wf)
  moreover have "reads_fit hello_env 7"
    by (auto simp: reads_fit_def hello_env_def)
  moreover have "calls small_window = []" by (simp add: small_window_def)
  ultimately show ?thesis
    using on_readable_shows [of small_window hello_env 7] by fastforce
qed

text \<open>
  No changed row is forgotten: after \<open>flush\<close> nothing is dirty, and for every row that was,
  and for the row where the cursor was last painted, a rectangle that spans the row's pixels
  over the whole client width was handed to \<open>invalidate\<close>.
\<close>
theorem flush_repaints:
  assumes "0 < lineH w" and "paintedCursorRow w < u32_max"
    and "in_dirty (screen w) r \<or> r = paintedCursorRow w"
  shows "\<exists>cs y height width. calls (flush env w) = calls w @ cs \<and>
    Invalidate 0 y width height \<in> set cs \<and> width = fst (extent_of (env (calls w) ClientSize)) \<and>
    y \<le> kPaddingY + int r * lineH w \<and> kPaddingY + (int r + 1) * lineH w \<le> y + height \<and>
    \<not> in_dirty (screen (flush env w)) r'"
proof -
  let ?t = "flush_rows w"
  have "in_dirty ?t r"
    using assms(2,3) unfolding flush_rows_def by (intro in_dirty_touch_rows) (auto simp: u32_add_id)
  then have r: "dirtyTop ?t \<le> r" "r < dirtyBottom ?t" by (auto simp: in_dirty_def)
  let ?w = "fst (extent_of (env (calls w) ClientSize))"
  let ?top = "kPaddingY + int (dirtyTop ?t) * lineH w"
  let ?bottom = "kPaddingY + int (dirtyBottom ?t) * lineH w"
  have "calls (flush env w) = calls w @ [ClientSize, Invalidate 0 ?top ?w (?bottom - ?top)]"
    using r by (simp add: flush_eq flush_calls_def Let_def)
  moreover have "int (dirtyTop ?t) * lineH w \<le> int r * lineH w"
    using assms(1) r by (intro mult_right_mono) auto
  moreover have "(int r + 1) * lineH w \<le> int (dirtyBottom ?t) * lineH w"
    using assms(1) r by (intro mult_right_mono) auto
  moreover have "\<not> in_dirty (screen (flush env w)) r'"
    by (simp add: flush_eq in_dirty_def)
  ultimately show ?thesis
    by (intro exI [of _ "[ClientSize, Invalidate 0 ?top ?w (?bottom - ?top)]"] exI [of _ ?top]
        exI [of _ "?bottom - ?top"] exI [of _ ?w]) simp
qed

theorem flush_repaints_witness:
  "\<exists>cs y height width. calls (flush hello_env small_window) = cs \<and>
    Invalidate 0 y width height \<in> set cs \<and> y \<le> 12 \<and> 28 \<le> y + height"
  using flush_repaints [of small_window 0 hello_env 0]
  by (fastforce simp: small_window_def u32_max_def kPaddingY_def)

section \<open>Opening the shell\<close>

lemma spawn_first_fields:
  "\<exists>pid k. spawn_first env ps w = (pid, w\<lparr>calls := calls w @ map Spawn (take k ps)\<rparr>)"
proof (induction ps arbitrary: w)
  case (Cons p ps)
  obtain pid k where "spawn_first env ps (tell (Spawn p) w) =
      (pid, (tell (Spawn p) w)\<lparr>calls := calls (tell (Spawn p) w) @ map Spawn (take k ps)\<rparr>)"
    using Cons.IH by blast
  then have "spawn_first env ps (tell (Spawn p) w) =
      (pid, w\<lparr>calls := calls w @ map Spawn (take (Suc k) (p # ps))\<rparr>)"
    by (simp add: tell_def)
  moreover have "tell (Spawn p) w = w\<lparr>calls := calls w @ map Spawn (take 1 (p # ps))\<rparr>"
    by (simp add: tell_def)
  ultimately show ?case
    by (auto simp only: spawn_first.simps ask_tell case_prod_conv split: option.split)
qed simp

text \<open>Every slave that the calls open is closed by a later one.\<close>

fun slaves_closed :: "term_env \<Rightarrow> term_call list \<Rightarrow> term_call list \<Rightarrow> bool" where
  "slaves_closed env log [] = True"
| "slaves_closed env log (c # cs) =
     ((case c of
         Open path \<Rightarrow> path = ''/dev/ptmx'' \<or>
           (case num_of (env log c) of None \<Rightarrow> True | Some slave \<Rightarrow> Close slave \<in> set cs)
       | _ \<Rightarrow> True) \<and> slaves_closed env (log @ [c]) cs)"

lemma slaves_closed_spawns:
  "slaves_closed env log (map Spawn ps @ cs) = slaves_closed env (log @ map Spawn ps) cs"
  by (induction ps arbitrary: log) simp_all

lemma open_slave_closes:
  assumes "ptn \<le> u32_max"
  shows "\<exists>started cs. open_slave env m ptn w = Inr (started, w\<lparr>calls := calls w @ cs\<rparr>) \<and>
    (started \<longleftrightarrow> Watch m \<in> set cs) \<and> slaves_closed env (calls w) cs \<and>
    (\<forall>n. Watch n \<in> set cs \<longrightarrow> n = m)"
proof -
  let ?path = "''/dev/pts/'' @ decimal ptn"
  have path: "build_pts_path ptn = Inr ?path"
    using build_pts_path_eq [OF assms] .
  show ?thesis
  proof (cases "num_of (env (calls w) (Open ?path))")
    case None
    then show ?thesis
      by (intro exI [of _ False] exI [of _ "[Open ?path]"])
         (simp add: open_slave_def path ask_tell tell_def)
  next
    case (Some slave)
    let ?ds = "Open ?path # map (\<lambda>i. Dup2 slave (stdio_handle i)) [0, 1, 2]"
    obtain pid k where spawn: "spawn_shell env slave (tell (Open ?path) w) =
        (pid, w\<lparr>calls := calls w @ ?ds @ map Spawn (take k kShellCandidates)\<rparr>)"
      using spawn_first_fields [of env kShellCandidates "w\<lparr>calls := calls w @ ?ds\<rparr>"]
      by (auto simp: spawn_shell_def tell_def)
    let ?cs = "?ds @ map Spawn (take k kShellCandidates) @ Close slave #
      (case pid of None \<Rightarrow> [] | Some pid \<Rightarrow> [SetPgrp m (pid mod 4294967296), Watch m])"
    have "open_slave env m ptn w = Inr (pid \<noteq> None, w\<lparr>calls := calls w @ ?cs\<rparr>)"
      using Some spawn
      by (simp add: open_slave_def path ask_tell Let_def split: option.split)
    moreover have "slaves_closed env (calls w) ?cs"
      using Some by (simp add: slaves_closed_spawns split: option.split)
    ultimately show ?thesis
      by (intro exI [of _ "pid \<noteq> None"] exI [of _ ?cs]) (auto split: option.split)
  qed
qed

text \<open>
  Opening the shell leaks nothing: whatever the kernel answers, \<open>open_pty\<close> returns, says
  that it succeeded exactly when it began to watch a master, keeps the master it opened for
  \<open>on_destroy\<close> to close, and closes every slave it opened.
\<close>
theorem open_pty_closes_slave:
  "\<exists>started w' cs. open_pty env w = Inr (started, w') \<and> calls w' = calls w @ cs \<and>
    (started \<longleftrightarrow> (\<exists>m. Watch m \<in> set cs)) \<and> slaves_closed env (calls w) cs \<and>
    (case num_of (env (calls w) (Open ''/dev/ptmx'')) of
       None \<Rightarrow> cs = [Open ''/dev/ptmx''] \<and> w' = tell (Open ''/dev/ptmx'') w
     | Some m \<Rightarrow> master w' = Some m \<and> (started \<longrightarrow> Watch m \<in> set cs))"
proof (cases "num_of (env (calls w) (Open ''/dev/ptmx''))")
  case None
  then show ?thesis
    by (intro exI [of _ False] exI [of _ "tell (Open ''/dev/ptmx'') w"]) (simp add: open_pty_def ask_tell)
next
  case (Some m)
  note master = Some
  let ?size = "SetWinsize m (rows (screen w) mod 65536) (cols (screen w) mod 65536)"
  let ?ds = "[Open ''/dev/ptmx'', ?size, GetPtn m]"
  let ?w = "w\<lparr>master := Some m, calls := calls w @ ?ds\<rparr>"
  let ?r = "num_of (env (calls w @ butlast ?ds) (GetPtn m))"
  have open_eq: "open_pty env w =
      (case ?r of None \<Rightarrow> Inr (False, ?w) | Some ptn \<Rightarrow> open_slave env m (ptn mod 4294967296) ?w)"
    using Some
    by (simp add: open_pty_def ask_def set_shell_size_def tell_def window_swaps split: option.split)
  show ?thesis
  proof (cases ?r)
    case None
    then show ?thesis
      using Some by (intro exI [of _ False] exI [of _ ?w] exI [of _ ?ds]) (simp add: open_eq)
  next
    case (Some ptn)
    have "ptn mod 4294967296 < 4294967296" by simp
    then have bound: "ptn mod 4294967296 \<le> u32_max" unfolding u32_max_def by linarith
    obtain started cs where cs: "open_slave env m (ptn mod 4294967296) ?w =
        Inr (started, ?w\<lparr>calls := calls ?w @ cs\<rparr>)" "started \<longleftrightarrow> Watch m \<in> set cs"
        "slaves_closed env (calls ?w) cs" "\<forall>n. Watch n \<in> set cs \<longrightarrow> n = m"
      using open_slave_closes [OF bound, of env m ?w] by blast
    show ?thesis
    proof (intro exI conjI)
      show "open_pty env w = Inr (started, ?w\<lparr>calls := calls ?w @ cs\<rparr>)"
        using Some cs(1) by (simp only: open_eq option.case)
      show "calls (?w\<lparr>calls := calls ?w @ cs\<rparr>) = calls w @ (?ds @ cs)" by simp
      show "started \<longleftrightarrow> (\<exists>m. Watch m \<in> set (?ds @ cs))" using cs(2,4) by auto
      show "slaves_closed env (calls w) (?ds @ cs)" using cs(3) by simp
    qed (use cs(2) master in simp)
  qed
qed

theorem open_pty_closes_slave_witness:
  "\<exists>started w' cs. open_pty (\<lambda>log c. Num 5) small_window = Inr (started, w') \<and>
     calls w' = cs \<and> master w' = Some 5 \<and> (started \<longleftrightarrow> (\<exists>m. Watch m \<in> set cs)) \<and>
     slaves_closed (\<lambda>log c. Num 5) [] cs"
  using open_pty_closes_slave [of "\<lambda>log c. Num 5" small_window]
  by (auto simp: small_window_def)

end
