(* ===== verification/Sysdeps_Kernel.thy ===== *)
theory Sysdeps_Kernel
  imports Prelude
begin

text \<open>
  The C library's system layer, \<open>src/outside/mlibc-sysdeps/instantos/sysdeps.cpp\<close>: the state it
  keeps in the process, the kernel calls it makes, and the shape of its operations. A \<open>long\<close> is
  an \<open>int\<close>; where the source reads one as unsigned, the reduction is written out. The kernel is
  an environment: the reply to a call is the returned \<open>long\<close> with what the kernel stored through
  the call's pointer arguments, whose pointed-to inputs are arguments of the call.
\<close>

section \<open>Data\<close>

record dirent =
  d_name :: string
  d_inode :: nat
  d_filetype :: nat

record kstat =
  k_dev :: nat
  k_ino :: nat
  k_mode :: nat
  k_nlink :: nat
  k_uid :: nat
  k_gid :: nat
  k_rdev :: nat
  k_size :: nat
  k_blksize :: nat
  k_blocks :: nat
  k_atime :: nat
  k_mtime :: nat
  k_ctime :: nat

record kpollfd =
  p_fd :: int
  p_events :: nat
  p_revents :: nat

text \<open>
  A call \<open>__do_syscallN(INSTANTOS_SYS_name, ...)\<close>: the name of its number and its arguments, a
  \<open>long\<close> or what a pointer points to (a string or buffer, longs, bytes of a struct, poll
  descriptors). Pointers to results are left out.
\<close>

datatype karg = L int | S string | Ls "int list" | M "nat list" | Polls "kpollfd list" | Null

datatype kcall = Sys (sys_name: string) (sys_args: "karg list")

text \<open>What a call stores: bytes, longs (handles), directory entries, a stat, or poll results.\<close>

datatype kout =
    KNone | KBytes string | KLongs "int list" | KDirents "dirent list" | KStat kstat
  | KPolls "nat list" | KMem "nat list" | KMessage string "int list" nat

type_synonym kernel = "(kcall, int \<times> kout) environment"

fun out_bytes :: "kout \<Rightarrow> string" where
  "out_bytes (KBytes xs) = xs"
| "out_bytes _ = []"

fun out_longs :: "kout \<Rightarrow> int list" where
  "out_longs (KLongs xs) = xs"
| "out_longs _ = []"

fun out_dirents :: "kout \<Rightarrow> dirent list" where
  "out_dirents (KDirents xs) = xs"
| "out_dirents _ = []"

fun out_polls :: "kout \<Rightarrow> nat list" where
  "out_polls (KPolls xs) = xs"
| "out_polls _ = []"

text \<open>A long stored by the kernel, the variable's old value where it stored none.\<close>

definition long_at :: "nat \<Rightarrow> kout \<Rightarrow> int" where
  "long_at i out = (if i < length (out_longs out) then out_longs out ! i else 0)"

record dir_stream =
  inUse :: bool
  loaded :: bool
  fromFd :: bool
  ownerFd :: int
  cursor :: nat
  dcount :: nat
  dpath :: string
  entries :: "dirent list"

definition kMaxFd :: nat where "kMaxFd = 256"
definition kMaxDirs :: nat where "kMaxDirs = 32"
definition kMaxDirEntries :: nat where "kMaxDirEntries = 256"
definition kDirHandleBase :: int where "kDirHandleBase = 0x40000000"

text \<open>
  The process state: the descriptor table, the directory streams, the umask, and the calls made
  to the kernel so far.
\<close>

record process =
  fdTable :: "int list"
  dirStreams :: "dir_stream list"
  umask_bits :: nat
  trace :: "kcall list"

definition empty_stream :: dir_stream where
  "empty_stream =
     \<lparr>inUse = False, loaded = False, fromFd = False, ownerFd = 0, cursor = 0, dcount = 0,
      dpath = [], entries = []\<rparr>"

definition initial_process :: process where
  "initial_process =
     \<lparr>fdTable = [0, 1, 2] @ replicate 253 0, dirStreams = replicate 32 empty_stream,
      umask_bits = 18, trace = []\<rparr>"

section \<open>Errors\<close>

definition EINTR :: int where "EINTR = 4"
definition EBADF :: int where "EBADF = 9"
definition EAGAIN :: int where "EAGAIN = 11"
definition ENOMEM :: int where "ENOMEM = 12"
definition EFAULT :: int where "EFAULT = 14"
definition EINVAL :: int where "EINVAL = 22"
definition EMFILE :: int where "EMFILE = 24"
definition ENOTTY :: int where "ENOTTY = 25"
definition ERANGE :: int where "ERANGE = 34"
definition EOPNOTSUPP :: int where "EOPNOTSUPP = 95"
definition ECONNREFUSED :: int where "ECONNREFUSED = 111"
definition EINPROGRESS :: int where "EINPROGRESS = 115"

text \<open>\<open>(unsigned long)ret > (unsigned long)-4096 ? -ret : 0\<close>\<close>

definition sc_error :: "int \<Rightarrow> int" where
  "sc_error r = (if 18446744073709551616 - 4096 < r mod 18446744073709551616 then - r else 0)"

definition is_long :: "int \<Rightarrow> bool" where
  "is_long r \<longleftrightarrow> - 9223372036854775808 \<le> r \<and> r < 9223372036854775808"

lemma sc_error_long:
  assumes "is_long r"
  shows "sc_error r = (if -4096 < r \<and> r < 0 then - r else 0)"
proof (cases "0 \<le> r")
  case True
  then have "r mod 18446744073709551616 = r" using assms by (simp add: is_long_def)
  then show ?thesis using True assms by (simp add: sc_error_def is_long_def)
next
  case False
  then have "r mod 18446744073709551616 = (r + 18446744073709551616) mod 18446744073709551616"
    by simp
  also have "\<dots> = r + 18446744073709551616"
    using False assms by (intro mod_pos_pos_trivial) (auto simp: is_long_def)
  finally show ?thesis using False by (simp add: sc_error_def)
qed

lemma sc_error_nonneg: "0 \<le> r \<Longrightarrow> is_long r \<Longrightarrow> sc_error r = 0"
  by (simp add: sc_error_long)

section \<open>Operations of the layer\<close>

text \<open>
  An operation takes the process state to an errno or a result, with the new state in both
  cases.
\<close>

type_synonym 'a sys = "process \<Rightarrow> (int + 'a) \<times> process"

definition give :: "'a \<Rightarrow> 'a sys" where
  "give x s = (Inr x, s)"

definition throw :: "int \<Rightarrow> 'a sys" where
  "throw e s = (Inl e, s)"

definition bindS :: "'a sys \<Rightarrow> ('a \<Rightarrow> 'b sys) \<Rightarrow> 'b sys" where
  "bindS m f s = (case m s of (Inl e, s) \<Rightarrow> (Inl e, s) | (Inr x, s) \<Rightarrow> f x s)"

definition gets :: "(process \<Rightarrow> 'a) \<Rightarrow> 'a sys" where
  "gets f s = (Inr (f s), s)"

definition modify :: "(process \<Rightarrow> process) \<Rightarrow> unit sys" where
  "modify f s = (Inr (), f s)"

definition syscall :: "kernel \<Rightarrow> kcall \<Rightarrow> (int \<times> kout) sys" where
  "syscall env c s = (Inr (env (trace s) c), s\<lparr>trace := trace s @ [c]\<rparr>)"

text \<open>\<open>if (int e = sc_error(ret); e) return e;\<close>\<close>

definition check :: "int \<Rightarrow> unit sys" where
  "check r = (if sc_error r \<noteq> 0 then throw (sc_error r) else give ())"

definition checked :: "kernel \<Rightarrow> kcall \<Rightarrow> (int \<times> kout) sys" where
  "checked env c = bindS (syscall env c) (\<lambda>(r, out). bindS (check r) (\<lambda>_. give (r, out)))"

text \<open>An operation that only returns \<open>sc_error(ret)\<close>.\<close>

definition plain :: "kernel \<Rightarrow> kcall \<Rightarrow> unit sys" where
  "plain env c = bindS (syscall env c) (\<lambda>(r, _). check r)"

definition ignore :: "kernel \<Rightarrow> kcall \<Rightarrow> unit sys" where
  "ignore env c = bindS (syscall env c) (\<lambda>_. give ())"

named_theorems sys_simps

lemma sys_apply [sys_simps]:
  "give x s = (Inr x, s)" "throw e s = (Inl e, s)" "gets f s = (Inr (f s), s)"
  "modify g s = (Inr (), g s)"
  "syscall env c s = (Inr (env (trace s) c), s\<lparr>trace := trace s @ [c]\<rparr>)"
  by (simp_all add: give_def throw_def gets_def modify_def syscall_def)

lemma bindS_apply [sys_simps]:
  "bindS (give x) f s = f x s"
  "bindS (throw e) f s = (Inl e, s)"
  "bindS (gets p) g s = g (p s) s"
  "bindS (modify q) h s = h () (q s)"
  "bindS (syscall env c) k s = k (env (trace s) c) (s\<lparr>trace := trace s @ [c]\<rparr>)"
  "bindS (bindS m j) l s = bindS m (\<lambda>x. bindS (j x) l) s"
  by (auto simp: bindS_def sys_apply split: prod.split sum.split)

lemma check_apply [sys_simps]:
  "bindS (check r) f s = (if sc_error r \<noteq> 0 then (Inl (sc_error r), s) else f () s)"
  "check r s = (if sc_error r \<noteq> 0 then Inl (sc_error r) else Inr (), s)"
  by (simp_all add: check_def sys_apply bindS_apply)

lemma checked_apply [sys_simps]:
  "bindS (checked env c) f s =
     (let (r, out) = env (trace s) c; s' = s\<lparr>trace := trace s @ [c]\<rparr>
      in if sc_error r \<noteq> 0 then (Inl (sc_error r), s') else f (r, out) s')"
  by (simp add: checked_def bindS_apply check_apply split: prod.split)

lemma plain_apply [sys_simps]:
  "plain env c s =
     (let r = fst (env (trace s) c)
      in (if sc_error r \<noteq> 0 then Inl (sc_error r) else Inr (), s\<lparr>trace := trace s @ [c]\<rparr>))"
  by (simp add: plain_def bindS_apply check_apply split: prod.split)

lemma ignore_apply [sys_simps]:
  "bindS (ignore env c) f s = f () (s\<lparr>trace := trace s @ [c]\<rparr>)"
  "ignore env c s = (Inr (), s\<lparr>trace := trace s @ [c]\<rparr>)"
  by (simp_all add: ignore_def bindS_apply sys_apply split: prod.split)

section \<open>What every operation keeps\<close>

text \<open>
  A property of the process that an operation keeps whatever the kernel answers. The rules
  reduce an operation to its steps.
\<close>

definition keeps :: "(process \<Rightarrow> bool) \<Rightarrow> 'a sys \<Rightarrow> bool" where
  "keeps P m \<longleftrightarrow> (\<forall>s. P s \<longrightarrow> P (snd (m s)))"

named_theorems keeps_rules

lemma keepsD: "keeps P m \<Longrightarrow> P s \<Longrightarrow> P (snd (m s))"
  by (simp add: keeps_def)

lemma keeps_basic [keeps_rules]:
  "keeps P (give x)" "keeps P (throw e)" "keeps P (gets f)" "keeps P (check r)"
  by (simp_all add: keeps_def sys_simps)

lemma keeps_bind [keeps_rules]:
  assumes "keeps P m" and "\<And>x. keeps P (f x)"
  shows "keeps P (bindS m f)"
  using assms by (fastforce simp: keeps_def bindS_def split: prod.split sum.split)

lemma keeps_if [keeps_rules]:
  "(b \<Longrightarrow> keeps P m) \<Longrightarrow> (\<not> b \<Longrightarrow> keeps P n) \<Longrightarrow> keeps P (if b then m else n)"
  by simp

lemma keeps_case_prod [keeps_rules]:
  "(\<And>a b. keeps P (f a b)) \<Longrightarrow> keeps P (case x of (a, b) \<Rightarrow> f a b)"
  by (cases x) simp

lemma keeps_case_option [keeps_rules]:
  "keeps P m \<Longrightarrow> (\<And>x. keeps P (f x)) \<Longrightarrow> keeps P (case v of None \<Rightarrow> m | Some x \<Rightarrow> f x)"
  by (cases v) simp_all

lemma keeps_let [keeps_rules]: "keeps P (f x) \<Longrightarrow> keeps P (Let x f)"
  by simp

text \<open>Properties that do not look at the calls are kept by every call.\<close>

definition blind :: "(process \<Rightarrow> bool) \<Rightarrow> bool" where
  "blind P \<longleftrightarrow> (\<forall>s cs. P (s\<lparr>trace := cs\<rparr>) = P s)"

lemma keeps_calls [keeps_rules]:
  assumes "blind P"
  shows "keeps P (syscall env c)" "keeps P (checked env c)" "keeps P (plain env c)"
    "keeps P (ignore env c)"
proof -
  show call: "keeps P (syscall env c)"
    using assms by (simp add: keeps_def blind_def sys_simps)
  show "keeps P (checked env c)" "keeps P (plain env c)" "keeps P (ignore env c)"
    unfolding checked_def plain_def ignore_def by (intro keeps_rules call)+
qed

end
