(* ===== verification/Fd_Table.thy ===== *)
theory Fd_Table
  imports Sysdeps_Kernel
begin

text \<open>
  The descriptor table of \<open>sysdeps.cpp\<close>: the kernel handle behind each small integer fd, and its
  contract. A slot that holds 0 is free, except for the standard streams 0 to 2. The contract is
  a locale over any table of numbered slots that is filled from the lowest free slot up; the
  table of directory streams keeps it as well.
\<close>

section \<open>The interface of a slot table\<close>

text \<open>
  \<open>lookup\<close> is the abstract view of a table: a finite map from the slots \<open>lo..<hi\<close>, and below
  \<open>lo\<close> slots that are never handed out.
\<close>

locale slot_table =
  fixes wf :: "'t \<Rightarrow> bool"
    and lookup :: "'t \<Rightarrow> nat \<rightharpoonup> 'h"
    and install :: "'t \<Rightarrow> 'h \<Rightarrow> (nat \<times> 't) option"
    and release :: "'t \<Rightarrow> nat \<Rightarrow> 't"
    and valid :: "'h \<Rightarrow> bool"
    and lo :: nat and hi :: nat
  assumes install_some: "wf t \<Longrightarrow> valid h \<Longrightarrow> install t h = Some (d, t') \<Longrightarrow>
      wf t' \<and> lo \<le> d \<and> d < hi \<and> lookup t d = None \<and> lookup t' = (lookup t)(d \<mapsto> h)"
    and install_none: "wf t \<Longrightarrow> valid h \<Longrightarrow> install t h = None \<Longrightarrow>
      lo \<le> d \<Longrightarrow> d < hi \<Longrightarrow> lookup t d \<noteq> None"
    and release_slot: "wf t \<Longrightarrow> lo \<le> d \<Longrightarrow> d < hi \<Longrightarrow>
      wf (release t d) \<and> lookup (release t d) = (lookup t)(d := None)"
begin

lemma install_free:
  assumes "wf t" and "valid h" and "lo \<le> d" and "d < hi" and "lookup t d = None"
  shows "\<exists>e t'. install t h = Some (e, t')"
  using install_none [OF assms(1,2) _ assms(3,4)] assms(5) by (cases "install t h") auto

lemma install_keeps_others:
  assumes "wf t" and "valid h" and "install t h = Some (d, t')" and "lookup t e = Some k"
  shows "lookup t' e = Some k" and "e \<noteq> d"
proof -
  show "e \<noteq> d" using install_some [OF assms(1-3)] assms(4) by auto
  then show "lookup t' e = Some k" using install_some [OF assms(1-3)] assms(4) by simp
qed

text \<open>Two slots handed out without a release in between differ.\<close>

lemma install_distinct:
  assumes "wf t" and "valid h" and "valid k" and "install t h = Some (d, u)"
    and "install u k = Some (e, v)"
  shows "d \<noteq> e"
proof -
  have "wf u" "lookup u d = Some h" using install_some [OF assms(1,2,4)] by auto
  then show ?thesis using install_keeps_others(2) [OF _ assms(3,5)] by blast
qed

lemma release_install:
  assumes "wf t" and "valid h" and "install t h = Some (d, t')"
  shows "lookup (release t' d) = lookup t" and "wf (release t' d)"
proof -
  note i = install_some [OF assms]
  then have r: "wf (release t' d) \<and> lookup (release t' d) = (lookup t')(d := None)"
    by (intro release_slot) auto
  show "wf (release t' d)" using r by simp
  show "lookup (release t' d) = lookup t" using r i by (auto simp: fun_eq_iff)
qed

text \<open>A table that is full has no free slot, so a table with a free slot takes one more handle.\<close>

lemma full_iff:
  assumes "wf t" and "valid h"
  shows "install t h = None \<longleftrightarrow> (\<forall>d. lo \<le> d \<longrightarrow> d < hi \<longrightarrow> lookup t d \<noteq> None)"
proof
  assume "install t h = None"
  then show "\<forall>d. lo \<le> d \<longrightarrow> d < hi \<longrightarrow> lookup t d \<noteq> None"
    using install_none [OF assms] by blast
next
  assume full: "\<forall>d. lo \<le> d \<longrightarrow> d < hi \<longrightarrow> lookup t d \<noteq> None"
  show "install t h = None"
  proof (cases "install t h")
    case (Some r)
    then obtain d t' where "install t h = Some (d, t')" by (cases r) auto
    then show ?thesis using install_some [OF assms] full by blast
  qed
qed

text \<open>Installing a list of handles, as far as there is room.\<close>

fun install_all :: "'t \<Rightarrow> 'h list \<Rightarrow> nat list \<times> 't" where
  "install_all t [] = ([], t)"
| "install_all t (h # hs) =
     (case install t h of
        None \<Rightarrow> install_all t hs
      | Some (d, t) \<Rightarrow> (case install_all t hs of (ds, t) \<Rightarrow> (d # ds, t)))"

lemma install_all_sound:
  assumes "wf t" and "\<forall>h\<in>set hs. valid h" and "install_all t hs = (ds, t')"
  shows "wf t' \<and> distinct ds \<and> (\<forall>d\<in>set ds. lo \<le> d \<and> d < hi \<and> lookup t d = None \<and> lookup t' d \<noteq> None) \<and>
    (\<forall>d. d \<notin> set ds \<longrightarrow> lookup t' d = lookup t d)"
  using assms
proof (induction hs arbitrary: t ds)
  case (Cons h hs)
  show ?case
  proof (cases "install t h")
    case None
    then show ?thesis using Cons.IH [of t ds] Cons.prems by simp
  next
    case (Some r)
    obtain d u es where u: "install t h = Some (d, u)" "install_all u hs = (es, t')" "ds = d # es"
      using Some Cons.prems(3) by (cases r) (auto split: prod.splits)
    have i: "wf u" "lo \<le> d" "d < hi" "lookup t d = None" "lookup u = (lookup t)(d \<mapsto> h)"
      using install_some [OF Cons.prems(1) _ u(1)] Cons.prems(2) by auto
    have ih: "wf t'" "distinct es"
      "\<forall>d\<in>set es. lo \<le> d \<and> d < hi \<and> lookup u d = None \<and> lookup t' d \<noteq> None"
      "\<forall>d. d \<notin> set es \<longrightarrow> lookup t' d = lookup u d"
      using Cons.IH [OF i(1) _ u(2)] Cons.prems(2) by auto
    have d: "d \<notin> set es" using ih(3) i(5) by auto
    then have "lookup t' d = Some h" using ih(4) i(5) by simp
    moreover have "lookup t e = None" if "e \<in> set es" for e
      using that ih(3) i(5) d by (metis fun_upd_apply)
    ultimately show ?thesis
      unfolding u(3) using i ih d by auto
  qed
qed auto

end

text \<open>The slot handed out is the lowest free one, as POSIX requires of descriptors.\<close>

locale lowest_slot_table = slot_table +
  assumes lowest: "wf t \<Longrightarrow> valid h \<Longrightarrow> install t h = Some (d, t') \<Longrightarrow>
      lo \<le> e \<Longrightarrow> e < d \<Longrightarrow> lookup t e \<noteq> None"
begin

text \<open>Releasing a slot below every free one makes it the next to be handed out.\<close>

lemma released_is_next:
  assumes "wf t" and "valid h" and "lo \<le> d" and "d < hi"
    and "\<forall>e. lo \<le> e \<longrightarrow> e < d \<longrightarrow> lookup t e \<noteq> None"
  shows "\<exists>t'. install (release t d) h = Some (d, t')"
proof -
  note r = release_slot [OF assms(1,3,4)]
  then obtain e t' where i: "install (release t d) h = Some (e, t')"
    using install_free [of "release t d" h d] assms(2-4) by auto
  have "\<not> e < d"
  proof
    assume "e < d"
    moreover have "lookup (release t d) e = None" "lo \<le> e"
      using install_some [OF conjunct1 [OF r] assms(2) i] by auto
    ultimately show False using r assms(5) by simp
  qed
  moreover have "\<not> d < e"
    using lowest [OF conjunct1 [OF r] assms(2) i assms(3)] r by auto
  ultimately show ?thesis using i by (simp add: not_less le_antisym)
qed

end

section \<open>The descriptor table\<close>

definition handle_for_fd :: "int list \<Rightarrow> int \<Rightarrow> int" where
  "handle_for_fd t fd = (if fd < 0 \<or> int kMaxFd \<le> fd then -1 else t ! nat fd)"

definition instantos_fd_handle :: "int list \<Rightarrow> int \<Rightarrow> int" where
  "instantos_fd_handle t fd =
     (if fd < 0 \<or> int kMaxFd \<le> fd \<or> (t ! nat fd = 0 \<and> 2 < fd) then -1 else t ! nat fd)"

text \<open>The search loop: the first free slot from \<open>fd\<close> on.\<close>

function free_slot :: "int list \<Rightarrow> nat \<Rightarrow> nat option" where
  "free_slot t fd =
     (if fd < kMaxFd then (if t ! fd = 0 then Some fd else free_slot t (Suc fd)) else None)"
  by pat_completeness auto
termination
  by (relation "measure (\<lambda>(t, fd). kMaxFd - fd)") (auto simp: kMaxFd_def)

declare free_slot.simps [simp del]

definition register_fd_min :: "int list \<Rightarrow> int \<Rightarrow> int \<Rightarrow> (nat \<times> int list) option" where
  "register_fd_min t handle lowest =
     (case free_slot t (nat (if lowest < 0 then 0 else lowest)) of
        None \<Rightarrow> None
      | Some fd \<Rightarrow> Some (fd, t[fd := handle]))"

definition register_fd :: "int list \<Rightarrow> int \<Rightarrow> (nat \<times> int list) option" where
  "register_fd t handle = register_fd_min t handle 3"

definition instantos_handle_fd :: "int list \<Rightarrow> int \<Rightarrow> (nat \<times> int list) option" where
  "instantos_handle_fd t handle = (if handle < 0 then None else register_fd t handle)"

definition register_fd_at :: "int list \<Rightarrow> int \<Rightarrow> int \<Rightarrow> int \<times> int list" where
  "register_fd_at t fd handle =
     (if fd < 0 \<or> int kMaxFd \<le> fd then (-1, t) else (fd, t[nat fd := handle]))"

text \<open>\<open>fdTable[fd] = 0\<close>, as \<open>Close\<close> does it.\<close>

definition free_fd :: "int list \<Rightarrow> nat \<Rightarrow> int list" where
  "free_fd t fd = t[fd := 0]"

definition wf_fds :: "int list \<Rightarrow> bool" where
  "wf_fds t \<longleftrightarrow> length t = kMaxFd"

text \<open>The abstract view: the handle of an open descriptor.\<close>

definition open_fd :: "int list \<Rightarrow> nat \<Rightarrow> int option" where
  "open_fd t fd = (if kMaxFd \<le> fd \<or> (t ! fd = 0 \<and> 2 < fd) then None else Some (t ! fd))"

lemma free_slot_some:
  assumes "free_slot t fd = Some d"
  shows "fd \<le> d \<and> d < kMaxFd \<and> t ! d = 0 \<and> (\<forall>e. fd \<le> e \<longrightarrow> e < d \<longrightarrow> t ! e \<noteq> 0)"
  using assms
proof (induction t fd rule: free_slot.induct)
  case (1 t fd)
  have "fd < kMaxFd" using 1(2) by (simp add: free_slot.simps [of t fd] split: if_splits)
  show ?case
  proof (cases "t ! fd = 0")
    case True
    then show ?thesis using 1(2) \<open>fd < kMaxFd\<close> by (simp add: free_slot.simps [of t fd])
  next
    case False
    then have "Suc fd \<le> d \<and> d < kMaxFd \<and> t ! d = 0 \<and> (\<forall>e. Suc fd \<le> e \<longrightarrow> e < d \<longrightarrow> t ! e \<noteq> 0)"
      using 1 \<open>fd < kMaxFd\<close> by (simp add: free_slot.simps [of t fd])
    then show ?thesis using False by (metis Suc_le_eq le_less less_imp_le)
  qed
qed

lemma free_slot_none:
  assumes "free_slot t fd = None" and "fd \<le> e" and "e < kMaxFd"
  shows "t ! e \<noteq> 0"
  using assms
proof (induction t fd rule: free_slot.induct)
  case (1 t fd)
  have "t ! fd \<noteq> 0" "free_slot t (Suc fd) = None"
    using 1(2-4) by (auto simp: free_slot.simps [of t fd] split: if_splits)
  moreover have "fd < kMaxFd" using 1(3,4) by simp
  ultimately show ?case
    using 1(1) [of] 1(3,4) by (cases "fd = e") (auto simp: Suc_le_eq)
qed

lemma register_fd_some:
  assumes "wf_fds t" and "register_fd t h = Some (d, t')"
  shows "3 \<le> d \<and> d < kMaxFd \<and> t ! d = 0 \<and> t' = t[d := h] \<and> (\<forall>e. 3 \<le> e \<longrightarrow> e < d \<longrightarrow> t ! e \<noteq> 0)"
  using assms free_slot_some [of t 3 d]
  by (auto simp: register_fd_def register_fd_min_def split: option.splits)

lemma register_fd_none:
  assumes "register_fd t h = None" and "3 \<le> e" and "e < kMaxFd"
  shows "t ! e \<noteq> 0"
  using assms free_slot_none [of t 3 e]
  by (auto simp: register_fd_def register_fd_min_def split: option.splits)

lemma open_fd_update:
  assumes "wf_fds t" and "d < kMaxFd" and "3 \<le> d"
  shows "open_fd (t[d := h]) = (open_fd t)(d := (if h = 0 then None else Some h))"
  using assms by (auto simp: fun_eq_iff open_fd_def wf_fds_def nth_list_update)

text \<open>The table keeps the contract for every handle but 0, which would leave its slot free.\<close>

interpretation fds: lowest_slot_table wf_fds open_fd register_fd free_fd "\<lambda>h. h \<noteq> 0" 3 kMaxFd
proof
  fix t h d t' assume a: "wf_fds t" "h \<noteq> (0::int)" "register_fd t h = Some (d, t')"
  note r = register_fd_some [OF a(1,3)]
  have "open_fd t' = (open_fd t)(d \<mapsto> h)"
    using open_fd_update [OF a(1)] a(2) r by simp
  moreover have "open_fd t d = None" using r by (simp add: open_fd_def)
  moreover have "wf_fds t'" using r a(1) by (simp add: wf_fds_def)
  ultimately show "wf_fds t' \<and> 3 \<le> d \<and> d < kMaxFd \<and> open_fd t d = None \<and>
      open_fd t' = (open_fd t)(d \<mapsto> h)"
    using r by blast
next
  fix t h d assume "register_fd t h = None" "3 \<le> d" "d < kMaxFd"
  then show "open_fd t d \<noteq> None" by (simp add: open_fd_def register_fd_none)
next
  fix t d assume "wf_fds t" "3 \<le> d" "d < kMaxFd"
  then show "wf_fds (free_fd t d) \<and> open_fd (free_fd t d) = (open_fd t)(d := None)"
    using open_fd_update [of t d 0] by (simp add: free_fd_def wf_fds_def)
next
  fix t h d t' e assume "wf_fds t" "register_fd t h = Some (d, t')" "3 \<le> e" "e < d"
  then show "open_fd t e \<noteq> None" using register_fd_some by (fastforce simp: open_fd_def)
qed

section \<open>The descriptor table inside an operation\<close>

text \<open>\<open>long handle = handle_for_fd(fd); if (handle < 0) return EBADF;\<close>\<close>

definition with_handle :: "int \<Rightarrow> (int \<Rightarrow> 'a sys) \<Rightarrow> 'a sys" where
  "with_handle fd f =
     bindS (gets (\<lambda>s. handle_for_fd (fdTable s) fd)) (\<lambda>h. if h < 0 then throw EBADF else f h)"

text \<open>The entry for a new handle, which is closed again when the table is full.\<close>

definition install_or_close :: "kernel \<Rightarrow> int \<Rightarrow> nat sys" where
  "install_or_close env handle =
     bindS (gets (\<lambda>s. register_fd (fdTable s) handle)) (\<lambda>r.
       case r of
         None \<Rightarrow> bindS (ignore env (Sys ''CLOSE'' [L handle])) (\<lambda>_. throw EMFILE)
       | Some (fd, t) \<Rightarrow> bindS (modify (\<lambda>s. s\<lparr>fdTable := t\<rparr>)) (\<lambda>_. give fd))"

definition fds_ok :: "process \<Rightarrow> bool" where
  "fds_ok s \<longleftrightarrow> wf_fds (fdTable s)"

lemma blind_fds_ok [keeps_rules]: "blind fds_ok"
  by (simp add: blind_def fds_ok_def)

lemma install_or_close_ok [keeps_rules]: "keeps fds_ok (install_or_close env h)"
  by (auto simp: keeps_def install_or_close_def sys_simps fds_ok_def wf_fds_def
           dest!: register_fd_some [unfolded wf_fds_def, rotated] split: option.split)

lemma with_handle_keeps [keeps_rules]:
  "(\<And>h. keeps P (f h)) \<Longrightarrow> keeps P (with_handle fd f)"
  unfolding with_handle_def by (intro keeps_rules)

text \<open>
  What happens to a new handle: it is in the table under a descriptor that was free, or it is
  closed and the table is unchanged.
\<close>

definition kept_or_closed :: "process \<Rightarrow> int \<Rightarrow> (int + nat) \<times> process \<Rightarrow> bool" where
  "kept_or_closed s h r \<longleftrightarrow>
     (case r of
        (Inr fd, s') \<Rightarrow> 3 \<le> fd \<and> fd < kMaxFd \<and> open_fd (fdTable s) fd = None \<and>
          open_fd (fdTable s') = (open_fd (fdTable s))(fd \<mapsto> h)
      | (Inl e, s') \<Rightarrow> e = EMFILE \<and> fdTable s' = fdTable s \<and> last (trace s') = Sys ''CLOSE'' [L h])"

lemma install_or_close_spec:
  assumes "fds_ok s" and "h \<noteq> 0"
  shows "kept_or_closed s h (install_or_close env h s)"
  using fds.install_some [of "fdTable s" h] assms
  by (auto simp: kept_or_closed_def install_or_close_def sys_simps fds_ok_def split: option.split)

end
