(* ===== verification/Sysdeps_Files.thy ===== *)
theory Sysdeps_Files
  imports Fd_Table
begin

text \<open>
  The file operations of \<open>sysdeps.cpp\<close>: resolving paths against directory descriptors, opening,
  duplicating and reading, the path calls, and the attributes of files. Results that the source
  stores through pointers are returned.
\<close>

section \<open>Paths\<close>

definition kAtFdCwd :: int where "kAtFdCwd = -100"

text \<open>
  \<open>at_resolve\<close>: the path to use for \<open>path\<close> relative to the directory \<open>dirfd\<close>, composed in a
  buffer of \<open>outsz\<close> bytes.
\<close>

definition at_resolve :: "kernel \<Rightarrow> int \<Rightarrow> string option \<Rightarrow> nat \<Rightarrow> string sys" where
  "at_resolve env dirfd path outsz =
     (case path of
        None \<Rightarrow> throw EINVAL
      | Some path \<Rightarrow>
         if (path \<noteq> [] \<and> hd path = CHR ''/'') \<or> dirfd = kAtFdCwd then give path
         else with_handle dirfd (\<lambda>handle.
           bindS (checked env (Sys ''FD_PATH'' [L handle, L 256])) (\<lambda>(n, dir).
             let out = append_loop outsz [] (take (nat n) (out_bytes dir));
                 out = (if out = [] \<or> last out \<noteq> CHR ''/'' then append_loop outsz out ''/'' else out)
             in give (append_loop outsz out path))))"

text \<open>\<open>fd_to_path\<close>: the path an open fd was opened with.\<close>

definition fd_to_path :: "kernel \<Rightarrow> int \<Rightarrow> nat \<Rightarrow> string sys" where
  "fd_to_path env fd outsz =
     with_handle fd (\<lambda>h.
       bindS (checked env (Sys ''FD_PATH'' [L h, L (int outsz)])) (\<lambda>(n, out).
         if n \<le> 0 \<or> int outsz \<le> n then throw EINVAL else give (take (nat n) (out_bytes out))))"

text \<open>A call on the path resolved in a buffer of 512 bytes.\<close>

definition at_call :: "kernel \<Rightarrow> int \<Rightarrow> string option \<Rightarrow> (string \<Rightarrow> kcall) \<Rightarrow> unit sys" where
  "at_call env dirfd path call = bindS (at_resolve env dirfd path 512) (\<lambda>p. plain env (call p))"

text \<open>\<open>static_cast<int>\<close> and \<open>static_cast<long>\<close> of a wider or unsigned value.\<close>

definition to_int :: "int \<Rightarrow> int" where
  "to_int n = (n + 2147483648) mod 4294967296 - 2147483648"

definition to_long :: "nat \<Rightarrow> int" where
  "to_long n = (int n + 9223372036854775808) mod 18446744073709551616 - 9223372036854775808"

section \<open>Open files\<close>

definition TIOCGWINSZ :: int where "TIOCGWINSZ = 0x5413"

definition sys_Isatty :: "kernel \<Rightarrow> int \<Rightarrow> unit sys" where
  "sys_Isatty env fd =
     with_handle fd (\<lambda>h.
       bindS (syscall env (Sys ''IOCTL'' [L h, L TIOCGWINSZ])) (\<lambda>(r, _).
         if sc_error r \<noteq> 0 then throw ENOTTY else give ()))"

definition sys_Write :: "kernel \<Rightarrow> int \<Rightarrow> string \<Rightarrow> int sys" where
  "sys_Write env fd buffer =
     with_handle fd (\<lambda>h. bindS (checked env (Sys ''WRITE'' [L h, S buffer])) (\<lambda>(r, _). give r))"

definition sys_Read :: "kernel \<Rightarrow> int \<Rightarrow> nat \<Rightarrow> (int \<times> string) sys" where
  "sys_Read env fd count =
     with_handle fd (\<lambda>h.
       bindS (checked env (Sys ''READ'' [L h, L (int count)])) (\<lambda>(r, out). give (r, out_bytes out)))"

definition sys_Open :: "kernel \<Rightarrow> string \<Rightarrow> int \<Rightarrow> int \<Rightarrow> nat sys" where
  "sys_Open env path flags mode =
     bindS (checked env (Sys ''OPEN'' [S path, L flags, L mode])) (\<lambda>(r, _). install_or_close env r)"

definition sys_Openat :: "kernel \<Rightarrow> int \<Rightarrow> string option \<Rightarrow> int \<Rightarrow> int \<Rightarrow> nat sys" where
  "sys_Openat env dirfd path flags mode =
     bindS (at_resolve env dirfd path 512) (\<lambda>p.
       bindS (checked env (Sys ''OPEN'' [S p, L flags, L mode])) (\<lambda>(r, _). install_or_close env r))"

definition sys_Seek :: "kernel \<Rightarrow> int \<Rightarrow> int \<Rightarrow> int \<Rightarrow> int sys" where
  "sys_Seek env fd offset whence =
     with_handle fd (\<lambda>h.
       bindS (checked env (Sys ''SEEK'' [L h, L offset, L whence])) (\<lambda>(r, _). give r))"

definition sys_Dup :: "kernel \<Rightarrow> int \<Rightarrow> nat sys" where
  "sys_Dup env fd =
     with_handle fd (\<lambda>h.
       bindS (checked env (Sys ''DUP'' [L h])) (\<lambda>(r, _). install_or_close env r))"

text \<open>
  \<open>Dup2\<close>: an occupied target, and any standard stream, is replaced by the kernel; a free one gets
  a duplicate.
\<close>

definition sys_Dup2 :: "kernel \<Rightarrow> int \<Rightarrow> int \<Rightarrow> unit sys" where
  "sys_Dup2 env fd newfd =
     with_handle fd (\<lambda>handle.
       if newfd < 0 \<or> int kMaxFd \<le> newfd then throw EBADF
       else bindS (gets (\<lambda>s. fdTable s ! nat newfd)) (\<lambda>targetHandle.
         bindS (checked env
                  (if targetHandle \<noteq> 0 \<or> newfd < 3
                   then Sys ''DUP2'' [L handle, L (if targetHandle \<noteq> 0 then targetHandle else newfd)]
                   else Sys ''DUP'' [L handle])) (\<lambda>(r, _).
           modify (\<lambda>s. s\<lparr>fdTable := snd (register_fd_at (fdTable s) newfd r)\<rparr>))))"

definition F_DUPFD :: int where "F_DUPFD = 0"
definition F_DUPFD_CLOEXEC :: int where "F_DUPFD_CLOEXEC = 1030"

definition sys_Fcntl :: "kernel \<Rightarrow> int \<Rightarrow> int \<Rightarrow> int \<Rightarrow> int sys" where
  "sys_Fcntl env fd request arg =
     with_handle fd (\<lambda>handle.
       bindS (checked env (Sys ''FCNTL'' [L handle, L request, L arg])) (\<lambda>(r, _).
         if request = F_DUPFD \<or> request = F_DUPFD_CLOEXEC then
           bindS (gets (\<lambda>s. register_fd_min (fdTable s) r (to_int arg))) (\<lambda>new.
             case new of
               None \<Rightarrow> bindS (ignore env (Sys ''CLOSE'' [L r])) (\<lambda>_. throw EMFILE)
             | Some (newfd, t) \<Rightarrow>
                bindS (modify (\<lambda>s. s\<lparr>fdTable := t\<rparr>)) (\<lambda>_. give (int newfd)))
         else give (to_int r)))"

text \<open>
  \<open>register_fd\<close> as a step of its own, for the calls that install two handles; -1 when there is
  no room.
\<close>

definition try_register :: "int \<Rightarrow> int sys" where
  "try_register h =
     bindS (gets (\<lambda>s. register_fd (fdTable s) h)) (\<lambda>r.
       case r of
         None \<Rightarrow> give (-1)
       | Some (fd, t) \<Rightarrow> bindS (modify (\<lambda>s. s\<lparr>fdTable := t\<rparr>)) (\<lambda>_. give (int fd)))"

definition clear_fd :: "int \<Rightarrow> unit sys" where
  "clear_fd fd = modify (\<lambda>s. s\<lparr>fdTable := (fdTable s)[nat fd := 0]\<rparr>)"

definition on_cond :: "bool \<Rightarrow> unit sys \<Rightarrow> unit sys" where
  "on_cond b m = (if b then m else give ())"

definition sys_Pipe :: "kernel \<Rightarrow> (int \<times> int) sys" where
  "sys_Pipe env =
     bindS (checked env (Sys ''PIPE'' [])) (\<lambda>(_, out).
       let h0 = long_at 0 out; h1 = long_at 1 out
       in bindS (try_register h0) (\<lambda>r.
          bindS (try_register h1) (\<lambda>w.
          if r < 0 \<or> w < 0 then
            bindS (on_cond (0 \<le> r) (bindS (ignore env (Sys ''CLOSE'' [L h0])) (\<lambda>_. clear_fd r))) (\<lambda>_.
            bindS (on_cond (0 \<le> w) (bindS (ignore env (Sys ''CLOSE'' [L h1])) (\<lambda>_. clear_fd w))) (\<lambda>_.
            throw EMFILE))
          else give (r, w))))"

section \<open>Positioned input and output\<close>

definition positioned :: "kernel \<Rightarrow> int \<Rightarrow> int \<Rightarrow> (int \<Rightarrow> kcall) \<Rightarrow> (int \<times> kout) sys" where
  "positioned env fd off call =
     with_handle fd (\<lambda>h.
       bindS (checked env (Sys ''SEEK'' [L h, L 0, L 1])) (\<lambda>(saved, _).
       bindS (checked env (Sys ''SEEK'' [L h, L off, L 0])) (\<lambda>_.
       bindS (syscall env (call h)) (\<lambda>(r, out).
       bindS (ignore env (Sys ''SEEK'' [L h, L saved, L 0])) (\<lambda>_.
       bindS (check r) (\<lambda>_. give (r, out)))))))"

definition sys_Pread :: "kernel \<Rightarrow> int \<Rightarrow> nat \<Rightarrow> int \<Rightarrow> (int \<times> string) sys" where
  "sys_Pread env fd n off =
     bindS (positioned env fd off (\<lambda>h. Sys ''READ'' [L h, L (int n)]))
       (\<lambda>(r, out). give (r, out_bytes out))"

definition sys_Pwrite :: "kernel \<Rightarrow> int \<Rightarrow> string \<Rightarrow> int \<Rightarrow> int sys" where
  "sys_Pwrite env fd buf off =
     bindS (positioned env fd off (\<lambda>h. Sys ''WRITE'' [L h, S buf])) (\<lambda>(r, _). give r)"

definition sys_Fsync :: "kernel \<Rightarrow> int \<Rightarrow> unit sys" where
  "sys_Fsync env fd = with_handle fd (\<lambda>h. plain env (Sys ''FSYNC'' [L h]))"

definition sys_Fdatasync :: "kernel \<Rightarrow> int \<Rightarrow> unit sys" where
  "sys_Fdatasync env fd = with_handle fd (\<lambda>h. plain env (Sys ''FSYNC'' [L h]))"

section \<open>The name space\<close>

definition sys_GetCwd :: "kernel \<Rightarrow> nat \<Rightarrow> string sys" where
  "sys_GetCwd env count =
     bindS (checked env (Sys ''GETCWD'' [L (int count)])) (\<lambda>(_, out). give (out_bytes out))"

definition sys_Chdir :: "kernel \<Rightarrow> string \<Rightarrow> unit sys" where
  "sys_Chdir env path = plain env (Sys ''CHDIR'' [S path])"

text \<open>
  \<open>Fchdir\<close> hands the kernel the buffer \<open>dir\<close> as \<open>FD_PATH\<close> filled it, whatever length was
  returned.
\<close>

definition sys_Fchdir :: "kernel \<Rightarrow> int \<Rightarrow> unit sys" where
  "sys_Fchdir env fd =
     with_handle fd (\<lambda>h.
       bindS (checked env (Sys ''FD_PATH'' [L h, L 256])) (\<lambda>(_, out).
         plain env (Sys ''CHDIR'' [S (out_bytes out)])))"

definition sys_Mkdir :: "kernel \<Rightarrow> string \<Rightarrow> int \<Rightarrow> unit sys" where
  "sys_Mkdir env path mode = plain env (Sys ''MKDIR'' [S path, L mode])"

definition sys_Mkdirat :: "kernel \<Rightarrow> int \<Rightarrow> string option \<Rightarrow> int \<Rightarrow> unit sys" where
  "sys_Mkdirat env dirfd path mode = at_call env dirfd path (\<lambda>p. Sys ''MKDIR'' [S p, L mode])"

definition sys_Rmdir :: "kernel \<Rightarrow> string \<Rightarrow> unit sys" where
  "sys_Rmdir env path = plain env (Sys ''RMDIR'' [S path])"

definition sys_Unlinkat :: "kernel \<Rightarrow> int \<Rightarrow> string option \<Rightarrow> int \<Rightarrow> unit sys" where
  "sys_Unlinkat env dirfd path flags =
     at_call env dirfd path (\<lambda>p. if bit flags 9 then Sys ''RMDIR'' [S p] else Sys ''UNLINK'' [S p])"

definition sys_Rename :: "kernel \<Rightarrow> string \<Rightarrow> string \<Rightarrow> unit sys" where
  "sys_Rename env path new_path = plain env (Sys ''RENAME'' [S path, S new_path])"

definition at_call2 ::
  "kernel \<Rightarrow> int \<Rightarrow> string option \<Rightarrow> int \<Rightarrow> string option \<Rightarrow> (string \<Rightarrow> string \<Rightarrow> kcall) \<Rightarrow> unit sys" where
  "at_call2 env olddirfd old_path newdirfd new_path call =
     bindS (at_resolve env olddirfd old_path 512) (\<lambda>op.
     bindS (at_resolve env newdirfd new_path 512) (\<lambda>np. plain env (call op np)))"

definition sys_Renameat :: "kernel \<Rightarrow> int \<Rightarrow> string option \<Rightarrow> int \<Rightarrow> string option \<Rightarrow> unit sys" where
  "sys_Renameat env olddirfd old_path newdirfd new_path =
     at_call2 env olddirfd old_path newdirfd new_path (\<lambda>op np. Sys ''RENAME'' [S op, S np])"

definition sys_Linkat :: "kernel \<Rightarrow> int \<Rightarrow> string option \<Rightarrow> int \<Rightarrow> string option \<Rightarrow> unit sys" where
  "sys_Linkat env olddirfd old_path newdirfd new_path =
     at_call2 env olddirfd old_path newdirfd new_path (\<lambda>op np. Sys ''LINK'' [S op, S np])"

definition sys_Link :: "kernel \<Rightarrow> string \<Rightarrow> string \<Rightarrow> unit sys" where
  "sys_Link env old_path new_path = plain env (Sys ''LINK'' [S old_path, S new_path])"

definition sys_Symlink :: "kernel \<Rightarrow> string \<Rightarrow> string \<Rightarrow> unit sys" where
  "sys_Symlink env target_path link_path = plain env (Sys ''SYMLINK'' [S target_path, S link_path])"

definition sys_Symlinkat :: "kernel \<Rightarrow> string \<Rightarrow> int \<Rightarrow> string option \<Rightarrow> unit sys" where
  "sys_Symlinkat env target_path dirfd link_path =
     at_call env dirfd link_path (\<lambda>p. Sys ''SYMLINK'' [S target_path, S p])"

definition sys_Readlink :: "kernel \<Rightarrow> string \<Rightarrow> nat \<Rightarrow> (int \<times> string) sys" where
  "sys_Readlink env path max_size =
     bindS (checked env (Sys ''READLINK'' [S path, L (int max_size)])) (\<lambda>(r, out). give (r, out_bytes out))"

definition sys_Readlinkat :: "kernel \<Rightarrow> int \<Rightarrow> string option \<Rightarrow> nat \<Rightarrow> (int \<times> string) sys" where
  "sys_Readlinkat env dirfd path max_size =
     bindS (at_resolve env dirfd path 512) (\<lambda>p.
       bindS (checked env (Sys ''READLINK'' [S p, L (int max_size)])) (\<lambda>(r, out). give (r, out_bytes out)))"

definition sys_Access :: "kernel \<Rightarrow> string \<Rightarrow> int \<Rightarrow> unit sys" where
  "sys_Access env path mode = plain env (Sys ''ACCESS'' [S path, L mode])"

definition sys_Faccessat :: "kernel \<Rightarrow> int \<Rightarrow> string option \<Rightarrow> int \<Rightarrow> unit sys" where
  "sys_Faccessat env dirfd path mode = at_call env dirfd path (\<lambda>p. Sys ''ACCESS'' [S p, L mode])"

definition sys_Mknodat :: "kernel \<Rightarrow> int \<Rightarrow> string option \<Rightarrow> int \<Rightarrow> int \<Rightarrow> unit sys" where
  "sys_Mknodat env dirfd path mode dev =
     at_call env dirfd path
       (\<lambda>p. Sys ''MKNOD'' [S p, L (mode mod 4294967296), L (dev mod 4294967296)])"

definition sys_Mkfifoat :: "kernel \<Rightarrow> int \<Rightarrow> string option \<Rightarrow> nat \<Rightarrow> unit sys" where
  "sys_Mkfifoat env dirfd path mode =
     at_call env dirfd path (\<lambda>p. Sys ''MKNOD'' [S p, L (int (mode mod 4096 + 4096)), L 0])"

end
