(* ===== verification/Dir_Streams.thy ===== *)
theory Dir_Streams
  imports Sysdeps_Files
begin

text \<open>
  Directory streams and \<open>Close\<close> in \<open>sysdeps.cpp\<close>: the kernel returns a whole directory by path,
  and the layer hands it out in records of the C library's \<open>dirent\<close> format, a buffer at a time,
  from a snapshot in a table of streams.
\<close>

section \<open>The stream table\<close>

text \<open>The first stream that satisfies \<open>p\<close>, from slot \<open>i\<close> on, as the scan loops find it.\<close>

fun find_index :: "('a \<Rightarrow> bool) \<Rightarrow> 'a list \<Rightarrow> nat option" where
  "find_index p [] = None"
| "find_index p (x # xs) = (if p x then Some 0 else map_option Suc (find_index p xs))"

lemma find_index_some:
  "find_index p xs = Some i \<Longrightarrow> i < length xs \<and> p (xs ! i) \<and> (\<forall>j<i. \<not> p (xs ! j))"
proof (induction xs arbitrary: i)
  case (Cons x xs)
  then show ?case by (auto split: if_splits simp: nth_Cons split: nat.split)
qed simp

lemma find_index_none: "find_index p xs = None \<Longrightarrow> x \<in> set xs \<Longrightarrow> \<not> p x"
  by (induction xs) (auto split: if_splits)

definition fresh_stream :: "string \<Rightarrow> dir_stream \<Rightarrow> dir_stream" where
  "fresh_stream path d =
     d\<lparr>inUse := True, loaded := False, fromFd := False, ownerFd := 0, cursor := 0, dcount := 0,
       dpath := append_loop 256 [] path\<rparr>"

definition alloc_dir_stream :: "dir_stream list \<Rightarrow> string \<Rightarrow> (nat \<times> dir_stream list) option" where
  "alloc_dir_stream ds path =
     (case find_index (\<lambda>d. \<not> inUse d) ds of
        None \<Rightarrow> None
      | Some i \<Rightarrow> Some (i, ds[i := fresh_stream path (ds ! i)]))"

definition find_dir_stream_by_fd :: "dir_stream list \<Rightarrow> int \<Rightarrow> nat option" where
  "find_dir_stream_by_fd ds fd = find_index (\<lambda>d. inUse d \<and> fromFd d \<and> ownerFd d = fd) ds"

definition release_stream :: "dir_stream list \<Rightarrow> nat \<Rightarrow> dir_stream list" where
  "release_stream ds i = ds[i := (ds ! i)\<lparr>inUse := False, loaded := False\<rparr>]"

definition wf_streams :: "dir_stream list \<Rightarrow> bool" where
  "wf_streams ds \<longleftrightarrow> length ds = kMaxDirs"

text \<open>The abstract view: the path of each stream in use.\<close>

definition open_stream :: "dir_stream list \<Rightarrow> nat \<Rightarrow> string option" where
  "open_stream ds i = (if i < length ds \<and> inUse (ds ! i) then Some (dpath (ds ! i)) else None)"

interpretation streams:
  lowest_slot_table wf_streams open_stream alloc_dir_stream release_stream "\<lambda>p. length p < 256" 0 kMaxDirs
proof
  fix ds p i ds' assume a: "wf_streams ds" "length p < 256" "alloc_dir_stream ds p = Some (i, ds')"
  then have i: "i < length ds" "\<not> inUse (ds ! i)" "ds' = ds[i := fresh_stream p (ds ! i)]"
    by (auto simp: alloc_dir_stream_def dest: find_index_some split: option.splits)
  then show "wf_streams ds' \<and> 0 \<le> i \<and> i < kMaxDirs \<and> open_stream ds i = None \<and>
      open_stream ds' = (open_stream ds)(i \<mapsto> p)"
    using a(1,2) by (auto simp: wf_streams_def open_stream_def fun_eq_iff nth_list_update
        fresh_stream_def append_loop_fits)
next
  fix ds p i assume "wf_streams ds" "alloc_dir_stream ds p = None" "i < kMaxDirs"
  then show "open_stream ds i \<noteq> None"
    using find_index_none [of "\<lambda>d. \<not> inUse d" ds "ds ! i"]
    by (auto simp: alloc_dir_stream_def wf_streams_def open_stream_def split: option.splits)
next
  fix ds i assume "wf_streams ds" "i < kMaxDirs"
  then show "wf_streams (release_stream ds i) \<and>
      open_stream (release_stream ds i) = (open_stream ds)(i := None)"
    by (auto simp: wf_streams_def release_stream_def open_stream_def fun_eq_iff nth_list_update)
next
  fix ds p i ds' e assume a: "wf_streams ds" "alloc_dir_stream ds p = Some (i, ds')" "e < i"
  then have "i < length ds" "inUse (ds ! e)"
    using find_index_some [of "\<lambda>d. \<not> inUse d" ds i]
    by (auto simp: alloc_dir_stream_def split: option.splits)
  with a show "open_stream ds e \<noteq> None" by (simp add: open_stream_def)
qed

section \<open>Opening and closing\<close>

definition alloc_stream :: "string \<Rightarrow> nat sys" where
  "alloc_stream path =
     bindS (gets (\<lambda>s. alloc_dir_stream (dirStreams s) path)) (\<lambda>r.
       case r of
         None \<Rightarrow> throw EMFILE
       | Some (i, ds) \<Rightarrow> bindS (modify (\<lambda>s. s\<lparr>dirStreams := ds\<rparr>)) (\<lambda>_. give i))"

definition sys_OpenDir :: "string \<Rightarrow> int sys" where
  "sys_OpenDir path = bindS (alloc_stream path) (\<lambda>i. give (int i + kDirHandleBase))"

definition update_stream :: "nat \<Rightarrow> (dir_stream \<Rightarrow> dir_stream) \<Rightarrow> unit sys" where
  "update_stream i f = modify (\<lambda>s. s\<lparr>dirStreams := (dirStreams s)[i := f (dirStreams s ! i)]\<rparr>)"

text \<open>The slot of a directory handle, checked.\<close>

definition stream_slot :: "int \<Rightarrow> nat sys" where
  "stream_slot handle =
     (let slot = handle - kDirHandleBase
      in bindS (gets (\<lambda>s. slot < 0 \<or> int kMaxDirs \<le> slot \<or> \<not> inUse (dirStreams s ! nat slot)))
           (\<lambda>bad. if bad then throw EBADF else give (nat slot)))"

definition sys_Close :: "kernel \<Rightarrow> int \<Rightarrow> unit sys" where
  "sys_Close env fd =
     (if kDirHandleBase \<le> fd then
        bindS (stream_slot fd) (\<lambda>i. update_stream i (\<lambda>d. d\<lparr>inUse := False, loaded := False\<rparr>))
      else
        bindS (gets (\<lambda>s. find_dir_stream_by_fd (dirStreams s) fd)) (\<lambda>found.
        bindS (case found of
                 None \<Rightarrow> give ()
               | Some i \<Rightarrow> update_stream i (\<lambda>d. d\<lparr>inUse := False, loaded := False, fromFd := False\<rparr>)) (\<lambda>_.
        with_handle fd (\<lambda>handle.
          if fd < 3 then give ()
          else bindS (checked env (Sys ''CLOSE'' [L handle])) (\<lambda>_. clear_fd fd)))))"

section \<open>Reading entries\<close>

definition dt_from_filetype :: "nat \<Rightarrow> nat" where
  "dt_from_filetype t =
     (if t = 1 then 4 else if t = 0 then 8 else if t = 2 then 2 else if t = 3 then 6
      else if t = 4 then 10 else if t = 5 then 1 else if t = 6 then 12 else 0)"

definition namePrefix :: nat where "namePrefix = 19"

text \<open>\<open>(namePrefix + nameLen + 1 + 7) & ~7\<close>\<close>

definition reclen :: "string \<Rightarrow> nat" where
  "reclen name = (namePrefix + length name + 1 + 7) div 8 * 8"

text \<open>
  The record of an entry: inode, offset of the next, length, type, name, NUL, and zeros up to
  the length.
\<close>

definition dirent_record :: "dirent \<Rightarrow> nat \<Rightarrow> nat list" where
  "dirent_record e next_off =
     le_bytes 8 (d_inode e) @ le_bytes 8 next_off @ le_bytes 2 (reclen (d_name e)) @
     [dt_from_filetype (d_filetype e)] @ map of_char (d_name e) @ [0] @
     replicate (reclen (d_name e) - (namePrefix + length (d_name e) + 1)) 0"

text \<open>
  The filling loop over the entries from the cursor on, with the bytes written so far; it
  returns them and the new cursor.
\<close>

fun fill_records :: "nat \<Rightarrow> dirent list \<Rightarrow> nat \<Rightarrow> nat list \<Rightarrow> nat list \<times> nat" where
  "fill_records max_size [] cur out = (out, cur)"
| "fill_records max_size (e # es) cur out =
     (if max_size < length out + reclen (d_name e) then (out, cur)
      else fill_records max_size es (Suc cur) (out @ dirent_record e (Suc cur)))"

text \<open>The slot behind the handle of a directory; a real fd gets a snapshot slot of its own.\<close>

definition entries_slot :: "kernel \<Rightarrow> int \<Rightarrow> nat sys" where
  "entries_slot env handle =
     (if kDirHandleBase \<le> handle then stream_slot handle
      else bindS (gets (\<lambda>s. find_dir_stream_by_fd (dirStreams s) handle)) (\<lambda>found.
        case found of
          Some i \<Rightarrow> give i
        | None \<Rightarrow>
           bindS (fd_to_path env handle 256) (\<lambda>p.
           bindS (alloc_stream p) (\<lambda>i.
           bindS (update_stream i (\<lambda>d. d\<lparr>fromFd := True, ownerFd := handle\<rparr>)) (\<lambda>_. give i)))))"

definition load_snapshot :: "kernel \<Rightarrow> nat \<Rightarrow> unit sys" where
  "load_snapshot env i =
     bindS (gets (\<lambda>s. dirStreams s ! i)) (\<lambda>d.
       if loaded d then give ()
       else bindS (checked env (Sys ''READDIR'' [S (dpath d), L (int kMaxDirEntries)])) (\<lambda>(r, out).
         update_stream i (\<lambda>d. d\<lparr>entries := out_dirents out, dcount := nat (to_int r), cursor := 0,
                                loaded := True\<rparr>)))"

definition sys_ReadEntries :: "kernel \<Rightarrow> int \<Rightarrow> nat \<Rightarrow> nat list sys" where
  "sys_ReadEntries env handle max_size =
     bindS (entries_slot env handle) (\<lambda>i.
     bindS (load_snapshot env i) (\<lambda>_.
     bindS (gets (\<lambda>s. dirStreams s ! i)) (\<lambda>d.
       let (out, cur) =
         fill_records max_size (take (dcount d - cursor d) (drop (cursor d) (entries d))) (cursor d) []
       in bindS (update_stream i (\<lambda>d. d\<lparr>cursor := cur\<rparr>)) (\<lambda>_. give out))))"

section \<open>Records\<close>

lemma reclen_bounds:
  "namePrefix + length name + 1 \<le> reclen name" "reclen name < namePrefix + length name + 9"
  "8 dvd reclen name"
  by (auto simp: reclen_def namePrefix_def)

lemma length_dirent_record [simp]: "length (dirent_record e n) = reclen (d_name e)"
  using reclen_bounds(1) [of "d_name e"] by (simp add: dirent_record_def namePrefix_def)

text \<open>
  How the C library reads a record: the fixed fields, the name up to its NUL, and the length of
  the record, by which it advances.
\<close>

definition parse_record :: "nat list \<Rightarrow> (string \<times> nat \<times> nat) \<times> nat list" where
  "parse_record bs =
     ((map char_of (takeWhile (\<lambda>b. b \<noteq> 0) (drop 19 bs)), of_le_bytes (take 8 bs), bs ! 18),
      drop (of_le_bytes (take 2 (drop 16 bs))) bs)"

definition storable :: "dirent \<Rightarrow> bool" where
  "storable e \<longleftrightarrow> CHR 0x00 \<notin> set (d_name e) \<and> length (d_name e) < 256 \<and> d_inode e < 2 ^ 64"

lemma of_char_zero: "(of_char c :: nat) = 0 \<longleftrightarrow> c = CHR 0x00"
  using of_char_eq_iff [of c "CHR 0x00", where 'a = nat] by simp

lemma parse_dirent_record:
  assumes "storable e"
  shows "parse_record (dirent_record e n @ rest) =
    ((d_name e, d_inode e, dt_from_filetype (d_filetype e)), rest)"
proof -
  let ?name = "map of_char (d_name e) :: nat list"
  let ?pad = "replicate (reclen (d_name e) - (namePrefix + length (d_name e) + 1)) (0::nat)"
  have split: "dirent_record e n @ rest = le_bytes 8 (d_inode e) @ le_bytes 8 n @
      le_bytes 2 (reclen (d_name e)) @ dt_from_filetype (d_filetype e) # ?name @ 0 # ?pad @ rest"
    by (simp add: dirent_record_def)
  have "drop 19 (dirent_record e n @ rest) = ?name @ 0 # ?pad @ rest"
    unfolding split by simp
  moreover have "\<forall>c\<in>set (d_name e). (of_char c :: nat) \<noteq> 0"
    using assms unfolding storable_def of_char_zero by blast
  then have "takeWhile (\<lambda>b. b \<noteq> 0) (?name @ 0 # ?pad @ rest) = ?name"
    by (subst takeWhile_append2) auto
  moreover have "of_le_bytes (take 8 (dirent_record e n @ rest)) = d_inode e"
    unfolding split using assms of_le_bytes_inverse [of "d_inode e" 8] by (simp add: storable_def)
  moreover have "(dirent_record e n @ rest) ! 18 = dt_from_filetype (d_filetype e)"
    unfolding split by (simp add: nth_append)
  moreover have "of_le_bytes (take 2 (drop 16 (dirent_record e n @ rest))) = reclen (d_name e)"
    using of_le_bytes_inverse [of "reclen (d_name e)" 2] reclen_bounds(2) [of "d_name e"] assms
    unfolding split by (simp add: storable_def namePrefix_def)
  ultimately show ?thesis
    by (simp add: parse_record_def comp_def map_idI)
qed

fun records :: "nat \<Rightarrow> dirent list \<Rightarrow> nat list" where
  "records i [] = []"
| "records i (e # es) = dirent_record e (Suc i) @ records (Suc i) es"

lemma records_append: "records i (es @ fs) = records i es @ records (i + length es) fs"
  by (induction es arbitrary: i) simp_all

text \<open>The filling loop writes whole records in order, as many as fit.\<close>

lemma fill_records_spec:
  "\<exists>k\<le>length es. fill_records m es c out = (out @ records c (take k es), c + k) \<and>
     (length out \<le> m \<longrightarrow> length (out @ records c (take k es)) \<le> m) \<and>
     (k < length es \<longrightarrow> m < length (out @ records c (take k es)) + reclen (d_name (es ! k)))"
proof (induction es arbitrary: c out)
  case (Cons e es)
  show ?case
  proof (cases "m < length out + reclen (d_name e)")
    case True
    then show ?thesis by (intro exI [of _ 0]) simp
  next
    case False
    obtain k where "k \<le> length es"
      "fill_records m es (Suc c) (out @ dirent_record e (Suc c)) =
        ((out @ dirent_record e (Suc c)) @ records (Suc c) (take k es), Suc c + k)"
      "length (out @ dirent_record e (Suc c)) \<le> m \<longrightarrow>
        length ((out @ dirent_record e (Suc c)) @ records (Suc c) (take k es)) \<le> m"
      "k < length es \<longrightarrow> m < length ((out @ dirent_record e (Suc c)) @ records (Suc c) (take k es)) +
        reclen (d_name (es ! k))"
      using Cons.IH by blast
    with False show ?thesis by (intro exI [of _ "Suc k"]) simp
  qed
qed simp

section \<open>Listing a directory\<close>

fun listing :: "nat \<Rightarrow> nat list \<Rightarrow> (string \<times> nat \<times> nat) list" where
  "listing 0 bs = []"
| "listing (Suc k) bs = (case parse_record bs of (x, rest) \<Rightarrow> x # listing k rest)"

definition entry_info :: "dirent \<Rightarrow> string \<times> nat \<times> nat" where
  "entry_info e = (d_name e, d_inode e, dt_from_filetype (d_filetype e))"

lemma listing_records:
  "\<forall>e\<in>set es. storable e \<Longrightarrow> listing (length es) (records i es) = map entry_info es"
proof (induction es arbitrary: i)
  case (Cons e es)
  then show ?case by (simp add: parse_dirent_record entry_info_def)
qed simp

fun read_many :: "kernel \<Rightarrow> int \<Rightarrow> nat list \<Rightarrow> nat list list sys" where
  "read_many env h [] = give []"
| "read_many env h (m # ms) =
     bindS (sys_ReadEntries env h m) (\<lambda>out. bindS (read_many env h ms) (\<lambda>outs. give (out # outs)))"

text \<open>A stream with a snapshot: what one call returns, and where it leaves the cursor.\<close>

definition snapshot_at :: "process \<Rightarrow> nat \<Rightarrow> dirent list \<Rightarrow> nat \<Rightarrow> bool" where
  "snapshot_at s i es c \<longleftrightarrow> i < length (dirStreams s) \<and> i < kMaxDirs \<and> inUse (dirStreams s ! i) \<and>
     loaded (dirStreams s ! i) \<and> entries (dirStreams s ! i) = es \<and>
     dcount (dirStreams s ! i) = length es \<and> cursor (dirStreams s ! i) = c \<and> c \<le> length es"

lemma stream_slot_in_use:
  assumes "i < kMaxDirs" and "inUse (dirStreams s ! i)"
  shows "bindS (stream_slot (int i + kDirHandleBase)) f s = f i s"
  using assms by (simp add: stream_slot_def sys_simps Let_def)

lemma read_entries_step:
  assumes "snapshot_at s i es c"
  shows "\<exists>k out s'. sys_ReadEntries env (int i + kDirHandleBase) m s = (Inr out, s') \<and>
    out = records c (take k (drop c es)) \<and> k \<le> length es - c \<and> snapshot_at s' i es (c + k) \<and>
    length out \<le> m \<and> (c + k < length es \<longrightarrow> m < length out + reclen (d_name (es ! (c + k))))"
proof -
  obtain k where k: "k \<le> length es - c"
    "fill_records m (drop c es) c [] = (records c (take k (drop c es)), c + k)"
    "length (records c (take k (drop c es))) \<le> m"
    "k < length es - c \<longrightarrow> m < length (records c (take k (drop c es))) + reclen (d_name (drop c es ! k))"
    using fill_records_spec [of "drop c es" m c "[]"] by auto
  let ?s = "s\<lparr>dirStreams := (dirStreams s)[i := (dirStreams s ! i)\<lparr>cursor := c + k\<rparr>]\<rparr>"
  have "sys_ReadEntries env (int i + kDirHandleBase) m s = (Inr (records c (take k (drop c es))), ?s)"
    using assms k(2) unfolding snapshot_at_def
    by (simp add: sys_ReadEntries_def entries_slot_def load_snapshot_def update_stream_def sys_simps
        stream_slot_in_use)
  moreover have "snapshot_at ?s i es (c + k)"
    using assms k(1) unfolding snapshot_at_def by auto
  ultimately show ?thesis
    using k assms by (intro exI [of _ k] exI [of _ "records c (take k (drop c es))"] exI [of _ ?s])
      (auto simp: snapshot_at_def)
qed

lemma read_many_in_order:
  assumes "snapshot_at s i es c"
  shows "\<exists>k outs s'. read_many env (int i + kDirHandleBase) ms s = (Inr outs, s') \<and>
    concat outs = records c (take k (drop c es)) \<and> c + k \<le> length es \<and>
    list_all2 (\<lambda>m out. length out \<le> m) ms outs \<and>
    (ms \<noteq> [] \<longrightarrow> last outs = [] \<longrightarrow> (\<forall>e\<in>set es. reclen (d_name e) \<le> last ms) \<longrightarrow> c + k = length es)"
  using assms
proof (induction ms arbitrary: s c)
  case Nil
  then show ?case by (intro exI [of _ 0]) (simp add: sys_simps snapshot_at_def)
next
  case (Cons m ms)
  obtain k out u where u: "sys_ReadEntries env (int i + kDirHandleBase) m s = (Inr out, u)"
    "out = records c (take k (drop c es))" "k \<le> length es - c" "snapshot_at u i es (c + k)"
    "length out \<le> m" "c + k < length es \<longrightarrow> m < length out + reclen (d_name (es ! (c + k)))"
    using read_entries_step [OF Cons.prems] by blast
  obtain l outs s' where r: "read_many env (int i + kDirHandleBase) ms u = (Inr outs, s')"
    "concat outs = records (c + k) (take l (drop (c + k) es))" "c + k + l \<le> length es"
    "list_all2 (\<lambda>m out. length out \<le> m) ms outs"
    "ms \<noteq> [] \<longrightarrow> last outs = [] \<longrightarrow> (\<forall>e\<in>set es. reclen (d_name e) \<le> last ms) \<longrightarrow> c + k + l = length es"
    using Cons.IH [OF u(4)] by blast
  have "take (k + l) (drop c es) = take k (drop c es) @ take l (drop (c + k) es)"
    by (simp add: take_add add.commute)
  moreover have "length (take k (drop c es)) = k" using u(3) by simp
  ultimately have cat: "records c (take (k + l) (drop c es)) = out @ concat outs"
    by (simp only: records_append u(2) r(2))
  have end1: "c + k + l = length es" if "ms = []" "out = []" "\<forall>e\<in>set es. reclen (d_name e) \<le> m"
  proof -
    have "\<not> c + k < length es"
    proof
      assume "c + k < length es"
      moreover from this have "es ! (c + k) \<in> set es" by simp
      ultimately show False using u(6) that by fastforce
    qed
    then show ?thesis using r(3) by simp
  qed
  have "length outs = length ms" using r(4) by (simp add: list_all2_lengthD)
  then show ?case
    using u(1,5) r(1,3,4,5) cat end1
    by (intro exI [of _ "k + l"] exI [of _ "out # outs"] exI [of _ s'])
       (auto simp: bindS_def sys_apply add.assoc)
qed

text \<open>
  C28: A directory is listed completely and in order: opening a directory and reading it with any
  sequence of buffer sizes succeeds, every buffer is respected, and what the C library parses out
  of the returned records is a prefix of the kernel's entries, each once, with its name, inode and
  type; it is all of them once a buffer that any record fits comes back empty.
\<close>
theorem opendir_lists_directory:
  assumes "wf_streams (dirStreams s)" and "\<exists>i<kMaxDirs. open_stream (dirStreams s) i = None"
    and "length path < 256"
    and "env (trace s) (Sys ''READDIR'' [S path, L 256]) = (int (length es), KDirents es)"
    and "length es \<le> 256" and "\<forall>e\<in>set es. storable e" and "ms \<noteq> []"
  shows "\<exists>k outs s'. bindS (sys_OpenDir path) (\<lambda>h. read_many env h ms) s = (Inr outs, s') \<and>
    list_all2 (\<lambda>m out. length out \<le> m) ms outs \<and>
    listing k (concat outs) = map entry_info (take k es) \<and> k \<le> length es \<and>
    (last outs = [] \<longrightarrow> (\<forall>e\<in>set es. reclen (d_name e) \<le> last ms) \<longrightarrow> k = length es)"
proof -
  obtain j where "j < kMaxDirs" "open_stream (dirStreams s) j = None"
    using assms(2) by blast
  then obtain i ds where alloc: "alloc_dir_stream (dirStreams s) path = Some (i, ds)"
    using streams.install_free [OF assms(1,3), of j] by blast
  then have i: "i < kMaxDirs" "length ds = kMaxDirs" "inUse (ds ! i)" "\<not> loaded (ds ! i)" "dpath (ds ! i) = path"
    using find_index_some [of "\<lambda>d. \<not> inUse d" "dirStreams s" i] assms(1,3)
    by (auto simp: alloc_dir_stream_def wf_streams_def fresh_stream_def append_loop_fits split: option.splits)
  define d where "d = (ds ! i)\<lparr>entries := es, dcount := length es, cursor := 0, loaded := True\<rparr>"
  let ?u = "s\<lparr>dirStreams := ds\<rparr>"
  let ?v = "s\<lparr>dirStreams := ds[i := d], trace := trace s @ [Sys ''READDIR'' [S path, L 256]]\<rparr>"
  have "snapshot_at ?v i es 0"
    using i by (simp add: snapshot_at_def d_def)
  then obtain k outs s' where r: "read_many env (int i + kDirHandleBase) ms ?v = (Inr outs, s')"
    "concat outs = records 0 (take k es)" "k \<le> length es"
    "list_all2 (\<lambda>m out. length out \<le> m) ms outs"
    "last outs = [] \<longrightarrow> (\<forall>e\<in>set es. reclen (d_name e) \<le> last ms) \<longrightarrow> k = length es"
    using read_many_in_order [of ?v i es 0 env ms] assms(7) by auto
  have "sc_error (int (length es)) = 0"
    using assms(5) by (simp add: sc_error_nonneg is_long_def)
  moreover have "to_int (int (length es)) = int (length es)"
    using assms(5) by (simp add: to_int_def)
  ultimately have load_u: "bindS (load_snapshot env i) f ?u = f () ?v" for f :: "unit \<Rightarrow> 'b sys"
    using i assms(4)
    by (cases s) (simp add: load_snapshot_def sys_simps update_stream_def kMaxDirEntries_def d_def)
  have load_v: "bindS (load_snapshot env i) f ?v = f () ?v" for f :: "unit \<Rightarrow> 'b sys"
    using i by (simp add: load_snapshot_def sys_simps d_def)
  have slot_u: "bindS (stream_slot (int i + kDirHandleBase)) f ?u = f i ?u"
    and slot_v: "bindS (stream_slot (int i + kDirHandleBase)) f ?v = f i ?v" for f :: "nat \<Rightarrow> 'b sys"
    using i by (simp_all add: stream_slot_in_use d_def)
  have load: "sys_ReadEntries env (int i + kDirHandleBase) m ?u =
      sys_ReadEntries env (int i + kDirHandleBase) m ?v" for m
    by (simp add: sys_ReadEntries_def entries_slot_def slot_u slot_v load_u load_v)
  have "bindS (sys_OpenDir path) (\<lambda>h. read_many env h ms) s = read_many env (int i + kDirHandleBase) ms ?u"
    by (simp add: sys_OpenDir_def alloc_stream_def alloc sys_simps)
  also have "\<dots> = read_many env (int i + kDirHandleBase) ms ?v"
    using assms(7) load by (cases ms) (simp_all add: bindS_def)
  finally have "bindS (sys_OpenDir path) (\<lambda>h. read_many env h ms) s = (Inr outs, s')"
    using r(1) by simp
  moreover have "listing k (concat outs) = map entry_info (take k es)"
    using listing_records [of "take k es" 0] assms(6) r(2,3) by (auto dest: in_set_takeD)
  ultimately show ?thesis using r by blast
qed

definition two_entries :: "dirent list" where
  "two_entries =
     [\<lparr>d_name = ''etc'', d_inode = 12, d_filetype = 1\<rparr>, \<lparr>d_name = ''init'', d_inode = 13, d_filetype = 0\<rparr>]"

definition dir_env :: kernel where
  "dir_env log c = (int (length two_entries), KDirents two_entries)"

theorem opendir_lists_directory_witness:
  "\<exists>k outs s'. bindS (sys_OpenDir ''/'') (\<lambda>h. read_many dir_env h [40, 300, 300]) initial_process = (Inr outs, s') \<and>
     listing k (concat outs) = map entry_info (take k two_entries) \<and> (last outs = [] \<longrightarrow> k = 2)"
proof -
  have "\<exists>i<kMaxDirs. open_stream (dirStreams initial_process) i = None"
    by (rule exI [of _ 0]) (simp add: open_stream_def initial_process_def empty_stream_def kMaxDirs_def)
  moreover have "wf_streams (dirStreams initial_process)"
    by (simp add: wf_streams_def initial_process_def kMaxDirs_def)
  moreover have "\<forall>e\<in>set two_entries. storable e" "\<forall>e\<in>set two_entries. reclen (d_name e) \<le> 300"
    by (simp_all add: two_entries_def storable_def reclen_def namePrefix_def)
  moreover have "length two_entries = 2" by (simp add: two_entries_def)
  moreover have "dir_env (trace initial_process) (Sys ''READDIR'' [S ''/'', L 256]) =
      (int (length two_entries), KDirents two_entries)"
    by (simp add: dir_env_def)
  ultimately obtain k outs s' where
    "bindS (sys_OpenDir ''/'') (\<lambda>h. read_many dir_env h [40, 300, 300]) initial_process = (Inr outs, s')"
    "listing k (concat outs) = map entry_info (take k two_entries)"
    "last outs = [] \<longrightarrow> (\<forall>e\<in>set two_entries. reclen (d_name e) \<le> last [40, 300, 300]) \<longrightarrow> k = length two_entries"
    using opendir_lists_directory [of initial_process "''/''" dir_env two_entries "[40, 300, 300]"]
    by (simp del: read_many.simps) blast
  then show ?thesis
    using \<open>\<forall>e\<in>set two_entries. reclen (d_name e) \<le> 300\<close> \<open>length two_entries = 2\<close>
    by (simp del: read_many.simps listing.simps) blast
qed

end
