(* ===== verification/Sysdeps_Attributes.thy ===== *)
theory Sysdeps_Attributes
  imports Sysdeps_Files
begin

text \<open>
  File attributes in \<open>sysdeps.cpp\<close>: stat and its translation to the C library's layout, file
  system statistics, modes, owners, sizes, times, and the umask.
\<close>

section \<open>Stat\<close>

record stat =
  st_dev :: nat
  st_ino :: nat
  st_nlink :: nat
  st_mode :: nat
  st_uid :: nat
  st_gid :: nat
  st_rdev :: nat
  st_size :: int
  st_blksize :: int
  st_blocks :: int
  st_atime :: int
  st_mtime :: int
  st_ctime :: int

definition translate_stat :: "kstat \<Rightarrow> stat" where
  "translate_stat k =
     \<lparr>st_dev = k_dev k, st_ino = k_ino k, st_nlink = k_nlink k, st_mode = k_mode k,
      st_uid = k_uid k, st_gid = k_gid k, st_rdev = k_rdev k, st_size = to_long (k_size k),
      st_blksize = to_long (k_blksize k), st_blocks = to_long (k_blocks k),
      st_atime = to_long (k_atime k), st_mtime = to_long (k_mtime k), st_ctime = to_long (k_ctime k)\<rparr>"

fun out_stat :: "kout \<Rightarrow> kstat option" where
  "out_stat (KStat k) = Some k"
| "out_stat _ = None"

datatype fsfd_target = FsPath | FsFd | FsFdPath | FsNone

definition stat_call :: "int \<Rightarrow> string \<Rightarrow> kcall" where
  "stat_call flags path = (if bit flags 8 then Sys ''LSTAT'' [S path] else Sys ''STAT'' [S path])"

definition give_stat :: "int \<times> kout \<Rightarrow> stat option sys" where
  "give_stat = (\<lambda>(_, out). give (map_option translate_stat (out_stat out)))"

definition sys_Stat :: "kernel \<Rightarrow> fsfd_target \<Rightarrow> int \<Rightarrow> string option \<Rightarrow> int \<Rightarrow> stat option sys" where
  "sys_Stat env target fd path flags =
     (case target of
        FsPath \<Rightarrow>
          bindS (checked env (stat_call flags (case path of None \<Rightarrow> [] | Some p \<Rightarrow> p))) give_stat
      | FsFd \<Rightarrow> with_handle fd (\<lambda>h. bindS (checked env (Sys ''FSTAT'' [L h])) give_stat)
      | FsFdPath \<Rightarrow>
          bindS (at_resolve env fd path 512) (\<lambda>p. bindS (checked env (stat_call flags p)) give_stat)
      | FsNone \<Rightarrow> throw EINVAL)"

record kstatfs =
  blockSize :: nat
  totalBlocks :: nat
  freeBlocks :: nat
  totalInodes :: nat
  freeInodes :: nat
  nameMax :: nat
  fsType :: nat

record statvfs =
  f_bsize :: nat
  f_frsize :: nat
  f_blocks :: nat
  f_bfree :: nat
  f_bavail :: nat
  f_files :: nat
  f_ffree :: nat
  f_favail :: nat
  f_fsid :: nat
  f_flag :: nat
  f_namemax :: nat

definition fill_statvfs :: "kstatfs \<Rightarrow> statvfs" where
  "fill_statvfs k =
     \<lparr>f_bsize = blockSize k, f_frsize = blockSize k, f_blocks = totalBlocks k, f_bfree = freeBlocks k,
      f_bavail = freeBlocks k, f_files = totalInodes k, f_ffree = freeInodes k,
      f_favail = freeInodes k, f_fsid = fsType k, f_flag = 0, f_namemax = nameMax k\<rparr>"

text \<open>The kernel stores the structure as longs in the order of its fields.\<close>

definition statfs_of :: "kout \<Rightarrow> kstatfs" where
  "statfs_of out =
     (let f = (\<lambda>i. nat (long_at i out))
      in \<lparr>blockSize = f 0, totalBlocks = f 1, freeBlocks = f 2, totalInodes = f 3,
          freeInodes = f 4, nameMax = f 5, fsType = f 6\<rparr>)"

definition sys_Statvfs :: "kernel \<Rightarrow> string \<Rightarrow> statvfs sys" where
  "sys_Statvfs env path =
     bindS (checked env (Sys ''STATFS'' [S path, L 0]))
       (\<lambda>(_, out). give (fill_statvfs (statfs_of out)))"

definition sys_Fstatvfs :: "kernel \<Rightarrow> int \<Rightarrow> statvfs sys" where
  "sys_Fstatvfs env fd =
     with_handle fd (\<lambda>h.
       bindS (checked env (Sys ''STATFS'' [L h, L 1]))
         (\<lambda>(_, out). give (fill_statvfs (statfs_of out))))"

section \<open>Modes, owners and sizes\<close>

definition sys_Chmod :: "kernel \<Rightarrow> string \<Rightarrow> int \<Rightarrow> unit sys" where
  "sys_Chmod env path mode = plain env (Sys ''CHMOD'' [S path, L mode, L 0])"

definition sys_Fchmod :: "kernel \<Rightarrow> int \<Rightarrow> int \<Rightarrow> unit sys" where
  "sys_Fchmod env fd mode = with_handle fd (\<lambda>h. plain env (Sys ''CHMOD'' [L h, L mode, L 1]))"

definition sys_Fchmodat :: "kernel \<Rightarrow> int \<Rightarrow> string option \<Rightarrow> int \<Rightarrow> unit sys" where
  "sys_Fchmodat env dirfd path mode =
     at_call env dirfd path (\<lambda>p. Sys ''CHMOD'' [S p, L mode, L 0])"

definition sys_Truncate :: "kernel \<Rightarrow> string \<Rightarrow> int \<Rightarrow> unit sys" where
  "sys_Truncate env path len = plain env (Sys ''TRUNCATE'' [S path, L len, L 0])"

definition sys_Ftruncate :: "kernel \<Rightarrow> int \<Rightarrow> nat \<Rightarrow> unit sys" where
  "sys_Ftruncate env fd len =
     with_handle fd (\<lambda>h. plain env (Sys ''TRUNCATE'' [L h, L (to_long len), L 1]))"

definition sys_Fchownat :: "kernel \<Rightarrow> int \<Rightarrow> string option \<Rightarrow> int \<Rightarrow> int \<Rightarrow> int \<Rightarrow> unit sys" where
  "sys_Fchownat env dirfd path owner gid flags =
     (if bit flags 12 then
        with_handle dirfd (\<lambda>h. plain env (Sys ''CHOWN'' [L h, L 1, L owner, L gid, L flags]))
      else at_call env dirfd path
             (\<lambda>p. Sys ''CHOWN'' [S p, L 0, L owner, L gid, L flags]))"

text \<open>\<open>Umask\<close>: \<open>mode & 0777\<close> is kept in the process, and the old value is returned.\<close>

definition sys_Umask :: "nat \<Rightarrow> nat sys" where
  "sys_Umask mode =
     bindS (gets umask_bits) (\<lambda>old.
       bindS (modify (\<lambda>s. s\<lparr>umask_bits := mode mod 512\<rparr>)) (\<lambda>_. give old))"

section \<open>Times\<close>

definition UTIME_NOW :: int where "UTIME_NOW = 1073741823"
definition UTIME_OMIT :: int where "UTIME_OMIT = 1073741822"

text \<open>A field of the request: the time asked for, the present one, or the one on disk.\<close>

definition utime_field :: "int \<Rightarrow> int \<Rightarrow> int \<times> int \<Rightarrow> int" where
  "utime_field now existing t =
     (if snd t = UTIME_OMIT then existing else if snd t \<noteq> UTIME_NOW then fst t else now)"

definition existing_times :: "kernel \<Rightarrow> int \<Rightarrow> kcall \<Rightarrow> (int \<times> int) sys" where
  "existing_times env now call =
     bindS (syscall env call) (\<lambda>(r, out).
       if sc_error r \<noteq> 0 then give (now, now)
       else case out_stat out of
              None \<Rightarrow> give (now, now)
            | Some k \<Rightarrow> give (to_long (k_atime k), to_long (k_mtime k)))"

definition set_times ::
  "kernel \<Rightarrow> karg \<Rightarrow> int \<Rightarrow> kcall \<Rightarrow> ((int \<times> int) \<times> (int \<times> int)) option \<Rightarrow> unit sys" where
  "set_times env target byHandle stat req =
     bindS (syscall env (Sys ''GETUNIXTIME'' [])) (\<lambda>(now, _).
       case req of
         None \<Rightarrow> plain env (Sys ''UTIME'' [target, L now, L now, L byHandle])
       | Some (a, m) \<Rightarrow>
          bindS (if snd a = UTIME_OMIT \<or> snd m = UTIME_OMIT then existing_times env now stat
                 else give (now, now)) (\<lambda>(existAtime, existMtime).
            plain env (Sys ''UTIME'' [target, L (utime_field now existAtime a),
              L (utime_field now existMtime m), L byHandle])))"

definition sys_Utimensat ::
  "kernel \<Rightarrow> int \<Rightarrow> string option \<Rightarrow> ((int \<times> int) \<times> (int \<times> int)) option \<Rightarrow> int \<Rightarrow> unit sys" where
  "sys_Utimensat env dirfd path req flags =
     (case path of
        None \<Rightarrow> with_handle dirfd (\<lambda>h. set_times env (L h) 1 (Sys ''FSTAT'' [L h]) req)
      | Some _ \<Rightarrow>
         bindS (at_resolve env dirfd path 512) (\<lambda>p. set_times env (S p) 0 (stat_call flags p) req))"

end
