(* ===== verification/Sysdeps_Sockets.thy ===== *)
theory Sysdeps_Sockets
  imports Sysdeps_Files
begin

text \<open>
  The socket operations of \<open>sysdeps.cpp\<close>. Socket handles go through the descriptor table; a
  message is gathered from or scattered to a list of buffers; descriptors passed over a local
  socket become table entries of the receiver. Addresses are the bytes the kernel gets.
  Allocation of the bounce buffers is taken to succeed.
\<close>

section \<open>Constants of the C library's ABI\<close>

definition SOL_SOCKET :: int where "SOL_SOCKET = 1"
definition SO_TYPE :: int where "SO_TYPE = 3"
definition SO_ERROR :: int where "SO_ERROR = 4"
definition SOCK_DGRAM :: int where "SOCK_DGRAM = 2"
definition SCM_RIGHTS :: int where "SCM_RIGHTS = 1"
definition MSG_CTRUNC :: nat where "MSG_CTRUNC = 8"
definition F_GETFL :: int where "F_GETFL = 3"
definition kMaxPassedFds :: nat where "kMaxPassedFds = 253"

definition CMSG_LEN :: "nat \<Rightarrow> nat" where "CMSG_LEN n = 16 + n"
definition CMSG_SPACE :: "nat \<Rightarrow> nat" where "CMSG_SPACE n = 16 + (n + 7) div 8 * 8"

fun message_data :: "kout \<Rightarrow> string" where
  "message_data (KMessage xs hs f) = xs"
| "message_data _ = []"

fun message_longs :: "kout \<Rightarrow> int list" where
  "message_longs (KMessage xs hs f) = hs"
| "message_longs _ = []"

fun message_flags :: "kout \<Rightarrow> nat" where
  "message_flags (KMessage xs hs f) = f"
| "message_flags _ = 0"

section \<open>Sockets as descriptors\<close>

definition sys_Socket :: "kernel \<Rightarrow> int \<Rightarrow> int \<Rightarrow> int \<Rightarrow> nat sys" where
  "sys_Socket env family type protocol =
     bindS (checked env (Sys ''SOCKET'' [L family, L type, L protocol]))
       (\<lambda>(r, _). install_or_close env r)"

definition sys_Accept :: "kernel \<Rightarrow> int \<Rightarrow> nat \<Rightarrow> nat sys" where
  "sys_Accept env fd addr_length =
     with_handle fd (\<lambda>h.
       bindS (checked env (Sys ''ACCEPT'' [L h, L (int addr_length)])) (\<lambda>(r, _). install_or_close env r))"

definition sys_Socketpair :: "kernel \<Rightarrow> int \<Rightarrow> int \<Rightarrow> int \<Rightarrow> (int \<times> int) sys" where
  "sys_Socketpair env domain type_and_flags proto =
     bindS (checked env (Sys ''SOCKETPAIR'' [L domain, L type_and_flags, L proto])) (\<lambda>(_, out).
       let h0 = long_at 0 out; h1 = long_at 1 out
       in bindS (try_register h0) (\<lambda>a.
          bindS (if 0 \<le> a then try_register h1 else give (-1)) (\<lambda>b.
          if a < 0 \<or> b < 0 then
            bindS (on_cond (0 \<le> a) (clear_fd a)) (\<lambda>_.
            bindS (ignore env (Sys ''CLOSE'' [L h0])) (\<lambda>_.
            bindS (ignore env (Sys ''CLOSE'' [L h1])) (\<lambda>_. throw EMFILE)))
          else give (a, b))))"

definition sys_Bind :: "kernel \<Rightarrow> int \<Rightarrow> string \<Rightarrow> unit sys" where
  "sys_Bind env fd addr = with_handle fd (\<lambda>h. plain env (Sys ''BIND'' [L h, S addr]))"

definition sys_Listen :: "kernel \<Rightarrow> int \<Rightarrow> int \<Rightarrow> unit sys" where
  "sys_Listen env fd backlog = with_handle fd (\<lambda>h. plain env (Sys ''LISTEN'' [L h, L backlog]))"

definition sys_Shutdown :: "kernel \<Rightarrow> int \<Rightarrow> int \<Rightarrow> unit sys" where
  "sys_Shutdown env fd how = with_handle fd (\<lambda>h. plain env (Sys ''SHUTDOWN'' [L h, L how]))"

definition sys_GetSockopt :: "kernel \<Rightarrow> int \<Rightarrow> int \<Rightarrow> int \<Rightarrow> nat \<Rightarrow> kout sys" where
  "sys_GetSockopt env fd layer number len =
     with_handle fd (\<lambda>h.
       bindS (checked env (Sys ''GETSOCKOPT'' [L h, L layer, L number, L (int len)])) (\<lambda>(_, out). give out))"

definition sys_SetSockopt :: "kernel \<Rightarrow> int \<Rightarrow> int \<Rightarrow> int \<Rightarrow> string \<Rightarrow> unit sys" where
  "sys_SetSockopt env fd layer number buffer =
     with_handle fd (\<lambda>h. plain env (Sys ''SETSOCKOPT'' [L h, L layer, L number, S buffer]))"

text \<open>The address, and the actual length the kernel stored over the capacity.\<close>

definition socket_name :: "kernel \<Rightarrow> string \<Rightarrow> int \<Rightarrow> nat \<Rightarrow> (string \<times> int) sys" where
  "socket_name env call fd max_addr_length =
     with_handle fd (\<lambda>h.
       bindS (checked env (Sys call [L h, L (int max_addr_length)])) (\<lambda>(_, out).
         give (message_data out,
               (if message_longs out = [] then int max_addr_length else hd (message_longs out)))))"

definition sys_Sockname :: "kernel \<Rightarrow> int \<Rightarrow> nat \<Rightarrow> (string \<times> int) sys" where
  "sys_Sockname env = socket_name env ''GETSOCKNAME''"

definition sys_Peername :: "kernel \<Rightarrow> int \<Rightarrow> nat \<Rightarrow> (string \<times> int) sys" where
  "sys_Peername env = socket_name env ''GETPEERNAME''"

section \<open>Connecting\<close>

definition POLLOUT :: nat where "POLLOUT = 4"

definition poll_out :: "int \<Rightarrow> kcall" where
  "poll_out h = Sys ''POLL'' [Polls [\<lparr>p_fd = h, p_events = POLLOUT, p_revents = 0\<rparr>], L (-1)]"

definition revents_of :: "kout \<Rightarrow> nat" where
  "revents_of out = (case out_polls out of [] \<Rightarrow> 0 | r # _ \<Rightarrow> r)"

text \<open>\<open>POLLERR | POLLHUP\<close> are the bits 3 and 4, \<open>POLLOUT\<close> is bit 2.\<close>

definition connect_failed :: "kernel \<Rightarrow> int \<Rightarrow> unit sys" where
  "connect_failed env h =
     bindS (syscall env (Sys ''GETSOCKOPT'' [L h, L SOL_SOCKET, L SO_ERROR, L 4])) (\<lambda>(g, out).
       if sc_error g = 0 \<and> to_int (long_at 0 out) \<noteq> 0 then throw (to_int (long_at 0 out))
       else throw ECONNREFUSED)"

partial_function (option) connect_wait :: "kernel \<Rightarrow> int \<Rightarrow> process \<Rightarrow> ((int + unit) \<times> process) option"
where
  "connect_wait env h s =
     (let (r, out) = env (trace s) (poll_out h);
          s = s\<lparr>trace := trace s @ [poll_out h]\<rparr>;
          e = sc_error r; revents = revents_of out
      in if e \<noteq> 0 then (if e = EINTR then connect_wait env h s else Some (Inl e, s))
         else if bit revents 3 \<or> bit revents 4 then Some (connect_failed env h s)
         else if bit revents 2 then Some (Inr (), s)
         else connect_wait env h s)"

text \<open>\<open>O_NONBLOCK\<close> is bit 11 of the flags.\<close>

definition sys_Connect :: "kernel \<Rightarrow> int \<Rightarrow> string \<Rightarrow> process \<Rightarrow> ((int + unit) \<times> process) option" where
  "sys_Connect env fd addr s =
     (let h = handle_for_fd (fdTable s) fd
      in if h < 0 then Some (Inl EBADF, s)
         else
           (case syscall env (Sys ''CONNECT'' [L h, S addr]) s of
              (Inr (r, _), s) \<Rightarrow>
                if sc_error r \<noteq> EAGAIN then
                  Some (if sc_error r \<noteq> 0 then Inl (sc_error r) else Inr (), s)
                else
                  (case syscall env (Sys ''FCNTL'' [L h, L F_GETFL, L 0]) s of
                     (Inr (flags, _), s) \<Rightarrow>
                       if sc_error flags = 0 \<and> bit flags 11 then Some (Inl EINPROGRESS, s)
                       else connect_wait env h s
                   | (Inl e, s) \<Rightarrow> Some (Inl e, s))
            | (Inl e, s) \<Rightarrow> Some (Inl e, s)))"

section \<open>Sending\<close>

definition socket_is_datagram :: "kernel \<Rightarrow> int \<Rightarrow> bool sys" where
  "socket_is_datagram env h =
     bindS (syscall env (Sys ''GETSOCKOPT'' [L h, L SOL_SOCKET, L SO_TYPE, L 4]))
       (\<lambda>(g, out). give (sc_error g = 0 \<and> to_int (long_at 0 out) = SOCK_DGRAM))"

definition send_call :: "int \<Rightarrow> string \<Rightarrow> int \<Rightarrow> string option \<Rightarrow> kcall" where
  "send_call h buffer flags dest =
     (case dest of
        Some addr \<Rightarrow>
          if addr \<noteq> [] then Sys ''SENDTO'' [L h, S buffer, L flags, S addr]
          else Sys ''SEND'' [L h, S buffer, L flags]
      | None \<Rightarrow> Sys ''SEND'' [L h, S buffer, L flags])"

definition socket_send_one :: "kernel \<Rightarrow> int \<Rightarrow> string \<Rightarrow> int \<Rightarrow> string option \<Rightarrow> int sys" where
  "socket_send_one env h buffer flags dest =
     bindS (checked env (send_call h buffer flags dest)) (\<lambda>(r, _). give r)"

definition sys_Sendto :: "kernel \<Rightarrow> int \<Rightarrow> string \<Rightarrow> int \<Rightarrow> string option \<Rightarrow> int sys" where
  "sys_Sendto env fd buffer flags dest =
     with_handle fd (\<lambda>h. socket_send_one env h buffer flags dest)"

text \<open>A control message: its level, its type and the descriptors it carries.\<close>

record cmsg =
  cmsg_level :: int
  cmsg_type :: int
  cmsg_fds :: "int list"

record send_msg =
  msg_name :: "string option"
  msg_iov :: "string list"
  msg_control :: "cmsg list"

fun pass_fds :: "int list \<Rightarrow> int list \<Rightarrow> int list \<Rightarrow> int + int list" where
  "pass_fds t [] handles = Inr handles"
| "pass_fds t (fd # fds) handles =
     (if length handles = kMaxPassedFds then Inl EINVAL
      else if fd < 0 \<or> int kMaxFd \<le> fd \<or> (t ! nat fd = 0 \<and> 2 < fd) then Inl EBADF
      else pass_fds t fds (handles @ [handle_for_fd t fd]))"

definition passed_fds :: "cmsg list \<Rightarrow> int list" where
  "passed_fds cs =
     concat (map cmsg_fds (filter (\<lambda>c. cmsg_level c = SOL_SOCKET \<and> cmsg_type c = SCM_RIGHTS) cs))"

text \<open>\<open>unix_msg_send\<close>: \<open>None\<close> when the socket is not a local one.\<close>

definition unix_msg_send :: "kernel \<Rightarrow> int \<Rightarrow> send_msg \<Rightarrow> int \<Rightarrow> int option sys" where
  "unix_msg_send env h m flags =
     bindS (gets (\<lambda>s. pass_fds (fdTable s) (passed_fds (msg_control m)) [])) (\<lambda>p.
       case p of
         Inl e \<Rightarrow> throw e
       | Inr handles \<Rightarrow>
          bindS (syscall env (Sys ''SOCKET_SENDMSG'' [L h, S (concat (msg_iov m)), Ls handles, L flags]))
            (\<lambda>(r, _).
              if sc_error r = EOPNOTSUPP then (if handles \<noteq> [] then throw EINVAL else give None)
              else if sc_error r \<noteq> 0 then throw (sc_error r)
              else give (Some r)))"

text \<open>The loop over the buffers of a stream: it stops at an error or a short write.\<close>

fun send_stream :: "kernel \<Rightarrow> int \<Rightarrow> string list \<Rightarrow> int \<Rightarrow> int \<Rightarrow> int sys" where
  "send_stream env h [] flags sofar = give sofar"
| "send_stream env h (x # xs) flags sofar =
     (if x = [] then send_stream env h xs flags sofar
      else bindS (syscall env (Sys ''SEND'' [L h, S x, L flags])) (\<lambda>(r, _).
        if sc_error r \<noteq> 0 then (if 0 < sofar then give sofar else throw (sc_error r))
        else if r < int (length x) then give (sofar + r)
        else send_stream env h xs flags (sofar + r)))"

definition sys_MsgSend :: "kernel \<Rightarrow> int \<Rightarrow> send_msg \<Rightarrow> int \<Rightarrow> int sys" where
  "sys_MsgSend env fd m flags =
     with_handle fd (\<lambda>h.
       bindS (unix_msg_send env h m flags) (\<lambda>u.
         case u of
           Some r \<Rightarrow> give r
         | None \<Rightarrow>
            bindS (socket_is_datagram env h) (\<lambda>datagram.
              if datagram then socket_send_one env h (concat (msg_iov m)) flags (msg_name m)
              else send_stream env h (msg_iov m) flags 0)))"

section \<open>Receiving\<close>

text \<open>
  \<open>socket_recv_one\<close>: the bytes, and for a caller that asked with a capacity, the address (cut
  off at the capacity) and its full length, a \<open>sockaddr_in\<close> of 16 bytes.
\<close>

definition socket_recv_one ::
  "kernel \<Rightarrow> int \<Rightarrow> nat \<Rightarrow> int \<Rightarrow> nat option \<Rightarrow> (int \<times> string \<times> (int list \<times> nat) option) sys" where
  "socket_recv_one env h len flags from_length =
     (case from_length of
        None \<Rightarrow>
          bindS (checked env (Sys ''RECV'' [L h, L (int len), L flags]))
            (\<lambda>(r, out). give (r, message_data out, None))
      | Some capacity \<Rightarrow>
          bindS (checked env (Sys ''RECVFROM'' [L h, L (int len), L flags])) (\<lambda>(r, out).
            give (r, message_data out,
                  Some (take (min capacity 16) (message_longs out @ replicate 16 0), 16))))"

definition sys_Recvfrom ::
  "kernel \<Rightarrow> int \<Rightarrow> nat \<Rightarrow> int \<Rightarrow> nat option \<Rightarrow> (int \<times> string \<times> (int list \<times> nat) option) sys" where
  "sys_Recvfrom env fd len flags addr_length =
     with_handle fd (\<lambda>h. socket_recv_one env h len flags addr_length)"

text \<open>The copy loop from the bounce buffer into the buffers of a message.\<close>

fun scatter :: "nat list \<Rightarrow> string \<Rightarrow> string list" where
  "scatter [] data = []"
| "scatter (n # ns) data = take n data # scatter ns (drop n data)"

record recv_msg =
  rm_length :: int
  rm_data :: "string list"
  rm_fds :: "int list"
  rm_flags :: nat
  rm_controllen :: nat
  rm_name :: "(int list \<times> nat) option"

text \<open>
  Received handles become descriptors; one that finds the table full is closed, and the message
  is marked as truncated.
\<close>

fun register_received :: "kernel \<Rightarrow> int list \<Rightarrow> int list \<Rightarrow> nat \<Rightarrow> (int list \<times> nat) sys" where
  "register_received env [] fds flags = give (fds, flags)"
| "register_received env (h # hs) fds flags =
     bindS (try_register h) (\<lambda>fd.
       if fd < 0 then
         bindS (ignore env (Sys ''CLOSE'' [L h]))
           (\<lambda>_. register_received env hs fds (Bit_Operations.or flags MSG_CTRUNC))
       else register_received env hs (fds @ [fd]) flags)"

definition control_capacity :: "nat option \<Rightarrow> nat" where
  "control_capacity control =
     (case control of
        None \<Rightarrow> 0
      | Some len \<Rightarrow> if CMSG_LEN 4 \<le> len then min ((len - CMSG_LEN 0) div 4) kMaxPassedFds else 0)"

definition unix_msg_recv ::
  "kernel \<Rightarrow> int \<Rightarrow> nat list \<Rightarrow> nat option \<Rightarrow> int \<Rightarrow> recv_msg option sys" where
  "unix_msg_recv env h iov control flags =
     bindS (syscall env (Sys ''SOCKET_RECVMSG''
              [L h, L (int (sum_list iov)), L (int (control_capacity control)), L flags])) (\<lambda>(r, out).
       if sc_error r = EOPNOTSUPP then give None
       else if sc_error r \<noteq> 0 then throw (sc_error r)
       else bindS (register_received env (message_longs out) [] (message_flags out)) (\<lambda>(fds, mflags).
         give (Some \<lparr>rm_length = r, rm_data = scatter iov (take (nat r) (message_data out)),
           rm_fds = fds, rm_flags = mflags,
           rm_controllen =
             (if fds = [] then 0
              else min (CMSG_SPACE (4 * length fds)) (case control of None \<Rightarrow> 0 | Some len \<Rightarrow> len)),
           rm_name = None\<rparr>)))"

fun recv_stream :: "kernel \<Rightarrow> int \<Rightarrow> nat list \<Rightarrow> int \<Rightarrow> int \<Rightarrow> string list \<Rightarrow> (int \<times> string list) sys" where
  "recv_stream env h [] flags sofar got = give (sofar, got)"
| "recv_stream env h (n # ns) flags sofar got =
     (if n = 0 then recv_stream env h ns flags sofar (got @ [[]])
      else bindS (syscall env (Sys ''RECV'' [L h, L (int n), L flags])) (\<lambda>(r, out).
        if sc_error r \<noteq> 0 then (if 0 < sofar then give (sofar, got) else throw (sc_error r))
        else let got = got @ [take (nat r) (message_data out)]
             in if r < int n then give (sofar + r, got)
                else recv_stream env h ns flags (sofar + r) got))"

definition sys_MsgRecv ::
  "kernel \<Rightarrow> int \<Rightarrow> nat list \<Rightarrow> nat option \<Rightarrow> nat option \<Rightarrow> int \<Rightarrow> recv_msg sys" where
  "sys_MsgRecv env fd iov control name flags =
     with_handle fd (\<lambda>h.
       bindS (unix_msg_recv env h iov control flags) (\<lambda>u.
         case u of
           Some m \<Rightarrow> give m
         | None \<Rightarrow>
            bindS (socket_is_datagram env h) (\<lambda>datagram.
              if datagram then
                bindS (socket_recv_one env h (sum_list iov) flags name) (\<lambda>(r, data, from).
                  give \<lparr>rm_length = r, rm_data = scatter iov (take (nat r) data), rm_fds = [],
                        rm_flags = 0, rm_controllen = 0, rm_name = from\<rparr>)
              else
                bindS (recv_stream env h iov flags 0 []) (\<lambda>(total, got).
                  give \<lparr>rm_length = total, rm_data = got, rm_fds = [], rm_flags = 0,
                        rm_controllen = 0, rm_name = None\<rparr>))))"

end
