(* ===== verification/Sysdeps_Ioctl.thy ===== *)
theory Sysdeps_Ioctl
  imports Sysdeps_Files
begin

text \<open>
  \<open>Ioctl\<close> in \<open>sysdeps.cpp\<close>: some requests carry descriptors inside their structure. The kernel
  reads and writes the slot of a file handle there, so a descriptor is replaced by its slot for
  the call, and a slot the kernel returns becomes a new descriptor. A structure is the list of
  its bytes.
\<close>

section \<open>Fields\<close>

record fd_field =
  f_type :: nat
  f_nr :: nat
  f_offset :: nat
  f_out :: bool

definition kFdFields :: "fd_field list" where
  "kFdFields =
     [\<lparr>f_type = 100, f_nr = 0x2d, f_offset = 8, f_out = True\<rparr>,
      \<lparr>f_type = 100, f_nr = 0x2e, f_offset = 8, f_out = False\<rparr>,
      \<lparr>f_type = 100, f_nr = 0xC1, f_offset = 8, f_out = True\<rparr>,
      \<lparr>f_type = 100, f_nr = 0xC2, f_offset = 8, f_out = False\<rparr>,
      \<lparr>f_type = 62, f_nr = 3, f_offset = 32, f_out = False\<rparr>,
      \<lparr>f_type = 62, f_nr = 3, f_offset = 36, f_out = True\<rparr>,
      \<lparr>f_type = 98, f_nr = 2, f_offset = 4, f_out = True\<rparr>,
      \<lparr>f_type = 98, f_nr = 3, f_offset = 4, f_out = False\<rparr>]"

definition kFileHandleType :: int where "kFileHandleType = 281474976710656"
definition kExecbuffer2Nr :: nat where "kExecbuffer2Nr = 0x69"

definition slot_for_fd :: "int list \<Rightarrow> int \<Rightarrow> int" where
  "slot_for_fd t fd =
     (let handle = handle_for_fd t fd
      in if handle \<le> 0 \<or> handle div 281474976710656 \<noteq> 1 then -1 else to_int (handle mod 4294967296))"

text \<open>\<open>kFileHandleType | slot\<close>, for a slot that is not negative.\<close>

definition fd_for_slot :: "kernel \<Rightarrow> int \<Rightarrow> int sys" where
  "fd_for_slot env slot =
     (if slot < 0 then give (-1)
      else bindS (try_register (kFileHandleType + slot)) (\<lambda>fd.
        bindS (on_cond (fd < 0) (ignore env (Sys ''CLOSE'' [L (kFileHandleType + slot)])))
          (\<lambda>_. give fd)))"

text \<open>\<open>memcpy\<close> of a 32-bit or 64-bit value from and to the structure.\<close>

definition get_bytes :: "nat \<Rightarrow> nat \<Rightarrow> nat list \<Rightarrow> nat" where
  "get_bytes w off bs = of_le_bytes (take w (drop off bs))"

definition put_bytes :: "nat \<Rightarrow> nat \<Rightarrow> nat \<Rightarrow> nat list \<Rightarrow> nat list" where
  "put_bytes w off v bs = take off bs @ le_bytes w v @ drop (off + w) bs"

definition get_fd :: "nat \<Rightarrow> nat list \<Rightarrow> int" where
  "get_fd off bs = to_int (int (get_bytes 4 off bs))"

definition put_fd :: "nat \<Rightarrow> int \<Rightarrow> nat list \<Rightarrow> nat list" where
  "put_fd off fd bs = put_bytes 4 off (nat (fd mod 4294967296)) bs"

section \<open>Before the call\<close>

definition fields_of :: "nat \<Rightarrow> nat \<Rightarrow> fd_field list" where
  "fields_of type nr = take 2 (filter (\<lambda>f. f_type f = type \<and> f_nr f = nr) kFdFields)"

definition slot_in :: "int list \<Rightarrow> fd_field \<Rightarrow> nat list \<Rightarrow> nat list" where
  "slot_in t f bs =
     (if f_out f then bs else put_fd (f_offset f) (slot_for_fd t (get_fd (f_offset f) bs)) bs)"

text \<open>
  The execbuffer request: with \<open>FENCE_IN\<close> (bit 16 of the flags at byte 40), the low half of the
  64 bits at byte 56 is a descriptor to translate.
\<close>

definition fence_in :: "int list \<Rightarrow> nat list \<Rightarrow> nat list" where
  "fence_in t bs =
     (let rsvd2 = get_bytes 8 56 bs
      in if bit (get_bytes 8 40 bs) 16 then
           put_bytes 8 56 (rsvd2 div 4294967296 * 4294967296 +
             nat (slot_for_fd t (to_int (int (rsvd2 mod 4294967296))) mod 4294967296)) bs
         else bs)"

section \<open>After the call\<close>

text \<open>
  The fields with the values they had before the call: a descriptor that was read is put back, a
  slot that was written is replaced by a new descriptor. \<open>Inl\<close> when the table was full.
\<close>

fun restore_fields ::
  "kernel \<Rightarrow> bool \<Rightarrow> (fd_field \<times> int) list \<Rightarrow> nat list \<Rightarrow> (nat list + nat list) sys" where
  "restore_fields env failed [] bs = give (Inr bs)"
| "restore_fields env failed ((f, v) # fs) bs =
     (if \<not> f_out f then restore_fields env failed fs (put_fd (f_offset f) v bs)
      else if failed then restore_fields env failed fs bs
      else bindS (fd_for_slot env (get_fd (f_offset f) bs)) (\<lambda>fd.
        let bs = put_fd (f_offset f) fd bs
        in if fd < 0 then give (Inl bs) else restore_fields env failed fs bs))"

definition fence_out :: "kernel \<Rightarrow> bool \<Rightarrow> nat \<Rightarrow> nat \<Rightarrow> nat list \<Rightarrow> (nat list + nat list) sys" where
  "fence_out env failed execFlags rsvd2 bs =
     (let after = get_bytes 8 56 bs div 4294967296 * 4294967296 + rsvd2 mod 4294967296
      in if \<not> failed \<and> bit execFlags 17 then
           bindS (fd_for_slot env (to_int (int (after div 4294967296)))) (\<lambda>fd.
             let after = after mod 4294967296 + nat (fd mod 4294967296) * 4294967296;
                 bs = put_bytes 8 56 after bs
             in give (if fd < 0 then Inl bs else Inr bs))
         else give (Inr (put_bytes 8 56 after bs)))"

section \<open>The operation\<close>

fun out_mem :: "nat list \<Rightarrow> kout \<Rightarrow> nat list" where
  "out_mem bs (KMem xs) = xs"
| "out_mem bs _ = bs"

text \<open>The result or errno, with the bytes of the structure afterwards.\<close>

definition sys_Ioctl :: "kernel \<Rightarrow> int \<Rightarrow> nat \<Rightarrow> nat list option \<Rightarrow> ((int + int) \<times> nat list) sys" where
  "sys_Ioctl env fd request arg =
     with_handle fd (\<lambda>handle.
       let type = request div 256 mod 256; nr = request mod 256
       in case arg of
            None \<Rightarrow>
              bindS (syscall env (Sys ''IOCTL'' [L handle, L (int request), Null])) (\<lambda>(r, _).
                give (if sc_error r \<noteq> 0 then Inl (sc_error r) else Inr (to_int r), []))
          | Some bs \<Rightarrow>
              (let fields = map (\<lambda>f. (f, get_fd (f_offset f) bs)) (fields_of type nr);
                   exec = (type = 100 \<and> nr = kExecbuffer2Nr);
                   execFlags = (if exec then get_bytes 8 40 bs else 0);
                   rsvd2 = (if exec then get_bytes 8 56 bs else 0)
               in bindS (gets (\<lambda>s. fold (slot_in (fdTable s)) (map fst fields) bs)) (\<lambda>b1.
                  bindS (gets (\<lambda>s. if exec then fence_in (fdTable s) b1 else b1)) (\<lambda>b2.
                  bindS (syscall env (Sys ''IOCTL'' [L handle, L (int request), M b2])) (\<lambda>(r, out).
                  let failed = (sc_error r \<noteq> 0) in
                  bindS (restore_fields env failed fields (out_mem b2 out)) (\<lambda>restored.
                  case restored of
                    Inl b3 \<Rightarrow> give (Inl EMFILE, b3)
                  | Inr b3 \<Rightarrow>
                     bindS (if exec then fence_out env failed execFlags rsvd2 b3 else give (Inr b3))
                       (\<lambda>fenced.
                         case fenced of
                           Inl b4 \<Rightarrow> give (Inl EMFILE, b4)
                         | Inr b4 \<Rightarrow>
                            give (if failed then Inl (sc_error r) else Inr (to_int r), b4))))))))"

definition TCGETS :: nat where "TCGETS = 0x5401"
definition TCSETS :: nat where "TCSETS = 0x5402"
definition TCSETSW :: nat where "TCSETSW = 0x5403"
definition TCSETSF :: nat where "TCSETSF = 0x5404"

definition sys_Tcgetattr :: "kernel \<Rightarrow> int \<Rightarrow> nat list \<Rightarrow> ((int + int) \<times> nat list) sys" where
  "sys_Tcgetattr env fd attr = sys_Ioctl env fd TCGETS (Some attr)"

text \<open>\<open>TCSADRAIN\<close> is 1 and \<open>TCSAFLUSH\<close> is 2.\<close>

definition sys_Tcsetattr :: "kernel \<Rightarrow> int \<Rightarrow> int \<Rightarrow> nat list \<Rightarrow> ((int + int) \<times> nat list) sys" where
  "sys_Tcsetattr env fd optional_action attr =
     sys_Ioctl env fd
       (if optional_action = 1 then TCSETSW else if optional_action = 2 then TCSETSF else TCSETS)
       (Some attr)"

section \<open>Slots and descriptors\<close>

lemma to_int_id: "- 2147483648 \<le> n \<Longrightarrow> n < 2147483648 \<Longrightarrow> to_int n = n"
  by (simp add: to_int_def)

text \<open>
  A descriptor made from a slot of the kernel leads back to it: when the table has room,
  \<open>fd_for_slot\<close> takes the lowest free descriptor, \<open>slot_for_fd\<close> of it is the slot, and every other
  descriptor keeps its handle; when it is full the handle is closed and -1 returned.
\<close>
theorem fd_for_slot_roundtrip:
  assumes "fds_ok s" and "0 \<le> slot" and "slot < 2147483648"
  shows "\<exists>fd s'. fd_for_slot env slot s = (Inr fd, s') \<and>
    (if \<exists>d. 3 \<le> d \<and> d < kMaxFd \<and> open_fd (fdTable s) d = None
     then 3 \<le> fd \<and> slot_for_fd (fdTable s') fd = slot \<and> open_fd (fdTable s) (nat fd) = None \<and>
       (\<forall>e. e \<noteq> nat fd \<longrightarrow> open_fd (fdTable s') e = open_fd (fdTable s) e) \<and> trace s' = trace s
     else fd = -1 \<and> fdTable s' = fdTable s \<and>
       trace s' = trace s @ [Sys ''CLOSE'' [L (kFileHandleType + slot)]])"
proof -
  let ?h = "kFileHandleType + slot"
  have h: "?h \<noteq> 0" using assms(2) by (simp add: kFileHandleType_def)
  have wf: "wf_fds (fdTable s)" using assms(1) by (simp add: fds_ok_def)
  show ?thesis
  proof (cases "register_fd (fdTable s) ?h")
    case None
    then have "\<not> (\<exists>d. 3 \<le> d \<and> d < kMaxFd \<and> open_fd (fdTable s) d = None)"
      using fds.install_none [OF wf h] by blast
    then show ?thesis
      using None assms(2) by (simp add: fd_for_slot_def try_register_def on_cond_def sys_simps)
  next
    case (Some r)
    then obtain d t where d: "register_fd (fdTable s) ?h = Some (d, t)" by (cases r) auto
    note i = fds.install_some [OF wf h d]
    have "t ! d = ?h" using i by (auto simp: open_fd_def fun_eq_iff dest!: spec [of _ d] split: if_splits)
    then have "handle_for_fd t (int d) = ?h" using i by (simp add: handle_for_fd_def)
    moreover have "?h div 281474976710656 = 1"
      using assms(2,3) by (simp add: kFileHandleType_def)
    moreover have "?h mod 4294967296 = slot"
      using assms(2,3) unfolding kFileHandleType_def by (subst mod_add_left_eq [symmetric]) simp
    ultimately have "slot_for_fd t (int d) = slot"
      using assms(2,3) by (simp add: slot_for_fd_def to_int_id kFileHandleType_def)
    moreover have "fd_for_slot env slot s = (Inr (int d), s\<lparr>fdTable := t\<rparr>)"
      using d assms(2) by (simp add: fd_for_slot_def try_register_def on_cond_def sys_simps)
    ultimately show ?thesis using i by auto
  qed
qed

theorem fd_for_slot_roundtrip_witness:
  "\<exists>fd s'. fd_for_slot (\<lambda>log c. (0, KNone)) 5 initial_process = (Inr fd, s') \<and> 3 \<le> fd \<and>
     slot_for_fd (fdTable s') fd = 5"
proof -
  have "fds_ok initial_process"
    by (simp add: fds_ok_def wf_fds_def initial_process_def kMaxFd_def)
  moreover have "\<exists>d. 3 \<le> d \<and> d < kMaxFd \<and> open_fd (fdTable initial_process) d = None"
    by (rule exI [of _ 3]) (simp add: open_fd_def initial_process_def kMaxFd_def)
  ultimately show ?thesis
    using fd_for_slot_roundtrip [of initial_process 5 "\<lambda>log c. (0, KNone)"]
    by (simp only: if_True zero_le_numeral numeral_less_iff) (simp, blast)
qed

end
