(* ===== verification/Sysdeps_Descriptors.thy ===== *)
theory Sysdeps_Descriptors
  imports Sysdeps_Attributes Dir_Streams Sysdeps_Sockets Sysdeps_Ioctl "HOL-Library.Multiset"
begin

text \<open>
  What a program can rely on of its descriptors, across the operations of \<open>sysdeps.cpp\<close>: new
  handles are kept or closed, closing and opening reuse the lowest descriptor, passed
  descriptors do not leak, the table owns the handles the kernel holds open, and positioned
  reads leave the offset alone; and where they break their contract.
\<close>

section \<open>New handles\<close>

text \<open>
  An opened file is not lost: when the kernel opened it, \<open>Open\<close> returns the lowest free
  descriptor from 3 up, under which exactly this handle is now found and no other entry changed;
  or the table was full, and then the handle was closed, the table is unchanged and the error is
  \<open>EMFILE\<close>. An error of the kernel is passed on and changes nothing.
\<close>
theorem open_keeps_or_closes:
  assumes "fds_ok s" and "is_long h" and "h \<noteq> 0"
    and "env (trace s) (Sys ''OPEN'' [S path, L flags, L mode]) = (h, out)"
  shows "case sys_Open env path flags mode s of
      (Inr fd, s') \<Rightarrow> 3 \<le> fd \<and> fd < kMaxFd \<and> open_fd (fdTable s) fd = None \<and>
        (\<forall>e. 3 \<le> e \<longrightarrow> e < fd \<longrightarrow> open_fd (fdTable s) e \<noteq> None) \<and>
        open_fd (fdTable s') = (open_fd (fdTable s))(fd \<mapsto> h)
    | (Inl e, s') \<Rightarrow> fdTable s' = fdTable s \<and>
        (if - 4096 < h \<and> h < 0 then e = - h \<and> trace s' = trace s @ [Sys ''OPEN'' [S path, L flags, L mode]]
         else e = EMFILE \<and> last (trace s') = Sys ''CLOSE'' [L h] \<and>
           (\<forall>d. 3 \<le> d \<longrightarrow> d < kMaxFd \<longrightarrow> open_fd (fdTable s) d \<noteq> None))"
proof -
  let ?s = "s\<lparr>trace := trace s @ [Sys ''OPEN'' [S path, L flags, L mode]]\<rparr>"
  have wf: "wf_fds (fdTable s)" using assms(1) by (simp add: fds_ok_def)
  show ?thesis
  proof (cases "- 4096 < h \<and> h < 0")
    case True
    then show ?thesis
      using assms(4) by (simp add: sys_Open_def sys_simps sc_error_long [OF assms(2)])
  next
    case False
    then have eq: "sys_Open env path flags mode s = install_or_close env h ?s"
      using assms(4) by (auto simp add: sys_Open_def sys_simps sc_error_long [OF assms(2)])
    show ?thesis
    proof (cases "register_fd (fdTable s) h")
      case None
      then show ?thesis
        using False fds.install_none [OF wf assms(3)]
        by (auto simp: eq install_or_close_def sys_simps)
    next
      case (Some r)
      then obtain d t where d: "register_fd (fdTable s) h = Some (d, t)" by (cases r) auto
      show ?thesis
        using fds.install_some [OF wf assms(3) d] fds.lowest [OF wf assms(3) d] d
        by (auto simp: eq install_or_close_def sys_simps)
    qed
  qed
qed

definition file_env :: kernel where
  "file_env log c = (if sys_name c = ''OPEN'' then 281474976710660 else 0, KNone)"

lemma initial_ok: "fds_ok initial_process"
  by (simp add: fds_ok_def wf_fds_def initial_process_def kMaxFd_def)

theorem open_keeps_or_closes_witness:
  "fst (sys_Open file_env ''/etc/passwd'' 0 0 initial_process) \<noteq> Inr 300 \<and>
   (case sys_Open file_env ''/etc/passwd'' 0 0 initial_process of
      (Inr fd, s') \<Rightarrow> 3 \<le> fd \<and> open_fd (fdTable s') fd = Some 281474976710660
    | (Inl e, s') \<Rightarrow> e = EMFILE)"
  using open_keeps_or_closes [OF initial_ok, of 281474976710660 file_env "''/etc/passwd''" 0 0 KNone]
  by (auto simp: file_env_def is_long_def kMaxFd_def split: prod.splits sum.splits)

lemma release_snapshot:
  "\<exists>u. bindS (case found of None \<Rightarrow> give () | Some i \<Rightarrow> update_stream i f) g s = g () u \<and>
     fdTable u = fdTable s \<and> trace u = trace s"
proof (cases found)
  case None
  then show ?thesis by (intro exI [of _ s]) (simp add: sys_simps)
next
  case (Some i)
  then show ?thesis
    by (intro exI [of _ "s\<lparr>dirStreams := (dirStreams s)[i := f (dirStreams s ! i)]\<rparr>"])
       (simp add: sys_simps update_stream_def)
qed

lemma close_success:
  assumes "fd < kDirHandleBase" and "3 \<le> fd" and "0 \<le> handle_for_fd (fdTable s) fd"
    and "fst (env (trace s) (Sys ''CLOSE'' [L (handle_for_fd (fdTable s) fd)])) = 0"
  shows "\<exists>u. sys_Close env fd s = (Inr (), u) \<and> fdTable u = (fdTable s)[nat fd := 0] \<and>
    trace u = trace s @ [Sys ''CLOSE'' [L (handle_for_fd (fdTable s) fd)]]"
proof -
  let ?g = "\<lambda>_::unit. with_handle fd (\<lambda>handle.
          if fd < 3 then give ()
          else bindS (checked env (Sys ''CLOSE'' [L handle])) (\<lambda>_. clear_fd fd))"
  obtain v where v: "sys_Close env fd s = ?g () v" "fdTable v = fdTable s" "trace v = trace s"
    using release_snapshot [where found = "find_dir_stream_by_fd (dirStreams s) fd" and g = ?g and s = s
        and f = "\<lambda>d. d\<lparr>inUse := False, loaded := False, fromFd := False\<rparr>"] assms(1)
    unfolding sys_Close_def by (auto simp: bindS_apply)
  obtain out where "env (trace s) (Sys ''CLOSE'' [L (handle_for_fd (fdTable s) fd)]) = (0, out)"
    using assms(4) by (metis prod.collapse)
  then have "?g () v = (Inr (), v\<lparr>trace := trace v @ [Sys ''CLOSE'' [L (handle_for_fd (fdTable s) fd)]],
      fdTable := (fdTable s)[nat fd := 0]\<rparr>)"
    using assms(2,3) v(2,3)
    by (simp add: with_handle_def sys_simps clear_fd_def sc_error_def)
  then show ?thesis using v by simp
qed

text \<open>
  The idiom of shell redirection: when every descriptor below \<open>fd\<close> is in use, closing \<open>fd\<close> and
  opening a file puts the file at \<open>fd\<close>.
\<close>
theorem close_then_open_reuses:
  assumes "fds_ok s" and "3 \<le> fd" and "fd < kMaxFd" and "0 \<le> handle_for_fd (fdTable s) (int fd)"
    and "\<forall>e. 3 \<le> e \<longrightarrow> e < fd \<longrightarrow> open_fd (fdTable s) e \<noteq> None"
    and "\<And>log h. fst (env log (Sys ''CLOSE'' [L h])) = 0"
    and "\<And>log. fst (env log (Sys ''OPEN'' [S path, L flags, L mode])) = h" and "0 < h" and "is_long h"
  shows "\<exists>s'. bindS (sys_Close env (int fd)) (\<lambda>_. sys_Open env path flags mode) s = (Inr fd, s') \<and>
    open_fd (fdTable s') = (open_fd (fdTable s))(fd \<mapsto> h)"
proof -
  have wf: "wf_fds (fdTable s)" using assms(1) by (simp add: fds_ok_def)
  have low: "int fd < kDirHandleBase" using assms(3) by (simp add: kDirHandleBase_def kMaxFd_def)
  obtain u where close: "sys_Close env (int fd) s = (Inr (), u)" "fdTable u = free_fd (fdTable s) fd"
    using close_success [of "int fd" s env] low assms(2,4,6) by (auto simp: free_fd_def)
  obtain t where t: "register_fd (free_fd (fdTable s) fd) h = Some (fd, t)"
    using fds.released_is_next [OF wf _ assms(2,3,5), of h] assms(8) by auto
  have "wf_fds (free_fd (fdTable s) fd)" "open_fd (free_fd (fdTable s) fd) = (open_fd (fdTable s))(fd := None)"
    using fds.release_slot [OF wf assms(2,3)] by auto
  then have "open_fd t = (open_fd (fdTable s))(fd \<mapsto> h)"
    using fds.install_some [OF _ _ t] assms(8) by simp
  moreover obtain out where "env (trace u) (Sys ''OPEN'' [S path, L flags, L mode]) = (h, out)"
    using assms(7) [of "trace u"] by (metis prod.collapse)
  then have "sys_Open env path flags mode u = (Inr fd, u\<lparr>trace := trace u @ [Sys ''OPEN'' [S path, L flags, L mode]],
      fdTable := t\<rparr>)"
    using t close(2) assms(8,9)
    by (simp add: sys_Open_def sys_simps sc_error_long install_or_close_def)
  ultimately show ?thesis
    using close(1) by (simp add: bindS_def)
qed

definition ok_env :: kernel where
  "ok_env log c = (if sys_name c = ''OPEN'' then 281474976710660 else 0, KNone)"

theorem close_then_open_reuses_witness:
  "\<exists>s'. bindS (sys_Close ok_env 3) (\<lambda>_. sys_Open ok_env ''/dev/null'' 0 0)
       (initial_process\<lparr>fdTable := [0, 1, 2, 9] @ replicate 252 0\<rparr>) = (Inr 3, s') \<and>
     open_fd (fdTable s') 3 = Some 281474976710660"
proof -
  let ?s = "initial_process\<lparr>fdTable := [0, 1, 2, 9] @ replicate 252 0\<rparr>"
  have "fds_ok ?s" by (simp add: fds_ok_def wf_fds_def kMaxFd_def)
  moreover have "0 \<le> handle_for_fd (fdTable ?s) (int 3)"
    by (simp add: handle_for_fd_def kMaxFd_def)
  ultimately show ?thesis
    using close_then_open_reuses [of ?s 3 ok_env "''/dev/null''" 0 0 281474976710660]
    by (force simp: ok_env_def kMaxFd_def is_long_def)
qed

section \<open>Handles that come in pairs or lists\<close>

lemma try_register_cases:
  assumes "fds_ok s" and "h \<noteq> 0"
  obtains (full) "try_register h s = (Inr (-1), s)" "register_fd (fdTable s) h = None"
    | (taken) d t where "try_register h s = (Inr (int d), s\<lparr>fdTable := t\<rparr>)" "3 \<le> d" "d < kMaxFd"
        "open_fd (fdTable s) d = None" "open_fd t = (open_fd (fdTable s))(d \<mapsto> h)" "wf_fds t"
proof (cases "register_fd (fdTable s) h")
  case None
  then show thesis by (intro full) (simp_all add: try_register_def sys_simps)
next
  case (Some r)
  then obtain d t where d: "register_fd (fdTable s) h = Some (d, t)" by (cases r) auto
  have wf: "wf_fds (fdTable s)" using assms(1) by (simp add: fds_ok_def)
  show thesis
    using taken [of d t] fds.install_some [OF wf assms(2) d] d
    by (auto simp: try_register_def sys_simps)
qed

lemma bindS_eq: "m s = (Inr x, u) \<Longrightarrow> bindS m f s = f x u"
  by (simp add: bindS_def)

text \<open>What the receiving loop does with the handles \<open>hs\<close>, from the state \<open>s\<close> to \<open>s'\<close>.\<close>

definition received :: "process \<Rightarrow> int list \<Rightarrow> int list \<Rightarrow> process \<Rightarrow> bool" where
  "received s hs new s' \<longleftrightarrow> wf_fds (fdTable s') \<and> distinct new \<and>
     (\<forall>fd\<in>set new. 3 \<le> fd \<and> fd < int kMaxFd \<and> open_fd (fdTable s) (nat fd) = None) \<and>
     (\<forall>d. int d \<notin> set new \<longrightarrow> open_fd (fdTable s') d = open_fd (fdTable s) d) \<and>
     (\<exists>cs. trace s' = trace s @ cs \<and>
       (\<forall>h\<in>set hs. Sys ''CLOSE'' [L h] \<in> set cs \<or>
          (\<exists>fd\<in>set new. open_fd (fdTable s') (nat fd) = Some h)))"

lemma register_received_spec:
  assumes "fds_ok s" and "0 \<notin> set hs"
  shows "\<exists>new mflags s'. register_received env hs fds flags s = (Inr (fds @ new, mflags), s') \<and>
    received s hs new s' \<and> (length new < length hs \<longrightarrow> bit mflags 3) \<and> length new \<le> length hs \<and>
    (bit flags 3 \<longrightarrow> bit mflags 3)"
  using assms
proof (induction hs arbitrary: s fds flags)
  case Nil
  then show ?case
    by (intro exI [of _ "[]"]) (simp add: sys_simps received_def fds_ok_def)
next
  case (Cons h hs)
  from Cons.prems have h: "h \<noteq> 0" "0 \<notin> set hs" by auto
  show ?case
  proof (cases rule: try_register_cases [OF Cons.prems(1) h(1)])
    case 1
    let ?u = "s\<lparr>trace := trace s @ [Sys ''CLOSE'' [L h]]\<rparr>"
    have "fds_ok ?u" using Cons.prems(1) by (simp add: fds_ok_def)
    then obtain new mflags s' where ih: "register_received env hs fds (Bit_Operations.or flags MSG_CTRUNC) ?u =
        (Inr (fds @ new, mflags), s')" "received ?u hs new s'" "length new \<le> length hs"
        "bit (Bit_Operations.or flags MSG_CTRUNC) 3 \<longrightarrow> bit mflags 3"
      using Cons.IH h(2) by blast
    have "bit (Bit_Operations.or flags MSG_CTRUNC) 3"
      by (simp add: bit_or_iff MSG_CTRUNC_def bit_0)
    moreover have "received s (h # hs) new s'"
      using ih(2) unfolding received_def by auto
    moreover have "register_received env (h # hs) fds flags s = (Inr (fds @ new, mflags), s')"
      using 1(1) ih(1) by (simp add: bindS_eq sys_simps)
    ultimately show ?thesis using ih(3,4) by fastforce
  next
    case (2 d t)
    note taken = 2
    let ?u = "s\<lparr>fdTable := t\<rparr>"
    have "fds_ok ?u" using taken by (simp add: fds_ok_def)
    then obtain new mflags s' where ih: "register_received env hs (fds @ [int d]) flags ?u =
        (Inr ((fds @ [int d]) @ new, mflags), s')" "received ?u hs new s'"
        "length new < length hs \<longrightarrow> bit mflags 3" "length new \<le> length hs" "bit flags 3 \<longrightarrow> bit mflags 3"
      using Cons.IH h(2) by blast
    have d: "int d \<notin> set new"
      using ih(2) taken(4,5) unfolding received_def by auto
    have "received s (h # hs) (int d # new) s'"
    proof -
      have "open_fd (fdTable s') d = Some h"
        using ih(2) d taken(5) unfolding received_def by simp
      moreover have "open_fd (fdTable s) (nat fd) = None" if "fd \<in> set new" for fd
        using ih(2) that taken(4,5) unfolding received_def by (auto split: if_splits)
      ultimately show ?thesis
        using ih(2) taken d unfolding received_def by auto
    qed
    moreover have "register_received env (h # hs) fds flags s = (Inr (fds @ int d # new, mflags), s')"
      using taken(1) ih(1) by (simp add: bindS_eq)
    ultimately show ?thesis using ih(3,4,5) by (intro exI [of _ "int d # new"]) auto
  qed
qed

text \<open>
  C30: Descriptors passed over a local socket do not leak: receiving a message, every handle the
  kernel handed over is either the handle of one of the new, distinct, previously free descriptors
  reported to the program, or was closed, and then the message is marked truncated; all other
  descriptors are untouched.
\<close>
theorem passed_handles_not_leaked:
  assumes "fds_ok s" and "0 \<notin> set hs" and "is_long r" and "0 \<le> r"
    and "\<And>c. env (trace s) c = (r, KMessage data hs f)"
  shows "\<exists>m s'. unix_msg_recv env h iov control flags s = (Inr (Some m), s') \<and>
    distinct (rm_fds m) \<and> rm_length m = r \<and>
    (\<forall>fd\<in>set (rm_fds m). 3 \<le> fd \<and> fd < int kMaxFd \<and> open_fd (fdTable s) (nat fd) = None) \<and>
    (\<forall>k\<in>set hs. Sys ''CLOSE'' [L k] \<in> set (trace s') \<or>
       (\<exists>fd\<in>set (rm_fds m). open_fd (fdTable s') (nat fd) = Some k)) \<and>
    (length (rm_fds m) < length hs \<longrightarrow> bit (rm_flags m) 3) \<and>
    (\<forall>d. int d \<notin> set (rm_fds m) \<longrightarrow> open_fd (fdTable s') d = open_fd (fdTable s) d)"
proof -
  let ?c = "Sys ''SOCKET_RECVMSG''
              [L h, L (int (sum_list iov)), L (int (control_capacity control)), L flags]"
  let ?u = "s\<lparr>trace := trace s @ [?c]\<rparr>"
  have "fds_ok ?u" using assms(1) by (simp add: fds_ok_def)
  then obtain new mflags s' where r: "register_received env hs [] f ?u = (Inr (new, mflags), s')"
    "received ?u hs new s'" "length new < length hs \<longrightarrow> bit mflags 3"
    using register_received_spec [of ?u hs env "[]" f] assms(2) by auto
  have "sc_error r = 0" by (rule sc_error_nonneg [OF assms(4,3)])
  then have "\<exists>m. unix_msg_recv env h iov control flags s = (Inr (Some m), s') \<and> rm_fds m = new \<and>
      rm_flags m = mflags \<and> rm_length m = r"
    using assms(5) r(1)
    by (simp add: unix_msg_recv_def sys_simps EOPNOTSUPP_def bindS_eq [where m = "register_received env hs [] f" and s = ?u, OF r(1)])
  then show ?thesis
    using r(2,3) unfolding received_def by fastforce
qed

theorem passed_handles_not_leaked_witness:
  "\<exists>m s'. unix_msg_recv (\<lambda>log c. (0, KMessage [] [7, 8] 0)) 5 [] (Some 64) 0 initial_process =
      (Inr (Some m), s') \<and> distinct (rm_fds m) \<and>
    (\<forall>k\<in>{7, 8}. Sys ''CLOSE'' [L k] \<in> set (trace s') \<or>
       (\<exists>fd\<in>set (rm_fds m). open_fd (fdTable s') (nat fd) = Some k))"
  using passed_handles_not_leaked [OF initial_ok, of "[7, 8]" 0 "\<lambda>log c. (0, KMessage [] [7, 8] 0)" "[]" 0
      5 "[]" "Some 64" 0]
  by (fastforce simp: is_long_def)

text \<open>
  Pairs on a full table: \<open>Socketpair\<close> closes both new handles before it returns \<open>EMFILE\<close>, but
  \<open>Pipe\<close> returns \<open>EMFILE\<close> without closing either, so both ends of the pipe stay open in the
  kernel with no descriptor to close them by.
\<close>
theorem pipe_leaks_socketpair_does_not:
  assumes "fds_ok s" and "\<forall>d. 3 \<le> d \<longrightarrow> d < kMaxFd \<longrightarrow> open_fd (fdTable s) d \<noteq> None"
    and "\<And>c. env (trace s) c = (0, KLongs [h0, h1])" and "h0 \<noteq> 0" and "h1 \<noteq> 0"
  shows "sys_Pipe env s = (Inl EMFILE, s\<lparr>trace := trace s @ [Sys ''PIPE'' []]\<rparr>) \<and>
    sys_Socketpair env domain type proto s = (Inl EMFILE, s\<lparr>trace := trace s @
      [Sys ''SOCKETPAIR'' [L domain, L type, L proto], Sys ''CLOSE'' [L h0], Sys ''CLOSE'' [L h1]]\<rparr>)"
proof -
  have wf: "wf_fds (fdTable s)" using assms(1) by (simp add: fds_ok_def)
  have "register_fd (fdTable s) h = None" if "h \<noteq> 0" for h
    using fds.full_iff [OF wf, of h] assms(2) that by blast
  then have full: "try_register h0 u = (Inr (-1), u)" "try_register h1 u = (Inr (-1), u)"
    if "fdTable u = fdTable s" for u
    using assms(4,5) that by (simp_all add: try_register_def sys_simps)
  have "sc_error 0 = 0" by (simp add: sc_error_def)
  then show ?thesis
    using assms(3) full
    by (simp add: sys_Pipe_def sys_Socketpair_def sys_simps long_at_def Let_def bindS_eq on_cond_def)
qed

theorem pipe_leaks_socketpair_does_not_witness:
  "fst (sys_Pipe (\<lambda>log c. (0, KLongs [300, 301]))
     (initial_process\<lparr>fdTable := [0, 1, 2] @ replicate 253 9\<rparr>)) = Inl EMFILE"
proof -
  let ?s = "initial_process\<lparr>fdTable := [0, 1, 2] @ replicate 253 9\<rparr>"
  have "fds_ok ?s" by (simp add: fds_ok_def wf_fds_def kMaxFd_def)
  moreover have "\<forall>d. 3 \<le> d \<longrightarrow> d < kMaxFd \<longrightarrow> open_fd (fdTable ?s) d \<noteq> None"
    by (simp add: open_fd_def kMaxFd_def nth_append)
  ultimately show ?thesis
    using pipe_leaks_socketpair_does_not [of ?s "\<lambda>log c. (0, KLongs [300, 301])" 300 301] by simp
qed

section \<open>The handles the kernel holds open for the program\<close>

text \<open>
  What a call that succeeds gives the program and takes from it, by its documentation: the handle it returns
  or stores, the handle it closes. \<open>DUP2\<close> closes the target and returns its handle or a new one.
\<close>

definition copies_handle :: "kcall \<Rightarrow> bool" where
  "copies_handle c \<longleftrightarrow> sys_name c = ''FCNTL'' \<and> (\<exists>h arg. sys_args c \<in> {[L h, L F_DUPFD, L arg], [L h, L F_DUPFD_CLOEXEC, L arg]})"

definition gained :: "kcall \<Rightarrow> int \<times> kout \<Rightarrow> int list" where
  "gained c r =
     (if sys_name c \<in> {''OPEN'', ''DUP'', ''SOCKET'', ''ACCEPT''} \<or> copies_handle c then [fst r]
      else if sys_name c = ''DUP2'' then (if fst r = 0 then [] else [fst r])
      else if sys_name c \<in> {''PIPE'', ''SOCKETPAIR''} then [long_at 0 (snd r), long_at 1 (snd r)]
      else if sys_name c = ''SOCKET_RECVMSG'' then message_longs (snd r)
      else [])"

fun arg_long :: "karg \<Rightarrow> int" where
  "arg_long (L h) = h"
| "arg_long _ = 0"

definition given_up :: "kcall \<Rightarrow> int multiset" where
  "given_up c =
     (if sys_name c = ''CLOSE'' then {#arg_long (sys_args c ! 0)#}
      else if sys_name c = ''DUP2'' then {#arg_long (sys_args c ! 1)#}
      else {#})"

definition account :: "kcall \<Rightarrow> int \<times> kout \<Rightarrow> int multiset \<Rightarrow> int multiset" where
  "account c r H = (if sc_error (fst r) \<noteq> 0 then H else H - given_up c + mset (gained c r))"

lemma call_effects:
  "gained (Sys ''CLOSE'' as) r = []" "given_up (Sys ''CLOSE'' [L h]) = {#h#}"
  "gained (Sys ''DUP2'' as) r = (if fst r = 0 then [] else [fst r])" "given_up (Sys ''DUP2'' [L g, L h]) = {#h#}"
  by (simp_all add: gained_def given_up_def copies_handle_def)

text \<open>The handles held after the calls \<open>cs\<close>, of a program that starts with the three standard streams.\<close>

definition held :: "kernel \<Rightarrow> kcall list \<Rightarrow> int multiset" where
  "held env cs = fold (\<lambda>k. account (cs ! k) (env (take k cs) (cs ! k))) [0..<length cs] {#1, 2#}"

lemma held_Nil [simp]: "held env [] = {#1, 2#}"
  by (simp add: held_def)

lemma held_snoc [simp]: "held env (cs @ [c]) = account c (env cs c) (held env cs)"
proof -
  have "fold (\<lambda>k. account ((cs @ [c]) ! k) (env (take k (cs @ [c])) ((cs @ [c]) ! k))) [0..<length cs] H =
      fold (\<lambda>k. account (cs ! k) (env (take k cs) (cs ! k))) [0..<length cs] H" for H
    by (rule fold_cong) (auto simp: nth_append)
  then show ?thesis by (simp add: held_def)
qed

text \<open>
  What the kernel promises: a handle it gives out is not in use (\<open>DUP2\<close> may give the target's again), and not 0
  or one of the standard streams; and a handle that is open can be closed.
\<close>

definition gives_fresh_handles :: "kernel \<Rightarrow> bool" where
  "gives_fresh_handles env \<longleftrightarrow>
     (\<forall>cs c. sc_error (fst (env cs c)) = 0 \<longrightarrow>
        distinct (gained c (env cs c)) \<and>
        (\<forall>h\<in>set (gained c (env cs c)). (2 < h \<or> h \<in># given_up c) \<and> h \<notin># held env cs - given_up c) \<and>
        (sys_name c = ''DUP2'' \<longrightarrow> fst (env cs c) = 0 \<longrightarrow> given_up c = {#0#}))"

definition closes_handles :: "kernel \<Rightarrow> bool" where
  "closes_handles env \<longleftrightarrow>
     (\<forall>cs h. 2 < h \<longrightarrow> h \<in># held env cs \<longrightarrow> sc_error (fst (env cs (Sys ''CLOSE'' [L h]))) = 0)"

section \<open>The handles of the table\<close>

definition table_handles :: "int list \<Rightarrow> int multiset" where
  "table_handles t = mset (filter (\<lambda>h. h \<noteq> 0) t)"

definition one_handle :: "int \<Rightarrow> int multiset" where
  "one_handle h = (if h = 0 then {#} else {#h#})"

lemma one_handle_zero [simp]: "0 \<notin># one_handle h" "one_handle 0 = {#}"
  by (simp_all add: one_handle_def)

lemma table_handles_update:
  assumes "d < length t"
  shows "table_handles (t[d := h]) = table_handles t - one_handle (t ! d) + one_handle h"
proof -
  have "mset (t[d := h]) = add_mset h (mset t - {#t ! d#})" using assms by (rule mset_update)
  moreover have "t ! d \<in># mset t" using assms by simp
  ultimately show ?thesis
    by (auto simp: table_handles_def one_handle_def mset_filter filter_diff_mset)
qed

lemma in_table_handles: "d < length t \<Longrightarrow> t ! d \<noteq> 0 \<Longrightarrow> t ! d \<in># table_handles t"
  by (simp add: table_handles_def)

text \<open>
  The handles held are those of the table and \<open>X\<close>, which are on their way into the table or were lost; no handle
  is held twice.
\<close>

definition once :: "'a multiset \<Rightarrow> bool" where
  "once A \<longleftrightarrow> (\<forall>x. count A x \<le> 1)"

lemma once_less: "once B \<Longrightarrow> A \<subseteq># B \<Longrightarrow> once A"
  unfolding once_def subseteq_mset_def by (meson order_trans)

lemma once_new:
  assumes "once A" and "distinct xs" and "\<forall>x\<in>set xs. x \<notin># A"
  shows "once (A + mset xs)"
  unfolding once_def
proof
  fix x
  show "count (A + mset xs) x \<le> 1"
  proof (cases "x \<in> set xs")
    case True
    then have "count A x = 0" using assms(3) by (simp add: count_eq_zero_iff)
    then show ?thesis using True assms(2) by (simp add: distinct_count_atmost_1)
  next
    case False
    then have "count (A + mset xs) x = count A x" by (simp add: count_eq_zero_iff)
    then show ?thesis using assms(1) unfolding once_def by metis
  qed
qed

definition owns :: "kernel \<Rightarrow> int multiset \<Rightarrow> process \<Rightarrow> bool" where
  "owns env X s \<longleftrightarrow> wf_fds (fdTable s) \<and> fdTable s ! 1 \<noteq> 0 \<and> fdTable s ! 2 \<noteq> 0 \<and>
     held env (trace s) = table_handles (fdTable s) + X \<and> once (table_handles (fdTable s) + X) \<and> 0 \<notin># X"

lemma owns_initial: "owns env {#} initial_process"
  by (auto simp: once_def owns_def initial_process_def wf_fds_def kMaxFd_def table_handles_def)

section \<open>What a step does to them\<close>

lemma held_step:
  "held env (trace (s\<lparr>trace := trace s @ [c]\<rparr>)) = account c (env (trace s) c) (held env (trace s))"
  by simp

definition neutral :: "kcall \<Rightarrow> bool" where
  "neutral c \<longleftrightarrow> given_up c = {#} \<and> (\<forall>r. gained c r = [])"

lemma account_same: "neutral c \<or> sc_error (fst r) \<noteq> 0 \<Longrightarrow> account c r H = H"
  by (cases r) (auto simp: account_def neutral_def)

lemma owns_neutral:
  assumes "owns env X s" and "neutral c \<or> sc_error (fst (env (trace s) c)) \<noteq> 0"
  shows "owns env X (s\<lparr>trace := trace s @ [c]\<rparr>)"
  using assms(1) by (simp add: owns_def account_same [OF assms(2)])

lemma owns_gain:
  assumes "gives_fresh_handles env" and "owns env X s" and "sc_error (fst (env (trace s) c)) = 0" and "given_up c = {#}"
  shows "owns env (X + mset (gained c (env (trace s) c))) (s\<lparr>trace := trace s @ [c]\<rparr>)"
    and "\<forall>h\<in>set (gained c (env (trace s) c)). 2 < h"
proof -
  let ?g = "gained c (env (trace s) c)"
  have "distinct ?g \<and> (\<forall>h\<in>set ?g. (2 < h \<or> h \<in># given_up c) \<and> h \<notin># held env (trace s) - given_up c)"
    using assms(1,3) unfolding gives_fresh_handles_def by blast
  then have g: "distinct ?g" "\<forall>h\<in>set ?g. 2 < h \<and> h \<notin># held env (trace s)"
    unfolding assms(4) by simp_all
  then show "\<forall>h\<in>set ?g. 2 < h" by blast
  have held: "held env (trace s) = table_handles (fdTable s) + X" using assms(2) by (simp add: owns_def)
  have "once ((table_handles (fdTable s) + X) + mset ?g)"
    using assms(2) g unfolding held by (intro once_new) (simp_all add: owns_def)
  moreover have "0 \<notin> set ?g" using g(2) by auto
  ultimately show "owns env (X + mset ?g) (s\<lparr>trace := trace s @ [c]\<rparr>)"
    using assms(2-4) by (simp add: owns_def account_def union_assoc)
qed

lemma owns_close:
  assumes "closes_handles env" and "owns env (add_mset h X) s" and "2 < h"
  shows "owns env X (s\<lparr>trace := trace s @ [Sys ''CLOSE'' [L h]]\<rparr>)"
proof -
  have "h \<in># held env (trace s)" using assms(2) by (simp add: owns_def)
  then have ok: "sc_error (fst (env (trace s) (Sys ''CLOSE'' [L h]))) = 0"
    using assms(1,3) unfolding closes_handles_def by blast
  have "account (Sys ''CLOSE'' [L h]) (env (trace s) (Sys ''CLOSE'' [L h])) (held env (trace s)) = held env (trace s) - {#h#}"
    using ok by (simp add: account_def call_effects)
  moreover have "once (table_handles (fdTable s) + X)"
    by (rule once_less [of "table_handles (fdTable s) + add_mset h X" "table_handles (fdTable s) + X"])
      (use assms(2) in \<open>simp_all add: owns_def\<close>)
  ultimately show ?thesis using assms(2) by (simp add: owns_def)
qed

lemma owns_take:
  assumes "owns env (add_mset h X) s" and "d < kMaxFd" and "fdTable s ! d = 0" and "h \<noteq> 0"
  shows "owns env X (s\<lparr>fdTable := (fdTable s)[d := h]\<rparr>)"
proof -
  have "table_handles ((fdTable s)[d := h]) + X = table_handles (fdTable s) + add_mset h X"
    using table_handles_update [of d "fdTable s" h] assms by (simp add: owns_def wf_fds_def one_handle_def)
  moreover have "(fdTable s)[d := h] ! k \<noteq> 0" if "fdTable s ! k \<noteq> 0" for k
    using that assms(3) by (cases "k = d") auto
  ultimately show ?thesis using assms(1) by (simp add: owns_def wf_fds_def)
qed

text \<open>A slot whose handle a call closes, and replaces by \<open>r\<close> unless that is 0.\<close>

lemma owns_swap:
  assumes "owns env X s" and "d < kMaxFd"
    and "account c (env (trace s) c) (held env (trace s)) = held env (trace s) - {#fdTable s ! d#} + one_handle r"
    and "r = 0 \<or> r \<notin># held env (trace s) - {#fdTable s ! d#}" and "d \<in> {1, 2} \<Longrightarrow> r \<noteq> 0"
  shows "owns env X (s\<lparr>trace := trace s @ [c], fdTable := (fdTable s)[d := r]\<rparr>)"
proof -
  let ?t = "fdTable s"
  let ?old = "one_handle (?t ! d)"
  have d: "d < length ?t" and held: "held env (trace s) = table_handles ?t + X" and once: "once (table_handles ?t + X)"
    and zero: "0 \<notin># table_handles ?t + X"
    using assms(1,2) by (auto simp: owns_def wf_fds_def table_handles_def)
  have gone: "held env (trace s) - {#?t ! d#} = table_handles ?t + X - ?old"
    using zero unfolding held by (auto simp: one_handle_def diff_single_trivial)
  have "?old \<subseteq># table_handles ?t" using in_table_handles [OF d] by (simp add: one_handle_def)
  then have rest: "table_handles ?t + X - ?old = table_handles ?t - ?old + X"
    by (metis subset_mset.add_diff_assoc2)
  have "table_handles (?t[d := r]) + X = table_handles ?t + X - ?old + one_handle r"
    unfolding table_handles_update [OF d] rest by (simp add: ac_simps)
  moreover have "once (table_handles ?t + X - ?old + one_handle r)"
  proof -
    have part: "once (table_handles ?t + X - ?old)" by (rule once_less [OF once]) simp
    show ?thesis
    proof (cases "r = 0")
      case False
      then show ?thesis
        using once_new [OF part, of "[r]"] assms(4) unfolding gone by (simp add: one_handle_def)
    qed (use part in simp)
  qed
  moreover have "?t[d := r] ! 1 \<noteq> 0" "?t[d := r] ! 2 \<noteq> 0"
    using assms(1,5) d by (auto simp: owns_def nth_list_update)
  ultimately show ?thesis using assms(1,3) unfolding gone by (simp add: owns_def wf_fds_def)
qed

lemma owns_drop:
  assumes "owns env X s" and "3 \<le> d" and "d < kMaxFd"
  shows "owns env (one_handle (fdTable s ! d) + X) (s\<lparr>fdTable := (fdTable s)[d := 0]\<rparr>)"
proof -
  have d: "d < length (fdTable s)" using assms by (simp add: owns_def wf_fds_def)
  have "one_handle (fdTable s ! d) \<subseteq># table_handles (fdTable s)"
    using in_table_handles [OF d] by (simp add: one_handle_def)
  then have "table_handles ((fdTable s)[d := 0]) + (one_handle (fdTable s ! d) + X) = table_handles (fdTable s) + X"
    using table_handles_update [OF d, of 0] by (simp add: one_handle_def union_assoc [symmetric])
  note same = this
  show ?thesis using assms unfolding owns_def wf_fds_def by (simp add: same)
qed

lemma keeps_owns [keeps_rules]:
  assumes "neutral c"
  shows "keeps (owns env X) (syscall env c)" "keeps (owns env X) (checked env c)"
    "keeps (owns env X) (plain env c)" "keeps (owns env X) (ignore env c)"
proof -
  show call: "keeps (owns env X) (syscall env c)"
    using owns_neutral assms by (simp add: keeps_def sys_simps)
  show "keeps (owns env X) (checked env c)" "keeps (owns env X) (plain env c)" "keeps (owns env X) (ignore env c)"
    unfolding checked_def plain_def ignore_def by (intro keeps_rules call)+
qed

lemma neutral_calls [keeps_rules]:
  "neutral (Sys ''FD_PATH'' as)" "neutral (Sys ''RECV'' as)" "neutral (Sys ''RECVFROM'' as)" "neutral (Sys ''GETSOCKOPT'' as)"
  by (simp_all add: neutral_def given_up_def gained_def copies_handle_def)

section \<open>What the operations do to them\<close>

lemma owns_register:
  assumes "owns env (add_mset h X) s" and "h \<noteq> 0" and "register_fd_min (fdTable s) h m = Some (d, t)"
  shows "owns env X (s\<lparr>fdTable := t\<rparr>)" and "d < kMaxFd" and "t = (fdTable s)[d := h]" and "nat m \<le> d"
proof -
  have d: "nat (if m < 0 then 0 else m) \<le> d" "d < kMaxFd" "fdTable s ! d = 0" "t = (fdTable s)[d := h]"
    using assms(3) by (auto simp: register_fd_min_def split: option.splits dest: free_slot_some)
  then show "d < kMaxFd" "t = (fdTable s)[d := h]" "nat m \<le> d" by (auto split: if_splits)
  show "owns env X (s\<lparr>fdTable := t\<rparr>)" unfolding d(4) by (rule owns_take [OF assms(1) d(2,3) assms(2)])
qed

lemma owns_install:
  assumes "closes_handles env" and "owns env (add_mset h X) s" and "2 < h"
  shows "owns env X (snd (install_or_close env h s))"
proof (cases "register_fd (fdTable s) h")
  case None
  then show ?thesis using owns_close [OF assms] by (simp add: install_or_close_def sys_simps)
next
  case (Some r)
  obtain d t where r: "r = (d, t)" by (cases r)
  then have "owns env X (s\<lparr>fdTable := t\<rparr>)"
    using owns_register(1) [OF assms(2), of 3] Some assms(3) by (simp add: register_fd_def)
  then show ?thesis using Some r by (simp add: install_or_close_def sys_simps)
qed

text \<open>A handle that is asked for and then installed or closed.\<close>

lemma owns_new_handle:
  assumes "gives_fresh_handles env" and "closes_handles env" and "owns env X s"
    and "sys_name c \<in> {''OPEN'', ''DUP'', ''SOCKET'', ''ACCEPT''}"
  shows "owns env X (snd (bindS (checked env c) (\<lambda>(r, _). install_or_close env r) s))"
proof -
  obtain r out where r: "env (trace s) c = (r, out)" by (cases "env (trace s) c")
  let ?s = "s\<lparr>trace := trace s @ [c]\<rparr>"
  have g: "gained c (r, out) = [r]" "given_up c = {#}" using assms(4) by (auto simp: gained_def given_up_def)
  show ?thesis
  proof (cases "sc_error r = 0")
    case True
    then have "owns env (add_mset r X) ?s" "2 < r"
      using owns_gain [OF assms(1,3), of c] r g by simp_all
    then show ?thesis using owns_install [OF assms(2)] r True by (simp add: sys_simps)
  next
    case False
    then show ?thesis using owns_neutral [OF assms(3), of c] r by (simp add: sys_simps)
  qed
qed

lemma owns_with_handle:
  "(\<And>h. owns env X (snd (f h s))) \<Longrightarrow> owns env X s \<Longrightarrow> owns env X (snd (with_handle fd f s))"
  by (simp add: with_handle_def sys_simps)

lemma owns_at_resolve:
  assumes "owns env X s" and "\<And>p u. owns env X u \<Longrightarrow> owns env X (snd (f p u))"
  shows "owns env X (snd (bindS (at_resolve env d path n) f s))"
proof -
  have keep: "keeps (owns env X) (at_resolve env d path n)"
    unfolding at_resolve_def by (intro keeps_rules)
  have "keeps (owns env X) (bindS (at_resolve env d path n) f)"
    using assms(2) by (intro keeps_bind keep) (simp add: keeps_def)
  then show ?thesis using assms(1) by (rule keepsD)
qed

lemma owns_streams [simp]: "owns env X (s\<lparr>dirStreams := ds\<rparr>) = owns env X s"
  by (simp add: owns_def)

lemma owns_Open:
  assumes "gives_fresh_handles env" and "closes_handles env" and "owns env X s"
  shows "owns env X (snd (sys_Open env path flags mode s))"
    and "owns env X (snd (sys_Openat env fd opath flags mode s))"
    and "owns env X (snd (sys_Dup env fd s))"
    and "owns env X (snd (sys_Socket env family type proto s))"
    and "owns env X (snd (sys_Accept env fd n s))"
  unfolding sys_Open_def sys_Openat_def sys_Dup_def sys_Socket_def sys_Accept_def
  using assms by (auto intro!: owns_at_resolve owns_with_handle owns_new_handle)

lemma owns_close_fd:
  assumes "owns env X s"
  shows "owns env X (snd (with_handle fd (\<lambda>handle.
    if fd < 3 then give () else bindS (checked env (Sys ''CLOSE'' [L handle])) (\<lambda>_. clear_fd fd)) s))"
proof (cases "3 \<le> fd \<and> fd < int kMaxFd \<and> 0 \<le> fdTable s ! nat fd")
  case True
  let ?h = "fdTable s ! nat fd"
  let ?c = "Sys ''CLOSE'' [L ?h]"
  obtain r out where r: "env (trace s) ?c = (r, out)" by (cases "env (trace s) ?c")
  have h: "handle_for_fd (fdTable s) fd = ?h" "\<not> ?h < 0" "\<not> fd < 3" using True by (auto simp: handle_for_fd_def)
  show ?thesis
  proof (cases "sc_error r = 0")
    case ok: True
    have "owns env X (s\<lparr>trace := trace s @ [?c], fdTable := (fdTable s)[nat fd := 0]\<rparr>)"
      by (rule owns_swap [OF assms]) (use True ok r in \<open>auto simp: account_def call_effects\<close>)
    then show ?thesis using h r ok by (simp add: with_handle_def sys_simps clear_fd_def)
  next
    case False
    then show ?thesis
      using h r owns_neutral [OF assms, of ?c] by (simp add: with_handle_def sys_simps)
  qed
next
  case False
  then show ?thesis using assms by (auto simp: with_handle_def sys_simps handle_for_fd_def)
qed

lemma owns_Close:
  assumes "owns env X s"
  shows "owns env X (snd (sys_Close env fd s))"
proof (cases "kDirHandleBase \<le> fd")
  case True
  then show ?thesis
    using assms by (simp add: sys_Close_def stream_slot_def update_stream_def sys_simps Let_def)
next
  case False
  then show ?thesis
    using assms owns_close_fd
    by (cases "find_dir_stream_by_fd (dirStreams s) fd") (simp_all add: sys_Close_def update_stream_def sys_simps)
qed

lemma owns_Dup2:
  assumes "gives_fresh_handles env" and "owns env X s"
  shows "owns env X (snd (sys_Dup2 env fd newfd s))"
proof (cases "handle_for_fd (fdTable s) fd < 0 \<or> newfd < 0 \<or> int kMaxFd \<le> newfd")
  case True
  then show ?thesis using assms(2) by (auto simp: sys_Dup2_def with_handle_def sys_simps)
next
  case False
  let ?h = "handle_for_fd (fdTable s) fd" and ?old = "fdTable s ! nat newfd"
  let ?g = "if ?old \<noteq> 0 then ?old else newfd"
  let ?c = "if ?old \<noteq> 0 \<or> newfd < 3 then Sys ''DUP2'' [L ?h, L ?g] else Sys ''DUP'' [L ?h]"
  obtain r out where r: "env (trace s) ?c = (r, out)" by (cases "env (trace s) ?c")
  have d: "nat newfd < kMaxFd" "\<not> newfd < 0" "\<not> int kMaxFd \<le> newfd" using False by auto
  let ?s = "s\<lparr>trace := trace s @ [?c]\<rparr>"
  have run: "snd (sys_Dup2 env fd newfd s) =
      (if sc_error r \<noteq> 0 then ?s else ?s\<lparr>fdTable := (fdTable s)[nat newfd := r]\<rparr>)"
    using False r d by (auto simp: sys_Dup2_def with_handle_def sys_simps register_fd_at_def)
  show ?thesis
  proof (cases "sc_error r = 0")
    case False
    then show ?thesis using run r owns_neutral [OF assms(2), of ?c] by simp
  next
    case ok: True
    show ?thesis
    proof (cases "?old \<noteq> 0 \<or> newfd < 3")
      case True
      have std: "?g = ?old"
        using True assms(2) d by (cases "nat newfd = 0 \<or> nat newfd = 1 \<or> nat newfd = 2") (auto simp: owns_def)
      have c: "?c = Sys ''DUP2'' [L ?h, L ?old]" using True std by simp
      have law: "(\<forall>h\<in>set (gained ?c (r, out)). h \<notin># held env (trace s) - given_up ?c) \<and> (r = 0 \<longrightarrow> given_up ?c = {#0#})"
        using assms(1) ok r unfolding gives_fresh_handles_def c by (metis fst_conv kcall.sel(1))
      have "owns env X (s\<lparr>trace := trace s @ [?c], fdTable := (fdTable s)[nat newfd := r]\<rparr>)"
      proof (rule owns_swap [OF assms(2) d(1)])
        show "account ?c (env (trace s) ?c) (held env (trace s)) = held env (trace s) - {#?old#} + one_handle r"
          using ok r unfolding c by (simp add: account_def call_effects one_handle_def)
        show "r = 0 \<or> r \<notin># held env (trace s) - {#?old#}"
          using law unfolding c by (auto simp: call_effects)
        show "r \<noteq> 0" if "nat newfd \<in> {1, 2}"
          using law that assms(2) unfolding c by (auto simp: call_effects owns_def)
      qed
      then show ?thesis using run ok by simp
    next
      case False
      then have c: "?c = Sys ''DUP'' [L ?h]" "?old = 0" by auto
      have g: "gained ?c (r, out) = [r]" "given_up ?c = {#}" unfolding c(1) by (simp_all add: gained_def given_up_def)
      have "owns env (add_mset r X) ?s" "2 < r" using owns_gain [OF assms, of ?c] ok r g by simp_all
      from owns_take [OF this(1), of "nat newfd"] this(2) show ?thesis using run ok c(2) d by simp
    qed
  qed
qed

lemma owns_Fcntl:
  assumes "gives_fresh_handles env" and "closes_handles env" and "owns env X s"
  shows "owns env X (snd (sys_Fcntl env fd request arg s))"
  unfolding sys_Fcntl_def
proof (rule owns_with_handle [OF _ assms(3)])
  fix h
  let ?c = "Sys ''FCNTL'' [L h, L request, L arg]" and ?dup = "request = F_DUPFD \<or> request = F_DUPFD_CLOEXEC"
  let ?s = "s\<lparr>trace := trace s @ [?c]\<rparr>"
  obtain r out where r: "env (trace s) ?c = (r, out)" by (cases "env (trace s) ?c")
  have g: "gained ?c q = (if ?dup then [fst q] else [])" "given_up ?c = {#}" for q
    by (auto simp: gained_def given_up_def copies_handle_def)
  have copied: "owns env X (snd (bindS (gets (\<lambda>s. register_fd_min (fdTable s) r (to_int arg))) (\<lambda>new.
      case new of
        None \<Rightarrow> bindS (ignore env (Sys ''CLOSE'' [L r])) (\<lambda>_. throw EMFILE)
      | Some (newfd, t) \<Rightarrow> bindS (modify (\<lambda>s. s\<lparr>fdTable := t\<rparr>)) (\<lambda>_. give (int newfd))) ?s))"
    if ok: "sc_error r = 0" "?dup"
  proof -
    have new: "owns env (add_mset r X) ?s" "2 < r"
      using owns_gain [OF assms(1,3), of ?c] that r g by simp_all
    show ?thesis
    proof (cases "register_fd_min (fdTable ?s) r (to_int arg)")
      case None
      then show ?thesis using owns_close [OF assms(2) new] by (simp add: sys_simps)
    next
      case (Some q)
      obtain d t where q: "q = (d, t)" by (cases q)
      from owns_register(1) [OF new(1) _ Some [unfolded q]] show ?thesis
        using Some new(2) q by (simp add: sys_simps)
    qed
  qed
  have kept: "owns env X ?s" if "sc_error r \<noteq> 0 \<or> \<not> ?dup"
    using that r g by (intro owns_neutral [OF assms(3)]) (auto simp: neutral_def)
  show "owns env X (snd (bindS (checked env ?c) (\<lambda>(r, _).
      if ?dup then
        bindS (gets (\<lambda>s. register_fd_min (fdTable s) r (to_int arg))) (\<lambda>new.
          case new of
            None \<Rightarrow> bindS (ignore env (Sys ''CLOSE'' [L r])) (\<lambda>_. throw EMFILE)
          | Some (newfd, t) \<Rightarrow> bindS (modify (\<lambda>s. s\<lparr>fdTable := t\<rparr>)) (\<lambda>_. give (int newfd)))
      else give (to_int r)) s))"
  proof (cases "sc_error r = 0 \<and> ?dup")
    case True
    then show ?thesis using copied r by (simp add: bindS_apply checked_apply)
  next
    case False
    then show ?thesis using kept r by (auto simp: checked_apply give_def Let_def)
  qed
qed

text \<open>Two handles at once, and the rooms for them in the table.\<close>

lemma owns_try:
  assumes "owns env (add_mset h X) s" and "2 < h"
  obtains (full) "try_register h s = (Inr (-1), s)"
    | (taken) d where "try_register h s = (Inr (int d), s\<lparr>fdTable := (fdTable s)[d := h]\<rparr>)" "3 \<le> d" "d < kMaxFd"
        "owns env X (s\<lparr>fdTable := (fdTable s)[d := h]\<rparr>)"
proof (cases "register_fd (fdTable s) h")
  case None
  then show thesis by (intro full) (simp add: try_register_def sys_simps)
next
  case (Some r)
  then obtain d t where r: "register_fd_min (fdTable s) h 3 = Some (d, t)" by (cases r) (auto simp: register_fd_def)
  note new = owns_register [OF assms(1) _ r]
  show thesis
    by (rule taken [of d]) (use assms(2) new r in \<open>simp_all add: try_register_def register_fd_def sys_simps\<close>)
qed

lemma owns_clear:
  assumes "owns env X (s\<lparr>fdTable := (fdTable s)[d := h]\<rparr>)" and "3 \<le> d" and "d < kMaxFd" and "h \<noteq> 0"
    and "wf_fds (fdTable s)"
  shows "owns env (add_mset h X) (s\<lparr>fdTable := (fdTable s)[d := 0]\<rparr>)"
  using owns_drop [OF assms(1-3)] assms by (simp add: wf_fds_def one_handle_def)

lemma owns_wf: "owns env X s \<Longrightarrow> wf_fds (fdTable s)"
  by (simp add: owns_def)

lemma pair_effects:
  "gained (Sys ''PIPE'' as) r = [long_at 0 (snd r), long_at 1 (snd r)]" "given_up (Sys ''PIPE'' as) = {#}"
  "gained (Sys ''SOCKETPAIR'' as) r = [long_at 0 (snd r), long_at 1 (snd r)]" "given_up (Sys ''SOCKETPAIR'' as) = {#}"
  by (simp_all add: gained_def given_up_def copies_handle_def)

lemma owns_Socketpair:
  assumes "gives_fresh_handles env" and "closes_handles env" and "owns env X s"
  shows "owns env X (snd (sys_Socketpair env domain type proto s))"
proof -
  let ?c = "Sys ''SOCKETPAIR'' [L domain, L type, L proto]"
  let ?s = "s\<lparr>trace := trace s @ [?c]\<rparr>"
  obtain r out where r: "env (trace s) ?c = (r, out)" by (cases "env (trace s) ?c")
  show ?thesis
  proof (cases "sc_error r = 0")
    case False
    then show ?thesis using r owns_neutral [OF assms(3), of ?c] by (simp add: sys_Socketpair_def sys_simps)
  next
    case True
    define h0 where "h0 = long_at 0 out"
    define h1 where "h1 = long_at (Suc 0) out"
    have new: "owns env (add_mset h0 (add_mset h1 X)) ?s" "2 < h0" "2 < h1"
      using owns_gain [OF assms(1,3), of ?c] True r by (simp_all add: pair_effects h0_def h1_def add_mset_commute)
    have both_closed: "owns env X (u\<lparr>trace := trace u @ [Sys ''CLOSE'' [L h0], Sys ''CLOSE'' [L h1]]\<rparr>)"
      if "owns env (add_mset h0 (add_mset h1 X)) u" for u
      using owns_close [OF assms(2) owns_close [OF assms(2) that new(2)] new(3)] by simp
    from new(1,2) show ?thesis
    proof (cases rule: owns_try)
      case full
      then show ?thesis using both_closed [OF new(1)] True r
        by (simp add: sys_Socketpair_def sys_simps Let_def bindS_eq h0_def [symmetric] h1_def [symmetric] on_cond_def)
    next
      case (taken d)
      let ?u = "?s\<lparr>fdTable := (fdTable ?s)[d := h0]\<rparr>"
      from taken(4) new(3) show ?thesis
      proof (cases rule: owns_try)
        case full
        have "owns env (add_mset h0 (add_mset h1 X)) (?s\<lparr>fdTable := (fdTable ?s)[d := 0]\<rparr>)"
          using owns_clear [OF taken(4,2,3)] new(2) owns_wf [OF new(1)] by simp
        from both_closed [OF this] show ?thesis using full taken(1) True r
          by (simp add: sys_Socketpair_def sys_simps Let_def bindS_eq h0_def [symmetric] h1_def [symmetric] on_cond_def clear_fd_def)
      next
        case two: (taken e)
        then show ?thesis using taken(1) True r
          by (simp add: sys_Socketpair_def sys_simps Let_def bindS_eq h0_def [symmetric] h1_def [symmetric])
      qed
    qed
  qed
qed

lemma late_trace: "s\<lparr>fdTable := t, trace := cs\<rparr> = s\<lparr>trace := cs, fdTable := t\<rparr>"
  by simp

text \<open>A pipe that finds no room for both ends loses handles; otherwise it does not.\<close>

lemma owns_Pipe:
  assumes "gives_fresh_handles env" and "closes_handles env" and "owns env X s"
  shows "\<exists>lost. owns env (lost + X) (snd (sys_Pipe env s)) \<and> (fst (sys_Pipe env s) \<noteq> Inl EMFILE \<longrightarrow> lost = {#})"
proof -
  let ?c = "Sys ''PIPE'' []"
  let ?s = "s\<lparr>trace := trace s @ [?c]\<rparr>"
  obtain r out where r: "env (trace s) ?c = (r, out)" by (cases "env (trace s) ?c")
  show ?thesis
  proof (cases "sc_error r = 0")
    case False
    then show ?thesis using r owns_neutral [OF assms(3), of ?c]
      by (intro exI [of _ "{#}"]) (simp add: sys_Pipe_def sys_simps)
  next
    case True
    define h0 where "h0 = long_at 0 out"
    define h1 where "h1 = long_at (Suc 0) out"
    have new: "owns env (add_mset h0 (add_mset h1 X)) ?s" "2 < h0" "2 < h1"
      using owns_gain [OF assms(1,3), of ?c] True r by (simp_all add: pair_effects h0_def h1_def add_mset_commute)
    note simps = late_trace sys_Pipe_def sys_simps Let_def bindS_eq h0_def [symmetric] h1_def [symmetric] on_cond_def clear_fd_def
    from new(1,2) show ?thesis
    proof (cases rule: owns_try)
      case full
      have swapped: "owns env (add_mset h1 (add_mset h0 X)) ?s" using new(1) by (simp add: add_mset_commute)
      from this new(3) show ?thesis
      proof (cases rule: owns_try)
        case none: full
        then show ?thesis using full new(1) True r
          by (intro exI [of _ "{#h0, h1#}"]) (simp add: simps add_mset_commute)
      next
        case (taken e)
        have "owns env (add_mset h1 (add_mset h0 X)) (?s\<lparr>fdTable := (fdTable ?s)[e := 0]\<rparr>)"
          using owns_clear [OF taken(4,2,3)] new(3) owns_wf [OF new(1)] by simp
        from owns_close [OF assms(2) this new(3)] show ?thesis using full taken(1) True r
          by (intro exI [of _ "{#h0#}"]) (simp add: simps)
      qed
    next
      case (taken d)
      from taken(4) new(3) show ?thesis
      proof (cases rule: owns_try)
        case full
        have "owns env (add_mset h0 (add_mset h1 X)) (?s\<lparr>fdTable := (fdTable ?s)[d := 0]\<rparr>)"
          using owns_clear [OF taken(4,2,3)] new(2) owns_wf [OF new(1)] by simp
        from owns_close [OF assms(2) this new(2)] show ?thesis using full taken(1) True r
          by (intro exI [of _ "{#h1#}"]) (simp add: simps)
      next
        case two: (taken e)
        then show ?thesis using taken(1) True r by (intro exI [of _ "{#}"]) (simp add: simps)
      qed
    qed
  qed
qed

text \<open>Received handles, each installed or closed.\<close>

lemma owns_received:
  assumes "closes_handles env" and "owns env (mset hs + X) s" and "\<forall>h\<in>set hs. 2 < h"
  shows "owns env X (snd (register_received env hs fds flags s))"
  using assms(2,3)
proof (induction hs arbitrary: s fds flags)
  case (Cons h hs)
  have h: "owns env (add_mset h (mset hs + X)) s" "2 < h" "\<forall>h\<in>set hs. 2 < h" using Cons.prems by simp_all
  from h(1,2) show ?case
  proof (cases rule: owns_try)
    case full
    then show ?thesis
      using Cons.IH [OF owns_close [OF assms(1) h(1,2)] h(3)] by (simp add: bindS_eq sys_simps)
  next
    case (taken d)
    then show ?thesis using Cons.IH [OF taken(4) h(3)] by (simp add: bindS_eq)
  qed
qed (simp add: sys_simps)

lemma snd_bind_give: "snd (bindS m (\<lambda>(a, b). give (f a b)) s) = snd (m s)"
  by (auto simp: bindS_def give_def split: prod.split sum.split)

lemma owns_unix_msg_recv:
  assumes "gives_fresh_handles env" and "closes_handles env" and "owns env X s"
  shows "owns env X (snd (unix_msg_recv env h iov control flags s))"
proof -
  let ?c = "Sys ''SOCKET_RECVMSG'' [L h, L (int (sum_list iov)), L (int (control_capacity control)), L flags]"
  let ?s = "s\<lparr>trace := trace s @ [?c]\<rparr>"
  obtain r out where r: "env (trace s) ?c = (r, out)" by (cases "env (trace s) ?c")
  have g: "gained ?c (r, out) = message_longs out" "given_up ?c = {#}"
    by (simp_all add: gained_def given_up_def copies_handle_def)
  show ?thesis
  proof (cases "sc_error r = 0")
    case True
    have new: "owns env (mset (message_longs out) + X) ?s" "\<forall>h\<in>set (message_longs out). 2 < h"
      using owns_gain [OF assms(1,3), of ?c] True r g by (simp_all add: union_commute)
    from owns_received [OF assms(2) new, of "[]" "message_flags out"]
    show ?thesis using True r by (simp add: unix_msg_recv_def sys_simps EOPNOTSUPP_def snd_bind_give)
  next
    case False
    then show ?thesis using r owns_neutral [OF assms(3), of ?c] by (simp add: unix_msg_recv_def sys_simps)
  qed
qed

lemma keeps_recv_stream: "keeps (owns env X) (recv_stream env h ns flags sofar got)"
proof (induction ns arbitrary: sofar got)
  case (Cons n ns)
  show ?case unfolding recv_stream.simps by (intro keeps_rules Cons)
qed (simp add: keeps_rules)

lemma owns_MsgRecv:
  assumes "gives_fresh_handles env" and "closes_handles env" and "owns env X s"
  shows "owns env X (snd (sys_MsgRecv env fd iov control name flags s))"
proof -
  have recv: "keeps (owns env X) (unix_msg_recv env h iov control flags)" for h
    using owns_unix_msg_recv [OF assms(1,2)] by (simp add: keeps_def)
  have "keeps (owns env X) (sys_MsgRecv env fd iov control name flags)"
    unfolding sys_MsgRecv_def socket_is_datagram_def socket_recv_one_def
    by (intro keeps_rules recv keeps_recv_stream)
  then show ?thesis using assms(3) by (rule keepsD)
qed

section \<open>Runs of operations\<close>

text \<open>The operations that make, replace or close descriptors, and what becomes of the program with one.\<close>

datatype fd_op = Open_Path string int int | Open_At int "string option" int int | Close_Fd int | Dup_Fd int | Dup2_Fd int int
  | Fcntl_Fd int int int | Make_Pipe | Make_Socket int int int | Accept_On int nat | Make_Socketpair int int int
  | Receive_On int "nat list" "nat option" "nat option" int

fun do_op :: "kernel \<Rightarrow> fd_op \<Rightarrow> process \<Rightarrow> process" where
  "do_op env (Open_Path path flags mode) s = snd (sys_Open env path flags mode s)"
| "do_op env (Open_At dir path flags mode) s = snd (sys_Openat env dir path flags mode s)"
| "do_op env (Close_Fd fd) s = snd (sys_Close env fd s)"
| "do_op env (Dup_Fd fd) s = snd (sys_Dup env fd s)"
| "do_op env (Dup2_Fd fd newfd) s = snd (sys_Dup2 env fd newfd s)"
| "do_op env (Fcntl_Fd fd request arg) s = snd (sys_Fcntl env fd request arg s)"
| "do_op env Make_Pipe s = snd (sys_Pipe env s)"
| "do_op env (Make_Socket family type proto) s = snd (sys_Socket env family type proto s)"
| "do_op env (Accept_On fd n) s = snd (sys_Accept env fd n s)"
| "do_op env (Make_Socketpair domain type proto) s = snd (sys_Socketpair env domain type proto s)"
| "do_op env (Receive_On fd iov control name flags) s = snd (sys_MsgRecv env fd iov control name flags s)"

definition run_fd_ops :: "kernel \<Rightarrow> fd_op list \<Rightarrow> process \<Rightarrow> process" where
  "run_fd_ops env ops s = fold (do_op env) ops s"

text \<open>Every pipe of the run found room for both its ends.\<close>

fun pipes_fit :: "kernel \<Rightarrow> fd_op list \<Rightarrow> process \<Rightarrow> bool" where
  "pipes_fit env [] s = True"
| "pipes_fit env (op # ops) s \<longleftrightarrow>
     (op = Make_Pipe \<longrightarrow> fst (sys_Pipe env s) \<noteq> Inl EMFILE) \<and> pipes_fit env ops (do_op env op s)"

lemma do_op_owns:
  assumes "gives_fresh_handles env" and "closes_handles env" and "owns env X s"
  shows "\<exists>lost. owns env (lost + X) (do_op env op s) \<and>
    ((op = Make_Pipe \<longrightarrow> fst (sys_Pipe env s) \<noteq> Inl EMFILE) \<longrightarrow> lost = {#})"
proof (cases "op = Make_Pipe")
  case True
  then show ?thesis using owns_Pipe [OF assms] by auto
next
  case False
  then have "owns env X (do_op env op s)"
    using owns_Open [OF assms] owns_Close [OF assms(3)] owns_Dup2 [OF assms(1,3)] owns_Fcntl [OF assms]
      owns_Socketpair [OF assms] owns_MsgRecv [OF assms]
    by (cases op) simp_all
  then show ?thesis by (intro exI [of _ "{#}"]) simp
qed

lemma run_fd_ops_owns:
  assumes "gives_fresh_handles env" and "closes_handles env" and "owns env X s"
  shows "\<exists>lost. owns env (lost + X) (run_fd_ops env ops s) \<and> (pipes_fit env ops s \<longrightarrow> lost = {#})"
  using assms(3)
proof (induction ops arbitrary: s X)
  case Nil
  then show ?case by (intro exI [of _ "{#}"]) (simp add: run_fd_ops_def)
next
  case (Cons op ops)
  obtain l where l: "owns env (l + X) (do_op env op s)"
    "(op = Make_Pipe \<longrightarrow> fst (sys_Pipe env s) \<noteq> Inl EMFILE) \<longrightarrow> l = {#}"
    using do_op_owns [OF assms(1,2) Cons.prems] by blast
  obtain k where k: "owns env (k + (l + X)) (run_fd_ops env ops (do_op env op s))"
    "pipes_fit env ops (do_op env op s) \<longrightarrow> k = {#}"
    using Cons.IH [OF l(1)] by blast
  show ?case
    using l(2) k by (intro exI [of _ "k + l"]) (simp add: run_fd_ops_def union_assoc)
qed

text \<open>
  C34: Whatever descriptors a program opens, closes, duplicates, replaces or receives, in whatever order
  and whatever the kernel answers and refuses, the descriptor table owns the kernel's handles: every handle in the table
  is one the kernel holds open, no two descriptors share one (so closing or replacing one never closes
  another's), and the kernel holds no handle open that is not in the table, unless a pipe of the run found
  no room for its ends, which loses handles. The kernel is taken to give out handles that are not in use and
  to close those that are open.
\<close>
theorem descriptors_own_handles:
  assumes "gives_fresh_handles env" and "closes_handles env"
    and "s = run_fd_ops env ops initial_process"
  shows "length (fdTable s) = kMaxFd \<and> distinct (filter (\<lambda>h. h \<noteq> 0) (fdTable s)) \<and>
    mset (filter (\<lambda>h. h \<noteq> 0) (fdTable s)) \<subseteq># held env (trace s) \<and>
    (pipes_fit env ops initial_process \<longrightarrow> held env (trace s) = mset (filter (\<lambda>h. h \<noteq> 0) (fdTable s)))"
proof -
  obtain lost where s: "owns env lost s" "pipes_fit env ops initial_process \<longrightarrow> lost = {#}"
    using run_fd_ops_owns [OF assms(1,2) owns_initial, of ops] unfolding assms(3) by auto
  then have held: "held env (trace s) = mset (filter (\<lambda>h. h \<noteq> 0) (fdTable s)) + lost"
    "once (mset (filter (\<lambda>h. h \<noteq> 0) (fdTable s)) + lost)" "length (fdTable s) = kMaxFd"
    by (simp_all add: owns_def table_handles_def wf_fds_def)
  have "once (mset (filter (\<lambda>h. h \<noteq> 0) (fdTable s)))" by (rule once_less [OF held(2)]) simp
  then have "distinct (filter (\<lambda>h. h \<noteq> 0) (fdTable s))"
    by (simp add: once_def distinct_count_atmost_1) (metis count_mset_0_iff le_Suc_eq le_zero_eq)
  then show ?thesis using held s(2) by simp
qed

text \<open>A kernel that numbers its handles, by the calls so far.\<close>

definition numbering :: kernel where
  "numbering cs c =
     (let n = 10 + 2 * int (length cs)
      in if sys_name c \<in> {''PIPE'', ''SOCKETPAIR''} then (0, KLongs [n, n + 1])
         else if sys_name c = ''CLOSE'' then (0, KNone)
         else (if n < 2 ^ 62 then n else -12, KNone))"

lemma numbering_held: "h \<in># held numbering cs \<Longrightarrow> h < 10 + 2 * int (length cs)"
proof (induction cs arbitrary: h rule: rev_induct)
  case (snoc c cs)
  have "set (gained c (numbering cs c)) \<subseteq> {10 + 2 * int (length cs), 11 + 2 * int (length cs)} \<or>
      sc_error (fst (numbering cs c)) \<noteq> 0"
    by (auto simp: gained_def numbering_def long_at_def Let_def sc_error_def copies_handle_def)
  then have "h \<in># held numbering cs \<or> h \<in> {10 + 2 * int (length cs), 11 + 2 * int (length cs)}"
    using snoc.prems by (auto simp: account_def split: if_splits dest: in_diffD)
  then show ?case using snoc.IH [of h] by auto
qed auto

lemma numbering_fresh: "gives_fresh_handles numbering"
  unfolding gives_fresh_handles_def
proof (intro allI impI conjI ballI)
  fix cs :: "kcall list" and c
  let ?n = "10 + 2 * int (length cs)"
  assume ok: "sc_error (fst (numbering cs c)) = 0"
  have got: "gained c (numbering cs c) \<in> {[], [?n], [?n, ?n + 1]}"
    using ok by (auto simp: gained_def numbering_def long_at_def Let_def sc_error_def copies_handle_def split: if_splits)
  then show "distinct (gained c (numbering cs c))" by auto
  fix h
  assume "h \<in> set (gained c (numbering cs c))"
  then have h: "?n \<le> h" using got by auto
  then show "2 < h \<or> h \<in># given_up c" by simp
  show "h \<notin># held numbering cs - given_up c" using h numbering_held [of h cs] by (auto dest: in_diffD)
next
  fix cs :: "kcall list" and c
  assume "sc_error (fst (numbering cs c)) = 0" "sys_name c = ''DUP2''" "fst (numbering cs c) = 0"
  then show "given_up c = {#0#}" by (simp add: numbering_def Let_def split: if_splits)
qed

lemma numbering_closes: "closes_handles numbering"
  by (simp add: closes_handles_def numbering_def sc_error_def)

text \<open>Opening, duplicating onto a free and onto a used descriptor, a pair, closing one that was duplicated.\<close>

definition some_ops :: "fd_op list" where
  "some_ops = [Open_Path ''/etc/hosts'' 0 0, Dup_Fd 3, Dup2_Fd 4 7, Dup2_Fd 3 1, Make_Socketpair 1 1 0, Close_Fd 3]"

theorem descriptors_own_handles_witness:
  "held numbering (trace (run_fd_ops numbering some_ops initial_process)) =
     mset (filter (\<lambda>h. h \<noteq> 0) (fdTable (run_fd_ops numbering some_ops initial_process))) \<and>
   distinct (filter (\<lambda>h. h \<noteq> 0) (fdTable (run_fd_ops numbering some_ops initial_process)))"
  using descriptors_own_handles [OF numbering_fresh numbering_closes refl, of some_ops]
  by (simp add: some_ops_def)

section \<open>Positioned reads and writes\<close>

text \<open>
  What \<open>lseek\<close> promises, for the position \<open>pos log h\<close> of handle \<open>h\<close> after the calls \<open>log\<close>: seeking
  by 0 from the current position reports it and leaves it, seeking to a position reports and
  sets it.
\<close>

definition seeks :: "kernel \<Rightarrow> (kcall list \<Rightarrow> int \<Rightarrow> int) \<Rightarrow> bool" where
  "seeks env pos \<longleftrightarrow>
     (\<forall>log h. 0 \<le> pos log h \<and> is_long (pos log h) \<and>
        fst (env log (Sys ''SEEK'' [L h, L 0, L 1])) = pos log h \<and>
        pos (log @ [Sys ''SEEK'' [L h, L 0, L 1]]) h = pos log h) \<and>
     (\<forall>log h x. 0 \<le> x \<longrightarrow> is_long x \<longrightarrow> fst (env log (Sys ''SEEK'' [L h, L x, L 0])) = x \<and>
        pos (log @ [Sys ''SEEK'' [L h, L x, L 0]]) h = x)"

lemma positioned_calls:
  fixes call :: "int \<Rightarrow> kcall"
  assumes "seeks env pos" and "h = handle_for_fd (fdTable s) fd" and "0 \<le> h" and "0 \<le> off" and "is_long off"
  defines "log \<equiv> trace s @ [Sys ''SEEK'' [L h, L 0, L 1], Sys ''SEEK'' [L h, L off, L 0]]"
  defines "s' \<equiv> s\<lparr>trace := log @ [call h, Sys ''SEEK'' [L h, L (pos (trace s) h), L 0]]\<rparr>"
  shows "positioned env fd off call s =
      (if sc_error (fst (env log (call h))) \<noteq> 0 then Inl (sc_error (fst (env log (call h))))
       else Inr (env log (call h)), s')"
    and "pos log h = off" and "pos (trace s') h = pos (trace s) h"
proof -
  let ?cur = "Sys ''SEEK'' [L h, L 0, L 1]" and ?set = "Sys ''SEEK'' [L h, L off, L 0]"
  obtain o1 where o1: "env (trace s) ?cur = (pos (trace s) h, o1)"
    using assms(1) unfolding seeks_def by (metis prod.collapse)
  obtain o2 where o2: "env (trace s @ [?cur]) ?set = (off, o2)"
    using assms(1,4,5) unfolding seeks_def by (metis prod.collapse)
  have ok: "sc_error (pos (trace s) h) = 0" "sc_error off = 0"
    using assms(1,4,5) sc_error_nonneg unfolding seeks_def by blast+
  obtain r out where r: "env log (call h) = (r, out)" by (cases "env log (call h)")
  have "\<not> handle_for_fd (fdTable s) fd < 0" using assms(2,3) by simp
  then show "positioned env fd off call s =
      (if sc_error (fst (env log (call h))) \<noteq> 0 then Inl (sc_error (fst (env log (call h))))
       else Inr (env log (call h)), s')"
    using o1 o2 ok r
    by (simp add: positioned_def with_handle_def sys_simps log_def s'_def flip: assms(2))
  have "pos ((trace s @ [?cur]) @ [?set]) h = off"
    using assms(1,4,5) unfolding seeks_def by blast
  then show "pos log h = off" by (simp add: log_def)
  have "pos ((log @ [call h]) @ [Sys ''SEEK'' [L h, L (pos (trace s) h), L 0]]) h = pos (trace s) h"
    using assms(1) unfolding seeks_def by blast
  then show "pos (trace s') h = pos (trace s) h" by (simp add: s'_def)
qed

text \<open>
  A positioned read leaves the offset alone: with a kernel that seeks as documented, \<open>Pread\<close>
  makes its \<open>READ\<close> when the file is positioned at \<open>off\<close>, passes its result or error on, and ends
  with the file where it was before, error or not.
\<close>
theorem pread_keeps_offset:
  assumes "seeks env pos" and "h = handle_for_fd (fdTable s) fd" and "0 \<le> h" and "0 \<le> off" and "is_long off"
  shows "\<exists>log s'. pos log h = off \<and> pos (trace s') h = pos (trace s) h \<and> fdTable s' = fdTable s \<and>
    sys_Pread env fd n off s =
      (let (r, out) = env log (Sys ''READ'' [L h, L (int n)])
       in (if sc_error r \<noteq> 0 then Inl (sc_error r) else Inr (r, out_bytes out), s'))"
proof -
  note p1 = positioned_calls(1) [OF assms, where call = "\<lambda>h. Sys ''READ'' [L h, L (int n)]"]
  note p3 = positioned_calls(3) [OF assms, where call = "\<lambda>h. Sys ''READ'' [L h, L (int n)]"]
  show ?thesis
    by (rule exI, rule exI, intro conjI, rule positioned_calls(2) [OF assms], rule p3)
       (simp_all add: sys_Pread_def bindS_def p1 sys_simps split: prod.split)
qed

text \<open>A kernel whose files are at the position last set.\<close>

definition set_position :: "int \<Rightarrow> kcall \<Rightarrow> int option" where
  "set_position h c =
     (case c of
        Sys name [L k, L x, L w] \<Rightarrow>
          if name = ''SEEK'' \<and> k = h \<and> w = 0 \<and> 0 \<le> x \<and> is_long x then Some x else None
      | _ \<Rightarrow> None)"

definition last_set :: "kcall list \<Rightarrow> int \<Rightarrow> int" where
  "last_set log h = fold (\<lambda>c p. case set_position h c of None \<Rightarrow> p | Some x \<Rightarrow> x) log 0"

definition seek_env :: kernel where
  "seek_env log c =
     (case c of
        Sys name [L h, L x, L w] \<Rightarrow>
          if name = ''SEEK'' then (if w = 1 then last_set log h else x, KNone) else (0, KNone)
      | _ \<Rightarrow> (0, KBytes ''ok''))"

lemma set_position_long: "set_position h c = Some x \<Longrightarrow> 0 \<le> x \<and> is_long x"
  by (auto simp: set_position_def split: kcall.splits list.splits karg.splits if_splits)

lemma last_set_long: "0 \<le> last_set log h \<and> is_long (last_set log h)"
proof (induction log rule: rev_induct)
  case Nil
  then show ?case by (simp add: last_set_def is_long_def)
next
  case (snoc c log)
  then show ?case
    using set_position_long [of h c] by (auto simp: last_set_def split: option.split)
qed

lemma seek_env_seeks: "seeks seek_env last_set"
  unfolding seeks_def using last_set_long
  by (auto simp: seek_env_def set_position_def last_set_def)

theorem pread_keeps_offset_witness:
  "\<exists>log s'. last_set log 0 = 40 \<and> last_set (trace s') 0 = 0 \<and>
    sys_Pread seek_env 0 2 40 initial_process =
      (let (r, out) = seek_env log (Sys ''READ'' [L 0, L 2])
       in (if sc_error r \<noteq> 0 then Inl (sc_error r) else Inr (r, out_bytes out), s'))"
proof -
  have "handle_for_fd (fdTable initial_process) 0 = 0"
    by (simp add: handle_for_fd_def initial_process_def kMaxFd_def)
  moreover have "last_set (trace initial_process) 0 = 0"
    by (simp add: last_set_def initial_process_def)
  ultimately show ?thesis
    using pread_keeps_offset [OF seek_env_seeks, of 0 initial_process 0 40 2]
    by (auto simp: is_long_def)
qed

section \<open>Where the table breaks its contract\<close>

text \<open>
  Duplicating from 0 up takes an open descriptor: standard input, whose entry is 0, counts as
  open, but \<open>F_DUPFD\<close> with minimum 0 returns 0 and overwrites it, where POSIX asks for the lowest
  descriptor that is not in use.
\<close>
theorem dupfd_overwrites_stdin:
  assumes "fds_ok s" and "fdTable s ! 0 = 0" and "0 \<le> handle_for_fd (fdTable s) fd"
    and "\<And>c. env (trace s) c = (h, out)" and "0 < h" and "is_long h"
  shows "open_fd (fdTable s) 0 = Some 0 \<and>
    (\<exists>s'. sys_Fcntl env fd F_DUPFD 0 s = (Inr 0, s') \<and> open_fd (fdTable s') 0 = Some h)"
proof -
  have "to_int 0 = 0" by (simp add: to_int_def)
  moreover have "free_slot (fdTable s) 0 = Some 0"
    using assms(2) by (simp add: free_slot.simps kMaxFd_def)
  ultimately have "register_fd_min (fdTable s) h (to_int 0) = Some (0, (fdTable s)[0 := h])"
    by (simp add: register_fd_min_def)
  moreover have "sc_error h = 0" using sc_error_nonneg [OF _ assms(6)] assms(5) by simp
  ultimately have "sys_Fcntl env fd F_DUPFD 0 s = (Inr 0, s\<lparr>trace := trace s @
      [Sys ''FCNTL'' [L (handle_for_fd (fdTable s) fd), L F_DUPFD, L 0]], fdTable := (fdTable s)[0 := h]\<rparr>)"
    using assms(3,4) by (simp add: sys_Fcntl_def with_handle_def sys_simps)
  moreover have "open_fd ((fdTable s)[0 := h]) 0 = Some h"
    using assms(1) by (simp add: open_fd_def fds_ok_def wf_fds_def kMaxFd_def)
  moreover have "open_fd (fdTable s) 0 = Some 0"
    using assms(2) by (simp add: open_fd_def kMaxFd_def)
  ultimately show ?thesis by simp
qed

theorem dupfd_overwrites_stdin_witness:
  "\<exists>s'. sys_Fcntl (\<lambda>log c. (77, KNone)) 1 F_DUPFD 0 initial_process = (Inr 0, s') \<and>
     open_fd (fdTable s') 0 = Some 77"
proof -
  have "fdTable initial_process ! 0 = 0" "0 \<le> handle_for_fd (fdTable initial_process) 1"
    by (simp_all add: initial_process_def handle_for_fd_def kMaxFd_def)
  then show ?thesis
    using dupfd_overwrites_stdin [OF initial_ok, of 1 "\<lambda>log c. (77, KNone)" 77 KNone]
    by (simp add: is_long_def)
qed

text \<open>
  A closed descriptor is not refused: for a descriptor that is not open, \<open>Read\<close> and \<open>Write\<close> do
  not return \<open>EBADF\<close> but read from and write to the kernel handle 0, standard input, although
  \<open>instantos_fd_handle\<close> knows that the descriptor is closed.
\<close>
theorem closed_fd_acts_on_stdin:
  assumes "fds_ok s" and "d < kMaxFd" and "open_fd (fdTable s) d = None"
  shows "instantos_fd_handle (fdTable s) (int d) = -1 \<and>
    trace (snd (sys_Read env (int d) n s)) = trace s @ [Sys ''READ'' [L 0, L (int n)]] \<and>
    trace (snd (sys_Write env (int d) buf s)) = trace s @ [Sys ''WRITE'' [L 0, S buf]] \<and>
    (fst (env (trace s) (Sys ''READ'' [L 0, L (int n)])) = 5 \<longrightarrow>
       (\<exists>data. fst (sys_Read env (int d) n s) = Inr (5, data)))"
proof -
  have d: "fdTable s ! d = 0" "2 < d"
    using assms(2,3) by (auto simp: open_fd_def split: if_splits)
  then have "handle_for_fd (fdTable s) (int d) = 0"
    using assms(2) by (simp add: handle_for_fd_def)
  moreover have "sc_error 5 = 0" by (simp add: sc_error_nonneg is_long_def)
  ultimately show ?thesis
    using assms(2) d
    by (auto simp: sys_Read_def sys_Write_def with_handle_def sys_simps instantos_fd_handle_def
        Let_def split: prod.split)
qed

theorem closed_fd_acts_on_stdin_witness:
  "trace (snd (sys_Read (\<lambda>log c. (5, KBytes ''hello'')) 7 5 initial_process)) = [Sys ''READ'' [L 0, L 5]]"
proof -
  have "open_fd (fdTable initial_process) 7 = None"
    by (simp add: open_fd_def initial_process_def kMaxFd_def)
  then show ?thesis
    using closed_fd_acts_on_stdin [OF initial_ok, of 7 "\<lambda>log c. (5, KBytes ''hello'')" 5 "[]"]
    by (simp add: kMaxFd_def) (simp add: initial_process_def)
qed

section \<open>Blocking connects\<close>

text \<open>A reply after which the waiting loop polls again.\<close>

definition keeps_waiting :: "int \<times> kout \<Rightarrow> bool" where
  "keeps_waiting = (\<lambda>(r, out). if sc_error r \<noteq> 0 then sc_error r = EINTR
     else \<not> bit (revents_of out) 3 \<and> \<not> bit (revents_of out) 4 \<and> \<not> bit (revents_of out) 2)"

lemma connect_wait_again:
  assumes "keeps_waiting (env (trace s) (poll_out h))"
  shows "connect_wait env h s = connect_wait env h (s\<lparr>trace := trace s @ [poll_out h]\<rparr>)"
  using assms
  by (subst connect_wait.simps) (auto simp: keeps_waiting_def Let_def split: prod.splits if_splits)

lemma connect_wait_done:
  assumes "\<not> keeps_waiting (env (trace s) (poll_out h))"
  shows "connect_wait env h s \<noteq> None"
  using assms
  by (subst connect_wait.simps) (auto simp: keeps_waiting_def Let_def split: prod.splits if_splits)

text \<open>
  A blocking connect waits exactly as long as the kernel has nothing to report: the loop
  polls once for every reply that is an interruption or reports no event, and returns at the
  first other one; in particular it returns as soon as the handshake ends.
\<close>
theorem connect_wait_returns:
  assumes "\<forall>j<k. keeps_waiting (env (trace s @ replicate j (poll_out h)) (poll_out h))"
    and "\<not> keeps_waiting (env (trace s @ replicate k (poll_out h)) (poll_out h))"
  shows "\<exists>r. connect_wait env h s = Some r \<and>
    (\<exists>cs. trace (snd r) = trace s @ replicate (Suc k) (poll_out h) @ cs \<and> poll_out h \<notin> set cs) \<and>
    (case env (trace s @ replicate k (poll_out h)) (poll_out h) of (p, out) \<Rightarrow>
       sc_error p = 0 \<and> \<not> bit (revents_of out) 3 \<and> \<not> bit (revents_of out) 4 \<longrightarrow> fst r = Inr ())"
  using assms
proof (induction k arbitrary: s)
  case 0
  then have w: "\<not> keeps_waiting (env (trace s) (poll_out h))" by simp
  obtain p out where p: "env (trace s) (poll_out h) = (p, out)"
    by (cases "env (trace s) (poll_out h)")
  let ?s = "s\<lparr>trace := trace s @ [poll_out h]\<rparr>"
  have "trace (snd (connect_failed env h ?s)) = trace s @ [poll_out h] @
      [Sys ''GETSOCKOPT'' [L h, L SOL_SOCKET, L SO_ERROR, L 4]]"
    by (simp add: connect_failed_def sys_simps split: prod.split)
  then obtain e u where tr: "connect_failed env h ?s = (e, u)" "trace u = trace s @ [poll_out h] @
      [Sys ''GETSOCKOPT'' [L h, L SOL_SOCKET, L SO_ERROR, L 4]]"
    by (cases "connect_failed env h ?s") simp
  have ne: "poll_out h \<noteq> Sys ''GETSOCKOPT'' [L h, L SOL_SOCKET, L SO_ERROR, L 4]" by (simp add: poll_out_def)
  show ?case
    using w p tr ne [symmetric]
    by (subst connect_wait.simps) (auto simp: keeps_waiting_def Let_def)
next
  case (Suc k)
  let ?s = "s\<lparr>trace := trace s @ [poll_out h]\<rparr>"
  have rep: "trace ?s @ replicate j (poll_out h) = trace s @ replicate (Suc j) (poll_out h)" for j
    by simp
  have "\<exists>r. connect_wait env h ?s = Some r \<and>
    (\<exists>cs. trace (snd r) = trace ?s @ replicate (Suc k) (poll_out h) @ cs \<and> poll_out h \<notin> set cs) \<and>
    (case env (trace ?s @ replicate k (poll_out h)) (poll_out h) of (p, out) \<Rightarrow>
       sc_error p = 0 \<and> \<not> bit (revents_of out) 3 \<and> \<not> bit (revents_of out) 4 \<longrightarrow> fst r = Inr ())"
    using Suc.prems by (intro Suc.IH) (unfold rep, blast+)
  moreover have "keeps_waiting (env (trace s) (poll_out h))"
    using Suc.prems(1) by (auto dest: spec [of _ 0])
  ultimately show ?case
    by (simp only: connect_wait_again rep) simp
qed

definition slow_peer :: kernel where
  "slow_peer log c = (0, if length log < 3 then KPolls [0] else KPolls [4])"

theorem connect_wait_returns_witness:
  "\<exists>r. connect_wait slow_peer 5 initial_process = Some r \<and> fst r = Inr ()"
proof -
  have "trace initial_process = []" by (simp add: initial_process_def)
  moreover have "\<forall>j<3. keeps_waiting (slow_peer (replicate j (poll_out 5)) (poll_out 5))"
    by (simp add: keeps_waiting_def slow_peer_def revents_of_def sc_error_def)
  moreover have "\<not> keeps_waiting (slow_peer (replicate 3 (poll_out 5)) (poll_out 5))"
    by (simp add: keeps_waiting_def slow_peer_def revents_of_def sc_error_def bit_iff_odd)
  ultimately show ?thesis
    using connect_wait_returns [of 3 slow_peer initial_process 5]
    by (auto simp: slow_peer_def revents_of_def sc_error_def bit_iff_odd)
qed

end
