(* ===== verification/Sysdeps_Process.thy ===== *)
theory Sysdeps_Process
  imports Sysdeps_Files "HOL-Library.Signed_Division"
begin

text \<open>
  Waiting, time, memory, processes and threads in \<open>sysdeps.cpp\<close>. A descriptor set is a list of
  bits; memory is a function from addresses of 64-bit words.
\<close>

section \<open>Waiting for descriptors\<close>

definition kPollIn :: nat where "kPollIn = 1"
definition kPollOut :: nat where "kPollOut = 4"

definition fd_is_set :: "bool list option \<Rightarrow> nat \<Rightarrow> bool" where
  "fd_is_set fdset fd = (case fdset of None \<Rightarrow> False | Some bits \<Rightarrow> fd < length bits \<and> bits ! fd)"

definition wanted :: "bool list option \<Rightarrow> bool list option \<Rightarrow> nat \<Rightarrow> nat" where
  "wanted rs ws fd = (if fd_is_set rs fd then kPollIn else 0) + (if fd_is_set ws fd then kPollOut else 0)"

text \<open>The collecting loop: at most 64 descriptors.\<close>

fun collect_fds ::
  "int list \<Rightarrow> bool list option \<Rightarrow> bool list option \<Rightarrow> nat list \<Rightarrow> (nat \<times> kpollfd) list \<Rightarrow>
   int + (nat \<times> kpollfd) list" where
  "collect_fds t rs ws [] acc = Inr acc"
| "collect_fds t rs ws (fd # fds) acc =
     (if 64 \<le> length acc then Inr acc
      else if wanted rs ws fd = 0 then collect_fds t rs ws fds acc
      else let h = handle_for_fd t (int fd)
           in if h < 0 then Inl EBADF
              else collect_fds t rs ws fds
                     (acc @ [(fd, \<lparr>p_fd = h, p_events = wanted rs ws fd, p_revents = 0\<rparr>)]))"

definition select_timeout :: "(int \<times> int) option \<Rightarrow> int" where
  "select_timeout timeout =
     (case timeout of None \<Rightarrow> -1 | Some (sec, nsec) \<Rightarrow> sec * 1000 + nsec sdiv 1000000)"

definition ready_bit :: "nat \<Rightarrow> (nat \<times> nat) list \<Rightarrow> nat \<Rightarrow> bool" where
  "ready_bit b results fd = (\<exists>r\<in>set results. fst r = fd \<and> bit (snd r) b)"

definition result_set :: "bool list option \<Rightarrow> nat \<Rightarrow> (nat \<times> nat) list \<Rightarrow> bool list option" where
  "result_set fdset b results =
     map_option (\<lambda>bits. map (ready_bit b results) [0..<length bits]) fdset"

definition is_hit :: "bool list option \<Rightarrow> bool list option \<Rightarrow> nat \<times> nat \<Rightarrow> bool" where
  "is_hit rs ws r = ((rs \<noteq> None \<and> bit (snd r) 0) \<or> (ws \<noteq> None \<and> bit (snd r) 2))"

text \<open>The number of ready descriptors and the result sets; the exception set is cleared.\<close>

definition sys_Pselect ::
  "kernel \<Rightarrow> nat \<Rightarrow> bool list option \<Rightarrow> bool list option \<Rightarrow> (int \<times> int) option \<Rightarrow>
   (nat \<times> bool list option \<times> bool list option) sys" where
  "sys_Pselect env num_fds rs ws timeout =
     bindS (gets (\<lambda>s. collect_fds (fdTable s) rs ws [0..<num_fds] [])) (\<lambda>c.
       case c of
         Inl e \<Rightarrow> throw e
       | Inr pfds \<Rightarrow>
          bindS (if pfds = [] then give [] else
                   bindS (checked env (Sys ''POLL'' [Polls (map snd pfds), L (select_timeout timeout)]))
                     (\<lambda>(_, out). give (out_polls out))) (\<lambda>revents.
            let results = zip (map fst pfds) revents
            in give (length (filter (is_hit rs ws) results),
                     result_set rs 0 results, result_set ws 2 results)))"

definition poll_entry :: "int list \<Rightarrow> int \<times> nat \<Rightarrow> kpollfd" where
  "poll_entry t f =
     \<lparr>p_fd = (if fst f < 0 \<or> handle_for_fd t (fst f) < 0 then -1 else handle_for_fd t (fst f)),
      p_events = snd f, p_revents = 0\<rparr>"

definition sys_Poll :: "kernel \<Rightarrow> (int \<times> nat) list \<Rightarrow> int \<Rightarrow> (int \<times> nat list) sys" where
  "sys_Poll env fds timeout =
     (if fds = [] then give (0, [])
      else if 64 < length fds then throw EINVAL
      else bindS (gets (\<lambda>s. map (poll_entry (fdTable s)) fds)) (\<lambda>kfds.
        bindS (checked env (Sys ''POLL'' [Polls kfds, L timeout])) (\<lambda>(ready, out).
          give (to_int ready, out_polls out))))"

section \<open>Clocks\<close>

definition ns_time :: "int \<Rightarrow> int \<times> int" where
  "ns_time ns = (ns sdiv 1000000000, ns smod 1000000000)"

definition ms_nanos :: "int \<Rightarrow> int" where
  "ms_nanos ms = (ms smod 1000) * 1000000"

definition sys_ClockGet :: "kernel \<Rightarrow> int \<Rightarrow> (int \<times> int) sys" where
  "sys_ClockGet env clock =
     (if clock = 1 \<or> clock = 4 \<or> clock = 7 then
        bindS (syscall env (Sys ''GETTIME_NS'' [])) (\<lambda>(ns, _).
          if sc_error ns = 0 then give (ns_time ns)
          else bindS (checked env (Sys ''GETTIME'' [])) (\<lambda>(ms, _).
            give (ms sdiv 1000, ms_nanos ms)))
      else
        bindS (syscall env (Sys ''GETUNIXTIME_NS'' [])) (\<lambda>(ns, _).
          if sc_error ns = 0 then give (ns_time ns)
          else bindS (syscall env (Sys ''GETTIME'' [])) (\<lambda>(ms, _).
            bindS (checked env (Sys ''GETUNIXTIME'' [])) (\<lambda>(unixt, _).
              give (unixt, if sc_error ms = 0 then ms_nanos ms else 0)))))"

definition sys_ClockSet :: "kernel \<Rightarrow> int \<Rightarrow> int \<Rightarrow> int \<Rightarrow> unit sys" where
  "sys_ClockSet env clock secs nanos =
     (if clock \<noteq> 0 \<or> secs < 0 \<or> nanos < 0 \<or> 1000000000 \<le> nanos then throw EINVAL
      else plain env (Sys ''SETUNIXTIME'' [L (secs * 1000000000 + nanos)]))"

definition sys_ClockGetres :: "int \<Rightarrow> int \<times> int" where
  "sys_ClockGetres clock = (0, 1000000)"

definition sys_Sleep :: "kernel \<Rightarrow> int \<Rightarrow> int \<Rightarrow> (int \<times> int) sys" where
  "sys_Sleep env secs nanos =
     bindS (checked env (Sys ''SLEEP'' [L (secs * 1000 + nanos sdiv 1000000)])) (\<lambda>_. give (0, 0))"

definition sys_Times :: "kernel \<Rightarrow> int sys" where
  "sys_Times env = bindS (syscall env (Sys ''GETTIME'' [])) (\<lambda>(ms, _). give ms)"

section \<open>Memory\<close>

text \<open>\<open>MAP_ANONYMOUS\<close> is bit 5 of the flags.\<close>

definition sys_VmMap :: "kernel \<Rightarrow> int \<Rightarrow> nat \<Rightarrow> int \<Rightarrow> int \<Rightarrow> int \<Rightarrow> int \<Rightarrow> int sys" where
  "sys_VmMap env hint len prot flags fd offset =
     (if bit flags 5 \<or> fd < 0 then
        bindS (checked env (Sys ''MMAP'' [L hint, L (to_long len), L prot])) (\<lambda>(r, _). give r)
      else with_handle fd (\<lambda>h.
        bindS (checked env (Sys ''MMAP_FILE''
                 [Ls [hint, to_long len, prot, flags, h, offset]])) (\<lambda>(r, _). give r)))"

text \<open>\<open>PROT_READ | PROT_WRITE\<close> is 3, \<open>MAP_PRIVATE | MAP_ANONYMOUS\<close> is 0x22.\<close>

definition sys_AnonAllocate :: "kernel \<Rightarrow> nat \<Rightarrow> int sys" where
  "sys_AnonAllocate env len = sys_VmMap env 0 len 3 0x22 (-1) 0"

definition sys_VmUnmap :: "kernel \<Rightarrow> int \<Rightarrow> nat \<Rightarrow> unit sys" where
  "sys_VmUnmap env p len = plain env (Sys ''MUNMAP'' [L p, L (to_long len)])"

definition sys_AnonFree :: "kernel \<Rightarrow> int \<Rightarrow> nat \<Rightarrow> unit sys" where
  "sys_AnonFree env p len = sys_VmUnmap env p len"

definition sys_VmProtect :: "kernel \<Rightarrow> int \<Rightarrow> nat \<Rightarrow> int \<Rightarrow> unit sys" where
  "sys_VmProtect env p len prot = plain env (Sys ''MPROTECT'' [L p, L (to_long len), L prot])"

definition sys_Msync :: "kernel \<Rightarrow> int \<Rightarrow> nat \<Rightarrow> int \<Rightarrow> unit sys" where
  "sys_Msync env p len flags = plain env (Sys ''MSYNC'' [L p, L (to_long len), L flags])"

section \<open>Threads\<close>

definition kDefaultThreadStack :: nat where "kDefaultThreadStack = 0x200000"

text \<open>
  \<open>PrepareStack\<close>: the stack to use (0 for a new one), and its size (0 for the default); it
  returns the initial stack pointer, base and size, and the memory with the entry arguments.
\<close>

definition push_word :: "nat \<Rightarrow> nat \<times> (nat \<Rightarrow> nat) \<Rightarrow> nat \<times> (nat \<Rightarrow> nat)" where
  "push_word v = (\<lambda>(sp, mem). (sp - 8, mem(sp - 8 := v)))"

definition sys_PrepareStack ::
  "kernel \<Rightarrow> nat \<Rightarrow> nat \<Rightarrow> nat \<Rightarrow> nat \<Rightarrow> nat \<Rightarrow> (nat \<Rightarrow> nat) \<Rightarrow>
   (nat \<times> nat \<times> nat \<times> (nat \<Rightarrow> nat)) sys" where
  "sys_PrepareStack env stack entry user_arg tcb stack_size mem =
     (let stack_size = (if stack_size = 0 then kDefaultThreadStack else stack_size)
      in bindS (if stack \<noteq> 0 then give stack
                else bindS (sys_AnonAllocate env stack_size) (\<lambda>p. give (nat p))) (\<lambda>base.
         let (sp, mem) = fold push_word [0, user_arg, tcb, entry] (base + stack_size, mem)
         in give (sp, base, stack_size, mem)))"

definition sys_Clone :: "kernel \<Rightarrow> int \<Rightarrow> int sys" where
  "sys_Clone env stack = bindS (checked env (Sys ''THREAD_CLONE'' [L stack])) (\<lambda>(r, _). give (to_int r))"

text \<open>The entry stub pops its three arguments and a filler.\<close>

definition thread_entry :: "nat \<Rightarrow> (nat \<Rightarrow> nat) \<Rightarrow> nat \<times> nat \<times> nat \<times> nat" where
  "thread_entry sp mem = (mem sp, mem (sp + 8), mem (sp + 16), sp + 32)"

section \<open>Random bytes and system information\<close>

text \<open>\<open>GetEntropy\<close>: chunks of at most 256 bytes.\<close>

function entropy_loop :: "kernel \<Rightarrow> nat \<Rightarrow> nat \<Rightarrow> string \<Rightarrow> string sys" where
  "entropy_loop env done len buf =
     (if done < len then
        let chunk = (if len - done < 256 then len - done else 256)
        in bindS (checked env (Sys ''GETENTROPY'' [L (int chunk)])) (\<lambda>(_, out).
             entropy_loop env (done + chunk) len (buf @ take chunk (out_bytes out)))
      else give buf)"
  by pat_completeness auto
termination
  by (relation "measure (\<lambda>(env, done, len, buf). len - done)") auto

declare entropy_loop.simps [simp del]

definition sys_GetEntropy :: "kernel \<Rightarrow> nat \<Rightarrow> string sys" where
  "sys_GetEntropy env len = entropy_loop env 0 len []"

definition parse_decimal :: "string \<Rightarrow> nat" where
  "parse_decimal value =
     foldl (\<lambda>r c. (r * 10 + (of_char c - 48)) mod 18446744073709551616) 0
       (takeWhile (\<lambda>c. 48 \<le> (of_char c :: nat) \<and> (of_char c :: nat) \<le> 57) value)"

datatype sysconf_name = OpenMax | ChildMax | NProcessors | PhysPages | AvPhysPages | OtherConf

definition available_mb :: "string \<Rightarrow> string \<Rightarrow> nat" where
  "available_mb total_mb used_mb =
     (if parse_decimal used_mb < parse_decimal total_mb
      then parse_decimal total_mb - parse_decimal used_mb else 0)"

text \<open>\<open>OSINFO\<close> answers the two decimal strings of the memory fields.\<close>

definition sys_Sysconf :: "kernel \<Rightarrow> (kout \<Rightarrow> string \<times> string) \<Rightarrow> sysconf_name \<Rightarrow> int sys" where
  "sys_Sysconf env ram number =
     (case number of
        OpenMax \<Rightarrow> give (int kMaxFd)
      | ChildMax \<Rightarrow> give 1024
      | NProcessors \<Rightarrow>
          bindS (syscall env (Sys ''CPU_INFO'' [L 0, L 0])) (\<lambda>(r, _). give (if 0 < r then r else 1))
      | PhysPages \<Rightarrow>
          bindS (checked env (Sys ''OSINFO'' [])) (\<lambda>(_, out).
            give (to_long (parse_decimal (fst (ram out)) * 256 mod 18446744073709551616)))
      | AvPhysPages \<Rightarrow>
          bindS (checked env (Sys ''OSINFO'' [])) (\<lambda>(_, out).
            give (to_long (available_mb (fst (ram out)) (snd (ram out)) * 256 mod 18446744073709551616)))
      | OtherConf \<Rightarrow> throw EINVAL)"

definition sys_GetHostname :: "nat \<Rightarrow> string sys" where
  "sys_GetHostname bufsize =
     (if bufsize = 0 then throw EINVAL else give (append_loop bufsize [] ''instantos''))"

definition set_field :: "string \<Rightarrow> string" where
  "set_field src = take 64 src"

definition sys_Uname :: "string list" where
  "sys_Uname =
     map set_field [''InstantOS'', ''instantos'', ''1.0'', ''InstantOS 1.0'', ''x86_64'']"

definition sys_GetPgid :: "kernel \<Rightarrow> int \<Rightarrow> int sys" where
  "sys_GetPgid env pid =
     (if pid = 0 then bindS (syscall env (Sys ''GETPID'' [])) (\<lambda>(r, _). give (to_int r)) else give pid)"

definition sys_GetGroups :: "kernel \<Rightarrow> nat option \<Rightarrow> (int \<times> int list) sys" where
  "sys_GetGroups env capacity =
     bindS (syscall env (Sys ''GETGID'' [])) (\<lambda>(gid, _).
       case capacity of
         None \<Rightarrow> throw EINVAL
       | Some n \<Rightarrow> give (1, if n = 0 then [] else [gid]))"

text \<open>\<open>RLIMIT_NOFILE\<close> is 7; unlimited is all ones.\<close>

definition sys_GetRlimit :: "int \<Rightarrow> nat \<times> nat" where
  "sys_GetRlimit resource =
     (if resource = 7 then (256, 256) else (18446744073709551615, 18446744073709551615))"

section \<open>Processes and signals\<close>

definition sys_Fork :: "kernel \<Rightarrow> int sys" where
  "sys_Fork env = bindS (checked env (Sys ''FORK'' [])) (\<lambda>(r, _). give (to_int r))"

definition sys_Waitpid :: "kernel \<Rightarrow> int \<Rightarrow> int \<Rightarrow> (int \<times> kout) sys" where
  "sys_Waitpid env pid flags =
     bindS (checked env (Sys ''WAIT'' [L pid, L flags])) (\<lambda>(r, out). give (to_int r, out))"

definition sys_Execve :: "kernel \<Rightarrow> string \<Rightarrow> string list \<Rightarrow> string list \<Rightarrow> unit sys" where
  "sys_Execve env path argv envp =
     bindS (gets fdTable) (\<lambda>t.
     bindS (ignore env (Sys ''FDTABLE_STASH'' [Ls t, L (int kMaxFd)])) (\<lambda>_.
       plain env (Sys ''EXEC'' (S path # map S argv @ Null # map S envp))))"

text \<open>
  At process start the table is fetched back; a process that stashed nothing keeps the default.
\<close>

definition restore_fdtable :: "kernel \<Rightarrow> unit sys" where
  "restore_fdtable env =
     bindS (syscall env (Sys ''FDTABLE_FETCH'' [L (int kMaxFd)])) (\<lambda>(_, out).
       case out of
         KLongs t \<Rightarrow> modify (\<lambda>s. s\<lparr>fdTable := take kMaxFd (t @ drop (length t) (fdTable s))\<rparr>)
       | _ \<Rightarrow> give ())"

definition sys_Kill :: "kernel \<Rightarrow> int \<Rightarrow> int \<Rightarrow> unit sys" where
  "sys_Kill env pid sig = plain env (Sys ''KILL'' [L pid, L sig])"

record sigact =
  sa_handler :: nat
  sa_mask :: nat
  sa_flags :: nat

text \<open>\<open>Sigaction\<close>: the layer's trampoline is always the restorer.\<close>

definition sys_Sigaction :: "kernel \<Rightarrow> int \<Rightarrow> int \<Rightarrow> sigact option \<Rightarrow> kout sys" where
  "sys_Sigaction env restorer signum act =
     bindS (checked env (Sys ''SIGACTION'' [L signum,
        (case act of None \<Rightarrow> Null
         | Some a \<Rightarrow> Ls [to_long (sa_handler a), to_long (sa_mask a), to_long (sa_flags a), restorer])]))
       (\<lambda>(_, out). give out)"

definition sys_Sigprocmask :: "kernel \<Rightarrow> int \<Rightarrow> nat list option \<Rightarrow> nat list sys" where
  "sys_Sigprocmask env how blocked =
     bindS (checked env (Sys ''SIGPROCMASK'' [L how,
        (case blocked of None \<Rightarrow> Null | Some ws \<Rightarrow> Ls [to_long (hd ws)])])) (\<lambda>(_, out).
       give [nat (long_at 0 out mod 18446744073709551616)])"

section \<open>What waiting reports\<close>

lemma collect_fds_sound:
  assumes "collect_fds t rs ws fds acc = Inr r" and "distinct (map fst acc @ fds)"
    and "\<forall>x\<in>set acc. p_events (snd x) = wanted rs ws (fst x)"
  shows "distinct (map fst r) \<and> (\<forall>x\<in>set r. p_events (snd x) = wanted rs ws (fst x)) \<and>
    set (map fst r) \<subseteq> set (map fst acc) \<union> set fds"
  using assms
proof (induction fds arbitrary: acc)
  case (Cons fd fds)
  consider "64 \<le> length acc" | "length acc < 64" "wanted rs ws fd = 0"
    | "length acc < 64" "wanted rs ws fd \<noteq> 0" by linarith
  then show ?case
  proof cases
    case 1
    then show ?thesis using Cons.prems by auto
  next
    case 2
    then show ?thesis using Cons.IH [of acc] Cons.prems by auto
  next
    case 3
    then have "collect_fds t rs ws fds (acc @ [(fd, \<lparr>p_fd = handle_for_fd t (int fd),
        p_events = wanted rs ws fd, p_revents = 0\<rparr>)]) = Inr r"
      using Cons.prems(1) by (auto simp: Let_def split: if_splits)
    from Cons.IH [OF this] Cons.prems show ?thesis by auto
  qed
qed auto

lemma wanted_bits:
  "bit (wanted rs ws fd) 0 \<longleftrightarrow> fd_is_set rs fd" "bit (wanted rs ws fd) 2 \<longleftrightarrow> fd_is_set ws fd"
  by (simp_all add: wanted_def kPollIn_def kPollOut_def bit_iff_odd)

lemma result_set_bit:
  "fd_is_set (result_set fds b results) fd \<Longrightarrow> ready_bit b results fd"
  by (auto simp: fd_is_set_def result_set_def split: option.splits)

lemma result_set_iff:
  "fd_is_set fds fd \<Longrightarrow> fd_is_set (result_set fds b results) fd \<longleftrightarrow> ready_bit b results fd"
  by (auto simp: fd_is_set_def result_set_def split: option.splits)

text \<open>The kernel's contract of \<open>poll\<close>: it reports input and output only where they were asked for.\<close>

definition polls_requested :: "kernel \<Rightarrow> bool" where
  "polls_requested env \<longleftrightarrow>
     (\<forall>log pfds t. list_all2 (\<lambda>p r. (bit r 0 \<longrightarrow> bit (p_events p) 0) \<and> (bit r 2 \<longrightarrow> bit (p_events p) 2))
        pfds (out_polls (snd (env log (Sys ''POLL'' [Polls pfds, L t])))))"

lemma length_filter_card:
  "distinct (map f xs) \<Longrightarrow> length (filter P xs) = card (f ` {x \<in> set xs. P x})"
proof -
  assume d: "distinct (map f xs)"
  then have "distinct (map f (filter P xs))" by (simp add: distinct_map inj_on_def)
  then have "card (set (map f (filter P xs))) = length (filter P xs)"
    using distinct_card by fastforce
  then show ?thesis by simp
qed

text \<open>
  \<open>select\<close> reports only what was asked for: with such a kernel, when \<open>Pselect\<close> succeeds, every
  descriptor in a result set was in the corresponding given set and below \<open>num_fds\<close>, and the
  returned number counts the descriptors in either result set once.
\<close>
theorem pselect_reports_requested:
  assumes "polls_requested env"
    and "sys_Pselect env num_fds rs ws timeout s = (Inr (n, rs', ws'), s')"
  shows "(\<forall>fd. fd_is_set rs' fd \<longrightarrow> fd_is_set rs fd \<and> fd < num_fds) \<and>
    (\<forall>fd. fd_is_set ws' fd \<longrightarrow> fd_is_set ws fd \<and> fd < num_fds) \<and>
    n = card {fd. fd_is_set rs' fd \<or> fd_is_set ws' fd}"
proof -
  obtain pfds where c: "collect_fds (fdTable s) rs ws [0..<num_fds] [] = Inr pfds"
    using assms(2) by (auto simp: sys_Pselect_def sys_simps split: sum.splits)
  have p: "distinct (map fst pfds)" "\<forall>x\<in>set pfds. p_events (snd x) = wanted rs ws (fst x)"
    "\<forall>x\<in>set pfds. fst x < num_fds"
    using collect_fds_sound [OF c] by auto
  obtain revents where r: "list_all2 (\<lambda>p r. (bit r 0 \<longrightarrow> bit (p_events p) 0) \<and> (bit r 2 \<longrightarrow> bit (p_events p) 2))
      (map snd pfds) revents" "n = length (filter (is_hit rs ws) (zip (map fst pfds) revents))"
      "rs' = result_set rs 0 (zip (map fst pfds) revents)"
      "ws' = result_set ws 2 (zip (map fst pfds) revents)"
  proof (cases "pfds = []")
    case True
    then show ?thesis using that [of "[]"] assms(2) c by (simp add: sys_Pselect_def sys_simps)
  next
    case False
    let ?c = "Sys ''POLL'' [Polls (map snd pfds), L (select_timeout timeout)]"
    show ?thesis
      using that [of "out_polls (snd (env (trace s) ?c))"] assms c False
      by (auto simp: sys_Pselect_def sys_simps polls_requested_def Let_def split: prod.splits if_splits)
  qed
  let ?rs = "zip (map fst pfds) revents"
  have len: "length revents = length pfds" using list_all2_lengthD [OF r(1)] by simp
  have asked: "fst x < num_fds \<and> (bit (snd x) 0 \<longrightarrow> fd_is_set rs (fst x)) \<and> (bit (snd x) 2 \<longrightarrow> fd_is_set ws (fst x))"
    if x: "x \<in> set ?rs" for x
  proof -
    obtain i where i: "i < length pfds" "x = (fst (pfds ! i), revents ! i)"
      using x len by (auto simp: set_zip)
    have "(bit (revents ! i) 0 \<longrightarrow> bit (p_events (snd (pfds ! i))) 0) \<and>
        (bit (revents ! i) 2 \<longrightarrow> bit (p_events (snd (pfds ! i))) 2)"
      using list_all2_nthD [OF r(1), of i] i by simp
    moreover have "pfds ! i \<in> set pfds" using i by simp
    ultimately show ?thesis using p(2,3) i(2) wanted_bits by simp
  qed
  have sets: "fd_is_set rs' fd \<longleftrightarrow> ready_bit 0 ?rs fd" "fd_is_set ws' fd \<longleftrightarrow> ready_bit 2 ?rs fd" for fd
    using result_set_bit result_set_iff asked unfolding r(3,4) ready_bit_def by metis+
  have hit: "is_hit rs ws x \<longleftrightarrow> bit (snd x) 0 \<or> bit (snd x) 2" if "x \<in> set ?rs" for x
    using asked [OF that] by (auto simp: is_hit_def fd_is_set_def split: option.splits)
  have "distinct (map fst ?rs)" using p(1) len by simp
  then have "n = card (fst ` {x \<in> set ?rs. is_hit rs ws x})"
    unfolding r(2) by (rule length_filter_card)
  also have "fst ` {x \<in> set ?rs. is_hit rs ws x} = {fd. fd_is_set rs' fd \<or> fd_is_set ws' fd}"
    unfolding sets ready_bit_def using hit by force
  finally show ?thesis
    using asked unfolding sets ready_bit_def by blast
qed

definition ready_env :: kernel where
  "ready_env log c =
     (1, case sys_args c of [Polls pfds, L t] \<Rightarrow> KPolls (map p_events pfds) | _ \<Rightarrow> KNone)"

theorem pselect_reports_requested_witness:
  "\<exists>n rs' ws' s'. sys_Pselect ready_env 4 (Some [True, False, False, True]) None None initial_process =
     (Inr (n, rs', ws'), s') \<and> n = card {fd. fd_is_set rs' fd \<or> fd_is_set ws' fd}"
proof -
  have "polls_requested ready_env"
    by (auto simp: polls_requested_def ready_env_def list_all2_map2 list_all2_refl)
  moreover have "\<exists>n rs' ws' s'. sys_Pselect ready_env 4 (Some [True, False, False, True]) None None initial_process =
     (Inr (n, rs', ws'), s')"
    by (simp add: sys_Pselect_def sys_simps upt_rec wanted_def fd_is_set_def kPollIn_def kPollOut_def
        handle_for_fd_def initial_process_def kMaxFd_def ready_env_def sc_error_def Let_def)
  ultimately show ?thesis using pselect_reports_requested by blast
qed

section \<open>Thread stacks\<close>

text \<open>
  A new thread finds its arguments: for a stack of at least 32 bytes at a 16-byte aligned
  address and size, the entry stub pops exactly the entry, the thread's TCB and the argument that
  \<open>PrepareStack\<close> was given, from inside the stack, and ends with the pointer at the top of the
  stack, aligned as the ABI asks at a call.
\<close>
theorem prepare_stack_entry:
  assumes "stack \<noteq> 0" and "stack mod 16 = 0" and "32 \<le> n" and "n mod 16 = 0"
  shows "\<exists>sp mem'. sys_PrepareStack env stack entry user_arg tcb n mem s = (Inr (sp, stack, n, mem'), s) \<and>
    thread_entry sp mem' = (entry, tcb, user_arg, stack + n) \<and> stack \<le> sp \<and> sp mod 16 = 0 \<and>
    (\<forall>a. a < sp \<or> stack + n \<le> a \<longrightarrow> mem' a = mem a)"
proof -
  define b where "b = stack + n - 32"
  have top: "stack + n = b + 32" "stack \<le> b" using assms(3) by (simp_all add: b_def)
  have align: "b mod 16 = 0"
    using assms(2,3,4) unfolding b_def by presburger
  have "fold push_word [0, user_arg, tcb, entry] (b + 32, mem) =
      (b, mem(b + 24 := 0, b + 16 := user_arg, b + 8 := tcb, b := entry))"
    by (simp add: push_word_def add.commute)
  then have "sys_PrepareStack env stack entry user_arg tcb n mem s =
      (Inr (b, stack, n, mem(b + 24 := 0, b + 16 := user_arg, b + 8 := tcb, b := entry)), s)"
    using assms(1,3) by (simp add: sys_PrepareStack_def sys_simps top Let_def)
  then show ?thesis
    using align top(2) by (simp add: thread_entry_def top(1))
qed

theorem prepare_stack_entry_witness:
  "\<exists>sp mem'. sys_PrepareStack (\<lambda>log c. (0, KNone)) 4096 11 12 13 64 (\<lambda>a. 0) initial_process =
      (Inr (sp, 4096, 64, mem'), initial_process) \<and> thread_entry sp mem' = (11, 13, 12, 4160)"
  using prepare_stack_entry [of 4096 64 "\<lambda>log c. (0, KNone)" 11 12 13 "\<lambda>a. 0" initial_process]
  by auto

end
