(* ===== verification/Loader.thy ===== *)
theory Loader
  imports Prelude
begin

unbundle bit_operations_syntax

text \<open>
  The dynamic linker, \<open>src/ld-instantos/src/main.cpp\<close>: loading the libraries the program needs,
  breadth first and each once, resolving symbols, applying relocations, protecting segments and
  running initialisers. Addresses and sizes are 64-bit words. The layout of the ELF structures
  is not in the repository (\<open>common/elf.hpp\<close>): the model is given functions that decode them
  from memory or from a file. A fatal error ends the program with its message.
\<close>

section \<open>Data\<close>

type_synonym u64 = "64 word"
type_synonym memory = "u64 \<Rightarrow> 8 word"

definition PAGE_SIZE :: u64 where "PAGE_SIZE = 4096"
definition LIBRARY_BASE :: u64 where "LIBRARY_BASE = 0x0000580000000000"
definition LIBRARY_STRIDE :: u64 where "LIBRARY_STRIDE = 0x0000000004000000"
definition MAX_OBJECTS :: nat where "MAX_OBJECTS = 16"
definition MAX_SEGMENTS :: nat where "MAX_SEGMENTS = 16"
definition MAX_NEEDED :: nat where "MAX_NEEDED = 16"

datatype elf_type = TypeExecutable | TypeDynamic | OtherType

record elf_header =
  identOk :: bool
  e_type :: elf_type
  e_entry :: u64
  e_phoff :: u64
  e_phentsize :: u64
  e_phnum :: nat

datatype ph_type = ProgramLoad | ProgramDynamic | ProgramPhdr | OtherProgram

record program_header =
  ph_type :: ph_type
  ph_flags :: nat
  ph_offset :: u64
  ph_vaddr :: u64
  ph_filesz :: u64
  ph_memsz :: u64

datatype dyn_tag =
    DynamicStrTab | DynamicSymTab | DynamicHash | DynamicRela | DynamicRelaSize | DynamicRelaEnt
  | DynamicJmpRel | DynamicPltRelSize | DynamicInitArray | DynamicInitArraySize | DynamicInit
  | DynamicRel | DynamicRelSize | DynamicRelEnt | DynamicNeeded | OtherDynamic

record symbol =
  sym_name :: u64
  sym_binding :: nat
  sym_section :: nat
  sym_value :: u64
  sym_size :: u64

datatype reloc_type = RelNone | RelRelative | Rel64 | RelGlobDat | RelJumpSlot | RelCopy | OtherRel "32 word"

record rela =
  r_offset :: u64
  r_type :: reloc_type
  r_symbol :: nat
  r_addend :: u64

text \<open>
  The decoders: of a file (its header, if it is long enough, and its program headers), and of
  structures in memory (the dynamic entries up to the terminator, the number of symbols in the
  hash table, symbols, relocations, words, C strings).
\<close>

record elf_format =
  header_size :: nat
  phdr_size :: u64
  rela_size :: u64
  file_header :: "8 word list \<Rightarrow> elf_header"
  file_phdr :: "8 word list \<Rightarrow> u64 \<Rightarrow> nat \<Rightarrow> program_header"
  phdr_at :: "memory \<Rightarrow> u64 \<Rightarrow> nat \<Rightarrow> program_header"
  dynamic_at :: "memory \<Rightarrow> u64 \<Rightarrow> (dyn_tag \<times> u64) list"
  hash_symbols :: "memory \<Rightarrow> u64 \<Rightarrow> nat"
  symbol_at :: "memory \<Rightarrow> u64 \<Rightarrow> nat \<Rightarrow> symbol"
  rela_at :: "memory \<Rightarrow> u64 \<Rightarrow> nat \<Rightarrow> rela"
  word_at :: "memory \<Rightarrow> u64 \<Rightarrow> u64"
  store_word :: "memory \<Rightarrow> u64 \<Rightarrow> u64 \<Rightarrow> memory"
  string_at :: "memory \<Rightarrow> u64 \<Rightarrow> string"

record segment =
  seg_address :: u64
  seg_size :: u64
  seg_protection :: nat

record elf_object =
  obj_name :: string
  obj_base :: u64
  obj_entry :: u64
  obj_phdr :: u64
  obj_phnum :: nat
  obj_dynamic :: u64
  strtab :: u64
  symtab :: u64
  symbolCount :: nat
  relaTab :: u64
  relaCount :: nat
  jmprel :: u64
  jmprelCount :: nat
  initArray :: u64
  initArrayCount :: nat
  initFn :: u64
  needed :: "u64 list"
  segments :: "segment list"
  relocated :: bool
  initDone :: bool

text \<open>The calls of the linker: of the kernel, and of initialisers, which may change memory.\<close>

datatype ld_call =
    LdMmap u64 u64 nat | LdMprotect u64 u64 nat | LdStat string | LdOpen string
  | LdRead u64 u64 | LdClose u64 | LdWrite string | LdInit u64

datatype ld_reply = LdFail | LdNum u64 | LdBytes "8 word list" | LdMemory "memory \<Rightarrow> memory"

type_synonym ld_env = "(ld_call, ld_reply) environment"

record linker =
  mem :: memory
  objects :: "elf_object list"
  nextLibraryBase :: u64
  ldcalls :: "ld_call list"

text \<open>A fatal error with its message, or undefined behaviour: a read of bytes outside the file, or a
  shift of a 32-bit value by 32 or more.\<close>

datatype ld_error = Fatal string | OutsideFile | ShiftTooFar

section \<open>Small functions\<close>

definition alignDown :: "u64 \<Rightarrow> u64 \<Rightarrow> u64" where
  "alignDown value alignment = value AND NOT (alignment - 1)"

definition alignUp :: "u64 \<Rightarrow> u64 \<Rightarrow> u64" where
  "alignUp value alignment = (value + alignment - 1) AND NOT (alignment - 1)"

text \<open>\<open>cstrEqual\<close>: the loop over both strings up to the first difference or the common end.\<close>

fun equal_loop :: "string \<Rightarrow> string \<Rightarrow> bool" where
  "equal_loop [] [] = True"
| "equal_loop (a # as) [] = False"
| "equal_loop [] (b # bs) = False"
| "equal_loop (a # as) (b # bs) = (if a \<noteq> b then False else equal_loop as bs)"

definition cstrEqual :: "string option \<Rightarrow> string option \<Rightarrow> bool" where
  "cstrEqual a b = (case (a, b) of (Some a, Some b) \<Rightarrow> equal_loop a b | _ \<Rightarrow> False)"

definition copyString :: "nat \<Rightarrow> string \<Rightarrow> string" where
  "copyString capacity src = append_loop capacity [] src"

definition appendString :: "nat \<Rightarrow> string \<Rightarrow> string \<Rightarrow> string" where
  "appendString capacity dst src = append_loop capacity dst src"

text \<open>The ELF flags and the kernel's protection bits: execute 1, write 2, read 4, and 4, 2, 1.\<close>

definition protectionFromElf :: "nat \<Rightarrow> nat" where
  "protectionFromElf flags =
     (if bit flags 2 then 1 else 0) + (if bit flags 1 then 2 else 0) + (if bit flags 0 then 4 else 0)"

definition ask_ld :: "ld_env \<Rightarrow> ld_call \<Rightarrow> linker \<Rightarrow> ld_reply \<times> linker" where
  "ask_ld env c s = (env (ldcalls s) c, s\<lparr>ldcalls := ldcalls s @ [c]\<rparr>)"

section \<open>Files and memory\<close>

definition validateElf :: "elf_format \<Rightarrow> 8 word list \<Rightarrow> elf_header option" where
  "validateElf fmt data =
     (if length data < header_size fmt then None
      else let h = file_header fmt data;
               phEnd = e_phoff h + e_phentsize h * of_nat (e_phnum h)
           in if \<not> identOk h \<or> e_phentsize h \<noteq> phdr_size fmt \<or> e_phnum h = 0 then None
              else if e_type h \<noteq> TypeExecutable \<and> e_type h \<noteq> TypeDynamic then None
              else if of_nat (length data) < phEnd \<or> phEnd < e_phoff h then None
              else Some h)"

definition mapMemory :: "ld_env \<Rightarrow> u64 \<Rightarrow> u64 \<Rightarrow> nat \<Rightarrow> linker \<Rightarrow> ld_error + u64 \<times> linker" where
  "mapMemory env address len prot s =
     (case ask_ld env (LdMmap address len prot) s of
        (LdNum a, s) \<Rightarrow> Inr (a, s)
      | _ \<Rightarrow> Inl (Fatal ''mmap failed''))"

definition protectMemory :: "ld_env \<Rightarrow> u64 \<Rightarrow> u64 \<Rightarrow> nat \<Rightarrow> linker \<Rightarrow> ld_error + linker" where
  "protectMemory env address len prot s =
     (case ask_ld env (LdMprotect address len prot) s of
        (LdFail, s) \<Rightarrow> Inl (Fatal ''mprotect failed'')
      | (_, s) \<Rightarrow> Inr s)"

text \<open>\<open>readWholeFile\<close>: the bytes of the file, which the kernel stored in the new mapping.\<close>

definition readWholeFile :: "ld_env \<Rightarrow> string \<Rightarrow> linker \<Rightarrow> ld_error + 8 word list \<times> linker" where
  "readWholeFile env path s =
     (case ask_ld env (LdStat path) s of
        (LdNum st_size, s) \<Rightarrow>
          if st_size = 0 then Inl (Fatal ''stat failed'')
          else seqE (mapMemory env 0 (alignUp st_size PAGE_SIZE) 3 s) (\<lambda>(buffer, s).
            case ask_ld env (LdOpen path) s of
              (LdNum handle, s) \<Rightarrow>
                (case ask_ld env (LdRead handle st_size) s of
                   (LdBytes bs, s) \<Rightarrow>
                     (case ask_ld env (LdClose handle) s of (_, s) \<Rightarrow>
                        if of_nat (length bs) \<noteq> st_size then Inl (Fatal ''read failed'')
                        else Inr (bs, s))
                 | (_, s) \<Rightarrow> Inl (Fatal ''read failed''))
            | (_, s) \<Rightarrow> Inl (Fatal ''open failed''))
      | (_, s) \<Rightarrow> Inl (Fatal ''stat failed''))"

text \<open>\<open>copyBytes\<close> of a range of the file into memory.\<close>

definition copyBytes :: "8 word list \<Rightarrow> u64 \<Rightarrow> u64 \<Rightarrow> u64 \<Rightarrow> memory \<Rightarrow> ld_error + memory" where
  "copyBytes data offset dst n m =
     (if length data < unat offset + unat n then Inl OutsideFile
      else Inr (\<lambda>a. if a - dst < n then data ! (unat offset + unat (a - dst)) else m a))"

text \<open>\<open>copyBytes\<close> within memory, byte by byte upwards.\<close>

definition copyMemory :: "u64 \<Rightarrow> u64 \<Rightarrow> u64 \<Rightarrow> memory \<Rightarrow> memory" where
  "copyMemory dst src n m = fold (\<lambda>i m. m(dst + of_nat i := m (src + of_nat i))) [0..<unat n] m"

section \<open>Objects\<close>

fun find_index_from :: "nat \<Rightarrow> (elf_object \<Rightarrow> bool) \<Rightarrow> elf_object list \<Rightarrow> nat option" where
  "find_index_from i p [] = None"
| "find_index_from i p (ob # obs) = (if p ob then Some i else find_index_from (Suc i) p obs)"

definition findObject :: "linker \<Rightarrow> string \<Rightarrow> nat option" where
  "findObject s name =
     find_index_from 0 (\<lambda>ob. cstrEqual (Some (obj_name ob)) (Some name)) (objects s)"

definition empty_object :: elf_object where
  "empty_object =
     \<lparr>obj_name = [], obj_base = 0, obj_entry = 0, obj_phdr = 0, obj_phnum = 0, obj_dynamic = 0,
      strtab = 0, symtab = 0, symbolCount = 0, relaTab = 0, relaCount = 0, jmprel = 0,
      jmprelCount = 0, initArray = 0, initArrayCount = 0, initFn = 0, needed = [], segments = [],
      relocated = False, initDone = False\<rparr>"

definition registerObject :: "string \<Rightarrow> linker \<Rightarrow> ld_error + nat \<times> linker" where
  "registerObject name s =
     (if MAX_OBJECTS \<le> length (objects s) then Inl (Fatal ''too many loaded objects'')
      else Inr (length (objects s),
                s\<lparr>objects := objects s @ [empty_object\<lparr>obj_name := copyString 64 name\<rparr>]\<rparr>))"

definition update_object :: "nat \<Rightarrow> (elf_object \<Rightarrow> elf_object) \<Rightarrow> linker \<Rightarrow> linker" where
  "update_object i f s = s\<lparr>objects := (objects s)[i := f (objects s ! i)]\<rparr>"

record dyn_state =
  ds_object :: elf_object
  ds_relaSize :: u64
  ds_relaEnt :: u64
  ds_jmpRelSize :: u64
  ds_initArraySize :: u64
  ds_hash :: u64

text \<open>One entry of the first pass over the dynamic section.\<close>

definition dynamic_entry :: "dyn_tag \<times> u64 \<Rightarrow> dyn_state \<Rightarrow> ld_error + dyn_state" where
  "dynamic_entry e d =
     (let v = snd e; ob = ds_object d; p = obj_base ob + v
      in case fst e of
           DynamicStrTab \<Rightarrow> Inr (d\<lparr>ds_object := ob\<lparr>strtab := p\<rparr>\<rparr>)
         | DynamicSymTab \<Rightarrow> Inr (d\<lparr>ds_object := ob\<lparr>symtab := p\<rparr>\<rparr>)
         | DynamicHash \<Rightarrow> Inr (d\<lparr>ds_hash := p\<rparr>)
         | DynamicRela \<Rightarrow> Inr (d\<lparr>ds_object := ob\<lparr>relaTab := p\<rparr>\<rparr>)
         | DynamicRelaSize \<Rightarrow> Inr (d\<lparr>ds_relaSize := v\<rparr>)
         | DynamicRelaEnt \<Rightarrow> Inr (d\<lparr>ds_relaEnt := v\<rparr>)
         | DynamicJmpRel \<Rightarrow> Inr (d\<lparr>ds_object := ob\<lparr>jmprel := p\<rparr>\<rparr>)
         | DynamicPltRelSize \<Rightarrow> Inr (d\<lparr>ds_jmpRelSize := v\<rparr>)
         | DynamicInitArray \<Rightarrow> Inr (d\<lparr>ds_object := ob\<lparr>initArray := p\<rparr>\<rparr>)
         | DynamicInitArraySize \<Rightarrow> Inr (d\<lparr>ds_initArraySize := v\<rparr>)
         | DynamicInit \<Rightarrow> Inr (d\<lparr>ds_object := ob\<lparr>initFn := p\<rparr>\<rparr>)
         | DynamicRel \<Rightarrow> Inl (Fatal ''REL relocations are unsupported'')
         | DynamicRelSize \<Rightarrow> Inl (Fatal ''REL relocations are unsupported'')
         | DynamicRelEnt \<Rightarrow> Inl (Fatal ''REL relocations are unsupported'')
         | DynamicNeeded \<Rightarrow> Inr d
         | OtherDynamic \<Rightarrow> Inr d)"

text \<open>The second pass collects the names of the needed libraries.\<close>

definition needed_entry :: "dyn_tag \<times> u64 \<Rightarrow> elf_object \<Rightarrow> ld_error + elf_object" where
  "needed_entry e ob =
     (if fst e \<noteq> DynamicNeeded then Inr ob
      else if MAX_NEEDED \<le> length (needed ob) then Inl (Fatal ''too many dependencies'')
      else Inr (ob\<lparr>needed := needed ob @ [strtab ob + snd e]\<rparr>))"

definition clear_dynamic :: "elf_object \<Rightarrow> elf_object" where
  "clear_dynamic ob =
     ob\<lparr>strtab := 0, symtab := 0, symbolCount := 0, relaTab := 0, relaCount := 0, jmprel := 0,
        jmprelCount := 0, initArray := 0, initArrayCount := 0, initFn := 0, needed := []\<rparr>"

definition parseDynamic :: "elf_format \<Rightarrow> memory \<Rightarrow> elf_object \<Rightarrow> ld_error + elf_object" where
  "parseDynamic fmt m ob =
     (let ob = clear_dynamic ob
      in if obj_dynamic ob = 0 then Inr ob
         else let entries = dynamic_at fmt m (obj_dynamic ob)
         in seqE (foreach entries dynamic_entry
                \<lparr>ds_object = ob, ds_relaSize = 0, ds_relaEnt = rela_size fmt, ds_jmpRelSize = 0,
                 ds_initArraySize = 0, ds_hash = 0\<rparr>) (\<lambda>d.
              let ob = ds_object d
              in if strtab ob = 0 \<or> symtab ob = 0 \<or> ds_hash d = 0
                 then Inl (Fatal ''object is missing dynamic tables'')
                 else if ds_relaEnt d \<noteq> rela_size fmt then Inl (Fatal ''unexpected RELA entry size'')
                 else foreach entries needed_entry
                   (ob\<lparr>symbolCount := hash_symbols fmt m (ds_hash d),
                       relaCount := unat (ds_relaSize d div rela_size fmt),
                       jmprelCount := unat (ds_jmpRelSize d div rela_size fmt),
                       initArrayCount := unat (ds_initArraySize d div 8)\<rparr>)))"

section \<open>Loading\<close>

text \<open>One segment: checked, mapped, filled and recorded; \<open>top\<close> is the highest address so far.\<close>

definition load_segment ::
  "elf_format \<Rightarrow> ld_env \<Rightarrow> 8 word list \<Rightarrow> u64 \<Rightarrow> nat \<Rightarrow> program_header \<Rightarrow> u64 \<times> linker \<Rightarrow>
   ld_error + u64 \<times> linker" where
  "load_segment fmt env data loadBase i ph = (\<lambda>(maxAddress, s).
     if ph_type ph \<noteq> ProgramLoad then Inr (maxAddress, s)
     else if ph_memsz ph < ph_filesz ph \<or> of_nat (length data) < ph_offset ph + ph_filesz ph
     then Inl (Fatal ''bad dependency segment'')
     else
       let segmentStart = loadBase + ph_vaddr ph;
           mapStart = alignDown segmentStart PAGE_SIZE;
           pageOffset = segmentStart - mapStart;
           mapSize = alignUp (pageOffset + ph_memsz ph) PAGE_SIZE
       in seqE (mapMemory env mapStart mapSize 7 s) (\<lambda>(_, s).
          seqE (copyBytes data (ph_offset ph) segmentStart (ph_filesz ph) (mem s)) (\<lambda>m.
            let s = s\<lparr>mem := m\<rparr>; ob = objects s ! i
            in if MAX_SEGMENTS \<le> length (segments ob) then Inl (Fatal ''too many segments'')
               else Inr (if maxAddress < mapStart + mapSize then mapStart + mapSize else maxAddress,
                         update_object i (\<lambda>ob. ob\<lparr>segments := segments ob @
                           [\<lparr>seg_address = mapStart, seg_size = mapSize,
                             seg_protection = protectionFromElf (ph_flags ph)\<rparr>]\<rparr>) s))))"

definition note_header :: "u64 \<Rightarrow> program_header \<Rightarrow> elf_object \<Rightarrow> elf_object" where
  "note_header loadBase ph ob =
     (if ph_type ph = ProgramDynamic then ob\<lparr>obj_dynamic := loadBase + ph_vaddr ph\<rparr>
      else if ph_type ph = ProgramPhdr then ob\<lparr>obj_phdr := loadBase + ph_vaddr ph\<rparr>
      else ob)"

definition loadObjectFromMemory ::
  "elf_format \<Rightarrow> ld_env \<Rightarrow> string \<Rightarrow> 8 word list \<Rightarrow> u64 \<Rightarrow> linker \<Rightarrow> ld_error + nat \<times> linker" where
  "loadObjectFromMemory fmt env name data preferredBase s =
     (case validateElf fmt data of
        None \<Rightarrow> Inl (Fatal ''invalid ELF dependency'')
      | Some h \<Rightarrow>
         let phdrs = map (file_phdr fmt data (e_phoff h)) [0..<e_phnum h];
             loadBase = (if e_type h = TypeDynamic then preferredBase else 0)
         in seqE (registerObject name s) (\<lambda>(i, s).
            seqE (foreach phdrs (load_segment fmt env data loadBase i)
                    (loadBase, update_object i (\<lambda>ob. ob\<lparr>obj_base := loadBase,
                       obj_entry := loadBase + e_entry h, obj_phnum := e_phnum h\<rparr>) s))
              (\<lambda>(maxAddress, s).
                let s = (if e_type h = TypeDynamic
                         then s\<lparr>nextLibraryBase := alignUp (maxAddress + LIBRARY_STRIDE) LIBRARY_STRIDE\<rparr>
                         else s);
                    ob = fold (note_header loadBase) phdrs (objects s ! i);
                    ob = (if obj_phdr ob = 0 then ob\<lparr>obj_phdr := loadBase + e_phoff h\<rparr> else ob)
                in seqE (parseDynamic fmt (mem s) ob)
                     (\<lambda>ob. Inr (i, update_object i (\<lambda>_. ob) s)))))"

definition soname_aliases :: "(string \<times> string) list" where
  "soname_aliases =
     [(''libm.so.6'', ''libinstant.so''), (''libc.so.6'', ''libinstant.so''),
      (''libc.so'', ''libinstant.so''), (''libpthread.so.0'', ''libinstant.so''),
      (''libdl.so.2'', ''libinstant.so''), (''librt.so.1'', ''libinstant.so'')]"

fun resolve_in :: "(string \<times> string) list \<Rightarrow> string \<Rightarrow> string" where
  "resolve_in [] name = name"
| "resolve_in ((a, b) # as) name =
     (if cstrEqual (Some name) (Some a) then b else resolve_in as name)"

definition resolveSoname :: "string \<Rightarrow> string" where
  "resolveSoname name = resolve_in soname_aliases name"

definition loadDependency :: "elf_format \<Rightarrow> ld_env \<Rightarrow> string \<Rightarrow> linker \<Rightarrow> ld_error + nat \<times> linker" where
  "loadDependency fmt env name s =
     (let resolved = resolveSoname name
      in case findObject s resolved of
           Some i \<Rightarrow> Inr (i, s)
         | None \<Rightarrow>
            seqE (readWholeFile env (appendString 128 (copyString 128 ''/lib/'') resolved) s)
              (\<lambda>(data, s). loadObjectFromMemory fmt env resolved data (nextLibraryBase s) s))"

end
