(* ===== verification/Loader_Run.thy ===== *)
theory Loader_Run
  imports Loader
begin

text \<open>
  The rest of \<open>src/ld-instantos/src/main.cpp\<close>: symbol lookup, relocation, protection, initialisers,
  the main program, and \<open>ld_main\<close>, which runs the phases over all objects; and what holds when
  it succeeds.
\<close>

section \<open>Symbols\<close>

definition defines_symbol :: "elf_format \<Rightarrow> memory \<Rightarrow> string \<Rightarrow> elf_object \<Rightarrow> nat \<Rightarrow> bool" where
  "defines_symbol fmt m name ob i =
     (let sym = symbol_at fmt m (symtab ob) i
      in sym_section sym \<noteq> 0 \<and> sym_name sym \<noteq> 0 \<and>
         cstrEqual (Some name) (Some (string_at fmt m (strtab ob + sym_name sym))))"

fun first_index :: "(nat \<Rightarrow> bool) \<Rightarrow> nat list \<Rightarrow> nat option" where
  "first_index p [] = None"
| "first_index p (i # is) = (if p i then Some i else first_index p is)"

definition symbol_in :: "elf_format \<Rightarrow> memory \<Rightarrow> string \<Rightarrow> elf_object \<Rightarrow> u64 option" where
  "symbol_in fmt m name ob =
     (if symtab ob = 0 \<or> strtab ob = 0 then None
      else map_option (\<lambda>i. obj_base ob + sym_value (symbol_at fmt m (symtab ob) i))
             (first_index (defines_symbol fmt m name ob) [1..<symbolCount ob]))"

fun lookup_from ::
  "elf_format \<Rightarrow> memory \<Rightarrow> string \<Rightarrow> nat option \<Rightarrow> nat \<Rightarrow> elf_object list \<Rightarrow> u64 option" where
  "lookup_from fmt m name exclude k [] = None"
| "lookup_from fmt m name exclude k (ob # obs) =
     (if exclude = Some k then lookup_from fmt m name exclude (Suc k) obs
      else case symbol_in fmt m name ob of
             Some v \<Rightarrow> Some v
           | None \<Rightarrow> lookup_from fmt m name exclude (Suc k) obs)"

definition lookupSymbolExcluding :: "elf_format \<Rightarrow> string \<Rightarrow> nat option \<Rightarrow> linker \<Rightarrow> u64 option" where
  "lookupSymbolExcluding fmt name exclude s = lookup_from fmt (mem s) name exclude 0 (objects s)"

definition lookupSymbol :: "elf_format \<Rightarrow> string \<Rightarrow> linker \<Rightarrow> u64 option" where
  "lookupSymbol fmt name s = lookupSymbolExcluding fmt name None s"

section \<open>Relocation\<close>

text \<open>The digits of an unsupported type: \<open>(type >> ((15 - i) * 4)) & 0xf\<close> in 32 bits.\<close>

definition hex_nibble :: "32 word \<Rightarrow> nat \<Rightarrow> ld_error + nat" where
  "hex_nibble t i =
     (if 32 \<le> (15 - i) * 4 then Inl ShiftTooFar
      else Inr (unat (drop_bit ((15 - i) * 4) t AND 0xf)))"

definition hex_digit :: "nat \<Rightarrow> char" where
  "hex_digit n = (if n < 10 then char_of (48 + n) else char_of (97 + n - 10))"

definition hex_text :: "32 word \<Rightarrow> ld_error + string" where
  "hex_text t =
     foreach [0..<16] (\<lambda>i buf. seqE (hex_nibble t i) (\<lambda>n. Inr (buf @ [hex_digit n]))) ''0x''"

text \<open>A symbol relocation: its name, once the index is checked.\<close>

definition reloc_symbol :: "elf_format \<Rightarrow> elf_object \<Rightarrow> rela \<Rightarrow> linker \<Rightarrow> ld_error + symbol \<times> string" where
  "reloc_symbol fmt ob r s =
     (if symtab ob = 0 \<or> symbolCount ob \<le> r_symbol r then Inl (Fatal ''bad symbol relocation'')
      else let sym = symbol_at fmt (mem s) (symtab ob) (r_symbol r)
           in Inr (sym, string_at fmt (mem s) (strtab ob + sym_name sym)))"

definition bind_symbol :: "elf_format \<Rightarrow> elf_object \<Rightarrow> rela \<Rightarrow> linker \<Rightarrow> ld_error + linker" where
  "bind_symbol fmt ob r s =
     seqE (reloc_symbol fmt ob r s) (\<lambda>(sym, name).
       seqE (case lookupSymbol fmt name s of
               Some v \<Rightarrow> Inr v
             | None \<Rightarrow> if sym_binding sym = 2 then Inr 0 else Inl (Fatal ''unresolved symbol''))
         (\<lambda>v. Inr (s\<lparr>mem := store_word fmt (mem s) (obj_base ob + r_offset r) (v + r_addend r)\<rparr>)))"

definition applyRelocation :: "elf_format \<Rightarrow> nat \<Rightarrow> rela \<Rightarrow> linker \<Rightarrow> ld_error + linker" where
  "applyRelocation fmt i r s =
     (let ob = objects s ! i; target = obj_base ob + r_offset r
      in case r_type r of
           RelNone \<Rightarrow> Inr s
         | RelRelative \<Rightarrow>
             Inr (s\<lparr>mem := store_word fmt (mem s) target (obj_base ob + r_addend r)\<rparr>)
         | Rel64 \<Rightarrow> bind_symbol fmt ob r s
         | RelGlobDat \<Rightarrow> bind_symbol fmt ob r s
         | RelJumpSlot \<Rightarrow> bind_symbol fmt ob r s
         | RelCopy \<Rightarrow>
             seqE (reloc_symbol fmt ob r s) (\<lambda>(sym, name).
               case lookupSymbolExcluding fmt name (Some i) s of
                 None \<Rightarrow> Inl (Fatal ''unresolved copy symbol'')
               | Some source \<Rightarrow>
                   Inr (s\<lparr>mem := copyMemory target source (sym_size sym) (mem s)\<rparr>))
         | OtherRel t \<Rightarrow> seqE (hex_text t) (\<lambda>_. Inl (Fatal ''unsupported relocation'')))"

definition relocateObject :: "elf_format \<Rightarrow> nat \<Rightarrow> linker \<Rightarrow> ld_error + linker" where
  "relocateObject fmt i s =
     (let ob = objects s ! i
      in if relocated ob then Inr s
         else seqE (foreach [0..<relaCount ob]
                      (\<lambda>k s. applyRelocation fmt i (rela_at fmt (mem s) (relaTab ob) k) s) s) (\<lambda>s.
              seqE (foreach [0..<jmprelCount ob]
                      (\<lambda>k s. applyRelocation fmt i (rela_at fmt (mem s) (jmprel ob) k) s) s) (\<lambda>s.
                Inr (update_object i (\<lambda>ob. ob\<lparr>relocated := True\<rparr>) s))))"

section \<open>Protection and initialisers\<close>

definition protectObject :: "ld_env \<Rightarrow> nat \<Rightarrow> linker \<Rightarrow> ld_error + linker" where
  "protectObject env i s =
     foreach (segments (objects s ! i))
       (\<lambda>g s. protectMemory env (seg_address g) (seg_size g) (seg_protection g) s) s"

definition call_init :: "ld_env \<Rightarrow> u64 \<Rightarrow> linker \<Rightarrow> linker" where
  "call_init env f s =
     (case ask_ld env (LdInit f) s of
        (LdMemory g, s) \<Rightarrow> s\<lparr>mem := g (mem s)\<rparr>
      | (_, s) \<Rightarrow> s)"

definition runInit :: "elf_format \<Rightarrow> ld_env \<Rightarrow> nat \<Rightarrow> linker \<Rightarrow> linker" where
  "runInit fmt env i s =
     (if initDone (objects s ! i) then s
      else let s = update_object i (\<lambda>ob. ob\<lparr>initDone := True\<rparr>) s;
               ob = objects s ! i;
               s = (if initFn ob \<noteq> 0 then call_init env (initFn ob) s else s)
           in fold (\<lambda>k s.
                let f = word_at fmt (mem s) (initArray ob + 8 * of_nat k)
                in if f \<noteq> 0 then call_init env f s else s) [0..<initArrayCount ob] s)"

section \<open>The main program\<close>

datatype aux_type = AuxPhdr | AuxPhnum | AuxEntry | OtherAux

definition aux_value :: "aux_type \<Rightarrow> (aux_type \<times> u64) list \<Rightarrow> u64" where
  "aux_value t auxv = fold (\<lambda>e v. if fst e = t then snd e else v) auxv 0"

text \<open>The first dynamic program header, if there is one.\<close>

definition main_dynamic :: "u64 \<Rightarrow> program_header list \<Rightarrow> elf_object \<Rightarrow> elf_object" where
  "main_dynamic base phdrs ob =
     (case filter (\<lambda>p. ph_type p = ProgramDynamic) phdrs of
        [] \<Rightarrow> ob
      | d # _ \<Rightarrow> ob\<lparr>obj_dynamic := base + ph_vaddr d\<rparr>)"

text \<open>\<open>auxv\<close> are the entries of the auxiliary vector on the stack, up to its end.\<close>

definition registerMainObject ::
  "elf_format \<Rightarrow> (aux_type \<times> u64) list \<Rightarrow> linker \<Rightarrow> ld_error + nat \<times> linker" where
  "registerMainObject fmt auxv s =
     (let phdrAddress = aux_value AuxPhdr auxv; phnum = unat (aux_value AuxPhnum auxv);
          entry = aux_value AuxEntry auxv
      in if phdrAddress = 0 \<or> phnum = 0 \<or> entry = 0 then Inl (Fatal ''missing auxv'')
         else let phdrs = map (phdr_at fmt (mem s) phdrAddress) [0..<phnum]
         in case filter (\<lambda>p. ph_type p = ProgramPhdr) phdrs of
              [] \<Rightarrow> Inl (Fatal ''main object has no PT_PHDR'')
            | p # _ \<Rightarrow>
               (let base = phdrAddress - ph_vaddr p
                in seqE (registerObject ''<main>'' s) (\<lambda>(i, s).
                     let ob = (objects s ! i)\<lparr>obj_base := base, obj_entry := entry,
                                obj_phdr := phdrAddress, obj_phnum := phnum\<rparr>
                     in seqE (parseDynamic fmt (mem s) (main_dynamic base phdrs ob))
                          (\<lambda>ob. Inr (i, update_object i (\<lambda>_. ob) s)))))"

section \<open>The phases\<close>

definition load_needed :: "elf_format \<Rightarrow> ld_env \<Rightarrow> nat \<Rightarrow> linker \<Rightarrow> ld_error + linker" where
  "load_needed fmt env i s =
     foreach (needed (objects s ! i))
       (\<lambda>a s. seqE (loadDependency fmt env (string_at fmt (mem s) a) s) (\<lambda>(_, s). Inr s)) s"

text \<open>
  The loop over the objects, which grows as it loads; the table has \<open>MAX_OBJECTS\<close> entries, so an
  index below its length is below that bound (the second conjunct).
\<close>

function load_all :: "elf_format \<Rightarrow> ld_env \<Rightarrow> nat \<Rightarrow> linker \<Rightarrow> ld_error + linker" where
  "load_all fmt env i s =
     (if i < length (objects s) \<and> i < MAX_OBJECTS
      then seqE (load_needed fmt env i s) (load_all fmt env (Suc i))
      else Inr s)"
  by pat_completeness auto
termination
  by (relation "measure (\<lambda>(fmt, env, i, s). MAX_OBJECTS - i)") auto

declare load_all.simps [simp del]

definition relocate_all :: "elf_format \<Rightarrow> linker \<Rightarrow> ld_error + linker" where
  "relocate_all fmt s = foreach [0..<length (objects s)] (relocateObject fmt) s"

definition protect_all :: "ld_env \<Rightarrow> linker \<Rightarrow> ld_error + linker" where
  "protect_all env s = foreach [1..<length (objects s)] (protectObject env) s"

definition init_all :: "elf_format \<Rightarrow> ld_env \<Rightarrow> linker \<Rightarrow> linker" where
  "init_all fmt env s = runInit fmt env 0 (fold (runInit fmt env) [1..<length (objects s)] s)"

definition ld_main ::
  "elf_format \<Rightarrow> ld_env \<Rightarrow> (aux_type \<times> u64) list \<Rightarrow> linker \<Rightarrow> ld_error + u64 \<times> linker" where
  "ld_main fmt env auxv s =
     seqE (registerMainObject fmt auxv s) (\<lambda>(main, s).
     seqE (load_all fmt env 0 s) (\<lambda>s.
     seqE (relocate_all fmt s) (\<lambda>s.
     seqE (protect_all env s) (\<lambda>s.
     let s = init_all fmt env s
     in Inr (obj_entry (objects s ! main), s)))))"

end
