(* ===== verification/Loader_Proofs.thy ===== *)
theory Loader_Proofs
  imports Loader_Run
begin

text \<open>
  What holds when the dynamic linker succeeds: each library is loaded once, every object is
  relocated and initialised once, in order, and symbols bind to their first definition; and two
  inputs on which it leaves the defined behaviour of the language.
\<close>

section \<open>Loading keeps the objects there are\<close>

lemma equal_loop_iff: "equal_loop a b \<longleftrightarrow> a = b"
  by (induction a b rule: equal_loop.induct) auto

lemma cstrEqual_iff [simp]: "cstrEqual (Some a) (Some b) \<longleftrightarrow> a = b"
  by (simp add: cstrEqual_def equal_loop_iff)

lemma foreach_keeps:
  assumes "foreach xs f s = Inr s'" and "R s s"
    and "\<And>x u v. x \<in> set xs \<Longrightarrow> R s u \<Longrightarrow> f x u = Inr v \<Longrightarrow> R s v"
  shows "R s s'"
proof -
  have "R s u \<Longrightarrow> foreach xs f u = Inr s' \<Longrightarrow> R s s'" for u
    using assms(3)
  proof (induction xs arbitrary: u)
    case (Cons x xs)
    then obtain v where "f x u = Inr v" "foreach xs f v = Inr s'" by (auto simp: seqE_eq_Inr)
    then show ?case using Cons by (meson list.set_intros)
  qed simp
  then show ?thesis using assms(1,2) by blast
qed

text \<open>The identity of an object, which its loading and parsing leave alone.\<close>

definition ident :: "elf_object \<Rightarrow> string \<times> bool \<times> bool" where
  "ident ob = (obj_name ob, relocated ob, initDone ob)"

lemma parseDynamic_ident:
  assumes "parseDynamic fmt m ob = Inr ob'"
  shows "ident ob' = ident ob"
proof -
  have dyn: "ident (ds_object d') = ident (ds_object d)" if "dynamic_entry e d = Inr d'" for e d d'
    using that by (auto simp: dynamic_entry_def Let_def ident_def split: dyn_tag.splits)
  have need: "ident ob' = ident ob" if "needed_entry e ob = Inr ob'" for e ob ob'
    using that by (auto simp: needed_entry_def ident_def split: if_splits)
  have clear: "ident (clear_dynamic ob) = ident ob" by (simp add: clear_dynamic_def ident_def)
  show ?thesis
  proof (cases "obj_dynamic (clear_dynamic ob) = 0")
    case True
    then show ?thesis using assms clear by (simp add: parseDynamic_def Let_def)
  next
    case False
    let ?es = "dynamic_at fmt m (obj_dynamic (clear_dynamic ob))"
    obtain d ob2 where d: "foreach ?es dynamic_entry
        \<lparr>ds_object = clear_dynamic ob, ds_relaSize = 0, ds_relaEnt = rela_size fmt, ds_jmpRelSize = 0,
         ds_initArraySize = 0, ds_hash = 0\<rparr> = Inr d" (is "foreach _ _ ?d0 = _")
      "foreach ?es needed_entry ob2 = Inr ob'" "ident ob2 = ident (ds_object d)"
      using assms False
      by (auto simp: parseDynamic_def Let_def seqE_eq_Inr ident_def split: if_splits)
    have "ident (ds_object d) = ident (ds_object ?d0)"
      using foreach_keeps [OF d(1), of "\<lambda>a b. ident (ds_object b) = ident (ds_object a)"] dyn by metis
    moreover have "ident ob' = ident ob2"
      using foreach_keeps [OF d(2), of "\<lambda>a b. ident b = ident a"] need by metis
    ultimately show ?thesis using d(3) clear by simp
  qed
qed

text \<open>Only object \<open>i\<close> changes, and not in its identity.\<close>

definition only_changes :: "nat \<Rightarrow> linker \<Rightarrow> linker \<Rightarrow> bool" where
  "only_changes i s s' \<longleftrightarrow> length (objects s') = length (objects s) \<and>
     (\<forall>j. j \<noteq> i \<longrightarrow> objects s' ! j = objects s ! j) \<and>
     ident (objects s' ! i) = ident (objects s ! i)"

lemma only_changes_refl [simp]: "only_changes i s s"
  by (simp add: only_changes_def)

lemma only_changes_trans: "only_changes i s u \<Longrightarrow> only_changes i u v \<Longrightarrow> only_changes i s v"
  by (auto simp: only_changes_def)

lemma only_changes_same: "objects s' = objects s \<Longrightarrow> only_changes i s s'"
  by (simp add: only_changes_def)

lemma only_changes_update:
  assumes "\<And>ob. ob = objects s ! i \<Longrightarrow> ident (f ob) = ident ob"
  shows "only_changes i s (update_object i f s)"
  using assms
  by (cases "i < length (objects s)") (auto simp: only_changes_def update_object_def list_update_beyond)

lemma ask_ld_objects: "ask_ld env c s = (r, s') \<Longrightarrow> objects s' = objects s \<and> mem s' = mem s"
  by (auto simp: ask_ld_def)

lemma mapMemory_objects: "mapMemory env a n p s = Inr (r, s') \<Longrightarrow> objects s' = objects s \<and> mem s' = mem s"
  by (auto simp: mapMemory_def ask_ld_def split: ld_reply.splits)

lemma readWholeFile_objects:
  assumes "readWholeFile env path s = Inr (bs, s')"
  shows "objects s' = objects s"
proof -
  obtain n where n: "env (ldcalls s) (LdStat path) = LdNum n" "n \<noteq> 0"
    using assms by (auto simp: readWholeFile_def ask_ld_def split: ld_reply.splits if_splits)
  then obtain b u where u: "mapMemory env 0 (alignUp n PAGE_SIZE) 3 (s\<lparr>ldcalls := ldcalls s @ [LdStat path]\<rparr>) = Inr (b, u)"
    using assms by (auto simp: readWholeFile_def ask_ld_def seqE_eq_Inr)
  then obtain h where h: "env (ldcalls u) (LdOpen path) = LdNum h"
    using assms n by (auto simp: readWholeFile_def ask_ld_def split: ld_reply.splits)
  then obtain xs where "env (ldcalls u @ [LdOpen path]) (LdRead h n) = LdBytes xs"
    using assms n u by (auto simp: readWholeFile_def ask_ld_def split: ld_reply.splits)
  then show ?thesis
    using assms n u h mapMemory_objects [OF u]
    by (auto simp: readWholeFile_def ask_ld_def split: if_splits)
qed

lemma load_segment_changes:
  assumes "load_segment fmt env data b i ph (t, s) = Inr (t', s')"
  shows "only_changes i s s'"
proof (cases "ph_type ph = ProgramLoad")
  case True
  let ?start = "alignDown (b + ph_vaddr ph) PAGE_SIZE"
  obtain r u m g where u: "mapMemory env ?start g 7 s = Inr (r, u)"
    "s' = update_object i (\<lambda>ob. ob\<lparr>segments := segments ob @
        [\<lparr>seg_address = ?start, seg_size = g, seg_protection = protectionFromElf (ph_flags ph)\<rparr>]\<rparr>) (u\<lparr>mem := m\<rparr>)"
    using assms True by (auto simp: load_segment_def Let_def seqE_eq_Inr split: if_splits)
  have "only_changes i s (u\<lparr>mem := m\<rparr>)"
    using mapMemory_objects [OF u(1)] by (intro only_changes_same) simp
  then show ?thesis
    unfolding u(2) by (rule only_changes_trans) (rule only_changes_update, simp add: ident_def)
next
  case False
  then show ?thesis using assms by (simp add: load_segment_def)
qed

lemma load_segments_change:
  assumes "foreach phs (load_segment fmt env data b i) (t, s) = Inr (t', s')"
  shows "only_changes i s s'"
  using foreach_keeps [OF assms, of "\<lambda>p q. only_changes i (snd p) (snd q)"] load_segment_changes
    only_changes_trans by fastforce

lemma note_headers_ident: "ident (fold (note_header b) phs ob) = ident ob"
  by (induction phs arbitrary: ob) (simp_all add: note_header_def ident_def)

text \<open>A loaded object is appended; nothing else changes.\<close>

lemma loadObject_appends:
  assumes "loadObjectFromMemory fmt env name data base s = Inr (i, s')"
  shows "i = length (objects s) \<and> length (objects s) < MAX_OBJECTS \<and>
    (\<exists>ob. objects s' = objects s @ [ob] \<and> ident ob = (copyString 64 name, False, False))"
proof -
  obtain h where h: "validateElf fmt data = Some h"
    using assms by (auto simp: loadObjectFromMemory_def split: option.splits)
  let ?phs = "map (file_phdr fmt data (e_phoff h)) [0..<e_phnum h]"
  let ?b = "if e_type h = TypeDynamic then base else 0"
  let ?new = "empty_object\<lparr>obj_name := copyString 64 name\<rparr>"
  let ?i = "length (objects s)"
  let ?s1 = "update_object ?i (\<lambda>ob. ob\<lparr>obj_base := ?b, obj_entry := ?b + e_entry h, obj_phnum := e_phnum h\<rparr>)
      (s\<lparr>objects := objects s @ [?new]\<rparr>)"
  have room: "length (objects s) < MAX_OBJECTS" and i: "i = ?i"
    using assms h by (auto simp: loadObjectFromMemory_def registerObject_def Let_def seqE_eq_Inr split: if_splits)
  have reg: "registerObject name s = Inr (?i, s\<lparr>objects := objects s @ [?new]\<rparr>)"
    using room by (simp add: registerObject_def)
  obtain t u v ob ob' where u: "foreach ?phs (load_segment fmt env data ?b ?i) (?b, ?s1) = Inr (t, u)"
    "objects v = objects u" "ident ob = ident (objects u ! ?i)"
    "parseDynamic fmt (mem v) ob = Inr ob'" "s' = update_object ?i (\<lambda>_. ob') v"
  proof -
    from assms h reg obtain t u where u: "foreach ?phs (load_segment fmt env data ?b ?i) (?b, ?s1) = Inr (t, u)"
      and rest: "(let s = (if e_type h = TypeDynamic
               then u\<lparr>nextLibraryBase := alignUp (t + LIBRARY_STRIDE) LIBRARY_STRIDE\<rparr> else u);
          ob = fold (note_header ?b) ?phs (objects s ! ?i);
          ob = (if obj_phdr ob = 0 then ob\<lparr>obj_phdr := ?b + e_phoff h\<rparr> else ob)
        in seqE (parseDynamic fmt (mem s) ob) (\<lambda>ob. Inr (?i, update_object ?i (\<lambda>_. ob) s))) = Inr (i, s')"
      by (auto simp: loadObjectFromMemory_def seqE_eq_Inr Let_def)
    define v where "v = (if e_type h = TypeDynamic
               then u\<lparr>nextLibraryBase := alignUp (t + LIBRARY_STRIDE) LIBRARY_STRIDE\<rparr> else u)"
    define ob1 where "ob1 = fold (note_header ?b) ?phs (objects v ! ?i)"
    define ob where "ob = (if obj_phdr ob1 = 0 then ob1\<lparr>obj_phdr := ?b + e_phoff h\<rparr> else ob1)"
    have "objects v = objects u" by (simp add: v_def)
    moreover have "ident ob = ident (objects u ! ?i)"
    proof -
      have "ident ob = ident ob1" by (simp add: ob_def ident_def)
      also have "\<dots> = ident (objects v ! ?i)" unfolding ob1_def by (rule note_headers_ident)
      finally show ?thesis by (simp add: \<open>objects v = objects u\<close>)
    qed
    moreover obtain ob' where "parseDynamic fmt (mem v) ob = Inr ob'" "s' = update_object ?i (\<lambda>_. ob') v"
      using rest unfolding v_def [symmetric] Let_def ob1_def [symmetric] ob_def [symmetric]
      by (auto simp: seqE_eq_Inr)
    ultimately show thesis using that u by blast
  qed
  have s1: "objects ?s1 = objects s @ [?new\<lparr>obj_base := ?b, obj_entry := ?b + e_entry h, obj_phnum := e_phnum h\<rparr>]"
    by (simp add: update_object_def)
  have ch: "only_changes ?i ?s1 u" using load_segments_change [OF u(1)] .
  then have "length (objects u) = Suc ?i" "ident (objects u ! ?i) = (copyString 64 name, False, False)"
    "\<forall>j<?i. objects u ! j = objects s ! j"
    unfolding only_changes_def s1 by (simp_all add: ident_def empty_object_def nth_append)
  moreover from this have "objects u = objects s @ [objects u ! ?i]"
    by (intro nth_equalityI) (auto simp: nth_append less_Suc_eq)
  ultimately have "objects s' = objects s @ [ob']" "ident ob' = (copyString 64 name, False, False)"
    using u(2,3,5) parseDynamic_ident [OF u(4)]
    by (simp_all add: update_object_def) (metis list_update_length)
  then show ?thesis using i room by blast
qed

section \<open>Each library once\<close>

lemma find_index_from_some:
  "find_index_from k p xs = Some i \<Longrightarrow> k \<le> i \<and> i < k + length xs \<and> p (xs ! (i - k))"
proof (induction xs arbitrary: k)
  case (Cons x xs)
  then show ?case
    by (cases "p x") (auto simp: Suc_le_eq nth_Cons' dest!: Cons.IH)
qed simp

lemma find_index_from_none: "find_index_from k p xs = None \<longleftrightarrow> (\<forall>x\<in>set xs. \<not> p x)"
  by (induction xs arbitrary: k) auto

definition names :: "linker \<Rightarrow> string list" where
  "names s = map obj_name (objects s)"

lemma findObject_some: "findObject s n = Some i \<Longrightarrow> i < length (objects s) \<and> names s ! i = n"
  by (auto simp: findObject_def names_def dest!: find_index_from_some)

lemma findObject_none: "findObject s n = None \<longleftrightarrow> n \<notin> set (names s)"
  by (auto simp: findObject_def names_def find_index_from_none)

lemma copyString_short: "length n < 64 \<Longrightarrow> copyString 64 n = n"
  by (simp add: copyString_def append_loop_fits)

lemma loadDependency_cases:
  assumes "loadDependency fmt env n s = Inr (j, s')"
  obtains (present) "s' = s" "j < length (objects s)" "names s ! j = resolveSoname n"
    | (loaded) ob where "resolveSoname n \<notin> set (names s)" "objects s' = objects s @ [ob]"
        "ident ob = (copyString 64 (resolveSoname n), False, False)" "j = length (objects s)"
        "length (objects s) < MAX_OBJECTS"
proof (cases "findObject s (resolveSoname n)")
  case None
  then obtain bs u where u: "readWholeFile env (appendString 128 (copyString 128 ''/lib/'') (resolveSoname n)) s = Inr (bs, u)"
    "loadObjectFromMemory fmt env (resolveSoname n) bs (nextLibraryBase u) u = Inr (j, s')"
    using assms by (auto simp: loadDependency_def Let_def seqE_eq_Inr)
  show thesis
    using loaded loadObject_appends [OF u(2)] readWholeFile_objects [OF u(1)] None
    by (auto simp: findObject_none)
next
  case (Some i)
  then show thesis
    using present assms findObject_some [OF Some] by (simp add: loadDependency_def Let_def)
qed

lemma resolveSoname_short: "length n < 64 \<Longrightarrow> length (resolveSoname n) < 64"
  by (simp add: resolveSoname_def soname_aliases_def)

text \<open>
  A dependency is found, and loaded only when it is missing: if \<open>loadDependency\<close> succeeds for a
  name of fewer than 64 characters, the object it returns is the only one of the resolved name,
  all objects there were are unchanged, and when the name was among them nothing was loaded, not
  even a system call made.
\<close>
theorem load_dependency_once:
  assumes "loadDependency fmt env n s = Inr (j, s')" and "distinct (names s)" and "length n < 64"
  shows "j < length (objects s') \<and> names s' ! j = resolveSoname n \<and> distinct (names s') \<and>
    take (length (objects s)) (objects s') = objects s \<and>
    (if resolveSoname n \<in> set (names s) then s' = s else length (objects s') = Suc (length (objects s)))"
  using assms(1)
proof (cases rule: loadDependency_cases)
  case present
  then have "resolveSoname n \<in> set (names s)" by (metis names_def length_map nth_mem)
  then show ?thesis using present assms(2) by simp
next
  case (loaded ob)
  have "copyString 64 (resolveSoname n) = resolveSoname n"
    using copyString_short resolveSoname_short [OF assms(3)] by blast
  then show ?thesis
    using loaded assms(2) by (simp add: names_def ident_def nth_append)
qed

definition a_format :: elf_format where
  "a_format =
     \<lparr>header_size = 64, phdr_size = 56, rela_size = 24,
      file_header = (\<lambda>bs. \<lparr>identOk = True, e_type = TypeDynamic, e_entry = 0, e_phoff = 64,
        e_phentsize = 56, e_phnum = 0\<rparr>),
      file_phdr = (\<lambda>bs a i. \<lparr>ph_type = OtherProgram, ph_flags = 0, ph_offset = 0, ph_vaddr = 0,
        ph_filesz = 0, ph_memsz = 0\<rparr>),
      phdr_at = (\<lambda>m a i. \<lparr>ph_type = ProgramPhdr, ph_flags = 0, ph_offset = 0, ph_vaddr = 64,
        ph_filesz = 0, ph_memsz = 0\<rparr>),
      dynamic_at = (\<lambda>m a. []), hash_symbols = (\<lambda>m a. 0),
      symbol_at = (\<lambda>m a i. \<lparr>sym_name = 1, sym_binding = 1, sym_section = 1, sym_value = 16, sym_size = 8\<rparr>),
      rela_at = (\<lambda>m a i. \<lparr>r_offset = 0, r_type = RelNone, r_symbol = 0, r_addend = 0\<rparr>),
      word_at = (\<lambda>m a. 0), store_word = (\<lambda>m a v. m), string_at = (\<lambda>m a. ''malloc'')\<rparr>"

definition one_library :: linker where
  "one_library =
     \<lparr>mem = (\<lambda>a. 0), objects = [empty_object\<lparr>obj_name := ''libinstant.so''\<rparr>],
      nextLibraryBase = LIBRARY_BASE, ldcalls = []\<rparr>"

theorem load_dependency_once_witness:
  "\<exists>j. loadDependency a_format (\<lambda>log c. LdFail) ''libm.so.6'' one_library = Inr (j, one_library) \<and>
     names one_library ! j = ''libinstant.so''"
proof -
  have r: "resolveSoname ''libm.so.6'' = ''libinstant.so''"
    by (simp add: resolveSoname_def soname_aliases_def)
  have n: "names one_library = [''libinstant.so'']"
    by (simp add: names_def one_library_def empty_object_def)
  then have "findObject one_library ''libinstant.so'' \<noteq> None" by (simp add: findObject_none)
  then obtain j where "loadDependency a_format (\<lambda>log c. LdFail) ''libm.so.6'' one_library = Inr (j, one_library)"
    by (auto simp: loadDependency_def r Let_def)
  then show ?thesis
    using load_dependency_once [of a_format "\<lambda>log c. LdFail" "''libm.so.6''" one_library j one_library] n r
    by auto
qed

section \<open>The phases\<close>

text \<open>After loading: at most 16 objects of distinct names, none relocated or initialised.\<close>

definition fresh_objects :: "linker \<Rightarrow> bool" where
  "fresh_objects s \<longleftrightarrow> length (objects s) \<le> MAX_OBJECTS \<and> distinct (names s) \<and>
     (\<forall>ob\<in>set (objects s). \<not> relocated ob \<and> \<not> initDone ob) \<and>
     objects s \<noteq> [] \<and> hd (names s) = ''<main>''"

definition short_strings :: "elf_format \<Rightarrow> bool" where
  "short_strings fmt \<longleftrightarrow> (\<forall>m a. length (string_at fmt m a) < 64)"

lemma loadDependency_fresh:
  assumes "loadDependency fmt env n s = Inr (j, s')" and "fresh_objects s" and "length n < 64"
  shows "fresh_objects s'"
  using assms(1)
proof (cases rule: loadDependency_cases)
  case present
  then show ?thesis using assms(2) by simp
next
  case (loaded ob)
  have "copyString 64 (resolveSoname n) = resolveSoname n"
    using copyString_short resolveSoname_short [OF assms(3)] by blast
  then show ?thesis
    using loaded assms(2) by (auto simp: fresh_objects_def names_def ident_def MAX_OBJECTS_def hd_append)
qed

lemma load_needed_fresh:
  assumes "load_needed fmt env i s = Inr s'" and "fresh_objects s" and "short_strings fmt"
  shows "fresh_objects s'"
  using foreach_keeps [OF assms(1) [unfolded load_needed_def], of "\<lambda>a b. fresh_objects a \<longrightarrow> fresh_objects b"]
    loadDependency_fresh assms(2,3)
  by (auto simp: short_strings_def seqE_eq_Inr) blast

lemma load_all_fresh:
  "load_all fmt env i s = Inr s' \<Longrightarrow> fresh_objects s \<Longrightarrow> short_strings fmt \<Longrightarrow> fresh_objects s'"
proof (induction fmt env i s rule: load_all.induct)
  case (1 fmt env i s)
  show ?case
  proof (cases "i < length (objects s) \<and> i < MAX_OBJECTS")
    case True
    then obtain u where "load_needed fmt env i s = Inr u" "load_all fmt env (Suc i) u = Inr s'"
      using 1(2) by (auto simp: load_all.simps [of fmt env i s] seqE_eq_Inr)
    then show ?thesis using 1(1) [OF True] 1(3,4) load_needed_fresh by blast
  next
    case False
    then have "s' = s" using 1(2) by (auto simp: load_all.simps [of fmt env i s] split: if_splits)
    then show ?thesis using 1(3) by simp
  qed
qed

lemma registerMain_fresh:
  assumes "registerMainObject fmt auxv s = Inr (i, s')" and "objects s = []"
  shows "i = 0 \<and> fresh_objects s'"
proof -
  have dyn: "ident (main_dynamic b phs ob) = ident ob" for b phs ob
    by (simp add: main_dynamic_def ident_def split: list.split)
  let ?phs = "map (phdr_at fmt (mem s) (aux_value AuxPhdr auxv)) [0..<unat (aux_value AuxPhnum auxv)]"
  obtain p ps where p: "filter (\<lambda>p. ph_type p = ProgramPhdr) ?phs = p # ps"
    using assms(1) by (auto simp: registerMainObject_def Let_def split: list.splits if_splits)
  define b where "b = aux_value AuxPhdr auxv - ph_vaddr p"
  define ob where "ob = empty_object\<lparr>obj_name := ''<main>'', obj_base := b, obj_entry := aux_value AuxEntry auxv,
    obj_phdr := aux_value AuxPhdr auxv, obj_phnum := unat (aux_value AuxPhnum auxv)\<rparr>"
  have copy: "copyString 64 ''<main>'' = ''<main>''" by (simp add: copyString_def)
  have id: "ident ob = (''<main>'', False, False)" by (simp add: ob_def ident_def empty_object_def)
  obtain ob' where ob: "i = 0" "parseDynamic fmt (mem s) (main_dynamic b ?phs ob) = Inr ob'" "objects s' = [ob']"
    using assms p copy
    by (auto simp: registerMainObject_def registerObject_def Let_def seqE_eq_Inr update_object_def
        MAX_OBJECTS_def b_def ob_def split: if_splits)
  then have "i = 0 \<and> (\<exists>ob. objects s' = [ob] \<and> ident ob = (''<main>'', False, False))"
    using parseDynamic_ident [OF ob(2)] dyn id by simp
  then show ?thesis
    by (auto simp: fresh_objects_def names_def ident_def MAX_OBJECTS_def)
qed

end
