(* ===== verification/Loader_Phases.thy ===== *)
theory Loader_Phases
  imports Loader_Proofs
begin

text \<open>
  The run of the dynamic linker as a whole: what has happened to every object when \<open>ld_main\<close>
  hands over to the program, which definition a symbol binds to, and two inputs on which the
  code leaves the defined behaviour of the language.
\<close>

section \<open>The initialisers a run has called\<close>

definition init_calls :: "linker \<Rightarrow> u64 list" where
  "init_calls s = concat (map (\<lambda>c. case c of LdInit f \<Rightarrow> [f] | _ \<Rightarrow> []) (ldcalls s))"


lemma init_calls_update [simp]:
  "init_calls (s\<lparr>mem := m\<rparr>) = init_calls s" "init_calls (s\<lparr>objects := obs\<rparr>) = init_calls s"
  "init_calls (s\<lparr>nextLibraryBase := b\<rparr>) = init_calls s" "init_calls (update_object i f s) = init_calls s"
  by (simp_all add: init_calls_def update_object_def)









section \<open>Relocation and protection\<close>










section \<open>Initialisers\<close>

text \<open>
  The places an object's initialisers come from: its function, and then each entry of its array. What a
  place holds is read when its turn comes, after the initialisers before it have run, which may have
  changed memory; 0 stands for none.
\<close>

datatype init_slot = Function u64 | Entry u64

definition init_slots :: "elf_object \<Rightarrow> init_slot list" where
  "init_slots ob = Function (initFn ob) # map (\<lambda>k. Entry (initArray ob + 8 * of_nat k)) [0..<initArrayCount ob]"





abbreviation initialised :: "elf_object \<Rightarrow> elf_object" where
  "initialised ob \<equiv> ob\<lparr>initDone := True\<rparr>"

lemma init_slots_initialised [simp]: "init_slots (initialised ob) = init_slots ob"
  by (simp add: init_slots_def)








section \<open>The whole run\<close>





definition start :: linker where
  "start = \<lparr>mem = (\<lambda>a. 0)(0x400600 := 7, 0x400610 := 9), objects = [], nextLibraryBase = LIBRARY_BASE, ldcalls = []\<rparr>"



section \<open>Symbols\<close>

text \<open>Symbol \<open>i\<close> of object \<open>k\<close> defines the name, and may be used.\<close>

definition definition_at :: "elf_format \<Rightarrow> string \<Rightarrow> nat option \<Rightarrow> linker \<Rightarrow> nat \<Rightarrow> nat \<Rightarrow> bool" where
  "definition_at fmt name exclude s k i \<longleftrightarrow>
     k < length (objects s) \<and> exclude \<noteq> Some k \<and> symtab (objects s ! k) \<noteq> 0 \<and> strtab (objects s ! k) \<noteq> 0 \<and>
     1 \<le> i \<and> i < symbolCount (objects s ! k) \<and> defines_symbol fmt (mem s) name (objects s ! k) i"

lemma first_index_none: "first_index p xs = None \<longleftrightarrow> (\<forall>x\<in>set xs. \<not> p x)"
  by (induction xs) auto

lemma first_index_upt:
  "first_index p [a..<b] = Some i \<longleftrightarrow> a \<le> i \<and> i < b \<and> p i \<and> (\<forall>j. a \<le> j \<and> j < i \<longrightarrow> \<not> p j)"
proof (induction "b - a" arbitrary: a)
  case (Suc n)
  then have a: "[a..<b] = a # [Suc a..<b]" by (simp add: upt_conv_Cons)
  have IH: "first_index p [Suc a..<b] = Some i \<longleftrightarrow>
      Suc a \<le> i \<and> i < b \<and> p i \<and> (\<forall>j. Suc a \<le> j \<and> j < i \<longrightarrow> \<not> p j)"
    using Suc by simp
  show ?case
  proof (cases "p a")
    case True
    then show ?thesis using a Suc(2) by (auto simp: le_less)
  next
    case False
    then have "a \<le> i \<and> p i \<longleftrightarrow> Suc a \<le> i \<and> p i"
      "(\<forall>j. a \<le> j \<and> j < i \<longrightarrow> \<not> p j) \<longleftrightarrow> (\<forall>j. Suc a \<le> j \<and> j < i \<longrightarrow> \<not> p j)"
      by (metis Suc_leD le_antisym not_less_eq_eq)+
    then show ?thesis using False a IH by auto
  qed
qed simp

lemma lookup_from_some:
  "lookup_from fmt m name exclude k obs = Some v \<longleftrightarrow>
     (\<exists>j<length obs. exclude \<noteq> Some (k + j) \<and> symbol_in fmt m name (obs ! j) = Some v \<and>
        (\<forall>i<j. exclude = Some (k + i) \<or> symbol_in fmt m name (obs ! i) = None))"
proof (induction obs arbitrary: k exclude)
  case (Cons ob obs)
  show ?case
    by (auto simp: Cons.IH Ex_less_Suc2 All_less_Suc2 split: option.split)
qed simp

lemma lookup_from_none:
  "lookup_from fmt m name exclude k obs = None \<longleftrightarrow>
     (\<forall>j<length obs. exclude = Some (k + j) \<or> symbol_in fmt m name (obs ! j) = None)"
proof (induction obs arbitrary: k exclude)
  case (Cons ob obs)
  show ?case
    by (auto simp: Cons.IH All_less_Suc2 split: option.split)
qed simp

lemma symbol_in_none:
  assumes "k < length (objects s)" and "exclude \<noteq> Some k"
  shows "symbol_in fmt (mem s) name (objects s ! k) = None \<longleftrightarrow> (\<forall>i. \<not> definition_at fmt name exclude s k i)"
  using assms by (auto simp: symbol_in_def definition_at_def first_index_none)

lemma symbol_in_some:
  assumes "k < length (objects s)" and "exclude \<noteq> Some k"
  shows "symbol_in fmt (mem s) name (objects s ! k) = Some v \<longleftrightarrow>
    (\<exists>i. definition_at fmt name exclude s k i \<and> (\<forall>j<i. \<not> definition_at fmt name exclude s k j) \<and>
      v = obj_base (objects s ! k) + sym_value (symbol_at fmt (mem s) (symtab (objects s ! k)) i))"
  using assms by (auto simp: symbol_in_def definition_at_def first_index_upt)

lemma least_pair:
  fixes k i :: nat
  shows "(\<forall>j<i. \<not> d k j) \<and> (\<forall>j<k. \<forall>i. \<not> d j i) \<longleftrightarrow> (\<forall>k' i'. d k' i' \<longrightarrow> k < k' \<or> k = k' \<and> i \<le> (i' :: nat))"
proof
  assume least: "(\<forall>j<i. \<not> d k j) \<and> (\<forall>j<k. \<forall>i. \<not> d j i)"
  show "\<forall>k' i'. d k' i' \<longrightarrow> k < k' \<or> k = k' \<and> i \<le> i'"
  proof (intro allI impI)
    fix k' i'
    assume "d k' i'"
    then show "k < k' \<or> k = k' \<and> i \<le> i'"
      using least by (cases k' k rule: linorder_cases) (auto simp: not_less [symmetric])
  qed
qed fastforce

text \<open>
  Symbol lookup takes the first definition in load order: the value of the lowest symbol of the
  first object, the excluded one apart, that defines the name; and it finds nothing exactly when
  no such object defines it.
\<close>
theorem lookup_first_definition:
  "(lookupSymbolExcluding fmt name exclude s = Some v \<longleftrightarrow>
     (\<exists>k i. definition_at fmt name exclude s k i \<and>
        (\<forall>k' i'. definition_at fmt name exclude s k' i' \<longrightarrow> k < k' \<or> k = k' \<and> i \<le> i') \<and>
        v = obj_base (objects s ! k) + sym_value (symbol_at fmt (mem s) (symtab (objects s ! k)) i))) \<and>
   (lookupSymbolExcluding fmt name exclude s = None \<longleftrightarrow> (\<forall>k i. \<not> definition_at fmt name exclude s k i))"
proof -
  let ?d = "definition_at fmt name exclude s"
  let ?v = "\<lambda>k i. obj_base (objects s ! k) + sym_value (symbol_at fmt (mem s) (symtab (objects s ! k)) i)"
  have least: "(\<forall>j<i. \<not> ?d k j) \<and> (\<forall>j<k. \<forall>i. \<not> ?d j i) \<longleftrightarrow>
      (\<forall>k' i'. ?d k' i' \<longrightarrow> k < k' \<or> k = k' \<and> i \<le> i')" for k i
    by (rule least_pair)
  have dom: "k < length (objects s) \<and> exclude \<noteq> Some k" if "?d k i" for k i
    using that by (simp add: definition_at_def)
  have none: "exclude = Some k \<or> symbol_in fmt (mem s) name (objects s ! k) = None \<longleftrightarrow> (\<forall>i. \<not> ?d k i)"
    if "k < length (objects s)" for k
  proof (cases "exclude = Some k")
    case True
    then show ?thesis by (simp add: definition_at_def)
  next
    case False
    then show ?thesis using symbol_in_none [OF that False, of fmt name] by simp
  qed
  have "lookupSymbolExcluding fmt name exclude s = Some v \<longleftrightarrow>
      (\<exists>k<length (objects s). exclude \<noteq> Some k \<and> symbol_in fmt (mem s) name (objects s ! k) = Some v \<and>
         (\<forall>j<k. \<forall>i. \<not> ?d j i))"
    unfolding lookupSymbolExcluding_def lookup_from_some add_0_left
    by (intro ex_cong1 conj_cong refl) (use none in \<open>meson less_trans\<close>)
  also have "\<dots> \<longleftrightarrow> (\<exists>k i. ?d k i \<and> (\<forall>j<i. \<not> ?d k j) \<and> v = ?v k i \<and> (\<forall>j<k. \<forall>i. \<not> ?d j i))"
    using symbol_in_some dom by blast
  also have "\<dots> \<longleftrightarrow> (\<exists>k i. ?d k i \<and> (\<forall>k' i'. ?d k' i' \<longrightarrow> k < k' \<or> k = k' \<and> i \<le> i') \<and> v = ?v k i)"
    unfolding least [symmetric] by blast
  moreover have "lookupSymbolExcluding fmt name exclude s = None \<longleftrightarrow> (\<forall>k i. \<not> ?d k i)"
    unfolding lookupSymbolExcluding_def lookup_from_none add_0_left using none dom by meson
  ultimately show ?thesis by blast
qed

theorem lookup_first_definition_witness:
  "lookupSymbolExcluding a_format ''malloc'' (Some 0)
     (start\<lparr>objects := replicate 2 (empty_object\<lparr>obj_base := 0x1000, symtab := 1, strtab := 1, symbolCount := 3\<rparr>)\<rparr>)
   = Some 0x1010"
proof -
  let ?ob = "empty_object\<lparr>obj_base := 0x1000, symtab := 1, strtab := 1, symbolCount := 3\<rparr>"
  let ?s = "start\<lparr>objects := replicate 2 ?ob\<rparr>"
  have d: "definition_at a_format ''malloc'' (Some 0) ?s k i \<longleftrightarrow> k = 1 \<and> 1 \<le> i \<and> i < 3" for k i
    by (cases "k < 2")
      (auto simp: definition_at_def start_def a_format_def defines_symbol_def less_Suc_eq numeral_2_eq_2)
  show ?thesis
    unfolding lookup_first_definition [THEN conjunct1] d
    by (intro exI [of _ 1]) (auto simp: start_def a_format_def numeral_2_eq_2)
qed

section \<open>Outside the defined behaviour\<close>

text \<open>
  A relocation of an unsupported type does not reach the message that names it: printing the
  type's sixteen hexadecimal digits shifts a 32-bit value by up to 60 bits, and the first shift is
  already outside the defined behaviour.
\<close>
theorem unsupported_relocation_shifts:
  "applyRelocation fmt i (r\<lparr>r_type := OtherRel t\<rparr>) s = Inl ShiftTooFar"
proof -
  have "[0..<16] = 0 # [1..<16]" by (simp add: upt_conv_Cons)
  then have "hex_text t = Inl ShiftTooFar" by (simp add: hex_text_def hex_nibble_def)
  then show ?thesis by (simp add: applyRelocation_def)
qed

text \<open>
  A segment is copied from outside the file exactly when its offset plus its size in the file
  wraps around: the check adds them in 64 bits, so a segment near the end of the address space
  passes it; every other segment outside the file is refused.
\<close>
theorem segment_check_wraps:
  assumes "length data < 2 ^ 64"
  shows "load_segment fmt env data base i ph (t, s) = Inl OutsideFile \<longleftrightarrow>
    ph_type ph = ProgramLoad \<and> ph_filesz ph \<le> ph_memsz ph \<and>
    ph_offset ph + ph_filesz ph \<le> of_nat (length data) \<and>
    2 ^ 64 \<le> unat (ph_offset ph) + unat (ph_filesz ph) \<and>
    (\<exists>start size a. mapMemory env start size 7 s = Inr a \<and> start = alignDown (base + ph_vaddr ph) PAGE_SIZE \<and>
       size = alignUp (base + ph_vaddr ph - start + ph_memsz ph) PAGE_SIZE)"
proof -
  let ?off = "ph_offset ph" and ?n = "ph_filesz ph"
  have wraps: "length data < unat ?off + unat ?n \<longleftrightarrow> 2 ^ 64 \<le> unat ?off + unat ?n"
    if "?off + ?n \<le> of_nat (length data)"
  proof (cases "unat ?off + unat ?n < 2 ^ 64")
    case True
    then have "unat (?off + ?n) = unat ?off + unat ?n" by (simp add: unat_word_ariths)
    moreover have "unat (of_nat (length data) :: u64) = length data"
      using assms by (simp add: unat_of_nat)
    ultimately have "unat ?off + unat ?n \<le> length data" using that by (simp add: word_le_nat_alt)
    then show ?thesis using True by simp
  qed (use assms in simp)
  have map: "mapMemory env a b c s \<noteq> Inl OutsideFile" for a b c
    by (simp add: mapMemory_def split: prod.split ld_reply.split)
  show ?thesis
  proof (cases "ph_type ph = ProgramLoad \<and> ?n \<le> ph_memsz ph \<and> ?off + ?n \<le> of_nat (length data)")
    case True
    then show ?thesis
      using wraps map
      by (cases "mapMemory env (alignDown (base + ph_vaddr ph) PAGE_SIZE)
          (alignUp (base + ph_vaddr ph - alignDown (base + ph_vaddr ph) PAGE_SIZE + ph_memsz ph) PAGE_SIZE) 7 s")
        (auto simp: load_segment_def Let_def copyBytes_def not_less seqE_def split: if_splits sum.splits)
  next
    case False
    then show ?thesis by (auto simp: load_segment_def not_less not_le)
  qed
qed

theorem segment_check_wraps_witness:
  "load_segment a_format (\<lambda>log c. LdNum 0) (replicate 64 0) 0 0
     \<lparr>ph_type = ProgramLoad, ph_flags = 0, ph_offset = - 8, ph_vaddr = 0, ph_filesz = 16, ph_memsz = 16\<rparr> (0, start)
   = Inl OutsideFile"
  by (subst segment_check_wraps) (simp_all add: mapMemory_def ask_ld_def)

end
