(* ===== verification/Framebuffer.thy ===== *)
theory Framebuffer
  imports Prelude
begin

unbundle bit_operations_syntax

text \<open>
  Pixels of the compositor: \<open>src/graphics-compositor/src/presentation.cpp\<close>, \<open>buffers.cpp\<close> and
  \<open>render_primitives.cpp\<close> (rows of the scene to a framebuffer, the pointer over it). Rectangles
  and colors are types of the user interface library, which is not in the repository: their
  operations are parameters. Coordinates are mathematical integers. A read or write outside the
  pixels of an image is the error \<open>OutsidePixels\<close>, the use of a null pointer \<open>NullPointer\<close>.
\<close>

section \<open>Rectangles and colors of the user interface library\<close>

record rect =
  rx :: int
  ry :: int
  rw :: int
  rh :: int

record rect_ops =
  contains :: "rect \<Rightarrow> int \<Rightarrow> int \<Rightarrow> bool"
  intersect :: "rect \<Rightarrow> rect \<Rightarrow> rect"
  unite :: "rect \<Rightarrow> rect \<Rightarrow> rect"
  empty_rect :: "rect \<Rightarrow> bool"

abbreviation rect_at :: "int \<Rightarrow> int \<Rightarrow> int \<Rightarrow> int \<Rightarrow> rect" where
  "rect_at x y w h \<equiv> \<lparr>rx = x, ry = y, rw = w, rh = h\<rparr>"

definition inside :: "rect \<Rightarrow> int \<Rightarrow> int \<Rightarrow> bool" where
  "inside r x y \<longleftrightarrow> rx r \<le> x \<and> x < rx r + rw r \<and> ry r \<le> y \<and> y < ry r + rh r"

text \<open>What the code relies on: the points of a rectangle, of an intersection and of a union.\<close>

definition rect_laws :: "rect_ops \<Rightarrow> bool" where
  "rect_laws U \<longleftrightarrow>
     (\<forall>r x y. contains U r x y = inside r x y) \<and>
     (\<forall>r s x y. inside (intersect U r s) x y = (inside r x y \<and> inside s x y)) \<and>
     (\<forall>r s x y. inside r x y \<or> inside s x y \<longrightarrow> inside (unite U r s) x y) \<and>
     (\<forall>r. empty_rect U r = (rw r \<le> 0 \<or> rh r \<le> 0))"

record 'c color_ops =
  from_word :: "32 word \<Rightarrow> 'c"
  to_word :: "'c \<Rightarrow> 32 word"
  alpha :: "'c \<Rightarrow> nat"
  blend :: "'c \<Rightarrow> 'c \<Rightarrow> nat \<Rightarrow> 'c"

text \<open>A framebuffer has no alpha byte.\<close>

definition rgb_mask :: "32 word" where "rgb_mask = 0x00FFFFFF"

definition color_laws :: "'c color_ops \<Rightarrow> bool" where
  "color_laws C \<longleftrightarrow> (\<forall>w. to_word C (from_word C w) AND rgb_mask = w AND rgb_mask)"

section \<open>Images\<close>

text \<open>The canvas of the scene, and a framebuffer: the pitch is counted in pixels.\<close>

record raster =
  px :: "int \<Rightarrow> 32 word"
  rwidth :: int
  rheight :: int
  rpitch :: int

datatype gfx_error = OutsidePixels | NullPointer

definition load_px :: "raster \<Rightarrow> int \<Rightarrow> gfx_error + 32 word" where
  "load_px r i = (if 0 \<le> i \<and> i < rpitch r * rheight r then Inr (px r i) else Inl OutsidePixels)"

definition store_px :: "int \<Rightarrow> 32 word \<Rightarrow> raster \<Rightarrow> gfx_error + raster" where
  "store_px i w r =
     (if 0 \<le> i \<and> i < rpitch r * rheight r then Inr (r\<lparr>px := (px r)(i := w)\<rparr>) else Inl OutsidePixels)"

definition copy_texel :: "raster \<Rightarrow> int \<Rightarrow> int \<Rightarrow> nat \<Rightarrow> raster \<Rightarrow> gfx_error + raster" where
  "copy_texel src si di k dst =
     seqE (load_px src (si + int k)) (\<lambda>w. store_px (di + int k) (w AND rgb_mask) dst)"

text \<open>\<open>present_texel_row_to_framebuffer\<close>: four pixels at a time, then the rest.\<close>

function texel_quads :: "raster \<Rightarrow> int \<Rightarrow> int \<Rightarrow> nat \<Rightarrow> nat \<Rightarrow> raster \<Rightarrow> gfx_error + raster" where
  "texel_quads src si di count k dst =
     (if k + 4 \<le> count
      then seqE (foreach [k..<k + 4] (copy_texel src si di) dst) (texel_quads src si di count (k + 4))
      else foreach [k..<count] (copy_texel src si di) dst)"
  by pat_completeness auto
termination
  by (relation "measure (\<lambda>(src, si, di, count, k, dst). count - k)") auto

declare texel_quads.simps [simp del]

definition present_texel_row :: "raster \<Rightarrow> int \<Rightarrow> int \<Rightarrow> nat \<Rightarrow> raster \<Rightarrow> gfx_error + raster" where
  "present_texel_row src si di count dst = texel_quads src si di count 0 dst"

definition clamp_rect :: "rect_ops \<Rightarrow> rect \<Rightarrow> int \<Rightarrow> int \<Rightarrow> rect" where
  "clamp_rect U r w h = intersect U r (rect_at 0 0 w h)"

text \<open>The image and the flush calls made, \<open>fb_flush\<close> of a rectangle.\<close>

definition present_rect_to_framebuffer ::
  "rect_ops \<Rightarrow> raster \<Rightarrow> rect \<Rightarrow> raster \<Rightarrow> gfx_error + raster \<times> rect list" where
  "present_rect_to_framebuffer U src r dst =
     (let c = clamp_rect U r (min (rwidth src) (rwidth dst)) (min (rheight src) (rheight dst))
      in if empty_rect U c then Inr (dst, [])
         else seqE (foreach [0..<nat (rh c)]
                (\<lambda>y. present_texel_row src ((ry c + int y) * rpitch src + rx c)
                       ((ry c + int y) * rpitch dst + rx c) (nat (rw c))) dst)
                (\<lambda>dst. Inr (dst, [c])))"

definition present_to_framebuffer :: "raster \<Rightarrow> raster \<Rightarrow> gfx_error + raster \<times> rect list" where
  "present_to_framebuffer src dst =
     (let w = min (rwidth src) (rwidth dst); h = min (rheight src) (rheight dst)
      in seqE (foreach [0..<nat h]
             (\<lambda>y. present_texel_row src (int y * rpitch src) (int y * rpitch dst) (nat w)) dst)
           (\<lambda>dst. Inr (dst, [rect_at 0 0 w h])))"

section \<open>The pointer\<close>

record cursor_state =
  cx :: int
  cy :: int

record 'c cursor_image =
  ready :: bool
  cpixels :: "'c list"
  cwidth :: int
  cheight :: int
  hotspotX :: int
  hotspotY :: int

definition cursor_rect :: "cursor_state \<Rightarrow> 'c cursor_image \<Rightarrow> rect" where
  "cursor_rect cursor img =
     (if \<not> ready img then rect_at (cx cursor) (cy cursor) 0 0
      else rect_at (cx cursor - hotspotX img) (cy cursor - hotspotY img) (cwidth img) (cheight img))"

definition move_cursor :: "int \<Rightarrow> int \<Rightarrow> int \<Rightarrow> int \<Rightarrow> cursor_state" where
  "move_cursor w h x y =
     (let maxX = (if w - 1 < 0 then 0 else w - 1); maxY = (if h - 1 < 0 then 0 else h - 1)
      in \<lparr>cx = (if x < 0 then 0 else if maxX < x then maxX else x),
          cy = (if y < 0 then 0 else if maxY < y then maxY else y)\<rparr>)"

text \<open>The word shown at a point: the scene's pixel, under the pointer's if it covers the point.\<close>

definition pointer_pixel ::
  "'c color_ops \<Rightarrow> cursor_state \<Rightarrow> 'c cursor_image \<Rightarrow> int \<Rightarrow> int \<Rightarrow> 32 word \<Rightarrow> gfx_error + 32 word" where
  "pointer_pixel C cursor img x y w =
     (let color = from_word C w; lx = x - (cx cursor - hotspotX img); ly = y - (cy cursor - hotspotY img)
      in if ready img \<and> 0 \<le> lx \<and> 0 \<le> ly \<and> lx < cwidth img \<and> ly < cheight img
         then let i = nat (ly * cwidth img + lx)
              in if length (cpixels img) \<le> i then Inl OutsidePixels
                 else let src = cpixels img ! i
                      in Inr (to_word C (if alpha C src \<noteq> 0
                                then if alpha C src = 255 then src else blend C color src (alpha C src)
                                else color) AND rgb_mask)
         else Inr (to_word C color AND rgb_mask))"

definition cursor_texel ::
  "'c color_ops \<Rightarrow> raster \<Rightarrow> cursor_state \<Rightarrow> 'c cursor_image \<Rightarrow> int \<Rightarrow> int \<Rightarrow> raster \<Rightarrow> gfx_error + raster" where
  "cursor_texel C scene cursor img x y fb =
     seqE (load_px scene (y * rpitch scene + x)) (\<lambda>w.
     seqE (pointer_pixel C cursor img x y w) (\<lambda>v. store_px (y * rpitch fb + x) v fb))"

definition present_cursor_move ::
  "rect_ops \<Rightarrow> 'c color_ops \<Rightarrow> raster \<Rightarrow> cursor_state \<Rightarrow> cursor_state \<Rightarrow> 'c cursor_image \<Rightarrow> raster \<Rightarrow>
   gfx_error + raster \<times> rect list" where
  "present_cursor_move U C scene old new img fb =
     (let dirty = clamp_rect U (unite U (cursor_rect old img) (cursor_rect new img)) (rwidth fb) (rheight fb)
      in if empty_rect U dirty then Inr (fb, [])
         else seqE (foreach [0..<nat (rh dirty)] (\<lambda>y.
                foreach [0..<nat (rw dirty)] (\<lambda>x.
                  cursor_texel C scene new img (rx dirty + int x) (ry dirty + int y))) fb)
                (\<lambda>fb. Inr (fb, [dirty])))"

section \<open>Painting\<close>

text \<open>The pixels of an image that matter, and an image painted at some of them.\<close>

definition at_px :: "raster \<Rightarrow> int \<Rightarrow> int \<Rightarrow> 32 word" where
  "at_px r x y = px r (y * rpitch r + x)"

definition shape :: "raster \<Rightarrow> int \<times> int \<times> int" where
  "shape r = (rwidth r, rheight r, rpitch r)"

definition on_raster :: "raster \<Rightarrow> int \<Rightarrow> int \<Rightarrow> bool" where
  "on_raster r x y \<longleftrightarrow> 0 \<le> x \<and> x < rpitch r \<and> 0 \<le> y \<and> y < rheight r"

definition paints :: "(int \<Rightarrow> int \<Rightarrow> 32 word) \<Rightarrow> (int \<times> int) set \<Rightarrow> raster \<Rightarrow> raster \<Rightarrow> bool" where
  "paints f P d d' \<longleftrightarrow> shape d' = shape d \<and>
     (\<forall>x y. on_raster d x y \<longrightarrow> at_px d' x y = (if (x, y) \<in> P then f x y else at_px d x y))"

lemma paints_refl: "paints f {} d d"
  by (simp add: paints_def)

lemma on_raster_shape: "shape d' = shape d \<Longrightarrow> on_raster d' x y = on_raster d x y"
  by (simp add: shape_def on_raster_def)

lemma paints_trans: "paints f P d u \<Longrightarrow> paints f Q u v \<Longrightarrow> paints f (P \<union> Q) d v"
  using on_raster_shape [of u d] by (auto simp: paints_def)

lemma pixel_index_inj:
  assumes "0 \<le> x" "x < p" "0 \<le> x'" "x' < (p :: int)"
  shows "y * p + x = y' * p + x' \<longleftrightarrow> x = x' \<and> y = y'"
proof
  assume eq: "y * p + x = y' * p + x'"
  have "y = (y * p + x) div p" "y' = (y' * p + x') div p" using assms by simp_all
  then have "y = y'" using eq by simp
  then show "x = x' \<and> y = y'" using eq by simp
qed simp

lemma pixel_index_bounds: "on_raster r x y \<Longrightarrow> 0 \<le> y * rpitch r + x \<and> y * rpitch r + x < rpitch r * rheight r"
proof -
  assume r: "on_raster r x y"
  then have "(y + 1) * rpitch r \<le> rheight r * rpitch r"
    by (intro mult_right_mono) (auto simp: on_raster_def)
  then show ?thesis using r by (auto simp: on_raster_def algebra_simps)
qed

lemma load_px_at: "on_raster r x y \<Longrightarrow> load_px r (y * rpitch r + x) = Inr (at_px r x y)"
  using pixel_index_bounds [of r x y] by (simp add: load_px_def at_px_def)

lemma store_px_paints:
  assumes "on_raster d x y"
  shows "\<exists>d'. store_px (y * rpitch d + x) w d = Inr d' \<and> paints (\<lambda>_ _. w) {(x, y)} d d'"
proof -
  let ?d = "d\<lparr>px := (px d)(y * rpitch d + x := w)\<rparr>"
  have "store_px (y * rpitch d + x) w d = Inr ?d"
    using pixel_index_bounds [OF assms] by (simp add: store_px_def)
  moreover have "at_px ?d a b = (if (a, b) \<in> {(x, y)} then w else at_px d a b)" if "on_raster d a b" for a b
  proof -
    have "b * rpitch d + a = y * rpitch d + x \<longleftrightarrow> a = x \<and> b = y"
      using that assms by (intro pixel_index_inj) (simp_all add: on_raster_def)
    then show ?thesis by (simp add: at_px_def)
  qed
  ultimately show ?thesis by (auto simp: paints_def shape_def)
qed

lemma paints_cong: "paints f P d d' \<Longrightarrow> (\<And>x y. (x, y) \<in> P \<Longrightarrow> f x y = g x y) \<Longrightarrow> paints g P d d'"
  by (auto simp: paints_def)

text \<open>A loop whose body paints some pixels paints them all.\<close>

lemma foreach_paints:
  assumes "\<And>i u. i \<in> set xs \<Longrightarrow> shape u = shape d \<Longrightarrow> \<exists>u'. body i u = Inr u' \<and> paints f (P i) u u'"
  shows "\<exists>d'. foreach xs body d = Inr d' \<and> paints f (\<Union>i\<in>set xs. P i) d d'"
proof -
  have "shape e = shape d \<Longrightarrow> \<exists>d'. foreach xs body e = Inr d' \<and> paints f (\<Union>i\<in>set xs. P i) e d'" for e
    using assms
  proof (induction xs arbitrary: e)
    case (Cons x xs)
    obtain u where u: "body x e = Inr u" "paints f (P x) e u" using Cons.prems by force
    moreover obtain v where "foreach xs body u = Inr v" "paints f (\<Union>i\<in>set xs. P i) u v"
      using Cons.IH [of u] Cons.prems u(2) by (auto simp: paints_def)
    ultimately show ?case using paints_trans by fastforce
  qed (simp add: paints_refl)
  then show ?thesis by simp
qed

lemma copy_texel_paints:
  assumes "on_raster src (x + int k) y" and "on_raster dst (x + int k) y"
  shows "\<exists>d'. copy_texel src (y * rpitch src + x) (y * rpitch dst + x) k dst = Inr d' \<and>
    paints (\<lambda>x y. at_px src x y AND rgb_mask) {(x + int k, y)} dst d'"
proof -
  have "load_px src (y * rpitch src + x + int k) = Inr (at_px src (x + int k) y)"
    using load_px_at [OF assms(1)] by (simp add: add.assoc)
  moreover obtain d' where "store_px (y * rpitch dst + x + int k) (at_px src (x + int k) y AND rgb_mask) dst = Inr d'"
      "paints (\<lambda>_ _. at_px src (x + int k) y AND rgb_mask) {(x + int k, y)} dst d'"
    using store_px_paints [OF assms(2)] by (auto simp: add.assoc)
  ultimately show ?thesis by (auto simp: copy_texel_def intro: paints_cong)
qed

lemma texels_paint:
  assumes "\<And>i. i \<in> set ks \<Longrightarrow> on_raster src (x + int i) y \<and> on_raster dst (x + int i) y"
  shows "\<exists>d'. foreach ks (copy_texel src (y * rpitch src + x) (y * rpitch dst + x)) dst = Inr d' \<and>
    paints (\<lambda>x y. at_px src x y AND rgb_mask) (\<Union>i\<in>set ks. {(x + int i, y)}) dst d'"
proof (rule foreach_paints)
  fix i u
  assume i: "i \<in> set ks" and u: "shape u = shape dst"
  then have "rpitch u = rpitch dst" "on_raster u (x + int i) y"
    using assms [OF i] by (simp_all add: shape_def on_raster_def)
  then show "\<exists>u'. copy_texel src (y * rpitch src + x) (y * rpitch dst + x) i u = Inr u' \<and>
      paints (\<lambda>x y. at_px src x y AND rgb_mask) {(x + int i, y)} u u'"
    using copy_texel_paints [of src x i y u] assms [OF i] by simp
qed

lemma texel_quads_paint:
  assumes "\<And>i. k \<le> i \<Longrightarrow> i < count \<Longrightarrow> on_raster src (x + int i) y \<and> on_raster dst (x + int i) y"
  shows "\<exists>d'. texel_quads src (y * rpitch src + x) (y * rpitch dst + x) count k dst = Inr d' \<and>
    paints (\<lambda>x y. at_px src x y AND rgb_mask) (\<Union>i\<in>{k..<count}. {(x + int i, y)}) dst d'"
  using assms
proof (induction "count - k" arbitrary: k dst rule: less_induct)
  case less
  show ?case
  proof (cases "k + 4 \<le> count")
    case True
    obtain u where u: "foreach [k..<k + 4] (copy_texel src (y * rpitch src + x) (y * rpitch dst + x)) dst = Inr u"
      "paints (\<lambda>x y. at_px src x y AND rgb_mask) (\<Union>i\<in>{k..<k + 4}. {(x + int i, y)}) dst u"
      using texels_paint [of "[k..<k + 4]" src x y dst] less.prems True by auto
    then have same: "rpitch u = rpitch dst" "\<And>a b. on_raster u a b = on_raster dst a b"
      by (auto simp: paints_def shape_def on_raster_def)
    obtain v where v: "texel_quads src (y * rpitch src + x) (y * rpitch u + x) count (k + 4) u = Inr v"
      "paints (\<lambda>x y. at_px src x y AND rgb_mask) (\<Union>i\<in>{k + 4..<count}. {(x + int i, y)}) u v"
    proof -
      have "count - (k + 4) < count - k" using True by linarith
      moreover have "on_raster src (x + int i) y \<and> on_raster u (x + int i) y" if "k + 4 \<le> i" "i < count" for i
        using less.prems [of i] that by (simp add: same(2))
      ultimately show thesis using less.hyps [of "k + 4" u] that by blast
    qed
    have "(\<Union>i\<in>{k..<k + 4}. {(x + int i, y)}) \<union> (\<Union>i\<in>{k + 4..<count}. {(x + int i, y)}) = (\<Union>i\<in>{k..<count}. {(x + int i, y)})"
      using True by force
    then show ?thesis
      using True u v same(1) paints_trans [OF u(2) v(2)] by (subst texel_quads.simps) simp
  next
    case False
    then show ?thesis
      using texels_paint [of "[k..<count]" src x y dst] less.prems by (subst texel_quads.simps) simp
  qed
qed

text \<open>The points of a rectangle that is inside the scene and the framebuffer.\<close>

definition rect_points :: "rect \<Rightarrow> (int \<times> int) set" where
  "rect_points r = {(x, y). inside r x y}"

definition inner :: "rect \<Rightarrow> raster \<Rightarrow> bool" where
  "inner r d \<longleftrightarrow> (\<forall>x y. inside r x y \<longrightarrow> on_raster d x y)"

lemma rows_points:
  "(\<Union>j\<in>set [0..<nat (rh r)]. \<Union>i\<in>{0..<nat (rw r)}. {(rx r + int i, ry r + int j)}) = rect_points r"
proof (rule set_eqI)
  fix p :: "int \<times> int"
  obtain x y where p: "p = (x, y)" by force
  have "(\<exists>j<nat (rh r). \<exists>i<nat (rw r). x = rx r + int i \<and> y = ry r + int j) \<longleftrightarrow> inside r x y"
  proof
    assume "inside r x y"
    then show "\<exists>j<nat (rh r). \<exists>i<nat (rw r). x = rx r + int i \<and> y = ry r + int j"
      by (intro exI [of _ "nat (y - ry r)"] exI [of _ "nat (x - rx r)"] conjI) (auto simp: inside_def)
  qed (auto simp: inside_def)
  then show "p \<in> (\<Union>j\<in>set [0..<nat (rh r)]. \<Union>i\<in>{0..<nat (rw r)}. {(rx r + int i, ry r + int j)}) \<longleftrightarrow>
      p \<in> rect_points r"
    by (auto simp: p rect_points_def Bex_def)
qed

lemma copy_rect_paints:
  assumes "inner r src" and "inner r dst"
  shows "\<exists>d'. foreach [0..<nat (rh r)]
      (\<lambda>y. present_texel_row src ((ry r + int y) * rpitch src + rx r) ((ry r + int y) * rpitch dst + rx r) (nat (rw r))) dst
      = Inr d' \<and> paints (\<lambda>x y. at_px src x y AND rgb_mask) (rect_points r) dst d'"
proof -
  have "\<exists>u'. present_texel_row src ((ry r + int j) * rpitch src + rx r) ((ry r + int j) * rpitch dst + rx r) (nat (rw r)) u = Inr u' \<and>
      paints (\<lambda>x y. at_px src x y AND rgb_mask) (\<Union>i\<in>{0..<nat (rw r)}. {(rx r + int i, ry r + int j)}) u u'"
    if j: "j \<in> set [0..<nat (rh r)]" and u: "shape u = shape dst" for j u
  proof -
    have "on_raster src (rx r + int i) (ry r + int j) \<and> on_raster u (rx r + int i) (ry r + int j)"
      if "i < nat (rw r)" for i
    proof -
      have "inside r (rx r + int i) (ry r + int j)" using that j by (auto simp: inside_def)
      then show ?thesis using assms on_raster_shape [OF u] by (simp add: inner_def)
    qed
    then show ?thesis
      using texel_quads_paint [of 0 "nat (rw r)" src "rx r" "ry r + int j" u] u
      by (simp add: present_texel_row_def shape_def)
  qed
  then show ?thesis unfolding rows_points [symmetric] by (rule foreach_paints)
qed

section \<open>What presenting shows\<close>

text \<open>An image of a screen of the given size.\<close>

definition fits :: "int \<Rightarrow> int \<Rightarrow> raster \<Rightarrow> bool" where
  "fits w h r \<longleftrightarrow> rwidth r = w \<and> rheight r = h \<and> w \<le> rpitch r"

definition on_screen :: "int \<Rightarrow> int \<Rightarrow> int \<Rightarrow> int \<Rightarrow> bool" where
  "on_screen w h x y \<longleftrightarrow> 0 \<le> x \<and> x < w \<and> 0 \<le> y \<and> y < h"

lemma fits_on_raster: "fits w h r \<Longrightarrow> on_screen w h x y \<Longrightarrow> on_raster r x y"
  by (simp add: fits_def on_screen_def on_raster_def)

lemma fits_paints: "paints f P d d' \<Longrightarrow> fits w h d \<Longrightarrow> fits w h d'"
  by (simp add: paints_def shape_def fits_def)

lemma inside_clamp: "rect_laws U \<Longrightarrow> inside (clamp_rect U r w h) x y \<longleftrightarrow> inside r x y \<and> on_screen w h x y"
  by (auto simp: rect_laws_def clamp_rect_def inside_def on_screen_def)

lemma empty_inside: "rect_laws U \<Longrightarrow> empty_rect U r \<Longrightarrow> \<not> inside r x y"
  by (auto simp: rect_laws_def inside_def)

text \<open>Painting, seen on the screen.\<close>

definition shows_at :: "(int \<Rightarrow> int \<Rightarrow> 32 word) \<Rightarrow> (int \<Rightarrow> int \<Rightarrow> bool) \<Rightarrow> int \<Rightarrow> int \<Rightarrow> raster \<Rightarrow> raster \<Rightarrow> bool" where
  "shows_at f P w h d d' \<longleftrightarrow> fits w h d' \<and>
     (\<forall>x y. on_screen w h x y \<longrightarrow> at_px d' x y = (if P x y then f x y else at_px d x y))"

lemma paints_shows:
  assumes "paints f P d d'" and "fits w h d"
    and "\<And>x y. on_screen w h x y \<Longrightarrow> (x, y) \<in> P \<longleftrightarrow> Q x y"
  shows "shows_at f Q w h d d'"
  using assms fits_on_raster [OF assms(2)] fits_paints [OF assms(1,2)]
  by (simp add: paints_def shows_at_def)

lemma present_rect_shows:
  assumes "rect_laws U" and "fits w h src" and "fits w h dst"
  shows "\<exists>d' log. present_rect_to_framebuffer U src r dst = Inr (d', log) \<and>
    shows_at (\<lambda>x y. at_px src x y AND rgb_mask) (inside r) w h dst d'"
proof -
  let ?c = "clamp_rect U r (min (rwidth src) (rwidth dst)) (min (rheight src) (rheight dst))"
  have c: "inside ?c x y \<longleftrightarrow> inside r x y \<and> on_screen w h x y" for x y
    using inside_clamp [OF assms(1), of r w h x y] assms(2,3) by (simp add: fits_def)
  show ?thesis
  proof (cases "empty_rect U ?c")
    case True
    then have "\<not> inside r x y" if "on_screen w h x y" for x y
      using c empty_inside [OF assms(1) True] that by blast
    then show ?thesis using True assms(3) by (simp add: present_rect_to_framebuffer_def Let_def shows_at_def)
  next
    case False
    have "inner ?c src" "inner ?c dst"
      using c fits_on_raster [OF assms(2)] fits_on_raster [OF assms(3)] by (auto simp: inner_def)
    then obtain d' where d': "foreach [0..<nat (rh ?c)] (\<lambda>y. present_texel_row src ((ry ?c + int y) * rpitch src + rx ?c)
          ((ry ?c + int y) * rpitch dst + rx ?c) (nat (rw ?c))) dst = Inr d'"
      "paints (\<lambda>x y. at_px src x y AND rgb_mask) (rect_points ?c) dst d'"
      using copy_rect_paints by blast
    then have "shows_at (\<lambda>x y. at_px src x y AND rgb_mask) (inside r) w h dst d'"
      using c assms(3) by (intro paints_shows) (auto simp: rect_points_def)
    then show ?thesis using False d'(1) by (simp add: present_rect_to_framebuffer_def Let_def)
  qed
qed

lemma present_all_shows:
  assumes "fits w h src" and "fits w h dst"
  shows "\<exists>d' log. present_to_framebuffer src dst = Inr (d', log) \<and>
    shows_at (\<lambda>x y. at_px src x y AND rgb_mask) (\<lambda>x y. True) w h dst d'"
proof -
  let ?c = "rect_at 0 0 w h"
  have "inner ?c src" "inner ?c dst"
    using fits_on_raster [OF assms(1)] fits_on_raster [OF assms(2)]
    by (auto simp: inner_def inside_def on_screen_def)
  then obtain d' where d': "foreach [0..<nat h] (\<lambda>y. present_texel_row src (int y * rpitch src)
        (int y * rpitch dst) (nat w)) dst = Inr d'"
    "paints (\<lambda>x y. at_px src x y AND rgb_mask) (rect_points ?c) dst d'"
    using copy_rect_paints [of ?c src dst] by auto
  then have "shows_at (\<lambda>x y. at_px src x y AND rgb_mask) (\<lambda>x y. True) w h dst d'"
    using assms(2) by (intro paints_shows) (auto simp: rect_points_def inside_def on_screen_def)
  then show ?thesis using d'(1) assms by (simp add: present_to_framebuffer_def Let_def fits_def)
qed

text \<open>The pointer's image has a color for each of its pixels.\<close>

definition good_image :: "'c cursor_image \<Rightarrow> bool" where
  "good_image img \<longleftrightarrow> (ready img \<longrightarrow> int (length (cpixels img)) = cwidth img * cheight img)"

text \<open>The picture: the scene with the pointer over it.\<close>

definition picture :: "'c color_ops \<Rightarrow> raster \<Rightarrow> cursor_state \<Rightarrow> 'c cursor_image \<Rightarrow> int \<Rightarrow> int \<Rightarrow> 32 word" where
  "picture C scene cursor img x y =
     (case pointer_pixel C cursor img x y (at_px scene x y) of Inr w \<Rightarrow> w | Inl e \<Rightarrow> 0)"

lemma pointer_pixel_total:
  assumes "good_image img"
  shows "\<exists>v. pointer_pixel C cursor img x y w = Inr v"
proof -
  define lx ly where "lx = x - (cx cursor - hotspotX img)" and "ly = y - (cy cursor - hotspotY img)"
  have "nat (ly * cwidth img + lx) < length (cpixels img)"
    if "ready img" "0 \<le> lx" "0 \<le> ly" "lx < cwidth img" "ly < cheight img"
  proof -
    have "(ly + 1) * cwidth img \<le> cheight img * cwidth img"
      using that by (intro mult_right_mono) auto
    then have "ly * cwidth img + lx < int (length (cpixels img))"
      using that assms by (simp add: good_image_def algebra_simps)
    moreover have "0 \<le> ly * cwidth img + lx" using that by simp
    ultimately show ?thesis by linarith
  qed
  then show ?thesis
    by (auto simp: pointer_pixel_def Let_def not_le simp flip: lx_def ly_def)
qed

lemma picture_outside:
  assumes "color_laws C" and "\<not> inside (cursor_rect cursor img) x y"
  shows "picture C scene cursor img x y = at_px scene x y AND rgb_mask"
  using assms by (auto simp: picture_def pointer_pixel_def cursor_rect_def inside_def color_laws_def Let_def
      split: if_splits)

lemma cursor_texel_paints:
  assumes "good_image img" and "on_raster scene x y" and "on_raster fb x y"
  shows "\<exists>fb'. cursor_texel C scene cursor img x y fb = Inr fb' \<and>
    paints (picture C scene cursor img) {(x, y)} fb fb'"
proof -
  obtain v where v: "pointer_pixel C cursor img x y (at_px scene x y) = Inr v"
    using pointer_pixel_total [OF assms(1)] by blast
  obtain fb' where "store_px (y * rpitch fb + x) v fb = Inr fb'" "paints (\<lambda>_ _. v) {(x, y)} fb fb'"
    using store_px_paints [OF assms(3)] by blast
  moreover from this have "paints (picture C scene cursor img) {(x, y)} fb fb'"
    by (rule_tac paints_cong) (auto simp: picture_def v)
  ultimately show ?thesis
    using v load_px_at [OF assms(2)] by (simp add: cursor_texel_def)
qed

lemma cursor_move_shows:
  assumes "rect_laws U" and "good_image img" and "fits w h scene" and "fits w h fb"
  shows "\<exists>fb' log. present_cursor_move U C scene old new img fb = Inr (fb', log) \<and>
    shows_at (picture C scene new img) (inside (unite U (cursor_rect old img) (cursor_rect new img))) w h fb fb'"
proof -
  let ?r = "unite U (cursor_rect old img) (cursor_rect new img)"
  let ?c = "clamp_rect U ?r (rwidth fb) (rheight fb)"
  have c: "inside ?c x y \<longleftrightarrow> inside ?r x y \<and> on_screen w h x y" for x y
    using inside_clamp [OF assms(1), of ?r w h x y] assms(4) by (simp add: fits_def)
  show ?thesis
  proof (cases "empty_rect U ?c")
    case True
    then have "\<not> inside ?r x y" if "on_screen w h x y" for x y
      using c empty_inside [OF assms(1) True] that by blast
    then show ?thesis using True assms(4) by (simp add: present_cursor_move_def Let_def shows_at_def)
  next
    case False
    have row: "\<exists>u'. foreach [0..<nat (rw ?c)] (\<lambda>x. cursor_texel C scene new img (rx ?c + int x) (ry ?c + int j)) u = Inr u' \<and>
        paints (picture C scene new img) (\<Union>i\<in>set [0..<nat (rw ?c)]. {(rx ?c + int i, ry ?c + int j)}) u u'"
      if j: "j \<in> set [0..<nat (rh ?c)]" and u: "shape u = shape fb" for j u
    proof (rule foreach_paints)
      fix i v
      assume i: "i \<in> set [0..<nat (rw ?c)]" and v: "shape v = shape u"
      have "inside ?c (rx ?c + int i) (ry ?c + int j)" using i j by (auto simp: inside_def)
      then have on: "on_screen w h (rx ?c + int i) (ry ?c + int j)" using c by blast
      have "on_raster v (rx ?c + int i) (ry ?c + int j)"
        using fits_on_raster [OF assms(4) on] on_raster_shape [OF v] on_raster_shape [OF u] by simp
      then show "\<exists>v'. cursor_texel C scene new img (rx ?c + int i) (ry ?c + int j) v = Inr v' \<and>
          paints (picture C scene new img) {(rx ?c + int i, ry ?c + int j)} v v'"
        using cursor_texel_paints [OF assms(2) fits_on_raster [OF assms(3) on]] by blast
    qed
    have points: "(\<Union>j\<in>set [0..<nat (rh ?c)]. \<Union>i\<in>set [0..<nat (rw ?c)]. {(rx ?c + int i, ry ?c + int j)}) = rect_points ?c"
      using rows_points [of ?c] by simp
    have "\<exists>fb'. foreach [0..<nat (rh ?c)] (\<lambda>y. foreach [0..<nat (rw ?c)] (\<lambda>x.
          cursor_texel C scene new img (rx ?c + int x) (ry ?c + int y))) fb = Inr fb' \<and>
        paints (picture C scene new img) (rect_points ?c) fb fb'"
      unfolding points [symmetric] by (rule foreach_paints) (rule row)
    then obtain fb' where fb': "foreach [0..<nat (rh ?c)] (\<lambda>y. foreach [0..<nat (rw ?c)] (\<lambda>x.
          cursor_texel C scene new img (rx ?c + int x) (ry ?c + int y))) fb = Inr fb'"
      "paints (picture C scene new img) (rect_points ?c) fb fb'"
      by blast
    then have "shows_at (picture C scene new img) (inside ?r) w h fb fb'"
      using c assms(4) by (intro paints_shows) (auto simp: rect_points_def)
    then show ?thesis using False fb'(1) by (simp add: present_cursor_move_def Let_def)
  qed
qed

end
