(* ===== verification/Compositor_Windows.thy ===== *)
theory Compositor_Windows
  imports Framebuffer "HOL-Library.Signed_Division"
begin

text \<open>
  The desktop of the compositor: where a window's parts are (\<open>surface.cpp\<close>, \<open>input.cpp\<close>), the
  taskbar's layout, what is under a point of it and what a click on a tile does (\<open>scene.cpp\<close>,
  \<open>platform.cpp\<close>; all in \<open>src/graphics-compositor/src\<close>). The windows are the kernel's list, bottom
  to top. What is drawn of them is in \<open>Compositor_Drawing\<close>.
\<close>

section \<open>The library's rectangles and the kernel's windows\<close>

text \<open>\<open>rounded r radius x y\<close> is \<open>ui::in_rounded_rect\<close>.\<close>

record ui_ops =
  rects :: rect_ops
  rounded :: "rect \<Rightarrow> int \<Rightarrow> int \<Rightarrow> int \<Rightarrow> bool"
  offset :: "rect \<Rightarrow> int \<Rightarrow> int \<Rightarrow> rect"
  right_edge :: "rect \<Rightarrow> int"
  small_width :: "string \<Rightarrow> int"

text \<open>Bits of a window's state.\<close>

datatype window_flag = Minimized | Closed | Focused | Maximized | OtherFlag nat

record window_info =
  wid :: nat
  ownerPID :: nat
  wflags :: nat
  wstate :: "window_flag set"
  wx :: int
  wy :: int
  wwidth :: int
  wheight :: int
  surfaceID :: nat
  zOrder :: nat
  title :: string

definition kBorder :: int where "kBorder = 1"
definition kTitleBarHeight :: int where "kTitleBarHeight = 40"
definition kWindowCornerRadius :: int where "kWindowCornerRadius = 12"
definition kControlWidth :: int where "kControlWidth = 46"
definition kShadowMargin :: int where "kShadowMargin = 24 + 10"
definition kResizeGripSize :: int where "kResizeGripSize = 14"

definition frame_width :: "window_info \<Rightarrow> int" where
  "frame_width w = wwidth w + kBorder * 2"

definition frame_height :: "window_info \<Rightarrow> int" where
  "frame_height w = wheight w + kTitleBarHeight + kBorder"

definition is_window_visible :: "window_info \<Rightarrow> bool" where
  "is_window_visible w \<longleftrightarrow> Minimized \<notin> wstate w \<and> Closed \<notin> wstate w"

definition window_frame_rect :: "window_info \<Rightarrow> rect" where
  "window_frame_rect w = rect_at (wx w) (wy w) (frame_width w) (frame_height w)"

definition window_damage_rect :: "window_info \<Rightarrow> rect" where
  "window_damage_rect w =
     (let f = window_frame_rect w
      in rect_at (rx f - kShadowMargin) (ry f - kShadowMargin) (rw f + 2 * kShadowMargin) (rh f + 2 * kShadowMargin))"

definition content_rect :: "window_info \<Rightarrow> rect" where
  "content_rect w = rect_at (wx w + kBorder) (wy w + kTitleBarHeight) (wwidth w) (wheight w)"

text \<open>Controls: 0 close, 1 maximize, 2 minimize.\<close>

definition window_control_rect :: "window_info \<Rightarrow> int \<Rightarrow> rect" where
  "window_control_rect w control =
     (let slotFromRight = (if control = 0 then 0 else if control = 2 then 2 else 1)
      in rect_at (wx w + frame_width w - kBorder - (slotFromRight + 1) * kControlWidth) (wy w + kBorder)
           kControlWidth (kTitleBarHeight - kBorder))"

definition window_control_at :: "ui_ops \<Rightarrow> window_info \<Rightarrow> int \<Rightarrow> int \<Rightarrow> int" where
  "window_control_at U w x y =
     (case find (\<lambda>c. contains (rects U) (window_control_rect w c) x y) [0, 1, 2] of Some c \<Rightarrow> c | None \<Rightarrow> -1)"

definition pointer_on_close :: "ui_ops \<Rightarrow> window_info \<Rightarrow> int \<Rightarrow> int \<Rightarrow> bool" where
  "pointer_on_close U w x y = contains (rects U) (window_control_rect w 0) x y"

definition pointer_on_maximize :: "ui_ops \<Rightarrow> window_info \<Rightarrow> int \<Rightarrow> int \<Rightarrow> bool" where
  "pointer_on_maximize U w x y = contains (rects U) (window_control_rect w 1) x y"

definition pointer_on_minimize :: "ui_ops \<Rightarrow> window_info \<Rightarrow> int \<Rightarrow> int \<Rightarrow> bool" where
  "pointer_on_minimize U w x y = contains (rects U) (window_control_rect w 2) x y"

definition pointer_on_resize_grip :: "ui_ops \<Rightarrow> window_info \<Rightarrow> int \<Rightarrow> int \<Rightarrow> bool" where
  "pointer_on_resize_grip U w x y =
     contains (rects U) (rect_at (wx w + frame_width w - kBorder - kResizeGripSize)
       (wy w + frame_height w - kBorder - kResizeGripSize) kResizeGripSize kResizeGripSize) x y"

definition in_top_rounded_rect :: "ui_ops \<Rightarrow> rect \<Rightarrow> int \<Rightarrow> int \<Rightarrow> int \<Rightarrow> bool" where
  "in_top_rounded_rect U r radius x y =
     (if empty_rect (rects U) r \<or> \<not> contains (rects U) r x y then False
      else let radius = (if rw r sdiv 2 < radius then rw r sdiv 2 else radius);
               radius = (if rh r sdiv 2 < radius then rh r sdiv 2 else radius)
      in if radius \<le> 0 \<or> ry r + radius \<le> y then True
         else let leftCenterX = rx r + radius; rightCenterX = rx r + rw r - radius - 1
         in if leftCenterX \<le> x \<and> x \<le> rightCenterX then True
            else let dx = x - (if x < leftCenterX then leftCenterX else rightCenterX); dy = y - (ry r + radius)
            in dx * dx + dy * dy \<le> radius * radius)"

definition pointer_on_titlebar :: "ui_ops \<Rightarrow> window_info \<Rightarrow> int \<Rightarrow> int \<Rightarrow> bool" where
  "pointer_on_titlebar U w x y =
     in_top_rounded_rect U (rect_at (wx w + kBorder) (wy w + kBorder) (wwidth w) (kTitleBarHeight - kBorder))
       (if kBorder < kWindowCornerRadius then kWindowCornerRadius - kBorder else 0) x y"

definition top_window_at :: "ui_ops \<Rightarrow> window_info list \<Rightarrow> int \<Rightarrow> int \<Rightarrow> window_info option" where
  "top_window_at U ws x y =
     find (\<lambda>w. is_window_visible w \<and> rounded U (window_frame_rect w) kWindowCornerRadius x y) (rev ws)"

definition window_by_id :: "window_info list \<Rightarrow> nat \<Rightarrow> window_info option" where
  "window_by_id ws i = find (\<lambda>w. wid w = i) ws"

section \<open>Calls to the kernel\<close>

datatype control = CloseIt | RestoreIt | MaximizeIt int int int int | MinimizeIt

datatype pointer_action = MoveAction | ButtonAction | OtherAction

record pointer_event =
  pex :: int
  pey :: int
  pbuttons :: "16 word"
  paction :: pointer_action

datatype comp_call =
    MoveWindow nat int int | ResizeWindow nat int int | FocusWindow nat | ControlWindow nat control
  | PostPointer nat pointer_event | SpawnApp string

text \<open>Whether a call succeeds, after the calls before it.\<close>

type_synonym comp_env = "(comp_call, bool) environment"

section \<open>The taskbar\<close>

definition kTaskbarHeight :: int where "kTaskbarHeight = 52"
definition kTaskbarMargin :: int where "kTaskbarMargin = 12"
definition kWorkAreaGap :: int where "kWorkAreaGap = 12"
definition kStartSize :: int where "kStartSize = 36"
definition kTileSize :: int where "kTileSize = 44"
definition kTileGap :: int where "kTileGap = 6"
definition kTooltipHeight :: int where "kTooltipHeight = 26"
definition kPinnedCount :: nat where "kPinnedCount = 5"
definition kMaxTiles :: nat where "kMaxTiles = 16"

definition taskbar_slot_window_title :: "int \<Rightarrow> string" where
  "taskbar_slot_window_title slot =
     (let titles = [''Terminal'', ''File Browser'', ''Background Switcher'', ''Cube'', ''NetSurf'']
      in if 0 \<le> slot \<and> slot < int kPinnedCount then titles ! nat slot else [])"

definition taskbar_slot_label :: "int \<Rightarrow> string" where
  "taskbar_slot_label slot =
     (let labels = [''Terminal'', ''Files'', ''Wallpapers'', ''Cube'', ''Web'']
      in if 0 \<le> slot \<and> slot < int kPinnedCount then labels ! nat slot else [])"

definition slot_program :: "int \<Rightarrow> string option" where
  "slot_program slot =
     (if slot = 0 then Some ''/bin/terminal'' else if slot = 1 then Some ''/bin/file-browser''
      else if slot = 2 then Some ''/bin/background-switcher'' else if slot = 3 then Some ''/bin/cube''
      else if slot = 4 then Some ''/bin/netsurf'' else None)"

definition taskbar_bar_rect :: "int \<Rightarrow> int \<Rightarrow> rect" where
  "taskbar_bar_rect screenWidth screenHeight =
     rect_at kTaskbarMargin (screenHeight - kTaskbarMargin - kTaskbarHeight) (screenWidth - 2 * kTaskbarMargin)
       kTaskbarHeight"

definition work_area_bottom :: "int \<Rightarrow> int" where
  "work_area_bottom screenHeight = screenHeight - kTaskbarMargin - kTaskbarHeight - kWorkAreaGap"

definition pinned_slot_of :: "string \<Rightarrow> int" where
  "pinned_slot_of t =
     (case find (\<lambda>slot. t = taskbar_slot_window_title (int slot)) [0..<kPinnedCount] of
        Some slot \<Rightarrow> int slot | None \<Rightarrow> -1)"

definition is_open :: "window_info \<Rightarrow> bool" where
  "is_open w \<longleftrightarrow> Closed \<notin> wstate w"

definition is_active :: "window_info \<Rightarrow> bool" where
  "is_active w \<longleftrightarrow> Focused \<in> wstate w \<and> Minimized \<notin> wstate w"

record tile =
  trect :: rect
  tslot :: int
  twindow :: nat

record taskbar =
  bar :: rect
  start :: rect
  tiles :: "tile list"

definition blank_tile :: "int \<Rightarrow> nat \<Rightarrow> tile" where
  "blank_tile slot i = \<lparr>trect = rect_at 0 0 0 0, tslot = slot, twindow = i\<rparr>"

text \<open>The inner loop: the tiles of newer windows move up by one place.\<close>

fun sift_tile :: "nat \<Rightarrow> nat \<Rightarrow> tile list \<Rightarrow> tile list" where
  "sift_tile i 0 ts = ts[0 := blank_tile (-1) i]"
| "sift_tile i (Suc at) ts =
     (if kPinnedCount < Suc at \<and> i < twindow (ts ! at) then sift_tile i at (ts[Suc at := ts ! at])
      else ts[Suc at := blank_tile (-1) i])"

definition add_tile :: "window_info \<Rightarrow> tile list \<Rightarrow> tile list" where
  "add_tile w ts =
     (if \<not> is_open w \<or> 0 \<le> pinned_slot_of (title w) then ts
      else if length ts = kMaxTiles \<and> twindow (ts ! (kMaxTiles - 1)) < wid w then ts
      else if length ts < kMaxTiles then sift_tile (wid w) (length ts) (ts @ [blank_tile 0 0])
      else sift_tile (wid w) (kMaxTiles - 1) ts)"

definition taskbar_layout :: "int \<Rightarrow> int \<Rightarrow> window_info list \<Rightarrow> taskbar" where
  "taskbar_layout screenWidth screenHeight ws =
     (let b = taskbar_bar_rect screenWidth screenHeight;
          ts = fold add_tile ws (map (\<lambda>slot. blank_tile (int slot) 0) [0..<kPinnedCount]);
          total = int (length ts) * kTileSize + (int (length ts) - 1) * kTileGap;
          x0 = rx b + (rw b - total) sdiv 2
      in \<lparr>bar = b,
          start = rect_at (rx b + 8) (ry b + (kTaskbarHeight - kStartSize) sdiv 2) kStartSize kStartSize,
          tiles = map (\<lambda>k. (ts ! k)\<lparr>trect := rect_at (x0 + int k * (kTileSize + kTileGap))
                    (ry b + (kTaskbarHeight - kTileSize) sdiv 2) kTileSize kTileSize\<rparr>) [0..<length ts]\<rparr>)"

datatype taskbar_hit_kind = HitNone | HitBar | HitStart | HitTile nat

definition taskbar_hit :: "ui_ops \<Rightarrow> taskbar \<Rightarrow> int \<Rightarrow> int \<Rightarrow> taskbar_hit_kind" where
  "taskbar_hit U l x y =
     (if \<not> contains (rects U) (bar l) x y then HitNone
      else if contains (rects U) (start l) x y then HitStart
      else case find (\<lambda>k. contains (rects U) (trect (tiles l ! k)) x y) [0..<length (tiles l)] of
             Some k \<Rightarrow> HitTile k | None \<Rightarrow> HitBar)"

definition better_window :: "int \<Rightarrow> window_info \<Rightarrow> window_info option \<Rightarrow> window_info option" where
  "better_window slot w best =
     (if \<not> is_open w \<or> pinned_slot_of (title w) \<noteq> slot then best
      else case best of
             None \<Rightarrow> Some w
           | Some b \<Rightarrow> if is_active w \<or> \<not> is_active b \<and> wid b < wid w then Some w else best)"

definition tile_window :: "tile \<Rightarrow> window_info list \<Rightarrow> window_info option" where
  "tile_window t ws =
     (if tslot t < 0
      then case window_by_id ws (twindow t) of Some w \<Rightarrow> if is_open w then Some w else None | None \<Rightarrow> None
      else fold (better_window (tslot t)) ws None)"

definition tile_label :: "tile \<Rightarrow> window_info option \<Rightarrow> string" where
  "tile_label t w =
     (case w of Some w \<Rightarrow> if title w \<noteq> [] then title w else if 0 \<le> tslot t then taskbar_slot_label (tslot t) else ''Window''
      | None \<Rightarrow> if 0 \<le> tslot t then taskbar_slot_label (tslot t) else ''Window'')"

definition taskbar_tooltip_rect :: "ui_ops \<Rightarrow> taskbar \<Rightarrow> int \<Rightarrow> window_info list \<Rightarrow> rect" where
  "taskbar_tooltip_rect U l k ws =
     (if k < 0 \<or> int (length (tiles l)) \<le> k then rect_at 0 0 0 0
      else let t = tiles l ! nat k;
               width = small_width U (tile_label t (tile_window t ws)) + 20;
               x = rx (trect t) + rw (trect t) sdiv 2 - width sdiv 2;
               x = (if x < rx (bar l) then rx (bar l) else x);
               x = (if right_edge U (bar l) < x + width then right_edge U (bar l) - width else x)
      in rect_at x (ry (bar l) - 8 - kTooltipHeight) width kTooltipHeight)"

text \<open>The calls a click makes, and whether the windows changed; how the calls end does not matter.\<close>

definition taskbar_click :: "taskbar \<Rightarrow> int \<Rightarrow> window_info list \<Rightarrow> bool \<times> comp_call list" where
  "taskbar_click l k ws =
     (if k < 0 \<or> int (length (tiles l)) \<le> k then (False, [])
      else let t = tiles l ! nat k
      in case tile_window t ws of
           None \<Rightarrow>
             (False, if 0 \<le> tslot t then (case slot_program (tslot t) of Some p \<Rightarrow> [SpawnApp p] | None \<Rightarrow> []) else [])
         | Some w \<Rightarrow> (True, [if is_active w then ControlWindow (wid w) MinimizeIt else FocusWindow (wid w)]))"

end
