(* ===== verification/Compositor_Surfaces.thy ===== *)
theory Compositor_Surfaces
  imports Compositor_Windows
begin

text \<open>
  The surfaces the compositor knows, \<open>src/graphics-compositor/src/surface.cpp\<close>: an array of 64
  entries with the last commit of each surface and the region damaged since the last redraw.
  The fields of 32 bits are \<open>nat\<close> with their conversions and wrap-around written out.
\<close>

section \<open>Entries\<close>

record surface_info =
  sid :: nat
  swidth :: nat
  sheight :: nat
  spitch :: nat
  saddress :: nat
  sdirtyX :: nat
  sdirtyY :: nat
  sdirtyWidth :: nat
  sdirtyHeight :: nat

record cache_entry =
  valid :: bool
  eid :: nat
  einfo :: surface_info
  dirty :: bool
  dirtyX :: nat
  dirtyY :: nat
  dirtyWidth :: nat
  dirtyHeight :: nat
  generation :: nat
  unshownLists :: nat

definition kMaxSurfaceCache :: nat where "kMaxSurfaceCache = 64"
definition kSurfaceForgetLists :: nat where "kSurfaceForgetLists = 8"

definition no_surface :: surface_info where
  "no_surface = \<lparr>sid = 0, swidth = 0, sheight = 0, spitch = 0, saddress = 0, sdirtyX = 0, sdirtyY = 0,
     sdirtyWidth = 0, sdirtyHeight = 0\<rparr>"

definition empty_entry :: cache_entry where
  "empty_entry = \<lparr>valid = False, eid = 0, einfo = no_surface, dirty = False, dirtyX = 0, dirtyY = 0,
     dirtyWidth = 0, dirtyHeight = 0, generation = 0, unshownLists = 0\<rparr>"

text \<open>\<open>static_cast<int>\<close> of a 32-bit value.\<close>

definition int_of_u32 :: "nat \<Rightarrow> int" where
  "int_of_u32 n = (if n < 2147483648 then int n else int n - 4294967296)"

lemma int_of_u32_small [simp]: "n < 2147483648 \<Longrightarrow> int_of_u32 n = int n"
  by (simp add: int_of_u32_def)

section \<open>Operations\<close>

definition find_surface_cache :: "cache_entry list \<Rightarrow> nat \<Rightarrow> nat option" where
  "find_surface_cache cache i =
     (if i = 0 then None else find (\<lambda>k. valid (cache ! k) \<and> eid (cache ! k) = i) [0..<kMaxSurfaceCache])"

text \<open>The entry a commit goes to: its own, else the first free one, else the first.\<close>

definition entry_for :: "cache_entry list \<Rightarrow> nat \<Rightarrow> nat" where
  "entry_for cache i =
     (case find_surface_cache cache i of
        Some k \<Rightarrow> k
      | None \<Rightarrow> (case find (\<lambda>k. \<not> valid (cache ! k)) [0..<kMaxSurfaceCache] of Some k \<Rightarrow> k | None \<Rightarrow> 0))"

definition committed_entry :: "ui_ops \<Rightarrow> surface_info \<Rightarrow> cache_entry \<Rightarrow> cache_entry" where
  "committed_entry U info e =
     (let gen = (if \<not> valid e \<or> eid e \<noteq> sid info then 0 else generation e);
          oldDirty = (if dirty e
            then rect_at (int_of_u32 (dirtyX e)) (int_of_u32 (dirtyY e)) (int_of_u32 (dirtyWidth e)) (int_of_u32 (dirtyHeight e))
            else rect_at 0 0 0 0);
          newDirty = rect_at (int_of_u32 (sdirtyX info)) (int_of_u32 (sdirtyY info))
            (int_of_u32 (sdirtyWidth info)) (int_of_u32 (sdirtyHeight info));
          merged = unite (rects U) oldDirty newDirty
      in \<lparr>valid = True, eid = sid info, einfo = info, dirty = (\<not> empty_rect (rects U) merged),
          dirtyX = u32_of_int (rx merged), dirtyY = u32_of_int (ry merged), dirtyWidth = u32_of_int (rw merged),
          dirtyHeight = u32_of_int (rh merged), generation = (gen + 1) mod 2 ^ 64, unshownLists = 0\<rparr>)"

definition remember_surface :: "ui_ops \<Rightarrow> surface_info \<Rightarrow> cache_entry list \<Rightarrow> cache_entry list" where
  "remember_surface U info cache =
     (let k = entry_for cache (sid info) in cache[k := committed_entry U info (cache ! k)])"

definition forget_entry :: "window_info list \<Rightarrow> cache_entry \<Rightarrow> cache_entry" where
  "forget_entry ws e =
     (if \<not> valid e then e
      else if \<exists>w\<in>set ws. surfaceID w = eid e then e\<lparr>unshownLists := 0\<rparr>
      else if kSurfaceForgetLists < u32_add (unshownLists e) 1 then empty_entry
      else e\<lparr>unshownLists := u32_add (unshownLists e) 1\<rparr>)"

definition forget_unshown_surfaces :: "window_info list \<Rightarrow> cache_entry list \<Rightarrow> cache_entry list" where
  "forget_unshown_surfaces ws cache = map (forget_entry ws) cache"

text \<open>
  The loop of \<open>pump_surface_updates\<close>, over the answers of \<open>surface_poll\<close>: it ends at the first one
  without a surface.
\<close>

partial_function (option) pump_loop ::
  "ui_ops \<Rightarrow> (nat \<Rightarrow> surface_info option) \<Rightarrow> nat \<Rightarrow> bool \<Rightarrow> cache_entry list \<Rightarrow> (bool \<times> cache_entry list) option" where
  "pump_loop U polls n changed cache =
     (case polls n of
        None \<Rightarrow> Some (changed, cache)
      | Some info \<Rightarrow> pump_loop U polls (Suc n) True (remember_surface U info cache))"

definition pump_surface_updates ::
  "ui_ops \<Rightarrow> (nat \<Rightarrow> surface_info option) \<Rightarrow> cache_entry list \<Rightarrow> (bool \<times> cache_entry list) option" where
  "pump_surface_updates U polls cache = pump_loop U polls 0 False cache"

definition clear_dirty :: "cache_entry \<Rightarrow> cache_entry" where
  "clear_dirty e = e\<lparr>dirty := False, dirtyX := 0, dirtyY := 0, dirtyWidth := 0, dirtyHeight := 0\<rparr>"

definition clear_surface_dirty_flags :: "cache_entry list \<Rightarrow> cache_entry list" where
  "clear_surface_dirty_flags cache = map clear_dirty cache"

text \<open>The part of a window's surface that is damaged, on the screen.\<close>

definition window_dirty_rect :: "cache_entry list \<Rightarrow> window_info \<Rightarrow> rect option" where
  "window_dirty_rect cache w =
     (if \<not> is_window_visible w then None
      else case find_surface_cache cache (surfaceID w) of
             None \<Rightarrow> None
           | Some k \<Rightarrow>
              (let e = cache ! k
               in if \<not> dirty e then None
                  else let dirtyRight = u32_add (dirtyX e) (dirtyWidth e);
                           dirtyBottom = u32_add (dirtyY e) (dirtyHeight e);
                           surfaceRight = (if swidth (einfo e) < u32_of_int (wwidth w) then swidth (einfo e)
                             else u32_of_int (wwidth w));
                           surfaceBottom = (if sheight (einfo e) < u32_of_int (wheight w) then sheight (einfo e)
                             else u32_of_int (wheight w))
                  in if dirtyWidth e = 0 \<or> dirtyHeight e = 0 \<or> surfaceRight \<le> dirtyX e \<or> surfaceBottom \<le> dirtyY e
                     then None
                     else let clippedRight = (if dirtyRight < surfaceRight then dirtyRight else surfaceRight);
                              clippedBottom = (if dirtyBottom < surfaceBottom then dirtyBottom else surfaceBottom)
                     in Some (rect_at (wx w + kBorder + int_of_u32 (dirtyX e)) (wy w + kTitleBarHeight + int_of_u32 (dirtyY e))
                          (int_of_u32 (u32_sub clippedRight (dirtyX e))) (int_of_u32 (u32_sub clippedBottom (dirtyY e))))))"

definition consume_surface_dirty_rect ::
  "ui_ops \<Rightarrow> window_info list \<Rightarrow> int \<Rightarrow> int \<Rightarrow> cache_entry list \<Rightarrow> rect \<times> cache_entry list" where
  "consume_surface_dirty_rect U ws width height cache =
     (let dirty = fold (\<lambda>w d. case window_dirty_rect cache w of None \<Rightarrow> d | Some r \<Rightarrow> unite (rects U) d r) ws
                    (rect_at 0 0 0 0)
      in (clamp_rect (rects U) dirty width height, map clear_dirty cache))"

section \<open>The cache as a map\<close>

text \<open>At most one entry for a surface.\<close>

definition cache_ok :: "cache_entry list \<Rightarrow> bool" where
  "cache_ok cache \<longleftrightarrow> length cache = kMaxSurfaceCache \<and>
     (\<forall>k<kMaxSurfaceCache. valid (cache ! k) \<longrightarrow> eid (cache ! k) \<noteq> 0 \<and>
        (\<forall>j<kMaxSurfaceCache. valid (cache ! j) \<and> eid (cache ! j) = eid (cache ! k) \<longrightarrow> j = k))"

definition entry_of :: "cache_entry list \<Rightarrow> nat \<Rightarrow> cache_entry option" where
  "entry_of cache i = map_option ((!) cache) (find_surface_cache cache i)"

definition has_room :: "cache_entry list \<Rightarrow> bool" where
  "has_room cache \<longleftrightarrow> (\<exists>k<kMaxSurfaceCache. \<not> valid (cache ! k))"

lemma find_upt_None: "find P [0..<n] = None \<longleftrightarrow> (\<forall>k<n. \<not> P k)"
  by (auto simp: find_None_iff)

lemma find_upt_Some: "find P [0..<n] = Some k \<Longrightarrow> k < n \<and> P k"
  by (auto simp: find_Some_iff)

lemma find_surface:
  assumes "cache_ok cache"
  shows "find_surface_cache cache i = Some k \<longleftrightarrow> k < kMaxSurfaceCache \<and> valid (cache ! k) \<and> eid (cache ! k) = i"
proof
  assume "find_surface_cache cache i = Some k"
  then show "k < kMaxSurfaceCache \<and> valid (cache ! k) \<and> eid (cache ! k) = i"
    by (auto simp: find_surface_cache_def dest: find_upt_Some split: if_splits)
next
  assume k: "k < kMaxSurfaceCache \<and> valid (cache ! k) \<and> eid (cache ! k) = i"
  then have "i \<noteq> 0" using assms by (auto simp: cache_ok_def)
  then obtain j where j: "find_surface_cache cache i = Some j"
    using k find_upt_None [of "\<lambda>k. valid (cache ! k) \<and> eid (cache ! k) = i" kMaxSurfaceCache]
    by (cases "find_surface_cache cache i") (auto simp: find_surface_cache_def)
  then have "j < kMaxSurfaceCache \<and> valid (cache ! j) \<and> eid (cache ! j) = i"
    by (auto simp: find_surface_cache_def dest: find_upt_Some split: if_splits)
  then have "j = k" using assms k unfolding cache_ok_def by blast
  then show "find_surface_cache cache i = Some k" using j by simp
qed

lemma entry_for_range: "entry_for cache i < kMaxSurfaceCache"
  by (auto simp: entry_for_def find_surface_cache_def kMaxSurfaceCache_def split: option.split if_splits
      dest!: find_upt_Some)

text \<open>The entry chosen is the surface's own, a free one when there is one, or else anyone's.\<close>

lemma entry_for_cases:
  assumes "cache_ok cache"
  obtains (own) "valid (cache ! entry_for cache i)" "eid (cache ! entry_for cache i) = i"
    "entry_of cache i = Some (cache ! entry_for cache i)"
  | (free) "\<not> valid (cache ! entry_for cache i)" "entry_of cache i = None"
  | (full) "entry_of cache i = None" "\<not> has_room cache" "entry_for cache i = 0"
proof (cases "find_surface_cache cache i")
  case (Some k)
  then show thesis
    using own find_surface [OF assms, of i k] by (simp add: entry_for_def entry_of_def)
next
  case None
  note none = this
  show thesis
  proof (cases "has_room cache")
    case True
    then obtain k where "find (\<lambda>k. \<not> valid (cache ! k)) [0..<kMaxSurfaceCache] = Some k"
      using find_upt_None [of "\<lambda>k. \<not> valid (cache ! k)" kMaxSurfaceCache]
      by (cases "find (\<lambda>k. \<not> valid (cache ! k)) [0..<kMaxSurfaceCache]") (auto simp: has_room_def)
    then show thesis using free none find_upt_Some by (fastforce simp: entry_for_def entry_of_def)
  next
    case False
    then have "find (\<lambda>k. \<not> valid (cache ! k)) [0..<kMaxSurfaceCache] = None"
      by (simp add: find_upt_None has_room_def)
    then show thesis using full False none by (simp add: entry_for_def entry_of_def)
  qed
qed

lemma entry_of_Some:
  assumes "cache_ok cache"
  shows "entry_of cache i = Some e \<longleftrightarrow> (\<exists>k<kMaxSurfaceCache. e = cache ! k \<and> valid e \<and> eid e = i)"
  using find_surface [OF assms] by (auto simp: entry_of_def)

lemma committed_entry_simps [simp]:
  "valid (committed_entry U info e)" "eid (committed_entry U info e) = sid info"
  "einfo (committed_entry U info e) = info" "unshownLists (committed_entry U info e) = 0"
  by (simp_all add: committed_entry_def Let_def)

lemma option_ext: "(\<And>y. a = Some y \<longleftrightarrow> b = Some y) \<Longrightarrow> a = b"
  by (cases a; cases b) auto

text \<open>An array whose entries change without exchanging surfaces.\<close>

lemma map_entries_ok:
  assumes "cache_ok cache" and "\<And>e. valid (f e) \<Longrightarrow> valid e \<and> eid (f e) = eid e"
  shows "cache_ok (map f cache)"
    and "entry_of (map f cache) i =
      (case entry_of cache i of None \<Rightarrow> None | Some e \<Rightarrow> if valid (f e) then Some (f e) else None)"
proof -
  have len: "length cache = kMaxSurfaceCache" using assms(1) by (simp add: cache_ok_def)
  show ok: "cache_ok (map f cache)"
    using assms unfolding cache_ok_def by (simp add: len) metis
  have "entry_of (map f cache) i = Some e' \<longleftrightarrow>
      (\<exists>e. entry_of cache i = Some e \<and> valid (f e) \<and> e' = f e)" for e'
    using assms(2) by (auto simp: entry_of_Some [OF ok] entry_of_Some [OF assms(1)] len) metis
  then show "entry_of (map f cache) i =
      (case entry_of cache i of None \<Rightarrow> None | Some e \<Rightarrow> if valid (f e) then Some (f e) else None)"
    by (intro option_ext) (auto split: option.split)
qed

lemma remember_ok:
  assumes "cache_ok cache" and "sid info \<noteq> 0"
  shows "cache_ok (remember_surface U info cache)"
    and "entry_of (remember_surface U info cache) (sid info) =
      Some (committed_entry U info (cache ! entry_for cache (sid info)))"
    and "entry_of cache (sid info) \<noteq> None \<or> has_room cache \<Longrightarrow> i \<noteq> sid info \<Longrightarrow>
      entry_of (remember_surface U info cache) i = entry_of cache i"
proof -
  let ?k = "entry_for cache (sid info)"
  let ?c = "remember_surface U info cache"
  have k: "?k < kMaxSurfaceCache" by (rule entry_for_range)
  have len: "length cache = kMaxSurfaceCache" using assms(1) by (simp add: cache_ok_def)
  have at: "?c ! j = (if j = ?k then committed_entry U info (cache ! ?k) else cache ! j)" if "j < kMaxSurfaceCache" for j
    using that by (simp add: remember_surface_def Let_def len nth_list_update)
  have own: "j = ?k" if "j < kMaxSurfaceCache" "valid (cache ! j)" "eid (cache ! j) = sid info" for j
    using that find_surface [OF assms(1), of "sid info" j] by (simp add: entry_for_def)
  have new: "m = ?k" if "m < kMaxSurfaceCache" "valid (?c ! m)" "eid (?c ! m) = sid info" for m
    using own [OF that(1)] that at [OF that(1)] by (cases "m = ?k") simp_all
  show ok: "cache_ok ?c"
    unfolding cache_ok_def
  proof (intro conjI allI impI)
    show "length ?c = kMaxSurfaceCache" by (simp add: remember_surface_def len Let_def)
    fix n assume n: "n < kMaxSurfaceCache" "valid (?c ! n)"
    show "eid (?c ! n) \<noteq> 0" using assms n at by (auto simp: cache_ok_def)
    fix j assume j: "j < kMaxSurfaceCache" "valid (?c ! j) \<and> eid (?c ! j) = eid (?c ! n)"
    show "j = n"
    proof (cases "j = ?k \<or> n = ?k")
      case True
      moreover have "eid (?c ! ?k) = sid info" by (simp add: at [OF k])
      ultimately have "eid (?c ! j) = sid info \<and> eid (?c ! n) = sid info"
        using conjunct2 [OF j(2)] by metis
      then show ?thesis using new [OF n] new [OF j(1) conjunct1 [OF j(2)]] by blast
    next
      case False
      then have "valid (cache ! j) \<and> eid (cache ! j) = eid (cache ! n)" "valid (cache ! n)"
        using n(2) j(2) unfolding at [OF n(1)] at [OF j(1)] by simp_all
      then show ?thesis using assms(1) n(1) j(1) unfolding cache_ok_def by blast
    qed
  qed
  show "entry_of ?c (sid info) = Some (committed_entry U info (cache ! ?k))"
    using k at [OF k] by (auto simp: entry_of_Some [OF ok])
  assume room: "entry_of cache (sid info) \<noteq> None \<or> has_room cache" and i: "i \<noteq> sid info"
  have other: "\<not> (valid (cache ! ?k) \<and> eid (cache ! ?k) = i)"
    using room i by (cases rule: entry_for_cases [OF assms(1), of "sid info"]) auto
  have "entry_of ?c i = Some e \<longleftrightarrow> entry_of cache i = Some e" for e
    using i other by (auto simp: entry_of_Some [OF ok] entry_of_Some [OF assms(1)] at split: if_splits)
  then show "entry_of ?c i = entry_of cache i" by (rule option_ext)
qed

lemma forget_ok:
  assumes "cache_ok cache"
  shows "cache_ok (forget_unshown_surfaces ws cache)"
    and "entry_of (forget_unshown_surfaces ws cache) i =
      (case entry_of cache i of None \<Rightarrow> None
       | Some e \<Rightarrow> if valid (forget_entry ws e) then Some (forget_entry ws e) else None)"
  unfolding forget_unshown_surfaces_def
  by (rule map_entries_ok [OF assms], auto simp: forget_entry_def empty_entry_def split: if_splits)+

lemma clear_ok:
  assumes "cache_ok cache"
  shows "cache_ok (map clear_dirty cache)"
    and "entry_of (map clear_dirty cache) i = map_option clear_dirty (entry_of cache i)"
proof -
  note m = map_entries_ok [OF assms, of clear_dirty]
  show "cache_ok (map clear_dirty cache)" by (rule m) (simp_all add: clear_dirty_def)
  have "valid e" if "entry_of cache i = Some e" for e
    using that by (auto simp: entry_of_Some [OF assms])
  then show "entry_of (map clear_dirty cache) i = map_option clear_dirty (entry_of cache i)"
    by (subst m) (auto simp: clear_dirty_def split: option.split)
qed

end
