(* ===== verification/Flip_Backend.thy ===== *)
theory Flip_Backend
  imports Framebuffer
begin

text \<open>
  The flip back end of the compositor, \<open>FlipBackend\<close> in \<open>src/graphics-compositor/src/backend.cpp\<close>:
  two scanout buffers, each with the region it is missing, brought up to date and flipped at
  \<open>commit\<close>; and, when the display refuses, the framebuffer. The scene is drawn into one of
  several canvases, which the back end knows by a pointer (the index of a canvas).
\<close>

section \<open>State\<close>

datatype display_call = Acquire bool | Wait nat | Flip nat | Release | Flush rect

text \<open>A reply of the display: for \<open>Acquire\<close> whether it is emulated, the size, the pitch in bytes, the
  pixels of the buffers.\<close>

datatype display_reply = Refused | Done | Buffers bool int int int "(int \<Rightarrow> 32 word) list"

type_synonym display_env = "(display_call, display_reply) environment"

definition kBuffers :: nat where "kBuffers = 2"
definition kWaitMs :: nat where "kWaitMs = 100"

type_synonym canvases = "nat \<Rightarrow> raster"

record 'c flip =
  emulated :: bool
  target :: raster
  bufs :: "raster list"
  missing :: "rect list"
  cursorDrawn :: "rect list"
  front :: nat
  sceneOf :: "nat option"
  cursor :: cursor_state
  cursorImg :: "'c cursor_image option"
  pending :: bool
  failed :: bool
  dcalls :: "display_call list"

definition no_rect :: rect where "no_rect = rect_at 0 0 0 0"

text \<open>The member initialisers, with the framebuffer there is.\<close>

definition new_flip :: "raster \<Rightarrow> 'c flip" where
  "new_flip t =
     \<lparr>emulated = False, target = t, bufs = [], missing = [no_rect, no_rect],
      cursorDrawn = [no_rect, no_rect], front = kBuffers, sceneOf = None, cursor = \<lparr>cx = 0, cy = 0\<rparr>,
      cursorImg = None, pending = False, failed = False, dcalls = []\<rparr>"

definition display :: "display_env \<Rightarrow> display_call \<Rightarrow> 'c flip \<Rightarrow> display_reply \<times> 'c flip" where
  "display env c s = (env (dcalls s) c, s\<lparr>dcalls := dcalls s @ [c]\<rparr>)"

definition flushed :: "rect list \<Rightarrow> 'c flip \<Rightarrow> 'c flip" where
  "flushed rs s = s\<lparr>dcalls := dcalls s @ map Flush rs\<rparr>"

section \<open>Operations\<close>

definition flip_acquire :: "display_env \<Rightarrow> bool \<Rightarrow> 'c flip \<Rightarrow> bool \<times> 'c flip" where
  "flip_acquire env acceptEmulation s =
     (case display env (Acquire acceptEmulation) s of
        (Buffers em w h pitch pxs, s) \<Rightarrow>
          let s = s\<lparr>emulated := em\<rparr>
          in if length pxs < kBuffers then (False, s)
             else (True, s\<lparr>bufs := map (\<lambda>p. \<lparr>px = p, rwidth = w, rheight = h, rpitch = pitch div 4\<rparr>)
                       (take kBuffers pxs)\<rparr>)
      | (_, s) \<Rightarrow> (False, s))"

definition flip_screen :: "'c flip \<Rightarrow> rect" where
  "flip_screen s = rect_at 0 0 (rwidth (target s)) (rheight (target s))"

definition flip_initialize :: "display_env \<Rightarrow> raster \<Rightarrow> 'c flip \<Rightarrow> bool \<times> 'c flip" where
  "flip_initialize env t s =
     (let s = s\<lparr>target := t\<rparr>
      in if bufs s = [] \<or> rwidth (bufs s ! 0) \<noteq> rwidth t \<or> rheight (bufs s ! 0) \<noteq> rheight t
         then (False, snd (display env Release s))
         else (True, s\<lparr>missing := replicate kBuffers (flip_screen s), cursorDrawn := replicate kBuffers no_rect\<rparr>))"

definition note_change :: "rect_ops \<Rightarrow> nat \<Rightarrow> rect \<Rightarrow> cursor_state \<Rightarrow> 'c cursor_image \<Rightarrow> 'c flip \<Rightarrow> 'c flip" where
  "note_change U k changed c img s =
     s\<lparr>sceneOf := Some k, cursor := c, cursorImg := Some img,
       missing := map (\<lambda>m. unite U m changed) (missing s), pending := True\<rparr>"

text \<open>Drawing straight into the framebuffer: a part of the scene, or all of it, and the pointer.\<close>

definition draw_target ::
  "rect_ops \<Rightarrow> 'c color_ops \<Rightarrow> raster \<Rightarrow> rect option \<Rightarrow> cursor_state \<Rightarrow> 'c cursor_image \<Rightarrow> 'c flip \<Rightarrow>
   gfx_error + 'c flip" where
  "draw_target U C scene part c img s =
     seqE (case part of None \<Rightarrow> present_to_framebuffer scene (target s)
           | Some r \<Rightarrow> present_rect_to_framebuffer U scene r (target s)) (\<lambda>(t, rs).
     seqE (present_cursor_move U C scene c c img t) (\<lambda>(t, rs').
     Inr (flushed (rs @ rs') (s\<lparr>target := t\<rparr>))))"

definition flip_presentFull ::
  "rect_ops \<Rightarrow> 'c color_ops \<Rightarrow> canvases \<Rightarrow> nat \<Rightarrow> cursor_state \<Rightarrow> 'c cursor_image \<Rightarrow> 'c flip \<Rightarrow> gfx_error + 'c flip" where
  "flip_presentFull U C canv k c img s =
     (if failed s then draw_target U C (canv k) None c img s
      else Inr (note_change U k (flip_screen s) c img s))"

definition flip_presentRect ::
  "rect_ops \<Rightarrow> 'c color_ops \<Rightarrow> canvases \<Rightarrow> nat \<Rightarrow> rect \<Rightarrow> cursor_state \<Rightarrow> 'c cursor_image \<Rightarrow> 'c flip \<Rightarrow>
   gfx_error + 'c flip" where
  "flip_presentRect U C canv k r c img s =
     (if failed s then draw_target U C (canv k) (Some r) c img s
      else Inr (note_change U k r c img s))"

definition flip_presentCursorMove ::
  "rect_ops \<Rightarrow> 'c color_ops \<Rightarrow> canvases \<Rightarrow> nat \<Rightarrow> cursor_state \<Rightarrow> cursor_state \<Rightarrow> 'c cursor_image \<Rightarrow> 'c flip \<Rightarrow>
   gfx_error + 'c flip" where
  "flip_presentCursorMove U C canv k old new img s =
     (if failed s then seqE (present_cursor_move U C (canv k) old new img (target s))
        (\<lambda>(t, rs). Inr (flushed rs (s\<lparr>target := t\<rparr>)))
      else Inr (note_change U k no_rect new img s))"

definition fall_back :: "rect_ops \<Rightarrow> 'c color_ops \<Rightarrow> display_env \<Rightarrow> canvases \<Rightarrow> 'c flip \<Rightarrow> gfx_error + 'c flip" where
  "fall_back U C env canv s =
     (let s = (snd (display env Release s))\<lparr>failed := True\<rparr>
      in case sceneOf s of
           None \<Rightarrow> Inr s
         | Some k \<Rightarrow>
            (case cursorImg s of
               None \<Rightarrow> Inl NullPointer
             | Some img \<Rightarrow> draw_target U C (canv k) None (cursor s) img s))"

text \<open>The back buffer brought up to date: its missing parts and its old pointer, then the pointer.\<close>

definition update_back ::
  "rect_ops \<Rightarrow> 'c color_ops \<Rightarrow> raster \<Rightarrow> 'c cursor_image \<Rightarrow> nat \<Rightarrow> 'c flip \<Rightarrow> gfx_error + 'c flip" where
  "update_back U C scene img back s =
     (let view = bufs s ! back;
          pointer = clamp_rect U (cursor_rect (cursor s) img) (rwidth view) (rheight view);
          repaint = clamp_rect U (unite U (missing s ! back) (cursorDrawn s ! back)) (rwidth view) (rheight view)
      in seqE (if empty_rect U repaint then Inr (view, [])
               else present_rect_to_framebuffer U scene repaint view) (\<lambda>(view, rs).
         seqE (present_cursor_move U C scene (cursor s) (cursor s) img view) (\<lambda>(view, rs').
         Inr (flushed (rs @ rs') (s\<lparr>bufs := (bufs s)[back := view], missing := (missing s)[back := no_rect],
                cursorDrawn := (cursorDrawn s)[back := pointer]\<rparr>)))))"

definition flip_commit :: "rect_ops \<Rightarrow> 'c color_ops \<Rightarrow> display_env \<Rightarrow> canvases \<Rightarrow> 'c flip \<Rightarrow> gfx_error + 'c flip" where
  "flip_commit U C env canv s =
     (if failed s \<or> \<not> pending s then Inr s
      else let s = s\<lparr>pending := False\<rparr>; back = (if front s = 0 then 1 else 0)
      in case display env (Wait kWaitMs) s of
           (Refused, s) \<Rightarrow> fall_back U C env canv s
         | (_, s) \<Rightarrow>
            (case (sceneOf s, cursorImg s) of
               (Some k, Some img) \<Rightarrow>
                 seqE (update_back U C (canv k) img back s) (\<lambda>s.
                   case display env (Flip back) s of
                     (Refused, s) \<Rightarrow> fall_back U C env canv s
                   | (_, s) \<Rightarrow> Inr (s\<lparr>front := back\<rparr>))
             | _ \<Rightarrow> Inl NullPointer))"

section \<open>Runs of the compositor\<close>

text \<open>
  What the compositor does with the back end: it draws the whole scene on some canvas and
  presents it; it redraws a part of the canvas shown last and presents that part; it moves the
  pointer; it commits. A run starts when the display gave its buffers.
\<close>

inductive flip_step ::
  "rect_ops \<Rightarrow> 'c color_ops \<Rightarrow> display_env \<Rightarrow> int \<Rightarrow> int \<Rightarrow> canvases \<times> 'c flip \<Rightarrow> canvases \<times> 'c flip \<Rightarrow> bool"
  for U C env w h where
  full: "\<lbrakk>fits w h picture'; good_image img;
          flip_presentFull U C (canv(k := picture')) k c img s = Inr s'\<rbrakk>
    \<Longrightarrow> flip_step U C env w h (canv, s) (canv(k := picture'), s')"
| part: "\<lbrakk>sceneOf s = Some k; fits w h picture'; good_image img;
          \<forall>x y. on_screen w h x y \<and> \<not> inside r x y \<longrightarrow> at_px picture' x y = at_px (canv k) x y;
          flip_presentRect U C (canv(k := picture')) k r c img s = Inr s'\<rbrakk>
    \<Longrightarrow> flip_step U C env w h (canv, s) (canv(k := picture'), s')"
| move: "\<lbrakk>sceneOf s = Some k; good_image img; flip_presentCursorMove U C canv k old new img s = Inr s'\<rbrakk>
    \<Longrightarrow> flip_step U C env w h (canv, s) (canv, s')"
| commit: "flip_commit U C env canv s = Inr s' \<Longrightarrow> flip_step U C env w h (canv, s) (canv, s')"

inductive flip_reachable ::
  "rect_ops \<Rightarrow> 'c color_ops \<Rightarrow> display_env \<Rightarrow> int \<Rightarrow> int \<Rightarrow> canvases \<times> 'c flip \<Rightarrow> bool"
  for U C env w h where
  start: "\<lbrakk>fits w h t; flip_acquire env em (new_flip t) = (True, s); \<forall>b\<in>set (bufs s). w \<le> rpitch b;
           flip_initialize env t s = (True, s')\<rbrakk>
    \<Longrightarrow> flip_reachable U C env w h (canv, s')"
| step: "\<lbrakk>flip_reachable U C env w h c; flip_step U C env w h c c'\<rbrakk> \<Longrightarrow> flip_reachable U C env w h c'"

inductive_cases flip_stepE: "flip_step U C env w h (canv, s) (canv', s')"

section \<open>The invariant\<close>

text \<open>Each buffer shows the scene wherever it is not missing something and had no pointer.\<close>

definition up_to_date :: "int \<Rightarrow> int \<Rightarrow> canvases \<Rightarrow> 'c flip \<Rightarrow> bool" where
  "up_to_date w h canv s \<longleftrightarrow>
     (\<forall>i<kBuffers. \<forall>x y. on_screen w h x y \<longrightarrow>
        inside (missing s ! i) x y \<or> inside (cursorDrawn s ! i) x y \<or>
        (\<exists>k. sceneOf s = Some k \<and> at_px (bufs s ! i) x y = at_px (canv k) x y AND rgb_mask))"

definition flip_ok :: "int \<Rightarrow> int \<Rightarrow> canvases \<times> 'c flip \<Rightarrow> bool" where
  "flip_ok w h = (\<lambda>(canv, s).
     fits w h (target s) \<and> length (bufs s) = kBuffers \<and> (\<forall>b\<in>set (bufs s). fits w h b) \<and>
     length (missing s) = kBuffers \<and> length (cursorDrawn s) = kBuffers \<and> front s \<le> kBuffers \<and>
     (\<forall>k. sceneOf s = Some k \<longrightarrow> fits w h (canv k)) \<and>
     (\<forall>img. cursorImg s = Some img \<longrightarrow> good_image img) \<and>
     (pending s \<longrightarrow> sceneOf s \<noteq> None \<and> cursorImg s \<noteq> None) \<and>
     (\<not> failed s \<longrightarrow> up_to_date w h canv s))"

lemma unite_covers:
  assumes "rect_laws U" and "inside a x y \<or> inside b x y"
  shows "inside (unite U a b) x y"
  using assms unfolding rect_laws_def by blast

lemma inside_screen: "inside (rect_at 0 0 w h) x y \<longleftrightarrow> on_screen w h x y"
  by (simp add: inside_def on_screen_def)

lemma shows_fits: "shows_at f P w h d d' \<Longrightarrow> fits w h d'"
  by (simp add: shows_at_def)

text \<open>Noting a change keeps the buffers up to date when the canvas only changed there.\<close>

lemma note_change_ok:
  assumes "rect_laws U" and "flip_ok w h (canv, s)" and "fits w h (canv' k)" and "good_image img"
    and "\<And>x y. on_screen w h x y \<Longrightarrow> \<not> inside r x y \<Longrightarrow>
      sceneOf s = Some k \<and> at_px (canv' k) x y = at_px (canv k) x y"
  shows "flip_ok w h (canv', note_change U k r c img s)"
proof -
  have "inside (unite U (missing s ! i) r) x y \<or> inside (cursorDrawn s ! i) x y \<or>
      at_px (bufs s ! i) x y = at_px (canv' k) x y AND rgb_mask"
    if "\<not> failed s" "i < kBuffers" "on_screen w h x y" for i x y
  proof (cases "inside r x y \<or> inside (missing s ! i) x y")
    case True
    then show ?thesis using unite_covers [OF assms(1)] by blast
  next
    case False
    then have same: "sceneOf s = Some k" "at_px (canv' k) x y = at_px (canv k) x y"
      using assms(5) [OF that(3)] by auto
    have "up_to_date w h canv s" using assms(2) that(1) by (simp add: flip_ok_def)
    then have "inside (missing s ! i) x y \<or> inside (cursorDrawn s ! i) x y \<or>
        at_px (bufs s ! i) x y = at_px (canv k) x y AND rgb_mask"
      using that(2,3) same(1) unfolding up_to_date_def by fastforce
    then show ?thesis using False same(2) by simp
  qed
  then have "\<not> failed s \<Longrightarrow> up_to_date w h canv' (note_change U k r c img s)"
    using assms(2) by (simp add: up_to_date_def note_change_def flip_ok_def kBuffers_def)
  then show ?thesis using assms(2-4) by (auto simp: flip_ok_def note_change_def)
qed

lemma pointer_over_scene:
  assumes "rect_laws U" and "color_laws C" and "on_screen w h x y"
    and "shows_at (picture C scene c img) (inside (unite U (cursor_rect c img) (cursor_rect c img))) w h v b"
    and "at_px v x y = at_px scene x y AND rgb_mask"
  shows "at_px b x y = picture C scene c img x y"
proof (cases "inside (cursor_rect c img) x y")
  case True
  then show ?thesis using assms(3,4) unite_covers [OF assms(1)] by (simp add: shows_at_def)
next
  case False
  then show ?thesis using assms(3-5) picture_outside [OF assms(2) False, of scene] by (simp add: shows_at_def)
qed

text \<open>
  Drawing into a framebuffer, all of the scene or a part and then the pointer, never fails, and
  leaves the picture wherever it drew or the picture was there before.
\<close>

lemma drawing_shows:
  assumes "rect_laws U" and "color_laws C" and "good_image img" and "fits w h scene" and "fits w h t0"
  shows "\<exists>t rs t' rs'. (case part of None \<Rightarrow> present_to_framebuffer scene t0
      | Some r \<Rightarrow> present_rect_to_framebuffer U scene r t0) = Inr (t, rs) \<and>
    present_cursor_move U C scene c c img t = Inr (t', rs') \<and> fits w h t' \<and>
    (\<forall>x y. on_screen w h x y \<longrightarrow>
       (case part of None \<Rightarrow> True | Some r \<Rightarrow> inside r x y \<or> at_px t0 x y = picture C scene c img x y) \<longrightarrow>
       at_px t' x y = picture C scene c img x y)"
proof -
  let ?P = "\<lambda>x y. case part of None \<Rightarrow> True | Some r \<Rightarrow> inside r x y"
  let ?u = "unite U (cursor_rect c img) (cursor_rect c img)"
  obtain t rs where t: "(case part of None \<Rightarrow> present_to_framebuffer scene t0
      | Some r \<Rightarrow> present_rect_to_framebuffer U scene r t0) = Inr (t, rs)"
    "shows_at (\<lambda>x y. at_px scene x y AND rgb_mask) ?P w h t0 t"
  proof (cases part)
    case None
    then show thesis using that present_all_shows [OF assms(4,5)] by auto
  next
    case (Some r)
    then show thesis using that present_rect_shows [OF assms(1,4,5), of r] by auto
  qed
  obtain t' rs' where t': "present_cursor_move U C scene c c img t = Inr (t', rs')"
    "shows_at (picture C scene c img) (inside ?u) w h t t'"
    using cursor_move_shows [OF assms(1,3,4) shows_fits [OF t(2)]] by blast
  have "at_px t' x y = picture C scene c img x y"
    if on: "on_screen w h x y" and p: "?P x y \<or> at_px t0 x y = picture C scene c img x y" for x y
  proof (cases "inside ?u x y")
    case True
    then show ?thesis using t'(2) on by (simp add: shows_at_def)
  next
    case False
    then have "\<not> inside (cursor_rect c img) x y" using unite_covers [OF assms(1)] by blast
    then have "picture C scene c img x y = at_px scene x y AND rgb_mask" by (rule picture_outside [OF assms(2)])
    then show ?thesis using t(2) t'(2) on p False by (auto simp: shows_at_def)
  qed
  then show ?thesis using t(1) t'(1) shows_fits [OF t'(2)] by (cases part) auto
qed

lemma draw_target_shows:
  assumes "rect_laws U" and "color_laws C" and "good_image img" and "fits w h scene" and "fits w h (target s)"
  shows "\<exists>t rs. draw_target U C scene part c img s = Inr (flushed rs (s\<lparr>target := t\<rparr>)) \<and> fits w h t \<and>
    (\<forall>x y. on_screen w h x y \<longrightarrow>
       (case part of None \<Rightarrow> True | Some r \<Rightarrow> inside r x y \<or> at_px (target s) x y = picture C scene c img x y) \<longrightarrow>
       at_px t x y = picture C scene c img x y)"
  using drawing_shows [OF assms, of part c] by (simp add: draw_target_def) fastforce

lemma fall_back_shows:
  assumes "rect_laws U" and "color_laws C" and "good_image img" and "fits w h (canv k)" and "fits w h (target s)"
    and "sceneOf s = Some k" and "cursorImg s = Some img"
  shows "\<exists>t ds. fall_back U C env canv s = Inr (s\<lparr>failed := True, target := t, dcalls := dcalls s @ ds\<rparr>) \<and>
    fits w h t \<and> (\<forall>x y. on_screen w h x y \<longrightarrow> at_px t x y = picture C (canv k) (cursor s) img x y)"
proof -
  let ?s = "(snd (display env Release s))\<lparr>failed := True\<rparr>"
  obtain t rs where t: "draw_target U C (canv k) None (cursor s) img ?s = Inr (flushed rs (?s\<lparr>target := t\<rparr>))"
    "fits w h t" "\<forall>x y. on_screen w h x y \<longrightarrow> at_px t x y = picture C (canv k) (cursor s) img x y"
    using draw_target_shows [OF assms(1-4), of ?s None "cursor s"] assms(5) by (auto simp: display_def)
  moreover have "flushed rs (?s\<lparr>target := t\<rparr>)
      = s\<lparr>failed := True, target := t, dcalls := dcalls s @ Release # map Flush rs\<rparr>"
    by (simp add: flushed_def display_def)
  ultimately show ?thesis
    using assms(6,7) unfolding fall_back_def Let_def
    by (intro exI [of _ t] exI [of _ "Release # map Flush rs"]) (simp add: display_def)
qed

lemma update_back_shows:
  assumes "rect_laws U" and "color_laws C" and "good_image img" and "fits w h scene"
    and "fits w h (bufs s ! back)"
    and "\<And>x y. on_screen w h x y \<Longrightarrow> inside (missing s ! back) x y \<or> inside (cursorDrawn s ! back) x y \<or>
      at_px (bufs s ! back) x y = at_px scene x y AND rgb_mask"
  shows "\<exists>b rs. update_back U C scene img back s = Inr (flushed rs (s\<lparr>bufs := (bufs s)[back := b],
      missing := (missing s)[back := no_rect],
      cursorDrawn := (cursorDrawn s)[back := clamp_rect U (cursor_rect (cursor s) img) w h]\<rparr>)) \<and>
    fits w h b \<and> (\<forall>x y. on_screen w h x y \<longrightarrow> at_px b x y = picture C scene (cursor s) img x y)"
proof -
  let ?v = "bufs s ! back"
  let ?u = "unite U (missing s ! back) (cursorDrawn s ! back)"
  let ?r = "clamp_rect U ?u (rwidth ?v) (rheight ?v)"
  have size: "rwidth ?v = w" "rheight ?v = h" using assms(5) by (simp_all add: fits_def)
  have r: "inside ?r x y \<longleftrightarrow> inside ?u x y" if "on_screen w h x y" for x y
    using inside_clamp [OF assms(1), of ?u w h x y] that by (simp add: size)
  obtain v rs where v: "(if empty_rect U ?r then Inr (?v, []) else present_rect_to_framebuffer U scene ?r ?v) = Inr (v, rs)"
    "shows_at (\<lambda>x y. at_px scene x y AND rgb_mask) (inside ?r) w h ?v v"
  proof (cases "empty_rect U ?r")
    case True
    then have "shows_at (\<lambda>x y. at_px scene x y AND rgb_mask) (inside ?r) w h ?v ?v"
      using assms(5) empty_inside [OF assms(1) True] by (simp add: shows_at_def)
    then show thesis using that [of ?v "[]"] True by simp
  next
    case False
    then show thesis using that present_rect_shows [OF assms(1,4,5), of ?r] by auto
  qed
  have base: "at_px v x y = at_px scene x y AND rgb_mask" if "on_screen w h x y" for x y
    using v(2) that r [OF that] assms(6) [OF that] unite_covers [OF assms(1)] by (auto simp: shows_at_def)
  obtain b rs' where b: "present_cursor_move U C scene (cursor s) (cursor s) img v = Inr (b, rs')"
    "shows_at (picture C scene (cursor s) img)
       (inside (unite U (cursor_rect (cursor s) img) (cursor_rect (cursor s) img))) w h v b"
    using cursor_move_shows [OF assms(1,3,4) shows_fits [OF v(2)]] by blast
  have "at_px b x y = picture C scene (cursor s) img x y" if "on_screen w h x y" for x y
    using pointer_over_scene [OF assms(1,2) that b(2) base [OF that]] .
  then show ?thesis
    using v(1) b(1) shows_fits [OF b(2)] by (simp add: update_back_def Let_def size) blast
qed

section \<open>Commit\<close>

text \<open>What \<open>commit\<close> leaves: the picture in the buffer now in front, or in the framebuffer.\<close>

definition committed ::
  "'c color_ops \<Rightarrow> int \<Rightarrow> int \<Rightarrow> raster \<Rightarrow> 'c cursor_image \<Rightarrow> 'c flip \<Rightarrow> 'c flip \<Rightarrow> bool" where
  "committed C w h scene img s s' \<longleftrightarrow>
     (let shown = (if failed s' then target s' else bufs s' ! front s')
      in fits w h shown \<and> (\<forall>x y. on_screen w h x y \<longrightarrow> at_px shown x y = picture C scene (cursor s) img x y)) \<and>
     (front s < kBuffers \<longrightarrow> bufs s' ! front s = bufs s ! front s \<and> (\<not> failed s' \<longrightarrow> front s' \<noteq> front s))"

lemma commit_shows:
  assumes "rect_laws U" and "color_laws C" and "flip_ok w h (canv, s)" and "pending s" and "\<not> failed s"
  shows "\<exists>s' k img. flip_commit U C env canv s = Inr s' \<and> flip_ok w h (canv, s') \<and>
    sceneOf s = Some k \<and> cursorImg s = Some img \<and> committed C w h (canv k) img s s'"
proof -
  obtain k img where ki: "sceneOf s = Some k" "cursorImg s = Some img" "good_image img" "fits w h (canv k)"
    using assms(3,4) by (auto simp: flip_ok_def)
  have ok: "fits w h (target s)" "length (bufs s) = 2" "\<forall>b\<in>set (bufs s). fits w h b" "length (missing s) = 2"
    "length (cursorDrawn s) = 2" "front s \<le> 2" "up_to_date w h canv s"
    using assms(3,5) by (simp_all add: flip_ok_def kBuffers_def)
  define bk where "bk = (if front s = 0 then 1 else 0 :: nat)"
  have bk: "bk < 2" "bk \<noteq> front s" by (simp_all add: bk_def)
  define s1 where "s1 = s\<lparr>pending := False, dcalls := dcalls s @ [Wait kWaitMs]\<rparr>"
  have s1: "display env (Wait kWaitMs) (s\<lparr>pending := False\<rparr>) = (env (dcalls s) (Wait kWaitMs), s1)"
    by (simp add: display_def s1_def)
  have s1s: "sceneOf s1 = Some k" "cursorImg s1 = Some img" "target s1 = target s" "cursor s1 = cursor s"
    "bufs s1 = bufs s" "missing s1 = missing s" "cursorDrawn s1 = cursorDrawn s" "front s1 = front s"
    "\<not> pending s1"
    by (simp_all add: s1_def ki)
  show ?thesis
  proof (cases "env (dcalls s) (Wait kWaitMs) = Refused")
    case True
    obtain t ds where t: "fall_back U C env canv s1 = Inr (s1\<lparr>failed := True, target := t, dcalls := dcalls s1 @ ds\<rparr>)"
      "fits w h t" "\<forall>x y. on_screen w h x y \<longrightarrow> at_px t x y = picture C (canv k) (cursor s) img x y"
      using fall_back_shows [where canv = canv and k = k and s = s1 and env = env, OF assms(1,2) ki(3,4)] s1s ok(1) by auto
    have "flip_commit U C env canv s = Inr (s1\<lparr>failed := True, target := t, dcalls := dcalls s1 @ ds\<rparr>)"
      using assms(4,5) s1 True t(1) by (simp add: flip_commit_def Let_def)
    then show ?thesis
      using t(2,3) ki ok s1s by (auto simp: flip_ok_def committed_def kBuffers_def)
  next
    case False
    have "fits w h (bufs s1 ! bk)" using ok(2,3) bk(1) s1s by simp
    moreover have "inside (missing s1 ! bk) x y \<or> inside (cursorDrawn s1 ! bk) x y \<or>
        at_px (bufs s1 ! bk) x y = at_px (canv k) x y AND rgb_mask" if "on_screen w h x y" for x y
      using ok(7) bk(1) that ki(1) s1s unfolding up_to_date_def kBuffers_def by fastforce
    ultimately obtain b rs where b: "update_back U C (canv k) img bk s1 = Inr (flushed rs (s1\<lparr>bufs := (bufs s)[bk := b],
        missing := (missing s)[bk := no_rect],
        cursorDrawn := (cursorDrawn s)[bk := clamp_rect U (cursor_rect (cursor s) img) w h]\<rparr>))"
      "fits w h b" "\<forall>x y. on_screen w h x y \<longrightarrow> at_px b x y = picture C (canv k) (cursor s) img x y"
      using update_back_shows [OF assms(1,2) ki(3,4), of s1 bk] s1s by auto
    define u where "u = flushed rs (s1\<lparr>bufs := (bufs s)[bk := b], missing := (missing s)[bk := no_rect],
        cursorDrawn := (cursorDrawn s)[bk := clamp_rect U (cursor_rect (cursor s) img) w h]\<rparr>)"
    have u: "sceneOf u = Some k" "cursorImg u = Some img" "target u = target s" "cursor u = cursor s"
      "bufs u = (bufs s)[bk := b]" "missing u = (missing s)[bk := no_rect]"
      "cursorDrawn u = (cursorDrawn s)[bk := clamp_rect U (cursor_rect (cursor s) img) w h]"
      "front u = front s" "failed u = failed s" "\<not> pending u"
      by (simp_all add: u_def flushed_def s1_def ki)
    have b_in: "\<forall>b\<in>set (bufs u). fits w h b"
      using ok(3) b(2) by (auto simp: u(5) dest!: set_update_subset_insert [THEN subsetD])
    have ub: "update_back U C (canv k) img bk s1 = Inr u" using b(1) by (simp only: u_def)
    have commit: "flip_commit U C env canv s =
        (case display env (Flip bk) u of
           (Refused, v) \<Rightarrow> fall_back U C env canv v | (_, v) \<Rightarrow> Inr (v\<lparr>front := bk\<rparr>))"
      using assms(4,5) s1 False ub s1s(1,2)
      by (cases "env (dcalls s) (Wait kWaitMs)"; cases "front s = 0")
        (simp_all add: flip_commit_def Let_def bk_def split: prod.split display_reply.split)
    let ?v = "u\<lparr>dcalls := dcalls u @ [Flip bk]\<rparr>"
    show ?thesis
    proof (cases "env (dcalls u) (Flip bk) = Refused")
      case True
      obtain t ds where t: "fall_back U C env canv ?v = Inr (?v\<lparr>failed := True, target := t, dcalls := dcalls ?v @ ds\<rparr>)"
        "fits w h t" "\<forall>x y. on_screen w h x y \<longrightarrow> at_px t x y = picture C (canv k) (cursor s) img x y"
        using fall_back_shows [where canv = canv and k = k and s = ?v and env = env, OF assms(1,2) ki(3,4)] u ok(1) by auto
      have "flip_commit U C env canv s = Inr (?v\<lparr>failed := True, target := t, dcalls := dcalls ?v @ ds\<rparr>)"
        using True t(1) by (simp add: commit display_def)
      then show ?thesis
        using t(2,3) ki ok u b_in bk by (auto simp: flip_ok_def committed_def kBuffers_def)
    next
      case False
      then have "flip_commit U C env canv s = Inr (?v\<lparr>front := bk\<rparr>)"
        unfolding commit display_def by (cases "env (dcalls u) (Flip bk)") simp_all
      moreover have "up_to_date w h canv (?v\<lparr>front := bk\<rparr>)"
      proof -
        have "inside (missing u ! i) x y \<or> inside (cursorDrawn u ! i) x y \<or>
            at_px (bufs u ! i) x y = at_px (canv k) x y AND rgb_mask"
          if "i < 2" "on_screen w h x y" for i x y
        proof (cases "i = bk")
          case True
          have "inside (cursorDrawn u ! i) x y \<longleftrightarrow> inside (cursor_rect (cursor s) img) x y"
            using True bk(1) ok(5) inside_clamp [OF assms(1)] that(2) by (simp add: u(7))
          then show ?thesis
            using True bk(1) ok(2) b(3) that(2) picture_outside [OF assms(2), of "cursor s" img x y]
            by (auto simp: u(5))
        next
          case False
          then show ?thesis
            using ok(7) that ki(1) unfolding up_to_date_def kBuffers_def u by fastforce
        qed
        then show ?thesis by (simp add: up_to_date_def kBuffers_def u)
      qed
      ultimately show ?thesis
        using ki ok u b b_in bk assms(5) by (auto simp: flip_ok_def committed_def kBuffers_def)
    qed
  qed
qed

lemma drawn_target_ok:
  assumes "flip_ok w h (canv, s)" and "failed s" and "fits w h t"
    and "\<And>k. sceneOf s = Some k \<Longrightarrow> fits w h (canv' k)"
  shows "flip_ok w h (canv', flushed rs (s\<lparr>target := t\<rparr>))"
  using assms by (auto simp: flip_ok_def flushed_def)

lemma flip_step_ok:
  assumes "flip_step U C env w h (canv, s) (canv', s')" and "rect_laws U" and "color_laws C" and "flip_ok w h (canv, s)"
  shows "flip_ok w h (canv', s')"
proof -
  have target: "fits w h (target s)" using assms(4) by (simp add: flip_ok_def)
  show ?thesis
    using assms(1)
  proof (cases rule: flip_stepE [consumes 1, case_names full part move commit])
    case (full p img k c)
    show ?thesis
    proof (cases "failed s")
      case True
      obtain t rs where "s' = flushed rs (s\<lparr>target := t\<rparr>)" "fits w h t"
        using draw_target_shows [OF assms(2,3) full(3,2) target, of None c] full(4) True
        by (auto simp: flip_presentFull_def)
      moreover have "fits w h (canv' j)" if "sceneOf s = Some j" for j
        using assms(4) full(1,2) that by (cases "j = k") (simp_all add: flip_ok_def)
      ultimately show ?thesis
        using drawn_target_ok [OF assms(4) True, of t canv' rs] by blast
    next
      case False
      then have "s' = note_change U k (flip_screen s) c img s" using full(4) by (simp add: flip_presentFull_def)
      then show ?thesis
        using note_change_ok [OF assms(2,4), of canv' k img "flip_screen s" c] full(1-3) target
        by (simp add: flip_screen_def inside_screen fits_def)
    qed
  next
    case (part k p img r c)
    show ?thesis
    proof (cases "failed s")
      case True
      obtain t rs where "s' = flushed rs (s\<lparr>target := t\<rparr>)" "fits w h t"
        using draw_target_shows [OF assms(2,3) part(4,3) target, of "Some r" c] part(6) True
        by (auto simp: flip_presentRect_def)
      then show ?thesis
        using drawn_target_ok [OF assms(4) True] part(1-3) by simp
    next
      case False
      then have "s' = note_change U k r c img s" using part(6) by (simp add: flip_presentRect_def)
      then show ?thesis
        using note_change_ok [OF assms(2,4), of canv' k img r c] part(1-5) by simp
    qed
  next
    case (move k img old new)
    have scene: "fits w h (canv k)" using assms(4) move(2) by (simp add: flip_ok_def)
    show ?thesis
    proof (cases "failed s")
      case True
      obtain t log where t: "present_cursor_move U C (canv k) old new img (target s) = Inr (t, log)"
        "shows_at (picture C (canv k) new img) (inside (unite U (cursor_rect old img) (cursor_rect new img))) w h (target s) t"
        using cursor_move_shows [OF assms(2) move(3) scene target] by blast
      then have "s' = flushed log (s\<lparr>target := t\<rparr>)"
        using move(4) True by (simp add: flip_presentCursorMove_def)
      then show ?thesis
        using drawn_target_ok [OF assms(4) True shows_fits [OF t(2)], of canv log] move(1,2) scene by auto
    next
      case False
      then have "s' = note_change U k no_rect new img s" using move(4) by (simp add: flip_presentCursorMove_def)
      then show ?thesis
        using note_change_ok [OF assms(2,4), of canv k img no_rect new] scene move(1-3) by simp
    qed
  next
    case commit
    show ?thesis
    proof (cases "failed s \<or> \<not> pending s")
      case True
      then show ?thesis using commit assms(4) by (simp add: flip_commit_def)
    next
      case False
      then show ?thesis using commit commit_shows [OF assms(2-4), of env] by auto
    qed
  qed
qed

lemma flip_start_ok:
  assumes "fits w h t" and "flip_acquire env em (new_flip t) = (True, s)" and "\<forall>b\<in>set (bufs s). w \<le> rpitch b"
    and "flip_initialize env t s = (True, s')"
  shows "flip_ok w h (canv, s')"
proof -
  obtain e bw bh pitch pxs where b: "env [] (Acquire em) = Buffers e bw bh pitch pxs" "2 \<le> length pxs"
    "bufs s = map (\<lambda>p. \<lparr>px = p, rwidth = bw, rheight = bh, rpitch = pitch div 4\<rparr>) (take 2 pxs)"
    "s = (new_flip t)\<lparr>dcalls := [Acquire em], emulated := e, bufs := bufs s\<rparr>"
    using assms(2)
    by (auto simp: flip_acquire_def display_def new_flip_def kBuffers_def Let_def not_less
        split: display_reply.splits if_splits)
  have len: "length (bufs s) = 2" using b(2,3) by simp
  have first: "rwidth (bufs s ! 0) = bw" "rheight (bufs s ! 0) = bh" using b(2) by (simp_all add: b(3))
  have "bw = w" "bh = h" and s': "s' = s\<lparr>target := t, missing := replicate kBuffers (rect_at 0 0 w h),
      cursorDrawn := replicate kBuffers no_rect\<rparr>"
    using assms(1,4) first by (auto simp: flip_initialize_def Let_def fits_def flip_screen_def split: if_splits)
  then have fit: "\<forall>p\<in>set (bufs s). fits w h p"
    using assms(3) b(3) by (auto simp: fits_def)
  have new: "sceneOf s = None" "cursorImg s = None" "\<not> pending s" "front s = 2"
    by (subst b(4), simp add: new_flip_def kBuffers_def)+
  have "inside (missing s' ! i) x y" if "i < 2" "on_screen w h x y" for i x y
    using that by (simp add: s' kBuffers_def inside_screen)
  then show ?thesis
    using assms(1) len fit new by (auto simp: flip_ok_def up_to_date_def s' kBuffers_def)
qed

lemma flip_reachable_ok:
  assumes "flip_reachable U C env w h c" and "rect_laws U" and "color_laws C"
  shows "flip_ok w h c"
  using assms(1)
proof induction
  case (start t em s s' canv)
  then show ?case by (rule flip_start_ok)
next
  case (step c c')
  then show ?case using flip_step_ok assms(2,3) by (cases c; cases c') blast
qed

text \<open>
  C3: The screen shows the scene: whatever was drawn and however the display answers, \<open>commit\<close> with
  something pending succeeds without touching memory outside the buffers, and then every pixel of
  the buffer in front (of the framebuffer, if the display refused) is that of the scene drawn
  last, the pointer over it; the buffer that was on the screen is not written, and another one is
  in front.
\<close>
theorem flip_shows_scene:
  assumes "rect_laws U" and "color_laws C" and "flip_reachable U C env w h (canv, s)"
    and "pending s" and "\<not> failed s"
  shows "\<exists>s' k img. flip_commit U C env canv s = Inr s' \<and> sceneOf s = Some k \<and> cursorImg s = Some img \<and>
    (\<forall>x y. on_screen w h x y \<longrightarrow>
       at_px (if failed s' then target s' else bufs s' ! front s') x y = picture C (canv k) (cursor s) img x y) \<and>
    (front s < kBuffers \<longrightarrow> bufs s' ! front s = bufs s ! front s \<and> (\<not> failed s' \<longrightarrow> front s' \<noteq> front s))"
  using commit_shows [OF assms(1,2) flip_reachable_ok [OF assms(3,1,2)] assms(4,5)]
  unfolding committed_def Let_def by blast

text \<open>A screen of two pixels; the usual rectangles; colors that are their words.\<close>

definition plain_rects :: rect_ops where
  "plain_rects =
     \<lparr>contains = inside,
      intersect = (\<lambda>r s. let x = max (rx r) (rx s); y = max (ry r) (ry s)
         in rect_at x y (min (rx r + rw r) (rx s + rw s) - x) (min (ry r + rh r) (ry s + rh s) - y)),
      unite = (\<lambda>r s. if rw r \<le> 0 \<or> rh r \<le> 0 then s else if rw s \<le> 0 \<or> rh s \<le> 0 then r
         else let x = min (rx r) (rx s); y = min (ry r) (ry s)
         in rect_at x y (max (rx r + rw r) (rx s + rw s) - x) (max (ry r + rh r) (ry s + rh s) - y)),
      empty_rect = (\<lambda>r. rw r \<le> 0 \<or> rh r \<le> 0)\<rparr>"

lemma plain_rects_laws: "rect_laws plain_rects"
  unfolding rect_laws_def plain_rects_def by (auto simp: inside_def Let_def)

definition word_colors :: "32 word color_ops" where
  "word_colors = \<lparr>from_word = (\<lambda>w. w), to_word = (\<lambda>w. w), alpha = (\<lambda>w. 255), blend = (\<lambda>c d a. d)\<rparr>"

lemma word_colors_laws: "color_laws word_colors"
  by (simp add: color_laws_def word_colors_def)

definition filled :: "32 word \<Rightarrow> raster" where
  "filled w = \<lparr>px = (\<lambda>i. w), rwidth = 2, rheight = 1, rpitch = 2\<rparr>"

definition dot_image :: "32 word cursor_image" where
  "dot_image = \<lparr>ready = True, cpixels = [0xff0000ff], cwidth = 1, cheight = 1, hotspotX = 0, hotspotY = 0\<rparr>"

definition small_display :: display_env where
  "small_display log c =
     (case c of Acquire em \<Rightarrow> Buffers False 2 1 8 [\<lambda>i. 0, \<lambda>i. 0] | _ \<Rightarrow> Done)"

theorem flip_shows_scene_witness:
  "\<exists>s s'. flip_commit plain_rects word_colors small_display (\<lambda>k. filled 0xff123456) s = Inr s' \<and>
     at_px (if failed s' then target s' else bufs s' ! front s') 0 0 = 0x0000ff \<and>
     at_px (if failed s' then target s' else bufs s' ! front s') 1 0 = 0x123456"
proof -
  let ?t = "filled 0"
  let ?canv = "(\<lambda>k. filled 0xff123456) :: canvases"
  define s0 :: "32 word flip" where "s0 = snd (flip_acquire small_display False (new_flip ?t))"
  define s1 where "s1 = snd (flip_initialize small_display ?t s0)"
  define s2 where "s2 = note_change plain_rects 0 (flip_screen s1) \<lparr>cx = 0, cy = 0\<rparr> dot_image s1"
  have start: "fits 2 1 ?t" "flip_acquire small_display False (new_flip ?t) = (True, s0)"
    "\<forall>b\<in>set (bufs s0). 2 \<le> rpitch b" "flip_initialize small_display ?t s0 = (True, s1)"
    by (simp_all add: s0_def s1_def flip_acquire_def display_def small_display_def new_flip_def
        flip_initialize_def fits_def filled_def kBuffers_def Let_def)
  have "flip_presentFull plain_rects word_colors (?canv(0 := filled 0xff123456)) 0 \<lparr>cx = 0, cy = 0\<rparr> dot_image s1 = Inr s2"
    by (simp add: s2_def s1_def s0_def flip_presentFull_def flip_initialize_def flip_acquire_def display_def
        small_display_def new_flip_def kBuffers_def Let_def filled_def)
  then have "flip_step plain_rects word_colors small_display 2 1 (?canv, s1) (?canv(0 := filled 0xff123456), s2)"
    by (intro flip_step.full) (simp_all add: fits_def filled_def good_image_def dot_image_def)
  moreover have "?canv(0 := filled 0xff123456) = ?canv" by auto
  ultimately have "flip_step plain_rects word_colors small_display 2 1 (?canv, s1) (?canv, s2)" by simp
  then have r: "flip_reachable plain_rects word_colors small_display 2 1 (?canv, s2)"
    using flip_reachable.step [OF flip_reachable.start [OF start]] by blast
  have p: "pending s2" "\<not> failed s2" "cursor s2 = \<lparr>cx = 0, cy = 0\<rparr>" "cursorImg s2 = Some dot_image"
    by (simp_all add: s2_def s1_def s0_def note_change_def flip_initialize_def flip_acquire_def display_def
        small_display_def new_flip_def kBuffers_def Let_def filled_def)
  obtain s' where s': "flip_commit plain_rects word_colors small_display ?canv s2 = Inr s'"
    "\<forall>x y. on_screen 2 1 x y \<longrightarrow> at_px (if failed s' then target s' else bufs s' ! front s') x y =
       picture word_colors (filled 0xff123456) \<lparr>cx = 0, cy = 0\<rparr> dot_image x y"
    using flip_shows_scene [OF plain_rects_laws word_colors_laws r p(1,2)] unfolding p(3,4) by auto
  have "picture word_colors (filled 0xff123456) \<lparr>cx = 0, cy = 0\<rparr> dot_image 0 0 = 0x0000ff"
    "picture word_colors (filled 0xff123456) \<lparr>cx = 0, cy = 0\<rparr> dot_image 1 0 = 0x123456"
    by (simp_all add: picture_def pointer_pixel_def word_colors_def dot_image_def filled_def at_px_def rgb_mask_def)
  then show ?thesis using s' by (intro exI [of _ s2] exI [of _ s']) (simp add: on_screen_def)
qed

end
