(* ===== verification/Compositor_Taskbar.thy ===== *)
theory Compositor_Taskbar
  imports Compositor_Windows Flip_Backend "HOL-Library.Multiset"
begin

text \<open>
  The taskbar: its tiles are the pinned applications and the oldest windows of other programs, a
  point of a tile hits it, and what a click does.
\<close>

section \<open>Its tiles\<close>

definition window_tile :: "nat \<Rightarrow> tile" where
  "window_tile i = blank_tile (-1) i"

definition pinned_tiles :: "tile list" where
  "pinned_tiles = map (\<lambda>slot. blank_tile (int slot) 0) [0..<kPinnedCount]"

definition tiled_ids :: "window_info list \<Rightarrow> nat list" where
  "tiled_ids ws = map wid (filter (\<lambda>w. is_open w \<and> pinned_slot_of (title w) < 0) ws)"

lemma length_pinned [simp]: "length pinned_tiles = kPinnedCount"
  by (simp add: pinned_tiles_def)

lemma twindow_window_tile [simp]: "twindow (window_tile i) = i"
  by (simp add: window_tile_def blank_tile_def)

lemma sift_tile_insort:
  "sorted xs \<Longrightarrow> length ps = kPinnedCount \<Longrightarrow>
   sift_tile i (kPinnedCount + length xs) (ps @ map window_tile xs @ t # ts) = ps @ map window_tile (insort i xs) @ ts"
proof (induction xs arbitrary: t ts rule: rev_induct)
  case Nil
  then show ?case
    by (cases ps rule: rev_cases) (auto simp: kPinnedCount_def window_tile_def nth_append list_update_append numeral_eq_Suc)
next
  case (snoc x xs)
  let ?ts = "ps @ map window_tile (xs @ [x]) @ t # ts"
  have at: "?ts ! (kPinnedCount + length xs) = window_tile x"
    using snoc.prems(2) by (simp add: nth_append)
  have up: "?ts[Suc (kPinnedCount + length xs) := u] = ps @ map window_tile (xs @ [x]) @ u # ts" for u
    using snoc.prems(2) by (simp add: list_update_append)
  show ?case
  proof (cases "i < x")
    case True
    have sift: "sift_tile i (kPinnedCount + length (xs @ [x])) ?ts
      = sift_tile i (kPinnedCount + length xs) (ps @ map window_tile xs @ window_tile x # window_tile x # ts)"
      using True at up [of "window_tile x"] by simp
    have "sorted xs" using snoc.prems(1) by (simp add: sorted_append)
    from snoc.IH [OF this snoc.prems(2)] have
      "sift_tile i (kPinnedCount + length xs) (ps @ map window_tile xs @ window_tile x # window_tile x # ts)
       = ps @ map window_tile (insort i xs) @ window_tile x # ts" .
    moreover have "insort i (xs @ [x]) = insort i xs @ [x]"
      using True by (induction xs) auto
    ultimately show ?thesis using sift by simp
  next
    case False
    have "sift_tile i (kPinnedCount + length (xs @ [x])) ?ts = ps @ map window_tile (xs @ [x]) @ window_tile i # ts"
      using False at up [of "window_tile i"] by (simp flip: window_tile_def)
    moreover have "insort i (xs @ [x]) = xs @ [x, i]"
      using False snoc.prems(1) sorted_insort_is_snoc [of "xs @ [x]" i] by (fastforce simp: sorted_append)
    ultimately show ?thesis by simp
  qed
qed

text \<open>The ids shown so far: the oldest eleven, in order.\<close>

definition shown_ids :: "nat list \<Rightarrow> nat list" where
  "shown_ids is = take (kMaxTiles - kPinnedCount) (sort is)"

lemma sort_snoc: "sort (is @ [i]) = insort i (sort (is :: nat list))"
  by (rule properties_for_sort) (simp_all add: sorted_insort)

lemma take_insort:
  "sorted xs \<Longrightarrow> take n (insort i xs) = take n (insort i (take n (xs :: nat list)))"
proof (induction xs arbitrary: n)
  case (Cons x xs)
  then show ?case by (cases n) (auto simp: take_Cons')
qed simp

lemma take_insort_full:
  assumes "sorted (xs :: nat list)" and "xs \<noteq> []"
  shows "take (length xs) (insort i xs) = (if last xs < i then xs else insort i (butlast xs))"
proof -
  obtain ys y where xs: "xs = ys @ [y]" using assms(2) by (cases xs rule: rev_cases) auto
  show ?thesis
  proof (cases "y < i")
    case True
    then have "insort i xs = xs @ [i]"
      using assms(1) by (intro sorted_insort_is_snoc) (auto simp: xs sorted_append)
    then show ?thesis using True by (simp add: xs)
  next
    case False
    have "insort i (ys @ [y]) = insort i ys @ [y]"
      using False assms(1) by (induction ys) (auto simp: xs sorted_append)
    then show ?thesis using False by (simp add: xs)
  qed
qed

lemma add_tile_shown:
  "add_tile w (pinned_tiles @ map window_tile (shown_ids is)) =
   pinned_tiles @ map window_tile (shown_ids (if is_open w \<and> pinned_slot_of (title w) < 0 then is @ [wid w] else is))"
proof (cases "is_open w \<and> pinned_slot_of (title w) < 0")
  case True
  let ?xs = "shown_ids is" and ?n = "kMaxTiles - kPinnedCount"
  let ?ts = "pinned_tiles @ map window_tile ?xs"
  have sorted: "sorted ?xs" by (simp add: shown_ids_def sorted_wrt_take)
  have shown: "shown_ids (is @ [wid w]) = take ?n (insort (wid w) ?xs)"
    unfolding shown_ids_def sort_snoc by (rule take_insort) simp
  have room: "length ?ts = kPinnedCount + length ?xs" "length ?xs \<le> ?n" "?n = 11" "kMaxTiles = 16" "kPinnedCount = 5"
    by (simp_all add: shown_ids_def kMaxTiles_def kPinnedCount_def)
  show ?thesis
  proof (cases "length ?xs = ?n")
    case False
    then have "add_tile w ?ts = sift_tile (wid w) (kPinnedCount + length ?xs) (?ts @ [blank_tile 0 0])"
      using True room by (auto simp: add_tile_def)
    then have "add_tile w ?ts = pinned_tiles @ map window_tile (insort (wid w) ?xs)"
      using sift_tile_insort [OF sorted length_pinned, of "wid w" "blank_tile 0 0" "[]"] by simp
    moreover have "length (insort (wid w) ?xs) \<le> ?n" using False room by simp
    ultimately show ?thesis using True shown by simp
  next
    case len: True
    then have ne: "?xs \<noteq> []" using room by auto
    then obtain ys y where xs: "?xs = ys @ [y]" by (cases ?xs rule: rev_cases) auto
    then have ly: "length ys = 10" using len room by simp
    have fifteen: "kMaxTiles - 1 = kPinnedCount + length ys" using ly by (simp add: kMaxTiles_def kPinnedCount_def)
    have last: "twindow (?ts ! (kMaxTiles - 1)) = y"
      using ly by (simp add: xs nth_append kMaxTiles_def kPinnedCount_def)
    have "add_tile w ?ts = (if y < wid w then ?ts else sift_tile (wid w) (kPinnedCount + length ys) ?ts)"
      using True len room ly last unfolding add_tile_def fifteen by simp
    moreover have "sift_tile (wid w) (kPinnedCount + length ys) ?ts = pinned_tiles @ map window_tile (insort (wid w) ys)"
      using sift_tile_insort [OF _ length_pinned, of ys "wid w" "window_tile y" "[]"] sorted
      by (simp add: xs sorted_append)
    moreover have "shown_ids (is @ [wid w]) = (if y < wid w then ?xs else insort (wid w) ys)"
      using take_insort_full [OF sorted ne, of "wid w"] shown len by (simp add: xs)
    ultimately show ?thesis using True by simp
  qed
qed (auto simp: add_tile_def)

lemma fold_add_tile:
  "fold add_tile ws (pinned_tiles @ map window_tile (shown_ids is)) =
   pinned_tiles @ map window_tile (shown_ids (is @ tiled_ids ws))"
proof (induction ws arbitrary: "is")
  case (Cons w ws)
  then show ?case by (simp add: add_tile_shown tiled_ids_def)
qed (simp add: tiled_ids_def)

lemma map_upt_nth: "map (\<lambda>k. f (xs ! k)) [0..<length xs] = map f xs"
  by (intro nth_equalityI) simp_all

lemma taskbar_tiles_are:
  "map (\<lambda>t. (tslot t, twindow t)) (tiles (taskbar_layout sw sh ws)) =
   map (\<lambda>slot. (int slot, 0)) [0..<kPinnedCount] @ map (\<lambda>i. (-1, i)) (take (kMaxTiles - kPinnedCount) (sort (tiled_ids ws)))"
proof -
  have "fold add_tile ws pinned_tiles = pinned_tiles @ map window_tile (shown_ids (tiled_ids ws))"
    using fold_add_tile [of ws "[]"] by (simp add: shown_ids_def)
  moreover have "map (\<lambda>t. (tslot t, twindow t)) (tiles (taskbar_layout sw sh ws)) =
      map (\<lambda>t. (tslot t, twindow t)) (fold add_tile ws pinned_tiles)"
    using map_upt_nth [of "\<lambda>t. (tslot t, twindow t)" "fold add_tile ws pinned_tiles"]
    by (simp add: taskbar_layout_def Let_def comp_def flip: pinned_tiles_def)
  ultimately show ?thesis
    by (simp add: pinned_tiles_def shown_ids_def window_tile_def blank_tile_def)
qed

section \<open>Hits\<close>

lemma taskbar_rects:
  "bar (taskbar_layout sw sh ws) = rect_at 12 (sh - 64) (sw - 24) 52"
  "start (taskbar_layout sw sh ws) = rect_at 20 (sh - 56) 36 36"
  by (simp_all add: taskbar_layout_def taskbar_bar_rect_def kTaskbarMargin_def kTaskbarHeight_def kStartSize_def
      Let_def signed_divide_int_def)

lemma tile_count: "length (tiles (taskbar_layout sw sh ws)) \<le> 16"
  using arg_cong [OF taskbar_tiles_are [of sw sh ws], of length] by (simp add: kMaxTiles_def kPinnedCount_def)

lemma tile_rect:
  assumes "k < length (tiles (taskbar_layout sw sh ws))"
  shows "trect (tiles (taskbar_layout sw sh ws) ! k) =
    rect_at (12 + (sw - 24 - (int (length (tiles (taskbar_layout sw sh ws))) * 50 - 6)) sdiv 2 + int k * 50) (sh - 60) 44 44"
  using assms
  by (simp add: taskbar_layout_def taskbar_bar_rect_def kTaskbarMargin_def kTaskbarHeight_def kTileSize_def
      kTileGap_def Let_def signed_divide_int_def algebra_simps)

lemma find_upt:
  assumes "k < n" and "P k" and "\<And>j. j < k \<Longrightarrow> \<not> P j"
  shows "find P [0..<n] = Some k"
  using assms by (auto simp: find_Some_iff)

lemma tile_hit:
  assumes "rect_laws (rects U)" and "906 \<le> sw" and "k < length (tiles (taskbar_layout sw sh ws))"
    and "inside (trect (tiles (taskbar_layout sw sh ws) ! k)) x y"
  shows "taskbar_hit U (taskbar_layout sw sh ws) x y = HitTile k"
proof -
  let ?l = "taskbar_layout sw sh ws"
  let ?n = "int (length (tiles ?l))"
  have c: "contains (rects U) r a b = inside r a b" for r a b
    using assms(1) by (simp add: rect_laws_def)
  define x0 where "x0 = 12 + (sw - 24 - (?n * 50 - 6)) sdiv 2"
  have "?n \<le> 16" "0 < ?n" using tile_count [of sw sh ws] assms(3) by auto
  then have x0: "56 \<le> x0" "x0 + ?n * 50 - 6 \<le> sw - 12"
    using assms(2) by (auto simp: x0_def signed_divide_int_def)
  have t: "trect (tiles ?l ! j) = rect_at (x0 + int j * 50) (sh - 60) 44 44" if "j < length (tiles ?l)" for j
    using tile_rect [OF that] by (simp add: x0_def)
  have p: "x0 + int k * 50 \<le> x" "x < x0 + int k * 50 + 44" "sh - 60 \<le> y" "y < sh - 16"
    using assms(4) by (simp_all add: t [OF assms(3)] inside_def)
  have k: "int k + 1 \<le> ?n" using assms(3) by simp
  have "find (\<lambda>k. contains (rects U) (trect (tiles ?l ! k)) x y) [0..<length (tiles ?l)] = Some k"
  proof (rule find_upt [OF assms(3)])
    show "contains (rects U) (trect (tiles ?l ! k)) x y" using assms(4) by (simp add: c)
    fix j assume "j < k"
    then show "\<not> contains (rects U) (trect (tiles ?l ! j)) x y"
      using assms(3) p by (simp add: c t inside_def)
  qed
  moreover have "inside (bar ?l) x y" "\<not> inside (start ?l) x y"
    using p x0 k by (simp_all add: taskbar_rects inside_def)
  ultimately show ?thesis by (simp add: taskbar_hit_def c)
qed

text \<open>
  C12: The taskbar's tiles are the five pinned applications and then the windows of other programs,
  oldest first, at most eleven of them, whatever order the kernel lists them in; and on screens of
  906 pixels and more a point of a tile hits that tile and no other part of the bar.
\<close>
theorem taskbar_shows_oldest:
  assumes "rect_laws (rects U)" and "906 \<le> sw"
  shows "map (\<lambda>t. (tslot t, twindow t)) (tiles (taskbar_layout sw sh ws)) =
      map (\<lambda>slot. (int slot, 0)) [0..<kPinnedCount] @
      map (\<lambda>i. (-1, i)) (take (kMaxTiles - kPinnedCount)
        (sort (map wid (filter (\<lambda>w. is_open w \<and> pinned_slot_of (title w) < 0) ws)))) \<and>
    (\<forall>k<length (tiles (taskbar_layout sw sh ws)). \<forall>x y.
       inside (trect (tiles (taskbar_layout sw sh ws) ! k)) x y \<longrightarrow>
       taskbar_hit U (taskbar_layout sw sh ws) x y = HitTile k)"
  using taskbar_tiles_are [of sw sh ws] tile_hit [OF assms] by (auto simp: tiled_ids_def)

definition plain_ui :: ui_ops where
  "plain_ui = \<lparr>rects = plain_rects, rounded = (\<lambda>r radius. inside r),
     offset = (\<lambda>r dx dy. r\<lparr>rx := rx r + dx, ry := ry r + dy\<rparr>), right_edge = (\<lambda>r. rx r + rw r),
     small_width = (\<lambda>s. 7 * int (length s))\<rparr>"

definition plain_window :: "nat \<Rightarrow> string \<Rightarrow> window_flag set \<Rightarrow> window_info" where
  "plain_window i name st =
     \<lparr>wid = i, ownerPID = 1, wflags = 0, wstate = st, wx = 100, wy = 100, wwidth = 300, wheight = 200,
      surfaceID = i, zOrder = 0, title = name\<rparr>"

theorem taskbar_shows_oldest_witness:
  "taskbar_hit plain_ui (taskbar_layout 1000 600
     [plain_window 7 ''Demo'' {}, plain_window 3 ''Cube'' {}, plain_window 5 ''Paint'' {}]) 600 560 = HitTile 5 \<and>
   twindow (tiles (taskbar_layout 1000 600
     [plain_window 7 ''Demo'' {}, plain_window 3 ''Cube'' {}, plain_window 5 ''Paint'' {}]) ! 5) = 5"
proof -
  let ?ws = "[plain_window 7 ''Demo'' {}, plain_window 3 ''Cube'' {}, plain_window 5 ''Paint'' {}]"
  let ?ts = "tiles (taskbar_layout 1000 600 ?ws)"
  have slots: "pinned_slot_of ''Demo'' = -1" "pinned_slot_of ''Cube'' = 3" "pinned_slot_of ''Paint'' = -1"
    by code_simp+
  have all: "map (\<lambda>t. (tslot t, twindow t)) ?ts = map (\<lambda>slot. (int slot, 0)) [0..<5] @ [(-1, 5), (-1, 7)]"
    "\<And>k x y. k < length ?ts \<Longrightarrow> inside (trect (?ts ! k)) x y \<Longrightarrow> taskbar_hit plain_ui (taskbar_layout 1000 600 ?ws) x y = HitTile k"
    using taskbar_shows_oldest [of plain_ui 1000 600 ?ws] plain_rects_laws
    by (simp_all add: plain_ui_def plain_window_def is_open_def slots kMaxTiles_def kPinnedCount_def)
  have len: "length ?ts = 7" using arg_cong [OF all(1), of length] by simp
  have "inside (trect (?ts ! 5)) 600 560"
    using tile_rect [of 5 1000 600 ?ws] len by (simp add: inside_def signed_divide_int_def)
  moreover have "(\<lambda>t. (tslot t, twindow t)) (?ts ! 5) = (-1, 5)"
    using arg_cong [OF all(1), of "\<lambda>l. l ! 5"] len by (simp add: nth_append)
  ultimately show ?thesis using all(2) [of 5 600 560] len by simp
qed

section \<open>Clicks\<close>

definition app_windows :: "int \<Rightarrow> window_info list \<Rightarrow> window_info list" where
  "app_windows slot ws = filter (\<lambda>w. is_open w \<and> pinned_slot_of (title w) = slot) ws"

lemma app_windows_snoc:
  "app_windows slot (ws @ [w]) =
   (if is_open w \<and> pinned_slot_of (title w) = slot then app_windows slot ws @ [w] else app_windows slot ws)"
  by (simp add: app_windows_def)

definition best_of :: "window_info list \<Rightarrow> window_info option \<Rightarrow> bool" where
  "best_of apps best \<longleftrightarrow>
     (if apps = [] then best = None
      else if filter is_active apps = [] then \<exists>w\<in>set apps. best = Some w \<and> (\<forall>v\<in>set apps. wid v \<le> wid w)
      else best = Some (last (filter is_active apps)))"

lemma best_of_better:
  assumes "best_of apps best" and "is_open w \<and> pinned_slot_of (title w) = slot"
  shows "best_of (apps @ [w]) (better_window slot w best)"
proof (cases best)
  case None
  then have "apps = []" using assms(1) by (auto simp: best_of_def split: if_splits)
  then show ?thesis using None assms(2) by (simp add: best_of_def better_window_def)
next
  case (Some b)
  have "apps \<noteq> []" using assms(1) Some by (auto simp: best_of_def)
  then have b: "if filter is_active apps = [] then b \<in> set apps \<and> (\<forall>v\<in>set apps. wid v \<le> wid b)
      else b = last (filter is_active apps)"
    using assms(1) Some by (auto simp: best_of_def split: if_splits)
  have "is_active b \<longleftrightarrow> filter is_active apps \<noteq> []"
    using b last_in_set [of "filter is_active apps"] by (auto simp: filter_empty_conv split: if_splits)
  then have bw: "better_window slot w best =
      Some (if is_active w \<or> filter is_active apps = [] \<and> wid b < wid w then w else b)"
    using assms(2) Some by (simp add: better_window_def)
  show ?thesis
  proof (cases "filter is_active apps = []")
    case True
    then have "b \<in> set apps" "\<forall>v\<in>set apps. wid v \<le> wid b" using b by simp_all
    then show ?thesis
      using True by (cases "is_active w") (simp_all add: best_of_def bw, fastforce)
  next
    case False
    then show ?thesis using b by (simp add: best_of_def bw)
  qed
qed

lemma best_window: "best_of (app_windows slot ws) (fold (better_window slot) ws None)"
proof (induction ws rule: rev_induct)
  case (snoc w ws)
  show ?case
  proof (cases "is_open w \<and> pinned_slot_of (title w) = slot")
    case True
    then show ?thesis using best_of_better [OF snoc True] by (simp add: app_windows_snoc)
  next
    case False
    then have "better_window slot w b = b" for b by (simp add: better_window_def)
    then show ?thesis using False snoc by (auto simp: app_windows_snoc)
  qed
qed (simp add: app_windows_def best_of_def)

lemma pinned_tile:
  assumes "slot < kPinnedCount"
  shows "slot < length (tiles (taskbar_layout sw sh ws))"
    and "tslot (tiles (taskbar_layout sw sh ws) ! slot) = int slot"
proof -
  let ?ts = "tiles (taskbar_layout sw sh ws)"
  show len: "slot < length ?ts"
    using arg_cong [OF taskbar_tiles_are [of sw sh ws], of length] assms by simp
  have "(\<lambda>t. (tslot t, twindow t)) (?ts ! slot) = (int slot, 0)"
    using arg_cong [OF taskbar_tiles_are [of sw sh ws], of "\<lambda>l. l ! slot"] assms len by (simp add: nth_append)
  then show "tslot (?ts ! slot) = int slot" by simp
qed

text \<open>
  C13: A click on a pinned application's tile starts it when it has no window open, minimizes its
  active window when it has one, and else focuses its newest window; and nothing else is asked of
  the kernel.
\<close>
theorem pinned_tile_click:
  assumes "slot < kPinnedCount"
    and "apps = filter (\<lambda>w. is_open w \<and> pinned_slot_of (title w) = int slot) ws"
  shows "taskbar_click (taskbar_layout sw sh ws) (int slot) ws =
    (if apps = [] then (False, [SpawnApp (the (slot_program (int slot)))])
     else if \<exists>w\<in>set apps. is_active w
     then (True, [ControlWindow (wid (last (filter is_active apps))) MinimizeIt])
     else (True, [FocusWindow (Max (wid ` set apps))]))"
proof -
  let ?t = "tiles (taskbar_layout sw sh ws) ! slot"
  have t: "tslot ?t = int slot" "\<not> int (length (tiles (taskbar_layout sw sh ws))) \<le> int slot"
    using pinned_tile [OF assms(1), of sw sh ws] by auto
  obtain p where "slot_program (int slot) = Some p"
    using assms(1) by (auto simp: slot_program_def kPinnedCount_def less_Suc_eq numeral_eq_Suc)
  moreover have "best_of apps (tile_window ?t ws)"
    using best_window [of "int slot" ws] by (simp add: tile_window_def t(1) app_windows_def assms(2))
  moreover have "wid w = Max (wid ` set apps)" if "w \<in> set apps" "\<forall>v\<in>set apps. wid v \<le> wid w" for w
    using that by (intro Max_eqI [symmetric]) auto
  moreover have "is_active (last (filter is_active apps))" if "filter is_active apps \<noteq> []"
    using that last_in_set by fastforce
  ultimately show ?thesis
    using t(2) by (auto simp: taskbar_click_def Let_def t(1) best_of_def filter_empty_conv split: if_splits)
qed

theorem pinned_tile_click_witness:
  "taskbar_click (taskbar_layout 1000 600 [plain_window 7 ''Cube'' {}, plain_window 9 ''Cube'' {Minimized}]) 3
     [plain_window 7 ''Cube'' {}, plain_window 9 ''Cube'' {Minimized}] = (True, [FocusWindow 9])"
proof -
  have "pinned_slot_of ''Cube'' = 3" by code_simp
  then show ?thesis
    using pinned_tile_click [of 3 "[plain_window 7 ''Cube'' {}, plain_window 9 ''Cube'' {Minimized}]"
        "[plain_window 7 ''Cube'' {}, plain_window 9 ''Cube'' {Minimized}]" 1000 600]
    by (simp add: kPinnedCount_def plain_window_def is_open_def is_active_def)
qed

end
