(* ===== verification/Compositor_Damage.thy ===== *)
theory Compositor_Damage
  imports Compositor_Surfaces Compositor_Taskbar
begin

text \<open>
  What the compositor relies on of its surface cache: a surface that was committed is found as long
  as windows show it, and for eight window lists after that; and the rectangle redrawn after some
  commits covers all they damaged.
\<close>

section \<open>A store of surfaces\<close>

datatype surface_op = Commit surface_info | ListWindows "window_info list" | Redrawn

text \<open>Whether a surface outlives the lists, when \<open>n\<close> in a row did not show it so far.\<close>

fun survives :: "nat \<Rightarrow> nat \<Rightarrow> surface_op list \<Rightarrow> bool" where
  "survives i n [] = True"
| "survives i n (ListWindows ws # ops) =
     (if \<exists>w\<in>set ws. surfaceID w = i then survives i 0 ops
      else n < kSurfaceForgetLists \<and> survives i (Suc n) ops)"
| "survives i n (Commit s # ops) = survives i n ops"
| "survives i n (Redrawn # ops) = survives i n ops"

text \<open>Every commit is of another surface and has an entry or finds a free one.\<close>

fun commits_fit ::
  "('c \<Rightarrow> nat \<Rightarrow> bool) \<Rightarrow> (surface_op \<Rightarrow> 'c \<Rightarrow> 'c) \<Rightarrow> nat \<Rightarrow> surface_op list \<Rightarrow> 'c \<Rightarrow> bool" where
  "commits_fit fit step i [] c = True"
| "commits_fit fit step i (op # ops) c =
     ((case op of Commit s \<Rightarrow> sid s \<noteq> 0 \<and> sid s \<noteq> i \<and> fit c (sid s) | _ \<Rightarrow> True) \<and>
      commits_fit fit step i ops (step op c))"

locale surface_store =
  fixes ok :: "'c \<Rightarrow> bool" and lookup :: "'c \<Rightarrow> nat \<Rightarrow> 'e option" and fit :: "'c \<Rightarrow> nat \<Rightarrow> bool"
    and step :: "surface_op \<Rightarrow> 'c \<Rightarrow> 'c" and info :: "'e \<Rightarrow> surface_info" and age :: "'e \<Rightarrow> nat"
  assumes ok_step: "ok c \<Longrightarrow> (\<And>s. op = Commit s \<Longrightarrow> sid s \<noteq> 0) \<Longrightarrow> ok (step op c)"
    and commit_own: "ok c \<Longrightarrow> sid s \<noteq> 0 \<Longrightarrow> \<exists>e. lookup (step (Commit s) c) (sid s) = Some e \<and> info e = s \<and> age e = 0"
    and commit_other: "ok c \<Longrightarrow> sid s \<noteq> 0 \<Longrightarrow> fit c (sid s) \<Longrightarrow> i \<noteq> sid s \<Longrightarrow>
      lookup (step (Commit s) c) i = lookup c i"
    and list_shown: "ok c \<Longrightarrow> lookup c i = Some e \<Longrightarrow> \<exists>w\<in>set ws. surfaceID w = i \<Longrightarrow>
      \<exists>e'. lookup (step (ListWindows ws) c) i = Some e' \<and> info e' = info e \<and> age e' = 0"
    and list_unshown: "ok c \<Longrightarrow> lookup c i = Some e \<Longrightarrow> \<not> (\<exists>w\<in>set ws. surfaceID w = i) \<Longrightarrow>
      age e < kSurfaceForgetLists \<Longrightarrow>
      \<exists>e'. lookup (step (ListWindows ws) c) i = Some e' \<and> info e' = info e \<and> age e' = Suc (age e)"
    and list_forgets: "ok c \<Longrightarrow> lookup c i = Some e \<Longrightarrow> \<not> (\<exists>w\<in>set ws. surfaceID w = i) \<Longrightarrow>
      age e = kSurfaceForgetLists \<Longrightarrow> lookup (step (ListWindows ws) c) i = None"
    and list_none: "ok c \<Longrightarrow> lookup c i = None \<Longrightarrow> lookup (step (ListWindows ws) c) i = None"
    and redrawn: "ok c \<Longrightarrow> rel_option (\<lambda>e e'. info e' = info e \<and> age e' = age e) (lookup c i) (lookup (step Redrawn c) i)"
begin

lemma lost_stays:
  "ok c \<Longrightarrow> lookup c i = None \<Longrightarrow> commits_fit fit step i ops c \<Longrightarrow> lookup (fold step ops c) i = None"
proof (induction ops arbitrary: c)
  case (Cons op ops)
  have "lookup (step op c) i = None"
  proof (cases op)
    case (Commit s)
    then show ?thesis using Cons.prems commit_other [of c s i] by simp
  next
    case (ListWindows ws)
    then show ?thesis using Cons.prems list_none by simp
  next
    case Redrawn
    then show ?thesis using Cons.prems redrawn [of c i] by simp
  qed
  moreover have "ok (step op c)" using Cons.prems by (intro ok_step) auto
  ultimately show ?case using Cons.IH [of "step op c"] Cons.prems(3) by simp
qed simp

lemma kept_exactly:
  "ok c \<Longrightarrow> lookup c i = Some e \<Longrightarrow> age e \<le> kSurfaceForgetLists \<Longrightarrow> commits_fit fit step i ops c \<Longrightarrow>
   (case lookup (fold step ops c) i of None \<Rightarrow> \<not> survives i (age e) ops
    | Some e' \<Rightarrow> survives i (age e) ops \<and> info e' = info e)"
proof (induction ops arbitrary: c e)
  case (Cons op ops)
  have ok: "ok (step op c)" using Cons.prems by (intro ok_step) auto
  have rest: "commits_fit fit step i ops (step op c)" using Cons.prems(4) by simp
  note IH = Cons.IH [OF ok _ _ rest]
  show ?case
  proof (cases op)
    case (Commit s)
    then have "lookup (step op c) i = Some e" using Cons.prems commit_other [of c s i] by simp
    then show ?thesis using IH Cons.prems(3) Commit by (simp split: option.splits)
  next
    case (ListWindows ws)
    consider (shown) "\<exists>w\<in>set ws. surfaceID w = i" | (unshown) "\<not> (\<exists>w\<in>set ws. surfaceID w = i)" "age e < kSurfaceForgetLists"
      | (gone) "\<not> (\<exists>w\<in>set ws. surfaceID w = i)" "age e = kSurfaceForgetLists"
      using Cons.prems(3) by linarith
    then show ?thesis
    proof cases
      case shown
      then obtain e' where "lookup (step op c) i = Some e'" "info e' = info e" "age e' = 0"
        using list_shown Cons.prems(1,2) ListWindows by blast
      then show ?thesis using IH [of e'] shown ListWindows by (simp split: option.splits)
    next
      case unshown
      then obtain e' where "lookup (step op c) i = Some e'" "info e' = info e" "age e' = Suc (age e)"
        using list_unshown Cons.prems(1,2) ListWindows by blast
      then show ?thesis using IH [of e'] unshown ListWindows by (simp split: option.splits)
    next
      case gone
      have "lookup (step op c) i = None"
        unfolding ListWindows by (rule list_forgets [OF Cons.prems(1,2) gone])
      then show ?thesis using lost_stays [OF ok _ rest] gone ListWindows by simp
    qed
  next
    case Redrawn
    then obtain e' where "lookup (step op c) i = Some e'" "info e' = info e" "age e' = age e"
      using redrawn [OF Cons.prems(1), of i] Cons.prems(2) by (auto simp: option_rel_Some1)
    then show ?thesis using IH [of e'] Cons.prems(3) Redrawn by (simp split: option.splits)
  qed
qed simp

end

section \<open>The cache is one\<close>

definition surface_step :: "ui_ops \<Rightarrow> surface_op \<Rightarrow> cache_entry list \<Rightarrow> cache_entry list" where
  "surface_step U op cache =
     (case op of
        Commit s \<Rightarrow> remember_surface U s cache
      | ListWindows ws \<Rightarrow> forget_unshown_surfaces ws cache
      | Redrawn \<Rightarrow> clear_surface_dirty_flags cache)"

definition fits_cache :: "cache_entry list \<Rightarrow> nat \<Rightarrow> bool" where
  "fits_cache cache i \<longleftrightarrow> entry_of cache i \<noteq> None \<or> has_room cache"

lemma entry_of_eid: "cache_ok cache \<Longrightarrow> entry_of cache i = Some e \<Longrightarrow> valid e \<and> eid e = i"
  by (auto simp: entry_of_Some)

interpretation surfaces: surface_store cache_ok entry_of fits_cache "surface_step U" einfo unshownLists for U
proof
  fix c op assume "cache_ok c" "\<And>s. op = Commit s \<Longrightarrow> sid s \<noteq> 0"
  then show "cache_ok (surface_step U op c)"
    using remember_ok(1) forget_ok(1) clear_ok(1)
    by (cases op) (auto simp: surface_step_def clear_surface_dirty_flags_def)
next
  fix c and s :: surface_info assume "cache_ok c" "sid s \<noteq> 0"
  from remember_ok(2) [OF this, of U]
  show "\<exists>e. entry_of (surface_step U (Commit s) c) (sid s) = Some e \<and> einfo e = s \<and> unshownLists e = 0"
    by (simp add: surface_step_def)
next
  fix c i and s :: surface_info assume "cache_ok c" "sid s \<noteq> 0" "fits_cache c (sid s)" "i \<noteq> sid s"
  then show "entry_of (surface_step U (Commit s) c) i = entry_of c i"
    using remember_ok(3) [of c s] by (simp add: surface_step_def fits_cache_def)
next
  fix c i e and ws :: "window_info list" assume c: "cache_ok c" "entry_of c i = Some e" and "\<exists>w\<in>set ws. surfaceID w = i"
  then show "\<exists>e'. entry_of (surface_step U (ListWindows ws) c) i = Some e' \<and> einfo e' = einfo e \<and> unshownLists e' = 0"
    using forget_ok(2) [OF c(1), of ws i] entry_of_eid [OF c] by (simp add: surface_step_def forget_entry_def)
next
  fix c i e and ws :: "window_info list" assume c: "cache_ok c" "entry_of c i = Some e" and
    "\<not> (\<exists>w\<in>set ws. surfaceID w = i)" "unshownLists e < kSurfaceForgetLists"
  then show "\<exists>e'. entry_of (surface_step U (ListWindows ws) c) i = Some e' \<and> einfo e' = einfo e \<and>
      unshownLists e' = Suc (unshownLists e)"
    using forget_ok(2) [OF c(1), of ws i] entry_of_eid [OF c]
    by (simp add: surface_step_def forget_entry_def kSurfaceForgetLists_def u32_add_def)
next
  fix c i e and ws :: "window_info list" assume c: "cache_ok c" "entry_of c i = Some e" and
    "\<not> (\<exists>w\<in>set ws. surfaceID w = i)" "unshownLists e = kSurfaceForgetLists"
  then show "entry_of (surface_step U (ListWindows ws) c) i = None"
    using forget_ok(2) [OF c(1), of ws i] entry_of_eid [OF c]
    by (simp add: surface_step_def forget_entry_def kSurfaceForgetLists_def u32_add_def empty_entry_def)
next
  fix c i and ws :: "window_info list" assume "cache_ok c" "entry_of c i = None"
  then show "entry_of (surface_step U (ListWindows ws) c) i = None"
    using forget_ok(2) by (simp add: surface_step_def)
next
  fix c i assume "cache_ok c"
  then show "rel_option (\<lambda>e e'. einfo e' = einfo e \<and> unshownLists e' = unshownLists e) (entry_of c i)
      (entry_of (surface_step U Redrawn c) i)"
    using clear_ok(2) [of c i]
    by (cases "entry_of c i") (simp_all add: surface_step_def clear_surface_dirty_flags_def clear_dirty_def)
qed

text \<open>
  C9: A committed surface is found, as it was committed, exactly as long as no more than eight
  window lists in a row did not show it, whatever else is committed (as long as the cache has
  room) or redrawn in between.
\<close>
theorem surface_kept:
  assumes "cache_ok cache" and "sid s \<noteq> 0"
    and "commits_fit fits_cache (surface_step U) (sid s) ops (remember_surface U s cache)"
  shows "case entry_of (fold (surface_step U) ops (remember_surface U s cache)) (sid s) of
      None \<Rightarrow> \<not> survives (sid s) 0 ops
    | Some e \<Rightarrow> survives (sid s) 0 ops \<and> einfo e = s"
  using surfaces.kept_exactly [where U = U, OF remember_ok(1) remember_ok(2) _ assms(3)] assms(1,2)
  by (simp split: option.splits)

definition small_surface :: "nat \<Rightarrow> surface_info" where
  "small_surface i = no_surface\<lparr>sid := i, swidth := 300, sheight := 200, sdirtyWidth := 300, sdirtyHeight := 200\<rparr>"

lemma no_surfaces_ok: "cache_ok (replicate kMaxSurfaceCache empty_entry)"
  by (simp add: cache_ok_def empty_entry_def)

theorem surface_kept_witness:
  "entry_of (fold (surface_step plain_ui) (replicate 9 (ListWindows []))
     (remember_surface plain_ui (small_surface 5) (replicate kMaxSurfaceCache empty_entry))) 5 = None"
proof -
  have "\<not> survives 5 0 (replicate 9 (ListWindows []))"
    by (simp add: numeral_eq_Suc kSurfaceForgetLists_def)
  moreover have "commits_fit fits_cache (surface_step plain_ui) 5 (replicate n (ListWindows [])) c" for n c
    by (induction n arbitrary: c) simp_all
  ultimately show ?thesis
    using surface_kept [OF no_surfaces_ok, of "small_surface 5" plain_ui "replicate 9 (ListWindows [])"]
    by (simp add: small_surface_def no_surface_def split: option.splits)
qed

section \<open>Damage\<close>

text \<open>A union does not reach past a rectangle that holds both parts.\<close>

definition tight_unite :: "rect_ops \<Rightarrow> bool" where
  "tight_unite U \<longleftrightarrow> (\<forall>r s b. (\<forall>x y. inside r x y \<or> inside s x y \<longrightarrow> inside b x y) \<longrightarrow>
     (\<forall>x y. inside (unite U r s) x y \<longrightarrow> inside b x y))"

text \<open>A region whose far corner is a 31-bit value.\<close>

definition small_region :: "nat \<Rightarrow> nat \<Rightarrow> nat \<Rightarrow> nat \<Rightarrow> bool" where
  "small_region x y w h \<longleftrightarrow> x + w < 2147483648 \<and> y + h < 2147483648"

definition in_region :: "nat \<Rightarrow> nat \<Rightarrow> nat \<Rightarrow> nat \<Rightarrow> nat \<Rightarrow> nat \<Rightarrow> bool" where
  "in_region x y w h u v \<longleftrightarrow> x \<le> u \<and> u < x + w \<and> y \<le> v \<and> v < y + h"

definition damaged :: "cache_entry \<Rightarrow> nat \<Rightarrow> nat \<Rightarrow> bool" where
  "damaged e u v \<longleftrightarrow> dirty e \<and> in_region (dirtyX e) (dirtyY e) (dirtyWidth e) (dirtyHeight e) u v"

definition small_damage :: "cache_entry \<Rightarrow> bool" where
  "small_damage e \<longleftrightarrow> (dirty e \<longrightarrow> small_region (dirtyX e) (dirtyY e) (dirtyWidth e) (dirtyHeight e))"

definition commit_damages :: "surface_info \<Rightarrow> nat \<Rightarrow> nat \<Rightarrow> bool" where
  "commit_damages s u v \<longleftrightarrow> in_region (sdirtyX s) (sdirtyY s) (sdirtyWidth s) (sdirtyHeight s) u v"

definition small_commit :: "surface_info \<Rightarrow> bool" where
  "small_commit s \<longleftrightarrow> small_region (sdirtyX s) (sdirtyY s) (sdirtyWidth s) (sdirtyHeight s)"

lemma region_rect:
  assumes "small_region x y w h"
  shows "inside (rect_at (int_of_u32 x) (int_of_u32 y) (int_of_u32 w) (int_of_u32 h)) a b \<longleftrightarrow>
    0 \<le> a \<and> 0 \<le> b \<and> in_region x y w h (nat a) (nat b)"
  using assms by (auto simp: small_region_def inside_def in_region_def)

text \<open>A rectangle with points in the first quadrant, all below the bound, as 32-bit values.\<close>

lemma rect_region:
  assumes "\<And>x y. inside r x y \<Longrightarrow> inside (rect_at 0 0 2147483647 2147483647) x y" and "0 < rw r" and "0 < rh r"
  shows "small_region (u32_of_int (rx r)) (u32_of_int (ry r)) (u32_of_int (rw r)) (u32_of_int (rh r))"
    and "in_region (u32_of_int (rx r)) (u32_of_int (ry r)) (u32_of_int (rw r)) (u32_of_int (rh r)) u v \<longleftrightarrow>
      inside r (int u) (int v)"
proof -
  have "inside r (rx r) (ry r)" "inside r (rx r + rw r - 1) (ry r + rh r - 1)"
    using assms(2,3) by (simp_all add: inside_def)
  then have b: "0 \<le> rx r" "0 \<le> ry r" "rx r + rw r \<le> 2147483647" "ry r + rh r \<le> 2147483647"
    using assms(1) by (fastforce simp: inside_def)+
  then have conv: "u32_of_int (rx r) = nat (rx r)" "u32_of_int (ry r) = nat (ry r)" "u32_of_int (rw r) = nat (rw r)"
    "u32_of_int (rh r) = nat (rh r)"
    using assms(2,3) by (auto simp: u32_of_int_id u32_max_def)
  show "small_region (u32_of_int (rx r)) (u32_of_int (ry r)) (u32_of_int (rw r)) (u32_of_int (rh r))"
    using b assms(2,3) by (auto simp: conv small_region_def)
  show "in_region (u32_of_int (rx r)) (u32_of_int (ry r)) (u32_of_int (rw r)) (u32_of_int (rh r)) u v \<longleftrightarrow>
      inside r (int u) (int v)"
    using b assms(2,3) by (auto simp: conv in_region_def inside_def)
qed

lemma commit_damage:
  assumes "rect_laws (rects U)" and "tight_unite (rects U)" and "small_damage e" and "small_commit s"
  shows "small_damage (committed_entry U s e)"
    and "damaged e u v \<or> commit_damages s u v \<Longrightarrow> damaged (committed_entry U s e) u v"
proof -
  define old where "old = (if dirty e
      then rect_at (int_of_u32 (dirtyX e)) (int_of_u32 (dirtyY e)) (int_of_u32 (dirtyWidth e)) (int_of_u32 (dirtyHeight e))
      else rect_at 0 0 0 0)"
  define new where "new = rect_at (int_of_u32 (sdirtyX s)) (int_of_u32 (sdirtyY s))
      (int_of_u32 (sdirtyWidth s)) (int_of_u32 (sdirtyHeight s))"
  define m where "m = unite (rects U) old new"
  have new: "inside new a b \<longleftrightarrow> 0 \<le> a \<and> 0 \<le> b \<and> commit_damages s (nat a) (nat b)" for a b
    using assms(4) by (simp add: new_def small_commit_def region_rect commit_damages_def)
  have old: "inside old a b \<longleftrightarrow> 0 \<le> a \<and> 0 \<le> b \<and> damaged e (nat a) (nat b)" for a b
  proof (cases "dirty e")
    case True
    then show ?thesis using assms(3) by (simp add: old_def small_damage_def region_rect damaged_def)
  qed (simp add: old_def damaged_def inside_def)
  have "inside (rect_at 0 0 2147483647 2147483647) a b" if "inside old a b \<or> inside new a b" for a b
    using that assms(3,4) unfolding old new
    by (auto simp: damaged_def commit_damages_def in_region_def small_damage_def small_commit_def
        small_region_def) (auto simp: inside_def)
  then have m: "\<And>a b. inside m a b \<Longrightarrow> inside (rect_at 0 0 2147483647 2147483647) a b"
    using assms(2) unfolding tight_unite_def m_def by blast
  have dirty: "dirty (committed_entry U s e) \<longleftrightarrow> 0 < rw m \<and> 0 < rh m"
    using assms(1) by (auto simp: committed_entry_def Let_def rect_laws_def m_def old_def new_def)
  have region: "dirtyX (committed_entry U s e) = u32_of_int (rx m)" "dirtyY (committed_entry U s e) = u32_of_int (ry m)"
    "dirtyWidth (committed_entry U s e) = u32_of_int (rw m)" "dirtyHeight (committed_entry U s e) = u32_of_int (rh m)"
    by (simp_all add: committed_entry_def Let_def m_def old_def new_def)
  show "small_damage (committed_entry U s e)"
    using rect_region(1) [OF m] by (simp add: small_damage_def dirty region)
  assume "damaged e u v \<or> commit_damages s u v"
  then have "inside m (int u) (int v)"
    unfolding m_def by (intro unite_covers [OF assms(1)]) (simp add: old new)
  moreover from this have "0 < rw m" "0 < rh m" by (simp_all add: inside_def)
  ultimately show "damaged (committed_entry U s e) u v"
    using rect_region(2) [OF m, where u = u and v = v] by (simp add: damaged_def dirty region)
qed

definition has_damage :: "cache_entry list \<Rightarrow> nat \<Rightarrow> nat \<Rightarrow> nat \<Rightarrow> bool" where
  "has_damage cache i u v \<longleftrightarrow> (\<exists>e. entry_of cache i = Some e \<and> damaged e u v)"

fun room_for :: "ui_ops \<Rightarrow> surface_info list \<Rightarrow> cache_entry list \<Rightarrow> bool" where
  "room_for U [] cache = True"
| "room_for U (s # ss) cache =
     (sid s \<noteq> 0 \<and> fits_cache cache (sid s) \<and> room_for U ss (remember_surface U s cache))"

lemma remember_small:
  assumes "rect_laws (rects U)" and "tight_unite (rects U)" and "small_commit s" and "cache_ok cache"
    and "\<forall>e\<in>set cache. small_damage e"
  shows "\<forall>e\<in>set (remember_surface U s cache). small_damage e"
proof -
  have "small_damage (cache ! entry_for cache (sid s))"
    using assms(4,5) entry_for_range [of cache "sid s"] by (simp add: cache_ok_def)
  then show ?thesis
    using commit_damage(1) [OF assms(1,2) _ assms(3)] assms(5)
    by (auto simp: remember_surface_def Let_def dest!: set_update_subset_insert [THEN subsetD])
qed

lemma remember_damage:
  assumes "rect_laws (rects U)" and "tight_unite (rects U)" and "small_commit s" and "cache_ok cache"
    and "\<forall>e\<in>set cache. small_damage e" and "sid s \<noteq> 0" and "fits_cache cache (sid s)"
    and "has_damage cache i u v \<or> i = sid s \<and> commit_damages s u v"
  shows "has_damage (remember_surface U s cache) i u v"
proof (cases "i = sid s")
  case True
  have "small_damage (cache ! entry_for cache (sid s))"
    using assms(4,5) entry_for_range [of cache "sid s"] by (simp add: cache_ok_def)
  moreover have "damaged (cache ! entry_for cache (sid s)) u v \<or> commit_damages s u v"
    using assms(8) True entry_for_cases [OF assms(4), of "sid s"] by (fastforce simp: has_damage_def)
  ultimately show ?thesis
    using commit_damage(2) [OF assms(1,2) _ assms(3)] remember_ok(2) [OF assms(4,6)]
    by (simp add: True has_damage_def)
next
  case False
  then show ?thesis
    using assms(8) remember_ok(3) [OF assms(4,6)] assms(7) by (simp add: has_damage_def fits_cache_def)
qed

lemma commits_damage:
  assumes "rect_laws (rects U)" and "tight_unite (rects U)"
  shows "cache_ok cache \<Longrightarrow> \<forall>e\<in>set cache. small_damage e \<Longrightarrow> \<forall>s\<in>set ss. small_commit s \<Longrightarrow> room_for U ss cache \<Longrightarrow>
    cache_ok (fold (remember_surface U) ss cache) \<and> (\<forall>e\<in>set (fold (remember_surface U) ss cache). small_damage e) \<and>
    (has_damage cache i u v \<or> (\<exists>s\<in>set ss. sid s = i \<and> commit_damages s u v) \<longrightarrow>
       has_damage (fold (remember_surface U) ss cache) i u v)"
proof (induction ss arbitrary: cache)
  case (Cons s ss)
  have c: "cache_ok cache" "sid s \<noteq> 0" "small_commit s" "fits_cache cache (sid s)"
    using Cons.prems by simp_all
  have "cache_ok (remember_surface U s cache)" by (rule remember_ok(1) [OF c(1,2)])
  moreover have "\<forall>e\<in>set (remember_surface U s cache). small_damage e"
    by (rule remember_small [OF assms c(3,1) Cons.prems(2)])
  moreover have "has_damage (remember_surface U s cache) i u v"
    if "has_damage cache i u v \<or> i = sid s \<and> commit_damages s u v"
    by (rule remember_damage [OF assms c(3,1) Cons.prems(2) c(2,4) that])
  ultimately show ?case using Cons.IH [of "remember_surface U s cache"] Cons.prems(3,4) by auto
qed simp

lemma if_min: "(if a < b then a else b) = min a (b :: nat)"
  by (simp add: min_def)

lemma window_dirty:
  assumes "is_window_visible w" and "entry_of cache (surfaceID w) = Some e" and "small_damage e" and "damaged e u v"
    and "u < swidth (einfo e)" and "v < sheight (einfo e)"
    and "int u < wwidth w" and "int v < wheight w" and "wwidth w < 2147483648" and "wheight w < 2147483648"
  shows "\<exists>r. window_dirty_rect cache w = Some r \<and> inside r (wx w + kBorder + int u) (wy w + kTitleBarHeight + int v)"
proof -
  obtain k where k: "find_surface_cache cache (surfaceID w) = Some k" "cache ! k = e"
    using assms(2) by (auto simp: entry_of_def)
  define right where "right = min (swidth (einfo e)) (nat (wwidth w))"
  define bottom where "bottom = min (sheight (einfo e)) (nat (wheight w))"
  have size: "u32_of_int (wwidth w) = nat (wwidth w)" "u32_of_int (wheight w) = nat (wheight w)"
    using assms(7-10) by (simp_all add: u32_of_int_id u32_max_def)
  have d: "dirty e" "dirtyX e \<le> u" "u < dirtyX e + dirtyWidth e" "dirtyY e \<le> v" "v < dirtyY e + dirtyHeight e"
    "dirtyX e + dirtyWidth e < 2147483648" "dirtyY e + dirtyHeight e < 2147483648"
    using assms(3,4) by (simp_all add: damaged_def in_region_def small_damage_def small_region_def)
  have lim: "u < right" "v < bottom" "right < 2147483648" "bottom < 2147483648"
    using assms(5-10) by (auto simp: right_def bottom_def)
  have sums: "u32_add (dirtyX e) (dirtyWidth e) = dirtyX e + dirtyWidth e"
    "u32_add (dirtyY e) (dirtyHeight e) = dirtyY e + dirtyHeight e"
    using d by (simp_all add: u32_add_id u32_max_def)
  have subs: "u32_sub (min (dirtyX e + dirtyWidth e) right) (dirtyX e) = min (dirtyX e + dirtyWidth e) right - dirtyX e"
    "u32_sub (min (dirtyY e + dirtyHeight e) bottom) (dirtyY e) = min (dirtyY e + dirtyHeight e) bottom - dirtyY e"
    using d lim by (auto simp: u32_sub_le u32_max_def)
  have shown: "\<not> (dirtyWidth e = 0 \<or> dirtyHeight e = 0 \<or> right \<le> dirtyX e \<or> bottom \<le> dirtyY e)"
    using d lim by auto
  have small: "min (dirtyX e + dirtyWidth e) right - dirtyX e < 2147483648" "dirtyX e < 2147483648"
    "min (dirtyY e + dirtyHeight e) bottom - dirtyY e < 2147483648" "dirtyY e < 2147483648"
    using d lim by linarith+
  have "window_dirty_rect cache w =
      Some (rect_at (wx w + kBorder + int (dirtyX e)) (wy w + kTitleBarHeight + int (dirtyY e))
        (int (min (dirtyX e + dirtyWidth e) right - dirtyX e)) (int (min (dirtyY e + dirtyHeight e) bottom - dirtyY e)))"
    unfolding window_dirty_rect_def k option.case Let_def sums size if_min right_def [symmetric] bottom_def [symmetric] subs
    using assms(1) d(1) shown small by (simp add: if_min)
  then show ?thesis using d lim by (simp add: inside_def)
qed

lemma unite_all_covers:
  assumes "rect_laws U" and "inside d x y \<or> (\<exists>w\<in>set ws. \<exists>r. f w = Some r \<and> inside r x y)"
  shows "inside (fold (\<lambda>w d. case f w of None \<Rightarrow> d | Some r \<Rightarrow> unite U d r) ws d) x y"
  using assms(2)
proof (induction ws arbitrary: d)
  case (Cons w ws)
  have "inside (case f w of None \<Rightarrow> d | Some r \<Rightarrow> unite U d r) x y \<or> (\<exists>w\<in>set ws. \<exists>r. f w = Some r \<and> inside r x y)"
    using Cons.prems unite_covers [OF assms(1), of d x y] by (cases "f w") auto
  then show ?case using Cons.IH by simp
qed simp

text \<open>
  C6: What was damaged is redrawn: after any commits (the cache has room for) every point that one
  of them damaged and that a visible window shows lies in the rectangle redrawn, at its place on
  the screen, and nothing is damaged after that.
\<close>
theorem damage_redrawn:
  assumes "rect_laws (rects U)" and "tight_unite (rects U)" and "cache_ok cache" and "\<forall>e\<in>set cache. small_damage e"
    and "\<forall>s\<in>set ss. small_commit s" and "room_for U ss cache"
    and "s \<in> set ss" and "commit_damages s u v"
    and "w \<in> set ws" and "is_window_visible w" and "surfaceID w = sid s"
    and "wwidth w < 2147483648" and "wheight w < 2147483648" and "int u < wwidth w" and "int v < wheight w"
    and "entry_of (fold (remember_surface U) ss cache) (sid s) = Some e"
    and "u < swidth (einfo e)" and "v < sheight (einfo e)"
    and "on_screen width height (wx w + kBorder + int u) (wy w + kTitleBarHeight + int v)"
  shows "let (r, cache') = consume_surface_dirty_rect U ws width height (fold (remember_surface U) ss cache)
    in inside r (wx w + kBorder + int u) (wy w + kTitleBarHeight + int v) \<and> (\<forall>e\<in>set cache'. \<not> dirty e)"
proof -
  let ?c = "fold (remember_surface U) ss cache"
  have c: "cache_ok ?c" "\<forall>e\<in>set ?c. small_damage e" "has_damage ?c (sid s) u v"
    using commits_damage [OF assms(1-6), of "sid s" u v] assms(7,8) by auto
  have "damaged e u v" using c(3) assms(16) by (simp add: has_damage_def)
  moreover have "small_damage e"
    using c(1,2) assms(16) entry_of_Some [OF c(1)] by (auto simp: cache_ok_def)
  ultimately obtain r where "window_dirty_rect ?c w = Some r"
    "inside r (wx w + kBorder + int u) (wy w + kTitleBarHeight + int v)"
    using window_dirty [of w ?c e u v] assms(10-18) by auto
  then have "inside (fold (\<lambda>w d. case window_dirty_rect ?c w of None \<Rightarrow> d | Some r \<Rightarrow> unite (rects U) d r) ws
      (rect_at 0 0 0 0)) (wx w + kBorder + int u) (wy w + kTitleBarHeight + int v)"
    using assms(9) by (intro unite_all_covers [OF assms(1)]) blast
  then show ?thesis
    using assms(1,19) by (auto simp: consume_surface_dirty_rect_def Let_def inside_clamp clear_dirty_def)
qed

lemma plain_rects_tight: "tight_unite plain_rects"
proof -
  have "inside b x y" if sub: "\<And>x y. inside r x y \<or> inside s x y \<Longrightarrow> inside b x y" and u: "inside (unite plain_rects r s) x y"
    for r s b x y
  proof (cases "rw r \<le> 0 \<or> rh r \<le> 0 \<or> rw s \<le> 0 \<or> rh s \<le> 0")
    case True
    then show ?thesis using sub [of x y] u by (auto simp: plain_rects_def split: if_splits)
  next
    case False
    have "inside r (rx r) (ry r)" "inside r (rx r + rw r - 1) (ry r + rh r - 1)"
      "inside s (rx s) (ry s)" "inside s (rx s + rw s - 1) (ry s + rh s - 1)"
      using False by (simp_all add: inside_def)
    then have "inside b (rx r) (ry r)" "inside b (rx r + rw r - 1) (ry r + rh r - 1)"
      "inside b (rx s) (ry s)" "inside b (rx s + rw s - 1) (ry s + rh s - 1)"
      using sub by blast+
    then show ?thesis using False u unfolding plain_rects_def inside_def Let_def by simp linarith
  qed
  then show ?thesis unfolding tight_unite_def by blast
qed

theorem damage_redrawn_witness:
  "inside (fst (consume_surface_dirty_rect plain_ui [plain_window 5 ''Cube'' {}] 1000 600
     (remember_surface plain_ui (small_surface 5) (replicate kMaxSurfaceCache empty_entry)))) 111 145"
proof -
  let ?c = "replicate kMaxSurfaceCache empty_entry"
  let ?c' = "remember_surface plain_ui (small_surface 5) ?c"
  have laws: "rect_laws (rects plain_ui)" "tight_unite (rects plain_ui)"
    using plain_rects_laws plain_rects_tight by (simp_all add: plain_ui_def)
  have "has_room ?c" by (auto simp: has_room_def empty_entry_def kMaxSurfaceCache_def intro!: exI [of _ 0])
  then have room: "room_for plain_ui [small_surface 5] ?c"
    by (simp add: fits_cache_def small_surface_def)
  have e: "entry_of ?c' 5 = Some (committed_entry plain_ui (small_surface 5) (?c ! entry_for ?c 5))"
    using remember_ok(2) [OF no_surfaces_ok, of "small_surface 5" plain_ui] by (simp add: small_surface_def)
  show ?thesis
    using damage_redrawn [OF laws no_surfaces_ok _ _ room, of "small_surface 5" 10 5 "plain_window 5 ''Cube'' {}"
        "[plain_window 5 ''Cube'' {}]" _ 1000 600] e
    by (simp add: small_damage_def empty_entry_def small_commit_def small_region_def small_surface_def no_surface_def
        commit_damages_def in_region_def plain_window_def is_window_visible_def on_screen_def kBorder_def
        kTitleBarHeight_def split_beta)
qed

end
