(* ===== verification/Compositor_Backend.thy ===== *)
theory Compositor_Backend
  imports Flip_Backend
begin

text \<open>
  The back ends of the compositor, \<open>src/graphics-compositor/src/backend.hpp\<close> and
  \<open>backend.cpp\<close>: the interface \<open>CompositorBackend\<close> with what the event loop relies on, the software
  and virtio-gpu back ends, which draw into the framebuffer at once, the flip back end as a
  back end, and the choice between them.
\<close>

section \<open>The interface\<close>

text \<open>The virtual functions the event loop calls; the scene is the canvas with the given index.\<close>

record ('s, 'c) backend =
  drawsScene :: bool
  presentFull :: "canvases \<Rightarrow> nat \<Rightarrow> cursor_state \<Rightarrow> 'c cursor_image \<Rightarrow> 's \<Rightarrow> gfx_error + 's"
  presentRect :: "canvases \<Rightarrow> nat \<Rightarrow> rect \<Rightarrow> cursor_state \<Rightarrow> 'c cursor_image \<Rightarrow> 's \<Rightarrow> gfx_error + 's"
  presentCursorMove :: "canvases \<Rightarrow> nat \<Rightarrow> cursor_state \<Rightarrow> cursor_state \<Rightarrow> 'c cursor_image \<Rightarrow> 's \<Rightarrow> gfx_error + 's"
  commit :: "canvases \<Rightarrow> 's \<Rightarrow> gfx_error + 's"

text \<open>A screen shows a scene with the pointer over it.\<close>

definition shows_picture ::
  "'c color_ops \<Rightarrow> int \<Rightarrow> int \<Rightarrow> raster \<Rightarrow> cursor_state \<Rightarrow> 'c cursor_image \<Rightarrow> raster \<Rightarrow> bool" where
  "shows_picture C w h scene c img screen \<longleftrightarrow>
     (\<forall>x y. on_screen w h x y \<longrightarrow> at_px screen x y = picture C scene c img x y)"

text \<open>The canvas differs from the one before only inside a rectangle.\<close>

definition redrawn_in :: "int \<Rightarrow> int \<Rightarrow> rect \<Rightarrow> raster \<Rightarrow> raster \<Rightarrow> bool" where
  "redrawn_in w h r old new \<longleftrightarrow>
     (\<forall>x y. on_screen w h x y \<and> \<not> inside r x y \<longrightarrow> at_px new x y = at_px old x y)"

text \<open>
  What a back end promises: whatever was presented, the screen shows it after \<open>commit\<close>.
  \<open>ready canv k c s\<close>: canvas \<open>k\<close> with the pointer at \<open>c\<close> is what it will show; \<open>usable\<close>: it can be
  presented to.
\<close>

locale compositor_backend =
  fixes B :: "('s, 'c) backend" and C :: "'c color_ops" and w h :: int and img :: "'c cursor_image"
    and usable :: "canvases \<Rightarrow> 's \<Rightarrow> bool" and ready :: "canvases \<Rightarrow> nat \<Rightarrow> cursor_state \<Rightarrow> 's \<Rightarrow> bool"
    and screen :: "'s \<Rightarrow> raster"
  assumes full_ready: "usable canv s \<Longrightarrow> fits w h scene \<Longrightarrow>
      \<exists>s'. presentFull B (canv(k := scene)) k c img s = Inr s' \<and> ready (canv(k := scene)) k c s'"
    and rect_ready: "ready canv k c s \<Longrightarrow> fits w h scene \<Longrightarrow> redrawn_in w h r (canv k) scene \<Longrightarrow>
      \<exists>s'. presentRect B (canv(k := scene)) k r c img s = Inr s' \<and> ready (canv(k := scene)) k c s'"
    and move_ready: "ready canv k old s \<Longrightarrow>
      \<exists>s'. presentCursorMove B canv k old new img s = Inr s' \<and> ready canv k new s'"
    and commit_ready: "ready canv k c s \<Longrightarrow>
      \<exists>s'. commit B canv s = Inr s' \<and> ready canv k c s' \<and> shows_picture C w h (canv k) c img (screen s')"
    and ready_usable: "ready canv k c s \<Longrightarrow> usable canv s"
    and ready_fits: "ready canv k c s \<Longrightarrow> fits w h (canv k)"
begin

text \<open>Pointer moves in a row.\<close>

fun moves :: "canvases \<Rightarrow> nat \<Rightarrow> cursor_state \<Rightarrow> cursor_state list \<Rightarrow> 's \<Rightarrow> gfx_error + 's" where
  "moves canv k c [] s = Inr s"
| "moves canv k c (c' # cs) s = seqE (presentCursorMove B canv k c c' img s) (moves canv k c' cs)"

lemma moves_ready:
  "ready canv k c s \<Longrightarrow> \<exists>s'. moves canv k c cs s = Inr s' \<and> ready canv k (last (c # cs)) s'"
proof (induction cs arbitrary: c s)
  case (Cons c' cs)
  then obtain s' where "presentCursorMove B canv k c c' img s = Inr s'" "ready canv k c' s'"
    using move_ready by blast
  then show ?case using Cons.IH [of c' s'] by auto
qed simp

end

section \<open>The software back end\<close>

text \<open>Its state: the framebuffer, and the rectangles flushed.\<close>

type_synonym framebuffer = "raster \<times> rect list"

definition software_draw ::
  "rect_ops \<Rightarrow> 'c color_ops \<Rightarrow> raster \<Rightarrow> rect option \<Rightarrow> cursor_state \<Rightarrow> 'c cursor_image \<Rightarrow> framebuffer \<Rightarrow>
   gfx_error + framebuffer" where
  "software_draw U C scene part c img = (\<lambda>(t, log).
     seqE (case part of None \<Rightarrow> present_to_framebuffer scene t | Some r \<Rightarrow> present_rect_to_framebuffer U scene r t) (\<lambda>(t, rs).
     seqE (present_cursor_move U C scene c c img t) (\<lambda>(t, rs'). Inr (t, log @ rs @ rs'))))"

definition software_backend :: "rect_ops \<Rightarrow> 'c color_ops \<Rightarrow> (framebuffer, 'c) backend" where
  "software_backend U C =
     \<lparr>drawsScene = False,
      presentFull = (\<lambda>canv k c img s. software_draw U C (canv k) None c img s),
      presentRect = (\<lambda>canv k r c img s. software_draw U C (canv k) (Some r) c img s),
      presentCursorMove = (\<lambda>canv k old new img (t, log).
        seqE (present_cursor_move U C (canv k) old new img t) (\<lambda>(t, rs). Inr (t, log @ rs))),
      commit = (\<lambda>canv s. Inr s)\<rparr>"

text \<open>The virtio-gpu back end presents like the software one; what it knows of the device:\<close>

record vgpu =
  haveVirgl :: bool
  haveVenus :: bool
  capsetCount :: nat

definition kMaxCapsetProbe :: nat where "kMaxCapsetProbe = 16"

text \<open>\<open>capset i\<close>: the id of a capability set of the device, or that the call failed.\<close>

fun probe_loop :: "(nat \<Rightarrow> nat option) \<Rightarrow> nat list \<Rightarrow> vgpu \<Rightarrow> vgpu" where
  "probe_loop capset [] v = v"
| "probe_loop capset (i # is) v =
     (case capset i of
        None \<Rightarrow> v
      | Some c \<Rightarrow>
          let v = v\<lparr>capsetCount := capsetCount v + 1\<rparr>
          in probe_loop capset is
               (if c = 1 \<or> c = 2 then v\<lparr>haveVirgl := True\<rparr> else if c = 4 then v\<lparr>haveVenus := True\<rparr> else v))"

definition vgpu_probe :: "(nat \<Rightarrow> nat option) \<Rightarrow> bool \<times> vgpu" where
  "vgpu_probe capset =
     (let v = probe_loop capset [0..<kMaxCapsetProbe] \<lparr>haveVirgl = False, haveVenus = False, capsetCount = 0\<rparr>
      in (0 < capsetCount v, v))"

definition vgpu_backend :: "rect_ops \<Rightarrow> 'c color_ops \<Rightarrow> (framebuffer, 'c) backend" where
  "vgpu_backend U C = software_backend U C"

section \<open>The flip back end\<close>

definition flip_backend :: "rect_ops \<Rightarrow> 'c color_ops \<Rightarrow> display_env \<Rightarrow> ('c flip, 'c) backend" where
  "flip_backend U C env =
     \<lparr>drawsScene = False,
      presentFull = flip_presentFull U C,
      presentRect = flip_presentRect U C,
      presentCursorMove = flip_presentCursorMove U C,
      commit = flip_commit U C env\<rparr>"

section \<open>Both keep the promise\<close>

definition drawing_laws :: "rect_ops \<Rightarrow> 'c color_ops \<Rightarrow> 'c cursor_image \<Rightarrow> bool" where
  "drawing_laws U C img \<longleftrightarrow> rect_laws U \<and> color_laws C \<and> good_image img"

lemma picture_redrawn:
  assumes "redrawn_in w h r old new" and "on_screen w h x y" and "\<not> inside r x y"
  shows "picture C new c img x y = picture C old c img x y"
  using assms by (simp add: redrawn_in_def picture_def)

text \<open>A framebuffer that shows the picture still does after drawing a part again, or moving the pointer.\<close>

lemma redraw_shows:
  assumes "drawing_laws U C img" and "fits w h scene" and "fits w h t"
    and "part = None \<or> (\<exists>r old. part = Some r \<and> redrawn_in w h r old scene \<and> shows_picture C w h old c img t)"
  shows "\<exists>t1 rs t2 rs'. (case part of None \<Rightarrow> present_to_framebuffer scene t
      | Some r \<Rightarrow> present_rect_to_framebuffer U scene r t) = Inr (t1, rs) \<and>
    present_cursor_move U C scene c c img t1 = Inr (t2, rs') \<and> fits w h t2 \<and> shows_picture C w h scene c img t2"
proof -
  have laws: "rect_laws U" "color_laws C" "good_image img" using assms(1) by (simp_all add: drawing_laws_def)
  have part: "case part of None \<Rightarrow> True | Some r \<Rightarrow> inside r x y \<or> at_px t x y = picture C scene c img x y"
    if on: "on_screen w h x y" for x y
  proof (cases part)
    case (Some r)
    then obtain old where old: "redrawn_in w h r old scene" "shows_picture C w h old c img t" using assms(4) by blast
    then have "at_px t x y = picture C scene c img x y" if "\<not> inside r x y"
      using picture_redrawn [OF old(1) on that, of C c img] on by (simp add: shows_picture_def)
    then show ?thesis using Some by auto
  qed simp
  obtain t1 rs t2 rs' where "(case part of None \<Rightarrow> present_to_framebuffer scene t
      | Some r \<Rightarrow> present_rect_to_framebuffer U scene r t) = Inr (t1, rs)"
    "present_cursor_move U C scene c c img t1 = Inr (t2, rs')" "fits w h t2"
    "\<forall>x y. on_screen w h x y \<longrightarrow>
       (case part of None \<Rightarrow> True | Some r \<Rightarrow> inside r x y \<or> at_px t x y = picture C scene c img x y) \<longrightarrow>
       at_px t2 x y = picture C scene c img x y"
    using drawing_shows [OF laws assms(2,3), of part c] by blast
  then show ?thesis using part unfolding shows_picture_def by blast
qed

lemma move_shows:
  assumes "drawing_laws U C img" and "fits w h scene" and "fits w h t" and "shows_picture C w h scene old img t"
  shows "\<exists>t' rs. present_cursor_move U C scene old new img t = Inr (t', rs) \<and> fits w h t' \<and>
    shows_picture C w h scene new img t'"
proof -
  have laws: "rect_laws U" "color_laws C" "good_image img" using assms(1) by (simp_all add: drawing_laws_def)
  let ?u = "unite U (cursor_rect old img) (cursor_rect new img)"
  obtain t' rs where t': "present_cursor_move U C scene old new img t = Inr (t', rs)"
    "shows_at (picture C scene new img) (inside ?u) w h t t'"
    using cursor_move_shows [OF laws(1,3) assms(2,3)] by blast
  have "at_px t' x y = picture C scene new img x y" if on: "on_screen w h x y" for x y
  proof (cases "inside ?u x y")
    case True
    then show ?thesis using t'(2) on by (simp add: shows_at_def)
  next
    case False
    then have "\<not> inside (cursor_rect old img) x y" "\<not> inside (cursor_rect new img) x y"
      using unite_covers [OF laws(1)] by blast+
    then show ?thesis
      using t'(2) on False assms(4) picture_outside [OF laws(2)] by (simp add: shows_at_def shows_picture_def)
  qed
  then show ?thesis using t'(1) shows_fits [OF t'(2)] by (auto simp: shows_picture_def)
qed

definition software_usable ::
  "rect_ops \<Rightarrow> 'c color_ops \<Rightarrow> int \<Rightarrow> int \<Rightarrow> 'c cursor_image \<Rightarrow> canvases \<Rightarrow> framebuffer \<Rightarrow> bool" where
  "software_usable U C w h img canv s \<longleftrightarrow> drawing_laws U C img \<and> fits w h (fst s)"

definition software_ready ::
  "rect_ops \<Rightarrow> 'c color_ops \<Rightarrow> int \<Rightarrow> int \<Rightarrow> 'c cursor_image \<Rightarrow> canvases \<Rightarrow> nat \<Rightarrow> cursor_state \<Rightarrow> framebuffer \<Rightarrow> bool" where
  "software_ready U C w h img canv k c s \<longleftrightarrow> software_usable U C w h img canv s \<and> fits w h (canv k) \<and>
     shows_picture C w h (canv k) c img (fst s)"

lemma software_draw_ready:
  assumes "software_usable U C w h img canv s" and "fits w h (canv' k)"
    and "part = None \<or> (\<exists>r old. part = Some r \<and> redrawn_in w h r old (canv' k) \<and> shows_picture C w h old c img (fst s))"
  shows "\<exists>s'. software_draw U C (canv' k) part c img s = Inr s' \<and> software_ready U C w h img canv' k c s'"
proof -
  obtain t log where [simp]: "s = (t, log)" by (cases s)
  have "drawing_laws U C img" "fits w h t" using assms(1) by (simp_all add: software_usable_def)
  then show ?thesis
    using redraw_shows [of U C img w h "canv' k" t part c] assms(2,3)
    by (auto simp: software_draw_def software_ready_def software_usable_def)
qed

interpretation software: compositor_backend "software_backend U C" C w h img
  "software_usable U C w h img" "software_ready U C w h img" fst for U C w h img
proof
  fix canv s scene k c
  assume "software_usable U C w h img canv s" "fits w h scene"
  then show "\<exists>s'. presentFull (software_backend U C) (canv(k := scene)) k c img s = Inr s' \<and>
      software_ready U C w h img (canv(k := scene)) k c s'"
    using software_draw_ready [of U C w h img canv s "canv(k := scene)" k None c] by (simp add: software_backend_def)
next
  fix canv k c s scene r
  assume "software_ready U C w h img canv k c s" "fits w h scene" "redrawn_in w h r (canv k) scene"
  then show "\<exists>s'. presentRect (software_backend U C) (canv(k := scene)) k r c img s = Inr s' \<and>
      software_ready U C w h img (canv(k := scene)) k c s'"
    using software_draw_ready [of U C w h img canv s "canv(k := scene)" k "Some r" c]
    by (auto simp: software_backend_def software_ready_def)
next
  fix canv k old new s
  assume r: "software_ready U C w h img canv k old s"
  obtain t log where [simp]: "s = (t, log)" by (cases s)
  show "\<exists>s'. presentCursorMove (software_backend U C) canv k old new img s = Inr s' \<and>
      software_ready U C w h img canv k new s'"
    using r move_shows [of U C img w h "canv k" t old new]
    by (auto simp: software_backend_def software_ready_def software_usable_def)
qed (auto simp: software_backend_def software_ready_def)

definition flip_usable ::
  "rect_ops \<Rightarrow> 'c color_ops \<Rightarrow> int \<Rightarrow> int \<Rightarrow> 'c cursor_image \<Rightarrow> canvases \<Rightarrow> 'c flip \<Rightarrow> bool" where
  "flip_usable U C w h img canv s \<longleftrightarrow> drawing_laws U C img \<and> flip_ok w h (canv, s)"

definition flip_shown :: "'c flip \<Rightarrow> raster" where
  "flip_shown s = (if failed s then target s else bufs s ! front s)"

definition flip_ready ::
  "rect_ops \<Rightarrow> 'c color_ops \<Rightarrow> int \<Rightarrow> int \<Rightarrow> 'c cursor_image \<Rightarrow> canvases \<Rightarrow> nat \<Rightarrow> cursor_state \<Rightarrow> 'c flip \<Rightarrow> bool" where
  "flip_ready U C w h img canv k c s \<longleftrightarrow> flip_usable U C w h img canv s \<and> fits w h (canv k) \<and>
     (failed s \<or> sceneOf s = Some k \<and> cursor s = c \<and> cursorImg s = Some img) \<and>
     (\<not> failed s \<and> pending s \<or> shows_picture C w h (canv k) c img (flip_shown s))"

lemma flip_noted:
  assumes "flip_usable U C w h img canv' (note_change U k r c img s)" and "fits w h (canv' k)" and "\<not> failed s"
  shows "flip_ready U C w h img canv' k c (note_change U k r c img s)"
  using assms by (simp add: flip_ready_def note_change_def)

lemma flip_drawn:
  assumes "flip_usable U C w h img canv s" and "failed s" and "fits w h (canv' k)" and "\<forall>j. j \<noteq> k \<longrightarrow> canv' j = canv j"
    and "part = None \<or> (\<exists>r old. part = Some r \<and> redrawn_in w h r old (canv' k) \<and> shows_picture C w h old c img (target s))"
  shows "\<exists>s'. draw_target U C (canv' k) part c img s = Inr s' \<and> flip_ready U C w h img canv' k c s'"
proof -
  have s: "drawing_laws U C img" "fits w h (target s)" "flip_ok w h (canv, s)"
    using assms(1) by (simp_all add: flip_usable_def flip_ok_def)
  obtain t rs where t: "draw_target U C (canv' k) part c img s = Inr (flushed rs (s\<lparr>target := t\<rparr>))" "fits w h t"
    "shows_picture C w h (canv' k) c img t"
    using redraw_shows [OF s(1) assms(3) s(2) assms(5)] by (auto simp: draw_target_def)
  have "fits w h (canv' j)" if "sceneOf s = Some j" for j
    using s(3) assms(3,4) that by (cases "j = k") (simp_all add: flip_ok_def)
  then have "flip_ok w h (canv', flushed rs (s\<lparr>target := t\<rparr>))"
    using drawn_target_ok [OF s(3) assms(2) t(2)] by blast
  then show ?thesis
    using t s(1) assms(2,3) by (auto simp: flip_ready_def flip_usable_def flip_shown_def flushed_def)
qed

text \<open>What \<open>commit\<close> leaves alone.\<close>

lemma fall_back_keeps:
  "fall_back U C env canv s = Inr s' \<Longrightarrow> sceneOf s' = sceneOf s \<and> cursor s' = cursor s \<and> cursorImg s' = cursorImg s \<and> failed s'"
  by (auto simp: fall_back_def draw_target_def display_def flushed_def seqE_eq_Inr Let_def split: option.splits)

lemma flip_commit_keeps:
  assumes "flip_commit U C env canv s = Inr s'" and "pending s" and "\<not> failed s"
  shows "sceneOf s' = sceneOf s" and "cursor s' = cursor s" and "cursorImg s' = cursorImg s"
proof -
  let ?behind = "if front s = 0 then 1 else 0 :: nat"
  let ?s = "s\<lparr>pending := False, dcalls := dcalls s @ [Wait kWaitMs]\<rparr>"
  have c: "flip_commit U C env canv s =
      (if env (dcalls s) (Wait kWaitMs) = Refused then fall_back U C env canv ?s
       else case (sceneOf s, cursorImg s) of
              (Some k, Some img) \<Rightarrow> seqE (update_back U C (canv k) img ?behind ?s) (\<lambda>s.
                if env (dcalls s) (Flip ?behind) = Refused
                then fall_back U C env canv (s\<lparr>dcalls := dcalls s @ [Flip ?behind]\<rparr>)
                else Inr (s\<lparr>dcalls := dcalls s @ [Flip ?behind], front := ?behind\<rparr>))
            | _ \<Rightarrow> Inl NullPointer)"
    using assms(2,3)
    by (simp add: flip_commit_def display_def Let_def split: display_reply.split option.split)
      (auto intro!: arg_cong2 [where f = seqE] split: display_reply.split)
  have "sceneOf s' = sceneOf s \<and> cursor s' = cursor s \<and> cursorImg s' = cursorImg s"
    using assms(1) unfolding c
    by (auto simp: seqE_eq_Inr update_back_def flushed_def Let_def dest!: fall_back_keeps split: if_splits option.splits)
  then show "sceneOf s' = sceneOf s" "cursor s' = cursor s" "cursorImg s' = cursorImg s" by auto
qed

interpretation flipping: compositor_backend "flip_backend U C env" C w h img
  "flip_usable U C w h img" "flip_ready U C w h img" flip_shown for U C env w h img
proof
  fix canv s scene k c
  assume u: "flip_usable U C w h img canv s" and f: "fits w h scene"
  then have s: "rect_laws U" "color_laws C" "good_image img" "flip_ok w h (canv, s)"
    by (simp_all add: flip_usable_def drawing_laws_def)
  show "\<exists>s'. presentFull (flip_backend U C env) (canv(k := scene)) k c img s = Inr s' \<and>
      flip_ready U C w h img (canv(k := scene)) k c s'"
  proof (cases "failed s")
    case True
    then show ?thesis
      using flip_drawn [OF u True, of "canv(k := scene)" k None c] f by (simp add: flip_backend_def flip_presentFull_def)
  next
    case False
    let ?s = "note_change U k (flip_screen s) c img s"
    have p: "flip_presentFull U C (canv(k := scene)) k c img s = Inr ?s" using False by (simp add: flip_presentFull_def)
    have "flip_ok w h (canv(k := scene), ?s)"
      using flip_step_ok [OF flip_step.full [OF f s(3) p] s(1,2,4)] .
    then show ?thesis
      using p f s u False flip_noted [of U C w h img "canv(k := scene)" k "flip_screen s" c s]
      by (simp add: flip_backend_def flip_usable_def)
  qed
next
  fix canv k c s scene r
  assume rd: "flip_ready U C w h img canv k c s" and f: "fits w h scene" and d: "redrawn_in w h r (canv k) scene"
  have u: "flip_usable U C w h img canv s" using rd by (simp add: flip_ready_def)
  then have s: "rect_laws U" "color_laws C" "good_image img" "flip_ok w h (canv, s)"
    by (simp_all add: flip_usable_def drawing_laws_def)
  show "\<exists>s'. presentRect (flip_backend U C env) (canv(k := scene)) k r c img s = Inr s' \<and>
      flip_ready U C w h img (canv(k := scene)) k c s'"
  proof (cases "failed s")
    case True
    then have "shows_picture C w h (canv k) c img (target s)" using rd by (simp add: flip_ready_def flip_shown_def)
    then show ?thesis
      using flip_drawn [OF u True, of "canv(k := scene)" k "Some r" c] f d True
      by (auto simp: flip_backend_def flip_presentRect_def)
  next
    case False
    let ?s = "note_change U k r c img s"
    have p: "flip_presentRect U C (canv(k := scene)) k r c img s = Inr ?s" using False by (simp add: flip_presentRect_def)
    have scene: "sceneOf s = Some k" using rd False by (simp add: flip_ready_def)
    have "flip_ok w h (canv(k := scene), ?s)"
      using flip_step_ok [OF flip_step.part [OF scene f s(3) _ p] s(1,2,4)] d by (auto simp: redrawn_in_def)
    then show ?thesis
      using p f s u False flip_noted [of U C w h img "canv(k := scene)" k r c s]
      by (simp add: flip_backend_def flip_usable_def)
  qed
next
  fix canv k old new s
  assume rd: "flip_ready U C w h img canv k old s"
  have u: "flip_usable U C w h img canv s" "fits w h (canv k)" using rd by (simp_all add: flip_ready_def)
  then have s: "rect_laws U" "color_laws C" "good_image img" "flip_ok w h (canv, s)" "drawing_laws U C img" "fits w h (target s)"
    by (simp_all add: flip_usable_def drawing_laws_def flip_ok_def)
  show "\<exists>s'. presentCursorMove (flip_backend U C env) canv k old new img s = Inr s' \<and> flip_ready U C w h img canv k new s'"
  proof (cases "failed s")
    case True
    then have "shows_picture C w h (canv k) old img (target s)" using rd by (simp add: flip_ready_def flip_shown_def)
    from move_shows [OF s(5) u(2) s(6) this, of new]
    obtain t rs where t: "present_cursor_move U C (canv k) old new img (target s) = Inr (t, rs)" "fits w h t"
      "shows_picture C w h (canv k) new img t" by blast
    have "fits w h (canv j)" if "sceneOf s = Some j" for j using s(4) that by (simp add: flip_ok_def)
    then have "flip_ok w h (canv, flushed rs (s\<lparr>target := t\<rparr>))"
      by (rule drawn_target_ok [OF s(4) True t(2)])
    moreover have "failed (flushed rs (s\<lparr>target := t\<rparr>))" "target (flushed rs (s\<lparr>target := t\<rparr>)) = t"
      using True by (simp_all add: flushed_def)
    ultimately have "flip_ready U C w h img canv k new (flushed rs (s\<lparr>target := t\<rparr>))"
      using t(3) u(2) s(5) by (simp add: flip_ready_def flip_usable_def flip_shown_def)
    then show ?thesis
      using t(1) True by (simp add: flip_backend_def flip_presentCursorMove_def)
  next
    case False
    let ?s = "note_change U k no_rect new img s"
    have p: "flip_presentCursorMove U C canv k old new img s = Inr ?s" using False by (simp add: flip_presentCursorMove_def)
    have scene: "sceneOf s = Some k" using rd False by (simp add: flip_ready_def)
    have "flip_ok w h (canv, ?s)"
      using flip_step_ok [OF flip_step.move [OF scene s(3) p] s(1,2,4)] .
    then show ?thesis
      using p u s False flip_noted [of U C w h img canv k no_rect new s]
      by (simp add: flip_backend_def flip_usable_def)
  qed
next
  fix canv k c s
  assume rd: "flip_ready U C w h img canv k c s"
  have u: "flip_usable U C w h img canv s" "fits w h (canv k)" using rd by (simp_all add: flip_ready_def)
  then have s: "rect_laws U" "color_laws C" "flip_ok w h (canv, s)" "drawing_laws U C img"
    by (simp_all add: flip_usable_def drawing_laws_def)
  show "\<exists>s'. commit (flip_backend U C env) canv s = Inr s' \<and> flip_ready U C w h img canv k c s' \<and>
      shows_picture C w h (canv k) c img (flip_shown s')"
  proof (cases "\<not> failed s \<and> pending s")
    case True
    then have st: "sceneOf s = Some k" "cursor s = c" "cursorImg s = Some img" using rd by (simp_all add: flip_ready_def)
    obtain s' where s': "flip_commit U C env canv s = Inr s'" "flip_ok w h (canv, s')" "committed C w h (canv k) img s s'"
      using commit_shows [OF s(1-3), of env] True st by auto
    have shown: "shows_picture C w h (canv k) c img (flip_shown s')"
      using s'(3) st(2) by (simp add: committed_def shows_picture_def flip_shown_def Let_def)
    have "sceneOf s' = Some k" "cursor s' = c" "cursorImg s' = Some img"
      using flip_commit_keeps [OF s'(1)] True st by auto
    then show ?thesis
      using s' shown s(4) u(2) by (auto simp: flip_backend_def flip_ready_def flip_usable_def)
  next
    case False
    then show ?thesis using rd by (auto simp: flip_backend_def flip_commit_def flip_ready_def)
  qed
qed (simp_all add: flip_ready_def)

section \<open>The choice\<close>

datatype backend_kind = SoftwareKind | VgpuKind | FlipKind | GlKind

definition arg_selects_backend :: "string list \<Rightarrow> string \<Rightarrow> bool" where
  "arg_selects_backend args wanted = (\<exists>arg\<in>set (drop 1 args). arg = ''--backend='' @ wanted)"

text \<open>
  The first 31 bytes of \<open>/display.cfg\<close>, if it can be read: \<open>strncmp\<close> with the word, and what comes
  after it.
\<close>

definition config_selects :: "string option \<Rightarrow> string \<Rightarrow> bool" where
  "config_selects file wanted =
     (case file of
        None \<Rightarrow> False
      | Some content \<Rightarrow>
          let got = take 31 content
          in take (length wanted) got = wanted \<and>
             (length got = length wanted \<or> got ! length wanted \<in> {char_of (0 :: nat), char_of (10 :: nat), char_of (13 :: nat), CHR '' ''}))"

text \<open>
  \<open>gl\<close>: whether the OpenGL back end starts, given that it is forced, and initializes; absent when
  it is not built in. The result is the kind chosen and the flip back end's state.
\<close>

definition compositor_backend_select ::
  "display_env \<Rightarrow> (bool \<Rightarrow> bool) option \<Rightarrow> bool \<Rightarrow> (nat \<Rightarrow> nat option) \<Rightarrow> string list \<Rightarrow> string option \<Rightarrow> raster \<Rightarrow> 'c flip \<Rightarrow>
   backend_kind \<times> 'c flip" where
  "compositor_backend_select env glStart glInit capset args cfg t flip =
     (let forceSoftware = (arg_selects_backend args ''software'' \<or> config_selects cfg ''software'');
          forceVgpu = arg_selects_backend args ''vgpu'';
          forceFlip = (arg_selects_backend args ''flip'' \<or> config_selects cfg ''flip'');
          vgpuUsable = fst (vgpu_probe capset);
          gl = (case glStart of
                  None \<Rightarrow> False
                | Some go \<Rightarrow>
                    let forceGl = (arg_selects_backend args ''gl'' \<or> config_selects cfg ''gl'')
                    in \<not> forceSoftware \<and> \<not> forceVgpu \<and> \<not> forceFlip \<and> go forceGl);
          (chosen, flip) =
            (if gl then (GlKind, flip)
             else if forceSoftware then (SoftwareKind, flip)
             else if \<not> forceVgpu
             then (case flip_acquire env forceFlip flip of
                     (True, flip) \<Rightarrow> (FlipKind, flip)
                   | (False, flip) \<Rightarrow> (SoftwareKind, flip))
             else if vgpuUsable then (VgpuKind, flip) else (SoftwareKind, flip))
      in case chosen of
           FlipKind \<Rightarrow> (case flip_initialize env t flip of
                (True, flip) \<Rightarrow> (FlipKind, flip)
              | (False, flip) \<Rightarrow> (SoftwareKind, flip))
         | GlKind \<Rightarrow> (if glInit then GlKind else SoftwareKind, flip)
         | kind \<Rightarrow> (kind, flip))"

end
