(* ===== verification/Compositor_Input.thy ===== *)
theory Compositor_Input
  imports Compositor_Windows
begin

text \<open>
  Pointer input of the compositor, \<open>src/graphics-compositor/src/input.cpp\<close>: which window gets an
  event, moving and resizing windows, the controls of a window and the taskbar, and what is under
  the pointer.
\<close>

section \<open>State\<close>

record drag_state =
  dragWindow :: nat
  moving :: bool
  resizing :: bool
  grabOffsetX :: int
  grabOffsetY :: int
  anchorX :: int
  anchorY :: int
  startWidth :: int
  startHeight :: int

text \<open>The globals \<open>gTaskbarHover\<close> and \<open>gWindowHover\<close> are part of the state.\<close>

record pointer_state =
  drag :: drag_state
  buttons :: "16 word"
  grabWindow :: nat
  hoverWindow :: nat
  hoverControl :: int
  tileHover :: int
  ccalls :: "comp_call list"

definition no_drag :: drag_state where
  "no_drag = \<lparr>dragWindow = 0, moving = False, resizing = False, grabOffsetX = 0, grabOffsetY = 0, anchorX = 0,
     anchorY = 0, startWidth = 0, startHeight = 0\<rparr>"

definition new_pointer :: pointer_state where
  "new_pointer = \<lparr>drag = no_drag, buttons = 0, grabWindow = 0, hoverWindow = 0, hoverControl = 0, tileHover = -1,
     ccalls = []\<rparr>"

text \<open>The code ignores the result of some calls; a call may succeed or fail.\<close>

definition ask_comp :: "comp_env \<Rightarrow> comp_call \<Rightarrow> pointer_state \<Rightarrow> bool \<times> pointer_state" where
  "ask_comp env c s = (env (ccalls s) c, s\<lparr>ccalls := ccalls s @ [c]\<rparr>)"

definition tell_comp :: "comp_call list \<Rightarrow> pointer_state \<Rightarrow> pointer_state" where
  "tell_comp cs s = s\<lparr>ccalls := ccalls s @ cs\<rparr>"

definition left_down :: "16 word \<Rightarrow> bool" where
  "left_down b \<longleftrightarrow> b AND 1 \<noteq> 0"

section \<open>Input for the windows\<close>

text \<open>The event in the window's own coordinates.\<close>

definition local_event :: "window_info \<Rightarrow> pointer_event \<Rightarrow> pointer_event" where
  "local_event w ev = ev\<lparr>pex := pex ev - (wx w + kBorder), pey := pey ev - (wy w + kTitleBarHeight)\<rparr>"

definition route_pointer_to_window ::
  "ui_ops \<Rightarrow> int \<Rightarrow> int \<Rightarrow> window_info list \<Rightarrow> pointer_event \<Rightarrow> pointer_state \<Rightarrow> pointer_state" where
  "route_pointer_to_window U sw sh ws ev s =
     (if moving (drag s) \<or> resizing (drag s) then s
      else
        let target = (if grabWindow s \<noteq> 0 then window_by_id ws (grabWindow s) else None);
            s = (if target = None then s\<lparr>grabWindow := 0\<rparr> else s);
            found = (case target of
              Some w \<Rightarrow> Some w
            | None \<Rightarrow>
                if taskbar_hit U (taskbar_layout sw sh ws) (pex ev) (pey ev) \<noteq> HitNone then None
                else case top_window_at U ws (pex ev) (pey ev) of
                       Some over \<Rightarrow> if contains (rects U) (content_rect over) (pex ev) (pey ev) then Some over else None
                     | None \<Rightarrow> None)
        in case found of
             None \<Rightarrow> s
           | Some w \<Rightarrow>
               let s = (if paction ev = ButtonAction
                     then s\<lparr>grabWindow := (if pbuttons ev \<noteq> 0 then wid w else 0)\<rparr> else s)
               in tell_comp [PostPointer (wid w) (local_event w ev)] s)"

section \<open>What is under the pointer\<close>

definition tile_rect_at :: "taskbar \<Rightarrow> int \<Rightarrow> rect" where
  "tile_rect_at l k = trect (tiles l ! nat k)"

definition update_control_hover ::
  "ui_ops \<Rightarrow> int \<Rightarrow> int \<Rightarrow> window_info list \<Rightarrow> pointer_event \<Rightarrow> pointer_state \<times> rect \<Rightarrow> pointer_state \<times> rect" where
  "update_control_hover U sw sh ws ev = (\<lambda>(s, dirty).
     let l = taskbar_layout sw sh ws;
         hit = taskbar_hit U l (pex ev) (pey ev);
         still = (\<not> moving (drag s) \<and> \<not> resizing (drag s));
         tile = (case hit of HitTile k \<Rightarrow> if still then int k else -1 | _ \<Rightarrow> -1);
         join = unite (rects U);
         (s, dirty) =
           (if tile \<noteq> tileHover s
            then let dirty = join (join dirty (taskbar_tooltip_rect U l (tileHover s) ws)) (taskbar_tooltip_rect U l tile ws);
                     dirty = (if 0 \<le> tileHover s \<and> tileHover s < int (length (tiles l))
                       then join dirty (tile_rect_at l (tileHover s)) else dirty);
                     dirty = (if 0 \<le> tile then join dirty (tile_rect_at l tile) else dirty)
                 in (s\<lparr>tileHover := tile\<rparr>, dirty)
            else (s, dirty));
         (hw, hc) =
           (if still \<and> hit = HitNone
            then case top_window_at U ws (pex ev) (pey ev) of
                   Some over \<Rightarrow> let c = window_control_at U over (pex ev) (pey ev) in if 0 \<le> c then (wid over, c) else (0, 0)
                 | None \<Rightarrow> (0, 0)
            else (0, 0))
     in if hw = hoverWindow s \<and> hc = hoverControl s then (s, dirty)
        else let dirty = (case window_by_id ws (hoverWindow s) of
                   Some w \<Rightarrow> join dirty (window_control_rect w (hoverControl s)) | None \<Rightarrow> dirty);
                 dirty = (case window_by_id ws hw of
                   Some w \<Rightarrow> join dirty (window_control_rect w hc) | None \<Rightarrow> dirty)
             in (s\<lparr>hoverWindow := hw, hoverControl := hc\<rparr>, dirty))"

section \<open>Dragging\<close>

definition begin_move :: "window_info \<Rightarrow> int \<Rightarrow> int \<Rightarrow> drag_state \<Rightarrow> drag_state" where
  "begin_move w x y d =
     d\<lparr>dragWindow := wid w, moving := True, resizing := False, grabOffsetX := x - wx w, grabOffsetY := y - wy w\<rparr>"

definition begin_resize :: "window_info \<Rightarrow> int \<Rightarrow> int \<Rightarrow> drag_state \<Rightarrow> drag_state" where
  "begin_resize w x y d =
     d\<lparr>dragWindow := wid w, moving := False, resizing := True, anchorX := x, anchorY := y,
       startWidth := wwidth w, startHeight := wheight w\<rparr>"

definition clear_drag :: "drag_state \<Rightarrow> drag_state" where
  "clear_drag d = d\<lparr>dragWindow := 0, moving := False, resizing := False\<rparr>"

text \<open>The dragged window follows the pointer; what its move or resize uncovers is repainted.\<close>

definition continue_drag ::
  "ui_ops \<Rightarrow> comp_env \<Rightarrow> window_info list \<Rightarrow> pointer_event \<Rightarrow> pointer_state \<times> rect \<Rightarrow> pointer_state \<times> rect" where
  "continue_drag U env ws ev = (\<lambda>(s, dirty).
     let d = drag s; before = window_by_id ws (dragWindow d) in
     if moving d \<and> left_down (pbuttons ev)
     then let newX = pex ev - grabOffsetX d; newY = pey ev - grabOffsetY d
     in case before of
          None \<Rightarrow> (s, dirty)
        | Some w \<Rightarrow>
            (case ask_comp env (MoveWindow (dragWindow d) newX newY) s of
               (True, s) \<Rightarrow>
                 let oldFrame = window_damage_rect w;
                     newFrame = offset U oldFrame (newX - wx w) (newY - wy w)
                 in (s, unite (rects U) dirty (unite (rects U) oldFrame newFrame))
             | (False, s) \<Rightarrow> (s, dirty))
     else if resizing d \<and> left_down (pbuttons ev)
     then let newWidth = startWidth d + (pex ev - anchorX d); newHeight = startHeight d + (pey ev - anchorY d);
              newWidth = (if newWidth < 64 then 64 else newWidth);
              newHeight = (if newHeight < 48 then 48 else newHeight)
     in case before of
          None \<Rightarrow> (s, dirty)
        | Some w \<Rightarrow>
            (case ask_comp env (ResizeWindow (dragWindow d) newWidth newHeight) s of
               (True, s) \<Rightarrow>
                 let oldFrame = window_damage_rect w;
                     newFrame = rect_at (rx oldFrame) (ry oldFrame) (newWidth + kBorder * 2 + 2 * kShadowMargin)
                       (newHeight + kTitleBarHeight + kBorder + 2 * kShadowMargin)
                 in (s, unite (rects U) dirty (unite (rects U) oldFrame newFrame))
             | (False, s) \<Rightarrow> (s, dirty))
     else (s, dirty))"

text \<open>A press of the left button on a window: it gets the focus, and what the part pressed is for.\<close>

definition press_window :: "ui_ops \<Rightarrow> int \<Rightarrow> int \<Rightarrow> window_info \<Rightarrow> pointer_event \<Rightarrow> pointer_state \<Rightarrow> pointer_state" where
  "press_window U sw sh w ev s =
     (let x = pex ev; y = pey ev; s = tell_comp [FocusWindow (wid w)] s
      in if pointer_on_close U w x y
         then (tell_comp [ControlWindow (wid w) CloseIt] s)\<lparr>drag := clear_drag (drag s)\<rparr>
         else if pointer_on_maximize U w x y
         then let frameX = 8; frameY = 8; frameWidth = sw - 16; frameHeight = work_area_bottom sh - frameY
              in (tell_comp [ControlWindow (wid w)
                   (if Maximized \<in> wstate w then RestoreIt
                    else MaximizeIt frameX frameY (frameWidth - 2 * kBorder) (frameHeight - kTitleBarHeight - kBorder))] s)
                   \<lparr>drag := clear_drag (drag s)\<rparr>
         else if pointer_on_minimize U w x y
         then (tell_comp [ControlWindow (wid w) MinimizeIt] s)\<lparr>drag := clear_drag (drag s)\<rparr>
         else if pointer_on_resize_grip U w x y then s\<lparr>drag := begin_resize w x y (drag s)\<rparr>
         else if pointer_on_titlebar U w x y then s\<lparr>drag := begin_move w x y (drag s)\<rparr>
         else s)"

definition handle_pointer_event ::
  "ui_ops \<Rightarrow> comp_env \<Rightarrow> int \<Rightarrow> int \<Rightarrow> window_info list \<Rightarrow> pointer_event \<Rightarrow> pointer_state \<times> rect \<Rightarrow>
   bool \<times> pointer_state \<times> rect" where
  "handle_pointer_event U env sw sh ws ev sd =
     (let (s, dirty) = update_control_hover U sw sh ws ev sd;
          leftWasDown = left_down (buttons s);
          leftIsDown = left_down (pbuttons ev);
          (s, dirty) = continue_drag U env ws ev (s\<lparr>buttons := pbuttons ev\<rparr>, dirty)
      in if \<not> leftWasDown \<and> leftIsDown
         then let l = taskbar_layout sw sh ws
         in case taskbar_hit U l (pex ev) (pey ev) of
              HitTile k \<Rightarrow>
                let (changed, cs) = taskbar_click l (int k) ws
                in (changed, tell_comp cs (s\<lparr>drag := clear_drag (drag s)\<rparr>), dirty)
            | HitNone \<Rightarrow>
                (case top_window_at U ws (pex ev) (pey ev) of
                   Some w \<Rightarrow> (True, press_window U sw sh w ev s, dirty)
                 | None \<Rightarrow> (False, s, dirty))
            | _ \<Rightarrow> (False, s\<lparr>drag := clear_drag (drag s)\<rparr>, dirty)
         else (False, if leftWasDown \<and> \<not> leftIsDown then s\<lparr>drag := clear_drag (drag s)\<rparr> else s, dirty))"

end
