(* ===== verification/Compositor_Loop.thy ===== *)
theory Compositor_Loop
  imports Compositor_Backend Compositor_Surfaces Compositor_Input
begin

text \<open>
  The compositor's event loop, \<open>GraphicsCompositor\<close> in \<open>src/graphics-compositor/src/main.cpp\<close> with
  \<open>protocol.cpp\<close> and the replies of \<open>surface.cpp\<close>: one pass takes the commits, messages and window
  list there are, redraws what changed and commits it. Drawing itself is a parameter; the
  timing counters are left out. The last section is the start-up, with what it asks for and gives back.
\<close>

section \<open>State\<close>

text \<open>What the scene is drawn from.\<close>

record scene =
  scWindows :: "window_info list"
  scSurfaces :: "cache_entry list"
  scBackground :: string
  scOnline :: bool
  scTileHover :: int
  scHover :: "nat \<times> int"

record header =
  hversion :: nat
  hopcode :: nat

text \<open>A request as the service library decodes it: as a header, as each of the two requests.\<close>

record request =
  reqId :: nat
  asHeader :: "header option"
  asHello :: "header option"
  asBackground :: "(header \<times> string) option"

datatype status = StatusOk | BadVersion | BadOpcode | BadPayload

datatype reply = HelloReply status | BackgroundReply status

datatype key = KeyT | KeyF | KeyB | KeyC | KeyW | OtherKey

datatype message = PointerMessage pointer_event | KeyPress bool key | OtherEvent | Request request | OtherMessage

text \<open>
  What does not change: the library, the pointer's image, the screen, the back end, drawing all or
  a part of the scene, which wallpapers load, and the numbers of the protocol.
\<close>

record ('s, 'c) desktop =
  ui :: ui_ops
  pointerImage :: "'c cursor_image"
  screenWidth :: int
  screenHeight :: int
  backend :: "('s, 'c) backend"
  drawing :: "scene \<Rightarrow> rect option \<Rightarrow> raster \<Rightarrow> raster"
  wallpaper :: "string \<Rightarrow> bool"
  serviceVersion :: nat
  opHello :: nat
  opSetBackground :: nat
  kernel :: comp_env

record 's compositor =
  pointer :: pointer_state
  cursorAt :: cursor_state
  surfaces :: "cache_entry list"
  snapshot :: "window_info list"
  snapshotReady :: bool
  shownOnline :: bool
  wallpaperPath :: string
  nextBuffer :: nat
  sceneBuffer :: nat
  canvs :: canvases
  backState :: 's
  replies :: "(nat \<times> reply) list"

text \<open>
  What a pass finds: the commits queued at each of the three polls, the message it waits for and
  those queued after that, whether the network is up, and the two window lists.
\<close>

record pass_input =
  polled :: "nat \<Rightarrow> surface_info list"
  waited :: "message option"
  queued :: "message list"
  online :: bool
  listed :: "window_info list option"
  listedAgain :: "window_info list option"

definition kCompositorBufferCount :: nat where "kCompositorBufferCount = 3"

definition current_scene :: "bool \<Rightarrow> 's compositor \<Rightarrow> scene" where
  "current_scene on c =
     \<lparr>scWindows = snapshot c, scSurfaces = surfaces c, scBackground = wallpaperPath c, scOnline = on,
      scTileHover = tileHover (pointer c), scHover = (hoverWindow (pointer c), hoverControl (pointer c))\<rparr>"

section \<open>Windows\<close>

definition sameWindow :: "window_info \<Rightarrow> window_info \<Rightarrow> bool" where
  "sameWindow a b \<longleftrightarrow> wid a = wid b \<and> ownerPID a = ownerPID b \<and> wflags a = wflags b \<and> wstate a = wstate b \<and>
     wx a = wx b \<and> wy a = wy b \<and> wwidth a = wwidth b \<and> wheight a = wheight b \<and> surfaceID a = surfaceID b \<and>
     zOrder a = zOrder b \<and> title a = title b"

definition keepAboveTaskbar ::
  "comp_env \<Rightarrow> int \<Rightarrow> window_info \<Rightarrow> pointer_state \<Rightarrow> window_info \<times> pointer_state" where
  "keepAboveTaskbar env sh w s =
     (let bottom = work_area_bottom sh
      in if wy w + frame_height w \<le> bottom then (w, s)
         else
           let y = bottom - frame_height w;
               y = (if y < 8 then 8 else y);
               (w, s) = (if y \<noteq> wy w
                 then case ask_comp env (MoveWindow (wid w) (wx w) y) s of
                        (True, s) \<Rightarrow> (w\<lparr>wy := y\<rparr>, s) | (False, s) \<Rightarrow> (w, s)
                 else (w, s));
               room = bottom - wy w - kTitleBarHeight - kBorder
           in if room < wheight w \<and> 48 < room
              then case ask_comp env (ResizeWindow (wid w) (wwidth w) room) s of
                     (True, s) \<Rightarrow> (w\<lparr>wheight := room\<rparr>, s) | (False, s) \<Rightarrow> (w, s)
              else (w, s))"

fun logNewWindows :: "comp_env \<Rightarrow> int \<Rightarrow> window_info list \<Rightarrow> window_info list \<Rightarrow> pointer_state \<Rightarrow> window_info list \<times> pointer_state" where
  "logNewWindows env sh known [] s = ([], s)"
| "logNewWindows env sh known (w # ws) s =
     (let (w, s) = (if (\<exists>v\<in>set known. wid v = wid w) \<or> wx w < 0 \<or> wy w < 0 then (w, s)
                    else keepAboveTaskbar env sh w s);
          (ws, s) = logNewWindows env sh known ws s
      in (w # ws, s))"

definition updateWindowSnapshot ::
  "('s, 'c) desktop \<Rightarrow> window_info list option \<Rightarrow> 's compositor \<Rightarrow> bool \<times> 's compositor" where
  "updateWindowSnapshot S fetched c =
     (let current = (case fetched of Some ws \<Rightarrow> ws | None \<Rightarrow> []);
          changed = (\<not> snapshotReady c \<or> length current \<noteq> length (snapshot c) \<or>
            \<not> list_all2 sameWindow current (snapshot c));
          (current, c) = (if changed
            then let (ws, p) = logNewWindows (kernel S) (screenHeight S) (snapshot c) current (pointer c)
                 in (ws, c\<lparr>pointer := p, surfaces := forget_unshown_surfaces ws (surfaces c)\<rparr>)
            else (current, c))
      in (changed, c\<lparr>snapshot := current, snapshotReady := True\<rparr>))"

text \<open>The answers of \<open>surface_poll\<close> when some commits are queued.\<close>

definition poll_answers :: "surface_info list \<Rightarrow> nat \<Rightarrow> surface_info option" where
  "poll_answers ss n = (if n < length ss then Some (ss ! n) else None)"

definition pumpSurfaceUpdatesOnce ::
  "('s, 'c) desktop \<Rightarrow> surface_info list \<Rightarrow> 's compositor \<Rightarrow> bool \<times> 's compositor" where
  "pumpSurfaceUpdatesOnce S ss c =
     (case pump_surface_updates (ui S) (poll_answers ss) (surfaces c) of
        Some (changed, cache) \<Rightarrow> (changed, c\<lparr>surfaces := cache\<rparr>)
      | None \<Rightarrow> (False, c))"

section \<open>Messages\<close>

definition handlePointerEventMessage ::
  "('s, 'c) desktop \<Rightarrow> pointer_event \<Rightarrow> bool \<times> rect \<times> 's compositor \<Rightarrow> gfx_error + bool \<times> rect \<times> 's compositor" where
  "handlePointerEventMessage S ev = (\<lambda>(full, area, c).
     let p = route_pointer_to_window (ui S) (screenWidth S) (screenHeight S) (snapshot c) ev (pointer c);
         previous = cursorAt c;
         now = move_cursor (screenWidth S) (screenHeight S) (pex ev) (pey ev);
         (redraw, p, area) = handle_pointer_event (ui S) (kernel S) (screenWidth S) (screenHeight S) (snapshot c) ev (p, area);
         c = c\<lparr>pointer := p, cursorAt := now\<rparr>
     in if redraw then Inr (True, area, c)
        else if \<not> full \<and> previous \<noteq> now
        then seqE (presentCursorMove (backend S) (canvs c) (sceneBuffer c) previous now (pointerImage S) (backState c))
               (\<lambda>b. Inr (full, area, c\<lparr>backState := b\<rparr>))
        else Inr (full, area, c))"

definition key_program :: "key \<Rightarrow> string option" where
  "key_program k =
     (case k of
        KeyT \<Rightarrow> Some ''/bin/terminal'' | KeyF \<Rightarrow> Some ''/bin/file-browser''
      | KeyB \<Rightarrow> Some ''/bin/background-switcher'' | KeyC \<Rightarrow> Some ''/bin/cube'' | KeyW \<Rightarrow> Some ''/bin/netsurf''
      | OtherKey \<Rightarrow> None)"

definition handleKeyPress :: "bool \<Rightarrow> key \<Rightarrow> 's compositor \<Rightarrow> 's compositor" where
  "handleKeyPress superPressed k c =
     (if \<not> superPressed then c
      else case key_program k of
             Some p \<Rightarrow> c\<lparr>pointer := tell_comp [SpawnApp p] (pointer c)\<rparr> | None \<Rightarrow> c)"

definition build_hello_reply :: "('s, 'c) desktop \<Rightarrow> request \<Rightarrow> reply option" where
  "build_hello_reply S r =
     (case asHello r of
        None \<Rightarrow> None
      | Some h \<Rightarrow> Some (HelloReply
          (if hversion h \<noteq> serviceVersion S then BadVersion
           else if hopcode h \<noteq> opHello S then BadOpcode else StatusOk)))"

text \<open>The reply, the wallpaper's path and whether the scene changed.\<close>

definition build_background_reply ::
  "('s, 'c) desktop \<Rightarrow> request \<Rightarrow> string \<times> bool \<Rightarrow> (reply \<times> string \<times> bool) option" where
  "build_background_reply S r = (\<lambda>(old, sceneDirty).
     case asBackground r of
       None \<Rightarrow> None
     | Some (h, path) \<Rightarrow> Some
         (if hversion h \<noteq> serviceVersion S then (BackgroundReply BadVersion, old, sceneDirty)
          else if hopcode h \<noteq> opSetBackground S then (BackgroundReply BadOpcode, old, sceneDirty)
          else if path \<noteq> [] \<and> wallpaper S path
          then (BackgroundReply StatusOk, bounded_copy 192 path, True)
          else (BackgroundReply BadPayload, old, sceneDirty)))"

definition handleRequestMessage ::
  "('s, 'c) desktop \<Rightarrow> request \<Rightarrow> bool \<times> rect \<times> 's compositor \<Rightarrow> bool \<times> rect \<times> 's compositor" where
  "handleRequestMessage S r = (\<lambda>(full, area, c).
     case asHeader r of
       None \<Rightarrow> (full, area, c)
     | Some h \<Rightarrow>
         if hopcode h = opHello S
         then (case build_hello_reply S r of
                 None \<Rightarrow> (full, area, c)
               | Some rep \<Rightarrow> (full, area, c\<lparr>replies := replies c @ [(reqId r, rep)]\<rparr>))
         else if hopcode h = opSetBackground S
         then (case build_background_reply S r (wallpaperPath c, full) of
                 None \<Rightarrow> (full, area, c)
               | Some (rep, path, full) \<Rightarrow>
                   (full, area, c\<lparr>wallpaperPath := path, replies := replies c @ [(reqId r, rep)]\<rparr>))
         else (full, area, c))"

definition handleMessage ::
  "('s, 'c) desktop \<Rightarrow> message \<Rightarrow> bool \<times> rect \<times> 's compositor \<Rightarrow> gfx_error + bool \<times> rect \<times> 's compositor" where
  "handleMessage S m st =
     (case m of
        PointerMessage ev \<Rightarrow> handlePointerEventMessage S ev st
      | KeyPress super k \<Rightarrow> (case st of (full, area, c) \<Rightarrow> Inr (full, area, handleKeyPress super k c))
      | OtherEvent \<Rightarrow> Inr st
      | Request r \<Rightarrow> Inr (handleRequestMessage S r st)
      | OtherMessage \<Rightarrow> Inr st)"

section \<open>Redrawing\<close>

definition acquire :: "'s compositor \<Rightarrow> 's compositor" where
  "acquire c = c\<lparr>sceneBuffer := nextBuffer c, nextBuffer := (nextBuffer c + 1) mod kCompositorBufferCount\<rparr>"

definition draw_canvas :: "('s, 'c) desktop \<Rightarrow> bool \<Rightarrow> rect option \<Rightarrow> 's compositor \<Rightarrow> 's compositor" where
  "draw_canvas S on part c =
     (if drawsScene (backend S) then c
      else c\<lparr>canvs := (canvs c)(sceneBuffer c := drawing S (current_scene on c) part (canvs c (sceneBuffer c)))\<rparr>)"

definition present_all :: "('s, 'c) desktop \<Rightarrow> 's compositor \<Rightarrow> gfx_error + 's compositor" where
  "present_all S c =
     seqE (presentFull (backend S) (canvs c) (sceneBuffer c) (cursorAt c) (pointerImage S) (backState c))
       (\<lambda>b. Inr (c\<lparr>backState := b\<rparr>))"

definition redrawFullScene :: "('s, 'c) desktop \<Rightarrow> pass_input \<Rightarrow> 's compositor \<Rightarrow> gfx_error + 's compositor" where
  "redrawFullScene S i c =
     (let c = snd (updateWindowSnapshot S (listedAgain i) (acquire c));
          c = draw_canvas S (online i) None c
      in present_all S (c\<lparr>surfaces := clear_surface_dirty_flags (surfaces c)\<rparr>))"

definition redrawDirtyRect :: "('s, 'c) desktop \<Rightarrow> pass_input \<Rightarrow> rect \<Rightarrow> 's compositor \<Rightarrow> gfx_error + 's compositor" where
  "redrawDirtyRect S i windowDirty c =
     (let r = clamp_rect (rects (ui S)) windowDirty (screenWidth S) (screenHeight S)
      in if empty_rect (rects (ui S)) r then Inr c
         else let c = draw_canvas S (online i) (Some r) c
         in seqE (presentRect (backend S) (canvs c) (sceneBuffer c) r (cursorAt c) (pointerImage S) (backState c))
              (\<lambda>b. Inr (c\<lparr>backState := b\<rparr>)))"

section \<open>The loop\<close>

text \<open>The end of a pass: all of the scene, or the part that changed, is drawn again.\<close>

definition redraw_changed ::
  "('s, 'c) desktop \<Rightarrow> pass_input \<Rightarrow> bool \<Rightarrow> bool \<Rightarrow> rect \<Rightarrow> 's compositor \<Rightarrow> gfx_error + 's compositor" where
  "redraw_changed S i full surfaceDirty windowDirty c =
     (if full then redrawFullScene S i c
      else
        let (windowDirty, c) = (if surfaceDirty
          then let (r, cache) = consume_surface_dirty_rect (ui S) (snapshot c) (screenWidth S) (screenHeight S) (surfaces c)
               in (unite (rects (ui S)) windowDirty r, c\<lparr>surfaces := cache\<rparr>)
          else (windowDirty, c))
        in if empty_rect (rects (ui S)) windowDirty then Inr c else redrawDirtyRect S i windowDirty c)"

text \<open>After the messages: the network, the window list and the commits around it.\<close>

definition refresh ::
  "('s, 'c) desktop \<Rightarrow> pass_input \<Rightarrow> bool \<Rightarrow> bool \<times> rect \<times> 's compositor \<Rightarrow> gfx_error + 's compositor" where
  "refresh S i surfaceDirty = (\<lambda>(full, windowDirty, c).
     let (full, c) = (if online i \<noteq> shownOnline c then (True, c\<lparr>shownOnline := online i\<rparr>) else (full, c));
         (pumped, c) = pumpSurfaceUpdatesOnce S (polled i 1) c;
         (changed, c) = updateWindowSnapshot S (listed i) c;
         (again, c) = pumpSurfaceUpdatesOnce S (polled i 2) c
     in redraw_changed S i (full \<or> changed) (surfaceDirty \<or> pumped \<or> again) windowDirty c)"

definition runOnce :: "('s, 'c) desktop \<Rightarrow> pass_input \<Rightarrow> 's compositor \<Rightarrow> gfx_error + 's compositor" where
  "runOnce S i c =
     (let (surfaceDirty, c) = pumpSurfaceUpdatesOnce S (polled i 0) c;
          messages = (if surfaceDirty then queued i
            else (case waited i of Some m \<Rightarrow> [m] | None \<Rightarrow> []) @ queued i)
      in seqE (foreach messages (handleMessage S) (False, no_rect, c)) (refresh S i surfaceDirty))"

definition commit_frame :: "('s, 'c) desktop \<Rightarrow> 's compositor \<Rightarrow> gfx_error + 's compositor" where
  "commit_frame S c = seqE (commit (backend S) (canvs c) (backState c)) (\<lambda>b. Inr (c\<lparr>backState := b\<rparr>))"

definition event_pass :: "('s, 'c) desktop \<Rightarrow> pass_input \<Rightarrow> 's compositor \<Rightarrow> gfx_error + 's compositor" where
  "event_pass S i c = seqE (runOnce S i c) (commit_frame S)"

text \<open>
  The start: the pointer in the middle of the screen, no surfaces, whatever canvases; then the
  first frame.
\<close>

definition new_compositor :: "('s, 'c) desktop \<Rightarrow> canvases \<Rightarrow> string \<Rightarrow> 's \<Rightarrow> 's compositor" where
  "new_compositor S canv path b =
     \<lparr>pointer = new_pointer, cursorAt = \<lparr>cx = screenWidth S div 2, cy = screenHeight S div 2\<rparr>,
      surfaces = replicate kMaxSurfaceCache empty_entry, snapshot = [], snapshotReady = False, shownOnline = False,
      wallpaperPath = path, nextBuffer = 0, sceneBuffer = 0, canvs = canv, backState = b, replies = []\<rparr>"

definition renderInitialScene :: "('s, 'c) desktop \<Rightarrow> pass_input \<Rightarrow> 's compositor \<Rightarrow> gfx_error + 's compositor" where
  "renderInitialScene S i c =
     (let c = draw_canvas S (online i) None (snd (updateWindowSnapshot S (listed i) (acquire c)))
      in seqE (present_all S c) (commit_frame S))"

section \<open>Start-up\<close>

text \<open>
  What \<open>run\<close> asks for before its loop: a queue and its registration, the framebuffer, the back end (chosen by
  \<open>compositor_backend_select\<close> of \<open>Compositor_Backend\<close>), the font, and memory for the canvases. The kernel and the libraries answer
  from all calls and answers so far; \<open>St_Screen w h pitch addr\<close> is the kernel's description of the screen.
\<close>

datatype start_call = St_Queue | St_Register nat | St_Fb_Info | St_Fb_Map | St_Backend | St_Font | St_New nat | St_Say string | St_Close nat

datatype start_reply = St_Number nat | St_Screen nat nat nat nat | St_Given bool

type_synonym start_trace = "(start_call \<times> start_reply) list"
type_synonym start_env = "start_trace \<Rightarrow> start_call \<Rightarrow> start_reply"

fun st_number :: "start_reply \<Rightarrow> nat" where
  "st_number (St_Number n) = n mod 2 ^ 64"
| "st_number _ = 0"

definition st_fail :: nat where "st_fail = 2 ^ 64 - 1"

definition st_ask :: "start_env \<Rightarrow> start_call \<Rightarrow> start_trace \<Rightarrow> start_reply \<times> start_trace" where
  "st_ask env c tr = (let r = env tr c in (r, tr @ [(c, r)]))"

definition st_say :: "start_env \<Rightarrow> string \<Rightarrow> start_trace \<Rightarrow> start_trace" where
  "st_say env s tr = snd (st_ask env (St_Say (''[graphics.compositor] '' @ s)) tr)"

text \<open>The queue, where the pixels of the screen are, its width, height and pitch.\<close>

record started =
  stQueue :: nat
  stPixels :: nat
  stWidth :: nat
  stHeight :: nat
  stPitch :: nat

definition initializeService :: "start_env \<Rightarrow> start_trace \<Rightarrow> bool \<times> nat \<times> start_trace" where
  "initializeService env tr =
     (let (r, tr) = st_ask env St_Queue tr; queue = st_number r
      in if queue = st_fail then (False, queue, st_say env ''queue_create failed'' tr)
         else let (r, tr) = st_ask env (St_Register queue) tr
              in if st_number r = st_fail then (False, queue, st_say env ''service_register failed'' tr) else (True, queue, tr))"

definition initializeFramebuffer :: "start_env \<Rightarrow> start_trace \<Rightarrow> (nat \<times> nat \<times> nat \<times> nat) option \<times> start_trace" where
  "initializeFramebuffer env tr =
     (let (r, tr) = st_ask env St_Fb_Info tr
      in case r of
           St_Screen w h pitch addr \<Rightarrow>
             let (r, tr) = st_ask env St_Fb_Map tr; pixels = (if st_number r = st_fail then addr mod 2 ^ 64 else st_number r)
             in if pixels = 0 \<or> pixels = st_fail then (None, st_say env ''fb_map failed'' tr)
                else (Some (pixels, w mod 2 ^ 32, h mod 2 ^ 32, pitch mod 2 ^ 32), tr)
         | _ \<Rightarrow> (None, st_say env ''fb_info failed'' tr))"

definition initializeFonts :: "start_env \<Rightarrow> start_trace \<Rightarrow> start_trace" where
  "initializeFonts env tr =
     (let (r, tr) = st_ask env St_Font tr
      in if r = St_Given True then tr else st_say env ''ui font load failed, continuing without text'' tr)"

text \<open>The allocation of \<open>n\<close> canvases of a number of pixels, up to the first that fails.\<close>

fun new_canvases :: "start_env \<Rightarrow> nat \<Rightarrow> nat \<Rightarrow> start_trace \<Rightarrow> bool \<times> start_trace" where
  "new_canvases env pixels 0 tr = (True, tr)"
| "new_canvases env pixels (Suc n) tr =
     (let (r, tr) = st_ask env (St_New pixels) tr
      in if r = St_Given True then new_canvases env pixels n tr else (False, tr))"

definition initializeBuffers :: "start_env \<Rightarrow> nat \<Rightarrow> nat \<Rightarrow> start_trace \<Rightarrow> bool \<times> start_trace" where
  "initializeBuffers env w h tr =
     (let (ok, tr) = (if w = 0 \<or> h = 0 then (False, tr) else new_canvases env (w * h) 3 tr)
      in if ok then (True, tr) else (False, st_say env ''triple buffer allocation failed'' tr))"

text \<open>\<open>run\<close> up to the first frame: none if it returns 1, when the destructor closes the queue.\<close>

definition start_compositor :: "start_env \<Rightarrow> started option \<times> start_trace" where
  "start_compositor env =
     (let (ok, queue, tr) = initializeService env []; stop = (\<lambda>tr. (None, if queue \<noteq> st_fail then snd (st_ask env (St_Close queue) tr) else tr))
      in if \<not> ok then stop tr
         else case initializeFramebuffer env tr of
                (None, tr) \<Rightarrow> stop tr
              | (Some (pixels, w, h, pitch), tr) \<Rightarrow>
                  let (r, tr) = st_ask env St_Backend tr
                  in if r \<noteq> St_Given True then stop tr
                     else let (ok, tr) = initializeBuffers env w h (initializeFonts env tr)
                          in if \<not> ok then stop tr
                             else (Some \<lparr>stQueue = queue, stPixels = pixels, stWidth = w, stHeight = h, stPitch = pitch\<rparr>, tr))"

text \<open>The pointer starts in the middle of the screen.\<close>

definition initial_cursor :: "started \<Rightarrow> int \<times> int" where
  "initial_cursor s = (int (stWidth s div 2), int (stHeight s div 2))"

text \<open>The queues created and closed in a run.\<close>

fun opened_queue :: "start_call \<times> start_reply \<Rightarrow> nat list" where
  "opened_queue (St_Queue, r) = (if st_number r = st_fail then [] else [st_number r])"
| "opened_queue _ = []"

fun closed_queue :: "start_call \<times> start_reply \<Rightarrow> nat list" where
  "closed_queue (St_Close q, r) = [q]"
| "closed_queue _ = []"

definition queues :: "start_trace \<Rightarrow> nat list \<times> nat list" where
  "queues tr = (concat (map opened_queue tr), concat (map closed_queue tr))"

lemma queues_append [simp]: "queues (a @ b) = (fst (queues a) @ fst (queues b), snd (queues a) @ snd (queues b))"
  by (simp add: queues_def)

lemma queues_say [simp]: "queues (st_say env s tr) = queues tr"
  by (simp add: st_say_def st_ask_def Let_def) (simp add: queues_def)

lemma queues_fonts [simp]: "queues (initializeFonts env tr) = queues tr"
  by (auto simp: initializeFonts_def st_ask_def Let_def) (simp_all add: queues_def)

lemma queues_canvases: "new_canvases env p n tr = (ok, tr') \<Longrightarrow> queues tr' = queues tr"
  by (induction n arbitrary: tr) (auto simp: st_ask_def Let_def queues_def split: if_splits)

lemma queues_buffers: "initializeBuffers env w h tr = (ok, tr') \<Longrightarrow> queues tr' = queues tr"
  by (auto simp: initializeBuffers_def Let_def dest!: queues_canvases split: if_splits prod.splits)

lemma queues_framebuffer: "initializeFramebuffer env tr = (r, tr') \<Longrightarrow> queues tr' = queues tr"
  by (auto simp: initializeFramebuffer_def st_ask_def Let_def split: start_reply.splits if_splits) (simp_all add: queues_def)

lemma queues_service:
  "initializeService env [] = (ok, q, tr) \<Longrightarrow> queues tr = (if q = st_fail then [] else [q], []) \<and> (ok \<longrightarrow> q \<noteq> st_fail)"
  by (auto simp: initializeService_def st_ask_def Let_def split: if_splits) (simp_all add: queues_def)

text \<open>
  When the compositor does not start, the queue it created is closed again; when it does, it keeps its queue,
  its framebuffer has an address, and the pointer is on the screen.
\<close>

theorem start_keeps_queue:
  "case start_compositor env of
     (None, tr) \<Rightarrow> fst (queues tr) = snd (queues tr)
   | (Some s, tr) \<Rightarrow> queues tr = ([stQueue s], []) \<and> stPixels s \<noteq> 0 \<and> 0 < stWidth s \<and> 0 < stHeight s \<and>
       0 \<le> fst (initial_cursor s) \<and> fst (initial_cursor s) < int (stWidth s) \<and>
       0 \<le> snd (initial_cursor s) \<and> snd (initial_cursor s) < int (stHeight s)"
proof -
  obtain ok q tr where service: "initializeService env [] = (ok, q, tr)" by (cases "initializeService env []")
  note sv = queues_service [OF service]
  define stop where "stop = (\<lambda>tr. (None :: started option, if q \<noteq> st_fail then snd (st_ask env (St_Close q) tr) else tr))"
  have stops: "case stop u of (None, tr) \<Rightarrow> fst (queues tr) = snd (queues tr) | (Some s, tr) \<Rightarrow> P s tr"
    if "queues u = queues tr" for u P
    using that sv by (simp add: stop_def st_ask_def Let_def) (simp add: queues_def)
  show ?thesis
  proof (cases ok)
    case False
    then have "start_compositor env = stop tr" by (simp add: start_compositor_def service stop_def Let_def)
    then show ?thesis using stops by simp
  next
    case True
    obtain fb tr1 where fb: "initializeFramebuffer env tr = (fb, tr1)" by (cases "initializeFramebuffer env tr")
    note 1 = queues_framebuffer [OF fb]
    show ?thesis
    proof (cases fb)
      case None
      then have "start_compositor env = stop tr1" using True by (simp add: start_compositor_def service fb stop_def Let_def)
      then show ?thesis using stops [OF 1] by simp
    next
      case (Some x)
      obtain pixels w h pitch where x: "x = (pixels, w, h, pitch)" by (cases x)
      have pixels: "pixels \<noteq> 0" using fb Some x by (auto simp: initializeFramebuffer_def st_ask_def Let_def split: start_reply.splits if_splits)
      let ?tr2 = "tr1 @ [(St_Backend, env tr1 St_Backend)]"
      have 2: "queues ?tr2 = queues tr" using 1 by (simp add: queues_def)
      obtain ok' tr3 where buf: "initializeBuffers env w h (initializeFonts env ?tr2) = (ok', tr3)"
        by (cases "initializeBuffers env w h (initializeFonts env ?tr2)")
      have 3: "queues tr3 = queues tr" using queues_buffers [OF buf] 2 by simp
      have start: "start_compositor env = (if env tr1 St_Backend \<noteq> St_Given True then stop ?tr2 else if \<not> ok' then stop tr3
          else (Some \<lparr>stQueue = q, stPixels = pixels, stWidth = w, stHeight = h, stPitch = pitch\<rparr>, tr3))"
      proof (cases "env tr1 St_Backend = St_Given True")
        case backend: True
        show ?thesis
          using True buf unfolding backend by (simp add: start_compositor_def service fb Some x stop_def st_ask_def backend Let_def)
      next
        case False
        then show ?thesis using True by (simp add: start_compositor_def service fb Some x stop_def st_ask_def Let_def)
      qed
      have "0 < w \<and> 0 < h" if ok' using buf that by (auto simp: initializeBuffers_def Let_def split: if_splits prod.splits)
      then show ?thesis
        using start stops [OF 2] stops [OF 3] sv 3 True pixels by (auto simp: initial_cursor_def div_less_dividend)
    qed
  qed
qed

end
