(* ===== verification/Compositor_Drag.thy ===== *)
theory Compositor_Drag
  imports Compositor_Input Compositor_Taskbar
begin

text \<open>
  Sequences of pointer events: a press in a window's content keeps the pointer for that window, a
  window is moved by its title bar, and what a press on the resize grip leaves behind.
\<close>

section \<open>One event\<close>

text \<open>The two calls \<open>handlePointerEventMessage\<close> makes with an event, in their order.\<close>

definition pointer_input ::
  "ui_ops \<Rightarrow> comp_env \<Rightarrow> int \<Rightarrow> int \<Rightarrow> window_info list \<times> pointer_event \<Rightarrow> pointer_state \<times> rect \<Rightarrow> pointer_state \<times> rect" where
  "pointer_input U env sw sh = (\<lambda>(ws, ev) (s, dirty).
     snd (handle_pointer_event U env sw sh ws ev (route_pointer_to_window U sw sh ws ev s, dirty)))"

lemma tell_comp_simps [simp]:
  "drag (tell_comp cs s) = drag s" "buttons (tell_comp cs s) = buttons s" "grabWindow (tell_comp cs s) = grabWindow s"
  "ccalls (tell_comp cs s) = ccalls s @ cs"
  by (simp_all add: tell_comp_def)

lemma hover_keeps [simp]:
  "drag (fst (update_control_hover U sw sh ws ev sd)) = drag (fst sd)"
  "buttons (fst (update_control_hover U sw sh ws ev sd)) = buttons (fst sd)"
  "grabWindow (fst (update_control_hover U sw sh ws ev sd)) = grabWindow (fst sd)"
  "ccalls (fst (update_control_hover U sw sh ws ev sd)) = ccalls (fst sd)"
  by (cases sd; simp add: update_control_hover_def Let_def split: prod.split)+

lemma route_keeps [simp]:
  "drag (route_pointer_to_window U sw sh ws ev s) = drag s"
  "buttons (route_pointer_to_window U sw sh ws ev s) = buttons s"
  by (simp_all add: route_pointer_to_window_def Let_def split: option.split)

lemma continue_idle [simp]:
  "\<not> moving (drag s) \<Longrightarrow> \<not> resizing (drag s) \<Longrightarrow> continue_drag U env ws ev (s, dirty) = (s, dirty)"
  by (simp add: continue_drag_def Let_def)

lemma continue_moving:
  assumes "moving (drag s)" and "left_down (pbuttons ev)"
  shows "drag (fst (continue_drag U env ws ev (s, dirty))) = drag s"
    and "buttons (fst (continue_drag U env ws ev (s, dirty))) = buttons s"
    and "grabWindow (fst (continue_drag U env ws ev (s, dirty))) = grabWindow s"
    and "ccalls (fst (continue_drag U env ws ev (s, dirty))) = ccalls s @
      (if window_by_id ws (dragWindow (drag s)) = None then []
       else [MoveWindow (dragWindow (drag s)) (pex ev - grabOffsetX (drag s)) (pey ev - grabOffsetY (drag s))])"
  using assms by (auto simp: continue_drag_def ask_comp_def Let_def split: option.split bool.split)

lemma continue_released:
  "\<not> left_down (pbuttons ev) \<Longrightarrow> continue_drag U env ws ev (s, dirty) = (s, dirty)"
  by (simp add: continue_drag_def Let_def)

text \<open>An event with the left button down before and after, and one that releases it.\<close>

lemma input_held:
  assumes "left_down (buttons s)" and "left_down (pbuttons ev)"
  shows "fst (pointer_input U env sw sh (ws, ev) (s, dirty)) =
    fst (continue_drag U env ws ev
      ((fst (update_control_hover U sw sh ws ev (route_pointer_to_window U sw sh ws ev s, dirty)))\<lparr>buttons := pbuttons ev\<rparr>,
       snd (update_control_hover U sw sh ws ev (route_pointer_to_window U sw sh ws ev s, dirty))))"
  using assms hover_keeps(2) [of U sw sh ws ev "(route_pointer_to_window U sw sh ws ev s, dirty)"]
  by (simp add: pointer_input_def handle_pointer_event_def Let_def split_beta)

lemma input_held_idle:
  assumes "left_down (buttons s)" and "left_down (pbuttons ev)" and "\<not> moving (drag s)" and "\<not> resizing (drag s)"
    and s'_def: "s' = fst (pointer_input U env sw sh (ws, ev) (s, dirty))"
    and r_def: "r = route_pointer_to_window U sw sh ws ev s"
  shows "drag s' = drag s" and "buttons s' = pbuttons ev" and "grabWindow s' = grabWindow r" and "ccalls s' = ccalls r"
  using assms(3,4) by (simp_all add: s'_def r_def input_held [OF assms(1,2)])

lemma input_held_moving:
  assumes "left_down (buttons s)" and "left_down (pbuttons ev)" and "moving (drag s)"
    and s'_def: "s' = fst (pointer_input U env sw sh (ws, ev) (s, dirty))"
  shows "drag s' = drag s" and "buttons s' = pbuttons ev" and "grabWindow s' = grabWindow s"
    and "ccalls s' = ccalls s @ (if window_by_id ws (dragWindow (drag s)) = None then []
       else [MoveWindow (dragWindow (drag s)) (pex ev - grabOffsetX (drag s)) (pey ev - grabOffsetY (drag s))])"
proof -
  have "route_pointer_to_window U sw sh ws ev s = s"
    using assms(3) by (simp add: route_pointer_to_window_def)
  then show "drag s' = drag s" "buttons s' = pbuttons ev" "grabWindow s' = grabWindow s"
    "ccalls s' = ccalls s @ (if window_by_id ws (dragWindow (drag s)) = None then []
       else [MoveWindow (dragWindow (drag s)) (pex ev - grabOffsetX (drag s)) (pey ev - grabOffsetY (drag s))])"
    using assms(2,3) by (simp_all add: s'_def input_held [OF assms(1,2)] continue_moving)
qed

lemma input_released:
  assumes "left_down (buttons s)" and "\<not> left_down (pbuttons ev)"
    and s'_def: "s' = fst (pointer_input U env sw sh (ws, ev) (s, dirty))"
    and r_def: "r = route_pointer_to_window U sw sh ws ev s"
  shows "drag s' = clear_drag (drag s)" and "buttons s' = pbuttons ev" and "grabWindow s' = grabWindow r"
    and "ccalls s' = ccalls r"
  using assms(1,2) hover_keeps(2) [of U sw sh ws ev "(route_pointer_to_window U sw sh ws ev s, dirty)"]
  by (simp_all add: s'_def r_def pointer_input_def handle_pointer_event_def Let_def split_beta continue_released)

text \<open>A press of the left button on a window, outside the taskbar.\<close>

definition on_window :: "ui_ops \<Rightarrow> int \<Rightarrow> int \<Rightarrow> window_info list \<Rightarrow> pointer_event \<Rightarrow> window_info \<Rightarrow> bool" where
  "on_window U sw sh ws ev w \<longleftrightarrow> taskbar_hit U (taskbar_layout sw sh ws) (pex ev) (pey ev) = HitNone \<and>
     top_window_at U ws (pex ev) (pey ev) = Some w"

lemma input_pressed:
  assumes "\<not> left_down (buttons s)" and "left_down (pbuttons ev)" and "\<not> moving (drag s)" and "\<not> resizing (drag s)"
    and "on_window U sw sh ws ev w"
  shows "\<exists>p. fst (pointer_input U env sw sh (ws, ev) (s, dirty)) = press_window U sw sh w ev p \<and>
    drag p = drag s \<and> buttons p = pbuttons ev \<and> grabWindow p = grabWindow (route_pointer_to_window U sw sh ws ev s) \<and>
    ccalls p = ccalls (route_pointer_to_window U sw sh ws ev s)"
  using assms hover_keeps [of U sw sh ws ev "(route_pointer_to_window U sw sh ws ev s, dirty)"]
  by (intro exI [of _ "(fst (update_control_hover U sw sh ws ev (route_pointer_to_window U sw sh ws ev s, dirty)))
        \<lparr>buttons := pbuttons ev\<rparr>"])
    (simp add: pointer_input_def handle_pointer_event_def on_window_def Let_def split_beta)

section \<open>Moving a window\<close>

definition on_control :: "ui_ops \<Rightarrow> window_info \<Rightarrow> pointer_event \<Rightarrow> bool" where
  "on_control U w ev \<longleftrightarrow> pointer_on_close U w (pex ev) (pey ev) \<or> pointer_on_maximize U w (pex ev) (pey ev) \<or>
     pointer_on_minimize U w (pex ev) (pey ev)"

lemma press_window_keeps [simp]:
  "buttons (press_window U sw sh w ev s) = buttons s" "grabWindow (press_window U sw sh w ev s) = grabWindow s"
  by (simp_all add: press_window_def Let_def)

lemma run_moving:
  "moving (drag (fst sd)) \<Longrightarrow> left_down (buttons (fst sd)) \<Longrightarrow> \<forall>(ws, ev)\<in>set evs. left_down (pbuttons ev) \<Longrightarrow>
   drag (fst (fold (pointer_input U env sw sh) evs sd)) = drag (fst sd) \<and>
   left_down (buttons (fst (fold (pointer_input U env sw sh) evs sd))) \<and>
   ccalls (fst (fold (pointer_input U env sw sh) evs sd)) = ccalls (fst sd) @
     map (\<lambda>(ws, ev). MoveWindow (dragWindow (drag (fst sd))) (pex ev - grabOffsetX (drag (fst sd)))
                        (pey ev - grabOffsetY (drag (fst sd))))
       (filter (\<lambda>(ws, ev). window_by_id ws (dragWindow (drag (fst sd))) \<noteq> None) evs)"
proof (induction evs arbitrary: sd)
  case (Cons e evs)
  obtain ws ev s d where [simp]: "e = (ws, ev)" "sd = (s, d)" by (cases e; cases sd)
  note step = input_held_moving [of s ev _ U env sw sh ws d, OF _ _ _ refl]
  let ?sd = "pointer_input U env sw sh e sd"
  have "drag (fst ?sd) = drag s" "left_down (buttons (fst ?sd))"
    "ccalls (fst ?sd) = ccalls s @ (if window_by_id ws (dragWindow (drag s)) = None then []
       else [MoveWindow (dragWindow (drag s)) (pex ev - grabOffsetX (drag s)) (pey ev - grabOffsetY (drag s))])"
    using Cons.prems step by simp_all
  then show ?case using Cons.IH [of ?sd] Cons.prems by auto
qed simp

text \<open>
  C8: A window follows the pointer: after a press on its title bar every pointer event with the left
  button held moves it by as much as the pointer moved since the press (as long as it exists) and
  nothing else happens, no window gets pointer input; releasing the button ends it.
\<close>
theorem drag_follows_pointer:
  assumes "\<not> left_down (buttons s)" and "\<not> moving (drag s)" and "\<not> resizing (drag s)"
    and "on_window U sw sh ws ev w" and "left_down (pbuttons ev)"
    and "pointer_on_titlebar U w (pex ev) (pey ev)" and "\<not> on_control U w ev"
    and "\<not> pointer_on_resize_grip U w (pex ev) (pey ev)"
    and "\<forall>(ws, ev)\<in>set evs. left_down (pbuttons ev)" and "\<not> left_down (pbuttons up)"
  shows "let sd1 = pointer_input U env sw sh (ws, ev) (s, dirty);
             sd2 = fold (pointer_input U env sw sh) evs sd1
    in ccalls (fst sd2) = ccalls (fst sd1) @
         map (\<lambda>(ws, e). MoveWindow (wid w) (wx w + (pex e - pex ev)) (wy w + (pey e - pey ev)))
           (filter (\<lambda>(ws, e). window_by_id ws (wid w) \<noteq> None) evs) \<and>
       moving (drag (fst sd2)) \<and>
       ccalls (fst (pointer_input U env sw sh (ws', up) sd2)) = ccalls (fst sd2) \<and>
       \<not> moving (drag (fst (pointer_input U env sw sh (ws', up) sd2)))"
proof -
  let ?sd1 = "pointer_input U env sw sh (ws, ev) (s, dirty)"
  let ?sd2 = "fold (pointer_input U env sw sh) evs ?sd1"
  obtain p where p: "fst ?sd1 = press_window U sw sh w ev p" "drag p = drag s" "buttons p = pbuttons ev"
    using input_pressed [OF assms(1,5,2-4)] by blast
  have "drag (fst ?sd1) = begin_move w (pex ev) (pey ev) (drag s)"
    using assms(6-8) p by (simp add: press_window_def on_control_def Let_def)
  then have d: "moving (drag (fst ?sd1))" "dragWindow (drag (fst ?sd1)) = wid w"
    "grabOffsetX (drag (fst ?sd1)) = pex ev - wx w" "grabOffsetY (drag (fst ?sd1)) = pey ev - wy w"
    by (simp_all add: begin_move_def)
  have "left_down (buttons (fst ?sd1))" using p assms(5) by simp
  note run = run_moving [OF d(1) this assms(9), of U env sw sh]
  have r: "route_pointer_to_window U sw sh ws' up (fst ?sd2) = fst ?sd2"
    using run d(1) by (simp add: route_pointer_to_window_def)
  have "drag (fst (pointer_input U env sw sh (ws', up) ?sd2)) = clear_drag (drag (fst ?sd2))"
    "ccalls (fst (pointer_input U env sw sh (ws', up) ?sd2)) = ccalls (fst ?sd2)"
    using input_released [of "fst ?sd2" up _ U env sw sh ws' "snd ?sd2", OF _ _ refl refl] run assms(10) r by simp_all
  then show ?thesis
    using run d by (simp add: Let_def clear_drag_def algebra_simps)
qed

lemma not_on_taskbar:
  assumes "rect_laws (rects U)" and "y < sh - 64"
  shows "taskbar_hit U (taskbar_layout sw sh ws) x y = HitNone"
  using assms by (simp add: taskbar_hit_def taskbar_rects rect_laws_def inside_def)

definition pointer_at :: "int \<Rightarrow> int \<Rightarrow> 16 word \<Rightarrow> pointer_action \<Rightarrow> pointer_event" where
  "pointer_at x y b a = \<lparr>pex = x, pey = y, pbuttons = b, paction = a\<rparr>"

lemma pointer_at_simps [simp]:
  "pex (pointer_at x y b a) = x" "pey (pointer_at x y b a) = y" "pbuttons (pointer_at x y b a) = b"
  "paction (pointer_at x y b a) = a"
  by (simp_all add: pointer_at_def)

lemma left_down_simps [simp]: "left_down 1" "\<not> left_down 0"
  by (simp_all add: left_down_def)

lemma new_pointer_simps [simp]:
  "buttons new_pointer = 0" "\<not> moving (drag new_pointer)" "\<not> resizing (drag new_pointer)" "grabWindow new_pointer = 0"
  by (simp_all add: new_pointer_def no_drag_def)

lemma plain_ui_laws: "rect_laws (rects plain_ui)"
  using plain_rects_laws by (simp add: plain_ui_def)

lemma on_plain_window:
  assumes "100 \<le> x" "x < 402" "100 \<le> y" "y < 341"
  shows "on_window plain_ui 1000 600 [plain_window i name {}] (pointer_at x y b a) (plain_window i name {})"
proof -
  have "taskbar_hit plain_ui (taskbar_layout 1000 600 ws) x y = HitNone" for ws
    using assms by (intro not_on_taskbar [OF plain_ui_laws]) simp
  then show ?thesis
    using assms unfolding on_window_def
    by (simp add: top_window_at_def plain_window_def is_window_visible_def window_frame_rect_def frame_width_def
        frame_height_def kBorder_def kTitleBarHeight_def) (simp add: plain_ui_def inside_def)
qed

lemmas window_parts = on_control_def pointer_on_close_def pointer_on_maximize_def pointer_on_minimize_def
  pointer_on_resize_grip_def pointer_on_titlebar_def in_top_rounded_rect_def window_control_rect_def
  frame_width_def frame_height_def kBorder_def kTitleBarHeight_def kControlWidth_def kResizeGripSize_def
  kWindowCornerRadius_def

theorem drag_follows_pointer_witness:
  "moving (drag (fst (pointer_input plain_ui (\<lambda>log c. True) 1000 600
     ([plain_window 5 ''Demo'' {}], pointer_at 150 120 1 ButtonAction) (new_pointer, rect_at 0 0 0 0))))"
proof -
  let ?w = "plain_window 5 ''Demo'' {}" and ?ev = "pointer_at 150 120 1 ButtonAction"
  have "pointer_on_titlebar plain_ui ?w 150 120" "\<not> on_control plain_ui ?w ?ev"
    "\<not> pointer_on_resize_grip plain_ui ?w 150 120"
    by (simp_all add: window_parts plain_ui_def plain_rects_def inside_def plain_window_def
        signed_divide_int_def)
  then show ?thesis
    using drag_follows_pointer [of new_pointer plain_ui 1000 600 "[?w]" ?ev ?w "[]" "pointer_at 0 0 0 ButtonAction"
        "\<lambda>log c. True" "rect_at 0 0 0 0" "[]"] on_plain_window [of 150 120 5 "''Demo''" 1 ButtonAction]
    by (simp add: Let_def)
qed

section \<open>Input for a window\<close>

lemma window_by_id_wid: "window_by_id ws i = Some w \<Longrightarrow> wid w = i"
  by (auto simp: window_by_id_def find_Some_iff)

definition grab_by :: "pointer_event \<Rightarrow> window_info \<Rightarrow> pointer_state \<Rightarrow> pointer_state" where
  "grab_by ev w s = tell_comp [PostPointer (wid w) (local_event w ev)]
     (if paction ev = ButtonAction then s\<lparr>grabWindow := (if pbuttons ev \<noteq> 0 then wid w else 0)\<rparr> else s)"

lemma grab_by_simps [simp]:
  "ccalls (grab_by ev w s) = ccalls s @ [PostPointer (wid w) (local_event w ev)]"
  "grabWindow (grab_by ev w s) =
    (if paction ev = ButtonAction then if pbuttons ev \<noteq> 0 then wid w else 0 else grabWindow s)"
  by (simp_all add: grab_by_def)

lemma route_grabbed:
  assumes "\<not> moving (drag s)" and "\<not> resizing (drag s)" and "grabWindow s \<noteq> 0"
    and "window_by_id ws (grabWindow s) = Some w"
  shows "route_pointer_to_window U sw sh ws ev s = grab_by ev w s"
  using assms by (simp add: route_pointer_to_window_def grab_by_def)

lemma route_pressed:
  assumes "\<not> moving (drag s)" and "\<not> resizing (drag s)" and "grabWindow s = 0" and "on_window U sw sh ws ev w"
    and "contains (rects U) (content_rect w) (pex ev) (pey ev)"
  shows "route_pointer_to_window U sw sh ws ev s = grab_by ev w (s\<lparr>grabWindow := 0\<rparr>)"
  using assms by (simp add: route_pointer_to_window_def grab_by_def on_window_def)

lemma content_not_frame:
  assumes "rect_laws (rects U)" and "contains (rects U) (content_rect w) (pex ev) (pey ev)"
  shows "\<not> on_control U w ev" and "\<not> pointer_on_titlebar U w (pex ev) (pey ev)"
  using assms by (simp_all add: window_parts rect_laws_def inside_def content_rect_def)

lemma left_down_nonzero: "left_down b \<Longrightarrow> b \<noteq> 0"
  by (auto simp: left_down_def)

lemma run_grabbed:
  "\<not> moving (drag (fst sd)) \<Longrightarrow> \<not> resizing (drag (fst sd)) \<Longrightarrow> left_down (buttons (fst sd)) \<Longrightarrow> grabWindow (fst sd) = i \<Longrightarrow>
   i \<noteq> 0 \<Longrightarrow> \<forall>(ws, e)\<in>set evs. left_down (pbuttons e) \<and> window_by_id ws i \<noteq> None \<Longrightarrow>
   drag (fst (fold (pointer_input U env sw sh) evs sd)) = drag (fst sd) \<and>
   left_down (buttons (fst (fold (pointer_input U env sw sh) evs sd))) \<and>
   grabWindow (fst (fold (pointer_input U env sw sh) evs sd)) = i \<and>
   ccalls (fst (fold (pointer_input U env sw sh) evs sd)) = ccalls (fst sd) @
     map (\<lambda>(ws, e). PostPointer i (local_event (the (window_by_id ws i)) e)) evs"
proof (induction evs arbitrary: sd)
  case (Cons e evs)
  obtain ws ev s d where [simp]: "e = (ws, ev)" "sd = (s, d)" by (cases e; cases sd)
  obtain w where w: "window_by_id ws i = Some w" "wid w = i" using Cons.prems(6) window_by_id_wid by fastforce
  have r: "route_pointer_to_window U sw sh ws ev s = grab_by ev w s"
    using Cons.prems(1-5) w(1) by (intro route_grabbed) simp_all
  let ?sd = "pointer_input U env sw sh e sd"
  have "drag (fst ?sd) = drag s" "left_down (buttons (fst ?sd))" "grabWindow (fst ?sd) = i"
    "ccalls (fst ?sd) = ccalls s @ [PostPointer i (local_event w ev)]"
    using Cons.prems w(2) input_held_idle [of s ev _ U env sw sh ws d, OF _ _ _ _ refl refl] left_down_nonzero
    by (simp_all add: r)
  then show ?case using Cons.IH [of ?sd] Cons.prems w(1) by simp
qed simp

text \<open>
  C7: A press of the left button in a window's content, outside the resize grip, keeps the pointer for
  that window: whatever is under the pointer, every event until the buttons are up, and that one
  too, goes to the window, in its own coordinates wherever it is then, and nothing is asked of the
  kernel but the focus for it; after that no window holds the pointer.
\<close>
theorem grab_until_release:
  assumes "rect_laws (rects U)" and "\<not> left_down (buttons s)" and "\<not> moving (drag s)" and "\<not> resizing (drag s)"
    and "grabWindow s = 0" and "on_window U sw sh ws ev w" and "contains (rects U) (content_rect w) (pex ev) (pey ev)"
    and "\<not> pointer_on_resize_grip U w (pex ev) (pey ev)" and "wid w \<noteq> 0"
    and "left_down (pbuttons ev)" and "paction ev = ButtonAction"
    and "\<forall>(ws, e)\<in>set evs. left_down (pbuttons e) \<and> window_by_id ws (wid w) \<noteq> None"
    and "pbuttons up = 0" and "paction up = ButtonAction" and "window_by_id ws' (wid w) \<noteq> None"
  shows "let sd = fold (pointer_input U env sw sh) ((ws, ev) # evs @ [(ws', up)]) (s, dirty)
    in ccalls (fst sd) = ccalls s @ [PostPointer (wid w) (local_event w ev), FocusWindow (wid w)] @
         map (\<lambda>(ws, e). PostPointer (wid w) (local_event (the (window_by_id ws (wid w))) e)) (evs @ [(ws', up)]) \<and>
       grabWindow (fst sd) = 0 \<and> \<not> moving (drag (fst sd)) \<and> \<not> resizing (drag (fst sd))"
proof -
  let ?sd1 = "pointer_input U env sw sh (ws, ev) (s, dirty)"
  let ?sd2 = "fold (pointer_input U env sw sh) evs ?sd1"
  obtain p where p: "fst ?sd1 = press_window U sw sh w ev p" "drag p = drag s" "buttons p = pbuttons ev"
    "grabWindow p = wid w" "ccalls p = ccalls s @ [PostPointer (wid w) (local_event w ev)]"
    using input_pressed [OF assms(2,10,3,4,6), of env dirty] route_pressed [OF assms(3-7)] assms(10,11) left_down_nonzero
    by auto
  have "press_window U sw sh w ev p = tell_comp [FocusWindow (wid w)] p"
    using content_not_frame [OF assms(1,7)] assms(8) by (simp add: press_window_def on_control_def Let_def)
  then have d: "\<not> moving (drag (fst ?sd1))" "\<not> resizing (drag (fst ?sd1))" "left_down (buttons (fst ?sd1))"
    "grabWindow (fst ?sd1) = wid w"
    "ccalls (fst ?sd1) = ccalls s @ [PostPointer (wid w) (local_event w ev), FocusWindow (wid w)]"
    using p assms(3,4,10) by simp_all
  note run = run_grabbed [OF d(1-4) assms(9,12), of U env sw sh]
  obtain w' where w': "window_by_id ws' (wid w) = Some w'" "wid w' = wid w"
    using assms(15) window_by_id_wid by fastforce
  have r: "route_pointer_to_window U sw sh ws' up (fst ?sd2) = grab_by up w' (fst ?sd2)"
    using run d assms(9) w'(1) by (intro route_grabbed) simp_all
  have "drag (fst (pointer_input U env sw sh (ws', up) ?sd2)) = clear_drag (drag (fst ?sd2))"
    "grabWindow (fst (pointer_input U env sw sh (ws', up) ?sd2)) = 0"
    "ccalls (fst (pointer_input U env sw sh (ws', up) ?sd2)) =
       ccalls (fst ?sd2) @ [PostPointer (wid w) (local_event w' up)]"
    using input_released [of "fst ?sd2" up _ U env sw sh ws' "snd ?sd2", OF _ _ refl refl] run assms(13,14) r w'(2)
    by simp_all
  then show ?thesis
    using run d w'(1) by (simp add: Let_def clear_drag_def)
qed

theorem grab_until_release_witness:
  "grabWindow (fst (fold (pointer_input plain_ui (\<lambda>log c. True) 1000 600)
     [([plain_window 5 ''Demo'' {}], pointer_at 150 200 1 ButtonAction),
      ([plain_window 5 ''Demo'' {}], pointer_at 10 10 0 ButtonAction)] (new_pointer, rect_at 0 0 0 0))) = 0"
proof -
  let ?w = "plain_window 5 ''Demo'' {}" and ?ev = "pointer_at 150 200 1 ButtonAction"
  have "contains (rects plain_ui) (content_rect ?w) 150 200" "\<not> pointer_on_resize_grip plain_ui ?w 150 200"
    by (simp_all add: window_parts plain_ui_def plain_rects_def inside_def plain_window_def content_rect_def)
  moreover have "window_by_id [?w] (wid ?w) \<noteq> None" "wid ?w = 5" by (simp_all add: window_by_id_def plain_window_def)
  ultimately show ?thesis
    using grab_until_release [OF plain_ui_laws, of new_pointer 1000 600 "[?w]" ?ev ?w "[]" "pointer_at 10 10 0 ButtonAction"
        "[?w]" "\<lambda>log c. True" "rect_at 0 0 0 0"] on_plain_window [of 150 200 5 "''Demo''" 1 ButtonAction]
    by (simp add: Let_def)
qed

text \<open>
  C40: A press on the resize grip is in the window's content, so the window gets it and holds the
  pointer; but the release ends the resizing first and never reaches the window, which goes on
  holding the pointer: the next event, wherever it is, is posted to it.
\<close>
theorem grip_press_keeps_grab:
  assumes "\<not> left_down (buttons s)" and "\<not> moving (drag s)" and "\<not> resizing (drag s)" and "grabWindow s = 0"
    and "on_window U sw sh ws ev w" and "contains (rects U) (content_rect w) (pex ev) (pey ev)"
    and "pointer_on_resize_grip U w (pex ev) (pey ev)" and "\<not> on_control U w ev" and "wid w \<noteq> 0"
    and "left_down (pbuttons ev)" and "paction ev = ButtonAction" and "pbuttons up = 0"
    and "window_by_id ws2 (wid w) = Some w2"
  shows "let sd1 = pointer_input U env sw sh (ws, ev) (s, dirty);
             sd2 = pointer_input U env sw sh (ws1, up) sd1
    in PostPointer (wid w) (local_event w ev) \<in> set (ccalls (fst sd1)) \<and>
       ccalls (fst sd2) = ccalls (fst sd1) \<and> \<not> resizing (drag (fst sd2)) \<and> grabWindow (fst sd2) = wid w \<and>
       (\<exists>cs. ccalls (route_pointer_to_window U sw sh ws2 ev2 (fst sd2)) = ccalls (fst sd2) @ cs \<and>
         PostPointer (wid w) (local_event w2 ev2) \<in> set cs)"
proof -
  let ?sd1 = "pointer_input U env sw sh (ws, ev) (s, dirty)"
  let ?sd2 = "pointer_input U env sw sh (ws1, up) ?sd1"
  obtain p where p: "fst ?sd1 = press_window U sw sh w ev p" "drag p = drag s" "buttons p = pbuttons ev"
    "grabWindow p = wid w" "ccalls p = ccalls s @ [PostPointer (wid w) (local_event w ev)]"
    using input_pressed [OF assms(1,10,2,3,5), of env dirty] route_pressed [OF assms(2-6)] assms(10,11) left_down_nonzero
    by auto
  have "press_window U sw sh w ev p
      = (tell_comp [FocusWindow (wid w)] p)\<lparr>drag := begin_resize w (pex ev) (pey ev) (drag p)\<rparr>"
    using assms(7,8) by (simp add: press_window_def on_control_def Let_def)
  then have d: "resizing (drag (fst ?sd1))" "left_down (buttons (fst ?sd1))" "grabWindow (fst ?sd1) = wid w"
    "PostPointer (wid w) (local_event w ev) \<in> set (ccalls (fst ?sd1))"
    using p assms(10) by (simp_all add: begin_resize_def)
  have "route_pointer_to_window U sw sh ws1 up (fst ?sd1) = fst ?sd1"
    using d(1) by (simp add: route_pointer_to_window_def)
  then have e: "drag (fst ?sd2) = clear_drag (drag (fst ?sd1))" "grabWindow (fst ?sd2) = wid w"
    "ccalls (fst ?sd2) = ccalls (fst ?sd1)"
    using input_released [of "fst ?sd1" up _ U env sw sh ws1 "snd ?sd1", OF _ _ refl refl] d assms(12) by simp_all
  have "route_pointer_to_window U sw sh ws2 ev2 (fst ?sd2) = grab_by ev2 w2 (fst ?sd2)"
    using e assms(9,13) by (intro route_grabbed) (simp_all add: clear_drag_def)
  then show ?thesis
    using d e window_by_id_wid [OF assms(13)] by (simp add: Let_def clear_drag_def)
qed

theorem grip_press_keeps_grab_witness:
  "grabWindow (fst (pointer_input plain_ui (\<lambda>log c. True) 1000 600 ([], pointer_at 400 330 0 ButtonAction)
     (pointer_input plain_ui (\<lambda>log c. True) 1000 600
        ([plain_window 5 ''Demo'' {}], pointer_at 390 330 1 ButtonAction) (new_pointer, rect_at 0 0 0 0)))) = 5"
proof -
  let ?w = "plain_window 5 ''Demo'' {}" and ?ev = "pointer_at 390 330 1 ButtonAction"
  have "contains (rects plain_ui) (content_rect ?w) 390 330" "pointer_on_resize_grip plain_ui ?w 390 330"
    "\<not> on_control plain_ui ?w ?ev"
    by (simp_all add: window_parts plain_ui_def plain_rects_def inside_def plain_window_def content_rect_def)
  moreover have "window_by_id [?w] (wid ?w) = Some ?w" "wid ?w = 5" by (simp_all add: window_by_id_def plain_window_def)
  ultimately show ?thesis
    using grip_press_keeps_grab [of new_pointer plain_ui 1000 600 "[?w]" ?ev ?w "pointer_at 400 330 0 ButtonAction"
        "[?w]" ?w "\<lambda>log c. True" "rect_at 0 0 0 0" "[]" ?ev] on_plain_window [of 390 330 5 "''Demo''" 1 ButtonAction]
    by (simp add: Let_def)
qed

end
