(* ===== verification/Compositor_Shows.thy ===== *)
theory Compositor_Shows
  imports Compositor_Loop Compositor_Drag
begin

text \<open>
  The event loop over its back end: every pass ends without an access outside the pixels, and with
  the screen showing the canvas the scene was drawn on, the pointer over it. Proved once for
  whatever back end keeps the promise of \<open>compositor_backend\<close>, then for the flip and the software
  back ends.
\<close>

section \<open>What the steps leave alone\<close>

definition on_display :: "'s compositor \<Rightarrow> canvases \<times> nat \<times> nat \<times> cursor_state \<times> 's" where
  "on_display c = (canvs c, sceneBuffer c, nextBuffer c, cursorAt c, backState c)"

lemma pump_keeps [simp]: "on_display (snd (pumpSurfaceUpdatesOnce S ss c)) = on_display c"
  by (simp add: pumpSurfaceUpdatesOnce_def on_display_def split: option.split prod.split)

lemma update_keeps [simp]: "on_display (snd (updateWindowSnapshot S ws c)) = on_display c"
  by (simp add: updateWindowSnapshot_def on_display_def Let_def split: prod.split)

lemma key_keeps [simp]: "on_display (handleKeyPress super k c) = on_display c"
  by (simp add: handleKeyPress_def on_display_def split: option.split)

lemma request_keeps:
  assumes "handleRequestMessage S r (full, d, c) = (full', d', c')"
  shows "on_display c' = on_display c \<and> (full \<longrightarrow> full')"
  using assms
  by (auto simp: handleRequestMessage_def build_background_reply_def on_display_def
      split: option.splits if_splits prod.splits)

lemma on_display_updates [simp]:
  "on_display (c\<lparr>surfaces := cs\<rparr>) = on_display c" "on_display (c\<lparr>shownOnline := b\<rparr>) = on_display c"
  by (simp_all add: on_display_def)

text \<open>Drawing keeps the size of a canvas, and drawing a part stays inside it.\<close>

definition drawing_ok :: "int \<Rightarrow> int \<Rightarrow> (scene \<Rightarrow> rect option \<Rightarrow> raster \<Rightarrow> raster) \<Rightarrow> bool" where
  "drawing_ok w h draw \<longleftrightarrow>
     (\<forall>sc part a. fits w h a \<longrightarrow> fits w h (draw sc part a)) \<and>
     (\<forall>sc r a. fits w h a \<longrightarrow> redrawn_in w h r a (draw sc (Some r) a))"

definition canvases_ok :: "int \<Rightarrow> int \<Rightarrow> 's compositor \<Rightarrow> bool" where
  "canvases_ok w h c \<longleftrightarrow> (\<forall>k<kCompositorBufferCount. fits w h (canvs c k)) \<and>
     sceneBuffer c < kCompositorBufferCount \<and> nextBuffer c < kCompositorBufferCount"

lemma canvases_ok_cong: "on_display c' = on_display c \<Longrightarrow> canvases_ok w h c' = canvases_ok w h c"
  by (simp add: on_display_def canvases_ok_def)

lemma draw_canvas_is:
  assumes "drawing_ok w h (drawing S)" and "canvases_ok w h c"
  shows "\<exists>a. canvs (draw_canvas S on part c) = (canvs c)(sceneBuffer c := a) \<and> fits w h a \<and>
    (\<forall>r. part = Some r \<longrightarrow> redrawn_in w h r (canvs c (sceneBuffer c)) a)"
    and "sceneBuffer (draw_canvas S on part c) = sceneBuffer c" and "nextBuffer (draw_canvas S on part c) = nextBuffer c"
    and "cursorAt (draw_canvas S on part c) = cursorAt c" and "backState (draw_canvas S on part c) = backState c"
proof -
  have f: "fits w h (canvs c (sceneBuffer c))" using assms(2) by (simp add: canvases_ok_def)
  show "\<exists>a. canvs (draw_canvas S on part c) = (canvs c)(sceneBuffer c := a) \<and> fits w h a \<and>
    (\<forall>r. part = Some r \<longrightarrow> redrawn_in w h r (canvs c (sceneBuffer c)) a)"
  proof (cases "drawsScene (backend S)")
    case True
    then show ?thesis
      using f by (intro exI [of _ "canvs c (sceneBuffer c)"]) (simp add: draw_canvas_def redrawn_in_def)
  next
    case False
    then show ?thesis
      using f assms(1)
      by (intro exI [of _ "drawing S (current_scene on c) part (canvs c (sceneBuffer c))"])
        (auto simp: draw_canvas_def drawing_ok_def)
  qed
qed (simp_all add: draw_canvas_def)

section \<open>Over any back end\<close>

context compositor_backend
begin

definition setting :: "('s, 'c) desktop \<Rightarrow> bool" where
  "setting S \<longleftrightarrow> backend S = B \<and> pointerImage S = img \<and> screenWidth S = w \<and> screenHeight S = h \<and> drawing_ok w h (drawing S)"

text \<open>The back end has what is on the canvas, unless everything is redrawn anyway.\<close>

definition synced :: "bool \<Rightarrow> 's compositor \<Rightarrow> bool" where
  "synced full c \<longleftrightarrow> canvases_ok w h c \<and>
     (if full then usable (canvs c) (backState c) else ready (canvs c) (sceneBuffer c) (cursorAt c) (backState c))"

lemma synced_cong: "on_display c' = on_display c \<Longrightarrow> synced full c' = synced full c"
  using canvases_ok_cong [of c' c w h] by (simp add: synced_def on_display_def)

lemma synced_full: "synced full c \<Longrightarrow> full \<longrightarrow> full' \<Longrightarrow> synced full' c"
  using ready_usable [of "canvs c" "sceneBuffer c" "cursorAt c" "backState c"]
  by (auto simp: synced_def split: if_splits)

lemma pointer_message:
  assumes "setting S" and "synced full c"
  shows "\<exists>full' d' c'. handlePointerEventMessage S ev (full, d, c) = Inr (full', d', c') \<and> synced full' c'"
proof -
  let ?p = "route_pointer_to_window (ui S) (screenWidth S) (screenHeight S) (snapshot c) ev (pointer c)"
  let ?now = "move_cursor (screenWidth S) (screenHeight S) (pex ev) (pey ev)"
  obtain redraw p d' where hp: "handle_pointer_event (ui S) (kernel S) (screenWidth S) (screenHeight S) (snapshot c) ev (?p, d)
      = (redraw, p, d')" by (cases "handle_pointer_event (ui S) (kernel S) (screenWidth S) (screenHeight S) (snapshot c) ev (?p, d)")
  let ?c = "c\<lparr>pointer := p, cursorAt := ?now\<rparr>"
  have canv: "canvases_ok w h ?c" using assms(2) by (simp add: synced_def canvases_ok_def)
  consider (full) "redraw \<or> full" | (same) "\<not> redraw" "\<not> full" "cursorAt c = ?now" | (moved) "\<not> redraw" "\<not> full" "cursorAt c \<noteq> ?now"
    by blast
  then show ?thesis
  proof cases
    case full
    have "synced True ?c" using synced_full [OF assms(2), of True] canv by (simp add: synced_def)
    then show ?thesis using full by (auto simp: handlePointerEventMessage_def hp Let_def)
  next
    case same
    then have "synced False ?c" using assms(2) canv by (simp add: synced_def)
    then show ?thesis using same by (auto simp: handlePointerEventMessage_def hp Let_def)
  next
    case moved
    have "ready (canvs c) (sceneBuffer c) (cursorAt c) (backState c)" using assms(2) moved by (simp add: synced_def)
    then obtain b where b: "presentCursorMove B (canvs c) (sceneBuffer c) (cursorAt c) ?now img (backState c) = Inr b"
      "ready (canvs c) (sceneBuffer c) ?now b" using move_ready by blast
    have "synced False (?c\<lparr>backState := b\<rparr>)" using b(2) canv moved by (simp add: synced_def canvases_ok_def)
    then show ?thesis using moved b(1) assms(1) by (auto simp: handlePointerEventMessage_def hp Let_def setting_def)
  qed
qed

lemma message_synced:
  assumes "setting S" and "synced full c"
  shows "\<exists>full' d' c'. handleMessage S m (full, d, c) = Inr (full', d', c') \<and> synced full' c'"
proof (cases m)
  case (PointerMessage ev)
  then show ?thesis using pointer_message [OF assms] by (simp add: handleMessage_def)
next
  case (KeyPress super k)
  then show ?thesis using assms(2) synced_cong [of "handleKeyPress super k c" c] by (simp add: handleMessage_def)
next
  case (Request r)
  obtain full' d' c' where r: "handleRequestMessage S r (full, d, c) = (full', d', c')"
    by (cases "handleRequestMessage S r (full, d, c)")
  then have "synced full' c'"
    using request_keeps [OF r] assms(2) synced_cong [of c' c] synced_full by blast
  then show ?thesis using Request r by (simp add: handleMessage_def)
qed (use assms(2) in \<open>simp_all add: handleMessage_def\<close>)

lemma messages_synced:
  assumes "setting S" and "synced full c"
  shows "\<exists>full' d' c'. foreach ms (handleMessage S) (full, d, c) = Inr (full', d', c') \<and> synced full' c'"
  using assms(2)
proof (induction ms arbitrary: full d c)
  case (Cons m ms)
  obtain full' d' c' where "handleMessage S m (full, d, c) = Inr (full', d', c')" "synced full' c'"
    using message_synced [OF assms(1) Cons.prems] by blast
  then show ?case using Cons.IH [of full' c' d'] by simp
qed simp

lemma present_all_synced:
  assumes "setting S" and "canvases_ok w h c" and "usable (canvs c) (backState c)"
  shows "\<exists>c'. present_all S (draw_canvas S on None c) = Inr c' \<and> synced False c'"
proof -
  let ?d = "draw_canvas S on None c"
  have dr: "drawing_ok w h (drawing S)" using assms(1) by (simp add: setting_def)
  note same = draw_canvas_is(2-5) [OF dr assms(2), of on None]
  obtain a where a: "canvs ?d = (canvs c)(sceneBuffer c := a)" "fits w h a"
    using draw_canvas_is(1) [OF dr assms(2), of on None] by blast
  obtain b where b: "presentFull B (canvs ?d) (sceneBuffer c) (cursorAt c) img (backState c) = Inr b"
    "ready (canvs ?d) (sceneBuffer c) (cursorAt c) b"
    using full_ready [OF assms(3) a(2), of "sceneBuffer c" "cursorAt c"] by (auto simp: a(1))
  have "canvases_ok w h ?d" using assms(2) a by (simp add: canvases_ok_def same)
  then have "synced False (?d\<lparr>backState := b\<rparr>)" using b(2) by (simp add: synced_def canvases_ok_def same)
  then show ?thesis using b(1) assms(1) by (simp add: present_all_def setting_def same)
qed

lemma rect_synced:
  assumes "setting S" and "synced False c"
  shows "\<exists>c'. redrawDirtyRect S i d c = Inr c' \<and> synced False c'"
proof -
  let ?r = "clamp_rect (rects (ui S)) d w h"
  let ?d = "draw_canvas S (online i) (Some ?r) c"
  have c: "canvases_ok w h c" "ready (canvs c) (sceneBuffer c) (cursorAt c) (backState c)"
    using assms(2) by (simp_all add: synced_def)
  have dr: "drawing_ok w h (drawing S)" using assms(1) by (simp add: setting_def)
  note same = draw_canvas_is(2-5) [OF dr c(1), of "online i" "Some ?r"]
  obtain a where a: "canvs ?d = (canvs c)(sceneBuffer c := a)" "fits w h a"
    "redrawn_in w h ?r (canvs c (sceneBuffer c)) a"
    using draw_canvas_is(1) [OF dr c(1), of "online i" "Some ?r"] by blast
  obtain b where b: "presentRect B (canvs ?d) (sceneBuffer c) ?r (cursorAt c) img (backState c) = Inr b"
    "ready (canvs ?d) (sceneBuffer c) (cursorAt c) b"
    using rect_ready [OF c(2) a(2,3)] by (auto simp: a(1))
  have "canvases_ok w h ?d" using c(1) a by (simp add: canvases_ok_def same)
  then have "synced False (?d\<lparr>backState := b\<rparr>)" using b(2) by (simp add: synced_def canvases_ok_def same)
  then show ?thesis
    using b(1) assms by (simp add: redrawDirtyRect_def setting_def same Let_def)
qed

lemma full_synced:
  assumes "setting S" and "synced True c"
  shows "\<exists>c'. redrawFullScene S i c = Inr c' \<and> synced False c'"
proof -
  let ?u = "snd (updateWindowSnapshot S (listedAgain i) (acquire c))"
  have d: "on_display ?u = on_display (acquire c)" by simp
  have "canvases_ok w h (acquire c)" "usable (canvs (acquire c)) (backState (acquire c))"
    using assms(2) by (auto simp: synced_def canvases_ok_def acquire_def kCompositorBufferCount_def)
  then have u: "canvases_ok w h ?u" "usable (canvs ?u) (backState ?u)"
    using canvases_ok_cong [OF d] d by (auto simp: on_display_def)
  obtain c' where c': "present_all S (draw_canvas S (online i) None ?u) = Inr c'" "synced False c'"
    using present_all_synced [OF assms(1) u] by blast
  let ?d = "draw_canvas S (online i) None ?u"
  have "present_all S (?d\<lparr>surfaces := clear_surface_dirty_flags (surfaces ?d)\<rparr>) =
      Inr (c'\<lparr>surfaces := clear_surface_dirty_flags (surfaces ?d)\<rparr>)"
    using c'(1) by (auto simp: present_all_def seqE_eq_Inr)
  moreover have "synced False (c'\<lparr>surfaces := cs\<rparr>)" for cs
    using c'(2) synced_cong [of "c'\<lparr>surfaces := cs\<rparr>" c'] by simp
  ultimately show ?thesis by (simp add: redrawFullScene_def Let_def)
qed

lemma changed_synced:
  assumes "setting S" and "synced full c"
  shows "\<exists>c'. redraw_changed S i full sd d c = Inr c' \<and> synced False c'"
proof (cases full)
  case True
  then show ?thesis using full_synced [OF assms(1)] assms(2) by (simp add: redraw_changed_def)
next
  case False
  then have s: "synced False c" "synced False (c\<lparr>surfaces := cs\<rparr>)" for cs
    using assms(2) synced_cong [of "c\<lparr>surfaces := cs\<rparr>" c] by simp_all
  have "\<exists>c''. (if empty_rect (rects (ui S)) r then Inr c' else redrawDirtyRect S i r c') = Inr c'' \<and> synced False c''"
    if "synced False c'" for r c'
    using that rect_synced [OF assms(1) that] by simp
  then show ?thesis using s False by (simp add: redraw_changed_def split_beta Let_def)
qed

lemma refresh_synced:
  assumes "setting S" and "synced full c"
  shows "\<exists>c'. refresh S i sd (full, d, c) = Inr c' \<and> synced False c'"
proof -
  define full2 where "full2 = (full \<or> online i \<noteq> shownOnline c)"
  define c2 where "c2 = (if online i \<noteq> shownOnline c then c\<lparr>shownOnline := online i\<rparr> else c)"
  have net: "(if online i \<noteq> shownOnline c then (True, c\<lparr>shownOnline := online i\<rparr>) else (full, c)) = (full2, c2)"
    by (simp add: c2_def full2_def)
  define c3 where "c3 = snd (pumpSurfaceUpdatesOnce S (polled i 1) c2)"
  define c4 where "c4 = snd (updateWindowSnapshot S (listed i) c3)"
  define c5 where "c5 = snd (pumpSurfaceUpdatesOnce S (polled i 2) c4)"
  have "on_display c2 = on_display c" by (simp add: c2_def)
  then have "on_display c5 = on_display c" by (simp add: c5_def c4_def c3_def)
  then have "synced (full2 \<or> ch) c5" for ch
    using synced_full [OF assms(2), of "full2 \<or> ch"] synced_cong [of c5 c] by (simp add: full2_def)
  from changed_synced [OF assms(1) this] show ?thesis
    unfolding refresh_def case_prod_conv net by (simp add: Let_def split_beta c3_def c4_def c5_def)
qed

lemma pass_synced:
  assumes "setting S" and "synced False c"
  shows "\<exists>c'. runOnce S i c = Inr c' \<and> synced False c'"
proof -
  obtain sd c0 where c0: "pumpSurfaceUpdatesOnce S (polled i 0) c = (sd, c0)" by force
  have "synced False c0" using assms(2) synced_cong [of c0 c] pump_keeps [of S "polled i 0" c] c0 by simp
  from messages_synced [OF assms(1) this] obtain full d c1 where
    "foreach (if sd then queued i else (case waited i of Some m \<Rightarrow> [m] | None \<Rightarrow> []) @ queued i) (handleMessage S)
       (False, no_rect, c0) = Inr (full, d, c1)" "synced full c1" by blast
  then show ?thesis using refresh_synced [OF assms(1)] by (simp add: runOnce_def c0 Let_def)
qed

lemma commit_synced:
  assumes "setting S" and "synced False c"
  shows "\<exists>c'. commit_frame S c = Inr c' \<and> synced False c' \<and>
    shows_picture C w h (canvs c' (sceneBuffer c')) (cursorAt c') img (screen (backState c'))"
proof -
  obtain b where "commit B (canvs c) (backState c) = Inr b" "ready (canvs c) (sceneBuffer c) (cursorAt c) b"
    "shows_picture C w h (canvs c (sceneBuffer c)) (cursorAt c) img (screen b)"
    using commit_ready [of "canvs c" "sceneBuffer c" "cursorAt c" "backState c"] assms(2) by (auto simp: synced_def)
  moreover have "canvases_ok w h (c\<lparr>backState := b\<rparr>)" for b using assms(2) by (simp add: synced_def canvases_ok_def)
  ultimately show ?thesis using assms(1) by (simp add: commit_frame_def setting_def synced_def)
qed

lemma pass_shows:
  assumes "setting S" and "synced False c"
  shows "\<exists>c'. event_pass S i c = Inr c' \<and> synced False c' \<and>
    shows_picture C w h (canvs c' (sceneBuffer c')) (cursorAt c') img (screen (backState c'))"
  using pass_synced [OF assms, of i] commit_synced [OF assms(1)] by (fastforce simp: event_pass_def)

lemma start_shows:
  assumes "setting S" and "\<forall>k<kCompositorBufferCount. fits w h (canv k)" and "\<forall>canv. usable canv b"
  shows "\<exists>c'. renderInitialScene S i (new_compositor S canv path b) = Inr c' \<and> synced False c' \<and>
    shows_picture C w h (canvs c' (sceneBuffer c')) (cursorAt c') img (screen (backState c'))"
proof -
  let ?c = "snd (updateWindowSnapshot S (listed i) (acquire (new_compositor S canv path b)))"
  have d: "on_display ?c = on_display (acquire (new_compositor S canv path b))" by simp
  have "canvases_ok w h (acquire (new_compositor S canv path b))"
    using assms(2) by (simp add: canvases_ok_def acquire_def new_compositor_def kCompositorBufferCount_def)
  then have ok: "canvases_ok w h ?c" using canvases_ok_cong [OF d] by simp
  have "backState ?c = b" using d by (simp add: on_display_def acquire_def new_compositor_def)
  then have "usable (canvs ?c) (backState ?c)" using assms(3) by simp
  from present_all_synced [OF assms(1) ok this, of "online i"]
  show ?thesis using commit_synced [OF assms(1)] by (fastforce simp: renderInitialScene_def Let_def)
qed

end

section \<open>With the flip back end\<close>

text \<open>Runs of the compositor: the first frame, then passes of the loop.\<close>

inductive compositor_run :: "('s, 'c) desktop \<Rightarrow> canvases \<Rightarrow> string \<Rightarrow> 's \<Rightarrow> 's compositor \<Rightarrow> bool"
  for S canv path b where
  first: "renderInitialScene S i (new_compositor S canv path b) = Inr c \<Longrightarrow> compositor_run S canv path b c"
| pass: "\<lbrakk>compositor_run S canv path b c; event_pass S i c = Inr c'\<rbrakk> \<Longrightarrow> compositor_run S canv path b c'"

context compositor_backend
begin

lemma run_shows:
  assumes "setting S" and "\<forall>k<kCompositorBufferCount. fits w h (canv k)" and "\<forall>canv. usable canv b"
    and "compositor_run S canv path b c"
  shows "synced False c \<and> shows_picture C w h (canvs c (sceneBuffer c)) (cursorAt c) img (screen (backState c))"
  using assms(4)
proof induction
  case (first i c)
  then show ?case using start_shows [where i = i and path = path, OF assms(1-3)] by simp
next
  case (pass c i c')
  then show ?case using pass_shows [OF assms(1), of c i] by simp
qed

end

lemma flip_start_usable:
  assumes "drawing_laws U C img" and "fits w h t" and "flip_acquire env em (new_flip t) = (True, s)"
    and "\<forall>b\<in>set (bufs s). w \<le> rpitch b" and "flip_initialize env t s = (True, s')"
  shows "flip_usable U C w h img canv s'"
  using flip_start_ok [OF assms(2-5)] assms(1) by (simp add: flip_usable_def)

text \<open>
  C1: The screen follows the scene: started on the display and after any number of passes of the event
  loop, whatever commits, messages and windows they find and however the display answers, the
  screen shows exactly the canvas the scene was drawn on last with the pointer at its current
  place; the first frame and the next pass always end, without an access outside the pixels.
\<close>
theorem screen_follows_scene:
  assumes "drawing_laws U C img" and "backend S = flip_backend U C env" and "pointerImage S = img"
    and "drawing_ok (screenWidth S) (screenHeight S) (drawing S)"
    and "fits (screenWidth S) (screenHeight S) t" and "flip_acquire env em (new_flip t) = (True, s)"
    and "\<forall>b\<in>set (bufs s). screenWidth S \<le> rpitch b" and "flip_initialize env t s = (True, s')"
    and "\<forall>k<kCompositorBufferCount. fits (screenWidth S) (screenHeight S) (canv k)"
  shows "(\<exists>c. renderInitialScene S i (new_compositor S canv path s') = Inr c) \<and>
    (compositor_run S canv path s' c \<longrightarrow>
       shows_picture C (screenWidth S) (screenHeight S) (canvs c (sceneBuffer c)) (cursorAt c) img (flip_shown (backState c)) \<and>
       (\<exists>c'. event_pass S i c = Inr c'))"
proof -
  have set: "flipping.setting U C env (screenWidth S) (screenHeight S) img S"
    using assms(2-4) by (simp add: flipping.setting_def)
  have use: "\<forall>canv'. flip_usable U C (screenWidth S) (screenHeight S) img canv' s'"
    using flip_start_usable [OF assms(1,5-8)] by blast
  note fit = assms(9)
  show ?thesis
    using flipping.start_shows [where i = i and path = path, OF set fit use]
      flipping.run_shows [where path = path and c = c, OF set fit use] flipping.pass_shows [where c = c and i = i, OF set]
    by blast
qed

definition small_desktop :: "(32 word flip, 32 word) desktop" where
  "small_desktop =
     \<lparr>ui = plain_ui, pointerImage = dot_image, screenWidth = 2, screenHeight = 1,
      backend = flip_backend plain_rects word_colors small_display, drawing = (\<lambda>sc part a. a),
      wallpaper = (\<lambda>p. False), serviceVersion = 1, opHello = 1, opSetBackground = 2, kernel = (\<lambda>log c. True)\<rparr>"

definition no_input :: pass_input where
  "no_input = \<lparr>polled = (\<lambda>p. []), waited = None, queued = [], online = False, listed = None, listedAgain = None\<rparr>"

theorem screen_follows_scene_witness:
  "\<exists>b c. compositor_run small_desktop (\<lambda>k. filled 7) [] b c \<and>
     shows_picture word_colors 2 1 (canvs c (sceneBuffer c)) (cursorAt c) dot_image (flip_shown (backState c))"
proof -
  let ?t = "filled 0"
  define s0 :: "32 word flip" where "s0 = snd (flip_acquire small_display False (new_flip ?t))"
  define s1 where "s1 = snd (flip_initialize small_display ?t s0)"
  have start: "flip_acquire small_display False (new_flip ?t) = (True, s0)"
    "\<forall>b\<in>set (bufs s0). 2 \<le> rpitch b" "flip_initialize small_display ?t s0 = (True, s1)"
    by (simp_all add: s0_def s1_def flip_acquire_def display_def small_display_def new_flip_def
        flip_initialize_def filled_def kBuffers_def Let_def)
  have fit: "fits 2 1 (filled v)" for v by (simp add: fits_def filled_def)
  have laws: "drawing_laws plain_rects word_colors dot_image"
    using plain_rects_laws word_colors_laws by (simp add: drawing_laws_def good_image_def dot_image_def)
  have dr: "drawing_ok 2 1 (drawing small_desktop)" by (simp add: drawing_ok_def redrawn_in_def small_desktop_def)
  have sc: "(\<exists>c. renderInitialScene small_desktop no_input (new_compositor small_desktop (\<lambda>k. filled 7) [] s1) = Inr c) \<and>
      (compositor_run small_desktop (\<lambda>k. filled 7) [] s1 c \<longrightarrow>
       shows_picture word_colors 2 1 (canvs c (sceneBuffer c)) (cursorAt c) dot_image (flip_shown (backState c)) \<and>
       (\<exists>c'. event_pass small_desktop no_input c = Inr c'))" for c
    using screen_follows_scene [where S = small_desktop and env = small_display and t = ?t and em = False and s = s0
        and s' = s1 and canv = "\<lambda>k. filled 7" and i = no_input and path = "[]" and c = c, OF laws] start fit dr
    by (simp add: small_desktop_def)
  then obtain c where "renderInitialScene small_desktop no_input (new_compositor small_desktop (\<lambda>k. filled 7) [] s1) = Inr c"
    by blast
  then have "compositor_run small_desktop (\<lambda>k. filled 7) [] s1 c" by (rule compositor_run.first)
  then show ?thesis using sc by blast
qed

end
