(* ===== verification/File_Browser.thy ===== *)
theory File_Browser
  imports Prelude
begin

text \<open>
  The file browser, \<open>src/file-browser/src/main.cpp\<close>: the listing of a folder, sorted and filtered,
  the paths, the history behind Back and Forward, the places, the breadcrumb and the keys. The
  widgets belong to the user interface library: of the list, the search box and the status line
  the model keeps the values the code gives them and reads back. Strings are their characters
  before the NUL, so they hold no NUL.
\<close>

section \<open>Text\<close>

definition kMaxEntries :: nat where "kMaxEntries = 512"
definition kMaxPlaces :: nat where "kMaxPlaces = 16"
definition kHistory :: nat where "kHistory = 32"

definition append_text :: "nat \<Rightarrow> string \<Rightarrow> string \<Rightarrow> string" where
  "append_text capacity buffer src = append_loop capacity buffer src"

definition append_uint :: "nat \<Rightarrow> nat \<Rightarrow> string \<Rightarrow> string" where
  "append_uint capacity value buffer = append_text capacity buffer (decimal value)"

definition copy_string :: "nat \<Rightarrow> string \<Rightarrow> string" where
  "copy_string capacity src = bounded_copy capacity src"

text \<open>Characters are signed: bytes from 128 up are negative.\<close>

definition signed_char :: "char \<Rightarrow> int" where
  "signed_char c = (let n = of_char c :: int in if n < 128 then n else n - 256)"

definition ascii_lower :: "char \<Rightarrow> char" where
  "ascii_lower c =
     (if signed_char (CHR ''A'') \<le> signed_char c \<and> signed_char c \<le> signed_char (CHR ''Z'')
      then char_of (of_char c - of_char (CHR ''A'') + of_char (CHR ''a'') :: nat) else c)"

text \<open>The inner loop of \<open>contains_folded\<close>; the end of the name differs from every character.\<close>

fun match_here :: "string \<Rightarrow> string \<Rightarrow> bool" where
  "match_here name [] = True"
| "match_here [] (n # ns) = False"
| "match_here (c # cs) (n # ns) = (if ascii_lower c = ascii_lower n then match_here cs ns else False)"

fun contains_loop :: "string \<Rightarrow> string \<Rightarrow> bool" where
  "contains_loop [] needle = False"
| "contains_loop (c # cs) needle = (if match_here (c # cs) needle then True else contains_loop cs needle)"

definition contains_folded :: "string \<Rightarrow> string \<Rightarrow> bool" where
  "contains_folded name needle = (if needle = [] then True else contains_loop name needle)"

text \<open>\<open>dot\<close> is the text after the last dot seen so far.\<close>

fun extension_loop :: "string option \<Rightarrow> string \<Rightarrow> string option" where
  "extension_loop dot [] = dot"
| "extension_loop dot (c # cs) = extension_loop (if c = CHR ''.'' then Some cs else dot) cs"

definition extension_of :: "string \<Rightarrow> string" where
  "extension_of name = (case extension_loop None name of Some ext \<Rightarrow> ext | None \<Rightarrow> [])"

fun equals_folded :: "string \<Rightarrow> string \<Rightarrow> bool" where
  "equals_folded (a # as) (b # bs) = (if ascii_lower a \<noteq> ascii_lower b then False else equals_folded as bs)"
| "equals_folded [] [] = True"
| "equals_folded [] (b # bs) = False"
| "equals_folded (a # as) [] = False"

definition is_launchable_name :: "string \<Rightarrow> bool" where
  "is_launchable_name name = (CHR ''.'' \<notin> set name \<and> name \<noteq> [])"

section \<open>Entries\<close>

datatype file_type = Regular | Directory | OtherFile

record entry =
  ename :: string
  etype :: file_type
  executable :: bool
  esize :: nat

definition kind_of :: "entry \<Rightarrow> string" where
  "kind_of e =
     (if etype e = Directory then ''Folder''
      else if executable e then ''Program''
      else let ext = extension_of (ename e)
      in if equals_folded ext ''ttf'' \<or> equals_folded ext ''otf'' then ''Font''
         else if equals_folded ext ''png'' \<or> equals_folded ext ''jpg'' \<or> equals_folded ext ''svg'' then ''Image''
         else if equals_folded ext ''txt'' \<or> equals_folded ext ''md'' \<or> equals_folded ext ''c'' \<or>
           equals_folded ext ''h'' \<or> equals_folded ext ''map'' then ''Text''
         else ''File'')"

text \<open>Sizes are 64-bit: the products wrap around.\<close>

definition u64_mod :: nat where "u64_mod = 18446744073709551616"

definition format_size :: "nat \<Rightarrow> entry \<Rightarrow> string" where
  "format_size capacity e =
     (if etype e = Directory then append_text capacity [] ''-''
      else if esize e < 1024
      then append_text capacity (append_uint capacity (esize e) []) '' B''
      else if esize e < 1024 * 1024
      then append_text capacity (append_uint capacity ((esize e + 512) div 1024) []) '' KB''
      else let tenths = (esize e * 10 + 512 * 1024) mod u64_mod div (1024 * 1024)
      in append_text capacity (append_uint capacity (tenths mod 10)
           (append_text capacity (append_uint capacity (tenths div 10) []) ''.'')) '' MB'')"

text \<open>\<open>compare_names\<close>, over both names and their terminating NULs.\<close>

fun compare_names :: "string \<Rightarrow> string \<Rightarrow> int" where
  "compare_names [] [] = 0"
| "compare_names [] (b # bs) = (if 0 < signed_char (ascii_lower b) then -1 else 1)"
| "compare_names (a # as) [] = (if signed_char (ascii_lower a) < 0 then -1 else 1)"
| "compare_names (a # as) (b # bs) =
     (let a' = ascii_lower a; b' = ascii_lower b
      in if a' \<noteq> b' then (if signed_char a' < signed_char b' then -1 else 1) else compare_names as bs)"

definition entry_before :: "entry \<Rightarrow> entry \<Rightarrow> bool" where
  "entry_before l r =
     (let lDir = (etype l = Directory); rDir = (etype r = Directory)
      in if lDir \<noteq> rDir then lDir else compare_names (ename l) (ename r) < 0)"

fun shift_entry :: "entry \<Rightarrow> nat \<Rightarrow> entry list \<Rightarrow> entry list" where
  "shift_entry moving 0 es = es[0 := moving]"
| "shift_entry moving (Suc j) es =
     (if entry_before moving (es ! j) then shift_entry moving j (es[Suc j := es ! j]) else es[Suc j := moving])"

definition sort_entries :: "entry list \<Rightarrow> entry list" where
  "sort_entries es = fold (\<lambda>i es. shift_entry (es ! i) i es) [1..<length es] es"

section \<open>Paths\<close>

definition path_is_root :: "string \<Rightarrow> bool" where
  "path_is_root path = (path = ''/'')"

definition build_child_path :: "nat \<Rightarrow> string \<Rightarrow> string \<Rightarrow> string" where
  "build_child_path capacity base name =
     (let out = append_text capacity [] base;
          out = (if \<not> path_is_root base then append_text capacity out ''/'' else out)
      in append_text capacity out name)"

function strip_while :: "(char \<Rightarrow> bool) \<Rightarrow> string \<Rightarrow> string" where
  "strip_while p s = (if 1 < length s \<and> p (last s) then strip_while p (butlast s) else s)"
  by pat_completeness auto
termination
  by (relation "measure (\<lambda>(p, s). length s)") auto

declare strip_while.simps [simp del]

definition build_parent_path :: "nat \<Rightarrow> string \<Rightarrow> string" where
  "build_parent_path capacity current =
     (let out = copy_string capacity current;
          out = strip_while (\<lambda>c. c = CHR ''/'') out;
          out = strip_while (\<lambda>c. c \<noteq> CHR ''/'') out;
          out = (if 1 < length out \<and> last out = CHR ''/'' then butlast out else out)
      in if out = [] then copy_string capacity ''/'' else out)"

text \<open>The name after the last slash, \<open>open_parent\<close>.\<close>

fun last_name :: "string \<Rightarrow> string \<Rightarrow> string" where
  "last_name name [] = name"
| "last_name name (c # cs) = last_name (if c = CHR ''/'' then cs else name) cs"

section \<open>The breadcrumb\<close>

record crumb =
  segName :: string
  segPath :: string

definition kMaxSegments :: nat where "kMaxSegments = 12"

definition add_segment :: "string \<Rightarrow> string \<Rightarrow> crumb list \<Rightarrow> crumb list" where
  "add_segment name path segs =
     (if length segs = kMaxSegments then segs
      else segs @ [\<lparr>segName = copy_string 64 name, segPath = copy_string 256 path\<rparr>])"

lemma segment_consumed:
  assumes "q = dropWhile (\<lambda>c. c = CHR ''/'') p" and "q \<noteq> []"
    and "name = take 63 (takeWhile (\<lambda>c. c \<noteq> CHR ''/'') q)"
  shows "length (drop (length name) q) < length p"
proof -
  have "hd q \<noteq> CHR ''/''" using assms(1,2) hd_dropWhile [of "\<lambda>c. c = CHR ''/''" p] by auto
  then have "name \<noteq> []" using assms(2,3) by (cases q) auto
  moreover have "length q \<le> length p" by (simp add: assms(1) length_dropWhile_le)
  ultimately show ?thesis using assms(2) by (cases name; cases q) auto
qed

text \<open>The outer loop; a name takes up to 63 characters before the next slash.\<close>

function layout_loop :: "string \<Rightarrow> string \<Rightarrow> crumb list \<Rightarrow> crumb list" where
  "layout_loop p path segs =
     (let p = dropWhile (\<lambda>c. c = CHR ''/'') p
      in if p = [] then segs
         else let name = take 63 (takeWhile (\<lambda>c. c \<noteq> CHR ''/'') p);
                  path = (if \<not> path_is_root path then append_text 256 path ''/'' else path);
                  path = append_text 256 path name
              in layout_loop (drop (length name) p) path (add_segment name path segs))"
  by pat_completeness auto
termination
  by (relation "measure (\<lambda>(p, path, segs). length p)") (simp, unfold in_measure case_prod_conv, rule segment_consumed, assumption+)

declare layout_loop.simps [simp del]

definition breadcrumb :: "string \<Rightarrow> crumb list" where
  "breadcrumb path = layout_loop path ''/'' (add_segment ''/'' ''/'' [])"

text \<open>\<open>mouse_down\<close>: a click on a segment, the last one apart, goes to its path.\<close>

definition breadcrumb_click :: "string \<Rightarrow> nat \<Rightarrow> string option" where
  "breadcrumb_click path i =
     (let segs = breadcrumb path in if i < length segs - 1 then Some (segPath (segs ! i)) else None)"

section \<open>State\<close>

datatype browser_call = ReadDir string | StatFile string | Spawn string

datatype browser_reply = Failed | Listing "(string \<times> file_type) list" | FileSize nat | Started

type_synonym browser_env = "(browser_call, browser_reply) environment"

text \<open>The visible rows are indices of entries; \<open>selected\<close> is the row the list has selected, or -1.\<close>

record browser =
  currentPath :: string
  entries :: "entry list"
  visible :: "nat list"
  selected :: int
  search :: string
  placeNames :: "string list"
  place :: nat
  backStack :: "string list"
  forwardStack :: "string list"
  crumbs :: string
  message :: string
  messageIsError :: bool
  statusText :: string
  statusError :: bool
  closed :: bool
  bcalls :: "browser_call list"

definition new_browser :: browser where
  "new_browser =
     \<lparr>currentPath = ''/bin'', entries = [], visible = [], selected = -1, search = [], placeNames = [],
      place = 0, backStack = [], forwardStack = [], crumbs = ''/'', message = [], messageIsError = False,
      statusText = [], statusError = False, closed = False, bcalls = []\<rparr>"

definition ask_browser :: "browser_env \<Rightarrow> browser_call \<Rightarrow> browser \<Rightarrow> browser_reply \<times> browser" where
  "ask_browser env c b = (env (bcalls b) c, b\<lparr>bcalls := bcalls b @ [c]\<rparr>)"

section \<open>Places\<close>

definition keep_place :: "string \<times> file_type \<Rightarrow> string list \<Rightarrow> string list" where
  "keep_place d names =
     (if kMaxPlaces \<le> length names then names
      else if snd d \<noteq> Directory \<or> take 1 (fst d) = ''.'' then names
      else names @ [copy_string 64 (fst d)])"

fun sink_place :: "nat \<Rightarrow> string list \<Rightarrow> string list" where
  "sink_place 0 names = names"
| "sink_place (Suc j) names =
     (if 1 < Suc j \<and> compare_names (names ! Suc j) (names ! j) < 0
      then sink_place j (names[Suc j := names ! j, j := names ! Suc j]) else names)"

definition load_places :: "browser_env \<Rightarrow> browser \<Rightarrow> browser" where
  "load_places env b =
     (case ask_browser env (ReadDir ''/'') b of
        (r, b) \<Rightarrow>
          let dirs = (case r of Listing ds \<Rightarrow> take kMaxEntries ds | _ \<Rightarrow> []);
              names = fold keep_place dirs [''Root'']
          in b\<lparr>placeNames := fold sink_place [2..<length names] names\<rparr>)"

text \<open>\<open>strncmp\<close> of the whole place, and the path ends or goes on with a slash there.\<close>

definition in_place :: "string \<Rightarrow> string \<Rightarrow> bool" where
  "in_place p name =
     (take (length name) p = name \<and> (drop (length name) p = [] \<or> take 1 (drop (length name) p) = ''/''))"

fun find_place :: "string \<Rightarrow> nat \<Rightarrow> string list \<Rightarrow> nat" where
  "find_place p i [] = 0"
| "find_place p i (n # ns) = (if in_place p n then i else find_place p (Suc i) ns)"

definition sync_place :: "browser \<Rightarrow> browser" where
  "sync_place b = b\<lparr>place := find_place (drop 1 (currentPath b)) 1 (drop 1 (placeNames b))\<rparr>"

section \<open>The listing\<close>

definition selected_name :: "browser \<Rightarrow> string option" where
  "selected_name b =
     (if 0 \<le> selected b \<and> selected b < int (length (visible b))
      then Some (ename (entries b ! (visible b ! nat (selected b)))) else None)"

definition show_status :: "browser \<Rightarrow> browser" where
  "show_status b =
     (if message b \<noteq> []
      then b\<lparr>statusText := message b, statusError := messageIsError b, message := []\<rparr>
      else
        let line = (if entries b = [] then append_text 200 [] ''Empty folder''
          else let line = (if length (visible b) \<noteq> length (entries b)
                   then append_text 200 (append_uint 200 (length (visible b)) []) '' of '' else []);
                 line = append_uint 200 (length (entries b)) line;
                 line = append_text 200 line (if length (entries b) = 1 then '' item'' else '' items'')
             in case selected_name b of
                  Some name \<Rightarrow> append_text 200 (append_text 200 (append_text 200 line ''  -  '') name) '' selected''
                | None \<Rightarrow> line)
        in b\<lparr>statusText := line, statusError := False\<rparr>)"

definition set_message :: "string \<Rightarrow> bool \<Rightarrow> browser \<Rightarrow> browser" where
  "set_message msg error b = show_status (b\<lparr>message := copy_string 160 msg, messageIsError := error\<rparr>)"

text \<open>One entry of the filter's loop: the visible rows so far, and the row to select, or -1.\<close>

definition filter_entry :: "entry list \<Rightarrow> string \<Rightarrow> string \<Rightarrow> nat \<Rightarrow> nat list \<times> int \<Rightarrow> nat list \<times> int" where
  "filter_entry es needle keep i = (\<lambda>(vis, sel).
     if \<not> contains_folded (ename (es ! i)) needle then (vis, sel)
     else (vis @ [i],
           if keep \<noteq> [] \<and> sel < 0 \<and> ename (es ! i) = keep then int (length vis) else sel))"

definition apply_filter :: "string option \<Rightarrow> browser \<Rightarrow> browser" where
  "apply_filter select b =
     (let previous = (case select of Some n \<Rightarrow> Some n | None \<Rightarrow> selected_name b);
          keep = (case previous of Some n \<Rightarrow> copy_string 256 n | None \<Rightarrow> []);
          (vis, sel) = fold (filter_entry (entries b) (search b) keep) [0..<length (entries b)] ([], -1);
          sel = (if sel < 0 \<and> vis \<noteq> [] then 0 else sel)
      in show_status (b\<lparr>visible := vis, selected := sel\<rparr>))"

definition read_entry :: "browser_env \<Rightarrow> string \<times> file_type \<Rightarrow> browser \<Rightarrow> browser" where
  "read_entry env d b =
     (if kMaxEntries \<le> length (entries b) \<or> fst d = ''.'' \<or> fst d = ''..'' then b
      else let e = \<lparr>ename = fst d, etype = snd d,
                   executable = (snd d = Regular \<and> is_launchable_name (fst d)), esize = 0\<rparr>
      in if snd d \<noteq> Regular then b\<lparr>entries := entries b @ [e]\<rparr>
         else case ask_browser env (StatFile (build_child_path 256 (currentPath b) (fst d))) b of
                (FileSize n, b) \<Rightarrow> b\<lparr>entries := entries b @ [e\<lparr>esize := n\<rparr>]\<rparr>
              | (_, b) \<Rightarrow> b\<lparr>entries := entries b @ [e]\<rparr>)"

text \<open>Reading the current folder: whether it could be read.\<close>

definition read_folder :: "browser_env \<Rightarrow> browser \<Rightarrow> bool \<times> browser" where
  "read_folder env b =
     (case ask_browser env (ReadDir (currentPath b)) b of
        (Listing ds, b) \<Rightarrow> (True, fold (read_entry env) (take kMaxEntries ds) b)
      | (_, b) \<Rightarrow> (False, b))"

definition load_directory :: "browser_env \<Rightarrow> string option \<Rightarrow> browser \<Rightarrow> browser" where
  "load_directory env select b =
     (let keep = (case select of Some n \<Rightarrow> copy_string 256 n | None \<Rightarrow> []);
          (found, b) = read_folder env
            (b\<lparr>crumbs := copy_string 256 (currentPath b), message := [], entries := []\<rparr>);
          b = apply_filter (Some keep) (b\<lparr>entries := sort_entries (entries b)\<rparr>)
      in sync_place (if found then b else set_message ''Cannot read this folder'' True b))"

section \<open>History\<close>

definition push_history :: "string list \<Rightarrow> string \<Rightarrow> string list" where
  "push_history stack path =
     (if length stack = kHistory then drop 1 stack else stack) @ [copy_string 256 path]"

definition navigate :: "browser_env \<Rightarrow> string \<Rightarrow> string option \<Rightarrow> browser \<Rightarrow> browser" where
  "navigate env path select b =
     (if path = currentPath b then b
      else load_directory env select
        (b\<lparr>backStack := push_history (backStack b) (currentPath b), forwardStack := [],
           currentPath := copy_string 256 path, search := []\<rparr>))"

definition go_back :: "browser_env \<Rightarrow> browser \<Rightarrow> browser" where
  "go_back env b =
     (if backStack b = [] then b
      else load_directory env None
        (b\<lparr>forwardStack := push_history (forwardStack b) (currentPath b),
           currentPath := copy_string 256 (last (backStack b)), backStack := butlast (backStack b),
           search := []\<rparr>))"

definition go_forward :: "browser_env \<Rightarrow> browser \<Rightarrow> browser" where
  "go_forward env b =
     (if forwardStack b = [] then b
      else load_directory env None
        (b\<lparr>backStack := push_history (backStack b) (currentPath b),
           currentPath := copy_string 256 (last (forwardStack b)), forwardStack := butlast (forwardStack b),
           search := []\<rparr>))"

definition open_parent :: "browser_env \<Rightarrow> browser \<Rightarrow> browser" where
  "open_parent env b =
     (if path_is_root (currentPath b) then b
      else navigate env (build_parent_path 256 (currentPath b))
             (Some (copy_string 256 (last_name (currentPath b) (currentPath b)))) b)"

definition open_place :: "browser_env \<Rightarrow> int \<Rightarrow> browser \<Rightarrow> browser" where
  "open_place env row b =
     (if row \<le> 0 then navigate env ''/'' None b
      else navigate env (append_text 256 ''/'' (placeNames b ! nat row)) None b)"

definition open_entry :: "browser_env \<Rightarrow> int \<Rightarrow> browser \<Rightarrow> browser" where
  "open_entry env row b =
     (if row < 0 \<or> int (length (visible b)) \<le> row then b
      else let e = entries b ! (visible b ! nat row);
               path = build_child_path 256 (currentPath b) (ename e)
      in if etype e = Directory then navigate env path None b
         else if \<not> executable e then set_message ''Not a program'' True b
         else case ask_browser env (Spawn path) b of
                (Failed, b) \<Rightarrow> set_message ''Could not start it'' True b
              | (_, b) \<Rightarrow> set_message (append_text 160 (append_text 160 [] ''Started '') (ename e)) False b)"

section \<open>Events\<close>

datatype browser_key = KeyF | KeyUp | KeyLeft | KeyRight | KeyBackspace | KeyF5 | KeyEscape | OtherKey

definition on_key :: "browser_env \<Rightarrow> bool \<Rightarrow> bool \<Rightarrow> browser_key \<Rightarrow> browser \<Rightarrow> bool \<times> browser" where
  "on_key env ctrl alt k b =
     (if ctrl \<and> k = KeyF then (True, b)
      else if ctrl then (False, b)
      else if alt then
        (case k of
           KeyUp \<Rightarrow> (True, open_parent env b)
         | KeyLeft \<Rightarrow> (True, go_back env b)
         | KeyRight \<Rightarrow> (True, go_forward env b)
         | _ \<Rightarrow> (False, b))
      else
        (case k of
           KeyBackspace \<Rightarrow> (True, open_parent env b)
         | KeyF5 \<Rightarrow> (True, load_directory env (selected_name b) b)
         | KeyEscape \<Rightarrow>
             (True, if search b \<noteq> [] then apply_filter None (b\<lparr>search := []\<rparr>) else b\<lparr>closed := True\<rparr>)
         | _ \<Rightarrow> (False, b)))"

definition on_create_browser :: "browser_env \<Rightarrow> browser \<Rightarrow> browser" where
  "on_create_browser env b = load_directory env None (load_places env b)"

text \<open>What the user does: keys, the buttons, a row, a place, a crumb, the search text.\<close>

datatype browser_event =
    PressKey bool bool browser_key | ClickBack | ClickForward | ClickUp | ActivateRow int | SelectRow int
  | ClickPlace int | ClickCrumb nat | TypeSearch string

definition browser_step :: "browser_env \<Rightarrow> browser_event \<Rightarrow> browser \<Rightarrow> browser" where
  "browser_step env ev b =
     (case ev of
        PressKey ctrl alt k \<Rightarrow> snd (on_key env ctrl alt k b)
      | ClickBack \<Rightarrow> go_back env b
      | ClickForward \<Rightarrow> go_forward env b
      | ClickUp \<Rightarrow> open_parent env b
      | ActivateRow row \<Rightarrow> open_entry env row b
      | SelectRow row \<Rightarrow> show_status (b\<lparr>selected := row\<rparr>)
      | ClickPlace row \<Rightarrow> open_place env row b
      | ClickCrumb i \<Rightarrow>
          (case breadcrumb_click (crumbs b) i of Some path \<Rightarrow> navigate env path None b | None \<Rightarrow> b)
      | TypeSearch needle \<Rightarrow> apply_filter None (b\<lparr>search := needle\<rparr>))"

definition browser_run :: "browser_env \<Rightarrow> browser_event list \<Rightarrow> browser" where
  "browser_run env evs = fold (browser_step env) evs (on_create_browser env new_browser)"

end
