(* ===== verification/File_Sorting.thy ===== *)
theory File_Sorting
  imports File_Browser "HOL-Library.List_Lexorder" "HOL-Library.Multiset"
begin

text \<open>
  The file browser's listing: the insertion sort is a stable sort by a key that puts folders first
  and then folds the names.
\<close>

section \<open>The order of names\<close>

text \<open>The key of an entry: folders first, then the folded name with its NUL.\<close>

datatype name_key = Name_Key (not_folder: bool) (folded: "int list")

instantiation name_key :: linorder
begin

definition less_eq_name_key :: "name_key \<Rightarrow> name_key \<Rightarrow> bool" where
  "k \<le> l \<longleftrightarrow> not_folder k < not_folder l \<or> not_folder k = not_folder l \<and> folded k \<le> folded l"

definition less_name_key :: "name_key \<Rightarrow> name_key \<Rightarrow> bool" where
  "k < l \<longleftrightarrow> not_folder k < not_folder l \<or> not_folder k = not_folder l \<and> folded k < folded l"

instance
  by standard (auto simp: less_eq_name_key_def less_name_key_def name_key.expand)

end

definition fold_name :: "string \<Rightarrow> int list" where
  "fold_name name = map (\<lambda>c. signed_char (ascii_lower c)) name @ [0]"

definition entry_key :: "entry \<Rightarrow> name_key" where
  "entry_key e = Name_Key (etype e \<noteq> Directory) (fold_name (ename e))"

definition c_string :: "string \<Rightarrow> bool" where
  "c_string s \<longleftrightarrow> CHR 0x00 \<notin> set s"

lemma of_char_range: "0 \<le> (of_char c :: int) \<and> (of_char c :: int) < 256"
  by (simp add: of_char_def)

lemma signed_char_inj [simp]: "signed_char a = signed_char b \<longleftrightarrow> a = b"
proof
  assume eq: "signed_char a = signed_char b"
  have "(of_char a :: int) = of_char b"
    using eq of_char_range [of a] of_char_range [of b] by (auto simp: signed_char_def Let_def split: if_splits)
  then show "a = b" by simp
qed simp

lemma signed_char_0 [simp]: "signed_char c = 0 \<longleftrightarrow> c = CHR 0x00"
  using signed_char_inj [of c "CHR 0x00"] by (simp add: signed_char_def)

lemma ascii_lower_0 [simp]: "ascii_lower c = CHR 0x00 \<longleftrightarrow> c = CHR 0x00"
proof (cases "ascii_lower c = c")
  case False
  then have "signed_char (CHR ''A'') \<le> signed_char c" "signed_char c \<le> signed_char (CHR ''Z'')"
    and low: "ascii_lower c = char_of (of_char c - of_char (CHR ''A'') + of_char (CHR ''a'') :: nat)"
    by (auto simp: ascii_lower_def split: if_splits)
  then have "65 \<le> (of_char c :: int)" "(of_char c :: int) \<le> 90"
    using of_char_range [of c] by (auto simp: signed_char_def Let_def split: if_splits)
  then have "65 \<le> (of_char c :: nat)" "(of_char c :: nat) \<le> 90"
    by (metis of_nat_le_iff of_nat_numeral of_nat_of_char)+
  then have "of_char (ascii_lower c) \<noteq> (0 :: nat)" "of_char c \<noteq> (0 :: nat)" by (simp_all add: low)
  then show ?thesis by auto
qed simp

lemma compare_names_less:
  "c_string l \<Longrightarrow> c_string r \<Longrightarrow> compare_names l r < 0 \<longleftrightarrow> fold_name l < fold_name r"
proof (induction l r rule: compare_names.induct)
  case (4 a as b bs)
  then show ?case by (auto simp: fold_name_def c_string_def Let_def)
qed (auto simp: fold_name_def c_string_def neq_iff dest: sym)

lemma entry_before_key:
  "c_string (ename l) \<Longrightarrow> c_string (ename r) \<Longrightarrow> entry_before l r \<longleftrightarrow> entry_key l < entry_key r"
  by (auto simp: entry_before_def entry_key_def less_name_key_def compare_names_less Let_def)

section \<open>Sorting\<close>

text \<open>Insertion from the right into the sorted part.\<close>

fun insert_right :: "entry \<Rightarrow> entry list \<Rightarrow> entry list" where
  "insert_right m [] = [m]"
| "insert_right m (p # ps) = (if entry_before m p then p # insert_right m ps else m # p # ps)"

lemma length_insert_right [simp]: "length (insert_right m ps) = Suc (length ps)"
  by (induction ps) auto

lemma mset_insert_right [simp]: "mset (insert_right m ps) = add_mset m (mset ps)"
  by (induction ps) auto

lemma shift_entry_insert:
  "shift_entry m (length P) (P @ x # R) = rev (insert_right m (rev P)) @ R"
proof (induction P arbitrary: x R rule: rev_induct)
  case (snoc p P)
  show ?case
  proof (cases "entry_before m p")
    case True
    then show ?thesis using snoc.IH [of p "p # R"] by (simp add: list_update_append nth_append)
  next
    case False
    then show ?thesis by (simp add: list_update_append nth_append)
  qed
qed simp

definition insertion :: "entry list \<Rightarrow> entry list \<Rightarrow> entry list" where
  "insertion es P = foldl (\<lambda>P m. rev (insert_right m (rev P))) P es"

lemma sort_entries_insertion: "sort_entries es = insertion es []"
proof (cases es)
  case (Cons e es')
  have "fold (\<lambda>i es. shift_entry (es ! i) i es) [length P..<length P + length R] (P @ R) = insertion R P" for P R
  proof (induction R arbitrary: P)
    case (Cons x R)
    have "[length P..<length P + length (x # R)] = length P # [Suc (length P)..<Suc (length P) + length R]"
      by (simp add: upt_conv_Cons del: upt_Suc)
    then show ?case
      using Cons.IH [of "rev (insert_right x (rev P))"] by (simp add: shift_entry_insert insertion_def)
  qed (simp add: insertion_def)
  from this [of "[e]" es'] show ?thesis by (simp add: sort_entries_def Cons insertion_def)
qed (simp add: sort_entries_def insertion_def)

lemma insert_right_stable:
  assumes "\<forall>e\<in>set (m # ps). c_string (ename e)" and "sorted (map entry_key (rev ps))"
  shows "sorted (map entry_key (rev (insert_right m ps)))"
    and "filter (\<lambda>e. k = entry_key e) (rev (insert_right m ps)) =
      filter (\<lambda>e. k = entry_key e) (rev ps) @ (if k = entry_key m then [m] else [])"
proof -
  show "sorted (map entry_key (rev (insert_right m ps)))"
    using assms
  proof (induction ps)
    case (Cons p ps)
    have mem: "set (insert_right m ps) = insert m (set ps)"
      using mset_insert_right [of m ps] by (metis set_mset_add_mset_insert set_mset_mset)
    show ?case
      using Cons mem by (auto simp: sorted_append entry_before_key not_less)
  qed simp
  show "filter (\<lambda>e. k = entry_key e) (rev (insert_right m ps)) =
      filter (\<lambda>e. k = entry_key e) (rev ps) @ (if k = entry_key m then [m] else [])"
    using assms
  proof (induction ps)
    case (Cons p ps)
    show ?case
      using Cons by (auto simp: sorted_append entry_before_key)
  qed simp
qed

lemma sort_entries_key:
  assumes "\<forall>e\<in>set es. c_string (ename e)"
  shows "sort_entries es = sort_key entry_key es"
proof -
  have "mset (insertion es []) = mset es \<and> sorted (map entry_key (insertion es [])) \<and>
      (\<forall>k. filter (\<lambda>e. k = entry_key e) (insertion es []) = filter (\<lambda>e. k = entry_key e) es)"
    using assms
  proof (induction es rule: rev_induct)
    case (snoc m es)
    let ?S = "insertion es []"
    have IH: "mset ?S = mset es" "sorted (map entry_key ?S)"
      "\<And>k. filter (\<lambda>e. k = entry_key e) ?S = filter (\<lambda>e. k = entry_key e) es"
      using snoc by auto
    have step: "insertion (es @ [m]) [] = rev (insert_right m (rev ?S))" by (simp add: insertion_def)
    have "\<forall>e\<in>set (m # rev ?S). c_string (ename e)"
      using snoc.prems mset_eq_setD [OF IH(1)] by auto
    from insert_right_stable [OF this] show ?case
      using IH by (simp add: step)
  qed (simp add: insertion_def)
  then have "sort_key entry_key es = insertion es []"
    by (intro properties_for_sort_key) auto
  then show ?thesis by (simp add: sort_entries_insertion)
qed

text \<open>
  C33: The listing is sorted: \<open>sort_entries\<close> is the library's stable sort by a key, folders before
  files and then the names with their case folded; so it keeps every entry and the order of
  entries whose names only differ in case.
\<close>
theorem sort_entries_stable:
  assumes "\<forall>e\<in>set es. c_string (ename e)"
  shows "sort_entries es = sort_key entry_key es"
  using assms by (rule sort_entries_key)

theorem sort_entries_stable_witness:
  "let a = \<lparr>ename = ''b'', etype = Regular, executable = True, esize = 1\<rparr>;
       b = \<lparr>ename = ''A'', etype = Regular, executable = True, esize = 2\<rparr>;
       c = \<lparr>ename = ''z'', etype = Directory, executable = False, esize = 0\<rparr>
   in sort_entries [a, b, c] = [c, b, a]"
proof -
  define a b c where "a = \<lparr>ename = ''b'', etype = Regular, executable = True, esize = 1\<rparr>"
    and "b = \<lparr>ename = ''A'', etype = Regular, executable = True, esize = 2\<rparr>"
    and "c = \<lparr>ename = ''z'', etype = Directory, executable = False, esize = 0\<rparr>"
  have "sort_entries [a, b, c] = sort_key entry_key [a, b, c]"
    by (rule sort_entries_stable) (simp add: a_def b_def c_def c_string_def)
  also have "\<dots> = [c, b, a]"
  proof -
    have "ascii_lower (CHR ''A'') = CHR ''a''" "ascii_lower (CHR ''b'') = CHR ''b''" by code_simp+
    then show ?thesis
      by (simp add: a_def b_def c_def entry_key_def fold_name_def less_eq_name_key_def signed_char_def Let_def)
  qed
  finally show ?thesis by (simp add: a_def b_def c_def Let_def)
qed

end
