(* ===== verification/File_History.thy ===== *)
theory File_History
  imports File_Sorting "HOL-Library.Sublist"
begin

text \<open>
  The file browser's history, paths and state: the stacks behind Back and Forward are a list of
  visited folders with a position; the parent of a child is the folder; after any events the rows
  are exactly the entries that contain the search text.
\<close>

section \<open>History\<close>

text \<open>Loading a folder leaves the history alone.\<close>

definition nav :: "browser \<Rightarrow> string \<times> string list \<times> string list" where
  "nav b = (currentPath b, backStack b, forwardStack b)"

lemma nav_show_status [simp]: "nav (show_status b) = nav b"
  by (simp add: show_status_def nav_def Let_def)

lemma nav_set_message [simp]: "nav (set_message m e b) = nav b"
  unfolding set_message_def by (simp, simp add: nav_def)

lemma nav_apply_filter [simp]: "nav (apply_filter sel b) = nav b"
  by (simp add: apply_filter_def Let_def split: prod.split) (simp add: nav_def)

lemma nav_read_entry: "nav (read_entry env d b) = nav b"
  by (simp add: read_entry_def nav_def ask_browser_def Let_def split: browser_reply.split)

lemma nav_fold_read: "nav (fold (read_entry env) ds b) = nav b"
  by (induction ds arbitrary: b) (simp_all add: nav_read_entry)

lemma nav_sync_place [simp]: "nav (sync_place b) = nav b"
  by (simp add: sync_place_def nav_def)

lemma nav_read_folder: "read_folder env b = (found, b') \<Longrightarrow> nav b' = nav b"
  by (auto simp: read_folder_def ask_browser_def nav_fold_read split: browser_reply.splits) (simp_all add: nav_def)

lemma nav_load_directory [simp]: "nav (load_directory env sel b) = nav b"
proof -
  let ?b = "b\<lparr>crumbs := copy_string 256 (currentPath b), message := [], entries := []\<rparr>"
  obtain found b' where r: "read_folder env ?b = (found, b')" by force
  have "nav (b'\<lparr>entries := sort_entries (entries b')\<rparr>) = nav b"
    using nav_read_folder [OF r] by (simp add: nav_def)
  then show ?thesis by (simp add: load_directory_def r Let_def)
qed

lemma nav_loaded [simp]:
  "currentPath (load_directory env sel b) = currentPath b"
  "backStack (load_directory env sel b) = backStack b"
  "forwardStack (load_directory env sel b) = forwardStack b"
  using nav_load_directory [of env sel b] by (simp_all add: nav_def)

text \<open>The specification: the folders visited, oldest first, and the position of the current one.\<close>

type_synonym history = "string list \<times> nat"

definition history_of :: "browser \<Rightarrow> history" where
  "history_of b = (backStack b @ [currentPath b] @ rev (forwardStack b), length (backStack b))"

fun history_back :: "history \<Rightarrow> history" where
  "history_back (h, p) = (h, p - 1)"

fun history_forward :: "history \<Rightarrow> history" where
  "history_forward (h, p) = (h, if p + 1 < length h then p + 1 else p)"

text \<open>A visit forgets what was ahead, and the oldest folder when there are too many.\<close>

fun history_visit :: "string \<Rightarrow> history \<Rightarrow> history" where
  "history_visit path (h, p) =
     (let past = take (p + 1) h; past = (if kHistory < length past then drop 1 past else past)
      in (past @ [path], length past))"

definition history_ok :: "browser \<Rightarrow> bool" where
  "history_ok b \<longleftrightarrow> length (backStack b) + length (forwardStack b) \<le> kHistory \<and>
     (\<forall>path\<in>set (fst (history_of b)). length path < 256)"

lemma copy_string_short: "length s < 256 \<Longrightarrow> copy_string 256 s = s"
  by (simp add: copy_string_def)

lemma copy_string_bound: "length (copy_string 256 s) < 256"
  by (simp add: copy_string_def bounded_copy_bound)

lemma history_nav:
  "nav b = nav c \<Longrightarrow> history_of b = history_of c \<and> history_ok b = history_ok c"
  by (auto simp: nav_def history_of_def history_ok_def)

lemma history_loaded [simp]:
  "history_of (load_directory env sel b) = history_of b"
  "history_ok (load_directory env sel b) = history_ok b"
  using history_nav [of "load_directory env sel b" b] by simp_all

lemma go_back_history:
  assumes "history_ok b"
  shows "history_of (go_back env b) = history_back (history_of b) \<and> history_ok (go_back env b)"
proof (cases "backStack b" rule: rev_cases)
  case Nil
  then show ?thesis using assms by (simp add: go_back_def history_of_def)
next
  case (snoc ps p)
  then have room: "length (forwardStack b) \<noteq> kHistory" "length (currentPath b) < 256" "length p < 256"
    using assms by (auto simp: history_ok_def history_of_def)
  then show ?thesis
    using assms snoc
    by (auto simp: go_back_def history_of_def history_ok_def push_history_def copy_string_short)
qed

lemma go_forward_history:
  assumes "history_ok b"
  shows "history_of (go_forward env b) = history_forward (history_of b) \<and> history_ok (go_forward env b)"
proof (cases "forwardStack b" rule: rev_cases)
  case Nil
  then show ?thesis using assms by (simp add: go_forward_def history_of_def)
next
  case (snoc ps p)
  then have room: "length (backStack b) \<noteq> kHistory" "length (currentPath b) < 256" "length p < 256"
    using assms by (auto simp: history_ok_def history_of_def)
  then show ?thesis
    using assms snoc
    by (auto simp: go_forward_def history_of_def history_ok_def push_history_def copy_string_short)
qed

lemma navigate_history:
  assumes "history_ok b"
  shows "history_of (navigate env path sel b) =
      (if path = currentPath b then history_of b else history_visit (copy_string 256 path) (history_of b)) \<and>
    history_ok (navigate env path sel b)"
proof (cases "path = currentPath b")
  case False
  have cur: "copy_string 256 (currentPath b) = currentPath b" "length (copy_string 256 path) < 256"
    using assms copy_string_bound by (auto simp: history_ok_def history_of_def copy_string_short)
  show ?thesis
  proof (cases "length (backStack b) = kHistory")
    case True
    then obtain p ps where "backStack b = p # ps" by (cases "backStack b") (auto simp: kHistory_def)
    then show ?thesis
      using False True assms cur
      by (auto simp: navigate_def history_of_def history_ok_def push_history_def)
  next
    case False
    then have "length (backStack b) < kHistory" using assms by (simp add: history_ok_def)
    then show ?thesis
      using \<open>path \<noteq> currentPath b\<close> assms cur
      by (auto simp: navigate_def history_of_def history_ok_def push_history_def)
  qed
qed (use assms in \<open>simp add: navigate_def\<close>)

text \<open>
  C32: The two stacks are a browsing history: with the folders visited and the position of the
  current one as their meaning, Back and Forward only move the position, opening a folder forgets
  what was ahead and adds it (truncated to 255 characters), dropping the oldest folder beyond 33;
  the stacks together never hold more than 32 folders, so Back and Forward never lose one.
\<close>
theorem history_refines:
  assumes "history_ok b"
  shows "history_of (go_back env b) = history_back (history_of b) \<and> history_ok (go_back env b) \<and>
    history_of (go_forward env b) = history_forward (history_of b) \<and> history_ok (go_forward env b) \<and>
    history_of (navigate env path sel b) =
      (if path = currentPath b then history_of b else history_visit (copy_string 256 path) (history_of b)) \<and>
    history_ok (navigate env path sel b)"
  using go_back_history [OF assms] go_forward_history [OF assms] navigate_history [OF assms] by blast

definition no_files :: browser_env where
  "no_files log c = (case c of ReadDir p \<Rightarrow> Listing [] | _ \<Rightarrow> Failed)"

lemma new_browser_history: "history_ok new_browser"
  by (simp add: history_ok_def history_of_def new_browser_def kHistory_def)

theorem history_refines_witness:
  "history_of (go_back no_files (navigate no_files ''/lib'' None new_browser)) = ([''/bin'', ''/lib''], 0)"
proof -
  let ?b = "navigate no_files ''/lib'' None new_browser"
  have "history_of ?b = ([''/bin'', ''/lib''], 1)" "history_ok ?b"
    using history_refines [OF new_browser_history, of no_files "''/lib''" None]
    by (simp_all add: new_browser_def history_of_def kHistory_def copy_string_def)
  then show ?thesis using history_refines [of ?b no_files] by simp
qed

section \<open>Paths\<close>

lemma strip_while_suffix:
  "\<forall>y\<in>set ys. p y \<Longrightarrow> xs \<noteq> [] \<Longrightarrow> \<not> p (last xs) \<Longrightarrow> strip_while p (xs @ ys) = xs"
proof (induction ys rule: rev_induct)
  case Nil
  then show ?case by (simp add: strip_while.simps [of p xs])
next
  case (snoc y ys)
  have "butlast (xs @ ys @ [y]) = xs @ ys" by (simp add: butlast_append)
  then show ?case
    using snoc by (subst strip_while.simps) (auto simp: Suc_lessI)
qed

lemma last_name_suffix: "CHR ''/'' \<notin> set ys \<Longrightarrow> last_name n (xs @ CHR ''/'' # ys) = ys"
proof -
  assume ys: "CHR ''/'' \<notin> set ys"
  then have "last_name m ys = m" for m by (induction ys arbitrary: m) auto
  then show ?thesis by (induction xs arbitrary: n) auto
qed

text \<open>An absolute path without a slash at its end, or the root.\<close>

definition folder_path :: "string \<Rightarrow> bool" where
  "folder_path path \<longleftrightarrow> path = ''/'' \<or> 1 < length path \<and> last path \<noteq> CHR ''/''"

lemma child_path:
  assumes "length base + length name + 1 < 256"
  shows "build_child_path 256 base name = (if path_is_root base then ''/'' @ name else base @ ''/'' @ name)"
  using assms
  by (simp add: build_child_path_def append_text_def append_loop_fits path_is_root_def)

text \<open>
  Up undoes entering a folder: from the folder \<open>name\<close> inside \<open>base\<close>, \<open>open_parent\<close> goes to \<open>base\<close>
  and asks for \<open>name\<close> to be selected there, as long as the path fits its buffer.
\<close>
theorem parent_of_child:
  assumes "currentPath b = build_child_path 256 base name" and "folder_path base"
    and "name \<noteq> []" and "CHR ''/'' \<notin> set name" and "length base + length name + 1 < 256"
  shows "open_parent env b = navigate env base (Some name) b"
proof -
  define pre where "pre = (if path_is_root base then [] else base)"
  have path: "currentPath b = (pre @ ''/'') @ name"
    using assms(1,5) by (simp add: child_path pre_def path_is_root_def)
  have short: "length (currentPath b) < 256"
    using assms(5) by (simp add: path pre_def)
  have last: "last (currentPath b) \<noteq> CHR ''/''" using assms(3,4) last_in_set [OF assms(3)] by (metis last_append path)
  have "strip_while (\<lambda>c. c = CHR ''/'') (currentPath b) = currentPath b"
    using last by (simp add: strip_while.simps)
  moreover have "strip_while (\<lambda>c. c \<noteq> CHR ''/'') (currentPath b) = pre @ ''/''"
    unfolding path using assms(4) by (intro strip_while_suffix) auto
  ultimately have parent: "build_parent_path 256 (currentPath b) = base"
    using assms(2) short
    by (auto simp: build_parent_path_def copy_string_short pre_def path_is_root_def folder_path_def Let_def)
  have "last_name (currentPath b) (currentPath b) = name"
    using last_name_suffix [OF assms(4), of _ pre] by (simp add: path)
  moreover have "\<not> path_is_root (currentPath b)"
    using assms(3) by (cases pre) (auto simp: path path_is_root_def)
  moreover have "length name < 256" using assms(5) by simp
  ultimately show ?thesis by (simp add: open_parent_def parent copy_string_short)
qed

theorem parent_of_child_witness:
  "open_parent no_files (new_browser\<lparr>currentPath := ''/bin/icons''\<rparr>)
   = navigate no_files ''/bin'' (Some ''icons'') (new_browser\<lparr>currentPath := ''/bin/icons''\<rparr>)"
  by (rule parent_of_child)
    (simp_all add: build_child_path_def append_text_def path_is_root_def folder_path_def)

section \<open>The breadcrumb\<close>

lemma layout_loop_name:
  assumes "CHR ''/'' \<notin> set p" and "p \<noteq> []" and "path' = append_text 256 (if \<not> path_is_root path then append_text 256 path ''/'' else path) (take 63 p)"
  shows "layout_loop p path segs = layout_loop (drop 63 p) path' (add_segment (take 63 p) path' segs)"
proof -
  have "takeWhile (\<lambda>c. c \<noteq> CHR ''/'') p = p" using assms(1) by (auto simp: takeWhile_eq_all_conv)
  moreover have "dropWhile (\<lambda>c. c = CHR ''/'') p = p" using assms(1,2) by (cases p) auto
  moreover have "drop (length (take 63 p)) p = drop 63 p" by (simp add: min_def)
  ultimately show ?thesis
    using assms(2,3) by (subst layout_loop.simps) (simp only: Let_def if_False)
qed

lemma layout_loop_slash: "layout_loop (CHR ''/'' # p) path segs = layout_loop p path segs"
  by (subst (1 2) layout_loop.simps) simp

text \<open>
  A folder name of more than 63 characters takes several segments, and the paths of the later ones
  are not those of the folder.
\<close>
lemma long_name_splits:
  assumes "CHR ''/'' \<notin> set name" and "63 < length name" and "length name \<le> 126"
  shows "map segPath (breadcrumb (''/'' @ name)) =
    [''/'', ''/'' @ take 63 name, ''/'' @ take 63 name @ ''/'' @ drop 63 name]"
proof -
  have ns: "CHR ''/'' \<notin> set (drop 63 name)" using assms(1) in_set_dropD by fastforce
  have ne: "name \<noteq> []" "drop 63 name \<noteq> []" using assms(2) by auto
  have all: "take 63 (drop 63 name) = drop 63 name" "drop 63 (drop 63 name) = []" using assms(3) by auto
  have a: "append_text 256 ''/'' (take 63 name) = ''/'' @ take 63 name"
    "append_text 256 (''/'' @ take 63 name) ''/'' = ''/'' @ take 63 name @ ''/''"
    "append_text 256 (''/'' @ take 63 name @ ''/'') (drop 63 name) = ''/'' @ take 63 name @ ''/'' @ drop 63 name"
    using assms(2,3) by (simp_all add: append_text_def append_loop_fits)
  have r: "path_is_root ''/''" "\<not> path_is_root (''/'' @ take 63 name)"
    using ne by (auto simp: path_is_root_def)
  have "breadcrumb (''/'' @ name) =
    add_segment (drop 63 name) (''/'' @ take 63 name @ ''/'' @ drop 63 name)
      (add_segment (take 63 name) (''/'' @ take 63 name) (add_segment ''/'' ''/'' []))"
    using layout_loop_name [OF assms(1) ne(1) refl, of "''/''"]
      layout_loop_name [OF ns ne(2) refl, of "''/'' @ take 63 name"] r all a
    by (simp add: breadcrumb_def layout_loop_slash) (simp add: layout_loop.simps [of "[]"])
  then show ?thesis using assms(3)
    by (simp add: add_segment_def kMaxSegments_def copy_string_short)
qed
section \<open>The rows\<close>

lemma match_here_prefix: "match_here name needle \<longleftrightarrow> prefix (map ascii_lower needle) (map ascii_lower name)"
  by (induction name needle rule: match_here.induct) auto

lemma contains_folded_sublist:
  "contains_folded name needle \<longleftrightarrow> sublist (map ascii_lower needle) (map ascii_lower name)"
proof (cases "needle = []")
  case False
  have "contains_loop name needle \<longleftrightarrow> sublist (map ascii_lower needle) (map ascii_lower name)"
    using False
    by (induction name needle rule: contains_loop.induct) (simp_all add: match_here_prefix sublist_Cons_right)
  then show ?thesis using False by (simp add: contains_folded_def)
qed (simp add: contains_folded_def)

lemma show_status_eqs [simp]:
  "entries (show_status b) = entries b" "visible (show_status b) = visible b"
  "selected (show_status b) = selected b" "search (show_status b) = search b"
  "placeNames (show_status b) = placeNames b" "place (show_status b) = place b"
  "message (show_status b) = []"
  by (simp_all add: show_status_def Let_def)

text \<open>The rows that show, and one of them selected, if there are any.\<close>

definition shown_rows :: "browser \<Rightarrow> nat list" where
  "shown_rows b =
     filter (\<lambda>i. sublist (map ascii_lower (search b)) (map ascii_lower (ename (entries b ! i)))) [0..<length (entries b)]"

definition rows_ok :: "browser \<Rightarrow> bool" where
  "rows_ok b \<longleftrightarrow> visible b = shown_rows b \<and>
     (if visible b = [] then selected b = -1 else 0 \<le> selected b \<and> selected b < int (length (visible b)))"

lemma filter_loop:
  "fold (filter_entry es needle keep) is (vis, sel) = (vis', sel') \<Longrightarrow>
   vis' = vis @ filter (\<lambda>i. contains_folded (ename (es ! i)) needle) is \<and>
   (-1 \<le> sel \<and> sel < int (length vis) \<longrightarrow> -1 \<le> sel' \<and> sel' < int (length vis'))"
proof (induction "is" arbitrary: vis sel)
  case (Cons i js)
  obtain v s where step: "filter_entry es needle keep i (vis, sel) = (v, s)" by force
  then have "v = vis @ filter (\<lambda>i. contains_folded (ename (es ! i)) needle) [i]"
    "-1 \<le> sel \<and> sel < int (length vis) \<longrightarrow> -1 \<le> s \<and> s < int (length v)"
    by (auto simp: filter_entry_def split: if_splits)
  moreover have "fold (filter_entry es needle keep) js (v, s) = (vis', sel')"
    using Cons.prems step by simp
  ultimately show ?case using Cons.IH [of v s] by auto
qed simp

lemma apply_filter_eqs [simp]:
  "entries (apply_filter sel b) = entries b" "search (apply_filter sel b) = search b"
  "placeNames (apply_filter sel b) = placeNames b" "place (apply_filter sel b) = place b"
  "message (apply_filter sel b) = []"
  by (simp_all add: apply_filter_def Let_def split: prod.split)

lemma rows_apply_filter: "rows_ok (apply_filter sel b)"
proof -
  define keep where "keep = (case (case sel of Some n \<Rightarrow> Some n | None \<Rightarrow> selected_name b) of
      Some n \<Rightarrow> copy_string 256 n | None \<Rightarrow> [])"
  obtain vis s where f: "fold (filter_entry (entries b) (search b) keep) [0..<length (entries b)] ([], -1) = (vis, s)"
    by force
  have "apply_filter sel b = show_status (b\<lparr>visible := vis, selected := if s < 0 \<and> vis \<noteq> [] then 0 else s\<rparr>)"
    by (simp add: apply_filter_def Let_def f flip: keep_def)
  then show ?thesis
    using filter_loop [OF f] by (auto simp: rows_ok_def shown_rows_def contains_folded_sublist)
qed

lemma rows_ok_cong:
  "entries b' = entries b \<Longrightarrow> visible b' = visible b \<Longrightarrow> selected b' = selected b \<Longrightarrow> search b' = search b \<Longrightarrow>
   rows_ok b' = rows_ok b"
  by (simp add: rows_ok_def shown_rows_def)

lemma rows_ok_updates [simp]:
  "rows_ok (b\<lparr>bcalls := cs\<rparr>) = rows_ok b" "rows_ok (b\<lparr>closed := x\<rparr>) = rows_ok b"
  "history_ok (b\<lparr>bcalls := cs\<rparr>) = history_ok b" "history_ok (b\<lparr>closed := x\<rparr>) = history_ok b"
  by (rule rows_ok_cong, simp_all)+ (simp_all add: history_ok_def history_of_def)

lemma rows_ok_select:
  assumes "rows_ok b" and "0 \<le> row" and "row < int (length (visible b))"
  shows "rows_ok (show_status (b\<lparr>selected := row\<rparr>))"
proof -
  have "shown_rows (show_status (b\<lparr>selected := row\<rparr>)) = shown_rows b" by (simp add: shown_rows_def)
  then show ?thesis using assms by (auto simp: rows_ok_def)
qed

section \<open>The state after any events\<close>

text \<open>The kernel lists names that are C strings.\<close>

definition lists_names :: "browser_env \<Rightarrow> bool" where
  "lists_names env \<longleftrightarrow> (\<forall>log path ds. env log (ReadDir path) = Listing ds \<longrightarrow> (\<forall>d\<in>set ds. c_string (fst d)))"

definition listing_ok :: "entry list \<Rightarrow> bool" where
  "listing_ok es \<longleftrightarrow> length es \<le> kMaxEntries \<and> (\<forall>e\<in>set es. c_string (ename e))"

definition places_ok :: "string list \<Rightarrow> bool" where
  "places_ok ps \<longleftrightarrow> ps \<noteq> [] \<and> length ps \<le> kMaxPlaces \<and> hd ps = ''Root''"

definition browser_ok :: "browser \<Rightarrow> bool" where
  "browser_ok b \<longleftrightarrow> listing_ok (entries b) \<and> sorted (map entry_key (entries b)) \<and> rows_ok b \<and>
     places_ok (placeNames b) \<and> place b < length (placeNames b) \<and> message b = [] \<and> history_ok b"

lemma read_entry_listing:
  assumes "c_string (fst d)" and "listing_ok (entries b)"
  shows "listing_ok (entries (read_entry env d b)) \<and> placeNames (read_entry env d b) = placeNames b \<and>
    search (read_entry env d b) = search b"
  using assms
  by (auto simp: read_entry_def listing_ok_def ask_browser_def Let_def split: browser_reply.split)

lemma fold_read_listing:
  "\<forall>d\<in>set ds. c_string (fst d) \<Longrightarrow> listing_ok (entries b) \<Longrightarrow>
   listing_ok (entries (fold (read_entry env) ds b)) \<and>
   placeNames (fold (read_entry env) ds b) = placeNames b \<and> search (fold (read_entry env) ds b) = search b"
proof (induction ds arbitrary: b)
  case (Cons d ds)
  then show ?case using read_entry_listing [of d b env] Cons.IH [of "read_entry env d b"] by simp
qed simp

lemma find_place_range: "find_place p i ns = 0 \<or> i \<le> find_place p i ns \<and> find_place p i ns < i + length ns"
proof (induction ns arbitrary: i)
  case (Cons n ns)
  then show ?case using Cons.IH [of "Suc i"] by auto
qed simp

lemma load_directory_ok:
  assumes "lists_names env" and "places_ok (placeNames b)" and "history_ok b"
  shows "browser_ok (load_directory env sel b)"
proof -
  let ?b = "b\<lparr>crumbs := copy_string 256 (currentPath b), message := [], entries := []\<rparr>"
  obtain found b' where r: "read_folder env ?b = (found, b')" by force
  have "listing_ok (entries b') \<and> placeNames b' = placeNames b"
  proof (cases "env (bcalls b) (ReadDir (currentPath b))")
    case (Listing ds)
    then have "\<forall>d\<in>set (take kMaxEntries ds). c_string (fst d)"
      using assms(1) unfolding lists_names_def by (metis in_set_takeD)
    from fold_read_listing [OF this, of "?b\<lparr>bcalls := bcalls b @ [ReadDir (currentPath b)]\<rparr>" env]
    show ?thesis using r Listing by (auto simp: read_folder_def ask_browser_def listing_ok_def)
  qed (use r in \<open>auto simp: read_folder_def ask_browser_def listing_ok_def\<close>)
  then have lst: "listing_ok (entries b')" and pl: "placeNames b' = placeNames b" by simp_all
  define c where "c = apply_filter (Some (case sel of Some n \<Rightarrow> copy_string 256 n | None \<Rightarrow> []))
      (b'\<lparr>entries := sort_entries (entries b')\<rparr>)"
  define d where "d = (if found then c else set_message ''Cannot read this folder'' True c)"
  have sorted: "sort_entries (entries b') = sort_key entry_key (entries b')"
    using lst sort_entries_insertion sort_entries_key by (auto simp: listing_ok_def)
  have d: "entries d = sort_entries (entries b')" "placeNames d = placeNames b" "message d = []" "rows_ok d"
    using rows_apply_filter [of "Some (case sel of Some n \<Rightarrow> copy_string 256 n | None \<Rightarrow> [])"
        "b'\<lparr>entries := sort_entries (entries b')\<rparr>"]
    by (auto simp: d_def c_def set_message_def pl rows_ok_def shown_rows_def)
  have l: "load_directory env sel b = sync_place d"
    by (simp add: load_directory_def r Let_def d_def c_def)
  have "place (sync_place d) < length (placeNames d)"
    using assms(2) find_place_range [of "drop 1 (currentPath d)" 1 "drop 1 (placeNames d)"]
    by (cases "placeNames d") (auto simp: sync_place_def places_ok_def d(2))
  moreover have "rows_ok (sync_place d)"
    using d(4) rows_ok_cong [of "sync_place d" d] by (simp add: sync_place_def)
  moreover have "listing_ok (sort_entries (entries b'))" using lst by (simp add: sorted listing_ok_def)
  moreover have "sorted (map entry_key (sort_entries (entries b')))" by (simp add: sorted)
  moreover have "history_ok (load_directory env sel b)" using assms(3) by simp
  ultimately show ?thesis
    using d assms(2) unfolding browser_ok_def l by (simp add: sync_place_def)
qed

lemma browser_ok_parts:
  "browser_ok b \<Longrightarrow> places_ok (placeNames b) \<and> history_ok b"
  by (simp add: browser_ok_def)

lemma set_message_ok:
  assumes "browser_ok b"
  shows "browser_ok (set_message m e b)"
proof -
  have "history_ok (set_message m e b)"
    using history_nav [of "set_message m e b" b] assms by (simp add: browser_ok_def)
  moreover have "rows_ok (set_message m e b) = rows_ok b"
    by (rule rows_ok_cong) (simp_all add: set_message_def)
  ultimately show ?thesis using assms by (simp add: browser_ok_def) (simp add: set_message_def)
qed

lemma apply_filter_ok:
  assumes "browser_ok b"
  shows "browser_ok (apply_filter sel (b\<lparr>search := needle\<rparr>))"
proof -
  have n: "nav (apply_filter sel (b\<lparr>search := needle\<rparr>)) = nav b" by simp (simp add: nav_def)
  have "history_ok (apply_filter sel (b\<lparr>search := needle\<rparr>))"
    using history_nav [OF n] browser_ok_parts [OF assms] by blast
  then show ?thesis using assms rows_apply_filter by (simp add: browser_ok_def)
qed

lemma navigate_ok:
  assumes "lists_names env" and "browser_ok b"
  shows "browser_ok (navigate env path sel b)"
proof (cases "path = currentPath b")
  case False
  have "history_ok (navigate env path sel b)"
    using navigate_history browser_ok_parts [OF assms(2)] by blast
  then show ?thesis
    using False browser_ok_parts [OF assms(2)]
    by (auto simp: navigate_def intro!: load_directory_ok [OF assms(1)])
qed (use assms in \<open>simp add: navigate_def\<close>)

text \<open>The list boxes report rows they have.\<close>

definition possible :: "browser_event \<Rightarrow> browser \<Rightarrow> bool" where
  "possible ev b =
     (case ev of
        SelectRow row \<Rightarrow> 0 \<le> row \<and> row < int (length (visible b))
      | ClickPlace row \<Rightarrow> row < int (length (placeNames b))
      | _ \<Rightarrow> True)"

inductive browser_reachable :: "browser_env \<Rightarrow> browser \<Rightarrow> bool" for env where
  created: "browser_reachable env (on_create_browser env new_browser)"
| event: "\<lbrakk>browser_reachable env b; possible ev b\<rbrakk> \<Longrightarrow> browser_reachable env (browser_step env ev b)"

lemma back_forward_ok:
  assumes "lists_names env" and "browser_ok b"
  shows "browser_ok (go_back env b)" and "browser_ok (go_forward env b)"
proof -
  have h: "history_ok (go_back env b)" "history_ok (go_forward env b)" "places_ok (placeNames b)"
    using assms(2) go_back_history go_forward_history by (auto simp: browser_ok_def)
  show "browser_ok (go_back env b)"
    using h assms by (auto simp: go_back_def intro!: load_directory_ok)
  show "browser_ok (go_forward env b)"
    using h assms by (auto simp: go_forward_def intro!: load_directory_ok)
qed

lemma open_entry_ok:
  assumes "lists_names env" and "browser_ok b"
  shows "browser_ok (open_entry env row b)"
proof -
  have ask: "browser_ok (b\<lparr>bcalls := cs\<rparr>)" for cs
    using assms(2) by (simp add: browser_ok_def)
  show ?thesis
    using assms navigate_ok [OF assms] set_message_ok [OF assms(2)] set_message_ok [OF ask]
    by (auto simp: open_entry_def ask_browser_def Let_def split: browser_reply.split)
qed

lemma browser_step_ok:
  assumes "lists_names env" and "browser_ok b" and "possible ev b"
  shows "browser_ok (browser_step env ev b)"
proof -
  have parent: "browser_ok (open_parent env b)"
    using navigate_ok [OF assms(1,2)] assms(2) by (simp add: open_parent_def)
  have reload: "browser_ok (load_directory env sel b)" for sel
    using load_directory_ok [OF assms(1)] browser_ok_parts [OF assms(2)] by blast
  have closed: "browser_ok (b\<lparr>closed := True\<rparr>)"
    using assms(2) by (simp add: browser_ok_def)
  have key: "browser_ok (snd (on_key env ctrl alt k b))" for ctrl alt k
    using assms(2) parent reload closed back_forward_ok [OF assms(1,2)] apply_filter_ok [OF assms(2)]
    by (auto simp: on_key_def split: browser_key.split)
  show ?thesis
  proof (cases ev)
    case (SelectRow row)
    have n: "nav (show_status (b\<lparr>selected := row\<rparr>)) = nav b" by simp (simp add: nav_def)
    have "history_ok (show_status (b\<lparr>selected := row\<rparr>))"
      using history_nav [OF n] browser_ok_parts [OF assms(2)] by blast
    moreover have "rows_ok (show_status (b\<lparr>selected := row\<rparr>))"
      using SelectRow assms(2,3) by (intro rows_ok_select) (simp_all add: browser_ok_def possible_def)
    ultimately show ?thesis
      using SelectRow assms(2) by (simp add: browser_step_def browser_ok_def)
  next
    case (ClickCrumb i)
    then show ?thesis
      using navigate_ok [OF assms(1,2)] assms(2) by (simp add: browser_step_def split: option.split)
  qed (use key parent back_forward_ok [OF assms(1,2)] open_entry_ok [OF assms(1,2)] navigate_ok [OF assms(1,2)]
      apply_filter_ok [OF assms(2)] in \<open>simp_all add: browser_step_def open_place_def\<close>)
qed

lemma keep_places_ok: "places_ok names \<Longrightarrow> places_ok (fold keep_place ds names)"
proof (induction ds arbitrary: names)
  case (Cons d ds)
  have "places_ok (keep_place d names)"
    using Cons.prems by (cases names) (auto simp: places_ok_def keep_place_def)
  then show ?case using Cons.IH by simp
qed simp

lemma sink_place_ok: "places_ok names \<Longrightarrow> j < length names \<Longrightarrow>
    places_ok (sink_place j names) \<and> length (sink_place j names) = length names"
proof (induction j arbitrary: names)
  case (Suc j)
  let ?names = "names[Suc j := names ! j, j := names ! Suc j]"
  have "places_ok ?names \<and> j < length ?names" if "1 < Suc j"
    using Suc.prems that by (cases names; cases j) (auto simp: places_ok_def)
  then show ?case using Suc by auto
qed simp

lemma load_places_ok: "places_ok (placeNames (load_places env b))"
proof -
  have fold: "\<forall>j\<in>set js. j < length names \<Longrightarrow> places_ok names \<Longrightarrow> places_ok (fold sink_place js names)" for js names
  proof (induction js arbitrary: names)
    case (Cons j js)
    then show ?case using sink_place_ok [of names j] by simp
  qed simp
  have "places_ok [''Root'']" by (simp add: places_ok_def kMaxPlaces_def)
  then show ?thesis
    using keep_places_ok fold by (simp add: load_places_def ask_browser_def Let_def)
qed

text \<open>
  C31: The window is consistent after any events: the listing has at most 512 entries, sorted; the
  rows are exactly the entries whose name contains the search text, ignoring case, in order; one
  of the rows is selected, if there are any; there are at most 16 places, Root first; and the
  history is bounded.
\<close>
theorem browser_consistent:
  assumes "lists_names env" and "browser_reachable env b"
  shows "length (entries b) \<le> kMaxEntries \<and> sorted (map entry_key (entries b)) \<and>
    visible b = filter (\<lambda>i. sublist (map ascii_lower (search b)) (map ascii_lower (ename (entries b ! i))))
      [0..<length (entries b)] \<and>
    (if visible b = [] then selected b = -1 else 0 \<le> selected b \<and> selected b < int (length (visible b))) \<and>
    1 \<le> length (placeNames b) \<and> length (placeNames b) \<le> kMaxPlaces \<and> hd (placeNames b) = ''Root'' \<and>
    place b < length (placeNames b) \<and> length (backStack b) + length (forwardStack b) \<le> kHistory"
proof -
  have "browser_ok b"
    using assms(2)
  proof induction
    case created
    have "nav (load_places env new_browser) = nav new_browser"
      by (simp add: load_places_def ask_browser_def nav_def Let_def)
    then have "history_ok (load_places env new_browser)"
      using history_nav new_browser_history by blast
    then show ?case
      unfolding on_create_browser_def by (intro load_directory_ok assms(1) load_places_ok)
  next
    case (event b ev)
    then show ?case using browser_step_ok assms(1) by blast
  qed
  then have ok: "listing_ok (entries b)" "sorted (map entry_key (entries b))" "rows_ok b"
    "places_ok (placeNames b)" "place b < length (placeNames b)" "history_ok b"
    unfolding browser_ok_def by blast+
  have places: "1 \<le> length (placeNames b)" "length (placeNames b) \<le> kMaxPlaces" "hd (placeNames b) = ''Root''"
    using ok(4) by (simp_all add: places_ok_def Suc_le_eq)
  note rows = ok(3) [unfolded rows_ok_def shown_rows_def, THEN conjunct1]
    ok(3) [unfolded rows_ok_def, THEN conjunct2]
  have "length (entries b) \<le> kMaxEntries" "length (backStack b) + length (forwardStack b) \<le> kHistory"
    using ok(1,6) by (simp_all add: listing_ok_def history_ok_def)
  with ok(2,5) rows places show ?thesis by (intro conjI)
qed

definition two_files :: browser_env where
  "two_files log c =
     (case c of ReadDir p \<Rightarrow> Listing [(''Notes.txt'', Regular), (''lib'', Directory)] | StatFile p \<Rightarrow> FileSize 5 | _ \<Rightarrow> Failed)"

theorem browser_consistent_witness:
  "let b = browser_step two_files (TypeSearch ''LI'') (on_create_browser two_files new_browser)
   in sorted (map entry_key (entries b)) \<and> placeNames b \<noteq> [] \<and> hd (placeNames b) = ''Root''"
proof -
  have "lists_names two_files" by (auto simp: lists_names_def two_files_def c_string_def)
  moreover have "browser_reachable two_files
      (browser_step two_files (TypeSearch ''LI'') (on_create_browser two_files new_browser))"
    by (intro browser_reachable.intros) (simp add: possible_def)
  ultimately show ?thesis
    using browser_consistent [of two_files "browser_step two_files (TypeSearch ''LI'') (on_create_browser two_files new_browser)"]
    by (auto simp: Let_def)
qed

end
