(* ===== verification/Resolver_Names.thy ===== *)
theory Resolver_Names
  imports Prelude
begin

unbundle bit_operations_syntax

text \<open>
  Names in DNS messages, \<open>put_name\<close> and \<open>get_name\<close> of \<open>src/net-tools/src/nslookup.c\<close>. A message
  is the list of the bytes that were received (or written so far), and every access of the code
  is checked against it: a read or write outside the buffer is a \<open>fault\<close>, so that memory safety
  is the statement that no fault occurs.
\<close>

section \<open>Buffers\<close>

type_synonym byte = "8 word"

datatype fault = Read_past | Write_past

definition fetch :: "byte list \<Rightarrow> nat \<Rightarrow> fault + byte" where
  "fetch m i = (if i < length m then Inr (m ! i) else Inl Read_past)"

text \<open>\<open>memcpy\<close> of \<open>n\<close> bytes at \<open>i\<close>: what is read, and what a buffer of \<open>cap\<close> bytes then holds.\<close>

definition read_bytes :: "byte list \<Rightarrow> nat \<Rightarrow> nat \<Rightarrow> fault + byte list" where
  "read_bytes m i n = (if i + n \<le> length m then Inr (take n (drop i m)) else Inl Read_past)"

definition emit :: "nat \<Rightarrow> byte list \<Rightarrow> byte list \<Rightarrow> fault + byte list" where
  "emit cap out bs = (if length out + length bs \<le> cap then Inr (out @ bs) else Inl Write_past)"

lemma fetch_Inr [simp]: "i < length m \<Longrightarrow> fetch m i = Inr (m ! i)"
  by (simp add: fetch_def)

lemma read_bytes_Inr [simp]: "i + n \<le> length m \<Longrightarrow> read_bytes m i n = Inr (take n (drop i m))"
  by (simp add: read_bytes_def)

lemma emit_Inr [simp]: "length out + length bs \<le> cap \<Longrightarrow> emit cap out bs = Inr (out @ bs)"
  by (simp add: emit_def)

text \<open>A computation without a fault; the rules follow the shape of the code.\<close>

definition no_fault :: "fault + 'a \<Rightarrow> bool" where
  "no_fault r \<longleftrightarrow> (\<exists>x. r = Inr x)"

lemma no_fault_Inr [intro!, simp]: "no_fault (Inr x)"
  by (simp add: no_fault_def)

lemma no_fault_seqE [intro!]:
  assumes "no_fault r" and "\<And>x. r = Inr x \<Longrightarrow> no_fault (f x)"
  shows "no_fault (seqE r f)"
  using assms by (auto simp: no_fault_def)

lemma no_fault_if [intro!]: "(b \<Longrightarrow> no_fault r) \<Longrightarrow> (\<not> b \<Longrightarrow> no_fault r') \<Longrightarrow> no_fault (if b then r else r')"
  by simp

lemma no_fault_option [intro!]:
  "(r = None \<Longrightarrow> no_fault x) \<Longrightarrow> (\<And>a. r = Some a \<Longrightarrow> no_fault (f a)) \<Longrightarrow> no_fault (case r of None \<Rightarrow> x | Some a \<Rightarrow> f a)"
  by (cases r) simp_all

lemma no_fault_pair [intro!]: "(\<And>a b. p = (a, b) \<Longrightarrow> no_fault (f a b)) \<Longrightarrow> no_fault (case p of (a, b) \<Rightarrow> f a b)"
  by (cases p) simp

lemma no_fault_fetch: "i < length m \<Longrightarrow> no_fault (fetch m i)"
  and no_fault_read_bytes: "i + n \<le> length m \<Longrightarrow> no_fault (read_bytes m i n)"
  and no_fault_emit: "length out + length bs \<le> cap \<Longrightarrow> no_fault (emit cap out bs)"
  by simp_all

section \<open>Operations\<close>

definition dot :: byte where
  "dot = 46"

text \<open>
  \<open>put_name\<close>: the labels of a name are appended to the query, a buffer of 512 bytes. The
  result is the longer query, or \<open>None\<close> for the answer -1.
\<close>

function put_name :: "byte list \<Rightarrow> byte list \<Rightarrow> fault + byte list option" where
  "put_name q [] = seqE (emit 512 q [0]) (\<lambda>q. Inr (Some q))"
| "put_name q (c # cs) =
     (let label = takeWhile (\<lambda>b. b \<noteq> dot) (c # cs);
          rest = dropWhile (\<lambda>b. b \<noteq> dot) (c # cs);
          len = length label
      in if len = 0 \<or> 63 < len \<or> 255 < length q + 1 + len then Inr None
         else seqE (emit 512 q [of_nat len]) (\<lambda>q.
              seqE (emit 512 q label) (\<lambda>q.
              put_name q (tl rest))))"
  by pat_completeness auto
termination
proof (relation "measure (\<lambda>(q, name). length name)", goal_cases)
  case (2 q c cs label rest len q1 q2)
  then have "label \<noteq> []" by auto
  moreover have "length label + length rest = length (c # cs)"
    using 2 by (metis length_append takeWhile_dropWhile_id)
  ultimately show ?case by (cases label) auto
qed simp

text \<open>
  \<open>get_name\<close>: the loop's variables are the position, whether it has followed a pointer, the
  caller's offset, the bytes written to \<open>out\<close>, and the number of pointers followed. The first
  component of the result tells the \<open>break\<close> from the answer -1.
\<close>

function get_loop ::
  "byte list \<Rightarrow> nat \<Rightarrow> nat \<Rightarrow> bool \<Rightarrow> nat \<Rightarrow> byte list \<Rightarrow> nat \<Rightarrow> fault + (bool \<times> nat \<times> byte list)"
where
  "get_loop m cap pos jumped off out hops =
     (if length m \<le> pos then Inr (False, off, out)
      else seqE (fetch m pos) (\<lambda>c.
        if c = 0 then Inr (True, if jumped then off else pos + 1, out)
        else if c AND 0xC0 = 0xC0 then
          (if length m \<le> pos + 1 \<or> 32 < hops + 1 then Inr (False, off, out)
           else seqE (fetch m (pos + 1)) (\<lambda>low.
             get_loop m cap (push_bit 8 (unat (c AND 0x3F)) OR unat low) True
               (if jumped then off else pos + 2) out (hops + 1)))
        else if length m < pos + 1 + unat c \<or> cap < length out + unat c + 2 then Inr (False, off, out)
        else seqE (if out \<noteq> [] then emit cap out [dot] else Inr out) (\<lambda>out.
             seqE (read_bytes m (pos + 1) (unat c)) (\<lambda>label.
             seqE (emit cap out label) (\<lambda>out.
             get_loop m cap (pos + 1 + unat c) jumped off out hops)))))"
  by pat_completeness auto
termination
  by (relation "measures [\<lambda>(m, cap, pos, jumped, off, out, hops). 32 - hops,
                          \<lambda>(m, cap, pos, jumped, off, out, hops). length m - pos]")
     (auto simp: unat_gt_0)

declare get_loop.simps [simp del]

definition get_name :: "byte list \<Rightarrow> nat \<Rightarrow> nat \<Rightarrow> fault + (nat \<times> byte list option)" where
  "get_name m off cap =
     seqE (get_loop m cap off False off [] 0) (\<lambda>(found, off, out).
       if \<not> found then Inr (off, None)
       else seqE (if out = [] then emit cap out [dot] else Inr out) (\<lambda>out.
            seqE (emit cap out [0]) (\<lambda>_. Inr (off, Some out))))"

section \<open>One step of the loop\<close>

lemma get_loop_outside: "length m \<le> pos \<Longrightarrow> get_loop m cap pos jumped off out hops = Inr (False, off, out)"
  by (simp add: get_loop.simps)

lemma get_loop_root:
  "pos < length m \<Longrightarrow> m ! pos = 0 \<Longrightarrow>
   get_loop m cap pos jumped off out hops = Inr (True, if jumped then off else pos + 1, out)"
  by (simp add: get_loop.simps)

definition pointer_at :: "byte list \<Rightarrow> nat \<Rightarrow> bool" where
  "pointer_at m pos \<longleftrightarrow> m ! pos AND 0xC0 = 0xC0"

definition pointer_target :: "byte list \<Rightarrow> nat \<Rightarrow> nat" where
  "pointer_target m pos = push_bit 8 (unat (m ! pos AND 0x3F)) OR unat (m ! (pos + 1))"

lemma pointer_not_root: "pointer_at m pos \<Longrightarrow> m ! pos \<noteq> 0"
  by (auto simp: pointer_at_def)

lemma get_loop_pointer:
  assumes "pos < length m" and "pointer_at m pos"
  shows "get_loop m cap pos jumped off out hops =
    (if length m \<le> pos + 1 \<or> 32 < hops + 1 then Inr (False, off, out)
     else get_loop m cap (pointer_target m pos) True (if jumped then off else pos + 2) out (hops + 1))"
proof -
  have "\<not> length m \<le> pos" "fetch m pos = Inr (m ! pos)" "m ! pos \<noteq> 0"
    using assms pointer_not_root by auto
  moreover have "\<not> length m \<le> pos + 1 \<Longrightarrow> fetch m (pos + 1) = Inr (m ! (pos + 1))" by simp
  ultimately show ?thesis
    using assms(2) unfolding pointer_at_def pointer_target_def
    by (subst get_loop.simps) (cases "length m \<le> pos + 1 \<or> 32 < hops + 1"; simp only: seqE_simps if_True if_False; simp)
qed

text \<open>What the step of a label appends to \<open>out\<close>.\<close>

definition with_dot :: "byte list \<Rightarrow> byte list" where
  "with_dot out = (if out = [] then [] else out @ [dot])"

lemma get_loop_label:
  assumes "pos < length m" and "m ! pos \<noteq> 0" and "\<not> pointer_at m pos"
  shows "get_loop m cap pos jumped off out hops =
    (if length m < pos + 1 + unat (m ! pos) \<or> cap < length out + unat (m ! pos) + 2 then Inr (False, off, out)
     else get_loop m cap (pos + 1 + unat (m ! pos)) jumped off
       (with_dot out @ take (unat (m ! pos)) (drop (pos + 1) m)) hops)"
proof (cases "length m < pos + 1 + unat (m ! pos) \<or> cap < length out + unat (m ! pos) + 2")
  case True
  have "\<not> length m \<le> pos" "fetch m pos = Inr (m ! pos)" using assms by auto
  with True assms(2,3) show ?thesis unfolding pointer_at_def
    by (subst get_loop.simps) (simp only: seqE_simps if_True if_False)
next
  case False
  let ?label = "take (unat (m ! pos)) (drop (pos + 1) m)"
  have dot: "(if out \<noteq> [] then emit cap out [dot] else Inr out) = Inr (with_dot out)"
    using False by (simp add: with_dot_def)
  have "length (with_dot out) + length ?label \<le> cap" using False by (auto simp: with_dot_def)
  then have "emit cap (with_dot out) ?label = Inr (with_dot out @ ?label)" by (rule emit_Inr)
  moreover have "read_bytes m (pos + 1) (unat (m ! pos)) = Inr ?label" using False by simp
  moreover have "\<not> length m \<le> pos" "fetch m pos = Inr (m ! pos)" using assms by auto
  ultimately show ?thesis
    using False assms(2,3) dot unfolding pointer_at_def
    by (subst get_loop.simps) (simp only: seqE_simps if_True if_False)
qed

lemmas get_loop_steps = get_loop_outside get_loop_root get_loop_pointer get_loop_label

lemma length_with_dot: "length (with_dot out) \<le> length out + 1"
  by (simp add: with_dot_def)

text \<open>
  The induction that both the safety proof and the round trip follow: the loop's cases with
  the step's equation already applied.
\<close>

lemma get_loop_cases:
  obtains (outside) "length m \<le> pos"
    | (root) "pos < length m" "m ! pos = 0"
    | (pointer) "pos < length m" "pointer_at m pos"
    | (label) "pos < length m" "m ! pos \<noteq> 0" "\<not> pointer_at m pos"
  by (metis not_le)

section \<open>Memory safety\<close>

text \<open>
  Whatever bytes a message holds, the loop reads inside it, writes inside \<open>out\<close> and leaves
  room for the NUL. It leaves the offset behind the name, inside the message. The measure is the
  loop's: pointers left, then bytes left.
\<close>

definition loop_safe :: "byte list \<Rightarrow> nat \<Rightarrow> nat \<Rightarrow> fault + (bool \<times> nat \<times> byte list) \<Rightarrow> bool" where
  "loop_safe m cap start r \<longleftrightarrow>
     (\<exists>found off out. r = Inr (found, off, out) \<and> length out + 1 \<le> cap \<and>
       (found \<longrightarrow> start < off \<and> off \<le> length m))"

lemma get_loop_safe:
  assumes "length out + 1 \<le> cap" and "jumped \<Longrightarrow> start < off \<and> off \<le> length m"
    and "\<not> jumped \<Longrightarrow> start \<le> pos"
  shows "loop_safe m cap start (get_loop m cap pos jumped off out hops)"
  using assms
proof (induction "(32 - hops, length m - pos)" arbitrary: pos jumped off out hops
    rule: wf_induct_rule [OF wf_lex_prod [OF wf_less_than wf_less_than]])
  case 1
  note IH = 1(1) and prems = 1(2-4)
  show ?case
  proof (cases rule: get_loop_cases [of m pos])
    case outside
    then show ?thesis using prems(1) by (auto simp: get_loop_outside loop_safe_def)
  next
    case root
    show ?thesis
      unfolding get_loop_root [OF root] loop_safe_def
      using prems(1) prems(2,3)[unfolded atomize_imp] root(1) by (cases jumped) auto
  next
    case pointer
    have "loop_safe m cap start (get_loop m cap (pointer_target m pos) True
        (if jumped then off else pos + 2) out (hops + 1))"
      if "\<not> (length m \<le> pos + 1 \<or> 32 < hops + 1)"
      using that prems by (intro IH) auto
    then show ?thesis
      unfolding get_loop_pointer [OF pointer] using prems(1) by (auto simp: loop_safe_def)
  next
    case label
    let ?n = "unat (m ! pos)"
    have "loop_safe m cap start (get_loop m cap (pos + 1 + ?n) jumped off
        (with_dot out @ take ?n (drop (pos + 1) m)) hops)"
      if "\<not> (length m < pos + 1 + ?n \<or> cap < length out + ?n + 2)"
      using that prems label(1) length_with_dot [of out] by (intro IH) auto
    then show ?thesis
      unfolding get_loop_label [OF label] using prems(1) by (auto simp: loop_safe_def)
  qed
qed

lemma get_name_safe:
  assumes "2 \<le> cap"
  obtains off' r where "get_name m off cap = Inr (off', r)"
    and "\<And>out. r = Some out \<Longrightarrow> off < off' \<and> off' \<le> length m \<and> length out < cap"
proof -
  have "loop_safe m cap off (get_loop m cap off False off [] 0)"
    using assms by (intro get_loop_safe) auto
  then obtain found o1 out where r: "get_loop m cap off False off [] 0 = Inr (found, o1, out)"
    and out: "length out + 1 \<le> cap" "found \<longrightarrow> off < o1 \<and> o1 \<le> length m"
    unfolding loop_safe_def by blast
  let ?out = "if out = [] then [dot] else out"
  have "length ?out < cap" using out assms by auto
  then have "get_name m off cap = Inr (o1, if found then Some ?out else None)"
    using assms by (auto simp: get_name_def r split: if_splits)
  with out \<open>length ?out < cap\<close> show ?thesis by (intro that) (auto split: if_splits)
qed

lemma no_fault_get_name: "2 \<le> cap \<Longrightarrow> no_fault (get_name m off cap)"
  by (rule get_name_safe [of cap m off]) auto

lemma get_name_Some:
  assumes "get_name m off cap = Inr (p, Some out)" and "2 \<le> cap"
  shows "off < p" "p \<le> length m" "length out < cap"
  using get_name_safe [OF assms(2), of m off] assms(1) by (metis Pair_inject sum.inject(2))+

lemma get_name_outside: "length m \<le> off \<Longrightarrow> get_name m off cap = Inr (off, None)"
  by (simp add: get_name_def get_loop_outside)

section \<open>Names on the wire\<close>

text \<open>
  What the two functions are about: a name is a list of labels, each of at most 63 bytes without
  a dot; a message holds it as counted strings and a final zero, a command line with dots.
\<close>

fun wire :: "byte list list \<Rightarrow> byte list" where
  "wire [] = []"
| "wire (l # ls) = of_nat (length l) # l @ wire ls"

fun dotted :: "byte list list \<Rightarrow> byte list" where
  "dotted [] = []"
| "dotted [l] = l"
| "dotted (l # l' # ls) = l @ dot # dotted (l' # ls)"

definition good_label :: "byte list \<Rightarrow> bool" where
  "good_label l \<longleftrightarrow> l \<noteq> [] \<and> length l \<le> 63 \<and> dot \<notin> set l"

lemma dotted_not_Nil: "\<forall>l\<in>set ls. good_label l \<Longrightarrow> ls \<noteq> [] \<Longrightarrow> dotted ls \<noteq> []"
  by (cases ls rule: dotted.cases) (auto simp: good_label_def)

lemma unat_label_length [simp]: "good_label l \<Longrightarrow> unat (of_nat (length l) :: byte) = length l"
  by (simp add: good_label_def unat_of_nat take_bit_nat_eq_self)

lemma label_length_not_0: "good_label l \<Longrightarrow> (of_nat (length l) :: byte) \<noteq> 0"
  by (metis good_label_def length_0_conv unat_0 unat_label_length)

lemma label_length_no_pointer: "good_label l \<Longrightarrow> (of_nat (length l) :: byte) AND 0xC0 \<noteq> 0xC0"
proof
  assume l: "good_label l" and "(of_nat (length l) :: byte) AND 0xC0 = 0xC0"
  then have "(0xC0 :: byte) \<le> of_nat (length l)" by (metis word_and_le2)
  then have "unat (0xC0 :: byte) \<le> length l" using l by (simp add: word_le_nat_alt)
  with l show False by (simp add: good_label_def)
qed

lemma good_label_takeWhile:
  assumes "good_label l"
  shows "takeWhile (\<lambda>b. b \<noteq> dot) (l @ dot # r) = l" "dropWhile (\<lambda>b. b \<noteq> dot) (l @ dot # r) = dot # r"
    "takeWhile (\<lambda>b. b \<noteq> dot) l = l" "dropWhile (\<lambda>b. b \<noteq> dot) l = []"
proof -
  have "\<And>b. b \<in> set l \<Longrightarrow> b \<noteq> dot" using assms by (auto simp: good_label_def)
  then show "takeWhile (\<lambda>b. b \<noteq> dot) (l @ dot # r) = l" "dropWhile (\<lambda>b. b \<noteq> dot) (l @ dot # r) = dot # r"
    "takeWhile (\<lambda>b. b \<noteq> dot) l = l" "dropWhile (\<lambda>b. b \<noteq> dot) l = []"
    by (simp_all add: takeWhile_append2 dropWhile_append2 takeWhile_eq_all_conv dropWhile_eq_Nil_conv)
qed

subsection \<open>Writing\<close>

lemma put_name_step:
  assumes "name \<noteq> []" and "takeWhile (\<lambda>b. b \<noteq> dot) name = l"
  shows "put_name q name =
    (if l = [] \<or> 63 < length l \<or> 255 < length q + 1 + length l then Inr None
     else put_name (q @ of_nat (length l) # l) (tl (dropWhile (\<lambda>b. b \<noteq> dot) name)))"
  using assms by (cases name) (auto simp: Let_def)

lemma put_name_label:
  assumes "good_label l" and "length q + 1 + length l \<le> 255"
  shows "put_name q (l @ dot # r) = put_name (q @ of_nat (length l) # l) r"
    and "put_name q l = put_name (q @ of_nat (length l) # l) []"
  using assms put_name_step [of "l @ dot # r" l q] put_name_step [of l l q]
    good_label_takeWhile [OF assms(1)]
  by (auto simp: good_label_def simp del: put_name.simps)

lemma put_name_dotted:
  assumes "\<forall>l\<in>set ls. good_label l" and "length q + length (wire ls) \<le> 255"
  shows "put_name q (dotted ls) = Inr (Some (q @ wire ls @ [0]))"
  using assms
proof (induction ls arbitrary: q rule: dotted.induct)
  case (2 l)
  then show ?case by (simp add: put_name_label(2) del: put_name.simps(2))
next
  case (3 l l' ls)
  then show ?case by (simp add: put_name_label(1) del: put_name.simps(2))
qed simp

text \<open>
  Every query the function accepts is the wire form of the name's labels; a single dot at the
  end is dropped. It never writes outside the query.
\<close>

definition names :: "byte list list \<Rightarrow> byte list \<Rightarrow> bool" where
  "names ls name \<longleftrightarrow> name = dotted ls \<or> ls \<noteq> [] \<and> name = dotted ls @ [dot]"

lemma put_name_cases:
  assumes "length q \<le> 255"
  shows "put_name q name = Inr None \<or>
    (\<exists>ls. (\<forall>l\<in>set ls. good_label l) \<and> length q + length (wire ls) \<le> 255 \<and> names ls name \<and>
       put_name q name = Inr (Some (q @ wire ls @ [0])))"
  using assms
proof (induction q name rule: put_name.induct)
  case (1 q)
  then show ?case by (intro disjI2 exI [of _ "[]"]) (simp add: names_def)
next
  case (2 q c cs)
  let ?name = "c # cs"
  define l where "l = takeWhile (\<lambda>b. b \<noteq> dot) ?name"
  define rest where "rest = dropWhile (\<lambda>b. b \<noteq> dot) ?name"
  show ?case
  proof (cases "length l = 0 \<or> 63 < length l \<or> 255 < length q + 1 + length l")
    case True
    then show ?thesis using put_name_step [OF _ l_def [symmetric]] by auto
  next
    case False
    have dot: "dot \<notin> set l" by (auto simp: l_def dest: set_takeWhileD)
    with False have l: "good_label l" by (simp add: good_label_def)
    let ?q = "q @ of_nat (length l) # l"
    have step: "put_name q ?name = put_name ?q (tl rest)"
      using False put_name_step [OF _ l_def [symmetric]] unfolding rest_def by auto
    have "put_name ?q (tl rest) = Inr None \<or>
        (\<exists>ls. (\<forall>l\<in>set ls. good_label l) \<and> length ?q + length (wire ls) \<le> 255 \<and> names ls (tl rest) \<and>
           put_name ?q (tl rest) = Inr (Some (?q @ wire ls @ [0])))"
    proof (rule 2(1) [OF l_def rest_def refl])
      show "emit 512 q [of_nat (length l)] = Inr (q @ [of_nat (length l)])"
        and "emit 512 (q @ [of_nat (length l)]) l = Inr ?q"
        using False by simp_all
    qed (use False in simp_all)
    then show ?thesis
    proof
      assume "\<exists>ls. (\<forall>l\<in>set ls. good_label l) \<and> length ?q + length (wire ls) \<le> 255 \<and> names ls (tl rest) \<and>
           put_name ?q (tl rest) = Inr (Some (?q @ wire ls @ [0]))"
      then obtain ls where ls: "\<forall>l\<in>set ls. good_label l" "length ?q + length (wire ls) \<le> 255"
        "names ls (tl rest)" "put_name ?q (tl rest) = Inr (Some (?q @ wire ls @ [0]))" by blast
      have "?name = l @ rest" by (simp add: l_def rest_def)
      moreover have "rest = [] \<or> rest = dot # tl rest"
        unfolding rest_def by (metis (mono_tags, lifting) dropWhile_eq_Cons_conv list.exhaust_sel)
      ultimately have "names (l # ls) ?name"
        using ls(3) dotted_not_Nil [OF ls(1)] by (cases ls) (auto simp: names_def)
      with ls l show ?thesis unfolding step by (intro disjI2 exI [of _ "l # ls"]) simp
    qed (simp only: step simp_thms)
  qed
qed

subsection \<open>Reading\<close>

definition joined :: "byte list \<Rightarrow> byte list list \<Rightarrow> byte list" where
  "joined out ls = fold (\<lambda>l out. with_dot out @ l) ls out"

lemma joined_simps [simp]:
  "joined out [] = out" "joined out (l # ls) = joined (with_dot out @ l) ls"
  by (simp_all add: joined_def)

lemma joined_dotted:
  assumes "\<forall>l\<in>set ls. good_label l"
  shows "joined out ls = (if ls = [] then out else with_dot out @ dotted ls)"
  using assms
proof (induction ls arbitrary: out rule: dotted.induct)
  case (3 l l' ls)
  then have "with_dot (with_dot out @ l) = with_dot out @ l @ [dot]"
    by (auto simp: good_label_def with_dot_def)
  with 3(1)[of "with_dot out @ l"] 3(2) show ?case by simp
qed simp_all

lemma drop_Cons_nth:
  assumes "drop n xs = y # ys"
  shows "n < length xs" "xs ! n = y" "drop (n + 1) xs = ys"
proof -
  show "n < length xs" using assms by (metis drop_all list.distinct(1) not_le)
  then show "xs ! n = y" "drop (n + 1) xs = ys" using assms by (simp_all add: Cons_nth_drop_Suc [symmetric])
qed

text \<open>
  The loop on a name in wire form, wherever it stands in the message and however the loop came
  there.
\<close>

lemma get_loop_wire:
  assumes "\<forall>l\<in>set ls. good_label l" and "drop pos m = wire ls @ 0 # rest"
    and "length out + length (wire ls) < cap"
  shows "get_loop m cap pos jumped off out hops =
    Inr (True, if jumped then off else pos + length (wire ls) + 1, joined out ls)"
  using assms
proof (induction ls arbitrary: pos out)
  case Nil
  then have "pos < length m" "m ! pos = 0" using drop_Cons_nth [of pos m 0 rest] by simp_all
  then show ?case by (simp add: get_loop_root)
next
  case (Cons l ls)
  let ?n = "length l"
  have l: "good_label l" using Cons.prems(1) by simp
  have d: "drop pos m = of_nat ?n # l @ wire ls @ 0 # rest" using Cons.prems(2) by simp
  then have pos: "pos < length m" "m ! pos = of_nat ?n" by (blast dest: drop_Cons_nth)+
  have d1: "drop (pos + 1) m = l @ wire ls @ 0 # rest" by (rule drop_Cons_nth(3) [OF d])
  have d2: "drop (pos + 1 + ?n) m = wire ls @ 0 # rest"
    using arg_cong [OF d1, of "drop ?n"] by (simp add: add.commute)
  have "length (drop (pos + 1) m) = ?n + length (wire ls) + 1 + length rest" using d1 by simp
  then have fits: "\<not> (length m < pos + 1 + ?n \<or> cap < length out + ?n + 2)"
    using Cons.prems(3) by auto
  have "get_loop m cap pos jumped off out hops =
      get_loop m cap (pos + 1 + ?n) jumped off (with_dot out @ l) hops"
    using pos l fits d1 label_length_no_pointer [OF l] label_length_not_0 [OF l]
    by (subst get_loop_label) (auto simp: pointer_at_def)
  also have "\<dots> = Inr (True, if jumped then off else pos + 1 + ?n + length (wire ls) + 1, joined (with_dot out @ l) ls)"
    using Cons.prems(1,3) d2 length_with_dot [of out] by (intro Cons.IH) auto
  finally show ?case by simp
qed

text \<open>The dotted name that is read; the root is written as a dot.\<close>

definition printed_name :: "byte list list \<Rightarrow> byte list" where
  "printed_name ls = (if ls = [] then [dot] else dotted ls)"

lemma length_dotted: "length (dotted ls) \<le> length (wire ls)"
  by (induction ls rule: dotted.induct) auto

lemma get_name_found:
  assumes "\<forall>l\<in>set ls. good_label l" and "length (wire ls) + 1 < cap"
    and "get_loop m cap off False off [] 0 = Inr (True, off', joined [] ls)"
  shows "get_name m off cap = Inr (off', Some (printed_name ls))"
proof -
  have "length (printed_name ls) < cap"
    using assms(2) length_dotted [of ls] by (simp add: printed_name_def)
  then show ?thesis
    using assms dotted_not_Nil [of ls]
    by (auto simp: get_name_def joined_dotted printed_name_def with_dot_def)
qed

lemma get_name_wire:
  assumes "\<forall>l\<in>set ls. good_label l" and "drop off m = wire ls @ 0 # rest"
    and "length (wire ls) + 1 < cap"
  shows "get_name m off cap = Inr (off + length (wire ls) + 1, Some (printed_name ls))"
  using assms(1,3) get_loop_wire [OF assms(1,2), of "[]" cap False off 0]
  by (intro get_name_found) auto

text \<open>A pointer to a name reads as the name and takes two bytes.\<close>

lemma get_name_pointer:
  assumes "\<forall>l\<in>set ls. good_label l" and "off + 1 < length m" and "pointer_at m off"
    and "drop (pointer_target m off) m = wire ls @ 0 # rest" and "length (wire ls) + 1 < cap"
  shows "get_name m off cap = Inr (off + 2, Some (printed_name ls))"
  using assms get_loop_wire [OF assms(1,4), of "[]" cap True "off + 2" 1]
  by (intro get_name_found) (auto simp: get_loop_pointer)

end
