(* ===== verification/Resolver_Answers.thy ===== *)
theory Resolver_Answers
  imports Resolver_Names
begin

text \<open>
  What \<open>src/net-tools/src/nslookup.c\<close> makes of a reply: \<open>print_record\<close> and the part of \<open>main\<close> that
  walks through the questions and answers. The reply is the list of the received bytes; every
  access is checked, so that the safety theorem covers every reply a server can send.
\<close>

unbundle bit_operations_syntax

section \<open>Text\<close>

text \<open>A C string in a buffer of bytes, as \<open>%s\<close> prints it.\<close>

definition c_string :: "byte list \<Rightarrow> string" where
  "c_string bs = map (\<lambda>b. char_of (unat b)) (takeWhile (\<lambda>b. b \<noteq> 0) bs)"

definition bytes_of :: "string \<Rightarrow> byte list" where
  "bytes_of s = map (\<lambda>c. of_nat (of_char c)) s"

text \<open>\<open>inet_ntop\<close> of four bytes.\<close>

definition ip4 :: "byte list \<Rightarrow> string" where
  "ip4 b = decimal (unat (b ! 0)) @ ''.'' @ decimal (unat (b ! 1)) @ ''.'' @
     decimal (unat (b ! 2)) @ ''.'' @ decimal (unat (b ! 3))"

definition tab :: string where "tab = [char_of (9 :: nat)]"
definition eol :: string where "eol = [char_of (10 :: nat)]"
definition quote_mark :: string where "quote_mark = [char_of (34 :: nat)]"

section \<open>Record types\<close>

definition T_A :: nat where "T_A = 1"
definition T_NS :: nat where "T_NS = 2"
definition T_CNAME :: nat where "T_CNAME = 5"
definition T_SOA :: nat where "T_SOA = 6"
definition T_PTR :: nat where "T_PTR = 12"
definition T_MX :: nat where "T_MX = 15"
definition T_TXT :: nat where "T_TXT = 16"
definition T_AAAA :: nat where "T_AAAA = 28"
definition T_ANY :: nat where "T_ANY = 255"

lemmas type_defs = T_A_def T_NS_def T_CNAME_def T_SOA_def T_PTR_def T_MX_def T_TXT_def T_AAAA_def T_ANY_def

definition kTypes :: "(string \<times> nat) list" where
  "kTypes = [(''A'', T_A), (''NS'', T_NS), (''CNAME'', T_CNAME), (''SOA'', T_SOA), (''PTR'', T_PTR),
     (''MX'', T_MX), (''TXT'', T_TXT), (''AAAA'', T_AAAA), (''ANY'', T_ANY)]"

text \<open>\<open>strcasecmp\<close> compares the characters with the letters folded.\<close>

definition lower_char :: "char \<Rightarrow> char" where
  "lower_char c = (if 65 \<le> (of_char c :: nat) \<and> of_char c \<le> (90 :: nat) then char_of (of_char c + 32 :: nat) else c)"

definition same_folded :: "string \<Rightarrow> string \<Rightarrow> bool" where
  "same_folded a b \<longleftrightarrow> map lower_char a = map lower_char b"

text \<open>\<open>None\<close> is the answer -1.\<close>

definition type_from_name :: "string \<Rightarrow> nat option" where
  "type_from_name s = map_option snd (find (\<lambda>(n, t). same_folded s n) kTypes)"

definition type_name :: "nat \<Rightarrow> string" where
  "type_name t = (case find (\<lambda>(n, u). u = t) kTypes of None \<Rightarrow> ''?'' | Some (n, u) \<Rightarrow> n)"

section \<open>Printing a record\<close>

text \<open>Numbers of two and four bytes, most significant byte first.\<close>

definition be16 :: "byte list \<Rightarrow> nat \<Rightarrow> fault + nat" where
  "be16 m i = seqE (fetch m i) (\<lambda>a. seqE (fetch m (i + 1)) (\<lambda>b. Inr (256 * unat a + unat b)))"

definition be32 :: "byte list \<Rightarrow> nat \<Rightarrow> fault + nat" where
  "be32 m i = seqE (be16 m i) (\<lambda>a. seqE (be16 m (i + 2)) (\<lambda>b. Inr (65536 * a + b)))"

lemma be16_Inr: "i + 1 < length m \<Longrightarrow> be16 m i = Inr (256 * unat (m ! i) + unat (m ! (i + 1)))"
  by (simp add: be16_def)

lemma be32_Inr: "i + 3 < length m \<Longrightarrow> \<exists>n. be32 m i = Inr n"
  by (simp add: be32_def be16_Inr)

text \<open>
  The strings of a TXT record: \<open>q\<close> is the position, \<open>stop\<close> is \<open>off + rdlen\<close>.
\<close>

function print_strings :: "byte list \<Rightarrow> nat \<Rightarrow> nat \<Rightarrow> fault + string" where
  "print_strings m stop q =
     (if stop \<le> q then Inr []
      else seqE (fetch m q) (\<lambda>l.
        if stop < q + 1 + unat l then Inr []
        else seqE (read_bytes m (q + 1) (unat l)) (\<lambda>bs.
             seqE (print_strings m stop (q + 1 + unat l)) (\<lambda>rest.
             Inr (quote_mark @ c_string bs @ quote_mark @
                  (if q + 1 + unat l < stop then '' '' else []) @ rest)))))"
  by pat_completeness auto
termination
  by (relation "measure (\<lambda>(m, stop, q). stop - q)") auto

declare print_strings.simps [simp del]

text \<open>
  \<open>print_record\<close>: whether it counts as printed, and the text. \<open>host\<close> is \<open>host_style\<close>, \<open>ntop6\<close> the
  library's \<open>inet_ntop\<close> of an IPv6 address.
\<close>

definition print_rr ::
  "(byte list \<Rightarrow> string) \<Rightarrow> bool \<Rightarrow> byte list \<Rightarrow> nat \<Rightarrow> nat \<Rightarrow> nat \<Rightarrow> string \<Rightarrow> fault + (bool \<times> string)"
where
  "print_rr ntop6 host m off type rdlen owner =
     (if type = T_A then
        (if rdlen \<noteq> 4 then Inr (False, [])
         else seqE (read_bytes m off 4) (\<lambda>a. Inr (True,
           if host then owner @ '' has address '' @ ip4 a @ eol
           else ''Name:'' @ tab @ owner @ eol @ ''Address: '' @ ip4 a @ eol)))
      else if type = T_AAAA then
        (if rdlen \<noteq> 16 then Inr (False, [])
         else seqE (read_bytes m off 16) (\<lambda>a. Inr (True,
           if host then owner @ '' has IPv6 address '' @ ntop6 a @ eol
           else ''Name:'' @ tab @ owner @ eol @ ''Address: '' @ ntop6 a @ eol)))
      else if type = T_CNAME \<or> type = T_NS \<or> type = T_PTR then
        seqE (get_name m off 512) (\<lambda>(p, r). case r of
            None \<Rightarrow> Inr (False, [])
          | Some name \<Rightarrow> Inr (True,
              owner @
              (if type = T_CNAME then (if host then '' is an alias for '' else tab @ ''canonical name = '')
               else if type = T_NS then (if host then '' name server '' else tab @ ''nameserver = '')
               else (if host then '' domain name pointer '' else tab @ ''name = '')) @
              c_string name @ ''.'' @ eol))
      else if type = T_MX then
        (if rdlen < 3 then Inr (False, [])
         else seqE (be16 m off) (\<lambda>pref. seqE (get_name m (off + 2) 512) (\<lambda>(p, r). case r of
            None \<Rightarrow> Inr (False, [])
          | Some name \<Rightarrow> Inr (True,
              owner @ (if host then '' mail is handled by '' else tab @ ''mail exchanger = '') @
              decimal pref @ '' '' @ c_string name @ ''.'' @ eol))))
      else if type = T_TXT then
        seqE (print_strings m (off + rdlen) off) (\<lambda>strings. Inr (True,
          owner @ (if host then '' descriptive text '' else tab @ ''text = '') @ strings @ eol))
      else if type = T_SOA then
        seqE (get_name m off 512) (\<lambda>(p, r). case r of
            None \<Rightarrow> Inr (False, [])
          | Some name \<Rightarrow> seqE (get_name m p 512) (\<lambda>(p, r). case r of
                None \<Rightarrow> Inr (False, [])
              | Some mail \<Rightarrow>
                  if length m < p + 20 then Inr (False, [])
                  else seqE (be32 m p) (\<lambda>serial. Inr (True,
                    if host then owner @ '' has SOA record '' @ c_string name @ ''. '' @ c_string mail @ ''. '' @
                      decimal serial @ eol
                    else owner @ eol @ tab @ ''origin = '' @ c_string name @ eol @ tab @
                      ''mail addr = '' @ c_string mail @ eol @ tab @ ''serial = '' @ decimal serial @ eol))))
      else Inr (True, owner @ tab @ ''type '' @ decimal type @ '', '' @ decimal rdlen @ '' bytes'' @ eol))"

section \<open>Walking through a reply\<close>

text \<open>
  What \<open>main\<close> counts and prints: the records printed, whether the line about authority has been
  printed, the exit status, and what goes to the two output streams.
\<close>

record report =
  printed :: nat
  header :: bool
  status :: nat
  out_text :: string
  err_text :: string

definition say :: "string \<Rightarrow> report \<Rightarrow> report" where
  "say t s = s\<lparr>out_text := out_text s @ t\<rparr>"

text \<open>The questions are skipped; \<open>None\<close> is \<open>return 1\<close>.\<close>

fun skip_questions :: "byte list \<Rightarrow> nat \<Rightarrow> nat \<Rightarrow> fault + nat option" where
  "skip_questions m off 0 = Inr (Some off)"
| "skip_questions m off (Suc n) =
     seqE (get_name m off 512) (\<lambda>(off, owner). case owner of
         None \<Rightarrow> Inr None
       | Some _ \<Rightarrow> skip_questions m (off + 4) n)"

text \<open>
  The answers: the flag of the result is \<open>False\<close> for \<open>return 1\<close>. \<open>first\<close> says that the reply is to
  the first query (\<open>t == 0\<close>).
\<close>

fun print_answers ::
  "(byte list \<Rightarrow> string) \<Rightarrow> bool \<Rightarrow> bool \<Rightarrow> byte list \<Rightarrow> nat \<Rightarrow> nat \<Rightarrow> report \<Rightarrow> fault + (bool \<times> report)"
where
  "print_answers ntop6 host first m off 0 s = Inr (True, s)"
| "print_answers ntop6 host first m off (Suc n) s =
     seqE (get_name m off 512) (\<lambda>(off, owner). case owner of
         None \<Rightarrow> Inr (False, s)
       | Some owner \<Rightarrow>
           if length m < off + 10 then Inr (False, s)
           else seqE (be16 m off) (\<lambda>rtype. seqE (be16 m (off + 8)) (\<lambda>rdlen.
             if length m < off + 10 + rdlen then Inr (False, s)
             else seqE (if \<not> (host \<and> rtype = T_CNAME \<and> \<not> first)
                        then print_rr ntop6 host m (off + 10) rtype rdlen (c_string owner)
                        else Inr (False, [])) (\<lambda>(done, t).
               print_answers ntop6 host first m (off + 10 + rdlen) n
                 (say t (s\<lparr>printed := printed s + (if done then 1 else 0)\<rparr>))))))"

definition rcode_name :: "nat \<Rightarrow> string" where
  "rcode_name c = (if c < 6 then [''NOERROR'', ''FORMERR'', ''SERVFAIL'', ''NXDOMAIN'', ''NOTIMP'', ''REFUSED''] ! c
     else ''error'')"

text \<open>
  A reply of at least twelve bytes: the part of \<open>main\<close>'s loop after the exchange. \<open>only\<close> says that
  one type was asked for (\<open>ntypes == 1\<close>), \<open>asked\<close> is that type.
\<close>

definition read_reply ::
  "(byte list \<Rightarrow> string) \<Rightarrow> bool \<Rightarrow> string \<Rightarrow> bool \<Rightarrow> bool \<Rightarrow> nat \<Rightarrow> byte list \<Rightarrow> report \<Rightarrow> fault + (bool \<times> report)"
where
  "read_reply ntop6 host name first only asked m s =
     seqE (fetch m 3) (\<lambda>b3. let rcode = unat (b3 AND 0x0F) in
     if rcode \<noteq> 0 then Inr (False, say
       (if host then ''Host '' @ name @ '' not found: '' @ decimal rcode @ ''('' @ rcode_name rcode @ '')'' @ eol
        else ''** server can't find '' @ name @ '': '' @ rcode_name rcode @ eol) s)
     else seqE (be16 m 4) (\<lambda>qd. seqE (be16 m 6) (\<lambda>an. seqE (fetch m 2) (\<lambda>b2.
       seqE (skip_questions m 12 qd) (\<lambda>r. case r of
           None \<Rightarrow> Inr (False, s)
         | Some off \<Rightarrow>
             (let s = if \<not> host \<and> \<not> header s \<and> 0 < an
                      then say (if b2 AND 0x04 \<noteq> 0 then ''Authoritative answer:'' @ eol
                                else ''Non-authoritative answer:'' @ eol) (s\<lparr>header := True\<rparr>)
                      else s
              in seqE (print_answers ntop6 host first m off an s) (\<lambda>(ok, s).
                if \<not> ok then Inr (False, s)
                else if an = 0 \<and> asked \<noteq> T_A \<and> only
                then Inr (True, say (if host then name @ '' has no '' @ type_name asked @ '' record'' @ eol
                       else ''*** Can't find '' @ name @ '': No answer'' @ eol) (s\<lparr>status := 1\<rparr>))
                else Inr (True, s))))))))"

section \<open>Memory safety\<close>

lemma no_fault_be16: "i + 1 < length m \<Longrightarrow> no_fault (be16 m i)"
  by (simp add: be16_Inr)

lemma no_fault_be32: "i + 3 < length m \<Longrightarrow> no_fault (be32 m i)"
  unfolding be32_def by (intro no_fault_seqE no_fault_be16) auto

lemmas no_fault_access =
  no_fault_fetch no_fault_read_bytes no_fault_be16 no_fault_be32 no_fault_get_name

lemma no_fault_print_strings: "stop \<le> length m \<Longrightarrow> no_fault (print_strings m stop q)"
proof (induction m stop q rule: print_strings.induct)
  case (1 m stop q)
  show ?case
    by (subst print_strings.simps)
       (use 1 in \<open>intro no_fault_if no_fault_seqE no_fault_Inr no_fault_access; simp\<close>)
qed

lemma no_fault_print_rr:
  assumes "off + rdlen \<le> length m"
  shows "no_fault (print_rr ntop6 host m off type rdlen owner)"
  unfolding print_rr_def
  by (intro no_fault_if no_fault_seqE no_fault_Inr no_fault_option no_fault_pair no_fault_access
        no_fault_print_strings; use assms in simp)

lemma no_fault_skip_questions: "no_fault (skip_questions m off n)"
  by (induction n arbitrary: off) (simp, auto intro: no_fault_get_name)

lemma no_fault_print_answers: "no_fault (print_answers ntop6 host first m off n s)"
proof (induction n arbitrary: off s)
  case (Suc n)
  then show ?case
    by (simp only: print_answers.simps, intro no_fault_if no_fault_seqE no_fault_Inr
          no_fault_option no_fault_pair no_fault_access no_fault_print_rr) simp_all
qed simp

lemma no_fault_read_reply:
  assumes "12 \<le> length m"
  shows "no_fault (read_reply ntop6 host name first only asked m s)"
  unfolding read_reply_def Let_def
  by (intro no_fault_if no_fault_seqE no_fault_Inr no_fault_option no_fault_pair no_fault_access
        no_fault_skip_questions no_fault_print_answers; use assms in simp)

end
