(* ===== verification/Resolver_Replies.thy ===== *)
theory Resolver_Replies
  imports Resolver_Answers
begin

text \<open>
  What the resolver prints for the replies of a name server: the encoding of answers as RFC 1035
  has it, with the owner's name compressed to a pointer to the question, and the proof that
  the code of \<open>Resolver_Answers\<close> prints exactly the answers encoded.
\<close>

unbundle bit_operations_syntax

section \<open>The encoding\<close>

datatype answer =
    Address "byte list"
  | Address6 "byte list"
  | Alias "byte list list"

fun answer_type :: "answer \<Rightarrow> byte" where
  "answer_type (Address a) = 1"
| "answer_type (Address6 a) = 28"
| "answer_type (Alias ls) = 5"

fun answer_data :: "answer \<Rightarrow> byte list" where
  "answer_data (Address a) = a"
| "answer_data (Address6 a) = a"
| "answer_data (Alias ls) = wire ls @ [0]"

fun good_answer :: "answer \<Rightarrow> bool" where
  "good_answer (Address a) \<longleftrightarrow> length a = 4"
| "good_answer (Address6 a) \<longleftrightarrow> length a = 16"
| "good_answer (Alias ls) \<longleftrightarrow> (\<forall>l\<in>set ls. good_label l) \<and> length (wire ls) < 255"

text \<open>Name, type, class, four bytes of time to live, length, data.\<close>

definition answer_bytes :: "byte list \<times> answer \<Rightarrow> byte list" where
  "answer_bytes = (\<lambda>(ttl, a). [0xC0, 0x0C, 0, answer_type a, 0, 1] @ ttl @
     [0, of_nat (length (answer_data a))] @ answer_data a)"

fun answer_line :: "(byte list \<Rightarrow> string) \<Rightarrow> bool \<Rightarrow> string \<Rightarrow> answer \<Rightarrow> string" where
  "answer_line ntop6 host owner (Address a) =
     (if host then owner @ '' has address '' @ ip4 a @ eol
      else ''Name:'' @ tab @ owner @ eol @ ''Address: '' @ ip4 a @ eol)"
| "answer_line ntop6 host owner (Address6 a) =
     (if host then owner @ '' has IPv6 address '' @ ntop6 a @ eol
      else ''Name:'' @ tab @ owner @ eol @ ''Address: '' @ ntop6 a @ eol)"
| "answer_line ntop6 host owner (Alias ls) =
     owner @ (if host then '' is an alias for '' else tab @ ''canonical name = '') @
     c_string (printed_name ls) @ ''.'' @ eol"

section \<open>Reading an answer\<close>

lemma drop_append_length: "drop n m = xs @ ys \<Longrightarrow> drop (n + length xs) m = ys"
  by (metis add.commute append_eq_conv_conj drop_drop)

lemma drop_length: "drop n m = xs \<Longrightarrow> xs \<noteq> [] \<Longrightarrow> length m = n + length xs"
  by (cases "n \<le> length m") auto

lemma fetch_drop: "drop n m = xs @ y # ys \<Longrightarrow> fetch m (n + length xs) = Inr y"
  using drop_append_length [of n m xs "y # ys"] drop_Cons_nth by fastforce

lemma be16_drop: "drop n m = xs @ a # b # ys \<Longrightarrow> be16 m (n + length xs) = Inr (256 * unat a + unat b)"
  using fetch_drop [of n m xs a "b # ys"] fetch_drop [of n m "xs @ [a]" b ys]
  by (simp add: be16_def)

lemma read_bytes_drop:
  assumes "drop n m = bs @ ys" and "bs \<noteq> []"
  shows "read_bytes m n (length bs) = Inr bs"
proof -
  have "length m = n + length (bs @ ys)" using drop_length [OF assms(1)] assms(2) by simp
  with assms(1) show ?thesis by (simp add: read_bytes_def)
qed

lemma length_answer_data: "good_answer a \<Longrightarrow> length (answer_data a) \<le> 255"
  by (cases a) auto

text \<open>The record's own part.\<close>

lemma print_rr_answer:
  assumes "good_answer a" and "drop off m = answer_data a @ rest"
  shows "print_rr ntop6 host m off (unat (answer_type a)) (length (answer_data a)) owner =
    Inr (True, answer_line ntop6 host owner a)"
proof (cases a)
  case (Address b)
  then have "b \<noteq> []" using assms(1) by auto
  with Address assms read_bytes_drop [of off m b rest] show ?thesis
    by (simp add: print_rr_def type_defs)
next
  case (Address6 b)
  then have "b \<noteq> []" using assms(1) by auto
  with Address6 assms read_bytes_drop [of off m b rest] show ?thesis
    by (simp add: print_rr_def type_defs)
next
  case (Alias ls)
  with assms get_name_wire [of ls off m rest 512] show ?thesis
    by (simp add: print_rr_def type_defs)
qed

text \<open>The pointer to the question, which stands behind the twelve bytes of the header.\<close>

lemma get_name_question:
  assumes "\<forall>l\<in>set ls. good_label l" and "length (wire ls) < 255"
    and "drop 12 m = wire ls @ 0 # q" and "drop off m = [0xC0, 0x0C] @ rest"
  shows "get_name m off 512 = Inr (off + 2, Some (printed_name ls))"
proof (rule get_name_pointer [OF assms(1)])
  have d: "m ! off = 0xC0" "drop (off + 1) m = 0x0C # rest"
    using drop_Cons_nth [of off m "0xC0" "0x0C # rest"] assms(4) by simp_all
  from drop_Cons_nth [OF d(2)] show "off + 1 < length m" by simp
  show "pointer_at m off" by (simp add: pointer_at_def d)
  have "pointer_target m off = 12"
    using drop_Cons_nth(2) [OF d(2)] d(1) by (simp add: pointer_target_def)
  with assms(3) show "drop (pointer_target m off) m = wire ls @ 0 # q" by simp
qed (use assms(2) in simp)

lemma print_answers_encoded:
  assumes "\<forall>l\<in>set ls. good_label l" and "length (wire ls) < 255"
    and "drop 12 m = wire ls @ 0 # q"
    and "\<forall>(ttl, a)\<in>set as. length ttl = 4 \<and> good_answer a"
    and "drop off m = concat (map answer_bytes as) @ rest"
  shows "print_answers ntop6 host True m off (length as) s =
    Inr (True, say (concat (map (\<lambda>(ttl, a). answer_line ntop6 host (c_string (printed_name ls)) a) as))
      (s\<lparr>printed := printed s + length as\<rparr>))"
  using assms(4,5)
proof (induction as arbitrary: off s)
  case Nil
  then show ?case by (simp add: say_def)
next
  case (Cons ta as)
  obtain ttl a where ta: "ta = (ttl, a)" by (cases ta)
  let ?rest = "concat (map answer_bytes as) @ rest"
  let ?n = "length (answer_data a)"
  have good: "length ttl = 4" "good_answer a" using Cons.prems(1) ta by auto
  note le = length_answer_data [OF good(2)]
  have u: "unat (of_nat ?n :: byte) = ?n" using le by (simp add: unat_of_nat take_bit_nat_eq_self)
  have d: "drop off m = [0xC0, 0x0C, 0, answer_type a, 0, 1] @ ttl @ [0, of_nat ?n] @ answer_data a @ ?rest"
    using Cons.prems(2) ta by (simp add: answer_bytes_def)
  have name: "get_name m off 512 = Inr (off + 2, Some (printed_name ls))"
    using d by (intro get_name_question [OF assms(1-3)]) simp
  have rtype: "be16 m (off + 2) = Inr (unat (answer_type a))"
    using be16_drop [of off m "[0xC0, 0x0C]" 0 "answer_type a"] d by simp
  have rdlen: "be16 m (off + 10) = Inr ?n"
    using be16_drop [of off m "[0xC0, 0x0C, 0, answer_type a, 0, 1] @ ttl" 0 "of_nat ?n"] d u good(1) by simp
  have d12: "drop (off + 12) m = answer_data a @ ?rest"
    using drop_append_length [of off m "[0xC0, 0x0C, 0, answer_type a, 0, 1] @ ttl @ [0, of_nat ?n]"]
      d good(1) by simp
  note next_off = drop_append_length [OF d12]
  have "length m = off + 12 + ?n + length ?rest"
    using drop_length [OF d] good(1) by simp
  then have fits: "\<not> length m < off + 2 + 10" "\<not> length m < off + 2 + 10 + ?n" by simp_all
  have ih: "print_answers ntop6 host True m (off + 12 + ?n) (length as)
      (say t (s\<lparr>printed := printed s + 1\<rparr>)) =
    Inr (True, say (concat (map (\<lambda>(ttl, a). answer_line ntop6 host (c_string (printed_name ls)) a) as))
      (say t (s\<lparr>printed := printed s + 1\<rparr>)\<lparr>printed := printed s + 1 + length as\<rparr>))" for t
    using Cons.prems(1) next_off Cons.IH [of "off + 12 + ?n" "say t (s\<lparr>printed := printed s + 1\<rparr>)"]
    by (simp add: say_def)
  show ?case
    using name rtype rdlen fits print_rr_answer [OF good(2) d12, of ntop6 host "c_string (printed_name ls)"] ih
    by (simp add: ta add.commute add.left_commute) (simp add: say_def)
qed

end
