(* ===== verification/Resolver.thy ===== *)
theory Resolver
  imports Resolver_Replies
begin

text \<open>
  The exchanges with the name server and the program as a whole: the rest of
  \<open>src/net-tools/src/nslookup.c\<close>. The system calls are an environment; the C library's address
  parser, its IPv6 formatter and its conversion of the timeout (a \<open>double\<close>) are parameters.
\<close>

unbundle bit_operations_syntax

section \<open>System calls\<close>

text \<open>
  A call with its inputs, and what it gives back: a number, the two fields of a \<open>timespec\<close>, the
  bytes of a stream, or a datagram with its sender's address.
\<close>

datatype net_call =
    Entropy | Clock
  | Socket_dgram | Socket_stream
  | Sendto int "byte list" "byte list"
  | Poll int int
  | Recvfrom int nat
  | Set_timeout int string
  | Connect int "byte list"
  | Send int "byte list"
  | Recv int nat
  | Close int

datatype net_reply = Number int | Time int int | Stream "byte list" | Datagram "byte list" "byte list"

type_synonym net = "(net_call, net_reply) environment"

fun number_of :: "net_reply \<Rightarrow> int" where
  "number_of (Number n) = n"
| "number_of _ = - 1"

fun time_of :: "net_reply \<Rightarrow> int \<times> int" where
  "time_of (Time s n) = (s, n)"
| "time_of _ = (0, 0)"

fun stream_of :: "net_reply \<Rightarrow> byte list" where
  "stream_of (Stream bs) = bs"
| "stream_of _ = []"

section \<open>UDP\<close>

text \<open>
  Milliseconds between two readings of the clock; C's division drops the fraction on both sides
  of zero.
\<close>

definition elapsed :: "int \<times> int \<Rightarrow> int \<times> int \<Rightarrow> int" where
  "elapsed t0 t1 = (fst t1 - fst t0) * 1000 +
     (let d = snd t1 - snd t0 in if d < 0 then - ((- d) div 1000000) else d div 1000000)"

text \<open>
  The answer must come from the server and carry the query's identifier.
\<close>

definition accepted :: "byte list \<Rightarrow> byte list \<Rightarrow> byte list \<Rightarrow> byte list \<Rightarrow> bool" where
  "accepted server q sender r \<longleftrightarrow> 12 \<le> length r \<and> sender = server \<and> r ! 0 = q ! 0 \<and> r ! 1 = q ! 1"

partial_function (option) udp_wait ::
  "net \<Rightarrow> int \<Rightarrow> byte list \<Rightarrow> byte list \<Rightarrow> nat \<Rightarrow> int \<Rightarrow> int \<times> int \<Rightarrow> net_call list \<Rightarrow>
   (byte list option \<times> net_call list) option"
where
  "udp_wait env fd server q rcap limit t0 w =
     (let left = limit - elapsed t0 (time_of (env w Clock)); w1 = w @ [Clock]
      in if left \<le> 0 then Some (None, w1)
         else (let w2 = w1 @ [Poll fd left]
           in if number_of (env w1 (Poll fd left)) \<le> 0 then Some (None, w2)
              else (let w3 = w2 @ [Recvfrom fd rcap]
                in case env w2 (Recvfrom fd rcap) of
                     Datagram sender bs \<Rightarrow>
                       if accepted server q sender (take rcap bs) then Some (Some (take rcap bs), w3)
                       else udp_wait env fd server q rcap limit t0 w3
                   | _ \<Rightarrow> udp_wait env fd server q rcap limit t0 w3)))"

declare udp_wait.simps [code]

fun udp_attempts ::
  "net \<Rightarrow> int \<Rightarrow> byte list \<Rightarrow> byte list \<Rightarrow> nat \<Rightarrow> int \<Rightarrow> nat \<Rightarrow> net_call list \<Rightarrow>
   (byte list option \<times> net_call list) option"
where
  "udp_attempts env fd server q rcap limit 0 w = Some (None, w)"
| "udp_attempts env fd server q rcap limit (Suc k) w =
     (let w1 = w @ [Sendto fd server q]
      in if number_of (env w (Sendto fd server q)) < 0 then Some (None, w1)
         else Option.bind (udp_wait env fd server q rcap limit (time_of (env w1 Clock)) (w1 @ [Clock]))
           (\<lambda>(r, w). case r of Some r \<Rightarrow> Some (Some r, w)
                      | None \<Rightarrow> udp_attempts env fd server q rcap limit k w))"

definition exchange_udp ::
  "net \<Rightarrow> byte list \<Rightarrow> byte list \<Rightarrow> nat \<Rightarrow> int \<Rightarrow> net_call list \<Rightarrow> (byte list option \<times> net_call list) option"
where
  "exchange_udp env server q rcap limit w =
     (let fd = number_of (env w Socket_dgram); w1 = w @ [Socket_dgram]
      in if fd < 0 then Some (None, w1)
         else map_option (\<lambda>(r, w). (r, w @ [Close fd])) (udp_attempts env fd server q rcap limit 3 w1))"

section \<open>TCP\<close>

text \<open>
  \<open>read_all\<close>: whether all \<open>n\<close> bytes came, and the bytes that did, which the code has written over
  the start of its buffer.
\<close>

function read_all ::
  "net \<Rightarrow> int \<Rightarrow> nat \<Rightarrow> byte list \<Rightarrow> net_call list \<Rightarrow> bool \<times> byte list \<times> net_call list"
where
  "read_all env fd n got w =
     (if n \<le> length got then (True, got, w)
      else let c = Recv fd (n - length got); bs = take (n - length got) (stream_of (env w c))
           in if bs = [] then (False, got, w @ [c]) else read_all env fd n (got @ bs) (w @ [c]))"
  by pat_completeness auto
termination
  by (relation "measure (\<lambda>(env, fd, n, got, w). n - length got)")
     (auto simp: min_def simp flip: length_greater_0_conv)

declare read_all.simps [simp del]

definition overwrite :: "byte list \<Rightarrow> byte list \<Rightarrow> byte list" where
  "overwrite bs r = bs @ drop (length bs) r"

text \<open>
  \<open>exchange_tcp\<close>: the length of the answer (\<open>None\<close> for -1), and the buffer \<open>r\<close> afterwards.
\<close>

definition exchange_tcp ::
  "net \<Rightarrow> byte list \<Rightarrow> byte list \<Rightarrow> byte list \<Rightarrow> nat \<Rightarrow> string \<Rightarrow> net_call list \<Rightarrow>
   nat option \<times> byte list \<times> net_call list"
where
  "exchange_tcp env server q r rcap timeout w =
     (let fd = number_of (env w Socket_stream); w = w @ [Socket_stream]
      in if fd < 0 then (None, r, w)
         else
           (let w = w @ [Set_timeout fd timeout, Set_timeout fd timeout];
                len = [of_nat (length q div 256), of_nat (length q)];
                connected = number_of (env w (Connect fd server)) = 0; w = w @ [Connect fd server]
            in if \<not> connected then (None, r, w @ [Close fd])
            else
              (let sent = number_of (env w (Send fd len)) = 2; w = w @ [Send fd len]
               in if \<not> sent then (None, r, w @ [Close fd])
               else
                 (let sent = number_of (env w (Send fd q)) = int (length q); w = w @ [Send fd q]
                  in if \<not> sent then (None, r, w @ [Close fd])
                  else
                    (case read_all env fd 2 [] w of (ok, l, w) \<Rightarrow>
                       if \<not> ok then (None, r, w @ [Close fd])
                       else
                         (let n = 256 * unat (l ! 0) + unat (l ! 1)
                          in if rcap < n then (None, r, w @ [Close fd])
                          else (case read_all env fd n [] w of (ok, bs, w) \<Rightarrow>
                            (if ok then Some n else None, overwrite bs r, w @ [Close fd]))))))))"

section \<open>One query\<close>

definition query_packet :: "byte list \<Rightarrow> string \<Rightarrow> nat \<Rightarrow> fault + byte list option" where
  "query_packet ident qname type =
     seqE (put_name ([ident ! 0, ident ! 1, 0x01, 0, 0, 1, 0, 0, 0, 0, 0, 0]) (bytes_of qname))
       (\<lambda>r. case r of None \<Rightarrow> Inr None
          | Some q \<Rightarrow> seqE (emit 512 q [0, of_nat type, 0, 1]) (\<lambda>q. Inr (Some q)))"

text \<open>
  The bytes of \<open>r\<close> that the rest of the program reads: those of the UDP answer, or all of the TCP
  answer when it has the length of a header. Where the TCP exchange fails, what it had received
  stays in the buffer.
\<close>

definition get_reply ::
  "net \<Rightarrow> byte list \<Rightarrow> byte list \<Rightarrow> int \<Rightarrow> string \<Rightarrow> net_call list \<Rightarrow> (byte list option \<times> net_call list) option"
where
  "get_reply env server q limit timeout w =
     Option.bind (exchange_udp env server q 65535 limit w) (\<lambda>(u, w). case u of
         None \<Rightarrow> Some (None, w)
       | Some m \<Rightarrow>
           if m ! 2 AND 0x02 \<noteq> 0
           then (case exchange_tcp env server q m 65535 timeout w of (got, r, w) \<Rightarrow>
                  (case got of Some n \<Rightarrow> if 12 \<le> n then Some (Some (take n r), w) else Some (Some (take (length m) r), w)
                   | None \<Rightarrow> Some (Some (take (length m) r), w)))
           else Some (Some m, w))"

text \<open>What stays the same for all queries of a run.\<close>

record session =
  host_style :: bool
  prog_name :: string
  asked_name :: string
  query_name :: string
  server_addr :: "byte list"
  limit_ms :: int
  timeout_text :: string

text \<open>
  One pass of the loop over the types: \<open>None\<close> if the exchange does not end, otherwise a fault or
  an exit code (\<open>None\<close>: the loop goes on).
\<close>

definition ask_server ::
  "(byte list \<Rightarrow> string) \<Rightarrow> net \<Rightarrow> session \<Rightarrow> bool \<Rightarrow> bool \<Rightarrow> nat \<Rightarrow> report \<Rightarrow> net_call list \<Rightarrow>
   ((fault + nat option \<times> report) \<times> net_call list) option"
where
  "ask_server ntop6 env c first only type s w =
     (let ident = take 2 (stream_of (env w Entropy) @ [0, 0]); w = w @ [Entropy]
      in case query_packet ident (query_name c) type of
           Inl e \<Rightarrow> Some (Inl e, w)
         | Inr None \<Rightarrow> Some (Inr (Some 2,
             s\<lparr>err_text := err_text s @ prog_name c @ '': bad name: '' @ asked_name c @ eol\<rparr>), w)
         | Inr (Some q) \<Rightarrow>
             Option.bind (get_reply env (server_addr c) q (limit_ms c) (timeout_text c) w) (\<lambda>(m, w).
               case m of
                 None \<Rightarrow> Some (Inr (Some 1,
                   say ('';; connection timed out; no servers could be reached'' @ eol) s), w)
               | Some m \<Rightarrow>
                   Some (seqE (read_reply ntop6 (host_style c) (asked_name c) first only type m s)
                     (\<lambda>(ok, s). Inr (if ok then None else Some 1, s)), w)))"

fun ask_types ::
  "(byte list \<Rightarrow> string) \<Rightarrow> net \<Rightarrow> session \<Rightarrow> bool \<Rightarrow> bool \<Rightarrow> nat list \<Rightarrow> report \<Rightarrow> net_call list \<Rightarrow>
   ((fault + nat option \<times> report) \<times> net_call list) option"
where
  "ask_types ntop6 env c first only [] s w = Some (Inr (None, s), w)"
| "ask_types ntop6 env c first only (t # ts) s w =
     Option.bind (ask_server ntop6 env c first only t s w) (\<lambda>(r, w). case r of
         Inl e \<Rightarrow> Some (Inl e, w)
       | Inr (Some code, s) \<Rightarrow> Some (Inr (Some code, s), w)
       | Inr (None, s) \<Rightarrow> ask_types ntop6 env c False only ts s w)"

section \<open>The program\<close>

record options =
  opt_type :: "nat option"
  opt_timeout :: "string option"
  opt_name :: "string option"
  opt_server :: "string option"

definition starts_with :: "string \<Rightarrow> string \<Rightarrow> bool" where
  "starts_with p s \<longleftrightarrow> take (length p) s = p"

definition after_equals :: "string \<Rightarrow> string" where
  "after_equals s = tl (dropWhile (\<lambda>c. c \<noteq> CHR ''='') s)"

text \<open>The loop over the arguments; \<open>None\<close> is \<open>usage()\<close>.\<close>

fun read_args :: "bool \<Rightarrow> string list \<Rightarrow> options \<Rightarrow> options option" where
  "read_args host [] o' = Some o'"
| "read_args host (a # rest) o' =
     (if host \<and> a = ''-t'' \<and> rest \<noteq> [] then
        (case type_from_name (hd rest) of None \<Rightarrow> None
         | Some t \<Rightarrow> read_args host (tl rest) (o'\<lparr>opt_type := Some t\<rparr>))
      else if host \<and> a = ''-W'' \<and> rest \<noteq> [] then read_args host (tl rest) (o'\<lparr>opt_timeout := Some (hd rest)\<rparr>)
      else if \<not> host \<and> (starts_with ''-type='' a \<or> starts_with ''-query='' a) then
        (case type_from_name (after_equals a) of None \<Rightarrow> None
         | Some t \<Rightarrow> read_args host rest (o'\<lparr>opt_type := Some t\<rparr>))
      else if \<not> host \<and> starts_with ''-timeout='' a then
        read_args host rest (o'\<lparr>opt_timeout := Some (drop 9 a)\<rparr>)
      else if starts_with ''-'' a then None
      else if opt_name o' = None then read_args host rest (o'\<lparr>opt_name := Some a\<rparr>)
      else if opt_server o' = None then read_args host rest (o'\<lparr>opt_server := Some a\<rparr>)
      else None)"

text \<open>The last component of \<open>argv[0]\<close>.\<close>

definition base_name :: "string \<Rightarrow> string" where
  "base_name p = rev (takeWhile (\<lambda>c. c \<noteq> CHR ''/'') (rev p))"

text \<open>
  The C library: \<open>inet_pton\<close> for IPv4, \<open>inet_ntop\<close> for IPv6, and \<open>(int)(strtod(s) * 1000)\<close> with 2.0
  for a timeout that is not positive.
\<close>

record libc =
  pton4 :: "string \<Rightarrow> byte list option"
  ntop6 :: "byte list \<Rightarrow> string"
  milliseconds :: "string \<Rightarrow> int"

definition is_blank :: "char \<Rightarrow> bool" where
  "is_blank c \<longleftrightarrow> of_char c \<in> {9, 10, 11, 12, 13, 32 :: nat}"

text \<open>
  \<open>fgets\<close> with a buffer of 256: at most 255 characters, up to and with the end of the line.
\<close>

function file_lines :: "string \<Rightarrow> string list" where
  "file_lines [] = []"
| "file_lines (c # cs) =
     (let line = takeWhile (\<lambda>c. c \<noteq> CHR 0x0A) (c # cs);
          n = min 255 (if length line < length (c # cs) then length line + 1 else length line)
      in take n (c # cs) # file_lines (drop n (c # cs)))"
  by pat_completeness auto
termination
  by (relation "measure length") (auto simp: Let_def)

text \<open>\<open>sscanf(line, " nameserver %63s", addr)\<close>.\<close>

definition scan_nameserver :: "string \<Rightarrow> string option" where
  "scan_nameserver line =
     (let s = dropWhile is_blank line
      in if starts_with ''nameserver'' s
         then (let word = take 63 (takeWhile (\<lambda>c. \<not> is_blank c) (dropWhile is_blank (drop 10 s)))
               in if word = [] then None else Some word)
         else None)"

fun first_server :: "libc \<Rightarrow> string list \<Rightarrow> byte list option" where
  "first_server lib [] = None"
| "first_server lib (l # ls) =
     (case scan_nameserver l of
        Some a \<Rightarrow> (case pton4 lib a of Some ip \<Rightarrow> Some ip | None \<Rightarrow> first_server lib ls)
      | None \<Rightarrow> first_server lib ls)"

text \<open>\<open>resolv\<close> is the content of \<open>/etc/resolv.conf\<close>, \<open>None\<close> when it cannot be opened.\<close>

definition default_server :: "libc \<Rightarrow> string option \<Rightarrow> byte list option" where
  "default_server lib resolv = (case resolv of None \<Rightarrow> None | Some f \<Rightarrow> first_server lib (file_lines f))"

text \<open>The name that is asked for, with its type: an address asks for its PTR record.\<close>

definition query_for :: "libc \<Rightarrow> string \<Rightarrow> nat option \<Rightarrow> string \<times> nat option" where
  "query_for lib name type =
     (case pton4 lib name of
        Some b \<Rightarrow>
          if type = None \<or> type = Some T_PTR
          then (decimal (unat (b ! 3)) @ ''.'' @ decimal (unat (b ! 2)) @ ''.'' @ decimal (unat (b ! 1)) @ ''.'' @
                decimal (unat (b ! 0)) @ ''.in-addr.arpa'', Some T_PTR)
          else (let n = bounded_copy 300 name in (if 1 < length n \<and> last n = CHR ''.'' then butlast n else n), type)
      | None \<Rightarrow> (let n = bounded_copy 300 name in (if 1 < length n \<and> last n = CHR ''.'' then butlast n else n), type))"

definition usage_text :: "bool \<Rightarrow> string" where
  "usage_text host =
     (if host then ''usage: host [-t type] [-W seconds] name [server]'' @ eol
      else ''usage: nslookup [-type=T] [-timeout=S] name [server]'' @ eol)"

definition empty_report :: report where
  "empty_report = \<lparr>printed = 0, header = False, status = 0, out_text = [], err_text = []\<rparr>"

text \<open>\<open>host\<close> looks up A, AAAA and MX by default, \<open>nslookup\<close> A.\<close>

definition types_for :: "bool \<Rightarrow> nat option \<Rightarrow> nat list" where
  "types_for host type =
     (if type = None \<and> host then [T_A, T_AAAA, T_MX] else [case type of None \<Rightarrow> T_A | Some t \<Rightarrow> t])"

text \<open>The two lines about the server.\<close>

definition server_lines :: "byte list \<Rightarrow> string" where
  "server_lines server = ''Server:'' @ tab @ tab @ ip4 server @ eol @
     ''Address:'' @ tab @ ip4 server @ ''#53'' @ eol @ eol"

text \<open>What follows the loop over the types: the last message, and the exit code.\<close>

definition conclude :: "bool \<Rightarrow> string \<Rightarrow> nat list \<Rightarrow> nat option \<times> report \<Rightarrow> nat \<times> report" where
  "conclude host name types = (\<lambda>(code, s). case code of
       Some code \<Rightarrow> (code, s)
     | None \<Rightarrow>
         if printed s = 0 \<and> 1 < length types then
           (1, say (name @ '' has no address'' @ eol) (s\<lparr>status := 1\<rparr>))
         else if printed s = 0 \<and> \<not> host \<and> hd types = T_A then
           (1, say (''*** Can't find '' @ name @ '': No answer'' @ eol) (s\<lparr>status := 1\<rparr>))
         else (status s, s))"

text \<open>The part of \<open>main\<close> from the choice of the name on.\<close>

definition lookup_name ::
  "libc \<Rightarrow> net \<Rightarrow> bool \<Rightarrow> string \<Rightarrow> options \<Rightarrow> string \<Rightarrow> byte list \<Rightarrow> ((fault + nat \<times> report) \<times> net_call list) option"
where
  "lookup_name lib env host prog opts name server =
     (let (qname, type) = query_for lib name (opt_type opts);
          types = types_for host type;
          c = \<lparr>host_style = host, prog_name = prog, asked_name = name, query_name = qname, server_addr = server,
               limit_ms = (case opt_timeout opts of None \<Rightarrow> 2000 | Some t \<Rightarrow> milliseconds lib t),
               timeout_text = (case opt_timeout opts of None \<Rightarrow> ''2.0'' | Some t \<Rightarrow> t)\<rparr>;
          s = (if host then empty_report else say (server_lines server) empty_report)
      in map_option (\<lambda>(r, w). (seqE r (\<lambda>p. Inr (conclude host name types p)), w))
           (ask_types (ntop6 lib) env c True (length types = 1) types s []))"

text \<open>\<open>main\<close>: \<open>None\<close> if it does not return; otherwise the exit code and the two output streams.\<close>

definition no_options :: options where
  "no_options = \<lparr>opt_type = None, opt_timeout = None, opt_name = None, opt_server = None\<rparr>"

definition no_server_text :: "string \<Rightarrow> options \<Rightarrow> string" where
  "no_server_text prog opts = prog @ '': '' @
     (if opt_server opts \<noteq> None then ''the server must be an IPv4 address''
      else ''no nameserver in /etc/resolv.conf'') @ eol"

definition nslookup_main ::
  "libc \<Rightarrow> net \<Rightarrow> string option \<Rightarrow> string list \<Rightarrow> ((fault + nat \<times> report) \<times> net_call list) option"
where
  "nslookup_main lib env resolv argv =
     (let prog = base_name (hd argv); host = (prog = ''host'')
      in case read_args host (tl argv) no_options of
        None \<Rightarrow> Some (Inr (2, empty_report\<lparr>err_text := usage_text host\<rparr>), [])
      | Some opts \<Rightarrow> (case opt_name opts of
          None \<Rightarrow> Some (Inr (2, empty_report\<lparr>err_text := usage_text host\<rparr>), [])
        | Some name \<Rightarrow> (case (case opt_server opts of Some a \<Rightarrow> pton4 lib a | None \<Rightarrow> default_server lib resolv) of
            None \<Rightarrow> Some (Inr (2, empty_report\<lparr>err_text := no_server_text prog opts\<rparr>), [])
          | Some server \<Rightarrow> lookup_name lib env host prog opts name server)))"

end
