(* ===== verification/Resolver_Properties.thy ===== *)
theory Resolver_Properties
  imports Resolver
begin

text \<open>
  What the resolver of \<open>src/net-tools/src/nslookup.c\<close> guarantees: names survive the way into a
  message and back, an answer is taken only from the server that was asked, every run ends and
  stays inside its buffers whatever the network sends, and the answers of a server are printed
  one by one.
\<close>

unbundle bit_operations_syntax

section \<open>Names\<close>

text \<open>What a name reads as: without a dot at its end, and the root as a dot.\<close>

definition read_back :: "byte list \<Rightarrow> byte list" where
  "read_back name = (if name = [] then [dot] else if last name = dot then butlast name else name)"

lemma last_dotted: "\<forall>l\<in>set ls. good_label l \<Longrightarrow> ls \<noteq> [] \<Longrightarrow> last (dotted ls) \<noteq> dot"
proof (induction ls rule: dotted.induct)
  case (2 l)
  then show ?case by (auto simp: good_label_def dest: last_in_set)
next
  case (3 l l' ls)
  then show ?case using dotted_not_Nil [of "l' # ls"] by simp
qed simp

lemma read_back_names:
  assumes "\<forall>l\<in>set ls. good_label l" and "names ls name"
  shows "read_back name = printed_name ls"
  using assms last_dotted [OF assms(1)] dotted_not_Nil [OF assms(1)]
  by (cases "ls = []") (auto simp: names_def read_back_def printed_name_def)

text \<open>
  A name that \<open>put_name\<close> accepts is read back by \<open>get_name\<close> from the message that carries it,
  whatever follows, and the offset ends up behind it.
\<close>
theorem name_roundtrip:
  assumes "put_name q name = Inr (Some q')" and "length q \<le> 255"
  shows "get_name (q' @ rest) (length q) 512 = Inr (length q', Some (read_back name))"
proof -
  from put_name_cases [OF assms(2), of name] assms(1) obtain ls
    where ls: "\<forall>l\<in>set ls. good_label l" "length q + length (wire ls) \<le> 255" "names ls name"
      and q': "q' = q @ wire ls @ [0]" by auto
  from q' have "drop (length q) (q' @ rest) = wire ls @ 0 # rest" by simp
  from get_name_wire [OF ls(1) this, of 512] ls show ?thesis
    by (simp add: q' read_back_names)
qed

theorem name_roundtrip_witness:
  "\<exists>q'. put_name [7] (bytes_of ''a.bc'') = Inr (Some q') \<and>
    get_name (q' @ [1, 2]) 1 512 = Inr (length q', Some (bytes_of ''a.bc''))"
proof -
  have p: "put_name [7] (bytes_of ''a.bc'') = Inr (Some [7, 1, 97, 2, 98, 99, 0])"
    by (simp add: bytes_of_def dot_def Let_def)
  have "read_back (bytes_of ''a.bc'') = bytes_of ''a.bc''" by (simp add: read_back_def bytes_of_def dot_def)
  with name_roundtrip [OF p, of "[1, 2]"] p show ?thesis by simp
qed

lemma unat_byte_mod [simp]: "unat (b :: byte) mod 256 = unat b"
proof -
  have "unat b < 2 ^ LENGTH(8)" by (rule unsigned_less)
  then show ?thesis by simp
qed

lemma length_dotted_wire: "ls \<noteq> [] \<Longrightarrow> length (wire ls) = length (dotted ls) + 1"
  by (induction ls rule: dotted.induct) auto

text \<open>
  The limit of 255 bytes in \<open>put_name\<close> counts the twelve bytes of the header too, so the
  names of 243 to 253 characters that DNS allows are refused as bad names.
\<close>
theorem longest_names_refused:
  assumes "\<forall>l\<in>set ls. good_label l" and "length (wire ls) + 1 \<le> 255" and "243 < length (wire ls)"
  shows "query_packet ident (map (\<lambda>b. char_of (unat b)) (dotted ls)) type = Inr None"
proof -
  let ?h = "[ident ! 0, ident ! 1, 0x01, 0, 0, 1, 0, 0, 0, 0, 0, 0] :: byte list"
  have b: "bytes_of (map (\<lambda>b. char_of (unat b)) bs) = bs" for bs
    by (induction bs) (auto simp: bytes_of_def)
  have ne: "ls \<noteq> []" using assms(3) by auto
  have "put_name ?h (dotted ls) = Inr None"
  proof (rule ccontr)
    assume "put_name ?h (dotted ls) \<noteq> Inr None"
    with put_name_cases [of ?h "dotted ls"] obtain ks
      where ks: "\<forall>l\<in>set ks. good_label l" "12 + length (wire ks) \<le> 255" "names ks (dotted ls)" by auto
    have "dotted ls = dotted ks"
      using ks(3) last_dotted [OF assms(1) ne] by (auto simp: names_def)
    then have "ks \<noteq> []" using dotted_not_Nil [OF assms(1) ne] by auto
    then show False
      using ks(2) assms(3) length_dotted_wire [OF ne] length_dotted_wire [of ks] \<open>dotted ls = dotted ks\<close> by simp
  qed
  then show ?thesis by (simp add: query_packet_def b)
qed

theorem longest_names_refused_witness:
  "query_packet [1, 2] (map (\<lambda>b. char_of (unat b)) (dotted (replicate 4 (replicate 61 (97 :: byte))))) 1 = Inr None"
proof (rule longest_names_refused)
  have "length (wire (replicate n l)) = n * (length l + 1)" for n l by (induction n) auto
  then show "length (wire (replicate 4 (replicate 61 (97 :: byte)))) + 1 \<le> 255"
    "243 < length (wire (replicate 4 (replicate 61 (97 :: byte))))" by simp_all
  show "\<forall>l\<in>set (replicate 4 (replicate 61 (97 :: byte))). good_label l"
    by (auto simp: good_label_def dot_def)
qed

section \<open>Whom the resolver believes\<close>

definition answered :: "net \<Rightarrow> int \<Rightarrow> byte list \<Rightarrow> byte list \<Rightarrow> nat \<Rightarrow> byte list \<Rightarrow> net_call list \<Rightarrow> bool" where
  "answered env fd server q rcap r w \<longleftrightarrow>
     (\<exists>u bs. w = u @ [Recvfrom fd rcap] \<and> env u (Recvfrom fd rcap) = Datagram server bs \<and> r = take rcap bs \<and>
       12 \<le> length r \<and> r ! 0 = q ! 0 \<and> r ! 1 = q ! 1)"

lemma udp_wait_answered:
  assumes "udp_wait env fd server q rcap limit t0 w = Some (Some r, w')"
  shows "answered env fd server q rcap r w'"
proof -
  define P where "P = (\<lambda>env fd server q rcap (limit :: int) (t0 :: int \<times> int) (w :: net_call list) res.
    \<forall>r w'. res = (Some r, w') \<longrightarrow> answered env fd server q rcap r w')"
  have "P env fd server q rcap limit t0 w (Some r, w')"
  proof (rule udp_wait.raw_induct [of P, OF _ assms], goal_cases)
    case (1 f env fd server q rcap limit t0 w res)
    note IH = 1(1)
    from 1(2) show ?case
      by (auto simp: Let_def P_def answered_def accepted_def
          split: if_splits net_reply.splits dest: IH [unfolded P_def answered_def])
  qed
  then show ?thesis by (simp add: P_def)
qed

lemma udp_attempts_answered:
  "udp_attempts env fd server q rcap limit k w = Some (Some r, w') \<Longrightarrow> answered env fd server q rcap r w'"
  by (induction k arbitrary: w)
     (auto simp: Let_def bind_eq_Some_conv dest: udp_wait_answered split: if_splits option.splits)

lemma exchange_udp_answered:
  assumes "exchange_udp env server q rcap limit w = Some (Some r, w')"
  shows "\<exists>u fd. w' = u @ [Close fd] \<and> fd = number_of (env w Socket_dgram) \<and> answered env fd server q rcap r u"
  using assms by (auto simp: exchange_udp_def Let_def dest!: udp_attempts_answered split: if_splits)

text \<open>
  C23: An answer is taken only from a datagram that came from the server that was asked and that
  carries the query's identifier and a whole header; the socket is closed behind it.
\<close>
theorem answer_from_server:
  assumes "exchange_udp env server q rcap limit w = Some (Some r, w')"
  shows "\<exists>fd u bs. w' = u @ [Recvfrom fd rcap, Close fd] \<and> fd = number_of (env w Socket_dgram) \<and>
    env u (Recvfrom fd rcap) = Datagram server bs \<and> r = take rcap bs \<and>
    12 \<le> length r \<and> r ! 0 = q ! 0 \<and> r ! 1 = q ! 1"
  using exchange_udp_answered [OF assms] by (auto simp: answered_def)

text \<open>A network that first delivers an answer of another host, then one of the server.\<close>

definition forging_net :: net where
  "forging_net w c = (case c of
     Recvfrom fd n \<Rightarrow> Datagram (if length w < 6 then [6, 6, 6, 6] else [9, 9, 9, 9]) ([5, 7] @ replicate 10 0)
   | Clock \<Rightarrow> Time 1 0 | _ \<Rightarrow> Number 3)"

theorem answer_from_server_witness:
  "exchange_udp forging_net [9, 9, 9, 9] [5, 7] 65535 2000 [] = Some (Some ([5, 7] @ replicate 10 0),
     [Socket_dgram, Sendto 3 [9, 9, 9, 9] [5, 7], Clock, Clock, Poll 3 2000, Recvfrom 3 65535,
      Clock, Poll 3 2000, Recvfrom 3 65535, Close 3]) \<and>
   (\<exists>fd u bs. forging_net u (Recvfrom fd 65535) = Datagram [9, 9, 9, 9] bs)"
proof
  show e: "exchange_udp forging_net [9, 9, 9, 9] [5, 7] 65535 2000 [] = Some (Some ([5, 7] @ replicate 10 0),
     [Socket_dgram, Sendto 3 [9, 9, 9, 9] [5, 7], Clock, Clock, Poll 3 2000, Recvfrom 3 65535,
      Clock, Poll 3 2000, Recvfrom 3 65535, Close 3])"
    by (simp add: exchange_udp_def Let_def forging_net_def numeral_3_eq_3 elapsed_def udp_wait.simps accepted_def)
  from answer_from_server [OF e] show "\<exists>fd u bs. forging_net u (Recvfrom fd 65535) = Datagram [9, 9, 9, 9] bs"
    by blast
qed

section \<open>Every run ends, inside its buffers\<close>

text \<open>
  The clock of the system: whatever the program does, enough calls later it reads past any
  given second, and the nanoseconds are in range.
\<close>

definition clock_advances :: "net \<Rightarrow> bool" where
  "clock_advances env \<longleftrightarrow>
     (\<forall>w. 0 \<le> snd (time_of (env w Clock)) \<and> snd (time_of (env w Clock)) < 1000000000) \<and>
     (\<forall>b. \<exists>k. \<forall>w. k \<le> length w \<longrightarrow> b \<le> fst (time_of (env w Clock)))"

lemma elapsed_bound:
  assumes "0 \<le> snd t0" "snd t0 < 1000000000" "0 \<le> snd t1" "fst t0 + d \<le> fst t1"
  shows "(d - 1) * 1000 \<le> elapsed t0 t1"
proof -
  have "(snd t0 - snd t1) div 1000000 \<le> 1000" using assms by linarith
  moreover have "0 \<le> (snd t1 - snd t0) div 1000000" if "0 \<le> snd t1 - snd t0" using that by simp
  ultimately show ?thesis using assms(4) by (auto simp: elapsed_def Let_def algebra_simps)
qed

lemma udp_wait_returns:
  assumes "clock_advances env" and "0 \<le> snd t0" and "snd t0 < 1000000000"
  shows "\<exists>r. udp_wait env fd server q rcap limit t0 w = Some r"
proof -
  from assms(1) obtain k where k: "\<And>w. k \<le> length w \<Longrightarrow> fst t0 + (\<bar>limit\<bar> + 1) \<le> fst (time_of (env w Clock))"
    unfolding clock_advances_def by meson
  have nano: "0 \<le> snd (time_of (env w Clock))" for w using assms(1) by (simp add: clock_advances_def)
  have late: "limit - elapsed t0 (time_of (env w Clock)) \<le> 0" if "k \<le> length w" for w
    using elapsed_bound [OF assms(2,3) nano k [OF that]] by (cases "0 \<le> limit") auto
  show ?thesis
  proof (induction "k - length w" arbitrary: w rule: less_induct)
    case less
    show ?case
    proof (cases "limit - elapsed t0 (time_of (env w Clock)) \<le> 0")
      case True
      then show ?thesis by (simp add: udp_wait.simps)
    next
      case False
      with late have "\<not> k \<le> length w" by blast
      then have "\<exists>r. udp_wait env fd server q rcap limit t0 (w @ [Clock, c, d]) = Some r" for c d
        by (intro less) simp
      then show ?thesis
        using False by (subst udp_wait.simps) (auto simp: Let_def split: net_reply.split)
    qed
  qed
qed

lemma udp_attempts_returns:
  assumes "clock_advances env"
  shows "\<exists>r. udp_attempts env fd server q rcap limit k w = Some r"
proof (induction k arbitrary: w)
  case (Suc k)
  obtain r u where "udp_wait env fd server q rcap limit (time_of (env (w @ [Sendto fd server q]) Clock))
      (w @ [Sendto fd server q] @ [Clock]) = Some (r, u)"
    using assms udp_wait_returns [OF assms] unfolding clock_advances_def by (metis surj_pair)
  with Suc show ?case by (auto simp: Let_def split: option.split)
qed simp

lemma exchange_udp_returns:
  assumes "clock_advances env"
  shows "\<exists>r. exchange_udp env server q rcap limit w = Some r"
  using udp_attempts_returns [OF assms] by (auto simp: exchange_udp_def Let_def)

lemma read_all_ok: "read_all env fd n got w = (True, bs, w') \<Longrightarrow> length got \<le> n \<Longrightarrow> length bs = n"
proof (induction env fd n got w rule: read_all.induct)
  case (1 env fd n got w)
  show ?case
  proof (cases "n \<le> length got")
    case True
    with 1(2,3) show ?thesis by (simp add: read_all.simps)
  next
    case False
    let ?bs = "take (n - length got) (stream_of (env w (Recv fd (n - length got))))"
    have "?bs \<noteq> []" using 1(2) False by (auto simp: read_all.simps [of env fd n got w] Let_def split: if_splits)
    with 1(2) False have "read_all env fd n (got @ ?bs) (w @ [Recv fd (n - length got)]) = (True, bs, w')"
      by (subst (asm) read_all.simps) (simp add: Let_def)
    then show ?thesis using False \<open>?bs \<noteq> []\<close> by (intro 1(1)[OF False refl refl]) auto
  qed
qed

lemma length_overwrite [simp]: "length (overwrite bs r) = max (length bs) (length r)"
  by (simp add: overwrite_def)

lemma exchange_tcp_buffer:
  assumes "exchange_tcp env server q r rcap timeout w = (got, r', w')"
  shows "length r \<le> length r'" "got = Some n \<Longrightarrow> n \<le> length r'"
  using assms
  by (auto simp: exchange_tcp_def Let_def split: if_splits prod.splits dest!: read_all_ok)

lemma get_reply_returns:
  assumes "clock_advances env"
  shows "\<exists>m w'. get_reply env server q limit timeout w = Some (m, w') \<and> (\<forall>b. m = Some b \<longrightarrow> 12 \<le> length b)"
proof -
  obtain u w1 where u: "exchange_udp env server q 65535 limit w = Some (u, w1)"
    using exchange_udp_returns [OF assms] by fast
  show ?thesis
  proof (cases u)
    case None
    with u show ?thesis by (simp add: get_reply_def)
  next
    case (Some m)
    with u have "12 \<le> length m" by (auto simp: answered_def dest: exchange_udp_answered)
    moreover obtain got r w2 where t: "exchange_tcp env server q m 65535 timeout w1 = (got, r, w2)"
      by (cases "exchange_tcp env server q m 65535 timeout w1")
    ultimately show ?thesis
      using u Some exchange_tcp_buffer [OF t]
      by (auto simp: get_reply_def split: option.split)
  qed
qed

lemma query_packet_safe:
  "query_packet ident qname type = Inr None \<or>
   (\<exists>q. query_packet ident qname type = Inr (Some q) \<and> length q \<le> 260)"
  using put_name_cases [of "[ident ! 0, ident ! 1, 0x01, 0, 0, 1, 0, 0, 0, 0, 0, 0]" "bytes_of qname"]
  by (auto simp: query_packet_def)

lemma ask_returns:
  assumes "clock_advances env"
  shows "\<exists>code s' w'. ask_server ntop env c first only type s w = Some (Inr (code, s'), w')"
proof -
  let ?w = "w @ [Entropy]"
  let ?ident = "take 2 (stream_of (env w Entropy) @ [0, 0])"
  show ?thesis
  proof (cases "query_packet ?ident (query_name c) type = Inr None")
    case False
    then obtain q where q: "query_packet ?ident (query_name c) type = Inr (Some q)"
      using query_packet_safe by blast
    obtain m w' where m: "get_reply env (server_addr c) q (limit_ms c) (timeout_text c) ?w = Some (m, w')"
      "\<And>b. m = Some b \<Longrightarrow> 12 \<le> length b"
      using get_reply_returns [OF assms] by meson
    show ?thesis
    proof (cases m)
      case (Some b)
      then obtain ok s' where
        "read_reply ntop (host_style c) (asked_name c) first only type b s = Inr (ok, s')"
        using no_fault_read_reply [OF m(2)] by (metis no_fault_def surj_pair)
      with q m(1) Some show ?thesis by (simp add: ask_server_def)
    qed (use q m(1) in \<open>simp add: ask_server_def\<close>)
  qed (simp add: ask_server_def)
qed

lemma ask_types_returns:
  assumes "clock_advances env"
  shows "\<exists>code s' w'. ask_types ntop env c first only ts s w = Some (Inr (code, s'), w')"
proof (induction ts arbitrary: first s w)
  case (Cons t ts)
  obtain code s' w' where "ask_server ntop env c first only t s w = Some (Inr (code, s'), w')"
    using ask_returns [OF assms] by blast
  with Cons show ?case by (cases code) auto
qed simp

text \<open>
  C14: As long as the system's clock advances, every run of the program ends with an exit code,
  whatever arguments it gets and whatever the name server and the network send, and no access
  leaves a buffer or reads a byte of the reply buffer that was not received.
\<close>
theorem resolver_returns:
  assumes "clock_advances env"
  shows "\<exists>code s w. nslookup_main lib env resolv argv = Some (Inr (code, s), w)"
proof -
  have "\<exists>p w. lookup_name lib env host prog opts name server = Some (Inr p, w)" for host prog opts name server
  proof -
    obtain qname type where "query_for lib name (opt_type opts) = (qname, type)" by fastforce
    moreover have "\<exists>p w'. map_option (\<lambda>(r, w). (seqE r (\<lambda>p. Inr (f p)), w)) (ask_types ntop env c first only ts s w) =
        Some (Inr p, w')" for f :: "nat option \<times> report \<Rightarrow> nat \<times> report" and ntop c first only ts s w
      using ask_types_returns [OF assms, of ntop c first only ts s w] by force
    ultimately show ?thesis by (simp add: lookup_name_def Let_def)
  qed
  then show ?thesis
    by (auto simp: nslookup_main_def Let_def split: option.split)
qed

text \<open>A network on which nothing answers but time passes.\<close>

definition silent_net :: net where
  "silent_net w c = (if c = Clock then Time (int (length w)) 0 else Number 1)"

definition plain_libc :: libc where
  "plain_libc = \<lparr>pton4 = (\<lambda>s. if s = ''9.9.9.9'' then Some [9, 9, 9, 9] else None),
     ntop6 = (\<lambda>b. []), milliseconds = (\<lambda>s. 1000)\<rparr>"

theorem resolver_returns_witness:
  "\<exists>code s w. nslookup_main plain_libc silent_net None [''host'', ''a.b'', ''9.9.9.9''] = Some (Inr (code, s), w)"
proof (rule resolver_returns)
  have "\<exists>k. \<forall>w :: net_call list. k \<le> length w \<longrightarrow> b \<le> int (length w)" for b
    by (rule exI [of _ "nat b"]) auto
  then show "clock_advances silent_net" by (simp add: clock_advances_def silent_net_def)
qed

end
