(* ===== verification/Resolver_Run.thy ===== *)
theory Resolver_Run
  imports Resolver_Properties
begin

text \<open>
  Runs of \<open>src/net-tools/src/nslookup.c\<close> against a name server that answers: what is printed is
  what the server sent. And runs in which the answer over TCP breaks off: whatever was received of it
  until then is mixed with the truncated answer that came over UDP.
\<close>

unbundle bit_operations_syntax

section \<open>A server that answers\<close>

definition reply_to :: "(byte list \<times> answer) list \<Rightarrow> byte list \<Rightarrow> byte list" where
  "reply_to as q = take 2 q @ [0x81, 0x80, 0, 1, of_nat (length as div 256), of_nat (length as), 0, 0, 0, 0] @
     drop 12 q @ concat (map answer_bytes as)"

text \<open>
  The network delivers the query, and the server's reply in less than a second.
\<close>

definition server_answers :: "net \<Rightarrow> byte list \<Rightarrow> (byte list \<times> answer) list \<Rightarrow> bool" where
  "server_answers env server as \<longleftrightarrow>
     (\<forall>w. 0 \<le> number_of (env w Socket_dgram)) \<and>
     (\<forall>w fd q. 0 \<le> number_of (env w (Sendto fd server q))) \<and>
     (\<forall>w fd ms. 0 < number_of (env w (Poll fd ms))) \<and>
     (\<forall>w. elapsed (time_of (env w Clock)) (time_of (env (w @ [Clock]) Clock)) < 1000) \<and>
     (\<forall>w fd q ms. env (w @ [Sendto fd server q, Clock, Clock, Poll fd ms]) (Recvfrom fd 65535) =
        Datagram server (reply_to as q))"

lemma exchange_udp_reply:
  assumes "server_answers env server as" and "1000 \<le> limit"
    and "12 \<le> length q" and "length (reply_to as q) \<le> 65535"
  shows "\<exists>w'. exchange_udp env server q 65535 limit w = Some (Some (reply_to as q), w')"
proof -
  let ?fd = "number_of (env w Socket_dgram)"
  let ?w = "w @ [Socket_dgram, Sendto ?fd server q]"
  let ?t0 = "time_of (env ?w Clock)"
  have fd: "\<not> ?fd < 0" and send: "\<not> number_of (env (w @ [Socket_dgram]) (Sendto ?fd server q)) < 0"
    and poll: "\<And>u ms. \<not> number_of (env u (Poll ?fd ms)) \<le> 0"
    and time: "elapsed ?t0 (time_of (env (?w @ [Clock]) Clock)) < 1000"
    and recv: "\<And>ms. env ((w @ [Socket_dgram]) @ [Sendto ?fd server q, Clock, Clock, Poll ?fd ms]) (Recvfrom ?fd 65535) =
      Datagram server (reply_to as q)"
    using assms(1) unfolding server_answers_def not_le not_less by blast+
  have t: "take 65535 (reply_to as q) = reply_to as q" using assms(4) by simp
  have "accepted server q server (reply_to as q)"
    using assms(3) by (auto simp: accepted_def reply_to_def nth_append)
  then have "\<exists>u. udp_wait env ?fd server q 65535 limit ?t0 (?w @ [Clock]) = Some (Some (reply_to as q), u)"
    using poll time recv t assms(2) by (subst udp_wait.simps) (simp add: Let_def)
  then show ?thesis
    using fd send by (auto simp: exchange_udp_def Let_def numeral_3_eq_3)
qed

lemma two_bytes: "n < 65536 \<Longrightarrow> 256 * unat (of_nat (n div 256) :: byte) + unat (of_nat n :: byte) = n"
  by (simp add: unat_of_nat take_bit_eq_mod)

lemma length_answers: "8 * length as \<le> length (concat (map answer_bytes as))"
  by (induction as) (auto simp: answer_bytes_def)

lemma read_reply_encoded:
  assumes "\<forall>l\<in>set ls. good_label l" and "length (wire ls) < 255"
    and "\<forall>(ttl, a)\<in>set as. length ttl = 4 \<and> good_answer a"
    and "q = h @ wire ls @ [0] @ [0, t, 0, 1]" and "length h = 12"
    and "length (reply_to as q) \<le> 65535" and "as \<noteq> []"
  shows "read_reply ntop host name True only asked (reply_to as q) s =
    Inr (True, say (concat (map (\<lambda>(ttl, a). answer_line ntop host (c_string (printed_name ls)) a) as))
      ((if host \<or> header s then s else say (''Non-authoritative answer:'' @ eol) (s\<lparr>header := True\<rparr>))
       \<lparr>printed := printed s + length as\<rparr>))"
proof -
  let ?m = "reply_to as q"
  let ?h = "take 2 h @ [0x81, 0x80, 0, 1, of_nat (length as div 256), of_nat (length as), 0, 0, 0, 0]"
  let ?off = "12 + length (wire ls) + 1 + 4"
  have m: "?m = ?h @ wire ls @ 0 # [0, t, 0, 1] @ concat (map answer_bytes as)"
    using assms(4,5) by (simp add: reply_to_def)
  have h: "length ?h = 12" using assms(5) by simp
  have n: "length as < 65536"
    using assms(6) length_answers [of as] by (simp add: m)
  have d: "drop 12 ?m = wire ls @ 0 # [0, t, 0, 1] @ concat (map answer_bytes as)" using h by (simp add: m)
  have nth: "?m ! i = ?h ! i" "i < length ?m" if "i < 12" for i
  proof -
    show "?m ! i = ?h ! i" by (simp only: m nth_append h that if_True)
    show "i < length ?m" using that h by (simp add: m)
  qed
  have q2: "be16 ?m 4 = Inr 1" "be16 ?m 6 = Inr (length as)" "fetch ?m 2 = Inr 0x81" "fetch ?m 3 = Inr 0x80"
    using nth [of 2] nth [of 3] nth [of 4] nth [of 5] nth [of 6] nth [of 7] assms(5) two_bytes [OF n]
    by (auto simp: be16_Inr nth_append)
  have name: "get_name ?m 12 512 = Inr (12 + length (wire ls) + 1, Some (printed_name ls))"
    using assms(2) by (intro get_name_wire [OF assms(1) d]) simp
  then have skip: "skip_questions ?m 12 1 = Inr (Some ?off)" by simp
  have "drop ?off ?m = concat (map answer_bytes as) @ []"
    using drop_append_length [of 12 ?m "wire ls @ 0 # [0, t, 0, 1]" "concat (map answer_bytes as)"] d
    by (simp add: add.commute)
  from print_answers_encoded [OF assms(1,2) d assms(3) this]
  have pa: "print_answers ntop host True ?m ?off (length as) u =
      Inr (True, say (concat (map (\<lambda>(ttl, a). answer_line ntop host (c_string (printed_name ls)) a) as))
        (u\<lparr>printed := printed u + length as\<rparr>))" for u .
  show ?thesis
    unfolding read_reply_def q2 seqE_simps skip option.case pa
    using assms(7) by (simp add: Let_def say_def pa)
qed

lemma query_packet_dotted:
  assumes "\<forall>l\<in>set ls. good_label l" and "length (wire ls) \<le> 243" and "bytes_of qname = dotted ls"
  shows "query_packet ident qname type =
    Inr (Some ([ident ! 0, ident ! 1, 0x01, 0, 0, 1, 0, 0, 0, 0, 0, 0] @ wire ls @ [0] @ [0, of_nat type, 0, 1]))"
  using assms by (simp add: query_packet_def put_name_dotted)

lemma get_reply_answered:
  assumes "server_answers env server as" and "1000 \<le> limit" and "12 \<le> length q"
    and "length (reply_to as q) \<le> 65535"
  shows "\<exists>w'. get_reply env server q limit timeout w = Some (Some (reply_to as q), w')"
proof -
  have "reply_to as q ! 2 = 0x81" using assms(3) by (simp add: reply_to_def nth_append)
  then have "\<not> reply_to as q ! 2 AND 0x02 \<noteq> 0" by simp
  with exchange_udp_reply [OF assms, of w] show ?thesis by (auto simp: get_reply_def)
qed

text \<open>The lines that a list of answers stands for.\<close>

definition answer_lines :: "(byte list \<Rightarrow> string) \<Rightarrow> string \<Rightarrow> (byte list \<times> answer) list \<Rightarrow> string" where
  "answer_lines ntop owner as = concat (map (\<lambda>(ttl, a). answer_line ntop False owner a) as)"

lemma ask_answered:
  assumes "server_answers env (server_addr c) as" and "1000 \<le> limit_ms c" and "\<not> host_style c"
    and "\<forall>l\<in>set ls. good_label l" and "length (wire ls) \<le> 243" and "bytes_of (query_name c) = dotted ls"
    and "\<forall>(ttl, a)\<in>set as. length ttl = 4 \<and> good_answer a" and "as \<noteq> []"
    and "length (concat (map answer_bytes as)) \<le> 65000"
  shows "\<exists>w'. ask_server ntop env c True only type s w =
    Some (Inr (None, say (answer_lines ntop (c_string (printed_name ls)) as)
      ((if header s then s else say (''Non-authoritative answer:'' @ eol) (s\<lparr>header := True\<rparr>))
       \<lparr>printed := printed s + length as\<rparr>)), w')"
proof -
  let ?w = "w @ [Entropy]"
  let ?i = "take 2 (stream_of (env w Entropy) @ [0, 0])"
  let ?h = "[?i ! 0, ?i ! 1, 0x01, 0, 0, 1, 0, 0, 0, 0, 0, 0] :: byte list"
  let ?q = "?h @ wire ls @ [0] @ [0, of_nat type, 0, 1]"
  have q: "query_packet ?i (query_name c) type = Inr (Some ?q)"
    by (rule query_packet_dotted [OF assms(4-6)])
  have fits: "length (reply_to as ?q) \<le> 65535" using assms(5,9) by (simp add: reply_to_def)
  obtain w' where m: "get_reply env (server_addr c) ?q (limit_ms c) (timeout_text c) ?w = Some (Some (reply_to as ?q), w')"
    using get_reply_answered [OF assms(1,2) _ fits, of "timeout_text c" ?w] by auto
  have "read_reply ntop False (asked_name c) True only type (reply_to as ?q) s =
    Inr (True, say (answer_lines ntop (c_string (printed_name ls)) as)
      ((if header s then s else say (''Non-authoritative answer:'' @ eol) (s\<lparr>header := True\<rparr>))
       \<lparr>printed := printed s + length as\<rparr>))"
    unfolding answer_lines_def
    using assms(5) read_reply_encoded [OF assms(4) _ assms(7) refl _ fits assms(8), of ntop False "asked_name c" only type s]
    by simp
  with q m assms(3) show ?thesis by (simp add: ask_server_def Let_def del: append.simps)
qed

text \<open>A name without a NUL prints as itself.\<close>

lemma c_string_bytes_of: "CHR 0x00 \<notin> set s \<Longrightarrow> c_string (bytes_of s) = s"
proof (induction s)
  case (Cons c s)
  have "(of_nat (of_char c) :: byte) \<noteq> 0" if "c \<noteq> CHR 0x00"
  proof
    assume "(of_nat (of_char c) :: byte) = 0"
    then have "unat (of_nat (of_char c) :: byte) = 0" by simp
    then have "(of_char c :: nat) = 0" by (simp add: unat_of_nat take_bit_eq_mod)
    then have "char_of (of_char c :: nat) = CHR 0x00" by (simp only:) (simp add: char_of_def)
    with that show False by simp
  qed
  moreover have "char_of (unat (of_nat (of_char c) :: byte)) = c"
    by (simp add: unat_of_nat take_bit_eq_mod)
  ultimately show ?case using Cons by (auto simp: c_string_def bytes_of_def)
qed (simp add: c_string_def bytes_of_def)

text \<open>
  C15: Run as \<open>nslookup name server\<close> against a server that answers, the program prints each answer
  of the reply, in order and under the name that was asked for (aliases and addresses alike),
  behind the two introductory parts, and ends with 0.
\<close>
theorem nslookup_prints_answers:
  assumes "server_answers env server as" and "pton4 lib srv = Some server" and "pton4 lib name = None"
    and "\<not> starts_with ''-'' srv" and "\<not> starts_with ''-'' name" and "CHR 0x00 \<notin> set name"
    and "\<forall>l\<in>set ls. good_label l" and "bytes_of name = dotted ls" and "ls \<noteq> []" and "length name \<le> 242"
    and "\<forall>(ttl, a)\<in>set as. length ttl = 4 \<and> good_answer a" and "as \<noteq> []"
    and "length (concat (map answer_bytes as)) \<le> 65000"
  shows "\<exists>s w. nslookup_main lib env resolv [''nslookup'', name, srv] = Some (Inr (0, s), w) \<and>
    out_text s = server_lines server @ ''Non-authoritative answer:'' @ eol @ answer_lines (ntop6 lib) name as \<and>
    err_text s = [] \<and> printed s = length as"
proof -
  have len: "length name = length (dotted ls)" using assms(8) by (metis bytes_of_def length_map)
  then have wl: "length (wire ls) \<le> 243" using length_dotted_wire [OF assms(9)] assms(10) by simp
  have ne: "name \<noteq> []" using dotted_not_Nil [OF assms(7,9)] len by auto
  have "last (bytes_of name) \<noteq> dot" using last_dotted [OF assms(7,9)] assms(8) by simp
  then have last: "last name \<noteq> CHR ''.''" using ne by (auto simp: bytes_of_def last_map dot_def)
  have name: "c_string (printed_name ls) = name"
    using c_string_bytes_of [OF assms(6)] assms(8,9) by (simp add: printed_name_def)
  have query: "query_for lib name None = (name, None)"
    using assms(3,10) last by (simp add: query_for_def Let_def)
  have flag: "\<not> starts_with p a" if "\<not> starts_with ''-'' a" "hd p = CHR ''-''" "p \<noteq> []" for p a
    using that by (cases a; cases p) (auto simp: starts_with_def)
  let ?opts = "\<lparr>opt_type = None, opt_timeout = None, opt_name = Some name, opt_server = Some srv\<rparr>"
  have opts: "read_args False [name, srv] no_options = Some ?opts"
    using assms(4,5) flag [OF assms(4)] flag [OF assms(5)] by (simp add: no_options_def)
  have base: "base_name ''nslookup'' = ''nslookup''" by (simp add: base_name_def)
  let ?c = "\<lparr>host_style = False, prog_name = ''nslookup'', asked_name = name, query_name = name,
    server_addr = server, limit_ms = 2000, timeout_text = ''2.0''\<rparr>"
  let ?s = "say (server_lines server) empty_report"
  let ?s' = "say (answer_lines (ntop6 lib) name as)
      (say (''Non-authoritative answer:'' @ eol) (?s\<lparr>header := True\<rparr>)\<lparr>printed := length as\<rparr>)"
  have fields: "header ?s = False" "printed ?s = 0" by (simp_all add: say_def empty_report_def)
  obtain w where "ask_server (ntop6 lib) env ?c True True T_A ?s [] = Some (Inr (None, ?s'), w)"
    using ask_answered [of env ?c as ls "ntop6 lib" True T_A ?s "[]"] assms wl name
    unfolding fields name by auto
  then have "ask_types (ntop6 lib) env ?c True True [T_A] ?s [] = Some (Inr (None, ?s'), w)" by simp
  then have run: "lookup_name lib env False ''nslookup'' ?opts name server =
      Some (Inr (conclude False name [T_A] (None, ?s')), w)"
    by (simp add: lookup_name_def query types_for_def)
  have "conclude False name [T_A] (None, ?s') = (0, ?s')"
    using assms(12) by (simp add: conclude_def say_def empty_report_def)
  moreover have "out_text ?s' = server_lines server @ ''Non-authoritative answer:'' @ eol @
      answer_lines (ntop6 lib) name as" "err_text ?s' = []" "printed ?s' = length as"
    by (simp_all add: say_def empty_report_def)
  moreover have "nslookup_main lib env resolv [''nslookup'', name, srv] =
      lookup_name lib env False ''nslookup'' ?opts name server"
    using opts base assms(2) by (simp add: nslookup_main_def)
  ultimately show ?thesis using run by auto
qed

text \<open>A server with an alias and an address.\<close>

definition two_answers :: "(byte list \<times> answer) list" where
  "two_answers = [([0, 0, 0, 9], Alias [[99], [100]]), ([0, 0, 0, 9], Address [1, 2, 3, 4])]"

definition answering_net :: net where
  "answering_net w c = (case c of
     Recvfrom fd n \<Rightarrow> (case w ! (length w - 4) of Sendto fd srv q \<Rightarrow> Datagram srv (reply_to two_answers q) | _ \<Rightarrow> Number (- 1))
   | Clock \<Rightarrow> Time 1 0 | _ \<Rightarrow> Number 1)"

theorem nslookup_prints_answers_witness:
  "\<exists>s w. nslookup_main plain_libc answering_net None [''nslookup'', ''a.b'', ''9.9.9.9''] = Some (Inr (0, s), w) \<and>
    out_text s = server_lines [9, 9, 9, 9] @ ''Non-authoritative answer:'' @ eol @
      answer_lines (ntop6 plain_libc) ''a.b'' two_answers \<and>
    err_text s = [] \<and> printed s = length two_answers"
proof (rule nslookup_prints_answers)
  show "server_answers answering_net [9, 9, 9, 9] two_answers"
    by (simp add: server_answers_def answering_net_def elapsed_def nth_append)
  show "\<forall>l\<in>set [[97], [98 :: byte]]. good_label l" by (simp add: good_label_def dot_def)
  show "bytes_of ''a.b'' = dotted [[97], [98]]" by (simp add: bytes_of_def dot_def)
qed (simp_all add: plain_libc_def starts_with_def two_answers_def good_label_def dot_def answer_bytes_def)

section \<open>An answer over TCP that breaks off\<close>




lemma overwrite_Nil [simp]: "overwrite [] r = r"
  by (simp add: overwrite_def)












end
