(* ===== verification/Compositor_Wallpaper.thy ===== *)
theory Compositor_Wallpaper
  imports Compositor_Windows
begin

unbundle bit_operations_syntax

text \<open>
  The wallpaper, \<open>src/graphics-compositor/src/background.cpp\<close>: scaling an image to the screen, the
  blurred strip under the taskbar, and the choice of a wallpaper. Images and their decoding, the
  gradient and the operations on colors are the user interface library's and parameters here;
  so is whether an allocation succeeds. Pixels are the rasters of \<open>Framebuffer\<close>, with every
  access checked.
\<close>

section \<open>Data\<close>

record desktop_background =
  bgPixels :: "raster option"
  bgWidth :: int
  bgHeight :: int
  bgReady :: bool
  bgPath :: string
  barBlur :: "raster option"
  barBlurRect :: rect

record 'c image =
  imgWidth :: int
  imgHeight :: int
  imgPixels :: "'c list"

text \<open>
  The library: \<open>Canvas::gradient\<close> over a canvas of a size (the word at each index), a color made
  opaque, \<open>Image::load\<close>; and whether \<open>new (std::nothrow)\<close> gives so many words.
\<close>

record 'c paint_ops = "'c color_ops" +
  gradient_words :: "int \<Rightarrow> int \<Rightarrow> int \<Rightarrow> 32 word"
  opaque :: "'c \<Rightarrow> 'c"
  load_image :: "string \<Rightarrow> 'c image option"
  allocates :: "int \<Rightarrow> bool"

definition new_raster :: "int \<Rightarrow> int \<Rightarrow> raster" where
  "new_raster w h = \<lparr>px = (\<lambda>_. 0), rwidth = w, rheight = h, rpitch = w\<rparr>"

section \<open>Scaling\<close>

text \<open>\<open>ensure_background_storage\<close>\<close>

definition ensure_background_storage ::
  "'c paint_ops \<Rightarrow> int \<Rightarrow> int \<Rightarrow> desktop_background \<Rightarrow> bool \<times> desktop_background" where
  "ensure_background_storage P width height b =
     (if width = 0 \<or> height = 0 then (False, b)
      else if bgPixels b \<noteq> None \<and> bgWidth b = width \<and> bgHeight b = height then (True, b)
      else if \<not> allocates P (width * height)
      then (False, b\<lparr>bgPixels := None, bgWidth := 0, bgHeight := 0, bgReady := False, bgPath := []\<rparr>)
      else (True, b\<lparr>bgPixels := Some (new_raster width height), bgWidth := width, bgHeight := height,
                    bgReady := False, bgPath := []\<rparr>))"

text \<open>The size of the scaled image; the quotients are stored in 32 bits.\<close>

definition draw_size :: "int \<Rightarrow> int \<Rightarrow> int \<Rightarrow> int \<Rightarrow> int \<times> int" where
  "draw_size bw bh iw ih =
     (let dh = (ih * bw div iw) mod 4294967296
      in if bh < dh then ((iw * bh div ih) mod 4294967296, bh) else (bw, dh))"

definition scaled_texel ::
  "'c paint_ops \<Rightarrow> 'c image \<Rightarrow> int \<Rightarrow> int \<Rightarrow> int \<Rightarrow> int \<Rightarrow> int \<Rightarrow> int \<Rightarrow> raster \<Rightarrow> gfx_error + raster" where
  "scaled_texel P img dw dh ox oy y x dst =
     (let i = nat ((y * imgHeight img div dh) * imgWidth img + x * imgWidth img div dw);
          at = (oy + y) * rwidth dst + ox + x
      in if length (imgPixels img) \<le> i then Inl OutsidePixels
         else (let p = imgPixels img ! i; a = alpha P p; p = opaque P p
           in if a = 255 then store_px at (to_word P p) dst
              else seqE (load_px dst at) (\<lambda>w. store_px at (to_word P (blend P (from_word P w) p a)) dst)))"

definition scale_background_image :: "'c paint_ops \<Rightarrow> 'c image \<Rightarrow> raster \<Rightarrow> gfx_error + raster" where
  "scale_background_image P img r =
     (let w = rwidth r; h = rheight r; r = r\<lparr>px := gradient_words P w h\<rparr>;
          (dw, dh) = draw_size w h (imgWidth img) (imgHeight img)
      in if dw = 0 \<or> dh = 0 then Inr r
         else (let ox = (w - dw) div 2; oy = (h - dh) div 2
           in foreach [0..<nat dh] (\<lambda>y. foreach [0..<nat dw] (\<lambda>x.
                scaled_texel P img dw dh ox oy (int y) (int x))) r))"

section \<open>The blur\<close>

definition kBarBlurRadius :: int where "kBarBlurRadius = 10"

text \<open>The three color channels of a word, as the sums take them.\<close>

type_synonym channels = "int \<times> int \<times> int"

definition channels_of :: "32 word \<Rightarrow> channels" where
  "channels_of p = (uint (p AND 0xFF), uint (drop_bit 8 p AND 0xFF), uint (drop_bit 16 p AND 0xFF))"

definition add_channels :: "channels \<Rightarrow> channels \<Rightarrow> channels" where
  "add_channels = (\<lambda>(a, b, c) (a', b', c'). (a + a', b + b', c + c'))"

definition sub_channels :: "channels \<Rightarrow> channels \<Rightarrow> channels" where
  "sub_channels = (\<lambda>(a, b, c) (a', b', c'). (a - a', b - b', c - c'))"

definition mean_word :: "channels \<Rightarrow> 32 word" where
  "mean_word = (\<lambda>(a, b, c). let span = 2 * kBarBlurRadius + 1
     in 0xFF000000 OR word_of_int (a sdiv span) OR push_bit 8 (word_of_int (b sdiv span)) OR
        push_bit 16 (word_of_int (c sdiv span)))"

text \<open>
  One line of \<open>box\<close>: the sums of the window around the first pixel, then a step for each pixel
  that stores the mean and moves the window by one. \<open>base\<close> is the line's first index.
\<close>

definition first_sum :: "raster \<Rightarrow> int \<Rightarrow> int \<Rightarrow> int \<Rightarrow> gfx_error + channels" where
  "first_sum source base n step =
     foreach [0..<nat (2 * kBarBlurRadius + 1)] (\<lambda>j sum.
       let k = int j - kBarBlurRadius; at = (if k < 0 then 0 else if n \<le> k then n - 1 else k)
       in seqE (load_px source (base + at * step)) (\<lambda>p. Inr (add_channels sum (channels_of p)))) (0, 0, 0)"

definition box_step ::
  "raster \<Rightarrow> int \<Rightarrow> int \<Rightarrow> int \<Rightarrow> nat \<Rightarrow> raster \<times> channels \<Rightarrow> gfx_error + raster \<times> channels" where
  "box_step source base n step j = (\<lambda>(dst, sum).
     let i = int j; r = kBarBlurRadius;
         addAt = (if n \<le> i + r + 1 then n - 1 else i + r + 1);
         dropAt = (if i - r < 0 then 0 else i - r)
     in seqE (store_px (base + i * step) (mean_word sum) dst) (\<lambda>dst.
        seqE (load_px source (base + addAt * step)) (\<lambda>add.
        seqE (load_px source (base + dropAt * step)) (\<lambda>drp.
          Inr (dst, add_channels sum (sub_channels (channels_of add) (channels_of drp)))))))"

definition box_line :: "raster \<Rightarrow> int \<Rightarrow> int \<Rightarrow> int \<Rightarrow> raster \<Rightarrow> gfx_error + raster" where
  "box_line source base n step dst =
     seqE (first_sum source base n step) (\<lambda>sum.
     seqE (foreach [0..<nat n] (box_step source base n step) (dst, sum)) (\<lambda>(dst, sum). Inr dst))"

definition box :: "raster \<Rightarrow> int \<Rightarrow> int \<Rightarrow> int \<Rightarrow> int \<Rightarrow> raster \<Rightarrow> gfx_error + raster" where
  "box source n lines step lineStep dst =
     foreach [0..<nat lines] (\<lambda>l. box_line source (int l * lineStep) n step) dst"

text \<open>Copying a rectangle of rows, \<open>memcpy\<close> for each.\<close>

definition copy_words :: "raster \<Rightarrow> int \<Rightarrow> int \<Rightarrow> raster \<Rightarrow> gfx_error + raster" where
  "copy_words source x y dst =
     foreach [0..<nat (rheight dst)] (\<lambda>j. foreach [0..<nat (rwidth dst)] (\<lambda>i u.
       seqE (load_px source ((y + int j) * rpitch source + (x + int i)))
         (\<lambda>w. store_px (int j * rpitch u + int i) w u))) dst"

definition blur_passes :: "raster \<Rightarrow> gfx_error + raster" where
  "blur_passes work =
     (let w = rwidth work; h = rheight work
      in foreach [0..<3] (\<lambda>pass work.
           seqE (box work w h 1 w (new_raster w h)) (\<lambda>temp. box temp h w w 1 work)) work)"

definition blur_bar_backdrop ::
  "rect_ops \<Rightarrow> 'c paint_ops \<Rightarrow> desktop_background \<Rightarrow> gfx_error + desktop_background" where
  "blur_bar_backdrop U P b =
     (let bar = taskbar_bar_rect (bgWidth b) (bgHeight b); reach = 3 * kBarBlurRadius;
          area = intersect U (rect_at (rx bar - reach) (ry bar - reach) (rw bar + 2 * reach) (rh bar + 2 * reach))
                   (rect_at 0 0 (bgWidth b) (bgHeight b));
          b = b\<lparr>barBlur := None\<rparr>
      in if empty_rect U area \<or> empty_rect U bar then Inr b
         else if \<not> (allocates P (rw area * rh area) \<and> allocates P (rw bar * rh bar)) then Inr b
         else (case bgPixels b of
             None \<Rightarrow> Inl NullPointer
           | Some words \<Rightarrow>
               seqE (copy_words words (rx area) (ry area) (new_raster (rw area) (rh area))) (\<lambda>work.
               seqE (blur_passes work) (\<lambda>work.
               seqE (copy_words work (rx bar - rx area) (ry bar - ry area) (new_raster (rw bar) (rh bar)))
                 (\<lambda>out. Inr (b\<lparr>barBlur := Some out, barBlurRect := bar\<rparr>))))))"

section \<open>Choosing a wallpaper\<close>

definition load_background ::
  "rect_ops \<Rightarrow> 'c paint_ops \<Rightarrow> int \<Rightarrow> int \<Rightarrow> string \<Rightarrow> desktop_background \<Rightarrow> gfx_error + bool \<times> desktop_background"
where
  "load_background U P width height path b =
     (if path = [] then Inr (False, b)
      else (case ensure_background_storage P width height b of (ok, b) \<Rightarrow>
        if \<not> ok then Inr (False, b)
        else (case load_image P path of
            None \<Rightarrow> Inr (False, b)
          | Some img \<Rightarrow>
              (case bgPixels b of
                 None \<Rightarrow> Inl NullPointer
               | Some r \<Rightarrow>
                   seqE (scale_background_image P img r) (\<lambda>r.
                   seqE (blur_bar_backdrop U P
                       (b\<lparr>bgPixels := Some r, bgPath := bounded_copy 192 path, bgReady := True\<rparr>))
                     (\<lambda>b. Inr (True, b)))))))"

text \<open>\<open>has_png_suffix\<close> of \<open>render_primitives.cpp\<close>.\<close>

definition has_png_suffix :: "string \<Rightarrow> bool" where
  "has_png_suffix name =
     (if length name < 4 then False
      else (let s = drop (length name - 4) name
        in s ! 0 = CHR ''.'' \<and> (s ! 1 = CHR ''p'' \<or> s ! 1 = CHR ''P'') \<and>
           (s ! 2 = CHR ''n'' \<or> s ! 2 = CHR ''N'') \<and> (s ! 3 = CHR ''g'' \<or> s ! 3 = CHR ''G'')))"

definition kBackgroundDirectory :: string where "kBackgroundDirectory = ''/bin/backgrounds''"
definition kDefaultBackground :: string where "kDefaultBackground = ''/bin/backgrounds/instantos_2.png''"

text \<open>A name of the directory of wallpapers, with whether it is a regular file.\<close>

definition wallpaper_path :: "string \<Rightarrow> string" where
  "wallpaper_path name =
     append_loop 192 (append_loop 192 (append_loop 192 [] kBackgroundDirectory) ''/'') name"

fun first_wallpaper ::
  "rect_ops \<Rightarrow> 'c paint_ops \<Rightarrow> int \<Rightarrow> int \<Rightarrow> (string \<times> bool) list \<Rightarrow> desktop_background \<Rightarrow>
   gfx_error + bool \<times> desktop_background"
where
  "first_wallpaper U P width height [] b = Inr (False, b)"
| "first_wallpaper U P width height ((name, regular) # es) b =
     (if \<not> regular \<or> \<not> has_png_suffix name then first_wallpaper U P width height es b
      else seqE (load_background U P width height (wallpaper_path name) b) (\<lambda>(ok, b).
        if ok then Inr (True, b) else first_wallpaper U P width height es b))"

text \<open>\<open>listing\<close> is what \<open>readdir\<close> gives, \<open>None\<close> where it fails.\<close>

definition load_first_available_background ::
  "rect_ops \<Rightarrow> 'c paint_ops \<Rightarrow> int \<Rightarrow> int \<Rightarrow> (string \<times> bool) list option \<Rightarrow> desktop_background \<Rightarrow>
   gfx_error + bool \<times> desktop_background"
where
  "load_first_available_background U P width height listing b =
     seqE (load_background U P width height kDefaultBackground b) (\<lambda>(ok, b).
       if ok then Inr (True, b)
       else (case listing of None \<Rightarrow> Inr (False, b)
         | Some es \<Rightarrow> first_wallpaper U P width height (take 32 es) b))"

text \<open>
  \<open>draw_background\<close>: the wallpaper if it is ready and has the canvas's size, else the gradient.
\<close>

definition draw_background :: "'c paint_ops \<Rightarrow> int \<Rightarrow> int \<Rightarrow> desktop_background \<Rightarrow> int \<Rightarrow> int \<Rightarrow> 32 word" where
  "draw_background P w h b x y =
     (case bgPixels b of
        Some r \<Rightarrow> if bgReady b \<and> bgWidth b = w \<and> bgHeight b = h then at_px r x y
                   else gradient_words P w h (y * w + x)
      | None \<Rightarrow> gradient_words P w h (y * w + x))"

end
