(* ===== verification/Compositor_Blur.thy ===== *)
theory Compositor_Blur
  imports Compositor_Wallpaper
begin

unbundle bit_operations_syntax

text \<open>
  The blur of \<open>src/graphics-compositor/src/background.cpp\<close> computes means: the window that moves
  along a line, adding one pixel and dropping another, holds at each pixel the sums over the
  pixels up to ten away, those past an end counting as the end. The passes over rows and columns
  are therefore the box filter, and no access leaves a buffer.
\<close>

section \<open>Windows\<close>

definition clamp_to :: "int \<Rightarrow> int \<Rightarrow> int" where
  "clamp_to n k = (if k < 0 then 0 else if n \<le> k then n - 1 else k)"

lemma clamp_to_range: "0 < n \<Longrightarrow> 0 \<le> clamp_to n k \<and> clamp_to n k < n"
  by (simp add: clamp_to_def)

text \<open>The sum over the window around \<open>i\<close> of the values \<open>u\<close> of a line of \<open>n\<close> pixels.\<close>

definition window_sum :: "int \<Rightarrow> (int \<Rightarrow> int) \<Rightarrow> int \<Rightarrow> int" where
  "window_sum n u i = (\<Sum>j\<in>{i - kBarBlurRadius..i + kBarBlurRadius}. u (clamp_to n j))"

lemma window_sum_next:
  "window_sum n u (i + 1) =
     window_sum n u i + (u (clamp_to n (i + kBarBlurRadius + 1)) - u (clamp_to n (i - kBarBlurRadius)))"
proof -
  let ?f = "\<lambda>j. u (clamp_to n j)" and ?r = kBarBlurRadius
  have r: "0 \<le> ?r" by (simp add: kBarBlurRadius_def)
  have "{i - ?r..i + ?r + 1} = insert (i + ?r + 1) {i - ?r..i + ?r}" using r by auto
  then have a: "(\<Sum>j\<in>{i - ?r..i + ?r + 1}. ?f j) = ?f (i + ?r + 1) + window_sum n u i"
    by (simp add: window_sum_def)
  have "{i - ?r..i + ?r + 1} = insert (i - ?r) {i + 1 - ?r..i + 1 + ?r}" using r by auto
  then have "(\<Sum>j\<in>{i - ?r..i + ?r + 1}. ?f j) = ?f (i - ?r) + window_sum n u (i + 1)"
    by (simp add: window_sum_def)
  with a show ?thesis by simp
qed

text \<open>The sums stay small: no \<open>int\<close> overflows, and each mean is a byte.\<close>

lemma window_sum_bounds:
  assumes "\<And>j. 0 \<le> u j \<and> u j \<le> 255"
  shows "0 \<le> window_sum n u i" and "window_sum n u i \<le> 5355"
proof -
  have "(\<Sum>j\<in>{i - 10..i + 10}. u (clamp_to n j)) \<le> of_nat (card {i - 10..i + 10}) * 255"
    by (rule sum_bounded_above) (use assms in simp)
  then show "window_sum n u i \<le> 5355" by (simp add: window_sum_def kBarBlurRadius_def)
  show "0 \<le> window_sum n u i" using assms by (simp add: window_sum_def sum_nonneg)
qed

definition chan :: "nat \<Rightarrow> 32 word \<Rightarrow> int" where
  "chan c p = uint (drop_bit (8 * c) p AND 0xFF)"

lemma channels_of_chan: "channels_of p = (chan 0 p, chan 1 p, chan 2 p)"
  by (simp add: channels_of_def chan_def)

lemma chan_bounds: "0 \<le> chan c p \<and> chan c p \<le> 255"
proof -
  have "drop_bit (8 * c) p AND 0xFF \<le> (0xFF :: 32 word)" by (rule word_and_le1)
  then show ?thesis by (simp add: chan_def word_le_def)
qed

definition window_sums :: "int \<Rightarrow> (int \<Rightarrow> 32 word) \<Rightarrow> int \<Rightarrow> channels" where
  "window_sums n v i =
     (window_sum n (\<lambda>j. chan 0 (v j)) i, window_sum n (\<lambda>j. chan 1 (v j)) i, window_sum n (\<lambda>j. chan 2 (v j)) i)"

lemma window_sums_next:
  "window_sums n v (i + 1) = add_channels (window_sums n v i)
     (sub_channels (channels_of (v (clamp_to n (i + kBarBlurRadius + 1)))) (channels_of (v (clamp_to n (i - kBarBlurRadius)))))"
  by (simp add: window_sums_def window_sum_next add_channels_def sub_channels_def channels_of_chan)

text \<open>What a pixel of a blurred line is: the means of the channels over the window, opaque.\<close>

definition window_mean :: "int \<Rightarrow> (int \<Rightarrow> 32 word) \<Rightarrow> int \<Rightarrow> 32 word" where
  "window_mean n v i = mean_word (window_sums n v i)"

lemma byte_bits: "0 \<le> k \<Longrightarrow> k \<le> 255 \<Longrightarrow> bit (word_of_int k :: 32 word) n \<Longrightarrow> n < 8"
proof (rule ccontr)
  assume k: "0 \<le> k" "k \<le> 255" and b: "bit (word_of_int k :: 32 word) n" and n: "\<not> n < 8"
  have "k < 2 ^ n"
    using k n power_increasing [of 8 n "2 :: int"] by simp
  then have "k div 2 ^ n = 0" using k by simp
  then have "\<not> bit k n" by (simp add: bit_iff_odd)
  with b show False by (simp add: bit_word_of_int_iff)
qed

lemma opaque_bits: "bit (0xFF000000 :: 32 word) n \<longleftrightarrow> 24 \<le> n \<and> n < 32"
proof -
  have "(0xFF000000 :: 32 word) = push_bit 24 (mask 8)" by (simp add: push_bit_eq_mult mask_eq_exp_minus_1)
  show ?thesis unfolding \<open>0xFF000000 = push_bit 24 (mask 8)\<close> by (auto simp: bit_push_bit_iff bit_mask_iff)
qed

lemma low_byte_bits: "bit (0xFF :: 32 word) n \<longleftrightarrow> n < 8"
proof -
  have "(0xFF :: 32 word) = mask 8" by (simp add: mask_eq_exp_minus_1)
  show ?thesis unfolding \<open>0xFF = mask 8\<close> by (auto simp: bit_mask_iff)
qed

lemma chan_packed:
  assumes "0 \<le> a" "a \<le> 255" "0 \<le> b" "b \<le> 255" "0 \<le> c" "c \<le> 255"
  defines "w \<equiv> (0xFF000000 :: 32 word) OR word_of_int a OR push_bit 8 (word_of_int b) OR push_bit 16 (word_of_int c)"
  shows "chan 0 w = a" "chan 1 w = b" "chan 2 w = c" "chan 3 w = 255"
proof -
  have u: "uint (word_of_int k :: 32 word) = k" if "0 \<le> k" "k \<le> 255" for k
    using that by (simp add: uint_word_of_int)
  have small: "bit (word_of_int k :: 32 word) n \<Longrightarrow> n < 8" if "0 \<le> k" "k \<le> 255" for k n
    using byte_bits that by blast
  have w: "bit w n \<longleftrightarrow> n < 32 \<and> (24 \<le> n \<or> bit (word_of_int a :: 32 word) n \<or>
      8 \<le> n \<and> bit (word_of_int b :: 32 word) (n - 8) \<or> 16 \<le> n \<and> bit (word_of_int c :: 32 word) (n - 16))" for n
    using small [OF assms(1,2), of n] by (auto simp: w_def bit_or_iff bit_push_bit_iff opaque_bits simp del: bit_numeral_word_iff)
  have bits: "bit (drop_bit k w AND 0xFF) n \<longleftrightarrow> n < 8 \<and> bit w (k + n)" for k n
    unfolding bit_and_iff bit_drop_bit_eq low_byte_bits comp_apply by blast
  have byte: "drop_bit k w AND 0xFF = word_of_int v"
    if "\<And>n. n < 8 \<Longrightarrow> bit w (k + n) \<longleftrightarrow> bit (word_of_int v :: 32 word) n" "0 \<le> v" "v \<le> 255" for k v
    by (rule bit_word_eqI) (use that small [OF that(2,3)] in \<open>auto simp: bits\<close>)
  have "drop_bit 0 w AND 0xFF = word_of_int a"
    by (rule byte) (use assms(1-6) in \<open>auto simp: w\<close>)
  then show "chan 0 w = a" using u assms(1-6) by (simp add: chan_def)
  have "drop_bit 8 w AND 0xFF = word_of_int b"
    by (rule byte) (use assms(1-6) small [OF assms(1,2)] in \<open>force simp: w\<close>)+
  then show "chan 1 w = b" using u assms(1-6) by (simp add: chan_def)
  have "drop_bit 16 w AND 0xFF = word_of_int c"
    by (rule byte) (use assms(1-6) small [OF assms(1,2)] small [OF assms(3,4)] in \<open>force simp: w\<close>)+
  then show "chan 2 w = c" using u assms(1-6) by (simp add: chan_def)
  have "drop_bit 24 w AND 0xFF = 0xFF"
    by (rule bit_word_eqI) (auto simp: bits w low_byte_bits simp del: bit_numeral_word_iff)
  then show "chan 3 w = 255" by (simp add: chan_def)
qed

lemma window_mean_channels:
  "c < 3 \<Longrightarrow> chan c (window_mean n v i) = window_sum n (\<lambda>j. chan c (v j)) i div 21"
  "chan 3 (window_mean n v i) = 255"
proof -
  define s where "s c = window_sum n (\<lambda>j. chan c (v j)) i" for c
  have s: "0 \<le> s c div 21" "s c div 21 \<le> 255" "s c sdiv 21 = s c div 21" for c
    using window_sum_bounds [of "\<lambda>j. chan c (v j)" n i] chan_bounds
    by (auto simp: s_def signed_divide_int_def sgn_if abs_if)
  have w: "window_mean n v i = 0xFF000000 OR word_of_int (s 0 div 21) OR push_bit 8 (word_of_int (s 1 div 21)) OR
      push_bit 16 (word_of_int (s 2 div 21))"
    using s(3) by (simp add: window_mean_def window_sums_def mean_word_def kBarBlurRadius_def Let_def s_def)
  note p = chan_packed [OF s(1,2) s(1,2) s(1,2), of 0 1 2, folded w]
  show "chan 3 (window_mean n v i) = 255" by (rule p)
  show "chan c (window_mean n v i) = window_sum n (\<lambda>j. chan c (v j)) i div 21" if "c < 3"
  proof -
    have "c = 0 \<or> c = 1 \<or> c = 2" using that by auto
    then show ?thesis using p by (auto simp: s_def)
  qed
qed

section \<open>One line\<close>

text \<open>The pixels of a line, read through its first index and step.\<close>

definition reads_line :: "raster \<Rightarrow> int \<Rightarrow> int \<Rightarrow> int \<Rightarrow> (int \<Rightarrow> 32 word) \<Rightarrow> bool" where
  "reads_line source base n step v \<longleftrightarrow>
     0 < n \<and> (\<forall>j. 0 \<le> j \<and> j < n \<longrightarrow> load_px source (base + j * step) = Inr (v j))"

lemma reads_clamped: "reads_line source base n step v \<Longrightarrow> load_px source (base + clamp_to n k * step) = Inr (v (clamp_to n k))"
  using clamp_to_range by (simp add: reads_line_def)

lemma first_sum_window:
  assumes "reads_line source base n step v"
  shows "first_sum source base n step = Inr (window_sums n v 0)"
proof -
  define part where "part c j = (\<Sum>k\<in>{- kBarBlurRadius..<int j - kBarBlurRadius}. chan c (v (clamp_to n k)))" for c j
  have step: "part c (Suc j) = part c j + chan c (v (clamp_to n (int j - kBarBlurRadius)))" for c j
  proof -
    have "{- kBarBlurRadius..<int (Suc j) - kBarBlurRadius} =
        insert (int j - kBarBlurRadius) {- kBarBlurRadius..<int j - kBarBlurRadius}" by auto
    then show ?thesis by (simp add: part_def)
  qed
  have sums: "(part 0 21, part 1 21, part 2 21) = window_sums n v 0"
  proof -
    have "{- kBarBlurRadius..<int 21 - kBarBlurRadius} = {0 - kBarBlurRadius..0 + kBarBlurRadius}"
      by (auto simp: kBarBlurRadius_def)
    then show ?thesis by (simp only: window_sums_def window_sum_def part_def)
  qed
  have "foreach [0..<21] (\<lambda>j sum.
       let k = int j - kBarBlurRadius; at = (if k < 0 then 0 else if n \<le> k then n - 1 else k)
       in seqE (load_px source (base + at * step)) (\<lambda>p. Inr (add_channels sum (channels_of p)))) (0, 0, 0) =
     Inr (part 0 21, part 1 21, part 2 21)"
    by (rule foreach_upt [where G = "\<lambda>j. (part 0 j, part 1 j, part 2 j)"])
       (simp_all add: Let_def clamp_to_def [symmetric] reads_clamped [OF assms] step add_channels_def channels_of_chan,
        simp add: part_def)
  then show ?thesis unfolding sums by (simp add: first_sum_def kBarBlurRadius_def)
qed

lemma box_step_paints:
  assumes "reads_line source base n step v" and "0 \<le> int i" and "int i < n"
    and "on_raster dst x y" and "base + int i * step = y * rpitch dst + x"
  shows "\<exists>d'. box_step source base n step i (dst, window_sums n v (int i)) = Inr (d', window_sums n v (int i + 1)) \<and>
    paints (\<lambda>_ _. window_mean n v (int i)) {(x, y)} dst d'"
proof -
  obtain d' where d': "store_px (base + int i * step) (window_mean n v (int i)) dst = Inr d'"
    "paints (\<lambda>_ _. window_mean n v (int i)) {(x, y)} dst d'"
    using store_px_paints [OF assms(4)] assms(5) by metis
  have add: "(if n \<le> int i + kBarBlurRadius + 1 then n - 1 else int i + kBarBlurRadius + 1) =
      clamp_to n (int i + kBarBlurRadius + 1)"
    by (simp add: clamp_to_def kBarBlurRadius_def)
  have drp: "(if int i - kBarBlurRadius < 0 then 0 else int i - kBarBlurRadius) = clamp_to n (int i - kBarBlurRadius)"
    using assms(3) by (simp add: clamp_to_def kBarBlurRadius_def)
  show ?thesis
    unfolding box_step_def Let_def prod.case add drp
    using d' reads_clamped [OF assms(1)] by (simp add: window_sums_next window_mean_def)
qed

text \<open>
  A line whose pixels are the points \<open>(X j, Y j)\<close> of the target: it gets the means.
\<close>

lemma box_line_paints:
  assumes "reads_line source base n step v"
    and "\<And>j. 0 \<le> j \<Longrightarrow> j < n \<Longrightarrow> on_raster dst (X j) (Y j) \<and> base + j * step = Y j * rpitch dst + X j"
    and "\<And>j. 0 \<le> j \<Longrightarrow> j < n \<Longrightarrow> f (X j) (Y j) = window_mean n v j"
  shows "\<exists>d'. box_line source base n step dst = Inr d' \<and> paints f ((\<lambda>j. (X j, Y j)) ` {0..<n}) dst d'"
proof -
  define I where "I i = (\<lambda>(u, sum). sum = window_sums n v (int i) \<and>
    paints f ((\<lambda>j. (X j, Y j)) ` {0..<int i}) dst u)" for i
  have "\<exists>us. foreach [0..<nat n] (box_step source base n step) (dst, window_sums n v 0) = Inr us \<and> I (nat n) us"
  proof (rule foreach_upt_rule)
    show "I 0 (dst, window_sums n v 0)" by (simp add: I_def paints_refl)
  next
    fix i us
    assume i: "i < nat n" and inv: "I i us"
    obtain u sum where us: "us = (u, sum)" by (cases us)
    with inv have sum: "sum = window_sums n v (int i)" and u: "paints f ((\<lambda>j. (X j, Y j)) ` {0..<int i}) dst u"
      by (simp_all add: I_def)
    have i': "0 \<le> int i" "int i < n" using i by auto
    have "on_raster u (X (int i)) (Y (int i))" "base + int i * step = Y (int i) * rpitch u + X (int i)"
      using assms(2) [OF i'] u on_raster_shape [of u dst] by (auto simp: paints_def shape_def)
    from box_step_paints [OF assms(1) i' this] obtain d' where
      "box_step source base n step i us = Inr (d', window_sums n v (int (Suc i)))"
      and d': "paints (\<lambda>_ _. window_mean n v (int i)) {(X (int i), Y (int i))} u d'"
      unfolding us sum by (auto simp: add.commute)
    moreover have "paints f {(X (int i), Y (int i))} u d'"
      by (rule paints_cong [OF d']) (use assms(3) [OF i'] in simp)
    from paints_trans [OF u this] have "paints f ((\<lambda>j. (X j, Y j)) ` {0..<int (Suc i)}) dst d'"
    proof -
      have "{0..<int (Suc i)} = insert (int i) {0..<int i}" by auto
      then show ?thesis using paints_trans [OF u \<open>paints f {(X (int i), Y (int i))} u d'\<close>] by simp
    qed
    ultimately show "\<exists>us'. box_step source base n step i us = Inr us' \<and> I (Suc i) us'"
      by (auto simp: I_def)
  qed simp
  then obtain u sum where "foreach [0..<nat n] (box_step source base n step) (dst, window_sums n v 0) = Inr (u, sum)"
    "I (nat n) (u, sum)" by auto
  moreover have "0 \<le> n" using assms(1) by (simp add: reads_line_def)
  ultimately show ?thesis
    using first_sum_window [OF assms(1)] by (simp add: box_line_def I_def)
qed

section \<open>Rows, columns and passes\<close>

text \<open>A buffer of \<open>w\<close> by \<open>h\<close> words that holds the image \<open>g\<close>.\<close>

definition holds :: "int \<Rightarrow> int \<Rightarrow> (int \<Rightarrow> int \<Rightarrow> 32 word) \<Rightarrow> raster \<Rightarrow> bool" where
  "holds w h g d \<longleftrightarrow> shape d = (w, h, w) \<and> (\<forall>x y. on_screen w h x y \<longrightarrow> at_px d x y = g x y)"

lemma on_raster_screen: "shape d = (w, h, w) \<Longrightarrow> on_raster d x y = on_screen w h x y"
  by (auto simp: shape_def on_raster_def on_screen_def)

lemma paints_holds:
  assumes "paints f Q d d'" and "shape d = (w, h, w)" and "\<And>x y. on_screen w h x y \<Longrightarrow> (x, y) \<in> Q"
  shows "holds w h f d'"
  using assms on_raster_screen [OF assms(2)] by (simp add: paints_def holds_def)

lemma shape_new_raster [simp]: "shape (new_raster w h) = (w, h, w)"
  by (simp add: new_raster_def shape_def)

text \<open>The box filter, along rows and along columns.\<close>

definition row_means :: "int \<Rightarrow> (int \<Rightarrow> int \<Rightarrow> 32 word) \<Rightarrow> int \<Rightarrow> int \<Rightarrow> 32 word" where
  "row_means w g x y = window_mean w (\<lambda>j. g j y) x"

definition column_means :: "int \<Rightarrow> (int \<Rightarrow> int \<Rightarrow> 32 word) \<Rightarrow> int \<Rightarrow> int \<Rightarrow> 32 word" where
  "column_means h g x y = window_mean h (\<lambda>j. g x j) y"

lemma holds_load:
  assumes "holds w h g d" and "on_screen w h x y"
  shows "load_px d (y * w + x) = Inr (g x y)"
proof -
  have "rpitch d = w" "on_raster d x y" using assms on_raster_screen by (auto simp: holds_def shape_def)
  then show ?thesis using load_px_at [of d x y] assms by (simp add: holds_def)
qed

lemma box_rows:
  assumes "holds w h g source" and "shape dst = (w, h, w)" and "0 < w" and "0 < h"
  shows "\<exists>d'. box source w h 1 w dst = Inr d' \<and> holds w h (row_means w g) d'"
proof -
  have line: "\<exists>u'. box_line source (int l * w) w 1 u = Inr u' \<and>
      paints (row_means w g) ((\<lambda>j. (j, int l)) ` {0..<w}) u u'"
    if l: "l \<in> set [0..<nat h]" and u: "shape u = shape dst" for l u
  proof (rule box_line_paints [where v = "\<lambda>j. g j (int l)"])
    show "reads_line source (int l * w) w 1 (\<lambda>j. g j (int l))"
      using l assms(3) holds_load [OF assms(1)] by (auto simp: reads_line_def on_screen_def)
    show "on_raster u j (int l) \<and> int l * w + j * 1 = int l * rpitch u + j" if "0 \<le> j" "j < w" for j
      using that l u assms(2) by (auto simp: on_raster_screen on_screen_def shape_def on_raster_def)
  qed (simp add: row_means_def)
  have "\<exists>d'. box source w h 1 w dst = Inr d' \<and>
      paints (row_means w g) (\<Union>l\<in>set [0..<nat h]. (\<lambda>j. (j, int l)) ` {0..<w}) dst d'"
    unfolding box_def by (rule foreach_paints) (rule line)
  moreover have "(x, y) \<in> (\<Union>l\<in>set [0..<nat h]. (\<lambda>j. (j, int l)) ` {0..<w})" if "on_screen w h x y" for x y
    using that by (intro UN_I [of "nat y"]) (auto simp: on_screen_def)
  ultimately show ?thesis using paints_holds [OF _ assms(2)] by blast
qed

lemma box_columns:
  assumes "holds w h g source" and "shape dst = (w, h, w)" and "0 < w" and "0 < h"
  shows "\<exists>d'. box source h w w 1 dst = Inr d' \<and> holds w h (column_means h g) d'"
proof -
  have line: "\<exists>u'. box_line source (int l * 1) h w u = Inr u' \<and>
      paints (column_means h g) ((\<lambda>j. (int l, j)) ` {0..<h}) u u'"
    if l: "l \<in> set [0..<nat w]" and u: "shape u = shape dst" for l u
  proof (rule box_line_paints [where v = "\<lambda>j. g (int l) j"])
    show "reads_line source (int l * 1) h w (\<lambda>j. g (int l) j)"
      using l assms(4) holds_load [OF assms(1), of "int l"]
      by (auto simp: reads_line_def on_screen_def add.commute)
    show "on_raster u (int l) j \<and> int l * 1 + j * w = j * rpitch u + int l" if "0 \<le> j" "j < h" for j
      using that l u assms(2) by (auto simp: on_raster_screen on_screen_def shape_def on_raster_def)
  qed (simp add: column_means_def)
  have "\<exists>d'. box source h w w 1 dst = Inr d' \<and>
      paints (column_means h g) (\<Union>l\<in>set [0..<nat w]. (\<lambda>j. (int l, j)) ` {0..<h}) dst d'"
    unfolding box_def by (rule foreach_paints) (rule line)
  moreover have "(x, y) \<in> (\<Union>l\<in>set [0..<nat w]. (\<lambda>j. (int l, j)) ` {0..<h})" if "on_screen w h x y" for x y
    using that by (intro UN_I [of "nat x"]) (auto simp: on_screen_def)
  ultimately show ?thesis using paints_holds [OF _ assms(2)] by blast
qed

definition blurred_once :: "int \<Rightarrow> int \<Rightarrow> (int \<Rightarrow> int \<Rightarrow> 32 word) \<Rightarrow> int \<Rightarrow> int \<Rightarrow> 32 word" where
  "blurred_once w h g = column_means h (row_means w g)"

lemma holds_shape: "holds w h g d \<Longrightarrow> shape d = (w, h, w)"
  by (simp add: holds_def)

lemma blur_pass:
  assumes "holds w h g d" and "0 < w" and "0 < h"
  shows "\<exists>d'. seqE (box d w h 1 w (new_raster w h)) (\<lambda>temp. box temp h w w 1 d) = Inr d' \<and>
    holds w h (blurred_once w h g) d'"
proof -
  obtain temp where t: "box d w h 1 w (new_raster w h) = Inr temp" "holds w h (row_means w g) temp"
    using box_rows [OF assms(1) shape_new_raster assms(2,3)] by blast
  with box_columns [OF t(2) holds_shape [OF assms(1)] assms(2,3)] show ?thesis
    by (simp add: blurred_once_def)
qed

lemma blur_passes_box_filter:
  assumes "holds w h g d" and "0 < w" and "0 < h"
  shows "\<exists>d'. blur_passes d = Inr d' \<and> holds w h ((blurred_once w h ^^ 3) g) d'"
proof -
  have wh: "rwidth d = w" "rheight d = h" using assms(1) by (simp_all add: holds_def shape_def)
  show ?thesis
    unfolding blur_passes_def Let_def wh
  proof (rule foreach_upt_rule [where I = "\<lambda>i u. holds w h ((blurred_once w h ^^ i) g) u"])
    fix i u
    assume "holds w h ((blurred_once w h ^^ i) g) u"
    from blur_pass [OF this assms(2,3)]
    show "\<exists>s'. seqE (box u w h 1 w (new_raster w h)) (\<lambda>temp. box temp h w w 1 u) = Inr s' \<and>
        holds w h ((blurred_once w h ^^ Suc i) g) s'" by simp
  qed (use assms(1) in simp_all)
qed

text \<open>Copying a part of an image.\<close>

lemma copy_words_holds:
  assumes "shape dst = (w, h, w)"
    and "\<And>i j. on_screen w h i j \<Longrightarrow> load_px source ((y + j) * rpitch source + (x + i)) = Inr (g (x + i) (y + j))"
  shows "\<exists>d'. copy_words source x y dst = Inr d' \<and> holds w h (\<lambda>i j. g (x + i) (y + j)) d'"
proof -
  let ?f = "\<lambda>i j. g (x + i) (y + j)"
  have wh: "rheight dst = h" "rwidth dst = w" using assms(1) by (simp_all add: shape_def)
  have texel: "\<exists>u'. seqE (load_px source ((y + int j) * rpitch source + (x + int i)))
      (\<lambda>w. store_px (int j * rpitch u + int i) w u) = Inr u' \<and> paints ?f {(int i, int j)} u u'"
    if "i \<in> set [0..<nat w]" "j \<in> set [0..<nat h]" "shape u = shape dst" for i j u
  proof -
    have s: "on_screen w h (int i) (int j)" using that by (auto simp: on_screen_def)
    then have "on_raster u (int i) (int j)" using on_raster_screen assms(1) that(3) by metis
    from store_px_paints [OF this, of "?f (int i) (int j)"] obtain u' where
      "store_px (int j * rpitch u + int i) (?f (int i) (int j)) u = Inr u'"
      "paints (\<lambda>_ _. ?f (int i) (int j)) {(int i, int j)} u u'" by blast
    moreover from this(2) have "paints ?f {(int i, int j)} u u'" by (rule paints_cong) auto
    ultimately show ?thesis using assms(2) [OF s] by auto
  qed
  have row: "\<exists>u'. foreach [0..<nat w] (\<lambda>i u. seqE (load_px source ((y + int j) * rpitch source + (x + int i)))
      (\<lambda>w. store_px (int j * rpitch u + int i) w u)) u = Inr u' \<and>
      paints ?f (\<Union>i\<in>set [0..<nat w]. {(int i, int j)}) u u'"
    if "j \<in> set [0..<nat h]" "shape u = shape dst" for j u
    by (rule foreach_paints) (use texel that in simp)
  have "\<exists>d'. copy_words source x y dst = Inr d' \<and>
      paints ?f (\<Union>j\<in>set [0..<nat h]. \<Union>i\<in>set [0..<nat w]. {(int i, int j)}) dst d'"
    unfolding copy_words_def wh by (rule foreach_paints) (rule row)
  moreover have "(a, b) \<in> (\<Union>j\<in>set [0..<nat h]. \<Union>i\<in>set [0..<nat w]. {(int i, int j)})" if "on_screen w h a b" for a b
    using that by (intro UN_I [of "nat b"] UN_I [of "nat a"]) (auto simp: on_screen_def)
  ultimately show ?thesis using paints_holds [OF _ assms(1)] by blast
qed

section \<open>The filter\<close>

lemma holds_cong: "holds w h f d \<Longrightarrow> (\<And>x y. on_screen w h x y \<Longrightarrow> f x y = g x y) \<Longrightarrow> holds w h g d"
  by (simp add: holds_def)

text \<open>
  C11: The moving window computes the box filter: run along the rows or the columns of an image
  held in a buffer, \<open>box\<close> succeeds without leaving a buffer, and each color channel of each pixel
  becomes the mean, rounded down, of the channel over the 21 pixels around it, where those past
  an end count as the end; the result is opaque.
\<close>
theorem box_computes_means:
  assumes "holds w h g source" and "shape dst = (w, h, w)" and "0 < w" and "0 < h"
  shows "\<exists>rows cols. box source w h 1 w dst = Inr rows \<and> box source h w w 1 dst = Inr cols \<and>
    (\<forall>x y. on_screen w h x y \<longrightarrow>
       (\<forall>c<3. chan c (at_px rows x y) = (\<Sum>j\<in>{x - 10..x + 10}. chan c (g (clamp_to w j) y)) div 21 \<and>
             chan c (at_px cols x y) = (\<Sum>j\<in>{y - 10..y + 10}. chan c (g x (clamp_to h j))) div 21) \<and>
       chan 3 (at_px rows x y) = 255 \<and> chan 3 (at_px cols x y) = 255)"
proof -
  obtain rows where r: "box source w h 1 w dst = Inr rows" "holds w h (row_means w g) rows"
    using box_rows [OF assms] by blast
  obtain cols where c: "box source h w w 1 dst = Inr cols" "holds w h (column_means h g) cols"
    using box_columns [OF assms] by blast
  show ?thesis
    using r c by (auto simp: holds_def row_means_def column_means_def window_mean_channels window_sum_def kBarBlurRadius_def)
qed

text \<open>A bright pixel on a dark row of five.\<close>

definition five_row :: raster where
  "five_row = \<lparr>px = (\<lambda>i. if i = 2 then 0xFF0000D2 else 0xFF000000), rwidth = 5, rheight = 1, rpitch = 5\<rparr>"

theorem box_computes_means_witness:
  "\<exists>rows. box five_row 5 1 1 5 (new_raster 5 1) = Inr rows \<and> chan 0 (at_px rows 4 0) = 10"
proof -
  define g :: "int \<Rightarrow> int \<Rightarrow> 32 word" where "g = (\<lambda>x y. at_px five_row x y)"
  have "holds 5 1 g five_row" by (simp add: holds_def shape_def five_row_def g_def)
  from box_computes_means [OF this shape_new_raster] obtain rows where
    r: "box five_row 5 1 1 5 (new_raster 5 1) = Inr rows"
    "chan 0 (at_px rows 4 0) = (\<Sum>j\<in>{4 - 10..4 + 10}. chan 0 (g (clamp_to 5 j) 0)) div 21"
    by (auto simp: on_screen_def)
  have u: "chan 0 (g (clamp_to 5 j) 0) = (if j = 2 then 210 else 0)" for j
    by (simp add: g_def at_px_def five_row_def chan_def clamp_to_def)
  have "(\<Sum>j\<in>{4 - 10..4 + 10}. chan 0 (g (clamp_to 5 j) 0)) = 210"
    unfolding u by simp
  with r show ?thesis by auto
qed

section \<open>The strip under the taskbar\<close>

lemma same_rect:
  assumes same: "\<And>x y. inside r x y \<longleftrightarrow> inside s x y" and "inside s a b"
  shows "r = s"
proof -
  have pos: "0 < rw s" "0 < rh s" "0 < rw r" "0 < rh r"
    using assms(2) same [of a b] by (auto simp: inside_def)
  then have "inside s (rx s) (ry s)" "inside r (rx r) (ry r)"
    "inside s (rx s + rw s - 1) (ry s + rh s - 1)" "inside r (rx r + rw r - 1) (ry r + rh r - 1)"
    by (simp_all add: inside_def)
  then have "inside r (rx s) (ry s)" "inside s (rx r) (ry r)"
    "inside r (rx s + rw s - 1) (ry s + rh s - 1)" "inside s (rx r + rw r - 1) (ry r + rh r - 1)"
    using same by blast+
  then show ?thesis by (intro rect.equality) (auto simp: inside_def)
qed

definition backdrop_top :: "int \<Rightarrow> int" where
  "backdrop_top h = max 0 (h - 94)"

lemma backdrop_area:
  assumes "rect_laws U" and "24 < w" and "0 < h"
  defines "strip \<equiv> taskbar_bar_rect w h"
  shows "intersect U (rect_at (rx strip - 30) (ry strip - 30) (rw strip + 60) (rh strip + 60)) (rect_at 0 0 w h) =
    rect_at 0 (backdrop_top h) w (h - backdrop_top h)"
proof (rule same_rect)
  show "inside (rect_at 0 (backdrop_top h) w (h - backdrop_top h)) 0 (h - 1)"
    using assms(2,3) by (simp add: inside_def backdrop_top_def)
  show "inside (intersect U (rect_at (rx strip - 30) (ry strip - 30) (rw strip + 60) (rh strip + 60)) (rect_at 0 0 w h)) x y =
      inside (rect_at 0 (backdrop_top h) w (h - backdrop_top h)) x y" for x y
    using assms(1-3)
    by (auto simp: rect_laws_def inside_def strip_def taskbar_bar_rect_def kTaskbarMargin_def kTaskbarHeight_def backdrop_top_def)
qed

text \<open>The image under the blur: the lower part of the wallpaper.\<close>

definition lower_part :: "int \<Rightarrow> (int \<Rightarrow> int \<Rightarrow> 32 word) \<Rightarrow> int \<Rightarrow> int \<Rightarrow> 32 word" where
  "lower_part h g x y = g x (backdrop_top h + y)"

lemma blurred_area:
  assumes "holds w h g r" and "24 < w" and "0 < h"
  shows "\<exists>work. seqE (copy_words r 0 (backdrop_top h) (new_raster w (h - backdrop_top h))) blur_passes = Inr work \<and>
    holds w (h - backdrop_top h) ((blurred_once w (h - backdrop_top h) ^^ 3) (lower_part h g)) work"
proof -
  let ?t = "backdrop_top h"
  have t: "0 \<le> ?t" "0 < h - ?t" using assms(3) by (simp_all add: backdrop_top_def)
  have p: "rpitch r = w" using assms(1) by (simp add: holds_def shape_def)
  have "\<exists>d. copy_words r 0 ?t (new_raster w (h - ?t)) = Inr d \<and> holds w (h - ?t) (\<lambda>i j. g (0 + i) (?t + j)) d"
  proof (rule copy_words_holds [OF shape_new_raster])
    fix i j
    assume "on_screen w (h - ?t) i j"
    then have "on_screen w h i (?t + j)" using t by (auto simp: on_screen_def)
    from holds_load [OF assms(1) this]
    show "load_px r ((?t + j) * rpitch r + (0 + i)) = Inr (g (0 + i) (?t + j))" by (simp add: p)
  qed
  then obtain d where "copy_words r 0 ?t (new_raster w (h - ?t)) = Inr d" "holds w (h - ?t) (lower_part h g) d"
    by (auto simp: lower_part_def [abs_def])
  with blur_passes_box_filter [OF this(2)] assms(2) t(2) show ?thesis by auto
qed

lemma blur_bar_steps:
  assumes "rect_laws U" and "bgPixels b = Some r" and "24 < bgWidth b" and "0 < bgHeight b" and "\<And>n. allocates P n"
  defines "w \<equiv> bgWidth b" and "h \<equiv> bgHeight b"
  shows "blur_bar_backdrop U P b =
    seqE (seqE (copy_words r 0 (backdrop_top h) (new_raster w (h - backdrop_top h))) blur_passes) (\<lambda>work.
    seqE (copy_words work 12 (h - 64 - backdrop_top h) (new_raster (w - 24) 52)) (\<lambda>out.
      Inr (b\<lparr>barBlur := Some out, barBlurRect := taskbar_bar_rect w h\<rparr>)))"
proof -
  have bar: "taskbar_bar_rect w h = rect_at 12 (h - 64) (w - 24) 52"
    by (simp add: taskbar_bar_rect_def kTaskbarMargin_def kTaskbarHeight_def)
  have area: "intersect U (rect_at (rx (taskbar_bar_rect w h) - 3 * kBarBlurRadius)
        (ry (taskbar_bar_rect w h) - 3 * kBarBlurRadius)
        (rw (taskbar_bar_rect w h) + 2 * (3 * kBarBlurRadius)) (rh (taskbar_bar_rect w h) + 2 * (3 * kBarBlurRadius)))
      (rect_at 0 0 w h) = rect_at 0 (backdrop_top h) w (h - backdrop_top h)"
    using backdrop_area [OF assms(1), of w h] assms(3,4) by (simp add: w_def h_def kBarBlurRadius_def)
  have ne: "\<not> empty_rect U (rect_at 0 (backdrop_top h) w (h - backdrop_top h))"
    "\<not> empty_rect U (taskbar_bar_rect w h)"
    unfolding bar using assms(1,3,4) by (auto simp: rect_laws_def w_def h_def backdrop_top_def)
  show ?thesis
    unfolding blur_bar_backdrop_def Let_def w_def [symmetric] h_def [symmetric] area
    using ne assms(2,5) by (simp add: bar seqE_assoc)
qed

text \<open>
  On a screen that has room for the taskbar, and when memory suffices, the strip kept for the
  taskbar is the part under it of the wallpaper's lower edge blurred by three box filters in each
  direction, pixel by pixel; no access leaves a buffer.
\<close>
lemma backdrop_is_blurred_wallpaper:
  assumes "rect_laws U" and "bgPixels b = Some r" and "holds (bgWidth b) (bgHeight b) g r"
    and "24 < bgWidth b" and "64 \<le> bgHeight b" and "\<And>n. allocates P n"
  shows "\<exists>out. blur_bar_backdrop U P b =
      Inr (b\<lparr>barBlur := Some out, barBlurRect := taskbar_bar_rect (bgWidth b) (bgHeight b)\<rparr>) \<and>
    (let t = backdrop_top (bgHeight b) in
     holds (bgWidth b - 24) 52 (\<lambda>x y. (blurred_once (bgWidth b) (bgHeight b - t) ^^ 3)
       (lower_part (bgHeight b) g) (12 + x) (bgHeight b - 64 - t + y)) out)"
proof -
  let ?w = "bgWidth b" and ?h = "bgHeight b" and ?t = "backdrop_top (bgHeight b)"
  let ?f = "(blurred_once ?w (?h - ?t) ^^ 3) (lower_part ?h g)"
  have h: "0 < ?h" using assms(5) by simp
  obtain work where work: "seqE (copy_words r 0 ?t (new_raster ?w (?h - ?t))) blur_passes = Inr work"
    "holds ?w (?h - ?t) ?f work"
    using blurred_area [OF assms(3,4) h] by blast
  have p: "rpitch work = ?w" using work(2) by (simp add: holds_def shape_def)
  have "\<exists>out. copy_words work 12 (?h - 64 - ?t) (new_raster (?w - 24) 52) = Inr out \<and>
      holds (?w - 24) 52 (\<lambda>x y. ?f (12 + x) (?h - 64 - ?t + y)) out"
  proof (rule copy_words_holds [OF shape_new_raster])
    fix i j
    assume "on_screen (?w - 24) 52 i j"
    then have "on_screen ?w (?h - ?t) (12 + i) (?h - 64 - ?t + j)"
      using assms(5) by (auto simp: on_screen_def backdrop_top_def)
    from holds_load [OF work(2) this]
    show "load_px work ((?h - 64 - ?t + j) * rpitch work + (12 + i)) = Inr (?f (12 + i) (?h - 64 - ?t + j))"
      by (simp add: p)
  qed
  with work(1) show ?thesis
    unfolding blur_bar_steps [OF assms(1,2,4) h assms(6)] Let_def by auto
qed

text \<open>
  On a screen less than 64 pixels high the bar starts above the screen, and the copy out of the
  blurred buffer starts in front of it.
\<close>

theorem low_screen_reads_outside:
  assumes "rect_laws U" and "bgPixels b = Some r" and "holds (bgWidth b) (bgHeight b) g r"
    and "24 < bgWidth b" and "0 < bgHeight b" and "bgHeight b < 64" and "\<And>n. allocates P n"
  shows "blur_bar_backdrop U P b = Inl OutsidePixels"
proof -
  let ?w = "bgWidth b" and ?h = "bgHeight b" and ?t = "backdrop_top (bgHeight b)"
  have t: "?t = 0" using assms(6) by (simp add: backdrop_top_def)
  obtain work where work: "seqE (copy_words r 0 ?t (new_raster ?w (?h - ?t))) blur_passes = Inr work"
    and p: "rpitch work = ?w"
    using blurred_area [OF assms(3,4,5)] by (auto simp: holds_def shape_def)
  have "(?h - 64) * ?w \<le> - 1 * ?w" using assms(4,6) by (intro mult_right_mono) auto
  then have bad: "load_px work ((?h - 64) * ?w + 12) = Inl OutsidePixels"
    using assms(4) by (simp add: load_px_def)
  have "[0..<nat 52] = 0 # [1..<52]" "[0..<nat (?w - 24)] = 0 # [1..<nat (?w - 24)]"
    using assms(4) by (simp_all add: upt_conv_Cons)
  then have "copy_words work 12 (?h - 64 - ?t) (new_raster (?w - 24) 52) = Inl OutsidePixels"
    using bad p t by (simp add: copy_words_def new_raster_def)
  with work show ?thesis
    unfolding blur_bar_steps [OF assms(1,2,4,5,7)] by simp
qed

end
