(* ===== verification/Compositor_Scaling.thy ===== *)
theory Compositor_Scaling
  imports Compositor_Blur Compositor_Taskbar
begin

text \<open>
  Scaling in \<open>src/graphics-compositor/src/background.cpp\<close>: the image is fitted into the screen with
  its proportions, each pixel of the screen under it shows the nearest pixel of the image over
  the gradient, and the bars it leaves show the gradient alone.
\<close>

section \<open>Sizes\<close>

lemma quotient_times: "0 < (d :: int) \<Longrightarrow> a div d * d \<le> a"
  using div_mult_mod_eq [of a d] pos_mod_sign [of d a] by linarith

lemma quotient_index:
  assumes "0 \<le> y" and "y < d" and "0 < (n :: int)"
  shows "0 \<le> y * n div d" and "y * n div d < n"
proof -
  show "0 \<le> y * n div d" using assms by (simp add: pos_imp_zdiv_nonneg_iff)
  have "y * n div d * d \<le> y * n" using assms by (intro quotient_times) simp
  also have "\<dots> < d * n" using assms by simp
  finally show "y * n div d < n" using assms by (simp add: mult.commute [of d n])
qed

text \<open>An image as the library gives it, of a size whose quotients fit into 32 bits.\<close>

definition loaded_image :: "int \<Rightarrow> int \<Rightarrow> 'c image \<Rightarrow> bool" where
  "loaded_image w h img \<longleftrightarrow> 0 < imgWidth img \<and> 0 < imgHeight img \<and>
     length (imgPixels img) = nat (imgWidth img * imgHeight img) \<and>
     imgHeight img * w div imgWidth img < 4294967296 \<and> imgWidth img * h div imgHeight img < 4294967296"

lemma draw_size_fits:
  assumes "loaded_image w h img" and "0 < w" and "0 < h" and "draw_size w h (imgWidth img) (imgHeight img) = (dw, dh)"
  shows "0 \<le> dw \<and> dw \<le> w \<and> 0 \<le> dh \<and> dh \<le> h \<and> (dw = w \<or> dh = h)"
proof -
  let ?iw = "imgWidth img" and ?ih = "imgHeight img"
  have pos: "0 < ?iw" "0 < ?ih" using assms(1) by (simp_all add: loaded_image_def)
  have q: "0 \<le> ?ih * w div ?iw" "0 \<le> ?iw * h div ?ih"
    using pos assms(2,3) by (simp_all add: pos_imp_zdiv_nonneg_iff)
  have m: "(?ih * w div ?iw) mod 4294967296 = ?ih * w div ?iw" "(?iw * h div ?ih) mod 4294967296 = ?iw * h div ?ih"
    using assms(1) q by (simp_all add: loaded_image_def)
  show ?thesis
  proof (cases "h < ?ih * w div ?iw")
    case True
    have "h * ?iw < (?ih * w div ?iw) * ?iw" using True pos by simp
    also have "\<dots> \<le> ?ih * w" by (rule quotient_times [OF pos(1)])
    finally have "?iw * h < w * ?ih" by (simp add: mult.commute)
    then have "?iw * h div ?ih \<le> w"
      using pos zdiv_mono1 [of "?iw * h" "w * ?ih" ?ih] by simp
    with True q m assms(3,4) show ?thesis by (auto simp: draw_size_def Let_def)
  next
    case False
    with q m assms(2,4) show ?thesis by (auto simp: draw_size_def Let_def)
  qed
qed

section \<open>The pixels\<close>

definition nearest_pixel :: "'c image \<Rightarrow> int \<Rightarrow> int \<Rightarrow> int \<Rightarrow> int \<Rightarrow> 'c" where
  "nearest_pixel img dw dh x y =
     imgPixels img ! nat ((y * imgHeight img div dh) * imgWidth img + x * imgWidth img div dw)"

definition covered_by :: "'c paint_ops \<Rightarrow> 'c \<Rightarrow> 32 word \<Rightarrow> 32 word" where
  "covered_by P p w =
     (if alpha P p = 255 then to_word P (opaque P p)
      else to_word P (blend P (from_word P w) (opaque P p) (alpha P p)))"

text \<open>What the screen shows: the image at its place over the gradient.\<close>

definition fitted_image :: "'c paint_ops \<Rightarrow> 'c image \<Rightarrow> int \<Rightarrow> int \<Rightarrow> int \<Rightarrow> int \<Rightarrow> 32 word" where
  "fitted_image P img w h x y =
     (let (dw, dh) = draw_size w h (imgWidth img) (imgHeight img);
          u = x - (w - dw) div 2; v = y - (h - dh) div 2; back = gradient_words P w h (y * w + x)
      in if 0 \<le> u \<and> u < dw \<and> 0 \<le> v \<and> v < dh then covered_by P (nearest_pixel img dw dh u v) back else back)"

lemma nearest_in_image:
  assumes "loaded_image w h img" and "0 \<le> u" "u < dw" "0 \<le> v" "v < dh"
  shows "\<not> length (imgPixels img) \<le> nat ((v * imgHeight img div dh) * imgWidth img + u * imgWidth img div dw)"
proof -
  let ?iw = "imgWidth img" and ?ih = "imgHeight img"
  have pos: "0 < ?iw" "0 < ?ih" using assms(1) by (simp_all add: loaded_image_def)
  note x = quotient_index [OF assms(2,3) pos(1)] and y = quotient_index [OF assms(4,5) pos(2)]
  have "(v * ?ih div dh + 1) * ?iw \<le> ?ih * ?iw" using y(2) pos by (intro mult_right_mono) auto
  then have "(v * ?ih div dh) * ?iw + u * ?iw div dw < ?iw * ?ih" using x(2) by (simp add: algebra_simps)
  moreover have "0 \<le> (v * ?ih div dh) * ?iw + u * ?iw div dw" using x(1) y(1) pos by simp
  ultimately show ?thesis using assms(1) by (simp add: loaded_image_def)
qed

lemma scaled_texel_paints:
  assumes "loaded_image w h img" and "0 \<le> u" "u < dw" "0 \<le> v" "v < dh"
    and "shape d = (w, h, w)" and "on_screen w h (ox + u) (oy + v)" and "paints f Q d e"
    and "(ox + u, oy + v) \<notin> Q"
    and "f (ox + u) (oy + v) = covered_by P (nearest_pixel img dw dh u v) (at_px d (ox + u) (oy + v))"
  shows "\<exists>e'. scaled_texel P img dw dh ox oy v u e = Inr e' \<and> paints f (insert (ox + u, oy + v) Q) d e'"
proof -
  let ?p = "nearest_pixel img dw dh u v" and ?x = "ox + u" and ?y = "oy + v"
  have shape: "shape e = (w, h, w)" using assms(6,8) by (simp add: paints_def)
  then have w: "rwidth e = w" "rpitch e = w" by (simp_all add: shape_def)
  have r: "on_raster e ?x ?y" "on_raster d ?x ?y"
    using assms(6,7) shape by (simp_all add: on_raster_screen)
  then have old: "load_px e (?y * w + ?x) = Inr (at_px d ?x ?y)"
    using load_px_at [OF r(1)] assms(8,9) w by (simp add: paints_def)
  obtain e' where e': "store_px (?y * w + ?x) (f ?x ?y) e = Inr e'" "paints (\<lambda>_ _. f ?x ?y) {(?x, ?y)} e e'"
    using store_px_paints [OF r(1)] w by metis
  have "paints f {(?x, ?y)} e e'" using e'(2) by (rule paints_cong) auto
  from paints_trans [OF assms(8) this] have "paints f (insert (?x, ?y) Q) d e'" by simp
  moreover have "scaled_texel P img dw dh ox oy v u e = store_px (?y * w + ?x) (covered_by P ?p (at_px d ?x ?y)) e"
    using nearest_in_image [OF assms(1-5)] old w
    by (simp add: scaled_texel_def Let_def nearest_pixel_def covered_by_def add.assoc)
  ultimately show ?thesis using e'(1) assms(10) by auto
qed

text \<open>
  Scaling an image to the wallpaper succeeds without leaving the image or the screen, and
  the screen then shows the image fitted into it: the picture keeps its proportions and touches two
  opposite edges, each of its pixels is the nearest of the image over the gradient, and the rest
  is the gradient.
\<close>
lemma wallpaper_fitted:
  assumes "loaded_image w h img" and "shape r = (w, h, w)" and "0 < w" and "0 < h"
  shows "(\<exists>r'. scale_background_image P img r = Inr r' \<and> holds w h (fitted_image P img w h) r') \<and>
    (\<exists>dw dh. draw_size w h (imgWidth img) (imgHeight img) = (dw, dh) \<and> 0 \<le> dw \<and> dw \<le> w \<and>
      0 \<le> dh \<and> dh \<le> h \<and> (dw = w \<or> dh = h))"
proof -
  obtain dw dh where size: "draw_size w h (imgWidth img) (imgHeight img) = (dw, dh)" by force
  note fits = draw_size_fits [OF assms(1,3,4) size]
  let ?ox = "(w - dw) div 2" and ?oy = "(h - dh) div 2"
  let ?r = "r\<lparr>px := gradient_words P w h\<rparr>" and ?f = "fitted_image P img w h"
  let ?rows = "\<lambda>k. {(x, y). ?ox \<le> x \<and> x < ?ox + dw \<and> ?oy \<le> y \<and> y < ?oy + int k}"
  let ?part = "\<lambda>k j. ?rows k \<union> {(x, y). ?ox \<le> x \<and> x < ?ox + int j \<and> y = ?oy + int k}"
  have shape: "shape ?r = (w, h, w)" using assms(2) by (simp add: shape_def)
  have wh: "rwidth r = w" "rheight r = h" "rpitch r = w" using assms(2) by (simp_all add: shape_def)
  have in_rows: "(x, y) \<in> ?rows (nat dh) \<longleftrightarrow> 0 \<le> x - ?ox \<and> x - ?ox < dw \<and> 0 \<le> y - ?oy \<and> y - ?oy < dh" for x y
    using fits by auto
  have plain: "at_px ?r x y = gradient_words P w h (y * w + x)" for x y by (simp add: at_px_def wh)
  have texel: "\<exists>e'. scaled_texel P img dw dh ?ox ?oy (int k) (int j) e = Inr e' \<and> paints ?f (?part k (Suc j)) ?r e'"
    if "k < nat dh" "j < nat dw" "paints ?f (?part k j) ?r e" for k j e
  proof -
    have "insert (?ox + int j, ?oy + int k) (?part k j) = ?part k (Suc j)" by auto
    moreover have "on_screen w h (?ox + int j) (?oy + int k)"
      using that(1,2) fits by (auto simp: on_screen_def)
    moreover have "?f (?ox + int j) (?oy + int k) =
        covered_by P (nearest_pixel img dw dh (int j) (int k)) (at_px ?r (?ox + int j) (?oy + int k))"
      using that(1,2) by (simp add: fitted_image_def size plain Let_def zless_nat_eq_int_zless)
    ultimately show ?thesis
      using scaled_texel_paints [OF assms(1), of "int j" dw "int k" dh ?r ?ox ?oy ?f "?part k j" e P] that shape by auto
  qed
  have row: "\<exists>e'. foreach [0..<nat dw] (\<lambda>j. scaled_texel P img dw dh ?ox ?oy (int k) (int j)) e = Inr e' \<and>
      paints ?f (?rows (Suc k)) ?r e'"
    if "k < nat dh" "paints ?f (?rows k) ?r e" for k e
  proof -
    have "?part k 0 = ?rows k" by auto
    moreover have "?part k (nat dw) = ?rows (Suc k)" using fits by auto
    ultimately show ?thesis
      using foreach_upt_rule [of 0 "nat dw" "\<lambda>j e. paints ?f (?part k j) ?r e" e,
          OF _ _ texel [OF that(1)]] that(2) by simp
  qed
  have all: "\<exists>e. foreach [0..<nat dh] (\<lambda>k. foreach [0..<nat dw] (\<lambda>j.
      scaled_texel P img dw dh ?ox ?oy (int k) (int j))) ?r = Inr e \<and> paints ?f (?rows (nat dh)) ?r e"
  proof (rule foreach_upt_rule [where I = "\<lambda>k e. paints ?f (?rows k) ?r e"])
    have "?rows 0 = {}" by auto
    then show "paints ?f (?rows 0) ?r ?r" by (simp only: paints_refl)
  qed (use row in simp_all)
  have result: "holds w h ?f e" if "paints ?f (?rows (nat dh)) ?r e" for e
    unfolding holds_def
  proof (intro conjI allI impI)
    show "shape e = (w, h, w)" using that shape by (simp add: paints_def)
    fix x y
    assume "on_screen w h x y"
    then have "at_px e x y = (if (x, y) \<in> ?rows (nat dh) then ?f x y else at_px ?r x y)"
      using that on_raster_screen [OF shape] by (simp only: paints_def)
    moreover have "?f x y = at_px ?r x y" if "(x, y) \<notin> ?rows (nat dh)"
    proof -
      have "\<not> (0 \<le> x - ?ox \<and> x - ?ox < dw \<and> 0 \<le> y - ?oy \<and> y - ?oy < dh)" using that in_rows by blast
      then show ?thesis unfolding fitted_image_def size Let_def prod.case plain by (simp only: if_False)
    qed
    ultimately show "at_px e x y = ?f x y" by presburger
  qed
  have scale: "scale_background_image P img r = (if dw = 0 \<or> dh = 0 then Inr ?r
      else foreach [0..<nat dh] (\<lambda>k. foreach [0..<nat dw] (\<lambda>j. scaled_texel P img dw dh ?ox ?oy (int k) (int j))) ?r)"
    by (simp add: scale_background_image_def wh size Let_def)
  have "\<exists>r'. scale_background_image P img r = Inr r' \<and> holds w h ?f r'"
  proof (cases "dw = 0 \<or> dh = 0")
    case True
    then have "?rows (nat dh) = {}" by auto
    then have "holds w h ?f ?r" by (intro result) (simp only: paints_refl)
    with True show ?thesis by (simp add: scale)
  next
    case False
    from all obtain e where e: "foreach [0..<nat dh] (\<lambda>k. foreach [0..<nat dw] (\<lambda>j.
        scaled_texel P img dw dh ?ox ?oy (int k) (int j))) ?r = Inr e" "paints ?f (?rows (nat dh)) ?r e" by blast
    have "scale_background_image P img r = Inr e" using False e(1) scale by (simp only: if_False)
    with result [OF e(2)] show ?thesis by blast
  qed
  with size fits show ?thesis by blast
qed

text \<open>An image of two pixels, the second half transparent, for a small screen.\<close>

definition mix_colors :: "32 word paint_ops" where
  "mix_colors = \<lparr>from_word = id, to_word = id, alpha = (\<lambda>c. unat (drop_bit 24 c)),
     blend = (\<lambda>a b n. if n < 128 then a else b), gradient_words = (\<lambda>w h i. word_of_int i),
     opaque = (\<lambda>c. c), load_image = (\<lambda>s. if s = ''/a.png'' then Some \<lparr>imgWidth = 2, imgHeight = 1, imgPixels = [0xFF000007, 0x7F000009]\<rparr> else None), allocates = (\<lambda>n. True)\<rparr>"

definition no_wallpaper :: desktop_background where
  "no_wallpaper = \<lparr>bgPixels = None, bgWidth = 0, bgHeight = 0, bgReady = False, bgPath = [],
     barBlur = None, barBlurRect = rect_at 0 0 0 0\<rparr>"

section \<open>Loading a wallpaper\<close>

text \<open>
  C10: Setting a wallpaper whose image loads, on a screen with room for the taskbar and with memory,
  succeeds: the wallpaper then shows the image fitted into the screen, the strip for the taskbar
  is the blurred lower edge of exactly this picture, and both are ready to be drawn.
\<close>
theorem loaded_wallpaper_shown:
  assumes "rect_laws U" and "path \<noteq> []" and "load_image P path = Some img" and "loaded_image w h img"
    and "24 < w" and "64 \<le> h" and "\<And>n. allocates P n"
    and "\<forall>r. bgPixels b = Some r \<longrightarrow> shape r = (bgWidth b, bgHeight b, bgWidth b)"
  shows "\<exists>b' out. load_background U P w h path b = Inr (True, b') \<and> bgReady b' \<and> barBlur b' = Some out \<and>
    barBlurRect b' = taskbar_bar_rect w h \<and>
    (\<forall>x y. on_screen w h x y \<longrightarrow> draw_background P w h b' x y = fitted_image P img w h x y) \<and>
    (let t = backdrop_top h in
     holds (w - 24) 52 (\<lambda>x y. (blurred_once w (h - t) ^^ 3)
       (lower_part h (fitted_image P img w h)) (12 + x) (h - 64 - t + y)) out)"
proof -
  have "\<exists>b1 r. ensure_background_storage P w h b = (True, b1) \<and> bgPixels b1 = Some r \<and> bgWidth b1 = w \<and>
      bgHeight b1 = h \<and> shape r = (w, h, w)"
  proof (cases "bgPixels b \<noteq> None \<and> bgWidth b = w \<and> bgHeight b = h")
    case True
    then show ?thesis using assms(5,6,8) by (auto simp: ensure_background_storage_def)
  next
    case False
    then have "ensure_background_storage P w h b = (True, b\<lparr>bgPixels := Some (new_raster w h), bgWidth := w,
        bgHeight := h, bgReady := False, bgPath := []\<rparr>)"
      using assms(5-7) unfolding ensure_background_storage_def by (simp only: if_False) auto
    then show ?thesis by simp
  qed
  then obtain b1 r where b1: "ensure_background_storage P w h b = (True, b1)" "bgPixels b1 = Some r"
    "bgWidth b1 = w" "bgHeight b1 = h" and r: "shape r = (w, h, w)" by blast
  obtain r' where r': "scale_background_image P img r = Inr r'" "holds w h (fitted_image P img w h) r'"
    using wallpaper_fitted [OF assms(4) r, of P] assms(5,6) by auto
  let ?b = "b1\<lparr>bgPixels := Some r', bgPath := bounded_copy 192 path, bgReady := True\<rparr>"
  have wh: "bgWidth ?b = w" "bgHeight ?b = h" "bgPixels ?b = Some r'" using b1 by simp_all
  obtain out where out: "blur_bar_backdrop U P ?b = Inr (?b\<lparr>barBlur := Some out, barBlurRect := taskbar_bar_rect w h\<rparr>)"
    "holds (w - 24) 52 (\<lambda>x y. (blurred_once w (h - backdrop_top h) ^^ 3)
       (lower_part h (fitted_image P img w h)) (12 + x) (h - 64 - backdrop_top h + y)) out"
    using backdrop_is_blurred_wallpaper [OF assms(1) wh(3), of "fitted_image P img w h" P] r'(2) assms(5-7)
    unfolding wh Let_def by auto
  have "load_background U P w h path b = Inr (True, ?b\<lparr>barBlur := Some out, barBlurRect := taskbar_bar_rect w h\<rparr>)"
    using assms(2,3) b1(1,2) r'(1) out(1) by (simp add: load_background_def)
  with out(2) r'(2) b1 show ?thesis
    by (auto simp: draw_background_def holds_def Let_def)
qed

theorem loaded_wallpaper_shown_witness:
  "\<exists>b'. load_background plain_rects mix_colors 100 80 ''/a.png'' no_wallpaper = Inr (True, b') \<and>
    draw_background mix_colors 100 80 b' 0 15 = 0xFF000007 \<and> draw_background mix_colors 100 80 b' 99 15 = 1599 \<and>
    draw_background mix_colors 100 80 b' 1 2 = 201"
proof -
  let ?img = "\<lparr>imgWidth = 2, imgHeight = 1, imgPixels = [0xFF000007, 0x7F000009 :: 32 word]\<rparr>"
  have "loaded_image 100 80 ?img" by (simp add: loaded_image_def)
  then obtain b' where b': "load_background plain_rects mix_colors 100 80 ''/a.png'' no_wallpaper = Inr (True, b')"
    "\<And>x y. on_screen 100 80 x y \<Longrightarrow> draw_background mix_colors 100 80 b' x y = fitted_image mix_colors ?img 100 80 x y"
    using loaded_wallpaper_shown [OF plain_rects_laws, of "''/a.png''" mix_colors ?img 100 80 no_wallpaper]
    by (auto simp: mix_colors_def no_wallpaper_def)
  have "fitted_image mix_colors ?img 100 80 0 15 = 0xFF000007" "fitted_image mix_colors ?img 100 80 99 15 = 1599"
    "fitted_image mix_colors ?img 100 80 1 2 = 201"
    by (simp_all add: fitted_image_def draw_size_def nearest_pixel_def covered_by_def mix_colors_def Let_def)
  with b' show ?thesis by (auto simp: on_screen_def)
qed

end
