(* ===== verification/Compositor_Drawing.thy ===== *)
theory Compositor_Drawing
  imports Compositor_Wallpaper Compositor_Surfaces
begin

text \<open>
  What the compositor draws: the frame, title bar and contents of a window
  (\<open>src/graphics-compositor/src/surface.cpp\<close>), the taskbar and the scene (\<open>scene.cpp\<close>). A drawing
  routine is the list of the operations it calls on the canvas of the user interface library, which
  is not in the repository. The library's rectangles, the table of the shadow's alpha (floating
  point), the time as text and which icons were loaded are parameters.
\<close>

section \<open>Canvas operations\<close>

datatype theme_color =
    WindowColor | TextColor | TextUnfocused | TextDim | Danger | FaceHover | BorderColor | Accent | AccentText
  | AccentLight | TooltipColor | TooltipOpaque

text \<open>\<open>Rgba rgb a\<close> is \<open>ui::rgba\<close>; the others are the theme's, \<open>TooltipOpaque\<close> that of the tooltip with full alpha.\<close>

datatype paint = Theme theme_color | Rgba nat nat

datatype font = FontMedium | FontSmall | StartFont

datatype alignment = LeftMiddle | CenterMiddle | RightMiddle

text \<open>The icons: \<open>WindowControlAssets\<close> and \<open>TaskbarAssets\<close>.\<close>

datatype icon = ControlGlyph nat nat | TitleApp nat nat | TileApp nat nat | WifiIcon | WifiOffIcon | VolumeOffIcon

datatype canvas_op =
    FillOp rect paint
  | RoundedOp rect int paint
  | FrameOp rect paint int int
  | ImageOp icon int int
  | TextOp rect string font paint alignment
  | CopyOp "int \<Rightarrow> 32 word" int rect int int bool
  | BlendOp int int paint nat
  | GradientOp rect

record date =
  year :: nat
  month :: nat
  day :: nat
  hour :: nat
  minute :: nat
  second :: nat

record painter =
  pui :: ui_ops
  inset :: "rect \<Rightarrow> int \<Rightarrow> rect"
  bottom_edge :: "rect \<Rightarrow> int"
  iconLoaded :: "icon \<Rightarrow> bool"
  startFontLoaded :: bool
  shadowAlpha :: "bool \<Rightarrow> nat \<Rightarrow> nat \<Rightarrow> nat"
  timeString :: "date \<Rightarrow> string"

text \<open>
  What a scene is drawn from: the windows, the surfaces with the words at an address, the wallpaper,
  and the globals \<open>gNetworkOnline\<close>, \<open>gTaskbarHover\<close> and \<open>gWindowHover\<close> with the time.
\<close>

record view =
  vWindows :: "window_info list"
  vCache :: "cache_entry list"
  vMemory :: "nat \<Rightarrow> int \<Rightarrow> 32 word"
  vBackground :: desktop_background
  vOnline :: bool
  vTileHover :: int
  vHover :: "nat \<times> int"
  vNow :: date

definition kControlGlyphSize :: int where "kControlGlyphSize = 12"
definition kTitleIconSize :: int where "kTitleIconSize = 16"
definition kTitleIconX :: int where "kTitleIconX = 14"
definition kTitleTextX :: int where "kTitleTextX = 38"
definition kShadowBlur :: int where "kShadowBlur = 24"
definition kShadowOffsetY :: int where "kShadowOffsetY = 10"
definition kShadowReach :: nat where "kShadowReach = nat (kShadowBlur + kWindowCornerRadius + 1)"
definition kTitleIconCount :: nat where "kTitleIconCount = 6"
definition kTaskbarRadius :: int where "kTaskbarRadius = 14"
definition kStartRadius :: int where "kStartRadius = 10"
definition kTileRadius :: int where "kTileRadius = 10"
definition kTileIconSize :: int where "kTileIconSize = 22"
definition kTrayIconSize :: int where "kTrayIconSize = 18"

text \<open>The size an icon was loaded at, \<open>load_line_icon\<close> of \<open>assets.cpp\<close>.\<close>

definition icon_size :: "icon \<Rightarrow> int" where
  "icon_size i =
     (case i of ControlGlyph g c \<Rightarrow> kControlGlyphSize | TitleApp a c \<Rightarrow> kTitleIconSize | TileApp a c \<Rightarrow> kTileIconSize
      | _ \<Rightarrow> kTrayIconSize)"

text \<open>
  \<open>while (left < end && !ok(left)) ++left\<close> over \<open>n\<close> places, and
  \<open>while (right > lo && !ok(right - 1)) --right\<close> from \<open>lo + n\<close>.
\<close>

fun skip_left :: "(int \<Rightarrow> bool) \<Rightarrow> int \<Rightarrow> nat \<Rightarrow> int" where
  "skip_left ok l 0 = l"
| "skip_left ok l (Suc n) = (if ok l then l else skip_left ok (l + 1) n)"

fun skip_right :: "(int \<Rightarrow> bool) \<Rightarrow> int \<Rightarrow> nat \<Rightarrow> int" where
  "skip_right ok lo 0 = lo"
| "skip_right ok lo (Suc n) = (if ok (lo + int n) then lo + int (Suc n) else skip_right ok lo n)"

text \<open>The rows of a rectangle, \<open>for (y = r.y; y < r.bottom(); ++y)\<close>.\<close>

definition row_range :: "painter \<Rightarrow> rect \<Rightarrow> int list" where
  "row_range P r = map (\<lambda>k. ry r + int k) [0..<nat (bottom_edge P r - ry r)]"

section \<open>Windows\<close>

definition title_icon_index :: "string \<Rightarrow> nat" where
  "title_icon_index t =
     (case find (\<lambda>i. t = [''Terminal'', ''File Browser'', ''Background Switcher'', ''Cube'', ''NetSurf''] ! i)
        [0..<kTitleIconCount - 1] of Some i \<Rightarrow> i | None \<Rightarrow> kTitleIconCount - 1)"

text \<open>The straight edges of the shadow around \<open>frame\<close>, then the pixels of its corners.\<close>

definition shadow_edges :: "painter \<Rightarrow> rect \<Rightarrow> bool \<Rightarrow> rect \<Rightarrow> canvas_op list" where
  "shadow_edges P frame focused s =
     (let left = rx s + kWindowCornerRadius; right = right_edge (pui P) s - 1 - kWindowCornerRadius;
          upper = ry s + kWindowCornerRadius; lower = bottom_edge P s - 1 - kWindowCornerRadius
      in concat (map (\<lambda>k. let d = int k; a = shadowAlpha P focused k 0 in
           [FillOp (rect_at (left - d) upper 1 (lower - upper + 1)) (Rgba 0 (if left - d < rx frame then a else 0)),
            FillOp (rect_at (right + d) upper 1 (lower - upper + 1))
              (Rgba 0 (if right_edge (pui P) frame \<le> right + d then a else 0))] @
           (if upper - d < ry frame then [FillOp (rect_at left (upper - d) (right - left + 1) 1) (Rgba 0 a)] else []) @
           (if bottom_edge P frame \<le> lower + d
            then [FillOp (rect_at left (lower + d) (right - left + 1) 1) (Rgba 0 a)] else []))
         (takeWhile (\<lambda>k. shadowAlpha P focused k 0 \<noteq> 0) [1..<kShadowReach])))"

definition corner_pixel :: "painter \<Rightarrow> rect \<Rightarrow> bool \<Rightarrow> int \<Rightarrow> int \<Rightarrow> nat \<Rightarrow> nat \<Rightarrow> canvas_op list" where
  "corner_pixel P frame focused x y dx dy =
     (if rx frame \<le> x \<and> x < right_edge (pui P) frame \<and> ry frame \<le> y \<and> y < bottom_edge P frame \<and>
         rounded (pui P) frame kWindowCornerRadius x y then []
      else if shadowAlpha P focused dx dy = 0 then []
      else [BlendOp x y (Rgba 0 255) (shadowAlpha P focused dx dy)])"

definition shadow_corner ::
  "painter \<Rightarrow> rect \<Rightarrow> rect \<Rightarrow> bool \<Rightarrow> int \<Rightarrow> int \<Rightarrow> int \<Rightarrow> int \<Rightarrow> canvas_op list" where
  "shadow_corner P clip frame focused cornerX stepX cornerY stepY =
     concat (map (\<lambda>dy. let y = cornerY + stepY * int dy
       in if y < ry clip \<or> bottom_edge P clip \<le> y then []
          else concat (map (\<lambda>dx. let x = cornerX + stepX * int dx
            in if x < rx clip \<or> right_edge (pui P) clip \<le> x then [] else corner_pixel P frame focused x y dx dy)
          [1..<kShadowReach]))
       [1..<kShadowReach])"

definition shadow_rect :: "rect \<Rightarrow> rect" where
  "shadow_rect s = rect_at (rx s - kShadowBlur) (ry s - kShadowBlur) (rw s + 2 * kShadowBlur) (rh s + 2 * kShadowBlur)"

definition draw_window_shadow :: "painter \<Rightarrow> rect \<Rightarrow> rect \<Rightarrow> bool \<Rightarrow> canvas_op list" where
  "draw_window_shadow P clip frame focused =
     (let s = offset (pui P) frame 0 kShadowOffsetY
      in if empty_rect (rects (pui P)) (intersect (rects (pui P)) (shadow_rect s) clip) then []
         else let left = rx s + kWindowCornerRadius; right = right_edge (pui P) s - 1 - kWindowCornerRadius;
                  upper = ry s + kWindowCornerRadius; lower = bottom_edge P s - 1 - kWindowCornerRadius
              in shadow_edges P frame focused s @
                 shadow_corner P clip frame focused left (-1) upper (-1) @
                 shadow_corner P clip frame focused right 1 upper (-1) @
                 shadow_corner P clip frame focused left (-1) lower 1 @
                 shadow_corner P clip frame focused right 1 lower 1)"

definition fill_close_hover :: "painter \<Rightarrow> rect \<Rightarrow> rect \<Rightarrow> rect \<Rightarrow> int \<Rightarrow> paint \<Rightarrow> canvas_op list" where
  "fill_close_hover P clip button body radius color =
     (let area = intersect (rects (pui P)) button clip
      in concat (map (\<lambda>y.
           let right = skip_right (\<lambda>x. rounded (pui P) body radius x y) (rx area)
                 (nat (right_edge (pui P) area - rx area))
           in if rx area < right then [FillOp (rect_at (rx area) y (right - rx area) 1) color] else [])
         (row_range P area)))"

definition draw_control :: "painter \<Rightarrow> view \<Rightarrow> rect \<Rightarrow> window_info \<Rightarrow> nat \<Rightarrow> canvas_op list" where
  "draw_control P V clip w control =
     (let tint = (if Focused \<in> wstate w then 0 else 1);
          body = inset P (window_frame_rect w) kBorder;
          button = window_control_rect w (int control);
          hovered = (fst (vHover V) = wid w \<and> snd (vHover V) = int control);
          (fills, glyphTint) =
            (if hovered \<and> control = 0
             then (fill_close_hover P clip button body (kWindowCornerRadius - kBorder) (Theme Danger), 2)
             else if hovered then ([FillOp button (Theme FaceHover)], 0) else ([], tint));
          glyph = (if control = 1 \<and> Maximized \<in> wstate w then 3 else control)
      in fills @
         (if iconLoaded P (ControlGlyph glyph glyphTint)
          then [ImageOp (ControlGlyph glyph glyphTint) (rx button + (rw button - kControlGlyphSize) sdiv 2)
                  (ry button + (rh button - kControlGlyphSize) sdiv 2)] else []))"

definition draw_window_title :: "painter \<Rightarrow> view \<Rightarrow> rect \<Rightarrow> window_info \<Rightarrow> canvas_op list" where
  "draw_window_title P V clip w =
     (let frame = window_frame_rect w; tint = (if Focused \<in> wstate w then 0 else 1);
          i = title_icon_index (title w); controlsLeft = rx (window_control_rect w 2)
      in (if iconLoaded P (TitleApp i tint)
          then [ImageOp (TitleApp i tint) (rx frame + kTitleIconX) (ry frame + (kTitleBarHeight - kTitleIconSize) sdiv 2)]
          else []) @
         [TextOp (rect_at (rx frame + kTitleTextX) (ry frame) (controlsLeft - rx frame - kTitleTextX - 8) kTitleBarHeight)
            (if title w \<noteq> [] then title w else ''Window'') FontMedium
            (Theme (if Focused \<in> wstate w then TextColor else TextUnfocused)) LeftMiddle] @
         concat (map (draw_control P V clip w) [0..<3]))"

definition draw_window_frame :: "painter \<Rightarrow> view \<Rightarrow> rect \<Rightarrow> window_info \<Rightarrow> canvas_op list" where
  "draw_window_frame P V clip w =
     (let focused = (Focused \<in> wstate w); frame = window_frame_rect w
      in draw_window_shadow P clip frame focused @
         [RoundedOp frame kWindowCornerRadius (Theme WindowColor),
          FrameOp frame (Rgba 0xffffff (if focused then 26 else 15)) 1 kWindowCornerRadius] @
         draw_window_title P V clip w)"

text \<open>
  The contents: whole rows above the rounded corners, cut rows beside them. \<open>None\<close> is the null
  pointer for a surface that is not in the cache.
\<close>

definition cut_row :: "painter \<Rightarrow> rect \<Rightarrow> (int \<Rightarrow> 32 word) \<Rightarrow> int \<Rightarrow> int \<Rightarrow> int \<Rightarrow> int \<Rightarrow> int \<Rightarrow> canvas_op list" where
  "cut_row P body words pitch copyWidth destX destY row =
     (let y = destY + row; ok = (\<lambda>x. rounded (pui P) body (kWindowCornerRadius - kBorder) (destX + x) y);
          left = skip_left ok 0 (nat copyWidth); right = skip_right ok left (nat (copyWidth - left))
      in if left < right then [CopyOp words pitch (rect_at left row (right - left) 1) (destX + left) y True] else [])"

definition blit_rows ::
  "painter \<Rightarrow> rect \<Rightarrow> (int \<Rightarrow> 32 word) \<Rightarrow> int \<Rightarrow> int \<Rightarrow> int \<Rightarrow> int \<Rightarrow> int \<Rightarrow> int \<Rightarrow> canvas_op list" where
  "blit_rows P body words pitch copyWidth copyHeight destX destY bandRows =
     (if copyHeight \<le> bandRows
      then [CopyOp words pitch (rect_at 0 0 copyWidth copyHeight) destX destY True]
      else (if 0 < bandRows then [CopyOp words pitch (rect_at 0 0 copyWidth bandRows) destX destY True] else []) @
        concat (map (\<lambda>k. cut_row P body words pitch copyWidth destX destY (max bandRows 0 + int k))
          [0..<nat (copyHeight - max bandRows 0)]))"

definition blit_window_surface :: "painter \<Rightarrow> view \<Rightarrow> window_info \<Rightarrow> cache_entry option \<Rightarrow> canvas_op list" where
  "blit_window_surface P V w found =
     (case found of
        None \<Rightarrow> []
      | Some e \<Rightarrow>
          if \<not> valid e \<or> saddress (einfo e) = 0 then []
          else let destX = wx w + kBorder; destY = wy w + kTitleBarHeight; innerRadius = kWindowCornerRadius - kBorder;
                   body = rect_at (wx w + kBorder) (wy w + kBorder) (wwidth w) (frame_height w - kBorder * 2);
                   bandStart = wy w + frame_height w - kBorder - innerRadius;
                   pitch = int_of_u32 (if 4 \<le> spitch (einfo e) then spitch (einfo e) div 4 else swidth (einfo e));
                   copyWidth = min (int_of_u32 (swidth (einfo e))) (wwidth w);
                   copyHeight = min (int_of_u32 (sheight (einfo e))) (wheight w)
               in if copyWidth \<le> 0 \<or> copyHeight \<le> 0 then []
                  else blit_rows P body (vMemory V (saddress (einfo e))) pitch copyWidth copyHeight destX destY
                         (bandStart - destY))"

section \<open>The taskbar\<close>

definition month_name :: "nat \<Rightarrow> string" where
  "month_name m =
     (if 1 \<le> m \<and> m \<le> 12
      then [''Jan'', ''Feb'', ''Mar'', ''Apr'', ''May'', ''Jun'', ''Jul'', ''Aug'', ''Sep'', ''Oct'', ''Nov'', ''Dec''] ! (m - 1)
      else [])"

definition format_date :: "date \<Rightarrow> nat \<Rightarrow> string" where
  "format_date d capacity =
     bounded_copy capacity
       ((if 10 \<le> day d then [digit_char (day d div 10)] else []) @ [digit_char (day d mod 10)] @ '' '' @
        month_name (month d) @ '' '' @ map (\<lambda>k. digit_char (year d div 10 ^ k mod 10)) [3, 2, 1, 0])"

definition same_bar :: "rect \<Rightarrow> rect \<Rightarrow> bool" where
  "same_bar r b \<longleftrightarrow> rx r = rx b \<and> ry r = ry b \<and> rw r = rw b \<and> rh r = rh b"

definition draw_bar_backdrop :: "painter \<Rightarrow> rect \<Rightarrow> rect \<Rightarrow> desktop_background \<Rightarrow> canvas_op list" where
  "draw_bar_backdrop P clip b background =
     (case barBlur background of
        None \<Rightarrow> []
      | Some blur \<Rightarrow>
          if \<not> same_bar (barBlurRect background) b then []
          else let area = intersect (rects (pui P)) b clip
               in concat (map (\<lambda>y.
                    let ok = (\<lambda>x. rounded (pui P) b kTaskbarRadius x y);
                        left = skip_left ok (rx area) (nat (right_edge (pui P) area - rx area));
                        right = skip_right ok left (nat (right_edge (pui P) area - left))
                    in if left < right
                       then [CopyOp (px blur) (rw b) (rect_at (left - rx b) (y - ry b) (right - left) 1) left y False]
                       else []) (row_range P area)))"

text \<open>A tile: its highlight, its icon and the mark of a running app.\<close>

definition draw_tile :: "painter \<Rightarrow> view \<Rightarrow> nat \<Rightarrow> tile \<Rightarrow> canvas_op list" where
  "draw_tile P V i t =
     (let w = tile_window t (vWindows V);
          active = (case w of Some w \<Rightarrow> is_active w | None \<Rightarrow> False);
          r = trect t;
          icn = (if 0 \<le> tslot t then nat (tslot t)
                 else title_icon_index (case w of Some w \<Rightarrow> title w | None \<Rightarrow> []));
          img = TileApp icn (if w \<noteq> None then 0 else 1)
      in (if active then [RoundedOp r kTileRadius (Rgba 0xffffff 26)]
          else if int i = vTileHover V then [RoundedOp r kTileRadius (Rgba 0xffffff 15)] else []) @
         (if iconLoaded P img
          then [ImageOp img (rx r + (kTileSize - kTileIconSize) sdiv 2) (ry r + (kTileSize - kTileIconSize) sdiv 2 - 1)]
          else []) @
         (if active
          then [RoundedOp (rect_at (rx r + (kTileSize - 16) sdiv 2) (bottom_edge P r - 4) 16 3) 2 (Theme AccentLight)]
          else if w \<noteq> None
          then [RoundedOp (rect_at (rx r + (kTileSize - 6) sdiv 2) (bottom_edge P r - 4) 6 3) 2 (Theme TextDim)] else []))"

definition draw_tray :: "painter \<Rightarrow> view \<Rightarrow> rect \<Rightarrow> canvas_op list" where
  "draw_tray P V b =
     (let trayY = ry b + (kTaskbarHeight - kTrayIconSize) sdiv 2; right = right_edge (pui P) b;
          net = (if vOnline V then WifiIcon else WifiOffIcon)
      in (if iconLoaded P net then [ImageOp net (right - 168) trayY] else []) @
         (if iconLoaded P VolumeOffIcon then [ImageOp VolumeOffIcon (right - 138) trayY] else []) @
         [FillOp (rect_at (right - 108) (ry b + 14) 1 (kTaskbarHeight - 28)) (Theme BorderColor),
          TextOp (rect_at (right - 104) (ry b + 7) 88 20) (timeString P (vNow V)) FontMedium (Theme TextColor) RightMiddle,
          TextOp (rect_at (right - 104) (ry b + 26) 88 18) (format_date (vNow V) 24) FontSmall (Theme TextDim) RightMiddle])"

definition draw_tooltip :: "painter \<Rightarrow> view \<Rightarrow> taskbar \<Rightarrow> canvas_op list" where
  "draw_tooltip P V l =
     (if 0 \<le> vTileHover V \<and> vTileHover V < int (length (tiles l))
      then let t = tiles l ! nat (vTileHover V);
               tip = taskbar_tooltip_rect (pui P) l (vTileHover V) (vWindows V)
           in [RoundedOp tip 8 (Theme TooltipColor), FrameOp tip (Theme BorderColor) 1 8,
               TextOp tip (tile_label t (tile_window t (vWindows V))) FontSmall (Theme TextColor) CenterMiddle]
      else [])"

text \<open>\<open>draw_taskbar\<close> on a canvas of the size of the screen.\<close>

definition draw_taskbar :: "painter \<Rightarrow> view \<Rightarrow> int \<Rightarrow> int \<Rightarrow> rect \<Rightarrow> canvas_op list" where
  "draw_taskbar P V width height clip =
     (let l = taskbar_layout width height (vWindows V); b = bar l
      in draw_bar_backdrop P clip b (vBackground V) @
         [RoundedOp b kTaskbarRadius (Rgba 0x0e131b 219), FrameOp b (Theme BorderColor) 1 kTaskbarRadius,
          RoundedOp (start l) kStartRadius (Theme Accent),
          TextOp (start l) ''IO'' (if startFontLoaded P then StartFont else FontMedium) (Theme AccentText) CenterMiddle,
          TextOp (rect_at (right_edge (pui P) (start l) + 10) (ry b) 120 (rh b)) ''InstantOS'' FontMedium
            (Theme TextColor) LeftMiddle] @
         concat (map (\<lambda>i. draw_tile P V i (tiles l ! i)) [0..<length (tiles l)]) @
         draw_tray P V b @ draw_tooltip P V l)"

section \<open>The scene\<close>

text \<open>\<open>draw_background\<close> of \<open>background.cpp\<close> as an operation.\<close>

definition background_ops :: "view \<Rightarrow> int \<Rightarrow> int \<Rightarrow> canvas_op list" where
  "background_ops V width height =
     (let screen = rect_at 0 0 width height; b = vBackground V
      in case bgPixels b of
           Some r \<Rightarrow> if bgReady b \<and> bgWidth b = width \<and> bgHeight b = height
                      then [CopyOp (px r) (bgWidth b) screen 0 0 False] else [GradientOp screen]
         | None \<Rightarrow> [GradientOp screen])"

definition draw_window :: "painter \<Rightarrow> view \<Rightarrow> rect \<Rightarrow> window_info \<Rightarrow> canvas_op list" where
  "draw_window P V clip w =
     (if \<not> is_window_visible w then []
      else if empty_rect (rects (pui P)) (intersect (rects (pui P)) (window_damage_rect w) clip) then []
      else draw_window_frame P V clip w @
           blit_window_surface P V w (map_option ((!) (vCache V)) (find_surface_cache (vCache V) (surfaceID w))))"

definition draw_scene :: "painter \<Rightarrow> view \<Rightarrow> int \<Rightarrow> int \<Rightarrow> rect \<Rightarrow> canvas_op list" where
  "draw_scene P V width height clip =
     background_ops V width height @ concat (map (draw_window P V clip) (vWindows V)) @
     draw_taskbar P V width height clip"

definition redraw_scene :: "painter \<Rightarrow> view \<Rightarrow> int \<Rightarrow> int \<Rightarrow> canvas_op list" where
  "redraw_scene P V width height = draw_scene P V width height (rect_at 0 0 width height)"

text \<open>A canvas clipped to a rectangle: its clip is the part on the canvas.\<close>

definition clip_to :: "painter \<Rightarrow> int \<Rightarrow> int \<Rightarrow> rect \<Rightarrow> rect" where
  "clip_to P width height r = intersect (rects (pui P)) (rect_at 0 0 width height) r"

definition redraw_scene_rect :: "painter \<Rightarrow> view \<Rightarrow> int \<Rightarrow> int \<Rightarrow> rect \<Rightarrow> canvas_op list" where
  "redraw_scene_rect P V width height damaged =
     (let clip = clip_to P width height damaged
      in if empty_rect (rects (pui P)) clip then [] else draw_scene P V width height clip)"

end
