(* ===== verification/Compositor_Canvas.thy ===== *)
theory Compositor_Canvas
  imports Compositor_Drawing
begin

text \<open>
  What the drawing routines rely on of the user interface library's canvas, and the pixels a list
  of operations gives: an operation changes a pixel without looking at others, and only those of
  its rectangle.
\<close>

section \<open>Running operations\<close>

text \<open>
  \<open>pixel op x y w\<close> is the word an operation makes of the word \<open>w\<close> at a point, \<open>copied\<close> what
  \<open>Canvas::copy\<close> makes of a source word (opaque or as it is).
\<close>

record canvas_lib =
  pixel :: "canvas_op \<Rightarrow> int \<Rightarrow> int \<Rightarrow> 32 word \<Rightarrow> 32 word"
  copied :: "bool \<Rightarrow> 32 word \<Rightarrow> 32 word"

definition apply_op :: "canvas_lib \<Rightarrow> rect \<Rightarrow> canvas_op \<Rightarrow> raster \<Rightarrow> raster" where
  "apply_op L clip op r =
     r\<lparr>px := (\<lambda>i. let x = i mod rpitch r; y = i div rpitch r
                   in if inside clip x y then pixel L op x y (px r i) else px r i)\<rparr>"

definition run_ops :: "canvas_lib \<Rightarrow> rect \<Rightarrow> canvas_op list \<Rightarrow> raster \<Rightarrow> raster" where
  "run_ops L clip ops r = fold (apply_op L clip) ops r"

text \<open>What the operations make of one pixel.\<close>

definition effect :: "canvas_lib \<Rightarrow> canvas_op list \<Rightarrow> int \<Rightarrow> int \<Rightarrow> 32 word \<Rightarrow> 32 word" where
  "effect L ops x y v = fold (\<lambda>op. pixel L op x y) ops v"

lemma effect_simps [simp]:
  "effect L [] x y v = v"
  "effect L (op # ops) x y v = effect L ops x y (pixel L op x y v)"
  "effect L (as @ bs) x y v = effect L bs x y (effect L as x y v)"
  by (simp_all add: effect_def)

lemma shape_apply [simp]: "shape (apply_op L clip op r) = shape r"
  by (simp add: apply_op_def shape_def)

lemma shape_run [simp]: "shape (run_ops L clip ops r) = shape r"
  by (induction ops arbitrary: r) (simp_all add: run_ops_def)

lemma apply_at:
  assumes "0 \<le> x" "x < rpitch r"
  shows "at_px (apply_op L clip op r) x y = (if inside clip x y then pixel L op x y (at_px r x y) else at_px r x y)"
  using assms by (simp add: apply_op_def at_px_def Let_def)

lemma run_ops_at:
  assumes "0 \<le> x" "x < rpitch r"
  shows "at_px (run_ops L clip ops r) x y = (if inside clip x y then effect L ops x y (at_px r x y) else at_px r x y)"
  using assms
proof (induction ops arbitrary: r)
  case (Cons op ops)
  have "rpitch (apply_op L clip op r) = rpitch r" by (simp add: apply_op_def)
  then show ?case using Cons apply_at [of x r L clip op y] by (simp add: run_ops_def)
qed (simp add: run_ops_def)

section \<open>The library's laws\<close>

fun extent :: "canvas_op \<Rightarrow> rect" where
  "extent (FillOp r c) = r"
| "extent (RoundedOp r radius c) = r"
| "extent (FrameOp r c width radius) = r"
| "extent (ImageOp i x y) = rect_at x y (icon_size i) (icon_size i)"
| "extent (TextOp r s f c a) = r"
| "extent (CopyOp words pitch s x y opq) = rect_at x y (rw s) (rh s)"
| "extent (BlendOp x y c a) = rect_at x y 1 1"
| "extent (GradientOp r) = r"

definition copy_law :: "canvas_lib \<Rightarrow> bool" where
  "copy_law L \<longleftrightarrow>
     (\<forall>words pitch s dx dy opq x y v. inside (rect_at dx dy (rw s) (rh s)) x y \<longrightarrow>
        pixel L (CopyOp words pitch s dx dy opq) x y v = copied L opq (words ((y - dy + ry s) * pitch + (x - dx + rx s))))"

definition canvas_laws :: "canvas_lib \<Rightarrow> bool" where
  "canvas_laws L \<longleftrightarrow> copy_law L \<and>
     (\<forall>op x y v. \<not> inside (extent op) x y \<longrightarrow> pixel L op x y v = v) \<and>
     (\<forall>r x y v v'. inside r x y \<longrightarrow> pixel L (GradientOp r) x y v = pixel L (GradientOp r) x y v') \<and>
     (\<forall>r r' c x y v. inside r x y \<and> inside r' x y \<longrightarrow> pixel L (FillOp r c) x y v = pixel L (FillOp r' c) x y v)"

definition geometry_laws :: "painter \<Rightarrow> bool" where
  "geometry_laws P \<longleftrightarrow> rect_laws (rects (pui P)) \<and>
     (\<forall>r. right_edge (pui P) r = rx r + rw r) \<and> (\<forall>r. bottom_edge P r = ry r + rh r) \<and>
     (\<forall>r dx dy. offset (pui P) r dx dy = rect_at (rx r + dx) (ry r + dy) (rw r) (rh r)) \<and>
     (\<forall>r n. inset P r n = rect_at (rx r + n) (ry r + n) (rw r - 2 * n) (rh r - 2 * n))"

text \<open>A rounded rectangle: inside the rectangle, rows without gaps, whole between the corners.\<close>

definition rounded_laws :: "painter \<Rightarrow> bool" where
  "rounded_laws P \<longleftrightarrow>
     (\<forall>r q x y. rounded (pui P) r q x y \<longrightarrow> inside r x y) \<and>
     (\<forall>r q a x b y. rounded (pui P) r q a y \<and> rounded (pui P) r q b y \<and> a \<le> x \<and> x \<le> b \<longrightarrow> rounded (pui P) r q x y) \<and>
     (\<forall>r q x y. inside r x y \<and> rx r + q \<le> x \<and> x < rx r + rw r - q \<longrightarrow> rounded (pui P) r q x y)"

definition painter_laws :: "painter \<Rightarrow> bool" where
  "painter_laws P \<longleftrightarrow> geometry_laws P \<and> rounded_laws P"

named_theorems painter_simps

lemma painter_rules [painter_simps]:
  assumes "painter_laws P"
  shows "right_edge (pui P) r = rx r + rw r" and "bottom_edge P r = ry r + rh r"
    and "offset (pui P) r dx dy = rect_at (rx r + dx) (ry r + dy) (rw r) (rh r)"
    and "inset P r n = rect_at (rx r + n) (ry r + n) (rw r - 2 * n) (rh r - 2 * n)"
    and "inside (intersect (rects (pui P)) r s) x y = (inside r x y \<and> inside s x y)"
    and "empty_rect (rects (pui P)) r = (rw r \<le> 0 \<or> rh r \<le> 0)"
  using assms by (simp_all add: painter_laws_def geometry_laws_def rect_laws_def)

lemma rounded_inside: "painter_laws P \<Longrightarrow> rounded (pui P) r q x y \<Longrightarrow> inside r x y"
  unfolding painter_laws_def rounded_laws_def by (elim conjE) blast

lemma rounded_between:
  "painter_laws P \<Longrightarrow> rounded (pui P) r q a y \<Longrightarrow> rounded (pui P) r q b y \<Longrightarrow> a \<le> x \<Longrightarrow> x \<le> b \<Longrightarrow>
   rounded (pui P) r q x y"
  unfolding painter_laws_def rounded_laws_def by (elim conjE) blast

lemma rounded_middle:
  "painter_laws P \<Longrightarrow> inside r x y \<Longrightarrow> rx r + q \<le> x \<Longrightarrow> x < rx r + rw r - q \<Longrightarrow> rounded (pui P) r q x y"
  unfolding painter_laws_def rounded_laws_def by (elim conjE) blast

lemma outside_keeps: "canvas_laws L \<Longrightarrow> \<not> inside (extent op) x y \<Longrightarrow> pixel L op x y v = v"
  unfolding canvas_laws_def by (elim conjE) blast

lemma copy_pixel:
  "canvas_laws L \<Longrightarrow> inside (rect_at dx dy (rw s) (rh s)) x y \<Longrightarrow>
   pixel L (CopyOp words pitch s dx dy opq) x y v = copied L opq (words ((y - dy + ry s) * pitch + (x - dx + rx s)))"
  by (simp add: canvas_laws_def copy_law_def)

lemma fill_pixel:
  "canvas_laws L \<Longrightarrow> inside r x y \<Longrightarrow> inside r' x y \<Longrightarrow> pixel L (FillOp r c) x y v = pixel L (FillOp r' c) x y v"
  unfolding canvas_laws_def by (elim conjE) blast

lemma gradient_pixel:
  "canvas_laws L \<Longrightarrow> inside r x y \<Longrightarrow> pixel L (GradientOp r) x y v = pixel L (GradientOp r) x y v'"
  unfolding canvas_laws_def by (elim conjE) blast

section \<open>Operations that touch a pixel\<close>

definition touching :: "int \<Rightarrow> int \<Rightarrow> canvas_op list \<Rightarrow> canvas_op list" where
  "touching x y ops = filter (\<lambda>op. inside (extent op) x y) ops"

lemma touching_simps [simp]:
  "touching x y [] = []"
  "touching x y (op # ops) = (if inside (extent op) x y then op # touching x y ops else touching x y ops)"
  "touching x y (as @ bs) = touching x y as @ touching x y bs"
  "touching x y (concat opss) = concat (map (touching x y) opss)"
  by (simp_all add: touching_def filter_concat comp_def cong: map_cong)

lemma effect_touching: "canvas_laws L \<Longrightarrow> effect L (touching x y ops) x y v = effect L ops x y v"
  by (induction ops arbitrary: v) (simp_all add: outside_keeps)

lemma effect_untouched: "canvas_laws L \<Longrightarrow> touching x y ops = [] \<Longrightarrow> effect L ops x y v = v"
  using effect_touching [of L x y ops v] by simp

text \<open>All operations of a list stay inside a rectangle.\<close>

definition within :: "rect \<Rightarrow> canvas_op list \<Rightarrow> bool" where
  "within r ops \<longleftrightarrow> (\<forall>op\<in>set ops. \<forall>x y. inside (extent op) x y \<longrightarrow> inside r x y)"

lemma within_simps [simp]:
  "within r []"
  "within r (op # ops) \<longleftrightarrow> (\<forall>x y. inside (extent op) x y \<longrightarrow> inside r x y) \<and> within r ops"
  "within r (as @ bs) \<longleftrightarrow> within r as \<and> within r bs"
  "within r (concat opss) \<longleftrightarrow> (\<forall>ops\<in>set opss. within r ops)"
  by (auto simp: within_def)

lemma within_untouched: "within r ops \<Longrightarrow> \<not> inside r x y \<Longrightarrow> touching x y ops = []"
  by (auto simp: within_def touching_def filter_empty_conv)

lemma within_mono: "within r ops \<Longrightarrow> (\<And>x y. inside r x y \<Longrightarrow> inside s x y) \<Longrightarrow> within s ops"
  by (auto simp: within_def)

text \<open>Two lists of operations make the same of every pixel of a clip.\<close>

definition agree :: "canvas_lib \<Rightarrow> rect \<Rightarrow> canvas_op list \<Rightarrow> canvas_op list \<Rightarrow> bool" where
  "agree L clip as bs \<longleftrightarrow> (\<forall>x y v. inside clip x y \<longrightarrow> effect L as x y v = effect L bs x y v)"

lemma agree_refl [simp]: "agree L clip ops ops"
  by (simp add: agree_def)

lemma agree_append: "agree L clip as as' \<Longrightarrow> agree L clip bs bs' \<Longrightarrow> agree L clip (as @ bs) (as' @ bs')"
  by (simp add: agree_def)

lemma agree_concat:
  "(\<And>k. k \<in> set ks \<Longrightarrow> agree L clip (f k) (g k)) \<Longrightarrow> agree L clip (concat (map f ks)) (concat (map g ks))"
  by (induction ks) (auto intro: agree_append)

lemma agree_touching:
  assumes "canvas_laws L" and "\<And>x y. inside clip x y \<Longrightarrow> touching x y as = touching x y bs"
  shows "agree L clip as bs"
  unfolding agree_def
proof (intro allI impI)
  fix x y v assume "inside clip x y"
  then have "effect L (touching x y as) x y v = effect L (touching x y bs) x y v" using assms(2) by simp
  then show "effect L as x y v = effect L bs x y v" by (simp add: effect_touching [OF assms(1)])
qed

text \<open>Operations made row by row: only the row of the pixel counts.\<close>

lemma effect_rows:
  assumes "canvas_laws L" and "distinct ys"
    and "\<And>k op a b. k \<in> set ys \<Longrightarrow> op \<in> set (f k) \<Longrightarrow> inside (extent op) a b \<Longrightarrow> b = k"
  shows "effect L (concat (map f ys)) x y v = (if y \<in> set ys then effect L (f y) x y v else v)"
  using assms(2,3)
proof (induction ys arbitrary: v)
  case (Cons k ys)
  have rest: "effect L (concat (map f ys)) x y u = (if y \<in> set ys then effect L (f y) x y u else u)" for u
    using Cons.prems by (intro Cons.IH) auto
  show ?case
  proof (cases "y = k")
    case False
    then have "touching x y (f k) = []"
      using Cons.prems(2) [of k] by (auto simp: touching_def filter_empty_conv)
    then show ?thesis using False rest effect_untouched [OF assms(1)] by simp
  qed (use rest Cons.prems(1) in simp)
qed simp

section \<open>Scanning a row\<close>

lemma below_skip_right:
  "lo \<le> x \<Longrightarrow> x < skip_right ok lo n \<longleftrightarrow> (\<exists>x'. x \<le> x' \<and> x' < lo + int n \<and> ok x')"
proof (induction n)
  case (Suc n)
  show ?case
  proof (cases "ok (lo + int n)")
    case True
    have "(\<exists>x'. x \<le> x' \<and> x' < lo + int (Suc n) \<and> ok x') \<longleftrightarrow> x < lo + int (Suc n)"
    proof
      assume "x < lo + int (Suc n)"
      then show "\<exists>x'. x \<le> x' \<and> x' < lo + int (Suc n) \<and> ok x'" using True by (intro exI [of _ "lo + int n"]) simp
    qed auto
    then show ?thesis using True by simp
  next
    case False
    have "(\<exists>x'. x \<le> x' \<and> x' < lo + int (Suc n) \<and> ok x') \<longleftrightarrow> (\<exists>x'. x \<le> x' \<and> x' < lo + int n \<and> ok x')"
    proof -
      have "x' < lo + int (Suc n) \<and> ok x' \<longleftrightarrow> x' < lo + int n \<and> ok x'" for x'
        using False by (cases "x' = lo + int n") auto
      then show ?thesis by metis
    qed
    then show ?thesis using False Suc by simp
  qed
qed auto

lemma skip_right_bound: "lo \<le> skip_right ok lo n \<and> skip_right ok lo n \<le> lo + int n"
  by (induction n) auto

lemma skip_left_bound: "l \<le> skip_left ok l n \<and> skip_left ok l n \<le> l + int n"
proof (induction n arbitrary: l)
  case (Suc n)
  show ?case using Suc [of "l + 1"] by auto
qed simp

lemma above_skip_left:
  "l \<le> x \<Longrightarrow> x < l + int n \<Longrightarrow> skip_left ok l n \<le> x \<longleftrightarrow> (\<exists>x'. l \<le> x' \<and> x' \<le> x \<and> ok x')"
proof (induction n arbitrary: l)
  case (Suc n)
  show ?case
  proof (cases "ok l")
    case False
    have eq: "(\<exists>x'. l \<le> x' \<and> x' \<le> x \<and> ok x') \<longleftrightarrow> (\<exists>x'. l + 1 \<le> x' \<and> x' \<le> x \<and> ok x')"
    proof -
      have "l \<le> x' \<and> ok x' \<longleftrightarrow> l + 1 \<le> x' \<and> ok x'" for x' using False by (cases "x' = l") auto
      then show ?thesis by metis
    qed
    show ?thesis
    proof (cases "x = l")
      case True
      then show ?thesis using False skip_left_bound [of "l + 1" ok n] by (auto dest: antisym)
    next
      case not: False
      then show ?thesis using Suc.IH [of "l + 1"] Suc.prems \<open>\<not> ok l\<close> eq by simp
    qed
  qed (use Suc.prems in auto)
qed simp

text \<open>
  The two scans of a row find the points where \<open>ok\<close> holds, when they are without a gap.
\<close>

lemma scanned_row:
  assumes "\<And>a b x. ok a \<Longrightarrow> ok b \<Longrightarrow> a \<le> x \<Longrightarrow> x \<le> b \<Longrightarrow> ok x" and "lo \<le> x" and "x < lo + int n"
  defines "l \<equiv> skip_left ok lo n"
  shows "l \<le> x \<and> x < skip_right ok l (nat (lo + int n - l)) \<longleftrightarrow> ok x"
proof -
  have l: "lo \<le> l" "l \<le> lo + int n" using skip_left_bound [of lo ok n] by (simp_all add: l_def)
  have left: "l \<le> x \<longleftrightarrow> (\<exists>x'. lo \<le> x' \<and> x' \<le> x \<and> ok x')"
    unfolding l_def by (rule above_skip_left [OF assms(2,3)])
  have right: "x < skip_right ok l (nat (lo + int n - l)) \<longleftrightarrow> (\<exists>x'. x \<le> x' \<and> x' < lo + int n \<and> ok x')" if "l \<le> x"
    using below_skip_right [OF that, of ok "nat (lo + int n - l)"] l by simp
  show ?thesis
  proof
    assume "ok x"
    then show "l \<le> x \<and> x < skip_right ok l (nat (lo + int n - l))" using left right assms(2,3) by auto
  next
    assume "l \<le> x \<and> x < skip_right ok l (nat (lo + int n - l))"
    then show "ok x" using left right assms(1) by blast
  qed
qed

end
