(* ===== verification/Compositor_Redraw.thy ===== *)
theory Compositor_Redraw
  imports Compositor_Canvas
begin

text \<open>
  Drawing a part of the scene again (\<open>redraw_scene_rect\<close>) gives in that part the picture that
  drawing all of it gives, and leaves the rest of the canvas alone.
\<close>

section \<open>Windows stay inside their damage rectangle\<close>

lemmas frame_defs =
  window_damage_rect_def window_frame_rect_def frame_width_def frame_height_def kShadowMargin_def kBorder_def
  kTitleBarHeight_def Let_def

lemmas shadow_defs = kShadowReach_def kShadowBlur_def kShadowOffsetY_def kWindowCornerRadius_def

text \<open>Wide enough for the three controls, which reach at most the shadow's width past the left edge.\<close>

definition sizable :: "window_info \<Rightarrow> bool" where
  "sizable w \<longleftrightarrow> 103 \<le> wwidth w \<and> 0 \<le> wheight w"

lemma shadow_edges_within:
  assumes "painter_laws P" "0 \<le> rw s" "0 \<le> rh s"
  shows "within (shadow_rect s) (shadow_edges P frame focused s)"
  using assms
  by (auto simp: shadow_edges_def shadow_rect_def inside_def painter_simps shadow_defs Let_def dest!: set_takeWhileD)

lemma shadow_corner_within:
  assumes "painter_laws P" "0 \<le> rw s" "0 \<le> rh s"
    and "(cornerX, stepX) \<in> {(rx s + 12, -1), (rx s + rw s - 13, 1)}"
    and "(cornerY, stepY) \<in> {(ry s + 12, -1), (ry s + rh s - 13, 1)}"
  shows "within (shadow_rect s) (shadow_corner P clip frame focused cornerX stepX cornerY stepY)"
  using assms
  by (auto simp: shadow_corner_def corner_pixel_def shadow_rect_def inside_def painter_simps shadow_defs Let_def split: if_splits)

lemma shadow_within:
  assumes "painter_laws P" "0 \<le> rw frame" "0 \<le> rh frame"
  shows "within (shadow_rect (rect_at (rx frame) (ry frame + 10) (rw frame) (rh frame)))
    (draw_window_shadow P clip frame focused)"
proof -
  let ?s = "rect_at (rx frame) (ry frame + 10) (rw frame) (rh frame)"
  have s: "offset (pui P) frame 0 kShadowOffsetY = ?s"
    using assms(1) by (simp add: painter_simps kShadowOffsetY_def)
  have corners: "right_edge (pui P) ?s - 1 - kWindowCornerRadius = rx ?s + rw ?s - 13"
    "bottom_edge P ?s - 1 - kWindowCornerRadius = ry ?s + rh ?s - 13"
    "rx ?s + kWindowCornerRadius = rx ?s + 12" "ry ?s + kWindowCornerRadius = ry ?s + 12"
    using assms(1) by (simp_all add: painter_simps kWindowCornerRadius_def)
  show ?thesis
    unfolding draw_window_shadow_def s Let_def corners
    using assms shadow_edges_within [of P ?s] shadow_corner_within [OF assms(1), of ?s] by simp
qed

lemma window_shadow_within:
  assumes "painter_laws P" "sizable w"
  shows "within (window_damage_rect w) (draw_window_shadow P clip (window_frame_rect w) focused)"
proof (rule within_mono)
  show "within (shadow_rect (rect_at (rx (window_frame_rect w)) (ry (window_frame_rect w) + 10)
      (rw (window_frame_rect w)) (rh (window_frame_rect w)))) (draw_window_shadow P clip (window_frame_rect w) focused)"
    using assms by (intro shadow_within) (simp_all add: sizable_def frame_defs)
qed (simp add: frame_defs shadow_rect_def kShadowBlur_def inside_def)

lemma control_rect: "window_control_rect w (int c) = rect_at (wx w + wwidth w - 45 - (if c = 0 then 0 else if c = 2 then 92 else 46))
    (wy w + 1) 46 39"
  by (simp add: window_control_rect_def frame_defs kControlWidth_def)

lemma close_hover_within:
  assumes "painter_laws P"
  shows "within button (fill_close_hover P clip button body radius c)"
proof -
  let ?area = "intersect (rects (pui P)) button clip"
  have rows: "y \<in> set (row_range P ?area) \<longleftrightarrow> ry ?area \<le> y \<and> y < ry ?area + rh ?area" for y
    using assms by (auto simp: row_range_def painter_simps image_iff intro!: bexI [of _ "nat (y - ry ?area)"])
  have "inside ?area x y \<Longrightarrow> inside button x y" for x y using assms by (simp add: painter_simps)
  moreover have "inside ?area x y"
    if "y \<in> set (row_range P ?area)" "rx ?area \<le> x" "x < skip_right ok (rx ?area) (nat (right_edge (pui P) ?area - rx ?area))"
    for x y ok
    using that skip_right_bound [of "rx ?area" ok "nat (right_edge (pui P) ?area - rx ?area)"] assms
    by (auto simp: rows inside_def painter_simps split: if_splits)
  ultimately show ?thesis
    by (auto simp: fill_close_hover_def Let_def inside_def [of "rect_at _ _ _ _"])
qed

lemma control_within:
  assumes "painter_laws P" "sizable w" "c < 3"
  shows "within (window_damage_rect w) (draw_control P V clip w c)"
proof -
  have button: "inside (window_control_rect w (int c)) x y \<Longrightarrow> inside (window_damage_rect w) x y" for x y
    using assms(2,3) by (auto simp: control_rect frame_defs inside_def sizable_def split: if_splits)
  have close: "within (window_damage_rect w) (fill_close_hover P clip (window_control_rect w (int c)) body radius color)"
    for body radius color
    using close_hover_within [OF assms(1)] button by (rule within_mono)
  have glyph: "inside (rect_at (rx (window_control_rect w (int c)) + (rw (window_control_rect w (int c)) - kControlGlyphSize) sdiv 2)
      (ry (window_control_rect w (int c)) + (rh (window_control_rect w (int c)) - kControlGlyphSize) sdiv 2) 12 12) x y \<Longrightarrow>
      inside (window_damage_rect w) x y" for x y
    by (rule button) (auto simp: control_rect inside_def kControlGlyphSize_def signed_divide_int_def)
  show ?thesis
    unfolding draw_control_def Let_def
    using close button glyph by (auto simp: icon_size_def kControlGlyphSize_def)
qed

lemma title_within:
  assumes "painter_laws P" "sizable w"
  shows "within (window_damage_rect w) (draw_window_title P V clip w)"
proof -
  have "within (window_damage_rect w) (draw_control P V clip w c)" if "c \<in> set [0..<3]" for c
    using control_within [OF assms] that by simp
  moreover have "inside (rect_at (rx (window_frame_rect w) + kTitleIconX)
      (ry (window_frame_rect w) + (kTitleBarHeight - kTitleIconSize) sdiv 2) 16 16) x y \<Longrightarrow> inside (window_damage_rect w) x y" for x y
    using assms(2) by (auto simp: inside_def frame_defs kTitleIconX_def kTitleIconSize_def sizable_def signed_divide_int_def)
  moreover have "inside (rect_at (rx (window_frame_rect w) + kTitleTextX) (ry (window_frame_rect w))
      (rx (window_control_rect w 2) - rx (window_frame_rect w) - kTitleTextX - 8) kTitleBarHeight) x y \<Longrightarrow>
      inside (window_damage_rect w) x y" for x y
    using assms(2) control_rect [of w 2] by (auto simp: inside_def frame_defs kTitleTextX_def sizable_def)
  ultimately show ?thesis
    unfolding draw_window_title_def Let_def by (auto simp: icon_size_def kTitleIconSize_def)
qed

lemma frame_within:
  assumes "painter_laws P" "sizable w"
  shows "within (window_damage_rect w) (draw_window_frame P V clip w)"
proof -
  have "inside (window_frame_rect w) x y \<Longrightarrow> inside (window_damage_rect w) x y" for x y
    by (auto simp: inside_def frame_defs)
  then show ?thesis
    using window_shadow_within [OF assms] title_within [OF assms] by (simp add: draw_window_frame_def Let_def)
qed

lemma cut_row_within:
  assumes "0 \<le> row" "row < copyHeight" "destX = wx w + 1" "destY = wy w + 40" "copyWidth \<le> wwidth w"
    "copyHeight \<le> wheight w" "0 < copyWidth"
  shows "within (content_rect w) (cut_row P body words pitch copyWidth destX destY row)"
proof -
  let ?ok = "\<lambda>x. rounded (pui P) body (kWindowCornerRadius - kBorder) (destX + x) (destY + row)"
  let ?l = "skip_left ?ok 0 (nat copyWidth)"
  have "0 \<le> ?l \<and> ?l \<le> copyWidth" "skip_right ?ok ?l (nat (copyWidth - ?l)) \<le> copyWidth"
    using skip_left_bound [of 0 ?ok "nat copyWidth"] skip_right_bound [of ?l ?ok "nat (copyWidth - ?l)"] assms(7) by simp_all
  then show ?thesis
    using assms by (auto simp: cut_row_def Let_def inside_def content_rect_def kBorder_def kTitleBarHeight_def)
qed

lemma blit_rows_within:
  assumes "0 < copyWidth" "copyWidth \<le> wwidth w" "copyHeight \<le> wheight w"
  shows "within (content_rect w)
    (blit_rows P body words pitch copyWidth copyHeight (wx w + kBorder) (wy w + kTitleBarHeight) bandRows)"
proof -
  have copy: "within (content_rect w) [CopyOp words pitch (rect_at 0 0 copyWidth n) (wx w + kBorder) (wy w + kTitleBarHeight) True]"
    if "n \<le> copyHeight" for n
    using that assms by (auto simp: inside_def content_rect_def)
  have rows: "within (content_rect w) (cut_row P body words pitch copyWidth (wx w + kBorder) (wy w + kTitleBarHeight) row)"
    if "0 \<le> row" "row < copyHeight" for row
    using that assms by (intro cut_row_within [where copyHeight = copyHeight]) (simp_all add: kBorder_def kTitleBarHeight_def)
  show ?thesis
    unfolding blit_rows_def using copy [of copyHeight] copy [of bandRows] rows
    by (simp del: within_simps(2) add: max_def)
qed

lemma blit_within: "within (content_rect w) (blit_window_surface P V w found)"
proof (cases found)
  case (Some e)
  show ?thesis
    unfolding Some blit_window_surface_def Let_def option.case
    by (auto intro!: blit_rows_within simp del: diff_add_cancel)
qed (simp add: blit_window_surface_def)

lemma window_within:
  assumes "painter_laws P" "sizable w"
  shows "within (window_damage_rect w) (draw_window_frame P V clip w @ blit_window_surface P V w found)"
proof -
  have "inside (content_rect w) x y \<Longrightarrow> inside (window_damage_rect w) x y" for x y
    by (auto simp: inside_def frame_defs content_rect_def)
  then show ?thesis using frame_within [OF assms] within_mono [OF blit_within] by simp
qed

section \<open>Clipping\<close>

lemma touching_pixel:
  "touching x y (corner_pixel P frame focused a b dx dy) =
   (if a = x \<and> b = y then corner_pixel P frame focused x y dx dy else [])"
  by (auto simp: corner_pixel_def inside_def)

lemma corner_touching:
  assumes "painter_laws P" "inside clip x y"
  shows "touching x y (shadow_corner P clip frame focused cornerX stepX cornerY stepY) =
    concat (map (\<lambda>dy. concat (map (\<lambda>dx.
      if cornerX + stepX * int dx = x \<and> cornerY + stepY * int dy = y then corner_pixel P frame focused x y dx dy else [])
      [1..<kShadowReach])) [1..<kShadowReach])"
  unfolding shadow_corner_def Let_def touching_simps map_map comp_def
proof (intro arg_cong [where f = concat] map_cong refl)
  fix dy
  have "touching x y (if a < rx clip \<or> right_edge (pui P) clip \<le> a then [] else corner_pixel P frame focused a b dx dy) =
      (if a = x \<and> b = y then corner_pixel P frame focused x y dx dy else [])" for a b dx
    using assms by (auto simp: touching_pixel inside_def painter_simps)
  moreover have "\<not> (b < ry clip \<or> bottom_edge P clip \<le> b)" if "b = y" for b
    using assms that by (auto simp: inside_def painter_simps)
  ultimately show "touching x y (if cornerY + stepY * int dy < ry clip \<or> bottom_edge P clip \<le> cornerY + stepY * int dy then []
      else concat (map (\<lambda>dx. if cornerX + stepX * int dx < rx clip \<or> right_edge (pui P) clip \<le> cornerX + stepX * int dx then []
        else corner_pixel P frame focused (cornerX + stepX * int dx) (cornerY + stepY * int dy) dx dy) [1..<kShadowReach])) =
    concat (map (\<lambda>dx. if cornerX + stepX * int dx = x \<and> cornerY + stepY * int dy = y
      then corner_pixel P frame focused x y dx dy else []) [1..<kShadowReach])"
    by (cases "cornerY + stepY * int dy = y") (simp_all add: comp_def)
qed

lemma shadow_agree:
  assumes "painter_laws P" "canvas_laws L" "0 \<le> rw frame" "0 \<le> rh frame"
    and "\<And>x y. inside clip x y \<Longrightarrow> inside whole x y"
  shows "agree L clip (draw_window_shadow P clip frame focused) (draw_window_shadow P whole frame focused)"
proof (rule agree_touching [OF assms(2)])
  fix x y
  assume c: "inside clip x y"
  let ?s = "offset (pui P) frame 0 kShadowOffsetY"
  have s: "?s = rect_at (rx frame) (ry frame + 10) (rw frame) (rh frame)"
    using assms(1) by (simp add: painter_simps kShadowOffsetY_def)
  show "touching x y (draw_window_shadow P clip frame focused) = touching x y (draw_window_shadow P whole frame focused)"
  proof (cases "inside (shadow_rect ?s) x y")
    case True
    then have "\<not> empty_rect (rects (pui P)) (intersect (rects (pui P)) (shadow_rect ?s) r)" if "inside r x y" for r
    proof -
      have "inside (intersect (rects (pui P)) (shadow_rect ?s) r) x y" using True that assms(1) by (simp add: painter_simps)
      then show ?thesis using assms(1) by (auto simp: inside_def painter_simps)
    qed
    then show ?thesis
      using c assms(5) [OF c] by (simp add: draw_window_shadow_def Let_def corner_touching [OF assms(1)])
  next
    case False
    then show ?thesis
      using within_untouched [OF shadow_within [OF assms(1,3,4)]] by (simp add: s)
  qed
qed

lemma row_range_iff: "painter_laws P \<Longrightarrow> y \<in> set (row_range P r) \<longleftrightarrow> ry r \<le> y \<and> y < ry r + rh r"
  by (auto simp: row_range_def painter_simps image_iff intro!: bexI [of _ "nat (y - ry r)"])

lemma distinct_row_range: "distinct (row_range P r)"
  by (auto simp: row_range_def distinct_map inj_on_def)

text \<open>A part of a row drawn for every row of the clipped rectangle.\<close>

lemma effect_clipped_rows:
  assumes P: "painter_laws P" and L: "canvas_laws L" and c: "inside clip x y"
    and rows: "\<And>k op a b. op \<in> set (f k) \<Longrightarrow> inside (extent op) a b \<Longrightarrow>
      b = k \<and> rx (intersect (rects (pui P)) button clip) \<le> a \<and>
      a < rx (intersect (rects (pui P)) button clip) + rw (intersect (rects (pui P)) button clip)"
  shows "effect L (concat (map f (row_range P (intersect (rects (pui P)) button clip)))) x y v =
    (if inside button x y then effect L (f y) x y v else v)"
proof -
  let ?area = "intersect (rects (pui P)) button clip"
  have area: "inside ?area x y = inside button x y" using P c by (simp add: painter_simps)
  have "effect L (concat (map f (row_range P ?area))) x y v = (if y \<in> set (row_range P ?area) then effect L (f y) x y v else v)"
    using rows by (intro effect_rows [OF L distinct_row_range]) blast
  moreover have "effect L (f y) x y v = v" if "y \<in> set (row_range P ?area)" "\<not> inside ?area x y"
  proof (rule effect_untouched [OF L])
    show "touching x y (f y) = []"
      using that rows [of _ y x y] by (auto simp: touching_def filter_empty_conv row_range_iff [OF P] inside_def)
  qed
  moreover have "inside ?area x y \<Longrightarrow> y \<in> set (row_range P ?area)" by (simp add: row_range_iff [OF P] inside_def)
  ultimately show ?thesis using area by auto
qed

lemma close_hover_effect:
  assumes P: "painter_laws P" and L: "canvas_laws L" and c: "inside clip x y"
    and body: "rx body + q \<le> rx button" "2 * q < rw body" "0 \<le> q"
  shows "effect L (fill_close_hover P clip button body q color) x y v =
    (if inside button x y \<and> rounded (pui P) body q x y then pixel L (FillOp button color) x y v else v)"
proof -
  let ?area = "intersect (rects (pui P)) button clip" and ?ok = "\<lambda>x. rounded (pui P) body q x y"
  define right where "right = (\<lambda>y. skip_right (\<lambda>x. rounded (pui P) body q x y) (rx ?area) (nat (right_edge (pui P) ?area - rx ?area)))"
  define f where "f = (\<lambda>y. if rx ?area < right y then [FillOp (rect_at (rx ?area) y (right y - rx ?area) 1) color] else [])"
  have right: "right y \<le> rx ?area + rw ?area" if "rx ?area < right y" for y
    using that skip_right_bound [of "rx ?area" "\<lambda>x. rounded (pui P) body q x y" "nat (right_edge (pui P) ?area - rx ?area)"] P
    by (auto simp: right_def painter_simps split: if_splits)
  have rows: "b = k \<and> rx ?area \<le> a \<and> a < rx ?area + rw ?area"
    if "op \<in> set (f k)" "inside (extent op) a b" for k op a b
    using that right [of k] by (auto simp: f_def inside_def split: if_splits)
  have "effect L (fill_close_hover P clip button body q color) x y v =
      effect L (concat (map f (row_range P ?area))) x y v"
    unfolding fill_close_hover_def Let_def f_def right_def by simp
  also have "\<dots> = (if inside button x y then effect L (f y) x y v else v)"
    using rows by (rule effect_clipped_rows [OF P L c])
  finally have all: "effect L (fill_close_hover P clip button body q color) x y v = (if inside button x y then effect L (f y) x y v else v)" .
  have one: "effect L (f y) x y v = (if ?ok x then pixel L (FillOp button color) x y v else v)" if b: "inside button x y"
  proof -
    have a: "inside ?area x y" using P c b by (simp add: painter_simps)
    then have x: "rx ?area \<le> x" "x < rx ?area + rw ?area" by (simp_all add: inside_def)
    have "x < right y \<longleftrightarrow> ?ok x"
    proof
      assume "x < right y"
      then obtain x' where x': "x \<le> x'" "?ok x'" using below_skip_right [OF x(1)] by (auto simp: right_def)
      have "inside body (rx body + q) y" using rounded_inside [OF P x'(2)] body b x'(1) by (auto simp: inside_def)
      then have "?ok (rx body + q)" using rounded_middle [OF P] body(2) by simp
      then show "?ok x" using rounded_between [OF P _ x'(2)] body(1) b x'(1) by (auto simp: inside_def)
    next
      assume "?ok x"
      then show "x < right y"
        using below_skip_right [OF x(1)] x(2) P by (auto simp: right_def painter_simps)
    qed
    then show ?thesis
      using x(1) fill_pixel [OF L _ b, of "rect_at (rx ?area) y (right y - rx ?area) 1"]
        outside_keeps [OF L, of "FillOp (rect_at (rx ?area) y (right y - rx ?area) 1) color" x y]
      by (auto simp: f_def inside_def)
  qed
  show ?thesis unfolding all using one by simp
qed

lemma backdrop_effect:
  assumes P: "painter_laws P" and L: "canvas_laws L" and c: "inside clip x y"
    and blur: "barBlur background = Some r" "same_bar (barBlurRect background) b"
  shows "effect L (draw_bar_backdrop P clip b background) x y v =
    (if inside b x y \<and> rounded (pui P) b kTaskbarRadius x y
     then copied L False (px r ((y - ry b) * rw b + (x - rx b))) else v)"
proof -
  let ?area = "intersect (rects (pui P)) b clip"
  let ?n = "nat (right_edge (pui P) ?area - rx ?area)"
  let ?ok = "\<lambda>y x. rounded (pui P) b kTaskbarRadius x y"
  define l where "l = (\<lambda>y. skip_left (?ok y) (rx ?area) ?n)"
  define right where "right = (\<lambda>y. skip_right (?ok y) (l y) (nat (right_edge (pui P) ?area - l y)))"
  define f where "f = (\<lambda>y. if l y < right y
    then [CopyOp (px r) (rw b) (rect_at (l y - rx b) (y - ry b) (right y - l y) 1) (l y) y False] else [])"
  have bounds: "rx ?area \<le> l y" "l y < right y \<Longrightarrow> right y \<le> rx ?area + rw ?area" for y
    using skip_left_bound [of "rx ?area" "?ok y" ?n]
      skip_right_bound [of "l y" "?ok y" "nat (right_edge (pui P) ?area - l y)"] P
    by (auto simp: l_def right_def painter_simps split: if_splits)
  have rows: "v = k \<and> rx ?area \<le> u \<and> u < rx ?area + rw ?area"
    if "op \<in> set (f k)" "inside (extent op) u v" for k op u v
    using that bounds [of k] by (auto simp: f_def inside_def split: if_splits)
  have "effect L (draw_bar_backdrop P clip b background) x y v = effect L (concat (map f (row_range P ?area))) x y v"
    using blur unfolding draw_bar_backdrop_def Let_def f_def right_def l_def by simp
  also have "\<dots> = (if inside b x y then effect L (f y) x y v else v)"
    using rows by (rule effect_clipped_rows [OF P L c])
  finally have all: "effect L (draw_bar_backdrop P clip b background) x y v = (if inside b x y then effect L (f y) x y v else v)" .
  have one: "effect L (f y) x y v = (if ?ok y x then copied L False (px r ((y - ry b) * rw b + (x - rx b))) else v)"
    if "inside b x y"
  proof -
    have "inside ?area x y" using P c that by (simp add: painter_simps)
    then have x: "rx ?area \<le> x" "x < rx ?area + int ?n" using P by (simp_all add: inside_def painter_simps)
    have n: "rx ?area + int ?n = right_edge (pui P) ?area" using x by (simp split: if_splits)
    have "l y \<le> x \<and> x < right y \<longleftrightarrow> ?ok y x"
      using scanned_row [OF _ x, of "?ok y"] rounded_between [OF P] unfolding l_def right_def n by blast
    then show ?thesis
      using copy_pixel [OF L, of "l y" y "rect_at (l y - rx b) (y - ry b) (right y - l y) 1" x y "px r" "rw b" False v]
        outside_keeps [OF L, of "CopyOp (px r) (rw b) (rect_at (l y - rx b) (y - ry b) (right y - l y) 1) (l y) y False" x y v]
      by (auto simp: f_def inside_def)
  qed
  show ?thesis unfolding all using one by simp
qed

section \<open>The scene\<close>

lemma control_agree:
  assumes P: "painter_laws P" and L: "canvas_laws L" and w: "sizable w"
    and whole: "\<And>x y. inside clip x y \<Longrightarrow> inside whole x y"
  shows "agree L clip (draw_control P V clip w c) (draw_control P V whole w c)"
proof -
  let ?body = "inset P (window_frame_rect w) kBorder" and ?q = "kWindowCornerRadius - kBorder"
  have body: "rx ?body + ?q \<le> rx (window_control_rect w 0)" "2 * ?q < rw ?body" "0 \<le> ?q"
    using P w control_rect [of w 0] by (simp_all add: painter_simps frame_defs sizable_def kWindowCornerRadius_def)
  have "agree L clip (fill_close_hover P clip (window_control_rect w 0) ?body ?q color)
      (fill_close_hover P whole (window_control_rect w 0) ?body ?q color)" for color
    using whole by (simp add: agree_def close_hover_effect [OF P L _ body])
  then show ?thesis by (auto simp: draw_control_def Let_def intro!: agree_append)
qed

lemma window_agree:
  assumes P: "painter_laws P" and L: "canvas_laws L" and w: "sizable w"
    and whole: "\<And>x y. inside clip x y \<Longrightarrow> inside whole x y"
  shows "agree L clip (draw_window P V clip w) (draw_window P V whole w)"
proof (cases "is_window_visible w")
  case True
  let ?found = "map_option ((!) (vCache V)) (find_surface_cache (vCache V) (surfaceID w))"
  let ?all = "\<lambda>r. draw_window_frame P V r w @ blit_window_surface P V w ?found"
  have drawn: "agree L clip (draw_window P V r w) (?all r)" if r: "\<And>x y. inside clip x y \<Longrightarrow> inside r x y" for r
  proof (cases "empty_rect (rects (pui P)) (intersect (rects (pui P)) (window_damage_rect w) r)")
    case empty: True
    have "touching x y (?all r) = []" if "inside clip x y" for x y
    proof (rule within_untouched [OF window_within [OF P w]])
      show "\<not> inside (window_damage_rect w) x y"
      proof
        assume "inside (window_damage_rect w) x y"
        then have "inside (intersect (rects (pui P)) (window_damage_rect w) r) x y"
          using P r [OF that] by (simp add: painter_simps)
        with empty show False using P by (auto simp: inside_def painter_simps)
      qed
    qed
    then show ?thesis
      using empty True by (intro agree_touching [OF L]) (simp add: draw_window_def)
  qed (use True in \<open>simp add: draw_window_def\<close>)
  have frame: "0 \<le> rw (window_frame_rect w)" "0 \<le> rh (window_frame_rect w)"
    using w by (simp_all add: frame_defs sizable_def)
  have "agree L clip (?all clip) (?all whole)"
    unfolding draw_window_frame_def draw_window_title_def Let_def
    by (intro agree_append shadow_agree [OF P L frame whole] agree_concat control_agree [OF P L w whole] agree_refl)
  then show ?thesis using drawn [of clip] drawn [OF whole] by (simp add: agree_def)
qed (simp add: draw_window_def)

lemma backdrop_agree:
  assumes P: "painter_laws P" and L: "canvas_laws L" and whole: "\<And>x y. inside clip x y \<Longrightarrow> inside whole x y"
  shows "agree L clip (draw_bar_backdrop P clip b background) (draw_bar_backdrop P whole b background)"
proof (cases "barBlur background")
  case (Some r)
  show ?thesis
  proof (cases "same_bar (barBlurRect background) b")
    case True
    show ?thesis using whole by (simp add: agree_def backdrop_effect [OF P L _ Some True])
  qed (simp add: draw_bar_backdrop_def Some)
qed (simp add: draw_bar_backdrop_def)

lemma scene_agree:
  assumes P: "painter_laws P" and L: "canvas_laws L" and w: "\<And>w. w \<in> set (vWindows V) \<Longrightarrow> sizable w"
    and whole: "\<And>x y. inside clip x y \<Longrightarrow> inside whole x y"
  shows "agree L clip (draw_scene P V width height clip) (draw_scene P V width height whole)"
  unfolding draw_scene_def draw_taskbar_def Let_def
  by (intro agree_append agree_refl agree_concat window_agree [OF P L w whole] backdrop_agree [OF P L whole])

text \<open>The wallpaper or the gradient covers what was there.\<close>

lemma background_covers:
  assumes "canvas_laws L" "inside (rect_at 0 0 width height) x y"
  shows "effect L (background_ops V width height) x y v = effect L (background_ops V width height) x y v'"
  using copy_pixel [OF assms(1), of 0 0 "rect_at 0 0 width height"] gradient_pixel [OF assms, of v v'] assms(2)
  by (simp add: background_ops_def Let_def split: option.split)

lemma scene_covers:
  assumes "canvas_laws L" "inside (rect_at 0 0 width height) x y"
  shows "effect L (draw_scene P V width height clip) x y v = effect L (draw_scene P V width height clip) x y v'"
  using background_covers [OF assms, of V v v'] by (simp add: draw_scene_def)

definition screen_sized :: "int \<Rightarrow> int \<Rightarrow> raster \<Rightarrow> bool" where
  "screen_sized width height r \<longleftrightarrow> rwidth r = width \<and> rheight r = height \<and> rpitch r = width"

text \<open>
  C24: \<open>redraw_scene_rect\<close> makes of the damaged part exactly what \<open>redraw_scene\<close> makes of it, whatever
  either canvas showed before, and does not touch the rest: skipping windows and operations that miss
  the clip, and cutting rows at it, is not visible. Windows are wide enough for their controls.
\<close>

theorem partial_redraw:
  assumes "painter_laws P" "canvas_laws L" "\<forall>w\<in>set (vWindows V). sizable w"
    and "screen_sized width height r" "screen_sized width height old" "inside (rect_at 0 0 width height) x y"
  shows "at_px (run_ops L (clip_to P width height damaged) (redraw_scene_rect P V width height damaged) r) x y =
    (if inside damaged x y then at_px (run_ops L (rect_at 0 0 width height) (redraw_scene P V width height) old) x y
     else at_px r x y)"
proof -
  let ?clip = "clip_to P width height damaged" and ?screen = "rect_at 0 0 width height"
  have clip: "inside ?clip a b \<longleftrightarrow> inside ?screen a b \<and> inside damaged a b" for a b
    using assms(1) by (simp add: clip_to_def painter_simps)
  have x: "0 \<le> x" "x < rpitch r" "x < rpitch old" using assms(4-6) by (auto simp: screen_sized_def inside_def)
  have "effect L (redraw_scene_rect P V width height damaged) x y v = effect L (redraw_scene P V width height) x y v'"
    if "inside damaged x y" for v v'
  proof -
    have c: "inside ?clip x y" using that assms(6) clip by simp
    then have "\<not> empty_rect (rects (pui P)) ?clip" using assms(1) by (auto simp: inside_def painter_simps)
    moreover have "agree L ?clip (draw_scene P V width height ?clip) (draw_scene P V width height ?screen)"
      using assms(1-3) clip by (intro scene_agree) auto
    ultimately show ?thesis
      using c scene_covers [OF assms(2,6), of P V ?screen v v']
      by (simp add: redraw_scene_rect_def redraw_scene_def agree_def)
  qed
  then show ?thesis
    using assms(6) clip by (simp add: run_ops_at [OF x(1,2)] run_ops_at [OF x(1,3)])
qed

end
