(* ===== verification/Compositor_Contents.thy ===== *)
theory Compositor_Contents
  imports Compositor_Redraw Compositor_Taskbar
begin

text \<open>
  Drawing the scene shows the words of a window's surface at their places: inside the rounded frame,
  where no window above it and no part of the taskbar reaches. And a concrete canvas on which the
  theorems about drawing apply.
\<close>

section \<open>One window\<close>

definition surface_word :: "view \<Rightarrow> window_info \<Rightarrow> cache_entry \<Rightarrow> int \<Rightarrow> int \<Rightarrow> 32 word" where
  "surface_word V w e x y =
     vMemory V (saddress (einfo e))
       ((y - (wy w + 40)) * int_of_u32 (if 4 \<le> spitch (einfo e) then spitch (einfo e) div 4 else swidth (einfo e)) +
        (x - (wx w + 1)))"

lemma cut_row_effect:
  assumes P: "painter_laws P" and L: "canvas_laws L" and x: "destX \<le> x" "x < destX + copyWidth"
  shows "effect L (cut_row P body words pitch copyWidth destX destY row) x (destY + row) v =
    (if rounded (pui P) body (kWindowCornerRadius - kBorder) x (destY + row)
     then copied L True (words (row * pitch + (x - destX))) else v)"
proof -
  let ?ok = "\<lambda>i. rounded (pui P) body (kWindowCornerRadius - kBorder) (destX + i) (destY + row)"
  let ?l = "skip_left ?ok 0 (nat copyWidth)"
  let ?r = "skip_right ?ok ?l (nat (copyWidth - ?l))"
  have gap: "?ok i" if "?ok a" "?ok b" "a \<le> i" "i \<le> b" for a b i
    using rounded_between [OF P that(1,2)] that(3,4) by simp
  have "?l \<le> x - destX \<and> x - destX < ?r \<longleftrightarrow> ?ok (x - destX)"
    using scanned_row [of ?ok 0 "x - destX" "nat copyWidth", OF gap] x by simp
  then show ?thesis
    using copy_pixel [OF L, of "destX + ?l" "destY + row" "rect_at ?l row (?r - ?l) 1" x "destY + row" words pitch True v]
      outside_keeps [OF L, of "CopyOp words pitch (rect_at ?l row (?r - ?l) 1) (destX + ?l) (destY + row) True" x "destY + row" v]
    by (auto simp: cut_row_def Let_def inside_def algebra_simps)
qed

lemma cut_row_rows:
  "op \<in> set (cut_row P body words pitch copyWidth destX destY row) \<Longrightarrow> inside (extent op) a b \<Longrightarrow> b = destY + row"
  by (auto simp: cut_row_def Let_def inside_def split: if_splits)

lemma blit_rows_effect:
  assumes P: "painter_laws P" and L: "canvas_laws L" and x: "destX \<le> x" "x < destX + copyWidth"
    and y: "destY \<le> y" "y < destY + copyHeight"
    and ok: "y < destY + bandRows \<or> rounded (pui P) body (kWindowCornerRadius - kBorder) x y"
  shows "effect L (blit_rows P body words pitch copyWidth copyHeight destX destY bandRows) x y v =
    copied L True (words ((y - destY) * pitch + (x - destX)))"
proof -
  have whole: "effect L [CopyOp words pitch (rect_at 0 0 copyWidth n) destX destY True] x y v =
      copied L True (words ((y - destY) * pitch + (x - destX)))" if "y < destY + n" for n v
    using copy_pixel [OF L, of destX destY "rect_at 0 0 copyWidth n" x y words pitch True] x y that
    by (simp add: inside_def)
  let ?row = "\<lambda>k. max bandRows 0 + int k" and ?f = "cut_row P body words pitch copyWidth destX destY"
  have rows: "effect L (concat (map (\<lambda>k. ?f (?row k)) [0..<n])) x y v =
      (if y \<in> (\<lambda>k. destY + ?row k) ` {0..<n} then effect L (?f (y - destY)) x y v else v)" for n v
  proof -
    let ?ys = "map (\<lambda>k. destY + ?row k) [0..<n]"
    have "concat (map (\<lambda>k. ?f (?row k)) [0..<n]) = concat (map (\<lambda>y. ?f (y - destY)) ?ys)" by (simp add: comp_def)
    moreover have "distinct ?ys" by (simp add: distinct_map inj_on_def)
    ultimately show ?thesis
      using effect_rows [OF L, of ?ys "\<lambda>y. ?f (y - destY)" x y v] cut_row_rows by fastforce
  qed
  show ?thesis
  proof (cases "y < destY + max bandRows 0")
    case True
    then have "y \<notin> (\<lambda>k. destY + ?row k) ` {0..<n}" for n by auto
    then show ?thesis using True y whole [of copyHeight] whole [of bandRows] rows by (auto simp: blit_rows_def)
  next
    case False
    then have "y \<in> (\<lambda>k. destY + ?row k) ` {0..<nat (copyHeight - max bandRows 0)}"
      using y by (intro image_eqI [of _ _ "nat (y - destY - max bandRows 0)"]) auto
    moreover have "effect L (?f (y - destY)) x y v = copied L True (words ((y - destY) * pitch + (x - destX)))" for v
      using cut_row_effect [OF P L x, of body words pitch destY "y - destY"] ok False by auto
    moreover have "\<not> copyHeight \<le> bandRows" using False y by simp
    ultimately show ?thesis using rows by (simp add: blit_rows_def)
  qed
qed

text \<open>The part of a window where its surface's words are: cut by the surface and the window, and by the corners.\<close>

definition shows_surface :: "painter \<Rightarrow> window_info \<Rightarrow> cache_entry \<Rightarrow> int \<Rightarrow> int \<Rightarrow> bool" where
  "shows_surface P w e x y \<longleftrightarrow>
     inside (rect_at (wx w + 1) (wy w + 40) (min (int_of_u32 (swidth (einfo e))) (wwidth w))
       (min (int_of_u32 (sheight (einfo e))) (wheight w))) x y \<and>
     (y < wy w + 41 + wheight w - 12 \<or> rounded (pui P) (rect_at (wx w + 1) (wy w + 1) (wwidth w) (wheight w + 39)) 11 x y)"

lemma blit_effect:
  assumes "painter_laws P" "canvas_laws L" "valid e" "saddress (einfo e) \<noteq> 0" "shows_surface P w e x y"
  shows "effect L (blit_window_surface P V w (Some e)) x y v = copied L True (surface_word V w e x y)"
proof -
  have body: "rect_at (wx w + kBorder) (wy w + kBorder) (wwidth w) (frame_height w - kBorder * 2) =
      rect_at (wx w + 1) (wy w + 1) (wwidth w) (wheight w + 39)"
    by (simp add: frame_defs)
  let ?cw = "min (int_of_u32 (swidth (einfo e))) (wwidth w)" and ?ch = "min (int_of_u32 (sheight (einfo e))) (wheight w)"
  have rows: "effect L (blit_rows P (rect_at (wx w + 1) (wy w + 1) (wwidth w) (wheight w + 39)) words pitch ?cw ?ch
      (wx w + 1) (wy w + 40) (wheight w - 11)) x y v =
    copied L True (words ((y - (wy w + 40)) * pitch + (x - (wx w + 1))))" for words pitch
    using assms(5) by (intro blit_rows_effect [OF assms(1,2)]) (auto simp: shows_surface_def inside_def kWindowCornerRadius_def kBorder_def)
  have "0 < ?cw" "0 < ?ch" using assms(5) by (auto simp: shows_surface_def inside_def simp del: min_less_iff_conj)
  then show ?thesis
    using assms(3,4) rows unfolding blit_window_surface_def option.case Let_def body
    by (simp add: surface_word_def kBorder_def kTitleBarHeight_def kWindowCornerRadius_def frame_height_def min_le_iff_disj)
qed

section \<open>The scene\<close>

lemma window_untouched:
  assumes "painter_laws P" "sizable w" "is_window_visible w \<longrightarrow> \<not> inside (window_damage_rect w) x y"
  shows "touching x y (draw_window P V clip w) = []"
  using within_untouched [OF window_within [OF assms(1,2)]] assms(3) by (simp add: draw_window_def)

lemma windows_untouched:
  assumes "painter_laws P" "\<And>w. w \<in> set ws \<Longrightarrow> sizable w \<and> (is_window_visible w \<longrightarrow> \<not> inside (window_damage_rect w) x y)"
  shows "touching x y (concat (map (draw_window P V clip) ws)) = []"
  using assms(2) by (auto simp: window_untouched [OF assms(1)])

text \<open>
  C25: A full redraw shows, at every point of a visible window's contents inside its rounded frame, the
  word of its surface there, as long as no window above it and nothing of the taskbar reaches the point.
\<close>

theorem contents_on_screen:
  assumes "painter_laws P" "canvas_laws L" "\<forall>u\<in>set (vWindows V). sizable u"
    and "screen_sized width height r" "inside (rect_at 0 0 width height) x y"
    and "vWindows V = earlier @ w # later" "is_window_visible w"
    and "find_surface_cache (vCache V) (surfaceID w) = Some k" "saddress (einfo (vCache V ! k)) \<noteq> 0"
    and "shows_surface P w (vCache V ! k) x y"
    and "\<forall>u\<in>set later. is_window_visible u \<longrightarrow> \<not> inside (window_damage_rect u) x y"
    and "touching x y (draw_taskbar P V width height (rect_at 0 0 width height)) = []"
  shows "at_px (run_ops L (rect_at 0 0 width height) (redraw_scene P V width height) r) x y =
    copied L True (surface_word V w (vCache V ! k) x y)"
proof -
  let ?screen = "rect_at 0 0 width height" and ?e = "vCache V ! k"
  have x: "0 \<le> x" "x < rpitch r" using assms(4,5) by (auto simp: screen_sized_def inside_def)
  have valid: "valid ?e" using find_upt_Some assms(8) by (fastforce simp: find_surface_cache_def split: if_splits)
  have "inside (window_damage_rect w) x y"
    using assms(10) by (auto simp: shows_surface_def inside_def frame_defs)
  then have "inside (intersect (rects (pui P)) (window_damage_rect w) ?screen) x y"
    using assms(1,5) by (simp add: painter_simps)
  then have "\<not> empty_rect (rects (pui P)) (intersect (rects (pui P)) (window_damage_rect w) ?screen)"
    using assms(1) by (auto simp: inside_def painter_simps)
  then have own: "effect L (draw_window P V ?screen w) x y v = copied L True (surface_word V w ?e x y)" for v
    using assms(7,8) blit_effect [OF assms(1,2) valid assms(9,10)] by (simp add: draw_window_def)
  have "effect L (concat (map (draw_window P V ?screen) later)) x y v = v" for v
    using assms(3,6,11) by (intro effect_untouched [OF assms(2)] windows_untouched [OF assms(1)]) auto
  moreover have "effect L (draw_taskbar P V width height ?screen) x y v = v" for v
    by (rule effect_untouched [OF assms(2,12)])
  ultimately show ?thesis
    using own assms(5) by (simp add: run_ops_at [OF x] redraw_scene_def draw_scene_def assms(6))
qed

text \<open>Without a tooltip the taskbar stays below its upper edge.\<close>

lemma backdrop_below:
  assumes P: "painter_laws P" and y: "y < ry b"
  shows "touching x y (draw_bar_backdrop P clip b background) = []"
proof (cases "barBlur background = None \<or> \<not> same_bar (barBlurRect background) b")
  case True
  then show ?thesis by (auto simp: draw_bar_backdrop_def split: option.split)
next
  case False
  let ?area = "intersect (rects (pui P)) b clip"
  have row: "ry b \<le> k" if k: "k \<in> set (row_range P ?area)" and l: "rx ?area \<le> l" "l < rx ?area + rw ?area" for k l
  proof -
    have "inside ?area l k" using k l by (simp add: row_range_iff [OF P] inside_def)
    then show ?thesis using P by (simp add: painter_simps inside_def [of b])
  qed
  have bounds: "rx ?area \<le> skip_left ok (rx ?area) n \<and> (skip_left ok (rx ?area) n < skip_right ok (skip_left ok (rx ?area) n)
      (nat (right_edge (pui P) ?area - skip_left ok (rx ?area) n)) \<longrightarrow> skip_left ok (rx ?area) n < rx ?area + rw ?area)" for ok n
    using skip_left_bound [of "rx ?area" ok n] P
      skip_right_bound [of "skip_left ok (rx ?area) n" ok "nat (right_edge (pui P) ?area - skip_left ok (rx ?area) n)"]
    by (auto simp: painter_simps split: if_splits)
  show ?thesis
    using False y row bounds
    by (fastforce simp: draw_bar_backdrop_def Let_def touching_def filter_empty_conv inside_def)
qed

lemma tile_below:
  "painter_laws P \<Longrightarrow> y < ry (trect t) \<Longrightarrow> rh (trect t) = kTileSize \<Longrightarrow> touching x y (draw_tile P V i t) = []"
  by (auto simp: draw_tile_def Let_def inside_def icon_size_def painter_simps kTileSize_def kTileIconSize_def signed_divide_int_def)

lemma taskbar_below:
  assumes P: "painter_laws P" and y: "y < ry (bar (taskbar_layout width height (vWindows V)))" and hover: "vTileHover V < 0"
  shows "touching x y (draw_taskbar P V width height clip) = []"
proof -
  let ?l = "taskbar_layout width height (vWindows V)"
  have "touching x y (draw_tile P V i (tiles ?l ! i)) = []" if "i < length (tiles ?l)" for i
    using tile_rect [OF that] y taskbar_rects [of width height "vWindows V"]
    by (intro tile_below [OF P]) (simp_all add: kTaskbarHeight_def kTileSize_def signed_divide_int_def)
  then have "concat (map (\<lambda>i. touching x y (draw_tile P V i (tiles ?l ! i))) [0..<length (tiles ?l)]) = []" by simp
  moreover have "touching x y (draw_tray P V (bar ?l)) = []"
    using y by (auto simp: draw_tray_def Let_def inside_def icon_size_def kTaskbarHeight_def kTrayIconSize_def signed_divide_int_def)
  moreover have "ry (bar ?l) \<le> ry (start ?l)"
    by (simp add: taskbar_layout_def Let_def kTaskbarHeight_def kStartSize_def signed_divide_int_def)
  ultimately show ?thesis
    using y hover backdrop_below [OF P y]
    by (simp add: draw_taskbar_def Let_def draw_tooltip_def inside_def comp_def)
qed

section \<open>A concrete canvas\<close>

definition plain_painter :: painter where
  "plain_painter = \<lparr>pui = plain_ui, inset = (\<lambda>r n. rect_at (rx r + n) (ry r + n) (rw r - 2 * n) (rh r - 2 * n)),
     bottom_edge = (\<lambda>r. ry r + rh r), iconLoaded = (\<lambda>i. True), startFontLoaded = True,
     shadowAlpha = (\<lambda>focused a b. if a + b < 30 then 30 - a - b else 0), timeString = (\<lambda>d. ''12:00'')\<rparr>"

definition plain_canvas :: canvas_lib where
  "plain_canvas =
     \<lparr>pixel = (\<lambda>op x y v. if inside (extent op) x y
        then (case op of
                CopyOp words pitch s dx dy opq \<Rightarrow> words ((y - dy + ry s) * pitch + (x - dx + rx s))
              | _ \<Rightarrow> 0xFF000000)
        else v),
      copied = (\<lambda>opq w. w)\<rparr>"

lemma plain_painter_laws: "painter_laws plain_painter"
  using plain_rects_laws
  by (auto simp: painter_laws_def geometry_laws_def rounded_laws_def plain_painter_def plain_ui_def inside_def)

lemma plain_canvas_laws: "canvas_laws plain_canvas"
  by (auto simp: canvas_laws_def copy_law_def plain_canvas_def)

text \<open>A window with a surface of 300 by 200 words, the word at an index being the index.\<close>

definition plain_entry :: cache_entry where
  "plain_entry = empty_entry\<lparr>valid := True, eid := 9, generation := 1,
     einfo := no_surface\<lparr>sid := 9, swidth := 300, sheight := 200, spitch := 1200, saddress := 4096\<rparr>\<rparr>"

definition plain_view :: "window_info list \<Rightarrow> view" where
  "plain_view ws =
     \<lparr>vWindows = ws, vCache = plain_entry # replicate 63 empty_entry, vMemory = (\<lambda>address i. word_of_int i),
      vBackground = \<lparr>bgPixels = None, bgWidth = 0, bgHeight = 0, bgReady = False, bgPath = [], barBlur = None,
        barBlurRect = rect_at 0 0 0 0\<rparr>,
      vOnline = True, vTileHover = -1, vHover = (0, 0),
      vNow = \<lparr>year = 2026, month = 10, day = 29, hour = 12, minute = 0, second = 0\<rparr>\<rparr>"

lemma find_first: "valid e \<Longrightarrow> eid e \<noteq> 0 \<Longrightarrow> find_surface_cache (e # es) (eid e) = Some 0"
proof -
  assume "valid e" "eid e \<noteq> 0"
  moreover have "[0..<kMaxSurfaceCache] = 0 # [Suc 0..<kMaxSurfaceCache]"
    by (rule upt_conv_Cons) (simp add: kMaxSurfaceCache_def)
  ultimately show ?thesis by (simp add: find_surface_cache_def)
qed

lemma plain_taskbar_away:
  "touching 150 200 (draw_taskbar plain_painter (plain_view [plain_window 9 ''Demo'' {Focused}]) 1000 600 (rect_at 0 0 1000 600)) = []"
  by (rule taskbar_below [OF plain_painter_laws])
     (simp_all add: plain_view_def taskbar_layout_def taskbar_bar_rect_def kTaskbarMargin_def kTaskbarHeight_def Let_def)

theorem contents_on_screen_witness:
  "at_px (run_ops plain_canvas (rect_at 0 0 1000 600)
     (redraw_scene plain_painter (plain_view [plain_window 9 ''Demo'' {Focused}]) 1000 600) (new_raster 1000 600)) 150 200 = 18049"
proof -
  let ?w = "plain_window 9 ''Demo'' {Focused}"
  let ?V = "plain_view [?w]"
  have "at_px (run_ops plain_canvas (rect_at 0 0 1000 600) (redraw_scene plain_painter ?V 1000 600) (new_raster 1000 600)) 150 200 =
      copied plain_canvas True (surface_word ?V ?w (vCache ?V ! 0) 150 200)"
  proof (rule contents_on_screen [OF plain_painter_laws plain_canvas_laws, where earlier = "[]" and later = "[]"])
    show "find_surface_cache (vCache ?V) (surfaceID ?w) = Some 0"
      using find_first [of plain_entry] by (simp add: plain_view_def plain_window_def plain_entry_def)
    show "shows_surface plain_painter ?w (vCache ?V ! 0) 150 200"
      by (simp add: shows_surface_def plain_view_def plain_window_def plain_entry_def inside_def)
  qed (use plain_taskbar_away in \<open>simp_all add: plain_view_def plain_window_def sizable_def screen_sized_def
       new_raster_def inside_def is_window_visible_def plain_entry_def no_surface_def\<close>)
  then show ?thesis
    by (simp add: plain_canvas_def surface_word_def plain_view_def plain_window_def plain_entry_def)
qed

text \<open>After a redraw of 20 by 20 points over an old picture: a point in it, and one beside it.\<close>

theorem partial_redraw_witness:
  "let V = plain_view [plain_window 9 ''Demo'' {Focused}]; damaged = rect_at 140 190 20 20; screen = rect_at 0 0 1000 600;
       old = new_raster 1000 600;
       part = run_ops plain_canvas (clip_to plain_painter 1000 600 damaged) (redraw_scene_rect plain_painter V 1000 600 damaged) old
   in at_px part 150 200 = at_px (run_ops plain_canvas screen (redraw_scene plain_painter V 1000 600) old) 150 200 \<and>
      at_px part 200 200 = 0"
proof -
  let ?V = "plain_view [plain_window 9 ''Demo'' {Focused}]" and ?old = "new_raster 1000 600"
  have sizes: "\<forall>w\<in>set (vWindows ?V). sizable w" "screen_sized 1000 600 ?old"
    by (simp_all add: plain_view_def plain_window_def sizable_def screen_sized_def new_raster_def)
  have "at_px ?old 200 200 = 0" by (simp add: at_px_def new_raster_def)
  then show ?thesis
    using partial_redraw [OF plain_painter_laws plain_canvas_laws sizes(1) sizes(2) sizes(2), of 150 200 "rect_at 140 190 20 20"]
      partial_redraw [OF plain_painter_laws plain_canvas_laws sizes(1) sizes(2) sizes(2), of 200 200 "rect_at 140 190 20 20"]
    by (simp add: Let_def inside_def)
qed

end
