(* ===== verification/Gl_Backend.thy ===== *)
theory Gl_Backend
  imports Compositor_Canvas
begin

unbundle bit_operations_syntax

text \<open>
  The frame that the OpenGL back end draws, \<open>src/graphics-compositor/src/gl_backend.cpp\<close>: the textures
  it keeps between frames and the draw calls it makes. The driver is not in the repository. A
  texture's record holds what its GL object holds (each object has one owner), a draw call is the
  uniforms its shader mode reads. The side buffer is painted with the canvas operations of
  \<open>Compositor_Drawing\<close>. The counter of frames does not wrap.
\<close>

section \<open>Textures and draw calls\<close>

text \<open>Nothing defined yet, uploaded texels, or the memory of a surface's buffer.\<close>

datatype texels = Unset | Words "int \<Rightarrow> int \<Rightarrow> 32 word" | Imported nat

record texture =
  tmade :: bool
  twidth :: int
  theight :: int
  texels :: texels

record surface_texture =
  stId :: nat
  stTexture :: texture
  stImage :: bool
  stShared :: bool
  stUploaded :: nat
  stSeen :: bool
  stLast :: nat

record title_texture =
  ttWindow :: nat
  ttTexture :: texture
  ttKey :: "64 word"
  ttSeen :: bool

text \<open>Radii are top left, top right, bottom right, bottom left; texel coordinates are not divided by the size.\<close>

type_synonym radii = "int \<times> int \<times> int \<times> int"

datatype draw =
    ShadowDraw rect rect radii nat int
  | ColourDraw rect paint rect radii int
  | TexelDraw rect int bool paint "int \<times> int \<times> int \<times> int" "int \<times> int" texels rect radii int

record uniforms =
  uMode :: int
  uColor :: paint
  uBgra :: bool
  uTexels :: "int \<times> int \<times> int \<times> int"
  uTexture :: texture
  uShape :: rect
  uRadii :: radii
  uRing :: int
  uShadow :: "nat \<times> int"

record gl_stats =
  bufferImports :: nat
  windowUploads :: nat
  titleUploads :: nat
  taskbarUploads :: nat

record gl =
  unif :: uniforms
  draws :: "draw list"
  side :: raster
  wallpaperTexture :: texture
  wallpaperPixels :: nat
  wallpaperName :: string
  barTexture :: texture
  barKey :: "64 word"
  tipTexture :: texture
  cursorTexture :: texture
  cursorUploaded :: bool
  surfaceSlots :: "surface_texture list"
  titleSlots :: "title_texture list"
  frameNumber :: nat
  stats :: gl_stats

definition kTextureKeepFrames :: nat where "kTextureKeepFrames = 240"
definition kMaxTextures :: nat where "kMaxTextures = 64"

definition no_texture :: texture where
  "no_texture = \<lparr>tmade = False, twidth = 0, theight = 0, texels = Unset\<rparr>"

definition free_surface :: surface_texture where
  "free_surface = \<lparr>stId = 0, stTexture = no_texture, stImage = False, stShared = False, stUploaded = 2 ^ 64 - 1,
     stSeen = False, stLast = 0\<rparr>"

definition free_title :: title_texture where
  "free_title = \<lparr>ttWindow = 0, ttTexture = no_texture, ttKey = 0, ttSeen = False\<rparr>"

section \<open>What a frame is drawn from\<close>

text \<open>
  The screen, the library, the bits of a window's state, \<open>sizeof(WindowInfo::title)\<close> and whether
  EGL imports buffers.
\<close>

record gl_config =
  gPainter :: painter
  gCanvas :: canvas_lib
  gWidth :: int
  gHeight :: int
  stateBits :: "window_flag set \<Rightarrow> nat"
  titleBytes :: nat
  dmaBufImport :: bool

record pointer_picture =
  ppWords :: "int \<Rightarrow> 32 word"
  ppWidth :: int
  ppHeight :: int
  ppHotX :: int
  ppHotY :: int

text \<open>
  The scene, the addresses of the wallpaper's pixels and of its blurred strip, the pointer (its
  picture unless it is not loaded), and for which surfaces exporting and importing the buffer works.
\<close>

record frame_input =
  fView :: view
  fPixels :: nat
  fBlur :: nat
  fCursor :: cursor_state
  fPointer :: "pointer_picture option"
  fExports :: "nat \<Rightarrow> bool"

section \<open>Fingerprints\<close>

definition fnv_byte :: "nat \<Rightarrow> 64 word \<Rightarrow> 64 word" where
  "fnv_byte b v = (v XOR of_nat b) * 0x100000001b3"

definition fingerprint :: "nat list \<Rightarrow> 64 word" where
  "fingerprint bytes = fold fnv_byte bytes 0xcbf29ce484222325"

text \<open>\<open>add(std::int64_t)\<close>: the eight bytes of the number.\<close>

definition number_bytes :: "int \<Rightarrow> nat list" where
  "number_bytes i = le_bytes 8 (nat (i mod 2 ^ 64))"

text \<open>The title's array: the characters and zeros.\<close>

definition title_array :: "gl_config \<Rightarrow> string \<Rightarrow> nat list" where
  "title_array G t = map of_char t @ replicate (titleBytes G - length t) 0"

definition title_fields :: "gl_config \<Rightarrow> view \<Rightarrow> window_info \<Rightarrow> rect \<Rightarrow> rect \<Rightarrow> nat list" where
  "title_fields G V w titleRect body =
     concat (map number_bytes
       [rw titleRect, rh titleRect, rx titleRect - rx body, ry titleRect - ry body,
        int (stateBits G (wstate w \<inter> {Focused, Maximized})),
        if fst (vHover V) = wid w then snd (vHover V) else -1]) @
     title_array G (title w)"

definition taskbar_fields :: "gl_config \<Rightarrow> frame_input \<Rightarrow> rect \<Rightarrow> nat list" where
  "taskbar_fields G F b =
     (let V = fView F; d = vNow V
      in concat (map number_bytes
           [rx b, ry b, rw b, rh b, vTileHover V, if vOnline V then 1 else 0, int (fBlur F),
            int (year d), int (month d), int (day d), int (hour d), int (minute d)]) @
         concat (map (\<lambda>w. number_bytes (int (wid w)) @ number_bytes (int (stateBits G (wstate w))) @
           title_array G (title w)) (vWindows V)))"

section \<open>Uniforms and draws\<close>

definition set_unif :: "(uniforms \<Rightarrow> uniforms) \<Rightarrow> gl \<Rightarrow> gl" where
  "set_unif f s = s\<lparr>unif := f (unif s)\<rparr>"

definition shape_cut :: "rect \<Rightarrow> radii \<Rightarrow> int \<Rightarrow> gl \<Rightarrow> gl" where
  "shape_cut r q ring = set_unif (\<lambda>u. u\<lparr>uShape := r, uRadii := q, uRing := ring\<rparr>)"

text \<open>\<open>quad\<close>: the fragment shader's mode says what it reads.\<close>

definition drawn_quad :: "uniforms \<Rightarrow> rect \<Rightarrow> draw" where
  "drawn_quad u r =
     (if uMode u = 3 then ShadowDraw r (uShape u) (uRadii u) (fst (uShadow u)) (snd (uShadow u))
      else if uMode u = 0 then ColourDraw r (uColor u) (uShape u) (uRadii u) (uRing u)
      else TexelDraw r (uMode u) (uBgra u) (uColor u) (uTexels u) (twidth (uTexture u), theight (uTexture u))
             (texels (uTexture u)) (uShape u) (uRadii u) (uRing u))"

definition quad :: "rect \<Rightarrow> gl \<Rightarrow> gl" where
  "quad r s = s\<lparr>draws := draws s @ [drawn_quad (unif s) r]\<rparr>"

definition fill_quad :: "rect \<Rightarrow> paint \<Rightarrow> int \<Rightarrow> int \<Rightarrow> gl \<Rightarrow> gl" where
  "fill_quad r color radius ring s =
     quad r (shape_cut r (radius, radius, radius, radius) ring (set_unif (\<lambda>u. u\<lparr>uMode := 0, uColor := color\<rparr>) s))"

definition textured :: "texture \<Rightarrow> rect \<Rightarrow> int \<Rightarrow> int \<Rightarrow> int \<Rightarrow> bool \<Rightarrow> gl \<Rightarrow> gl" where
  "textured t r sx sy mode bgra s =
     quad r (set_unif (\<lambda>u. u\<lparr>uMode := mode, uBgra := bgra, uColor := Rgba 0xffffff 255,
       uTexels := (sx, sy, sx + rw r, sy + rh r), uTexture := t\<rparr>) s)"

section \<open>Uploads\<close>

definition makeTexture :: "int \<Rightarrow> int \<Rightarrow> texture \<Rightarrow> texture" where
  "makeTexture width height t =
     (if tmade t \<and> twidth t = width \<and> theight t = height then t
      else \<lparr>tmade = True, twidth = width, theight = height, texels = Unset\<rparr>)"

definition upload :: "(int \<Rightarrow> 32 word) \<Rightarrow> int \<Rightarrow> int \<Rightarrow> int \<Rightarrow> texture \<Rightarrow> texture" where
  "upload words pitch width height t =
     (makeTexture width height t)\<lparr>texels := Words (\<lambda>x y.
       if 0 \<le> x \<and> x < width \<and> 0 \<le> y \<and> y < height then words (y * pitch + x) else 0)\<rparr>"

definition uploadSide :: "gl_config \<Rightarrow> raster \<Rightarrow> rect \<Rightarrow> texture \<Rightarrow> texture" where
  "uploadSide G d r = upload (\<lambda>i. px d (ry r * gWidth G + rx r + i)) (gWidth G) (rw r) (rh r)"

section \<open>Windows\<close>

text \<open>The place of a window's title, else the first free one made its own.\<close>

definition titleTexture :: "nat \<Rightarrow> title_texture list \<Rightarrow> (nat \<times> title_texture list) option" where
  "titleTexture i ts =
     (case find (\<lambda>k. ttWindow (ts ! k) = i) [0..<length ts] of
        Some k \<Rightarrow> Some (k, ts)
      | None \<Rightarrow>
          (case find (\<lambda>k. ttWindow (ts ! k) = 0) [0..<length ts] of
             Some k \<Rightarrow> Some (k, ts[k := free_title\<lparr>ttWindow := i\<rparr>]) | None \<Rightarrow> None))"

definition new_surface :: "gl_config \<Rightarrow> frame_input \<Rightarrow> cache_entry \<Rightarrow> surface_texture" where
  "new_surface G F e =
     (let width = int_of_u32 (swidth (einfo e)); height = int_of_u32 (sheight (einfo e))
      in if dmaBufImport G \<and> fExports F (eid e)
         then free_surface\<lparr>stId := eid e, stImage := True,
                stTexture := \<lparr>tmade = True, twidth = width, theight = height, texels = Imported (eid e)\<rparr>\<rparr>
         else free_surface\<lparr>stId := eid e, stShared := True, stTexture := makeTexture width height no_texture\<rparr>)"

text \<open>The place of a surface's texture; whether it was imported just now.\<close>

definition surfaceTexture ::
  "gl_config \<Rightarrow> frame_input \<Rightarrow> cache_entry \<Rightarrow> surface_texture list \<Rightarrow> (nat \<times> bool \<times> surface_texture list) option" where
  "surfaceTexture G F e ss =
     (case find (\<lambda>k. stId (ss ! k) = eid e \<and> tmade (stTexture (ss ! k))) [0..<length ss] of
        Some k \<Rightarrow> Some (k, False, ss)
      | None \<Rightarrow>
          (case find (\<lambda>k. stId (ss ! k) = 0) [0..<length ss] of
             Some k \<Rightarrow> let t = new_surface G F e in Some (k, stImage t, ss[k := t]) | None \<Rightarrow> None))"

definition count_import :: "bool \<Rightarrow> gl_stats \<Rightarrow> gl_stats" where
  "count_import made st = (if made then st\<lparr>bufferImports := bufferImports st + 1\<rparr> else st)"

definition title_rect :: "gl_config \<Rightarrow> window_info \<Rightarrow> rect" where
  "title_rect G w =
     (let body = inset (gPainter G) (window_frame_rect w) kBorder
      in intersect (rects (pui (gPainter G))) (rect_at (rx body) (ry body) (rw body) (kTitleBarHeight - kBorder))
           (rect_at 0 0 (gWidth G) (gHeight G)))"

text \<open>The title bar in the side buffer: the window color, then what \<open>draw_window_title\<close> draws.\<close>

definition paint_title :: "gl_config \<Rightarrow> view \<Rightarrow> window_info \<Rightarrow> raster \<Rightarrow> raster" where
  "paint_title G V w d =
     (let r = title_rect G w; clip = clip_to (gPainter G) (gWidth G) (gHeight G) r
      in run_ops (gCanvas G) clip (FillOp r (Theme WindowColor) # draw_window_title (gPainter G) V clip w) d)"

definition drawTitle :: "gl_config \<Rightarrow> frame_input \<Rightarrow> window_info \<Rightarrow> gl \<Rightarrow> gl" where
  "drawTitle G F w s =
     (let body = inset (gPainter G) (window_frame_rect w) kBorder; r = title_rect G w;
          q = kWindowCornerRadius - kBorder
      in if empty_rect (rects (pui (gPainter G))) r then s
         else (case titleTexture (wid w) (titleSlots s) of
             None \<Rightarrow> s
           | Some (k, ts) \<Rightarrow>
               let t = (ts ! k)\<lparr>ttSeen := True\<rparr>; key = fingerprint (title_fields G (fView F) w r body);
                   (t, s) =
                     (if ttKey t \<noteq> key \<or> \<not> tmade (ttTexture t)
                      then let d = paint_title G (fView F) w (side s)
                           in (t\<lparr>ttTexture := uploadSide G d r (ttTexture t), ttKey := key\<rparr>,
                               s\<lparr>side := d, stats := (stats s)\<lparr>titleUploads := titleUploads (stats s) + 1\<rparr>\<rparr>)
                      else (t, s))
               in textured (ttTexture t) r 0 0 1 True (shape_cut body (q, q, q, q) 0 (s\<lparr>titleSlots := ts[k := t]\<rparr>))))"

text \<open>The contents: \<open>std::uint64_t generation\<close> says when they were committed.\<close>

definition refresh_surface :: "frame_input \<Rightarrow> cache_entry \<Rightarrow> surface_texture \<Rightarrow> surface_texture" where
  "refresh_surface F e t =
     (let i = einfo e
      in if stShared t \<and> stUploaded t \<noteq> generation e \<and> saddress i \<noteq> 0
         then t\<lparr>stTexture := upload (vMemory (fView F) (saddress i))
                  (int_of_u32 (if 4 \<le> spitch i then spitch i div 4 else swidth i))
                  (int_of_u32 (swidth i)) (int_of_u32 (sheight i)) (stTexture t),
                stUploaded := generation e\<rparr>
         else t)"

definition drawContents :: "gl_config \<Rightarrow> frame_input \<Rightarrow> window_info \<Rightarrow> gl \<Rightarrow> gl" where
  "drawContents G F w s =
     (case find_surface_cache (vCache (fView F)) (surfaceID w) of
        None \<Rightarrow> s
      | Some n \<Rightarrow>
          let e = vCache (fView F) ! n; q = kWindowCornerRadius - kBorder
          in if \<not> valid e \<or> swidth (einfo e) = 0 \<or> sheight (einfo e) = 0 then s
             else (case surfaceTexture G F e (surfaceSlots s) of
                 None \<Rightarrow> s
               | Some (k, imported, ss) \<Rightarrow>
                   let t = refresh_surface F e ((ss ! k)\<lparr>stSeen := True\<rparr>);
                       uploaded = (stUploaded t \<noteq> stUploaded (ss ! k));
                       r = rect_at (wx w + kBorder) (wy w + kTitleBarHeight) (min (int_of_u32 (swidth (einfo e))) (wwidth w))
                             (min (int_of_u32 (sheight (einfo e))) (wheight w));
                       body = rect_at (wx w + kBorder) (wy w + kBorder) (wwidth w) (frame_height w - 2 * kBorder)
                   in textured (stTexture t) r 0 0 1 (stShared t)
                        (shape_cut body (0, 0, q, q) 0
                          (s\<lparr>surfaceSlots := ss[k := t],
                             stats := (count_import imported (stats s))\<lparr>windowUploads :=
                               windowUploads (stats s) + (if uploaded then 1 else 0)\<rparr>\<rparr>))))"

definition drawWindow :: "gl_config \<Rightarrow> frame_input \<Rightarrow> window_info \<Rightarrow> gl \<Rightarrow> gl" where
  "drawWindow G F w s =
     (let focused = (Focused \<in> wstate w); frame = window_frame_rect w; q = kWindowCornerRadius;
          shadow = offset (pui (gPainter G)) frame 0 kShadowOffsetY;
          s = quad (shadow_rect shadow) (shape_cut shadow (q, q, q, q) 0
                (set_unif (\<lambda>u. u\<lparr>uMode := 3, uShadow := (if focused then 120 else 70, kShadowBlur)\<rparr>) s));
          s = fill_quad frame (Theme WindowColor) q 0 s;
          s = fill_quad frame (Rgba 0xffffff (if focused then 26 else 15)) q 1 s
      in drawContents G F w (drawTitle G F w s))"

section \<open>The taskbar, the pointer and the frame\<close>

definition paint_bar :: "gl_config \<Rightarrow> view \<Rightarrow> rect \<Rightarrow> canvas_op list \<Rightarrow> raster \<Rightarrow> raster" where
  "paint_bar G V r before d =
     (let clip = clip_to (gPainter G) (gWidth G) (gHeight G) r
      in run_ops (gCanvas G) clip (before @ draw_taskbar (gPainter G) V (gWidth G) (gHeight G) clip) d)"

definition drawBar :: "gl_config \<Rightarrow> frame_input \<Rightarrow> gl \<Rightarrow> gl" where
  "drawBar G F s =
     (let V = fView F; l = taskbar_layout (gWidth G) (gHeight G) (vWindows V); q = kTaskbarRadius;
          b = intersect (rects (pui (gPainter G))) (bar l) (rect_at 0 0 (gWidth G) (gHeight G))
      in if empty_rect (rects (pui (gPainter G))) b then s
         else let key = fingerprint (taskbar_fields G F b);
                  s = (if key \<noteq> barKey s \<or> \<not> tmade (barTexture s)
                       then let d = paint_bar G V b [] (side s)
                            in s\<lparr>side := d, barTexture := uploadSide G d b (barTexture s), barKey := key,
                                 stats := (stats s)\<lparr>taskbarUploads := taskbarUploads (stats s) + 1\<rparr>\<rparr>
                       else s)
              in textured (barTexture s) b 0 0 1 True (shape_cut (bar l) (q, q, q, q) 0 s))"

definition drawTip :: "gl_config \<Rightarrow> frame_input \<Rightarrow> gl \<Rightarrow> gl" where
  "drawTip G F s =
     (let V = fView F; l = taskbar_layout (gWidth G) (gHeight G) (vWindows V)
      in if 0 \<le> vTileHover V \<and> vTileHover V < int (length (tiles l))
         then let tip = intersect (rects (pui (gPainter G)))
                    (taskbar_tooltip_rect (pui (gPainter G)) l (vTileHover V) (vWindows V))
                    (rect_at 0 0 (gWidth G) (gHeight G))
              in if empty_rect (rects (pui (gPainter G))) tip then s
                 else let d = paint_bar G V tip [FillOp tip (Theme TooltipOpaque)] (side s);
                          t = uploadSide G d tip (tipTexture s)
                      in textured t tip 0 0 1 True (shape_cut tip (8, 8, 8, 8) 0 (s\<lparr>side := d, tipTexture := t\<rparr>))
         else s)"

definition drawTaskbar :: "gl_config \<Rightarrow> frame_input \<Rightarrow> gl \<Rightarrow> gl" where
  "drawTaskbar G F s = drawTip G F (drawBar G F s)"

definition drawCursor :: "frame_input \<Rightarrow> gl \<Rightarrow> gl" where
  "drawCursor F s =
     (case fPointer F of
        None \<Rightarrow> s
      | Some p \<Rightarrow>
          let s = (if cursorUploaded s then s
                   else s\<lparr>cursorTexture := upload (ppWords p) (ppWidth p) (ppWidth p) (ppHeight p) (cursorTexture s),
                          cursorUploaded := True\<rparr>);
              r = rect_at (cx (fCursor F) - ppHotX p) (cy (fCursor F) - ppHotY p) (ppWidth p) (ppHeight p)
          in textured (cursorTexture s) r 0 0 2 True
               (shape_cut (rect_at (-100000) (-100000) 200000 200000) (0, 0, 0, 0) 0 s))"

definition cached_surface :: "cache_entry list \<Rightarrow> nat \<Rightarrow> bool" where
  "cached_surface cache i \<longleftrightarrow> (\<exists>k<kMaxSurfaceCache. valid (cache ! k) \<and> eid (cache ! k) = i)"

definition forget_surface :: "cache_entry list \<Rightarrow> nat \<Rightarrow> surface_texture \<Rightarrow> surface_texture" where
  "forget_surface cache n t =
     (let t = (if stSeen t then t\<lparr>stLast := n\<rparr> else t)
      in if stId t \<noteq> 0 \<and> \<not> stSeen t \<and> \<not> cached_surface cache (stId t) \<and> kTextureKeepFrames < n - stLast t
         then free_surface else t\<lparr>stSeen := False\<rparr>)"

definition forget_title :: "title_texture \<Rightarrow> title_texture" where
  "forget_title t = (if ttWindow t \<noteq> 0 \<and> \<not> ttSeen t then free_title else t\<lparr>ttSeen := False\<rparr>)"

definition forgetUnseen :: "frame_input \<Rightarrow> gl \<Rightarrow> gl" where
  "forgetUnseen F s =
     s\<lparr>surfaceSlots := map (forget_surface (vCache (fView F)) (frameNumber s)) (surfaceSlots s),
       titleSlots := map forget_title (titleSlots s)\<rparr>"

definition drawWallpaper :: "gl_config \<Rightarrow> frame_input \<Rightarrow> gl \<Rightarrow> gl" where
  "drawWallpaper G F s =
     (let b = vBackground (fView F); screen = rect_at 0 0 (gWidth G) (gHeight G)
      in case bgPixels b of
           None \<Rightarrow> s
         | Some r \<Rightarrow>
             if \<not> bgReady b then s
             else let s = (if wallpaperPixels s \<noteq> fPixels F \<or> wallpaperName s \<noteq> bgPath b
                           then s\<lparr>wallpaperTexture := upload (px r) (bgWidth b) (bgWidth b) (bgHeight b) (wallpaperTexture s),
                                  wallpaperPixels := fPixels F, wallpaperName := bounded_copy 192 (bgPath b)\<rparr>
                           else s)
                  in textured (wallpaperTexture s) screen 0 0 1 True (shape_cut screen (0, 0, 0, 0) 0 s))"

definition drawFrame :: "gl_config \<Rightarrow> frame_input \<Rightarrow> gl \<Rightarrow> gl" where
  "drawFrame G F s =
     forgetUnseen F (drawCursor F (drawTaskbar G F
       (fold (drawWindow G F) (filter is_window_visible (vWindows (fView F)))
         (drawWallpaper G F (s\<lparr>frameNumber := frameNumber s + 1, draws := []\<rparr>)))))"

text \<open>A back end that has just started: the rest of its state does not matter.\<close>

definition new_gl :: "gl_config \<Rightarrow> raster \<Rightarrow> gl" where
  "new_gl G d =
     \<lparr>unif = \<lparr>uMode = 0, uColor = Rgba 0 0, uBgra = False, uTexels = (0, 0, 0, 0), uTexture = no_texture,
        uShape = rect_at 0 0 0 0, uRadii = (0, 0, 0, 0), uRing = 0, uShadow = (0, 0)\<rparr>,
      draws = [], side = d, wallpaperTexture = no_texture, wallpaperPixels = 0, wallpaperName = [],
      barTexture = no_texture, barKey = 0, tipTexture = no_texture, cursorTexture = no_texture, cursorUploaded = False,
      surfaceSlots = replicate kMaxTextures free_surface, titleSlots = replicate kMaxTextures free_title,
      frameNumber = 0, stats = \<lparr>bufferImports = 0, windowUploads = 0, titleUploads = 0, taskbarUploads = 0\<rparr>\<rparr>"

end
