(* ===== verification/Gl_Fingerprint.thy ===== *)
theory Gl_Fingerprint
  imports Gl_Backend
begin

text \<open>
  The fingerprints by which the back end knows that a title bar or the taskbar is unchanged: the
  bytes that go into one determine what is shown, and a change of one byte always changes the
  fingerprint (a change of several may not).
\<close>

section \<open>One changed byte\<close>

lemma prime_inverse: "(0x100000001b3 :: 64 word) * 0xce965057aff6957b = 1"
  by simp

lemma times_prime_inj:
  assumes "a * 0x100000001b3 = b * (0x100000001b3 :: 64 word)"
  shows "a = b"
proof -
  have "a * 0x100000001b3 * 0xce965057aff6957b = b * 0x100000001b3 * 0xce965057aff6957b" using assms by simp
  then show ?thesis by (simp only: mult.assoc prime_inverse mult_1_right)
qed

lemma fnv_byte_inj: "fnv_byte b v = fnv_byte b v' \<longleftrightarrow> v = v'"
proof
  assume "fnv_byte b v = fnv_byte b v'"
  then have "v XOR of_nat b = v' XOR of_nat b" by (auto simp: fnv_byte_def dest: times_prime_inj)
  then have "(v XOR of_nat b) XOR of_nat b = (v' XOR of_nat b) XOR of_nat b" by simp
  then show "v = v'" by (simp add: xor.assoc)
qed simp

lemma fold_fnv_inj: "fold fnv_byte bytes v = fold fnv_byte bytes v' \<longleftrightarrow> v = v'"
  by (induction bytes arbitrary: v v') (simp_all add: fnv_byte_inj)

lemma fnv_byte_differs:
  assumes "b < 256" "b' < 256" "b \<noteq> b'"
  shows "fnv_byte b v \<noteq> fnv_byte b' v"
proof
  assume "fnv_byte b v = fnv_byte b' v"
  then have "v XOR of_nat b = v XOR of_nat b'" by (auto simp: fnv_byte_def dest: times_prime_inj)
  then have "v XOR (v XOR of_nat b) = v XOR (v XOR (of_nat b' :: 64 word))" by simp
  then have "of_nat b = (of_nat b' :: 64 word)" by (simp flip: xor.assoc)
  then have "unat (of_nat b :: 64 word) = unat (of_nat b' :: 64 word)" by simp
  then show False using assms by (simp add: unat_of_nat)
qed

text \<open>
  Two fingerprints of bytes that differ in one place are different: a title bar that gains or
  loses the focus, whose hovered control changes or that changes one character of its title is
  never taken for the one in its texture.
\<close>

theorem changed_byte_noticed:
  assumes "b < 256" "b' < 256" "b \<noteq> b'"
  shows "fingerprint (before @ b # after) \<noteq> fingerprint (before @ b' # after)"
  using fnv_byte_differs [OF assms] by (simp add: fingerprint_def fold_fnv_inj)

section \<open>The bytes determine the fields\<close>

lemma le_bytes_inj: "a < 256 ^ n \<Longrightarrow> b < 256 ^ n \<Longrightarrow> le_bytes n a = le_bytes n b \<longleftrightarrow> a = b"
  by (metis of_le_bytes_inverse)

definition int64 :: "int \<Rightarrow> bool" where
  "int64 i \<longleftrightarrow> - (2 ^ 63) \<le> i \<and> i < 2 ^ 63"

lemma length_number_bytes [simp]: "length (number_bytes i) = 8"
  by (simp add: number_bytes_def del: le_bytes.simps)

lemma number_bytes_inj:
  assumes "int64 i" "int64 j"
  shows "number_bytes i = number_bytes j \<longleftrightarrow> i = j"
proof
  assume eq: "number_bytes i = number_bytes j"
  have "nat (k mod 2 ^ 64) < 256 ^ 8" for k :: int
    by (simp add: nat_less_iff)
  then have "nat (i mod 2 ^ 64) = nat (j mod 2 ^ 64)"
    using eq le_bytes_inj [of "nat (i mod 2 ^ 64)" 8] unfolding number_bytes_def by blast
  then have "i mod 2 ^ 64 = j mod 2 ^ 64" by simp
  then have "(i + 2 ^ 63) mod 2 ^ 64 = (j + 2 ^ 63) mod 2 ^ 64" by (rule mod_add_cong) (rule refl)
  then show "i = j" using assms by (simp add: int64_def)
qed simp

lemma numbers_inj:
  assumes "\<forall>i\<in>set ns. int64 i" "\<forall>j\<in>set ms. int64 j" "length ns = length ms"
    and "concat (map number_bytes ns) @ xs = concat (map number_bytes ms) @ ys"
  shows "ns = ms \<and> xs = ys"
  using assms(3,1,2,4)
proof (induction ns ms rule: list_induct2)
  case (Cons i ns j ms)
  then have "number_bytes i = number_bytes j"
    "concat (map number_bytes ns) @ xs = concat (map number_bytes ms) @ ys" by simp_all
  then show ?case using Cons number_bytes_inj [of i j] by simp
qed simp

text \<open>A title that fits its array and has no NUL in it.\<close>

definition title_fits :: "gl_config \<Rightarrow> string \<Rightarrow> bool" where
  "title_fits G t \<longleftrightarrow> length t \<le> titleBytes G \<and> char_of (0 :: nat) \<notin> set t"

lemma title_array_inj:
  assumes "title_fits G t" "title_fits G t'"
  shows "title_array G t = title_array G t' \<longleftrightarrow> t = t'"
proof
  have chars: "takeWhile (\<lambda>b. b \<noteq> 0) (title_array G u) = map of_char u" if "title_fits G u" for u
  proof -
    have "of_char c \<noteq> (0 :: nat)" if "c \<in> set u" for c
    proof
      assume "of_char c = (0 :: nat)"
      then have "c = char_of (0 :: nat)" by (metis char_of_char)
      then show False using \<open>title_fits G u\<close> that by (simp add: title_fits_def)
    qed
    then show ?thesis
      by (cases "titleBytes G - length u") (auto simp: title_array_def takeWhile_append)
  qed
  assume "title_array G t = title_array G t'"
  then have "map of_char t = (map of_char t' :: nat list)" using chars assms by metis
  then show "t = t'" by (simp add: inj_map_eq_map inj_of_char)
qed simp

lemma length_title_array: "title_fits G t \<Longrightarrow> length (title_array G t) = titleBytes G"
  by (simp add: title_array_def title_fits_def)

end
