(* ===== verification/Gl_Pictures.thy ===== *)
theory Gl_Pictures
  imports Gl_Fingerprint Compositor_Redraw
begin

text \<open>
  The pictures the processor draws for the GL back end: two title bars with the same fields are the
  same picture wherever their windows are, two taskbars with the same fields are the same, and none
  depends on what the side buffer held before.
\<close>

section \<open>Laws of the canvas\<close>

definition shift_rect :: "int \<Rightarrow> int \<Rightarrow> rect \<Rightarrow> rect" where
  "shift_rect dx dy r = rect_at (rx r + dx) (ry r + dy) (rw r) (rh r)"

fun shift_op :: "int \<Rightarrow> int \<Rightarrow> canvas_op \<Rightarrow> canvas_op" where
  "shift_op dx dy (FillOp r c) = FillOp (shift_rect dx dy r) c"
| "shift_op dx dy (RoundedOp r q c) = RoundedOp (shift_rect dx dy r) q c"
| "shift_op dx dy (FrameOp r c width q) = FrameOp (shift_rect dx dy r) c width q"
| "shift_op dx dy (ImageOp i x y) = ImageOp i (x + dx) (y + dy)"
| "shift_op dx dy (TextOp r s f c a) = TextOp (shift_rect dx dy r) s f c a"
| "shift_op dx dy (CopyOp words pitch s x y opq) = CopyOp words pitch s (x + dx) (y + dy) opq"
| "shift_op dx dy (BlendOp x y c a) = BlendOp (x + dx) (y + dy) c a"
| "shift_op dx dy (GradientOp r) = GradientOp (shift_rect dx dy r)"

text \<open>
  Painting is the same everywhere on the canvas, a rounded rectangle does not depend on its place
  nor its upper part on its height, a fill with a color of the theme is opaque.
\<close>

definition place_laws :: "painter \<Rightarrow> canvas_lib \<Rightarrow> bool" where
  "place_laws P L \<longleftrightarrow>
     (\<forall>op dx dy x y v. pixel L (shift_op dx dy op) (x + dx) (y + dy) v = pixel L op x y v) \<and>
     (\<forall>r q dx dy x y. rounded (pui P) (shift_rect dx dy r) q (x + dx) (y + dy) = rounded (pui P) r q x y) \<and>
     (\<forall>r h q x y. 0 \<le> q \<and> y < ry r + rh r - q \<and> y < ry r + h - q \<longrightarrow>
        rounded (pui P) (r\<lparr>rh := h\<rparr>) q x y = rounded (pui P) r q x y) \<and>
     (\<forall>r c x y v v'. inside r x y \<longrightarrow> pixel L (FillOp r (Theme c)) x y v = pixel L (FillOp r (Theme c)) x y v')"

definition clock_law :: "painter \<Rightarrow> bool" where
  "clock_law P \<longleftrightarrow> (\<forall>d s. timeString P (d\<lparr>second := s\<rparr>) = timeString P d)"

text \<open>The state of a window has 32 bits.\<close>

definition state_flags :: "window_flag set" where
  "state_flags = {Minimized, Closed, Focused, Maximized} \<union> OtherFlag ` {..<28}"

definition gl_laws :: "gl_config \<Rightarrow> bool" where
  "gl_laws G \<longleftrightarrow> painter_laws (gPainter G) \<and> canvas_laws (gCanvas G) \<and> place_laws (gPainter G) (gCanvas G) \<and>
     clock_law (gPainter G) \<and> inj_on (stateBits G) (Pow state_flags) \<and> (\<forall>st\<in>Pow state_flags. stateBits G st < 2 ^ 32)"

lemma state_bits:
  assumes "gl_laws G" "st \<subseteq> state_flags"
  shows "stateBits G st < 2 ^ 32" "st' \<subseteq> state_flags \<Longrightarrow> stateBits G st = stateBits G st' \<longleftrightarrow> st = st'"
  using assms by (auto simp: gl_laws_def inj_on_def)

lemma shown_flags [simp]: "st \<inter> {Focused, Maximized} \<subseteq> state_flags"
  by (auto simp: state_flags_def)

lemma shifted_pixel: "place_laws P L \<Longrightarrow> pixel L (shift_op dx dy op) (x + dx) (y + dy) v = pixel L op x y v"
  unfolding place_laws_def by (elim conjE) blast

lemma shifted_rounded:
  "place_laws P L \<Longrightarrow> rounded (pui P) (shift_rect dx dy r) q (x + dx) (y + dy) = rounded (pui P) r q x y"
  unfolding place_laws_def by (elim conjE) blast

lemma rounded_top:
  "place_laws P L \<Longrightarrow> 0 \<le> q \<Longrightarrow> y < ry r + rh r - q \<Longrightarrow> y < ry r + h - q \<Longrightarrow>
   rounded (pui P) (r\<lparr>rh := h\<rparr>) q x y = rounded (pui P) r q x y"
  unfolding place_laws_def by (elim conjE) blast

lemma opaque_fill:
  "place_laws P L \<Longrightarrow> inside r x y \<Longrightarrow> pixel L (FillOp r (Theme c)) x y v = pixel L (FillOp r (Theme c)) x y v'"
  unfolding place_laws_def by (elim conjE) metis

lemma inside_shift [simp]: "inside (shift_rect dx dy r) (x + dx) (y + dy) = inside r x y"
  by (auto simp: inside_def shift_rect_def)

section \<open>Moved pictures\<close>

text \<open>The operations make at the moved point what the others make at the point.\<close>

definition moved :: "canvas_lib \<Rightarrow> int \<Rightarrow> int \<Rightarrow> int \<Rightarrow> int \<Rightarrow> canvas_op list \<Rightarrow> canvas_op list \<Rightarrow> bool" where
  "moved L dx dy x y as bs \<longleftrightarrow> (\<forall>v. effect L bs (x + dx) (y + dy) v = effect L as x y v)"

lemma moved_append: "moved L dx dy x y as as' \<Longrightarrow> moved L dx dy x y bs bs' \<Longrightarrow> moved L dx dy x y (as @ bs) (as' @ bs')"
  by (simp add: moved_def)

lemma moved_concat:
  "(\<And>k. k \<in> set ks \<Longrightarrow> moved L dx dy x y (f k) (g k)) \<Longrightarrow>
   moved L dx dy x y (concat (map f ks)) (concat (map g ks))"
  by (induction ks) (auto intro: moved_append simp: moved_def)

lemma moved_shift: "place_laws P L \<Longrightarrow> moved L dx dy x y ops (map (shift_op dx dy) ops)"
  unfolding moved_def
proof
  fix v assume "place_laws P L"
  then show "effect L (map (shift_op dx dy) ops) (x + dx) (y + dy) v = effect L ops x y v"
    by (induction ops arbitrary: v) (simp_all add: shifted_pixel)
qed

section \<open>Title bars\<close>

definition tall :: "window_info \<Rightarrow> bool" where
  "tall w \<longleftrightarrow> sizable w \<and> 11 \<le> wheight w"

definition hovered_control :: "view \<Rightarrow> window_info \<Rightarrow> int" where
  "hovered_control V w = (if fst (vHover V) = wid w then snd (vHover V) else -1)"

text \<open>Windows whose title bars show the same.\<close>

definition same_title :: "view \<Rightarrow> window_info \<Rightarrow> view \<Rightarrow> window_info \<Rightarrow> bool" where
  "same_title V w V' w' \<longleftrightarrow> title w = title w' \<and> wwidth w = wwidth w' \<and>
     wstate w \<inter> {Focused, Maximized} = wstate w' \<inter> {Focused, Maximized} \<and> hovered_control V w = hovered_control V' w'"

lemma same_title_simps:
  assumes "same_title V w V' w'"
  shows "title w' = title w" "wwidth w' = wwidth w" "Focused \<in> wstate w' \<longleftrightarrow> Focused \<in> wstate w"
    "Maximized \<in> wstate w' \<longleftrightarrow> Maximized \<in> wstate w"
    "fst (vHover V') = wid w' \<and> snd (vHover V') = int c \<longleftrightarrow> fst (vHover V) = wid w \<and> snd (vHover V) = int c"
  using assms by (auto simp: same_title_def hovered_control_def split: if_splits)

lemma moved_button:
  "same_title V w V' w' \<Longrightarrow>
   window_control_rect w' (int c) = shift_rect (wx w' - wx w) (wy w' - wy w) (window_control_rect w (int c))"
  by (simp add: same_title_def control_rect shift_rect_def)

lemma moved_body_rounded:
  assumes "painter_laws P" "place_laws P L" "same_title V w V' w'" "tall w" "tall w'"
    and "inside (window_control_rect w 0) x y"
  shows "rounded (pui P) (inset P (window_frame_rect w') kBorder) (kWindowCornerRadius - kBorder) (x + (wx w' - wx w)) (y + (wy w' - wy w)) =
    rounded (pui P) (inset P (window_frame_rect w) kBorder) (kWindowCornerRadius - kBorder) x y"
proof -
  let ?body = "inset P (window_frame_rect w) kBorder" and ?dx = "wx w' - wx w" and ?dy = "wy w' - wy w"
  have body': "inset P (window_frame_rect w') kBorder = shift_rect ?dx ?dy (?body\<lparr>rh := wheight w' + 39\<rparr>)"
    using assms(1,3) by (simp add: painter_simps frame_defs same_title_def shift_rect_def)
  have "y \<le> wy w + 39" using assms(6) control_rect [of w 0] by (simp add: inside_def)
  then show ?thesis
    unfolding body' shifted_rounded [OF assms(2)]
    using assms(1,4,5) by (intro rounded_top [OF assms(2)]) (simp_all add: painter_simps frame_defs tall_def kWindowCornerRadius_def)
qed

lemma moved_close_hover:
  assumes P: "painter_laws P" and L: "canvas_laws L" and Q: "place_laws P L" and same: "same_title V w V' w'"
    and tall: "tall w" "tall w'" and clip: "inside clip x y" "inside clip' (x + (wx w' - wx w)) (y + (wy w' - wy w))"
  shows "moved L (wx w' - wx w) (wy w' - wy w) x y
    (fill_close_hover P clip (window_control_rect w 0) (inset P (window_frame_rect w) kBorder) (kWindowCornerRadius - kBorder) c)
    (fill_close_hover P clip' (window_control_rect w' 0) (inset P (window_frame_rect w') kBorder) (kWindowCornerRadius - kBorder) c)"
proof -
  have body: "rx (inset P (window_frame_rect u) kBorder) + (kWindowCornerRadius - kBorder) \<le> rx (window_control_rect u 0)"
    "2 * (kWindowCornerRadius - kBorder) < rw (inset P (window_frame_rect u) kBorder)" "0 \<le> kWindowCornerRadius - kBorder"
    if "tall u" for u
    using P that control_rect [of u 0] by (simp_all add: painter_simps frame_defs tall_def sizable_def kWindowCornerRadius_def)
  have button: "window_control_rect w' 0 = shift_rect (wx w' - wx w) (wy w' - wy w) (window_control_rect w 0)"
    using moved_button [OF same, of 0] by simp
  have "pixel L (FillOp (window_control_rect w' 0) c) (x + (wx w' - wx w)) (y + (wy w' - wy w)) v =
      pixel L (FillOp (window_control_rect w 0) c) x y v" for v
    using shifted_pixel [OF Q, of _ _ "FillOp (window_control_rect w 0) c"] by (simp add: button)
  moreover have "inside (window_control_rect w' 0) (x + (wx w' - wx w)) (y + (wy w' - wy w)) = inside (window_control_rect w 0) x y"
    by (simp only: button inside_shift)
  ultimately show ?thesis
    using moved_body_rounded [OF P Q same tall]
    by (auto simp: moved_def close_hover_effect [OF P L clip(1) body [OF tall(1)]] close_hover_effect [OF P L clip(2) body [OF tall(2)]])
qed

lemma moved_control:
  assumes P: "painter_laws P" and L: "canvas_laws L" and Q: "place_laws P L" and same: "same_title V w V' w'"
    and tall: "tall w" "tall w'" and clip: "inside clip x y" "inside clip' (x + (wx w' - wx w)) (y + (wy w' - wy w))"
  shows "moved L (wx w' - wx w) (wy w' - wy w) x y (draw_control P V clip w c) (draw_control P V' clip' w' c)"
proof -
  have fill: "moved L (wx w' - wx w) (wy w' - wy w) x y [FillOp (window_control_rect w (int c)) color]
      [FillOp (window_control_rect w' (int c)) color]" for color
    using moved_shift [OF Q, of _ _ x y "[FillOp (window_control_rect w (int c)) color]"] by (simp add: moved_button [OF same])
  have glyph: "moved L (wx w' - wx w) (wy w' - wy w) x y
      [ImageOp i (rx (window_control_rect w (int c)) + n) (ry (window_control_rect w (int c)) + m)]
      [ImageOp i (rx (window_control_rect w' (int c)) + n) (ry (window_control_rect w' (int c)) + m)]" for i n m
    using moved_shift [OF Q, of "wx w' - wx w" "wy w' - wy w" x y
        "[ImageOp i (rx (window_control_rect w (int c)) + n) (ry (window_control_rect w (int c)) + m)]"]
    by (simp add: moved_button [OF same] shift_rect_def algebra_simps)
  have sides: "rw (window_control_rect w' (int c)) = rw (window_control_rect w (int c))"
    "rh (window_control_rect w' (int c)) = rh (window_control_rect w (int c))"
    by (simp_all add: moved_button [OF same] shift_rect_def)
  note both = moved_append [OF fill glyph, unfolded append.simps]
  have none: "moved L (wx w' - wx w) (wy w' - wy w) x y [] []" by (simp add: moved_def)
  show ?thesis
    unfolding draw_control_def Let_def same_title_simps [OF same] sides
    using moved_close_hover [OF P L Q same tall clip] fill glyph none both
    by (cases "c = 0") (auto intro!: moved_append)
qed

lemma moved_title:
  assumes P: "painter_laws P" and L: "canvas_laws L" and Q: "place_laws P L" and same: "same_title V w V' w'"
    and tall: "tall w" "tall w'" and clip: "inside clip x y" "inside clip' (x + (wx w' - wx w)) (y + (wy w' - wy w))"
  shows "moved L (wx w' - wx w) (wy w' - wy w) x y (draw_window_title P V clip w) (draw_window_title P V' clip' w')"
proof -
  let ?dx = "wx w' - wx w" and ?dy = "wy w' - wy w"
  have icon: "moved L ?dx ?dy x y [ImageOp i (rx (window_frame_rect w) + n) (ry (window_frame_rect w) + m)]
      [ImageOp i (rx (window_frame_rect w') + n) (ry (window_frame_rect w') + m)]" for i n m
    using moved_shift [OF Q, of ?dx ?dy x y "[ImageOp i (rx (window_frame_rect w) + n) (ry (window_frame_rect w) + m)]"]
    by (simp add: window_frame_rect_def algebra_simps)
  have left: "rx (window_control_rect u 2) = wx u + wwidth u - 137" for u using control_rect [of u 2] by simp
  have name: "moved L ?dx ?dy x y
      [TextOp (rect_at (rx (window_frame_rect w) + n) (ry (window_frame_rect w))
         (rx (window_control_rect w 2) - rx (window_frame_rect w) - m - 8) h) s f c a]
      [TextOp (rect_at (rx (window_frame_rect w') + n) (ry (window_frame_rect w'))
         (rx (window_control_rect w' 2) - rx (window_frame_rect w') - m - 8) h) s f c a]" for n m h s f c a
    using moved_shift [OF Q, of ?dx ?dy x y "[TextOp (rect_at (rx (window_frame_rect w) + n) (ry (window_frame_rect w))
         (rx (window_control_rect w 2) - rx (window_frame_rect w) - m - 8) h) s f c a]"] same
    by (simp add: left same_title_def window_frame_rect_def shift_rect_def algebra_simps)
  have none: "moved L ?dx ?dy x y [] []" by (simp add: moved_def)
  show ?thesis
    unfolding draw_window_title_def Let_def same_title_simps [OF same]
    using icon name none moved_control [OF P L Q same tall clip]
    by (intro moved_append moved_concat) auto
qed

text \<open>The texel at a place of a rectangle of the side buffer.\<close>

lemma uploaded_side:
  assumes "screen_sized (gWidth G) (gHeight G) d"
  shows "texels (uploadSide G d r t) = Words (\<lambda>i j. if 0 \<le> i \<and> i < rw r \<and> 0 \<le> j \<and> j < rh r
    then at_px d (rx r + i) (ry r + j) else 0)"
  using assms
  by (auto simp: uploadSide_def upload_def at_px_def screen_sized_def algebra_simps intro!: ext arg_cong [where f = "px d"])

lemma uploaded_size:
  "twidth (uploadSide G d r t) = rw r" "theight (uploadSide G d r t) = rh r" "tmade (uploadSide G d r t)"
  by (auto simp: uploadSide_def upload_def makeTexture_def)

lemma run_ops_screen:
  assumes "painter_laws (gPainter G)" "screen_sized (gWidth G) (gHeight G) d"
    and "\<And>x y. inside r x y \<Longrightarrow> inside (rect_at 0 0 (gWidth G) (gHeight G)) x y" "inside r x y"
  shows "at_px (run_ops (gCanvas G) (clip_to (gPainter G) (gWidth G) (gHeight G) r) ops d) x y =
    effect (gCanvas G) ops x y (at_px d x y)"
proof -
  have "inside (clip_to (gPainter G) (gWidth G) (gHeight G) r) x y"
    using assms(3) [OF assms(4)] assms(1,4) by (simp add: clip_to_def painter_simps)
  moreover have "0 \<le> x" "x < rpitch d" using assms(2) assms(3) [OF assms(4)] by (simp_all add: screen_sized_def inside_def)
  ultimately show ?thesis by (simp add: run_ops_at)
qed

lemma title_rect_inside:
  assumes "painter_laws (gPainter G)"
  shows "inside (title_rect G w) x y \<longleftrightarrow>
    inside (rect_at (wx w + 1) (wy w + 1) (wwidth w) 39) x y \<and> inside (rect_at 0 0 (gWidth G) (gHeight G)) x y"
  using assms by (simp add: title_rect_def painter_simps frame_defs)

definition title_body :: "gl_config \<Rightarrow> window_info \<Rightarrow> rect" where
  "title_body G w = inset (gPainter G) (window_frame_rect w) kBorder"

lemma title_body_at: "painter_laws (gPainter G) \<Longrightarrow> rx (title_body G w) = wx w + 1 \<and> ry (title_body G w) = wy w + 1"
  by (simp add: title_body_def painter_simps frame_defs)

text \<open>Coordinates are C integers; the hovered control and the title fit their fields.\<close>

definition c_window :: "gl_config \<Rightarrow> view \<Rightarrow> window_info \<Rightarrow> bool" where
  "c_window G V w \<longleftrightarrow> wwidth w < 2 ^ 31 \<and> int64 (snd (vHover V)) \<and> title_fits G (title w) \<and> wid w < 2 ^ 63 \<and>
     wstate w \<subseteq> state_flags"

lemma title_numbers:
  assumes "painter_laws (gPainter G)" "\<not> empty_rect (rects (pui (gPainter G))) (title_rect G w)" "wwidth w < 2 ^ 31"
  shows "0 < rw (title_rect G w) \<and> rw (title_rect G w) < 2 ^ 31" "0 < rh (title_rect G w) \<and> rh (title_rect G w) < 2 ^ 31"
    and "int64 (rx (title_rect G w) - rx (title_body G w))" "int64 (ry (title_rect G w) - ry (title_body G w))"
proof -
  let ?r = "title_rect G w"
  have pos: "0 < rw ?r" "0 < rh ?r" using assms(1,2) by (simp_all add: painter_simps)
  then have "inside ?r (rx ?r) (ry ?r)" "inside ?r (rx ?r + rw ?r - 1) (ry ?r + rh ?r - 1)" by (simp_all add: inside_def)
  then have "inside (rect_at (wx w + 1) (wy w + 1) (wwidth w) 39) (rx ?r) (ry ?r)"
    "inside (rect_at (wx w + 1) (wy w + 1) (wwidth w) 39) (rx ?r + rw ?r - 1) (ry ?r + rh ?r - 1)"
    unfolding title_rect_inside [OF assms(1)] by blast+
  then show "0 < rw ?r \<and> rw ?r < 2 ^ 31" "0 < rh ?r \<and> rh ?r < 2 ^ 31"
    "int64 (rx ?r - rx (title_body G w))" "int64 (ry ?r - ry (title_body G w))"
    using assms(3) pos by (auto simp: inside_def int64_def title_body_at [OF assms(1)])
qed

text \<open>Equal fields: the same title, at the same place of the part of it on the screen.\<close>

lemma same_title_fields:
  assumes G: "gl_laws G" and c: "c_window G V w" "c_window G V' w'" and width: "wwidth w = wwidth w'"
    and shown: "\<not> empty_rect (rects (pui (gPainter G))) (title_rect G w)"
      "\<not> empty_rect (rects (pui (gPainter G))) (title_rect G w')"
    and eq: "title_fields G V w (title_rect G w) (title_body G w) = title_fields G V' w' (title_rect G w') (title_body G w')"
  shows "same_title V w V' w' \<and> title_rect G w' = shift_rect (wx w' - wx w) (wy w' - wy w) (title_rect G w)"
proof -
  have P: "painter_laws (gPainter G)" using G by (simp add: gl_laws_def)
  let ?ns = "\<lambda>V w. [rw (title_rect G w), rh (title_rect G w), rx (title_rect G w) - rx (title_body G w),
    ry (title_rect G w) - ry (title_body G w), int (stateBits G (wstate w \<inter> {Focused, Maximized})), hovered_control V w]"
  have ints: "\<forall>i\<in>set (?ns V w). int64 i"
    if "c_window G V w" "\<not> empty_rect (rects (pui (gPainter G))) (title_rect G w)" for V w
  proof -
    have "stateBits G (wstate w \<inter> {Focused, Maximized}) < 2 ^ 32" by (rule state_bits(1) [OF G shown_flags])
    then have "int64 (int (stateBits G (wstate w \<inter> {Focused, Maximized})))" by (simp add: int64_def)
    moreover have "int64 (hovered_control V w)" using that(1) by (simp add: hovered_control_def c_window_def int64_def)
    moreover have "wwidth w < 2 ^ 31" using that(1) by (simp add: c_window_def)
    ultimately show ?thesis using title_numbers [OF P that(2)] by (simp add: int64_def)
  qed
  have "title_fields G V w (title_rect G w) (title_body G w) = concat (map number_bytes (?ns V w)) @ title_array G (title w)" for V w
    unfolding title_fields_def hovered_control_def ..
  then have "?ns V w = ?ns V' w' \<and> title_array G (title w) = title_array G (title w')"
    using eq by (intro numbers_inj [OF ints [OF c(1) shown(1)] ints [OF c(2) shown(2)]]) simp_all
  moreover from this have "title w = title w'"
    using c title_array_inj [of G "title w" "title w'"] by (simp add: c_window_def)
  moreover have "stateBits G (wstate w \<inter> {Focused, Maximized}) = stateBits G (wstate w' \<inter> {Focused, Maximized}) \<longleftrightarrow>
      wstate w \<inter> {Focused, Maximized} = wstate w' \<inter> {Focused, Maximized}"
    by (rule state_bits(2) [OF G shown_flags shown_flags])
  ultimately show ?thesis
    using width title_body_at [OF P, of w] title_body_at [OF P, of w']
    by (auto simp: same_title_def shift_rect_def)
qed

lemma same_title_texels:
  assumes G: "gl_laws G" and tall: "tall w" "tall w'" and same: "same_title V w V' w'"
    and r: "title_rect G w' = shift_rect (wx w' - wx w) (wy w' - wy w) (title_rect G w)"
    and d: "screen_sized (gWidth G) (gHeight G) d" "screen_sized (gWidth G) (gHeight G) d'"
  shows "texels (uploadSide G (paint_title G V w d) (title_rect G w) t) =
    texels (uploadSide G (paint_title G V' w' d') (title_rect G w') t')"
proof -
  let ?dx = "wx w' - wx w" and ?dy = "wy w' - wy w" and ?r = "title_rect G w" and ?r' = "title_rect G w'"
  have P: "painter_laws (gPainter G)" and L: "canvas_laws (gCanvas G)" and Q: "place_laws (gPainter G) (gCanvas G)"
    using G by (simp_all add: gl_laws_def)
  let ?clip = "clip_to (gPainter G) (gWidth G) (gHeight G)"
  have screen: "inside (title_rect G u) x y \<Longrightarrow> inside (rect_at 0 0 (gWidth G) (gHeight G)) x y" for u x y
    by (simp add: title_rect_inside [OF P])
  have clip: "inside (title_rect G u) x y \<Longrightarrow> inside (?clip (title_rect G u)) x y" for u x y
    using screen [of u x y] P by (simp add: clip_to_def painter_simps)
  have sized: "screen_sized (gWidth G) (gHeight G) (paint_title G U u e)"
    if "screen_sized (gWidth G) (gHeight G) e" for U u e
    using that shape_run [of "gCanvas G" "?clip (title_rect G u)" _ e]
    by (simp add: paint_title_def Let_def screen_sized_def shape_def)
  have "at_px (paint_title G V w d) x y = at_px (paint_title G V' w' d') (x + ?dx) (y + ?dy)" if p: "inside ?r x y" for x y
  proof -
    have p': "inside ?r' (x + ?dx) (y + ?dy)" using p by (simp only: r inside_shift)
    have fill: "pixel (gCanvas G) (FillOp ?r' (Theme WindowColor)) (x + ?dx) (y + ?dy) v' =
        pixel (gCanvas G) (FillOp ?r (Theme WindowColor)) x y v" for v v'
      using shifted_pixel [OF Q, of ?dx ?dy "FillOp ?r (Theme WindowColor)" x y v'] opaque_fill [OF Q p, of WindowColor v v']
      by (simp add: r)
    have painted: "at_px (paint_title G U u e) a b = effect (gCanvas G)
        (FillOp (title_rect G u) (Theme WindowColor) # draw_window_title (gPainter G) U (?clip (title_rect G u)) u) a b (at_px e a b)"
      if "screen_sized (gWidth G) (gHeight G) e" "inside (title_rect G u) a b" for U u e a b
      unfolding paint_title_def Let_def by (rule run_ops_screen [OF P that(1) _ that(2)]) (rule screen)
    show ?thesis
      unfolding painted [OF d(1) p] painted [OF d(2) p']
        effect_simps(2) fill [of "at_px d' (x + ?dx) (y + ?dy)" "at_px d x y"]
      using moved_title [OF P L Q same tall clip [OF p] clip [OF p']] by (simp add: moved_def)
  qed
  then have "at_px (paint_title G V w d) (rx ?r + i) (ry ?r + j) = at_px (paint_title G V' w' d') (rx ?r' + i) (ry ?r' + j)"
    if "0 \<le> i" "i < rw ?r" "0 \<le> j" "j < rh ?r" for i j
    using that by (simp add: r shift_rect_def inside_def add.commute add.left_commute)
  moreover have "rw ?r' = rw ?r" "rh ?r' = rh ?r" by (simp_all add: r shift_rect_def)
  ultimately show ?thesis
    unfolding uploaded_side [OF sized [OF d(1)]] uploaded_side [OF sized [OF d(2)]] by (auto intro!: ext)
qed

end
