(* ===== verification/Gl_Bar.thy ===== *)
theory Gl_Bar
  imports Gl_Pictures Compositor_Taskbar
begin

text \<open>
  The taskbar's texture: the fields of its fingerprint determine all that the taskbar draws, and over
  the blurred strip of the wallpaper its picture does not depend on the side buffer.
\<close>

section \<open>What the taskbar shows of the windows\<close>

definition bar_window :: "window_info \<Rightarrow> nat \<times> window_flag set \<times> string" where
  "bar_window w = (wid w, wstate w, title w)"

lemma fold_related:
  "list_all2 R xs ys \<Longrightarrow> (\<And>x y a b. R x y \<Longrightarrow> S a b \<Longrightarrow> S (f x a) (g y b)) \<Longrightarrow> S a b \<Longrightarrow> S (fold f xs a) (fold g ys b)"
  by (induction arbitrary: a b rule: list_all2_induct) auto

abbreviation same_windows :: "window_info list \<Rightarrow> window_info list \<Rightarrow> bool" where
  "same_windows ws ws' \<equiv> list_all2 (\<lambda>w w'. bar_window w = bar_window w') ws ws'"

lemma same_layout:
  assumes "same_windows ws ws'"
  shows "taskbar_layout sw sh ws = taskbar_layout sw sh ws'"
proof -
  have "fold add_tile ws ts = fold add_tile ws' ts" for ts
    using assms by (rule fold_related [where S = "(=)"]) (simp_all add: add_tile_def bar_window_def is_open_def)
  then show ?thesis by (simp add: taskbar_layout_def)
qed

lemma same_tile_window:
  assumes "same_windows ws ws'"
  shows "rel_option (\<lambda>w w'. bar_window w = bar_window w') (tile_window t ws) (tile_window t ws')"
proof (cases "tslot t < 0")
  case True
  have "rel_option (\<lambda>w w'. bar_window w = bar_window w') (window_by_id ws i) (window_by_id ws' i)" for i
    using assms unfolding window_by_id_def
    by (induction rule: list_all2_induct) (auto simp: bar_window_def)
  from this [of "twindow t"] show ?thesis
    using True
    by (cases "window_by_id ws (twindow t)"; cases "window_by_id ws' (twindow t)")
       (simp_all add: tile_window_def bar_window_def is_open_def)
next
  case False
  have "rel_option (\<lambda>w w'. bar_window w = bar_window w') (fold (better_window (tslot t)) ws None) (fold (better_window (tslot t)) ws' None)"
    using assms
  proof (rule fold_related)
    fix w w' :: window_info and a b
    assume "bar_window w = bar_window w'" "rel_option (\<lambda>w w'. bar_window w = bar_window w') a b"
    then show "rel_option (\<lambda>w w'. bar_window w = bar_window w') (better_window (tslot t) w a) (better_window (tslot t) w' b)"
      by (cases a; cases b) (auto simp: better_window_def bar_window_def is_open_def is_active_def)
  qed simp
  then show ?thesis using False by (simp add: tile_window_def)
qed

text \<open>Views whose taskbars show the same; the seconds do not show.\<close>

definition same_bar_view :: "view \<Rightarrow> view \<Rightarrow> bool" where
  "same_bar_view V V' \<longleftrightarrow> same_windows (vWindows V) (vWindows V') \<and> vTileHover V = vTileHover V' \<and>
     vOnline V = vOnline V' \<and> (vNow V)\<lparr>second := 0\<rparr> = (vNow V')\<lparr>second := 0\<rparr> \<and>
     barBlur (vBackground V) = barBlur (vBackground V') \<and> barBlurRect (vBackground V) = barBlurRect (vBackground V')"

lemma same_clock:
  assumes "clock_law P" "d\<lparr>second := 0\<rparr> = d'\<lparr>second := 0\<rparr>"
  shows "timeString P d = timeString P d'" "format_date d n = format_date d' n"
proof -
  have "timeString P (d\<lparr>second := 0\<rparr>) = timeString P d" "timeString P (d'\<lparr>second := 0\<rparr>) = timeString P d'"
    using assms(1) by (simp_all add: clock_law_def)
  then show "timeString P d = timeString P d'" using assms(2) by simp
  have "format_date (d\<lparr>second := 0\<rparr>) n = format_date d n" "format_date (d'\<lparr>second := 0\<rparr>) n = format_date d' n"
    by (simp_all add: format_date_def)
  then show "format_date d n = format_date d' n" using assms(2) by metis
qed

lemma same_tile:
  assumes "same_bar_view V V'"
  shows "draw_tile P V i t = draw_tile P V' i t"
proof -
  have "vTileHover V' = vTileHover V" using assms by (simp add: same_bar_view_def)
  moreover have "rel_option (\<lambda>w w'. bar_window w = bar_window w') (tile_window t (vWindows V)) (tile_window t (vWindows V'))"
    using assms by (simp add: same_bar_view_def same_tile_window)
  ultimately show ?thesis
    by (cases "tile_window t (vWindows V)"; cases "tile_window t (vWindows V')")
       (auto simp: draw_tile_def Let_def bar_window_def is_active_def)
qed

lemma same_label:
  assumes "same_bar_view V V'"
  shows "tile_label t (tile_window t (vWindows V)) = tile_label t (tile_window t (vWindows V'))"
proof -
  have "rel_option (\<lambda>w w'. bar_window w = bar_window w') (tile_window t (vWindows V)) (tile_window t (vWindows V'))"
    using assms by (simp add: same_bar_view_def same_tile_window)
  then show ?thesis
    by (cases "tile_window t (vWindows V)"; cases "tile_window t (vWindows V')") (auto simp: tile_label_def bar_window_def)
qed

lemma same_taskbar:
  assumes "clock_law P" "same_bar_view V V'"
  shows "draw_taskbar P V width height clip = draw_taskbar P V' width height clip"
proof -
  have layout: "taskbar_layout width height (vWindows V) = taskbar_layout width height (vWindows V')"
    using assms(2) by (intro same_layout) (simp add: same_bar_view_def)
  have "draw_bar_backdrop P clip b (vBackground V) = draw_bar_backdrop P clip b (vBackground V')" for b
  proof -
    have "barBlur (vBackground V) = barBlur (vBackground V')" "barBlurRect (vBackground V) = barBlurRect (vBackground V')"
      using assms(2) by (simp_all add: same_bar_view_def)
    then show ?thesis unfolding draw_bar_backdrop_def by (simp only:)
  qed
  moreover have "draw_tray P V b = draw_tray P V' b" for b
    using assms(2) same_clock [OF assms(1), of "vNow V" "vNow V'"] by (simp add: draw_tray_def same_bar_view_def)
  moreover have "draw_tooltip P V l = draw_tooltip P V' l" for l
    using assms(2) same_label [OF assms(2)]
    by (simp add: draw_tooltip_def taskbar_tooltip_rect_def Let_def same_bar_view_def)
  ultimately show ?thesis
    unfolding draw_taskbar_def layout Let_def by (simp add: same_tile [OF assms(2)])
qed

section \<open>The fields determine what it shows\<close>

definition window_bytes :: "gl_config \<Rightarrow> window_info \<Rightarrow> nat list" where
  "window_bytes G w = number_bytes (int (wid w)) @ number_bytes (int (stateBits G (wstate w))) @ title_array G (title w)"

definition bar_numbers :: "frame_input \<Rightarrow> rect \<Rightarrow> int list" where
  "bar_numbers F b =
     (let V = fView F; d = vNow V
      in [rx b, ry b, rw b, rh b, vTileHover V, if vOnline V then 1 else 0, int (fBlur F),
          int (year d), int (month d), int (day d), int (hour d), int (minute d)])"

lemma taskbar_fields_split:
  "taskbar_fields G F b = concat (map number_bytes (bar_numbers F b)) @ concat (map (window_bytes G) (vWindows (fView F)))"
  by (simp add: taskbar_fields_def bar_numbers_def window_bytes_def [abs_def] Let_def)

lemma window_bytes_nonempty [simp]: "window_bytes G w \<noteq> []"
proof -
  have "length (window_bytes G w) \<noteq> 0" by (simp add: window_bytes_def)
  then show ?thesis by simp
qed

definition bar_fits :: "gl_config \<Rightarrow> window_info \<Rightarrow> bool" where
  "bar_fits G w \<longleftrightarrow> title_fits G (title w) \<and> wid w < 2 ^ 63 \<and> wstate w \<subseteq> state_flags"

lemma windows_bytes_inj:
  assumes "gl_laws G" "\<forall>w\<in>set ws. bar_fits G w" "\<forall>w\<in>set ws'. bar_fits G w"
    and "concat (map (window_bytes G) ws) = concat (map (window_bytes G) ws')"
  shows "same_windows ws ws'"
  using assms(2-4)
proof (induction ws arbitrary: ws')
  case Nil
  then show ?case by (cases ws') auto
next
  case (Cons w ws)
  then obtain u us where ws': "ws' = u # us" by (cases ws') auto
  have fits: "title_fits G (title w)" "title_fits G (title u)" "wstate w \<subseteq> state_flags" "wstate u \<subseteq> state_flags"
    "wid w < 2 ^ 63" "wid u < 2 ^ 63"
    using Cons.prems by (simp_all add: ws' bar_fits_def)
  then have len: "length (title_array G (title w)) = length (title_array G (title u))" by (simp add: length_title_array)
  have bits: "int64 (int (stateBits G (wstate w)))" "int64 (int (stateBits G (wstate u)))"
    using state_bits(1) [OF assms(1) fits(3)] state_bits(1) [OF assms(1) fits(4)] by (simp_all add: int64_def)
  have ids: "int64 (int (wid w))" "int64 (int (wid u))" using fits(5,6) by (simp_all add: int64_def)
  have "concat (map number_bytes [int (wid w), int (stateBits G (wstate w))]) @ title_array G (title w) @ concat (map (window_bytes G) ws) =
      concat (map number_bytes [int (wid u), int (stateBits G (wstate u))]) @ title_array G (title u) @ concat (map (window_bytes G) us)"
    using Cons.prems(3) by (simp add: ws' window_bytes_def [abs_def])
  then have "[int (wid w), int (stateBits G (wstate w))] = [int (wid u), int (stateBits G (wstate u))] \<and>
      title_array G (title w) @ concat (map (window_bytes G) ws) = title_array G (title u) @ concat (map (window_bytes G) us)"
    by (intro numbers_inj) (simp_all add: bits ids)
  then have "wid w = wid u" "wstate w = wstate u" "title_array G (title w) = title_array G (title u)"
    "concat (map (window_bytes G) ws) = concat (map (window_bytes G) us)"
    using len state_bits(2) [OF assms(1) fits(3,4)] by auto
  moreover from this have "title w = title u" using fits(1,2) title_array_inj by simp
  ultimately show ?case using Cons by (simp add: ws' bar_window_def)
qed

definition c_frame :: "gl_config \<Rightarrow> frame_input \<Rightarrow> bool" where
  "c_frame G F \<longleftrightarrow>
     (let V = fView F; d = vNow V
      in int64 (vTileHover V) \<and> int64 (int (fBlur F)) \<and> int64 (int (year d)) \<and> int64 (int (month d)) \<and> int64 (int (day d)) \<and>
         int64 (int (hour d)) \<and> int64 (int (minute d)) \<and> (\<forall>w\<in>set (vWindows V). c_window G V w))"

lemma same_bar_fields:
  assumes "gl_laws G" "c_frame G F" "c_frame G F'" and b: "int64 (rx b)" "int64 (ry b)" "int64 (rw b)" "int64 (rh b)"
    and blur: "fBlur F = fBlur F' \<Longrightarrow> barBlur (vBackground (fView F)) = barBlur (vBackground (fView F')) \<and>
      barBlurRect (vBackground (fView F)) = barBlurRect (vBackground (fView F'))"
    and eq: "taskbar_fields G F b = taskbar_fields G F' b"
  shows "same_bar_view (fView F) (fView F')"
proof -
  have ints: "\<forall>i\<in>set (bar_numbers F b). int64 i" if "c_frame G F" for F
    using that b by (simp add: bar_numbers_def c_frame_def Let_def int64_def)
  have "length (bar_numbers F b) = length (bar_numbers F' b)" by (simp add: bar_numbers_def Let_def)
  then have eqs: "bar_numbers F b = bar_numbers F' b \<and>
      concat (map (window_bytes G) (vWindows (fView F))) = concat (map (window_bytes G) (vWindows (fView F')))"
    using eq unfolding taskbar_fields_split by (rule numbers_inj [OF ints [OF assms(2)] ints [OF assms(3)]])
  then have "same_windows (vWindows (fView F)) (vWindows (fView F'))"
    using assms(2,3) by (intro windows_bytes_inj [OF assms(1)]) (auto simp: c_frame_def c_window_def bar_fits_def Let_def)
  then show ?thesis
    using eqs blur by (auto simp: same_bar_view_def bar_numbers_def Let_def split: if_splits)
qed

section \<open>Its picture\<close>

definition bar_rect :: "gl_config \<Rightarrow> rect" where
  "bar_rect G = intersect (rects (pui (gPainter G))) (taskbar_bar_rect (gWidth G) (gHeight G)) (rect_at 0 0 (gWidth G) (gHeight G))"

definition has_backdrop :: "gl_config \<Rightarrow> view \<Rightarrow> bool" where
  "has_backdrop G V \<longleftrightarrow> barBlur (vBackground V) \<noteq> None \<and>
     same_bar (barBlurRect (vBackground V)) (taskbar_bar_rect (gWidth G) (gHeight G))"

lemma bar_layout: "bar (taskbar_layout sw sh ws) = taskbar_bar_rect sw sh"
  by (simp add: taskbar_layout_def Let_def)

lemma paint_bar_at:
  assumes "painter_laws (gPainter G)" "screen_sized (gWidth G) (gHeight G) d"
    and "\<And>x y. inside r x y \<Longrightarrow> inside (rect_at 0 0 (gWidth G) (gHeight G)) x y" "inside r x y"
  shows "at_px (paint_bar G V r before d) x y =
    effect (gCanvas G) (before @ draw_taskbar (gPainter G) V (gWidth G) (gHeight G)
      (clip_to (gPainter G) (gWidth G) (gHeight G) r)) x y (at_px d x y)"
  unfolding paint_bar_def Let_def by (rule run_ops_screen [OF assms])

lemma sized_bar: "screen_sized W H d \<Longrightarrow> screen_sized W H (paint_bar G V r before d)"
  using shape_run [of "gCanvas G" _ _ d] by (simp add: paint_bar_def Let_def screen_sized_def shape_def)

lemma sized_title: "screen_sized W H d \<Longrightarrow> screen_sized W H (paint_title G V w d)"
  using shape_run [of "gCanvas G" _ _ d] by (simp add: paint_title_def Let_def screen_sized_def shape_def)

text \<open>Texels that agree inside a rounded shape, at the places of a quad without scaling.\<close>

definition agree_texels :: "gl_config \<Rightarrow> rect \<Rightarrow> rect \<Rightarrow> int \<Rightarrow> texels \<Rightarrow> texels \<Rightarrow> bool" where
  "agree_texels G r body q t t' \<longleftrightarrow>
     (\<exists>f g. t = Words f \<and> t' = Words g \<and>
        (\<forall>i j. inside r (rx r + i) (ry r + j) \<and> rounded (pui (gPainter G)) body q (rx r + i) (ry r + j) \<longrightarrow> f i j = g i j))"

lemma bar_picture:
  assumes G: "gl_laws G" and same: "same_bar_view V V'" and strip: "has_backdrop G V"
    and d: "screen_sized (gWidth G) (gHeight G) d" "screen_sized (gWidth G) (gHeight G) d'"
  shows "agree_texels G (bar_rect G) (taskbar_bar_rect (gWidth G) (gHeight G)) kTaskbarRadius
    (texels (uploadSide G (paint_bar G V (bar_rect G) [] d) (bar_rect G) t))
    (texels (uploadSide G (paint_bar G V' (bar_rect G) [] d') (bar_rect G) t'))"
proof -
  let ?b = "bar_rect G" and ?bar = "taskbar_bar_rect (gWidth G) (gHeight G)"
  have P: "painter_laws (gPainter G)" and L: "canvas_laws (gCanvas G)" and clock: "clock_law (gPainter G)"
    using G by (simp_all add: gl_laws_def)
  have screen: "inside ?b x y \<Longrightarrow> inside (rect_at 0 0 (gWidth G) (gHeight G)) x y \<and> inside ?bar x y" for x y
    using P by (simp add: bar_rect_def painter_simps)
  let ?clip = "clip_to (gPainter G) (gWidth G) (gHeight G) ?b"
  have clip: "inside ?b x y \<Longrightarrow> inside ?clip x y" for x y using screen [of x y] P by (simp add: clip_to_def painter_simps)
  obtain r where r: "barBlur (vBackground V) = Some r" "same_bar (barBlurRect (vBackground V)) ?bar"
    using strip by (auto simp: has_backdrop_def)
  have over: "effect (gCanvas G) (draw_taskbar (gPainter G) V (gWidth G) (gHeight G) ?clip) x y v =
      effect (gCanvas G) (draw_taskbar (gPainter G) V (gWidth G) (gHeight G) ?clip) x y v'"
    if "inside ?b x y" "rounded (pui (gPainter G)) ?bar kTaskbarRadius x y" for x y v v'
    using backdrop_effect [OF P L clip [OF that(1)] r, of v] backdrop_effect [OF P L clip [OF that(1)] r, of v'] that(2) screen [OF that(1)]
    by (simp add: draw_taskbar_def Let_def bar_layout)
  have "at_px (paint_bar G V ?b [] d) x y = at_px (paint_bar G V' ?b [] d') x y"
    if "inside ?b x y" "rounded (pui (gPainter G)) ?bar kTaskbarRadius x y" for x y
    using over [OF that] same_taskbar [OF clock same] screen that(1) by (simp add: paint_bar_at [OF P d(1)] paint_bar_at [OF P d(2)])
  then show ?thesis
    unfolding agree_texels_def uploaded_side [OF sized_bar [OF d(1)]] uploaded_side [OF sized_bar [OF d(2)]]
    by (auto simp: inside_def)
qed

lemma tip_picture:
  assumes G: "gl_laws G" and tip: "\<And>x y. inside tip x y \<Longrightarrow> inside (rect_at 0 0 (gWidth G) (gHeight G)) x y"
    and d: "screen_sized (gWidth G) (gHeight G) d" "screen_sized (gWidth G) (gHeight G) d'"
  shows "texels (uploadSide G (paint_bar G V tip [FillOp tip (Theme c)] d) tip t) =
    texels (uploadSide G (paint_bar G V tip [FillOp tip (Theme c)] d') tip t')"
proof -
  have P: "painter_laws (gPainter G)" and Q: "place_laws (gPainter G) (gCanvas G)" using G by (simp_all add: gl_laws_def)
  have "at_px (paint_bar G V tip [FillOp tip (Theme c)] d) x y = at_px (paint_bar G V tip [FillOp tip (Theme c)] d') x y"
    if "inside tip x y" for x y
    using opaque_fill [OF Q that, of c "at_px d x y" "at_px d' x y"]
    by (simp add: paint_bar_at [OF P d(1) tip that] paint_bar_at [OF P d(2) tip that])
  then show ?thesis
    unfolding uploaded_side [OF sized_bar [OF d(1)]] uploaded_side [OF sized_bar [OF d(2)]]
    by (auto intro!: ext simp: inside_def)
qed

end
