(* ===== verification/Gl_Slots.thy ===== *)
theory Gl_Slots
  imports Gl_Bar
begin

text \<open>
  The two tables of the GL back end, of titles and of surfaces: a slot is free or belongs to one key.
  The locale \<open>keyed_slots\<close> says what the back end relies on: a key of a set that is not larger than
  the table finds its slot or a free one, and nothing else moves.
\<close>

definition slot_for :: "('s \<Rightarrow> nat) \<Rightarrow> nat \<Rightarrow> 's \<Rightarrow> 's list \<Rightarrow> (nat \<times> 's list) option" where
  "slot_for key i new ss =
     (case find (\<lambda>k. key (ss ! k) = i) [0..<length ss] of
        Some k \<Rightarrow> Some (k, ss)
      | None \<Rightarrow>
          (case find (\<lambda>k. key (ss ! k) = 0) [0..<length ss] of Some k \<Rightarrow> Some (k, ss[k := new]) | None \<Rightarrow> None))"

locale keyed_slots =
  fixes key :: "'s \<Rightarrow> nat" and free :: 's
  assumes free_key: "key free = 0"
begin

text \<open>The keys of the slots in use are of a set, each once.\<close>

definition keys_ok :: "nat set \<Rightarrow> 's list \<Rightarrow> bool" where
  "keys_ok T ss \<longleftrightarrow> length ss = kMaxTextures \<and>
     (\<forall>k<length ss. key (ss ! k) \<noteq> 0 \<longrightarrow> key (ss ! k) \<in> T \<and> (\<forall>j<length ss. key (ss ! j) = key (ss ! k) \<longrightarrow> j = k))"

lemma keys_in: "keys_ok T ss \<Longrightarrow> k < length ss \<Longrightarrow> key (ss ! k) \<noteq> 0 \<Longrightarrow> key (ss ! k) \<in> T"
  by (simp add: keys_ok_def)

lemma keys_once:
  "keys_ok T ss \<Longrightarrow> j < length ss \<Longrightarrow> k < length ss \<Longrightarrow> key (ss ! j) = key (ss ! k) \<Longrightarrow> key (ss ! k) \<noteq> 0 \<Longrightarrow> j = k"
  by (simp add: keys_ok_def)

lemma keys_length: "keys_ok T ss \<Longrightarrow> length ss = kMaxTextures"
  by (simp add: keys_ok_def)

lemma keys_ok_start: "keys_ok T (replicate kMaxTextures free)"
  by (simp add: keys_ok_def free_key)

lemma keys_ok_mono: "keys_ok T ss \<Longrightarrow> T \<subseteq> T' \<Longrightarrow> keys_ok T' ss"
  by (auto simp: keys_ok_def)

lemma keys_ok_same: "keys_ok T ss \<Longrightarrow> k < length ss \<Longrightarrow> key s = key (ss ! k) \<Longrightarrow> keys_ok T (ss[k := s])"
  by (auto simp: keys_ok_def nth_list_update)

lemma keys_ok_map:
  assumes "keys_ok T ss" and "\<And>s. s \<in> set ss \<Longrightarrow> key (f s) = 0 \<or> key (f s) = key s \<and> key s \<in> T'"
  shows "keys_ok T' (map f ss)"
  unfolding keys_ok_def
proof (intro conjI allI impI)
  show "length (map f ss) = kMaxTextures" using assms(1) by (simp add: keys_ok_def)
next
  fix k assume k: "k < length (map f ss)" "key (map f ss ! k) \<noteq> 0"
  then show "key (map f ss ! k) \<in> T'" using assms(2) [of "ss ! k"] by auto
  fix j assume j: "j < length (map f ss)" "key (map f ss ! j) = key (map f ss ! k)"
  then have "key (ss ! j) = key (ss ! k)" "key (ss ! k) \<noteq> 0"
    using k assms(2) [of "ss ! k"] assms(2) [of "ss ! j"] by auto
  then show "j = k" using assms(1) j k by (simp add: keys_ok_def)
qed

lemma free_slot:
  assumes "keys_ok T ss" "finite T" "card T \<le> kMaxTextures" "i \<in> T" "\<forall>k<length ss. key (ss ! k) \<noteq> i"
  shows "\<exists>k<length ss. key (ss ! k) = 0"
proof (rule ccontr)
  assume "\<not> ?thesis"
  then have used: "\<forall>k<length ss. key (ss ! k) \<noteq> 0" by simp
  have "inj_on (\<lambda>k. key (ss ! k)) {..<length ss}"
    using keys_once [OF assms(1)] used by (intro inj_onI) simp
  moreover have "(\<lambda>k. key (ss ! k)) ` {..<length ss} \<subseteq> T - {i}"
    using keys_in [OF assms(1)] used assms(5) by (intro image_subsetI) simp
  ultimately have "card {..<length ss} \<le> card (T - {i})" using assms(2) by (intro card_inj_on_le) auto
  moreover have "card (T - {i}) < card T" using assms(2,4) by (rule card_Diff1_less)
  ultimately show False using assms(3) keys_length [OF assms(1)] by simp
qed

lemma keys_ok_new:
  assumes "keys_ok T ss" "k < length ss" "key s \<in> T" "\<forall>j<length ss. key (ss ! j) \<noteq> key s"
  shows "keys_ok T (ss[k := s])"
  unfolding keys_ok_def
proof (intro conjI allI impI)
  show "length (ss[k := s]) = kMaxTextures" using assms(1) by (simp add: keys_length)
next
  fix j assume j: "j < length (ss[k := s])" "key (ss[k := s] ! j) \<noteq> 0"
  then show "key (ss[k := s] ! j) \<in> T" using keys_in [OF assms(1), of j] assms(3) by (cases "j = k") simp_all
  fix l assume l: "l < length (ss[k := s])" "key (ss[k := s] ! l) = key (ss[k := s] ! j)"
  show "l = j"
  proof (cases "j = k \<or> l = k")
    case True
    then show ?thesis using j l assms(4) by (cases "j = k"; cases "l = k") auto
  next
    case False
    then show ?thesis using j l keys_once [OF assms(1), of l j] by simp
  qed
qed

lemma slot_found:
  assumes "keys_ok T ss" "finite T" "card T \<le> kMaxTextures" "i \<in> T" "i \<noteq> 0" "key new = i"
  shows "\<exists>k ss'. slot_for key i new ss = Some (k, ss') \<and> k < length ss \<and> key (ss' ! k) = i \<and> keys_ok T ss' \<and>
    (ss' = ss \<or> ss' = ss[k := new])"
proof (cases "find (\<lambda>k. key (ss ! k) = i) [0..<length ss]")
  case (Some k)
  then have "k < length ss" "key (ss ! k) = i" by (auto simp: find_Some_iff)
  then show ?thesis using Some assms(1) by (auto simp: slot_for_def)
next
  case None
  then have new: "\<forall>k<length ss. key (ss ! k) \<noteq> i" by (auto simp: find_None_iff)
  then obtain k where k: "find (\<lambda>k. key (ss ! k) = 0) [0..<length ss] = Some k"
    using free_slot [OF assms(1-4)] by (cases "find (\<lambda>k. key (ss ! k) = 0) [0..<length ss]") (auto simp: find_None_iff)
  then have "k < length ss" "key (ss ! k) = 0" by (auto simp: find_Some_iff)
  moreover from this have "keys_ok T (ss[k := new])"
    using assms new by (intro keys_ok_new) auto
  ultimately show ?thesis using None k assms(6) by (simp add: slot_for_def)
qed

end

interpretation titles: keyed_slots ttWindow free_title
  by unfold_locales (simp add: free_title_def)

interpretation surfs: keyed_slots stId free_surface
  by unfold_locales (simp add: free_surface_def)

text \<open>Both searches of the back end are this one.\<close>

lemma titleTexture_slot: "titleTexture i ts = slot_for ttWindow i (free_title\<lparr>ttWindow := i\<rparr>) ts"
  by (simp add: titleTexture_def slot_for_def)

lemma surfaceTexture_slot:
  assumes "\<forall>t\<in>set ss. stId t \<noteq> 0 \<longrightarrow> tmade (stTexture t)" "eid e \<noteq> 0"
  shows "surfaceTexture G F e ss =
    map_option (\<lambda>(k, ss'). (k, find (\<lambda>k. stId (ss ! k) = eid e) [0..<length ss] = None \<and> stImage (new_surface G F e), ss'))
      (slot_for stId (eid e) (new_surface G F e) ss)"
proof -
  have "find (\<lambda>k. stId (ss ! k) = eid e \<and> tmade (stTexture (ss ! k))) [0..<length ss] =
      find (\<lambda>k. stId (ss ! k) = eid e) [0..<length ss]"
    using assms by (intro find_cong) auto
  then show ?thesis by (auto simp: surfaceTexture_def slot_for_def Let_def split: option.split)
qed

end
