(* ===== verification/Gl_Frames.thy ===== *)
theory Gl_Frames
  imports Gl_Slots
begin

text \<open>
  The GL back end draws every frame as a renderer without textures of earlier frames would: the same
  draw calls with the same texels. \<open>reference\<close> is that renderer; the invariant \<open>gl_ok\<close> says that every
  texture kept shows what some earlier frame drew and is labelled with its fingerprint, generation
  or address.
\<close>

section \<open>Drawing without caches\<close>

definition texel_draw :: "rect \<Rightarrow> int \<Rightarrow> bool \<Rightarrow> texture \<Rightarrow> rect \<Rightarrow> radii \<Rightarrow> draw" where
  "texel_draw r mode bgra t body q =
     TexelDraw r mode bgra (Rgba 0xffffff 255) (0, 0, rw r, rh r) (twidth t, theight t) (texels t) body q 0"

definition blank :: "gl_config \<Rightarrow> raster" where
  "blank G = new_raster (gWidth G) (gHeight G)"

definition wallpaper_texture :: "frame_input \<Rightarrow> texture" where
  "wallpaper_texture F =
     (let b = vBackground (fView F)
      in upload (px (the (bgPixels b))) (bgWidth b) (bgWidth b) (bgHeight b) no_texture)"

definition has_wallpaper :: "frame_input \<Rightarrow> bool" where
  "has_wallpaper F \<longleftrightarrow> bgPixels (vBackground (fView F)) \<noteq> None \<and> bgReady (vBackground (fView F))"

definition ref_wallpaper :: "gl_config \<Rightarrow> frame_input \<Rightarrow> draw list" where
  "ref_wallpaper G F =
     (let screen = rect_at 0 0 (gWidth G) (gHeight G)
      in if has_wallpaper F then [texel_draw screen 1 True (wallpaper_texture F) screen (0, 0, 0, 0)] else [])"

definition has_title :: "gl_config \<Rightarrow> window_info \<Rightarrow> bool" where
  "has_title G w \<longleftrightarrow> \<not> empty_rect (rects (pui (gPainter G))) (title_rect G w)"

definition title_picture :: "gl_config \<Rightarrow> view \<Rightarrow> window_info \<Rightarrow> texture" where
  "title_picture G V w = uploadSide G (paint_title G V w (blank G)) (title_rect G w) no_texture"

definition title_key :: "gl_config \<Rightarrow> view \<Rightarrow> window_info \<Rightarrow> 64 word" where
  "title_key G V w = fingerprint (title_fields G V w (title_rect G w) (title_body G w))"

definition ref_title :: "gl_config \<Rightarrow> view \<Rightarrow> window_info \<Rightarrow> draw list" where
  "ref_title G V w =
     (let q = kWindowCornerRadius - kBorder
      in if has_title G w then [texel_draw (title_rect G w) 1 True (title_picture G V w) (title_body G w) (q, q, q, q)] else [])"

text \<open>The surface a window shows, when there is something to show.\<close>

definition shown_entry :: "frame_input \<Rightarrow> window_info \<Rightarrow> cache_entry option" where
  "shown_entry F w =
     (case find_surface_cache (vCache (fView F)) (surfaceID w) of
        None \<Rightarrow> None
      | Some n \<Rightarrow>
          let e = vCache (fView F) ! n
          in if \<not> valid e \<or> swidth (einfo e) = 0 \<or> sheight (einfo e) = 0 then None else Some e)"

definition imported :: "gl_config \<Rightarrow> frame_input \<Rightarrow> cache_entry \<Rightarrow> bool" where
  "imported G F e \<longleftrightarrow> dmaBufImport G \<and> fExports F (eid e)"

definition surface_picture :: "gl_config \<Rightarrow> frame_input \<Rightarrow> cache_entry \<Rightarrow> texture" where
  "surface_picture G F e =
     (let i = einfo e
      in if imported G F e then stTexture (new_surface G F e)
         else upload (vMemory (fView F) (saddress i)) (int_of_u32 (if 4 \<le> spitch i then spitch i div 4 else swidth i))
                (int_of_u32 (swidth i)) (int_of_u32 (sheight i)) no_texture)"

definition ref_contents :: "gl_config \<Rightarrow> frame_input \<Rightarrow> window_info \<Rightarrow> draw list" where
  "ref_contents G F w =
     (case shown_entry F w of
        None \<Rightarrow> []
      | Some e \<Rightarrow>
          let q = kWindowCornerRadius - kBorder;
              r = rect_at (wx w + kBorder) (wy w + kTitleBarHeight) (min (int_of_u32 (swidth (einfo e))) (wwidth w))
                    (min (int_of_u32 (sheight (einfo e))) (wheight w));
              body = rect_at (wx w + kBorder) (wy w + kBorder) (wwidth w) (frame_height w - 2 * kBorder)
          in [texel_draw r 1 (\<not> imported G F e) (surface_picture G F e) body (0, 0, q, q)])"

definition ref_frame :: "gl_config \<Rightarrow> window_info \<Rightarrow> draw list" where
  "ref_frame G w =
     (let focused = (Focused \<in> wstate w); frame = window_frame_rect w; q = kWindowCornerRadius;
          shadow = offset (pui (gPainter G)) frame 0 kShadowOffsetY
      in [ShadowDraw (shadow_rect shadow) shadow (q, q, q, q) (if focused then 120 else 70) kShadowBlur,
          ColourDraw frame (Theme WindowColor) frame (q, q, q, q) 0,
          ColourDraw frame (Rgba 0xffffff (if focused then 26 else 15)) frame (q, q, q, q) 1])"

definition ref_window :: "gl_config \<Rightarrow> frame_input \<Rightarrow> window_info \<Rightarrow> draw list" where
  "ref_window G F w = ref_frame G w @ ref_title G (fView F) w @ ref_contents G F w"

definition bar_picture_of :: "gl_config \<Rightarrow> view \<Rightarrow> texture" where
  "bar_picture_of G V = uploadSide G (paint_bar G V (bar_rect G) [] (blank G)) (bar_rect G) no_texture"

definition has_bar :: "gl_config \<Rightarrow> bool" where
  "has_bar G \<longleftrightarrow> \<not> empty_rect (rects (pui (gPainter G))) (bar_rect G)"

definition ref_bar :: "gl_config \<Rightarrow> frame_input \<Rightarrow> draw list" where
  "ref_bar G F =
     (let q = kTaskbarRadius
      in if has_bar G
         then [texel_draw (bar_rect G) 1 True (bar_picture_of G (fView F)) (taskbar_bar_rect (gWidth G) (gHeight G)) (q, q, q, q)]
         else [])"

definition tip_rect :: "gl_config \<Rightarrow> view \<Rightarrow> rect" where
  "tip_rect G V =
     intersect (rects (pui (gPainter G)))
       (taskbar_tooltip_rect (pui (gPainter G)) (taskbar_layout (gWidth G) (gHeight G) (vWindows V)) (vTileHover V) (vWindows V))
       (rect_at 0 0 (gWidth G) (gHeight G))"

definition ref_tip :: "gl_config \<Rightarrow> view \<Rightarrow> draw list" where
  "ref_tip G V =
     (if 0 \<le> vTileHover V \<and> vTileHover V < int (length (tiles (taskbar_layout (gWidth G) (gHeight G) (vWindows V)))) \<and>
         \<not> empty_rect (rects (pui (gPainter G))) (tip_rect G V)
      then [texel_draw (tip_rect G V) 1 True
              (uploadSide G (paint_bar G V (tip_rect G V) [FillOp (tip_rect G V) (Theme TooltipOpaque)] (blank G)) (tip_rect G V) no_texture)
              (tip_rect G V) (8, 8, 8, 8)]
      else [])"

definition pointer_texture :: "pointer_picture \<Rightarrow> texture" where
  "pointer_texture p = upload (ppWords p) (ppWidth p) (ppWidth p) (ppHeight p) no_texture"

definition ref_cursor :: "frame_input \<Rightarrow> draw list" where
  "ref_cursor F =
     (case fPointer F of
        None \<Rightarrow> []
      | Some p \<Rightarrow> [texel_draw (rect_at (cx (fCursor F) - ppHotX p) (cy (fCursor F) - ppHotY p) (ppWidth p) (ppHeight p)) 2 True
                     (pointer_texture p) (rect_at (-100000) (-100000) 200000 200000) (0, 0, 0, 0)])"

definition shown_windows :: "frame_input \<Rightarrow> window_info list" where
  "shown_windows F = filter is_window_visible (vWindows (fView F))"

definition reference :: "gl_config \<Rightarrow> frame_input \<Rightarrow> draw list" where
  "reference G F =
     ref_wallpaper G F @ concat (map (ref_window G F) (shown_windows F)) @ ref_bar G F @ ref_tip G (fView F) @ ref_cursor F"

text \<open>
  Draws that look the same: equal, or with texels that agree inside the rounded shape that cuts them.
\<close>

definition same_draw :: "gl_config \<Rightarrow> draw \<Rightarrow> draw \<Rightarrow> bool" where
  "same_draw G a b \<longleftrightarrow> a = b \<or>
     (\<exists>r mode bgra color coords dims t t' body q ring.
        a = TexelDraw r mode bgra color coords dims t body (q, q, q, q) ring \<and>
        b = TexelDraw r mode bgra color coords dims t' body (q, q, q, q) ring \<and> agree_texels G r body q t t')"

lemma same_draw_refl [simp]: "same_draw G a a"
  by (simp add: same_draw_def)

lemma same_draws_refl: "list_all2 (same_draw G) xs xs"
  by (simp add: list_all2_refl)

section \<open>When the caches may be trusted\<close>

definition window_ids :: "frame_input \<Rightarrow> nat set" where
  "window_ids F = wid ` set (shown_windows F)"

definition shown_entries :: "frame_input \<Rightarrow> cache_entry set" where
  "shown_entries F = {e. \<exists>w\<in>set (shown_windows F). shown_entry F w = Some e}"

definition cached_ids :: "frame_input \<Rightarrow> nat set" where
  "cached_ids F = {i. cached_surface (vCache (fView F)) i}"

text \<open>One frame: coordinates in range, shown windows with a number and of a sensible size, the strip under the bar there.\<close>

definition good_frame :: "gl_config \<Rightarrow> frame_input \<Rightarrow> bool" where
  "good_frame G F \<longleftrightarrow> c_frame G F \<and> has_backdrop G (fView F) \<and>
     (\<forall>w\<in>set (shown_windows F). tall w \<and> wid w \<noteq> 0) \<and>
     (has_wallpaper F \<longrightarrow> fPixels F \<noteq> 0 \<and> length (bgPath (vBackground (fView F))) < 192) \<and>
     length (vCache (fView F)) = kMaxSurfaceCache \<and>
     (\<forall>e\<in>shown_entries F. saddress (einfo e) \<noteq> 0 \<and> generation e < 2 ^ 64 - 1)"

text \<open>
  Two frames: what has the same address, path, generation or fingerprint is the same. For a title
  bar the fingerprint does not determine the window's width, so that is asked for as well.
\<close>

definition consistent :: "gl_config \<Rightarrow> frame_input \<Rightarrow> frame_input \<Rightarrow> bool" where
  "consistent G F F' \<longleftrightarrow>
     (has_wallpaper F \<and> has_wallpaper F' \<and> fPixels F = fPixels F' \<and> bgPath (vBackground (fView F)) = bgPath (vBackground (fView F'))
        \<longrightarrow> wallpaper_texture F = wallpaper_texture F') \<and>
     (fBlur F = fBlur F' \<longrightarrow> barBlur (vBackground (fView F)) = barBlur (vBackground (fView F')) \<and>
        barBlurRect (vBackground (fView F)) = barBlurRect (vBackground (fView F'))) \<and>
     (\<forall>p p'. fPointer F = Some p \<and> fPointer F' = Some p' \<longrightarrow> pointer_texture p = pointer_texture p') \<and>
     (\<forall>w\<in>set (shown_windows F). \<forall>w'\<in>set (shown_windows F').
        has_title G w \<and> has_title G w' \<and> title_key G (fView F) w = title_key G (fView F') w' \<longrightarrow>
        wwidth w = wwidth w' \<and> title_fields G (fView F) w (title_rect G w) (title_body G w) =
          title_fields G (fView F') w' (title_rect G w') (title_body G w')) \<and>
     (fingerprint (taskbar_fields G F (bar_rect G)) = fingerprint (taskbar_fields G F' (bar_rect G)) \<longrightarrow>
        taskbar_fields G F (bar_rect G) = taskbar_fields G F' (bar_rect G)) \<and>
     (\<forall>e\<in>shown_entries F. \<forall>e'\<in>shown_entries F'. eid e = eid e' \<longrightarrow>
        imported G F e = imported G F' e' \<and>
        (imported G F e \<or> generation e = generation e' \<longrightarrow> surface_picture G F e = surface_picture G F' e'))"

text \<open>
  The slots suffice: for the windows of two frames in a row, for the surfaces drawn in the last 241
  frames or known after the last one, and those drawn now.
\<close>

definition recent_ids :: "frame_input list \<Rightarrow> nat set" where
  "recent_ids past = (if past = [] then {} else cached_ids (last past)) \<union>
     (\<Union>F\<in>set (drop (length past - (kTextureKeepFrames + 1)) past). eid ` shown_entries F)"

definition slots_suffice :: "frame_input list \<Rightarrow> frame_input \<Rightarrow> bool" where
  "slots_suffice past F \<longleftrightarrow>
     card ((if past = [] then {} else window_ids (last past)) \<union> window_ids F) \<le> kMaxTextures \<and>
     card (recent_ids past \<union> eid ` shown_entries F) \<le> kMaxTextures"

definition trusted :: "gl_config \<Rightarrow> frame_input list \<Rightarrow> bool" where
  "trusted G frames \<longleftrightarrow> (\<forall>F\<in>set frames. good_frame G F \<and> (\<forall>F'\<in>set frames. consistent G F F')) \<and>
     (\<forall>k<length frames. slots_suffice (take k frames) (frames ! k))"

section \<open>The invariant\<close>

definition title_slot_ok :: "gl_config \<Rightarrow> frame_input set \<Rightarrow> title_texture \<Rightarrow> bool" where
  "title_slot_ok G H t \<longleftrightarrow> (ttWindow t \<noteq> 0 \<longrightarrow>
     (\<exists>F\<in>H. \<exists>w\<in>set (shown_windows F). has_title G w \<and> ttKey t = title_key G (fView F) w \<and>
        ttTexture t = title_picture G (fView F) w))"

definition surface_slot_ok :: "gl_config \<Rightarrow> frame_input set \<Rightarrow> surface_texture \<Rightarrow> bool" where
  "surface_slot_ok G H t \<longleftrightarrow> (stId t \<noteq> 0 \<longrightarrow> tmade (stTexture t) \<and>
     (\<exists>F\<in>H. \<exists>e\<in>shown_entries F. eid e = stId t \<and> stShared t = (\<not> imported G F e) \<and>
        (stShared t \<longrightarrow> stUploaded t = generation e) \<and> stTexture t = surface_picture G F e))"

definition wallpaper_ok :: "gl_config \<Rightarrow> frame_input set \<Rightarrow> gl \<Rightarrow> bool" where
  "wallpaper_ok G H s \<longleftrightarrow> (wallpaperPixels s \<noteq> 0 \<longrightarrow>
     (\<exists>F\<in>H. has_wallpaper F \<and> fPixels F = wallpaperPixels s \<and> bgPath (vBackground (fView F)) = wallpaperName s \<and>
        wallpaperTexture s = wallpaper_texture F))"

definition bar_ok :: "gl_config \<Rightarrow> frame_input set \<Rightarrow> gl \<Rightarrow> bool" where
  "bar_ok G H s \<longleftrightarrow> (tmade (barTexture s) \<longrightarrow>
     (\<exists>F\<in>H. \<exists>d t. screen_sized (gWidth G) (gHeight G) d \<and> barKey s = fingerprint (taskbar_fields G F (bar_rect G)) \<and>
        barTexture s = uploadSide G (paint_bar G (fView F) (bar_rect G) [] d) (bar_rect G) t))"

definition cursor_ok :: "frame_input set \<Rightarrow> gl \<Rightarrow> bool" where
  "cursor_ok H s \<longleftrightarrow> (cursorUploaded s \<longrightarrow>
     (\<exists>F\<in>H. \<exists>p. fPointer F = Some p \<and> cursorTexture s = pointer_texture p))"

text \<open>While a frame is drawn: \<open>T\<close> and \<open>S\<close> are the windows and surfaces that may have a slot.\<close>

definition gl_mid :: "gl_config \<Rightarrow> frame_input list \<Rightarrow> frame_input \<Rightarrow> nat set \<Rightarrow> nat set \<Rightarrow> gl \<Rightarrow> bool" where
  "gl_mid G past F T S s \<longleftrightarrow>
     (let H = set past \<union> {F} in
      screen_sized (gWidth G) (gHeight G) (side s) \<and> frameNumber s = Suc (length past) \<and>
      wallpaper_ok G H s \<and> bar_ok G H s \<and> cursor_ok H s \<and>
      titles.keys_ok T (titleSlots s) \<and>
      (\<forall>t\<in>set (titleSlots s). title_slot_ok G H t \<and> (ttSeen t \<longrightarrow> ttWindow t \<in> window_ids F)) \<and>
      surfs.keys_ok S (surfaceSlots s) \<and>
      (\<forall>t\<in>set (surfaceSlots s). surface_slot_ok G H t \<and> (stSeen t \<longrightarrow> stId t \<in> eid ` shown_entries F) \<and>
         (\<not> stSeen t \<and> stId t \<noteq> 0 \<longrightarrow> 0 < stLast t \<and> stLast t \<le> length past \<and>
            stId t \<in> eid ` shown_entries (past ! (stLast t - 1)))))"

text \<open>Between frames.\<close>

definition gl_ok :: "gl_config \<Rightarrow> frame_input list \<Rightarrow> gl \<Rightarrow> bool" where
  "gl_ok G past s \<longleftrightarrow>
     (let H = set past in
      screen_sized (gWidth G) (gHeight G) (side s) \<and> frameNumber s = length past \<and>
      wallpaper_ok G H s \<and> bar_ok G H s \<and> cursor_ok H s \<and>
      titles.keys_ok (if past = [] then {} else window_ids (last past)) (titleSlots s) \<and>
      (\<forall>t\<in>set (titleSlots s). title_slot_ok G H t \<and> \<not> ttSeen t) \<and>
      surfs.keys_ok (recent_ids past) (surfaceSlots s) \<and>
      (\<forall>t\<in>set (surfaceSlots s). surface_slot_ok G H t \<and> \<not> stSeen t \<and>
         (stId t \<noteq> 0 \<longrightarrow> 0 < stLast t \<and> stLast t \<le> length past \<and> stId t \<in> eid ` shown_entries (past ! (stLast t - 1)))))"

end
