(* ===== verification/Gl_Proof.thy ===== *)
theory Gl_Proof
  imports Gl_Frames
begin

text \<open>
  Every step of a frame keeps the invariant and draws what the renderer without caches draws, so a
  run of frames does.
\<close>

section \<open>Uploads and draws\<close>

lemma upload_any: "upload words pitch width height t = upload words pitch width height t'"
  by (simp add: upload_def makeTexture_def)

lemma uploadSide_any: "uploadSide G d r t = uploadSide G d r t'"
  unfolding uploadSide_def by (rule upload_any)

lemma upload_texture:
  "tmade (upload words pitch width height t)" "twidth (upload words pitch width height t) = width"
  "theight (upload words pitch width height t) = height"
  by (simp_all add: upload_def makeTexture_def)

lemma texture_eqI:
  "tmade t = tmade t' \<Longrightarrow> twidth t = twidth t' \<Longrightarrow> theight t = theight t' \<Longrightarrow> texels t = texels t' \<Longrightarrow> t = (t' :: texture)"
  by (cases t; cases t') simp

lemma uploadSide_eqI:
  assumes "texels (uploadSide G d r t) = texels (uploadSide G d' r' t')" "rw r = rw r'" "rh r = rh r'"
  shows "uploadSide G d r t = uploadSide G d' r' t'"
  using assms by (intro texture_eqI) (simp_all add: uploaded_size)

text \<open>Nothing but the uniforms and the draws changes.\<close>

lemma textured_draws:
  "\<exists>u. textured t r 0 0 mode bgra (shape_cut body q 0 s) = s\<lparr>unif := u, draws := draws s @ [texel_draw r mode bgra t body q]\<rparr>"
  if "mode \<noteq> 0" "mode \<noteq> 3"
  using that by (auto simp: textured_def shape_cut_def set_unif_def quad_def drawn_quad_def texel_draw_def intro!: exI)

lemma frame_draws:
  "\<exists>u. (let focused = (Focused \<in> wstate w); frame = window_frame_rect w; q = kWindowCornerRadius;
          shadow = offset (pui (gPainter G)) frame 0 kShadowOffsetY;
          s = quad (shadow_rect shadow) (shape_cut shadow (q, q, q, q) 0
                (set_unif (\<lambda>u. u\<lparr>uMode := 3, uShadow := (if focused then 120 else 70, kShadowBlur)\<rparr>) s));
          s = fill_quad frame (Theme WindowColor) q 0 s
        in fill_quad frame (Rgba 0xffffff (if focused then 26 else 15)) q 1 s) =
      s\<lparr>unif := u, draws := draws s @ ref_frame G w\<rparr>"
  by (auto simp: Let_def fill_quad_def shape_cut_def set_unif_def quad_def drawn_quad_def ref_frame_def intro!: exI)

lemma mid_draws [simp]: "gl_mid G past F T S (s\<lparr>unif := u, draws := ds\<rparr>) = gl_mid G past F T S s"
  by (simp add: gl_mid_def wallpaper_ok_def bar_ok_def cursor_ok_def Let_def)

lemma title_uploaded:
  assumes "gl_laws G" "tall w" "screen_sized (gWidth G) (gHeight G) d"
  shows "uploadSide G (paint_title G V w d) (title_rect G w) t = title_picture G V w"
  unfolding title_picture_def
proof (rule uploadSide_eqI [OF same_title_texels [OF assms(1,2,2)]])
  show "same_title V w V w" by (simp add: same_title_def)
  show "screen_sized (gWidth G) (gHeight G) (blank G)" by (simp add: blank_def new_raster_def screen_sized_def)
qed (simp_all add: assms shift_rect_def)

lemma same_title_picture:
  assumes G: "gl_laws G" and tall: "tall w" "tall w'" and c: "c_window G V w" "c_window G V' w'"
    and shown: "has_title G w" "has_title G w'" and width: "wwidth w = wwidth w'"
    and fields: "title_fields G V w (title_rect G w) (title_body G w) = title_fields G V' w' (title_rect G w') (title_body G w')"
  shows "title_picture G V w = title_picture G V' w'"
proof -
  have same: "same_title V w V' w'" "title_rect G w' = shift_rect (wx w' - wx w) (wy w' - wy w) (title_rect G w)"
    using same_title_fields [OF G c width _ _ fields] shown by (simp_all add: has_title_def)
  have "screen_sized (gWidth G) (gHeight G) (blank G)" by (simp add: blank_def new_raster_def screen_sized_def)
  then show ?thesis
    unfolding title_picture_def
    using same_title_texels [OF G tall same] same(2) by (intro uploadSide_eqI) (simp_all add: shift_rect_def)
qed

section \<open>The steps of a frame\<close>

text \<open>A step that keeps the invariant and draws what is asked for.\<close>

definition draws_as :: "gl_config \<Rightarrow> frame_input list \<Rightarrow> frame_input \<Rightarrow> nat set \<Rightarrow> nat set \<Rightarrow> (gl \<Rightarrow> gl) \<Rightarrow> draw list \<Rightarrow> bool" where
  "draws_as G past F T S step ds \<longleftrightarrow>
     (\<forall>s. gl_mid G past F T S s \<longrightarrow> gl_mid G past F T S (step s) \<and>
        (\<exists>es. draws (step s) = draws s @ es \<and> list_all2 (same_draw G) es ds))"

lemma draws_as_comp:
  assumes "draws_as G past F T S f as" "draws_as G past F T S g bs"
  shows "draws_as G past F T S (\<lambda>s. g (f s)) (as @ bs)"
  unfolding draws_as_def
proof (intro allI impI)
  fix s assume s: "gl_mid G past F T S s"
  then obtain es where f: "gl_mid G past F T S (f s)" "draws (f s) = draws s @ es" "list_all2 (same_draw G) es as"
    using assms(1) by (auto simp: draws_as_def)
  then obtain es' where "gl_mid G past F T S (g (f s))" "draws (g (f s)) = draws (f s) @ es'" "list_all2 (same_draw G) es' bs"
    using assms(2) by (auto simp: draws_as_def)
  then show "gl_mid G past F T S (g (f s)) \<and> (\<exists>es. draws (g (f s)) = draws s @ es \<and> list_all2 (same_draw G) es (as @ bs))"
    using f by (intro conjI exI [of _ "es @ es'"]) (auto intro: list_all2_appendI)
qed

lemma draws_as_fold:
  "(\<And>w. w \<in> set ws \<Longrightarrow> draws_as G past F T S (f w) (ds w)) \<Longrightarrow>
   draws_as G past F T S (fold f ws) (concat (map ds ws))"
proof (induction ws)
  case (Cons w ws)
  then have "draws_as G past F T S (\<lambda>s. fold f ws (f w s)) (ds w @ concat (map ds ws))"
    by (intro draws_as_comp) simp_all
  then show ?case by (simp add: comp_def)
qed (simp add: draws_as_def)

text \<open>A texture that the invariant allows, drawn.\<close>

lemma draws_textured:
  assumes "gl_mid G past F T S s'" "draws s' = draws s" "mode \<noteq> 0" "mode \<noteq> 3"
    and "same_draw G (texel_draw r mode bgra t body q) d"
  shows "gl_mid G past F T S (textured t r 0 0 mode bgra (shape_cut body q 0 s')) \<and>
    (\<exists>es. draws (textured t r 0 0 mode bgra (shape_cut body q 0 s')) = draws s @ es \<and> list_all2 (same_draw G) es [d])"
proof -
  obtain u where u: "textured t r 0 0 mode bgra (shape_cut body q 0 s') =
      s'\<lparr>unif := u, draws := draws s' @ [texel_draw r mode bgra t body q]\<rparr>"
    using textured_draws assms(3,4) by blast
  show ?thesis unfolding u using assms(1,2,5) by simp
qed

lemma wallpaper_step:
  assumes good: "good_frame G F" and cons: "\<And>F'. F' \<in> set past \<Longrightarrow> consistent G F' F"
  shows "draws_as G past F T S (drawWallpaper G F) (ref_wallpaper G F)"
  unfolding draws_as_def
proof (intro allI impI)
  fix s assume s: "gl_mid G past F T S s"
  show "gl_mid G past F T S (drawWallpaper G F s) \<and>
    (\<exists>es. draws (drawWallpaper G F s) = draws s @ es \<and> list_all2 (same_draw G) es (ref_wallpaper G F))"
  proof (cases "has_wallpaper F")
    case False
    then have "drawWallpaper G F s = s" by (auto simp: drawWallpaper_def has_wallpaper_def Let_def split: option.split)
    then show ?thesis using s False by (simp add: ref_wallpaper_def)
  next
    case True
    let ?screen = "rect_at 0 0 (gWidth G) (gHeight G)" and ?b = "vBackground (fView F)"
    let ?change = "wallpaperPixels s \<noteq> fPixels F \<or> wallpaperName s \<noteq> bgPath ?b"
    define s1 where "s1 = (if ?change
      then s\<lparr>wallpaperTexture := wallpaper_texture F, wallpaperPixels := fPixels F, wallpaperName := bounded_copy 192 (bgPath ?b)\<rparr>
      else s)"
    have eq: "drawWallpaper G F s = textured (wallpaperTexture s1) ?screen 0 0 1 True (shape_cut ?screen (0, 0, 0, 0) 0 s1)"
      using True upload_any [of _ _ _ _ "wallpaperTexture s" no_texture]
      by (auto simp: drawWallpaper_def has_wallpaper_def s1_def wallpaper_texture_def Let_def)
    have shown: "wallpaperTexture s1 = wallpaper_texture F"
    proof (cases ?change)
      case False
      then have "wallpaperPixels s \<noteq> 0" using good True by (auto simp: good_frame_def)
      then obtain F' where "F' \<in> set past \<union> {F}" "has_wallpaper F'" "fPixels F' = fPixels F"
          "bgPath (vBackground (fView F')) = bgPath ?b" "wallpaperTexture s = wallpaper_texture F'"
        using s False by (auto simp: gl_mid_def wallpaper_ok_def Let_def)
      then show ?thesis using cons True False by (auto simp: s1_def consistent_def)
    qed (simp add: s1_def)
    have "bounded_copy 192 (bgPath ?b) = bgPath ?b" using good True by (simp add: good_frame_def)
    then have "gl_mid G past F T S s1"
      using s True by (auto simp: s1_def gl_mid_def wallpaper_ok_def bar_ok_def cursor_ok_def Let_def)
    moreover have "draws s1 = draws s" by (simp add: s1_def)
    ultimately show ?thesis
      unfolding eq shown ref_wallpaper_def using True by (simp add: Let_def) (rule draws_textured; simp)
  qed
qed

text \<open>A slot of the table of titles replaced by one that may be there.\<close>

lemma mid_title:
  assumes "gl_mid G past F T S s" and "titles.keys_ok T ts" and "k < length ts" "ttWindow t = ttWindow (ts ! k)"
    and "\<And>j. j < length ts \<Longrightarrow> j \<noteq> k \<Longrightarrow> ts ! j = titleSlots s ! j" "length ts = length (titleSlots s)"
    and "title_slot_ok G (set past \<union> {F}) t" "ttSeen t \<longrightarrow> ttWindow t \<in> window_ids F"
    and "screen_sized (gWidth G) (gHeight G) d"
  shows "gl_mid G past F T S (s\<lparr>side := d, stats := st, titleSlots := ts[k := t]\<rparr>)"
proof -
  have "u = t \<or> u \<in> set (titleSlots s)" if "u \<in> set (ts[k := t])" for u
  proof -
    obtain j where "j < length ts" "u = ts[k := t] ! j" using \<open>u \<in> set (ts[k := t])\<close> by (metis in_set_conv_nth length_list_update)
    then show ?thesis using assms(5) [of j] assms(6) by (cases "j = k") auto
  qed
  moreover have "titles.keys_ok T (ts[k := t])" by (rule titles.keys_ok_same [OF assms(2-4)])
  ultimately show ?thesis
    using assms(1,7-9) by (fastforce simp: gl_mid_def wallpaper_ok_def bar_ok_def cursor_ok_def Let_def)
qed

lemma title_step:
  assumes G: "gl_laws G" and good: "good_frame G F" and cons: "\<And>F'. F' \<in> set past \<union> {F} \<Longrightarrow> good_frame G F' \<and> consistent G F' F"
    and T: "finite T" "card T \<le> kMaxTextures" "window_ids F \<subseteq> T" and w: "w \<in> set (shown_windows F)"
  shows "draws_as G past F T S (drawTitle G F w) (ref_title G (fView F) w)"
  unfolding draws_as_def
proof (intro allI impI)
  fix s assume s: "gl_mid G past F T S s"
  show "gl_mid G past F T S (drawTitle G F w s) \<and>
    (\<exists>es. draws (drawTitle G F w s) = draws s @ es \<and> list_all2 (same_draw G) es (ref_title G (fView F) w))"
  proof (cases "has_title G w")
    case False
    then show ?thesis using s by (simp add: drawTitle_def ref_title_def has_title_def Let_def)
  next
    case True
    have wid: "wid w \<in> T" "wid w \<in> window_ids F" "wid w \<noteq> 0" "tall w"
      using T(3) w good by (auto simp: window_ids_def good_frame_def)
    let ?new = "free_title\<lparr>ttWindow := wid w\<rparr>"
    have keys: "titles.keys_ok T (titleSlots s)" using s by (simp add: gl_mid_def Let_def)
    obtain k ts where slot: "titleTexture (wid w) (titleSlots s) = Some (k, ts)" "k < length (titleSlots s)"
        "ttWindow (ts ! k) = wid w" "titles.keys_ok T ts" "ts = titleSlots s \<or> ts = (titleSlots s)[k := ?new]"
      using titles.slot_found [OF keys T(1,2) wid(1,3), of ?new] by (auto simp: titleTexture_slot)
    let ?key = "title_key G (fView F) w" and ?pic = "title_picture G (fView F) w"
    let ?fresh = "ttKey (ts ! k) \<noteq> ?key \<or> \<not> tmade (ttTexture (ts ! k))"
    define t where "t = (ts ! k)\<lparr>ttSeen := True, ttTexture := ?pic, ttKey := ?key\<rparr>"
    define d where "d = (if ?fresh then paint_title G (fView F) w (side s) else side s)"
    define st where "st = (if ?fresh then (stats s)\<lparr>titleUploads := titleUploads (stats s) + 1\<rparr> else stats s)"
    have kept: "ttTexture (ts ! k) = ?pic" if "\<not> ?fresh"
    proof -
      have "ts = titleSlots s" using slot(2,5) that by (auto simp: free_title_def no_texture_def)
      then have "title_slot_ok G (set past \<union> {F}) (ts ! k)" using s slot(2) by (auto simp: gl_mid_def Let_def)
      then obtain F' w' where F': "F' \<in> set past \<union> {F}" "w' \<in> set (shown_windows F')" "has_title G w'"
          "ttKey (ts ! k) = title_key G (fView F') w'" "ttTexture (ts ! k) = title_picture G (fView F') w'"
        using slot(3) wid(3) by (auto simp: title_slot_ok_def)
      have tall': "tall w'" "c_window G (fView F') w'" "c_window G (fView F) w"
        using cons [OF F'(1)] F'(2) good w by (auto simp: good_frame_def c_frame_def shown_windows_def Let_def)
      have "title_key G (fView F') w' = title_key G (fView F) w" using that F'(4) by simp
      then have "wwidth w' = wwidth w \<and> title_fields G (fView F') w' (title_rect G w') (title_body G w') =
          title_fields G (fView F) w (title_rect G w) (title_body G w)"
        using cons [OF F'(1)] F'(2,3) w True unfolding consistent_def by blast
      then show ?thesis
        using same_title_picture [OF G tall'(1) wid(4) tall'(2,3) F'(3) True] F'(5) by simp
    qed
    have same: "t = (ts ! k)\<lparr>ttSeen := True\<rparr>" if "\<not> ?fresh"
      using kept [OF that] that by (cases "ts ! k") (simp add: t_def)
    have fresh: "uploadSide G (paint_title G (fView F) w (side s)) (title_rect G w) u = ?pic" for u
      using s by (intro title_uploaded [OF G wid(4)]) (simp add: gl_mid_def Let_def)
    have eq: "drawTitle G F w s = textured ?pic (title_rect G w) 0 0 1 True
        (shape_cut (title_body G w) (kWindowCornerRadius - kBorder, kWindowCornerRadius - kBorder, kWindowCornerRadius - kBorder,
          kWindowCornerRadius - kBorder) 0 (s\<lparr>side := d, stats := st, titleSlots := ts[k := t]\<rparr>))"
    proof (cases ?fresh)
      case new: True
      then show ?thesis
        using True slot(1) fresh by (simp add: drawTitle_def has_title_def Let_def title_body_def title_key_def d_def st_def t_def)
    next
      case old: False
      then show ?thesis
        using True slot(1) kept [OF old]
        by (simp add: drawTitle_def has_title_def Let_def title_body_def title_key_def d_def st_def same)
    qed
    have "gl_mid G past F T S (s\<lparr>side := d, stats := st, titleSlots := ts[k := t]\<rparr>)"
    proof (rule mid_title [OF s slot(4)])
      show "title_slot_ok G (set past \<union> {F}) t" using w True by (auto simp: title_slot_ok_def t_def)
      show "screen_sized (gWidth G) (gHeight G) d" using s sized_title by (simp add: d_def gl_mid_def Let_def)
    qed (use slot wid(2) in \<open>auto simp: t_def\<close>)
    then show ?thesis
      unfolding eq ref_title_def using True by (simp add: Let_def) (rule draws_textured; simp)
  qed
qed

text \<open>The same for surfaces.\<close>

lemma mid_surface:
  assumes "gl_mid G past F T S s" and "surfs.keys_ok S ss" and "k < length ss" "stId t = stId (ss ! k)"
    and "\<And>j. j < length ss \<Longrightarrow> j \<noteq> k \<Longrightarrow> ss ! j = surfaceSlots s ! j" "length ss = length (surfaceSlots s)"
    and "surface_slot_ok G (set past \<union> {F}) t" "stSeen t" "stId t \<in> eid ` shown_entries F"
  shows "gl_mid G past F T S (s\<lparr>surfaceSlots := ss[k := t], stats := st\<rparr>)"
proof -
  have "u = t \<or> u \<in> set (surfaceSlots s)" if "u \<in> set (ss[k := t])" for u
  proof -
    obtain j where "j < length ss" "u = ss[k := t] ! j" using \<open>u \<in> set (ss[k := t])\<close> by (metis in_set_conv_nth length_list_update)
    then show ?thesis using assms(5) [of j] assms(6) by (cases "j = k") auto
  qed
  moreover have "surfs.keys_ok S (ss[k := t])" by (rule surfs.keys_ok_same [OF assms(2-4)])
  ultimately show ?thesis
    using assms(1,7-9) by (fastforce simp: gl_mid_def wallpaper_ok_def bar_ok_def cursor_ok_def Let_def)
qed

text \<open>A slot of the surface, new or kept, after the upload.\<close>

definition holds_surface :: "gl_config \<Rightarrow> frame_input \<Rightarrow> cache_entry \<Rightarrow> surface_texture \<Rightarrow> bool" where
  "holds_surface G F e t \<longleftrightarrow> stId t = eid e \<and> stShared t = (\<not> imported G F e) \<and> tmade (stTexture t) \<and>
     (stShared t \<longrightarrow> stUploaded t = generation e) \<and> stTexture t = surface_picture G F e"

lemma refreshed:
  assumes "saddress (einfo e) \<noteq> 0" "stId t = eid e" "stShared t = (\<not> imported G F e)" "tmade (stTexture t)"
    and "stShared t \<longrightarrow> stUploaded t = generation e \<Longrightarrow> stTexture t = surface_picture G F e"
  shows "holds_surface G F e (refresh_surface F e t)"
proof (cases "stShared t \<and> stUploaded t \<noteq> generation e")
  case True
  let ?i = "einfo e"
  have "upload (vMemory (fView F) (saddress ?i)) p w h (stTexture t) = upload (vMemory (fView F) (saddress ?i)) p w h no_texture" for p w h
    by (rule upload_any)
  then show ?thesis using True assms by (simp add: refresh_surface_def surface_picture_def holds_surface_def Let_def upload_texture)
next
  case False
  then have "refresh_surface F e t = t" by (auto simp: refresh_surface_def Let_def)
  then show ?thesis using False assms by (auto simp: holds_surface_def)
qed

lemma new_refreshed:
  assumes "saddress (einfo e) \<noteq> 0" "generation e < 2 ^ 64 - 1"
  shows "holds_surface G F e (refresh_surface F e ((new_surface G F e)\<lparr>stSeen := True\<rparr>))"
proof (rule refreshed [OF assms(1)])
  show "tmade (stTexture ((new_surface G F e)\<lparr>stSeen := True\<rparr>))" by (simp add: new_surface_def Let_def makeTexture_def)
  show "stTexture ((new_surface G F e)\<lparr>stSeen := True\<rparr>) = surface_picture G F e"
    if "stShared ((new_surface G F e)\<lparr>stSeen := True\<rparr>) \<longrightarrow> stUploaded ((new_surface G F e)\<lparr>stSeen := True\<rparr>) = generation e"
    using that assms(2) by (auto simp: new_surface_def surface_picture_def imported_def free_surface_def Let_def split: if_splits)
qed (auto simp: new_surface_def imported_def free_surface_def Let_def)

lemma kept_refreshed:
  assumes "surface_slot_ok G H t" "stId t = eid e" "eid e \<noteq> 0" "e \<in> shown_entries F" "saddress (einfo e) \<noteq> 0"
    and cons: "\<And>F'. F' \<in> H \<Longrightarrow> consistent G F' F"
  shows "holds_surface G F e (refresh_surface F e (t\<lparr>stSeen := True\<rparr>))"
proof -
  obtain F' e' where e': "F' \<in> H" "e' \<in> shown_entries F'" "eid e' = eid e" "stShared t = (\<not> imported G F' e')" "tmade (stTexture t)"
      "stShared t \<longrightarrow> stUploaded t = generation e'" "stTexture t = surface_picture G F' e'"
    using assms(1-3) unfolding surface_slot_ok_def by metis
  then have "imported G F' e' = imported G F e \<and>
      (imported G F' e' \<or> generation e' = generation e \<longrightarrow> surface_picture G F' e' = surface_picture G F e)"
    using cons [OF e'(1)] assms(4) unfolding consistent_def by blast
  then show ?thesis using e' assms(2,5) by (intro refreshed) auto
qed

lemma contents_step:
  assumes good: "good_frame G F" and cons: "\<And>F'. F' \<in> set past \<union> {F} \<Longrightarrow> consistent G F' F"
    and S: "finite S" "card S \<le> kMaxTextures" "eid ` shown_entries F \<subseteq> S" and w: "w \<in> set (shown_windows F)"
  shows "draws_as G past F T S (drawContents G F w) (ref_contents G F w)"
  unfolding draws_as_def
proof (intro allI impI)
  fix s assume s: "gl_mid G past F T S s"
  show "gl_mid G past F T S (drawContents G F w s) \<and>
    (\<exists>es. draws (drawContents G F w s) = draws s @ es \<and> list_all2 (same_draw G) es (ref_contents G F w))"
  proof (cases "shown_entry F w")
    case None
    then have "drawContents G F w s = s"
      by (auto simp: drawContents_def shown_entry_def Let_def split: option.splits if_splits)
    then show ?thesis using s None by (simp add: ref_contents_def)
  next
    case (Some e)
    then obtain n where n: "find_surface_cache (vCache (fView F)) (surfaceID w) = Some n" "vCache (fView F) ! n = e"
        "valid e" "swidth (einfo e) \<noteq> 0" "sheight (einfo e) \<noteq> 0"
      by (auto simp: shown_entry_def Let_def split: option.splits if_splits)
    have e: "e \<in> shown_entries F" using Some w by (auto simp: shown_entries_def)
    have id: "eid e \<noteq> 0" "eid e \<in> S"
      using n(1,2) S(3) e by (auto simp: find_surface_cache_def find_Some_iff split: if_splits)
    have addr: "saddress (einfo e) \<noteq> 0" "generation e < 2 ^ 64 - 1" using good e by (auto simp: good_frame_def)
    have slots: "surfs.keys_ok S (surfaceSlots s)" "\<forall>t\<in>set (surfaceSlots s). surface_slot_ok G (set past \<union> {F}) t"
      using s by (simp_all add: gl_mid_def Let_def)
    then have made: "\<forall>t\<in>set (surfaceSlots s). stId t \<noteq> 0 \<longrightarrow> tmade (stTexture t)" by (auto simp: surface_slot_ok_def)
    have new: "stId (new_surface G F e) = eid e" by (simp add: new_surface_def Let_def)
    obtain k ss where slot: "slot_for stId (eid e) (new_surface G F e) (surfaceSlots s) = Some (k, ss)" "k < length (surfaceSlots s)"
        "stId (ss ! k) = eid e" "surfs.keys_ok S ss" "ss = surfaceSlots s \<or> ss = (surfaceSlots s)[k := new_surface G F e]"
      using surfs.slot_found [OF slots(1) S(1,2) id(2,1) new] by blast
    obtain m where m: "surfaceTexture G F e (surfaceSlots s) = Some (k, m, ss)"
      using slot(1) by (simp add: surfaceTexture_slot [OF made id(1)])
    define t where "t = refresh_surface F e ((ss ! k)\<lparr>stSeen := True\<rparr>)"
    have holds: "holds_surface G F e t"
    proof (cases "ss = surfaceSlots s")
      case True
      then have "surface_slot_ok G (set past \<union> {F}) (ss ! k)" using slots(2) slot(2) by simp
      then show ?thesis unfolding t_def using slot(3) id(1) e addr(1) cons by (rule kept_refreshed)
    next
      case False
      then show ?thesis using slot(2,5) new_refreshed [OF addr] by (simp add: t_def)
    qed
    have seen: "stSeen t" by (simp add: t_def refresh_surface_def Let_def)
    define st where "st = (count_import m (stats s))\<lparr>windowUploads :=
      windowUploads (stats s) + (if stUploaded t \<noteq> stUploaded (ss ! k) then 1 else 0)\<rparr>"
    let ?q = "kWindowCornerRadius - kBorder"
    let ?r = "rect_at (wx w + kBorder) (wy w + kTitleBarHeight) (min (int_of_u32 (swidth (einfo e))) (wwidth w))
      (min (int_of_u32 (sheight (einfo e))) (wheight w))"
    let ?body = "rect_at (wx w + kBorder) (wy w + kBorder) (wwidth w) (frame_height w - 2 * kBorder)"
    have eq: "drawContents G F w s = textured (stTexture t) ?r 0 0 1 (stShared t)
        (shape_cut ?body (0, 0, ?q, ?q) 0 (s\<lparr>surfaceSlots := ss[k := t], stats := st\<rparr>))"
      using n m by (simp add: drawContents_def Let_def t_def st_def)
    have "gl_mid G past F T S (s\<lparr>surfaceSlots := ss[k := t], stats := st\<rparr>)"
    proof (rule mid_surface [OF s slot(4)])
      show "surface_slot_ok G (set past \<union> {F}) t"
        using holds e by (auto simp: surface_slot_ok_def holds_surface_def)
    qed (use slot holds e seen in \<open>auto simp: holds_surface_def\<close>)
    then show ?thesis
      unfolding eq ref_contents_def using Some holds
      by (simp add: Let_def holds_surface_def) (rule draws_textured; simp)
  qed
qed

end
