(* ===== verification/Gl_Match.thy ===== *)
theory Gl_Match
  imports Gl_Proof
begin

text \<open>
  The remaining steps of a frame, the end of a frame, and the run of frames: the GL back end draws
  what the renderer without caches draws.
\<close>

section \<open>Windows, taskbar and pointer\<close>

lemma window_step:
  assumes G: "gl_laws G" and good: "good_frame G F" and cons: "\<And>F'. F' \<in> set past \<union> {F} \<Longrightarrow> good_frame G F' \<and> consistent G F' F"
    and T: "finite T" "card T \<le> kMaxTextures" "window_ids F \<subseteq> T"
    and S: "finite S" "card S \<le> kMaxTextures" "eid ` shown_entries F \<subseteq> S" and w: "w \<in> set (shown_windows F)"
  shows "draws_as G past F T S (drawWindow G F w) (ref_window G F w)"
proof -
  define frame where "frame s =
     (let focused = (Focused \<in> wstate w); frame = window_frame_rect w; q = kWindowCornerRadius;
          shadow = offset (pui (gPainter G)) frame 0 kShadowOffsetY;
          s = quad (shadow_rect shadow) (shape_cut shadow (q, q, q, q) 0
                (set_unif (\<lambda>u. u\<lparr>uMode := 3, uShadow := (if focused then 120 else 70, kShadowBlur)\<rparr>) s));
          s = fill_quad frame (Theme WindowColor) q 0 s
        in fill_quad frame (Rgba 0xffffff (if focused then 26 else 15)) q 1 s)" for s
  have frame: "draws_as G past F T S frame (ref_frame G w)"
    unfolding draws_as_def
  proof (intro allI impI)
    fix s assume "gl_mid G past F T S s"
    moreover obtain u where "frame s = s\<lparr>unif := u, draws := draws s @ ref_frame G w\<rparr>"
      using frame_draws [of w G s] unfolding frame_def by blast
    ultimately show "gl_mid G past F T S (frame s) \<and>
        (\<exists>es. draws (frame s) = draws s @ es \<and> list_all2 (same_draw G) es (ref_frame G w))"
      by (simp add: same_draws_refl)
  qed
  have "drawWindow G F w = (\<lambda>s. drawContents G F w (drawTitle G F w (frame s)))"
    by (rule ext) (simp add: drawWindow_def frame_def Let_def)
  moreover have "draws_as G past F T S (\<lambda>s. drawContents G F w (drawTitle G F w (frame s)))
      ((ref_frame G w @ ref_title G (fView F) w) @ ref_contents G F w)"
    using draws_as_comp [OF draws_as_comp [OF frame title_step [OF G good cons T w]] contents_step [OF good _ S w]] cons by blast
  ultimately show ?thesis by (simp add: ref_window_def)
qed

lemma bar_numbers_small:
  assumes P: "painter_laws (gPainter G)" and "has_bar G" and screen: "gWidth G < 2 ^ 31" "gHeight G < 2 ^ 31"
  shows "int64 (rx (bar_rect G))" "int64 (ry (bar_rect G))" "int64 (rw (bar_rect G))" "int64 (rh (bar_rect G))"
proof -
  let ?b = "bar_rect G"
  have pos: "0 < rw ?b" "0 < rh ?b" using assms(2) P by (simp_all add: has_bar_def painter_simps)
  have at: "inside ?b x y \<Longrightarrow> inside (rect_at 0 0 (gWidth G) (gHeight G)) x y" for x y
    using P by (simp add: bar_rect_def painter_simps)
  have "inside ?b (rx ?b) (ry ?b)" "inside ?b (rx ?b + rw ?b - 1) (ry ?b + rh ?b - 1)"
    using pos by (simp_all add: inside_def)
  from at [OF this(1)] at [OF this(2)] pos show "int64 (rx ?b)" "int64 (ry ?b)" "int64 (rw ?b)" "int64 (rh ?b)"
    using screen by (simp_all add: inside_def int64_def)
qed

lemma drawBar_at:
  "drawBar G F s =
     (if \<not> has_bar G then s
      else let key = fingerprint (taskbar_fields G F (bar_rect G));
               s = (if key \<noteq> barKey s \<or> \<not> tmade (barTexture s)
                    then let d = paint_bar G (fView F) (bar_rect G) [] (side s)
                         in s\<lparr>side := d, barTexture := uploadSide G d (bar_rect G) (barTexture s), barKey := key,
                              stats := (stats s)\<lparr>taskbarUploads := taskbarUploads (stats s) + 1\<rparr>\<rparr>
                    else s)
           in textured (barTexture s) (bar_rect G) 0 0 1 True
                (shape_cut (taskbar_bar_rect (gWidth G) (gHeight G)) (kTaskbarRadius, kTaskbarRadius, kTaskbarRadius, kTaskbarRadius) 0 s))"
  by (simp add: drawBar_def bar_layout has_bar_def bar_rect_def Let_def)

lemma same_bar_draw:
  assumes "gl_laws G" "same_bar_view V V'" "has_backdrop G V"
    and "screen_sized (gWidth G) (gHeight G) d" "screen_sized (gWidth G) (gHeight G) d'"
  shows "same_draw G
    (texel_draw (bar_rect G) 1 True (uploadSide G (paint_bar G V (bar_rect G) [] d) (bar_rect G) t)
       (taskbar_bar_rect (gWidth G) (gHeight G)) (kTaskbarRadius, kTaskbarRadius, kTaskbarRadius, kTaskbarRadius))
    (texel_draw (bar_rect G) 1 True (uploadSide G (paint_bar G V' (bar_rect G) [] d') (bar_rect G) t')
       (taskbar_bar_rect (gWidth G) (gHeight G)) (kTaskbarRadius, kTaskbarRadius, kTaskbarRadius, kTaskbarRadius))"
  using bar_picture [OF assms] by (auto simp: same_draw_def texel_draw_def uploaded_size)

lemma sized_blank [simp]: "screen_sized (gWidth G) (gHeight G) (blank G)"
  by (simp add: blank_def new_raster_def screen_sized_def)

lemma bar_step:
  assumes G: "gl_laws G" and screen: "gWidth G < 2 ^ 31" "gHeight G < 2 ^ 31" and good: "good_frame G F"
    and cons: "\<And>F'. F' \<in> set past \<union> {F} \<Longrightarrow> good_frame G F' \<and> consistent G F' F"
  shows "draws_as G past F T S (drawBar G F) (ref_bar G F)"
  unfolding draws_as_def
proof (intro allI impI)
  fix s assume s: "gl_mid G past F T S s"
  show "gl_mid G past F T S (drawBar G F s) \<and>
    (\<exists>es. draws (drawBar G F s) = draws s @ es \<and> list_all2 (same_draw G) es (ref_bar G F))"
  proof (cases "has_bar G")
    case False
    then show ?thesis using s by (simp add: drawBar_at ref_bar_def)
  next
    case True
    let ?b = "bar_rect G" and ?bar = "taskbar_bar_rect (gWidth G) (gHeight G)" and ?q = kTaskbarRadius
    let ?key = "fingerprint (taskbar_fields G F ?b)"
    let ?fresh = "?key \<noteq> barKey s \<or> \<not> tmade (barTexture s)"
    let ?d = "paint_bar G (fView F) ?b [] (side s)"
    define s1 where "s1 = (if ?fresh
      then s\<lparr>side := ?d, barTexture := uploadSide G ?d ?b (barTexture s), barKey := ?key,
             stats := (stats s)\<lparr>taskbarUploads := taskbarUploads (stats s) + 1\<rparr>\<rparr>
      else s)"
    have sized: "screen_sized (gWidth G) (gHeight G) (side s)" using s by (simp add: gl_mid_def Let_def)
    have eq: "drawBar G F s = textured (barTexture s1) ?b 0 0 1 True (shape_cut ?bar (?q, ?q, ?q, ?q) 0 s1)"
      using True by (simp add: drawBar_at s1_def Let_def)
    have P: "painter_laws (gPainter G)" using G by (simp add: gl_laws_def)
    have b: "int64 (rx ?b)" "int64 (ry ?b)" "int64 (rw ?b)" "int64 (rh ?b)"
      using bar_numbers_small [OF P True screen] by simp_all
    have strip: "has_backdrop G (fView F)" using good by (simp add: good_frame_def)
    have shown: "same_draw G (texel_draw ?b 1 True (barTexture s1) ?bar (?q, ?q, ?q, ?q))
        (texel_draw ?b 1 True (bar_picture_of G (fView F)) ?bar (?q, ?q, ?q, ?q))"
    proof (cases ?fresh)
      case True
      have "same_bar_view (fView F) (fView F)" by (simp add: same_bar_view_def list_all2_refl)
      then show ?thesis
        using same_bar_draw [OF G _ strip sized sized_blank] True by (simp add: s1_def bar_picture_of_def)
    next
      case False
      moreover have "bar_ok G (set past \<union> {F}) s" using s by (simp add: gl_mid_def Let_def)
      ultimately obtain F' d t where F': "F' \<in> set past \<union> {F}" "screen_sized (gWidth G) (gHeight G) d"
          "barKey s = fingerprint (taskbar_fields G F' ?b)" "barTexture s = uploadSide G (paint_bar G (fView F') ?b [] d) ?b t"
        unfolding bar_ok_def by blast
      have known: "good_frame G F'" "consistent G F' F" using cons [OF F'(1)] by simp_all
      have "fingerprint (taskbar_fields G F' ?b) = fingerprint (taskbar_fields G F ?b)" using False F'(3) by simp
      then have "taskbar_fields G F' ?b = taskbar_fields G F ?b" using known(2) unfolding consistent_def by blast
      moreover have "fBlur F' = fBlur F \<Longrightarrow> barBlur (vBackground (fView F')) = barBlur (vBackground (fView F)) \<and>
          barBlurRect (vBackground (fView F')) = barBlurRect (vBackground (fView F))"
        using known(2) unfolding consistent_def by blast
      ultimately have "same_bar_view (fView F') (fView F)"
        using same_bar_fields [OF G _ _ b] known(1) good by (simp add: good_frame_def)
      then show ?thesis
        using same_bar_draw [OF G _ _ F'(2) sized_blank] known(1) False F'(4) by (simp add: s1_def bar_picture_of_def good_frame_def)
    qed
    have "gl_mid G past F T S s1"
    proof (cases ?fresh)
      case new: True
      then have "bar_ok G (set past \<union> {F}) s1" using sized unfolding bar_ok_def s1_def by (simp add: exI) blast
      then show ?thesis
        using new s sized_bar [OF sized] by (simp add: s1_def gl_mid_def wallpaper_ok_def cursor_ok_def Let_def)
    qed (use s in \<open>simp add: s1_def\<close>)
    moreover have "draws s1 = draws s" by (simp add: s1_def)
    ultimately show ?thesis
      unfolding eq ref_bar_def using True shown by (simp add: Let_def) (rule draws_textured; simp)
  qed
qed

lemma tip_step:
  assumes G: "gl_laws G"
  shows "draws_as G past F T S (drawTip G F) (ref_tip G (fView F))"
  unfolding draws_as_def
proof (intro allI impI)
  fix s assume s: "gl_mid G past F T S s"
  let ?V = "fView F"
  let ?tip = "tip_rect G ?V"
  let ?shown = "0 \<le> vTileHover ?V \<and> vTileHover ?V < int (length (tiles (taskbar_layout (gWidth G) (gHeight G) (vWindows ?V)))) \<and>
    \<not> empty_rect (rects (pui (gPainter G))) ?tip"
  show "gl_mid G past F T S (drawTip G F s) \<and>
    (\<exists>es. draws (drawTip G F s) = draws s @ es \<and> list_all2 (same_draw G) es (ref_tip G ?V))"
  proof (cases ?shown)
    case False
    then show ?thesis using s by (auto simp: drawTip_def ref_tip_def tip_rect_def Let_def)
  next
    case True
    let ?ops = "[FillOp ?tip (Theme TooltipOpaque)]"
    let ?d = "paint_bar G ?V ?tip ?ops (side s)"
    let ?t = "uploadSide G ?d ?tip (tipTexture s)"
    have sized: "screen_sized (gWidth G) (gHeight G) (side s)" using s by (simp add: gl_mid_def Let_def)
    have eq: "drawTip G F s = textured ?t ?tip 0 0 1 True (shape_cut ?tip (8, 8, 8, 8) 0 (s\<lparr>side := ?d, tipTexture := ?t\<rparr>))"
      using True by (simp add: drawTip_def tip_rect_def Let_def)
    have "inside ?tip x y \<Longrightarrow> inside (rect_at 0 0 (gWidth G) (gHeight G)) x y" for x y
      using G by (simp add: tip_rect_def gl_laws_def painter_simps)
    then have "?t = uploadSide G (paint_bar G ?V ?tip ?ops (blank G)) ?tip no_texture"
      by (intro uploadSide_eqI tip_picture [OF G _ sized sized_blank]) simp_all
    then have "same_draw G (texel_draw ?tip 1 True ?t ?tip (8, 8, 8, 8))
        (texel_draw ?tip 1 True (uploadSide G (paint_bar G ?V ?tip ?ops (blank G)) ?tip no_texture) ?tip (8, 8, 8, 8))"
      by simp
    moreover have "gl_mid G past F T S (s\<lparr>side := ?d, tipTexture := ?t\<rparr>)"
      using s sized_bar [OF sized] by (auto simp: gl_mid_def wallpaper_ok_def bar_ok_def cursor_ok_def Let_def)
    ultimately show ?thesis
      unfolding eq ref_tip_def using True by (simp add: Let_def) (rule draws_textured; simp)
  qed
qed

lemma cursor_step:
  assumes cons: "\<And>F'. F' \<in> set past \<union> {F} \<Longrightarrow> consistent G F' F"
  shows "draws_as G past F T S (drawCursor F) (ref_cursor F)"
  unfolding draws_as_def
proof (intro allI impI)
  fix s assume s: "gl_mid G past F T S s"
  show "gl_mid G past F T S (drawCursor F s) \<and>
    (\<exists>es. draws (drawCursor F s) = draws s @ es \<and> list_all2 (same_draw G) es (ref_cursor F))"
  proof (cases "fPointer F")
    case None
    then show ?thesis using s by (simp add: drawCursor_def ref_cursor_def)
  next
    case (Some p)
    define s1 where "s1 = (if cursorUploaded s then s
      else s\<lparr>cursorTexture := upload (ppWords p) (ppWidth p) (ppWidth p) (ppHeight p) (cursorTexture s), cursorUploaded := True\<rparr>)"
    have shown: "cursorTexture s1 = pointer_texture p"
    proof (cases "cursorUploaded s")
      case True
      then obtain F' p' where "F' \<in> set past \<union> {F}" "fPointer F' = Some p'" "cursorTexture s = pointer_texture p'"
        using s by (auto simp: gl_mid_def cursor_ok_def Let_def)
      then show ?thesis using cons Some True by (auto simp: s1_def consistent_def)
    qed (simp add: s1_def pointer_texture_def upload_any [of _ _ _ _ "cursorTexture s" no_texture])
    have "gl_mid G past F T S s1"
      using s shown Some by (auto simp: s1_def gl_mid_def wallpaper_ok_def bar_ok_def cursor_ok_def Let_def)
    moreover have "draws s1 = draws s" by (simp add: s1_def)
    moreover have "drawCursor F s = textured (cursorTexture s1)
        (rect_at (cx (fCursor F) - ppHotX p) (cy (fCursor F) - ppHotY p) (ppWidth p) (ppHeight p)) 0 0 2 True
        (shape_cut (rect_at (-100000) (-100000) 200000 200000) (0, 0, 0, 0) 0 s1)"
      using Some by (simp add: drawCursor_def s1_def Let_def)
    ultimately show ?thesis
      unfolding ref_cursor_def using Some shown by simp (rule draws_textured; simp)
  qed
qed

section \<open>From frame to frame\<close>

lemma finite_shown: "finite (shown_entries F)"
proof -
  have "shown_entries F \<subseteq> (\<lambda>w. the (shown_entry F w)) ` set (shown_windows F)" by (force simp: shown_entries_def)
  then show ?thesis by (rule finite_subset) simp
qed

lemma finite_cached: "finite (cached_ids F)"
proof -
  have "cached_ids F \<subseteq> (\<lambda>k. eid (vCache (fView F) ! k)) ` {..<kMaxSurfaceCache}" by (auto simp: cached_ids_def cached_surface_def)
  then show ?thesis by (rule finite_subset) simp
qed

lemma finite_recent: "finite (recent_ids past)"
  by (simp add: recent_ids_def finite_shown finite_cached)

lemma finite_windows: "finite (window_ids F)"
  by (simp add: window_ids_def)

text \<open>More frames of the past do no harm.\<close>

lemma ok_mono:
  assumes "H \<subseteq> H'"
  shows "title_slot_ok G H t \<Longrightarrow> title_slot_ok G H' t" and "surface_slot_ok G H u \<Longrightarrow> surface_slot_ok G H' u"
    and "wallpaper_ok G H s \<Longrightarrow> wallpaper_ok G H' s" and "bar_ok G H s \<Longrightarrow> bar_ok G H' s" and "cursor_ok H s \<Longrightarrow> cursor_ok H' s"
  using assms unfolding title_slot_ok_def surface_slot_ok_def wallpaper_ok_def bar_ok_def cursor_ok_def
  by (meson subsetD)+

lemma frame_start:
  assumes ok: "gl_ok G past s"
  shows "gl_mid G past F ((if past = [] then {} else window_ids (last past)) \<union> window_ids F) (recent_ids past \<union> eid ` shown_entries F)
    (s\<lparr>frameNumber := frameNumber s + 1, draws := []\<rparr>)"
proof -
  let ?s = "s\<lparr>frameNumber := frameNumber s + 1, draws := []\<rparr>"
  have H: "set past \<subseteq> set past \<union> {F}" by blast
  have "wallpaper_ok G (set past \<union> {F}) s" "bar_ok G (set past \<union> {F}) s" "cursor_ok (set past \<union> {F}) s"
    using ok ok_mono(3-5) [OF H] by (simp_all add: gl_ok_def Let_def)
  then have "wallpaper_ok G (set past \<union> {F}) ?s" "bar_ok G (set past \<union> {F}) ?s" "cursor_ok (set past \<union> {F}) ?s"
    by (simp_all add: wallpaper_ok_def bar_ok_def cursor_ok_def)
  moreover have "\<forall>t\<in>set (titleSlots s). title_slot_ok G (set past \<union> {F}) t \<and> \<not> ttSeen t"
    using ok ok_mono(1) [OF H] by (simp add: gl_ok_def Let_def)
  moreover have "\<forall>t\<in>set (surfaceSlots s). surface_slot_ok G (set past \<union> {F}) t \<and> \<not> stSeen t"
    using ok ok_mono(2) [OF H] by (simp add: gl_ok_def Let_def)
  ultimately show ?thesis
    using ok titles.keys_ok_mono [OF _ Un_upper1] surfs.keys_ok_mono [OF _ Un_upper1]
    unfolding gl_ok_def gl_mid_def Let_def by simp
qed

lemma forgotten_title:
  assumes "title_slot_ok G H t" "ttSeen t \<longrightarrow> ttWindow t \<in> window_ids F"
  shows "title_slot_ok G H (forget_title t)" "\<not> ttSeen (forget_title t)"
    "ttWindow (forget_title t) = 0 \<or> ttWindow (forget_title t) = ttWindow t \<and> ttWindow t \<in> window_ids F"
  using assms by (auto simp: forget_title_def title_slot_ok_def free_title_def)

lemma nth_in_drop: "n \<le> j \<Longrightarrow> j < length xs \<Longrightarrow> xs ! j \<in> set (drop n xs)"
  by (auto simp: in_set_conv_nth intro!: exI [of _ "j - n"])

text \<open>A surface's slot is kept for a surface that is known or was drawn at most 240 frames ago.\<close>

lemma forgotten_surface:
  assumes ok: "surface_slot_ok G H t" and seen: "stSeen t \<longrightarrow> stId t \<in> eid ` shown_entries F"
    and last: "\<not> stSeen t \<and> stId t \<noteq> 0 \<longrightarrow> 0 < stLast t \<and> stLast t \<le> length past \<and> stId t \<in> eid ` shown_entries (past ! (stLast t - 1))"
  defines "t' \<equiv> forget_surface (vCache (fView F)) (Suc (length past)) t"
  shows "surface_slot_ok G H t'" "\<not> stSeen t'"
    "stId t' \<noteq> 0 \<longrightarrow> 0 < stLast t' \<and> stLast t' \<le> length (past @ [F]) \<and> stId t' \<in> eid ` shown_entries ((past @ [F]) ! (stLast t' - 1))"
    "stId t' = 0 \<or> stId t' = stId t \<and> stId t \<in> recent_ids (past @ [F])"
proof -
  show "surface_slot_ok G H t'" "\<not> stSeen t'"
    using ok by (auto simp: t'_def forget_surface_def surface_slot_ok_def free_surface_def Let_def)
  show at: "stId t' \<noteq> 0 \<longrightarrow> 0 < stLast t' \<and> stLast t' \<le> length (past @ [F]) \<and> stId t' \<in> eid ` shown_entries ((past @ [F]) ! (stLast t' - 1))"
    using seen last by (auto simp: t'_def forget_surface_def free_surface_def Let_def nth_append)
  show "stId t' = 0 \<or> stId t' = stId t \<and> stId t \<in> recent_ids (past @ [F])"
  proof (cases "stId t' = 0")
    case False
    then have id: "stId t' = stId t" and kept: "cached_surface (vCache (fView F)) (stId t') \<or> Suc (length past) - stLast t' \<le> kTextureKeepFrames"
      by (auto simp: t'_def forget_surface_def free_surface_def Let_def split: if_splits)
    have "stId t' \<in> recent_ids (past @ [F])"
      using kept
    proof
      assume "Suc (length past) - stLast t' \<le> kTextureKeepFrames"
      moreover have "0 < stLast t'" "stLast t' \<le> Suc (length past)" using at False by simp_all
      ultimately have j: "Suc (length past) - (kTextureKeepFrames + 1) \<le> stLast t' - 1" "stLast t' - 1 < Suc (length past)"
        by linarith+
      then have "(past @ [F]) ! (stLast t' - 1) \<in> set (drop (length (past @ [F]) - (kTextureKeepFrames + 1)) (past @ [F]))"
        by (intro nth_in_drop) simp_all
      then show ?thesis using at False unfolding recent_ids_def by blast
    qed (simp add: recent_ids_def cached_ids_def)
    then show ?thesis using id by simp
  qed simp
qed

lemma frame_end:
  assumes mid: "gl_mid G past F T S s"
  shows "gl_ok G (past @ [F]) (forgetUnseen F s)"
proof -
  let ?H = "set (past @ [F])"
  have H: "?H = set past \<union> {F}" by simp
  have number: "frameNumber s = Suc (length past)" using mid by (simp add: gl_mid_def Let_def)
  have titles: "title_slot_ok G ?H t" "ttSeen t \<longrightarrow> ttWindow t \<in> window_ids F" if "t \<in> set (titleSlots s)" for t
    using mid that unfolding H by (simp_all add: gl_mid_def Let_def)
  have surfaces: "surface_slot_ok G ?H t" "stSeen t \<longrightarrow> stId t \<in> eid ` shown_entries F"
    "\<not> stSeen t \<and> stId t \<noteq> 0 \<longrightarrow> 0 < stLast t \<and> stLast t \<le> length past \<and> stId t \<in> eid ` shown_entries (past ! (stLast t - 1))"
    if "t \<in> set (surfaceSlots s)" for t
    using mid that unfolding H by (simp_all add: gl_mid_def Let_def)
  have "titles.keys_ok (window_ids F) (map forget_title (titleSlots s))"
    using mid forgotten_title(3) [OF titles] by (intro titles.keys_ok_map [of T]) (simp_all add: gl_mid_def Let_def)
  moreover have "surfs.keys_ok (recent_ids (past @ [F])) (map (forget_surface (vCache (fView F)) (frameNumber s)) (surfaceSlots s))"
    using mid forgotten_surface(4) [OF surfaces] unfolding number by (intro surfs.keys_ok_map [of S]) (simp_all add: gl_mid_def Let_def)
  moreover have "wallpaper_ok G ?H (forgetUnseen F s)" "bar_ok G ?H (forgetUnseen F s)" "cursor_ok ?H (forgetUnseen F s)"
    using mid unfolding H by (simp_all add: gl_mid_def Let_def wallpaper_ok_def bar_ok_def cursor_ok_def forgetUnseen_def)
  moreover have "\<forall>t\<in>set (titleSlots (forgetUnseen F s)). title_slot_ok G ?H t \<and> \<not> ttSeen t"
    using forgotten_title(1,2) [OF titles] by (simp add: forgetUnseen_def)
  moreover have "\<forall>t\<in>set (surfaceSlots (forgetUnseen F s)). surface_slot_ok G ?H t \<and> \<not> stSeen t \<and>
      (stId t \<noteq> 0 \<longrightarrow> 0 < stLast t \<and> stLast t \<le> length (past @ [F]) \<and> stId t \<in> eid ` shown_entries ((past @ [F]) ! (stLast t - 1)))"
    using forgotten_surface(1-3) [OF surfaces] by (simp add: forgetUnseen_def number)
  moreover have "screen_sized (gWidth G) (gHeight G) (side (forgetUnseen F s))" "frameNumber (forgetUnseen F s) = length (past @ [F])"
    using mid number by (simp_all add: forgetUnseen_def gl_mid_def Let_def)
  ultimately show ?thesis unfolding gl_ok_def Let_def by (simp add: forgetUnseen_def)
qed

lemma frame_step:
  assumes G: "gl_laws G" and screen: "gWidth G < 2 ^ 31" "gHeight G < 2 ^ 31" and ok: "gl_ok G past s"
    and known: "\<And>F'. F' \<in> set past \<union> {F} \<Longrightarrow> good_frame G F' \<and> consistent G F' F" and slots: "slots_suffice past F"
  shows "gl_ok G (past @ [F]) (drawFrame G F s) \<and> list_all2 (same_draw G) (draws (drawFrame G F s)) (reference G F)"
proof -
  let ?T = "(if past = [] then {} else window_ids (last past)) \<union> window_ids F" and ?S = "recent_ids past \<union> eid ` shown_entries F"
  let ?s = "s\<lparr>frameNumber := frameNumber s + 1, draws := []\<rparr>"
  have good: "good_frame G F" and cons: "\<And>F'. F' \<in> set past \<union> {F} \<Longrightarrow> consistent G F' F" using known by blast+
  have T: "finite ?T" "card ?T \<le> kMaxTextures" "window_ids F \<subseteq> ?T"
    using slots by (simp_all add: slots_suffice_def finite_windows)
  have S: "finite ?S" "card ?S \<le> kMaxTextures" "eid ` shown_entries F \<subseteq> ?S"
    using slots by (simp_all add: slots_suffice_def finite_recent finite_shown)
  have windows: "draws_as G past F ?T ?S (fold (drawWindow G F) (shown_windows F)) (concat (map (ref_window G F) (shown_windows F)))"
    by (rule draws_as_fold) (rule window_step [OF G good known T S])
  have wall: "draws_as G past F ?T ?S (drawWallpaper G F) (ref_wallpaper G F)"
    using wallpaper_step [OF good] cons by blast
  note bar = bar_step [OF G screen good known] and cursor = cursor_step [OF cons]
  note steps = draws_as_comp [OF draws_as_comp [OF draws_as_comp [OF draws_as_comp [OF wall windows] bar] tip_step [OF G]] cursor]
  have "draws_as G past F ?T ?S (\<lambda>s. drawCursor F (drawTaskbar G F (fold (drawWindow G F) (shown_windows F) (drawWallpaper G F s)))) (reference G F)"
    unfolding reference_def drawTaskbar_def using steps by simp
  then obtain es where es: "gl_mid G past F ?T ?S (drawCursor F (drawTaskbar G F (fold (drawWindow G F) (shown_windows F) (drawWallpaper G F ?s))))"
      "draws (drawCursor F (drawTaskbar G F (fold (drawWindow G F) (shown_windows F) (drawWallpaper G F ?s)))) = es"
      "list_all2 (same_draw G) es (reference G F)"
    using frame_start [OF ok, of F] unfolding draws_as_def by fastforce
  have "draws (drawFrame G F s) = es" using es(2) by (simp add: drawFrame_def forgetUnseen_def shown_windows_def)
  moreover have "gl_ok G (past @ [F]) (drawFrame G F s)"
    using frame_end [OF es(1)] by (simp add: drawFrame_def shown_windows_def)
  ultimately show ?thesis using es(3) by simp
qed

lemma gl_ok_start:
  assumes "screen_sized (gWidth G) (gHeight G) d"
  shows "gl_ok G [] (new_gl G d)"
proof -
  have "titles.keys_ok {} (titleSlots (new_gl G d))" "surfs.keys_ok (recent_ids []) (surfaceSlots (new_gl G d))"
    by (simp_all add: new_gl_def titles.keys_ok_start surfs.keys_ok_start)
  moreover have "\<forall>t\<in>set (titleSlots (new_gl G d)). title_slot_ok G {} t \<and> \<not> ttSeen t"
    by (simp add: new_gl_def title_slot_ok_def free_title_def)
  moreover have "\<forall>t\<in>set (surfaceSlots (new_gl G d)). surface_slot_ok G {} t \<and> \<not> stSeen t \<and> stId t = 0"
    by (simp add: new_gl_def surface_slot_ok_def free_surface_def)
  ultimately show ?thesis
    using assms unfolding gl_ok_def Let_def
    by (simp add: wallpaper_ok_def bar_ok_def cursor_ok_def) (simp add: new_gl_def no_texture_def)
qed

lemma run_ok:
  assumes "gl_laws G" "gWidth G < 2 ^ 31" "gHeight G < 2 ^ 31" "screen_sized (gWidth G) (gHeight G) d" "trusted G frames" "k \<le> length frames"
  shows "gl_ok G (take k frames) (fold (drawFrame G) (take k frames) (new_gl G d))"
  using assms(6)
proof (induction k)
  case 0
  then show ?case by (simp add: gl_ok_start assms(4))
next
  case (Suc k)
  have take: "take (Suc k) frames = take k frames @ [frames ! k]" using Suc.prems by (simp add: take_Suc_conv_app_nth)
  have "F' \<in> set frames" if "F' \<in> set (take k frames) \<union> {frames ! k}" for F'
    using that Suc.prems by (auto dest: in_set_takeD)
  then show ?case
    using frame_step [OF assms(1-3) Suc.IH, of "frames ! k"] assms(5) Suc.prems unfolding take by (simp add: trusted_def)
qed

end
