(* ===== verification/Gl_Result.thy ===== *)
theory Gl_Result
  imports Gl_Match Compositor_Contents "HOL-Library.Countable"
begin

text \<open>The frames of the GL back end and those of the renderer without caches, and an example.\<close>

text \<open>
  C4: From the start on, every frame the GL back end draws is the frame a renderer draws that keeps
  no texture from one frame to the next, as long as pixels that change get another address or
  fingerprint or a later generation and 64 slots are enough: nothing stale is ever shown.
\<close>

theorem gl_frames_match:
  assumes "gl_laws G" and "gWidth G < 2 ^ 31" "gHeight G < 2 ^ 31" and "screen_sized (gWidth G) (gHeight G) d"
    and "trusted G frames" and "k < length frames"
  shows "list_all2 (same_draw G) (draws (fold (drawFrame G) (take (Suc k) frames) (new_gl G d))) (reference G (frames ! k))"
proof -
  have take: "take (Suc k) frames = take k frames @ [frames ! k]" using assms(6) by (simp add: take_Suc_conv_app_nth)
  have "F' \<in> set frames" if "F' \<in> set (take k frames) \<union> {frames ! k}" for F'
    using that assms(6) by (auto dest: in_set_takeD)
  then show ?thesis
    using frame_step [OF assms(1-3) run_ok [OF assms(1-5), of k], of "frames ! k"] assms(5,6) unfolding take
    by (simp add: trusted_def)
qed

section \<open>An example\<close>

fun flag_code :: "window_flag \<Rightarrow> nat" where
  "flag_code Minimized = 0"
| "flag_code Closed = 1"
| "flag_code Focused = 2"
| "flag_code Maximized = 3"
| "flag_code (OtherFlag n) = n + 4"

definition plain_gl :: gl_config where
  "plain_gl = \<lparr>gPainter = plain_painter, gCanvas = plain_canvas, gWidth = 1000, gHeight = 600,
     stateBits = (\<lambda>st. set_encode (flag_code ` st)), titleBytes = 64, dmaBufImport = False\<rparr>"

lemma flag_code_inj: "flag_code f = flag_code g \<longleftrightarrow> f = g"
  by (cases f; cases g) auto

lemma finite_flags:
  assumes "st \<subseteq> state_flags"
  shows "finite st"
proof -
  have "finite state_flags" unfolding state_flags_def by simp
  then show ?thesis by (rule finite_subset [OF assms])
qed

lemma plain_gl_laws: "gl_laws plain_gl"
proof -
  have "inj_on (\<lambda>st. set_encode (flag_code ` st)) (Pow state_flags)"
    by (rule inj_onI) (auto simp: set_encode_eq finite_flags inj_image_eq_iff inj_on_def flag_code_inj)
  moreover have "set_encode (flag_code ` st) < 2 ^ 32" if "st \<subseteq> state_flags" for st
  proof -
    have "flag_code ` st \<subseteq> {..<32}" using that by (auto simp: state_flags_def)
    then have "set_encode (flag_code ` st) \<le> sum ((^) 2) {..<32}" unfolding set_encode_def by (intro sum_mono2) simp_all
    then show ?thesis by (simp add: lessThan_nat_numeral lessThan_Suc)
  qed
  moreover have "place_laws plain_painter plain_canvas"
  proof -
    have "pixel plain_canvas (shift_op dx dy op) (x + dx) (y + dy) v = pixel plain_canvas op x y v" for op dx dy x y v
      by (cases op) (simp_all add: plain_canvas_def inside_def shift_rect_def algebra_simps)
    then show ?thesis
      by (simp add: place_laws_def plain_painter_def plain_ui_def) (auto simp: plain_canvas_def inside_def)
  qed
  ultimately show ?thesis
    using plain_painter_laws plain_canvas_laws by (simp add: gl_laws_def plain_gl_def clock_law_def) (simp add: plain_painter_def)
qed

text \<open>A window at a place and a commit of its surface, over a wallpaper.\<close>

definition demo_window :: "int \<Rightarrow> window_info" where
  "demo_window x = (plain_window 9 ''Demo'' {Focused})\<lparr>wx := x\<rparr>"

definition demo_entry :: "nat \<Rightarrow> cache_entry" where
  "demo_entry g = plain_entry\<lparr>generation := g\<rparr>"

definition demo_frame :: "int \<Rightarrow> nat \<Rightarrow> frame_input" where
  "demo_frame x g =
     \<lparr>fView = (plain_view [demo_window x])\<lparr>vCache := demo_entry g # replicate 63 empty_entry,
        vMemory := (\<lambda>address i. word_of_int (i + int g)),
        vBackground := \<lparr>bgPixels = Some (new_raster 1000 600), bgWidth = 1000, bgHeight = 600, bgReady = True, bgPath = ''sea'',
          barBlur = Some (new_raster 984 48), barBlurRect = taskbar_bar_rect 1000 600\<rparr>\<rparr>,
      fPixels = 8192, fBlur = 16384, fCursor = \<lparr>cx = x, cy = 100\<rparr>, fPointer = None, fExports = (\<lambda>i. False)\<rparr>"

lemma demo_windows: "shown_windows (demo_frame x g) = [demo_window x]"
  by (simp add: shown_windows_def demo_frame_def plain_view_def demo_window_def plain_window_def is_window_visible_def)

lemma demo_entries: "shown_entries (demo_frame x g) = {demo_entry g}"
proof -
  have "find_surface_cache (demo_entry g # replicate 63 empty_entry) 9 = Some 0"
    using find_first [of "demo_entry g" "replicate 63 empty_entry"] by (simp add: demo_entry_def plain_entry_def)
  then have "shown_entry (demo_frame x g) (demo_window x) = Some (demo_entry g)"
    by (simp add: shown_entry_def demo_frame_def demo_window_def plain_window_def demo_entry_def plain_entry_def Let_def)
  then show ?thesis by (simp add: shown_entries_def demo_windows)
qed

lemma demo_cached: "cached_ids (demo_frame x g) \<subseteq> {9, 0}"
  by (auto simp: cached_ids_def cached_surface_def demo_frame_def demo_entry_def plain_entry_def empty_entry_def nth_Cons' kMaxSurfaceCache_def
      split: if_splits)

lemma demo_title:
  "0 \<le> x \<Longrightarrow> x \<le> 600 \<Longrightarrow> title_rect plain_gl (demo_window x) = rect_at (x + 1) 101 300 39 \<and>
   title_body plain_gl (demo_window x) = rect_at (x + 1) 101 300 239"
  by (simp add: title_rect_def title_body_def plain_gl_def plain_painter_def plain_ui_def plain_rects_def demo_window_def plain_window_def
      window_frame_rect_def frame_width_def frame_height_def kBorder_def kTitleBarHeight_def Let_def)

lemma demo_good:
  assumes "0 \<le> x" "x \<le> 600" "g < 2 ^ 64 - 1"
  shows "good_frame plain_gl (demo_frame x g)"
proof -
  have "CHR ''D'' \<noteq> char_of (0 :: nat)" "CHR ''e'' \<noteq> char_of (0 :: nat)" "CHR ''m'' \<noteq> char_of (0 :: nat)" "CHR ''o'' \<noteq> char_of (0 :: nat)"
    by code_simp+
  then have "c_frame plain_gl (demo_frame x g)"
    by (auto simp: c_frame_def c_window_def demo_frame_def plain_view_def demo_window_def plain_window_def title_fits_def plain_gl_def
        state_flags_def int64_def Let_def)
  moreover have "tall (demo_window x)" "wid (demo_window x) \<noteq> 0"
    by (simp_all add: tall_def sizable_def demo_window_def plain_window_def)
  moreover have "has_backdrop plain_gl (fView (demo_frame x g))"
    by (simp add: has_backdrop_def demo_frame_def same_bar_def plain_gl_def)
  ultimately show ?thesis
    unfolding good_frame_def demo_windows demo_entries
    using assms(3) by (simp add: demo_frame_def demo_entry_def plain_entry_def kMaxSurfaceCache_def)
qed

lemma demo_consistent:
  assumes "0 \<le> x" "x \<le> 600" "0 \<le> x'" "x' \<le> 600" "g = g' \<longrightarrow> x = x'"
  shows "consistent plain_gl (demo_frame x g) (demo_frame x' g')"
proof -
  let ?F = "demo_frame x g" and ?F' = "demo_frame x' g'"
  have "wallpaper_texture ?F = wallpaper_texture ?F'" by (simp add: wallpaper_texture_def demo_frame_def)
  moreover have "title_fields plain_gl (fView ?F) (demo_window x) (title_rect plain_gl (demo_window x)) (title_body plain_gl (demo_window x)) =
      title_fields plain_gl (fView ?F') (demo_window x') (title_rect plain_gl (demo_window x')) (title_body plain_gl (demo_window x'))"
    using demo_title assms(1-4) by (simp add: title_fields_def demo_frame_def plain_view_def demo_window_def plain_window_def)
  moreover have "taskbar_fields plain_gl ?F b = taskbar_fields plain_gl ?F' b" for b
    by (simp add: taskbar_fields_def demo_frame_def plain_view_def demo_window_def plain_window_def Let_def)
  moreover have "generation (demo_entry g) = g" by (simp add: demo_entry_def)
  ultimately show ?thesis
    unfolding consistent_def demo_windows demo_entries using assms(5)
    by (simp add: imported_def plain_gl_def) (simp add: demo_frame_def demo_window_def plain_window_def demo_entry_def)
qed

lemma demo_trusted: "trusted plain_gl [demo_frame 100 1, demo_frame 140 2]"
proof -
  let ?F = "demo_frame 100 1" and ?G = "demo_frame 140 2"
  have ids: "eid ` shown_entries (demo_frame x g) \<subseteq> {9, 0}" "window_ids (demo_frame x g) \<subseteq> {9, 0}" for x g
    by (simp_all add: demo_entries demo_entry_def plain_entry_def window_ids_def demo_windows demo_window_def plain_window_def)
  have small: "card A \<le> kMaxTextures" if "A \<subseteq> {9, 0 :: nat}" for A
    using card_mono [OF _ that] by (simp add: kMaxTextures_def)
  have "slots_suffice [] ?F" "slots_suffice [?F] ?G"
    unfolding slots_suffice_def recent_ids_def kTextureKeepFrames_def
    by (simp; intro conjI small Un_least ids demo_cached)+
  then have "slots_suffice (take k [?F, ?G]) ([?F, ?G] ! k)" if "k < 2" for k
    using that by (cases "k = 0") (auto simp: less_2_cases_iff)
  moreover have "good_frame plain_gl ?F" "good_frame plain_gl ?G" by (simp_all add: demo_good)
  moreover have "consistent plain_gl A B" if "A \<in> {?F, ?G}" "B \<in> {?F, ?G}" for A B
    using that by (auto intro!: demo_consistent)
  ultimately show ?thesis by (simp add: trusted_def)
qed

theorem gl_frames_match_witness:
  "list_all2 (same_draw plain_gl)
     (draws (fold (drawFrame plain_gl) [demo_frame 100 1, demo_frame 140 2] (new_gl plain_gl (new_raster 1000 600))))
     (reference plain_gl (demo_frame 140 2))"
proof -
  have "screen_sized (gWidth plain_gl) (gHeight plain_gl) (new_raster 1000 600)"
    by (simp add: plain_gl_def screen_sized_def new_raster_def)
  then show ?thesis
    using gl_frames_match [OF plain_gl_laws _ _ _ demo_trusted, of "new_raster 1000 600" 1] by (simp add: plain_gl_def)
qed

theorem changed_byte_noticed_witness:
  "fingerprint (map of_char ''Demo'') \<noteq> fingerprint (map of_char ''Demi'')"
  using changed_byte_noticed [of "of_char CHR ''o''" "of_char CHR ''i''" "map of_char ''Dem''" "[]"] by simp

end
