(* ===== verification/Gl_Defects.thy ===== *)
theory Gl_Defects
  imports Gl_Result Compositor_Damage
begin

text \<open>
  What the caches of the GL back end miss: a surface that leaves the compositor's cache and comes back
  starts again at generation 1, and the GL texture with generation 1 is still there.
\<close>

section \<open>The rest of a frame leaves the surfaces alone\<close>

lemma textured_surfaces [simp]: "surfaceSlots (textured t r sx sy mode bgra s) = surfaceSlots s" "frameNumber (textured t r sx sy mode bgra s) = frameNumber s"
  by (simp_all add: textured_def quad_def set_unif_def)

lemma shape_surfaces [simp]: "surfaceSlots (shape_cut r q ring s) = surfaceSlots s" "frameNumber (shape_cut r q ring s) = frameNumber s"
  "draws (shape_cut r q ring s) = draws s"
  by (simp_all add: shape_cut_def set_unif_def)



lemma draws_grow:
  "set (draws s) \<subseteq> set (draws (textured t r sx sy mode bgra s))"
  by (auto simp: textured_def quad_def set_unif_def)


section \<open>The cache forgets and the generation starts again\<close>




section \<open>The slot of the surface\<close>


lemma made_picture [simp]: "tmade (surface_picture G F e)"
  by (simp add: surface_picture_def new_surface_def makeTexture_def upload_texture Let_def)









end
