(* ===== verification/Gl_Present.thy ===== *)
theory Gl_Present
  imports Gl_Match
begin

text \<open>
  The OpenGL back end as the event loop sees it (\<open>src/graphics-compositor/src/gl_backend.cpp\<close>): starting it,
  noting that something is to be shown, and \<open>commit\<close>, which draws a frame into the scanout buffer that
  is not on the screen and flips. The kernel's display and clock answer from all calls and answers so
  far; Mesa is a record \<open>egl\<close> of what its calls give. What a buffer holds is the list of draw calls that
  were finished on it.
\<close>

section \<open>The display\<close>

datatype gl_call = GAcquire bool | GExport nat | GHandleFd int | GClose int | GRelease | GWait nat | GFlip nat | GTime

text \<open>The call failed; a number; the number of buffers, their size and the bytes of a row.\<close>

datatype gl_reply = GFailed | GNumber int | GInfo nat int int nat

type_synonym gl_trace = "(gl_call \<times> gl_reply) list"
type_synonym gl_env = "gl_trace \<Rightarrow> gl_call \<Rightarrow> gl_reply"

definition gl_ask :: "gl_env \<Rightarrow> gl_call \<Rightarrow> gl_trace \<Rightarrow> gl_reply \<times> gl_trace" where
  "gl_ask env c tr = (let r = env tr c in (r, tr @ [(c, r)]))"

definition gettime :: "gl_env \<Rightarrow> gl_trace \<Rightarrow> nat \<times> gl_trace" where
  "gettime env tr = (let (r, tr) = gl_ask env GTime tr in (case r of GNumber n \<Rightarrow> nat (n mod 2 ^ 64) | _ \<Rightarrow> 0, tr))"

definition u64_add :: "nat \<Rightarrow> nat \<Rightarrow> nat" where "u64_add a b = (a + b) mod 2 ^ 64"
definition u64_sub :: "nat \<Rightarrow> nat \<Rightarrow> nat" where "u64_sub a b = (a + 2 ^ 64 - b) mod 2 ^ 64"

definition add_elapsed :: "gl_env \<Rightarrow> nat \<Rightarrow> nat \<Rightarrow> gl_trace \<Rightarrow> nat \<times> gl_trace" where
  "add_elapsed env since counter tr =
     (let (now, tr) = gettime env tr in (if since \<le> now then u64_add counter (now - since) else counter, tr))"

section \<open>Starting\<close>

text \<open>
  What Mesa's calls give: the libraries, their entry points and extension functions, displays,
  contexts, shaders, the import of a scanout buffer and whether a framebuffer is complete.
\<close>

record egl =
  eglLibraries :: bool
  eglEntries :: bool
  eglProc :: "string \<Rightarrow> bool"
  platformDisplay :: bool
  defaultDisplay :: bool
  eglInitialized :: bool
  eglExtensions :: "string option"
  eglConfigs :: int
  eglContext :: bool
  shaderCompiles :: "bool \<Rightarrow> bool"
  programLinks :: bool
  importsBuffer :: "nat \<Rightarrow> int \<Rightarrow> bool"
  targetComplete :: "nat \<Rightarrow> bool"
  rendererName :: string

definition strstr :: "string \<Rightarrow> string \<Rightarrow> bool" where
  "strstr s needle \<longleftrightarrow> list_ex (\<lambda>k. take (length needle) (drop k s) = needle) [0..<Suc (length s)]"

text \<open>An error is the line that is written.\<close>

definition load_functions :: "egl \<Rightarrow> string + unit" where
  "load_functions E =
     (if \<not> eglLibraries E then Inl ''gl: Mesa's libEGL/libGLESv2 are not there''
      else if \<not> eglEntries E then Inl ''gl: an entry point is missing'' else Inr ())"

text \<open>\<open>startEgl\<close>: whether buffers can be imported as textures.\<close>

definition startEgl :: "egl \<Rightarrow> bool \<Rightarrow> string + bool" where
  "startEgl E readBack =
     (let display = (if readBack then eglProc E ''eglGetPlatformDisplayEXT'' \<and> platformDisplay E else defaultDisplay E)
      in if \<not> display \<or> \<not> eglInitialized E then Inl ''gl: eglInitialize failed''
         else (case eglExtensions E of
                 None \<Rightarrow> Inl ''gl: EGL lacks surfaceless contexts or dma-buf import''
               | Some x \<Rightarrow>
                   if \<not> strstr x ''EGL_KHR_surfaceless_context'' \<or>
                      \<not> readBack \<and> \<not> strstr x ''EGL_EXT_image_dma_buf_import''
                   then Inl ''gl: EGL lacks surfaceless contexts or dma-buf import''
                   else if eglConfigs E < 1 then Inl ''gl: no GLES 3 config''
                   else if \<not> eglContext E then Inl ''gl: no GLES 3 context''
                   else Inr (strstr x ''EGL_EXT_image_dma_buf_import'' \<and> eglProc E ''eglCreateImageKHR'' \<and>
                     eglProc E ''glEGLImageTargetTexture2DOES'')))"

definition startProgram :: "egl \<Rightarrow> string + unit" where
  "startProgram E =
     (if \<not> shaderCompiles E True \<or> \<not> shaderCompiles E False then Inl ''gl: shader''
      else if \<not> programLinks E then Inl ''gl: the program does not link'' else Inr ())"

definition startTargets :: "egl \<Rightarrow> bool \<Rightarrow> int list \<Rightarrow> string + unit" where
  "startTargets E readBack fds =
     foreach [0..<if readBack then 1 else kBuffers]
       (\<lambda>i _. if \<not> readBack \<and> (\<not> importsBuffer E i (fds ! i) \<or> \<not> eglProc E ''glEGLImageTargetRenderbufferStorageOES'')
              then Inl ''gl: a scanout buffer does not import''
              else if \<not> targetComplete E i then Inl ''gl: a target framebuffer is incomplete'' else Inr ()) ()"

text \<open>The descriptors of the scanout buffers (\<open>-1\<close> for none), and whether all were exported.\<close>

fun export_buffers :: "gl_env \<Rightarrow> nat list \<Rightarrow> int list \<Rightarrow> gl_trace \<Rightarrow> bool \<times> int list \<times> gl_trace" where
  "export_buffers env [] fds tr = (True, fds, tr)"
| "export_buffers env (i # is) fds tr =
     (let (r, tr) = gl_ask env (GExport i) tr
      in case r of
           GNumber handle \<Rightarrow>
             let (r, tr) = gl_ask env (GHandleFd handle) tr
             in export_buffers env is (fds[i := (case r of GNumber fd \<Rightarrow> fd | _ \<Rightarrow> -1)]) tr
         | _ \<Rightarrow> (False, fds, tr))"

definition close_buffers :: "gl_env \<Rightarrow> int list \<Rightarrow> gl_trace \<Rightarrow> gl_trace" where
  "close_buffers env fds tr = fold (\<lambda>fd tr. snd (gl_ask env (GClose fd) tr)) (filter (\<lambda>fd. 0 \<le> fd) fds) tr"

record gl_started =
  bufferWidth :: int
  bufferHeight :: int
  bufferPitch :: nat
  readsBack :: bool
  importsSurfaces :: bool

definition release :: "gl_env \<Rightarrow> gl_trace \<Rightarrow> gl_trace" where
  "release env tr = snd (gl_ask env GRelease tr)"

text \<open>\<open>GlBackend::start\<close>; \<open>memory\<close>: the side buffer can be had. The result, the run, the lines written.\<close>

definition gl_start :: "egl \<Rightarrow> bool \<Rightarrow> gl_env \<Rightarrow> bool \<Rightarrow> gl_trace \<Rightarrow> gl_started option \<times> gl_trace \<times> string list" where
  "gl_start E memory env acceptEmulation tr =
     (let (r, tr) = gl_ask env (GAcquire acceptEmulation) tr
      in case r of
           GInfo n width height pitch \<Rightarrow>
             if n < kBuffers then (None, tr, [])
             else let (exported, fds, tr) = export_buffers env [0..<kBuffers] (replicate kBuffers (- 1)) tr
                  in if \<not> exported \<and> \<not> acceptEmulation then (None, release env tr, [])
                     else let readBack = (\<not> exported)
                          in (case seqE (load_functions E) (\<lambda>_. seqE (startEgl E readBack) (\<lambda>imports.
                                     seqE (startProgram E) (\<lambda>_. seqE (startTargets E readBack fds) (\<lambda>_. Inr imports)))) of
                                Inl line \<Rightarrow> (None, release env (close_buffers env fds tr), [line])
                              | Inr imports \<Rightarrow>
                                  let tr = close_buffers env fds tr
                                  in if \<not> memory then (None, release env tr, [])
                                     else (Some \<lparr>bufferWidth = width, bufferHeight = height, bufferPitch = pitch,
                                             readsBack = readBack, importsSurfaces = imports\<rparr>, tr,
                                           [''gl: '' @ rendererName E @
                                             (if readBack then '', frames read back into the emulated buffers''
                                              else '', drawing into the scanout buffers'')]))
         | _ \<Rightarrow> (None, tr, []))"

text \<open>\<open>initialize\<close> compares the size with the framebuffer's.\<close>

definition gl_initialize :: "gl_started \<Rightarrow> int \<Rightarrow> int \<Rightarrow> bool" where
  "gl_initialize s width height \<longleftrightarrow> bufferWidth s = width \<and> bufferHeight s = height"

section \<open>Showing\<close>

text \<open>
  The back end: what it keeps between frames, the buffer on the screen, what the scanout buffers and the
  renderbuffer for reading back hold, the counters of \<open>stats_\<close> and \<open>gTiming\<close>, and the run.
\<close>

record gl_screen =
  frames :: gl
  scPending :: bool
  scFront :: nat
  scanout :: "draw list list"
  own :: "draw list"
  statFrames :: nat
  recordMs :: nat
  finishMs :: nat
  flipWaitMs :: nat
  sceneRedrawMs :: nat
  flips :: nat
  run :: gl_trace
  lines :: "string list"

definition new_screen :: "gl_config \<Rightarrow> raster \<Rightarrow> draw list list \<Rightarrow> gl_trace \<Rightarrow> gl_screen" where
  "new_screen G d shown tr =
     \<lparr>frames = new_gl G d, scPending = False, scFront = kBuffers, scanout = shown, own = [], statFrames = 0,
      recordMs = 0, finishMs = 0, flipWaitMs = 0, sceneRedrawMs = 0, flips = 0, run = tr, lines = []\<rparr>"

definition zero_stats :: gl_stats where
  "zero_stats = \<lparr>bufferImports = 0, windowUploads = 0, titleUploads = 0, taskbarUploads = 0\<rparr>"

definition stats_line :: "gl_screen \<Rightarrow> string" where
  "stats_line s =
     (let t = stats (frames s)
      in ''gl: 120 frames: recording '' @ decimal (recordMs s) @ '' ms, GPU until done '' @ decimal (finishMs s) @
         '' ms; imports '' @ decimal (bufferImports t) @ '', uploads: windows '' @ decimal (windowUploads t) @
         '' titles '' @ decimal (titleUploads t) @ '' taskbar '' @ decimal (taskbarUploads t))"

text \<open>\<open>note\<close>, which the three present functions call: the frame is drawn at \<open>commit\<close>.\<close>

definition note_shown :: "gl_screen \<Rightarrow> gl_screen" where
  "note_shown s = s\<lparr>scPending := True\<rparr>"

text \<open>Counting a frame: every 120 frames a line and new counters.\<close>

definition count_frame :: "nat \<Rightarrow> nat \<Rightarrow> nat \<Rightarrow> gl_screen \<Rightarrow> gl_screen" where
  "count_frame drawStart recorded finished s =
     (let s = s\<lparr>recordMs := u64_add (recordMs s) (u64_sub recorded drawStart),
                finishMs := u64_add (finishMs s) (u64_sub finished recorded), statFrames := statFrames s + 1\<rparr>
      in if statFrames s = 120
         then s\<lparr>lines := lines s @ [stats_line s], frames := (frames s)\<lparr>stats := zero_stats\<rparr>, statFrames := 0,
                recordMs := 0, finishMs := 0\<rparr>
         else s)"

text \<open>
  \<open>drawFrame\<close> into the target bound: the renderbuffer of its own when frames are read back, which is
  then copied to the buffer, or the buffer itself.
\<close>

definition draw_into :: "gl_config \<Rightarrow> bool \<Rightarrow> nat \<Rightarrow> frame_input \<Rightarrow> gl_screen \<Rightarrow> gl_screen" where
  "draw_into G readBack back F s =
     (let s = s\<lparr>frames := drawFrame G F (frames s)\<rparr>
      in if readBack then s\<lparr>own := draws (frames s)\<rparr> else s\<lparr>scanout := (scanout s)[back := draws (frames s)]\<rparr>)"

definition read_frame_back :: "bool \<Rightarrow> nat \<Rightarrow> gl_screen \<Rightarrow> gl_screen" where
  "read_frame_back readBack back s = (if readBack then s\<lparr>scanout := (scanout s)[back := own s]\<rparr> else s)"

text \<open>\<open>commit\<close>; \<open>scene\<close> is what the frame is drawn from, nothing as long as \<open>setScene\<close> was not called.\<close>

definition gl_commit :: "gl_config \<Rightarrow> bool \<Rightarrow> gl_env \<Rightarrow> frame_input option \<Rightarrow> gl_screen \<Rightarrow> gl_screen" where
  "gl_commit G readBack env scene s =
     (case scene of
        None \<Rightarrow> s
      | Some F \<Rightarrow>
          if \<not> scPending s then s
          else let back = (if scFront s = 0 then 1 else 0);
                   (waitStart, tr) = gettime env (run s);
                   (_, tr) = gl_ask env (GWait kWaitMs) tr;
                   (waited, tr) = add_elapsed env waitStart (flipWaitMs s) tr;
                   (drawStart, tr) = gettime env tr;
                   s = draw_into G readBack back F (s\<lparr>scPending := False, flipWaitMs := waited\<rparr>);
                   (recorded, tr) = gettime env tr;
                   s = read_frame_back readBack back s;
                   (finished, tr) = gettime env tr;
                   (redraw, tr) = add_elapsed env drawStart (sceneRedrawMs s) tr;
                   s = count_frame drawStart recorded finished (s\<lparr>sceneRedrawMs := redraw\<rparr>);
                   (r, tr) = gl_ask env (GFlip back) tr
               in if r = GFailed then s\<lparr>run := tr\<rparr>
                  else s\<lparr>scFront := back, flips := u64_add (flips s) 1, run := tr\<rparr>)"

text \<open>What the event loop does for a frame: it presents and commits.\<close>

definition gl_pass :: "gl_config \<Rightarrow> bool \<Rightarrow> gl_env \<Rightarrow> frame_input \<Rightarrow> gl_screen \<Rightarrow> gl_screen" where
  "gl_pass G readBack env F s = gl_commit G readBack env (Some F) (note_shown s)"

section \<open>What starting takes it gives back\<close>

text \<open>But for one descriptor, when the second scanout buffer cannot be exported.\<close>

text \<open>The descriptors a run opened and closed, and how often it released the display.\<close>

fun opened_by :: "gl_call \<times> gl_reply \<Rightarrow> int list" where
  "opened_by (GHandleFd h, GNumber fd) = (if 0 \<le> fd then [fd] else [])"
| "opened_by _ = []"

fun closed_by :: "gl_call \<times> gl_reply \<Rightarrow> int list" where
  "closed_by (GClose fd, _) = [fd]"
| "closed_by _ = []"

definition opened :: "gl_trace \<Rightarrow> int list" where "opened tr = concat (map opened_by tr)"
definition closed :: "gl_trace \<Rightarrow> int list" where "closed tr = concat (map closed_by tr)"
definition releases :: "gl_trace \<Rightarrow> nat" where "releases tr = length (filter (\<lambda>x. fst x = GRelease) tr)"

lemma run_parts [simp]:
  "opened (a @ b) = opened a @ opened b" "opened [] = []" "opened (x # b) = opened_by x @ opened b"
  "closed (a @ b) = closed a @ closed b" "closed [] = []" "closed (x # b) = closed_by x @ closed b"
  "releases (a @ b) = releases a + releases b" "releases [] = 0"
  "releases (x # b) = (if fst x = GRelease then 1 else 0) + releases b"
  by (simp_all add: opened_def closed_def releases_def)

lemma close_buffers_parts [simp]:
  "opened (close_buffers env fds tr) = opened tr" "closed (close_buffers env fds tr) = closed tr @ filter (\<lambda>fd. 0 \<le> fd) fds"
  "releases (close_buffers env fds tr) = releases tr"
proof -
  have "opened (fold (\<lambda>fd tr. snd (gl_ask env (GClose fd) tr)) fs tr) = opened tr \<and>
      closed (fold (\<lambda>fd tr. snd (gl_ask env (GClose fd) tr)) fs tr) = closed tr @ fs \<and>
      releases (fold (\<lambda>fd tr. snd (gl_ask env (GClose fd) tr)) fs tr) = releases tr" for fs tr
    by (induction fs arbitrary: tr) (auto simp: gl_ask_def Let_def)
  then show "opened (close_buffers env fds tr) = opened tr" "closed (close_buffers env fds tr) = closed tr @ filter (\<lambda>fd. 0 \<le> fd) fds"
    "releases (close_buffers env fds tr) = releases tr"
    by (simp_all add: close_buffers_def)
qed

lemma release_parts [simp]:
  "opened (release env tr) = opened tr" "closed (release env tr) = closed tr" "releases (release env tr) = releases tr + 1"
  by (simp_all add: release_def gl_ask_def Let_def)

lemma export_two:
  assumes "export_buffers env [0..<kBuffers] (replicate kBuffers (- 1)) tr = (ok, fds, tr')"
  shows "opened tr' = opened tr @ filter (\<lambda>fd. 0 \<le> fd) fds \<and> closed tr' = closed tr \<and> releases tr' = releases tr"
  using assms
  by (auto simp: kBuffers_def numeral_2_eq_2 gl_ask_def Let_def split: gl_reply.splits)

text \<open>
  The back end that starts has closed every descriptor it got; when it does not start, it also has
  released the display if that had enough buffers. Only when a buffer cannot be exported and no emulation
  is accepted, the descriptors it got before stay open.
\<close>

theorem gl_start_gives_back:
  assumes "gl_start E memory env accept [] = (result, tr, ls)"
  shows "(closed tr = opened tr \<or> closed tr = [] \<and> result = None \<and> \<not> accept) \<and>
    releases tr = (case env [] (GAcquire accept) of
      GInfo n _ _ _ \<Rightarrow> if 2 \<le> n \<and> result = None then 1 else 0 | _ \<Rightarrow> 0)"
proof (cases "env [] (GAcquire accept)")
  case (GInfo n width height pitch)
  let ?tr = "[(GAcquire accept, GInfo n width height pitch)]"
  show ?thesis
  proof (cases "n < kBuffers")
    case True
    then show ?thesis using assms GInfo by (auto simp: gl_start_def gl_ask_def Let_def kBuffers_def)
  next
    case False
    obtain ok fds tr1 where ex: "export_buffers env [0..<kBuffers] (replicate kBuffers (- 1)) ?tr = (ok, fds, tr1)"
      using prod_cases3 by blast
    have parts: "opened tr1 = filter (\<lambda>fd. 0 \<le> fd) fds" "closed tr1 = []" "releases tr1 = 0"
      using export_two [OF ex] by simp_all
    show ?thesis
      using assms GInfo False ex parts
      by (auto simp: gl_start_def gl_ask_def Let_def kBuffers_def split: if_splits sum.splits)
  qed
qed (use assms in \<open>auto simp: gl_start_def gl_ask_def Let_def\<close>)

end
