(* ===== verification/Gl_Screen.thy ===== *)
theory Gl_Screen
  imports Gl_Present Gl_Result
begin

text \<open>
  What is on the screen with the OpenGL back end: always a whole frame, the one of the last flip the
  display took, and, as long as the changes can be told by address, fingerprint or generation, drawn as a
  renderer without textures kept between frames would draw it.
\<close>

section \<open>A pass\<close>

text \<open>Whether the display took the flips of a run, one after the other.\<close>

fun flip_of :: "gl_call \<times> gl_reply \<Rightarrow> bool list" where
  "flip_of (GFlip b, r) = [r \<noteq> GFailed]"
| "flip_of _ = []"

definition flips_taken :: "gl_trace \<Rightarrow> bool list" where
  "flips_taken tr = concat (map flip_of tr)"

lemma flips_taken_append [simp]: "flips_taken (a @ b) = flips_taken a @ flips_taken b" "flips_taken [] = []"
  "flips_taken (x # b) = flip_of x @ flips_taken b"
  by (simp_all add: flips_taken_def)



lemma gl_ok_stats [simp]: "gl_ok G past (s\<lparr>stats := x\<rparr>) = gl_ok G past s"
  by (simp add: gl_ok_def Let_def wallpaper_ok_def bar_ok_def cursor_ok_def)

lemma count_frame_keeps [simp]:
  "scanout (count_frame a b c s) = scanout s" "scFront (count_frame a b c s) = scFront s"
  "run (count_frame a b c s) = run s" "scPending (count_frame a b c s) = scPending s"
  "gl_ok G past (frames (count_frame a b c s)) = gl_ok G past (frames s)"
  by (simp_all add: count_frame_def Let_def)

lemma drawn_into [simp]:
  "scanout (read_frame_back rb back (draw_into G rb back F s)) = (scanout s)[back := draws (drawFrame G F (frames s))]"
  by (simp add: draw_into_def read_frame_back_def Let_def)

lemma drawn_keeps [simp]:
  "scFront (draw_into G rb back F s) = scFront s" "scFront (read_frame_back rb back s) = scFront s"
  "frames (read_frame_back rb back s) = frames s" "frames (draw_into G rb back F s) = drawFrame G F (frames s)"
  by (simp_all add: draw_into_def read_frame_back_def Let_def)


text \<open>The flip taken last.\<close>

definition last_true :: "bool list \<Rightarrow> nat" where
  "last_true bs = length (dropWhile Not (rev bs)) - 1"

lemma last_true_snoc [simp]: "last_true (bs @ [True]) = length bs" "last_true (bs @ [False]) = last_true bs"
  by (simp_all add: last_true_def)







section \<open>The screen\<close>






end
