(* ===== verification/Compositor_Network.thy ===== *)
theory Compositor_Network
  imports Gl_Present
begin

text \<open>
  The rest of \<open>src/graphics-compositor/src/platform.cpp\<close>: numbers on the serial port, the timing report, and
  the thread that watches the network for the taskbar. The kernel answers from all calls and answers
  so far.
\<close>

section \<open>Numbers\<close>

text \<open>\<open>write_u64\<close>: the digits from the lowest on, at most 21, and the characters it writes one by one.\<close>

fun digits_loop :: "nat \<Rightarrow> string \<Rightarrow> string" where
  "digits_loop n digits =
     (if 0 < n \<and> length digits < 21 then digits_loop (n div 10) (digits @ [digit_char (n mod 10)]) else digits)"

declare digits_loop.simps [simp del]

definition write_u64 :: "nat \<Rightarrow> string list" where
  "write_u64 n = (if n = 0 then [''0''] else map (\<lambda>c. [c]) (rev (digits_loop n [])))"

lemma digits_loop_low: "length digits + length (low_digits n) \<le> 21 \<Longrightarrow> digits_loop n digits = digits @ low_digits n"
proof (induction n digits rule: digits_loop.induct)
  case (1 n digits)
  show ?case
  proof (cases "n = 0")
    case True
    then show ?thesis by (subst digits_loop.simps) simp
  next
    case False
    then show ?thesis using 1 by (subst digits_loop.simps) (auto simp: low_digits_pos)
  qed
qed

text \<open>Every 64-bit number is written in full.\<close>

theorem write_u64_decimal:
  assumes "n < 2 ^ 64"
  shows "concat (write_u64 n) = decimal n"
proof -
  have "length (low_digits n) \<le> 20" using assms by (intro length_low_digits) simp
  then have "digits_loop n [] = low_digits n" by (simp add: digits_loop_low)
  then show ?thesis by (simp add: write_u64_def decimal_def)
qed

section \<open>The timing report\<close>

record timing =
  tFrames :: nat
  tBackground :: nat
  tWindowFrame :: nat
  tSurfaceBlit :: nat
  tSceneRedraw :: nat
  tPresent :: nat
  tFlips :: nat
  tFlipWait :: nat

definition report_timing :: "timing \<Rightarrow> string option" where
  "report_timing t =
     (if tFrames t = 0 \<or> tFrames t mod 120 \<noteq> 0 then None
      else Some (''[graphics.compositor] timing frames='' @ concat (write_u64 (tFrames t)) @ '' bg='' @
        concat (write_u64 (tBackground t)) @ ''ms frame='' @ concat (write_u64 (tWindowFrame t)) @ ''ms blit='' @
        concat (write_u64 (tSurfaceBlit t)) @ ''ms redraw='' @ concat (write_u64 (tSceneRedraw t)) @ ''ms present='' @
        concat (write_u64 (tPresent t)) @
        (if tFlips t \<noteq> 0
         then ''ms flips='' @ concat (write_u64 (tFlips t)) @ '' flipwait='' @ concat (write_u64 (tFlipWait t)) else []) @
        ''ms'' @ [char_of (10 :: nat)]))"

section \<open>Watching the network\<close>

datatype net_call = Net_Config nat | Net_Sleep nat | Net_Wake

text \<open>A result; a configuration: its generation and whether the interface is up.\<close>

datatype net_answer = Net_Code nat | Net_State nat bool

type_synonym net_trace = "(net_call \<times> net_answer) list"
type_synonym net_kernel = "net_trace \<Rightarrow> net_call \<Rightarrow> net_answer"

record net_watch =
  known_generation :: nat
  network_online :: bool
  watched :: net_trace

definition net_do :: "net_kernel \<Rightarrow> net_call \<Rightarrow> net_trace \<Rightarrow> net_answer \<times> net_trace" where
  "net_do env c tr = (let r = env tr c in (r, tr @ [(c, r)]))"

text \<open>A turn of \<open>watch_network\<close>, and whether the thread goes on.\<close>

definition net_watch_turn :: "net_kernel \<Rightarrow> net_watch \<Rightarrow> net_watch \<times> bool" where
  "net_watch_turn env w =
     (let (r, tr) = net_do env (Net_Config (known_generation w)) (watched w);
          (failed, result, generation, up) =
            (case r of
               Net_State g up \<Rightarrow> (False, 0, g, up)
             | Net_Code n \<Rightarrow> (2 ^ 64 - 4095 \<le> n mod 2 ^ 64, n mod 2 ^ 64, 0, False))
      in if failed
         then if result = 2 ^ 64 - 2 then (w\<lparr>watched := tr\<rparr>, False)
              else (w\<lparr>watched := snd (net_do env (Net_Sleep 1000) tr)\<rparr>, True)
         else (w\<lparr>known_generation := generation, network_online := up,
                 watched := (if up \<noteq> network_online w then snd (net_do env Net_Wake tr) else tr)\<rparr>, True))"

fun net_watch_turns :: "net_kernel \<Rightarrow> nat \<Rightarrow> net_watch \<times> bool" where
  "net_watch_turns env 0 = (\<lparr>known_generation = 0, network_online = False, watched = []\<rparr>, True)"
| "net_watch_turns env (Suc n) =
     (case net_watch_turns env n of (w, go) \<Rightarrow> if go then net_watch_turn env w else (w, False))"

text \<open>The states reported in a run, and the wake-ups it sent.\<close>

fun reported_state :: "net_call \<times> net_answer \<Rightarrow> bool list" where
  "reported_state (Net_Config g, Net_State g' up) = [up]"
| "reported_state (Net_Config g, Net_Code n) = (if 2 ^ 64 - 4095 \<le> n mod 2 ^ 64 then [] else [False])"
| "reported_state _ = []"

definition states :: "net_trace \<Rightarrow> bool list" where
  "states tr = concat (map reported_state tr)"

definition wakes :: "net_trace \<Rightarrow> nat" where
  "wakes tr = length (filter (\<lambda>x. fst x = Net_Wake) tr)"

fun changes :: "bool \<Rightarrow> bool list \<Rightarrow> nat" where
  "changes b [] = 0"
| "changes b (x # xs) = (if x \<noteq> b then 1 else 0) + changes x xs"

lemma changes_snoc: "changes b (xs @ [x]) = changes b xs + (if x \<noteq> last (b # xs) then 1 else 0)"
  by (induction xs arbitrary: b) auto

text \<open>
  The flag the taskbar shows is the state reported last, and the event loop was woken up once for every
  change of it.
\<close>

theorem network_watch_follows:
  "let w = fst (net_watch_turns env n)
   in network_online w = last (False # states (watched w)) \<and> wakes (watched w) = changes False (states (watched w))"
proof (induction n)
  case 0
  then show ?case by (simp add: states_def wakes_def)
next
  case (Suc n)
  obtain w go where w: "net_watch_turns env n = (w, go)" by (cases "net_watch_turns env n")
  let ?r = "env (watched w) (Net_Config (known_generation w))"
  have old: "network_online w = last (False # states (watched w))" "wakes (watched w) = changes False (states (watched w))"
    using Suc w by (simp_all add: Let_def)
  show ?case
  proof (cases go)
    case True
    have states: "states (a @ b) = states a @ states b" "wakes (a @ b) = wakes a + wakes b" for a b
      by (simp_all add: states_def wakes_def)
    show ?thesis
    proof (cases ?r)
      case (Net_Code m)
      then show ?thesis using old w True
        by (auto simp: net_watch_turn_def net_do_def Let_def states changes_snoc)
          (auto simp: states_def wakes_def changes_snoc)
    next
      case (Net_State g up)
      then show ?thesis using old w True
        by (auto simp: net_watch_turn_def net_do_def Let_def states changes_snoc)
          (auto simp: states_def wakes_def changes_snoc)
    qed
  qed (use Suc w in \<open>simp add: Let_def\<close>)
qed

end
