(* ===== verification/Compositor_Assets.thy ===== *)
theory Compositor_Assets
  imports Compositor_Drawing
begin

text \<open>
  \<open>src/graphics-compositor/src/assets.cpp\<close>: the icons and the font loaded at start-up and the size of the
  pointer image. Reading images and fonts is the user interface library's: \<open>image_files\<close> says which
  files can be had. The pixels of the pointer image are in \<open>Compositor_Cursor\<close>.
\<close>

section \<open>The pointer image\<close>

definition kMaxCursorSize :: int where "kMaxCursorSize = 24"

text \<open>The size of the pointer image for one of \<open>w\<close> by \<open>h\<close> pixels, both positive.\<close>

definition cursor_size :: "int \<Rightarrow> int \<Rightarrow> int \<times> int" where
  "cursor_size w h =
     (if w \<le> kMaxCursorSize \<and> h \<le> kMaxCursorSize then (w, h)
      else let (tw, th) = (if h \<le> w then (kMaxCursorSize, h * kMaxCursorSize div w)
                           else (w * kMaxCursorSize div h, kMaxCursorSize))
           in (if tw < 1 then 1 else tw, if th < 1 then 1 else th))"

section \<open>Icons\<close>

definition kIconDirectory :: string where "kIconDirectory = ''/bin/icons/''"
definition kNotchBoldFontPath :: string where "kNotchBoldFontPath = ''/bin/StackSansNotch-Bold.ttf''"

text \<open>The path of a line icon, in an array of 96 characters.\<close>

definition icon_path :: "string \<Rightarrow> string" where
  "icon_path name = fold (\<lambda>part path. append_loop 96 path part) [kIconDirectory, name, ''.svg''] []"

text \<open>The colours of the theme that icons are tinted with.\<close>

datatype icon_color = Text_Color | Kind_File | Text_Unfocused | Accent_Text | Accent_Light

record image_files =
  svg_there :: "string \<Rightarrow> int \<Rightarrow> bool"
  font_there :: "string \<Rightarrow> bool"

text \<open>What was loaded, where to, at which size and in which colour, and the lines written.\<close>

record asset_state =
  loaded :: "(icon \<times> string \<times> int \<times> icon_color) list"
  start_font :: bool
  complaints :: "string list"

definition load_line_icon ::
  "image_files \<Rightarrow> icon \<Rightarrow> string \<Rightarrow> int \<Rightarrow> icon_color \<Rightarrow> asset_state \<Rightarrow> bool \<times> asset_state" where
  "load_line_icon I icon name size1 color s =
     (let path = icon_path name
      in if svg_there I path size1 then (True, s\<lparr>loaded := loaded s @ [(icon, path, size1, color)]\<rparr>)
         else (False, s\<lparr>complaints := complaints s @ [''[graphics.compositor] icon load failed: '' @ path]\<rparr>))"

text \<open>\<open>ok = load_line_icon(...) && ok\<close> for icons in turn: each is tried.\<close>

fun load_icons ::
  "image_files \<Rightarrow> (icon \<times> string \<times> int \<times> icon_color) list \<Rightarrow> bool \<times> asset_state \<Rightarrow> bool \<times> asset_state" where
  "load_icons I [] st = st"
| "load_icons I ((icon, name, size1, color) # is) (ok, s) =
     (let (loaded, s) = load_line_icon I icon name size1 color s in load_icons I is (loaded \<and> ok, s))"

definition kApps :: "string list" where "kApps = [''terminal'', ''folder'', ''image'', ''cube'', ''globe'', ''app'']"
definition kGlyphs :: "string list" where "kGlyphs = [''win-close'', ''win-maximize'', ''win-minimize'', ''win-restore'']"

definition taskbar_icons :: "(icon \<times> string \<times> int \<times> icon_color) list" where
  "taskbar_icons =
     concat (map (\<lambda>a. [(TileApp a 0, kApps ! a, kTileIconSize, Text_Color), (TileApp a 1, kApps ! a, kTileIconSize, Kind_File)])
       [0..<kTitleIconCount]) @
     [(WifiIcon, ''wifi'', kTrayIconSize, Kind_File), (WifiOffIcon, ''wifi-off'', kTrayIconSize, Kind_File),
      (VolumeOffIcon, ''volume-x'', kTrayIconSize, Kind_File)]"

definition load_taskbar :: "image_files \<Rightarrow> asset_state \<Rightarrow> bool \<times> asset_state" where
  "load_taskbar I s =
     (let (ok, s) = load_icons I taskbar_icons (True, s)
      in if font_there I kNotchBoldFontPath then (ok, s\<lparr>start_font := True\<rparr>)
         else (False, s\<lparr>complaints := complaints s @ [''[graphics.compositor] start button font load failed'']\<rparr>))"

definition control_icons :: "(icon \<times> string \<times> int \<times> icon_color) list" where
  "control_icons =
     concat (map (\<lambda>g. [(ControlGlyph g 0, kGlyphs ! g, kControlGlyphSize, Text_Color),
       (ControlGlyph g 1, kGlyphs ! g, kControlGlyphSize, Text_Unfocused),
       (ControlGlyph g 2, kGlyphs ! g, kControlGlyphSize, Accent_Text)]) [0..<4]) @
     concat (map (\<lambda>a. [(TitleApp a 0, kApps ! a, kTitleIconSize, Accent_Light),
       (TitleApp a 1, kApps ! a, kTitleIconSize, Text_Unfocused)]) [0..<kTitleIconCount])"

definition load_controls :: "image_files \<Rightarrow> asset_state \<Rightarrow> bool \<times> asset_state" where
  "load_controls I s = load_icons I control_icons (True, s)"

definition no_assets :: asset_state where
  "no_assets = \<lparr>loaded = [], start_font = False, complaints = []\<rparr>"

section \<open>What is loaded\<close>

definition there :: "image_files \<Rightarrow> icon \<times> string \<times> int \<times> icon_color \<Rightarrow> bool" where
  "there I x = (case x of (icon, name, size1, color) \<Rightarrow> svg_there I (icon_path name) size1)"

definition as_loaded :: "icon \<times> string \<times> int \<times> icon_color \<Rightarrow> icon \<times> string \<times> int \<times> icon_color" where
  "as_loaded x = (case x of (icon, name, size1, color) \<Rightarrow> (icon, icon_path name, size1, color))"

lemma load_icons_all:
  "\<exists>s'. load_icons I xs (ok, s) = (ok \<and> (\<forall>x\<in>set xs. there I x), s') \<and>
     loaded s' = loaded s @ map as_loaded (filter (there I) xs) \<and> start_font s' = start_font s"
proof (induction xs arbitrary: ok s)
  case (Cons x xs)
  obtain icon name size1 color where x: "x = (icon, name, size1, color)" by (cases x)
  obtain r s1 where step: "load_line_icon I icon name size1 color s = (r, s1)" by (cases "load_line_icon I icon name size1 color s")
  then have "r = there I x" "loaded s1 = loaded s @ (if there I x then [as_loaded x] else [])" "start_font s1 = start_font s"
    by (auto simp: load_line_icon_def there_def as_loaded_def x Let_def split: if_splits)
  then show ?case using Cons.IH [of "r \<and> ok" s1] step x by auto
qed simp

text \<open>
  Every icon is tried even when another fails; the result says whether all could be had. The icons are
  exactly those that the window controls, the title bars and the taskbar's tiles and tray draw, each at the
  size drawing takes it to have.
\<close>

theorem assets_loaded:
  "fst (load_taskbar I s) = ((\<forall>x\<in>set taskbar_icons. there I x) \<and> font_there I kNotchBoldFontPath) \<and>
   fst (load_controls I s) = (\<forall>x\<in>set control_icons. there I x) \<and>
   loaded (snd (load_controls I (snd (load_taskbar I s)))) =
     loaded s @ map as_loaded (filter (there I) (taskbar_icons @ control_icons)) \<and>
   fst ` set (taskbar_icons @ control_icons) =
     (\<Union>a<kTitleIconCount. {TileApp a 0, TileApp a 1}) \<union> {WifiIcon, WifiOffIcon, VolumeOffIcon} \<union>
     ((\<Union>g<4. {ControlGlyph g 0, ControlGlyph g 1, ControlGlyph g 2}) \<union> (\<Union>a<kTitleIconCount. {TitleApp a 0, TitleApp a 1})) \<and>
   (\<forall>(i, name, size1, color)\<in>set (taskbar_icons @ control_icons). size1 = icon_size i)"
proof (intro conjI)
  obtain s1 where s1: "load_icons I taskbar_icons (True, s) = ((\<forall>x\<in>set taskbar_icons. there I x), s1)"
    "loaded s1 = loaded s @ map as_loaded (filter (there I) taskbar_icons)"
    using load_icons_all [of I taskbar_icons True s] by auto
  then have bar: "fst (load_taskbar I s) = ((\<forall>x\<in>set taskbar_icons. there I x) \<and> font_there I kNotchBoldFontPath)"
    "loaded (snd (load_taskbar I s)) = loaded s @ map as_loaded (filter (there I) taskbar_icons)"
    by (simp_all add: load_taskbar_def)
  then show "fst (load_taskbar I s) = ((\<forall>x\<in>set taskbar_icons. there I x) \<and> font_there I kNotchBoldFontPath)" by simp
  show "fst (load_controls I s) = (\<forall>x\<in>set control_icons. there I x)"
    using load_icons_all [of I control_icons True s] by (auto simp: load_controls_def)
  show "loaded (snd (load_controls I (snd (load_taskbar I s)))) =
     loaded s @ map as_loaded (filter (there I) (taskbar_icons @ control_icons))"
    using load_icons_all [of I control_icons True "snd (load_taskbar I s)"] bar(2) by (auto simp: load_controls_def)
  have icons: "fst ` set taskbar_icons = (\<Union>a<kTitleIconCount. {TileApp a 0, TileApp a 1}) \<union> {WifiIcon, WifiOffIcon, VolumeOffIcon}"
    "fst ` set control_icons = (\<Union>g<4. {ControlGlyph g 0, ControlGlyph g 1, ControlGlyph g 2}) \<union>
       (\<Union>a<kTitleIconCount. {TitleApp a 0, TitleApp a 1})"
    by (simp_all add: taskbar_icons_def control_icons_def image_Un image_UN atLeast0LessThan)
  show "fst ` set (taskbar_icons @ control_icons) =
     (\<Union>a<kTitleIconCount. {TileApp a 0, TileApp a 1}) \<union> {WifiIcon, WifiOffIcon, VolumeOffIcon} \<union>
     ((\<Union>g<4. {ControlGlyph g 0, ControlGlyph g 1, ControlGlyph g 2}) \<union> (\<Union>a<kTitleIconCount. {TitleApp a 0, TitleApp a 1}))"
    unfolding set_append image_Un icons by (rule refl)
  show "\<forall>(i, name, size1, color)\<in>set (taskbar_icons @ control_icons). size1 = icon_size i"
    by (auto simp: taskbar_icons_def control_icons_def icon_size_def)
qed

text \<open>The pointer image fits and is not empty.\<close>

lemma cursor_size_bounds:
  assumes "0 < w" "0 < h"
  shows "1 \<le> fst (cursor_size w h) \<and> fst (cursor_size w h) \<le> kMaxCursorSize \<and>
    1 \<le> snd (cursor_size w h) \<and> snd (cursor_size w h) \<le> kMaxCursorSize"
proof -
  have "a * kMaxCursorSize div b \<le> kMaxCursorSize" if "0 \<le> a" "a \<le> b" "0 < b" for a b
  proof -
    have "a * kMaxCursorSize div b \<le> b * kMaxCursorSize div b"
      using that by (intro zdiv_mono1 mult_right_mono) (simp_all add: kMaxCursorSize_def)
    then show ?thesis using that by simp
  qed
  then show ?thesis using assms by (auto simp: cursor_size_def Let_def kMaxCursorSize_def)
qed

end
