(* ===== verification/Floating.thy ===== *)
theory Floating
  imports Prelude Complex_Main
begin

text \<open>
  Numbers of type \<open>double\<close>, for the network tools: a record of the machine's operations, C's conversions to
  integers, which are undefined outside the type, and exact arithmetic as an instance.
\<close>

section \<open>Operations\<close>

text \<open>
  \<open>d_trunc\<close> is the number without its fraction, none for infinities and what is not a number; \<open>d_read\<close> is
  \<open>strtod\<close>, \<open>d_text n\<close> prints with \<open>n\<close> digits behind the point.
\<close>

record 'f doubles =
  d_int :: "int \<Rightarrow> 'f"
  d_add :: "'f \<Rightarrow> 'f \<Rightarrow> 'f"
  d_sub :: "'f \<Rightarrow> 'f \<Rightarrow> 'f"
  d_mul :: "'f \<Rightarrow> 'f \<Rightarrow> 'f"
  d_div :: "'f \<Rightarrow> 'f \<Rightarrow> 'f"
  d_neg :: "'f \<Rightarrow> 'f"
  d_less :: "'f \<Rightarrow> 'f \<Rightarrow> bool"
  d_le :: "'f \<Rightarrow> 'f \<Rightarrow> bool"
  d_trunc :: "'f \<Rightarrow> int option"
  d_read :: "string \<Rightarrow> 'f"
  d_text :: "nat \<Rightarrow> 'f \<Rightarrow> string"

datatype d_fault = Out_Of_Range

definition to_range :: "int \<Rightarrow> int \<Rightarrow> int option \<Rightarrow> d_fault + int" where
  "to_range lo hi x = (case x of None \<Rightarrow> Inl Out_Of_Range | Some n \<Rightarrow> if lo \<le> n \<and> n \<le> hi then Inr n else Inl Out_Of_Range)"

definition to_int32 :: "'f doubles \<Rightarrow> 'f \<Rightarrow> d_fault + int" where
  "to_int32 F x = to_range (- (2 ^ 31)) (2 ^ 31 - 1) (d_trunc F x)"

definition to_int64 :: "'f doubles \<Rightarrow> 'f \<Rightarrow> d_fault + int" where
  "to_int64 F x = to_range (- (2 ^ 63)) (2 ^ 63 - 1) (d_trunc F x)"

definition to_u32 :: "'f doubles \<Rightarrow> 'f \<Rightarrow> d_fault + nat" where
  "to_u32 F x = map_sum id nat (to_range 0 (2 ^ 32 - 1) (d_trunc F x))"

definition to_u64 :: "'f doubles \<Rightarrow> 'f \<Rightarrow> d_fault + nat" where
  "to_u64 F x = map_sum id nat (to_range 0 (2 ^ 64 - 1) (d_trunc F x))"

lemma to_range_eq: "to_range lo hi x = Inr n \<longleftrightarrow> x = Some n \<and> lo \<le> n \<and> n \<le> hi"
  by (auto simp: to_range_def split: option.splits)

section \<open>Exact arithmetic\<close>

definition exact :: "(string \<Rightarrow> rat) \<Rightarrow> (nat \<Rightarrow> rat \<Rightarrow> string) \<Rightarrow> rat doubles" where
  "exact rd tx =
     \<lparr>d_int = of_int, d_add = (+), d_sub = (-), d_mul = (*), d_div = (/), d_neg = uminus, d_less = (<), d_le = (\<le>),
      d_trunc = (\<lambda>x. Some (if 0 \<le> x then \<lfloor>x\<rfloor> else - \<lfloor>- x\<rfloor>)), d_read = rd, d_text = tx\<rparr>"

lemma exact_simps [simp]:
  "d_int (exact rd tx) = of_int" "d_add (exact rd tx) = (+)" "d_sub (exact rd tx) = (-)" "d_mul (exact rd tx) = (*)"
  "d_div (exact rd tx) = (/)" "d_neg (exact rd tx) = uminus" "d_less (exact rd tx) = (<)" "d_le (exact rd tx) = (\<le>)"
  "d_trunc (exact rd tx) x = Some (if 0 \<le> x then \<lfloor>x\<rfloor> else - \<lfloor>- x\<rfloor>)" "d_read (exact rd tx) = rd"
  "d_text (exact rd tx) = tx"
  by (simp_all add: exact_def)

lemma exact_u64:
  assumes "0 \<le> (x :: rat)" "x < 2 ^ 64"
  shows "to_u64 (exact rd tx) x = Inr (nat \<lfloor>x\<rfloor>)"
proof -
  have "\<lfloor>x\<rfloor> \<le> 2 ^ 64 - 1" using assms(2) floor_less_iff [of x "2 ^ 64"] by simp
  then show ?thesis using assms(1) by (simp add: to_u64_def to_range_def)
qed

lemma exact_u32:
  assumes "0 \<le> (x :: rat)" "x < 2 ^ 32"
  shows "to_u32 (exact rd tx) x = Inr (nat \<lfloor>x\<rfloor>)"
proof -
  have "\<lfloor>x\<rfloor> \<le> 2 ^ 32 - 1" using assms(2) floor_less_iff [of x "2 ^ 32"] by simp
  then show ?thesis using assms(1) by (simp add: to_u32_def to_range_def)
qed

end
