(* ===== verification/Compositor_Cursor.thy ===== *)
theory Compositor_Cursor
  imports Compositor_Assets Floating
begin

text \<open>
  \<open>CursorImage::loadFromFile\<close> of \<open>src/graphics-compositor/src/assets.cpp\<close>: a pointer image that is too large is
  scaled down by averaging the pixels under each of the new ones, with the colours weighted by their
  opacity. The numbers are the machine's (\<open>doubles\<close>); what the pixels become is shown in exact arithmetic.
\<close>

section \<open>The code\<close>

record rgba =
  cR :: nat
  cG :: nat
  cB :: nat
  cA :: nat

text \<open>
  For pixel \<open>i\<close> of \<open>m\<close>, the source pixels of \<open>n\<close> it lies over: from and to which place, and the numbers of the
  first and of the one behind the last. The floor and the ceiling of a number of type \<open>double\<close> are those of its
  integer part.
\<close>

definition d_floor :: "'f doubles \<Rightarrow> 'f \<Rightarrow> d_fault + int" where
  "d_floor F x = seqE (to_int32 F x) (\<lambda>n. Inr (if d_less F x (d_int F n) then n - 1 else n))"

definition d_ceil :: "'f doubles \<Rightarrow> 'f \<Rightarrow> d_fault + int" where
  "d_ceil F x = seqE (to_int32 F x) (\<lambda>n. Inr (if d_less F (d_int F n) x then n + 1 else n))"

definition pixel_extent :: "'f doubles \<Rightarrow> int \<Rightarrow> int \<Rightarrow> int \<Rightarrow> d_fault + 'f \<times> 'f \<times> int \<times> int" where
  "pixel_extent F n m i =
     (let lo = d_div F (d_mul F (d_int F i) (d_int F n)) (d_int F m); hi = d_div F (d_mul F (d_int F (i + 1)) (d_int F n)) (d_int F m)
      in seqE (d_floor F lo) (\<lambda>a. seqE (d_ceil F hi) (\<lambda>b. Inr (lo, hi, if a < 0 then 0 else a, if n < b then n else b))))"

text \<open>How much of source pixel \<open>k\<close> lies between the two places.\<close>

definition share :: "'f doubles \<Rightarrow> 'f \<Rightarrow> 'f \<Rightarrow> int \<Rightarrow> 'f" where
  "share F lo hi k =
     d_sub F (if d_less F hi (d_int F (k + 1)) then hi else d_int F (k + 1)) (if d_less F (d_int F k) lo then lo else d_int F k)"

record 'f color_sums =
  totalWeight :: 'f
  alphaSum :: 'f
  redSum :: 'f
  greenSum :: 'f
  blueSum :: 'f

definition add_sample :: "'f doubles \<Rightarrow> 'f \<Rightarrow> rgba \<Rightarrow> 'f color_sums \<Rightarrow> 'f color_sums" where
  "add_sample F weight src s =
     (let alpha = d_mul F (d_div F (d_int F (int (cA src))) (d_int F 255)) weight
      in \<lparr>totalWeight = d_add F (totalWeight s) weight, alphaSum = d_add F (alphaSum s) alpha,
          redSum = d_add F (redSum s) (d_mul F (d_int F (int (cR src))) alpha),
          greenSum = d_add F (greenSum s) (d_mul F (d_int F (int (cG src))) alpha),
          blueSum = d_add F (blueSum s) (d_mul F (d_int F (int (cB src))) alpha)\<rparr>)"

text \<open>A pixel of an image, which has to be there.\<close>

definition pixel_of :: "rgba list \<Rightarrow> int \<Rightarrow> d_fault + rgba" where
  "pixel_of ps i = (if 0 \<le> i \<and> i < int (length ps) then Inr (ps ! nat i) else Inl Out_Of_Range)"

definition sum_samples :: "'f doubles \<Rightarrow> rgba list \<Rightarrow> int \<Rightarrow> 'f \<times> 'f \<times> int \<times> int \<Rightarrow> 'f \<times> 'f \<times> int \<times> int \<Rightarrow> d_fault + 'f color_sums" where
  "sum_samples F ps w rows cols =
     (case (rows, cols) of ((upper, bottom, y0, y1), (left, right, x0, x1)) \<Rightarrow>
        foreach [y0..y1 - 1] (\<lambda>y s.
          let yWeight = share F upper bottom y
          in if d_le F yWeight (d_int F 0) then Inr s
             else foreach [x0..x1 - 1] (\<lambda>x s.
               let xWeight = share F left right x
               in if d_le F xWeight (d_int F 0) then Inr s
                  else seqE (pixel_of ps (y * w + x)) (\<lambda>src. Inr (add_sample F (d_mul F xWeight yWeight) src s))) s)
          \<lparr>totalWeight = d_int F 0, alphaSum = d_int F 0, redSum = d_int F 0, greenSum = d_int F 0, blueSum = d_int F 0\<rparr>)"

text \<open>\<open>static_cast<uint8_t>(x + 0.5)\<close>, which is undefined outside 0 to 255.\<close>

definition to_byte :: "'f doubles \<Rightarrow> 'f \<Rightarrow> d_fault + nat" where
  "to_byte F x = map_sum id nat (to_range 0 255 (d_trunc F (d_add F x (d_div F (d_int F 1) (d_int F 2)))))"

text \<open>\<open>blank\<close> is the library's colour \<open>{}\<close>.\<close>

definition mean_color :: "'f doubles \<Rightarrow> rgba \<Rightarrow> 'f color_sums \<Rightarrow> d_fault + rgba" where
  "mean_color F blank s =
     (let outAlpha = (if d_less F (d_int F 0) (totalWeight s) then d_div F (alphaSum s) (totalWeight s) else d_int F 0)
      in if d_le F outAlpha (d_int F 0) then Inr blank
         else seqE (to_byte F (d_div F (redSum s) (alphaSum s))) (\<lambda>r. seqE (to_byte F (d_div F (greenSum s) (alphaSum s))) (\<lambda>g.
              seqE (to_byte F (d_div F (blueSum s) (alphaSum s))) (\<lambda>b. seqE (to_byte F (d_mul F outAlpha (d_int F 255))) (\<lambda>a.
                Inr \<lparr>cR = r, cG = g, cB = b, cA = a\<rparr>)))))"

definition cursor_pixel :: "'f doubles \<Rightarrow> rgba \<Rightarrow> rgba list \<Rightarrow> int \<Rightarrow> int \<Rightarrow> int \<Rightarrow> int \<Rightarrow> int \<Rightarrow> int \<Rightarrow> d_fault + rgba" where
  "cursor_pixel F blank ps w h tw th x y =
     seqE (pixel_extent F h th y) (\<lambda>rows. seqE (pixel_extent F w tw x) (\<lambda>cols. seqE (sum_samples F ps w rows cols) (mean_color F blank)))"

definition put_pixel :: "int \<Rightarrow> rgba \<Rightarrow> rgba list \<Rightarrow> d_fault + rgba list" where
  "put_pixel i c ps = (if 0 \<le> i \<and> i < int (length ps) then Inr (ps[nat i := c]) else Inl Out_Of_Range)"

definition scale_cursor :: "'f doubles \<Rightarrow> rgba \<Rightarrow> rgba list \<Rightarrow> int \<Rightarrow> int \<Rightarrow> int \<Rightarrow> int \<Rightarrow> rgba list \<Rightarrow> d_fault + rgba list" where
  "scale_cursor F blank ps w h tw th =
     foreach [0..<nat th] (\<lambda>y. foreach [0..<nat tw] (\<lambda>x out.
       seqE (cursor_pixel F blank ps w h tw th (int x) (int y)) (\<lambda>c. put_pixel (int y * tw + int x) c out)))"

text \<open>
  \<open>loadFromFile\<close>: \<open>source\<close> is what the library loads from the path, \<open>room\<close> whether it can create an image of
  a size, whose pixels are \<open>fresh\<close>. The result is the image, none if there is no pointer image.
\<close>

definition load_cursor ::
  "'f doubles \<Rightarrow> rgba \<Rightarrow> (string \<Rightarrow> (int \<times> int \<times> rgba list) option) \<Rightarrow> (int \<Rightarrow> int \<Rightarrow> bool) \<Rightarrow> (nat \<Rightarrow> rgba) \<Rightarrow> string \<Rightarrow>
   d_fault + (int \<times> int \<times> rgba list) option"
where
  "load_cursor F blank source room fresh path =
     (if path = [] then Inr None
      else case source path of
             None \<Rightarrow> Inr None
           | Some (w, h, ps) \<Rightarrow>
               let (tw, th) = cursor_size w h
               in if \<not> room tw th then Inr None
                  else seqE (scale_cursor F blank ps w h tw th (map fresh [0..<nat (tw * th)])) (\<lambda>out. Inr (Some (tw, th, out))))"

section \<open>Exact arithmetic\<close>

text \<open>The places over which pixel \<open>i\<close> of \<open>m\<close> lies among \<open>n\<close> pixels, and the length of it that lies over pixel \<open>k\<close>.\<close>

definition place_of :: "int \<Rightarrow> int \<Rightarrow> int \<Rightarrow> rat" where
  "place_of n m i = of_int (i * n) / of_int m"

definition over :: "int \<Rightarrow> int \<Rightarrow> int \<Rightarrow> int \<Rightarrow> rat" where
  "over n m i k = max 0 (min (place_of n m (i + 1)) (of_int k + 1) - max (place_of n m i) (of_int k))"

lemma place_bounds:
  assumes "0 \<le> i" "i < m" "0 < n"
  shows "0 \<le> place_of n m i" "place_of n m i < place_of n m (i + 1)" "place_of n m (i + 1) \<le> of_int n"
proof -
  show "0 \<le> place_of n m i" using assms by (simp add: place_of_def)
  show "place_of n m i < place_of n m (i + 1)" using assms by (simp add: place_of_def divide_strict_right_mono)
  have "(i + 1) * n \<le> m * n" using assms by (intro mult_right_mono) auto
  then have "(of_int ((i + 1) * n) :: rat) \<le> of_int (m * n)" by (rule of_int_le_iff [THEN iffD2])
  then show "place_of n m (i + 1) \<le> of_int n" using assms by (simp add: place_of_def divide_le_eq mult.commute)
qed

text \<open>The lengths add up to the distance of the two places.\<close>

lemma over_sum:
  assumes "0 \<le> i" "i < m" "0 < n"
  shows "(\<Sum>k<nat n. over n m i (int k)) = of_int n / of_int m"
proof -
  let ?lo = "place_of n m i" and ?hi = "place_of n m (i + 1)"
  define c where "c = (\<lambda>t :: rat. max ?lo (min ?hi t))"
  note b = place_bounds [OF assms]
  have "over n m i (int k) = c (of_nat (Suc k)) - c (of_nat k)" for k
    using b(2) by (auto simp: over_def c_def max_def min_def)
  then have "(\<Sum>k<nat n. over n m i (int k)) = c (of_nat (nat n)) - c (of_nat 0)"
    by (simp only: sum_lessThan_telescope [of "\<lambda>k. c (of_nat k)"])
  also have "\<dots> = ?hi - ?lo" using b assms(3) by (simp add: c_def)
  also have "\<dots> = of_int n / of_int m" using assms(1,2) by (simp add: place_of_def field_simps)
  finally show ?thesis .
qed

lemma over_nonneg [simp]: "0 \<le> over n m i k"
  by (simp add: over_def)

lemma over_outside: "of_int k + 1 \<le> place_of n m i \<or> place_of n m (i + 1) \<le> of_int k \<Longrightarrow> over n m i k = 0"
  by (auto simp: over_def)

section \<open>The samples\<close>

lemma pixel_extent_exact:
  assumes "0 \<le> i" "i < m" "0 < n" "n < 2 ^ 31"
  shows "pixel_extent (exact rd tx) n m i = Inr (place_of n m i, place_of n m (i + 1), \<lfloor>place_of n m i\<rfloor>, \<lceil>place_of n m (i + 1)\<rceil>)"
proof -
  let ?lo = "place_of n m i" and ?hi = "place_of n m (i + 1)"
  note b = place_bounds [OF assms(1-3)]
  have n31: "(of_int n :: rat) < 2 ^ 31" using assms(4) by (metis of_int_less_iff of_int_numeral of_int_power)
  have lo: "0 \<le> \<lfloor>?lo\<rfloor>" "\<lfloor>?lo\<rfloor> \<le> 2 ^ 31 - 1" and hi: "0 \<le> \<lfloor>?hi\<rfloor>" "\<lfloor>?hi\<rfloor> \<le> 2 ^ 31 - 1"
    using b n31 floor_less_iff [of ?lo "2 ^ 31"] floor_less_iff [of ?hi "2 ^ 31"] by simp_all
  have f: "d_floor (exact rd tx) ?lo = Inr \<lfloor>?lo\<rfloor>"
    using b lo floor_correct [of ?lo] by (simp add: d_floor_def to_int32_def to_range_def not_less)
  have "\<lceil>?hi\<rceil> = (if of_int \<lfloor>?hi\<rfloor> < ?hi then \<lfloor>?hi\<rfloor> + 1 else \<lfloor>?hi\<rfloor>)"
    using of_int_floor_le [of ?hi] by (auto simp: ceiling_altdef less_le)
  then have c: "d_ceil (exact rd tx) ?hi = Inr \<lceil>?hi\<rceil>"
    using b hi by (simp add: d_ceil_def to_int32_def to_range_def)
  have "\<lceil>?hi\<rceil> \<le> n" using b(3) by (simp add: ceiling_le_iff)
  then show ?thesis
    using f c lo(1) by (simp add: pixel_extent_def place_of_def Let_def)
qed

text \<open>The sums of a list of samples, each a weight and a pixel.\<close>

definition weighted :: "(rgba \<Rightarrow> rat) \<Rightarrow> (rat \<times> rgba) list \<Rightarrow> rat" where
  "weighted v ss = (\<Sum>(w, p)\<leftarrow>ss. w * v p)"

definition sums_of :: "(rat \<times> rgba) list \<Rightarrow> rat color_sums" where
  "sums_of ss = \<lparr>totalWeight = weighted (\<lambda>_. 1) ss, alphaSum = weighted (\<lambda>p. of_nat (cA p) / 255) ss,
     redSum = weighted (\<lambda>p. of_nat (cR p) * of_nat (cA p) / 255) ss,
     greenSum = weighted (\<lambda>p. of_nat (cG p) * of_nat (cA p) / 255) ss,
     blueSum = weighted (\<lambda>p. of_nat (cB p) * of_nat (cA p) / 255) ss\<rparr>"

lemma weighted_append [simp]: "weighted v (a @ b) = weighted v a + weighted v b" "weighted v [] = 0"
  by (simp_all add: weighted_def)

lemma add_sample_exact: "add_sample (exact rd tx) w p (sums_of ss) = sums_of (ss @ [(w, p)])"
  by (simp add: add_sample_def sums_of_def weighted_def Let_def algebra_simps)

definition share_of :: "int \<Rightarrow> int \<Rightarrow> int \<Rightarrow> int \<Rightarrow> rat" where
  "share_of n m i k = share (exact (\<lambda>_. 0) (\<lambda>_ _. [])) (place_of n m i) (place_of n m (i + 1)) k"

lemma share_exact: "share (exact rd tx) (place_of n m i) (place_of n m (i + 1)) k = share_of n m i k"
  by (simp add: share_of_def share_def)

lemma over_share: "over n m i k = (if share_of n m i k \<le> 0 then 0 else share_of n m i k)"
  by (simp add: over_def share_of_def share_def max_def min_def)

definition row_samples :: "rgba list \<Rightarrow> int \<Rightarrow> int \<Rightarrow> int \<Rightarrow> int \<Rightarrow> rat \<Rightarrow> int list \<Rightarrow> (rat \<times> rgba) list" where
  "row_samples ps w tw x y yWeight ks =
     map (\<lambda>k. (share_of w tw x k * yWeight, ps ! nat (y * w + k))) (filter (\<lambda>k. \<not> share_of w tw x k \<le> 0) ks)"

lemma row_loop:
  assumes "set ks \<subseteq> {0..<w}" "0 \<le> y" "y < h" "int (length ps) = w * h"
  shows "foreach ks (\<lambda>k s. if share_of w tw x k \<le> 0 then Inr s
      else seqE (pixel_of ps (y * w + k)) (\<lambda>src. Inr (add_sample (exact rd tx) (share_of w tw x k * yWeight) src s))) (sums_of ss)
    = Inr (sums_of (ss @ row_samples ps w tw x y yWeight ks))"
  using assms(1)
proof (induction ks arbitrary: ss)
  case (Cons k ks)
  have k: "0 \<le> k" "k < w" using Cons.prems by auto
  have "y * w + k < (y + 1) * w" using k by (simp add: algebra_simps)
  also have "\<dots> \<le> h * w" using assms(3) k by (intro mult_right_mono) auto
  finally have "y * w + k < int (length ps)" using assms(4) by (simp add: mult.commute)
  moreover have "0 \<le> y * w + k" using k assms(2) by simp
  ultimately have "pixel_of ps (y * w + k) = Inr (ps ! nat (y * w + k))" by (simp add: pixel_of_def)
  then show ?case using Cons by (simp add: row_samples_def add_sample_exact)
qed (simp add: row_samples_def)

definition all_samples :: "rgba list \<Rightarrow> int \<Rightarrow> int \<Rightarrow> int \<Rightarrow> int \<Rightarrow> int \<Rightarrow> int \<Rightarrow> int list \<Rightarrow> int list \<Rightarrow> (rat \<times> rgba) list" where
  "all_samples ps w h tw th x y js ks =
     concat (map (\<lambda>j. row_samples ps w tw x j (share_of h th y j) ks) (filter (\<lambda>j. \<not> share_of h th y j \<le> 0) js))"

lemma samples_loop:
  assumes "set ks \<subseteq> {0..<w}" "set js \<subseteq> {0..<h}" "int (length ps) = w * h"
  shows "foreach js (\<lambda>j s. if share_of h th y j \<le> 0 then Inr s
      else foreach ks (\<lambda>k s. if share_of w tw x k \<le> 0 then Inr s
        else seqE (pixel_of ps (j * w + k)) (\<lambda>src. Inr (add_sample (exact rd tx) (share_of w tw x k * share_of h th y j) src s))) s) (sums_of ss)
    = Inr (sums_of (ss @ all_samples ps w h tw th x y js ks))"
  using assms(2)
proof (induction js arbitrary: ss)
  case (Cons j js)
  then show ?case using row_loop [OF assms(1) _ _ assms(3), of j] by (auto simp: all_samples_def)
qed (simp add: all_samples_def)

text \<open>Samples of no weight add nothing, so the sums are those over the whole image.\<close>

definition area_sum :: "(rgba \<Rightarrow> rat) \<Rightarrow> rgba list \<Rightarrow> int \<Rightarrow> int \<Rightarrow> int \<Rightarrow> int \<Rightarrow> int \<Rightarrow> int \<Rightarrow> rat" where
  "area_sum v ps w h tw th x y = (\<Sum>j<nat h. \<Sum>k<nat w. over h th y (int j) * over w tw x (int k) * v (ps ! (j * nat w + k)))"

lemma weighted_rows: "weighted v (row_samples ps w tw x y c ks) = (\<Sum>k\<leftarrow>ks. over w tw x k * c * v (ps ! nat (y * w + k)))"
  by (induction ks) (auto simp: row_samples_def weighted_def over_share)

lemma weighted_all:
  "weighted v (all_samples ps w h tw th x y js ks) =
     (\<Sum>j\<leftarrow>js. \<Sum>k\<leftarrow>ks. over w tw x k * over h th y j * v (ps ! nat (j * w + k)))"
proof (induction js)
  case (Cons j js)
  then show ?case by (auto simp: all_samples_def weighted_rows over_share)
qed (simp add: all_samples_def)

lemma sum_where_over:
  assumes "0 \<le> i" "i < m" "0 < n" "\<And>k. over n m i k = 0 \<Longrightarrow> f k = 0"
  shows "(\<Sum>k\<leftarrow>[\<lfloor>place_of n m i\<rfloor>..\<lceil>place_of n m (i + 1)\<rceil> - 1]. f k) = (\<Sum>k<nat n. f (int k) :: rat)"
proof -
  let ?lo = "place_of n m i" and ?hi = "place_of n m (i + 1)"
  note b = place_bounds [OF assms(1-3)]
  have "(\<Sum>k\<leftarrow>[\<lfloor>?lo\<rfloor>..\<lceil>?hi\<rceil> - 1]. f k) = sum f {\<lfloor>?lo\<rfloor>..\<lceil>?hi\<rceil> - 1}"
    by (simp add: sum_list_distinct_conv_sum_set)
  also have "\<dots> = sum f {0..<n}"
  proof (rule sum.mono_neutral_left)
    have "0 \<le> \<lfloor>?lo\<rfloor>" "\<lceil>?hi\<rceil> \<le> n" using b by (simp_all add: ceiling_le_iff)
    then show "{\<lfloor>?lo\<rfloor>..\<lceil>?hi\<rceil> - 1} \<subseteq> {0..<n}" by (auto simp del: zero_le_floor)
    show "\<forall>k\<in>{0..<n} - {\<lfloor>?lo\<rfloor>..\<lceil>?hi\<rceil> - 1}. f k = 0"
    proof
      fix k assume "k \<in> {0..<n} - {\<lfloor>?lo\<rfloor>..\<lceil>?hi\<rceil> - 1}"
      then consider "k + 1 \<le> \<lfloor>?lo\<rfloor>" | "\<lceil>?hi\<rceil> \<le> k" by force
      then have "of_int k + 1 \<le> ?lo \<or> ?hi \<le> of_int k"
      proof cases
        case 1
        then have "(of_int (k + 1) :: rat) \<le> ?lo" by (simp add: le_floor_iff)
        then show ?thesis by simp
      next
        case 2
        then show ?thesis by (simp add: ceiling_le_iff)
      qed
      then show "f k = 0" using assms(4) over_outside by blast
    qed
  qed simp
  also have "\<dots> = (\<Sum>k<nat n. f (int k))"
    by (rule sum.reindex_bij_witness [of _ int nat]) auto
  finally show ?thesis .
qed

lemma samples_over:
  assumes "0 \<le> x" "x < tw" "0 < w" "0 \<le> y" "y < th" "0 < h"
  shows "weighted v (all_samples ps w h tw th x y [\<lfloor>place_of h th y\<rfloor>..\<lceil>place_of h th (y + 1)\<rceil> - 1]
      [\<lfloor>place_of w tw x\<rfloor>..\<lceil>place_of w tw (x + 1)\<rceil> - 1]) = area_sum v ps w h tw th x y"
proof -
  have row: "(\<Sum>k\<leftarrow>[\<lfloor>place_of w tw x\<rfloor>..\<lceil>place_of w tw (x + 1)\<rceil> - 1]. over w tw x k * c * v (ps ! nat (j * w + k))) =
      (\<Sum>k<nat w. over w tw x (int k) * c * v (ps ! nat (j * w + int k)))" for j c
    by (rule sum_where_over [OF assms(1-3)]) simp
  have "(\<Sum>j\<leftarrow>[\<lfloor>place_of h th y\<rfloor>..\<lceil>place_of h th (y + 1)\<rceil> - 1].
        \<Sum>k<nat w. over w tw x (int k) * over h th y j * v (ps ! nat (j * w + int k))) =
      (\<Sum>j<nat h. \<Sum>k<nat w. over w tw x (int k) * over h th y (int j) * v (ps ! nat (int j * w + int k)))"
    by (rule sum_where_over [OF assms(4-6)]) simp
  moreover have at: "nat (int j * w + int k) = j * nat w + k" for j k
    using assms(3) by (simp add: nat_add_distrib nat_mult_distrib)
  ultimately show ?thesis
    unfolding weighted_all row area_sum_def at by (simp only: mult.commute [of "over h th y _"])
qed

definition area_sums :: "rgba list \<Rightarrow> int \<Rightarrow> int \<Rightarrow> int \<Rightarrow> int \<Rightarrow> int \<Rightarrow> int \<Rightarrow> rat color_sums" where
  "area_sums ps w h tw th x y =
     (let sum1 = (\<lambda>v. area_sum v ps w h tw th x y)
      in \<lparr>totalWeight = sum1 (\<lambda>_. 1), alphaSum = sum1 (\<lambda>p. of_nat (cA p) / 255), redSum = sum1 (\<lambda>p. of_nat (cR p) * of_nat (cA p) / 255),
          greenSum = sum1 (\<lambda>p. of_nat (cG p) * of_nat (cA p) / 255), blueSum = sum1 (\<lambda>p. of_nat (cB p) * of_nat (cA p) / 255)\<rparr>)"

lemma sum_samples_exact:
  assumes "0 \<le> x" "x < tw" "0 < w" "0 \<le> y" "y < th" "0 < h" "int (length ps) = w * h"
  shows "sum_samples (exact rd tx) ps w
      (place_of h th y, place_of h th (y + 1), \<lfloor>place_of h th y\<rfloor>, \<lceil>place_of h th (y + 1)\<rceil>)
      (place_of w tw x, place_of w tw (x + 1), \<lfloor>place_of w tw x\<rfloor>, \<lceil>place_of w tw (x + 1)\<rceil>)
    = Inr (area_sums ps w h tw th x y)"
proof -
  let ?js = "[\<lfloor>place_of h th y\<rfloor>..\<lceil>place_of h th (y + 1)\<rceil> - 1]" and ?ks = "[\<lfloor>place_of w tw x\<rfloor>..\<lceil>place_of w tw (x + 1)\<rceil> - 1]"
  have inside: "set [\<lfloor>place_of n m i\<rfloor>..\<lceil>place_of n m (i + 1)\<rceil> - 1] \<subseteq> {0..<n}" if "0 \<le> i" "i < m" "0 < n" for n m i
  proof -
    have "0 \<le> \<lfloor>place_of n m i\<rfloor>" "\<lceil>place_of n m (i + 1)\<rceil> \<le> n" using place_bounds [OF that] by (simp_all add: ceiling_le_iff)
    then show ?thesis by (auto simp del: zero_le_floor)
  qed
  have zero: "sums_of [] = \<lparr>totalWeight = 0, alphaSum = 0, redSum = 0, greenSum = 0, blueSum = 0\<rparr>" by (simp add: sums_of_def)
  have "sum_samples (exact rd tx) ps w
      (place_of h th y, place_of h th (y + 1), \<lfloor>place_of h th y\<rfloor>, \<lceil>place_of h th (y + 1)\<rceil>)
      (place_of w tw x, place_of w tw (x + 1), \<lfloor>place_of w tw x\<rfloor>, \<lceil>place_of w tw (x + 1)\<rceil>)
    = Inr (sums_of (all_samples ps w h tw th x y ?js ?ks))"
    using samples_loop [OF inside [OF assms(1-3)] inside [OF assms(4-6)] assms(7), where rd = rd and tx = tx and ss = "[]" and x = x and y = y and tw = tw and th = th]
    by (simp add: sum_samples_def share_exact zero Let_def cong: if_cong)
  then show ?thesis using samples_over [OF assms(1-6)] by (simp add: sums_of_def area_sums_def Let_def)
qed

section \<open>The pixels of the pointer image\<close>

text \<open>Rounding to the nearest number, and the mean: over the opacity for colours, over the area for the opacity.\<close>

definition nearest :: "rat \<Rightarrow> nat" where "nearest x = nat \<lfloor>x + 1 / 2\<rfloor>"

definition mean_pixel :: "rgba \<Rightarrow> rgba list \<Rightarrow> int \<Rightarrow> int \<Rightarrow> int \<Rightarrow> int \<Rightarrow> int \<Rightarrow> int \<Rightarrow> rgba" where
  "mean_pixel blank ps w h tw th x y =
     (let total = (\<lambda>v. area_sum (\<lambda>p. of_nat (v p)) ps w h tw th x y); opacity = total cA
      in if opacity = 0 then blank
         else \<lparr>cR = nearest (total (\<lambda>p. cR p * cA p) / opacity), cG = nearest (total (\<lambda>p. cG p * cA p) / opacity),
               cB = nearest (total (\<lambda>p. cB p * cA p) / opacity),
               cA = nearest (opacity / (of_int w / of_int tw * (of_int h / of_int th)))\<rparr>)"

lemma area_sum_mono:
  assumes "\<And>p. p \<in> set ps \<Longrightarrow> v p \<le> u p" "int (length ps) = w * h" "0 < w" "0 < h"
  shows "area_sum v ps w h tw th x y \<le> area_sum u ps w h tw th x y"
proof -
  have "j * nat w + k < length ps" if "j < nat h" "k < nat w" for j k
  proof -
    have "j * nat w + k < (j + 1) * nat w" using that(2) by simp
    also have "\<dots> \<le> nat h * nat w" using that(1) by (intro mult_right_mono) auto
    also have "\<dots> = length ps" using assms(2-4) by (metis mult.commute nat_int nat_mult_distrib order_less_imp_le)
    finally show ?thesis .
  qed
  then show ?thesis unfolding area_sum_def
    by (intro sum_mono mult_left_mono assms(1) nth_mem) auto
qed

lemma area_sum_scale: "area_sum (\<lambda>p. c * v p) ps w h tw th x y = c * area_sum v ps w h tw th x y"
  by (simp add: area_sum_def sum_distrib_left mult.left_commute mult.commute)

lemma area_sum_area:
  assumes "0 \<le> x" "x < tw" "0 < w" "0 \<le> y" "y < th" "0 < h"
  shows "area_sum (\<lambda>_. 1) ps w h tw th x y = of_int w / of_int tw * (of_int h / of_int th)"
  using over_sum [OF assms(1-3)] over_sum [OF assms(4-6)]
  by (simp add: area_sum_def sum_product [symmetric] mult.commute)

lemma to_byte_exact:
  assumes "0 \<le> q" "q \<le> 255"
  shows "to_byte (exact rd tx) q = Inr (nearest q)"
proof -
  have "\<lfloor>q + 1 / 2\<rfloor> \<le> 255" using assms(2) by (simp add: floor_le_iff)
  then show ?thesis using assms(1) by (simp add: to_byte_def to_range_def nearest_def)
qed

definition bytes :: "rgba list \<Rightarrow> bool" where
  "bytes ps \<longleftrightarrow> (\<forall>p\<in>set ps. cR p \<le> 255 \<and> cG p \<le> 255 \<and> cB p \<le> 255 \<and> cA p \<le> 255)"

lemma mean_color_exact:
  assumes "0 \<le> x" "x < tw" "0 < w" "0 \<le> y" "y < th" "0 < h" "int (length ps) = w * h" "bytes ps"
  shows "mean_color (exact rd tx) blank (area_sums ps w h tw th x y) = Inr (mean_pixel blank ps w h tw th x y)"
proof -
  define A where "A = of_int w / of_int tw * (of_int h / of_int th :: rat)"
  define total where "total = (\<lambda>v. area_sum (\<lambda>p. of_nat (v p)) ps w h tw th x y)"
  have A: "0 < A" using assms by (simp add: A_def)
  have weight: "area_sum (\<lambda>_. 1) ps w h tw th x y = A" using area_sum_area [OF assms(1-6)] by (simp add: A_def)
  have scaled: "area_sum (\<lambda>p. of_nat (v p) / 255) ps w h tw th x y = total v / 255" for v
    using area_sum_scale [of "1 / 255" "\<lambda>p. of_nat (v p)"] by (simp add: total_def)
  have product: "area_sum (\<lambda>p. of_nat (c p) * of_nat (cA p) / 255) ps w h tw th x y = total (\<lambda>p. c p * cA p) / 255" for c
    using scaled [of "\<lambda>p. c p * cA p"] by simp
  have nonneg: "0 \<le> total v" for v by (simp add: total_def area_sum_def sum_nonneg)
  have top255: "total (\<lambda>p. c p * cA p) \<le> 255 * total cA" if "\<And>p. p \<in> set ps \<Longrightarrow> c p \<le> 255" for c
  proof -
    have "total (\<lambda>p. c p * cA p) \<le> area_sum (\<lambda>p. 255 * of_nat (cA p)) ps w h tw th x y"
      unfolding total_def
    proof (rule area_sum_mono [OF _ assms(7,3,6)])
      fix p assume "p \<in> set ps"
      then have "c p * cA p \<le> 255 * cA p" using that by simp
      then show "(of_nat (c p * cA p) :: rat) \<le> 255 * of_nat (cA p)" by (metis of_nat_le_iff of_nat_mult of_nat_numeral)
    qed
    then show ?thesis by (simp add: area_sum_scale total_def)
  qed
  have opaque: "total cA \<le> 255 * A"
  proof -
    have "total cA \<le> area_sum (\<lambda>p. 255 * 1) ps w h tw th x y"
      unfolding total_def
      by (rule area_sum_mono [OF _ assms(7,3,6)]) (use assms(8) in \<open>auto simp: bytes_def\<close>)
    then show ?thesis using area_sum_scale [of 255 "\<lambda>_. 1"] weight by simp
  qed
  have mean: "mean_pixel blank ps w h tw th x y = (if total cA = 0 then blank
      else \<lparr>cR = nearest (total (\<lambda>p. cR p * cA p) / total cA), cG = nearest (total (\<lambda>p. cG p * cA p) / total cA),
             cB = nearest (total (\<lambda>p. cB p * cA p) / total cA), cA = nearest (total cA / A)\<rparr>)"
    by (simp add: mean_pixel_def total_def A_def Let_def)
  show ?thesis
  proof (cases "total cA = 0")
    case True
    then show ?thesis
      using A by (simp add: mean_color_def area_sums_def mean weight scaled Let_def)
  next
    case False
    then have pos: "0 < total cA" using nonneg [of cA] by simp
    have byte: "to_byte (exact rd tx) (total (\<lambda>p. c p * cA p) / total cA) = Inr (nearest (total (\<lambda>p. c p * cA p) / total cA))"
      if "\<And>p. p \<in> set ps \<Longrightarrow> c p \<le> 255" for c
      using top255 [OF that] nonneg pos by (intro to_byte_exact) (simp_all add: divide_le_eq)
    have alpha: "to_byte (exact rd tx) (total cA / A) = Inr (nearest (total cA / A))"
      using opaque pos A by (intro to_byte_exact) (simp_all add: divide_le_eq mult.commute)
    have quotient: "total v / 255 / (total cA / 255) = total v / total cA" for v by simp
    have "total cA / 255 / A * 255 = total cA / A" by simp
    moreover have "\<not> total cA / 255 / A \<le> 0" using pos A by (simp add: not_le)
    ultimately show ?thesis
      using A pos False assms(8) byte alpha
      by (simp add: mean_color_def area_sums_def mean weight scaled product bytes_def Let_def)
  qed
qed

lemma cursor_pixel_exact:
  assumes "0 \<le> x" "x < tw" "0 < w" "0 \<le> y" "y < th" "0 < h" "int (length ps) = w * h" "bytes ps" "w < 2 ^ 31" "h < 2 ^ 31"
  shows "cursor_pixel (exact rd tx) blank ps w h tw th x y = Inr (mean_pixel blank ps w h tw th x y)"
  by (simp add: cursor_pixel_def pixel_extent_exact [OF assms(4,5,6,10)] pixel_extent_exact [OF assms(1,2,3,9)]
      sum_samples_exact [OF assms(1-7)] mean_color_exact [OF assms(1-8)])

text \<open>Writing the pixels one after the other.\<close>

lemma write_pixels:
  assumes "\<And>x y. x < n \<Longrightarrow> y < m \<Longrightarrow> f x y = Inr (c x y)" "length out = m * n"
  shows "foreach [0..<m] (\<lambda>y. foreach [0..<n] (\<lambda>x out. seqE (f x y) (\<lambda>c. put_pixel (int y * int n + int x) c out))) out =
    Inr (map (\<lambda>i. c (i mod n) (i div n)) [0..<m * n])"
proof -
  define C where "C = (\<lambda>i. c (i mod n) (i div n))"
  define G where "G = (\<lambda>k. map (\<lambda>i. if i < k then C i else out ! i) [0..<m * n])"
  have step: "seqE (f x y) (\<lambda>c. put_pixel (int y * int n + int x) c (G (y * n + x))) = Inr (G (y * n + Suc x))"
    if "x < n" "y < m" for x y
  proof -
    have "y * n + x < (y + 1) * n" using that(1) by simp
    also have "\<dots> \<le> m * n" using that(2) by (intro mult_right_mono) auto
    finally have in1: "y * n + x < m * n" .
    have C: "C (y * n + x) = c x y" using that(1) by (simp add: C_def)
    have "int y * int n + int x = int (y * n + x)" by simp
    moreover have "(G (y * n + x))[y * n + x := c x y] = G (y * n + Suc x)"
      using in1 C by (intro nth_equalityI) (auto simp: G_def nth_list_update less_Suc_eq)
    ultimately show ?thesis
      using assms(1) [OF that] in1 by (simp add: put_pixel_def G_def del: of_nat_add of_nat_mult)
  qed
  have row: "foreach [0..<n] (\<lambda>x out. seqE (f x y) (\<lambda>c. put_pixel (int y * int n + int x) c out)) (G (y * n)) = Inr (G (Suc y * n))"
    if "y < m" for y
    using foreach_upt [of 0 n "\<lambda>x. G (y * n + x)" "G (y * n)" "\<lambda>x out. seqE (f x y) (\<lambda>c. put_pixel (int y * int n + int x) c out)"]
      step [OF _ that] by (simp add: add.commute)
  have "G 0 = out" using assms(2) by (intro nth_equalityI) (simp_all add: G_def)
  then have "foreach [0..<m] (\<lambda>y. foreach [0..<n] (\<lambda>x out. seqE (f x y) (\<lambda>c. put_pixel (int y * int n + int x) c out))) out = Inr (G (m * n))"
    by (intro foreach_upt [of 0 m "\<lambda>y. G (y * n)"]) (use row in auto)
  also have "G (m * n) = map C [0..<m * n]" by (simp add: G_def)
  finally show ?thesis by (simp add: C_def)
qed

text \<open>
  C22: In exact arithmetic, a pointer image that loads and has room becomes one of at most 24 by 24 pixels, each
  the mean of the pixels it lies over: the opacity is the mean over the area, the colours the means
  weighted by the opacity, so that transparent pixels do not colour the edge, all rounded to the nearest
  number. No pixel outside the images is accessed and no conversion to a byte is out of range.
\<close>

theorem cursor_averaged:
  assumes "source path = Some (w, h, ps)" "path \<noteq> []" "cursor_size w h = (tw, th)" "room tw th" "0 < w" "w < 2 ^ 31" "0 < h" "h < 2 ^ 31"
    "int (length ps) = w * h" "bytes ps"
  shows "load_cursor (exact rd tx) blank source room fresh path =
      Inr (Some (tw, th, map (\<lambda>i. mean_pixel blank ps w h tw th (int (i mod nat tw)) (int (i div nat tw))) [0..<nat th * nat tw])) \<and>
    1 \<le> tw \<and> tw \<le> 24 \<and> 1 \<le> th \<and> th \<le> 24"
proof -
  have size1: "1 \<le> tw" "tw \<le> 24" "1 \<le> th" "th \<le> 24"
    using cursor_size_bounds [OF assms(5,7)] assms(3) by (simp_all add: kMaxCursorSize_def)
  then obtain n m where nm: "tw = int n" "th = int m" by (metis nonneg_int_cases order_trans zero_le_one)
  have "scale_cursor (exact rd tx) blank ps w h tw th (map fresh [0..<nat (tw * th)]) =
      Inr (map (\<lambda>i. mean_pixel blank ps w h tw th (int (i mod n)) (int (i div n))) [0..<m * n])"
    unfolding scale_cursor_def nm nat_int
  proof (rule write_pixels)
    show "cursor_pixel (exact rd tx) blank ps w h (int n) (int m) (int x) (int y) = Inr (mean_pixel blank ps w h (int n) (int m) (int x) (int y))"
      if "x < n" "y < m" for x y by (rule cursor_pixel_exact) (use that assms in simp_all)
  qed (simp add: nat_mult_distrib mult.commute)
  then show ?thesis using assms(1-4) size1 by (simp add: load_cursor_def nm Let_def)
qed

text \<open>Two pixels, one half transparent and one transparent.\<close>

definition two_pixels :: "rgba list" where
  "two_pixels = [\<lparr>cR = 255, cG = 0, cB = 10, cA = 128\<rparr>, \<lparr>cR = 0, cG = 255, cB = 0, cA = 0\<rparr>]"

lemma over_same: "over n n i k = (if n \<noteq> 0 \<and> k = i then 1 else 0)"
proof (cases "n = 0")
  case False
  then have p: "place_of n n j = of_int j" for j by (simp add: place_of_def)
  have "k < i \<or> k = i \<or> i < k" by linarith
  then have "max 0 (min (of_int (i + 1)) (of_int k + 1) - max (of_int i) (of_int k)) = (if k = i then 1 else 0 :: rat)"
  proof (elim disjE)
    assume "k < i" then have "of_int k + 1 \<le> (of_int i :: rat)" by linarith
    then show ?thesis using \<open>k < i\<close> by simp
  next
    assume "i < k" then have "of_int i + 1 \<le> (of_int k :: rat)" by linarith
    then show ?thesis using \<open>i < k\<close> by simp
  qed simp
  with False show ?thesis by (simp add: over_def p)
qed (simp add: over_def place_of_def)

lemma two_sums: "area_sum v two_pixels 2 1 2 1 0 0 = v (two_pixels ! 0)" "area_sum v two_pixels 2 1 2 1 1 0 = v (two_pixels ! 1)"
proof -
  have two: "{..<nat 2} = {0, 1}" "{..<nat 1} = {0}" by auto
  show "area_sum v two_pixels 2 1 2 1 0 0 = v (two_pixels ! 0)" "area_sum v two_pixels 2 1 2 1 1 0 = v (two_pixels ! 1)"
    unfolding area_sum_def two by (simp_all add: over_same)
qed

lemma halves: "\<lfloor>511 / 2 :: rat\<rfloor> = 255" "\<lfloor>21 / 2 :: rat\<rfloor> = 10" "\<lfloor>257 / 2 :: rat\<rfloor> = 128"
  by (simp_all add: floor_eq_iff)

lemma two_means:
  "mean_pixel b two_pixels 2 1 2 1 0 0 = \<lparr>cR = 255, cG = 0, cB = 10, cA = 128\<rparr>"
  "mean_pixel b two_pixels 2 1 2 1 1 0 = b"
  unfolding mean_pixel_def Let_def two_sums by (simp_all add: two_pixels_def nearest_def halves)

definition clear :: rgba where "clear = \<lparr>cR = 0, cG = 0, cB = 0, cA = 0\<rparr>"

theorem cursor_averaged_witness:
  "load_cursor (exact (\<lambda>_. 0) (\<lambda>_ _. [])) clear (\<lambda>_. Some (2, 1, two_pixels)) (\<lambda>_ _. True) (\<lambda>_. clear) ''/cursor.png'' =
     Inr (Some (2, 1, [\<lparr>cR = 255, cG = 0, cB = 10, cA = 128\<rparr>, clear]))"
proof -
  have "cursor_size 2 1 = (2, 1)" by (simp add: cursor_size_def kMaxCursorSize_def)
  moreover have "bytes two_pixels" "int (length two_pixels) = 2 * 1" by (simp_all add: bytes_def two_pixels_def)
  ultimately show ?thesis
    using cursor_averaged [of "\<lambda>_. Some (2, 1, two_pixels)" "''/cursor.png''" 2 1 two_pixels 2 1 "\<lambda>_ _. True"
        "\<lambda>_. 0" "\<lambda>_ _. []" clear "\<lambda>_. clear"] two_means
    by (simp add: upt_rec)
qed

end
