(* ===== verification/Background_Switcher.thy ===== *)
theory Background_Switcher
  imports Prelude "HOL-Library.Multiset"
begin

text \<open>
  The background switcher, \<open>src/background-switcher/src/main.cpp\<close>: it lists the wallpapers of a directory
  and asks the compositor to show one. The kernel answers from all calls and answers so far. The
  user interface library is left out: the list box is its number of rows and the row selected.
  \<open>pathSize\<close> is the size of the path in a request, which is not in the repository.
  Shown are that the list is the directory's images sorted by name, and that no event uses a row that is
  not there.
\<close>

section \<open>The kernel\<close>

text \<open>A directory entry: whether it is a regular file, and its name, of at most 127 characters.\<close>

type_synonym found_entry = "bool \<times> string"

datatype bs_call = Bs_Connect string | Bs_Yield | Bs_Request nat string | Bs_Close nat | Bs_Read_Dir string nat | Bs_Time

text \<open>A number; a reply with whether it is whole and whether its status is good; entries.\<close>

datatype bs_reply = Bs_Number nat | Bs_Replied bool bool | Bs_Entries "found_entry list"

type_synonym bs_trace = "(bs_call \<times> bs_reply) list"
type_synonym bs_env = "bs_trace \<Rightarrow> bs_call \<Rightarrow> bs_reply"

definition bs_ask :: "bs_env \<Rightarrow> bs_call \<Rightarrow> bs_trace \<Rightarrow> bs_reply \<times> bs_trace" where
  "bs_ask env c tr = (let r = env tr c in (r, tr @ [(c, r)]))"

fun bs_number :: "bs_reply \<Rightarrow> nat" where
  "bs_number (Bs_Number n) = n mod 2 ^ 64"
| "bs_number _ = 2 ^ 64 - 1"

definition bs_fail :: nat where "bs_fail = 2 ^ 64 - 1"
definition kApplyCooldownMs :: nat where "kApplyCooldownMs = 250"
definition kMaxBackgrounds :: nat where "kMaxBackgrounds = 32"
definition kSwitcherDirectory :: string where "kSwitcherDirectory = ''/bin/backgrounds''"

record background_entry =
  bgName :: string
  bgPath :: string

datatype switcher_status = No_Status | Read_Failed | No_Png | Hint | Updated | Update_Failed

record switcher =
  entries :: "background_entry list"
  rows :: nat
  selected :: int
  status :: switcher_status
  lastApplyMs :: nat
  bs_run :: bs_trace

section \<open>Asking the compositor\<close>

text \<open>\<open>connect_service\<close>: \<open>n\<close> attempts; \<open>bs_fail\<close> when none succeeds.\<close>

fun connect_service :: "bs_env \<Rightarrow> string \<Rightarrow> nat \<Rightarrow> bs_trace \<Rightarrow> nat \<times> bs_trace" where
  "connect_service env name 0 tr = (bs_fail, tr)"
| "connect_service env name (Suc n) tr =
     (let (r, tr) = bs_ask env (Bs_Connect name) tr
      in if bs_number r \<noteq> bs_fail then (bs_number r, tr)
         else connect_service env name n (snd (bs_ask env Bs_Yield tr)))"

definition apply_background :: "bs_env \<Rightarrow> string \<Rightarrow> nat \<Rightarrow> string \<Rightarrow> bs_trace \<Rightarrow> bool \<times> bs_trace" where
  "apply_background env compositor pathSize path tr =
     (if path = [] then (False, tr)
      else let (h, tr) = connect_service env compositor 500 tr
           in if h = bs_fail then (False, tr)
              else let (r, tr) = bs_ask env (Bs_Request h (bounded_copy pathSize path)) tr;
                       tr = snd (bs_ask env (Bs_Close h) tr)
                   in (case r of Bs_Replied whole good \<Rightarrow> (whole \<and> good, tr) | _ \<Rightarrow> (False, tr)))"

section \<open>The list\<close>

definition png_named :: "string \<Rightarrow> bool" where
  "png_named name \<longleftrightarrow>
     (if length name < 4 then False
      else let s = drop (length name - 4) name
           in s ! 0 = CHR ''.'' \<and> s ! 1 \<in> {CHR ''p'', CHR ''P''} \<and> s ! 2 \<in> {CHR ''n'', CHR ''N''} \<and>
              s ! 3 \<in> {CHR ''g'', CHR ''G''})"

definition background_path :: "string \<Rightarrow> string" where
  "background_path name = append_loop 192 (append_loop 192 (append_loop 192 [] kSwitcherDirectory) ''/'') name"

definition collect_entry :: "found_entry \<Rightarrow> background_entry list \<Rightarrow> background_entry list" where
  "collect_entry d es =
     (case d of (regular, name) \<Rightarrow>
        if length es < kMaxBackgrounds \<and> regular \<and> png_named name
        then es @ [\<lparr>bgName = bounded_copy 128 name, bgPath = background_path name\<rparr>] else es)"

text \<open>\<open>strcmp(s, t) < 0\<close>.\<close>

fun name_less :: "string \<Rightarrow> string \<Rightarrow> bool" where
  "name_less s [] = False"
| "name_less [] (b # t) = True"
| "name_less (a # s) (b # t) = (if a = b then name_less s t else (of_char a :: nat) < of_char b)"

text \<open>The two loops of the sort: entry \<open>i\<close> changes places with every smaller one behind it.\<close>

definition exchange :: "nat \<Rightarrow> nat \<Rightarrow> background_entry list \<Rightarrow> background_entry list" where
  "exchange i j es =
     (if name_less (bgName (es ! j)) (bgName (es ! i)) then es[i := es ! j, j := es ! i] else es)"

definition exchange_pass :: "nat \<Rightarrow> background_entry list \<Rightarrow> background_entry list" where
  "exchange_pass i es = fold (exchange i) [i + 1..<length es] es"

definition exchange_sort :: "background_entry list \<Rightarrow> background_entry list" where
  "exchange_sort es = fold exchange_pass [0..<length es] es"

text \<open>The kernel stores at most as many entries as there is room for.\<close>

definition load_backgrounds :: "bs_env \<Rightarrow> switcher \<Rightarrow> switcher" where
  "load_backgrounds env s =
     (let (r, tr) = bs_ask env (Bs_Read_Dir kSwitcherDirectory kMaxBackgrounds) (bs_run s); s = s\<lparr>bs_run := tr\<rparr>
      in case r of
           Bs_Entries ds \<Rightarrow>
             let es = exchange_sort (fold collect_entry (take kMaxBackgrounds ds) [])
             in s\<lparr>entries := es, rows := length es, selected := (if es \<noteq> [] then 0 else - 1),
                  status := (if es = [] then No_Png else Hint)\<rparr>
         | _ \<Rightarrow> s\<lparr>entries := [], status := Read_Failed\<rparr>)"

section \<open>Handlers\<close>

text \<open>\<open>apply\<close>: a row outside the entries is an error of the model.\<close>

datatype bs_fault = Outside_Entries

definition apply_selected :: "bs_env \<Rightarrow> string \<Rightarrow> nat \<Rightarrow> switcher \<Rightarrow> bs_fault + switcher" where
  "apply_selected env compositor pathSize s =
     (let (r, tr) = bs_ask env Bs_Time (bs_run s); now = bs_number r; s = s\<lparr>bs_run := tr\<rparr>
      in if selected s < 0 \<or> (now + 2 ^ 64 - lastApplyMs s) mod 2 ^ 64 < kApplyCooldownMs then Inr s
         else if int (length (entries s)) \<le> selected s then Inl Outside_Entries
         else let (ok, tr) = apply_background env compositor pathSize (bgPath (entries s ! nat (selected s))) tr
              in Inr (s\<lparr>lastApplyMs := now, bs_run := tr, status := (if ok then Updated else Update_Failed)\<rparr>))"

definition new_switcher :: switcher where
  "new_switcher = \<lparr>entries = [], rows = 0, selected = - 1, status = No_Status, lastApplyMs = 0, bs_run = []\<rparr>"

text \<open>What the list box and the keyboard do: another row of those there are, a row activated, a key.\<close>

datatype bs_event = Select nat | Activate | Key bool bool nat


text \<open>The window after the event, nothing when it is closed. A key: Ctrl, Alt, its code.\<close>

definition switcher_event :: "bs_env \<Rightarrow> string \<Rightarrow> nat \<Rightarrow> nat \<Rightarrow> nat \<Rightarrow> bs_event \<Rightarrow> switcher \<Rightarrow> bs_fault + switcher option" where
  "switcher_event env compositor pathSize escape space e s =
     (case e of
        Select k \<Rightarrow> Inr (Some (if k < rows s then s\<lparr>selected := int k\<rparr> else s))
      | Activate \<Rightarrow> seqE (apply_selected env compositor pathSize s) (\<lambda>s. Inr (Some s))
      | Key ctrl alt key \<Rightarrow>
          if ctrl \<or> alt then Inr (Some s)
          else if key = escape then Inr None
          else if key = space then seqE (apply_selected env compositor pathSize s) (\<lambda>s. Inr (Some s))
          else Inr (Some s))"

section \<open>The order of names\<close>

lemma name_less_irrefl [simp]: "\<not> name_less s s"
  by (induction s) auto

lemma name_less_linear: "name_less s t \<or> s = t \<or> name_less t s"
proof (induction s t rule: name_less.induct)
  case (3 a s b t)
  have "a = b \<or> (of_char a :: nat) < of_char b \<or> (of_char b :: nat) < of_char a"
    using linorder_neq_iff of_char_eq_iff by blast
  then show ?case using 3 by auto
next
  case (1 s)
  then show ?case by (cases s) auto
qed auto

lemma name_less_trans: "name_less s t \<Longrightarrow> name_less t u \<Longrightarrow> name_less s u"
proof (induction s t arbitrary: u rule: name_less.induct)
  case (2 b t)
  then show ?case by (cases u) auto
next
  case (3 a s b t)
  then show ?case by (cases u) (auto split: if_splits)
qed auto

lemma name_less_asym: "name_less s t \<Longrightarrow> \<not> name_less t s"
  using name_less_trans name_less_irrefl by blast

definition name_le :: "background_entry \<Rightarrow> background_entry \<Rightarrow> bool" where
  "name_le a b \<longleftrightarrow> \<not> name_less (bgName b) (bgName a)"

lemma name_le_refl [simp]: "name_le a a"
  by (simp add: name_le_def)

lemma name_le_trans: "name_le a b \<Longrightarrow> name_le b c \<Longrightarrow> name_le a c"
  unfolding name_le_def using name_less_linear name_less_trans by metis

section \<open>The sort\<close>

lemma exchange_basic [simp]:
  "length (exchange i j es) = length es" "i < length es \<Longrightarrow> j < length es \<Longrightarrow> mset (exchange i j es) = mset es"
  by (auto simp: exchange_def mset_swap)

text \<open>Exchanging keeps the places before \<open>i\<close> and puts the smaller entry to \<open>i\<close>.\<close>

lemma exchange_places:
  assumes "i < j" "j < length es"
  shows "k \<noteq> i \<Longrightarrow> k \<noteq> j \<Longrightarrow> exchange i j es ! k = es ! k"
    and "name_le (exchange i j es ! i) (es ! i)" "name_le (exchange i j es ! i) (exchange i j es ! j)"
    and "{exchange i j es ! i, exchange i j es ! j} = {es ! i, es ! j}"
  using assms name_less_asym by (auto simp: exchange_def name_le_def nth_list_update)

lemma exchange_fold:
  assumes "i < length es" "n \<le> length es"
  shows "let es' = fold (exchange i) [i + 1..<n] es in
    length es' = length es \<and> mset es' = mset es \<and> (\<forall>k<i. es' ! k = es ! k) \<and>
    (\<forall>k. i \<le> k \<longrightarrow> k < n \<longrightarrow> name_le (es' ! i) (es' ! k)) \<and>
    (\<forall>k. i \<le> k \<longrightarrow> k < length es \<longrightarrow> (\<exists>l. i \<le> l \<and> l < length es \<and> es' ! k = es ! l))"
  using assms(2)
proof (induction n)
  case (Suc n)
  let ?e = "fold (exchange i) [i + 1..<n] es"
  have IH: "length ?e = length es" "mset ?e = mset es" "\<forall>k<i. ?e ! k = es ! k"
    "\<forall>k. i \<le> k \<longrightarrow> k < n \<longrightarrow> name_le (?e ! i) (?e ! k)"
    "\<forall>k. i \<le> k \<longrightarrow> k < length es \<longrightarrow> (\<exists>l. i \<le> l \<and> l < length es \<and> ?e ! k = es ! l)"
    using Suc by (simp_all add: Let_def)
  show ?case
  proof (cases "i < n")
    case True
    let ?f = "exchange i n ?e"
    have n: "n < length ?e" using Suc.prems IH(1) by simp
    note places = exchange_places [OF True n]
    have "name_le (?f ! i) (?f ! k)" if "i \<le> k" "k < Suc n" for k
    proof (cases "k = i \<or> k = n")
      case False
      then have "?f ! k = ?e ! k" "name_le (?e ! i) (?e ! k)" using places(1) IH(4) that by auto
      then show ?thesis using name_le_trans [OF places(2)] by simp
    qed (use places(3) in auto)
    moreover have "\<exists>l. i \<le> l \<and> l < length es \<and> ?f ! k = es ! l" if "i \<le> k" "k < length es" for k
    proof (cases "k = i \<or> k = n")
      case True
      then have "?f ! k \<in> {?e ! i, ?e ! n}" using places(4) by blast
      then show ?thesis using IH(5) that \<open>i < n\<close> Suc.prems assms(1) by (elim insertE) force+
    next
      case False
      then show ?thesis using places(1) IH(5) that by auto
    qed
    moreover have "?f ! k = es ! k" if "k < i" for k using places(1) IH(3) that True by auto
    ultimately show ?thesis using True n IH(1,2) assms(1) by (simp add: Let_def)
  next
    case False
    then have same: "fold (exchange i) [i + 1..<Suc n] es = es" by simp
    have "name_le (es ! i) (es ! k)" if "i \<le> k" "k < Suc n" for k
    proof -
      have "k = i" using that False by simp
      then show ?thesis by simp
    qed
    then show ?thesis unfolding same by (auto simp: Let_def)
  qed
qed (use assms in \<open>auto simp: Let_def\<close>)

lemma exchange_passes:
  assumes "n \<le> length es"
  shows "let es' = fold exchange_pass [0..<n] es in
    length es' = length es \<and> mset es' = mset es \<and>
    (\<forall>i<n. \<forall>k. i \<le> k \<longrightarrow> k < length es \<longrightarrow> name_le (es' ! i) (es' ! k))"
  using assms
proof (induction n)
  case (Suc n)
  let ?e = "fold exchange_pass [0..<n] es"
  have IH: "length ?e = length es" "mset ?e = mset es"
    "\<And>i k. i < n \<Longrightarrow> i \<le> k \<Longrightarrow> k < length es \<Longrightarrow> name_le (?e ! i) (?e ! k)"
    using Suc by (simp_all add: Let_def)
  let ?f = "exchange_pass n ?e"
  have n: "n < length ?e" using Suc.prems IH(1) by simp
  have f: "length ?f = length es" "mset ?f = mset es" "\<And>k. k < n \<Longrightarrow> ?f ! k = ?e ! k"
    "\<And>k. n \<le> k \<Longrightarrow> k < length es \<Longrightarrow> name_le (?f ! n) (?f ! k)"
    "\<And>k. n \<le> k \<Longrightarrow> k < length es \<Longrightarrow> \<exists>l. n \<le> l \<and> l < length es \<and> ?f ! k = ?e ! l"
    using exchange_fold [OF n order.refl] IH(1,2) by (auto simp: exchange_pass_def Let_def)
  have "name_le (?f ! i) (?f ! k)" if places: "i < Suc n" "i \<le> k" "k < length es" for i k
  proof (cases "i = n")
    case False
    then have i: "i < n" using places by simp
    show ?thesis
    proof (cases "k < n")
      case True
      then show ?thesis using f(3) i IH(3) places by simp
    next
      case False
      then obtain l where "n \<le> l" "l < length es" "?f ! k = ?e ! l" using f(5) [of k] places(3) by (meson not_le)
      then show ?thesis using f(3) [OF i] IH(3) [OF i, of l] i by simp
    qed
  qed (use f(4) places in auto)
  then show ?case using f(1,2) by (simp add: Let_def)
qed simp

lemma exchange_sort_sorts:
  "mset (exchange_sort es) = mset es" "sorted_wrt name_le (exchange_sort es)" "length (exchange_sort es) = length es"
  using exchange_passes [of "length es" es]
  by (auto simp: exchange_sort_def Let_def sorted_wrt_iff_nth_less)

section \<open>The list\<close>

definition background_of :: "found_entry \<Rightarrow> background_entry" where
  "background_of d = \<lparr>bgName = snd d, bgPath = kSwitcherDirectory @ ''/'' @ snd d\<rparr>"

lemma collected:
  assumes "length es + length ds \<le> kMaxBackgrounds" "\<forall>d\<in>set ds. length (snd d) < 128"
  shows "fold collect_entry ds es = es @ map background_of (filter (\<lambda>d. fst d \<and> png_named (snd d)) ds)"
  using assms
proof (induction ds arbitrary: es)
  case (Cons d ds)
  have "background_path (snd d) = kSwitcherDirectory @ ''/'' @ snd d"
    using Cons.prems(2) by (simp add: background_path_def kSwitcherDirectory_def append_loop_fits)
  then have "collect_entry d es = (if fst d \<and> png_named (snd d) then es @ [background_of d] else es)"
    using Cons.prems by (auto simp: collect_entry_def background_of_def split: prod.split)
  then show ?case using Cons by simp
qed simp

text \<open>
  The list shows the PNG files among the directory's first 32 entries, each once with its whole path,
  sorted by name, with the first one selected.
\<close>

theorem backgrounds_listed:
  assumes "env (bs_run s) (Bs_Read_Dir kSwitcherDirectory kMaxBackgrounds) = Bs_Entries ds"
    and "\<forall>d\<in>set ds. length (snd d) < 128"
  shows "let s' = load_backgrounds env s; shown = filter (\<lambda>d. fst d \<and> png_named (snd d)) (take 32 ds) in
    mset (entries s') = mset (map background_of shown) \<and> sorted_wrt name_le (entries s') \<and>
    rows s' = length shown \<and> selected s' = (if shown \<noteq> [] then 0 else - 1)"
proof -
  have "fold collect_entry (take kMaxBackgrounds ds) [] = map background_of (filter (\<lambda>d. fst d \<and> png_named (snd d)) (take 32 ds))"
    using assms(2) collected [of "[]" "take kMaxBackgrounds ds"] by (auto simp: kMaxBackgrounds_def dest: in_set_takeD)
  moreover have "exchange_sort es = [] \<longleftrightarrow> es = []" for es using exchange_sort_sorts(3) [of es] by (metis length_0_conv)
  ultimately show ?thesis using assms(1) exchange_sort_sorts
    by (simp add: load_backgrounds_def bs_ask_def Let_def)
qed

section \<open>Events\<close>

definition switcher_ok :: "switcher \<Rightarrow> bool" where
  "switcher_ok s \<longleftrightarrow> rows s = length (entries s) \<and> selected s < int (rows s)"

fun switcher_events :: "bs_env \<Rightarrow> string \<Rightarrow> nat \<Rightarrow> nat \<Rightarrow> nat \<Rightarrow> bs_event list \<Rightarrow> switcher \<Rightarrow> bs_fault + switcher option" where
  "switcher_events env c n esc sp [] s = Inr (Some s)"
| "switcher_events env c n esc sp (e # es) s =
     (case switcher_event env c n esc sp e s of
        Inr (Some s') \<Rightarrow> switcher_events env c n esc sp es s'
      | r \<Rightarrow> r)"

lemma apply_selected_ok:
  assumes "switcher_ok s"
  shows "\<exists>s'. apply_selected env c n s = Inr s' \<and> switcher_ok s'"
proof -
  have "\<not> int (length (entries s)) \<le> selected s" using assms by (simp add: switcher_ok_def)
  then show ?thesis using assms
    by (auto simp: apply_selected_def bs_ask_def switcher_ok_def Let_def split: prod.split)
qed

text \<open>Whatever is pressed and chosen after the list was loaded, only rows that are there are used.\<close>

theorem switcher_never_outside:
  "\<exists>r. switcher_events env c n esc sp es (load_backgrounds env new_switcher) = Inr r"
proof -
  have ok: "switcher_ok (load_backgrounds env new_switcher)"
    by (auto simp: load_backgrounds_def bs_ask_def switcher_ok_def new_switcher_def Let_def split: bs_reply.split)
  have "\<exists>r. switcher_events env c n esc sp es s = Inr r" if "switcher_ok s" for s
    using that
  proof (induction es arbitrary: s)
    case (Cons e es)
    have "\<exists>r. switcher_event env c n esc sp e s = Inr r \<and> (\<forall>s'. r = Some s' \<longrightarrow> switcher_ok s')"
      using apply_selected_ok [OF Cons.prems, of env c n] Cons.prems
      by (cases e) (auto simp: switcher_event_def switcher_ok_def)
    then obtain r where "switcher_event env c n esc sp e s = Inr r" "\<forall>s'. r = Some s' \<longrightarrow> switcher_ok s'" by blast
    then show ?case using Cons.IH by (cases r) auto
  qed simp
  then show ?thesis using ok by blast
qed

end
