(* ===== verification/Login.thy ===== *)
theory Login
  imports Prelude
begin

text \<open>
  The login program, \<open>src/login/src/main.cpp\<close>: it waits for the input manager, logs in, starts the compositor
  and runs a test script once. The kernel answers from all calls and answers so far. The sizes of the
  fields of \<open>std::LoginInfo\<close> are arguments. Shown are that the script is started at most once, and what
  the program passes to the kernel as the name and the password.
\<close>

section \<open>The kernel\<close>

datatype lg_call = Lg_Connect string | Lg_Close nat | Lg_Sleep nat | Lg_Spawn string "string list" | Lg_Stat string
  | Lg_Unlink string | Lg_Rename string string | Lg_Write string | Lg_Login "8 word list" "8 word list" | Lg_Yield
  | Lg_Wait_Event

text \<open>A key: its modifiers Ctrl, Alt or Super, whether it is released, its code and its character.\<close>

record key_event =
  keyModified :: bool
  keyReleased :: bool
  keyCode :: nat
  keyText :: char

datatype lg_reply = Lg_Result nat | Lg_Key key_event | Lg_Other_Event

type_synonym lg_trace = "(lg_call \<times> lg_reply) list"
type_synonym lg_env = "lg_trace \<Rightarrow> lg_call \<Rightarrow> lg_reply"

fun lg_result :: "lg_reply \<Rightarrow> nat" where
  "lg_result (Lg_Result n) = n mod 2 ^ 64"
| "lg_result _ = 0"

definition lg_ask :: "lg_env \<Rightarrow> lg_call \<Rightarrow> lg_trace \<Rightarrow> nat \<times> lg_trace" where
  "lg_ask env c tr = (let r = env tr c in (lg_result r, tr @ [(c, r)]))"

definition lg_fail :: nat where "lg_fail = 2 ^ 64 - 1"

text \<open>A result as a signed number is negative.\<close>

definition lg_negative :: "nat \<Rightarrow> bool" where "lg_negative n \<longleftrightarrow> 2 ^ 63 \<le> n"

definition writeStr :: "lg_env \<Rightarrow> string \<Rightarrow> lg_trace \<Rightarrow> lg_trace" where
  "writeStr env s tr = snd (lg_ask env (Lg_Write s) tr)"

definition lg_line :: "lg_env \<Rightarrow> string \<Rightarrow> lg_trace \<Rightarrow> lg_trace" where
  "lg_line env s tr = writeStr env (s @ [char_of (10 :: nat)]) tr"

section \<open>Waiting for services\<close>

fun connect_input :: "lg_env \<Rightarrow> string \<Rightarrow> nat \<Rightarrow> lg_trace \<Rightarrow> nat option \<times> lg_trace" where
  "connect_input env name 0 tr = (None, tr)"
| "connect_input env name (Suc n) tr =
     (let (h, tr) = lg_ask env (Lg_Connect name) tr
      in if h \<noteq> lg_fail then (Some h, tr) else connect_input env name n (snd (lg_ask env (Lg_Sleep 10) tr)))"

definition connectInputManager :: "lg_env \<Rightarrow> string \<Rightarrow> lg_trace \<Rightarrow> nat option \<times> lg_trace" where
  "connectInputManager env name tr = connect_input env name 500 tr"

fun waitForService :: "lg_env \<Rightarrow> string \<Rightarrow> nat \<Rightarrow> nat \<Rightarrow> lg_trace \<Rightarrow> bool \<times> lg_trace" where
  "waitForService env name 0 delayMs tr = (False, tr)"
| "waitForService env name (Suc n) delayMs tr =
     (let (h, tr) = lg_ask env (Lg_Connect name) tr
      in if h \<noteq> lg_fail then (True, snd (lg_ask env (Lg_Close h) tr))
         else waitForService env name n delayMs (if 0 < delayMs then snd (lg_ask env (Lg_Sleep delayMs) tr) else tr))"

definition ensureGraphicsCompositor :: "lg_env \<Rightarrow> string \<Rightarrow> lg_trace \<Rightarrow> bool \<times> lg_trace" where
  "ensureGraphicsCompositor env name tr =
     (let (up, tr) = waitForService env name 1 0 tr
      in if up then (True, tr)
         else let (r, tr) = lg_ask env (Lg_Spawn ''/bin/graphics-compositor'' []) tr
              in if r = lg_fail then (False, lg_line env ''Failed to start graphics-compositor.'' tr)
                 else let (up, tr) = waitForService env name 100 10 tr
                      in if up then (True, tr)
                         else (False, lg_line env ''Timed out waiting for graphics.compositor.'' tr))"

section \<open>The test script\<close>

definition runAutorun :: "lg_env \<Rightarrow> lg_trace \<Rightarrow> lg_trace" where
  "runAutorun env tr =
     (let (r, tr) = lg_ask env (Lg_Stat ''/autorun.sh'') tr
      in if lg_negative r then tr
         else let (_, tr) = lg_ask env (Lg_Unlink ''/autorun.old'') tr;
                  (r, tr) = lg_ask env (Lg_Rename ''/autorun.sh'' ''/autorun.old'') tr
              in if lg_negative r then lg_line env ''[login] autorun: could not rename /autorun.sh; not running it'' tr
                 else let (_, tr) = lg_ask env (Lg_Sleep 3000) tr;
                          tr = lg_line env ''[login] autorun: running /autorun.old'' tr;
                          (r, tr) = lg_ask env (Lg_Spawn ''/bin/bash'' [''/bin/bash'', ''/autorun.old'']) tr
                      in if r = lg_fail then lg_line env ''[login] autorun: could not start /bin/bash'' tr else tr)"

section \<open>Reading a line\<close>

text \<open>The codes of Enter, of the keypad's Enter and of Backspace are not in the repository.\<close>

record key_codes =
  enterCode :: nat
  keypadEnterCode :: nat
  backspaceCode :: nat

definition nul :: char where "nul = char_of (0 :: nat)"
definition nl :: char where "nl = char_of (10 :: nat)"
definition cr :: char where "cr = char_of (13 :: nat)"
definition bs :: char where "bs = char_of (8 :: nat)"

definition eventChar :: "key_codes \<Rightarrow> lg_reply \<Rightarrow> char" where
  "eventChar K r =
     (case r of
        Lg_Key k \<Rightarrow>
          if keyReleased k \<or> keyModified k then nul
          else if keyCode k = enterCode K \<or> keyCode k = keypadEnterCode K then nl
          else if keyCode k = backspaceCode K then bs else keyText k
      | _ \<Rightarrow> nul)"

text \<open>
  \<open>readLine\<close>: the characters in the buffer and the run. The loop ends with Enter, an error or a full
  buffer; as events may never come it is a partial function.
\<close>

partial_function (option) readLoop ::
  "lg_env \<Rightarrow> key_codes \<Rightarrow> int \<Rightarrow> bool \<Rightarrow> string \<Rightarrow> lg_trace \<Rightarrow> (string \<times> lg_trace) option" where
  "readLoop env K maxLen maskInput buf tr =
     (if int (length buf) < maxLen - 1
      then let r = env tr Lg_Wait_Event; tr = tr @ [(Lg_Wait_Event, r)]
           in if (case r of Lg_Result n \<Rightarrow> n \<noteq> 0 | _ \<Rightarrow> False) then Some (buf, tr)
              else let c = eventChar K r
                   in if c = nul then readLoop env K maxLen maskInput buf tr
                      else if c = nl \<or> c = cr then Some (buf, tr)
                      else if c = bs
                      then readLoop env K maxLen maskInput (butlast buf) (if buf \<noteq> [] then writeStr env [bs, CHR '' '', bs] tr else tr)
                      else readLoop env K maxLen maskInput (buf @ [c]) (writeStr env (if maskInput then ''*'' else [c]) tr)
      else Some (buf, tr))"

definition readLine :: "lg_env \<Rightarrow> key_codes \<Rightarrow> int \<Rightarrow> bool \<Rightarrow> lg_trace \<Rightarrow> (string \<times> lg_trace) option" where
  "readLine env K maxLen maskInput tr =
     map_option (\<lambda>(buf, tr). (buf, writeStr env [nl] tr)) (readLoop env K maxLen maskInput [] tr)"

section \<open>Logging in\<close>

text \<open>
  \<open>memcpy(field, "root", sizeof(field))\<close> reads the five bytes of the literal and, for a longer field, what
  lies behind it in memory: \<open>behind\<close>; a read past the memory there is an error.
\<close>

datatype lg_fault = Read_Past_Memory

definition root_bytes :: "8 word list" where
  "root_bytes = map of_char ''root'' @ [0]"

definition copy_literal :: "8 word list \<Rightarrow> nat \<Rightarrow> lg_fault + 8 word list" where
  "copy_literal behind n =
     (if length (root_bytes @ behind) < n then Inl Read_Past_Memory else Inr (take n (root_bytes @ behind)))"

text \<open>A turn of the loop of \<open>main\<close>: whether the program ends, with the run.\<close>

definition login_turn ::
  "lg_env \<Rightarrow> string \<Rightarrow> 8 word list \<Rightarrow> nat \<Rightarrow> nat \<Rightarrow> nat \<Rightarrow> lg_trace \<Rightarrow> lg_fault + bool \<times> lg_trace" where
  "login_turn env compositor behind userSize passwordSize inputQueue tr =
     seqE (copy_literal behind userSize) (\<lambda>user. seqE (copy_literal behind passwordSize) (\<lambda>password.
       let (r, tr) = lg_ask env (Lg_Login user password) tr
       in if r \<noteq> lg_fail
          then let tr = lg_line env ''Login successful.'' tr;
                   (up, tr) = ensureGraphicsCompositor env compositor tr;
                   tr = (if up then runAutorun env tr else tr);
                   (_, tr) = lg_ask env Lg_Yield tr
               in Inr (True, snd (lg_ask env (Lg_Close inputQueue) tr))
          else Inr (False, lg_line env ''Login failed.'' tr)))"

partial_function (option) login_loop ::
  "lg_env \<Rightarrow> string \<Rightarrow> 8 word list \<Rightarrow> nat \<Rightarrow> nat \<Rightarrow> nat \<Rightarrow> lg_trace \<Rightarrow> (lg_fault + nat \<times> lg_trace) option" where
  "login_loop env compositor behind userSize passwordSize q tr =
     (case login_turn env compositor behind userSize passwordSize q tr of
        Inl e \<Rightarrow> Some (Inl e)
      | Inr r \<Rightarrow> (if fst r then Some (Inr (0, snd r)) else login_loop env compositor behind userSize passwordSize q (snd r)))"

definition login_main ::
  "lg_env \<Rightarrow> string \<Rightarrow> string \<Rightarrow> 8 word list \<Rightarrow> nat \<Rightarrow> nat \<Rightarrow> (lg_fault + nat \<times> lg_trace) option" where
  "login_main env input compositor behind userSize passwordSize =
     (case connectInputManager env input [] of
        (None, tr) \<Rightarrow> Some (Inr (1, lg_line env ''Failed to connect to input.manager.'' tr))
      | (Some q, tr) \<Rightarrow> login_loop env compositor behind userSize passwordSize q tr)"

section \<open>The script is started once\<close>

text \<open>The starts of the shell in a run, and whether the script was renamed.\<close>

fun is_script :: "lg_call \<times> lg_reply \<Rightarrow> bool" where
  "is_script (Lg_Spawn p args, _) \<longleftrightarrow> p = ''/bin/bash''"
| "is_script _ \<longleftrightarrow> False"

fun is_renamed :: "lg_call \<times> lg_reply \<Rightarrow> bool" where
  "is_renamed (Lg_Rename a b, r) \<longleftrightarrow> a = ''/autorun.sh'' \<and> \<not> lg_negative (lg_result r)"
| "is_renamed _ \<longleftrightarrow> False"

definition scripts :: "lg_trace \<Rightarrow> nat" where "scripts tr = length (filter is_script tr)"
definition renamed :: "lg_trace \<Rightarrow> bool" where "renamed tr \<longleftrightarrow> (\<exists>x\<in>set tr. is_renamed x)"

lemma lg_parts [simp]:
  "scripts (a @ b) = scripts a + scripts b" "scripts [] = 0" "scripts (x # b) = (if is_script x then 1 else 0) + scripts b"
  "renamed (a @ b) \<longleftrightarrow> renamed a \<or> renamed b" "\<not> renamed []" "renamed (x # b) \<longleftrightarrow> is_renamed x \<or> renamed b"
  by (auto simp: scripts_def renamed_def)

text \<open>What neither starts the shell nor renames.\<close>

definition harmless :: "lg_trace \<Rightarrow> lg_trace \<Rightarrow> bool" where
  "harmless tr tr' \<longleftrightarrow> scripts tr' = scripts tr \<and> (renamed tr' \<longleftrightarrow> renamed tr)"

lemma harmless_refl [simp]: "harmless tr tr"
  by (simp add: harmless_def)

lemma harmless_trans: "harmless a b \<Longrightarrow> harmless b c \<Longrightarrow> harmless a c"
  by (simp add: harmless_def)

lemma harmless_line [simp]: "harmless tr (lg_line env s tr)"
  by (simp add: harmless_def lg_line_def writeStr_def lg_ask_def Let_def)

lemma harmless_connect: "connect_input env name n tr = (r, tr') \<Longrightarrow> harmless tr tr'"
proof (induction n arbitrary: tr)
  case (Suc n)
  then show ?case
    by (auto simp: lg_ask_def Let_def harmless_def split: if_splits)
qed simp

lemma harmless_wait: "waitForService env name n d tr = (r, tr') \<Longrightarrow> harmless tr tr'"
proof (induction n arbitrary: tr)
  case (Suc n)
  then show ?case
    by (auto simp: lg_ask_def Let_def harmless_def split: if_splits)
qed simp

lemma harmless_ensure:
  assumes "ensureGraphicsCompositor env name tr = (r, tr')"
  shows "harmless tr tr'"
proof -
  obtain up tr1 where w: "waitForService env name 1 0 tr = (up, tr1)" by (cases "waitForService env name 1 0 tr")
  let ?c = "Lg_Spawn ''/bin/graphics-compositor'' []"
  let ?tr2 = "tr1 @ [(?c, env tr1 ?c)]"
  obtain up' tr3 where w': "waitForService env name 100 10 ?tr2 = (up', tr3)" by (cases "waitForService env name 100 10 ?tr2")
  have 1: "harmless tr tr1" by (rule harmless_wait [OF w])
  have 2: "harmless tr ?tr2" using 1 by (simp add: harmless_def)
  have 3: "harmless tr tr3" using harmless_trans [OF 2 harmless_wait [OF w']] .
  have "tr' = tr1 \<or> tr' = lg_line env ''Failed to start graphics-compositor.'' ?tr2 \<or> tr' = tr3 \<or>
      tr' = lg_line env ''Timed out waiting for graphics.compositor.'' tr3"
    using assms w w' by (auto simp: ensureGraphicsCompositor_def lg_ask_def Let_def simp del: waitForService.simps split: if_splits)
  then show ?thesis using 1 harmless_trans [OF 2 harmless_line] 3 harmless_trans [OF 3 harmless_line] by blast
qed

lemma autorun_parts:
  "scripts (runAutorun env tr) \<le> scripts tr + 1 \<and> (scripts tr < scripts (runAutorun env tr) \<longrightarrow> renamed (runAutorun env tr))"
  by (auto simp: runAutorun_def lg_ask_def lg_line_def writeStr_def Let_def)

definition script_ok :: "lg_trace \<Rightarrow> bool" where
  "script_ok tr \<longleftrightarrow> scripts tr \<le> 1 \<and> (scripts tr = 1 \<longrightarrow> renamed tr)"

lemma login_turn_parts:
  assumes "login_turn env c behind n m q tr = Inr (fin, tr')" "scripts tr = 0"
  shows "script_ok tr' \<and> (\<not> fin \<longrightarrow> scripts tr' = 0)"
proof -
  obtain user password where "copy_literal behind n = Inr user" "copy_literal behind m = Inr password"
    using assms(1) by (auto simp: login_turn_def seqE_eq_Inr)
  note eq = assms(1) [unfolded login_turn_def this seqE_simps]
  let ?c = "Lg_Login user password"
  let ?tr1 = "tr @ [(?c, env tr ?c)]"
  let ?tr2 = "lg_line env ''Login successful.'' ?tr1"
  obtain up tr3 where up: "ensureGraphicsCompositor env c ?tr2 = (up, tr3)" by (cases "ensureGraphicsCompositor env c ?tr2")
  have 1: "scripts ?tr1 = 0" using assms(2) by simp
  have 3: "scripts tr3 = 0"
    using harmless_trans [OF harmless_line harmless_ensure [OF up]] 1 by (simp add: harmless_def)
  have "harmless ?tr1 (lg_line env ''Login failed.'' ?tr1)" by (rule harmless_line)
  then show ?thesis
    using eq up 1 3 autorun_parts [of env tr3]
    by (auto simp: lg_ask_def Let_def script_ok_def harmless_def split: if_splits)
qed

text \<open>
  Whatever the kernel answers, a run of the login program starts the test script at most once, and only
  after the script was renamed, so that the next start of the system does not find it.
\<close>

theorem script_started_once:
  assumes "login_main env input c behind n m = Some (Inr (code, tr))"
  shows "scripts tr \<le> 1 \<and> (scripts tr = 1 \<longrightarrow> renamed tr)"
proof -
  obtain q tr0 where con: "connect_input env input 500 [] = (q, tr0)" by (cases "connect_input env input 500 []")
  have none: "scripts tr0 = 0" using harmless_connect [OF con] by (simp add: harmless_def)
  define P where "P = (\<lambda>(env :: lg_env) (c :: string) (behind :: 8 word list) (n :: nat) (m :: nat) (q :: nat) (tr :: lg_trace) (r :: lg_fault + nat \<times> lg_trace). scripts tr = 0 \<longrightarrow> (case r of Inl e \<Rightarrow> True | Inr (code :: nat, tr') \<Rightarrow> script_ok tr'))"
  have loop: "P env c behind n m q tr r" if "login_loop env c behind n m q tr = Some r" for q tr r
  proof (rule login_loop.raw_induct [of P, OF _ that], goal_cases)
    case (1 f env c behind n m q tr r)
    show ?case unfolding P_def
    proof
      assume start: "scripts tr = 0"
      show "case r of Inl e \<Rightarrow> True | Inr (code :: nat, tr') \<Rightarrow> script_ok tr'"
      proof (cases "login_turn env c behind n m q tr")
        case (Inr x)
        obtain fin tr' where x: "x = (fin, tr')" by (cases x)
        show ?thesis
          using login_turn_parts [OF Inr [unfolded x] start] 1(1) [of env c behind n m q tr' r] 1(2) Inr x
          by (cases fin) (auto simp: P_def)
      qed (use 1(2) in auto)
    qed
  qed
  show ?thesis
  proof (cases q)
    case None
    then have "tr = lg_line env ''Failed to connect to input.manager.'' tr0"
      using assms con by (simp add: login_main_def connectInputManager_def)
    then show ?thesis using none harmless_line [of tr0 env "''Failed to connect to input.manager.''"] by (simp add: harmless_def)
  next
    case (Some h)
    then have "login_loop env c behind n m h tr0 = Some (Inr (code, tr))"
      using assms con by (simp add: login_main_def connectInputManager_def)
    from loop [OF this] none show ?thesis by (simp add: P_def script_ok_def)
  qed
qed

section \<open>The name and the password\<close>

text \<open>
  A field longer than five bytes gets, behind the name and its end, the bytes that lie in memory behind the
  literal; where that memory ends the program is stopped.
\<close>

theorem login_copies_memory:
  "copy_literal behind n =
     (if n \<le> 5 then Inr (take n root_bytes)
      else if n \<le> 5 + length behind then Inr (root_bytes @ take (n - 5) behind) else Inl Read_Past_Memory)"
proof -
  have len: "length root_bytes = 5" by (simp add: root_bytes_def)
  then have "take n root_bytes = root_bytes" if "5 < n" using that by simp
  then show ?thesis by (auto simp: copy_literal_def len)
qed

end
