(* ===== verification/Netcfg.thy ===== *)
theory Netcfg
  imports Resolver
begin

text \<open>
  \<open>src/net-tools/src/netcfg.c\<close>: shows or changes the configuration of the network interface. The kernel
  answers a call from all calls and answers so far. Not in the repository: the C library's error
  texts, address parser and floating point (\<open>nc_libc\<close>: \<open>millis\<close> is a number of seconds in
  milliseconds, \<open>seconds_text\<close> its text). Addresses are the four bytes in memory, in network order.
\<close>

section \<open>The kernel\<close>

record cfg =
  flags :: "32 word"
  cAddress :: "byte list"
  cNetmask :: "byte list"
  cGateway :: "byte list"
  cDns :: "byte list list"
  cDnsCount :: nat
  cDhcpServer :: "byte list"
  leaseSeconds :: nat
  leaseRemaining :: nat
  ntpServer :: "byte list"
  gen :: nat
  cDomain :: string
  cDevice :: string

definition zero_ip :: "byte list" where "zero_ip = [0, 0, 0, 0]"

definition zero_cfg :: cfg where
  "zero_cfg = \<lparr>flags = 0, cAddress = zero_ip, cNetmask = zero_ip, cGateway = zero_ip, cDns = [zero_ip, zero_ip, zero_ip],
     cDnsCount = 0, cDhcpServer = zero_ip, leaseSeconds = 0, leaseRemaining = 0, ntpServer = zero_ip, gen = 0,
     cDomain = [], cDevice = []\<rparr>"

datatype set_mode = Set_Static cfg | Dhcp_Start | Dhcp_Renew | Set_Down

datatype nc_call = Nc_Get nat int | Nc_Set set_mode | Nc_Mac_Of | Nc_Link | Nc_Clock | Nc_Err string | Nc_Out string

datatype nc_reply = Nc_Long int | Nc_Config cfg | Nc_Mac "byte list" | Nc_Time int int

type_synonym nc_trace = "(nc_call \<times> nc_reply) list"
type_synonym nc_env = "nc_trace \<Rightarrow> nc_call \<Rightarrow> nc_reply"

record nc_libc =
  strerr :: "int \<Rightarrow> string"
  pton :: "string \<Rightarrow> byte list option"
  millis :: "string \<Rightarrow> int"
  seconds_text :: "string \<Rightarrow> string"

definition instantos_syscall :: "nc_env \<Rightarrow> nc_call \<Rightarrow> nc_trace \<Rightarrow> nc_reply \<times> nc_trace" where
  "instantos_syscall env c tr = (let r = env tr c in (r, tr @ [(c, r)]))"

fun long_of :: "nc_reply \<Rightarrow> int" where
  "long_of (Nc_Long n) = n"
| "long_of _ = 0"

definition say_err :: "nc_env \<Rightarrow> string \<Rightarrow> nc_trace \<Rightarrow> nc_trace" where
  "say_err env s tr = snd (instantos_syscall env (Nc_Err (s @ eol)) tr)"

definition say_out :: "nc_env \<Rightarrow> string \<Rightarrow> nc_trace \<Rightarrow> nc_trace" where
  "say_out env s tr = snd (instantos_syscall env (Nc_Out (s @ eol)) tr)"

definition get_config :: "nc_libc \<Rightarrow> nc_env \<Rightarrow> nat \<Rightarrow> int \<Rightarrow> nc_trace \<Rightarrow> cfg option \<times> nc_trace" where
  "get_config L env known timeout tr =
     (let (r, tr) = instantos_syscall env (Nc_Get known timeout) tr
      in case r of
           Nc_Config c \<Rightarrow> (Some c, tr)
         | _ \<Rightarrow> if long_of r < 0 then (None, say_err env (''netcfg: NetGetConfig: '' @ strerr L (- long_of r)) tr)
                else (Some zero_cfg, tr))"

section \<open>Prefixes and masks\<close>

text \<open>\<open>ntohl\<close> and \<open>htonl\<close> between the bytes in memory and a number.\<close>

definition ntohl :: "byte list \<Rightarrow> 32 word" where
  "ntohl b = Bit_Operations.or (Bit_Operations.or (push_bit 24 (ucast (b ! 0))) (push_bit 16 (ucast (b ! 1))))
     (Bit_Operations.or (push_bit 8 (ucast (b ! 2))) (ucast (b ! 3)))"

definition htonl :: "32 word \<Rightarrow> byte list" where
  "htonl w = [ucast (drop_bit 24 w), ucast (drop_bit 16 w), ucast (drop_bit 8 w), ucast w]"

lemma ntohl_htonl: "ntohl (htonl w) = w"
proof (rule bit_word_eqI)
  fix n assume "n < LENGTH(32)"
  then consider "n < 8" | "8 \<le> n" "n < 16" | "16 \<le> n" "n < 24" | "24 \<le> n" "n < 32" by (simp; linarith)
  then show "bit (ntohl (htonl w)) n \<longleftrightarrow> bit w n"
    by cases (auto simp: ntohl_def htonl_def bit_simps)
qed

text \<open>The loop of \<open>prefix_length\<close>: the number is shifted while its highest bit is set.\<close>

definition ones :: "32 word \<Rightarrow> nat set" where
  "ones m = {i. i < 32 \<and> bit m i}"

lemma bit_shift1: "i < 32 \<Longrightarrow> bit (push_bit 1 (m :: 32 word)) i \<longleftrightarrow> 1 \<le> i \<and> bit m (i - 1)"
  unfolding bit_push_bit_iff by simp

lemma ones_shift:
  assumes "bit m 31"
  shows "card (ones (push_bit 1 m)) < card (ones m)"
proof -
  have fin: "finite (ones m)" by (simp add: ones_def)
  have "ones (push_bit 1 m) \<subseteq> Suc ` (ones m - {31})"
  proof
    fix i assume "i \<in> ones (push_bit 1 m)"
    then have "i < 32" "bit (push_bit 1 m) i" unfolding ones_def by blast+
    then have "i < 32" "1 \<le> i" "bit m (i - 1)" unfolding bit_shift1 [OF \<open>i < 32\<close>] by blast+
    then have "i = Suc (i - 1)" "i - 1 \<in> ones m - {31}" by (auto simp: ones_def)
    then show "i \<in> Suc ` (ones m - {31})" by blast
  qed
  then have "card (ones (push_bit 1 m)) \<le> card (Suc ` (ones m - {31}))" by (intro card_mono) (use fin in auto)
  also have "\<dots> \<le> card (ones m - {31})" by (rule card_image_le) (use fin in auto)
  also have "\<dots> < card (ones m)" using assms by (intro card_Diff1_less fin) (simp add: ones_def)
  finally show ?thesis .
qed

function prefix_loop :: "32 word \<Rightarrow> nat \<Rightarrow> nat" where
  "prefix_loop m n = (if bit m 31 then prefix_loop (push_bit 1 m) (n + 1) else n)"
  by pat_completeness auto
termination
  by (relation "measure (\<lambda>(m, n). card (ones m))") (simp, simp only: in_measure prod.case ones_shift)

declare prefix_loop.simps [simp del]

definition prefix_length :: "byte list \<Rightarrow> nat" where
  "prefix_length m = prefix_loop (ntohl m) 0"

definition netmask_of :: "nat \<Rightarrow> byte list" where
  "netmask_of p = htonl (if p = 32 then - 1 else Bit_Operations.not (drop_bit p (- 1)))"

text \<open>The length of the mask that is made for a prefix is that prefix.\<close>

lemma prefix_loop_shifted:
  assumes "\<And>i. i < 32 \<Longrightarrow> bit m i \<longleftrightarrow> 32 - p \<le> i" "p \<le> 32"
  shows "prefix_loop m n = n + p"
  using assms
proof (induction p arbitrary: m n)
  case 0
  then show ?case by (subst prefix_loop.simps) simp
next
  case (Suc p)
  have "bit (push_bit 1 m) i \<longleftrightarrow> 32 - p \<le> i" if "i < 32" for i
    unfolding bit_shift1 [OF that] using Suc.prems(1) [of "i - 1"] Suc.prems(2) that by (cases i) auto
  then have "prefix_loop (push_bit 1 m) (n + 1) = n + 1 + p" using Suc by auto
  then show ?case using Suc.prems by (subst prefix_loop.simps) simp
qed

lemma prefix_of_netmask: "p \<le> 32 \<Longrightarrow> prefix_length (netmask_of p) = p"
  unfolding prefix_length_def netmask_of_def ntohl_htonl
  by (subst prefix_loop_shifted [of _ p]) (auto simp: bit_simps)

section \<open>Showing the configuration\<close>

definition nibble_char :: "nat \<Rightarrow> char" where
  "nibble_char d = char_of (if d < 10 then 48 + d else 87 + d)"

definition hex2 :: "byte \<Rightarrow> string" where
  "hex2 b = [nibble_char (unat b div 16), nibble_char (unat b mod 16)]"

definition up_flag :: "32 word" where "up_flag = 1"
definition dhcp_flag :: "32 word" where "dhcp_flag = 2"

definition cfg_up :: "cfg \<Rightarrow> bool" where "cfg_up c \<longleftrightarrow> Bit_Operations.and (flags c) up_flag \<noteq> 0"
definition cfg_dhcp :: "cfg \<Rightarrow> bool" where "cfg_dhcp c \<longleftrightarrow> Bit_Operations.and (flags c) dhcp_flag \<noteq> 0"

definition mac_text :: "byte list \<Rightarrow> string" where
  "mac_text m = hex2 (m ! 0) @ '':'' @ hex2 (m ! 1) @ '':'' @ hex2 (m ! 2) @ '':'' @ hex2 (m ! 3) @ '':'' @ hex2 (m ! 4) @
     '':'' @ hex2 (m ! 5)"

definition kind_text :: "cfg \<Rightarrow> string" where "kind_text c = (if cfg_dhcp c then ''dhcp'' else ''static'')"

definition inet_line :: "cfg \<Rightarrow> string" where
  "inet_line c = ''  inet     '' @ ip4 (cAddress c) @ ''/'' @ decimal (prefix_length (cNetmask c)) @ '' ('' @ kind_text c @ '')''"

definition lease_lines :: "cfg \<Rightarrow> string list" where
  "lease_lines c =
     (if cfg_dhcp c
      then [''  server   '' @ ip4 (cDhcpServer c),
            if leaseSeconds c = 2 ^ 32 - 1 then ''  lease    infinite''
            else ''  lease    '' @ decimal (leaseSeconds c) @ '' s, '' @ decimal (leaseRemaining c) @ '' s left'']
      else [])"

definition address_lines :: "cfg \<Rightarrow> string list" where
  "address_lines c =
     [inet_line c, ''  netmask  '' @ ip4 (cNetmask c),
      ''  gateway  '' @ (if cGateway c \<noteq> zero_ip then ip4 (cGateway c) else ''none'')] @
     map (\<lambda>i. ''  dns      '' @ ip4 (cDns c ! i)) [0..<min (cDnsCount c) 3] @
     (if ntpServer c \<noteq> zero_ip then [''  ntp      '' @ ip4 (ntpServer c)] else []) @
     (if cDomain c \<noteq> [] then [''  domain   '' @ take 64 (cDomain c)] else []) @
     lease_lines c"

text \<open>\<open>show\<close>: nothing when the configuration cannot be had (the program exits with 1).\<close>

definition show_config :: "nc_libc \<Rightarrow> nc_env \<Rightarrow> nc_trace \<Rightarrow> bool \<times> nc_trace" where
  "show_config L env tr =
     (case get_config L env 0 0 tr of
        (None, tr) \<Rightarrow> (False, tr)
      | (Some c, tr) \<Rightarrow>
          let (m, tr) = instantos_syscall env Nc_Mac_Of tr;
              have_nic = long_of m;
              mac = (case m of Nc_Mac b \<Rightarrow> b | _ \<Rightarrow> replicate 6 0);
              (r, tr) = instantos_syscall env Nc_Link tr;
              device = take 15 (cDevice c);
              tr = say_out env (''eth0: '' @ (if have_nic \<noteq> 0 then ''no NIC'' else if device \<noteq> [] then device else ''present'') @
                '', link '' @ (if long_of r = 1 then ''up'' else ''down'')) tr;
              tr = (if have_nic = 0 then say_out env (''  ether    '' @ mac_text mac) tr else tr)
          in if \<not> cfg_up c then (True, say_out env ''  inet     none (no address: waiting for DHCP or down)'' tr)
             else (True, fold (say_out env) (address_lines c) tr))"

section \<open>Changing it\<close>

definition set_config :: "nc_libc \<Rightarrow> nc_env \<Rightarrow> set_mode \<Rightarrow> nc_trace \<Rightarrow> bool \<times> nc_trace" where
  "set_config L env mode tr =
     (let (r, tr) = instantos_syscall env (Nc_Set mode) tr; n = long_of r
      in if n < 0
         then (False, say_err env (''netcfg: '' @ (if n = - 13 then ''permission denied (root only)'' else strerr L (- n))) tr)
         else (True, tr))"

text \<open>A monotonic time in milliseconds, and the loop of \<open>wait_for\<close>.\<close>

definition read_clock :: "nc_env \<Rightarrow> nc_trace \<Rightarrow> (int \<times> int) \<times> nc_trace" where
  "read_clock env tr =
     (let (r, tr) = instantos_syscall env Nc_Clock tr in (case r of Nc_Time s n \<Rightarrow> (s, n) | _ \<Rightarrow> (0, 0), tr))"

text \<open>Division of C: towards zero.\<close>

definition tdiv :: "int \<Rightarrow> int \<Rightarrow> int" where
  "tdiv a b = sgn a * sgn b * (\<bar>a\<bar> div \<bar>b\<bar>)"

partial_function (option) wait_loop ::
  "nc_libc \<Rightarrow> nc_env \<Rightarrow> int \<times> int \<Rightarrow> nat \<Rightarrow> 32 word \<Rightarrow> int \<times> string \<Rightarrow> nc_trace \<Rightarrow> (bool \<times> nc_trace) option" where
  "wait_loop L env t0 generation want seconds tr =
     (case read_clock env tr of
        (t, tr) \<Rightarrow>
          let left = fst seconds - ((fst t - fst t0) * 1000 + tdiv (snd t - snd t0) 1000000)
          in if left \<le> 0 then Some (False, say_err env (''netcfg: no answer within '' @ snd seconds @ '' s'') tr)
             else (case get_config L env generation left tr of
                     (None, tr) \<Rightarrow> Some (False, tr)
                   | (Some c, tr) \<Rightarrow>
                       if gen c \<noteq> generation \<and> flags c = want then Some (True, tr)
                       else wait_loop L env t0 (gen c) want seconds tr))"

definition wait_for ::
  "nc_libc \<Rightarrow> nc_env \<Rightarrow> nat \<Rightarrow> 32 word \<Rightarrow> int \<times> string \<Rightarrow> nc_trace \<Rightarrow> (bool \<times> nc_trace) option" where
  "wait_for L env generation want seconds tr =
     (case read_clock env tr of (t0, tr) \<Rightarrow> wait_loop L env t0 generation want seconds tr)"

section \<open>Arguments\<close>

text \<open>\<open>atoi\<close>, as far as an \<open>int\<close> holds the number.\<close>

definition atoi :: "string \<Rightarrow> int" where
  "atoi s =
     (let s = dropWhile is_blank s;
          digits = (\<lambda>s. int (digits_value (takeWhile (\<lambda>c. of_char c \<in> {48..57 :: nat}) s)))
      in if s \<noteq> [] \<and> hd s = CHR ''-'' then - digits (tl s)
         else if s \<noteq> [] \<and> hd s = CHR ''+'' then digits (tl s) else digits s)"

text \<open>\<open>ADDR/PREFIX\<close>, with at most 31 characters.\<close>

definition parse_prefix :: "nc_libc \<Rightarrow> string \<Rightarrow> (byte list \<times> nat) option" where
  "parse_prefix L arg =
     (let addr = take 31 arg; host = takeWhile (\<lambda>c. c \<noteq> CHR ''/'') addr; rest = drop (length host) addr;
          prefix = (if rest \<noteq> [] then atoi (tl rest) else 24)
      in case pton L host of
           Some b \<Rightarrow> if 1 \<le> prefix \<and> prefix \<le> 32 then Some (b, nat prefix) else None
         | None \<Rightarrow> None)"

fun parse_dns :: "nc_libc \<Rightarrow> string list \<Rightarrow> cfg \<Rightarrow> cfg option" where
  "parse_dns L [] c = Some c"
| "parse_dns L (a # as) c =
     (if cDnsCount c = 3 then None
      else case pton L a of
             Some b \<Rightarrow> parse_dns L as (c\<lparr>cDns := (cDns c)[cDnsCount c := b], cDnsCount := cDnsCount c + 1\<rparr>)
           | None \<Rightarrow> None)"

definition parse_static :: "nc_libc \<Rightarrow> string list \<Rightarrow> cfg option" where
  "parse_static L args =
     (case args of
        [] \<Rightarrow> None
      | arg # rest \<Rightarrow>
          (case parse_prefix L arg of
             None \<Rightarrow> None
           | Some (b, p) \<Rightarrow>
               let c = zero_cfg\<lparr>cAddress := b, cNetmask := netmask_of p\<rparr>
               in (case rest of
                     [] \<Rightarrow> Some c
                   | gw # dns \<Rightarrow> (case pton L gw of None \<Rightarrow> None | Some g \<Rightarrow> parse_dns L dns (c\<lparr>cGateway := g\<rparr>)))))"

text \<open>The exit code. \<open>args\<close> are the arguments after the program's name.\<close>

definition usage_exit :: "nc_env \<Rightarrow> nc_trace \<Rightarrow> (nat \<times> nc_trace) option" where
  "usage_exit env tr = Some (2, say_err env ''usage: netcfg [-w seconds] [dhcp | renew | down | static ADDR/PREFIX [GATEWAY [DNS...]]]'' tr)"

definition finish :: "nc_libc \<Rightarrow> nc_env \<Rightarrow> (bool \<times> nc_trace) option \<Rightarrow> (nat \<times> nc_trace) option" where
  "finish L env r =
     (case r of
        None \<Rightarrow> None
      | Some (False, tr) \<Rightarrow> Some (1, tr)
      | Some (True, tr) \<Rightarrow> (case show_config L env tr of (ok, tr) \<Rightarrow> Some (if ok then 0 else 1, tr)))"

definition change_and_wait ::
  "nc_libc \<Rightarrow> nc_env \<Rightarrow> set_mode \<Rightarrow> cfg \<Rightarrow> int \<times> string \<Rightarrow> nc_trace \<Rightarrow> (nat \<times> nc_trace) option" where
  "change_and_wait L env mode before wait tr =
     (case set_config L env mode tr of
        (False, tr) \<Rightarrow> Some (1, tr)
      | (True, tr) \<Rightarrow> finish L env (wait_for L env (gen before) (Bit_Operations.or up_flag dhcp_flag) wait tr))"

definition netcfg_main :: "nc_libc \<Rightarrow> nc_env \<Rightarrow> string list \<Rightarrow> (nat \<times> nc_trace) option" where
  "netcfg_main L env args =
     (let (wait, args) =
        (case args of
           a # s # rest \<Rightarrow> if a = ''-w'' then ((millis L s, seconds_text L s), rest) else ((10000, ''10''), args)
         | _ \<Rightarrow> ((10000, ''10''), args))
      in case args of
           [] \<Rightarrow> (case show_config L env [] of (ok, tr) \<Rightarrow> Some (if ok then 0 else 1, tr))
         | cmd # rest \<Rightarrow>
             (case get_config L env 0 0 [] of
                (None, tr) \<Rightarrow> Some (1, tr)
              | (Some before, tr) \<Rightarrow>
                  if cmd = ''dhcp'' \<and> rest = [] then change_and_wait L env Dhcp_Start before wait tr
                  else if cmd = ''renew'' \<and> rest = []
                  then if \<not> cfg_dhcp before then Some (1, say_err env ''netcfg: no DHCP lease to renew'' tr)
                       else change_and_wait L env Dhcp_Renew before wait tr
                  else if cmd = ''down'' \<and> rest = [] then finish L env (Some (set_config L env Set_Down tr))
                  else if cmd = ''static'' \<and> rest \<noteq> []
                  then (case parse_static L rest of
                          None \<Rightarrow> usage_exit env tr
                        | Some c \<Rightarrow> finish L env (Some (set_config L env (Set_Static c) tr)))
                  else usage_exit env tr))"

end
