(* ===== verification/Ntp_Client.thy ===== *)
theory Ntp_Client
  imports Netcfg Floating
begin

text \<open>
  \<open>src/net-tools/src/sntp.c\<close>: asks a server for the time, prints how far the local clock is off and sets
  it. The kernel and the network answer from all calls and answers so far; the parser of the
  options, of addresses and of numbers and the texts of errors are those of the C library.
\<close>

section \<open>Calls\<close>

datatype sn_call = Sn_Clock | Sn_Lookup string | Sn_Config | Sn_Socket | Sn_Connect int "byte list" | Sn_Send int "byte list"
  | Sn_Poll int int | Sn_Recv int nat | Sn_Close int | Sn_Set_Clock int int | Sn_Out string | Sn_Err string

text \<open>A result; \<open>errno\<close>; a time; bytes or an address; a configuration.\<close>

datatype sn_reply = Sn_Number int | Sn_Failed int | Sn_Time int int | Sn_Bytes "byte list" | Sn_Cfg cfg

type_synonym sn_trace = "(sn_call \<times> sn_reply) list"
type_synonym sn_env = "sn_trace \<Rightarrow> sn_call \<Rightarrow> sn_reply"

text \<open>\<open>sn_options\<close>: what \<open>getopt\<close> returns, one after the other, and the arguments behind.\<close>

record sn_libc =
  sn_strerror :: "int \<Rightarrow> string"
  sn_gai_strerror :: "int \<Rightarrow> string"
  sn_pton :: "string \<Rightarrow> byte list option"
  sn_strtol :: "string \<Rightarrow> int"
  sn_options :: "string \<Rightarrow> string list \<Rightarrow> (char \<times> string) list \<times> string list"
  sn_eintr :: int

definition sn_ask :: "sn_env \<Rightarrow> sn_call \<Rightarrow> sn_trace \<Rightarrow> sn_reply \<times> sn_trace" where
  "sn_ask env c tr = (let r = env tr c in (r, tr @ [(c, r)]))"

definition sn_out :: "sn_env \<Rightarrow> string \<Rightarrow> sn_trace \<Rightarrow> sn_trace" where
  "sn_out env s tr = snd (sn_ask env (Sn_Out (s @ eol)) tr)"

definition sn_err :: "sn_env \<Rightarrow> string \<Rightarrow> sn_trace \<Rightarrow> sn_trace" where
  "sn_err env s tr = snd (sn_ask env (Sn_Err (s @ eol)) tr)"

section \<open>Times\<close>

fun time_in :: "'f doubles \<Rightarrow> sn_reply \<Rightarrow> 'f" where
  "time_in F (Sn_Time s n) = d_add F (d_int F s) (d_div F (d_int F n) (d_int F 1000000000))"
| "time_in F _ = d_int F 0"

definition now_unix :: "'f doubles \<Rightarrow> sn_env \<Rightarrow> sn_trace \<Rightarrow> 'f \<times> sn_trace" where
  "now_unix F env tr = (let (r, tr) = sn_ask env Sn_Clock tr in (time_in F r, tr))"

definition NTP_UNIX_OFFSET :: int where "NTP_UNIX_OFFSET = 2208988800"

text \<open>The difference of the seconds is taken in 64 bits without sign.\<close>

definition ntp_to_unix :: "'f doubles \<Rightarrow> byte list \<Rightarrow> 'f" where
  "ntp_to_unix F t =
     (let seconds = uint (ntohl (take 4 t));
          seconds = (if seconds < 0x80000000 then seconds + 0x100000000 else seconds)
      in d_add F (d_int F ((seconds - NTP_UNIX_OFFSET) mod 2 ^ 64))
           (d_div F (d_int F (uint (ntohl (drop 4 t)))) (d_int F 4294967296)))"

definition unix_to_ntp :: "'f doubles \<Rightarrow> 'f \<Rightarrow> d_fault + byte list" where
  "unix_to_ntp F unix_time =
     (let seconds = d_add F unix_time (d_int F NTP_UNIX_OFFSET)
      in seqE (to_u64 F seconds) (\<lambda>whole.
         seqE (to_u32 F (d_mul F (d_sub F seconds (d_int F (int whole))) (d_int F 4294967296))) (\<lambda>fraction.
         Inr (htonl (of_nat whole) @ htonl (of_nat fraction)))))"

section \<open>The server\<close>

definition sn_resolve :: "sn_libc \<Rightarrow> sn_env \<Rightarrow> string \<Rightarrow> sn_trace \<Rightarrow> byte list option \<times> sn_trace" where
  "sn_resolve L env host tr =
     (case sn_pton L host of
        Some a \<Rightarrow> (Some a, tr)
      | None \<Rightarrow>
          let (r, tr) = sn_ask env (Sn_Lookup host) tr
          in case r of
               Sn_Bytes a \<Rightarrow> (Some a, tr)
             | Sn_Failed rc \<Rightarrow> (None, sn_err env (''sntp: '' @ host @ '': '' @ sn_gai_strerror L rc) tr)
             | _ \<Rightarrow> (None, sn_err env (''sntp: '' @ host @ '': no address'') tr))"

definition dhcp_server :: "sn_env \<Rightarrow> sn_trace \<Rightarrow> string option \<times> sn_trace" where
  "dhcp_server env tr =
     (let (r, tr) = sn_ask env Sn_Config tr
      in (case r of Sn_Cfg c \<Rightarrow> if bit (flags c) 0 \<and> ntpServer c \<noteq> zero_ip then Some (ip4 (ntpServer c)) else None
                  | _ \<Rightarrow> None, tr))"

section \<open>An exchange\<close>

definition request_packet :: "byte list \<Rightarrow> byte list" where
  "request_packet transmit = 0x23 # replicate 39 0 @ transmit"

definition field :: "nat \<Rightarrow> nat \<Rightarrow> byte list \<Rightarrow> byte list" where
  "field i n packet = take n (drop i packet)"

text \<open>A whole packet from a server that carries the time of the request.\<close>

definition answers_request :: "byte list \<Rightarrow> byte list \<Rightarrow> bool" where
  "answers_request request reply \<longleftrightarrow> 48 \<le> length reply \<and> Bit_Operations.and (reply ! 0) 7 = 4 \<and> field 24 8 reply = field 40 8 request"

definition good_stratum :: "byte list \<Rightarrow> bool" where
  "good_stratum reply \<longleftrightarrow> reply ! 1 \<noteq> 0 \<and> unat (reply ! 1) \<le> 15"

definition synchronized :: "byte list \<Rightarrow> bool" where
  "synchronized reply \<longleftrightarrow> drop_bit 6 (reply ! 0) \<noteq> 3"

datatype 'f outcome = Answer 'f 'f nat | No_Answer | Broken

text \<open>The differences of the clocks, and how long the packets were on their way.\<close>

definition answer_of :: "'f doubles \<Rightarrow> 'f \<Rightarrow> 'f \<Rightarrow> byte list \<Rightarrow> 'f outcome" where
  "answer_of F t1 t4 reply =
     (let t2 = ntp_to_unix F (field 32 8 reply); t3 = ntp_to_unix F (field 40 8 reply)
      in Answer (d_div F (d_add F (d_sub F t2 t1) (d_sub F t3 t4)) (d_int F 2)) (d_sub F (d_sub F t4 t1) (d_sub F t3 t2))
           (unat (reply ! 1)))"

definition wait_ms :: "'f doubles \<Rightarrow> 'f \<Rightarrow> d_fault + int" where
  "wait_ms F left =
     seqE (to_int32 F (d_mul F left (d_int F 1000))) (\<lambda>n. if n + 1 < 2 ^ 31 then Inr (n + 1) else Inl Out_Of_Range)"

text \<open>What the loop of \<open>query\<close> makes of a datagram, and a turn of it: its result, if it ends.\<close>

definition read_answer ::
  "'f doubles \<Rightarrow> sn_libc \<Rightarrow> sn_env \<Rightarrow> byte list \<Rightarrow> 'f \<Rightarrow> sn_reply \<Rightarrow> 'f \<Rightarrow> sn_trace \<Rightarrow> 'f outcome option \<times> sn_trace" where
  "read_answer F L env request t1 r t4 tr =
     (case r of
        Sn_Failed e \<Rightarrow> (Some Broken, sn_err env (''sntp: recv: '' @ sn_strerror L e) tr)
      | Sn_Bytes bs \<Rightarrow>
          let reply = take 48 bs
          in if \<not> answers_request request reply then (None, tr)
             else if \<not> good_stratum reply
             then (Some Broken, sn_err env (''sntp: server refused (stratum '' @ decimal (unat (reply ! 1)) @ '', '' @
                     c_string (field 12 4 reply) @ '')'') tr)
             else if \<not> synchronized reply then (Some Broken, sn_err env ''sntp: server clock is not synchronized'' tr)
             else (Some (answer_of F t1 t4 reply), tr)
      | _ \<Rightarrow> (None, tr))"

definition query_turn ::
  "'f doubles \<Rightarrow> sn_libc \<Rightarrow> sn_env \<Rightarrow> int \<Rightarrow> byte list \<Rightarrow> 'f \<Rightarrow> 'f \<Rightarrow> sn_trace \<Rightarrow> d_fault + 'f outcome option \<times> sn_trace" where
  "query_turn F L env fd request t1 deadline tr =
     (let (now, tr) = now_unix F env tr; left = d_sub F deadline now
      in if d_le F left (d_int F 0) then Inr (Some No_Answer, tr)
         else seqE (wait_ms F left) (\<lambda>ms.
           let (ready, tr) = sn_ask env (Sn_Poll fd ms) tr
           in Inr (case ready of
                     Sn_Number n \<Rightarrow>
                       if n \<le> 0 then (None, tr)
                       else let (r, tr) = sn_ask env (Sn_Recv fd 48) tr; (t4, tr) = now_unix F env tr
                            in read_answer F L env request t1 r t4 tr
                   | Sn_Failed e \<Rightarrow>
                       if e \<noteq> sn_eintr L then (Some Broken, sn_err env (''sntp: poll: '' @ sn_strerror L e) tr) else (None, tr)
                   | _ \<Rightarrow> (None, tr))))"

text \<open>
  The loop itself. As datagrams that are no answer may come until the time is over, and the clock
  may stand still, it is a partial function.
\<close>

partial_function (option) query_wait ::
  "'f doubles \<Rightarrow> sn_libc \<Rightarrow> sn_env \<Rightarrow> int \<Rightarrow> byte list \<Rightarrow> 'f \<Rightarrow> 'f \<Rightarrow> sn_trace \<Rightarrow> (d_fault + 'f outcome \<times> sn_trace) option" where
  "query_wait F L env fd request t1 deadline tr =
     (case query_turn F L env fd request t1 deadline tr of
        Inl e \<Rightarrow> Some (Inl e)
      | Inr r \<Rightarrow> (case fst r of Some got \<Rightarrow> Some (Inr (got, snd r))
                        | None \<Rightarrow> query_wait F L env fd request t1 deadline (snd r)))"

declare query_wait.simps [code]

definition ntp_query ::
  "'f doubles \<Rightarrow> sn_libc \<Rightarrow> sn_env \<Rightarrow> int \<Rightarrow> 'f \<Rightarrow> sn_trace \<Rightarrow> (d_fault + 'f outcome \<times> sn_trace) option" where
  "ntp_query F L env fd timeout tr =
     (let (t1, tr) = now_unix F env tr
      in case unix_to_ntp F t1 of
           Inl e \<Rightarrow> Some (Inl e)
         | Inr stamp \<Rightarrow>
             let request = request_packet stamp; (r, tr) = sn_ask env (Sn_Send fd request) tr
             in case r of
                  Sn_Failed e \<Rightarrow> Some (Inr (Broken, sn_err env (''sntp: send: '' @ sn_strerror L e) tr))
                | _ \<Rightarrow> query_wait F L env fd request t1 (d_add F t1 timeout) tr)"

text \<open>At most \<open>n\<close> exchanges, until one does not time out.\<close>

fun ntp_queries ::
  "'f doubles \<Rightarrow> sn_libc \<Rightarrow> sn_env \<Rightarrow> int \<Rightarrow> 'f \<Rightarrow> nat \<Rightarrow> sn_trace \<Rightarrow> (d_fault + 'f outcome \<times> sn_trace) option" where
  "ntp_queries F L env fd timeout 0 tr = Some (Inr (No_Answer, tr))"
| "ntp_queries F L env fd timeout (Suc n) tr =
     (case ntp_query F L env fd timeout tr of
        Some (Inr (No_Answer, tr)) \<Rightarrow> ntp_queries F L env fd timeout n tr
      | r \<Rightarrow> r)"

section \<open>The program\<close>

record 'f sn_opts =
  sn_set :: bool
  sn_quiet :: bool
  sn_retries :: int
  sn_timeout :: 'f

text \<open>A \<open>long\<close> as an \<open>int\<close>.\<close>

definition int_cast :: "int \<Rightarrow> int" where
  "int_cast n = (n + 2 ^ 31) mod 2 ^ 32 - 2 ^ 31"

text \<open>The loop over the options: none if \<open>usage\<close> ends the program.\<close>

fun sn_scan :: "'f doubles \<Rightarrow> sn_libc \<Rightarrow> (char \<times> string) list \<Rightarrow> 'f sn_opts \<Rightarrow> 'f sn_opts option" where
  "sn_scan F L [] s = Some s"
| "sn_scan F L ((c, arg) # cs) s =
     (if c = CHR ''s'' then sn_scan F L cs (s\<lparr>sn_set := True\<rparr>)
      else if c = CHR ''q'' then sn_scan F L cs (s\<lparr>sn_quiet := True\<rparr>)
      else if c = CHR ''W''
      then if d_le F (d_read F arg) (d_int F 0) then None else sn_scan F L cs (s\<lparr>sn_timeout := d_read F arg\<rparr>)
      else if c = CHR ''r''
      then if int_cast (sn_strtol L arg) < 1 then None else sn_scan F L cs (s\<lparr>sn_retries := int_cast (sn_strtol L arg)\<rparr>)
      else None)"

definition signed_text :: "'f doubles \<Rightarrow> 'f \<Rightarrow> string" where
  "signed_text F x =
     (if d_less F x (d_int F 0) then ''-'' @ d_text F 6 (d_neg F x) else ''+'' @ d_text F 6 x)"

text \<open>What the program says after asking the kernel, and its exit code.\<close>

definition report_set :: "'f doubles \<Rightarrow> sn_libc \<Rightarrow> sn_env \<Rightarrow> bool \<Rightarrow> 'f \<Rightarrow> sn_reply \<Rightarrow> sn_trace \<Rightarrow> int \<times> sn_trace" where
  "report_set F L env quiet offset r tr =
     (case r of
        Sn_Failed e \<Rightarrow> (1, sn_err env (''sntp: cannot set the clock: '' @ sn_strerror L e) tr)
      | _ \<Rightarrow> (0, if quiet then tr else sn_out env (''clock stepped by '' @ signed_text F offset @ '' s'') tr))"

definition set_clock ::
  "'f doubles \<Rightarrow> sn_libc \<Rightarrow> sn_env \<Rightarrow> bool \<Rightarrow> 'f \<Rightarrow> sn_trace \<Rightarrow> d_fault + int \<times> sn_trace" where
  "set_clock F L env quiet offset tr =
     (let (now, tr) = now_unix F env tr; target = d_add F now offset
      in seqE (to_int64 F target) (\<lambda>s.
         seqE (to_int64 F (d_mul F (d_sub F target (d_int F s)) (d_int F 1000000000))) (\<lambda>n.
           let (r, tr) = sn_ask env (Sn_Set_Clock s n) tr
           in Inr (report_set F L env quiet offset r tr))))"

definition offset_line :: "'f doubles \<Rightarrow> string \<Rightarrow> string \<Rightarrow> 'f \<Rightarrow> 'f \<Rightarrow> nat \<Rightarrow> string" where
  "offset_line F server ip offset delay stratum =
     server @ '' ('' @ ip @ ''): stratum '' @ decimal stratum @ '', offset '' @ signed_text F offset @ '' s, delay '' @
     d_text F 6 delay @ '' s''"

text \<open>What \<open>main\<close> does after the exchanges.\<close>

definition sn_finish ::
  "'f doubles \<Rightarrow> sn_libc \<Rightarrow> sn_env \<Rightarrow> 'f sn_opts \<Rightarrow> string \<Rightarrow> string \<Rightarrow> int \<Rightarrow> (d_fault + 'f outcome \<times> sn_trace) \<Rightarrow>
   d_fault + int \<times> sn_trace" where
  "sn_finish F L env opts server ip fd res =
     seqE res (\<lambda>(got, tr). let (_, tr) = sn_ask env (Sn_Close fd) tr
       in case got of
            No_Answer \<Rightarrow> Inr (1, sn_err env (''sntp: no answer from '' @ server @ '' ('' @ ip @ '')'') tr)
          | Broken \<Rightarrow> Inr (1, tr)
          | Answer offset delay stratum \<Rightarrow>
              let tr = (if sn_quiet opts then tr
                        else sn_out env (offset_line F server ip offset delay stratum) tr)
              in if sn_set opts then set_clock F L env (sn_quiet opts) offset tr else Inr (0, tr))"

text \<open>The socket connected to the server.\<close>

definition sn_open :: "sn_libc \<Rightarrow> sn_env \<Rightarrow> string \<Rightarrow> byte list \<Rightarrow> sn_trace \<Rightarrow> int option \<times> sn_trace" where
  "sn_open L env server a tr =
     (let (r, tr) = sn_ask env Sn_Socket tr
      in case r of
           Sn_Failed e \<Rightarrow> (None, sn_err env (''sntp: '' @ server @ '': '' @ sn_strerror L e) tr)
         | _ \<Rightarrow>
             let fd = (case r of Sn_Number fd \<Rightarrow> fd | _ \<Rightarrow> 0); (r, tr) = sn_ask env (Sn_Connect fd a) tr
             in case r of
                  Sn_Failed e \<Rightarrow> (None, sn_err env (''sntp: '' @ server @ '': '' @ sn_strerror L e) tr)
                | _ \<Rightarrow> (Some fd, tr))"

definition sn_usage :: string where "sn_usage = ''usage: sntp [-s] [-q] [-W timeout] [-r retries] [server]''"

definition sn_defaults :: "'f doubles \<Rightarrow> 'f sn_opts" where
  "sn_defaults F = \<lparr>sn_set = False, sn_quiet = False, sn_retries = 3, sn_timeout = d_int F 2\<rparr>"

definition sn_server :: "sn_env \<Rightarrow> string list \<Rightarrow> string \<times> sn_trace" where
  "sn_server env rest =
     (case rest of
        a # _ \<Rightarrow> (a, [])
      | [] \<Rightarrow> (case dhcp_server env [] of (Some a, tr) \<Rightarrow> (a, tr) | (None, tr) \<Rightarrow> (''pool.ntp.org'', tr)))"

definition sntp_main ::
  "'f doubles \<Rightarrow> sn_libc \<Rightarrow> sn_env \<Rightarrow> string list \<Rightarrow> (d_fault + int \<times> sn_trace) option" where
  "sntp_main F L env args =
     (let (opts, rest) = sn_options L ''sqW:r:h'' args
      in case sn_scan F L opts (sn_defaults F) of
           None \<Rightarrow> Some (Inr (2, sn_err env sn_usage []))
         | Some opts' \<Rightarrow>
             if 1 < length rest then Some (Inr (2, sn_err env sn_usage []))
             else let (server, tr) = sn_server env rest; (addr, tr) = sn_resolve L env server tr
                  in case addr of
                       None \<Rightarrow> Some (Inr (2, tr))
                     | Some a \<Rightarrow>
                         let (fd, tr) = sn_open L env server a tr
                         in case fd of
                              None \<Rightarrow> Some (Inr (1, tr))
                            | Some fd \<Rightarrow> map_option (\<lambda>res. sn_finish F L env opts' server (ip4 a) fd res)
                                         (ntp_queries F L env fd (sn_timeout opts') (nat (sn_retries opts')) tr))"

end
