(* ===== verification/Ntp_Results.thy ===== *)
theory Ntp_Results
  imports Ntp_Client
begin

text \<open>
  What \<open>sntp\<close> guarantees: the clock is set only from an answer to the program's own request, the offset is
  as exact as the delay allows, and every run ends as long as the clock advances.
\<close>

section \<open>Only an answer sets the clock\<close>

definition good_reply :: "byte list \<Rightarrow> byte list \<Rightarrow> bool" where
  "good_reply request reply \<longleftrightarrow> answers_request request reply \<and> good_stratum reply \<and> synchronized reply"

text \<open>After the request \<open>q\<close>: whether a good reply to the last request came, and the last request.\<close>

fun believable :: "byte list \<Rightarrow> sn_trace \<Rightarrow> bool" where
  "believable q [] \<longleftrightarrow> False"
| "believable q ((Sn_Send fd q', r) # tr) \<longleftrightarrow> believable q' tr"
| "believable q ((Sn_Recv fd n, Sn_Bytes bs) # tr) \<longleftrightarrow> good_reply q (take n bs) \<or> believable q tr"
| "believable q (x # tr) \<longleftrightarrow> believable q tr"

fun last_sent :: "byte list \<Rightarrow> sn_trace \<Rightarrow> byte list" where
  "last_sent q [] = q"
| "last_sent q ((Sn_Send fd q', r) # tr) = last_sent q' tr"
| "last_sent q (x # tr) = last_sent q tr"

fun is_set :: "sn_call \<times> sn_reply \<Rightarrow> bool" where
  "is_set (Sn_Set_Clock s n, r) \<longleftrightarrow> True"
| "is_set _ \<longleftrightarrow> False"

lemma believable_append: "believable q (a @ b) \<longleftrightarrow> believable q a \<or> believable (last_sent q a) b"
  by (induction q a rule: believable.induct) auto

lemma last_sent_append [simp]: "last_sent q (a @ b) = last_sent (last_sent q a) b"
  by (induction q a rule: last_sent.induct) auto

text \<open>The calls a part of a run makes set no clock.\<close>

definition settles :: "sn_trace \<Rightarrow> sn_trace \<Rightarrow> bool" where
  "settles tr tr' \<longleftrightarrow> (\<exists>b. tr' = tr @ b \<and> filter is_set b = [])"

lemma settles_refl [simp]: "settles tr tr" by (simp add: settles_def)

lemma settles_trans: "settles a b \<Longrightarrow> settles b c \<Longrightarrow> settles a c" by (auto simp: settles_def)

lemma settles_ask: "\<not> is_set (c, env tr c) \<Longrightarrow> settles tr (snd (sn_ask env c tr))"
  by (auto simp: settles_def sn_ask_def Let_def)

lemma settles_prints [simp]: "settles tr (sn_err env s tr)" "settles tr (sn_out env s tr)"
  by (simp_all add: settles_def sn_err_def sn_out_def sn_ask_def Let_def)

lemma settles_believable: "settles tr tr' \<Longrightarrow> believable q tr \<Longrightarrow> believable q tr'"
  by (auto simp: settles_def believable_append)

lemma settles_unset: "settles tr tr' \<Longrightarrow> filter is_set tr = [] \<Longrightarrow> filter is_set tr' = []"
  by (auto simp: settles_def)

text \<open>Nor does the waiting for an answer send anything.\<close>

fun is_sent :: "sn_call \<times> sn_reply \<Rightarrow> bool" where
  "is_sent (Sn_Send fd q, r) \<longleftrightarrow> True"
| "is_sent _ \<longleftrightarrow> False"

definition waits :: "sn_trace \<Rightarrow> sn_trace \<Rightarrow> bool" where
  "waits tr tr' \<longleftrightarrow> settles tr tr' \<and> (\<exists>b. tr' = tr @ b \<and> filter is_sent b = [])"

lemma waits_refl [simp]: "waits tr tr" by (simp add: waits_def)

lemma waits_trans: "waits a b \<Longrightarrow> waits b c \<Longrightarrow> waits a c" by (auto simp: waits_def settles_def)

lemma waits_err [simp]: "waits tr (sn_err env s tr)"
  by (simp add: waits_def sn_err_def sn_ask_def Let_def settles_def)

lemma waits_calls: "filter is_set b = [] \<Longrightarrow> filter is_sent b = [] \<Longrightarrow> waits tr (tr @ b)"
  by (simp add: waits_def settles_def)

lemma unsent: "filter is_sent b = [] \<Longrightarrow> last_sent q b = q"
  by (induction q b rule: last_sent.induct) auto

lemma waits_sent: "waits tr tr' \<Longrightarrow> last_sent q tr' = last_sent q tr"
  by (auto simp: waits_def unsent)

text \<open>A turn of the loop: what it reads, and what its answer comes from.\<close>

lemma read_answer_parts:
  assumes "read_answer F L env request t1 r t4 tr = (got, tr')"
  shows "waits tr tr'"
    and "got = Some (Answer offset delay stratum) \<Longrightarrow> \<exists>bs. r = Sn_Bytes bs \<and> good_reply request (take 48 bs) \<and>
           Answer offset delay stratum = answer_of F t1 t4 (take 48 bs)"
  using assms by (auto simp: read_answer_def good_reply_def Let_def split: sn_reply.splits if_splits)

definition answered_by ::
  "'f doubles \<Rightarrow> sn_env \<Rightarrow> int \<Rightarrow> byte list \<Rightarrow> 'f \<Rightarrow> sn_trace \<Rightarrow> sn_trace \<Rightarrow> 'f outcome \<Rightarrow> bool" where
  "answered_by F env fd request t1 tr0 tr a \<longleftrightarrow>
     (\<exists>u bs b. waits tr0 u \<and> env u (Sn_Recv fd 48) = Sn_Bytes bs \<and> tr = u @ (Sn_Recv fd 48, Sn_Bytes bs) # b \<and>
        good_reply request (take 48 bs) \<and>
        a = answer_of F t1 (time_in F (env (u @ [(Sn_Recv fd 48, Sn_Bytes bs)]) Sn_Clock)) (take 48 bs))"

lemma answered_byI:
  assumes "waits tr0 u" "env u (Sn_Recv fd 48) = Sn_Bytes bs" "good_reply request (take 48 bs)"
    "a = answer_of F t1 (time_in F (env (u @ [(Sn_Recv fd 48, env u (Sn_Recv fd 48))]) Sn_Clock)) (take 48 bs)"
    "tr = u @ (Sn_Recv fd 48, env u (Sn_Recv fd 48)) # b"
  shows "answered_by F env fd request t1 tr0 tr a"
  using assms unfolding answered_by_def by metis

lemma query_turn_parts:
  assumes "query_turn F L env fd request t1 deadline tr = Inr (got, tr')"
  shows "waits (tr @ [(Sn_Clock, env tr Sn_Clock)]) tr' \<and> (\<forall>offset delay stratum. got = Some (Answer offset delay stratum) \<longrightarrow>
           answered_by F env fd request t1 tr tr' (Answer offset delay stratum))"
proof -
  let ?left = "d_sub F deadline (time_in F (env tr Sn_Clock))"
  let ?tr1 = "tr @ [(Sn_Clock, env tr Sn_Clock)]"
  note eq = assms [unfolded query_turn_def now_unix_def sn_ask_def Let_def prod.case]
  show ?thesis
  proof (cases "d_le F ?left (d_int F 0)")
    case True
    then show ?thesis using eq by auto
  next
    case False
    then obtain ms where ms: "wait_ms F ?left = Inr ms" using eq by (cases "wait_ms F ?left") auto
    let ?ready = "env ?tr1 (Sn_Poll fd ms)"
    let ?tr2 = "tr @ [(Sn_Clock, env tr Sn_Clock), (Sn_Poll fd ms, ?ready)]"
    have w2: "waits tr ?tr2" by (rule waits_calls) simp_all
    have w12: "waits ?tr1 ?tr2" using waits_calls [of "[(Sn_Poll fd ms, ?ready)]" ?tr1] by simp
    show ?thesis
    proof (cases "\<exists>n. ?ready = Sn_Number n \<and> 0 < n")
      case True
      let ?r = "env ?tr2 (Sn_Recv fd 48)"
      let ?tr3 = "?tr2 @ [(Sn_Recv fd 48, ?r)]"
      let ?tr4 = "?tr2 @ [(Sn_Recv fd 48, ?r), (Sn_Clock, env ?tr3 Sn_Clock)]"
      from True have read: "read_answer F L env request t1 ?r (time_in F (env ?tr3 Sn_Clock)) ?tr4 = (got, tr')"
        using eq False ms by auto
      have w4: "waits ?tr1 ?tr4" using waits_trans [OF w12 waits_calls] by simp
      note parts = read_answer_parts [OF read]
      from parts(1) obtain b where b: "tr' = ?tr4 @ b" by (auto simp: waits_def)
      have "answered_by F env fd request t1 tr tr' (Answer offset delay stratum)"
        if got: "got = Some (Answer offset delay stratum)" for offset delay stratum
        using parts(2) [OF got] answered_byI [OF w2, of env fd _ request _ F t1 tr' "(Sn_Clock, env ?tr3 Sn_Clock) # b"] b by auto
      then show ?thesis using waits_trans [OF w4 parts(1)] by blast
    next
      case False
      with eq \<open>\<not> d_le F ?left (d_int F 0)\<close> ms have "(got, tr') = (None, ?tr2) \<or> (got = Some Broken \<and> (\<exists>t. tr' = sn_err env t ?tr2))"
        by (auto split: sn_reply.splits if_splits)
      then show ?thesis using w12 waits_trans [OF w12 waits_err] by auto
    qed
  qed
qed

lemma answered_by_trans: "waits a b \<Longrightarrow> answered_by F env fd request t1 b tr r \<Longrightarrow> answered_by F env fd request t1 a tr r"
  unfolding answered_by_def by (elim exE conjE, intro exI conjI, rule waits_trans)

lemma answered_believable:
  assumes "answered_by F env fd request t1 tr0 tr r" "last_sent q tr0 = request"
  shows "believable q tr"
proof -
  obtain u bs b where u: "waits tr0 u" "tr = u @ (Sn_Recv fd 48, Sn_Bytes bs) # b" "good_reply request (take 48 bs)"
    using assms(1) unfolding answered_by_def by blast
  have "last_sent q u = request" using waits_sent [OF u(1)] assms(2) by simp
  then show ?thesis using u(2,3) by (simp add: believable_append)
qed

definition explained :: "'f doubles \<Rightarrow> sn_env \<Rightarrow> int \<Rightarrow> byte list \<Rightarrow> 'f \<Rightarrow> sn_trace \<Rightarrow> sn_trace \<Rightarrow> 'f outcome \<Rightarrow> bool" where
  "explained F env fd request t1 tr tr' got \<longleftrightarrow> waits tr tr' \<and>
     (\<forall>offset delay stratum. got = Answer offset delay stratum \<longrightarrow> answered_by F env fd request t1 tr tr' got)"

lemma query_wait_parts:
  assumes "query_wait F L env fd request t1 deadline tr = Some (Inr (got, tr'))"
  shows "explained F env fd request t1 tr tr' got"
proof -
  define P where "P = (\<lambda>(F :: 'a doubles) (L :: sn_libc) env fd request t1 (deadline :: 'a) tr (r :: d_fault + 'a outcome \<times> sn_trace).
    \<forall>got tr'. r = Inr (got, tr') \<longrightarrow> explained F env fd request t1 tr tr' got)"
  have "P F L env fd request t1 deadline tr (Inr (got, tr'))"
  proof (rule query_wait.raw_induct [of P, OF _ assms], goal_cases)
    case (1 f F L env fd request t1 deadline tr r)
    show ?case
    proof (cases "query_turn F L env fd request t1 deadline tr")
      case (Inl e)
      then show ?thesis using 1(2) by (auto simp: P_def)
    next
      case (Inr x)
      obtain got tr1 where x: "x = (got, tr1)" by (cases x)
      have "waits tr (tr @ [(Sn_Clock, env tr Sn_Clock)])" by (rule waits_calls) simp_all
      note turn = waits_trans [OF this query_turn_parts [OF Inr [unfolded x], THEN conjunct1]]
        query_turn_parts [OF Inr [unfolded x], THEN conjunct2]
      show ?thesis
      proof (cases got)
        case None
        then have "P F L env fd request t1 deadline tr1 r" using 1 Inr x by simp
        then show ?thesis
          using turn waits_trans answered_by_trans unfolding P_def explained_def by metis
      next
        case (Some a)
        then have "r = Inr (a, tr1)" using 1(2) Inr x by simp
        then show ?thesis using turn Some by (simp add: P_def explained_def)
      qed
    qed
  qed
  then show ?thesis by (simp add: P_def)
qed

text \<open>An exchange: what an answer comes from.\<close>

lemma ntp_query_parts:
  assumes "ntp_query F L env fd timeout tr = Some (Inr (got, tr'))"
  shows "settles tr tr'"
    and "got = Answer offset delay stratum \<Longrightarrow>
      \<exists>stamp r. let t1 = time_in F (env tr Sn_Clock); request = request_packet stamp; tr1 = tr @ [(Sn_Clock, env tr Sn_Clock)] in
        unix_to_ntp F t1 = Inr stamp \<and> answered_by F env fd request t1 (tr1 @ [(Sn_Send fd request, r)]) tr' got"
proof -
  let ?t1 = "time_in F (env tr Sn_Clock)"
  let ?tr1 = "tr @ [(Sn_Clock, env tr Sn_Clock)]"
  obtain stamp where stamp: "unix_to_ntp F ?t1 = Inr stamp"
    using assms by (cases "unix_to_ntp F ?t1") (auto simp: ntp_query_def now_unix_def sn_ask_def Let_def)
  let ?call = "Sn_Send fd (request_packet stamp)"
  let ?tr2 = "?tr1 @ [(?call, env ?tr1 ?call)]"
  have 2: "settles tr ?tr2" by (simp add: settles_def)
  have "(\<exists>t. got = Broken \<and> tr' = sn_err env t ?tr2) \<or>
      query_wait F L env fd (request_packet stamp) ?t1 (d_add F ?t1 timeout) ?tr2 = Some (Inr (got, tr'))"
    using assms stamp
    by (cases "env ?tr1 ?call") (auto simp: ntp_query_def now_unix_def sn_ask_def Let_def)
  then show "settles tr tr'"
    and "got = Answer offset delay stratum \<Longrightarrow>
      \<exists>stamp r. let t1 = time_in F (env tr Sn_Clock); request = request_packet stamp; tr1 = tr @ [(Sn_Clock, env tr Sn_Clock)] in
        unix_to_ntp F t1 = Inr stamp \<and> answered_by F env fd request t1 (tr1 @ [(Sn_Send fd request, r)]) tr' got"
    using 2 stamp settles_trans [OF 2]
    by (auto dest!: query_wait_parts simp: explained_def waits_def Let_def)
qed

lemma ntp_queries_parts:
  assumes "ntp_queries F L env fd timeout n tr = Some (Inr (got, tr'))"
  shows "settles tr tr' \<and> (\<forall>offset delay stratum. got = Answer offset delay stratum \<longrightarrow> believable q tr')"
  using assms
proof (induction n arbitrary: tr)
  case (Suc n)
  show ?case
  proof (cases "ntp_query F L env fd timeout tr")
    case (Some x)
    then obtain got1 tr1 where x: "ntp_query F L env fd timeout tr = Some (Inr (got1, tr1))"
      using Suc(2) by (cases x) (auto split: prod.splits)
    note parts = ntp_query_parts [OF x]
    show ?thesis
    proof (cases "got1 = No_Answer")
      case True
      then show ?thesis using Suc x settles_trans [OF parts(1)] by fastforce
    next
      case False
      then have "got = got1" "tr' = tr1" using Suc(2) x by (cases got1; simp)+
      moreover have "believable q tr1" if "got1 = Answer offset delay stratum" for offset delay stratum
        using parts(2) [OF that] by (auto simp: Let_def intro!: answered_believable)
      ultimately show ?thesis using parts(1) by blast
    qed
  qed (use Suc(2) in simp)
qed simp

lemma report_settles: "report_set F L env quiet offset r tr = (code, tr') \<Longrightarrow> settles tr tr'"
  by (cases r) (auto simp: report_set_def)

lemma set_clock_parts:
  assumes "set_clock F L env quiet offset tr = Inr (code, tr')"
  shows "\<exists>a r b s n. tr' = a @ (Sn_Set_Clock s n, r) # b \<and> settles tr a \<and> filter is_set b = []"
proof -
  let ?tr1 = "tr @ [(Sn_Clock, env tr Sn_Clock)]"
  obtain s n r where "report_set F L env quiet offset r (?tr1 @ [(Sn_Set_Clock s n, r)]) = (code, tr')"
    using assms by (auto simp: set_clock_def now_unix_def sn_ask_def Let_def seqE_eq_Inr)
  from report_settles [OF this] have "settles (?tr1 @ [(Sn_Set_Clock s n, r)]) tr'" .
  then obtain b where b: "tr' = ?tr1 @ (Sn_Set_Clock s n, r) # b" "filter is_set b = []" by (auto simp: settles_def)
  have "settles tr ?tr1" by (simp add: settles_def)
  with b show ?thesis by blast
qed

definition set_rightly :: "bool \<Rightarrow> int \<Rightarrow> sn_trace \<Rightarrow> bool" where
  "set_rightly asked code tr \<longleftrightarrow> (code = 0 \<longrightarrow> believable [] tr) \<and> length (filter is_set tr) \<le> 1 \<and>
     (filter is_set tr \<noteq> [] \<longrightarrow> believable [] (takeWhile (\<lambda>x. \<not> is_set x) tr) \<and> asked)"

lemma rightly_unset: "settles [] tr \<Longrightarrow> (code = 0 \<Longrightarrow> believable [] tr) \<Longrightarrow> set_rightly asked code tr"
  by (auto simp: set_rightly_def settles_def)

lemma finish_rightly:
  assumes "sn_finish F L env opts server ip fd (Inr (got, tr)) = Inr (code, tr')" "settles [] tr"
    "\<And>offset delay stratum. got = Answer offset delay stratum \<Longrightarrow> believable [] tr"
  shows "set_rightly (sn_set opts) code tr'"
proof -
  define tr1 where "tr1 = snd (sn_ask env (Sn_Close fd) tr)"
  have 1: "settles tr tr1" unfolding tr1_def by (rule settles_ask) simp
  have start: "settles [] tr1" using settles_trans [OF assms(2) 1] .
  show ?thesis
  proof (cases got)
    case (Answer offset delay stratum)
    define tr2 where "tr2 = (if sn_quiet opts then tr1
                        else sn_out env (offset_line F server ip offset delay stratum) tr1)"
    have 2: "settles tr1 tr2" by (simp add: tr2_def)
    have end2: "settles [] tr2" by (rule settles_trans [OF start 2])
    have b: "believable [] tr2" using settles_believable [OF settles_trans [OF 1 2] assms(3) [OF Answer]] .
    have res: "(if sn_set opts then set_clock F L env (sn_quiet opts) offset tr2 else Inr (0, tr2)) = Inr (code, tr')"
      using assms(1) Answer by (cases "sn_quiet opts"; cases "sn_set opts"; simp add: sn_finish_def tr2_def tr1_def sn_ask_def Let_def)
    show ?thesis
    proof (cases "sn_set opts")
      case False
      then show ?thesis using res rightly_unset [OF end2 b] by simp
    next
      case True
      then have "set_clock F L env (sn_quiet opts) offset tr2 = Inr (code, tr')" using res by simp
      from set_clock_parts [OF this] obtain a r c s n where
        a: "tr' = a @ (Sn_Set_Clock s n, r) # c" "settles tr2 a" "filter is_set c = []" by blast
      have none: "filter is_set a = []" using settles_unset [OF a(2)] end2 by (simp add: settles_def)
      have "believable [] a" using settles_believable [OF a(2) b] .
      moreover have "takeWhile (\<lambda>x. \<not> is_set x) tr' = a"
        using none unfolding a(1) by (simp add: filter_empty_conv takeWhile_append2)
      ultimately show ?thesis using a none True by (simp add: set_rightly_def believable_append)
    qed
  next
    case No_Answer
    then have "code = 1 \<and> settles tr1 tr'" using assms(1) by (auto simp: sn_finish_def tr1_def sn_ask_def Let_def)
    then show ?thesis using rightly_unset [OF settles_trans [OF start]] by simp
  next
    case Broken
    then have "code = 1 \<and> tr' = tr1" using assms(1) by (auto simp: sn_finish_def tr1_def sn_ask_def Let_def)
    then show ?thesis using rightly_unset [OF start] by simp
  qed
qed

lemma scan_asked: "sn_scan F L cs s = Some s' \<Longrightarrow> sn_set s' \<Longrightarrow> sn_set s \<or> CHR ''s'' \<in> fst ` set cs"
  by (induction F L cs s rule: sn_scan.induct) (auto split: if_splits)

lemma server_settles: "sn_server env rest = (server, tr) \<Longrightarrow> settles [] tr"
  by (auto simp: sn_server_def dhcp_server_def sn_ask_def settles_def Let_def split: list.splits prod.splits option.splits)

lemma open_settles: "sn_open L env server a tr = (fd, tr') \<Longrightarrow> settles tr tr'"
  by (auto simp: sn_open_def sn_ask_def sn_err_def settles_def Let_def split: sn_reply.splits)

lemma resolve_settles: "sn_resolve L env host tr = (r, tr') \<Longrightarrow> settles tr tr'"
  by (auto simp: sn_resolve_def sn_ask_def sn_err_def settles_def Let_def split: option.splits sn_reply.splits)

text \<open>
  C19: The program sets the clock at most once, only when asked to with \<open>-s\<close>, and only after a datagram that
  answers its own request: a whole packet of a synchronized server of stratum 1 to 15 that carries the
  time the request was sent with. Without such a datagram it does not succeed, whatever the network delivers.
\<close>

theorem clock_only_from_answer:
  assumes "sntp_main F L env args = Some (Inr (code, tr))"
  shows "(code = 0 \<longrightarrow> believable [] tr) \<and> length (filter is_set tr) \<le> 1 \<and>
    (filter is_set tr \<noteq> [] \<longrightarrow> believable [] (takeWhile (\<lambda>x. \<not> is_set x) tr) \<and>
       CHR ''s'' \<in> fst ` set (fst (sn_options L ''sqW:r:h'' args)))"
proof -
  obtain opts rest where opts: "sn_options L ''sqW:r:h'' args = (opts, rest)" by (cases "sn_options L ''sqW:r:h'' args")
  let ?ok = "set_rightly (CHR ''s'' \<in> fst ` set opts) code tr"
  note main = assms [unfolded sntp_main_def opts Let_def prod.case]
  have stop: ?ok if "Some (Inr (c, t)) = Some (Inr (code, tr))" "c \<noteq> 0" "settles [] t" for c t
    using that rightly_unset [of tr code] by simp
  have ?ok
  proof (cases "sn_scan F L opts (sn_defaults F)")
    case None
    then show ?thesis using main stop [of 2 "sn_err env sn_usage []"] by auto
  next
    case s: (Some s)
    have asked: "sn_set s \<Longrightarrow> CHR ''s'' \<in> fst ` set opts" using scan_asked [OF s] by (simp add: sn_defaults_def)
    obtain server tr1 where server: "sn_server env rest = (server, tr1)" by (cases "sn_server env rest")
    obtain addr tr2 where addr: "sn_resolve L env server tr1 = (addr, tr2)" by (cases "sn_resolve L env server tr1")
    have 2: "settles [] tr2" by (rule settles_trans [OF server_settles [OF server] resolve_settles [OF addr]])
    note main = main [unfolded s option.case server addr prod.case]
    show ?thesis
    proof (cases "1 < length rest \<or> addr = None")
      case True
      then show ?thesis using main stop [of 2 "sn_err env sn_usage []"] stop [OF _ _ 2] by (auto split: if_splits)
    next
      case False
      then obtain a where a: "addr = Some a" by blast
      obtain fd tr3 where fd: "sn_open L env server a tr2 = (fd, tr3)" by (cases "sn_open L env server a tr2")
      have 3: "settles [] tr3" by (rule settles_trans [OF 2 open_settles [OF fd]])
      show ?thesis
      proof (cases fd)
        case None
        then show ?thesis using main False a fd stop [OF _ _ 3] by simp
      next
        case (Some n)
        then obtain got tr4 where q: "ntp_queries F L env n (sn_timeout s) (nat (sn_retries s)) tr3 = Some (Inr (got, tr4))"
          "sn_finish F L env s server (ip4 a) n (Inr (got, tr4)) = Inr (code, tr)"
          using main False a fd by (auto simp: sn_finish_def seqE_eq_Inr)
        note parts = ntp_queries_parts [OF q(1)]
        have "set_rightly (sn_set s) code tr"
          using finish_rightly [OF q(2) settles_trans [OF 3]] parts by blast
        then show ?thesis using asked by (auto simp: set_rightly_def)
      qed
    qed
  qed
  then show ?thesis by (simp add: set_rightly_def opts)
qed

section \<open>How exact the offset is\<close>

text \<open>Times from 1970 to 2104, between which a time stamp says everything but its last part of a second.\<close>

definition stamped :: "(string \<Rightarrow> rat) \<Rightarrow> (nat \<Rightarrow> rat \<Rightarrow> string) \<Rightarrow> rat \<Rightarrow> byte list \<Rightarrow> bool" where
  "stamped rd tx t bs \<longleftrightarrow> 0 \<le> t \<and> t < 4233462144 \<and> unix_to_ntp (exact rd tx) t = Inr bs"

lemma length_htonl [simp]: "length (htonl w) = 4"
  by (simp add: htonl_def)

lemma stamp_read:
  assumes "stamped rd tx t bs"
  shows "ntp_to_unix (exact rd tx) bs \<le> t \<and> t - ntp_to_unix (exact rd tx) bs < 1 / 2 ^ 32"
proof -
  let ?F = "exact rd tx"
  define x where "x = t + of_int NTP_UNIX_OFFSET"
  define whole where "whole = nat \<lfloor>x\<rfloor>"
  define part where "part = (x - of_nat whole) * 4294967296"
  have t: "0 \<le> t" "t < 4233462144" using assms by (auto simp: stamped_def)
  then have x: "2208988800 \<le> x" "x < 6442450944" by (auto simp: x_def NTP_UNIX_OFFSET_def)
  have fl: "2208988800 \<le> \<lfloor>x\<rfloor>" "\<lfloor>x\<rfloor> < 6442450944"
    using x by (simp_all add: le_floor_iff floor_less_iff)
  have w: "int whole = \<lfloor>x\<rfloor>" using fl by (simp add: whole_def)
  have part: "0 \<le> part" "part < 2 ^ 32"
  proof -
    have "of_nat whole = (of_int \<lfloor>x\<rfloor> :: rat)" using w by (metis of_int_of_nat_eq)
    then have "0 \<le> x - of_nat whole" "x - of_nat whole < 1" using floor_correct [of x] by linarith+
    then show "0 \<le> part" "part < 2 ^ 32" unfolding part_def by simp_all
  qed
  have u64: "to_u64 ?F x = Inr whole" unfolding whole_def by (rule exact_u64) (use x in auto)
  have u32: "to_u32 ?F part = Inr (nat \<lfloor>part\<rfloor>)" by (rule exact_u32 [OF part])
  have bs: "bs = htonl (of_nat whole) @ htonl (of_nat (nat \<lfloor>part\<rfloor>))"
    using assms u64 u32 by (simp add: stamped_def unix_to_ntp_def x_def part_def)
  have "\<lfloor>part\<rfloor> < 2 ^ 32" "0 \<le> \<lfloor>part\<rfloor>" using part by (simp_all add: floor_less_iff)
  then have fraction: "uint (of_nat (nat \<lfloor>part\<rfloor>) :: 32 word) = \<lfloor>part\<rfloor>"
    by (simp add: uint_word_of_int)
  have u32': "uint (of_nat whole :: 32 word) = int whole mod 2 ^ 32" by (simp add: unsigned_of_nat take_bit_eq_mod zmod_int)
  then have seconds: "(let s = uint (of_nat whole :: 32 word) in if s < 0x80000000 then s + 0x100000000 else s) = int whole"
  proof (cases "int whole < 2 ^ 32")
    case True
    then have "int whole mod 2 ^ 32 = int whole" by (intro mod_pos_pos_trivial) auto
    then show ?thesis using u32' fl(1) w by (simp add: Let_def)
  next
    case False
    then have "(int whole - 2 ^ 32) mod 2 ^ 32 = int whole - 2 ^ 32" using fl(2) w by (intro mod_pos_pos_trivial) auto
    then have "int whole mod 2 ^ 32 = int whole - 2 ^ 32" by (simp add: minus_mod_self2)
    then show ?thesis using u32' fl(2) w by (simp add: Let_def)
  qed
  have read: "ntp_to_unix ?F bs = of_int (int whole - NTP_UNIX_OFFSET) + of_int \<lfloor>part\<rfloor> / 4294967296"
    using seconds fraction fl w by (simp add: ntp_to_unix_def bs ntohl_htonl NTP_UNIX_OFFSET_def Let_def split: if_splits)
  have "t = of_int (int whole - NTP_UNIX_OFFSET) + part / 4294967296" by (simp add: part_def x_def field_simps)
  then have "t - ntp_to_unix ?F bs = (part - of_int \<lfloor>part\<rfloor>) / 4294967296" using read by (simp add: diff_divide_distrib)
  moreover have "0 \<le> part - of_int \<lfloor>part\<rfloor>" "part - of_int \<lfloor>part\<rfloor> < 1" using floor_correct [of part] by linarith+
  then have "0 \<le> (part - of_int \<lfloor>part\<rfloor>) / 4294967296" "(part - of_int \<lfloor>part\<rfloor>) / 4294967296 < 1 / 2 ^ 32" by simp_all
  ultimately show ?thesis by linarith
qed

text \<open>
  A server whose clock is \<open>\<theta>\<close> seconds ahead answers a request sent at \<open>t1\<close> with the times at which it got the
  request and sent the answer, after the one and before the other has been on its way.
\<close>

definition answers_honestly ::
  "(string \<Rightarrow> rat) \<Rightarrow> (nat \<Rightarrow> rat \<Rightarrow> string) \<Rightarrow> sn_env \<Rightarrow> int \<Rightarrow> rat \<Rightarrow> rat \<Rightarrow> bool" where
  "answers_honestly rd tx env fd t1 \<theta> \<longleftrightarrow>
     (\<forall>tr bs stamp. env tr (Sn_Recv fd 48) = Sn_Bytes bs \<and> unix_to_ntp (exact rd tx) t1 = Inr stamp \<and>
        answers_request (request_packet stamp) (take 48 bs) \<longrightarrow>
        (\<exists>a b. stamped rd tx a (field 32 8 (take 48 bs)) \<and> stamped rd tx b (field 40 8 (take 48 bs)) \<and> t1 + \<theta> \<le> a \<and>
           b \<le> time_in (exact rd tx) (env (tr @ [(Sn_Recv fd 48, Sn_Bytes bs)]) Sn_Clock) + \<theta>))"

lemma offset_bound:
  assumes "2 * offset = t2 - t1 + (t3 - t4)" "delay = t4 - t1 - (t3 - t2)" "t2 \<le> a" "a - t2 < e" "t3 \<le> b" "(0 :: rat) < e"
    "t1 + \<theta> \<le> a" "b \<le> t4 + \<theta>"
  shows "\<bar>offset - \<theta>\<bar> < delay / 2 + e"
proof -
  have "offset - \<theta> < delay / 2 + e" "- (offset - \<theta>) < delay / 2 + e" using assms by linarith+
  then show ?thesis unfolding abs_less_iff by blast
qed

text \<open>
  C20: In exact arithmetic, the offset that an exchange reports is off from the true difference of the clocks
  by less than half the delay it reports and the resolution of a time stamp, however the delay is
  divided between the two ways.
\<close>

theorem offset_within_delay:
  assumes "answers_honestly rd tx env fd (time_in (exact rd tx) (env tr Sn_Clock)) \<theta>"
    "ntp_query (exact rd tx) L env fd timeout tr = Some (Inr (Answer offset delay stratum, tr'))"
  shows "\<bar>offset - \<theta>\<bar> < delay / 2 + 1 / 2 ^ 32"
proof -
  let ?F = "exact rd tx"
  let ?t1 = "time_in ?F (env tr Sn_Clock)"
  obtain stamp tr0 where stamp: "unix_to_ntp ?F ?t1 = Inr stamp"
    and "answered_by ?F env fd (request_packet stamp) ?t1 tr0 tr' (Answer offset delay stratum)"
    using ntp_query_parts(2) [OF assms(2) refl] unfolding Let_def by blast
  then obtain u bs where bs: "env u (Sn_Recv fd 48) = Sn_Bytes bs" "good_reply (request_packet stamp) (take 48 bs)"
    and ans: "Answer offset delay stratum =
      answer_of ?F ?t1 (time_in ?F (env (u @ [(Sn_Recv fd 48, Sn_Bytes bs)]) Sn_Clock)) (take 48 bs)"
    unfolding answered_by_def by blast
  define t4 where "t4 = time_in ?F (env (u @ [(Sn_Recv fd 48, Sn_Bytes bs)]) Sn_Clock)"
  define t2 where "t2 = ntp_to_unix ?F (field 32 8 (take 48 bs))"
  define t3 where "t3 = ntp_to_unix ?F (field 40 8 (take 48 bs))"
  obtain a b where ab: "stamped rd tx a (field 32 8 (take 48 bs))" "stamped rd tx b (field 40 8 (take 48 bs))"
    "?t1 + \<theta> \<le> a" "b \<le> t4 + \<theta>"
    using assms(1) bs stamp unfolding answers_honestly_def good_reply_def t4_def by blast
  have "2 * offset = (t2 - ?t1) + (t3 - t4)" "delay = (t4 - ?t1) - (t3 - t2)"
    using ans by (simp_all add: answer_of_def t2_def t3_def t4_def Let_def)
  moreover have "t2 \<le> a" "a - t2 < 1 / 2 ^ 32" "t3 \<le> b"
    using stamp_read [OF ab(1)] stamp_read [OF ab(2)] unfolding t2_def t3_def by blast+
  moreover have "0 < 1 / (2 :: rat) ^ 32" by simp
  ultimately show ?thesis by (rule offset_bound [OF _ _ _ _ _ _ ab(3,4)])
qed

section \<open>Every run ends\<close>

text \<open>The clock passes any time, whatever else is called.\<close>

definition clock_runs :: "sn_env \<Rightarrow> bool" where
  "clock_runs env \<longleftrightarrow> (\<forall>t :: rat. \<exists>k. \<forall>tr. k \<le> length tr \<longrightarrow> t \<le> time_in (exact (\<lambda>_. 0) (\<lambda>_ _. [])) (env tr Sn_Clock))"

lemma time_in_exact: "time_in (exact rd tx) r = time_in (exact rd' tx') r"
  by (cases r) simp_all

lemma query_turn_longer:
  "query_turn F L env fd request t1 deadline tr = Inr (got, tr') \<Longrightarrow> length tr < length tr'"
  by (drule query_turn_parts) (auto simp: waits_def)

text \<open>When the time is over a turn ends the loop.\<close>

lemma query_wait_returns:
  assumes "clock_runs env"
  shows "\<exists>r. query_wait (exact rd tx) L env fd request t1 deadline tr = Some r"
proof -
  obtain k where k: "\<And>tr. k \<le> length tr \<Longrightarrow> deadline \<le> time_in (exact rd tx) (env tr Sn_Clock)"
    using assms time_in_exact unfolding clock_runs_def by metis
  show ?thesis
  proof (induction "k - length tr" arbitrary: tr rule: less_induct)
    case less
    show ?case
    proof (cases "query_turn (exact rd tx) L env fd request t1 deadline tr")
      case (Inr x)
      obtain got tr1 where x: "x = (got, tr1)" by (cases x)
      show ?thesis
      proof (cases got)
        case None
        then have "\<not> k \<le> length tr"
          using Inr x k [of tr] by (auto simp: query_turn_def now_unix_def sn_ask_def Let_def)
        then have "k - length tr1 < k - length tr" using query_turn_longer [OF Inr [unfolded x]] by linarith
        from less [OF this] show ?thesis using Inr x None by (subst query_wait.simps) simp
      qed (subst query_wait.simps, simp add: Inr x)
    qed (subst query_wait.simps, simp)
  qed
qed

lemma ntp_query_returns:
  assumes "clock_runs env"
  shows "\<exists>r. ntp_query (exact rd tx) L env fd timeout tr = Some r"
  using query_wait_returns [OF assms]
  by (auto simp: ntp_query_def now_unix_def sn_ask_def Let_def split: sum.split sn_reply.split)

lemma ntp_queries_returns:
  assumes "clock_runs env"
  shows "\<exists>r. ntp_queries (exact rd tx) L env fd timeout n tr = Some r"
proof (induction n arbitrary: tr)
  case (Suc n)
  obtain r where "ntp_query (exact rd tx) L env fd timeout tr = Some r" using ntp_query_returns [OF assms] by blast
  with Suc show ?case by (auto split: sum.split outcome.split)
qed simp

text \<open>In exact arithmetic every run of the program ends, as long as the clock advances.\<close>

theorem sntp_returns:
  assumes "clock_runs env"
  shows "\<exists>r. sntp_main (exact rd tx) L env args = Some r"
proof -
  obtain server tr1 addr tr2 where 1: "sn_server env (snd (sn_options L ''sqW:r:h'' args)) = (server, tr1)"
    "sn_resolve L env server tr1 = (addr, tr2)" by (metis surj_pair)
  obtain fd tr3 where 2: "sn_open L env server (the addr) tr2 = (fd, tr3)" by (metis surj_pair)
  show ?thesis
    using 1 2 ntp_queries_returns [OF assms]
    by (cases addr; cases fd) (fastforce simp: sntp_main_def Let_def split: option.splits prod.splits)+
qed

section \<open>A run\<close>

text \<open>A server ten seconds ahead that answers at once, asked by \<open>sntp -s 192.0.2.1\<close>.\<close>

definition ten_ahead :: sn_env where
  "ten_ahead tr c =
     (case c of
        Sn_Clock \<Rightarrow> Sn_Time 2000000000 0
      | Sn_Socket \<Rightarrow> Sn_Number 3
      | Sn_Poll fd ms \<Rightarrow> Sn_Number 1
      | Sn_Recv fd n \<Rightarrow>
          Sn_Bytes (0x24 # 2 # replicate 22 0 @ field 40 8 (last_sent [] tr) @ [0xFA, 0xE0, 0x12, 0x8A, 0, 0, 0, 0] @
             [0xFA, 0xE0, 0x12, 0x8A, 0, 0, 0, 0])
      | _ \<Rightarrow> Sn_Number 0)"

definition ten_libc :: sn_libc where
  "ten_libc = \<lparr>sn_strerror = (\<lambda>_. []), sn_gai_strerror = (\<lambda>_. []), sn_pton = (\<lambda>_. Some [192, 0, 2, 1]), sn_strtol = (\<lambda>_. 0),
     sn_options = (\<lambda>_ args. ([(CHR ''s'', [])], [''192.0.2.1''])), sn_eintr = 4\<rparr>"

abbreviation plain :: "rat doubles" where "plain \<equiv> exact (\<lambda>_. 0) (\<lambda>_ _. [])"

lemma ten_stamps:
  "unix_to_ntp plain 2000000000 = Inr [0xFA, 0xE0, 0x12, 0x80, 0, 0, 0, 0]"
  "unix_to_ntp plain 2000000010 = Inr [0xFA, 0xE0, 0x12, 0x8A, 0, 0, 0, 0]"
  by (simp_all add: unix_to_ntp_def NTP_UNIX_OFFSET_def to_u64_def to_range_def to_u32_def htonl_def)

lemma ten_server:
  "ntp_to_unix plain [0xFA, 0xE0, 0x12, 0x8A, 0, 0, 0, 0] = 2000000010"
  by (simp add: ntp_to_unix_def NTP_UNIX_OFFSET_def ntohl_def)

definition ten_request :: "byte list" where "ten_request = request_packet [0xFA, 0xE0, 0x12, 0x80, 0, 0, 0, 0]"

definition ten_reply :: "byte list" where
  "ten_reply = 0x24 # 2 # replicate 22 0 @ [0xFA, 0xE0, 0x12, 0x80, 0, 0, 0, 0] @ [0xFA, 0xE0, 0x12, 0x8A, 0, 0, 0, 0] @
     [0xFA, 0xE0, 0x12, 0x8A, 0, 0, 0, 0]"

lemma ten_good: "good_reply ten_request ten_reply" "length ten_reply = 48" "ten_reply ! Suc 0 = 2"
  "field 32 8 ten_reply = [0xFA, 0xE0, 0x12, 0x8A, 0, 0, 0, 0]" "field 40 8 ten_reply = [0xFA, 0xE0, 0x12, 0x8A, 0, 0, 0, 0]"
  by code_simp+

lemma ten_answer: "answer_of plain 2000000000 2000000000 ten_reply = Answer 10 0 2"
  by (simp add: answer_of_def ten_good ten_server Let_def)

lemma ten_receives: "last_sent [] tr = ten_request \<Longrightarrow> ten_ahead tr (Sn_Recv fd n) = Sn_Bytes ten_reply"
  by (simp add: ten_ahead_def ten_reply_def ten_request_def request_packet_def field_def eval_nat_numeral)

lemma ten_now: "now_unix plain ten_ahead tr = (2000000000, tr @ [(Sn_Clock, Sn_Time 2000000000 0)])"
  by (simp add: now_unix_def sn_ask_def ten_ahead_def Let_def)

definition ten_events :: sn_trace where
  "ten_events = [(Sn_Clock, Sn_Time 2000000000 0), (Sn_Send 3 ten_request, Sn_Number 0), (Sn_Clock, Sn_Time 2000000000 0),
     (Sn_Poll 3 2001, Sn_Number 1), (Sn_Recv 3 48, Sn_Bytes ten_reply), (Sn_Clock, Sn_Time 2000000000 0)]"

lemma ten_turn:
  assumes "last_sent [] tr = ten_request"
  shows "query_turn plain ten_libc ten_ahead 3 ten_request 2000000000 2000000002 tr = Inr (Some (Answer 10 0 2), tr @ drop 2 ten_events)"
proof -
  have ready: "ten_ahead u (Sn_Poll 3 2001) = Sn_Number 1" for u by (simp add: ten_ahead_def)
  have ms: "wait_ms plain 2 = Inr 2001" by (simp add: wait_ms_def to_int32_def to_range_def)
  have "ten_ahead (tr @ [(Sn_Clock, Sn_Time 2000000000 0), (Sn_Poll 3 2001, Sn_Number 1)]) (Sn_Recv 3 48) = Sn_Bytes ten_reply"
    by (rule ten_receives) (simp add: assms)
  moreover have "read_answer plain ten_libc ten_ahead ten_request 2000000000 (Sn_Bytes ten_reply) 2000000000 u =
      (Some (Answer 10 0 2), u)" for u
    using ten_good ten_answer by (simp add: read_answer_def good_reply_def Let_def)
  ultimately show ?thesis
    by (simp add: query_turn_def ten_now sn_ask_def ms ready ten_events_def Let_def)
qed

lemma ten_query: "ntp_query plain ten_libc ten_ahead 3 2 tr = Some (Inr (Answer 10 0 2, tr @ ten_events))"
proof -
  let ?tr = "tr @ take 2 ten_events"
  have sent: "ten_ahead u (Sn_Send 3 ten_request) = Sn_Number 0" for u by (simp add: ten_ahead_def)
  have "query_turn plain ten_libc ten_ahead 3 ten_request 2000000000 2000000002 ?tr =
      Inr (Some (Answer 10 0 2), ?tr @ drop 2 ten_events)"
    by (rule ten_turn) (simp add: ten_events_def)
  then have "query_wait plain ten_libc ten_ahead 3 ten_request 2000000000 2000000002 ?tr = Some (Inr (Answer 10 0 2, tr @ ten_events))"
    by (subst query_wait.simps) simp
  then show ?thesis
    by (simp add: ntp_query_def ten_now ten_stamps sn_ask_def sent Let_def ten_events_def flip: ten_request_def)
qed

lemma ten_finish:
  assumes "sn_set opts"
  shows "\<exists>tr'. sn_finish plain ten_libc ten_ahead opts server ip 3 (Inr (Answer 10 0 2, tr)) = Inr (0, tr') \<and> filter is_set tr' \<noteq> []"
proof -
  have set: "ten_ahead u (Sn_Set_Clock 2000000010 0) = Sn_Number 0" for u by (simp add: ten_ahead_def)
  have "\<exists>tr'. set_clock plain ten_libc ten_ahead quiet 10 u = Inr (0, tr') \<and> filter is_set tr' \<noteq> []" for quiet u
    by (simp add: set_clock_def ten_now to_int64_def to_range_def sn_ask_def set report_set_def sn_out_def Let_def)
  then show ?thesis using assms by (simp add: sn_finish_def Let_def split: prod.split)
qed

lemma ten_main: "\<exists>tr. sntp_main plain ten_libc ten_ahead [] = Some (Inr (0, tr)) \<and> filter is_set tr \<noteq> []"
proof -
  let ?opts = "(sn_defaults plain)\<lparr>sn_set := True\<rparr>"
  have opts: "sn_options ten_libc ''sqW:r:h'' [] = ([(CHR ''s'', [])], [''192.0.2.1''])" by (simp add: ten_libc_def)
  have scan: "sn_scan plain ten_libc [(CHR ''s'', [])] (sn_defaults plain) = Some ?opts" by (simp add: sn_defaults_def)
  have addr: "sn_resolve ten_libc ten_ahead server tr = (Some [192, 0, 2, 1], tr)" for server tr
    by (simp add: sn_resolve_def ten_libc_def)
  have "\<exists>tr'. sn_open ten_libc ten_ahead server a tr = (Some 3, tr')" for server a tr
    by (simp add: sn_open_def sn_ask_def ten_ahead_def Let_def)
  then obtain tr1 where op: "sn_open ten_libc ten_ahead ''192.0.2.1'' [192, 0, 2, 1] [] = (Some 3, tr1)" by blast
  have n: "nat (sn_retries ?opts) = Suc 2" "sn_timeout ?opts = 2" by (simp_all add: sn_defaults_def)
  have q: "ntp_queries plain ten_libc ten_ahead 3 2 (Suc 2) tr1 = Some (Inr (Answer 10 0 2, tr1 @ ten_events))"
    unfolding ntp_queries.simps ten_query by simp
  have "sntp_main plain ten_libc ten_ahead [] =
      Some (sn_finish plain ten_libc ten_ahead ?opts ''192.0.2.1'' (ip4 [192, 0, 2, 1]) 3 (Inr (Answer 10 0 2, tr1 @ ten_events)))"
    unfolding sntp_main_def opts Let_def prod.case scan option.case n
    using op q by (simp add: sn_server_def addr)
  then show ?thesis using ten_finish [of ?opts] by simp
qed

theorem clock_only_from_answer_witness:
  "\<exists>tr. sntp_main plain ten_libc ten_ahead [] = Some (Inr (0, tr)) \<and> length (filter is_set tr) = 1 \<and>
     believable [] (takeWhile (\<lambda>x. \<not> is_set x) tr)"
proof -
  obtain tr where run: "sntp_main plain ten_libc ten_ahead [] = Some (Inr (0, tr))" and "filter is_set tr \<noteq> []"
    using ten_main by blast
  then show ?thesis using clock_only_from_answer [OF run] by (cases "filter is_set tr") auto
qed

theorem offset_within_delay_witness:
  "\<bar>10 - 10\<bar> < (0 :: rat) / 2 + 1 / 2 ^ 32 \<and> ntp_query plain ten_libc ten_ahead 3 2 [] = Some (Inr (Answer 10 0 2, ten_events))"
proof -
  have now: "time_in plain (ten_ahead tr Sn_Clock) = 2000000000" for tr by (simp add: ten_ahead_def)
  have "answers_honestly (\<lambda>_. 0) (\<lambda>_ _. []) ten_ahead 3 2000000000 10"
    unfolding answers_honestly_def now
  proof (intro allI impI, elim conjE)
    fix tr bs stamp
    assume "ten_ahead tr (Sn_Recv 3 48) = Sn_Bytes bs" and rep: "answers_request (request_packet stamp) (take 48 bs)"
    then have bs: "bs = 0x24 # 2 # replicate 22 0 @ field 40 8 (last_sent [] tr) @ [0xFA, 0xE0, 0x12, 0x8A, 0, 0, 0, 0] @
             [0xFA, 0xE0, 0x12, 0x8A, 0, 0, 0, 0]" by (simp add: ten_ahead_def)
    define sent where "sent = field 40 8 (last_sent [] tr)"
    have "length sent = 8" using rep by (simp add: bs answers_request_def sent_def) (simp add: field_def)
    then have "field 32 8 (take 48 bs) = [0xFA, 0xE0, 0x12, 0x8A, 0, 0, 0, 0]" "field 40 8 (take 48 bs) = [0xFA, 0xE0, 0x12, 0x8A, 0, 0, 0, 0]"
      unfolding bs sent_def [symmetric] by (simp_all add: field_def)
    then show "\<exists>a b. stamped (\<lambda>_. 0) (\<lambda>_ _. []) a (field 32 8 (take 48 bs)) \<and> stamped (\<lambda>_. 0) (\<lambda>_ _. []) b (field 40 8 (take 48 bs)) \<and>
        2000000000 + 10 \<le> a \<and> b \<le> 2000000000 + 10"
      using ten_stamps by (intro exI [of _ 2000000010]) (simp add: stamped_def)
  qed
  then have honest: "answers_honestly (\<lambda>_. 0) (\<lambda>_ _. []) ten_ahead 3 (time_in plain (ten_ahead [] Sn_Clock)) 10" by (simp add: now)
  have "ntp_query plain ten_libc ten_ahead 3 2 [] = Some (Inr (Answer 10 0 2, ten_events))" using ten_query [of "[]"] by simp
  then show ?thesis using offset_within_delay [OF honest, of ten_libc 2 10 0 2 ten_events] by simp
qed

end
