(* ===== verification/Ping.thy ===== *)
theory Ping
  imports Resolver_Answers Floating
begin

text \<open>
  \<open>src/net-tools/src/ping.c\<close>: sends requests, counts the replies and prints statistics. The kernel, the
  network and the user, who may interrupt, answer from all calls and answers so far; the parser of the
  options, of addresses and of numbers and the texts of errors are those of the C library. The counters
  of type \<open>long\<close> are mathematical integers.
\<close>

section \<open>Calls and state\<close>

datatype pg_call = Pg_Clock | Pg_Stop | Pg_Lookup string | Pg_Socket | Pg_Send int "byte list" "byte list" | Pg_Poll int int
  | Pg_Recv int nat | Pg_Close int | Pg_Out string | Pg_Err string

text \<open>A result; \<open>errno\<close>; a time; that the socket is readable; a datagram with its sender; an address.\<close>

datatype pg_reply = Pg_Number int | Pg_Failed int | Pg_Time int int | Pg_Readable | Pg_Datagram "byte list" "byte list"
  | Pg_Address "byte list"

type_synonym pg_trace = "(pg_call \<times> pg_reply) list"
type_synonym pg_env = "pg_trace \<Rightarrow> pg_call \<Rightarrow> pg_reply"

record pg_libc =
  pg_strerror :: "int \<Rightarrow> string"
  pg_gai_strerror :: "int \<Rightarrow> string"
  pg_pton :: "string \<Rightarrow> byte list option"
  pg_strtol :: "string \<Rightarrow> int"
  pg_options :: "string \<Rightarrow> string list \<Rightarrow> (char \<times> string) list \<times> string list"

text \<open>
  \<open>sentAt\<close> is the array \<open>sent_at\<close> of 65536 entries, whose index is always a number of 16 bits; 0 is an
  entry of a request that was answered or not sent.
\<close>

record 'f ping =
  sentAt :: "nat \<Rightarrow> 'f"
  transmitted :: int
  received :: int
  duplicates :: int
  errors :: int
  rttMin :: 'f
  rttMax :: 'f
  rttSum :: 'f
  rttSum2 :: 'f
  nextSend :: 'f
  giveUp :: 'f
  pgRun :: pg_trace

record 'f pg_opts =
  pgCount :: int
  pgInterval :: 'f
  pgTimeout :: 'f
  pgSize :: int
  pgQuiet :: bool

definition MAX_PAYLOAD :: nat where "MAX_PAYLOAD = 65499"

definition pg_ask :: "pg_env \<Rightarrow> pg_call \<Rightarrow> pg_trace \<Rightarrow> pg_reply \<times> pg_trace" where
  "pg_ask env c tr = (let r = env tr c in (r, tr @ [(c, r)]))"

definition pg_out :: "pg_env \<Rightarrow> string \<Rightarrow> pg_trace \<Rightarrow> pg_trace" where
  "pg_out env s tr = snd (pg_ask env (Pg_Out (s @ eol)) tr)"

definition pg_err :: "pg_env \<Rightarrow> string \<Rightarrow> pg_trace \<Rightarrow> pg_trace" where
  "pg_err env s tr = snd (pg_ask env (Pg_Err (s @ eol)) tr)"

fun ms_in :: "'f doubles \<Rightarrow> pg_reply \<Rightarrow> 'f" where
  "ms_in F (Pg_Time s n) = d_add F (d_mul F (d_int F s) (d_int F 1000)) (d_div F (d_int F n) (d_int F 1000000))"
| "ms_in F _ = d_int F 0"

definition now_ms :: "'f doubles \<Rightarrow> pg_env \<Rightarrow> pg_trace \<Rightarrow> 'f \<times> pg_trace" where
  "now_ms F env tr = (let (r, tr) = pg_ask env Pg_Clock tr in (ms_in F r, tr))"

text \<open>The comparison with 0.\<close>

definition d_zero :: "'f doubles \<Rightarrow> 'f \<Rightarrow> bool" where
  "d_zero F x \<longleftrightarrow> d_le F x (d_int F 0) \<and> d_le F (d_int F 0) x"

section \<open>A request\<close>

definition sequence_of :: "int \<Rightarrow> nat" where "sequence_of sent = nat ((sent + 1) mod 65536)"

definition echo_request :: "nat \<Rightarrow> int \<Rightarrow> byte list" where
  "echo_request seq len = [8, 0, 0, 0, 0, 0, of_nat (seq div 256), of_nat seq] @ map (\<lambda>i. of_nat (i + 8)) [0..<nat len]"

text \<open>How long to wait after the last request.\<close>

definition last_wait :: "'f doubles \<Rightarrow> 'f pg_opts \<Rightarrow> 'f \<Rightarrow> 'f" where
  "last_wait F opts slowest =
     (if d_le F (d_int F 0) (pgTimeout opts) then d_mul F (pgTimeout opts) (d_int F 1000)
      else let twice = d_mul F slowest (d_int F 2) in if d_less F (d_int F 2000) twice then twice else d_int F 2000)"

definition ping_send :: "'f doubles \<Rightarrow> pg_libc \<Rightarrow> pg_env \<Rightarrow> 'f pg_opts \<Rightarrow> int \<Rightarrow> byte list \<Rightarrow> 'f \<Rightarrow> 'f ping \<Rightarrow> 'f ping" where
  "ping_send F L env opts fd dest now s =
     (let seq = sequence_of (transmitted s);
          (r, tr) = pg_ask env (Pg_Send fd (echo_request seq (pgSize opts)) dest) (pgRun s);
          s = (case r of
                 Pg_Failed e \<Rightarrow> s\<lparr>errors := errors s + 1, pgRun := pg_err env (''ping: sendto: '' @ pg_strerror L e) tr\<rparr>
               | _ \<Rightarrow> s\<lparr>sentAt := (sentAt s)(seq := now), pgRun := tr\<rparr>);
          s = s\<lparr>transmitted := transmitted s + 1, nextSend := d_add F now (d_mul F (pgInterval opts) (d_int F 1000))\<rparr>
      in if 0 \<le> pgCount opts \<and> transmitted s = pgCount opts then s\<lparr>giveUp := d_add F now (last_wait F opts (rttMax s))\<rparr> else s)"

section \<open>A reply\<close>

definition long_text :: "int \<Rightarrow> string" where
  "long_text n = (if n < 0 then ''-'' @ decimal (nat (- n)) else decimal (nat n))"

definition reply_line :: "nat \<Rightarrow> byte list \<Rightarrow> nat \<Rightarrow> string \<Rightarrow> string" where
  "reply_line n from seq rest = decimal n @ '' bytes from '' @ ip4 from @ '': icmp_seq='' @ decimal seq @ rest"

definition ping_receive :: "'f doubles \<Rightarrow> pg_env \<Rightarrow> 'f pg_opts \<Rightarrow> int \<Rightarrow> 'f ping \<Rightarrow> 'f ping" where
  "ping_receive F env opts fd s =
     (let (r, tr) = pg_ask env (Pg_Recv fd (8 + MAX_PAYLOAD + 64)) (pgRun s); (t, tr) = now_ms F env tr; s = s\<lparr>pgRun := tr\<rparr>
      in case r of
           Pg_Datagram from bs \<Rightarrow>
             let bs = take (8 + MAX_PAYLOAD + 64) bs; n = length bs
             in if n < 8 \<or> bs ! 0 \<noteq> 0 then s
                else let seq = 256 * unat (bs ! 6) + unat (bs ! 7)
                     in if d_zero F (sentAt s seq)
                        then s\<lparr>duplicates := duplicates s + 1,
                               pgRun := (if pgQuiet opts then tr else pg_out env (reply_line n from seq '' (DUP!)'') tr)\<rparr>
                        else let rtt = d_sub F t (sentAt s seq)
                             in s\<lparr>sentAt := (sentAt s)(seq := d_int F 0), received := received s + 1,
                                  rttMin := (if d_less F rtt (rttMin s) then rtt else rttMin s),
                                  rttMax := (if d_less F (rttMax s) rtt then rtt else rttMax s),
                                  rttSum := d_add F (rttSum s) rtt, rttSum2 := d_add F (rttSum2 s) (d_mul F rtt rtt),
                                  pgRun := (if pgQuiet opts then tr
                                            else pg_out env (reply_line n from seq ('' time='' @ d_text F 3 rtt @ '' ms'')) tr)\<rparr>
         | _ \<Rightarrow> s)"

section \<open>The loop\<close>

definition send_due :: "'f doubles \<Rightarrow> 'f pg_opts \<Rightarrow> 'f \<Rightarrow> 'f ping \<Rightarrow> bool" where
  "send_due F opts now s \<longleftrightarrow> (pgCount opts < 0 \<or> transmitted s < pgCount opts) \<and> d_le F (nextSend s) now"

definition all_sent :: "'f pg_opts \<Rightarrow> 'f ping \<Rightarrow> bool" where
  "all_sent opts s \<longleftrightarrow> 0 \<le> pgCount opts \<and> transmitted s = pgCount opts"

definition ping_over :: "'f doubles \<Rightarrow> 'f pg_opts \<Rightarrow> 'f \<Rightarrow> 'f ping \<Rightarrow> bool" where
  "ping_over F opts now s \<longleftrightarrow> all_sent opts s \<and> (pgCount opts \<le> received s + errors s \<or> d_le F (giveUp s) now)"

text \<open>Waiting for a reply, until the next request is due or the last reply too late.\<close>

definition ping_wait :: "'f doubles \<Rightarrow> pg_env \<Rightarrow> 'f pg_opts \<Rightarrow> int \<Rightarrow> 'f ping \<Rightarrow> d_fault + 'f ping" where
  "ping_wait F env opts fd s =
     (let until = (if all_sent opts s then giveUp s else nextSend s); (later, tr) = now_ms F env (pgRun s)
      in seqE (to_int32 F (d_sub F until later)) (\<lambda>ms.
           let (r, tr) = pg_ask env (Pg_Poll fd (max ms 0)) tr; s = s\<lparr>pgRun := tr\<rparr>
           in Inr (if r = Pg_Readable then ping_receive F env opts fd s else s)))"

text \<open>A turn of the loop: whether it ends.\<close>

definition ping_turn ::
  "'f doubles \<Rightarrow> pg_libc \<Rightarrow> pg_env \<Rightarrow> 'f pg_opts \<Rightarrow> int \<Rightarrow> byte list \<Rightarrow> 'f ping \<Rightarrow> d_fault + bool \<times> 'f ping" where
  "ping_turn F L env opts fd dest s =
     (let (now, tr) = now_ms F env (pgRun s); s = s\<lparr>pgRun := tr\<rparr>;
          s = (if send_due F opts now s then ping_send F L env opts fd dest now s else s)
      in if ping_over F opts now s then Inr (True, s) else map_sum id (Pair False) (ping_wait F env opts fd s))"

text \<open>
  Without \<open>-c\<close> the loop runs until the user interrupts it, so it is a partial function.
\<close>

partial_function (option) ping_loop ::
  "'f doubles \<Rightarrow> pg_libc \<Rightarrow> pg_env \<Rightarrow> 'f pg_opts \<Rightarrow> int \<Rightarrow> byte list \<Rightarrow> 'f ping \<Rightarrow> (d_fault + 'f ping) option" where
  "ping_loop F L env opts fd dest s =
     (let r = env (pgRun s) Pg_Stop; s = s\<lparr>pgRun := pgRun s @ [(Pg_Stop, r)]\<rparr>
      in if r \<noteq> Pg_Number 0 then Some (Inr s)
         else case ping_turn F L env opts fd dest s of
                Inl e \<Rightarrow> Some (Inl e)
              | Inr x \<Rightarrow> if fst x then Some (Inr (snd x)) else ping_loop F L env opts fd dest (snd x))"

section \<open>The program\<close>

text \<open>C's division of integers that are not negative, or of a negative number by a positive one.\<close>

definition loss :: "'f ping \<Rightarrow> int" where
  "loss s = (if transmitted s \<noteq> 0
     then let n = (transmitted s - received s) * 100 in if 0 \<le> n then n div transmitted s else - (- n div transmitted s)
     else 0)"

fun newton :: "'f doubles \<Rightarrow> nat \<Rightarrow> 'f \<Rightarrow> 'f \<Rightarrow> 'f" where
  "newton F 0 var m = m"
| "newton F (Suc n) var m = newton F n var (d_mul F (d_div F (d_int F 1) (d_int F 2)) (d_add F m (d_div F var m)))"

definition round_trips :: "'f doubles \<Rightarrow> 'f ping \<Rightarrow> string" where
  "round_trips F s =
     (let n = d_int F (received s); avg = d_div F (rttSum s) n;
          var = d_sub F (d_div F (rttSum2 s) n) (d_mul F avg avg);
          mdev = (if d_less F (d_int F 0) var then newton F 30 var var else d_int F 0)
      in ''rtt min/avg/max/mdev = '' @ d_text F 3 (rttMin s) @ ''/'' @ d_text F 3 avg @ ''/'' @ d_text F 3 (rttMax s) @ ''/'' @
         d_text F 3 mdev @ '' ms'')"

definition counts_line :: "'f doubles \<Rightarrow> 'f \<Rightarrow> 'f ping \<Rightarrow> string" where
  "counts_line F elapsed s =
     long_text (transmitted s) @ '' packets transmitted, '' @ long_text (received s) @ '' received'' @
     (if duplicates s \<noteq> 0 then '', +'' @ long_text (duplicates s) @ '' duplicates'' else []) @
     (if errors s \<noteq> 0 then '', +'' @ long_text (errors s) @ '' errors'' else []) @
     '', '' @ long_text (loss s) @ ''% packet loss, time '' @ d_text F 0 elapsed @ ''ms''"

fun pg_scan :: "'f doubles \<Rightarrow> pg_libc \<Rightarrow> (char \<times> string) list \<Rightarrow> 'f pg_opts \<Rightarrow> 'f pg_opts option" where
  "pg_scan F L [] s = Some s"
| "pg_scan F L ((c, arg) # cs) s =
     (if c = CHR ''c'' then if pg_strtol L arg \<le> 0 then None else pg_scan F L cs (s\<lparr>pgCount := pg_strtol L arg\<rparr>)
      else if c = CHR ''i''
      then let least = d_div F (d_int F 1) (d_int F 100); i = d_read F arg
           in pg_scan F L cs (s\<lparr>pgInterval := (if d_less F i least then least else i)\<rparr>)
      else if c = CHR ''s''
      then if pg_strtol L arg < 0 \<or> int MAX_PAYLOAD < pg_strtol L arg then None else pg_scan F L cs (s\<lparr>pgSize := pg_strtol L arg\<rparr>)
      else if c = CHR ''W'' then pg_scan F L cs (s\<lparr>pgTimeout := d_read F arg\<rparr>)
      else if c = CHR ''q'' then pg_scan F L cs (s\<lparr>pgQuiet := True\<rparr>)
      else None)"

definition pg_resolve :: "pg_libc \<Rightarrow> pg_env \<Rightarrow> string \<Rightarrow> pg_trace \<Rightarrow> byte list option \<times> pg_trace" where
  "pg_resolve L env host tr =
     (case pg_pton L host of
        Some a \<Rightarrow> (Some a, tr)
      | None \<Rightarrow>
          let (r, tr) = pg_ask env (Pg_Lookup host) tr
          in case r of
               Pg_Address a \<Rightarrow> (Some a, tr)
             | Pg_Failed rc \<Rightarrow> (None, pg_err env (''ping: '' @ host @ '': '' @ pg_gai_strerror L rc) tr)
             | _ \<Rightarrow> (None, pg_err env (''ping: '' @ host @ '': no address'') tr))"

definition pg_defaults :: "'f doubles \<Rightarrow> 'f pg_opts" where
  "pg_defaults F = \<lparr>pgCount = - 1, pgInterval = d_int F 1, pgTimeout = d_neg F (d_int F 1), pgSize = 56, pgQuiet = False\<rparr>"

definition pg_start :: "'f doubles \<Rightarrow> 'f \<Rightarrow> pg_trace \<Rightarrow> 'f ping" where
  "pg_start F now tr =
     \<lparr>sentAt = (\<lambda>_. d_int F 0), transmitted = 0, received = 0, duplicates = 0, errors = 0, rttMin = d_int F (10 ^ 18),
      rttMax = d_int F 0, rttSum = d_int F 0, rttSum2 = d_int F 0, nextSend = now, giveUp = d_int F 0, pgRun = tr\<rparr>"

definition ping_report :: "'f doubles \<Rightarrow> pg_env \<Rightarrow> string \<Rightarrow> 'f \<Rightarrow> int \<Rightarrow> 'f ping \<Rightarrow> int \<times> pg_trace" where
  "ping_report F env host began fd s =
     (let (now, tr) = now_ms F env (pgRun s);
          tr = pg_out env (eol @ ''--- '' @ host @ '' ping statistics ---'') tr;
          tr = pg_out env (counts_line F (d_sub F now began) s) tr;
          tr = (if received s \<noteq> 0 then pg_out env (round_trips F s) tr else tr)
      in (if received s \<noteq> 0 then 0 else 1, snd (pg_ask env (Pg_Close fd) tr)))"

definition pg_usage :: string where "pg_usage = ''usage: ping [-c count] [-i interval] [-s size] [-W timeout] [-q] host''"

definition ping_main :: "'f doubles \<Rightarrow> pg_libc \<Rightarrow> pg_env \<Rightarrow> string list \<Rightarrow> (d_fault + int \<times> pg_trace) option" where
  "ping_main F L env args =
     (let (opts, rest) = pg_options L ''c:i:s:W:qh'' args
      in case (pg_scan F L opts (pg_defaults F), rest) of
           (Some opts, [host]) \<Rightarrow>
             (let (dest, tr) = pg_resolve L env host []
              in case dest of
                   None \<Rightarrow> Some (Inr (2, tr))
                 | Some dest \<Rightarrow>
                     let (r, tr) = pg_ask env Pg_Socket tr
                     in case r of
                          Pg_Failed e \<Rightarrow> Some (Inr (2, pg_err env (''ping: socket: '' @ pg_strerror L e) tr))
                        | _ \<Rightarrow>
                            let fd = (case r of Pg_Number n \<Rightarrow> n | _ \<Rightarrow> 0);
                                tr = pg_out env (''PING '' @ host @ '' ('' @ ip4 dest @ '') '' @ long_text (pgSize opts) @ ''('' @
                                       long_text (pgSize opts + 28) @ '') bytes of data.'') tr;
                                (began, tr) = now_ms F env tr
                            in map_option (map_sum id (ping_report F env host began fd))
                                 (ping_loop F L env opts fd dest (pg_start F began tr)))
         | _ \<Rightarrow> Some (Inr (2, pg_err env pg_usage [])))"

end
