(* ===== verification/Ping_Results.thy ===== *)
theory Ping_Results
  imports Ping
begin

text \<open>
  The statistics \<open>ping\<close> prints are those of the run: of the requests sent and refused and the replies read.
  With \<open>-c\<close> every run ends, as long as the clock advances.
\<close>

section \<open>What is counted\<close>

fun is_request :: "pg_call \<times> pg_reply \<Rightarrow> bool" where
  "is_request (Pg_Send fd bs dest, r) \<longleftrightarrow> True"
| "is_request _ \<longleftrightarrow> False"

fun is_refused :: "pg_call \<times> pg_reply \<Rightarrow> bool" where
  "is_refused (Pg_Send fd bs dest, Pg_Failed e) \<longleftrightarrow> True"
| "is_refused _ \<longleftrightarrow> False"

fun is_echo :: "pg_call \<times> pg_reply \<Rightarrow> bool" where
  "is_echo (Pg_Recv fd n, Pg_Datagram from bs) \<longleftrightarrow> 8 \<le> length bs \<and> bs ! 0 = 0"
| "is_echo _ \<longleftrightarrow> False"

definition requests :: "pg_trace \<Rightarrow> nat" where "requests tr = length (filter is_request tr)"
definition refused :: "pg_trace \<Rightarrow> nat" where "refused tr = length (filter is_refused tr)"
definition echos :: "pg_trace \<Rightarrow> nat" where "echos tr = length (filter is_echo tr)"

lemma counted [simp]:
  "requests (a @ b) = requests a + requests b" "requests [] = 0" "requests (x # b) = (if is_request x then 1 else 0) + requests b"
  "refused (a @ b) = refused a + refused b" "refused [] = 0" "refused (x # b) = (if is_refused x then 1 else 0) + refused b"
  "echos (a @ b) = echos a + echos b" "echos [] = 0" "echos (x # b) = (if is_echo x then 1 else 0) + echos b"
  by (simp_all add: requests_def refused_def echos_def)

text \<open>Calls that are not counted.\<close>

definition aside :: "pg_trace \<Rightarrow> pg_trace \<Rightarrow> bool" where
  "aside tr tr' \<longleftrightarrow> length tr \<le> length tr' \<and> requests tr' = requests tr \<and> refused tr' = refused tr \<and> echos tr' = echos tr"

lemma aside_trans: "aside a b \<Longrightarrow> aside b c \<Longrightarrow> aside a c" by (simp add: aside_def)

lemma aside_prints [simp]: "aside tr (pg_out env s tr)" "aside tr (pg_err env s tr)" "aside tr tr"
  by (simp_all add: aside_def pg_out_def pg_err_def pg_ask_def Let_def)

lemma aside_now: "now_ms F env tr = (t, tr') \<Longrightarrow> aside tr tr'"
  by (auto simp: aside_def now_ms_def pg_ask_def Let_def)

section \<open>The invariant\<close>

text \<open>The requests that are not answered yet.\<close>

definition pending :: "'f doubles \<Rightarrow> (nat \<Rightarrow> 'f) \<Rightarrow> nat set" where
  "pending F a = {q. q < 65536 \<and> \<not> d_zero F (a q)}"

definition ping_ok :: "'f doubles \<Rightarrow> 'f pg_opts \<Rightarrow> 'f ping \<Rightarrow> bool" where
  "ping_ok F opts s \<longleftrightarrow> 0 \<le> received s \<and> 0 \<le> duplicates s \<and>
     received s + errors s + int (card (pending F (sentAt s))) \<le> transmitted s \<and> (0 \<le> pgCount opts \<longrightarrow> transmitted s \<le> pgCount opts) \<and>
     transmitted s = int (requests (pgRun s)) \<and> errors s = int (refused (pgRun s)) \<and>
     received s + duplicates s = int (echos (pgRun s))"

lemma finite_pending [simp]: "finite (pending F s)"
  by (simp add: pending_def)

lemma ok_aside: "ping_ok F opts s \<Longrightarrow> aside (pgRun s) tr \<Longrightarrow> ping_ok F opts (s\<lparr>pgRun := tr\<rparr>)"
  by (auto simp: ping_ok_def aside_def)

lemma pending_sent: "card (pending F (a(q := t))) \<le> Suc (card (pending F a))"
proof -
  have "card (pending F (a(q := t))) \<le> card (insert q (pending F a))"
    by (rule card_mono) (auto simp: pending_def)
  also have "\<dots> \<le> Suc (card (pending F a))" by (rule card_insert_le_m1) simp_all
  finally show ?thesis .
qed

lemma pending_answered:
  assumes "q < 65536" "\<not> d_zero F (a q)" "d_le F (d_int F 0) (d_int F 0)"
  shows "Suc (card (pending F (a(q := d_int F 0)))) = card (pending F a)"
proof -
  have "pending F (a(q := d_int F 0)) = pending F a - {q}"
    using assms(3) by (auto simp: pending_def d_zero_def)
  moreover have "q \<in> pending F a" using assms(1,2) by (simp add: pending_def)
  ultimately show ?thesis by (metis card_Suc_Diff1 finite_pending)
qed

text \<open>What sending does to the state.\<close>

lemma send_fields:
  "received (ping_send F L env opts fd dest now s) = received s"
  "duplicates (ping_send F L env opts fd dest now s) = duplicates s"
  "transmitted (ping_send F L env opts fd dest now s) = transmitted s + 1"
  "nextSend (ping_send F L env opts fd dest now s) = d_add F now (d_mul F (pgInterval opts) (d_int F 1000))"
  by (cases "env (pgRun s) (Pg_Send fd (echo_request (sequence_of (transmitted s)) (pgSize opts)) dest)";
      simp add: ping_send_def pg_ask_def Let_def)+

lemma send_ok:
  assumes "ping_ok F opts s" "pgCount opts < 0 \<or> transmitted s < pgCount opts"
  shows "ping_ok F opts (ping_send F L env opts fd dest now s)"
proof -
  define s' where "s' = ping_send F L env opts fd dest now s"
  define call where "call = Pg_Send fd (echo_request (sequence_of (transmitted s)) (pgSize opts)) dest"
  have counts: "received s' = received s" "duplicates s' = duplicates s" "transmitted s' = transmitted s + 1"
    by (simp_all add: s'_def send_fields)
  show ?thesis
  proof (cases "\<exists>e. env (pgRun s) call = Pg_Failed e")
    case True
    then obtain e where e: "env (pgRun s) call = Pg_Failed e" by blast
    then have "errors s' = errors s + 1" "sentAt s' = sentAt s"
      "pgRun s' = pg_err env (''ping: sendto: '' @ pg_strerror L e) (pgRun s @ [(call, Pg_Failed e)])"
      by (simp_all add: s'_def ping_send_def pg_ask_def call_def Let_def)
    then have "errors s' = errors s + 1" "sentAt s' = sentAt s" "aside (pgRun s @ [(call, Pg_Failed e)]) (pgRun s')" by simp_all
    then show ?thesis
      unfolding s'_def [symmetric] using assms counts by (auto simp: ping_ok_def aside_def call_def)
  next
    case False
    then have "errors s' = errors s" "sentAt s' = (sentAt s)(sequence_of (transmitted s) := now)"
      "pgRun s' = pgRun s @ [(call, env (pgRun s) call)]" "\<not> is_refused (call, env (pgRun s) call)"
      by (cases "env (pgRun s) call"; simp add: s'_def ping_send_def pg_ask_def call_def Let_def)+
    then show ?thesis
      unfolding s'_def [symmetric]
      using assms counts pending_sent [of F "sentAt s" "sequence_of (transmitted s)" now] by (auto simp: ping_ok_def call_def)
  qed
qed

text \<open>The three outcomes of reading a datagram.\<close>

lemma echo_number: "256 * unat (b :: byte) + unat (c :: byte) < 65536"
proof -
  have "unat b < 256" "unat c < 256" using unsigned_less [of b] unsigned_less [of c] by simp_all
  then show ?thesis by linarith
qed

lemma receive_ok:
  assumes "ping_ok F opts s" "d_le F (d_int F 0) (d_int F 0)"
  shows "ping_ok F opts (ping_receive F env opts fd s)"
proof -
  let ?call = "Pg_Recv fd (8 + MAX_PAYLOAD + 64)"
  let ?r = "env (pgRun s) ?call"
  define tr where "tr = snd (now_ms F env (pgRun s @ [(?call, ?r)]))"
  have tr: "aside (pgRun s @ [(?call, ?r)]) tr" unfolding tr_def by (rule aside_now) (rule surjective_pairing)
  have none: "ping_ok F opts (s\<lparr>pgRun := tr\<rparr>)" if "\<not> is_echo (?call, ?r)"
    using assms(1) tr that by (auto simp: ping_ok_def aside_def)
  show ?thesis
  proof (cases "is_echo (?call, ?r)")
    case False
    then have "ping_receive F env opts fd s = s\<lparr>pgRun := tr\<rparr>"
      by (cases ?r) (auto simp: ping_receive_def pg_ask_def tr_def MAX_PAYLOAD_def Let_def split: prod.splits)
    then show ?thesis using none [OF False] by simp
  next
    case True
    then obtain peer bs where r: "?r = Pg_Datagram peer bs" "8 \<le> length bs" "bs ! 0 = 0" by (cases ?r) auto
    define seq where "seq = 256 * unat (bs ! 6) + unat (bs ! 7)"
    have "seq < 65536" unfolding seq_def by (rule echo_number)
    show ?thesis
    proof (cases "d_zero F (sentAt s seq)")
      case zero: True
      let ?s = "ping_receive F env opts fd s"
      have "received ?s = received s" "duplicates ?s = duplicates s + 1" "errors ?s = errors s" "transmitted ?s = transmitted s"
        "sentAt ?s = sentAt s" "aside tr (pgRun ?s)"
        using r zero by (simp_all add: ping_receive_def pg_ask_def tr_def seq_def MAX_PAYLOAD_def min_less_iff_disj Let_def split: prod.split)
      then show ?thesis using assms(1) tr True by (auto simp: ping_ok_def aside_def)
    next
      case new: False
      let ?s = "ping_receive F env opts fd s"
      have "received ?s = received s + 1" "duplicates ?s = duplicates s" "errors ?s = errors s" "transmitted ?s = transmitted s"
        "sentAt ?s = (sentAt s)(seq := d_int F 0)" "aside tr (pgRun ?s)"
        using r new by (simp_all add: ping_receive_def pg_ask_def tr_def seq_def MAX_PAYLOAD_def min_less_iff_disj Let_def split: prod.split)
      then show ?thesis
        using assms(1) tr True pending_answered [where q = seq and a = "sentAt s", OF \<open>seq < 65536\<close> new assms(2)] by (auto simp: ping_ok_def aside_def)
    qed
  qed
qed

section \<open>A run\<close>

lemma wait_shape:
  assumes "ping_wait F env opts fd s = Inr s'" "now_ms F env (pgRun s) = (later, tr)"
  shows "\<exists>ms. s' = (let x = (Pg_Poll fd ms, env tr (Pg_Poll fd ms)); u = s\<lparr>pgRun := tr @ [x]\<rparr> in
    if snd x = Pg_Readable then ping_receive F env opts fd u else u)"
  using assms by (auto simp: ping_wait_def pg_ask_def seqE_eq_Inr Let_def simp del: if_split_asm)

lemma wait_ok:
  assumes "ping_ok F opts s" "d_le F (d_int F 0) (d_int F 0)" "ping_wait F env opts fd s = Inr s'"
  shows "ping_ok F opts s'"
proof -
  obtain later tr where later: "now_ms F env (pgRun s) = (later, tr)" by (cases "now_ms F env (pgRun s)")
  obtain ms where ms: "s' = (let x = (Pg_Poll fd ms, env tr (Pg_Poll fd ms)); u = s\<lparr>pgRun := tr @ [x]\<rparr> in
    if snd x = Pg_Readable then ping_receive F env opts fd u else u)" using wait_shape [OF assms(3) later] by blast
  have "aside (pgRun s) (tr @ [(Pg_Poll fd ms, env tr (Pg_Poll fd ms))])"
    using aside_now [OF later] by (auto simp: aside_def)
  note ok = ok_aside [OF assms(1) this]
  show ?thesis unfolding ms Let_def by (simp only: ok receive_ok [OF ok assms(2)] split: if_split) simp
qed

lemma turn_ok:
  assumes "ping_ok F opts s" "d_le F (d_int F 0) (d_int F 0)" "ping_turn F L env opts fd dest s = Inr (fin, s')"
  shows "ping_ok F opts s'"
proof -
  obtain now tr where now: "now_ms F env (pgRun s) = (now, tr)" by (cases "now_ms F env (pgRun s)")
  have 1: "ping_ok F opts (s\<lparr>pgRun := tr\<rparr>)" using ok_aside [OF assms(1) aside_now [OF now]] .
  define s1 where "s1 = (if send_due F opts now (s\<lparr>pgRun := tr\<rparr>) then ping_send F L env opts fd dest now (s\<lparr>pgRun := tr\<rparr>) else s\<lparr>pgRun := tr\<rparr>)"
  have s1: "ping_ok F opts s1" using 1 send_ok [OF 1] by (auto simp: s1_def send_due_def)
  have "(if ping_over F opts now s1 then Inr (True, s1) else map_sum id (Pair False) (ping_wait F env opts fd s1)) = Inr (fin, s')"
    using assms(3) unfolding ping_turn_def now Let_def prod.case s1_def .
  then show ?thesis
    using s1 wait_ok [OF s1 assms(2)] by (cases "ping_wait F env opts fd s1") (auto split: if_splits)
qed

lemma loop_ok:
  assumes "ping_loop F L env opts fd dest s = Some (Inr s')" "ping_ok F opts s" "d_le F (d_int F 0) (d_int F 0)"
  shows "ping_ok F opts s'"
proof -
  define P where "P = (\<lambda>(F :: 'a doubles) (L :: pg_libc) (env :: pg_env) opts (fd :: int) (dest :: byte list) s (r :: d_fault + 'a ping).
    ping_ok F opts s \<and> d_le F (d_int F 0) (d_int F 0) \<longrightarrow> (\<forall>s'. r = Inr s' \<longrightarrow> ping_ok F opts s'))"
  have "P F L env opts fd dest s (Inr s')"
  proof (rule ping_loop.raw_induct [of P, OF _ assms(1)], goal_cases)
    case (1 f F L env opts fd dest s r)
    let ?s = "s\<lparr>pgRun := pgRun s @ [(Pg_Stop, env (pgRun s) Pg_Stop)]\<rparr>"
    have start: "ping_ok F opts ?s" if "ping_ok F opts s" by (rule ok_aside [OF that]) (simp add: aside_def)
    show ?case
    proof (cases "env (pgRun s) Pg_Stop = Pg_Number 0")
      case False
      then show ?thesis using 1(2) start by (auto simp: P_def Let_def)
    next
      case True
      show ?thesis
      proof (cases "ping_turn F L env opts fd dest ?s")
        case (Inl e)
        then show ?thesis using 1(2) True by (auto simp: P_def Let_def)
      next
        case (Inr x)
        obtain fin s2 where x: "x = (fin, s2)" by (cases x)
        have turn: "ping_ok F opts s2" if "ping_ok F opts s" "d_le F (d_int F 0) (d_int F 0)"
          using turn_ok [OF start [OF that(1)] that(2)] Inr x by blast
        show ?thesis
        proof (cases fin)
          case True
          then have "r = Inr s2" using 1(2) Inr x \<open>env (pgRun s) Pg_Stop = Pg_Number 0\<close> by (simp add: Let_def)
          then show ?thesis using turn by (simp add: P_def)
        next
          case False
          then have "f F L env opts fd dest s2 = Some r" using 1(2) Inr x True by (simp add: Let_def)
          then have "P F L env opts fd dest s2 r" by (rule 1(1))
          then show ?thesis using turn unfolding P_def by blast
        qed
      qed
    qed
  qed
  then show ?thesis using assms(2,3) by (simp add: P_def)
qed

text \<open>The share of the requests that were not answered is a percentage.\<close>

lemma loss_percent:
  assumes "0 \<le> received s" "received s \<le> transmitted s"
  shows "0 \<le> loss s \<and> loss s \<le> 100"
proof (cases "transmitted s = 0")
  case False
  then have pos: "0 < transmitted s" using assms by linarith
  have n: "0 \<le> (transmitted s - received s) * 100" "(transmitted s - received s) * 100 \<le> 100 * transmitted s" using assms by auto
  have "(transmitted s - received s) * 100 div transmitted s \<le> 100 * transmitted s div transmitted s"
    by (rule zdiv_mono1 [OF n(2) pos])
  moreover have "100 * transmitted s div transmitted s = 100" using pos by simp
  moreover have "0 \<le> (transmitted s - received s) * 100 div transmitted s" using n(1) pos by (simp only: pos_imp_zdiv_nonneg_iff)
  ultimately show ?thesis using n(1) False by (simp only: loss_def Let_def if_True simp_thms)
qed (simp add: loss_def)

lemma start_ok:
  assumes "d_le F (d_int F 0) (d_int F 0)" "requests tr = 0" "refused tr = 0" "echos tr = 0" "pgCount opts < 0 \<or> 0 < pgCount opts"
  shows "ping_ok F opts (pg_start F now tr)"
  using assms by (auto simp: ping_ok_def pg_start_def pending_def d_zero_def)

lemma scan_count:
  "pg_scan F L cs s = Some s' \<Longrightarrow> pgCount s < 0 \<or> 0 < pgCount s \<Longrightarrow> pgCount s' < 0 \<or> 0 < pgCount s'"
  by (induction F L cs s rule: pg_scan.induct) (auto simp: Let_def split: if_splits)

lemma resolve_aside: "pg_resolve L env host tr = (r, tr') \<Longrightarrow> aside tr tr'"
  by (auto simp: pg_resolve_def pg_ask_def pg_err_def aside_def Let_def split: option.splits pg_reply.splits)

text \<open>The report prints the counters, and calls nothing that is counted.\<close>

lemma report_parts:
  assumes "ping_report F env host began fd s = (code, tr')"
  shows "aside (pgRun s) tr'" "code = (if received s \<noteq> 0 then 0 else 1)"
    "\<exists>elapsed. Pg_Out (counts_line F elapsed s @ eol) \<in> fst ` set tr'"
proof -
  obtain now tr where now: "now_ms F env (pgRun s) = (now, tr)" by (cases "now_ms F env (pgRun s)")
  define tr1 where "tr1 = pg_out env (eol @ ''--- '' @ host @ '' ping statistics ---'') tr"
  define tr2 where "tr2 = pg_out env (counts_line F (d_sub F now began) s) tr1"
  define tr3 where "tr3 = (if received s \<noteq> 0 then pg_out env (round_trips F s) tr2 else tr2)"
  have res: "code = (if received s \<noteq> 0 then 0 else 1)" "tr' = tr3 @ [(Pg_Close fd, env tr3 (Pg_Close fd))]"
    using assms unfolding ping_report_def now Let_def prod.case tr1_def [symmetric] tr2_def [symmetric] tr3_def [symmetric] pg_ask_def
    by simp_all
  then show "code = (if received s \<noteq> 0 then 0 else 1)" by blast
  have "aside tr1 tr2" "aside tr2 tr3" "aside tr tr1" by (simp_all add: tr1_def tr2_def tr3_def)
  then have "aside (pgRun s) tr3" using aside_now [OF now] aside_trans by blast
  then show "aside (pgRun s) tr'" unfolding res(2) by (simp add: aside_def)
  have "Pg_Out (counts_line F (d_sub F now began) s @ eol) \<in> fst ` set tr2" by (simp add: tr2_def pg_out_def pg_ask_def Let_def)
  moreover have "set tr2 \<subseteq> set tr3" by (auto simp: tr3_def pg_out_def pg_ask_def Let_def)
  ultimately show "\<exists>elapsed. Pg_Out (counts_line F elapsed s @ eol) \<in> fst ` set tr'" unfolding res(2) by auto
qed

text \<open>
  C21: When ping ends with other than a usage or address error, the statistics it prints are those of the
  run: the requests that were sent, those that were refused and the replies read, each counted once as
  an answer or as a duplicate. Every request is answered at most once, so no more are answered
  and refused than sent, the loss is between 0 and 100 percent, and the exit code is 0 exactly when
  there was an answer.
\<close>

theorem ping_statistics:
  assumes "d_le F (d_int F 0) (d_int F 0)" "ping_main F L env args = Some (Inr (code, tr))" "code \<noteq> 2"
  shows "\<exists>s elapsed. Pg_Out (counts_line F elapsed s @ eol) \<in> fst ` set tr \<and> transmitted s = int (requests tr) \<and>
    errors s = int (refused tr) \<and> received s + duplicates s = int (echos tr) \<and> 0 \<le> received s \<and> 0 \<le> duplicates s \<and>
    received s + errors s \<le> transmitted s \<and> 0 \<le> loss s \<and> loss s \<le> 100 \<and> (code = 0 \<longleftrightarrow> 0 < received s)"
proof -
  obtain cs rest where cs: "pg_options L ''c:i:s:W:qh'' args = (cs, rest)" by (cases "pg_options L ''c:i:s:W:qh'' args")
  note main = assms(2) [unfolded ping_main_def cs Let_def prod.case]
  obtain opts host where opts: "pg_scan F L cs (pg_defaults F) = Some opts" "rest = [host]"
    using main assms(3) by (auto split: option.splits list.splits)
  obtain dest' tr1 where dest': "pg_resolve L env host [] = (dest', tr1)" by (cases "pg_resolve L env host []")
  note main = main [unfolded opts prod.case option.case list.case dest']
  obtain dest where dest: "dest' = Some dest" using main assms(3) by (cases dest') auto
  let ?tr2 = "tr1 @ [(Pg_Socket, env tr1 Pg_Socket)]"
  note main = main [unfolded dest option.case pg_ask_def Let_def prod.case]
  define banner where "banner = ''PING '' @ host @ '' ('' @ ip4 dest @ '') '' @ long_text (pgSize opts) @ ''('' @ long_text (pgSize opts + 28) @ '') bytes of data.''"
  obtain began tr3 where began: "now_ms F env (pg_out env banner ?tr2) = (began, tr3)" by (cases "now_ms F env (pg_out env banner ?tr2)")
  have before: "aside ([] :: pg_trace) tr3"
    using aside_trans [OF aside_trans [OF resolve_aside [OF dest'], of ?tr2] aside_trans [OF aside_prints(1) aside_now [OF began]]]
    by (simp add: aside_def)
  obtain fd where run: "map_option (map_sum id (ping_report F env host began fd)) (ping_loop F L env opts fd dest (pg_start F began tr3)) = Some (Inr (code, tr))"
    using main [folded banner_def] assms(3) began by (auto split: pg_reply.splits)
  then obtain z where z: "ping_loop F L env opts fd dest (pg_start F began tr3) = Some z"
    "map_sum id (ping_report F env host began fd) z = Inr (code, tr)" by auto
  then obtain s where s: "ping_loop F L env opts fd dest (pg_start F began tr3) = Some (Inr s)" "ping_report F env host began fd s = (code, tr)"
    by (cases z) auto
  have "ping_ok F opts (pg_start F began tr3)"
    using before scan_count [OF opts(1)] by (intro start_ok assms(1)) (auto simp: aside_def pg_defaults_def)
  from loop_ok [OF s(1) this assms(1)] have ok: "ping_ok F opts s" .
  note parts = report_parts [OF s(2)]
  have "0 \<le> loss s \<and> loss s \<le> 100" by (rule loss_percent) (use ok in \<open>auto simp: ping_ok_def\<close>)
  moreover obtain elapsed where "Pg_Out (counts_line F elapsed s @ eol) \<in> fst ` set tr" using parts(3) by blast
  moreover have "transmitted s = int (requests tr)" "errors s = int (refused tr)" "received s + duplicates s = int (echos tr)"
    "0 \<le> received s" "0 \<le> duplicates s" "received s + errors s \<le> transmitted s" "code = 0 \<longleftrightarrow> 0 < received s"
    using ok parts(1,2) by (auto simp: ping_ok_def aside_def)
  ultimately show ?thesis by blast
qed

section \<open>Every run with -c ends\<close>

definition clock_passes :: "pg_env \<Rightarrow> bool" where
  "clock_passes env \<longleftrightarrow> (\<forall>t :: rat. \<exists>k. \<forall>tr. k \<le> length tr \<longrightarrow> t \<le> ms_in (exact (\<lambda>_. 0) (\<lambda>_ _. [])) (env tr Pg_Clock))"

lemma ms_in_exact: "ms_in (exact rd tx) r = ms_in (exact (\<lambda>_. 0) (\<lambda>_ _. [])) r"
  by (cases r) simp_all

lemma receive_fields:
  "transmitted (ping_receive F env opts fd s) = transmitted s" "nextSend (ping_receive F env opts fd s) = nextSend s"
  "giveUp (ping_receive F env opts fd s) = giveUp s" "length (pgRun s) \<le> length (pgRun (ping_receive F env opts fd s))"
proof -
  let ?call = "Pg_Recv fd 65571"
  obtain t tr where now: "now_ms F env (pgRun s @ [(?call, env (pgRun s) ?call)]) = (t, tr)" by fastforce
  have "length (pgRun s) \<le> length tr" using aside_now [OF now] by (simp add: aside_def)
  moreover have "length tr \<le> length (pg_out env l tr)" for l using aside_prints(1) by (simp add: aside_def)
  ultimately have le: "length (pgRun s) \<le> length tr" "length (pgRun s) \<le> length (pg_out env l tr)" for l
    using le_trans by blast+
  show "transmitted (ping_receive F env opts fd s) = transmitted s" "nextSend (ping_receive F env opts fd s) = nextSend s"
    "giveUp (ping_receive F env opts fd s) = giveUp s" "length (pgRun s) \<le> length (pgRun (ping_receive F env opts fd s))"
    using now le
    by (cases "env (pgRun s) ?call"; simp add: ping_receive_def pg_ask_def MAX_PAYLOAD_def Let_def)+
qed

lemma wait_fields:
  assumes "ping_wait F env opts fd s = Inr s'"
  shows "transmitted s' = transmitted s \<and> nextSend s' = nextSend s \<and> giveUp s' = giveUp s \<and> length (pgRun s) \<le> length (pgRun s')"
proof -
  obtain later tr where later: "now_ms F env (pgRun s) = (later, tr)" by (cases "now_ms F env (pgRun s)")
  obtain ms where ms: "s' = (let x = (Pg_Poll fd ms, env tr (Pg_Poll fd ms)); u = s\<lparr>pgRun := tr @ [x]\<rparr> in
    if snd x = Pg_Readable then ping_receive F env opts fd u else u)" using wait_shape [OF assms later] by blast
  have le: "length (pgRun s) \<le> length tr" using aside_now [OF later] by (simp add: aside_def)
  let ?u = "s\<lparr>pgRun := tr @ [(Pg_Poll fd ms, env tr (Pg_Poll fd ms))]\<rparr>"
  have "length (pgRun ?u) = Suc (length tr)" by simp
  then have "length tr < length (pgRun (ping_receive F env opts fd ?u))" using receive_fields(4) [of ?u F env opts fd] by linarith
  with le show ?thesis unfolding ms Let_def by (auto simp: receive_fields)
qed

lemma turn_progress:
  assumes "ping_turn F L env opts fd dest s = Inr (False, s')"
  shows "let now = ms_in F (env (pgRun s) Pg_Clock) in
    (if send_due F opts now s then transmitted s' = transmitted s + 1
     else transmitted s' = transmitted s \<and> nextSend s' = nextSend s \<and> giveUp s' = giveUp s \<and> length (pgRun s) < length (pgRun s') \<and>
       \<not> ping_over F opts now s)"
proof -
  let ?now = "ms_in F (env (pgRun s) Pg_Clock)"
  let ?tr = "pgRun s @ [(Pg_Clock, env (pgRun s) Pg_Clock)]"
  have now: "now_ms F env (pgRun s) = (?now, ?tr)" by (simp add: now_ms_def pg_ask_def Let_def)
  have due: "send_due F opts ?now (s\<lparr>pgRun := ?tr\<rparr>) = send_due F opts ?now s" by (simp add: send_due_def)
  define s1 where "s1 = (if send_due F opts ?now s then ping_send F L env opts fd dest ?now (s\<lparr>pgRun := ?tr\<rparr>) else s\<lparr>pgRun := ?tr\<rparr>)"
  have turn: "(if ping_over F opts ?now s1 then Inr (True, s1) else map_sum id (Pair False) (ping_wait F env opts fd s1)) = Inr (False, s')"
    using assms unfolding ping_turn_def now Let_def prod.case due s1_def [symmetric] .
  then have over: "\<not> ping_over F opts ?now s1" by (auto split: if_splits)
  with turn have "ping_wait F env opts fd s1 = Inr s'" by (cases "ping_wait F env opts fd s1") auto
  note w = wait_fields [OF this]
  show ?thesis
  proof (cases "send_due F opts ?now s")
    case True
    then show ?thesis using w by (simp add: s1_def send_fields Let_def)
  next
    case False
    moreover have "ping_over F opts ?now s1 = ping_over F opts ?now s" using False by (simp add: s1_def ping_over_def all_sent_def)
    ultimately show ?thesis using w over by (simp add: s1_def Let_def)
  qed
qed

lemma loop_step:
  assumes "\<And>s'. ping_turn F L env opts fd dest (s\<lparr>pgRun := pgRun s @ [(Pg_Stop, env (pgRun s) Pg_Stop)]\<rparr>) = Inr (False, s') \<Longrightarrow>
    \<exists>r. ping_loop F L env opts fd dest s' = Some r"
  shows "\<exists>r. ping_loop F L env opts fd dest s = Some r"
proof (cases "env (pgRun s) Pg_Stop = Pg_Number 0")
  case True
  let ?s = "s\<lparr>pgRun := pgRun s @ [(Pg_Stop, Pg_Number 0)]\<rparr>"
  show ?thesis
  proof (cases "ping_turn F L env opts fd dest ?s")
    case (Inr x)
    then show ?thesis using assms [of "snd x"] True by (cases x; cases "fst x"; subst ping_loop.simps) (auto simp: Let_def)
  qed (subst ping_loop.simps, simp add: True Let_def)
qed (subst ping_loop.simps, simp add: Let_def)

text \<open>
  In exact arithmetic, with \<open>-c\<close> every run ends as long as the clock advances, whether or not anyone answers.
\<close>

theorem ping_ends:
  assumes "clock_passes env" "transmitted s \<le> pgCount opts" "0 \<le> pgCount opts"
  shows "\<exists>r. ping_loop (exact rd tx) L env opts fd dest s = Some r"
  using assms(2)
proof (induction "nat (pgCount opts - transmitted s)" arbitrary: s rule: less_induct)
  case less
  note outer = less(1)
  let ?F = "exact rd tx"
  obtain k where k: "\<And>tr. k \<le> length tr \<Longrightarrow> max (nextSend s) (giveUp s) \<le> ms_in ?F (env tr Pg_Clock)"
    using assms(1) unfolding clock_passes_def ms_in_exact [of rd tx] by metis
  have "\<exists>r. ping_loop ?F L env opts fd dest u = Some r"
    if "transmitted u = transmitted s" "nextSend u = nextSend s" "giveUp u = giveUp s" for u
    using that
  proof (induction "k - length (pgRun u)" arbitrary: u rule: less_induct)
    case (less u)
    let ?u = "u\<lparr>pgRun := pgRun u @ [(Pg_Stop, env (pgRun u) Pg_Stop)]\<rparr>"
    let ?now = "ms_in ?F (env (pgRun ?u) Pg_Clock)"
    show ?case
    proof (rule loop_step)
      fix s' assume turn: "ping_turn ?F L env opts fd dest ?u = Inr (False, s')"
      note p = turn_progress [OF turn]
      show "\<exists>r. ping_loop ?F L env opts fd dest s' = Some r"
      proof (cases "send_due ?F opts ?now ?u")
        case True
        then have "transmitted s' = transmitted s + 1" "transmitted s < pgCount opts"
          using p less(2) assms(3) by (simp_all add: send_due_def Let_def)
        then show ?thesis by (intro outer) auto
      next
        case False
        then have same: "transmitted s' = transmitted s" "nextSend s' = nextSend s" "giveUp s' = giveUp s"
          and longer: "length (pgRun u) < length (pgRun s')" and over: "\<not> ping_over ?F opts ?now ?u"
          using p less(2-4) by (simp_all add: Let_def)
        have "length (pgRun u) < k"
        proof (rule ccontr)
          assume "\<not> length (pgRun u) < k"
          then have late: "nextSend s \<le> ?now" "giveUp s \<le> ?now" using k [of "pgRun ?u"] by simp_all
          show False
          proof (cases "transmitted s = pgCount opts")
            case True
            then show False using over late less(2-4) assms(3) by (simp add: ping_over_def all_sent_def)
          next
            case False
            then show False using \<open>\<not> send_due ?F opts ?now ?u\<close> late less(2-4) \<open>transmitted s \<le> pgCount opts\<close> by (simp add: send_due_def)
          qed
        qed
        then have "k - length (pgRun s') < k - length (pgRun u)" using longer by linarith
        from less(1) [OF this same] show ?thesis .
      qed
    qed
  qed
  then show ?case by blast
qed

section \<open>A short run\<close>

text \<open>A host that answers at once, asked by \<open>ping -q -c 1 192.0.2.1\<close>.\<close>

definition near_host :: pg_env where
  "near_host tr c =
     (case c of
        Pg_Clock \<Rightarrow> Pg_Time 1 0
      | Pg_Poll fd ms \<Rightarrow> Pg_Readable
      | Pg_Recv fd n \<Rightarrow> Pg_Datagram [192, 0, 2, 1] [0, 0, 0, 0, 0, 0, 0, 1]
      | _ \<Rightarrow> Pg_Number 0)"

definition near_libc :: pg_libc where
  "near_libc = \<lparr>pg_strerror = (\<lambda>_. []), pg_gai_strerror = (\<lambda>_. []), pg_pton = (\<lambda>_. Some [192, 0, 2, 1]), pg_strtol = (\<lambda>_. 1),
     pg_options = (\<lambda>_ args. ([(CHR ''q'', []), (CHR ''c'', ''1'')], [''192.0.2.1'']))\<rparr>"

abbreviation exactly :: "rat doubles" where "exactly \<equiv> exact (\<lambda>_. 0) (\<lambda>_ _. [])"

lemma near_now: "now_ms exactly near_host tr = (1000, tr @ [(Pg_Clock, Pg_Time 1 0)])"
  by (simp add: now_ms_def pg_ask_def near_host_def Let_def)

definition near_opts :: "rat pg_opts" where
  "near_opts = (pg_defaults exactly)\<lparr>pgQuiet := True, pgCount := 1\<rparr>"

lemma near_first:
  "\<exists>s. ping_turn exactly near_libc near_host near_opts 0 dest ((pg_start exactly 1000 tr)\<lparr>pgRun := u\<rparr>) = Inr (False, s) \<and>
     received s = 1 \<and> transmitted s = 1 \<and> errors s = 0"
  by (simp add: ping_turn_def near_now ping_send_def ping_wait_def ping_receive_def pg_ask_def near_host_def near_opts_def
      pg_defaults_def pg_start_def send_due_def all_sent_def ping_over_def last_wait_def to_int32_def to_range_def d_zero_def
      sequence_of_def MAX_PAYLOAD_def Let_def)

lemma near_over:
  assumes "received s = 1" "transmitted s = 1" "errors s = 0"
  shows "\<exists>s'. ping_turn exactly near_libc near_host near_opts 0 dest s = Inr (True, s') \<and> received s' = 1"
  using assms by (simp add: ping_turn_def near_now near_opts_def send_due_def all_sent_def ping_over_def Let_def)

lemma near_loop: "\<exists>s. ping_loop exactly near_libc near_host near_opts 0 dest (pg_start exactly 1000 tr) = Some (Inr s) \<and> received s = 1"
proof -
  have go: "near_host u Pg_Stop = Pg_Number 0" for u by (simp add: near_host_def)
  let ?s0 = "pg_start exactly 1000 tr"
  obtain s1 where s1: "ping_turn exactly near_libc near_host near_opts 0 dest
      (?s0\<lparr>pgRun := pgRun ?s0 @ [(Pg_Stop, Pg_Number 0)]\<rparr>) = Inr (False, s1)" "received s1 = 1" "transmitted s1 = 1" "errors s1 = 0"
    using near_first by blast
  obtain s2 where s2: "ping_turn exactly near_libc near_host near_opts 0 dest
      (s1\<lparr>pgRun := pgRun s1 @ [(Pg_Stop, Pg_Number 0)]\<rparr>) = Inr (True, s2)" "received s2 = 1"
    using near_over [of "s1\<lparr>pgRun := pgRun s1 @ [(Pg_Stop, Pg_Number 0)]\<rparr>"] s1 by auto
  have "ping_loop exactly near_libc near_host near_opts 0 dest s1 = Some (Inr s2)"
    by (subst ping_loop.simps) (simp add: go s2)
  then have "ping_loop exactly near_libc near_host near_opts 0 dest ?s0 = Some (Inr s2)"
    by (subst ping_loop.simps) (simp add: go s1)
  then show ?thesis using s2 by blast
qed

lemma near_main: "\<exists>tr. ping_main exactly near_libc near_host [] = Some (Inr (0, tr))"
proof -
  have opts: "pg_options near_libc ''c:i:s:W:qh'' [] = ([(CHR ''q'', []), (CHR ''c'', ''1'')], [''192.0.2.1''])" by (simp add: near_libc_def)
  have scan: "pg_scan exactly near_libc [(CHR ''q'', []), (CHR ''c'', ''1'')] (pg_defaults exactly) = Some near_opts"
    by (simp add: near_libc_def near_opts_def)
  have dest: "pg_resolve near_libc near_host ''192.0.2.1'' [] = (Some [192, 0, 2, 1], [])" by (simp add: pg_resolve_def near_libc_def)
  have sock: "near_host [] Pg_Socket = Pg_Number 0" by (simp add: near_host_def)
  define tr where "tr = pg_out near_host (''PING '' @ ''192.0.2.1'' @ '' ('' @ ip4 [192, 0, 2, 1] @ '') '' @ long_text (pgSize near_opts) @ ''('' @
       long_text (pgSize near_opts + 28) @ '') bytes of data.'') ([] @ [(Pg_Socket, Pg_Number 0)])"
  obtain s where s: "ping_loop exactly near_libc near_host near_opts 0 [192, 0, 2, 1] (pg_start exactly 1000 (tr @ [(Pg_Clock, Pg_Time 1 0)])) = Some (Inr s)"
    "received s = 1" using near_loop by blast
  have "ping_main exactly near_libc near_host [] = Some (Inr (ping_report exactly near_host ''192.0.2.1'' 1000 0 s))"
    unfolding ping_main_def opts Let_def prod.case scan option.case list.case dest pg_ask_def sock pg_reply.case tr_def [symmetric] near_now
    by (simp add: s)
  moreover have "fst (ping_report exactly near_host ''192.0.2.1'' 1000 0 s) = 0" using s(2) by (simp add: ping_report_def near_now Let_def)
  ultimately show ?thesis by (metis prod.collapse)
qed

theorem ping_statistics_witness:
  "\<exists>s elapsed tr. ping_main exactly near_libc near_host [] = Some (Inr (0, tr)) \<and> 0 < received s \<and> received s \<le> transmitted s \<and>
     Pg_Out (counts_line exactly elapsed s @ eol) \<in> fst ` set tr"
proof -
  obtain tr where run: "ping_main exactly near_libc near_host [] = Some (Inr (0, tr))" using near_main by blast
  have "d_le exactly (d_int exactly 0) (d_int exactly 0)" "(0 :: int) \<noteq> 2" by simp_all
  from ping_statistics [OF this(1) run this(2)] obtain s elapsed where
    s: "Pg_Out (counts_line exactly elapsed s @ eol) \<in> fst ` set tr" "received s + errors s \<le> transmitted s" "0 < received s"
    "errors s = int (refused tr)" by blast
  then have "received s \<le> transmitted s" by linarith
  with s run show ?thesis by blast
qed

end
