(* ===== verification/Small_Tools.thy ===== *)
theory Small_Tools
  imports Prelude
begin

text \<open>
  Three small programs: \<open>src/net-tools/src/dmesg.c\<close> prints the kernel's log, \<open>src/reboot/src/main.cpp\<close> restarts
  or powers off the machine, \<open>src/netsurf/src/netsurf.c\<close> starts the browser with the arguments for the screen.
  The kernel answers from all calls and answers so far.
\<close>

section \<open>The kernel\<close>

datatype sm_call = Sm_Log nat | Sm_Write string | Sm_Err string | Sm_Sleep nat | Sm_Reboot bool | Sm_Screen
  | Sm_Set_Env string string | Sm_Exec string "string list" | Sm_Alloc nat

datatype sm_reply = Sm_Number int | Sm_Text string | Sm_Size nat nat

type_synonym sm_trace = "(sm_call \<times> sm_reply) list"
type_synonym sm_env = "sm_trace \<Rightarrow> sm_call \<Rightarrow> sm_reply"

definition sm_ask :: "sm_env \<Rightarrow> sm_call \<Rightarrow> sm_trace \<Rightarrow> sm_reply \<times> sm_trace" where
  "sm_ask env c tr = (let r = env tr c in (r, tr @ [(c, r)]))"

fun sm_number :: "sm_reply \<Rightarrow> int" where
  "sm_number (Sm_Number n) = n"
| "sm_number _ = 0"

definition sm_newline :: char where "sm_newline = char_of (10 :: nat)"

section \<open>Printing the kernel's log\<close>

definition kSize :: nat where "kSize = 131072"

text \<open>A full ring may begin within a line: what is printed begins with the first whole one.\<close>

definition whole_lines :: "string \<Rightarrow> string" where
  "whole_lines log = (if length log = kSize then drop 1 (dropWhile (\<lambda>c. c \<noteq> sm_newline) log) else log)"

text \<open>The writes of what is left, as long as the kernel takes something.\<close>

function write_rest :: "sm_env \<Rightarrow> string \<Rightarrow> sm_trace \<Rightarrow> sm_trace" where
  "write_rest env rest tr =
     (if rest = [] then tr
      else let (r, tr) = sm_ask env (Sm_Write rest) tr
           in if sm_number r \<le> 0 then tr else write_rest env (drop (nat (sm_number r)) rest) tr)"
  by pat_completeness auto
termination
  by (relation "measure (\<lambda>(env, rest, tr). length rest)") auto

declare write_rest.simps [simp del]

definition dmesg :: "(int \<Rightarrow> string) \<Rightarrow> sm_env \<Rightarrow> nat \<times> sm_trace" where
  "dmesg strerror env =
     (let (r, tr) = sm_ask env (Sm_Alloc kSize) []
      in if sm_number r = 0 then (1, snd (sm_ask env (Sm_Err (''dmesg: out of memory'' @ [sm_newline])) tr))
         else let (r, tr) = sm_ask env (Sm_Log kSize) tr
              in case r of
                   Sm_Text log \<Rightarrow> (0, write_rest env (whole_lines (take kSize log)) tr)
                 | _ \<Rightarrow> if sm_number r < 0
                        then (1, snd (sm_ask env (Sm_Err (''dmesg: KernelLog: '' @ strerror (- sm_number r) @ [sm_newline])) tr))
                        else (0, tr))"

text \<open>What the kernel took of the writes of a run.\<close>

fun taken :: "sm_call \<times> sm_reply \<Rightarrow> string" where
  "taken (Sm_Write s, r) = take (nat (sm_number r)) s"
| "taken _ = []"

lemma write_rest_taken:
  "\<exists>b n. write_rest env rest tr = tr @ b \<and> concat (map taken b) = take n rest \<and>
    ((\<forall>u s. 0 < sm_number (env u (Sm_Write s))) \<longrightarrow> length rest \<le> n)"
proof (induction env rest tr rule: write_rest.induct)
  case (1 env rest tr)
  let ?r = "env tr (Sm_Write rest)" and ?tr = "tr @ [(Sm_Write rest, env tr (Sm_Write rest))]"
  consider "rest = []" | "rest \<noteq> []" "sm_number ?r \<le> 0" | "rest \<noteq> []" "0 < sm_number ?r" by linarith
  then show ?case
  proof cases
    case 3
    let ?rest = "drop (nat (sm_number ?r)) rest"
    have "\<exists>b n. write_rest env ?rest ?tr = ?tr @ b \<and> concat (map taken b) = take n ?rest \<and>
        ((\<forall>u s. 0 < sm_number (env u (Sm_Write s))) \<longrightarrow> length ?rest \<le> n)"
      by (rule 1 [OF 3(1)]) (use 3 in \<open>simp_all add: sm_ask_def Let_def\<close>)
    then obtain b n where b: "write_rest env ?rest ?tr = ?tr @ b" "concat (map taken b) = take n ?rest"
      "(\<forall>u s. 0 < sm_number (env u (Sm_Write s))) \<longrightarrow> length ?rest \<le> n" by blast
    have "write_rest env rest tr = tr @ (Sm_Write rest, ?r) # b"
      using 3 b(1) by (subst write_rest.simps) (simp add: sm_ask_def Let_def)
    moreover have "concat (map taken ((Sm_Write rest, ?r) # b)) = take (nat (sm_number ?r) + n) rest"
      using b(2) by (simp add: take_add)
    ultimately show ?thesis using b(3)
      by (intro exI [of _ "(Sm_Write rest, ?r) # b"] exI [of _ "nat (sm_number ?r) + n"]) auto
  next
    case 2
    then have "write_rest env rest tr = ?tr" by (subst write_rest.simps) (simp add: sm_ask_def Let_def)
    then show ?thesis using 2 by (intro exI [of _ "[(Sm_Write rest, ?r)]"] exI [of _ 0]) (auto simp: not_less)
  qed (subst write_rest.simps, simp)
qed

text \<open>
  When the kernel hands over its log and takes something of every write, what is printed is the log from
  the first whole line on, in whatever pieces the kernel takes it.
\<close>

theorem dmesg_prints:
  assumes "\<And>u n. 0 < sm_number (env u (Sm_Alloc n))" "\<And>u. env u (Sm_Log kSize) = Sm_Text log" "length log \<le> kSize"
    "\<And>u s. 0 < sm_number (env u (Sm_Write s))"
  shows "fst (dmesg strerror env) = 0 \<and> concat (map taken (snd (dmesg strerror env))) = whole_lines log"
proof -
  let ?tr = "[(Sm_Alloc kSize, env [] (Sm_Alloc kSize)), (Sm_Log kSize, Sm_Text log)]"
  obtain b n where b: "write_rest env (whole_lines log) ?tr = ?tr @ b" "concat (map taken b) = take n (whole_lines log)"
    "length (whole_lines log) \<le> n" using write_rest_taken [of env "whole_lines log" ?tr] assms(4) by blast
  have "dmesg strerror env = (0, ?tr @ b)"
    using assms(1) [of "[]" kSize] assms(2,3) b(1) by (simp add: dmesg_def sm_ask_def Let_def)
  with b show ?thesis by simp
qed

section \<open>Restarting\<close>

text \<open>The part of a path behind its last slash.\<close>

fun program_name :: "string \<Rightarrow> string \<Rightarrow> string" where
  "program_name name [] = name"
| "program_name name (c # cs) = program_name (if c = CHR ''/'' then cs else name) cs"

definition reboot :: "sm_env \<Rightarrow> string list \<Rightarrow> nat \<times> sm_trace" where
  "reboot env argv =
     (let poweroff = (case argv of [] \<Rightarrow> False | name # args \<Rightarrow> program_name name name = ''poweroff'' \<or> args \<noteq> [])
      in if \<exists>a\<in>set (tl argv). a \<noteq> ''-p'' then (2, snd (sm_ask env (Sm_Write (''usage: reboot [-p]   (or poweroff)'' @ [sm_newline])) []))
         else let (_, tr) = sm_ask env (Sm_Write ((if poweroff then ''Powering off...'' else ''Restarting...'') @ [sm_newline])) [];
                  (_, tr) = sm_ask env (Sm_Sleep 600) tr; (r, tr) = sm_ask env (Sm_Reboot poweroff) tr
              in (1, snd (sm_ask env (Sm_Write ((if sm_number r = - 1 then ''reboot: permission denied (run it as root)''
                    else ''reboot: the machine did not restart'') @ [sm_newline])) tr)))"

lemma program_name_split:
  "program_name name cs = (if CHR ''/'' \<in> set cs then rev (takeWhile (\<lambda>c. c \<noteq> CHR ''/'') (rev cs)) else name)"
proof (induction cs arbitrary: name)
  case (Cons c cs)
  have "takeWhile (\<lambda>c. c \<noteq> CHR ''/'') (rev cs @ [c]) = takeWhile (\<lambda>c. c \<noteq> CHR ''/'') (rev cs)" if "CHR ''/'' \<in> set cs"
    using that by (intro takeWhile_append1) auto
  moreover have "takeWhile (\<lambda>c. c \<noteq> CHR ''/'') (rev cs @ [CHR ''/'']) = rev cs" if "CHR ''/'' \<notin> set cs"
    using that by (subst takeWhile_append2) auto
  ultimately show ?case using Cons by auto
qed simp

text \<open>
  The machine is asked to restart exactly when every argument is \<open>-p\<close>, and to power off exactly when there
  is one or the program was called \<open>poweroff\<close>.
\<close>

fun asked :: "sm_call \<times> sm_reply \<Rightarrow> bool list" where
  "asked (Sm_Reboot off, r) = [off]"
| "asked _ = []"

theorem reboot_asks:
  "concat (map asked (snd (reboot env (name # args)))) =
     (if \<forall>a\<in>set args. a = ''-p''
      then [rev (takeWhile (\<lambda>c. c \<noteq> CHR ''/'') (rev name)) = ''poweroff'' \<or> args \<noteq> []] else [])"
proof -
  have "program_name name name = rev (takeWhile (\<lambda>c. c \<noteq> CHR ''/'') (rev name))"
  proof (cases "CHR ''/'' \<in> set name")
    case False
    then have "\<forall>c\<in>set (rev name). c \<noteq> CHR ''/''" by auto
    then have all: "takeWhile (\<lambda>c. c \<noteq> CHR ''/'') (rev name) = rev name" by (simp only: takeWhile_eq_all_conv)
    show ?thesis unfolding program_name_split all using False by simp
  qed (simp add: program_name_split)
  then show ?thesis by (auto simp: reboot_def sm_ask_def Let_def)
qed

section \<open>Starting the browser\<close>

definition clamp3 :: "int \<Rightarrow> int \<Rightarrow> int \<Rightarrow> int" where
  "clamp3 v lo hi = (if v < lo then lo else if v > hi then hi else v)"

text \<open>The size of the window, for a screen whose size the kernel gives. Widths of \<open>2 ^ 31\<close> and more, for which the difference overflows, count as negative.\<close>

definition as_signed :: "nat \<Rightarrow> int" where
  "as_signed n = (if n < 2 ^ 31 then int n else int n - 2 ^ 32)"

definition window_for :: "sm_reply \<Rightarrow> int \<times> int" where
  "window_for r =
     (case r of
        Sm_Size w h \<Rightarrow>
          if w mod 2 ^ 32 \<noteq> 0 \<and> h mod 2 ^ 32 \<noteq> 0
          then (clamp3 (as_signed (w mod 2 ^ 32) - 120) 640 1280, clamp3 (as_signed (h mod 2 ^ 32) - 170) 400 900)
          else (1024, 700)
      | _ \<Rightarrow> (1024, 700))"

text \<open>\<open>home\<close> is the value of \<open>HOME\<close>, if it is set; \<open>setenv\<close> does not replace a value.\<close>

definition netsurf :: "sm_env \<Rightarrow> string option \<Rightarrow> string list \<Rightarrow> nat \<times> sm_trace" where
  "netsurf env home argv =
     (let (r, tr) = sm_ask env Sm_Screen []; (width, height) = window_for r;
          (_, tr) = sm_ask env (Sm_Set_Env ''HOME'' (case home of Some h \<Rightarrow> h | None \<Rightarrow> ''/tmp'')) tr;
          (_, tr) = sm_ask env (Sm_Set_Env ''NETSURFRES'' ''/netsurf/res/'') tr;
          args = [''nsfb'', ''-f'', ''instant'', ''-b'', ''32'', ''-w'', decimal (nat width), ''-h'', decimal (nat height)] @
            take 6 (tl argv);
          (_, tr) = sm_ask env (Sm_Exec ''/bin/nsfb'' args) tr
      in (127, snd (sm_ask env (Sm_Err ''netsurf: /bin/nsfb'') tr)))"

text \<open>
  The arguments fit the array of 16 with the null behind them, the numbers fit their 16 characters, and the
  window has a size from 640 by 400 to 1280 by 900 whatever the kernel says of the screen.
\<close>

theorem netsurf_arguments:
  "\<exists>w h rest. Sm_Exec ''/bin/nsfb'' ([''nsfb'', ''-f'', ''instant'', ''-b'', ''32'', ''-w'', decimal w, ''-h'', decimal h] @ rest)
       \<in> fst ` set (snd (netsurf env home argv)) \<and>
     640 \<le> w \<and> w \<le> 1280 \<and> 400 \<le> h \<and> h \<le> 900 \<and> length (decimal w) < 16 \<and> length (decimal h) < 16 \<and>
     9 + length rest + 1 \<le> 16 \<and> rest = take 6 (tl argv)"
proof -
  obtain width height where size1: "window_for (env [] Sm_Screen) = (width, height)" by (cases "window_for (env [] Sm_Screen)")
  then have range1: "640 \<le> width" "width \<le> 1280" "400 \<le> height" "height \<le> 900"
    by (auto simp: window_for_def clamp3_def split: sm_reply.splits if_splits)
  have short: "length (decimal n) < 16" if "n \<le> 1280" for n
    using length_decimal [of n 4] that by simp
  let ?args = "[''nsfb'', ''-f'', ''instant'', ''-b'', ''32'', ''-w'', decimal (nat width), ''-h'', decimal (nat height)] @ take 6 (tl argv)"
  have "Sm_Exec ''/bin/nsfb'' ?args \<in> fst ` set (snd (netsurf env home argv))"
    using size1 by (simp add: netsurf_def sm_ask_def Let_def)
  moreover have "640 \<le> nat width" "nat width \<le> 1280" "400 \<le> nat height" "nat height \<le> 900" using range1 by auto
  moreover have "length (decimal (nat width)) < 16" "length (decimal (nat height)) < 16" using range1 by (auto intro: short)
  moreover have "9 + length (take 6 (tl argv)) + 1 \<le> 16" by simp
  ultimately show ?thesis by blast
qed

end
