(* ===== verification/Log_Saver.thy ===== *)
theory Log_Saver
  imports Prelude
begin

text \<open>
  The log saver, \<open>src/log-saver/src/main.cpp\<close>: it appends to a file what is new in the kernel's log. The
  kernel is not in the repository: a \<open>disk\<close> answers a call from all calls and answers so far; a read
  stores at most as many bytes as asked for. Results are 64-bit numbers.
\<close>

section \<open>The kernel\<close>

datatype disk_call = OpenFile string "string list" | ReadFile nat nat | WriteFile nat string | CloseFile nat
  | KernelLog nat | GetTime | Serial string | Sleep nat

text \<open>A result, the bytes of a read, or no bytes but an error.\<close>

datatype disk_reply = Result nat | Text_Read string | Unreadable

type_synonym trace = "(disk_call \<times> disk_reply) list"
type_synonym disk = "trace \<Rightarrow> disk_call \<Rightarrow> disk_reply"

fun result_of :: "disk_reply \<Rightarrow> nat" where
  "result_of (Result n) = n mod 2 ^ 64"
| "result_of _ = 2 ^ 64 - 1"

text \<open>The bytes a read of at most \<open>n\<close> bytes stored.\<close>

fun bytes_read :: "nat \<Rightarrow> disk_reply \<Rightarrow> string option" where
  "bytes_read n (Text_Read s) = Some (take n s)"
| "bytes_read n _ = None"

definition ask :: "disk \<Rightarrow> disk_call \<Rightarrow> trace \<Rightarrow> disk_reply \<times> trace" where
  "ask env c tr = (let r = env tr c in (r, tr @ [(c, r)]))"

definition fail :: nat where "fail = 2 ^ 64 - 1"
definition failed :: "nat \<Rightarrow> bool" where "failed r \<longleftrightarrow> 2 ^ 63 \<le> r"

definition kLogSize :: nat where "kLogSize = 128 * 1024"
definition kIntervalMs :: nat where "kIntervalMs = 250"
definition kHeartbeatRounds :: nat where "kHeartbeatRounds = 4"

section \<open>Writing\<close>

text \<open>The loop of \<open>write_file\<close> and \<open>write_all\<close>: the number of bytes written when it ends.\<close>

function write_loop :: "disk \<Rightarrow> nat \<Rightarrow> string \<Rightarrow> nat \<Rightarrow> trace \<Rightarrow> nat \<times> trace" where
  "write_loop env fd data count tr =
     (if count < length data
      then let (r, tr) = ask env (WriteFile fd (drop count data)) tr; n = result_of r
           in if failed n \<or> n = 0 then (count, tr) else write_loop env fd data (count + n) tr
      else (count, tr))"
  by pat_completeness auto
termination
  by (relation "measure (\<lambda>(env, fd, data, count, tr). length data - count)") auto

declare write_loop.simps [simp del]

definition write_all :: "disk \<Rightarrow> nat \<Rightarrow> string \<Rightarrow> trace \<Rightarrow> bool \<times> trace" where
  "write_all env fd data tr = (let (n, tr) = write_loop env fd data 0 tr in (length data \<le> n, tr))"

definition write_file :: "disk \<Rightarrow> string \<Rightarrow> string \<Rightarrow> trace \<Rightarrow> bool \<times> trace" where
  "write_file env path data tr =
     (let (r, tr) = ask env (OpenFile path [''O_WRONLY'', ''O_CREAT'', ''O_TRUNC'']) tr; fd = result_of r
      in if fd = fail then (False, tr)
         else let (n, tr) = write_loop env fd data 0 tr; (_, tr) = ask env (CloseFile fd) tr
              in (n = length data, tr))"

text \<open>\<open>keep_previous\<close>: at most \<open>kLogSize\<close> bytes.\<close>

function previous_loop :: "disk \<Rightarrow> nat \<Rightarrow> string \<Rightarrow> trace \<Rightarrow> string \<times> trace" where
  "previous_loop env fd copy tr =
     (if length copy < kLogSize
      then let n = kLogSize - length copy; (r, tr) = ask env (ReadFile fd n) tr
           in case bytes_read n r of
                None \<Rightarrow> (copy, tr)
              | Some s \<Rightarrow> if s = [] then (copy, tr) else previous_loop env fd (copy @ s) tr
      else (copy, tr))"
  by pat_completeness auto
termination
  by (relation "measure (\<lambda>(env, fd, copy, tr). kLogSize - length copy)") (auto simp: neq_Nil_conv intro!: diff_less_mono2)

declare previous_loop.simps [simp del]

definition keep_previous :: "disk \<Rightarrow> trace \<Rightarrow> trace" where
  "keep_previous env tr =
     (let (r, tr) = ask env (OpenFile ''/kernel.log'' [''O_RDONLY'']) tr; fd = result_of r
      in if fd = fail then tr
         else let (copy, tr) = previous_loop env fd [] tr; (_, tr) = ask env (CloseFile fd) tr
              in if copy \<noteq> [] then snd (write_file env ''/previous.log'' copy tr) else tr)"

section \<open>What is new\<close>

definition anchor_of :: "string \<Rightarrow> string" where
  "anchor_of previous = drop (length previous - min 64 (length previous)) previous"

text \<open>Where the lines start that came after \<open>previous\<close>: behind the last occurrence of its end.\<close>

definition new_lines_start :: "string \<Rightarrow> string \<Rightarrow> nat option" where
  "new_lines_start current previous =
     (if previous = [] then Some 0
      else let anchor = min 64 (length previous); end = anchor_of previous
           in map_option (\<lambda>at. at + anchor)
                (find (\<lambda>at. take anchor (drop at current) = end)
                  (rev [0..<if anchor \<le> length current then length current - anchor + 1 else 0])))"

definition gap_line :: string where
  "gap_line = char_of (10 :: nat) # ''[log-saver] ... lines lost here ...'' @ [char_of (10 :: nat)]"

section \<open>The loop\<close>

text \<open>The ring as it was written last, the failures so far.\<close>

record saver =
  copy :: string
  failures :: nat
  strace :: trace

definition heartbeat :: "nat \<Rightarrow> string" where
  "heartbeat now = ''[log-saver] alive uptime_ms='' @ decimal now @ [char_of (10 :: nat)]"

definition beat :: "disk \<Rightarrow> nat \<Rightarrow> trace \<Rightarrow> trace" where
  "beat env round tr =
     (if round mod kHeartbeatRounds = 0
      then let (r, tr) = ask env GetTime tr in snd (ask env (Serial (heartbeat (result_of r))) tr)
      else tr)"

text \<open>The lines to write, the gap first when there is one.\<close>

definition save_lines :: "disk \<Rightarrow> nat \<Rightarrow> string \<Rightarrow> string \<Rightarrow> trace \<Rightarrow> bool \<times> trace" where
  "save_lines env fd log previous tr =
     (let (start, ok, tr) =
        (case new_lines_start log previous of
           Some start \<Rightarrow> (start, True, tr)
         | None \<Rightarrow> let (ok, tr) = write_all env fd gap_line tr in (0, ok, tr))
      in if ok \<and> start < length log then write_all env fd (drop start log) tr else (ok, tr))"

definition save_round :: "disk \<Rightarrow> nat \<Rightarrow> nat \<Rightarrow> saver \<Rightarrow> saver" where
  "save_round env fd round s =
     (let (r, tr) = ask env (KernelLog kLogSize) (beat env round (strace s));
          s = (case bytes_read kLogSize r of
                 None \<Rightarrow> s\<lparr>strace := tr\<rparr>
               | Some log \<Rightarrow>
                   if log = [] then s\<lparr>strace := tr\<rparr>
                   else let (ok, tr) = save_lines env fd log (copy s) tr
                        in if ok then s\<lparr>copy := log, strace := tr\<rparr>
                           else let n = failures s + 1
                                in s\<lparr>failures := n,
                                     strace := (if n \<le> 3
                                       then snd (ask env (Serial (''[log-saver] cannot write /kernel.log, will retry'' @ [char_of (10 :: nat)])) tr) else tr)\<rparr>)
      in s\<lparr>strace := snd (ask env (Sleep kIntervalMs) (strace s))\<rparr>)"

text \<open>\<open>main\<close> after a number of rounds; \<open>None\<close> when the file cannot be opened.\<close>

definition saver_main :: "disk \<Rightarrow> nat \<Rightarrow> (nat \<times> saver) option" where
  "saver_main env rounds =
     (let (r, tr) = ask env (OpenFile ''/kernel.log'' [''O_WRONLY'', ''O_CREAT'', ''O_TRUNC'']) (keep_previous env []);
          fd = result_of r
      in if fd = fail then None
         else Some (fd, fold (save_round env fd) [0..<rounds] \<lparr>copy = [], failures = 0, strace = tr\<rparr>))"

end
