(* ===== verification/Log_Saver_Run.thy ===== *)
theory Log_Saver_Run
  imports Log_Saver "HOL-Library.Sublist"
begin

text \<open>
  What the log saver has written after any number of rounds: the kernel's log, as long as the end of
  what it saved last is found again at its place; and what it loses or repeats otherwise.
\<close>

section \<open>Where the new lines start\<close>

lemma anchor_length: "length (anchor_of previous) = min 64 (length previous)"
  by (simp add: anchor_of_def)

lemma find_rev_last:
  assumes "find P (rev [0..<n]) = Some k"
  shows "k < n" "P k" "\<And>j. k < j \<Longrightarrow> j < n \<Longrightarrow> \<not> P j"
proof -
  obtain i where i: "i < n" "P (rev [0..<n] ! i)" "k = rev [0..<n] ! i" "\<forall>j<i. \<not> P (rev [0..<n] ! j)"
    using assms by (auto simp: find_Some_iff)
  then have k: "k = n - Suc i" by (simp add: rev_nth)
  show "k < n" "P k" using i k by simp_all
  fix j assume "k < j" "j < n"
  then have "n - Suc j < i" "rev [0..<n] ! (n - Suc j) = j" using k i(1) by (auto simp: rev_nth)
  then show "\<not> P j" using i(4) by metis
qed

lemma find_rev_Some:
  assumes "k < n" "P k" "\<And>j. k < j \<Longrightarrow> j < n \<Longrightarrow> \<not> P j"
  shows "find P (rev [0..<n]) = Some k"
proof (cases "find P (rev [0..<n])")
  case None
  then show ?thesis using assms(1,2) by (auto simp: find_None_iff)
next
  case (Some j)
  then show ?thesis using find_rev_last [OF Some] assms by (metis linorder_neqE_nat)
qed

text \<open>The end of \<open>previous\<close> occurs before the last \<open>n\<close> bytes and not again later.\<close>

definition last_seen :: "nat \<Rightarrow> string \<Rightarrow> string \<Rightarrow> bool" where
  "last_seen n previous current \<longleftrightarrow>
     (let a = length (anchor_of previous); at = length current - (n + a)
      in n + a \<le> length current \<and> take a (drop at current) = anchor_of previous \<and>
         (\<forall>j. at < j \<and> j + a \<le> length current \<longrightarrow> take a (drop j current) \<noteq> anchor_of previous))"

lemma last_seen_code [code]:
  "last_seen n previous current \<longleftrightarrow>
     (let a = length (anchor_of previous); at = length current - (n + a)
      in n + a \<le> length current \<and> take a (drop at current) = anchor_of previous \<and>
         list_all (\<lambda>j. take a (drop j current) \<noteq> anchor_of previous) [Suc at..<Suc (length current - a)])"
  by (auto simp: last_seen_def Let_def list_all_iff simp del: upt_Suc)

lemma new_lines_found:
  assumes "previous \<noteq> []" "last_seen n previous current"
  shows "new_lines_start current previous = Some (length current - n)"
proof -
  let ?a = "length (anchor_of previous)"
  let ?at = "length current - (n + ?a)" and ?P = "\<lambda>at. take ?a (drop at current) = anchor_of previous"
  have seen: "n + ?a \<le> length current" "?P ?at" "\<And>j. ?at < j \<Longrightarrow> j + ?a \<le> length current \<Longrightarrow> \<not> ?P j"
    using assms(2) by (simp_all add: last_seen_def Let_def)
  have "find ?P (rev [0..<length current - ?a + 1]) = Some ?at"
    by (rule find_rev_Some) (use seen in auto)
  then show ?thesis
    using assms(1) seen(1) by (simp add: new_lines_start_def Let_def anchor_length del: upt_Suc)
qed

section \<open>What is written\<close>

text \<open>The bytes the kernel took for a file.\<close>

definition taken :: "nat \<Rightarrow> trace \<Rightarrow> string" where
  "taken fd tr = concat (map (\<lambda>(c, r). case c of
     WriteFile f data \<Rightarrow> if f = fd \<and> \<not> failed (result_of r) then take (result_of r) data else []
   | _ \<Rightarrow> []) tr)"

lemma taken_simps [simp]:
  "taken fd [] = []" "taken fd (tr @ tr') = taken fd tr @ taken fd tr'"
  "taken fd [(KernelLog n, r)] = []" "taken fd [(Sleep n, r)] = []" "taken fd [(Serial s, r)] = []" "taken fd [(GetTime, r)] = []"
  by (simp_all add: taken_def)

fun is_log :: "disk_call \<Rightarrow> bool" where
  "is_log (KernelLog n) = True"
| "is_log _ = False"

definition logs_read :: "trace \<Rightarrow> nat" where
  "logs_read tr = length (filter (\<lambda>cr. is_log (fst cr)) tr)"

lemma logs_read_simps [simp]:
  "logs_read [] = 0" "logs_read (tr @ tr') = logs_read tr + logs_read tr'"
  "logs_read ((c, r) # tr) = (if is_log c then Suc (logs_read tr) else logs_read tr)"
  by (simp_all add: logs_read_def)

text \<open>A file that takes at least one byte of every write.\<close>

definition takes_writes :: "disk \<Rightarrow> nat \<Rightarrow> bool" where
  "takes_writes env fd \<longleftrightarrow> (\<forall>tr data. data \<noteq> [] \<longrightarrow>
     (let n = result_of (env tr (WriteFile fd data)) in 0 < n \<and> n \<le> length data \<and> \<not> failed n))"

lemma write_loop_takes:
  assumes "takes_writes env fd" "count \<le> length data"
  shows "\<exists>tr'. write_loop env fd data count tr = (length data, tr') \<and> taken fd tr' = taken fd tr @ drop count data \<and>
    logs_read tr' = logs_read tr"
  using assms
proof (induction env fd data count tr rule: write_loop.induct)
  case (1 env fd data count tr)
  show ?case
  proof (cases "count < length data")
    case True
    let ?c = "WriteFile fd (drop count data)"
    let ?r = "env tr ?c"
    let ?n = "result_of ?r" and ?tr = "tr @ [(?c, ?r)]"
    have n: "0 < ?n" "?n \<le> length (drop count data)" "\<not> failed ?n"
      using 1(2) True unfolding takes_writes_def Let_def by (auto dest!: spec [of _ tr] spec [of _ "drop count data"])
    have loop: "write_loop env fd data count tr = write_loop env fd data (count + ?n) ?tr"
      using True n by (simp add: write_loop.simps [of env fd data count tr] ask_def Let_def)
    have "\<exists>tr'. write_loop env fd data (count + ?n) ?tr = (length data, tr') \<and> taken fd tr' = taken fd ?tr @ drop (count + ?n) data \<and>
        logs_read tr' = logs_read ?tr"
      using 1(1) [OF True] n 1(2) by (simp add: ask_def Let_def)
    then obtain tr' where tr': "write_loop env fd data (count + ?n) ?tr = (length data, tr')"
        "taken fd tr' = taken fd ?tr @ drop (count + ?n) data" "logs_read tr' = logs_read ?tr" by auto
    have "taken fd tr' = taken fd tr @ take ?n (drop count data) @ drop (count + ?n) data"
      using tr'(2) n by (simp add: taken_def)
    moreover have "take ?n (drop count data) @ drop (count + ?n) data = drop count data"
      by (metis add.commute append_take_drop_id drop_drop)
    ultimately show ?thesis
      unfolding loop tr'(1) using tr'(3) by simp
  next
    case False
    then have "write_loop env fd data count tr = (count, tr)" by (subst write_loop.simps) simp
    moreover have "count = length data" using False 1(3) by simp
    ultimately show ?thesis by simp
  qed
qed

lemma write_all_takes:
  assumes "takes_writes env fd"
  shows "\<exists>tr'. write_all env fd data tr = (True, tr') \<and> taken fd tr' = taken fd tr @ data \<and> logs_read tr' = logs_read tr"
  using write_loop_takes [OF assms, of 0 data tr] by (auto simp: write_all_def)

section \<open>The file holds the log\<close>

text \<open>The ring shows the end of everything logged so far, \<open>L i\<close> when it is read for the \<open>i\<close>-th time.\<close>

definition ring :: "string \<Rightarrow> string" where
  "ring text = drop (length text - kLogSize) text"

definition logs :: "disk \<Rightarrow> (nat \<Rightarrow> string) \<Rightarrow> bool" where
  "logs env L \<longleftrightarrow> (\<forall>tr. env tr (KernelLog kLogSize) = Text_Read (ring (L (logs_read tr)))) \<and>
     (\<forall>i. L i \<noteq> [] \<and> prefix (L i) (L (Suc i)))"

lemma ring_length: "length (ring text) = min kLogSize (length text)"
  by (simp add: ring_def)

lemma ring_nonempty: "text \<noteq> [] \<Longrightarrow> ring text \<noteq> []"
proof -
  assume "text \<noteq> []"
  then have "length text - kLogSize < length text" by (intro diff_less) (simp_all add: kLogSize_def)
  then show ?thesis by (simp add: ring_def)
qed

lemma logs_grow: "logs env L \<Longrightarrow> prefix (L 0) (L n)"
  by (induction n) (auto simp: logs_def intro: prefix_order.trans)

lemma new_part:
  assumes "prefix l l'" "length l' - length l \<le> length (ring l')"
  shows "l @ drop (length (ring l') - (length l' - length l)) (ring l') = l'"
proof -
  obtain new where new: "l' = l @ new" using assms(1) by (auto simp: prefix_def)
  have "length l' - kLogSize + (length (ring l') - length new) = length l"
    using assms(2) new by (auto simp: ring_length)
  then have "drop (length (ring l') - length new) (ring l') = drop (length l) l'"
    by (simp add: ring_def add.commute)
  then show ?thesis using new by simp
qed

lemma beat_neutral [simp]: "taken fd (beat env round tr) = taken fd tr" "logs_read (beat env round tr) = logs_read tr"
  by (simp_all add: beat_def ask_def Let_def taken_def logs_read_def)

lemma first_round:
  assumes "takes_writes env fd" "logs env L" "copy s = []" "logs_read (strace s) = 0"
  shows "copy (save_round env fd r s) = ring (L 0) \<and> logs_read (strace (save_round env fd r s)) = 1 \<and>
    taken fd (strace (save_round env fd r s)) = taken fd (strace s) @ ring (L 0)"
proof -
  let ?tr = "beat env r (strace s)"
  have log: "env ?tr (KernelLog kLogSize) = Text_Read (ring (L 0))" using assms(2,4) by (simp add: logs_def)
  have ne: "ring (L 0) \<noteq> []" using assms(2) by (intro ring_nonempty) (simp add: logs_def)
  obtain tr' where tr': "write_all env fd (ring (L 0)) (?tr @ [(KernelLog kLogSize, Text_Read (ring (L 0)))]) = (True, tr')"
      "taken fd tr' = taken fd (?tr @ [(KernelLog kLogSize, Text_Read (ring (L 0)))]) @ ring (L 0)"
      "logs_read tr' = logs_read (?tr @ [(KernelLog kLogSize, Text_Read (ring (L 0)))])"
    using write_all_takes [OF assms(1)] by blast
  have "take kLogSize (ring (L 0)) = ring (L 0)" by (simp add: ring_length)
  then show ?thesis
    using log ne tr' assms(3,4) by (simp add: save_round_def ask_def Let_def save_lines_def new_lines_start_def)
qed

lemma next_round:
  assumes "takes_writes env fd" "logs env L" "copy s = ring (L i)" "logs_read (strace s) = Suc i"
    and "last_seen (length (L (Suc i)) - length (L i)) (ring (L i)) (ring (L (Suc i)))"
  shows "copy (save_round env fd r s) = ring (L (Suc i)) \<and> logs_read (strace (save_round env fd r s)) = Suc (Suc i) \<and>
    taken fd (strace (save_round env fd r s)) =
      taken fd (strace s) @ drop (length (ring (L (Suc i))) - (length (L (Suc i)) - length (L i))) (ring (L (Suc i)))"
proof -
  let ?tr = "beat env r (strace s)" and ?log = "ring (L (Suc i))"
  let ?start = "length ?log - (length (L (Suc i)) - length (L i))"
  let ?tr1 = "?tr @ [(KernelLog kLogSize, Text_Read ?log)]"
  have log: "env ?tr (KernelLog kLogSize) = Text_Read ?log" using assms(2,4) by (simp add: logs_def)
  have ne: "?log \<noteq> []" "ring (L i) \<noteq> []" using assms(2) by (simp_all add: logs_def ring_nonempty)
  have start: "new_lines_start ?log (copy s) = Some ?start" using new_lines_found [OF ne(2) assms(5)] assms(3) by simp
  obtain tr' where tr': "write_all env fd (drop ?start ?log) ?tr1 = (True, tr')"
      "taken fd tr' = taken fd ?tr1 @ drop ?start ?log" "logs_read tr' = logs_read ?tr1"
    using write_all_takes [OF assms(1)] by blast
  have "\<exists>tr2. save_lines env fd ?log (copy s) ?tr1 = (True, tr2) \<and> taken fd tr2 = taken fd ?tr1 @ drop ?start ?log \<and>
      logs_read tr2 = logs_read ?tr1"
    using tr' start by (cases "?start < length ?log") (simp_all add: save_lines_def)
  moreover have "take kLogSize ?log = ?log" by (simp add: ring_length)
  ultimately show ?thesis
    using log ne assms(4) by (auto simp: save_round_def ask_def Let_def)
qed

lemma rounds_save:
  assumes "takes_writes env fd" "logs env L"
    and "\<forall>i. last_seen (length (L (Suc i)) - length (L i)) (ring (L i)) (ring (L (Suc i)))" and "logs_read tr = 0"
  defines "s n \<equiv> fold (save_round env fd) [0..<Suc n] \<lparr>copy = [], failures = 0, strace = tr\<rparr>"
  shows "copy (s n) = ring (L n) \<and> logs_read (strace (s n)) = Suc n \<and>
    taken fd (strace (s n)) = taken fd tr @ drop (length (L 0) - kLogSize) (L n)"
proof (induction n)
  case 0
  show ?case using first_round [OF assms(1,2), of "\<lparr>copy = [], failures = 0, strace = tr\<rparr>" 0] assms(4) by (simp add: s_def ring_def)
next
  case (Suc n)
  have seen: "last_seen (length (L (Suc n)) - length (L n)) (ring (L n)) (ring (L (Suc n)))" using assms(3) by blast
  have pre: "prefix (L 0) (L n)" "prefix (L n) (L (Suc n))" using assms(2) logs_grow by (auto simp: logs_def)
  let ?new = "drop (length (ring (L (Suc n))) - (length (L (Suc n)) - length (L n))) (ring (L (Suc n)))"
  have "length (L (Suc n)) - length (L n) \<le> length (ring (L (Suc n)))" using seen by (simp add: last_seen_def Let_def)
  then have "L (Suc n) = L n @ ?new" using new_part [OF pre(2)] by simp
  moreover have "length (L 0) - kLogSize \<le> length (L n)" using prefix_length_le [OF pre(1)] by simp
  ultimately have "drop (length (L 0) - kLogSize) (L (Suc n)) = drop (length (L 0) - kLogSize) (L n) @ ?new"
    by (metis drop_append diff_is_0_eq' drop0)
  moreover have "s (Suc n) = save_round env fd (Suc n) (s n)" by (simp add: s_def)
  ultimately show ?case using next_round [OF assms(1,2) _ _ seen, of "s n" "Suc n"] Suc by simp
qed

lemma previous_loop_neutral: "logs_read (snd (previous_loop env fd got tr)) = logs_read tr"
proof (induction env fd got tr rule: previous_loop.induct)
  case (1 env fd got tr)
  then show ?case
    by (subst previous_loop.simps) (auto simp: ask_def Let_def split: option.split)
qed

lemma write_loop_neutral: "logs_read (snd (write_loop env fd data count tr)) = logs_read tr"
proof (induction env fd data count tr rule: write_loop.induct)
  case (1 env fd data count tr)
  then show ?case by (subst write_loop.simps) (auto simp: ask_def Let_def)
qed

lemma keep_previous_neutral: "logs_read (keep_previous env tr) = logs_read tr"
  using previous_loop_neutral [of env] write_loop_neutral [of env]
  by (simp add: keep_previous_def write_file_def ask_def Let_def split_beta)

text \<open>The trace when the new file has been opened.\<close>

definition opened :: "disk \<Rightarrow> trace" where
  "opened env = snd (ask env (OpenFile ''/kernel.log'' [''O_WRONLY'', ''O_CREAT'', ''O_TRUNC'']) (keep_previous env []))"

text \<open>
  C26: As long as the file takes the writes and the end of what was saved last is found at its place
  (it is still in the ring and does not occur again in the lines that follow), what the log saver has
  written to the file after any number of rounds is the whole log from the first byte the ring still
  had, without gaps and repetitions.
\<close>

theorem log_saved:
  assumes "saver_main env (Suc n) = Some (fd, s)" and "takes_writes env fd" and "logs env L"
    and "\<forall>i. last_seen (length (L (Suc i)) - length (L i)) (ring (L i)) (ring (L (Suc i)))"
  shows "taken fd (strace s) = taken fd (opened env) @ drop (length (L 0) - kLogSize) (L n)"
proof -
  have "logs_read (opened env) = 0" by (simp add: opened_def ask_def Let_def keep_previous_neutral)
  moreover have "s = fold (save_round env fd) [0..<Suc n] \<lparr>copy = [], failures = 0, strace = opened env\<rparr>"
    using assms(1) by (auto simp: saver_main_def opened_def ask_def Let_def split: if_splits)
  ultimately show ?thesis using rounds_save [OF assms(2-4)] by blast
qed

text \<open>A log that grows by one line, read twice.\<close>

definition two_lines :: "nat \<Rightarrow> string" where
  "two_lines i = (if i = 0 then ''kernel up. '' else ''kernel up. disk found. '')"

definition plain_disk :: disk where
  "plain_disk tr c = (case c of
     OpenFile path flags \<Rightarrow> if flags = [''O_RDONLY''] then Unreadable else Result 3
   | WriteFile fd data \<Rightarrow> Result (min 4 (length data))
   | KernelLog n \<Rightarrow> Text_Read (two_lines (logs_read tr))
   | _ \<Rightarrow> Result 0)"

theorem log_saved_witness:
  "\<exists>s. saver_main plain_disk 2 = Some (3, s) \<and> taken 3 (strace s) = ''kernel up. disk found. ''"
proof -
  have small: "ring (two_lines i) = two_lines i" for i by (simp add: ring_def two_lines_def kLogSize_def)
  have "takes_writes plain_disk 3" by (auto simp: takes_writes_def plain_disk_def failed_def min_def Let_def)
  moreover have "logs plain_disk two_lines" by (simp add: logs_def plain_disk_def small) (simp add: two_lines_def)
  moreover have "last_seen (length (two_lines (Suc i)) - length (two_lines i)) (ring (two_lines i)) (ring (two_lines (Suc i)))" for i
  proof (cases i)
    case 0
    have "last_seen (length (two_lines (Suc 0)) - length (two_lines 0)) (two_lines 0) (two_lines (Suc 0))" by code_simp
    then show ?thesis unfolding 0 small .
  next
    case (Suc j)
    then show ?thesis by (simp only: small) (simp add: two_lines_def last_seen_def anchor_of_def)
  qed
  moreover obtain s where "saver_main plain_disk (Suc 1) = Some (3, s)"
    by (simp add: saver_main_def plain_disk_def ask_def Let_def fail_def)
  moreover have "taken 3 (opened plain_disk) = []"
    by (simp add: opened_def keep_previous_def plain_disk_def ask_def Let_def fail_def taken_def)
  ultimately show ?thesis
    using log_saved [of plain_disk 1 3 s two_lines] by (auto simp: two_lines_def kLogSize_def numeral_2_eq_2)
qed

section \<open>Lines that are lost\<close>

text \<open>
  When the new lines end as the saved ones did (a message of at least 64 characters that is
  logged again), all of them are dropped without a mark: nothing is written, as if there were none.
\<close>

theorem repeated_lines_lost:
  assumes "previous \<noteq> []" and "suffix (anchor_of previous) log"
  shows "save_lines env fd log previous tr = (True, tr)"
proof -
  let ?a = "length (anchor_of previous)"
  obtain before where "log = before @ anchor_of previous" using assms(2) by (auto simp: suffix_def)
  then have "last_seen 0 previous log" by (auto simp: last_seen_def Let_def)
  then show ?thesis using new_lines_found [OF assms(1), of 0 log] by (simp add: save_lines_def)
qed

text \<open>A line of 70 characters that is logged a second time.\<close>

theorem repeated_lines_lost_witness:
  "let line = replicate 69 CHR ''!'' @ [char_of (10 :: nat)]
   in save_lines plain_disk 3 (line @ line) line [] = (True, [])"
proof -
  let ?line = "replicate 69 CHR ''!'' @ [char_of (10 :: nat)]"
  have "suffix (anchor_of ?line) (?line @ ?line)" unfolding anchor_of_def by (intro suffix_appendI suffix_drop)
  then show ?thesis using repeated_lines_lost [of ?line] unfolding Let_def by blast
qed

text \<open>
  A write that fails after a part of the lines was taken is tried again with all of them: the part
  is in the file twice.
\<close>

definition full_disk :: disk where
  "full_disk tr c = (case c of
     OpenFile path flags \<Rightarrow> if flags = [''O_RDONLY''] then Unreadable else Result 3
   | WriteFile fd data \<Rightarrow> if length tr = 5 then Result 6 else if length tr = 6 then Unreadable else Result (length data)
   | KernelLog n \<Rightarrow> Text_Read ''kernel up. ''
   | _ \<Rightarrow> Result 0)"

lemma retry_repeats:
  "map_option (\<lambda>(fd, s). taken fd (strace s)) (saver_main full_disk 2) = Some ''kernelkernel up. ''"
proof -
  have two: "[0..<2] = [0, Suc 0]" by (simp add: numeral_2_eq_2)
  have some: "take kLogSize ''kernel up. '' = ''kernel up. ''" by (simp add: kLogSize_def)
  show ?thesis
    unfolding saver_main_def
    by (simp add: two keep_previous_def ask_def Let_def full_disk_def fail_def save_round_def beat_def kHeartbeatRounds_def
        some save_lines_def new_lines_start_def write_all_def write_loop.simps failed_def taken_def)
qed

end
