(* ===== verification/Network_Manager.thy ===== *)
theory Network_Manager
  imports Resolver
begin

text \<open>
  The network manager, \<open>src/network-manager/src/main.cpp\<close>: it writes \<open>/etc/resolv.conf\<close> and \<open>/etc/hosts\<close>
  whenever the kernel's interface configuration changes and answers requests. The kernel answers a
  call from all calls and answers so far. Addresses are four bytes in network order; the domain is
  a string of at most 63 characters.
\<close>

section \<open>The kernel\<close>

record net_config =
  ifUp :: bool
  ifDhcp :: bool
  address :: "byte list"
  gateway :: "byte list"
  dns :: "byte list list"
  dnsCount :: nat
  domain :: string
  cgeneration :: nat

datatype nm_call = GetConfig nat | SleepFor nat | OpenNew string | WriteTo nat string | CloseIt nat | Rename string string
  | Printed string | StartThread | StatPath string | Spawn string "string list" "string list" | WaitFor nat
  | GetMac | LinkStatus | CreateQueue | Register nat | Receive nat | Reply nat nat | CloseQueue nat

text \<open>A result; a configuration; the six bytes of the card's address; a message (a request or not, its number); the status of a process.\<close>

datatype nm_reply = Number nat | Config net_config | Mac "byte list" | Message bool nat | Status nat

type_synonym nm_trace = "(nm_call \<times> nm_reply) list"
type_synonym nm_env = "nm_trace \<Rightarrow> nm_call \<Rightarrow> nm_reply"

fun number :: "nm_reply \<Rightarrow> nat" where
  "number (Number n) = n mod 2 ^ 64"
| "number _ = 0"

definition nm_request :: "nm_env \<Rightarrow> nm_call \<Rightarrow> nm_trace \<Rightarrow> nm_reply \<times> nm_trace" where
  "nm_request env c tr = (let r = env tr c in (r, tr @ [(c, r)]))"

definition nm_fail :: nat where "nm_fail = 2 ^ 64 - 1"

definition syscall_failed :: "nat \<Rightarrow> bool" where "syscall_failed r \<longleftrightarrow> 2 ^ 64 - 4095 \<le> r"

definition printed :: "nm_env \<Rightarrow> string \<Rightarrow> nm_trace \<Rightarrow> nm_trace" where
  "printed env s tr = snd (nm_request env (Printed s) tr)"

section \<open>Files\<close>

definition write_new :: "nm_env \<Rightarrow> string \<Rightarrow> string \<Rightarrow> nm_trace \<Rightarrow> nm_trace" where
  "write_new env path contents tr =
     (let temp = bounded_copy 64 (path @ ''.new''); (r, tr) = nm_request env (OpenNew temp) tr; fd = number r
      in if fd = nm_fail then printed env (''[network.manager] cannot write '' @ temp @ eol) tr
         else let (_, tr) = nm_request env (WriteTo fd contents) tr; (_, tr) = nm_request env (CloseIt fd) tr;
                  (r, tr) = nm_request env (Rename temp path) tr
              in if syscall_failed (number r) then printed env (''[network.manager] cannot rename '' @ temp @ eol) tr else tr)"

definition format_ip :: "byte list \<Rightarrow> string" where
  "format_ip b = bounded_copy 16 (ip4 b)"

text \<open>
  \<open>used += snprintf(buffer + used, sizeof(buffer) - used, ...)\<close>: a size that has become negative is a
  huge one, so the text is written past the buffer.
\<close>

definition print_at :: "nat \<Rightarrow> string \<Rightarrow> string \<times> nat \<Rightarrow> fault + (string \<times> nat)" where
  "print_at cap new b =
     (case b of (buffer, used) \<Rightarrow>
        if cap < used then Inl Write_past
        else Inr (buffer @ take (cap - used - 1) new, used + length new))"

definition resolv_text :: "net_config \<Rightarrow> fault + string" where
  "resolv_text c =
     seqE (if domain c \<noteq> [] then print_at 256 (''search '' @ domain c @ eol) ([], 0) else Inr ([], 0))
       (\<lambda>b. seqE (foreach [0..<min (dnsCount c) 3] (\<lambda>i. print_at 256 (''nameserver '' @ format_ip (dns c ! i) @ eol)) b)
         (\<lambda>b. Inr (fst b)))"

definition hosts_text :: "net_config \<Rightarrow> string" where
  "hosts_text c = bounded_copy 128
     (if ifUp c then ''127.0.0.1'' @ tab @ ''localhost'' @ eol @ format_ip (address c) @ tab @ ''instantos'' @ eol
      else ''127.0.0.1'' @ tab @ ''localhost'' @ eol @ ''127.0.1.1'' @ tab @ ''instantos'' @ eol)"

definition config_line :: "net_config \<Rightarrow> string" where
  "config_line c =
     (if ifUp c
      then ''[network.manager] '' @ (if ifDhcp c then ''dhcp'' else ''static'') @ '' address '' @ format_ip (address c) @
        '' gateway '' @ format_ip (gateway c) @ '', '' @ decimal (dnsCount c) @ '' name server(s); resolv.conf written'' @ eol
      else ''[network.manager] interface down'' @ eol)"

definition apply_config :: "nm_env \<Rightarrow> net_config \<Rightarrow> nm_trace \<Rightarrow> fault + nm_trace" where
  "apply_config env c tr =
     seqE (resolv_text c)
       (\<lambda>resolv. Inr (printed env (config_line c)
          (write_new env ''/etc/hosts'' (hosts_text c) (write_new env ''/etc/resolv.conf'' resolv tr))))"

section \<open>The threads\<close>

definition sync_clock :: "nm_env \<Rightarrow> nm_trace \<Rightarrow> nm_trace" where
  "sync_clock env tr =
     (let (r, tr) = nm_request env (StatPath ''/bin/sntp'') tr
      in if syscall_failed (number r) then tr
         else let (r, tr) = nm_request env (Spawn ''/bin/sntp'' [''sntp'', ''-s'', ''-q'', ''-W'', ''2'', ''-r'', ''2''] [''PATH=/bin'']) tr;
                  pid = number r
              in if pid = nm_fail \<or> pid = 0 then printed env (''[network.manager] cannot start sntp'' @ eol) tr
                 else let (r, tr) = nm_request env (WaitFor pid) tr; status = (case r of Status n \<Rightarrow> n | _ \<Rightarrow> 0)
                      in printed env (if status = 0 then ''[network.manager] clock set from NTP'' @ eol
                           else ''[network.manager] NTP clock sync failed (status '' @ decimal (status div 256 mod 256) @ '')'' @ eol) tr)"

record watcher =
  known :: nat
  clockSynced :: bool
  wtrace :: nm_trace

text \<open>One turn of \<open>watch_config\<close>.\<close>

definition watch_turn :: "nm_env \<Rightarrow> watcher \<Rightarrow> fault + watcher" where
  "watch_turn env w =
     (let (r, tr) = nm_request env (GetConfig (known w)) (wtrace w)
      in case r of
           Config c \<Rightarrow>
             if cgeneration c \<noteq> known w
             then seqE (apply_config env c tr)
               (\<lambda>tr. Inr
                  (if \<not> clockSynced w \<and> ifUp c
                   then let (r, tr) = nm_request env StartThread tr
                        in \<lparr>known = cgeneration c, clockSynced = True,
                             wtrace = (if number r = nm_fail
                               then printed env (''[network.manager] thread_create failed'' @ eol) tr else tr)\<rparr>
                   else \<lparr>known = cgeneration c, clockSynced = clockSynced w, wtrace = tr\<rparr>))
             else Inr (w\<lparr>wtrace := tr\<rparr>)
         | _ \<Rightarrow> Inr (w\<lparr>wtrace := snd (nm_request env (SleepFor 1000) tr)\<rparr>))"

definition watch_turns :: "nm_env \<Rightarrow> nat \<Rightarrow> nm_trace \<Rightarrow> fault + watcher" where
  "watch_turns env n tr = foreach [0..<n] (\<lambda>i. watch_turn env) \<lparr>known = 0, clockSynced = False, wtrace = tr\<rparr>"

text \<open>One turn of \<open>main\<close>: a request is answered.\<close>

definition serve_turn :: "nm_env \<Rightarrow> nat \<Rightarrow> nm_trace \<Rightarrow> nm_trace" where
  "serve_turn env queue tr =
     (let (r, tr) = nm_request env (Receive queue) tr
      in case r of
           Message asked i \<Rightarrow>
             if asked
             then let (r, tr) = nm_request env (Reply queue i) tr
                  in if number r = nm_fail then printed env (''[network.manager] queue_reply failed'' @ eol) tr else tr
             else tr
         | _ \<Rightarrow> snd (nm_request env (SleepFor 100) tr))"

section \<open>Start-up\<close>

definition hex_pair :: "byte \<Rightarrow> string" where
  "hex_pair b = (let digit = (\<lambda>n. char_of (if n < 10 then 48 + n else 87 + n)) in [digit (unat b div 16), digit (unat b mod 16)])"

text \<open>\<open>syscall_errno\<close>: the low 32 bits of the negated result, which a failed call leaves below 4096.\<close>

definition syscall_errno :: "nat \<Rightarrow> nat" where "syscall_errno r = (2 ^ 64 - r) mod 2 ^ 32"

definition print_device_status :: "nm_env \<Rightarrow> nm_trace \<Rightarrow> nm_trace" where
  "print_device_status env tr =
     (let (r, tr) = nm_request env GetMac tr
      in if syscall_failed (number r)
         then printed env (''[network.manager] no virtio-net errno='' @ decimal (syscall_errno (number r)) @ eol) tr
         else let m = (case r of Mac m \<Rightarrow> m | _ \<Rightarrow> replicate 6 0); (link, tr) = nm_request env LinkStatus tr
              in printed env (''[network.manager] ready mac='' @ hex_pair (m ! 0) @ concat (map (\<lambda>i. '':'' @ hex_pair (m ! i)) [1..<6]) @
                   '' link='' @ decimal (number link) @ eol) tr)"

text \<open>\<open>main\<close> up to its loop: the queue, none if the program ends with code 1.\<close>

definition nm_start :: "nm_env \<Rightarrow> nat option \<times> nm_trace" where
  "nm_start env =
     (let (r, tr) = nm_request env CreateQueue []; queue = number r
      in if queue = nm_fail then (None, printed env (''[network.manager] queue_create failed'' @ eol) tr)
         else let (r, tr) = nm_request env (Register queue) tr
              in if number r = nm_fail
                 then (None, snd (nm_request env (CloseQueue queue) (printed env (''[network.manager] service_register failed'' @ eol) tr)))
                 else let (r, tr) = nm_request env StartThread (print_device_status env tr)
                      in (Some queue, if number r = nm_fail then printed env (''[network.manager] thread_create failed'' @ eol) tr else tr))"

text \<open>\<open>main\<close> after \<open>n\<close> turns of its loop, which does not end; the watching thread runs beside it.\<close>

definition nm_main :: "nm_env \<Rightarrow> nat \<Rightarrow> nat option \<times> nm_trace" where
  "nm_main env n = (case nm_start env of (None, tr) \<Rightarrow> (None, tr) | (Some queue, tr) \<Rightarrow> (Some queue, (serve_turn env queue ^^ n) tr))"

text \<open>The requests received and the replies given in a run.\<close>

fun asked_in :: "nm_call \<times> nm_reply \<Rightarrow> nat list" where
  "asked_in (Receive q, Message True i) = [i]"
| "asked_in _ = []"

fun answered_in :: "nm_call \<times> nm_reply \<Rightarrow> nat list" where
  "answered_in (Reply q i, r) = [i]"
| "answered_in _ = []"

lemma serve_turn_answers:
  "\<exists>b. serve_turn env q tr = tr @ b \<and> concat (map answered_in b) = concat (map asked_in b)"
proof (cases "env tr (Receive q)")
  case (Message asked i)
  then show ?thesis
    by (cases asked) (auto simp: serve_turn_def nm_request_def printed_def Let_def)
qed (auto simp: serve_turn_def nm_request_def printed_def Let_def)

text \<open>After any number of turns every request was answered, in order, whatever the kernel answers.\<close>

theorem requests_answered:
  "\<exists>b. (serve_turn env q ^^ n) tr = tr @ b \<and> concat (map answered_in b) = concat (map asked_in b)"
proof (induction n)
  case (Suc n)
  then obtain b where b: "(serve_turn env q ^^ n) tr = tr @ b" "concat (map answered_in b) = concat (map asked_in b)" by blast
  obtain c where "serve_turn env q (tr @ b) = (tr @ b) @ c" "concat (map answered_in c) = concat (map asked_in c)"
    using serve_turn_answers by blast
  then show ?case using b by (intro exI [of _ "b @ c"]) simp
qed simp

end
