(* ===== verification/Network_Files.thy ===== *)
theory Network_Files
  imports Network_Manager "HOL-Library.Sublist"
begin

text \<open>
  What the network manager's files hold: nslookup reads the first name server of the configuration from
  them, they follow the kernel's configuration, and they are never half written as long as the writes are
  taken whole.
\<close>

section \<open>The text of resolv.conf\<close>

definition good_config :: "net_config \<Rightarrow> bool" where
  "good_config c \<longleftrightarrow> length (domain c) < 64 \<and> CHR 0x0A \<notin> set (domain c) \<and> 3 \<le> length (dns c)"

definition server_line :: "byte list \<Rightarrow> string" where
  "server_line b = ''nameserver '' @ ip4 b @ eol"

definition search_line :: "string \<Rightarrow> string" where
  "search_line d = (if d = [] then [] else ''search '' @ d @ eol)"

lemma byte_decimal: "length (decimal (unat (b :: byte))) \<le> 3"
proof -
  have "unat b < 256" by (rule order.strict_trans2 [OF unsigned_less]) simp
  then show ?thesis by (intro length_decimal) simp_all
qed

lemma ip4_length: "length (ip4 b) \<le> 15"
  using byte_decimal [of "b ! 0"] byte_decimal [of "b ! 1"] byte_decimal [of "b ! 2"] byte_decimal [of "b ! 3"]
  by (simp add: ip4_def)

lemma format_ip4 [simp]: "format_ip b = ip4 b"
  using ip4_length [of b] by (simp add: format_ip_def)

lemma print_at_fits: "length buffer + length new < cap \<Longrightarrow>
  print_at cap new (buffer, length buffer) = Inr (buffer @ new, length (buffer @ new))"
  by (simp add: print_at_def)

lemma server_lines_printed:
  assumes "n \<le> 3" "length buffer \<le> 71"
  shows "foreach [0..<n] (\<lambda>i. print_at 256 (''nameserver '' @ format_ip (servers ! i) @ eol)) (buffer, length buffer) =
    Inr (buffer @ concat (map (\<lambda>i. server_line (servers ! i)) [0..<n]), length buffer + length (concat (map (\<lambda>i. server_line (servers ! i)) [0..<n]))) \<and>
    length (concat (map (\<lambda>i. server_line (servers ! i)) [0..<n])) \<le> n * 27"
  using assms(1)
proof (induction n)
  case (Suc n)
  let ?text = "concat (map (\<lambda>i. server_line (servers ! i)) [0..<n])"
  have line: "length (server_line (servers ! n)) \<le> 27" using ip4_length [of "servers ! n"] by (simp add: server_line_def eol_def)
  have IH: "foreach [0..<n] (\<lambda>i. print_at 256 (''nameserver '' @ format_ip (servers ! i) @ eol)) (buffer, length buffer) =
      Inr (buffer @ ?text, length (buffer @ ?text))" "length ?text \<le> n * 27"
    using Suc by simp_all
  have "length (buffer @ ?text) + length (server_line (servers ! n)) < 256" using IH(2) line assms(2) Suc.prems by simp
  then have "print_at 256 (server_line (servers ! n)) (buffer @ ?text, length (buffer @ ?text)) =
      Inr ((buffer @ ?text) @ server_line (servers ! n), length ((buffer @ ?text) @ server_line (servers ! n)))"
    by (rule print_at_fits)
  moreover have "foreach [0..<Suc n] (\<lambda>i. print_at 256 (''nameserver '' @ format_ip (servers ! i) @ eol)) (buffer, length buffer) =
      print_at 256 (server_line (servers ! n)) (buffer @ ?text, length (buffer @ ?text))"
    using IH(1) by (simp add: foreach_append server_line_def seqE_def split: sum.split)
  ultimately show ?case using IH(2) line by simp
qed simp

definition resolv_lines :: "net_config \<Rightarrow> string" where
  "resolv_lines c = search_line (domain c) @ concat (map (\<lambda>i. server_line (dns c ! i)) [0..<min (dnsCount c) 3])"

text \<open>The buffer of 256 bytes is large enough.\<close>

lemma resolv_written: "length (domain c) < 64 \<Longrightarrow> resolv_text c = Inr (resolv_lines c)"
proof -
  assume dom: "length (domain c) < 64"
  have "(if domain c \<noteq> [] then print_at 256 (''search '' @ domain c @ eol) ([], 0) else Inr ([], 0)) =
      Inr (search_line (domain c), length (search_line (domain c)))"
    using print_at_fits [of "[]" "''search '' @ domain c @ eol" 256] dom by (simp add: search_line_def eol_def)
  moreover have "length (search_line (domain c)) \<le> 71" using dom by (simp add: search_line_def eol_def)
  ultimately show ?thesis
    using server_lines_printed [of "min (dnsCount c) 3" "search_line (domain c)" "dns c"] by (simp add: resolv_text_def resolv_lines_def)
qed

section \<open>nslookup reads it\<close>

lemma newline [simp]: "char_of (10 :: nat) = CHR 0x0A"
  by code_simp

lemma file_lines_line:
  assumes "CHR 0x0A \<notin> set line" "length line < 255"
  shows "file_lines (line @ eol @ rest) = (line @ eol) # file_lines rest"
proof -
  have while: "takeWhile (\<lambda>c. c \<noteq> CHR 0x0A) (line @ eol @ rest) = line"
    using assms(1) by (auto simp: eol_def takeWhile_append)
  obtain c cs where cs: "line @ eol @ rest = c # cs" by (cases "line @ eol @ rest") (simp_all add: eol_def)
  have n: "min 255 (if length line < length (c # cs) then length line + 1 else length line) = length line + 1"
    using assms(2) arg_cong [OF cs, of length] by (simp add: eol_def)
  have "file_lines (c # cs) = take (length line + 1) (c # cs) # file_lines (drop (length line + 1) (c # cs))"
    using while n unfolding cs by (simp del: file_lines.simps(1) add: Let_def)
  then show ?thesis unfolding cs [symmetric] by (simp add: eol_def)
qed

lemma scan_search: "scan_nameserver (''search '' @ d) = None"
  by (simp add: scan_nameserver_def is_blank_def starts_with_def)

lemma digit_not_blank: "d < 10 \<Longrightarrow> \<not> is_blank (digit_char d)" "\<not> is_blank CHR ''.''"
  by (auto simp: is_blank_def)

lemma ip4_not_blank: "c \<in> set (ip4 b) \<Longrightarrow> \<not> is_blank c"
  using digits_decimal digit_not_blank by (auto simp: ip4_def)

lemma scan_server: "scan_nameserver (server_line b) = Some (ip4 b)"
proof -
  have blanks: "is_blank CHR '' ''" "is_blank (char_of (10 :: nat))" by (simp_all add: is_blank_def)
  have "takeWhile (\<lambda>c. \<not> is_blank c) (ip4 b @ eol) = ip4 b"
    using ip4_not_blank blanks(2) by (auto simp: eol_def takeWhile_append)
  moreover obtain c cs where c: "ip4 b = c # cs" using decimal_nonempty [of "unat (b ! 0)"] by (cases "ip4 b") (auto simp: ip4_def)
  moreover have "\<not> is_blank c" using ip4_not_blank [of c b] c by simp
  ultimately have "takeWhile (\<lambda>c. \<not> is_blank c) (dropWhile is_blank (CHR '' '' # ip4 b @ eol)) = ip4 b"
    using blanks(1) by simp
  moreover have "take 63 (ip4 b) = ip4 b" using ip4_length [of b] by simp
  ultimately show ?thesis
    using c by (simp add: scan_nameserver_def server_line_def starts_with_def) (simp add: is_blank_def)
qed

text \<open>
  C17: The name server nslookup asks is the first one of the configuration the network manager
  applied: from the text it writes to \<open>/etc/resolv.conf\<close>, nslookup reads the address back, and
  none exactly when the configuration has no name server.
\<close>

theorem resolv_roundtrip:
  assumes "good_config c" and "\<And>b. b \<in> set (dns c) \<Longrightarrow> pton4 lib (ip4 b) = Some b"
  shows "\<exists>text. resolv_text c = Inr text \<and>
    default_server lib (Some text) = (if dnsCount c = 0 then None else Some (dns c ! 0))"
proof -
  let ?servers = "concat (map (\<lambda>i. server_line (dns c ! i)) [0..<min (dnsCount c) 3])"
  have lines: "file_lines (resolv_lines c) =
      (if domain c = [] then file_lines ?servers else (''search '' @ domain c @ eol) # file_lines ?servers)"
    using assms(1) file_lines_line [of "''search '' @ domain c" ?servers]
    by (auto simp: resolv_lines_def search_line_def good_config_def)
  have read: "first_server lib (file_lines ?servers) = (if dnsCount c = 0 then None else Some (dns c ! 0))"
  proof (cases "dnsCount c")
    case (Suc n)
    then have "[0..<min (dnsCount c) 3] = 0 # [1..<min (dnsCount c) 3]" by (simp add: upt_conv_Cons)
    then obtain rest where "?servers = (''nameserver '' @ ip4 (dns c ! 0)) @ eol @ rest" by (simp add: server_line_def)
    moreover have "CHR 0x0A \<notin> set (''nameserver '' @ ip4 (dns c ! 0))"
      using ip4_not_blank [of "CHR 0x0A" "dns c ! 0"] by (auto simp: is_blank_def)
    ultimately have "file_lines ?servers = server_line (dns c ! 0) # file_lines rest"
      using file_lines_line [of "''nameserver '' @ ip4 (dns c ! 0)" rest] ip4_length [of "dns c ! 0"]
      by (simp add: server_line_def)
    moreover have "dns c ! 0 \<in> set (dns c)" using assms(1) by (intro nth_mem) (auto simp: good_config_def)
    ultimately show ?thesis using Suc assms(2) by (simp add: scan_server)
  qed simp
  have "resolv_text c = Inr (resolv_lines c)" using assms(1) by (intro resolv_written) (simp add: good_config_def)
  moreover have "default_server lib (Some (resolv_lines c)) = (if dnsCount c = 0 then None else Some (dns c ! 0))"
    using read scan_search [of "domain c @ eol"] by (simp add: default_server_def lines)
  ultimately show ?thesis by blast
qed

section \<open>The files on the disk\<close>

text \<open>What the calls do to the files, by their documentation: the contents by path, the path of a descriptor.\<close>

record files =
  contents :: "string \<Rightarrow> string option"
  opened :: "nat \<Rightarrow> string option"

fun effect :: "nm_call \<times> nm_reply \<Rightarrow> files \<Rightarrow> files" where
  "effect (OpenNew p, r) s =
     (if number r = nm_fail then s
      else s\<lparr>contents := (contents s)(p \<mapsto> []), opened := (opened s)(number r \<mapsto> p)\<rparr>)"
| "effect (WriteTo fd d, r) s =
     (case opened s fd of
        Some p \<Rightarrow> if syscall_failed (number r) then s
          else s\<lparr>contents := (contents s)(p := map_option (\<lambda>t. t @ take (number r) d) (contents s p))\<rparr>
      | None \<Rightarrow> s)"
| "effect (CloseIt fd, r) s = s\<lparr>opened := (opened s)(fd := None)\<rparr>"
| "effect (Rename a b, r) s =
     (if syscall_failed (number r) then s else s\<lparr>contents := (contents s)(b := contents s a, a := None)\<rparr>)"
| "effect _ s = s"

definition files_after :: "nm_trace \<Rightarrow> files" where
  "files_after tr = fold effect tr \<lparr>contents = (\<lambda>p. None), opened = (\<lambda>fd. None)\<rparr>"

definition file_at :: "string \<Rightarrow> nm_trace \<Rightarrow> string option" where
  "file_at p tr = contents (files_after tr) p"

text \<open>What a reader can have found at a path: the contents after every call.\<close>

definition seen :: "string \<Rightarrow> nm_trace \<Rightarrow> string option set" where
  "seen p tr = {file_at p tr' |tr'. prefix tr' tr}"

lemma files_after_snoc: "files_after (tr @ [x]) = effect x (files_after tr)"
  by (simp add: files_after_def)

lemma seen_Nil: "seen p [] = {None}"
  by (auto simp: seen_def file_at_def files_after_def)

lemma seen_now: "file_at p tr \<in> seen p tr"
  by (auto simp: seen_def)

lemma seen_snoc: "seen p (tr @ [x]) = insert (file_at p (tr @ [x])) (seen p tr)"
  by (auto simp: seen_def)

text \<open>Calls that leave the files alone.\<close>

fun file_call :: "nm_call \<Rightarrow> bool" where
  "file_call (OpenNew p) = True"
| "file_call (WriteTo fd d) = True"
| "file_call (CloseIt fd) = True"
| "file_call (Rename a b) = True"
| "file_call c = False"

lemma effect_other: "\<not> file_call c \<Longrightarrow> effect (c, r) s = s"
  by (cases c) simp_all

lemma other_call:
  assumes "\<not> file_call c"
  shows "files_after (tr @ [(c, r)]) = files_after tr" "seen p (tr @ [(c, r)]) = seen p tr"
proof -
  show same: "files_after (tr @ [(c, r)]) = files_after tr" by (simp add: files_after_snoc effect_other assms)
  have "file_at p tr \<in> seen p tr" by (auto simp: seen_def)
  then show "seen p (tr @ [(c, r)]) = seen p tr" using same by (auto simp: seen_snoc file_at_def)
qed

lemma nm_request_other:
  "\<not> file_call c \<Longrightarrow> files_after (snd (nm_request env c tr)) = files_after tr \<and> seen p (snd (nm_request env c tr)) = seen p tr"
  by (simp add: nm_request_def Let_def other_call)

lemma printed_other: "files_after (printed env line tr) = files_after tr" "seen p (printed env line tr) = seen p tr"
  by (simp_all add: printed_def nm_request_other)

section \<open>Replacing a file\<close>

definition fresh_path :: "string \<Rightarrow> string" where "fresh_path path = path @ ''.new''"

lemma not_fresh [simp]: "fresh_path path \<noteq> path" "path \<noteq> fresh_path path"
  by (simp_all add: fresh_path_def)

text \<open>Opening and renaming work; of what is written the kernel takes a part.\<close>

definition opens_files :: "nm_env \<Rightarrow> bool" where
  "opens_files env \<longleftrightarrow> (\<forall>tr p. number (env tr (OpenNew p)) \<noteq> nm_fail) \<and> (\<forall>tr a b. number (env tr (Rename a b)) = 0)"

definition taken_of :: "nm_reply \<Rightarrow> string \<Rightarrow> string" where
  "taken_of r d = (if syscall_failed (number r) then [] else take (number r) d)"

lemma not_failed_0 [simp]: "\<not> syscall_failed 0"
  by (simp add: syscall_failed_def)

lemma write_new_trace:
  assumes "opens_files env" "length path < 60"
  shows "\<exists>r3 r4. number r4 = 0 \<and> write_new env path d tr =
    (let temp = fresh_path path; r1 = env tr (OpenNew temp); r2 = env (tr @ [(OpenNew temp, r1)]) (WriteTo (number r1) d)
     in tr @ [(OpenNew temp, r1), (WriteTo (number r1) d, r2), (CloseIt (number r1), r3), (Rename temp path, r4)])"
proof -
  have "bounded_copy 64 (path @ ''.new'') = fresh_path path" using assms(2) by (simp add: fresh_path_def)
  moreover have "number (env tr (OpenNew p)) \<noteq> nm_fail" for p using assms(1) by (simp add: opens_files_def)
  moreover have "number (env t (Rename a b)) = 0" for t a b using assms(1) by (simp add: opens_files_def)
  ultimately show ?thesis by (simp add: write_new_def nm_request_def Let_def)
qed

text \<open>
  The file becomes what was taken of the new contents, other files stay, and nobody finds anything
  at the path but the old and the new.
\<close>

lemma write_new_files:
  assumes "opens_files env" "length path < 60"
  shows "\<exists>r t. (\<exists>fd. r = env t (WriteTo fd d)) \<and> file_at path (write_new env path d tr) = Some (taken_of r d) \<and>
    seen path (write_new env path d tr) \<subseteq> insert (Some (taken_of r d)) (seen path tr) \<and>
    (\<forall>p. p \<noteq> path \<and> p \<noteq> fresh_path path \<longrightarrow> file_at p (write_new env path d tr) = file_at p tr \<and> seen p (write_new env path d tr) = seen p tr)"
proof -
  define temp where "temp = fresh_path path"
  define r1 where "r1 = env tr (OpenNew temp)"
  define t1 where "t1 = tr @ [(OpenNew temp, r1)]"
  define r2 where "r2 = env t1 (WriteTo (number r1) d)"
  define t2 where "t2 = t1 @ [(WriteTo (number r1) d, r2)]"
  obtain r3 r4 where r: "number r4 = 0" "write_new env path d tr = (t2 @ [(CloseIt (number r1), r3)]) @ [(Rename temp path, r4)]"
    using write_new_trace [OF assms, of d tr] by (auto simp: Let_def t2_def t1_def r2_def r1_def temp_def)
  define t3 where "t3 = t2 @ [(CloseIt (number r1), r3)]"
  define t4 where "t4 = t3 @ [(Rename temp path, r4)]"
  have ok: "number r1 \<noteq> nm_fail" using assms(1) by (simp add: opens_files_def r1_def)
  have after: "files_after t1 = effect (OpenNew temp, r1) (files_after tr)"
    "files_after t2 = effect (WriteTo (number r1) d, r2) (files_after t1)"
    "files_after t3 = effect (CloseIt (number r1), r3) (files_after t2)"
    "files_after t4 = effect (Rename temp path, r4) (files_after t3)"
    by (simp_all only: t1_def t2_def t3_def t4_def files_after_snoc)
  have other: "temp \<noteq> path" "path \<noteq> temp" by (simp_all add: temp_def)
  have at: "file_at p t1 = (if p = temp then Some [] else file_at p tr)"
    "file_at p t2 = (if p = temp then Some (taken_of r2 d) else file_at p tr)"
    "file_at p t3 = (if p = temp then Some (taken_of r2 d) else file_at p tr)"
    "file_at p t4 = (if p = temp then None else if p = path then Some (taken_of r2 d) else file_at p tr)" for p
    using ok r(1) other by (simp_all add: file_at_def after taken_of_def)
  have here: "file_at p tr \<in> seen p tr" for p by (auto simp: seen_def)
  have "seen p t4 = insert (file_at p t4) (seen p tr)" if "p \<noteq> temp" for p
    using at(1-3) [of p] here [of p] that
    by (simp add: t4_def t3_def t2_def t1_def seen_snoc insert_absorb del: append_assoc)
  then show ?thesis
    unfolding r(2) t3_def [symmetric] t4_def [symmetric] temp_def [symmetric]
    using at(4) here other by (intro exI [of _ r2] exI [of _ t1]) (auto simp: insert_absorb r2_def)
qed

text \<open>
  Whatever the calls answer: the file keeps its contents or becomes a first part of the new contents, nobody finds
  anything else at the path, and other files stay.
\<close>

lemma write_new_parts:
  assumes "length path < 60"
  shows "\<exists>part. prefix part d \<and>
    file_at path (write_new env path d tr) \<in> {file_at path tr, Some part} \<and>
    seen path (write_new env path d tr) \<subseteq> insert (Some part) (seen path tr) \<and>
    (\<forall>p. p \<noteq> path \<and> p \<noteq> fresh_path path \<longrightarrow> file_at p (write_new env path d tr) = file_at p tr \<and> seen p (write_new env path d tr) = seen p tr)"
proof -
  define temp where "temp = fresh_path path"
  define r1 where "r1 = env tr (OpenNew temp)"
  define t1 where "t1 = tr @ [(OpenNew temp, r1)]"
  define r2 where "r2 = env t1 (WriteTo (number r1) d)"
  define t2 where "t2 = t1 @ [(WriteTo (number r1) d, r2)]"
  define r3 where "r3 = env t2 (CloseIt (number r1))"
  define t3 where "t3 = t2 @ [(CloseIt (number r1), r3)]"
  define r4 where "r4 = env t3 (Rename temp path)"
  define t4 where "t4 = t3 @ [(Rename temp path, r4)]"
  have temp: "bounded_copy 64 (path @ ''.new'') = temp" using assms by (simp add: temp_def fresh_path_def)
  have written: "write_new env path d tr =
      (if number r1 = nm_fail then printed env (''[network.manager] cannot write '' @ temp @ eol) t1
       else if syscall_failed (number r4) then printed env (''[network.manager] cannot rename '' @ temp @ eol) t4 else t4)"
    unfolding write_new_def temp
    by (simp add: nm_request_def Let_def r1_def t1_def r2_def t2_def r3_def t3_def r4_def t4_def)
  have other: "temp \<noteq> path" "path \<noteq> temp" by (simp_all add: temp_def)
  have after: "files_after t1 = effect (OpenNew temp, r1) (files_after tr)"
    "files_after t2 = effect (WriteTo (number r1) d, r2) (files_after t1)"
    "files_after t3 = effect (CloseIt (number r1), r3) (files_after t2)"
    "files_after t4 = effect (Rename temp path, r4) (files_after t3)"
    by (simp_all only: t1_def t2_def t3_def t4_def files_after_snoc)
  have part: "prefix (taken_of r2 d) d" by (simp add: taken_of_def take_is_prefix)
  show ?thesis
  proof (cases "number r1 = nm_fail")
    case True
    then have "files_after t1 = files_after tr" by (simp add: after)
    then have "file_at p (write_new env path d tr) = file_at p tr" "seen p (write_new env path d tr) = seen p tr" for p
      using True seen_now [of p tr] by (auto simp: written printed_other file_at_def t1_def seen_snoc)
    then show ?thesis by (metis insertI1 part subset_insertI)
  next
    case False
    have at: "file_at p t1 = (if p = temp then Some [] else file_at p tr)"
      "file_at p t2 = (if p = temp then Some (taken_of r2 d) else file_at p tr)"
      "file_at p t3 = (if p = temp then Some (taken_of r2 d) else file_at p tr)"
      "file_at p t4 = (if syscall_failed (number r4) then if p = temp then Some (taken_of r2 d) else file_at p tr
         else if p = temp then None else if p = path then Some (taken_of r2 d) else file_at p tr)" for p
      using False other by (simp_all add: file_at_def after taken_of_def)
    have "seen p t4 = insert (file_at p t4) (insert (file_at p t3) (insert (file_at p t2) (insert (file_at p t1) (seen p tr))))" for p
      by (simp add: t4_def t3_def t2_def t1_def seen_snoc del: append_assoc)
    then have seen: "seen path t4 \<subseteq> insert (Some (taken_of r2 d)) (seen path tr)"
      "p \<noteq> path \<Longrightarrow> p \<noteq> temp \<Longrightarrow> seen p t4 = seen p tr" for p
      using seen_now [of p tr] seen_now [of path tr] other by (auto simp: at)
    have same: "file_at p (write_new env path d tr) = file_at p t4" "seen p (write_new env path d tr) = seen p t4" for p
      using False by (simp_all add: written printed_other file_at_def)
    have "file_at path t4 \<in> {file_at path tr, Some (taken_of r2 d)}" using other by (simp add: at)
    moreover have "file_at p t4 = file_at p tr" if "p \<noteq> path" "p \<noteq> temp" for p using that by (simp add: at)
    ultimately show ?thesis unfolding same using part seen by (intro exI [of _ "taken_of r2 d"]) (simp add: temp_def)
  qed
qed

lemma write_new_elsewhere:
  "length path < 60 \<Longrightarrow> p \<noteq> path \<Longrightarrow> p \<noteq> fresh_path path \<Longrightarrow> seen p (write_new env path d tr) = seen p tr"
  using write_new_parts [of path d env tr] by blast

text \<open>Writes that are taken whole.\<close>

definition writes_whole :: "nm_env \<Rightarrow> bool" where
  "writes_whole env \<longleftrightarrow> (\<forall>tr fd d. length d < 2 ^ 32 \<longrightarrow> number (env tr (WriteTo fd d)) = length d)"

lemma write_new_whole:
  assumes "opens_files env" "writes_whole env" "length path < 60" "length d < 2 ^ 32"
  shows "file_at path (write_new env path d tr) = Some d"
    and "seen path (write_new env path d tr) \<subseteq> insert (Some d) (seen path tr)"
    and "p \<noteq> path \<Longrightarrow> p \<noteq> fresh_path path \<Longrightarrow> file_at p (write_new env path d tr) = file_at p tr"
    and "p \<noteq> path \<Longrightarrow> p \<noteq> fresh_path path \<Longrightarrow> seen p (write_new env path d tr) = seen p tr"
proof -
  have "taken_of (env t (WriteTo fd d)) d = d" for t fd
    using assms(2,4) by (simp add: writes_whole_def taken_of_def syscall_failed_def)
  then show "file_at path (write_new env path d tr) = Some d"
    and "seen path (write_new env path d tr) \<subseteq> insert (Some d) (seen path tr)"
    and "p \<noteq> path \<Longrightarrow> p \<noteq> fresh_path path \<Longrightarrow> file_at p (write_new env path d tr) = file_at p tr"
    and "p \<noteq> path \<Longrightarrow> p \<noteq> fresh_path path \<Longrightarrow> seen p (write_new env path d tr) = seen p tr"
    using write_new_files [OF assms(1,3), of d tr] by metis+
qed

section \<open>Applying a configuration\<close>

text \<open>The configurations the kernel reported, in order, and how often the clock's thread was started.\<close>

fun config_of :: "nm_call \<times> nm_reply \<Rightarrow> net_config option" where
  "config_of (GetConfig k, Config c) = Some c"
| "config_of _ = None"

definition configs :: "nm_trace \<Rightarrow> net_config list" where
  "configs tr = List.map_filter config_of tr"

definition starts :: "nm_trace \<Rightarrow> nat" where
  "starts tr = length (filter (\<lambda>cr. fst cr = StartThread) tr)"

lemma configs_append [simp]: "configs (tr @ tr') = configs tr @ configs tr'" "configs [] = []"
  by (simp_all add: configs_def map_filter_def)

lemma configs_Cons [simp]: "configs ((c, r) # tr) = (case config_of (c, r) of None \<Rightarrow> configs tr | Some x \<Rightarrow> x # configs tr)"
  by (simp add: configs_def map_filter_def split: option.split)

lemma starts_append [simp]: "starts (tr @ tr') = starts tr + starts tr'" "starts [] = 0"
  "starts ((c, r) # tr) = (if c = StartThread then Suc (starts tr) else starts tr)"
  by (simp_all add: starts_def)

definition resolv_path :: string where "resolv_path = ''/etc/resolv.conf''"
definition hosts_path :: string where "hosts_path = ''/etc/hosts''"

lemma write_new_quiet: "configs (write_new env path d tr) = configs tr" "starts (write_new env path d tr) = starts tr"
  by (simp_all add: write_new_def printed_def nm_request_def Let_def)

lemma printed_quiet: "configs (printed env line tr) = configs tr" "starts (printed env line tr) = starts tr"
  by (simp_all add: printed_def nm_request_def Let_def)

lemma texts_small: "length (domain c) < 64 \<Longrightarrow> length (resolv_lines c) < 2 ^ 32" "length (hosts_text c) < 2 ^ 32"
proof -
  have "length (concat (map (\<lambda>i. server_line (dns c ! i)) [0..<min (dnsCount c) 3])) \<le> min (dnsCount c) 3 * 27"
    using server_lines_printed [of "min (dnsCount c) 3" "[]" "dns c"] by simp
  also have "\<dots> \<le> 81" by simp
  finally show "length (domain c) < 64 \<Longrightarrow> length (resolv_lines c) < 2 ^ 32"
    by (simp add: resolv_lines_def search_line_def eol_def)
  have "length (hosts_text c) < 128" unfolding hosts_text_def by (rule bounded_copy_bound) simp
  then show "length (hosts_text c) < 2 ^ 32" by simp
qed

text \<open>Both files hold the configuration.\<close>

definition holds_config :: "net_config \<Rightarrow> nm_trace \<Rightarrow> bool" where
  "holds_config c tr \<longleftrightarrow> file_at resolv_path tr = Some (resolv_lines c) \<and> file_at hosts_path tr = Some (hosts_text c)"

lemma paths_apart: "resolv_path \<noteq> hosts_path" "resolv_path \<noteq> fresh_path hosts_path" "hosts_path \<noteq> fresh_path resolv_path"
  "length resolv_path < 60" "length hosts_path < 60"
  by (simp_all add: resolv_path_def hosts_path_def fresh_path_def)

lemma apply_config_trace:
  "length (domain c) < 64 \<Longrightarrow> apply_config env c tr = Inr (printed env (config_line c)
     (write_new env hosts_path (hosts_text c) (write_new env resolv_path (resolv_lines c) tr)))"
  by (simp add: apply_config_def resolv_written resolv_path_def hosts_path_def)

lemma apply_config_files:
  assumes "opens_files env" "writes_whole env" "length (domain c) < 64" "apply_config env c tr = Inr tr'"
  shows "holds_config c tr' \<and>
    seen resolv_path tr' \<subseteq> insert (Some (resolv_lines c)) (seen resolv_path tr) \<and>
    seen hosts_path tr' \<subseteq> insert (Some (hosts_text c)) (seen hosts_path tr)"
proof -
  let ?t1 = "write_new env resolv_path (resolv_lines c) tr"
  let ?t2 = "write_new env hosts_path (hosts_text c) ?t1"
  note one = write_new_whole [OF assms(1,2) paths_apart(4) texts_small(1) [OF assms(3)], where tr = tr]
  note two = write_new_whole [OF assms(1,2) paths_apart(5) texts_small(2), where tr = ?t1]
  have tr': "tr' = printed env (config_line c) ?t2" using assms(4) apply_config_trace [OF assms(3)] by simp
  have "holds_config c tr'"
    using one(1) two(1) two(3) [of resolv_path] paths_apart by (simp add: holds_config_def file_at_def printed_other tr')
  moreover have "seen resolv_path tr' = seen resolv_path ?t1" using two(4) [of resolv_path] paths_apart by (simp add: printed_other tr')
  moreover have "seen hosts_path tr' \<subseteq> insert (Some (hosts_text c)) (seen hosts_path tr)"
    using two(2) one(4) [of hosts_path] paths_apart by (simp add: printed_other tr')
  ultimately show ?thesis using one(2) by simp
qed

text \<open>What is seen of a text written at any odds: nothing, or a first part of it.\<close>

definition parts_of :: "string set \<Rightarrow> string option set" where
  "parts_of texts = insert None {Some part |part t. t \<in> texts \<and> prefix part t}"

lemma apply_config_parts:
  assumes "length (domain c) < 64" "apply_config env c tr = Inr tr'"
  shows "seen resolv_path tr' \<subseteq> seen resolv_path tr \<union> parts_of {resolv_lines c}"
    and "seen hosts_path tr' \<subseteq> seen hosts_path tr \<union> parts_of {hosts_text c}"
proof -
  let ?t1 = "write_new env resolv_path (resolv_lines c) tr"
  let ?t2 = "write_new env hosts_path (hosts_text c) ?t1"
  have tr': "tr' = printed env (config_line c) ?t2" using assms apply_config_trace by simp
  note one = write_new_parts [OF paths_apart(4), of "resolv_lines c" env tr]
  note two = write_new_parts [OF paths_apart(5), of "hosts_text c" env ?t1]
  have "seen resolv_path tr' = seen resolv_path ?t1"
    by (simp only: tr' printed_other write_new_elsewhere [OF paths_apart(5,1,2)])
  then show "seen resolv_path tr' \<subseteq> seen resolv_path tr \<union> parts_of {resolv_lines c}" using one by (auto simp: parts_of_def)
  have "seen hosts_path ?t1 = seen hosts_path tr"
    by (rule write_new_elsewhere [OF paths_apart(4) paths_apart(1) [symmetric] paths_apart(3)])
  then show "seen hosts_path tr' \<subseteq> seen hosts_path tr \<union> parts_of {hosts_text c}"
    using two by (auto simp: parts_of_def printed_other tr')
qed

section \<open>The watching thread\<close>

definition same_files :: "nm_trace \<Rightarrow> nm_trace \<Rightarrow> bool" where
  "same_files t t' \<longleftrightarrow> files_after t = files_after t' \<and> (\<forall>p. seen p t = seen p t')"

text \<open>A turn finds nothing new, or applies a configuration of another generation.\<close>

definition kept_turn :: "watcher \<Rightarrow> watcher \<Rightarrow> bool" where
  "kept_turn w w' \<longleftrightarrow> known w' = known w \<and> clockSynced w' = clockSynced w \<and> same_files (wtrace w') (wtrace w) \<and>
     starts (wtrace w') = starts (wtrace w) \<and>
     (configs (wtrace w') = configs (wtrace w) \<or> (\<exists>c. configs (wtrace w') = configs (wtrace w) @ [c] \<and> cgeneration c = known w))"

definition applied_turn :: "nm_env \<Rightarrow> watcher \<Rightarrow> net_config \<Rightarrow> watcher \<Rightarrow> bool" where
  "applied_turn env w c w' \<longleftrightarrow>
     (\<exists>t t'. same_files t (wtrace w) \<and> apply_config env c t = Inr t' \<and> same_files (wtrace w') t') \<and>
     known w' = cgeneration c \<and> configs (wtrace w') = configs (wtrace w) @ [c] \<and> length (domain c) < 64 \<and>
     starts (wtrace w') = starts (wtrace w) + (if clockSynced w' \<noteq> clockSynced w then 1 else 0) \<and>
     (clockSynced w \<longrightarrow> clockSynced w')"

lemma apply_config_quiet:
  assumes "length (domain c) < 64" "apply_config env c tr = Inr tr'"
  shows "configs tr' = configs tr" "starts tr' = starts tr"
proof -
  have "tr' = printed env (config_line c) (write_new env hosts_path (hosts_text c) (write_new env resolv_path (resolv_lines c) tr))"
    using assms apply_config_trace by simp
  then show "configs tr' = configs tr" "starts tr' = starts tr" by (simp_all add: write_new_quiet printed_quiet)
qed

lemma watch_turn_cases:
  assumes "\<forall>tr k c. env tr (GetConfig k) = Config c \<longrightarrow> length (domain c) < 64"
  shows "\<exists>w'. watch_turn env w = Inr w' \<and> (kept_turn w w' \<or> (\<exists>c. applied_turn env w c w'))"
proof -
  let ?r = "env (wtrace w) (GetConfig (known w))"
  let ?tr = "wtrace w @ [(GetConfig (known w), ?r)]"
  have get: "nm_request env (GetConfig (known w)) (wtrace w) = (?r, ?tr)" by (simp add: nm_request_def Let_def)
  have same: "same_files ?tr (wtrace w)" by (simp add: same_files_def other_call)
  show ?thesis
  proof (cases "\<exists>c. ?r = Config c")
    case True
    then obtain c where Config: "?r = Config c" by blast
    have dom: "length (domain c) < 64" using assms Config by blast
    show ?thesis
    proof (cases "cgeneration c = known w")
      case True
      then have "watch_turn env w = Inr (w\<lparr>wtrace := ?tr\<rparr>)" using get Config by (simp add: watch_turn_def)
      moreover have "kept_turn w (w\<lparr>wtrace := ?tr\<rparr>)" using True Config same by (simp add: kept_turn_def)
      ultimately show ?thesis by blast
    next
      case False
      obtain t' where t': "apply_config env c ?tr = Inr t'" using apply_config_trace [OF dom] by blast
      have quiet: "configs t' = configs (wtrace w) @ [c]" "starts t' = starts (wtrace w)"
        using apply_config_quiet [OF dom t'] Config by simp_all
      define started where "started = t' @ [(StartThread, env t' StartThread)]"
      define fin where "fin = (if number (env t' StartThread) = nm_fail
        then printed env (''[network.manager] thread_create failed'' @ eol) started else started)"
      have fin: "configs fin = configs t'" "starts fin = starts t' + 1" "same_files fin t'"
        by (simp_all add: fin_def started_def printed_quiet printed_other other_call same_files_def)
      have turn: "watch_turn env w = Inr (if \<not> clockSynced w \<and> ifUp c then \<lparr>known = cgeneration c, clockSynced = True, wtrace = fin\<rparr>
          else \<lparr>known = cgeneration c, clockSynced = clockSynced w, wtrace = t'\<rparr>)"
        using get Config False t' by (simp add: watch_turn_def nm_request_def Let_def fin_def started_def)
      have "applied_turn env w c \<lparr>known = cgeneration c, clockSynced = clockSynced w, wtrace = t'\<rparr>"
        using same t' quiet dom by (auto simp: applied_turn_def same_files_def)
      moreover have "applied_turn env w c \<lparr>known = cgeneration c, clockSynced = True, wtrace = fin\<rparr>" if "\<not> clockSynced w"
        using that same t' quiet dom fin unfolding applied_turn_def by (intro conjI exI [of _ ?tr] exI [of _ t']) simp_all
      ultimately show ?thesis using turn by (cases "\<not> clockSynced w \<and> ifUp c") auto
    qed
  next
    case False
    let ?t = "snd (nm_request env (SleepFor 1000) ?tr)"
    have "config_of (GetConfig k, ?r) = None" for k using False by (cases ?r) auto
    then have "kept_turn w (w\<lparr>wtrace := ?t\<rparr>)"
      using same by (simp add: kept_turn_def same_files_def nm_request_def Let_def other_call del: append_assoc)
    moreover have "watch_turn env w = Inr (w\<lparr>wtrace := ?t\<rparr>)"
      using get False by (auto simp: watch_turn_def split: nm_reply.split)
    ultimately show ?thesis by blast
  qed
qed

section \<open>Following the configuration\<close>

text \<open>The invariant of the watching thread when the calls on files work.\<close>

definition follows :: "watcher \<Rightarrow> bool" where
  "follows w \<longleftrightarrow>
     (let tr = wtrace w; cs = configs tr in
      known w = (if cs = [] then 0 else cgeneration (last cs)) \<and>
      (known w \<noteq> 0 \<longrightarrow> (\<exists>c\<in>set cs. cgeneration c = known w \<and> holds_config c tr)) \<and>
      seen resolv_path tr \<subseteq> insert None (Some ` resolv_lines ` set cs) \<and>
      seen hosts_path tr \<subseteq> insert None (Some ` hosts_text ` set cs) \<and>
      starts tr = (if clockSynced w then 1 else 0))"

text \<open>And whatever they answer.\<close>

definition follows_parts :: "watcher \<Rightarrow> bool" where
  "follows_parts w \<longleftrightarrow>
     (let tr = wtrace w; cs = configs tr in
      known w = (if cs = [] then 0 else cgeneration (last cs)) \<and>
      seen resolv_path tr \<subseteq> parts_of (resolv_lines ` set cs) \<and>
      seen hosts_path tr \<subseteq> parts_of (hosts_text ` set cs) \<and>
      starts tr = (if clockSynced w then 1 else 0))"

lemma holds_same: "same_files t t' \<Longrightarrow> holds_config c t = holds_config c t'"
  by (simp add: holds_config_def file_at_def same_files_def)

lemma seen_same: "same_files t t' \<Longrightarrow> seen p t = seen p t'"
  by (simp add: same_files_def)

lemma kept_turn_follows: "kept_turn w w' \<Longrightarrow> follows w \<Longrightarrow> follows w'"
  using holds_same [of "wtrace w'" "wtrace w"] seen_same [of "wtrace w'" "wtrace w"]
  unfolding kept_turn_def follows_def Let_def by auto

lemma parts_of_snoc: "parts_of (f ` set (cs @ [c])) = parts_of (f ` set cs) \<union> parts_of {f c}"
  by (auto simp: parts_of_def)

lemma parts_of_more: "X \<subseteq> parts_of (f ` set cs) \<Longrightarrow> Y \<subseteq> X \<union> parts_of {f c} \<Longrightarrow> Y \<subseteq> parts_of (f ` set (cs @ [c]))"
  unfolding parts_of_snoc by blast

lemma kept_turn_parts:
  assumes "kept_turn w w'" "follows_parts w"
  shows "follows_parts w'"
proof -
  have same: "seen p (wtrace w') = seen p (wtrace w)" for p using assms(1) by (simp add: kept_turn_def same_files_def)
  consider "configs (wtrace w') = configs (wtrace w)"
    | c where "configs (wtrace w') = configs (wtrace w) @ [c]" "cgeneration c = known w"
    using assms(1) by (auto simp: kept_turn_def)
  then show ?thesis
  proof cases
    case 1
    then show ?thesis using assms same unfolding kept_turn_def follows_parts_def Let_def by simp
  next
    case (2 c)
    have "seen resolv_path (wtrace w') \<subseteq> parts_of (resolv_lines ` set (configs (wtrace w')))"
      "seen hosts_path (wtrace w') \<subseteq> parts_of (hosts_text ` set (configs (wtrace w')))"
      using assms(2) unfolding same 2(1) follows_parts_def Let_def parts_of_snoc by blast+
    then show ?thesis using assms 2 unfolding kept_turn_def follows_parts_def Let_def by simp
  qed
qed

lemma applied_turn_follows:
  assumes "opens_files env" "writes_whole env" "applied_turn env w c w'" "follows w"
  shows "follows w'"
proof -
  obtain t t' where t: "same_files t (wtrace w)" "apply_config env c t = Inr t'" "same_files (wtrace w') t'" "length (domain c) < 64"
    using assms(3) by (auto simp: applied_turn_def)
  show ?thesis
    using apply_config_files [OF assms(1,2) t(4,2)] holds_same [OF t(3)] seen_same [OF t(1)] seen_same [OF t(3)] assms(3,4)
    unfolding applied_turn_def follows_def Let_def by (auto split: if_splits)
qed

lemma applied_turn_parts:
  assumes "applied_turn env w c w'" "follows_parts w"
  shows "follows_parts w'"
proof -
  obtain t t' where t: "same_files t (wtrace w)" "apply_config env c t = Inr t'" "same_files (wtrace w') t'" "length (domain c) < 64"
    using assms(1) by (auto simp: applied_turn_def)
  note parts = apply_config_parts [OF t(4,2), unfolded seen_same [OF t(1)] seen_same [OF t(3), symmetric]]
  have "configs (wtrace w') = configs (wtrace w) @ [c]" using assms(1) by (simp add: applied_turn_def)
  moreover have "seen resolv_path (wtrace w') \<subseteq> parts_of (resolv_lines ` set (configs (wtrace w) @ [c]))"
    using assms(2) parts(1) by (intro parts_of_more) (auto simp: follows_parts_def Let_def)
  moreover have "seen hosts_path (wtrace w') \<subseteq> parts_of (hosts_text ` set (configs (wtrace w) @ [c]))"
    using assms(2) parts(2) by (intro parts_of_more) (auto simp: follows_parts_def Let_def)
  ultimately show ?thesis using assms unfolding applied_turn_def follows_parts_def Let_def by simp
qed

text \<open>
  C16: The files follow the kernel's configuration. Whatever configurations the kernel reports (with a domain
  that fits its field of 64 bytes) and whatever the calls on files answer, nobody ever finds anything in
  \<open>/etc/resolv.conf\<close> and \<open>/etc/hosts\<close> but what the manager wrote of a reported configuration's text from its
  beginning on, the generation asked about is the one reported last, and the clock is set at most once. That
  they hold the texts of a configuration with that generation, and that nobody ever finds less than a whole
  text, is so as long as every open and rename succeeds and every write is taken whole: the results of the
  writes are not looked at (\<open>half_written_installed\<close> below), against the comment in the source, and a
  configuration that could not be written is not tried again.
\<close>

theorem files_follow_config:
  assumes "\<forall>tr k c. env tr (GetConfig k) = Config c \<longrightarrow> length (domain c) < 64"
  shows "\<exists>w. watch_turns env n [] = Inr w \<and> follows_parts w \<and> (opens_files env \<and> writes_whole env \<longrightarrow> follows w)"
  unfolding watch_turns_def
proof (rule foreach_rule)
  show "follows_parts \<lparr>known = 0, clockSynced = False, wtrace = []\<rparr> \<and>
      (opens_files env \<and> writes_whole env \<longrightarrow> follows \<lparr>known = 0, clockSynced = False, wtrace = []\<rparr>)"
    by (simp add: follows_parts_def follows_def seen_Nil parts_of_def)
next
  fix i w
  assume "follows_parts w \<and> (opens_files env \<and> writes_whole env \<longrightarrow> follows w)"
  then show "\<exists>w'. watch_turn env w = Inr w' \<and> follows_parts w' \<and> (opens_files env \<and> writes_whole env \<longrightarrow> follows w')"
    using watch_turn_cases [OF assms] kept_turn_follows kept_turn_parts applied_turn_follows applied_turn_parts by meson
qed

text \<open>A network that comes up with an address and two name servers.\<close>

definition up_config :: net_config where
  "up_config = \<lparr>ifUp = True, ifDhcp = True, address = [10, 0, 2, 15], gateway = [10, 0, 2, 2],
     dns = [[10, 0, 2, 3], [9, 9, 9, 9], [0, 0, 0, 0]], dnsCount = 2, domain = ''lan'', cgeneration = 5\<rparr>"

definition up_env :: nm_env where
  "up_env tr c = (case c of
     GetConfig k \<Rightarrow> Config up_config
   | OpenNew p \<Rightarrow> Number 7
   | WriteTo fd d \<Rightarrow> Number (length d)
   | _ \<Rightarrow> Number 0)"

definition number_libc :: libc where
  "number_libc = \<lparr>pton4 = (\<lambda>s. if s = ''10.0.2.3'' then Some [10, 0, 2, 3] else if s = ''9.9.9.9'' then Some [9, 9, 9, 9]
       else if s = ''0.0.0.0'' then Some [0, 0, 0, 0] else None),
     ntop6 = (\<lambda>b. []), milliseconds = (\<lambda>s. 1000)\<rparr>"

theorem resolv_roundtrip_witness:
  "\<exists>text. resolv_text up_config = Inr text \<and> default_server number_libc (Some text) = Some [10, 0, 2, 3]"
proof -
  have "good_config up_config" by (simp add: good_config_def up_config_def)
  moreover have "ip4 [10, 0, 2, 3] = ''10.0.2.3''" "ip4 [9, 9, 9, 9] = ''9.9.9.9''" "ip4 [0, 0, 0, 0] = ''0.0.0.0''" by code_simp+
  then have "pton4 number_libc (ip4 b) = Some b" if "b \<in> set (dns up_config)" for b
    using that by (auto simp: number_libc_def up_config_def)
  ultimately show ?thesis using resolv_roundtrip [of up_config number_libc] by (simp add: up_config_def)
qed

lemma up_env_works: "opens_files up_env"
  by (simp add: opens_files_def up_env_def nm_fail_def)

theorem files_follow_config_witness:
  "\<exists>w. watch_turns up_env 3 [] = Inr w \<and> follows_parts w \<and> follows w"
proof -
  have "\<forall>tr k c. up_env tr (GetConfig k) = Config c \<longrightarrow> length (domain c) < 64" by (simp add: up_env_def up_config_def)
  moreover have "writes_whole up_env" by (simp add: writes_whole_def up_env_def)
  ultimately show ?thesis using files_follow_config [of up_env 3] up_env_works by auto
qed

text \<open>
  The result of the write is not looked at: when the kernel takes only a part of the text, or
  none of it because the disk is full, the file is replaced by that part.
\<close>

theorem half_written_installed:
  assumes "opens_files env" and "length path < 60" and "\<And>t fd. taken_of (env t (WriteTo fd d)) d = part"
  shows "file_at path (write_new env path d tr) = Some part"
  using write_new_files [OF assms(1,2), of d tr] assms(3) by auto

theorem half_written_installed_witness:
  "file_at ''/etc/hosts'' (write_new (\<lambda>tr c. case c of WriteTo fd d \<Rightarrow> Number (2 ^ 64 - 28) | OpenNew p \<Rightarrow> Number 7 | _ \<Rightarrow> Number 0)
     ''/etc/hosts'' ''127.0.0.1 localhost'' []) = Some []"
  by (rule half_written_installed)
    (simp_all add: opens_files_def nm_fail_def taken_of_def syscall_failed_def)

end
