(* ===== verification/Services.thy ===== *)
theory Services
  imports Prelude
begin

text \<open>
  What the service programs share (\<open>src/service-common/include/service_daemon.hpp\<close>, the font, process,
  storage and input managers): a queue registered under a name, and a loop that receives messages and
  replies to the requests among them. The kernel answers a call from all calls and answers so far.
  The locale \<open>service_loop\<close> says what one turn of such a loop does; it is interpreted on each service.
\<close>

section \<open>The kernel\<close>

type_synonym octet = "8 word"

text \<open>\<open>std::IPCMessage\<close>: \<open>asked\<close> is the flag \<open>IPC_MESSAGE_REQUEST\<close>.\<close>

record ipc_message =
  msgId :: nat
  asked :: bool
  msgSize :: nat
  msgData :: "octet list"

text \<open>\<open>std::services::MessageHeader\<close> and the statuses of replies.\<close>

record header =
  hVersion :: nat
  hOpcode :: nat

datatype reply_status = Status_Ok | Status_Bad_Version | Status_Bad_Opcode | Status_Bad_Payload

record hello_reply =
  rHeader :: header
  rStatus :: reply_status
  rName :: string

record proc_info =
  pid :: nat
  ppid :: nat
  uid :: nat
  gid :: nat
  sessionID :: nat
  procState :: nat
  priority :: nat
  procFlags :: nat
  procName :: string

record storage_info =
  present :: bool
  readable :: bool
  writable :: bool
  mounted :: bool
  formatted :: bool
  deviceName :: string
  totalSize :: nat
  sectorSize :: nat
  fsType :: string
  mountPath :: string
  mountError :: int

datatype 'r svc_call = Queue_Create | Event_Queue_Create | Service_Register string nat | Queue_Receive nat bool
  | Queue_Reply nat nat 'r | Close_Handle nat | Serial_Write string | File_Stat string | File_Open string
  | File_Read nat nat | Proc_Info nat | Storage_Info | Storage_Format | Storage_Mount | Sleep_Ms nat | Yield_Cpu
  | Print string

text \<open>A number; a message; the size of a file; bytes of a file; processes, and how many there are; a disk.\<close>

datatype svc_reply = Code nat | Received ipc_message | Size_Of nat | Chunk "octet list"
  | Processes "proc_info list" nat | Disk storage_info

type_synonym 'r svc_trace = "('r svc_call \<times> svc_reply) list"
type_synonym 'r svc_env = "'r svc_trace \<Rightarrow> 'r svc_call \<Rightarrow> svc_reply"

definition svc_ask :: "'r svc_env \<Rightarrow> 'r svc_call \<Rightarrow> 'r svc_trace \<Rightarrow> svc_reply \<times> 'r svc_trace" where
  "svc_ask env c tr = (let r = env tr c in (r, tr @ [(c, r)]))"

definition svc_fail :: nat where "svc_fail = 2 ^ 64 - 1"

fun code :: "svc_reply \<Rightarrow> nat" where
  "code (Code n) = n mod 2 ^ 64"
| "code _ = 0"

definition svc_line :: "'r svc_env \<Rightarrow> string \<Rightarrow> 'r svc_trace \<Rightarrow> 'r svc_trace" where
  "svc_line env s tr = snd (svc_ask env (Serial_Write s) tr)"

definition svc_newline :: string where "svc_newline = [char_of (10 :: nat)]"

text \<open>\<open>write_service_line\<close>: the name in brackets and the text, three writes.\<close>

definition write_service_line :: "'r svc_env \<Rightarrow> string \<Rightarrow> string \<Rightarrow> 'r svc_trace \<Rightarrow> 'r svc_trace" where
  "write_service_line env name suffix tr =
     svc_line env suffix (svc_line env ''] '' (svc_line env name (svc_line env ''['' tr)))"

section \<open>Requests and replies of a run\<close>

text \<open>The replies that a run gave: the queue, the number of the request, the reply.\<close>

fun reply_of :: "'r svc_call \<times> svc_reply \<Rightarrow> (nat \<times> nat \<times> 'r) list" where
  "reply_of (Queue_Reply q i r, _) = [(q, i, r)]"
| "reply_of _ = []"

definition replies :: "'r svc_trace \<Rightarrow> (nat \<times> nat \<times> 'r) list" where
  "replies tr = concat (map reply_of tr)"

text \<open>The replies it owes to the messages it received, when \<open>answer\<close> says what is due to a message.\<close>

fun due_of :: "(ipc_message \<Rightarrow> 'r option) \<Rightarrow> 'r svc_call \<times> svc_reply \<Rightarrow> (nat \<times> nat \<times> 'r) list" where
  "due_of answer (Queue_Receive q b, Received m) = (case answer m of Some r \<Rightarrow> [(q, msgId m, r)] | None \<Rightarrow> [])"
| "due_of answer _ = []"

definition due :: "(ipc_message \<Rightarrow> 'r option) \<Rightarrow> 'r svc_trace \<Rightarrow> (nat \<times> nat \<times> 'r) list" where
  "due answer tr = concat (map (due_of answer) tr)"

fun is_receive :: "'r svc_call \<times> svc_reply \<Rightarrow> bool" where
  "is_receive (Queue_Receive q b, _) = True"
| "is_receive _ = False"

definition receives :: "'r svc_trace \<Rightarrow> nat" where
  "receives tr = length (filter is_receive tr)"

lemma replies_append [simp]: "replies (a @ b) = replies a @ replies b" "replies [] = []"
  by (simp_all add: replies_def)

lemma due_append [simp]: "due f (a @ b) = due f a @ due f b" "due f [] = []"
  by (simp_all add: due_def)

lemma receives_append [simp]: "receives (a @ b) = receives a + receives b" "receives [] = 0"
  by (simp_all add: receives_def)

lemma trace_Cons [simp]:
  "replies (x # tr) = reply_of x @ replies tr" "due f (x # tr) = due_of f x @ due f tr"
  "receives (x # tr) = (if is_receive x then 1 else 0) + receives tr"
  by (simp_all add: replies_def due_def receives_def)

text \<open>A stretch of a run that neither receives nor replies.\<close>

definition quiet :: "'r svc_trace \<Rightarrow> bool" where
  "quiet tr \<longleftrightarrow> (\<forall>x\<in>set tr. reply_of x = [] \<and> \<not> is_receive x)"

lemma due_of_quiet: "\<not> is_receive x \<Longrightarrow> due_of f x = []"
  by (cases "(f, x)" rule: due_of.cases) auto

lemma quiet_counts: "quiet tr \<Longrightarrow> replies tr = [] \<and> due f tr = [] \<and> receives tr = 0"
  by (auto simp: quiet_def replies_def due_def receives_def due_of_quiet filter_empty_conv)

lemma quiet_append [simp]: "quiet (a @ b) \<longleftrightarrow> quiet a \<and> quiet b" "quiet []"
  by (auto simp: quiet_def)

text \<open>A computation that adds such a stretch to the run.\<close>

definition quiet_from :: "'r svc_trace \<Rightarrow> 'r svc_trace \<Rightarrow> bool" where
  "quiet_from tr tr' \<longleftrightarrow> (\<exists>new. tr' = tr @ new \<and> quiet new)"

lemma quiet_from_refl [simp]: "quiet_from tr tr"
  by (simp add: quiet_from_def)

lemma quiet_from_trans: "quiet_from a b \<Longrightarrow> quiet_from b c \<Longrightarrow> quiet_from a c"
  unfolding quiet_from_def by (metis append.assoc quiet_append(1))

lemma quiet_from_ask:
  "reply_of (c, env tr c) = [] \<Longrightarrow> \<not> is_receive (c, env tr c) \<Longrightarrow> quiet_from tr (snd (svc_ask env c tr))"
  by (auto simp: quiet_from_def quiet_def svc_ask_def Let_def)

lemma quiet_from_line [simp]: "quiet_from tr (svc_line env s tr)"
  unfolding svc_line_def by (rule quiet_from_ask) simp_all

lemma quiet_from_service_line [simp]: "quiet_from tr (write_service_line env name s tr)"
  unfolding write_service_line_def by (meson quiet_from_line quiet_from_trans)

text \<open>
  A computation that receives once and gives the reply that is due; it wants to go on unless a message
  or the result of a reply is one that stops the service.
\<close>

definition stopped :: "('r svc_call \<times> svc_reply \<Rightarrow> bool) \<Rightarrow> 'r svc_trace \<Rightarrow> bool" where
  "stopped st tr \<longleftrightarrow> (\<exists>x\<in>set tr. (is_receive x \<or> reply_of x \<noteq> []) \<and> st x)"

definition answers ::
  "(ipc_message \<Rightarrow> 'r option) \<Rightarrow> ('r svc_call \<times> svc_reply \<Rightarrow> bool) \<Rightarrow> 'r svc_trace \<Rightarrow> 'r svc_trace \<Rightarrow> bool \<Rightarrow> bool" where
  "answers f st tr tr' go \<longleftrightarrow>
     (\<exists>new. tr' = tr @ new \<and> replies new = due f new \<and> receives new = 1 \<and> (go \<longleftrightarrow> \<not> stopped st new))"

lemma stopped_append [simp]: "stopped st (a @ b) \<longleftrightarrow> stopped st a \<or> stopped st b" "\<not> stopped st []"
  by (auto simp: stopped_def)

lemma quiet_not_stopped: "quiet tr \<Longrightarrow> \<not> stopped st tr"
  by (auto simp: stopped_def quiet_def)

lemma answers_quiet:
  assumes "answers f st a b go" "quiet_from b c"
  shows "answers f st a c go"
proof -
  from assms obtain new rest where "b = a @ new" "replies new = due f new" "receives new = 1" "go \<longleftrightarrow> \<not> stopped st new"
    "c = b @ rest" "quiet rest"
    unfolding answers_def quiet_from_def by blast
  then show ?thesis using quiet_counts [of rest f] quiet_not_stopped [of rest st]
    unfolding answers_def by (intro exI [of _ "new @ rest"]) simp
qed

lemma answers_nothing:
  "due_of f (Queue_Receive q b, r) = [] \<Longrightarrow> go \<longleftrightarrow> \<not> st (Queue_Receive q b, r) \<Longrightarrow>
     answers f st tr (tr @ [(Queue_Receive q b, r)]) go"
  by (auto simp: answers_def stopped_def)

lemma answers_request:
  "f m = Some x \<Longrightarrow> go \<longleftrightarrow> \<not> st (Queue_Receive q b, Received m) \<and> \<not> st (Queue_Reply q (msgId m) x, r) \<Longrightarrow>
     answers f st tr ((tr @ [(Queue_Receive q b, Received m)]) @ [(Queue_Reply q (msgId m) x, r)]) go"
  by (auto simp: answers_def stopped_def replies_def due_def receives_def)

lemmas answers_line = answers_quiet [OF _ quiet_from_line] answers_quiet [OF _ quiet_from_service_line]

section \<open>Loops\<close>

text \<open>The first \<open>n\<close> turns of a loop whose turns say whether it goes on; and the loop itself.\<close>

fun turns :: "(nat \<Rightarrow> 's \<Rightarrow> 's \<times> bool) \<Rightarrow> nat \<Rightarrow> 's \<Rightarrow> 's \<times> bool" where
  "turns t 0 s = (s, True)"
| "turns t (Suc n) s = (case turns t n s of (s', go) \<Rightarrow> if go then t n s' else (s', False))"

partial_function (option) forever :: "(nat \<Rightarrow> 's \<Rightarrow> 's \<times> bool) \<Rightarrow> nat \<Rightarrow> 's \<Rightarrow> 's option" where
  "forever t n s = (case t n s of (s', go) \<Rightarrow> if go then forever t (n + 1) s' else Some s')"

text \<open>The loop ends exactly when one of its turns stops it.\<close>

lemma forever_turns:
  assumes "forever t k s = Some s'" "turns t k s0 = (s, True)"
  shows "\<exists>n. turns t n s0 = (s', False)"
proof -
  define P where "P = (\<lambda>t k s s'. turns t k s0 = (s, True) \<longrightarrow> (\<exists>n. turns t n s0 = (s', False)))"
  have "P t k s s'"
  proof (rule forever.raw_induct [of P, OF _ assms(1)], goal_cases)
    case (1 loop t k s s')
    obtain s1 go where t: "t k s = (s1, go)" by (cases "t k s")
    show ?case unfolding P_def
    proof
      assume "turns t k s0 = (s, True)"
      then have after: "turns t (Suc k) s0 = (s1, go)" using t by simp
      show "\<exists>n. turns t n s0 = (s', False)"
      proof (cases go)
        case True
        then have "P t (k + 1) s1 s'" using 1(1) 1(2) t by simp
        then show ?thesis using after True by (simp add: P_def)
      next
        case False
        then show ?thesis using 1(2) t after by (intro exI [of _ "Suc k"]) simp
      qed
    qed
  qed
  then show ?thesis using assms(2) by (simp add: P_def)
qed

lemma turns_stay: "turns t n s = (s', False) \<Longrightarrow> turns t (n + k) s = (s', False)"
  by (induction k) auto

lemma turns_forever:
  assumes "turns t k s0 = (s, True)" "turns t (k + Suc n) s0 = (s', False)"
  shows "forever t k s = Some s'"
  using assms
proof (induction n arbitrary: k s)
  case 0
  then show ?case by (subst forever.simps) auto
next
  case (Suc n)
  obtain s1 go where t: "t k s = (s1, go)" by (cases "t k s")
  show ?case
  proof (cases go)
    case True
    have "turns t (k + 1) s0 = (s1, True)" using Suc.prems(1) t True by simp
    moreover have "turns t (k + 1 + Suc n) s0 = (s', False)" using Suc.prems(2) by simp
    ultimately have "forever t (k + 1) s1 = Some s'" by (rule Suc.IH)
    then show ?thesis using t True by (subst forever.simps) simp
  next
    case False
    have stop: "turns t (k + 1) s0 = (s1, False)" using Suc.prems(1) t False by simp
    have "k + Suc (Suc n) = k + 1 + Suc n" by simp
    then have "turns t (k + Suc (Suc n)) s0 = (s1, False)" using turns_stay [OF stop, of "Suc n"] by presburger
    then have "s1 = s'" using Suc.prems(2) by simp
    then show ?thesis using t False by (subst forever.simps) simp
  qed
qed

section \<open>The contract of a service\<close>

locale service_loop =
  fixes turn :: "'r svc_env \<Rightarrow> nat \<Rightarrow> nat \<Rightarrow> 'r svc_trace \<Rightarrow> 'r svc_trace \<times> bool"
    and answer :: "ipc_message \<Rightarrow> 'r option"
    and stops :: "'r svc_call \<times> svc_reply \<Rightarrow> bool"
  assumes turn_answers: "turn env q n tr = (tr', go) \<Longrightarrow> answers answer stops tr tr' go"
begin

text \<open>Whatever the kernel answers, the replies are those that are due, in the order of the requests.\<close>

lemma run_answers:
  assumes "turns (turn env q) n tr = (tr', go)"
  shows "\<exists>new. tr' = tr @ new \<and> replies new = due answer new \<and> (go \<longleftrightarrow> \<not> stopped stops new) \<and>
    receives new \<le> n \<and> (go \<longrightarrow> receives new = n)"
  using assms
proof (induction n arbitrary: tr' go)
  case (Suc n)
  obtain s go' where s: "turns (turn env q) n tr = (s, go')" by (cases "turns (turn env q) n tr")
  obtain new where new: "s = tr @ new" "replies new = due answer new" "go' \<longleftrightarrow> \<not> stopped stops new"
    "receives new \<le> n" "go' \<longrightarrow> receives new = n"
    using Suc.IH [OF s] by blast
  show ?case
  proof (cases go')
    case True
    have "turn env q n s = (tr', go)" using Suc.prems s True by simp
    then obtain new' where "tr' = s @ new'" "replies new' = due answer new'" "receives new' = 1" "go \<longleftrightarrow> \<not> stopped stops new'"
      using turn_answers unfolding answers_def by blast
    then show ?thesis using new True by (intro exI [of _ "new @ new'"]) simp
  next
    case False
    then show ?thesis using Suc.prems s new by (intro exI [of _ new]) auto
  qed
qed auto

text \<open>When nothing it receives stops it, it looks at its queue again and again and does not return.\<close>

lemma steady_run:
  assumes "\<And>x. \<not> stops x"
  shows "\<exists>new. turns (turn env q) n tr = (tr @ new, True) \<and> replies new = due answer new \<and> receives new = n"
  using run_answers [of env q n tr "fst (turns (turn env q) n tr)" "snd (turns (turn env q) n tr)"] assms
  by (cases "turns (turn env q) n tr") (auto simp: stopped_def)

lemma steady_never_returns:
  assumes "\<And>x. \<not> stops x"
  shows "forever (turn env q) 0 tr = None"
proof (rule ccontr)
  assume "forever (turn env q) 0 tr \<noteq> None"
  then obtain tr' where "forever (turn env q) 0 tr = Some tr'" by blast
  then obtain n where "turns (turn env q) n tr = (tr', False)" using forever_turns [of "turn env q" 0 tr tr' tr] by auto
  then show False using steady_run [OF assms, of env q n tr] by auto
qed

end

text \<open>What is due to the messages received.\<close>

fun message_of :: "'r svc_call \<times> svc_reply \<Rightarrow> ipc_message list" where
  "message_of (Queue_Receive q b, Received m) = [m]"
| "message_of _ = []"

definition received :: "'r svc_trace \<Rightarrow> ipc_message list" where
  "received tr = concat (map message_of tr)"

definition owed :: "(ipc_message \<Rightarrow> 'r option) \<Rightarrow> ipc_message list \<Rightarrow> (nat \<times> 'r) list" where
  "owed f ms = concat (map (\<lambda>m. case f m of Some r \<Rightarrow> [(msgId m, r)] | None \<Rightarrow> []) ms)"

lemma owed_append [simp]: "owed f (a @ b) = owed f a @ owed f b" "owed f [] = []"
  by (simp_all add: owed_def)

lemma due_of_owed: "map snd (due_of f x) = owed f (message_of x)"
  by (cases x rule: message_of.cases) (auto simp: owed_def split: option.split)

lemma due_received: "map snd (due f tr) = owed f (received tr)"
  by (induction tr) (simp_all add: due_def received_def due_of_owed)

end
