(* ===== verification/Font_Manager.thy ===== *)
theory Font_Manager
  imports Services
begin

text \<open>
  The font manager, \<open>src/font-manager/src/main.cpp\<close>: it loads a font file and answers requests about the
  font, the measures of a glyph and the rows of its bitmap. Not in the repository and so arguments:
  the font library with its type of fonts (\<open>font_lib\<close>), the layout of the messages (\<open>font_protocol\<close>) and
  the machine's floating point numbers (\<open>float_ops\<close>). Font units and sizes are mathematical integers.
\<close>

section \<open>What the service uses\<close>

record 'f float_ops =
  f_of_int :: "int \<Rightarrow> 'f"
  f_mul :: "'f \<Rightarrow> 'f \<Rightarrow> 'f"
  f_add :: "'f \<Rightarrow> 'f \<Rightarrow> 'f"
  f_trunc :: "'f \<Rightarrow> int"
  f_almost_one :: 'f

record ('i, 'f) font_lib =
  fontOffset :: "octet list \<Rightarrow> int"
  initFont :: "octet list \<Rightarrow> int \<Rightarrow> 'i option"
  vMetrics :: "'i \<Rightarrow> int \<times> int \<times> int"
  scaleFor :: "'i \<Rightarrow> 'f \<Rightarrow> 'f"
  hMetrics :: "'i \<Rightarrow> int \<Rightarrow> int \<times> int"
  bitmapBox :: "'i \<Rightarrow> int \<Rightarrow> 'f \<Rightarrow> int \<times> int \<times> int \<times> int"
  bitmapOf :: "'i \<Rightarrow> 'f \<Rightarrow> int \<Rightarrow> octet list option \<times> int \<times> int"

text \<open>
  The messages: their numbers, how a header is read from the first bytes, and how a request is decoded
  (\<open>decode_message\<close>, which fails when the payload is not that of the request).
\<close>

record font_protocol =
  fVersion :: nat
  opHello :: nat
  opInfo :: nat
  opMetrics :: nat
  opRow :: nat
  serviceName :: string
  nameSize :: nat
  familySize :: nat
  defaultHeight :: nat
  maxRowPixels :: nat
  headerSize :: nat
  headerIn :: "octet list \<Rightarrow> header"
  decodeHello :: "ipc_message \<Rightarrow> header option"
  decodeInfo :: "ipc_message \<Rightarrow> (header \<times> nat) option"
  decodeMetrics :: "ipc_message \<Rightarrow> (header \<times> nat \<times> nat) option"
  decodeRow :: "ipc_message \<Rightarrow> (header \<times> nat \<times> nat \<times> nat) option"

record info_reply =
  iHeader :: header
  iStatus :: reply_status
  iHeight :: nat
  iAscent :: int
  iDescent :: int
  iLineGap :: int
  iBaseline :: int
  iLineHeight :: int
  iCellWidth :: int
  iFamily :: string

record metrics_reply =
  mHeader :: header
  mStatus :: reply_status
  mCodepoint :: nat
  mHeight :: nat
  mWidth :: int
  mRows :: int
  mXOffset :: int
  mYOffset :: int
  mAdvance :: int

record row_reply =
  gHeader :: header
  gStatus :: reply_status
  gCodepoint :: nat
  gRow :: nat
  gHeight :: nat
  gWidth :: nat
  gPixels :: "octet list"

datatype font_reply = Hello_Reply hello_reply | Info_Reply info_reply | Metrics_Reply metrics_reply | Row_Reply row_reply

section \<open>The font\<close>

record 'i loaded_font =
  fontData :: "octet list"
  fontInfo :: 'i
  ascent :: int
  descent :: int
  lineGap :: int

definition kFontPath :: string where "kFontPath = ''/bin/JetBrainsMono-Regular.ttf''"
definition kFontFamily :: string where "kFontFamily = ''JetBrains Mono''"

definition font_line :: "'r svc_env \<Rightarrow> string \<Rightarrow> 'r svc_trace \<Rightarrow> 'r svc_trace" where
  "font_line env suffix tr = svc_line env suffix (svc_line env ''[font.manager] '' tr)"

definition normalize_pixel_height :: "font_protocol \<Rightarrow> nat \<Rightarrow> nat" where
  "normalize_pixel_height P h = (if h = 0 then defaultHeight P else if h < 6 then 6 else if 72 < h then 72 else h)"

text \<open>The bytes of the file, or nothing when a read fails or ends too early.\<close>

fun bytes_got :: "nat \<Rightarrow> svc_reply \<Rightarrow> octet list" where
  "bytes_got n (Chunk bs) = take n bs"
| "bytes_got n _ = []"

function read_font :: "'r svc_env \<Rightarrow> nat \<Rightarrow> nat \<Rightarrow> octet list \<Rightarrow> 'r svc_trace \<Rightarrow> octet list option \<times> 'r svc_trace" where
  "read_font env fd wanted data tr =
     (if length data < wanted
      then let n = wanted - length data; (r, tr) = svc_ask env (File_Read fd n) tr; bs = bytes_got n r
           in if bs = [] then (None, tr) else read_font env fd wanted (data @ bs) tr
      else (Some data, tr))"
  by pat_completeness auto
termination
  by (relation "measure (\<lambda>(env, fd, wanted, data, tr). wanted - length data)") (auto simp: neq_Nil_conv intro!: diff_less_mono2)

declare read_font.simps [simp del]

definition load_font_file :: "('i, 'f) font_lib \<Rightarrow> bool \<Rightarrow> 'r svc_env \<Rightarrow> 'r svc_trace \<Rightarrow> 'i loaded_font option \<times> 'r svc_trace" where
  "load_font_file L memory env tr =
     (let (r, tr) = svc_ask env (File_Stat kFontPath) tr
      in case r of
           Size_Of wanted \<Rightarrow>
             if wanted = 0 then (None, tr)
             else let (r, tr) = svc_ask env (File_Open kFontPath) tr; fd = code r
                  in if fd = svc_fail then (None, tr)
                     else if \<not> memory then (None, snd (svc_ask env (Close_Handle fd) tr))
                     else let (data, tr) = read_font env fd wanted [] tr; (_, tr) = svc_ask env (Close_Handle fd) tr
                          in (case data of
                                None \<Rightarrow> None
                              | Some data \<Rightarrow>
                                  let offset = fontOffset L data
                                  in if offset < 0 then None
                                     else case initFont L data offset of
                                            None \<Rightarrow> None
                                          | Some info \<Rightarrow>
                                              let (a, d, g) = vMetrics L info
                                              in Some \<lparr>fontData = data, fontInfo = info, ascent = a, descent = d, lineGap = g\<rparr>,
                              tr)
         | _ \<Rightarrow> (None, tr))"

section \<open>Replies\<close>

definition validate_header :: "font_protocol \<Rightarrow> header \<Rightarrow> nat \<Rightarrow> reply_status" where
  "validate_header P h opcode =
     (if hVersion h \<noteq> fVersion P then Status_Bad_Version
      else if hOpcode h \<noteq> opcode then Status_Bad_Opcode else Status_Ok)"

definition common_header :: "font_protocol \<Rightarrow> nat \<Rightarrow> header" where
  "common_header P opcode = \<lparr>hVersion = fVersion P, hOpcode = opcode\<rparr>"

definition scale_for_height :: "font_protocol \<Rightarrow> 'f float_ops \<Rightarrow> ('i, 'f) font_lib \<Rightarrow> 'i loaded_font \<Rightarrow> nat \<Rightarrow> 'f" where
  "scale_for_height P F L font h = scaleFor L (fontInfo font) (f_of_int F (int (normalize_pixel_height P h)))"

definition scaled_ceil :: "'f float_ops \<Rightarrow> int \<Rightarrow> 'f \<Rightarrow> int" where
  "scaled_ceil F value scale = f_trunc F (f_add F (f_mul F (f_of_int F value) scale) (f_almost_one F))"

text \<open>\<open>static_cast<int>\<close> of an unsigned 32-bit number.\<close>

definition as_int :: "nat \<Rightarrow> int" where
  "as_int n = (let m = n mod 2 ^ 32 in if m < 2 ^ 31 then int m else int m - 2 ^ 32)"

definition build_font_hello :: "font_protocol \<Rightarrow> ipc_message \<Rightarrow> hello_reply option" where
  "build_font_hello P m =
     map_option (\<lambda>h. \<lparr>rHeader = common_header P (opHello P), rStatus = validate_header P h (opHello P),
                      rName = bounded_copy (nameSize P) (serviceName P)\<rparr>) (decodeHello P m)"

definition build_font_info_reply ::
  "font_protocol \<Rightarrow> 'f float_ops \<Rightarrow> ('i, 'f) font_lib \<Rightarrow> 'i loaded_font option \<Rightarrow> ipc_message \<Rightarrow> info_reply option" where
  "build_font_info_reply P F L font m =
     (case decodeInfo P m of
        None \<Rightarrow> None
      | Some (h, height) \<Rightarrow>
          let status = validate_header P h (opInfo P);
              blank = \<lparr>iHeader = common_header P (opInfo P), iStatus = status, iHeight = 0, iAscent = 0, iDescent = 0,
                       iLineGap = 0, iBaseline = 0, iLineHeight = 0, iCellWidth = 0, iFamily = []\<rparr>
          in if status \<noteq> Status_Ok then Some blank
             else case font of
                    None \<Rightarrow> Some (blank\<lparr>iStatus := Status_Bad_Payload\<rparr>)
                  | Some f \<Rightarrow>
                      let pixels = normalize_pixel_height P height; scale = scale_for_height P F L f pixels;
                          (advance, _) = hMetrics L (fontInfo f) (int (of_char CHR ''M''));
                          line = scaled_ceil F (ascent f - descent f + lineGap f) scale;
                          cell = scaled_ceil F advance scale
                      in Some (blank\<lparr>iHeight := pixels, iAscent := ascent f, iDescent := descent f, iLineGap := lineGap f,
                           iBaseline := scaled_ceil F (ascent f) scale,
                           iLineHeight := (if line \<le> 0 then int pixels + 4 else line),
                           iCellWidth := (if cell \<le> 0 then 8 else cell),
                           iFamily := bounded_copy (familySize P) kFontFamily\<rparr>))"

definition build_glyph_metrics_reply ::
  "font_protocol \<Rightarrow> 'f float_ops \<Rightarrow> ('i, 'f) font_lib \<Rightarrow> 'i loaded_font option \<Rightarrow> ipc_message \<Rightarrow> metrics_reply option" where
  "build_glyph_metrics_reply P F L font m =
     (case decodeMetrics P m of
        None \<Rightarrow> None
      | Some (h, codepoint, height) \<Rightarrow>
          let status = validate_header P h (opMetrics P);
              blank = \<lparr>mHeader = common_header P (opMetrics P), mStatus = status, mCodepoint = codepoint, mHeight = 0,
                       mWidth = 0, mRows = 0, mXOffset = 0, mYOffset = 0, mAdvance = 0\<rparr>
          in if status \<noteq> Status_Ok then Some blank
             else case font of
                    None \<Rightarrow> Some (blank\<lparr>mStatus := Status_Bad_Payload\<rparr>)
                  | Some f \<Rightarrow>
                      let pixels = normalize_pixel_height P height; scale = scale_for_height P F L f pixels;
                          (advance, _) = hMetrics L (fontInfo f) (as_int codepoint);
                          (x0, y0, x1, y1) = bitmapBox L (fontInfo f) (as_int codepoint) scale
                      in Some (blank\<lparr>mHeight := pixels, mWidth := x1 - x0, mRows := y1 - y0, mXOffset := x0, mYOffset := y0,
                           mAdvance := scaled_ceil F advance scale\<rparr>))"

text \<open>
  \<open>memcpy\<close> from the bitmap: the offset is a product of unsigned 32-bit numbers, and a copy from outside
  the bitmap is an error of the model.
\<close>

datatype font_fault = Read_Outside

definition copy_row :: "octet list \<Rightarrow> nat \<Rightarrow> nat \<Rightarrow> font_fault + octet list" where
  "copy_row bitmap row width =
     (let at = row * width mod 2 ^ 32
      in if length bitmap < at + width then Inl Read_Outside else Inr (take width (drop at bitmap)))"

definition build_glyph_row_reply ::
  "font_protocol \<Rightarrow> 'f float_ops \<Rightarrow> ('i, 'f) font_lib \<Rightarrow> 'i loaded_font option \<Rightarrow> ipc_message \<Rightarrow> font_fault + row_reply option" where
  "build_glyph_row_reply P F L font m =
     (case decodeRow P m of
        None \<Rightarrow> Inr None
      | Some (h, codepoint, row, height) \<Rightarrow>
          let status = validate_header P h (opRow P);
              blank = \<lparr>gHeader = common_header P (opRow P), gStatus = status, gCodepoint = codepoint, gRow = row,
                       gHeight = 0, gWidth = 0, gPixels = []\<rparr>
          in if status \<noteq> Status_Ok then Inr (Some blank)
             else case font of
                    None \<Rightarrow> Inr (Some (blank\<lparr>gStatus := Status_Bad_Payload\<rparr>))
                  | Some f \<Rightarrow>
                      let pixels = normalize_pixel_height P height; scale = scale_for_height P F L f pixels;
                          bad = Inr (Some (blank\<lparr>gHeight := pixels, gStatus := Status_Bad_Payload\<rparr>))
                      in case bitmapOf L (fontInfo f) scale (as_int codepoint) of
                           (None, _, _) \<Rightarrow> bad
                         | (Some bitmap, w, rows) \<Rightarrow>
                             if w < 0 \<or> rows < 0 \<or> int (maxRowPixels P) < w \<or> rows \<le> int row then bad
                             else seqE (copy_row bitmap row (nat w))
                               (\<lambda>pixel. Inr (Some (blank\<lparr>gHeight := pixels, gWidth := nat w, gPixels := pixel\<rparr>))))"

section \<open>The service\<close>

text \<open>
  The reply built for a message that has a header: nothing when the payload is not that of the request
  its header names.
\<close>

definition build_reply ::
  "font_protocol \<Rightarrow> 'f float_ops \<Rightarrow> ('i, 'f) font_lib \<Rightarrow> 'i loaded_font option \<Rightarrow> ipc_message \<Rightarrow> font_fault + font_reply option" where
  "build_reply P F L font m =
     (let opcode = hOpcode (headerIn P (take (headerSize P) (msgData m)))
      in if opcode = opHello P then Inr (map_option Hello_Reply (build_font_hello P m))
         else if opcode = opInfo P then Inr (map_option Info_Reply (build_font_info_reply P F L font m))
         else if opcode = opMetrics P then Inr (map_option Metrics_Reply (build_glyph_metrics_reply P F L font m))
         else if opcode = opRow P
         then seqE (build_glyph_row_reply P F L font m) (\<lambda>r. Inr (map_option Row_Reply r))
         else Inr (Some (Hello_Reply \<lparr>rHeader = common_header P (opHello P), rStatus = Status_Bad_Opcode, rName = []\<rparr>)))"

text \<open>A turn of the loop of \<open>main\<close>; a memory error ends the process.\<close>

definition font_turn ::
  "font_protocol \<Rightarrow> 'f float_ops \<Rightarrow> ('i, 'f) font_lib \<Rightarrow> 'i loaded_font option \<Rightarrow>
     font_reply svc_env \<Rightarrow> nat \<Rightarrow> nat \<Rightarrow> font_reply svc_trace \<Rightarrow> font_reply svc_trace \<times> bool" where
  "font_turn P F L font env q n tr =
     (let (r, tr) = svc_ask env (Queue_Receive q True) tr
      in case r of
           Received m \<Rightarrow>
             if \<not> asked m \<or> msgSize m < headerSize P then (tr, True)
             else case build_reply P F L font m of
                    Inl e \<Rightarrow> (tr, False)
                  | Inr None \<Rightarrow> (font_line env (''queue_reply failed'' @ svc_newline) tr, False)
                  | Inr (Some reply) \<Rightarrow>
                      let (r, tr) = svc_ask env (Queue_Reply q (msgId m) reply) tr
                      in if code r = svc_fail then (font_line env (''queue_reply failed'' @ svc_newline) tr, False) else (tr, True)
         | _ \<Rightarrow> (font_line env (''queue_receive failed'' @ svc_newline) tr, False))"

text \<open>Start-up: the queue of the service, or nothing when it cannot be had.\<close>

definition font_start :: "font_protocol \<Rightarrow> bool \<Rightarrow> font_reply svc_env \<Rightarrow> font_reply svc_trace \<Rightarrow> nat option \<times> font_reply svc_trace" where
  "font_start P loaded env tr =
     (let (r, tr) = svc_ask env Queue_Create tr; q = code r
      in if q = svc_fail then (None, font_line env (''queue_create failed'' @ svc_newline) tr)
         else let (r, tr) = svc_ask env (Service_Register (serviceName P) q) tr
              in if code r = svc_fail
                 then (None, snd (svc_ask env (Close_Handle q) (font_line env (''service_register failed'' @ svc_newline) tr)))
                 else (Some q, font_line env ((if loaded then ''ready'' else ''ready without font'') @ svc_newline) tr))"

definition font_main ::
  "font_protocol \<Rightarrow> 'f float_ops \<Rightarrow> ('i, 'f) font_lib \<Rightarrow> bool \<Rightarrow> font_reply svc_env \<Rightarrow> (nat \<times> font_reply svc_trace) option" where
  "font_main P F L memory env =
     (let (font, tr) = load_font_file L memory env [];
          tr = (if font = None then font_line env (''font load failed'' @ svc_newline) tr else tr)
      in case font_start P (font \<noteq> None) env tr of
           (None, tr) \<Rightarrow> Some (1, tr)
         | (Some q, tr) \<Rightarrow>
             map_option (\<lambda>tr. (1, snd (svc_ask env (Close_Handle q) tr))) (forever (font_turn P F L font env q) 0 tr))"

end
