(* ===== verification/Font_Service.thy ===== *)
theory Font_Service
  imports Font_Manager
begin

text \<open>
  The font manager keeps the contract of a service: it gives the replies that are due, in the order of
  the requests. A client that asks for all rows of a glyph gets its bitmap, the copy of a row stays
  inside the bitmap, and one request with a payload of another size ends the service.
\<close>

section \<open>Loading\<close>

text \<open>The bytes that the reads of a run gave.\<close>

fun chunk_of :: "'r svc_call \<times> svc_reply \<Rightarrow> octet list" where
  "chunk_of (File_Read fd n, r) = bytes_got n r"
| "chunk_of _ = []"

lemma read_font_chunks:
  assumes "read_font env fd wanted data tr = (Some data', tr')" "length data \<le> wanted"
  shows "\<exists>new. tr' = tr @ new \<and> quiet new \<and> data' = data @ concat (map chunk_of new) \<and> length data' = wanted"
  using assms
proof (induction "wanted - length data" arbitrary: data tr rule: less_induct)
  case less
  show ?case
  proof (cases "length data < wanted")
    case True
    let ?c = "File_Read fd (wanted - length data)"
    let ?bs = "bytes_got (wanted - length data) (env tr ?c)"
    have more: "?bs \<noteq> []" and rest: "read_font env fd wanted (data @ ?bs) (tr @ [(?c, env tr ?c)]) = (Some data', tr')"
      using less.prems(1) True by (auto simp: read_font.simps [of env fd wanted data tr] svc_ask_def Let_def split: if_splits)
    have "length ?bs \<le> wanted - length data" by (cases "env tr ?c") auto
    then have "length (data @ ?bs) \<le> wanted" "wanted - length (data @ ?bs) < wanted - length data"
      using True more by (auto simp: neq_Nil_conv intro!: diff_less_mono2)
    then obtain new where "tr' = (tr @ [(?c, env tr ?c)]) @ new" "quiet new"
      "data' = (data @ ?bs) @ concat (map chunk_of new)" "length data' = wanted"
      using less.hyps [OF _ rest] by blast
    then show ?thesis by (intro exI [of _ "(?c, env tr ?c) # new"]) (simp add: quiet_def)
  next
    case False
    then show ?thesis using less.prems by (simp add: read_font.simps)
  qed
qed

section \<open>Replies\<close>

lemma normalize_idem [simp]: "normalize_pixel_height P (normalize_pixel_height P h) =
    (if h = 0 then normalize_pixel_height P (defaultHeight P) else normalize_pixel_height P h)"
  by (simp add: normalize_pixel_height_def)

lemma normalize_bounds: "h \<noteq> 0 \<Longrightarrow> 6 \<le> normalize_pixel_height P h \<and> normalize_pixel_height P h \<le> 72"
  by (simp add: normalize_pixel_height_def)

text \<open>What the font library documents: a bitmap has as many bytes as its sides say.\<close>

definition bitmaps_fit :: "('i, 'f) font_lib \<Rightarrow> bool" where
  "bitmaps_fit L \<longleftrightarrow> (\<forall>i s c b w h. bitmapOf L i s c = (Some b, w, h) \<longrightarrow> length b = nat w * nat h)"

lemma copy_row_inside:
  assumes "length bitmap = w * rows" "row < rows"
  shows "\<exists>pixels. copy_row bitmap row w = Inr pixels \<and> length pixels = w"
proof -
  have "row * w mod 2 ^ 32 + w \<le> row * w + w" by simp
  also have "\<dots> = w * Suc row" by simp
  also have "\<dots> \<le> length bitmap" using assms by (simp only: mult_le_mono2 Suc_leI)
  finally show ?thesis by (simp add: copy_row_def Let_def)
qed

lemma copy_rows_all:
  assumes "length bitmap = w * rows" "w * rows \<le> 2 ^ 32" "0 < w"
  shows "concat (map (\<lambda>row. projr (copy_row bitmap row w)) [0..<rows]) = bitmap"
proof -
  have "k \<le> rows \<Longrightarrow> concat (map (\<lambda>row. projr (copy_row bitmap row w)) [0..<k]) = take (k * w) bitmap" for k
  proof (induction k)
    case (Suc k)
    have k: "k * w < 2 ^ 32"
    proof -
      have "k * w < Suc k * w" using assms(3) by simp
      also have "\<dots> \<le> rows * w" using Suc.prems by (intro mult_le_mono1) simp
      finally show ?thesis using assms(2) unfolding mult.commute [of rows] by (rule less_le_trans)
    qed
    obtain pixels where "copy_row bitmap k w = Inr pixels"
      using copy_row_inside [OF assms(1), of k] Suc.prems by auto
    then have "projr (copy_row bitmap k w) = take w (drop (k * w) bitmap)"
      using k by (auto simp: copy_row_def Let_def split: if_splits)
    then show ?case using Suc by (simp add: take_add add.commute [of w])
  qed simp
  from this [of rows] show ?thesis using assms(1) by (simp add: mult.commute)
qed

lemma row_reply_inside:
  assumes "bitmaps_fit L"
  shows "\<exists>r. build_glyph_row_reply P F L font m = Inr r"
proof (cases "decodeRow P m")
  case (Some d)
  obtain h cp row height where d: "d = (h, cp, row, height)" by (cases d)
  show ?thesis
  proof (cases font)
    case (Some f)
    obtain b w rows where got: "bitmapOf L (fontInfo f) (scale_for_height P F L f (normalize_pixel_height P height)) (as_int cp) = (b, w, rows)"
      by (cases "bitmapOf L (fontInfo f) (scale_for_height P F L f (normalize_pixel_height P height)) (as_int cp)")
    show ?thesis
    proof (cases "b = None \<or> w < 0 \<or> rows < 0 \<or> int (maxRowPixels P) < w \<or> rows \<le> int row")
      case True
      then show ?thesis using \<open>decodeRow P m = Some d\<close> d Some got
        by (auto simp: build_glyph_row_reply_def Let_def split: option.splits)
    next
      case False
      then obtain bitmap where b: "b = Some bitmap" by (cases b) auto
      have "length bitmap = nat w * nat rows" using assms got b unfolding bitmaps_fit_def by blast
      moreover have "row < nat rows" using False by linarith
      ultimately obtain pixels where "copy_row bitmap row (nat w) = Inr pixels"
        using copy_row_inside by blast
      then show ?thesis using \<open>decodeRow P m = Some d\<close> d Some got b False
        by (simp add: build_glyph_row_reply_def Let_def)
    qed
  qed (use Some d in \<open>simp add: build_glyph_row_reply_def Let_def\<close>)
qed (simp add: build_glyph_row_reply_def)

lemma build_reply_inside: "bitmaps_fit L \<Longrightarrow> \<exists>r. build_reply P F L font m = Inr r"
  using row_reply_inside [of L P F font m] by (auto simp: build_reply_def Let_def)

section \<open>The contract\<close>

definition font_answer ::
  "font_protocol \<Rightarrow> 'f float_ops \<Rightarrow> ('i, 'f) font_lib \<Rightarrow> 'i loaded_font option \<Rightarrow> ipc_message \<Rightarrow> font_reply option" where
  "font_answer P F L font m =
     (if \<not> asked m \<or> msgSize m < headerSize P then None
      else case build_reply P F L font m of Inr r \<Rightarrow> r | Inl _ \<Rightarrow> None)"

lemma font_line_quiet: "quiet_from tr (font_line env s tr)"
  unfolding font_line_def by (rule quiet_from_trans [OF quiet_from_line quiet_from_line])

lemmas answers_font_line = answers_quiet [OF _ font_line_quiet]

text \<open>What ends the service: no message, a request it cannot decode, a reply that is not taken.\<close>

definition font_stops ::
  "font_protocol \<Rightarrow> 'f float_ops \<Rightarrow> ('i, 'f) font_lib \<Rightarrow> 'i loaded_font option \<Rightarrow> font_reply svc_call \<times> svc_reply \<Rightarrow> bool" where
  "font_stops P F L font x =
     (case x of
        (Queue_Receive q b, r) \<Rightarrow>
          (case r of
             Received m \<Rightarrow> asked m \<and> headerSize P \<le> msgSize m \<and> font_answer P F L font m = None
           | _ \<Rightarrow> True)
      | (Queue_Reply q i y, r) \<Rightarrow> code r = svc_fail
      | _ \<Rightarrow> True)"

lemma font_stops_simps [simp]:
  "font_stops P F L font (Queue_Receive q b, Received m) \<longleftrightarrow>
     asked m \<and> headerSize P \<le> msgSize m \<and> font_answer P F L font m = None"
  "font_stops P F L font (Queue_Reply q i y, r) \<longleftrightarrow> code r = svc_fail"
  "(\<And>m. r \<noteq> Received m) \<Longrightarrow> font_stops P F L font (Queue_Receive q b, r)"
  by (auto simp: font_stops_def split: svc_reply.split)

lemma font_turn_answers:
  assumes "font_turn P F L font env q n tr = (tr', go)"
  shows "answers (font_answer P F L font) (font_stops P F L font) tr tr' go"
proof (cases "env tr (Queue_Receive q True)")
  case (Received m)
  let ?f = "font_answer P F L font" and ?st = "font_stops P F L font"
  let ?tr = "tr @ [(Queue_Receive q True, Received m)]"
  show ?thesis
  proof (cases "?f m")
    case None
    then have "answers ?f ?st tr ?tr (\<not> (asked m \<and> headerSize P \<le> msgSize m))"
      by (intro answers_nothing) auto
    note this answers_font_line [OF this]
    then show ?thesis using assms None Received
      by (auto simp: font_turn_def font_answer_def svc_ask_def Let_def split: if_splits sum.splits option.splits)
  next
    case (Some x)
    let ?r = "env ?tr (Queue_Reply q (msgId m) x)"
    have "answers ?f ?st tr (?tr @ [(Queue_Reply q (msgId m) x, ?r)]) (code ?r \<noteq> svc_fail)"
      using Some by (intro answers_request) auto
    note this answers_font_line [OF this]
    then show ?thesis using assms Some Received
      by (auto simp: font_turn_def font_answer_def svc_ask_def Let_def split: if_splits sum.splits)
  qed
qed (use assms in \<open>auto simp: font_turn_def svc_ask_def Let_def intro!: answers_font_line answers_nothing\<close>)

interpretation font: service_loop "font_turn P F L font" "font_answer P F L font" "font_stops P F L font" for P F L font
  by unfold_locales (rule font_turn_answers)

section \<open>What clients see\<close>

text \<open>Whatever the kernel answers, the service gives exactly the replies that are due to the requests it received,
  in their order and on the queue they came from, and never copies from outside a bitmap; it goes on as long as it gets
  messages, can decode the requests and its replies are taken.\<close>

theorem font_replies_in_order:
  assumes "turns (font_turn P F L font env q) n tr = (tr', go)" "bitmaps_fit L"
  shows "\<exists>new. tr' = tr @ new \<and> replies new = due (font_answer P F L font) new \<and>
    map snd (replies new) = owed (font_answer P F L font) (received new) \<and>
    (go \<longrightarrow> receives new = n) \<and> (go \<longleftrightarrow> \<not> stopped (font_stops P F L font) new) \<and>
    (\<forall>m\<in>set (received new). build_reply P F L font m \<noteq> Inl Read_Outside)"
proof -
  obtain new where "tr' = tr @ new" "replies new = due (font_answer P F L font) new"
    "go \<longrightarrow> receives new = n" "go \<longleftrightarrow> \<not> stopped (font_stops P F L font) new"
    using font.run_answers [OF assms(1)] by blast
  moreover have "build_reply P F L font m \<noteq> Inl Read_Outside" for m
    using build_reply_inside [OF assms(2), of P F font m] by auto
  ultimately show ?thesis by (auto simp: due_received)
qed

text \<open>A request for row \<open>i\<close> of a glyph.\<close>

definition row_request :: "font_protocol \<Rightarrow> nat \<Rightarrow> nat \<Rightarrow> nat \<Rightarrow> ipc_message \<Rightarrow> bool" where
  "row_request P cp height i m \<longleftrightarrow>
     asked m \<and> headerSize P \<le> msgSize m \<and> hOpcode (headerIn P (take (headerSize P) (msgData m))) = opRow P \<and>
     decodeRow P m = Some (common_header P (opRow P), cp, i, height)"

definition good_row :: "font_protocol \<Rightarrow> nat \<Rightarrow> nat \<Rightarrow> nat \<Rightarrow> octet list \<Rightarrow> nat \<Rightarrow> font_reply" where
  "good_row P cp height w bitmap i =
     Row_Reply \<lparr>gHeader = common_header P (opRow P), gStatus = Status_Ok, gCodepoint = cp, gRow = i,
       gHeight = normalize_pixel_height P height, gWidth = w, gPixels = projr (copy_row bitmap i w)\<rparr>"

fun pixels_of :: "font_reply \<Rightarrow> octet list" where
  "pixels_of (Row_Reply g) = gPixels g"
| "pixels_of _ = []"

lemma row_answered:
  assumes "row_request P cp height i m" "i < nat rows" "distinct [opHello P, opInfo P, opMetrics P, opRow P]"
    and "bitmapOf L (fontInfo f) (scale_for_height P F L f (normalize_pixel_height P height)) (as_int cp) = (Some bitmap, w, rows)"
    and "length bitmap = nat w * nat rows" "0 < w" "w \<le> int (maxRowPixels P)"
  shows "font_answer P F L (Some f) m = Some (good_row P cp height (nat w) bitmap i)"
proof -
  obtain pixels where "copy_row bitmap i (nat w) = Inr pixels"
    using copy_row_inside [OF assms(5,2)] by blast
  moreover have "\<not> rows < 0" "\<not> rows \<le> int i" using assms(2) by linarith+
  ultimately show ?thesis using assms
    by (simp add: font_answer_def row_request_def build_reply_def build_glyph_row_reply_def validate_header_def
        common_header_def good_row_def Let_def)
qed

lemma rows_answered:
  assumes "list_all2 (row_request P cp height) js ms" "set js \<subseteq> {..<nat rows}" "distinct [opHello P, opInfo P, opMetrics P, opRow P]"
    and "bitmapOf L (fontInfo f) (scale_for_height P F L f (normalize_pixel_height P height)) (as_int cp) = (Some bitmap, w, rows)"
    and "length bitmap = nat w * nat rows" "0 < w" "w \<le> int (maxRowPixels P)"
  shows "map snd (owed (font_answer P F L (Some f)) ms) = map (good_row P cp height (nat w) bitmap) js"
  using assms(1,2)
proof (induction rule: list_all2_induct)
  case (Cons i js m ms)
  then have "font_answer P F L (Some f) m = Some (good_row P cp height (nat w) bitmap i)"
    using row_answered [OF _ _ assms(3-7)] by auto
  then show ?case using Cons by (simp add: owed_def)
qed simp

text \<open>
  C27: A client that asks for the rows of a glyph one after the other gets, put together, the bitmap that the font
  library made, whatever the bitmap is and whatever the client asked before.\<close>

theorem glyph_fetched:
  assumes "turns (font_turn P F L (Some f) env q) n tr = (tr @ new, go)"
    and "list_all2 (row_request P cp height) [0..<nat rows] (received new)"
    and "distinct [opHello P, opInfo P, opMetrics P, opRow P]"
    and "bitmapOf L (fontInfo f) (scale_for_height P F L f (normalize_pixel_height P height)) (as_int cp) = (Some bitmap, w, rows)"
    and "bitmaps_fit L" "0 < w" "w \<le> int (maxRowPixels P)" "nat w * nat rows \<le> 2 ^ 32"
  shows "concat (map (pixels_of \<circ> snd \<circ> snd) (replies new)) = bitmap \<and> length (replies new) = nat rows \<and>
    (\<forall>r\<in>set (replies new). \<exists>i. snd (snd r) = good_row P cp height (nat w) bitmap i)"
proof -
  have fits: "length bitmap = nat w * nat rows" using assms(4,5) unfolding bitmaps_fit_def by blast
  have "map snd (replies new) = owed (font_answer P F L (Some f)) (received new)"
    using font.run_answers [OF assms(1)] by (auto simp: due_received)
  then have "map snd (map snd (replies new)) = map (good_row P cp height (nat w) bitmap) [0..<nat rows]"
    using rows_answered [OF assms(2) _ assms(3,4) fits assms(6,7)] by (simp add: atLeast0LessThan)
  then have replies: "map (snd \<circ> snd) (replies new) = map (good_row P cp height (nat w) bitmap) [0..<nat rows]" by simp
  have "concat (map (pixels_of \<circ> snd \<circ> snd) (replies new)) = concat (map pixels_of (map (snd \<circ> snd) (replies new)))"
    by (simp add: comp_assoc)
  also have "\<dots> = concat (map (\<lambda>i. projr (copy_row bitmap i (nat w))) [0..<nat rows])"
    unfolding replies by (simp add: comp_def good_row_def)
  also have "\<dots> = bitmap" using copy_rows_all [OF fits assms(8)] assms(6) by simp
  finally have "concat (map (pixels_of \<circ> snd \<circ> snd) (replies new)) = bitmap" .
  moreover have "length (replies new) = nat rows" using arg_cong [OF replies, of length] by simp
  moreover have "\<exists>i. snd (snd r) = good_row P cp height (nat w) bitmap i" if "r \<in> set (replies new)" for r
  proof -
    have "(snd \<circ> snd) r \<in> set (map (snd \<circ> snd) (replies new))" using that by (simp only: set_map imageI)
    then show ?thesis unfolding replies by auto
  qed
  ultimately show ?thesis by blast
qed

lemma quiet_received: "quiet tr \<Longrightarrow> received tr = []"
proof -
  have "message_of x = []" if "\<not> is_receive x" for x :: "'r svc_call \<times> svc_reply"
    using that by (cases x rule: message_of.cases) auto
  then show "quiet tr \<Longrightarrow> received tr = []" by (auto simp: quiet_def received_def)
qed

text \<open>A request whose payload is not that of the request its header names: the decoder of that request refuses it.\<close>

definition malformed :: "font_protocol \<Rightarrow> ipc_message \<Rightarrow> bool" where
  "malformed P m \<longleftrightarrow>
     (let opcode = hOpcode (headerIn P (take (headerSize P) (msgData m)))
      in opcode = opHello P \<and> decodeHello P m = None \<or> opcode = opInfo P \<and> decodeInfo P m = None \<or>
         opcode = opMetrics P \<and> decodeMetrics P m = None \<or> opcode = opRow P \<and> decodeRow P m = None)"

lemma malformed_refused:
  assumes "malformed P m" "distinct [opHello P, opInfo P, opMetrics P, opRow P]"
  shows "build_reply P F L font m = Inr None"
  using assms
  by (auto simp: malformed_def build_reply_def build_font_hello_def build_font_info_reply_def
      build_glyph_metrics_reply_def build_glyph_row_reply_def Let_def)

text \<open>
  C38: One malformed request ends the service, whenever it comes and whichever of the four requests it names: after
  any number of turns in which the service has answered all that came, it does not reply to the malformed
  request, receives nothing after it and the program ends with code 1. So a client can take the fonts away
  from all the others.\<close>

theorem bad_request_ends_service:
  assumes "load_font_file L memory env [] = (font, tr0)"
    and "font_start P (font \<noteq> None) env (if font = None then font_line env (''font load failed'' @ svc_newline) tr0 else tr0) = (Some q, tr)"
    and "turns (font_turn P F L font env q) n tr = (tr @ past, True)"
    and "env (tr @ past) (Queue_Receive q True) = Received m" "asked m" "headerSize P \<le> msgSize m"
    and "malformed P m" "distinct [opHello P, opInfo P, opMetrics P, opRow P]"
  shows "\<exists>rest. font_main P F L memory env = Some (1, tr @ past @ rest) \<and>
    receives past = n \<and> replies past = due (font_answer P F L font) past \<and>
    received rest = [m] \<and> replies rest = []"
proof -
  let ?tr = "tr @ past"
  let ?line = "''queue_reply failed'' @ svc_newline"
  let ?fin = "font_line env ?line (?tr @ [(Queue_Receive q True, Received m)])"
  have turn: "font_turn P F L font env q n ?tr = (?fin, False)"
    using assms(4-6) malformed_refused [OF assms(7,8), of F L font]
    by (simp add: font_turn_def svc_ask_def Let_def)
  have "turns (font_turn P F L font env q) (0 + Suc n) tr = (?fin, False)" using assms(3) turn by simp
  then have "forever (font_turn P F L font env q) 0 tr = Some ?fin"
    by (intro turns_forever [where s = tr and ?s0.0 = tr]) simp_all
  then have main: "font_main P F L memory env = Some (1, snd (svc_ask env (Close_Handle q) ?fin))"
    using assms(1,2) by (simp add: font_main_def)
  obtain said where said: "?fin = (?tr @ [(Queue_Receive q True, Received m)]) @ said" "quiet said"
    using font_line_quiet unfolding quiet_from_def by blast
  let ?rest = "(Queue_Receive q True, Received m) # said @ [(Close_Handle q, env ?fin (Close_Handle q))]"
  have "font_main P F L memory env = Some (1, tr @ past @ ?rest)"
    using main said(1) by (simp add: svc_ask_def Let_def)
  moreover have "received ?rest = [m]" "replies ?rest = []"
    using quiet_counts [OF said(2)] quiet_received [OF said(2)] by (simp_all add: received_def)
  moreover have "receives past = n" "replies past = due (font_answer P F L font) past"
    using font.run_answers [OF assms(3)] by auto
  ultimately show ?thesis by blast
qed

section \<open>A concrete service\<close>

text \<open>Messages of bytes: version, number, then the numbers of the request, each one byte.\<close>

definition demo_header :: "octet list \<Rightarrow> header" where
  "demo_header d = \<lparr>hVersion = unat (d ! 0), hOpcode = unat (d ! 1)\<rparr>"

definition demo_protocol :: font_protocol where
  "demo_protocol = \<lparr>fVersion = 1, opHello = 1, opInfo = 2, opMetrics = 3, opRow = 4, serviceName = ''font.manager'',
     nameSize = 32, familySize = 32, defaultHeight = 16, maxRowPixels = 128, headerSize = 2, headerIn = demo_header,
     decodeHello = (\<lambda>m. if msgSize m = 2 then Some (demo_header (msgData m)) else None),
     decodeInfo = (\<lambda>m. if msgSize m = 3 then Some (demo_header (msgData m), unat (msgData m ! 2)) else None),
     decodeMetrics = (\<lambda>m. if msgSize m = 4
       then Some (demo_header (msgData m), unat (msgData m ! 2), unat (msgData m ! 3)) else None),
     decodeRow = (\<lambda>m. if msgSize m = 5
       then Some (demo_header (msgData m), unat (msgData m ! 2), unat (msgData m ! 3), unat (msgData m ! 4)) else None)\<rparr>"

definition demo_floats :: "int float_ops" where
  "demo_floats = \<lparr>f_of_int = id, f_mul = (*), f_add = (+), f_trunc = id, f_almost_one = 0\<rparr>"

text \<open>A font in which every glyph is two rows of three pixels.\<close>

definition demo_font :: "(unit, int) font_lib" where
  "demo_font = \<lparr>fontOffset = (\<lambda>_. 0), initFont = (\<lambda>_ _. Some ()), vMetrics = (\<lambda>_. (10, -2, 1)), scaleFor = (\<lambda>_ h. h),
     hMetrics = (\<lambda>_ _. (6, 0)), bitmapBox = (\<lambda>_ _ _. (0, 0, 3, 2)),
     bitmapOf = (\<lambda>_ _ _. (Some [1, 2, 3, 4, 5, 6], 3, 2))\<rparr>"

definition demo_loaded :: "unit loaded_font" where
  "demo_loaded = \<lparr>fontData = [0], fontInfo = (), ascent = 10, descent = -2, lineGap = 1\<rparr>"

definition row_message :: "nat \<Rightarrow> ipc_message" where
  "row_message i = \<lparr>msgId = 7 + i, asked = True, msgSize = 5, msgData = [1, 4, 65, of_nat i, 12]\<rparr>"

text \<open>A client asks for the two rows; and one that greets and then sends a request for a row that is too short.\<close>

fun rows_env :: "font_reply svc_env" where
  "rows_env tr (Queue_Receive q b) = Received (row_message (receives tr))"
| "rows_env tr _ = Code 0"

fun bad_env :: "font_reply svc_env" where
  "bad_env tr (Queue_Receive q b) = Received
     (if receives tr = 0 then \<lparr>msgId = 7, asked = True, msgSize = 2, msgData = [1, 1]\<rparr>
      else \<lparr>msgId = 8, asked = True, msgSize = 3, msgData = [1, 4, 0]\<rparr>)"
| "bad_env tr (File_Stat p) = Code svc_fail"
| "bad_env tr _ = Code 5"

lemma demo_bitmaps_fit: "bitmaps_fit demo_font"
  by (simp add: bitmaps_fit_def demo_font_def)

definition fetched :: "font_reply svc_trace" where
  "fetched = fst (turns (font_turn demo_protocol demo_floats demo_font (Some demo_loaded) rows_env 3) 2 [])"

lemmas demo_defs = demo_protocol_def demo_floats_def demo_font_def demo_loaded_def demo_header_def row_message_def

lemma font_turn_reply:
  assumes "env tr (Queue_Receive q True) = Received m" "font_answer P F L font m = Some x"
    and "code (env (tr @ [(Queue_Receive q True, Received m)]) (Queue_Reply q (msgId m) x)) \<noteq> svc_fail"
  shows "font_turn P F L font env q n tr =
    (tr @ [(Queue_Receive q True, Received m), (Queue_Reply q (msgId m) x, env (tr @ [(Queue_Receive q True, Received m)]) (Queue_Reply q (msgId m) x))], True)"
  using assms by (auto simp: font_turn_def font_answer_def svc_ask_def Let_def split: if_splits sum.splits)

definition demo_row :: "nat \<Rightarrow> font_reply" where
  "demo_row i = good_row demo_protocol 65 12 (nat 3) [1, 2, 3, 4, 5, 6] i"

lemma row_message_request: "i < 2 \<Longrightarrow> row_request demo_protocol 65 12 i (row_message i)"
  by (auto simp: row_request_def demo_defs common_header_def less_2_cases_iff)

lemma demo_answer:
  assumes "i < 2"
  shows "font_answer demo_protocol demo_floats demo_font (Some demo_loaded) (row_message i) = Some (demo_row i)"
  unfolding demo_row_def
  by (rule row_answered [OF row_message_request [OF assms], where rows = 2 and w = 3])
    (use assms in \<open>simp_all add: demo_protocol_def demo_font_def\<close>)

lemma turns_two: "turns t 2 s = (case t 0 s of (s', go) \<Rightarrow> if go then t 1 s' else (s', False))"
  by (simp only: numeral_2_eq_2 One_nat_def turns.simps) simp

lemma demo_turn:
  assumes "receives tr = i" "i < 2"
  shows "font_turn demo_protocol demo_floats demo_font (Some demo_loaded) rows_env 3 n tr =
    (tr @ [(Queue_Receive 3 True, Received (row_message i)), (Queue_Reply 3 (7 + i) (demo_row i), Code 0)], True)"
proof -
  have "env_id = 7 + i" if "env_id = msgId (row_message i)" for env_id using that by (simp add: row_message_def)
  then show ?thesis
    using font_turn_reply [of rows_env tr 3 "row_message i", OF _ demo_answer [OF assms(2)]] assms(1)
    by (simp add: svc_fail_def row_message_def)
qed

lemma demo_rows:
  "turns (font_turn demo_protocol demo_floats demo_font (Some demo_loaded) rows_env 3) 2 [] =
     ([(Queue_Receive 3 True, Received (row_message 0)), (Queue_Reply 3 7 (demo_row 0), Code 0),
       (Queue_Receive 3 True, Received (row_message 1)), (Queue_Reply 3 8 (demo_row 1), Code 0)], True)"
  using demo_turn [of "[]" 0 0] by (simp add: turns_two demo_turn)

lemma demo_turns:
  "turns (font_turn demo_protocol demo_floats demo_font (Some demo_loaded) rows_env 3) 2 [] = ([] @ fetched, True)"
  "list_all2 (row_request demo_protocol 65 12) [0..<nat 2] (received fetched)"
  using row_message_request [of 0] row_message_request [of 1]
  by (simp_all add: fetched_def demo_rows received_def upt_rec)

theorem glyph_fetched_witness:
  "concat (map (pixels_of \<circ> snd \<circ> snd) (replies fetched)) = [1, 2, 3, 4, 5, 6] \<and> length (replies fetched) = 2"
proof -
  have "bitmapOf demo_font (fontInfo demo_loaded)
      (scale_for_height demo_protocol demo_floats demo_font demo_loaded (normalize_pixel_height demo_protocol 12)) (as_int 65) =
      (Some [1, 2, 3, 4, 5, 6], 3, 2)"
    by (simp add: demo_font_def)
  from glyph_fetched [OF demo_turns _ this demo_bitmaps_fit] show ?thesis by (simp add: demo_protocol_def)
qed

theorem font_replies_in_order_witness:
  "\<exists>new. [] @ fetched = [] @ new \<and> replies new = due (font_answer demo_protocol demo_floats demo_font (Some demo_loaded)) new \<and>
    map snd (replies new) = owed (font_answer demo_protocol demo_floats demo_font (Some demo_loaded)) (received new) \<and>
    (True \<longrightarrow> receives new = 2) \<and>
    (True \<longleftrightarrow> \<not> stopped (font_stops demo_protocol demo_floats demo_font (Some demo_loaded)) new) \<and>
    (\<forall>m\<in>set (received new). build_reply demo_protocol demo_floats demo_font (Some demo_loaded) m \<noteq> Inl Read_Outside)"
  by (rule font_replies_in_order [OF demo_turns(1) demo_bitmaps_fit])

definition waiting :: "font_reply svc_trace" where
  "waiting = snd (font_start demo_protocol False bad_env (font_line bad_env (''font load failed'' @ svc_newline) (snd (load_font_file demo_font True bad_env []))))"

definition greeting :: font_reply where
  "greeting = Hello_Reply \<lparr>rHeader = \<lparr>hVersion = 1, hOpcode = 1\<rparr>, rStatus = Status_Ok, rName = ''font.manager''\<rparr>"

text \<open>A greeting is answered; the request for a row that follows is three bytes long and not five.\<close>

theorem bad_request_ends_service_witness:
  "\<exists>rest. font_main demo_protocol demo_floats demo_font True bad_env =
      Some (1, waiting @ [(Queue_Receive 5 True, bad_env waiting (Queue_Receive 5 True)), (Queue_Reply 5 7 greeting, Code 5)] @ rest) \<and>
    received rest = [\<lparr>msgId = 8, asked = True, msgSize = 3, msgData = [1, 4, 0]\<rparr>] \<and> replies rest = []"
proof -
  let ?past = "[(Queue_Receive 5 True, bad_env waiting (Queue_Receive 5 True)), (Queue_Reply 5 7 greeting, Code 5)]"
  let ?none = "None :: unit loaded_font option"
  have load: "load_font_file demo_font True bad_env [] = (?none, snd (load_font_file demo_font True bad_env []))"
    by (simp add: load_font_file_def svc_ask_def Let_def)
  have start: "font_start demo_protocol (?none \<noteq> None) bad_env
      (if ?none = None
       then font_line bad_env (''font load failed'' @ svc_newline) (snd (load_font_file demo_font True bad_env []))
       else snd (load_font_file demo_font True bad_env [])) = (Some 5, waiting)"
    by (simp add: waiting_def font_start_def svc_ask_def svc_fail_def Let_def)
  have quiet: "receives waiting = 0"
    by (simp add: waiting_def font_start_def font_line_def svc_line_def load_font_file_def svc_ask_def svc_fail_def Let_def)
  have answer: "font_answer demo_protocol demo_floats demo_font ?none \<lparr>msgId = 7, asked = True, msgSize = 2, msgData = [1, 1]\<rparr> = Some greeting"
    by (simp add: font_answer_def build_reply_def build_font_hello_def demo_protocol_def demo_header_def greeting_def
        validate_header_def common_header_def bounded_copy_def)
  have turns: "turns (font_turn demo_protocol demo_floats demo_font ?none bad_env 5) 1 waiting = (waiting @ ?past, True)"
    using font_turn_reply [of bad_env waiting 5 _ demo_protocol demo_floats demo_font ?none, OF _ answer] quiet
    by (simp add: svc_fail_def)
  let ?bad = "\<lparr>msgId = 8, asked = True, msgSize = 3, msgData = [1, 4, 0]\<rparr> :: ipc_message"
  have got: "bad_env (waiting @ ?past) (Queue_Receive 5 True) = Received ?bad" using quiet by simp
  have bad: "malformed demo_protocol ?bad" "asked ?bad" "headerSize demo_protocol \<le> msgSize ?bad"
    "distinct [opHello demo_protocol, opInfo demo_protocol, opMetrics demo_protocol, opRow demo_protocol]"
    by (simp_all add: malformed_def demo_protocol_def demo_header_def)
  show ?thesis
    using bad_request_ends_service [OF load start turns got bad(2,3,1,4)] by blast
qed

end
