(* ===== verification/Service_Managers.thy ===== *)
theory Service_Managers
  imports Services
begin

text \<open>
  The daemon of \<open>src/service-common/include/service_daemon.hpp\<close> (the session manager), the process
  manager, the storage manager and the input manager: their loops, and the lines they print. The process
  and the storage manager answer every request, the input manager throws away what it receives, and none
  of the three ends; the daemon ends with the first request it cannot decode.
\<close>

section \<open>The daemon\<close>

text \<open>The messages of the protocol the daemon speaks: version, number of a greeting, size of a name, decoding.\<close>

record daemon_protocol =
  dVersion :: nat
  dHello :: nat
  dNameSize :: nat
  dDecode :: "ipc_message \<Rightarrow> header option"

definition daemon_hello_reply :: "daemon_protocol \<Rightarrow> string \<Rightarrow> ipc_message \<Rightarrow> hello_reply option" where
  "daemon_hello_reply P name m =
     map_option (\<lambda>h. \<lparr>rHeader = \<lparr>hVersion = dVersion P, hOpcode = dHello P\<rparr>,
       rStatus = (if hVersion h \<noteq> dVersion P then Status_Bad_Version
         else if hOpcode h \<noteq> dHello P then Status_Bad_Opcode else Status_Ok),
       rName = bounded_copy (dNameSize P) name\<rparr>) (dDecode P m)"

definition daemon_turn ::
  "daemon_protocol \<Rightarrow> string \<Rightarrow> hello_reply svc_env \<Rightarrow> nat \<Rightarrow> nat \<Rightarrow> hello_reply svc_trace \<Rightarrow> hello_reply svc_trace \<times> bool" where
  "daemon_turn P name env q n tr =
     (let (r, tr) = svc_ask env (Queue_Receive q True) tr
      in case r of
           Received m \<Rightarrow>
             if \<not> asked m then (tr, True)
             else (case daemon_hello_reply P name m of
                     None \<Rightarrow> (write_service_line env name (''invalid request payload'' @ svc_newline) tr, False)
                   | Some reply \<Rightarrow>
                       let (r, tr) = svc_ask env (Queue_Reply q (msgId m) reply) tr
                       in if code r = svc_fail then (write_service_line env name (''queue_reply failed'' @ svc_newline) tr, False)
                          else (tr, True))
         | _ \<Rightarrow> (write_service_line env name (''queue_receive failed'' @ svc_newline) tr, False))"

definition daemon_run :: "daemon_protocol \<Rightarrow> string \<Rightarrow> hello_reply svc_env \<Rightarrow> (nat \<times> hello_reply svc_trace) option" where
  "daemon_run P name env =
     (let (r, tr) = svc_ask env Queue_Create []; q = code r
      in if q = svc_fail then Some (1, write_service_line env name (''queue_create failed'' @ svc_newline) tr)
         else let (r, tr) = svc_ask env (Service_Register name q) tr
              in if code r = svc_fail
                 then Some (1, snd (svc_ask env (Close_Handle q) (write_service_line env name (''service_register failed'' @ svc_newline) tr)))
                 else map_option (\<lambda>tr. (1, snd (svc_ask env (Close_Handle q) tr)))
                   (forever (daemon_turn P name env q) 0 (write_service_line env name (''ready'' @ svc_newline) tr)))"

definition daemon_answer :: "daemon_protocol \<Rightarrow> string \<Rightarrow> ipc_message \<Rightarrow> hello_reply option" where
  "daemon_answer P name m = (if asked m then daemon_hello_reply P name m else None)"

definition daemon_stops :: "daemon_protocol \<Rightarrow> 'r svc_call \<times> svc_reply \<Rightarrow> bool" where
  "daemon_stops P x =
     (case x of
        (Queue_Receive q b, r) \<Rightarrow> (case r of Received m \<Rightarrow> asked m \<and> dDecode P m = None | _ \<Rightarrow> True)
      | (Queue_Reply q i y, r) \<Rightarrow> code r = svc_fail
      | _ \<Rightarrow> True)"

lemma daemon_stops_simps [simp]:
  "daemon_stops P (Queue_Receive q b, Received m) \<longleftrightarrow> asked m \<and> dDecode P m = None"
  "daemon_stops P (Queue_Reply q i y, r) \<longleftrightarrow> code r = svc_fail"
  "(\<And>m. r \<noteq> Received m) \<Longrightarrow> daemon_stops P (Queue_Receive q b, r)"
  by (auto simp: daemon_stops_def split: svc_reply.split)

lemma daemon_turn_answers:
  assumes "daemon_turn P name env q n tr = (tr', go)"
  shows "answers (daemon_answer P name) (daemon_stops P) tr tr' go"
proof (cases "env tr (Queue_Receive q True)")
  case (Received m)
  let ?f = "daemon_answer P name" and ?st = "daemon_stops P"
  let ?tr = "tr @ [(Queue_Receive q True, Received m)]"
  show ?thesis
  proof (cases "?f m")
    case None
    then have "answers ?f ?st tr ?tr (\<not> (asked m \<and> dDecode P m = None))"
      by (intro answers_nothing) auto
    note this answers_line(2) [OF this]
    then show ?thesis using assms None Received
      by (auto simp: daemon_turn_def daemon_answer_def daemon_hello_reply_def svc_ask_def Let_def split: if_splits option.splits)
  next
    case (Some x)
    let ?r = "env ?tr (Queue_Reply q (msgId m) x)"
    have "dDecode P m \<noteq> None" using Some by (auto simp: daemon_answer_def daemon_hello_reply_def split: if_splits)
    then have "answers ?f ?st tr (?tr @ [(Queue_Reply q (msgId m) x, ?r)]) (code ?r \<noteq> svc_fail)"
      using Some by (intro answers_request) auto
    note this answers_line(2) [OF this]
    then show ?thesis using assms Some Received
      by (auto simp: daemon_turn_def daemon_answer_def svc_ask_def Let_def split: if_splits)
  qed
qed (use assms in \<open>auto simp: daemon_turn_def svc_ask_def Let_def intro!: answers_line answers_nothing\<close>)

interpretation daemon: service_loop "daemon_turn P name" "daemon_answer P name" "daemon_stops P" for P name
  by unfold_locales (rule daemon_turn_answers)

section \<open>Lines of the managers\<close>

definition manager_failed :: "nat \<Rightarrow> bool" where "manager_failed r \<longleftrightarrow> 2 ^ 64 - 4095 \<le> r"
definition manager_errno :: "nat \<Rightarrow> nat" where "manager_errno r = 2 ^ 64 - r"

definition say :: "'r svc_env \<Rightarrow> string \<Rightarrow> 'r svc_trace \<Rightarrow> 'r svc_trace" where
  "say env s tr = snd (svc_ask env (Print (s @ svc_newline)) tr)"

lemma say_quiet [simp]: "quiet_from tr (say env s tr)"
  unfolding say_def by (rule quiet_from_ask) simp_all

definition state_name :: "nat \<Rightarrow> string" where
  "state_name s = (if s = 0 then ''ready'' else if s = 1 then ''running'' else if s = 2 then ''blocked''
     else if s = 3 then ''terminated'' else ''unknown'')"

definition hex_char :: "nat \<Rightarrow> char" where
  "hex_char d = char_of (if d < 10 then 48 + d else 87 + d)"

fun hex_digits :: "nat \<Rightarrow> string" where
  "hex_digits n = (if n < 16 then [hex_char n] else hex_digits (n div 16) @ [hex_char (n mod 16)])"

declare hex_digits.simps [simp del]

definition process_line :: "proc_info \<Rightarrow> string" where
  "process_line p =
     ''[process.manager] pid='' @ decimal (pid p) @ '' ppid='' @ decimal (ppid p) @ '' uid='' @ decimal (uid p) @
     '' gid='' @ decimal (gid p) @ '' sid='' @ decimal (sessionID p) @ '' state='' @ state_name (procState p) @
     '' pri='' @ decimal (priority p) @ '' flags=0x'' @ hex_digits (procFlags p) @ '' name='' @
     (if procName p \<noteq> [] then procName p else ''<unnamed>'')"

text \<open>The kernel stores at most as many processes as there is room for and says how many.\<close>

definition snapshotCapacity :: nat where "snapshotCapacity = 32"

definition print_snapshot :: "'r svc_env \<Rightarrow> 'r svc_trace \<Rightarrow> 'r svc_trace" where
  "print_snapshot env tr =
     (let (r, tr) = svc_ask env (Proc_Info snapshotCapacity) tr
      in case r of
           Processes ps n \<Rightarrow>
             let copied = take snapshotCapacity ps
             in fold (say env \<circ> process_line) copied
                  (say env (''[process.manager] processes total='' @ decimal n @ '' copied='' @ decimal (length copied)) tr)
         | _ \<Rightarrow> say env (''[process.manager] ProcInfo errno='' @ decimal (manager_errno (code r))) tr)"

definition int_text :: "int \<Rightarrow> string" where
  "int_text i = (if i < 0 then ''-'' @ decimal (nat (- i)) else decimal (nat i))"

definition yes_no :: "bool \<Rightarrow> string" where "yes_no b = (if b then ''1'' else ''0'')"

definition or_else :: "string \<Rightarrow> string \<Rightarrow> string" where "or_else s t = (if s \<noteq> [] then s else t)"

definition storage_line :: "storage_info \<Rightarrow> string" where
  "storage_line d =
     ''[storage.manager] device='' @ or_else (deviceName d) ''<unknown>'' @ '' size='' @ decimal (totalSize d) @
     '' sector='' @ decimal (sectorSize d) @ '' readable='' @ yes_no (readable d) @ '' writable='' @ yes_no (writable d) @
     '' mounted='' @ yes_no (mounted d) @ '' formatted='' @ yes_no (formatted d) @ '' fs='' @ or_else (fsType d) ''<none>'' @
     '' path='' @ or_else (mountPath d) ''<none>'' @ '' mount_error='' @ int_text (mountError d)"

definition print_storage_info :: "'r svc_env \<Rightarrow> 'r svc_trace \<Rightarrow> 'r svc_trace" where
  "print_storage_info env tr =
     (let (r, tr) = svc_ask env Storage_Info tr
      in case r of
           Disk d \<Rightarrow>
             if present d then say env (storage_line d) tr
             else say env (''[storage.manager] no persistent block device mount_error='' @ int_text (mountError d)) tr
         | _ \<Rightarrow> say env (''[storage.manager] StorageInfo errno='' @ decimal (manager_errno (code r))) tr)"

definition run_command :: "'r svc_env \<Rightarrow> string \<Rightarrow> 'r svc_trace \<Rightarrow> nat \<times> 'r svc_trace" where
  "run_command env command tr =
     (if command \<noteq> ''format'' \<and> command \<noteq> ''mount''
      then (1, say env (''[storage.manager] unknown command='' @ command) tr)
      else let (r, tr) = svc_ask env (if command = ''format'' then Storage_Format else Storage_Mount) tr
           in if manager_failed (code r)
              then (1, print_storage_info env (say env (''[storage.manager] '' @ command @ '' errno='' @ decimal (manager_errno (code r))) tr))
              else (0, print_storage_info env (say env (''[storage.manager] '' @ command @ '' ok'') tr)))"

section \<open>The loops of the managers\<close>

definition manager_reply :: "string \<Rightarrow> nat \<Rightarrow> nat \<Rightarrow> hello_reply" where
  "manager_reply name version nameSize =
     \<lparr>rHeader = \<lparr>hVersion = version, hOpcode = 1\<rparr>, rStatus = Status_Ok, rName = bounded_copy nameSize name\<rparr>"

definition manager_answer :: "hello_reply \<Rightarrow> ipc_message \<Rightarrow> hello_reply option" where
  "manager_answer reply m = (if asked m then Some reply else None)"

definition handle_request :: "hello_reply \<Rightarrow> hello_reply svc_env \<Rightarrow> nat \<Rightarrow> ipc_message \<Rightarrow> hello_reply svc_trace \<Rightarrow> bool \<times> hello_reply svc_trace" where
  "handle_request reply env q m tr = (let (r, tr) = svc_ask env (Queue_Reply q (msgId m) reply) tr in (code r \<noteq> svc_fail, tr))"

definition poll_queue :: "hello_reply \<Rightarrow> string \<Rightarrow> hello_reply svc_env \<Rightarrow> nat \<Rightarrow> hello_reply svc_trace \<Rightarrow> hello_reply svc_trace" where
  "poll_queue reply failed env q tr =
     (let (r, tr) = svc_ask env (Queue_Receive q False) tr
      in case r of
           Received m \<Rightarrow>
             if asked m then let (ok, tr) = handle_request reply env q m tr in if ok then tr else svc_line env failed tr
             else tr
         | _ \<Rightarrow> tr)"

definition process_turn ::
  "hello_reply \<Rightarrow> hello_reply svc_env \<Rightarrow> nat \<Rightarrow> nat \<Rightarrow> hello_reply svc_trace \<Rightarrow> hello_reply svc_trace \<times> bool" where
  "process_turn reply env q iteration tr =
     (let tr = poll_queue reply (''[process.manager] queue_reply failed'' @ svc_newline) env q tr;
          tr = (if iteration mod 500 = 0 then print_snapshot env tr else tr)
      in (snd (svc_ask env (Sleep_Ms 10) tr), True))"

definition storage_turn ::
  "hello_reply \<Rightarrow> hello_reply svc_env \<Rightarrow> nat \<Rightarrow> nat \<Rightarrow> hello_reply svc_trace \<Rightarrow> hello_reply svc_trace \<times> bool" where
  "storage_turn reply env q iteration tr =
     (let tr = poll_queue reply (''[storage.manager] queue_reply failed'' @ svc_newline) env q tr;
          tr = (if iteration mod 1000 = 0 then print_storage_info env tr else tr)
      in (snd (svc_ask env (Sleep_Ms 10) tr), True))"

text \<open>The input manager throws away what arrives.\<close>

definition input_turn ::
  "hello_reply svc_env \<Rightarrow> nat \<Rightarrow> nat \<Rightarrow> hello_reply svc_trace \<Rightarrow> hello_reply svc_trace \<times> bool" where
  "input_turn env q iteration tr =
     (let (r, tr) = svc_ask env (Queue_Receive q True) tr
      in (if code r = svc_fail then snd (svc_ask env Yield_Cpu tr) else tr, True))"

text \<open>Start-up of a manager: its label, the call that makes the queue, what it does when it is ready.\<close>

definition manager_start ::
  "string \<Rightarrow> string \<Rightarrow> hello_reply svc_env \<Rightarrow> hello_reply svc_trace \<Rightarrow> nat option \<times> hello_reply svc_trace" where
  "manager_start label name env tr =
     (let (r, tr) = svc_ask env Queue_Create tr; q = code r
      in if q = svc_fail then (None, svc_line env (label @ ''queue_create failed'' @ svc_newline) tr)
         else let (r, tr) = svc_ask env (Service_Register name q) tr
              in if code r = svc_fail
                 then (None, snd (svc_ask env (Close_Handle q) (svc_line env (label @ ''service_register failed'' @ svc_newline) tr)))
                 else (Some q, svc_line env (label @ ''ready'' @ svc_newline) tr))"

definition process_main :: "string \<Rightarrow> nat \<Rightarrow> nat \<Rightarrow> hello_reply svc_env \<Rightarrow> (nat \<times> hello_reply svc_trace) option" where
  "process_main name version nameSize env =
     (case manager_start ''[process.manager] '' name env [] of
        (None, tr) \<Rightarrow> Some (1, tr)
      | (Some q, tr) \<Rightarrow>
          map_option (\<lambda>tr. (0, snd (svc_ask env (Close_Handle q) tr))) (forever (process_turn (manager_reply name version nameSize) env q) 0 (print_snapshot env tr)))"

definition storage_main :: "string \<Rightarrow> nat \<Rightarrow> nat \<Rightarrow> string list \<Rightarrow> hello_reply svc_env \<Rightarrow> (nat \<times> hello_reply svc_trace) option" where
  "storage_main name version nameSize args env =
     (case args of
        _ # command # _ \<Rightarrow> Some (run_command env command [])
      | _ \<Rightarrow>
          (case manager_start ''[storage.manager] '' name env [] of
             (None, tr) \<Rightarrow> Some (1, tr)
           | (Some q, tr) \<Rightarrow>
               map_option (\<lambda>tr. (0, snd (svc_ask env (Close_Handle q) tr))) (forever (storage_turn (manager_reply name version nameSize) env q) 0 (print_storage_info env tr))))"

definition input_main :: "string \<Rightarrow> hello_reply svc_env \<Rightarrow> (nat \<times> hello_reply svc_trace) option" where
  "input_main name env =
     (let say = (\<lambda>s. svc_line env (''[input.manager] '' @ s @ svc_newline));
          (r, tr) = svc_ask env Event_Queue_Create (say ''phase=enter'' []); q = code r
      in if q = svc_fail then Some (1, say ''event_queue_create failed'' tr)
         else let (r, tr) = svc_ask env (Service_Register name q) (say ''phase=registering'' (say ''phase=queue-created'' tr))
              in if code r = svc_fail then Some (1, snd (svc_ask env (Close_Handle q) (say ''service_register failed'' tr)))
                 else map_option (\<lambda>tr. (0, snd (svc_ask env (Close_Handle q) tr)))
                   (forever (input_turn env q) 0 (say ''ready'' (say ''phase=registered'' tr))))"

section \<open>The contract\<close>

lemma print_snapshot_quiet: "quiet_from tr (print_snapshot env tr)"
proof -
  have lines: "quiet_from tr (fold (say env \<circ> process_line) ps tr)" for ps tr
    by (induction ps arbitrary: tr) (auto intro: quiet_from_trans [OF say_quiet])
  have ask: "quiet_from tr (tr @ [(Proc_Info snapshotCapacity, r)])" for r
    by (simp add: quiet_from_def quiet_def)
  note first = quiet_from_trans [OF ask say_quiet]
  note all = quiet_from_trans [OF first lines]
  show ?thesis
    by (cases "env tr (Proc_Info snapshotCapacity)") (simp_all only: print_snapshot_def svc_ask_def Let_def prod.case svc_reply.case first all)
qed

lemma print_storage_info_quiet: "quiet_from tr (print_storage_info env tr)"
proof -
  have ask: "quiet_from tr (tr @ [(Storage_Info, r)])" for r by (simp add: quiet_from_def quiet_def)
  note first = quiet_from_trans [OF ask say_quiet]
  show ?thesis
    by (cases "env tr Storage_Info")
      (simp_all only: print_storage_info_def svc_ask_def Let_def prod.case svc_reply.case first if_split simp_thms)
qed

definition never_stops :: "'r svc_call \<times> svc_reply \<Rightarrow> bool" where "never_stops x \<longleftrightarrow> False"

lemma poll_queue_answers:
  "answers (manager_answer reply) never_stops tr (poll_queue reply failed env q tr) True"
proof (cases "env tr (Queue_Receive q False)")
  case (Received m)
  let ?f = "manager_answer reply"
  let ?tr = "tr @ [(Queue_Receive q False, Received m)]"
  show ?thesis
  proof (cases "asked m")
    case True
    let ?r = "env ?tr (Queue_Reply q (msgId m) reply)"
    have "answers ?f never_stops tr (?tr @ [(Queue_Reply q (msgId m) reply, ?r)]) True"
      using True by (intro answers_request) (simp_all add: manager_answer_def never_stops_def)
    note this answers_line(1) [OF this]
    then show ?thesis using True Received by (simp add: poll_queue_def handle_request_def svc_ask_def Let_def)
  next
    case False
    have "answers ?f never_stops tr ?tr True"
      using False by (intro answers_nothing) (simp_all add: manager_answer_def never_stops_def)
    then show ?thesis using False Received by (simp add: poll_queue_def svc_ask_def Let_def)
  qed
qed (auto simp: poll_queue_def svc_ask_def Let_def never_stops_def intro!: answers_nothing)

lemma sleep_quiet: "quiet_from tr (snd (svc_ask env (Sleep_Ms n) tr))"
  by (rule quiet_from_ask) simp_all

lemma process_turn_answers:
  assumes "process_turn reply env q n tr = (tr', go)"
  shows "answers (manager_answer reply) never_stops tr tr' go"
proof -
  note answers_quiet [OF poll_queue_answers [of reply tr "''[process.manager] queue_reply failed'' @ svc_newline" env q]]
  from this [OF quiet_from_trans [OF print_snapshot_quiet sleep_quiet]] this [OF sleep_quiet]
  show ?thesis using assms by (auto simp: process_turn_def Let_def split: if_splits)
qed

lemma storage_turn_answers:
  assumes "storage_turn reply env q n tr = (tr', go)"
  shows "answers (manager_answer reply) never_stops tr tr' go"
proof -
  note answers_quiet [OF poll_queue_answers [of reply tr "''[storage.manager] queue_reply failed'' @ svc_newline" env q]]
  from this [OF quiet_from_trans [OF print_storage_info_quiet sleep_quiet]] this [OF sleep_quiet]
  show ?thesis using assms by (auto simp: storage_turn_def Let_def split: if_splits)
qed

lemma input_turn_answers:
  assumes "input_turn env q n tr = (tr', go)"
  shows "answers (\<lambda>_. None) never_stops tr tr' go"
proof -
  let ?r = "env tr (Queue_Receive q True)"
  have "answers (\<lambda>_. None) never_stops tr (tr @ [(Queue_Receive q True, ?r)]) True"
    by (intro answers_nothing) (cases ?r; simp_all add: never_stops_def)+
  moreover have "quiet_from (tr @ [(Queue_Receive q True, ?r)]) ((tr @ [(Queue_Receive q True, ?r)]) @ [(Yield_Cpu, r)])" for r
    by (simp add: quiet_from_def quiet_def)
  note answers_quiet [OF calculation this]
  ultimately show ?thesis using assms by (auto simp: input_turn_def svc_ask_def Let_def split: if_splits)
qed

interpretation process: service_loop "process_turn reply" "manager_answer reply" never_stops for reply
  by unfold_locales (rule process_turn_answers)

interpretation storage: service_loop "storage_turn reply" "manager_answer reply" never_stops for reply
  by unfold_locales (rule storage_turn_answers)

interpretation input: service_loop input_turn "\<lambda>_. None" never_stops
  by unfold_locales (rule input_turn_answers)

lemma owed_manager:
  "owed (manager_answer reply) ms = map (\<lambda>m. (msgId m, reply)) (filter asked ms)"
  by (induction ms) (auto simp: owed_def manager_answer_def)

text \<open>
  C35: Once they are registered, the process, storage and input managers never end, whatever the kernel answers, and
  after any number of turns each has looked at its queue that many times. The process and the storage manager have
  replied exactly to the messages they received that ask for a reply, in their order, each time with a greeting of
  their own version and name that says \<open>Status_Ok\<close>, although the kernel may not take a reply. The input manager has
  replied to none: it throws away what it receives.\<close>

theorem managers_keep_answering:
  "(process_main name version size1 env = None \<longleftrightarrow> fst (manager_start ''[process.manager] '' name env []) \<noteq> None) \<and>
   (storage_main name version size1 [] env = None \<longleftrightarrow> fst (manager_start ''[storage.manager] '' name env []) \<noteq> None) \<and>
   forever (input_turn env q) 0 tr = None \<and>
   (\<exists>new. turns (process_turn (manager_reply name version size1) env q) n tr = (tr @ new, True) \<and> receives new = n \<and>
      map snd (replies new) = map (\<lambda>m. (msgId m, \<lparr>rHeader = \<lparr>hVersion = version, hOpcode = 1\<rparr>, rStatus = Status_Ok,
        rName = bounded_copy size1 name\<rparr>)) (filter asked (received new))) \<and>
   (\<exists>new. turns (storage_turn (manager_reply name version size1) env q) n tr = (tr @ new, True) \<and> receives new = n \<and>
      map snd (replies new) = map (\<lambda>m. (msgId m, \<lparr>rHeader = \<lparr>hVersion = version, hOpcode = 1\<rparr>, rStatus = Status_Ok,
        rName = bounded_copy size1 name\<rparr>)) (filter asked (received new))) \<and>
   (\<exists>new. turns (input_turn env q) n tr = (tr @ new, True) \<and> receives new = n \<and> replies new = [])"
proof (intro conjI)
  have steady: "\<not> never_stops x" for x :: "'r svc_call \<times> svc_reply" by (simp add: never_stops_def)
  show "process_main name version size1 env = None \<longleftrightarrow> fst (manager_start ''[process.manager] '' name env []) \<noteq> None"
    using process.steady_never_returns [OF steady]
    by (auto simp: process_main_def split: prod.split option.split)
  show "storage_main name version size1 [] env = None \<longleftrightarrow> fst (manager_start ''[storage.manager] '' name env []) \<noteq> None"
    using storage.steady_never_returns [OF steady]
    by (auto simp: storage_main_def split: prod.split option.split)
  show "forever (input_turn env q) 0 tr = None" by (rule input.steady_never_returns [OF steady])
  show "\<exists>new. turns (process_turn (manager_reply name version size1) env q) n tr = (tr @ new, True) \<and> receives new = n \<and>
      map snd (replies new) = map (\<lambda>m. (msgId m, \<lparr>rHeader = \<lparr>hVersion = version, hOpcode = 1\<rparr>, rStatus = Status_Ok,
        rName = bounded_copy size1 name\<rparr>)) (filter asked (received new))"
    using process.steady_run [OF steady, of "manager_reply name version size1" env q n tr]
    by (auto simp: due_received owed_manager manager_reply_def)
  show "\<exists>new. turns (storage_turn (manager_reply name version size1) env q) n tr = (tr @ new, True) \<and> receives new = n \<and>
      map snd (replies new) = map (\<lambda>m. (msgId m, \<lparr>rHeader = \<lparr>hVersion = version, hOpcode = 1\<rparr>, rStatus = Status_Ok,
        rName = bounded_copy size1 name\<rparr>)) (filter asked (received new))"
    using storage.steady_run [OF steady, of "manager_reply name version size1" env q n tr]
    by (auto simp: due_received owed_manager manager_reply_def)
  have "due_of (\<lambda>_. None) x = []" for x :: "hello_reply svc_call \<times> svc_reply"
    by (cases "(\<lambda>_ :: ipc_message. None :: hello_reply option, x)" rule: due_of.cases) auto
  then have "due (\<lambda>_. None) new = []" for new :: "hello_reply svc_trace"
    by (induction new) auto
  then show "\<exists>new. turns (input_turn env q) n tr = (tr @ new, True) \<and> receives new = n \<and> replies new = []"
    using input.steady_run [OF steady, of env q n tr] by auto
qed

end
