(* ===== verification/Netcfg_Results.thy ===== *)
theory Netcfg_Results
  imports Netcfg Network_Files
begin

text \<open>
  What \<open>netcfg\<close> achieves: for an address set by hand the kernel is asked for the netmask of its prefix, and
  what the kernel reports right afterwards is shown; and waiting for a configuration ends, with success only after one has been reported.
\<close>

section \<open>Texts of addresses\<close>

lemma digit_chars_decimal: "c \<in> set (decimal n) \<Longrightarrow> of_char c \<in> {48..57 :: nat}"
  using digits_decimal by force

lemma ip4_no_slash: "c \<in> set (ip4 b) \<Longrightarrow> c \<noteq> CHR ''/''"
  using digit_chars_decimal by (fastforce simp: ip4_def)

lemma atoi_decimal: "atoi (decimal n) = int n"
proof -
  have digit: "\<And>c. c \<in> set (decimal n) \<Longrightarrow> of_char c \<in> {48..57 :: nat}" by (rule digit_chars_decimal)
  then have hd: "of_char (hd (decimal n)) \<in> {48..57 :: nat}" using decimal_nonempty hd_in_set by blast
  then have "\<not> is_blank (hd (decimal n))" by (auto simp: is_blank_def)
  then have drop: "dropWhile is_blank (decimal n) = decimal n" by (cases "decimal n") auto
  have signs: "hd (decimal n) \<noteq> CHR ''-''" "hd (decimal n) \<noteq> CHR ''+''" using hd by auto
  have "takeWhile (\<lambda>c. of_char c \<in> {48..57 :: nat}) (decimal n) = decimal n"
    using digit by (simp add: takeWhile_eq_all_conv)
  note same = this
  show ?thesis unfolding atoi_def Let_def drop same using signs by (simp add: digits_value_decimal)
qed

lemma parse_prefix_text:
  assumes "pton L (ip4 b) = Some b" "1 \<le> p" "p \<le> 32"
  shows "parse_prefix L (ip4 b @ ''/'' @ decimal p) = Some (b, p)"
proof -
  have "length (decimal p) \<le> 2" using assms(3) by (intro length_decimal) simp_all
  then have "take 31 (ip4 b @ ''/'' @ decimal p) = ip4 b @ ''/'' @ decimal p" using ip4_length [of b] by simp
  moreover have "takeWhile (\<lambda>c. c \<noteq> CHR ''/'') (ip4 b @ ''/'' @ decimal p) = ip4 b"
    using ip4_no_slash by (subst takeWhile_append2) auto
  ultimately show ?thesis using assms by (simp add: parse_prefix_def atoi_decimal)
qed

section \<open>Setting an address\<close>

text \<open>The settings asked for, and the lines printed.\<close>

fun set_call :: "nc_call \<times> nc_reply \<Rightarrow> set_mode list" where
  "set_call (Nc_Set m, _) = [m]"
| "set_call _ = []"

definition settings :: "nc_trace \<Rightarrow> set_mode list" where
  "settings tr = concat (map set_call tr)"

fun output_of :: "nc_call \<times> nc_reply \<Rightarrow> string list" where
  "output_of (Nc_Out s, _) = [s]"
| "output_of _ = []"

definition printed_lines :: "nc_trace \<Rightarrow> string list" where
  "printed_lines tr = concat (map output_of tr)"

lemma trace_parts [simp]:
  "settings (a @ b) = settings a @ settings b" "settings [] = []" "settings (x # b) = set_call x @ settings b"
  "printed_lines (a @ b) = printed_lines a @ printed_lines b" "printed_lines [] = []"
  "printed_lines (x # b) = output_of x @ printed_lines b"
  by (simp_all add: settings_def printed_lines_def)

lemma say_out_parts [simp]:
  "settings (say_out env s tr) = settings tr" "printed_lines (say_out env s tr) = printed_lines tr @ [s @ eol]"
  by (simp_all add: say_out_def instantos_syscall_def Let_def)

lemma fold_say_out [simp]:
  "settings (fold (say_out env) ls tr) = settings tr"
  "printed_lines (fold (say_out env) ls tr) = printed_lines tr @ map (\<lambda>s. s @ eol) ls"
  by (induction ls arbitrary: tr) simp_all

lemma say_err_quiet [simp]: "printed_lines (say_err env s tr) = printed_lines tr"
  by (simp add: say_err_def instantos_syscall_def Let_def)

text \<open>Output only adds to what has happened.\<close>

lemma say_out_adds: "prefix a tr \<Longrightarrow> prefix a (say_out env s tr)"
  by (auto simp: say_out_def instantos_syscall_def Let_def)

lemma fold_adds: "prefix a tr \<Longrightarrow> prefix a (fold (say_out env) ls tr)"
  by (induction ls arbitrary: tr) (simp_all add: say_out_adds)

lemma show_reported:
  assumes "env tr (Nc_Get 0 0) = Nc_Config c"
  shows "\<exists>rest. show_config L env tr = (True, tr @ (Nc_Get 0 0, Nc_Config c) # rest) \<and> settings rest = [] \<and>
    (cfg_up c \<longrightarrow> inet_line c @ eol \<in> set (printed_lines rest))"
proof -
  let ?shown = "snd (show_config L env tr)"
  have "fst (show_config L env tr)" "settings ?shown = settings tr"
    using assms by (auto simp: show_config_def get_config_def instantos_syscall_def Let_def)
  moreover have "\<exists>more. printed_lines ?shown = printed_lines tr @ more \<and> inet_line c @ eol \<in> set more" if "cfg_up c"
    using assms that by (auto simp: show_config_def get_config_def instantos_syscall_def Let_def address_lines_def)
  moreover have "prefix (tr @ [(Nc_Get 0 0, Nc_Config c)]) ?shown"
    using assms
    by (auto simp: show_config_def get_config_def instantos_syscall_def Let_def intro!: fold_adds say_out_adds)
  then obtain rest where "?shown = tr @ (Nc_Get 0 0, Nc_Config c) # rest" by (auto simp: prefix_def)
  ultimately show ?thesis by (intro exI [of _ rest]) (auto simp: prod_eq_iff)
qed

text \<open>The setting asked for, and the calls up to it.\<close>

definition static_setting :: "byte list \<Rightarrow> nat \<Rightarrow> set_mode" where
  "static_setting b p = Set_Static (zero_cfg\<lparr>cAddress := b, cNetmask := netmask_of p\<rparr>)"

definition asked_before :: "cfg \<Rightarrow> nc_trace" where
  "asked_before c0 = [(Nc_Get 0 0, Nc_Config c0)]"

definition asked_to_set :: "nc_env \<Rightarrow> cfg \<Rightarrow> set_mode \<Rightarrow> nc_trace" where
  "asked_to_set env c0 m = asked_before c0 @ [(Nc_Set m, env (asked_before c0) (Nc_Set m))]"

definition static_line :: "byte list \<Rightarrow> nat \<Rightarrow> string" where
  "static_line b p = ''  inet     '' @ ip4 b @ ''/'' @ decimal p @ '' (static)'' @ eol"

text \<open>
  C18: Setting an address and a prefix by hand. The kernel is asked, once, for a netmask whose first bits are
  set, as many as the prefix says; when it refuses, the program ends with 1 and shows nothing; when it accepts,
  the program at once asks for the configuration, without waiting for the new one (against the comment at the
  top of the source), and shows the address and prefix of whatever is reported then. If this is the new
  configuration, the address and the prefix shown are those that were asked for; if the kernel still reports
  the old one, the old ones are shown and the exit code is 0 all the same.
\<close>

theorem static_address_shown:
  assumes "pton L (ip4 b) = Some b" "1 \<le> p" "p \<le> 32"
    and "env [] (Nc_Get 0 0) = Nc_Config c0"
    and "env (asked_to_set env c0 (static_setting b p)) (Nc_Get 0 0) = Nc_Config c"
  shows "(\<forall>i. bit (ntohl (netmask_of p)) i \<longleftrightarrow> 32 - p \<le> i \<and> i < 32) \<and>
    (if long_of (env (asked_before c0) (Nc_Set (static_setting b p))) < 0
     then \<exists>tr. netcfg_main L env [''static'', ip4 b @ ''/'' @ decimal p] = Some (1, tr) \<and> printed_lines tr = []
     else \<exists>tr rest. netcfg_main L env [''static'', ip4 b @ ''/'' @ decimal p] = Some (0, tr) \<and>
       tr = asked_to_set env c0 (static_setting b p) @ (Nc_Get 0 0, Nc_Config c) # rest \<and> settings rest = [] \<and>
       (cfg_up c \<longrightarrow> inet_line c @ eol \<in> set (printed_lines rest)) \<and>
       (cfg_up c \<and> \<not> cfg_dhcp c \<and> cAddress c = b \<and> cNetmask c = netmask_of p \<longrightarrow> static_line b p \<in> set (printed_lines rest)))"
proof -
  let ?m = "static_setting b p" and ?arg = "ip4 b @ ''/'' @ decimal p"
  let ?n = "long_of (env (asked_before c0) (Nc_Set ?m))"
  have "get_config L env 0 0 [] = (Some c0, asked_before c0)"
    by (simp add: get_config_def instantos_syscall_def assms(4) asked_before_def Let_def)
  moreover have "parse_static L [?arg] = Some (zero_cfg\<lparr>cAddress := b, cNetmask := netmask_of p\<rparr>)"
    using parse_prefix_text [OF assms(1-3)] by (simp add: parse_static_def)
  ultimately have run: "netcfg_main L env [''static'', ?arg] = finish L env (Some (set_config L env ?m (asked_before c0)))"
    by (simp add: netcfg_main_def static_setting_def)
  have set: "set_config L env ?m (asked_before c0) = (if ?n < 0
      then (False, say_err env (''netcfg: '' @ (if ?n = - 13 then ''permission denied (root only)'' else strerr L (- ?n)))
        (asked_to_set env c0 ?m)) else (True, asked_to_set env c0 ?m))"
    by (simp add: set_config_def instantos_syscall_def asked_to_set_def Let_def)
  have quiet: "printed_lines (asked_to_set env c0 ?m) = []" by (simp add: asked_to_set_def asked_before_def)
  have bits: "bit (ntohl (netmask_of p)) i \<longleftrightarrow> 32 - p \<le> i \<and> i < 32" for i
    using assms(3) unfolding netmask_of_def ntohl_htonl by (auto simp: bit_simps)
  have line: "inet_line c @ eol = static_line b p" if "\<not> cfg_dhcp c" "cAddress c = b" "cNetmask c = netmask_of p"
    using assms(3) that by (simp add: inet_line_def static_line_def kind_text_def prefix_of_netmask)
  show ?thesis
  proof (cases "?n < 0")
    case True
    then show ?thesis using bits run set quiet by (simp add: finish_def)
  next
    case False
    obtain rest where rest: "show_config L env (asked_to_set env c0 ?m) =
        (True, asked_to_set env c0 ?m @ (Nc_Get 0 0, Nc_Config c) # rest)" "settings rest = []"
        "cfg_up c \<longrightarrow> inet_line c @ eol \<in> set (printed_lines rest)"
      using show_reported [of env "asked_to_set env c0 ?m" c L, OF assms(5)] by blast
    have "netcfg_main L env [''static'', ?arg] = Some (0, asked_to_set env c0 ?m @ (Nc_Get 0 0, Nc_Config c) # rest)"
      unfolding run set finish_def using False rest(1) by simp
    moreover have "cfg_up c \<and> \<not> cfg_dhcp c \<and> cAddress c = b \<and> cNetmask c = netmask_of p \<longrightarrow>
        static_line b p \<in> set (printed_lines rest)"
      using rest(3) line by metis
    ultimately show ?thesis using bits False rest(2,3) by simp
  qed
qed

section \<open>Waiting\<close>

fun is_clock :: "nc_call \<times> nc_reply \<Rightarrow> bool" where
  "is_clock (Nc_Clock, _) = True"
| "is_clock _ = False"

definition clock_reads :: "nc_trace \<Rightarrow> nat" where
  "clock_reads tr = length (filter is_clock tr)"

definition nc_elapsed :: "int \<times> int \<Rightarrow> int \<times> int \<Rightarrow> int" where
  "nc_elapsed t0 t = (fst t - fst t0) * 1000 + tdiv (snd t - snd t0) 1000000"

text \<open>A clock that, read often enough, is as far behind a time as one likes.\<close>

definition clock_advances :: "nc_env \<Rightarrow> bool" where
  "clock_advances env \<longleftrightarrow>
     (\<forall>t0 limit. \<exists>n. \<forall>tr s ns. n \<le> clock_reads tr \<longrightarrow> env tr Nc_Clock = Nc_Time s ns \<longrightarrow> limit \<le> nc_elapsed t0 (s, ns)) \<and>
     (\<forall>tr. \<exists>s ns. env tr Nc_Clock = Nc_Time s ns)"

text \<open>A configuration was reported that is new and has the flags waited for.\<close>

definition reported :: "32 word \<Rightarrow> nc_trace \<Rightarrow> bool" where
  "reported want tr \<longleftrightarrow> (\<exists>k t c. (Nc_Get k t, Nc_Config c) \<in> set tr \<and> gen c \<noteq> k \<and> flags c = want)"

lemma wait_loop_returns:
  assumes "\<And>tr s ns. n \<le> clock_reads tr \<Longrightarrow> env tr Nc_Clock = Nc_Time s ns \<Longrightarrow> fst seconds \<le> nc_elapsed t0 (s, ns)"
    and "\<And>tr. \<exists>s ns. env tr Nc_Clock = Nc_Time s ns" "want \<noteq> 0"
  shows "\<exists>ok tr'. wait_loop L env t0 g want seconds tr = Some (ok, tr') \<and> (ok \<longrightarrow> reported want tr')"
proof (induction "n - clock_reads tr" arbitrary: tr g rule: less_induct)
  case less
  obtain s ns where t: "env tr Nc_Clock = Nc_Time s ns" using assms(2) by blast
  let ?tr = "tr @ [(Nc_Clock, Nc_Time s ns)]"
  let ?left = "fst seconds - nc_elapsed t0 (s, ns)"
  have clock: "read_clock env tr = ((s, ns), ?tr)"
    by (simp add: read_clock_def instantos_syscall_def t Let_def)
  show ?case
  proof (cases "?left \<le> 0")
    case True
    have "wait_loop L env t0 g want seconds tr = Some (False, say_err env (''netcfg: no answer within '' @ snd seconds @ '' s'') ?tr)"
      using True by (subst wait_loop.simps) (simp add: clock nc_elapsed_def Let_def)
    then show ?thesis by blast
  next
    case False
    then have few: "clock_reads tr < n" using assms(1) t by force
    obtain c' tr2 where get: "get_config L env g ?left ?tr = (c', tr2)" by (cases "get_config L env g ?left ?tr")
    show ?thesis
    proof (cases c')
      case None
      then have "wait_loop L env t0 g want seconds tr = Some (False, tr2)"
        using False get by (subst wait_loop.simps) (simp add: clock nc_elapsed_def Let_def)
      then show ?thesis by blast
    next
      case (Some c)
      have reads: "clock_reads tr2 = clock_reads tr + 1"
        using get Some
        by (auto simp: get_config_def instantos_syscall_def clock_reads_def Let_def split: nc_reply.splits if_splits)
      have rep: "reported want tr2" if "gen c \<noteq> g" "flags c = want"
      proof -
        have "(Nc_Get g ?left, Nc_Config c) \<in> set tr2"
          using get Some assms(3) that
          by (auto simp: get_config_def instantos_syscall_def Let_def zero_cfg_def split: nc_reply.splits if_splits)
        then show ?thesis using that unfolding reported_def by blast
      qed
      show ?thesis
      proof (cases "gen c \<noteq> g \<and> flags c = want")
        case True
        then have "wait_loop L env t0 g want seconds tr = Some (True, tr2)"
          using False get Some by (subst wait_loop.simps) (simp add: clock nc_elapsed_def Let_def)
        then show ?thesis using rep True by blast
      next
        case again: False
        have "n - clock_reads tr2 < n - clock_reads tr" using few reads by simp
        note rest = less.hyps [OF this, of "gen c"]
        have "wait_loop L env t0 g want seconds tr = wait_loop L env t0 (gen c) want seconds tr2"
          using False get Some again by (subst wait_loop.simps) (auto simp: clock nc_elapsed_def Let_def)
        then show ?thesis using rest by simp
      qed
    qed
  qed
qed

text \<open>
  As long as the clock advances, waiting for a configuration ends, and with success only after the kernel
  has reported a new configuration with the flags waited for.
\<close>

theorem wait_for_returns:
  assumes "clock_advances env" "want \<noteq> 0"
  shows "\<exists>ok tr'. wait_for L env g want seconds tr = Some (ok, tr') \<and> (ok \<longrightarrow> reported want tr')"
proof -
  obtain t0 tr0 where t0: "read_clock env tr = (t0, tr0)" by (cases "read_clock env tr")
  obtain n where "\<And>tr s ns. n \<le> clock_reads tr \<Longrightarrow> env tr Nc_Clock = Nc_Time s ns \<Longrightarrow> fst seconds \<le> nc_elapsed t0 (s, ns)"
    using assms(1) unfolding clock_advances_def by blast
  from wait_loop_returns [where L = L and g = g and tr = tr0, OF this _ assms(2)] show ?thesis
    using assms(1) t0 unfolding clock_advances_def by (auto simp: wait_for_def)
qed

text \<open>A kernel that reports the setting it was given last.\<close>

fun static_env :: nc_env where
  "static_env tr (Nc_Get k t) =
     Nc_Config (case settings tr of
        [] \<Rightarrow> zero_cfg
      | _ \<Rightarrow> (case last (settings tr) of Set_Static s \<Rightarrow> s\<lparr>flags := 1\<rparr> | _ \<Rightarrow> zero_cfg))"
| "static_env tr _ = Nc_Long 0"

definition demo_libc :: nc_libc where
  "demo_libc = \<lparr>strerr = (\<lambda>_. ''?''), pton = (\<lambda>_. Some [10, 0, 2, 15]), millis = (\<lambda>_. 1000), seconds_text = id\<rparr>"

lemma static_env_reports:
  "static_env (asked_to_set static_env zero_cfg (static_setting b p)) (Nc_Get 0 0) =
     Nc_Config (zero_cfg\<lparr>cAddress := b, cNetmask := netmask_of p, flags := 1\<rparr>)"
  by (simp add: asked_to_set_def asked_before_def static_setting_def)

theorem static_address_shown_witness:
  "\<exists>tr. netcfg_main demo_libc static_env [''static'', ip4 [10, 0, 2, 15] @ ''/'' @ decimal 20] = Some (0, tr) \<and>
    static_line [10, 0, 2, 15] 20 \<in> set (printed_lines tr)"
  using static_address_shown [of demo_libc "[10, 0, 2, 15]" 20 static_env zero_cfg, OF _ _ _ _ static_env_reports]
  by (auto simp: demo_libc_def cfg_up_def cfg_dhcp_def up_flag_def dhcp_flag_def zero_cfg_def)

end
