(* ===== verification/Spec2Isabelle.thy ===== *)
theory Spec2Isabelle
  imports Terminal_Feed Terminal_Screen Terminal_Keys Terminal_Window
    Dir_Streams Sysdeps_Attributes Sysdeps_Descriptors Sysdeps_Process Loader_Phases
    Compositor_Damage Compositor_Shows File_History Resolver_Run Compositor_Scaling
    Compositor_Contents Gl_Defects Gl_Screen Compositor_Network Compositor_Cursor
    Background_Switcher Login Ntp_Results Ping_Results Small_Tools Log_Saver_Run Network_Files
    Font_Service Service_Managers Netcfg_Results
begin

text \<open>
  The user-space programs of InstantOS: the desktop's compositor, a terminal emulator, a file browser, the
  port of a C library to the kernel, the dynamic linker, the services and the network tools. This
  development models the code of those programs and proves what they do.

  \<^bold>\<open>How the programs meet.\<close> Every program asks the kernel with system calls. The port of the C library
  (\<open>src/outside/mlibc-sysdeps/instantos/sysdeps.cpp\<close>) turns the library's operations into such calls and
  keeps, in the process, the table of descriptors and of open directories. The dynamic linker
  (\<open>src/ld-instantos/src/main.cpp\<close>) runs before a program's \<open>main\<close>. The login program
  (\<open>src/login/src/main.cpp\<close>) starts the compositor (\<open>src/graphics-compositor/src\<close>), which gets the window list,
  the commits of the windows' surfaces and the input events, draws the scene and presents it to the
  screen through a back end; the terminal (\<open>src/terminal/src/main.cpp\<close>), the file browser
  (\<open>src/file-browser/src/main.cpp\<close>) and the background switcher are windows. The font manager and the process,
  storage and input managers answer requests that come over service queues. The network manager writes the
  files that nslookup reads (\<open>Network_Files\<close> proves that they fit), netcfg changes what it writes.

  \<^bold>\<open>Conventions.\<close> \<open>Prelude\<close> has what the models share. A computation that can go wrong (an access outside an
  array, signed overflow, a null pointer, an error code) is a value of a sum type, \<open>Inl\<close> the error, and
  \<open>seqE\<close> and \<open>foreach\<close> chain such computations. Code that is not in the repository is an argument of the
  definitions. The kernel and the display are environments that answer a call from all the calls made before
  (and, for the later models, the answers to them), so that answers are arbitrary and may depend on what
  the program did. The user interface library, the C library, the font library, the layouts of messages
  and floating point are records of operations (\<open>rect_ops\<close>, \<open>painter\<close>, \<open>canvas_lib\<close>, \<open>libc\<close>, \<open>nc_libc\<close>, \<open>font_lib\<close>,
  \<open>font_protocol\<close>, \<open>float_ops\<close>, \<open>doubles\<close> and others) with their documented laws as named hypotheses
  (\<open>rect_laws\<close>, \<open>color_laws\<close>, \<open>tight_unite\<close>, \<open>canvas_laws\<close>). Unsigned 32-bit fields are \<open>nat\<close> with the wrap-around
  written out (\<open>u32_add\<close>, \<open>u32_sub\<close>), addresses, pixels, masks and the bytes of messages are words. C strings
  are their characters before the NUL. Coordinates of the compositor are mathematical integers.

  \<^bold>\<open>Terminal.\<close> \<open>Terminal\<close>: the grid, the parser of control sequences, resizing; signed overflow and accesses
  outside the grid or the parameters are errors of the model. \<open>Terminal_Feed\<close>: the invariant of the
  screen under any bytes, the only error there is, cursor positioning, and two defects. \<open>Terminal_Screen\<close>:
  printing, scrolling, resizing. \<open>Terminal_Keys\<close>: keys to bytes. \<open>Terminal_Window\<close>: the handlers of the
  window, reading from the shell, repainting, setting up the pseudo-terminal.

  \<^bold>\<open>C library port.\<close> \<open>Sysdeps_Kernel\<close>: a state monad over the process' tables and the calls made. \<open>Fd_Table\<close>: the
  table of 256 descriptors; the locale \<open>slot_table\<close> says what its users rely on, and is interpreted on
  it. \<open>Sysdeps_Files\<close>, \<open>Sysdeps_Ioctl\<close>, \<open>Sysdeps_Attributes\<close>, \<open>Sysdeps_Sockets\<close>, \<open>Sysdeps_Process\<close>, \<open>Dir_Streams\<close>: the
  operations \<open>Sysdeps<X>\<close>, each the definition \<open>sys_X\<close>. \<open>Sysdeps_Descriptors\<close>: a ledger of the kernel's handles
  that their calls gain and give up, by which the table owns what the process holds open (except where a pipe finds no
  room), that passed handles are installed or closed, positioned reads, waiting for a connection, and
  defects. \<open>Dir_Streams\<close> also shows that reading a directory in pieces gives all of it.

  \<^bold>\<open>Dynamic linker.\<close> \<open>Loader\<close>: objects, loading, symbols, relocations; the layout of ELF structures is a parameter
  (\<open>elf_format\<close>). \<open>Loader_Run\<close>: relocating, protecting, initialisers, \<open>ld_main\<close>. \<open>Loader_Proofs\<close>: a library is
  loaded once. \<open>Loader_Phases\<close>: everything is relocated and then initialised, each
  library's function and each entry of its array looked at once and in order, the first definition of a symbol is found, and defects of the bounds check and of a log message.

  \<^bold>\<open>Compositor: windows and input.\<close> \<open>Compositor_Windows\<close>: windows, the taskbar, hits (\<open>scene.cpp\<close>, \<open>input.cpp\<close>,
  \<open>platform.cpp\<close>). \<open>Compositor_Taskbar\<close>: the taskbar's tiles and clicks. \<open>Compositor_Surfaces\<close>: the surface cache
  (\<open>surface.cpp\<close>). \<open>Compositor_Damage\<close>: the locale \<open>surface_store\<close>, interpreted on the cache, and that all damage
  is redrawn. \<open>Compositor_Input\<close>: pointer input (\<open>input.cpp\<close>). \<open>Compositor_Drag\<close>: sequences of pointer events, and
  a defect of the resize grip. \<open>Compositor_Network\<close>: the thread that follows the state of the network, and
  numbers on the serial port (\<open>platform.cpp\<close>). \<open>Compositor_Assets\<close>, \<open>Compositor_Cursor\<close>: icons, font and the
  pointer image, whose scaling is an area mean (\<open>assets.cpp\<close>).

  \<^bold>\<open>Compositor: drawing.\<close> \<open>Compositor_Drawing\<close>: windows, title bars, taskbar and scene as lists of operations of
  the library's canvas (\<open>surface.cpp\<close>, \<open>scene.cpp\<close>). \<open>Compositor_Canvas\<close>: the pixels such a list gives.
  \<open>Compositor_Redraw\<close>: drawing a part again gives the pixels of the whole. \<open>Compositor_Contents\<close>: the words of a
  surface are on the screen. \<open>Compositor_Wallpaper\<close>, \<open>Compositor_Blur\<close>, \<open>Compositor_Scaling\<close>: the wallpaper, its
  blurred strip and its scaling (\<open>background.cpp\<close>, \<open>render_primitives.cpp\<close>).

  \<^bold>\<open>Compositor: the screen.\<close> \<open>Framebuffer\<close>: pixels, copying rows and rectangles, the pointer over the scene
  (\<open>presentation.cpp\<close>, \<open>buffers.cpp\<close>). \<open>Flip_Backend\<close>: the two scanout buffers of \<open>FlipBackend\<close> as a step
  relation \<open>flip_step\<close> with the states \<open>flip_reachable\<close>; the invariant \<open>flip_ok\<close> says what each buffer is missing.
  \<open>Compositor_Backend\<close>: the interface \<open>CompositorBackend\<close> as the locale \<open>compositor_backend\<close>, interpreted on the
  software and the flip back end, and the choice of one. \<open>Compositor_Loop\<close>: start-up and a pass of the event loop
  (\<open>main.cpp\<close>, \<open>protocol.cpp\<close>). \<open>Compositor_Shows\<close>: whatever a run does, the screen shows the canvas drawn last,
  the pointer over it, once for any back end and then for the flip back end.

  \<^bold>\<open>Compositor: OpenGL.\<close> \<open>Gl_Backend\<close>: the frame (\<open>drawFrame\<close> of \<open>gl_backend.cpp\<close>), with the textures kept
  from earlier frames; the driver is the record of what a texture holds and the list of quads drawn.
  \<open>Gl_Fingerprint\<close>, \<open>Gl_Pictures\<close>, \<open>Gl_Bar\<close>: what the fingerprints of title bars and of the taskbar cover.
  \<open>Gl_Slots\<close>: slots are enough for the textures in use. \<open>Gl_Frames\<close>, \<open>Gl_Proof\<close>, \<open>Gl_Match\<close>, \<open>Gl_Result\<close>: every
  frame is that of a renderer that keeps nothing, when changed pixels get another address, fingerprint or
  generation (\<open>trusted\<close>, \<open>consistent\<close>). \<open>Gl_Defects\<close>: where that fails. \<open>Gl_Present\<close>, \<open>Gl_Screen\<close>: starting, the
  two scanout buffers, and that the screen shows the frame of the last flip taken, which is that renderer's only
  under the same condition.

  \<^bold>\<open>File browser and background switcher.\<close> \<open>File_Browser\<close>: the listing, paths, history, places, breadcrumb, keys.
  \<open>File_Sorting\<close>: its sort is the stable sort by a key, for which the key type is an instance of \<open>linorder\<close>.
  \<open>File_History\<close>: the two stacks refine a browsing history, Up undoes entering a folder, and the state stays
  consistent. \<open>Background_Switcher\<close>: the list of wallpapers, the keys and the request to the
  compositor; the list is the directory's images sorted, and no event leaves it.

  \<^bold>\<open>Network tools.\<close> \<open>Resolver_Names\<close>, \<open>Resolver_Answers\<close>, \<open>Resolver\<close>: \<open>nslookup.c\<close>, the names in messages, the
  answers, the exchanges and \<open>main\<close>. \<open>Resolver_Properties\<close>, \<open>Resolver_Replies\<close>, \<open>Resolver_Run\<close>: names read back as
  written, only the server's answers are taken, what is printed are the answers of the encoded reply,
  every run ends, and that an exchange over TCP that breaks off mixes two answers. \<open>Netcfg\<close>, \<open>Netcfg_Results\<close>:
  \<open>netcfg.c\<close>, the netmask set for a prefix, and that what the kernel reports right after it is shown.
  \<open>Ntp_Client\<close>, \<open>Ntp_Results\<close>: \<open>sntp.c\<close>, that the clock is only set from an answer to the request, and how
  exact the offset is; \<open>Floating\<close> has the numbers of type \<open>double\<close> as a record of operations.
  \<open>Ping\<close>, \<open>Ping_Results\<close>: \<open>ping.c\<close>, and that its statistics are those of the run.
  \<open>Network_Manager\<close>, \<open>Network_Files\<close>: the files with the configuration, that they follow it while the writes
  are taken whole, and that otherwise a reader can find a first part of a text.
  \<open>Small_Tools\<close>: \<open>dmesg\<close>, \<open>reboot\<close> and the launcher of the browser, \<open>netsurf\<close>.

  \<^bold>\<open>Services.\<close> \<open>Services\<close>: messages, replies and errors all services share. \<open>Font_Manager\<close>, \<open>Font_Service\<close>: the
  font manager, glyphs fetched row by row, and that any malformed request ends it. \<open>Service_Managers\<close>: the daemon of
  \<open>service_daemon.hpp\<close> (the session manager), the process, storage and input managers; the locale
  \<open>service_loop\<close> is what their loops share. The input manager replies to nothing. \<open>Log_Saver\<close>, \<open>Log_Saver_Run\<close>: the log saver, and that it writes the
  kernel's log without gaps. \<open>Login\<close>: the login program, and that a test script runs once.

  \<^bold>\<open>Bounds.\<close> No definition uses fuel. Loops over fixed arrays are \<open>foreach\<close> or structural recursion; the
  loops that need an argument have a measure (the rest of a text, the rows left, the ones of a mask). The
  loops whose end is up to the kernel are \<open>partial_function (option)\<close> (\<open>pump_loop\<close>, \<open>udp_wait\<close>, \<open>wait_loop\<close>, the
  polling of a connect, \<open>login_loop\<close>, \<open>query_wait\<close>, \<open>ping_loop\<close>), and the theorems about them say when they end
  (\<open>clock_advances\<close>, \<open>clock_runs\<close>, \<open>clock_passes\<close>) or that they never do. Loops that run
  forever are given as what any number of turns does.

  \<^bold>\<open>Not modelled.\<close> The layout and painting of the terminal, the file browser and the background switcher, which
  are sequences of calls of the user interface library. The shaders and state settings of OpenGL.
  In the C library port, operations that only return a constant, the assembly of a system call
  (\<open>syscall.cpp\<close>) and the headers. The test programs (\<open>gpu-test\<close>, \<open>posix-smoke\<close>,
  \<open>libc-torture\<close>, \<open>unix-test.c\<close>, the smoke tests, \<open>mlibc-hello\<close>), which exercise the kernel or a driver and print
  whether it does what they expect: they keep no state and promise nothing. The demos (\<open>cube\<close>, \<open>ui-demo\<close>).
\<close>

end
